(* ===== verification/Prelude.thy ===== *)
theory Prelude
  imports Main "HOL-Library.Word"
begin

text \<open>
  What every component of the development shares: results of fallible Rust functions, saturating
  and checked machine arithmetic, and the part of Rust's \<open>str\<close> the sources use.

  A Rust \<open>Result<T, E>\<close> is \<open>'e + 'a\<close> with \<open>Inl\<close> the error.  A Rust \<open>u8\<close>/\<open>u16\<close>/\<open>u32\<close>/\<open>u64\<close> is a
  word of that width; \<open>usize\<close> counters of list positions and \<open>u128\<close> accumulators are \<open>nat\<close> with the
  bound written out where the code checks it.  A Rust string is its list of UTF-8 bytes
  (\<open>string\<close> of HOL), so \<open>len()\<close> is \<open>length\<close> and the white-space and control-character tests read the
  UTF-8 encodings of the code points concerned.
\<close>

section \<open>Collections of hints\<close>

named_theorems names \<open>the stable names of enumerations\<close>
named_theorems smart_ctors \<open>the validating constructors of the newtypes\<close>
named_theorems transitions \<open>the guards of the state machines\<close>

section \<open>Machine integers\<close>

type_synonym u8 = "8 word"
type_synonym u16 = "16 word"
type_synonym u32 = "32 word"
type_synonym u64 = "64 word"

definition sat_add :: "'a::len word \<Rightarrow> 'a word \<Rightarrow> 'a word" where
  "sat_add a b = (if unat a + unat b < 2 ^ LENGTH('a) then a + b else - 1)"

definition sat_mul :: "'a::len word \<Rightarrow> 'a word \<Rightarrow> 'a word" where
  "sat_mul a b = (if unat a * unat b < 2 ^ LENGTH('a) then a * b else - 1)"

definition sat_sub :: "'a::len word \<Rightarrow> 'a word \<Rightarrow> 'a word" where
  "sat_sub a b = (if a < b then 0 else a - b)"

fun sat_pow :: "'a::len word \<Rightarrow> nat \<Rightarrow> 'a word" where
  "sat_pow a 0 = 1"
| "sat_pow a (Suc n) = sat_mul (sat_pow a n) a"

definition checked_shl :: "'a::len word \<Rightarrow> nat \<Rightarrow> 'a word option" where
  "checked_shl a n = (if n < LENGTH('a) then Some (push_bit n a) else None)"

lemma unat_minus_one_max: "unat (- 1 :: 'a::len word) = 2 ^ LENGTH('a) - 1"
  by (simp only: unsigned_minus_1_eq_mask mask_eq_exp_minus_1)

lemma unat_lt_pow: "unat (a :: 'a::len word) < 2 ^ LENGTH('a)"
  by (rule unsigned_less)

lemma unat_le_max: "unat (a :: 'a::len word) \<le> 2 ^ LENGTH('a) - 1"
  using unat_lt_pow [of a] by linarith

lemma unat_add_fits: "unat a + unat b < 2 ^ LENGTH('a) \<Longrightarrow> unat (a + b) = unat a + unat b"
  for a b :: "'a::len word"
  by (simp add: unat_word_ariths)

lemma unat_mul_fits: "unat a * unat b < 2 ^ LENGTH('a) \<Longrightarrow> unat (a * b) = unat a * unat b"
  for a b :: "'a::len word"
  by (simp add: unat_word_ariths)

lemma unat_sat_add: "unat (sat_add a b) = min (unat a + unat b) (2 ^ LENGTH('a) - 1)"
  for a b :: "'a::len word"
  using unat_add_fits [of a b] by (simp add: sat_add_def unat_minus_one_max)

lemma unat_sat_mul: "unat (sat_mul a b) = min (unat a * unat b) (2 ^ LENGTH('a) - 1)"
  for a b :: "'a::len word"
proof (cases "unat a * unat b < 2 ^ LENGTH('a)")
  case True
  then show ?thesis using unat_mul_fits [of a b] by (simp add: sat_mul_def)
next
  case False
  then show ?thesis by (simp add: sat_mul_def unat_minus_one_max)
qed

lemma unat_sat_sub: "unat (sat_sub a b) = unat a - unat b"
  by (auto simp: sat_sub_def word_less_nat_alt unat_sub word_le_nat_alt not_less)

lemma unat_word_min: "unat (min a b) = min (unat a) (unat b)"
  for a b :: "'a::len word"
  by (auto simp: min_def word_le_nat_alt)

lemma unat_word_max: "unat (max a b) = max (unat a) (unat b)"
  for a b :: "'a::len word"
  by (auto simp: max_def word_le_nat_alt)

lemma min_mult_cap: "min (min x m * a) m = min (x * a) (m::nat)" if "0 < a"
proof (cases "x \<le> m")
  case True
  then show ?thesis by simp
next
  case False
  have m: "m \<le> m * a" using that by simp
  also have "m * a \<le> x * a" using False by simp
  finally show ?thesis using False m by (simp add: min_absorb2)
qed

lemma unat_sat_pow: "unat (sat_pow a n) = min (unat a ^ n) (2 ^ LENGTH('a) - 1)"
  for a :: "'a::len word"
proof (induction n)
  case 0
  have "(2::nat) \<le> 2 ^ LENGTH('a)" using self_le_power [of "2::nat" "LENGTH('a)"] by simp
  then show ?case by simp
next
  case (Suc n)
  show ?case
  proof (cases "unat a = 0")
    case True
    then show ?thesis by (simp add: unat_sat_mul)
  next
    case False
    then have "0 < unat a" by (rule neq0_conv [THEN iffD1])
    from min_mult_cap [OF this, of "unat a ^ n"] show ?thesis
      by (simp add: unat_sat_mul Suc.IH mult.commute)
  qed
qed

lemmas word_nat_simps =
  unat_sat_add unat_sat_mul unat_sat_sub unat_sat_pow unat_word_min unat_word_max
  word_less_nat_alt word_le_nat_alt

section \<open>Results\<close>

text \<open>
  Rust's \<open>?\<close> operator: go on with the value, or return the error.
\<close>

definition rbind :: "'e + 'a \<Rightarrow> ('a \<Rightarrow> 'e + 'b) \<Rightarrow> 'e + 'b" where
  "rbind r f = (case r of Inl e \<Rightarrow> Inl e | Inr x \<Rightarrow> f x)"

definition ensure :: "bool \<Rightarrow> 'e \<Rightarrow> 'e + unit" where
  "ensure b e = (if b then Inr () else Inl e)"

definition is_ok :: "'e + 'a \<Rightarrow> bool" where
  "is_ok r = (case r of Inl _ \<Rightarrow> False | Inr _ \<Rightarrow> True)"

text \<open>A sequence of checks, each ended by \<open>?\<close>: the first failure is the result.\<close>

fun first_err :: "('e + unit) list \<Rightarrow> 'e + unit" where
  "first_err [] = Inr ()"
| "first_err (r # rs) = (case r of Inl e \<Rightarrow> Inl e | Inr _ \<Rightarrow> first_err rs)"

text \<open>A check of an optional field.\<close>

definition check_opt :: "('a \<Rightarrow> 'e + unit) \<Rightarrow> 'a option \<Rightarrow> 'e + unit" where
  "check_opt f x = (case x of None \<Rightarrow> Inr () | Some y \<Rightarrow> f y)"

definition check_all :: "('a \<Rightarrow> 'e + unit) \<Rightarrow> 'a list \<Rightarrow> 'e + unit" where
  "check_all f xs = first_err (map f xs)"

lemma rbind_simps [simp]: "rbind (Inl e) f = Inl e" "rbind (Inr x) f = f x"
  by (simp_all add: rbind_def)

lemma rbind_Inr_iff: "rbind r f = Inr y \<longleftrightarrow> (\<exists>x. r = Inr x \<and> f x = Inr y)"
  by (cases r) auto

lemma rbind_Inl_iff: "rbind r f = Inl e \<longleftrightarrow> r = Inl e \<or> (\<exists>x. r = Inr x \<and> f x = Inl e)"
  by (cases r) auto

lemma ensure_Inr_iff [simp]: "ensure b e = Inr u \<longleftrightarrow> b"
  by (simp add: ensure_def)

lemma ensure_Inl_iff [simp]: "ensure b e = Inl e' \<longleftrightarrow> \<not> b \<and> e' = e"
  by (auto simp: ensure_def)

lemma is_ok_simps [simp]: "is_ok (Inr x)" "\<not> is_ok (Inl e)"
  by (simp_all add: is_ok_def)

lemma is_ok_iff: "is_ok r \<longleftrightarrow> (\<exists>x. r = Inr x)"
  by (cases r) auto

lemma first_err_ok_iff: "first_err rs = Inr u \<longleftrightarrow> (\<forall>r \<in> set rs. r = Inr ())"
  by (induction rs) (auto split: sum.splits)

lemma first_err_append: "first_err (xs @ ys) = rbind (first_err xs) (\<lambda>_. first_err ys)"
  by (induction xs) (auto split: sum.splits)

lemma first_err_Inl: "first_err rs = Inl e \<Longrightarrow> Inl e \<in> set rs"
  by (induction rs) (auto split: sum.splits)

lemma check_opt_ok_iff: "check_opt f x = Inr u \<longleftrightarrow> (\<forall>y. x = Some y \<longrightarrow> f y = Inr ())"
  by (auto simp: check_opt_def split: option.splits)

lemma check_all_ok_iff: "check_all f xs = Inr u \<longleftrightarrow> (\<forall>x \<in> set xs. f x = Inr ())"
  by (auto simp: check_all_def first_err_ok_iff)

lemma check_all_map_ok: "(\<And>x. x \<in> set xs \<Longrightarrow> f x = Inr ()) \<Longrightarrow> check_all f xs = Inr ()"
  by (simp add: check_all_ok_iff)

declare first_err.simps [simp del]

lemmas check_iffs = first_err_ok_iff check_opt_ok_iff check_all_ok_iff

end
