(* ===== verification/Rust_Str.thy ===== *)
theory Rust_Str
  imports Prelude
begin

text \<open>
  The part of Rust's \<open>str\<close> the sources call: \<open>trim\<close>, \<open>is_empty\<close>, \<open>char::is_control\<close>,
  \<open>eq_ignore_ascii_case\<close>, \<open>split\<close>, \<open>strip_prefix\<close>, decimal and hexadecimal printing and
  \<open>parse::<i64>\<close>.  Strings are lists of UTF-8 bytes.  \<open>trim\<close> removes the Unicode White_Space code
  points (U+0009..U+000D, U+0020, U+0085, U+00A0, U+1680, U+2000..U+200A, U+2028, U+2029, U+202F,
  U+205F, U+3000), recognised by their one-, two- and three-byte encodings; since UTF-8 is
  self-synchronising an encoding found at the start or the end of a string is that code point.
\<close>

section \<open>Bytes\<close>

definition byte :: "char \<Rightarrow> nat" where
  "byte c = of_char c"

definition ws1 :: "char \<Rightarrow> bool" where
  "ws1 a \<longleftrightarrow> (9 \<le> byte a \<and> byte a \<le> 13) \<or> byte a = 32"

definition ws2 :: "char \<Rightarrow> char \<Rightarrow> bool" where
  "ws2 a b \<longleftrightarrow> byte a = 194 \<and> (byte b = 133 \<or> byte b = 160)"

definition ws3 :: "char \<Rightarrow> char \<Rightarrow> char \<Rightarrow> bool" where
  "ws3 a b c \<longleftrightarrow>
     (byte a = 225 \<and> byte b = 154 \<and> byte c = 128) \<or>
     (byte a = 226 \<and> byte b = 128 \<and>
        ((128 \<le> byte c \<and> byte c \<le> 138) \<or> byte c = 168 \<or> byte c = 169 \<or> byte c = 175)) \<or>
     (byte a = 226 \<and> byte b = 129 \<and> byte c = 159) \<or>
     (byte a = 227 \<and> byte b = 128 \<and> byte c = 128)"

definition is_digit :: "char \<Rightarrow> bool" where
  "is_digit c \<longleftrightarrow> 48 \<le> byte c \<and> byte c \<le> 57"

definition is_upper :: "char \<Rightarrow> bool" where
  "is_upper c \<longleftrightarrow> 65 \<le> byte c \<and> byte c \<le> 90"

definition is_lower :: "char \<Rightarrow> bool" where
  "is_lower c \<longleftrightarrow> 97 \<le> byte c \<and> byte c \<le> 122"

definition to_lower :: "char \<Rightarrow> char" where
  "to_lower c = (if is_upper c then char_of (byte c + 32) else c)"

definition eq_ignore_case :: "string \<Rightarrow> string \<Rightarrow> bool" where
  "eq_ignore_case s t \<longleftrightarrow> map to_lower s = map to_lower t"

section \<open>Trimming\<close>

text \<open>The number of bytes of the white-space code point a string starts with, 0 if none.\<close>

fun lead_ws :: "(char \<Rightarrow> bool) \<Rightarrow> (char \<Rightarrow> char \<Rightarrow> bool) \<Rightarrow> (char \<Rightarrow> char \<Rightarrow> char \<Rightarrow> bool)
    \<Rightarrow> string \<Rightarrow> nat" where
  "lead_ws p q r [] = 0"
| "lead_ws p q r [a] = (if p a then 1 else 0)"
| "lead_ws p q r [a, b] = (if p a then 1 else if q a b then 2 else 0)"
| "lead_ws p q r (a # b # c # s) =
     (if p a then 1 else if q a b then 2 else if r a b c then 3 else 0)"

lemma lead_ws_le: "lead_ws p q r s \<le> length s"
  by (cases "(p, q, r, s)" rule: lead_ws.cases) auto

lemma lead_ws_prefix: "lead_ws p q r (u @ v) = 0 \<Longrightarrow> lead_ws p q r u = 0"
  by (cases "(p, q, r, u)" rule: lead_ws.cases; cases v rule: list.exhaust;
      auto split: if_splits; metis list.exhaust lead_ws.simps(3,4) zero_neq_one zero_neq_numeral)

function drop_ws :: "(char \<Rightarrow> bool) \<Rightarrow> (char \<Rightarrow> char \<Rightarrow> bool) \<Rightarrow> (char \<Rightarrow> char \<Rightarrow> char \<Rightarrow> bool)
    \<Rightarrow> string \<Rightarrow> string" where
  "drop_ws p q r s =
     (if lead_ws p q r s = 0 then s else drop_ws p q r (drop (lead_ws p q r s) s))"
  by pat_completeness auto
termination
proof (relation "measure (\<lambda>(p, q, r, s). length s)")
  fix p q r and s :: string
  assume "lead_ws p q r s \<noteq> 0"
  moreover from this have "s \<noteq> []" by auto
  ultimately show "((p, q, r, drop (lead_ws p q r s) s), p, q, r, s)
      \<in> measure (\<lambda>(p, q, r, s). length s)" by simp
qed simp

declare drop_ws.simps [simp del]

definition trim_start :: "string \<Rightarrow> string" where
  "trim_start = drop_ws ws1 ws2 ws3"

definition trim_end :: "string \<Rightarrow> string" where
  "trim_end s = rev (drop_ws ws1 (\<lambda>b a. ws2 a b) (\<lambda>c b a. ws3 a b c) (rev s))"

definition trim :: "string \<Rightarrow> string" where
  "trim s = trim_end (trim_start s)"

definition blank :: "string \<Rightarrow> bool" where
  "blank s \<longleftrightarrow> trim s = []"

lemma drop_ws_lead: "lead_ws p q r (drop_ws p q r s) = 0"
proof (induction p q r s rule: drop_ws.induct)
  case (1 p q r s)
  then show ?case by (subst drop_ws.simps) simp
qed

lemma drop_ws_id: "lead_ws p q r s = 0 \<Longrightarrow> drop_ws p q r s = s"
  by (subst drop_ws.simps) simp

lemma drop_ws_suffix: "\<exists>u. s = u @ drop_ws p q r s"
proof (induction p q r s rule: drop_ws.induct)
  case (1 p q r s)
  show ?case
  proof (cases "lead_ws p q r s = 0")
    case True
    then show ?thesis by (simp add: drop_ws_id)
  next
    case False
    with 1 obtain u where "drop (lead_ws p q r s) s = u @ drop_ws p q r (drop (lead_ws p q r s) s)"
      by blast
    moreover from False have "drop_ws p q r s = drop_ws p q r (drop (lead_ws p q r s) s)"
      by (subst drop_ws.simps) simp
    ultimately have "s = (take (lead_ws p q r s) s @ u) @ drop_ws p q r s"
      by (metis append.assoc append_take_drop_id)
    then show ?thesis by blast
  qed
qed

lemma drop_ws_fixed_iff: "drop_ws p q r s = s \<longleftrightarrow> lead_ws p q r s = 0"
  by (metis drop_ws_id drop_ws_lead)

definition lead_end :: "string \<Rightarrow> nat" where
  "lead_end s = lead_ws ws1 (\<lambda>b a. ws2 a b) (\<lambda>c b a. ws3 a b c) (rev s)"

definition lead_start :: "string \<Rightarrow> nat" where
  "lead_start s = lead_ws ws1 ws2 ws3 s"

lemma trim_start_fixed: "trim_start s = s \<longleftrightarrow> lead_start s = 0"
  by (simp add: trim_start_def lead_start_def drop_ws_fixed_iff)

lemma trim_end_fixed: "trim_end s = s \<longleftrightarrow> lead_end s = 0"
  by (metis drop_ws_fixed_iff lead_end_def rev_rev_ident trim_end_def)

lemma trim_end_prefix: "\<exists>u. s = trim_end s @ u"
  unfolding trim_end_def
  by (metis drop_ws_suffix rev_append rev_rev_ident)

lemma lead_start_trim: "lead_start (trim s) = 0"
proof -
  obtain u where "trim_start s = trim s @ u" using trim_end_prefix unfolding trim_def by blast
  moreover have "lead_start (trim_start s) = 0"
    by (simp add: lead_start_def trim_start_def drop_ws_lead)
  ultimately show ?thesis unfolding lead_start_def by (metis lead_ws_prefix)
qed

lemma lead_end_trim: "lead_end (trim s) = 0"
  by (simp add: trim_def trim_end_def lead_end_def drop_ws_lead)

lemma trim_fixed_iff: "trim s = s \<longleftrightarrow> lead_start s = 0 \<and> lead_end s = 0"
  by (metis lead_end_trim lead_start_trim trim_def trim_end_fixed trim_start_fixed)

lemma trim_idem [simp]: "trim (trim s) = trim s"
  by (simp add: trim_fixed_iff lead_start_trim lead_end_trim)

lemma length_trim: "length (trim s) \<le> length s"
  unfolding trim_def trim_start_def
  by (metis drop_ws_suffix le_add1 le_add2 le_trans length_append trim_end_prefix)

lemma trim_length_eq: "length (trim s) = length s \<longleftrightarrow> trim s = s"
proof
  assume eq: "length (trim s) = length s"
  obtain u where u: "trim_start s = trim s @ u" using trim_end_prefix unfolding trim_def by blast
  obtain w where w: "s = w @ trim_start s"
    using drop_ws_suffix unfolding trim_start_def by blast
  from u w have s: "s = w @ trim s @ u" by simp
  then have "length s = length w + (length (trim s) + length u)"
    by (metis length_append)
  with eq have "w = []" "u = []" by simp_all
  with s show "trim s = s" by simp
qed simp

lemma trim_Nil [simp]: "trim [] = []"
  by (simp add: trim_fixed_iff lead_start_def lead_end_def)

lemma blank_Nil [simp]: "blank []"
  by (simp add: blank_def)

text \<open>A printing ASCII byte is part of no white space, so a text that has one is not blank.\<close>

definition solid :: "char \<Rightarrow> bool" where
  "solid c \<longleftrightarrow> 32 < byte c \<and> byte c < 128"

lemma solid_not_ws:
  "ws1 a \<Longrightarrow> \<not> solid a"
  "ws2 a b \<Longrightarrow> \<not> solid a \<and> \<not> solid b"
  "ws3 a b c \<Longrightarrow> \<not> solid a \<and> \<not> solid b \<and> \<not> solid c"
  by (auto simp: solid_def ws1_def ws2_def ws3_def)

definition ws_tests ::
  "(char \<Rightarrow> bool) \<Rightarrow> (char \<Rightarrow> char \<Rightarrow> bool) \<Rightarrow> (char \<Rightarrow> char \<Rightarrow> char \<Rightarrow> bool) \<Rightarrow> bool" where
  "ws_tests p q r \<longleftrightarrow> (\<forall>a. p a \<longrightarrow> \<not> solid a) \<and> (\<forall>a b. q a b \<longrightarrow> \<not> solid a \<and> \<not> solid b)
     \<and> (\<forall>a b c. r a b c \<longrightarrow> \<not> solid a \<and> \<not> solid b \<and> \<not> solid c)"

lemma ws_tests_forward: "ws_tests ws1 ws2 ws3"
  by (auto simp: ws_tests_def dest: solid_not_ws)

lemma ws_tests_backward: "ws_tests ws1 (\<lambda>b a. ws2 a b) (\<lambda>c b a. ws3 a b c)"
  by (auto simp: ws_tests_def dest: solid_not_ws)

lemma lead_ws_not_solid:
  "ws_tests p q r \<Longrightarrow> x \<in> set (take (lead_ws p q r s) s) \<Longrightarrow> \<not> solid x"
  by (cases "(p, q, r, s)" rule: lead_ws.cases) (auto simp: ws_tests_def split: if_splits)

lemma drop_ws_solid:
  "ws_tests p q r \<Longrightarrow> solid c \<Longrightarrow> c \<in> set s \<Longrightarrow> c \<in> set (drop_ws p q r s)"
proof (induction p q r s rule: drop_ws.induct)
  case (1 p q r s)
  show ?case
  proof (cases "lead_ws p q r s = 0")
    case True
    with 1 show ?thesis by (simp add: drop_ws_id)
  next
    case False
    have "c \<in> set (take (lead_ws p q r s) s) \<or> c \<in> set (drop (lead_ws p q r s) s)"
      using "1.prems"(3) by (metis Un_iff append_take_drop_id set_append)
    then have "c \<in> set (drop (lead_ws p q r s) s)"
      using lead_ws_not_solid [OF "1.prems"(1)] "1.prems"(2) by blast
    with "1.IH" [OF False "1.prems"(1,2)] False show ?thesis by (subst drop_ws.simps) simp
  qed
qed

lemma trim_solid: "solid c \<Longrightarrow> c \<in> set s \<Longrightarrow> c \<in> set (trim s)"
  by (simp add: trim_def trim_end_def trim_start_def drop_ws_solid ws_tests_forward ws_tests_backward)

lemma not_blank_solid: "solid c \<Longrightarrow> c \<in> set s \<Longrightarrow> \<not> blank s"
  using trim_solid by (fastforce simp: blank_def)

lemma lead_start_solid: "solid c \<Longrightarrow> lead_start (c # s) = 0"
  by (cases "(ws1, ws2, ws3, c # s)" rule: lead_ws.cases)
     (auto simp: lead_start_def dest: solid_not_ws)

lemma lead_ws_append_solid:
  "ws_tests p q r \<Longrightarrow> solid c \<Longrightarrow> lead_ws p q r u = 0 \<Longrightarrow> lead_ws p q r (u @ c # v) = 0"
  by (cases "(p, q, r, u)" rule: lead_ws.cases; cases v; cases "tl v")
    (auto simp: ws_tests_def split: if_splits)

lemma trim_solid_ends: "solid (hd s) \<Longrightarrow> solid (last s) \<Longrightarrow> s \<noteq> [] \<Longrightarrow> trim s = s"
proof -
  assume s: "solid (hd s)" "solid (last s)" "s \<noteq> []"
  then have "lead_start s = 0" using lead_start_solid [of "hd s" "tl s"] by simp
  moreover have "lead_end s = 0"
    using s lead_ws_append_solid [OF ws_tests_backward, of "last s" "[]" "rev (butlast s)"]
    by (cases s rule: rev_cases) (simp_all add: lead_end_def)
  ultimately show ?thesis by (simp add: trim_fixed_iff)
qed

lemma solid_slash [simp]: "solid CHR ''/''"
  by (simp add: solid_def byte_def)

section \<open>Control characters\<close>

text \<open>\<open>char::is_control\<close>: U+0000..U+001F, U+007F and U+0080..U+009F (encoded as C2 80..C2 9F).\<close>

definition ctl1 :: "char \<Rightarrow> bool" where
  "ctl1 a \<longleftrightarrow> byte a < 32 \<or> byte a = 127"

definition ctl2 :: "char \<Rightarrow> char \<Rightarrow> bool" where
  "ctl2 a b \<longleftrightarrow> byte a = 194 \<and> 128 \<le> byte b \<and> byte b \<le> 159"

fun has_control :: "string \<Rightarrow> bool" where
  "has_control [] = False"
| "has_control [a] = ctl1 a"
| "has_control (a # b # s) = (ctl1 a \<or> ctl2 a b \<or> has_control (b # s))"

lemma has_control_append_ascii:
  assumes "u = [] \<or> byte (last u) \<noteq> 194"
  shows "has_control (u @ v) \<longleftrightarrow> has_control u \<or> has_control v"
  using assms
proof (induction u rule: has_control.induct)
  case (2 a)
  then show ?case by (cases v) (auto simp: ctl2_def)
qed auto

section \<open>Printing and parsing numbers\<close>

definition digit_char :: "nat \<Rightarrow> char" where
  "digit_char d = char_of (48 + d)"

fun show_nat :: "nat \<Rightarrow> string" where
  "show_nat n = (if n < 10 then [digit_char n] else show_nat (n div 10) @ [digit_char (n mod 10)])"

declare show_nat.simps [simp del]

definition show_int :: "int \<Rightarrow> string" where
  "show_int i = (if i < 0 then CHR ''-'' # show_nat (nat (- i)) else show_nat (nat i))"

fun digits_val :: "nat \<Rightarrow> string \<Rightarrow> nat option" where
  "digits_val acc [] = Some acc"
| "digits_val acc (c # cs) =
     (if is_digit c then digits_val (acc * 10 + (byte c - 48)) cs else None)"

definition parse_digits :: "string \<Rightarrow> nat option" where
  "parse_digits s = (if s = [] then None else digits_val 0 s)"

definition i64_range :: "int \<Rightarrow> bool" where
  "i64_range i \<longleftrightarrow> - (2 ^ 63) \<le> i \<and> i < 2 ^ 63"

definition in_i64 :: "int \<Rightarrow> int option" where
  "in_i64 i = (if i64_range i then Some i else None)"

text \<open>\<open>str::parse::<i64>\<close>: an optional sign, at least one digit, no overflow.\<close>

definition parse_i64 :: "string \<Rightarrow> int option" where
  "parse_i64 s =
     (case s of
        [] \<Rightarrow> None
      | c # cs \<Rightarrow>
          if c = CHR ''-'' then Option.bind (parse_digits cs) (\<lambda>n. in_i64 (- int n))
          else if c = CHR ''+'' then Option.bind (parse_digits cs) (\<lambda>n. in_i64 (int n))
          else Option.bind (parse_digits s) (\<lambda>n. in_i64 (int n)))"

lemma byte_char_of: "n < 256 \<Longrightarrow> byte (char_of n) = n"
  by (simp add: byte_def)

lemma byte_digit_char: "d < 10 \<Longrightarrow> byte (digit_char d) = 48 + d"
  by (simp add: digit_char_def byte_char_of)

lemma is_digit_digit_char: "d < 10 \<Longrightarrow> is_digit (digit_char d)"
  by (simp add: is_digit_def byte_digit_char)

lemma show_nat_digits: "\<forall>c \<in> set (show_nat n). is_digit c"
proof (induction n rule: show_nat.induct)
  case (1 n)
  then show ?case by (subst show_nat.simps) (auto simp: is_digit_digit_char)
qed

lemma show_nat_ne [simp]: "show_nat n \<noteq> []"
  by (subst show_nat.simps) simp

lemma digits_val_append:
  "digits_val acc (u @ v) = Option.bind (digits_val acc u) (\<lambda>a. digits_val a v)"
  by (induction u arbitrary: acc) auto

lemma digits_val_show_nat: "digits_val 0 (show_nat n) = Some n"
proof (induction n rule: show_nat.induct)
  case (1 n)
  show ?case
  proof (cases "n < 10")
    case True
    then show ?thesis
      by (subst show_nat.simps) (simp add: is_digit_digit_char byte_digit_char)
  next
    case False
    have "show_nat n = show_nat (n div 10) @ [digit_char (n mod 10)]"
      by (subst show_nat.simps) (use False in simp)
    with 1 [OF False] show ?thesis
      by (simp add: digits_val_append is_digit_digit_char byte_digit_char)
  qed
qed

lemma parse_digits_show_nat: "parse_digits (show_nat n) = Some n"
  by (simp add: parse_digits_def digits_val_show_nat)

lemma show_nat_inj: "show_nat m = show_nat n \<longleftrightarrow> m = n"
  by (metis digits_val_show_nat option.inject)

lemma is_digit_not: "is_digit c \<Longrightarrow> c \<noteq> CHR ''-'' \<and> c \<noteq> CHR ''+'' \<and> c \<noteq> CHR '','' \<and> \<not> ws1 c"
  by (auto simp: is_digit_def byte_def ws1_def)

lemma parse_i64_show_int: "i64_range i \<Longrightarrow> parse_i64 (show_int i) = Some i"
proof (cases "i < 0")
  case True
  assume "i64_range i"
  with True show ?thesis
    by (simp add: show_int_def parse_i64_def parse_digits_show_nat in_i64_def)
next
  case False
  assume r: "i64_range i"
  obtain c cs where c: "show_nat (nat i) = c # cs" by (cases "show_nat (nat i)") auto
  then have "is_digit c" using show_nat_digits [of "nat i"] by simp
  with c r False show ?thesis
    using parse_digits_show_nat [of "nat i"] is_digit_not [of c]
    by (simp add: show_int_def parse_i64_def in_i64_def)
qed

section \<open>Splitting\<close>

fun split_on :: "char \<Rightarrow> string \<Rightarrow> string list" where
  "split_on c [] = [[]]"
| "split_on c (x # xs) =
     (if x = c then [] # split_on c xs
      else case split_on c xs of [] \<Rightarrow> [[x]] | p # ps \<Rightarrow> (x # p) # ps)"

definition strip_prefix :: "string \<Rightarrow> string \<Rightarrow> string option" where
  "strip_prefix p s = (if take (length p) s = p then Some (drop (length p) s) else None)"

lemma split_on_ne [simp]: "split_on c s \<noteq> []"
  by (induction s) (auto split: list.splits)

lemma split_on_free: "c \<notin> set s \<Longrightarrow> split_on c s = [s]"
  by (induction s) auto

lemma split_on_sep: "c \<notin> set u \<Longrightarrow> split_on c (u @ c # v) = u # split_on c v"
  by (induction u) auto

section \<open>Hexadecimal\<close>

definition hex_digit :: "nat \<Rightarrow> char" where
  "hex_digit n = (if n < 10 then char_of (48 + n) else char_of (87 + n))"

fun hex_lower :: "u8 list \<Rightarrow> string" where
  "hex_lower [] = []"
| "hex_lower (b # bs) = hex_digit (unat b div 16) # hex_digit (unat b mod 16) # hex_lower bs"

definition is_hex :: "char \<Rightarrow> bool" where
  "is_hex c \<longleftrightarrow> is_digit c \<or> (97 \<le> byte c \<and> byte c \<le> 102) \<or> (65 \<le> byte c \<and> byte c \<le> 70)"

lemma length_hex_lower [simp]: "length (hex_lower bs) = 2 * length bs"
  by (induction bs) auto

lemma hex_digit_byte: "n < 16 \<Longrightarrow> byte (hex_digit n) = (if n < 10 then 48 + n else 87 + n)"
  by (simp add: hex_digit_def byte_char_of)

lemma hex_digit_is_hex: "n < 16 \<Longrightarrow> is_hex (hex_digit n)"
  by (auto simp: is_hex_def is_digit_def hex_digit_byte)

lemma hex_lower_is_hex: "\<forall>c \<in> set (hex_lower bs). is_hex c"
proof (induction bs)
  case (Cons b bs)
  have "unat b < 256" using unat_lt_pow [of b] by simp
  then show ?case using Cons by (auto intro: hex_digit_is_hex)
qed simp

lemma hex_digit_inj: "m < 16 \<Longrightarrow> n < 16 \<Longrightarrow> hex_digit m = hex_digit n \<Longrightarrow> m = n"
  by (drule arg_cong [of _ _ byte]) (auto simp: hex_digit_byte split: if_splits)

lemma hex_lower_inj: "hex_lower xs = hex_lower ys \<Longrightarrow> xs = ys"
proof (induction xs arbitrary: ys)
  case Nil
  then show ?case by (cases ys) auto
next
  case (Cons x xs)
  then obtain y ys' where ys: "ys = y # ys'" by (cases ys) auto
  have "unat x < 256" "unat y < 256" using unat_lt_pow [of x] unat_lt_pow [of y] by simp_all
  then have "unat x div 16 = unat y div 16" "unat x mod 16 = unat y mod 16"
    using Cons.prems ys by (auto intro!: hex_digit_inj)
  then have "unat x = unat y" by (metis div_mult_mod_eq)
  with Cons ys show ?case by (simp add: word_unat_eq_iff)
qed

end
