(* ===== verification/Interfaces.thy ===== *)
theory Interfaces
  imports Rust_Str
begin

text \<open>
  The contracts between components, one locale each; the component that provides an interface
  interprets its locale on its own definitions.

  \<^item> \<open>checked_newtype\<close>: a newtype with a validating constructor and a \<open>validate\<close> method
    (identifiers, dates, currency and country codes).
  \<^item> \<open>validated_struct\<close>: a struct whose \<open>new\<close> validates and stores its argument.
  \<^item> \<open>lifecycle\<close>: a state enumeration with a transition guard and terminal states.
  \<^item> \<open>backoff\<close>: a capped, non-decreasing schedule of retry delays.
  \<^item> \<open>once_ledger\<close>: a set of identifiers that answers "first time seen" exactly once.
  \<^item> \<open>row_lookup\<close>: the outbox store behind the reconciliation endpoint.
\<close>

section \<open>Validating constructors\<close>

locale checked_newtype =
  fixes mk :: "'r \<Rightarrow> 'e + 't"
    and raw :: "'t \<Rightarrow> 'r"
    and validate :: "'t \<Rightarrow> 'e + unit"
  assumes mk_validate: "mk r = Inr x \<longleftrightarrow> raw x = r \<and> validate x = Inr ()"
begin

lemma mk_valid: "mk r = Inr x \<Longrightarrow> validate x = Inr ()"
  by (simp add: mk_validate)

lemma mk_raw: "mk r = Inr x \<Longrightarrow> raw x = r"
  by (simp add: mk_validate)

lemma mk_roundtrip: "validate x = Inr () \<Longrightarrow> mk (raw x) = Inr x"
  by (simp add: mk_validate)

lemma mk_inj: "mk r = Inr x \<Longrightarrow> mk s = Inr x \<Longrightarrow> r = s"
  by (simp add: mk_validate)

lemma mk_revalidates: "mk r = Inr x \<Longrightarrow> mk (raw x) = Inr x"
  by (simp add: mk_validate)

end

text \<open>A struct whose constructor validates what it was given and stores it unchanged.\<close>

locale validated_struct =
  fixes build :: "'t \<Rightarrow> 'e + 't"
    and validate :: "'t \<Rightarrow> 'e + unit"
  assumes build_validate: "build x = rbind (validate x) (\<lambda>_. Inr x)"

sublocale validated_struct \<subseteq> checked_newtype build "\<lambda>x. x" validate
proof
  show "build r = Inr x \<longleftrightarrow> x = r \<and> validate x = Inr ()" for r x
    by (auto simp: build_validate rbind_Inr_iff)
qed

section \<open>Lifecycles\<close>

locale lifecycle =
  fixes can_go :: "'s \<Rightarrow> 's \<Rightarrow> bool"
    and terminal :: "'s \<Rightarrow> bool"
    and rank :: "'s \<Rightarrow> nat"
    and top :: nat
  assumes rank_step: "can_go s t \<Longrightarrow> rank s < rank t"
    and rank_le_top: "rank s \<le> top"
    and terminal_iff: "terminal s \<longleftrightarrow> (\<forall>t. \<not> can_go s t)"
begin

lemma rank_reach: "can_go\<^sup>+\<^sup>+ s t \<Longrightarrow> rank s < rank t"
  by (induction rule: tranclp_induct) (auto dest: rank_step)

lemma acyclic_reach: "\<not> can_go\<^sup>+\<^sup>+ s s"
  using rank_reach by blast

lemma no_return: "can_go\<^sup>+\<^sup>+ s t \<Longrightarrow> \<not> can_go\<^sup>*\<^sup>* t s"
  by (metis acyclic_reach tranclp_rtranclp_tranclp)

fun path :: "'s \<Rightarrow> 's list \<Rightarrow> bool" where
  "path s [] = True"
| "path s (t # ts) = (can_go s t \<and> path t ts)"

lemma path_length: "path s ts \<Longrightarrow> length ts + rank s \<le> top"
proof (induction ts arbitrary: s)
  case Nil
  then show ?case by (simp add: rank_le_top)
next
  case (Cons t ts)
  then have "length ts + rank t \<le> top" "rank s < rank t" by (auto dest: rank_step)
  then show ?case by simp
qed

lemma path_reach: "path s ts \<Longrightarrow> t \<in> set ts \<Longrightarrow> can_go\<^sup>+\<^sup>+ s t"
  by (induction ts arbitrary: s) (auto intro: tranclp.r_into_trancl tranclp_into_tranclp2)

lemma path_distinct: "path s ts \<Longrightarrow> distinct (s # ts)"
proof (induction ts arbitrary: s)
  case (Cons t ts)
  then have "s \<notin> set (t # ts)" using path_reach [OF Cons.prems] acyclic_reach by blast
  moreover have "distinct (t # ts)" using Cons.IH [of t] Cons.prems by simp
  ultimately show ?case by simp
qed simp

lemma terminates: "\<exists>t. can_go\<^sup>*\<^sup>* s t \<and> terminal t"
proof (induction "top - rank s" arbitrary: s rule: less_induct)
  case less
  show ?case
  proof (cases "terminal s")
    case False
    then obtain t where t: "can_go s t" by (auto simp: terminal_iff)
    then have "top - rank t < top - rank s"
      using rank_step [OF t] rank_le_top [of t] by linarith
    then obtain u where "can_go\<^sup>*\<^sup>* t u" "terminal u" using less by blast
    with t show ?thesis by (meson converse_rtranclp_into_rtranclp)
  qed blast
qed

end

section \<open>Retry schedules\<close>

locale backoff =
  fixes delay :: "nat \<Rightarrow> nat"
    and cap :: nat
    and steps :: nat
  assumes delay_cap: "k < steps \<Longrightarrow> delay k \<le> cap"
    and delay_step: "Suc k < steps \<Longrightarrow> delay k \<le> delay (Suc k)"
begin

lemma delay_mono: "j \<le> k \<Longrightarrow> k < steps \<Longrightarrow> delay j \<le> delay k"
proof (induction rule: dec_induct)
  case (step n)
  then show ?case using delay_step [of n] by simp
qed simp

lemma delay_total: "n \<le> steps \<Longrightarrow> (\<Sum>k < n. delay k) \<le> n * cap"
  using sum_bounded_above [of "{..<n}" delay cap] delay_cap by simp

lemma delay_saturates: "delay k = cap \<Longrightarrow> k \<le> l \<Longrightarrow> l < steps \<Longrightarrow> delay l = cap"
  using delay_mono [of k l] delay_cap [of l] by simp

end

section \<open>Idempotency ledgers\<close>

locale once_ledger =
  fixes record_id :: "'l \<Rightarrow> 'k \<Rightarrow> bool \<times> 'l"
    and contains_id :: "'l \<Rightarrow> 'k \<Rightarrow> bool"
  assumes record_fresh: "fst (record_id l k) \<longleftrightarrow> \<not> contains_id l k"
    and record_contains: "contains_id (snd (record_id l k)) j \<longleftrightarrow> j = k \<or> contains_id l j"
begin

fun record_all :: "'l \<Rightarrow> 'k list \<Rightarrow> bool list \<times> 'l" where
  "record_all l [] = ([], l)"
| "record_all l (k # ks) =
     (let (b, l') = record_id l k; (bs, l'') = record_all l' ks in (b # bs, l''))"

lemma record_twice: "\<not> fst (record_id (snd (record_id l k)) k)"
  by (simp add: record_fresh record_contains)

lemma record_all_contains:
  "contains_id (snd (record_all l ks)) j \<longleftrightarrow> j \<in> set ks \<or> contains_id l j"
proof (induction ks arbitrary: l)
  case (Cons k ks)
  show ?case
    using Cons.IH [of "snd (record_id l k)"] record_contains [of l k j]
    by (auto simp: split_def Let_def)
qed simp

lemma record_all_fresh:
  "i < length ks \<Longrightarrow>
     fst (record_all l ks) ! i \<longleftrightarrow> \<not> contains_id l (ks ! i) \<and> ks ! i \<notin> set (take i ks)"
proof (induction ks arbitrary: l i)
  case (Cons k ks)
  obtain b l' where r: "record_id l k = (b, l')" by (cases "record_id l k")
  obtain bs l'' where a: "record_all l' ks = (bs, l'')" by (cases "record_all l' ks")
  have b: "b \<longleftrightarrow> \<not> contains_id l k" using record_fresh [of l k] r by simp
  have c: "contains_id l' j \<longleftrightarrow> j = k \<or> contains_id l j" for j
    using record_contains [of l k j] r by simp
  show ?case
  proof (cases i)
    case 0
    then show ?thesis by (simp add: r a b)
  next
    case (Suc m)
    with Cons show ?thesis using Cons.IH [of m l'] by (auto simp: r a c)
  qed
qed simp

end

section \<open>The outbox store behind the reconciliation endpoint\<close>

text \<open>
  What the trait documents: one result per fingerprint, in input order, scoped to the tenant
  (\<open>row\<close> is the bucket of the outbox row of a tenant and a fingerprint, if there is one).
\<close>

locale row_lookup =
  fixes buckets_for :: "'store \<Rightarrow> string \<Rightarrow> string list \<Rightarrow> 'e + 'b option list"
    and row :: "'store \<Rightarrow> string \<Rightarrow> string \<Rightarrow> 'b option"
  assumes buckets_rows: "buckets_for s t fps = Inr (map (row s t) fps)"
begin

lemma buckets_length: "buckets_for s t fps = Inr bs \<Longrightarrow> length bs = length fps"
  by (auto simp: buckets_rows)

lemma buckets_map_of:
  "buckets_for s t fps = Inr bs \<Longrightarrow> fp \<in> set fps \<Longrightarrow> map_of (zip fps bs) fp = Some (row s t fp)"
  by (auto simp: buckets_rows map_of_zip_map)

end

end
