(* ===== verification/Ir.thy ===== *)
theory Ir
  imports Interfaces
begin

text \<open>
  The commercial-document model of \<open>crates/ir/src/lib.rs\<close>: the data types of a document, the
  validating constructors, \<open>validate\<close> of every struct in the order the code checks the fields,
  and the lossiness ledger that compares a document with its re-parsed copy.

  \<open>'d\<close> stands for \<open>rust_decimal::Decimal\<close> and \<open>'j\<close> for a non-null \<open>serde_json::Value\<close>, both of
  third-party crates; a comparison of decimals is an argument (\<open>deq\<close>) because \<open>Decimal\<close>'s \<open>==\<close>
  compares numbers, not representations.
\<close>

section \<open>Errors and field checks\<close>

datatype ir_error =
    IrMissingRequiredField string
  | IrEmptyCollection string
  | IrInvalidDate string
  | IrInvalidCurrency string
  | IrInvalidCountryCode string
  | IrInvalidExtensionUrn string
  | IrInvalidExtensionPayload string
  | IrInvalidProfileUrn string
  | IrJson string

definition ir_validate_non_empty :: "string \<Rightarrow> string \<Rightarrow> ir_error + unit" where
  "ir_validate_non_empty s field = ensure (\<not> blank s) (IrMissingRequiredField field)"

definition non_empty :: "string \<Rightarrow> string \<Rightarrow> ir_error + string" where
  "non_empty s field = rbind (ir_validate_non_empty s field) (\<lambda>_. Inr s)"

definition is_upper_ascii_code :: "string \<Rightarrow> nat \<Rightarrow> bool" where
  "is_upper_ascii_code s n \<longleftrightarrow> length s = n \<and> list_all is_upper s"

definition is_leap_year :: "nat \<Rightarrow> bool" where
  "is_leap_year y \<longleftrightarrow> (y mod 4 = 0 \<and> y mod 100 \<noteq> 0) \<or> y mod 400 = 0"

definition days_in_month :: "nat \<Rightarrow> nat \<Rightarrow> nat" where
  "days_in_month y m =
     (if m \<in> {1, 3, 5, 7, 8, 10, 12} then 31
      else if m \<in> {4, 6, 9, 11} then 30
      else if m = 2 then (if is_leap_year y then 29 else 28)
      else 0)"

text \<open>
  Bytes 0-3 are the year, 5-6 the month and 8-9 the day; the digit tests precede the parses, so
  \<open>get\<close> and \<open>parse\<close> of the code cannot fail there.
\<close>

definition is_valid_date :: "string \<Rightarrow> bool" where
  "is_valid_date s =
     (if length s \<noteq> 10 then False
      else if s ! 4 \<noteq> CHR ''-'' \<or> s ! 7 \<noteq> CHR ''-'' then False
      else if \<not> list_all (\<lambda>i. i = 4 \<or> i = 7 \<or> is_digit (s ! i)) [0..<10] then False
      else case parse_digits (take 4 s) of
          None \<Rightarrow> False
        | Some year \<Rightarrow>
            (case parse_digits (take 2 (drop 5 s)) of
               None \<Rightarrow> False
             | Some month \<Rightarrow>
                 (case parse_digits (take 2 (drop 8 s)) of
                    None \<Rightarrow> False
                  | Some day \<Rightarrow>
                      if year = 0 \<or> \<not> (1 \<le> month \<and> month \<le> 12) then False
                      else 1 \<le> day \<and> day \<le> days_in_month year month)))"

section \<open>Newtypes\<close>

datatype document_id = DocumentId (document_id_str: string)
datatype document_number = DocumentNumber (document_number_str: string)
datatype date_only = DateOnly (date_str: string)
datatype iso4217_code = Iso4217Code (currency_str: string)
datatype country_code = CountryCode (country_str: string)

definition document_id_new :: "string \<Rightarrow> ir_error + document_id" where
  "document_id_new v = rbind (non_empty v ''id'') (\<lambda>s. Inr (DocumentId s))"

definition document_id_validate :: "document_id \<Rightarrow> ir_error + unit" where
  "document_id_validate x = ir_validate_non_empty (document_id_str x) ''id''"

definition document_number_new :: "string \<Rightarrow> ir_error + document_number" where
  "document_number_new v = rbind (non_empty v ''document_number'') (\<lambda>s. Inr (DocumentNumber s))"

definition document_number_validate :: "document_number \<Rightarrow> ir_error + unit" where
  "document_number_validate x = ir_validate_non_empty (document_number_str x) ''document_number''"

definition date_new :: "string \<Rightarrow> ir_error + date_only" where
  "date_new v = (if is_valid_date v then Inr (DateOnly v) else Inl (IrInvalidDate v))"

definition date_validate :: "date_only \<Rightarrow> ir_error + unit" where
  "date_validate x = (if is_valid_date (date_str x) then Inr () else Inl (IrInvalidDate (date_str x)))"

definition currency_new :: "string \<Rightarrow> ir_error + iso4217_code" where
  "currency_new v =
     (if is_upper_ascii_code v 3 then Inr (Iso4217Code v) else Inl (IrInvalidCurrency v))"

definition currency_validate :: "iso4217_code \<Rightarrow> ir_error + unit" where
  "currency_validate x =
     (if is_upper_ascii_code (currency_str x) 3 then Inr ()
      else Inl (IrInvalidCurrency (currency_str x)))"

definition country_new :: "string \<Rightarrow> ir_error + country_code" where
  "country_new v =
     (if is_upper_ascii_code v 2 then Inr (CountryCode v) else Inl (IrInvalidCountryCode v))"

definition country_validate :: "country_code \<Rightarrow> ir_error + unit" where
  "country_validate x =
     (if is_upper_ascii_code (country_str x) 2 then Inr ()
      else Inl (IrInvalidCountryCode (country_str x)))"

lemmas newtype_defs =
  document_id_new_def document_id_validate_def document_number_new_def document_number_validate_def
  date_new_def date_validate_def currency_new_def currency_validate_def country_new_def
  country_validate_def non_empty_def ir_validate_non_empty_def

interpretation doc_id: checked_newtype document_id_new document_id_str document_id_validate
  by unfold_locales (auto simp: newtype_defs rbind_Inr_iff document_id.expand)

interpretation doc_number: checked_newtype document_number_new document_number_str
    document_number_validate
  by unfold_locales (auto simp: newtype_defs rbind_Inr_iff document_number.expand)

interpretation date: checked_newtype date_new date_str date_validate
  by unfold_locales (auto simp: newtype_defs date_only.expand)

interpretation currency: checked_newtype currency_new currency_str currency_validate
  by unfold_locales (auto simp: newtype_defs iso4217_code.expand)

interpretation country: checked_newtype country_new country_str country_validate
  by unfold_locales (auto simp: newtype_defs country_code.expand)

section \<open>Enumerations\<close>

datatype schema_version = V1_0

datatype document_type = Invoice | CreditNote | DebitNote | ProForma | SelfBilled

datatype payment_instruction_kind = Sepa | IbanBic | SwissQr | EpcQr | ZatcaQr | OtherInstruction

datatype reference_kind_class =
    Order | PrecedingInvoice | Contract | DespatchAdvice | ReceivingAdvice | OtherReference

datatype 'j json_value = JNull | JNonNull 'j

section \<open>Structs and their checks\<close>

record localized_string =
  ls_language :: string
  ls_text :: string

definition localized_string_validate :: "string \<Rightarrow> localized_string \<Rightarrow> ir_error + unit" where
  "localized_string_validate field x =
     first_err [ir_validate_non_empty (ls_language x) field, ir_validate_non_empty (ls_text x) field]"

record party_tax_id =
  tax_scheme :: string
  tax_value :: string

definition party_tax_id_validate :: "party_tax_id \<Rightarrow> ir_error + unit" where
  "party_tax_id_validate x =
     first_err [ir_validate_non_empty (tax_scheme x) ''party.tax_ids.scheme'',
                ir_validate_non_empty (tax_value x) ''party.tax_ids.value'']"

record postal_address =
  addr_lines :: "string list"
  addr_city :: string
  addr_subdivision :: "string option"
  addr_postal_code :: string
  addr_country :: country_code

definition postal_address_validate :: "postal_address \<Rightarrow> ir_error + unit" where
  "postal_address_validate x =
     first_err [check_all (\<lambda>l. ir_validate_non_empty l ''party.address.lines'') (addr_lines x),
                ir_validate_non_empty (addr_city x) ''party.address.city'',
                ir_validate_non_empty (addr_postal_code x) ''party.address.postal_code'',
                country_validate (addr_country x)]"

record contact =
  contact_name :: "string option"
  contact_email :: "string option"
  contact_phone :: "string option"

record party =
  party_id :: "string option"
  party_name :: string
  party_tax_ids :: "party_tax_id list"
  party_address :: postal_address
  party_contact :: "contact option"

definition party_validate :: "string \<Rightarrow> party \<Rightarrow> ir_error + unit" where
  "party_validate field x =
     first_err [ir_validate_non_empty (party_name x) field,
                check_all party_tax_id_validate (party_tax_ids x),
                postal_address_validate (party_address x)]"

record deliver_to_party =
  dtp_name :: "string option"
  dtp_location_id :: "string option"
  dtp_address :: "postal_address option"

definition deliver_to_validate :: "deliver_to_party \<Rightarrow> ir_error + unit" where
  "deliver_to_validate x =
     first_err [check_opt postal_address_validate (dtp_address x),
                ensure (\<not> (dtp_name x = None \<and> dtp_location_id x = None \<and> dtp_address x = None))
                  (IrMissingRequiredField ''deliver_to'')]"

record payment_terms =
  terms_description :: string
  terms_due_date :: "date_only option"

definition payment_terms_validate :: "payment_terms \<Rightarrow> ir_error + unit" where
  "payment_terms_validate x =
     first_err [ir_validate_non_empty (terms_description x) ''payment_terms.description'',
                check_opt date_validate (terms_due_date x)]"

record payment_instruction =
  pi_kind :: payment_instruction_kind
  pi_account :: "string option"
  pi_reference :: "string option"

record 'j jurisdiction_extension =
  ext_urn :: string
  ext_payload :: "'j json_value"

definition has_urn_scheme :: "string \<Rightarrow> bool" where
  "has_urn_scheme v \<longleftrightarrow>
     4 \<le> length v \<and> to_lower (v ! 0) = CHR ''u'' \<and> to_lower (v ! 1) = CHR ''r''
     \<and> to_lower (v ! 2) = CHR ''n'' \<and> v ! 3 = CHR '':''"

definition canonicalise_urn :: "string \<Rightarrow> string" where
  "canonicalise_urn urn0 =
     (let urn = (if length (trim urn0) = length urn0 then urn0 else trim urn0)
      in if has_urn_scheme urn \<and> list_ex is_upper (take 3 urn) then ''urn:'' @ drop 4 urn
         else urn)"

definition extension_validate :: "'j jurisdiction_extension \<Rightarrow> ir_error + unit" where
  "extension_validate x =
     (let trimmed = trim (ext_urn x)
      in if \<not> has_urn_scheme trimmed \<or> length trimmed \<le> 4 then
           Inl (IrInvalidExtensionUrn (ext_urn x))
         else if ext_payload x = JNull then Inl (IrInvalidExtensionPayload (ext_urn x))
         else Inr ())"

definition extension_new ::
  "string \<Rightarrow> 'j json_value \<Rightarrow> ir_error + 'j jurisdiction_extension" where
  "extension_new urn payload =
     (let e = \<lparr>ext_urn = canonicalise_urn urn, ext_payload = payload\<rparr>
      in rbind (extension_validate e) (\<lambda>_. Inr e))"

record item_classification =
  cls_code :: string
  cls_scheme_id :: string
  cls_scheme_version :: "string option"

definition item_classification_validate :: "item_classification \<Rightarrow> ir_error + unit" where
  "item_classification_validate x =
     first_err [ir_validate_non_empty (cls_code x) ''lines.classifications.code'',
                ir_validate_non_empty (cls_scheme_id x) ''lines.classifications.scheme_id'']"

record 'd document_allowance_charge =
  ac_is_charge :: bool
  ac_amount :: 'd
  ac_base_amount :: "'d option"
  ac_percentage :: "'d option"
  ac_tax_category :: "string option"
  ac_tax_rate :: "'d option"
  ac_reason :: "string option"
  ac_reason_code :: "string option"

definition allowance_charge_validate :: "'d document_allowance_charge \<Rightarrow> ir_error + unit" where
  "allowance_charge_validate x =
     ensure (\<not> (ac_reason x = None \<and> ac_reason_code x = None))
       (IrMissingRequiredField ''allowance_charges.reason'')"

record ('d, 'j) document_line =
  line_id :: string
  line_description :: string
  line_quantity :: 'd
  line_unit_code :: "string option"
  line_unit_price :: 'd
  line_extension_amount :: 'd
  line_tax_category :: "string option"
  line_classifications :: "item_classification list"
  line_extensions :: "'j jurisdiction_extension list"
  line_allowance_charges :: "'d document_allowance_charge list"

definition document_line_validate :: "('d, 'j) document_line \<Rightarrow> ir_error + unit" where
  "document_line_validate x =
     first_err [ir_validate_non_empty (line_id x) ''lines.id'',
                ir_validate_non_empty (line_description x) ''lines.description'',
                check_all item_classification_validate (line_classifications x),
                check_all extension_validate (line_extensions x),
                check_all allowance_charge_validate (line_allowance_charges x)]"

record 'd tax_category_summary =
  ts_category_code :: string
  ts_taxable_amount :: 'd
  ts_tax_amount :: 'd
  ts_tax_rate :: "'d option"
  ts_exemption_reason :: "string option"
  ts_exemption_reason_code :: "string option"

definition tax_summary_validate :: "'d tax_category_summary \<Rightarrow> ir_error + unit" where
  "tax_summary_validate x = ir_validate_non_empty (ts_category_code x) ''tax_summary.category_code''"

record 'd monetary_total =
  mt_line_extension_amount :: 'd
  mt_tax_exclusive_amount :: 'd
  mt_tax_inclusive_amount :: 'd
  mt_allowance_total_amount :: "'d option"
  mt_charge_total_amount :: "'d option"
  mt_prepaid_amount :: "'d option"
  mt_payable_amount :: 'd

record attachment =
  att_kind :: string
  att_digest :: string
  att_media_type :: string

definition attachment_validate :: "attachment \<Rightarrow> ir_error + unit" where
  "attachment_validate x =
     first_err [ir_validate_non_empty (att_kind x) ''attachments.kind'',
                ir_validate_non_empty (att_digest x) ''attachments.digest'',
                ir_validate_non_empty (att_media_type x) ''attachments.media_type'']"

record document_reference =
  ref_kind :: string
  ref_id :: string
  ref_issue_date :: "date_only option"

definition document_reference_validate :: "document_reference \<Rightarrow> ir_error + unit" where
  "document_reference_validate x =
     first_err [ir_validate_non_empty (ref_kind x) ''references.kind'',
                ir_validate_non_empty (ref_id x) ''references.id'',
                check_opt date_validate (ref_issue_date x)]"

record document_meta =
  meta_tenant_id :: string
  meta_trace_id :: string
  meta_source_system :: "string option"

definition document_meta_validate :: "document_meta \<Rightarrow> ir_error + unit" where
  "document_meta_validate x =
     first_err [ir_validate_non_empty (meta_tenant_id x) ''meta.tenant_id'',
                ir_validate_non_empty (meta_trace_id x) ''meta.trace_id'']"

record invoice_period =
  period_start_date :: "date_only option"
  period_end_date :: "date_only option"

definition invoice_period_validate :: "invoice_period \<Rightarrow> ir_error + unit" where
  "invoice_period_validate x =
     first_err [check_opt date_validate (period_start_date x),
                check_opt date_validate (period_end_date x),
                ensure (\<not> (period_start_date x = None \<and> period_end_date x = None))
                  (IrMissingRequiredField ''invoice_period'')]"

section \<open>Classifying document references\<close>

fun contains :: "string \<Rightarrow> string \<Rightarrow> bool" where
  "contains [] p \<longleftrightarrow> p = []"
| "contains (c # s) p \<longleftrightarrow> take (length p) (c # s) = p \<or> contains s p"

definition normalized_kind :: "string \<Rightarrow> string" where
  "normalized_kind k =
     map (\<lambda>c. if c = CHR ''_'' \<or> c = CHR '' '' then CHR ''-'' else c) (map to_lower k)"

definition kind_class :: "document_reference \<Rightarrow> reference_kind_class" where
  "kind_class x =
     (let k = normalized_kind (ref_kind x)
      in if contains k ''preceding'' \<or> contains k ''original'' \<or> contains k ''rectified''
            \<or> contains k ''corrected'' \<or> contains k ''credit-note'' \<or> contains k ''relacion''
            \<or> k = ''invoice'' \<or> k = ''factura'' then PrecedingInvoice
         else if contains k ''order'' \<or> k = ''po'' then Order
         else if contains k ''contract'' then Contract
         else if contains k ''despatch'' \<or> contains k ''dispatch'' then DespatchAdvice
         else if contains k ''receipt'' \<or> contains k ''receiv'' then ReceivingAdvice
         else OtherReference)"

section \<open>The document\<close>

text \<open>
  \<open>CommercialDocumentParts\<close> and \<open>CommercialDocument\<close> have the same 25 fields; \<open>new\<close> copies them
  one by one and validates the copy, so one record models both.
\<close>

record ('d, 'j) commercial_document =
  doc_schema_version :: schema_version
  doc_id :: document_id
  doc_document_type :: document_type
  doc_issue_date :: date_only
  doc_tax_point_date :: "date_only option"
  doc_due_date :: "date_only option"
  doc_invoice_period :: "invoice_period option"
  doc_delivery_date :: "date_only option"
  doc_document_number :: document_number
  doc_currency :: iso4217_code
  doc_supplier :: party
  doc_customer :: party
  doc_payee :: "party option"
  doc_payment_terms :: "payment_terms option"
  doc_payment_instructions :: "payment_instruction list"
  doc_lines :: "('d, 'j) document_line list"
  doc_tax_summary :: "'d tax_category_summary list"
  doc_monetary_total :: "'d monetary_total"
  doc_attachments :: "attachment list"
  doc_references :: "document_reference list"
  doc_notes :: "localized_string list"
  doc_extensions :: "'j jurisdiction_extension list"
  doc_allowance_charges :: "'d document_allowance_charge list"
  doc_deliver_to :: "deliver_to_party option"
  doc_meta :: document_meta

definition document_validate :: "('d, 'j) commercial_document \<Rightarrow> ir_error + unit" where
  "document_validate d =
     first_err
       [document_id_validate (doc_id d),
        date_validate (doc_issue_date d),
        check_opt date_validate (doc_tax_point_date d),
        check_opt date_validate (doc_due_date d),
        check_opt invoice_period_validate (doc_invoice_period d),
        check_opt date_validate (doc_delivery_date d),
        document_number_validate (doc_document_number d),
        currency_validate (doc_currency d),
        party_validate ''supplier.name'' (doc_supplier d),
        party_validate ''customer.name'' (doc_customer d),
        check_opt (party_validate ''payee.name'') (doc_payee d),
        check_opt payment_terms_validate (doc_payment_terms d),
        ensure (doc_lines d \<noteq> []) (IrEmptyCollection ''lines''),
        check_all document_line_validate (doc_lines d),
        check_all tax_summary_validate (doc_tax_summary d),
        check_all attachment_validate (doc_attachments d),
        check_all document_reference_validate (doc_references d),
        check_all (localized_string_validate ''notes'') (doc_notes d),
        check_all extension_validate (doc_extensions d),
        check_all allowance_charge_validate (doc_allowance_charges d),
        check_opt deliver_to_validate (doc_deliver_to d),
        document_meta_validate (doc_meta d)]"

definition document_new ::
  "('d, 'j) commercial_document \<Rightarrow> ir_error + ('d, 'j) commercial_document" where
  "document_new parts = rbind (document_validate parts) (\<lambda>_. Inr parts)"

interpretation document: validated_struct document_new document_validate
  by unfold_locales (simp add: document_new_def)

section \<open>What validation establishes\<close>

text \<open>The well-formedness of each struct, stated without the checks' order or error values.\<close>

definition date_ok :: "date_only \<Rightarrow> bool" where
  "date_ok x \<longleftrightarrow> is_valid_date (date_str x)"

definition opt_ok :: "('a \<Rightarrow> bool) \<Rightarrow> 'a option \<Rightarrow> bool" where
  "opt_ok P x \<longleftrightarrow> (case x of None \<Rightarrow> True | Some y \<Rightarrow> P y)"

definition address_ok :: "postal_address \<Rightarrow> bool" where
  "address_ok a \<longleftrightarrow> (\<forall>l \<in> set (addr_lines a). \<not> blank l) \<and> \<not> blank (addr_city a)
     \<and> \<not> blank (addr_postal_code a) \<and> is_upper_ascii_code (country_str (addr_country a)) 2"

definition party_ok :: "party \<Rightarrow> bool" where
  "party_ok p \<longleftrightarrow> \<not> blank (party_name p)
     \<and> (\<forall>t \<in> set (party_tax_ids p). \<not> blank (tax_scheme t) \<and> \<not> blank (tax_value t))
     \<and> address_ok (party_address p)"

definition extension_ok :: "'j jurisdiction_extension \<Rightarrow> bool" where
  "extension_ok x \<longleftrightarrow> has_urn_scheme (trim (ext_urn x)) \<and> 4 < length (trim (ext_urn x))
     \<and> ext_payload x \<noteq> JNull"

definition charge_ok :: "'d document_allowance_charge \<Rightarrow> bool" where
  "charge_ok x \<longleftrightarrow> ac_reason x \<noteq> None \<or> ac_reason_code x \<noteq> None"

definition line_ok :: "('d, 'j) document_line \<Rightarrow> bool" where
  "line_ok x \<longleftrightarrow> \<not> blank (line_id x) \<and> \<not> blank (line_description x)
     \<and> (\<forall>c \<in> set (line_classifications x). \<not> blank (cls_code c) \<and> \<not> blank (cls_scheme_id c))
     \<and> (\<forall>e \<in> set (line_extensions x). extension_ok e)
     \<and> (\<forall>a \<in> set (line_allowance_charges x). charge_ok a)"

definition period_ok :: "invoice_period \<Rightarrow> bool" where
  "period_ok x \<longleftrightarrow> opt_ok date_ok (period_start_date x) \<and> opt_ok date_ok (period_end_date x)
     \<and> (period_start_date x \<noteq> None \<or> period_end_date x \<noteq> None)"

definition deliver_to_ok :: "deliver_to_party \<Rightarrow> bool" where
  "deliver_to_ok x \<longleftrightarrow> opt_ok address_ok (dtp_address x)
     \<and> (dtp_name x \<noteq> None \<or> dtp_location_id x \<noteq> None \<or> dtp_address x \<noteq> None)"

definition document_ok :: "('d, 'j) commercial_document \<Rightarrow> bool" where
  "document_ok d \<longleftrightarrow>
     \<not> blank (document_id_str (doc_id d)) \<and> \<not> blank (document_number_str (doc_document_number d))
     \<and> date_ok (doc_issue_date d) \<and> opt_ok date_ok (doc_tax_point_date d)
     \<and> opt_ok date_ok (doc_due_date d) \<and> opt_ok date_ok (doc_delivery_date d)
     \<and> opt_ok period_ok (doc_invoice_period d)
     \<and> is_upper_ascii_code (currency_str (doc_currency d)) 3
     \<and> party_ok (doc_supplier d) \<and> party_ok (doc_customer d) \<and> opt_ok party_ok (doc_payee d)
     \<and> opt_ok (\<lambda>t. \<not> blank (terms_description t) \<and> opt_ok date_ok (terms_due_date t))
         (doc_payment_terms d)
     \<and> doc_lines d \<noteq> [] \<and> (\<forall>l \<in> set (doc_lines d). line_ok l)
     \<and> (\<forall>t \<in> set (doc_tax_summary d). \<not> blank (ts_category_code t))
     \<and> (\<forall>a \<in> set (doc_attachments d).
          \<not> blank (att_kind a) \<and> \<not> blank (att_digest a) \<and> \<not> blank (att_media_type a))
     \<and> (\<forall>r \<in> set (doc_references d).
          \<not> blank (ref_kind r) \<and> \<not> blank (ref_id r) \<and> opt_ok date_ok (ref_issue_date r))
     \<and> (\<forall>n \<in> set (doc_notes d). \<not> blank (ls_language n) \<and> \<not> blank (ls_text n))
     \<and> (\<forall>e \<in> set (doc_extensions d). extension_ok e)
     \<and> (\<forall>a \<in> set (doc_allowance_charges d). charge_ok a)
     \<and> opt_ok deliver_to_ok (doc_deliver_to d)
     \<and> \<not> blank (meta_tenant_id (doc_meta d)) \<and> \<not> blank (meta_trace_id (doc_meta d))"

lemma unit_Inr_eq: "(r :: 'e + unit) = Inr u \<longleftrightarrow> r = Inr ()"
  by simp

lemma non_empty_ok_iff: "ir_validate_non_empty s f = Inr u \<longleftrightarrow> \<not> blank s"
  by (simp add: ir_validate_non_empty_def)

lemma date_validate_ok_iff: "date_validate x = Inr u \<longleftrightarrow> date_ok x"
  by (simp add: date_validate_def date_ok_def)

lemma check_opt_opt_ok: "(\<And>y. f y = Inr () \<longleftrightarrow> P y) \<Longrightarrow> check_opt f x = Inr u \<longleftrightarrow> opt_ok P x"
  by (cases x) (auto simp: check_opt_def opt_ok_def)

lemma address_validate_ok_iff: "postal_address_validate a = Inr u \<longleftrightarrow> address_ok a"
  by (auto simp: postal_address_validate_def address_ok_def check_iffs non_empty_ok_iff
      country_validate_def)

lemma party_validate_ok_iff: "party_validate f p = Inr u \<longleftrightarrow> party_ok p"
  by (auto simp: party_validate_def party_ok_def party_tax_id_validate_def check_iffs
      non_empty_ok_iff address_validate_ok_iff)

lemma extension_validate_ok_iff: "extension_validate x = Inr u \<longleftrightarrow> extension_ok x"
  by (auto simp: extension_validate_def extension_ok_def Let_def)

lemma charge_validate_ok_iff: "allowance_charge_validate x = Inr u \<longleftrightarrow> charge_ok x"
  by (auto simp: allowance_charge_validate_def charge_ok_def)

lemma line_validate_ok_iff: "document_line_validate x = Inr u \<longleftrightarrow> line_ok x"
  by (auto simp: document_line_validate_def line_ok_def item_classification_validate_def check_iffs
      non_empty_ok_iff extension_validate_ok_iff charge_validate_ok_iff)

lemma period_validate_ok_iff: "invoice_period_validate x = Inr u \<longleftrightarrow> period_ok x"
  by (simp add: invoice_period_validate_def period_ok_def first_err_ok_iff
      check_opt_opt_ok [OF date_validate_ok_iff])

lemma deliver_to_validate_ok_iff: "deliver_to_validate x = Inr u \<longleftrightarrow> deliver_to_ok x"
  by (simp add: deliver_to_validate_def deliver_to_ok_def first_err_ok_iff
      check_opt_opt_ok [OF address_validate_ok_iff])

lemma terms_validate_ok_iff:
  "payment_terms_validate t = Inr u \<longleftrightarrow>
     \<not> blank (terms_description t) \<and> opt_ok date_ok (terms_due_date t)"
  by (simp add: payment_terms_validate_def first_err_ok_iff non_empty_ok_iff
      check_opt_opt_ok [OF date_validate_ok_iff])

lemmas validate_ok_iffs =
  non_empty_ok_iff date_validate_ok_iff address_validate_ok_iff party_validate_ok_iff
  extension_validate_ok_iff charge_validate_ok_iff line_validate_ok_iff period_validate_ok_iff
  deliver_to_validate_ok_iff terms_validate_ok_iff
  check_opt_opt_ok [OF date_validate_ok_iff] check_opt_opt_ok [OF party_validate_ok_iff]
  check_opt_opt_ok [OF period_validate_ok_iff] check_opt_opt_ok [OF deliver_to_validate_ok_iff]
  check_opt_opt_ok [OF terms_validate_ok_iff]

lemma document_validates_iff: "document_validate d = Inr u \<longleftrightarrow> document_ok d"
  unfolding document_validate_def first_err_ok_iff document_ok_def
  by (simp add: validate_ok_iffs check_all_ok_iff document_id_validate_def
      document_number_validate_def currency_validate_def tax_summary_validate_def
      attachment_validate_def document_reference_validate_def localized_string_validate_def
      document_meta_validate_def first_err_ok_iff) blast

text \<open>A document passes \<open>validate\<close> exactly when every field check of the specification holds:
  no required text is blank, every date and code is well formed, there is at least one line, and
  every nested struct is well formed.\<close>

theorem document_validate_iff: "document_validate d = Inr () \<longleftrightarrow> document_ok d"
  by (rule document_validates_iff)

section \<open>Dates\<close>

text \<open>The ten-byte text of a calendar date.\<close>

definition date_text :: "nat \<Rightarrow> nat \<Rightarrow> nat \<Rightarrow> string" where
  "date_text y m d =
     [digit_char (y div 1000), digit_char (y div 100 mod 10), digit_char (y div 10 mod 10),
      digit_char (y mod 10), CHR ''-'', digit_char (m div 10), digit_char (m mod 10), CHR ''-'',
      digit_char (d div 10), digit_char (d mod 10)]"

lemma is_digit_obtain:
  assumes "is_digit c"
  obtains k where "k < 10" "c = digit_char k"
proof
  show "byte c - 48 < 10" using assms unfolding is_digit_def by linarith
  have "48 + (byte c - 48) = byte c" using assms by (simp add: is_digit_def)
  then show "c = digit_char (byte c - 48)" by (simp add: digit_char_def byte_def)
qed

lemmas digit_char_simps = is_digit_digit_char byte_digit_char

lemma days_in_month_le: "days_in_month y m \<le> 31"
  by (simp add: days_in_month_def)

lemma date_text_valid:
  assumes "1 \<le> y" "y \<le> 9999" "1 \<le> m" "m \<le> 12" "1 \<le> d" "d \<le> days_in_month y m"
  shows "is_valid_date (date_text y m d)"
proof -
  have d: "d \<le> 31" using assms(6) days_in_month_le order_trans by blast
  have dig: "y div 1000 < 10" "m div 10 < 10" "d div 10 < 10" using assms(2,4) d by linarith+
  have y: "((y div 1000 * 10 + y div 100 mod 10) * 10 + y div 10 mod 10) * 10 + y mod 10 = y"
  proof -
    have "y div 100 = y div 10 div 10" "y div 1000 = y div 100 div 10"
      by (simp_all add: div_mult2_eq [symmetric])
    then show ?thesis by (metis div_mult_mod_eq)
  qed
  have l: "[0..<10] = [0, 1, 2, 3, 4, 5, 6, 7, 8, 9]" by (simp add: upt_rec)
  show ?thesis
  proof -
    have "parse_digits (take 4 (date_text y m d)) = Some y"
      using dig y by (simp add: date_text_def parse_digits_def digit_char_simps)
    moreover have "parse_digits (take 2 (drop 5 (date_text y m d))) = Some m"
      using dig by (simp add: date_text_def parse_digits_def digit_char_simps)
    moreover have "parse_digits (take 2 (drop 8 (date_text y m d))) = Some d"
      using dig by (simp add: date_text_def parse_digits_def digit_char_simps)
    moreover have "list_all (\<lambda>i. i = 4 \<or> i = 7 \<or> is_digit (date_text y m d ! i)) [0..<10]"
      unfolding l using dig by (simp add: date_text_def digit_char_simps)
    moreover have "length (date_text y m d) = 10" "date_text y m d ! 4 = CHR ''-''"
      "date_text y m d ! 7 = CHR ''-''"
      by (simp_all add: date_text_def)
    ultimately show ?thesis using assms by (simp add: is_valid_date_def)
  qed
qed

lemma length_10_obtain:
  assumes "length s = 10"
  obtains a0 a1 a2 a3 a4 a5 a6 a7 a8 a9 where "s = [a0, a1, a2, a3, a4, a5, a6, a7, a8, a9]"
  using assms by (auto simp: length_Suc_conv eval_nat_numeral)

lemma digits_of_4:
  assumes "b < 10" "c < 10" "d < 10"
  shows "(((a * 10 + b) * 10 + c) * 10 + d) mod 10 = d"
    "(((a * 10 + b) * 10 + c) * 10 + d) div 10 mod 10 = c"
    "(((a * 10 + b) * 10 + c) * 10 + d) div 100 mod 10 = b"
    "(((a * 10 + b) * 10 + c) * 10 + d) div 1000 = (a::nat)"
proof -
  have dm: "(x * 10 + r) div 10 = x" "(x * 10 + r) mod 10 = r" if "r < 10" for x r :: nat
    using that by simp_all
  have "n div 100 = n div 10 div 10" "n div 1000 = n div 10 div 10 div 10" for n :: nat
    by (simp_all add: div_mult2_eq [symmetric])
  then show "(((a * 10 + b) * 10 + c) * 10 + d) mod 10 = d"
    "(((a * 10 + b) * 10 + c) * 10 + d) div 10 mod 10 = c"
    "(((a * 10 + b) * 10 + c) * 10 + d) div 100 mod 10 = b"
    "(((a * 10 + b) * 10 + c) * 10 + d) div 1000 = a"
    by (simp_all only: dm [OF assms(1)] dm [OF assms(2)] dm [OF assms(3)])
qed

lemma valid_date_text:
  assumes "is_valid_date s"
  shows "\<exists>y m d. 1 \<le> y \<and> y \<le> 9999 \<and> 1 \<le> m \<and> m \<le> 12 \<and> 1 \<le> d \<and> d \<le> days_in_month y m
           \<and> s = date_text y m d"
proof -
  have l: "[0..<10] = [0, 1, 2, 3, 4, 5, 6, 7, 8, 9]" by (simp add: upt_rec)
  have "length s = 10" using assms by (simp add: is_valid_date_def split: if_splits)
  then obtain a0 a1 a2 a3 a4 a5 a6 a7 a8 a9 where
    s: "s = [a0, a1, a2, a3, a4, a5, a6, a7, a8, a9]" by (rule length_10_obtain)
  from assms have "s ! 4 = CHR ''-''" "s ! 7 = CHR ''-''"
    and la: "list_all (\<lambda>i. i = 4 \<or> i = 7 \<or> is_digit (s ! i)) [0..<10]"
    by (auto simp: is_valid_date_def split: if_splits)
  then have sep: "a4 = CHR ''-''" "a7 = CHR ''-''" by (simp_all add: s)
  from la have dg: "is_digit a0" "is_digit a1" "is_digit a2" "is_digit a3" "is_digit a5"
    "is_digit a6" "is_digit a8" "is_digit a9"
    by (simp_all add: s l)
  obtain k0 k1 k2 k3 where k: "k0 < 10" "a0 = digit_char k0" "k1 < 10" "a1 = digit_char k1"
      "k2 < 10" "a2 = digit_char k2" "k3 < 10" "a3 = digit_char k3"
    using dg(1-4) by (metis is_digit_obtain)
  obtain k5 k6 k8 k9 where k': "k5 < 10" "a5 = digit_char k5" "k6 < 10" "a6 = digit_char k6"
      "k8 < 10" "a8 = digit_char k8" "k9 < 10" "a9 = digit_char k9"
    using dg(5-8) by (metis is_digit_obtain)
  let ?y = "((k0 * 10 + k1) * 10 + k2) * 10 + k3" and ?m = "k5 * 10 + k6" and ?d = "k8 * 10 + k9"
  have parts: "parse_digits (take 4 s) = Some ?y" "parse_digits (take 2 (drop 5 s)) = Some ?m"
    "parse_digits (take 2 (drop 8 s)) = Some ?d"
    using k k' by (simp_all add: s parse_digits_def digit_char_simps)
  have "?y \<noteq> 0 \<and> 1 \<le> ?m \<and> ?m \<le> 12 \<and> 1 \<le> ?d \<and> ?d \<le> days_in_month ?y ?m"
    using assms unfolding is_valid_date_def parts by (simp split: if_splits)
  moreover have "?y \<le> 9999" using k(1,3,5,7) by auto
  moreover have "s = date_text ?y ?m ?d"
  proof -
    have "?y div 1000 = k0" "?y div 100 mod 10 = k1" "?y div 10 mod 10 = k2" "?y mod 10 = k3"
      "?m div 10 = k5" "?m mod 10 = k6" "?d div 10 = k8" "?d mod 10 = k9"
      using digits_of_4 [of k1 k2 k3 k0] k(1,3,5,7) k'(3,7) by simp_all
    then show ?thesis by (simp add: date_text_def s sep k k')
  qed
  ultimately show ?thesis by (intro exI [of _ ?y] exI [of _ ?m] exI [of _ ?d]) linarith
qed

text \<open>The date check accepts exactly the ten-byte texts of the Gregorian calendar dates of the
  years 1 to 9999, leap years included.\<close>

theorem valid_date_iff:
  "is_valid_date s \<longleftrightarrow>
     (\<exists>y m d. 1 \<le> y \<and> y \<le> 9999 \<and> 1 \<le> m \<and> m \<le> 12 \<and> 1 \<le> d \<and> d \<le> days_in_month y m
        \<and> s = date_text y m d)"
  using date_text_valid valid_date_text by blast

section \<open>Jurisdiction extensions\<close>

lemma canonicalise_urn_trim:
  "canonicalise_urn u =
     (if has_urn_scheme (trim u) \<and> list_ex is_upper (take 3 (trim u)) then ''urn:'' @ drop 4 (trim u)
      else trim u)"
  using trim_length_eq [of u] by (auto simp: canonicalise_urn_def Let_def)

lemma has_urn_scheme_urn: "has_urn_scheme (''urn:'' @ s)"
  by (simp add: has_urn_scheme_def to_lower_def is_upper_def byte_def)

lemma list_ex_upper_urn: "\<not> list_ex is_upper (take 3 (''urn:'' @ s))"
  by (simp add: is_upper_def byte_def)

lemma has_urn_scheme_split:
  "has_urn_scheme v \<Longrightarrow> \<exists>a b c r. v = a # b # c # CHR '':'' # r \<and> solid a \<and> solid b \<and> solid c"
proof -
  assume h: "has_urn_scheme v"
  then obtain a b c d r where v: "v = a # b # c # d # r"
    by (auto simp: has_urn_scheme_def Suc_le_length_iff eval_nat_numeral)
  have sol: "solid x" if "solid (to_lower x)" for x
    using that by (cases "is_upper x") (auto simp: to_lower_def solid_def is_upper_def)
  from h v have "to_lower a = CHR ''u''" "to_lower b = CHR ''r''" "to_lower c = CHR ''n''"
      "d = CHR '':''"
    by (simp_all add: has_urn_scheme_def)
  moreover have "solid a" "solid b" "solid c"
    by (rule sol, simp add: calculation solid_def byte_def)+
  ultimately show ?thesis using v by blast
qed

lemma canonicalise_urn_scheme:
  assumes "has_urn_scheme (trim u)"
  shows "canonicalise_urn u = ''urn:'' @ drop 4 (trim u)"
proof -
  obtain a b c r where v: "trim u = a # b # c # CHR '':'' # r"
    using has_urn_scheme_split [OF assms] by blast
  have "to_lower a = CHR ''u''" "to_lower b = CHR ''r''" "to_lower c = CHR ''n''"
    using assms by (simp_all add: v has_urn_scheme_def)
  then have "\<not> list_ex is_upper (take 3 (trim u)) \<Longrightarrow> trim u = ''urn:'' @ drop 4 (trim u)"
    by (auto simp: v to_lower_def)
  with assms show ?thesis by (auto simp only: canonicalise_urn_trim split: if_splits)
qed

text \<open>Replacing the four leading ASCII bytes of a trimmed text by others keeps it trimmed.\<close>

lemma lead_end_head:
  assumes "solid d" "solid e"
  shows "lead_end (a # b # c # d # r) = 0 \<longleftrightarrow> lead_end (a' # b' # c' # e # r) = 0"
proof (cases "rev r" rule: list.exhaust [case_names nil cons])
  case nil
  then show ?thesis using assms solid_not_ws by (auto simp: lead_end_def)
next
  case (cons x xs)
  then show ?thesis
    using assms solid_not_ws
    by (cases xs; cases "tl xs") (auto simp: lead_end_def split: if_splits)
qed

lemma trim_urn_rewrite:
  assumes "trim v = v" "has_urn_scheme v"
  shows "trim (''urn:'' @ drop 4 v) = ''urn:'' @ drop 4 v"
proof -
  obtain a b c r where v: "v = a # b # c # CHR '':'' # r" using has_urn_scheme_split [OF assms(2)] by blast
  have "lead_start (''urn:'' @ drop 4 v) = 0"
    using lead_start_solid [of "CHR ''u''"] by (simp add: solid_def byte_def)
  moreover have "lead_end (''urn:'' @ drop 4 v) = 0"
    using assms(1) lead_end_head [of "CHR '':''" "CHR '':''" a b c r "CHR ''u''" "CHR ''r''" "CHR ''n''"]
    by (simp add: v trim_fixed_iff solid_def byte_def)
  ultimately show ?thesis by (simp add: trim_fixed_iff)
qed

text \<open>URN canonicalisation is idempotent: the stored URN of an extension is a fixed point, so
  re-reading a document never changes it again.\<close>

theorem canonicalise_urn_idem: "canonicalise_urn (canonicalise_urn u) = canonicalise_urn u"
proof (cases "has_urn_scheme (trim u) \<and> list_ex is_upper (take 3 (trim u))")
  case True
  then have "trim (''urn:'' @ drop 4 (trim u)) = ''urn:'' @ drop 4 (trim u)"
    by (intro trim_urn_rewrite) simp_all
  with True list_ex_upper_urn [of "drop 4 (trim u)"] show ?thesis
    by (simp only: canonicalise_urn_trim if_True) simp
next
  case False
  then show ?thesis by (simp only: canonicalise_urn_trim if_False) (simp only: trim_idem if_False)
qed

text \<open>An extension is built exactly when its payload is not null and its trimmed URN starts with
  \<open>urn:\<close> in any letter case and is longer than that; the built extension stores the canonical URN
  with a lower-case scheme and the payload unchanged.\<close>

theorem extension_new_iff:
  "extension_new u p = Inr e \<longleftrightarrow>
     has_urn_scheme (trim u) \<and> 4 < length (trim u) \<and> p \<noteq> JNull
     \<and> e = \<lparr>ext_urn = ''urn:'' @ drop 4 (trim u), ext_payload = p\<rparr>"
proof (cases "has_urn_scheme (trim u)")
  case True
  have canon: "canonicalise_urn u = ''urn:'' @ drop 4 (trim u)"
    using True by (rule canonicalise_urn_scheme)
  have t: "trim (''urn:'' @ drop 4 (trim u)) = ''urn:'' @ drop 4 (trim u)"
    by (rule trim_urn_rewrite [OF trim_idem True])
  have len: "length (''urn:'' @ drop 4 (trim u)) \<le> 4 \<longleftrightarrow> length (trim u) \<le> 4"
    by simp
  show ?thesis
    unfolding extension_new_def Let_def rbind_Inr_iff extension_validate_def canon
      jurisdiction_extension.select_convs t len
    using True has_urn_scheme_urn [of "drop 4 (trim u)"] by auto
next
  case False
  then show ?thesis
    by (simp add: extension_new_def extension_validate_def canonicalise_urn_trim Let_def rbind_Inr_iff)
qed

end
