(* ===== verification/Ir_Ledger.thy ===== *)
theory Ir_Ledger
  imports Ir "HOL-Library.Multiset"
begin

text \<open>
  The lossiness ledger of \<open>crates/ir/src/lib.rs\<close>: comparing a document with the copy an adapter
  re-parsed, field by field, and the profile view that carries the ledger.  The derived \<open>==\<close> of the
  structs that hold decimals takes the decimals' \<open>==\<close> as \<open>deq\<close>; on all other fields it is equality.
\<close>

section \<open>Derived equality of the structs with decimals\<close>

definition opt_eq :: "('a \<Rightarrow> 'a \<Rightarrow> bool) \<Rightarrow> 'a option \<Rightarrow> 'a option \<Rightarrow> bool" where
  "opt_eq eq x y \<longleftrightarrow>
     (case (x, y) of (None, None) \<Rightarrow> True | (Some a, Some b) \<Rightarrow> eq a b | _ \<Rightarrow> False)"

definition allowance_charge_eq ::
  "('d \<Rightarrow> 'd \<Rightarrow> bool) \<Rightarrow> 'd document_allowance_charge \<Rightarrow> 'd document_allowance_charge \<Rightarrow> bool" where
  "allowance_charge_eq deq x y \<longleftrightarrow>
     ac_is_charge x = ac_is_charge y \<and> deq (ac_amount x) (ac_amount y)
     \<and> opt_eq deq (ac_base_amount x) (ac_base_amount y)
     \<and> opt_eq deq (ac_percentage x) (ac_percentage y)
     \<and> ac_tax_category x = ac_tax_category y
     \<and> opt_eq deq (ac_tax_rate x) (ac_tax_rate y)
     \<and> ac_reason x = ac_reason y \<and> ac_reason_code x = ac_reason_code y"

definition document_line_eq ::
  "('d \<Rightarrow> 'd \<Rightarrow> bool) \<Rightarrow> ('d, 'j) document_line \<Rightarrow> ('d, 'j) document_line \<Rightarrow> bool" where
  "document_line_eq deq x y \<longleftrightarrow>
     line_id x = line_id y \<and> line_description x = line_description y
     \<and> deq (line_quantity x) (line_quantity y) \<and> line_unit_code x = line_unit_code y
     \<and> deq (line_unit_price x) (line_unit_price y)
     \<and> deq (line_extension_amount x) (line_extension_amount y)
     \<and> line_tax_category x = line_tax_category y
     \<and> line_classifications x = line_classifications y \<and> line_extensions x = line_extensions y
     \<and> list_all2 (allowance_charge_eq deq) (line_allowance_charges x) (line_allowance_charges y)"

definition tax_summary_eq ::
  "('d \<Rightarrow> 'd \<Rightarrow> bool) \<Rightarrow> 'd tax_category_summary \<Rightarrow> 'd tax_category_summary \<Rightarrow> bool" where
  "tax_summary_eq deq x y \<longleftrightarrow>
     ts_category_code x = ts_category_code y \<and> deq (ts_taxable_amount x) (ts_taxable_amount y)
     \<and> deq (ts_tax_amount x) (ts_tax_amount y) \<and> opt_eq deq (ts_tax_rate x) (ts_tax_rate y)
     \<and> ts_exemption_reason x = ts_exemption_reason y
     \<and> ts_exemption_reason_code x = ts_exemption_reason_code y"

definition monetary_total_eq ::
  "('d \<Rightarrow> 'd \<Rightarrow> bool) \<Rightarrow> 'd monetary_total \<Rightarrow> 'd monetary_total \<Rightarrow> bool" where
  "monetary_total_eq deq x y \<longleftrightarrow>
     deq (mt_line_extension_amount x) (mt_line_extension_amount y)
     \<and> deq (mt_tax_exclusive_amount x) (mt_tax_exclusive_amount y)
     \<and> deq (mt_tax_inclusive_amount x) (mt_tax_inclusive_amount y)
     \<and> opt_eq deq (mt_allowance_total_amount x) (mt_allowance_total_amount y)
     \<and> opt_eq deq (mt_charge_total_amount x) (mt_charge_total_amount y)
     \<and> opt_eq deq (mt_prepaid_amount x) (mt_prepaid_amount y)
     \<and> deq (mt_payable_amount x) (mt_payable_amount y)"

text \<open>The derived equality of whole documents: all 25 fields.\<close>

definition document_eq ::
  "('d \<Rightarrow> 'd \<Rightarrow> bool) \<Rightarrow> ('d, 'j) commercial_document \<Rightarrow> ('d, 'j) commercial_document \<Rightarrow> bool" where
  "document_eq deq x y \<longleftrightarrow>
     doc_schema_version x = doc_schema_version y \<and> doc_id x = doc_id y
     \<and> doc_document_type x = doc_document_type y \<and> doc_issue_date x = doc_issue_date y
     \<and> doc_tax_point_date x = doc_tax_point_date y \<and> doc_due_date x = doc_due_date y
     \<and> doc_invoice_period x = doc_invoice_period y \<and> doc_delivery_date x = doc_delivery_date y
     \<and> doc_document_number x = doc_document_number y \<and> doc_currency x = doc_currency y
     \<and> doc_supplier x = doc_supplier y \<and> doc_customer x = doc_customer y
     \<and> doc_payee x = doc_payee y \<and> doc_payment_terms x = doc_payment_terms y
     \<and> doc_payment_instructions x = doc_payment_instructions y
     \<and> list_all2 (document_line_eq deq) (doc_lines x) (doc_lines y)
     \<and> list_all2 (tax_summary_eq deq) (doc_tax_summary x) (doc_tax_summary y)
     \<and> monetary_total_eq deq (doc_monetary_total x) (doc_monetary_total y)
     \<and> doc_attachments x = doc_attachments y \<and> doc_references x = doc_references y
     \<and> doc_notes x = doc_notes y \<and> doc_extensions x = doc_extensions y
     \<and> list_all2 (allowance_charge_eq deq) (doc_allowance_charges x) (doc_allowance_charges y)
     \<and> doc_deliver_to x = doc_deliver_to y \<and> doc_meta x = doc_meta y"

section \<open>The ledger\<close>

record lossiness_entry =
  le_path :: string
  le_reason :: string

record lossiness_ledger =
  ll_preserved :: "lossiness_entry list"
  ll_lost :: "lossiness_entry list"
  ll_warnings :: "string list"

definition lossiness_entry_validate :: "string \<Rightarrow> lossiness_entry \<Rightarrow> ir_error + unit" where
  "lossiness_entry_validate field x =
     first_err [ir_validate_non_empty (le_path x) field, ir_validate_non_empty (le_reason x) field]"

definition ledger_validate :: "lossiness_ledger \<Rightarrow> ir_error + unit" where
  "ledger_validate l =
     first_err [check_all (lossiness_entry_validate ''lossiness.preserved'') (ll_preserved l),
                check_all (lossiness_entry_validate ''lossiness.lost'') (ll_lost l)]"

definition ledger_new ::
  "lossiness_entry list \<Rightarrow> lossiness_entry list \<Rightarrow> ir_error + lossiness_ledger" where
  "ledger_new preserved lost =
     (let l = \<lparr>ll_preserved = preserved, ll_lost = lost, ll_warnings = []\<rparr>
      in rbind (ledger_validate l) (\<lambda>_. Inr l))"

text \<open>The two vectors the recorders push to: \<open>(preserved, lost)\<close>.\<close>

type_synonym ledger_acc = "lossiness_entry list \<times> lossiness_entry list"

definition record_lossiness ::
  "ledger_acc \<Rightarrow> string \<Rightarrow> bool \<Rightarrow> string \<Rightarrow> string \<Rightarrow> ledger_acc" where
  "record_lossiness acc path survived on_preserved on_lost =
     (if survived then (fst acc @ [\<lparr>le_path = path, le_reason = on_preserved\<rparr>], snd acc)
      else (fst acc, snd acc @ [\<lparr>le_path = path, le_reason = on_lost\<rparr>]))"

definition record_field_lossiness :: "string \<Rightarrow> ledger_acc \<Rightarrow> string \<times> bool \<Rightarrow> ledger_acc" where
  "record_field_lossiness adapter acc field =
     (case field of (path, survived) \<Rightarrow>
        record_lossiness acc path survived
          (adapter @ '' round-trips '' @ path) (adapter @ '' drift at '' @ path))"

text \<open>The calls of \<open>record_identity_lossiness\<close> and \<open>record_payload_lossiness\<close>, in their order.\<close>

definition identity_fields ::
  "('d, 'j) commercial_document \<Rightarrow> ('d, 'j) commercial_document \<Rightarrow> (string \<times> bool) list" where
  "identity_fields s r =
     [(''/id'', document_id_str (doc_id s) = document_id_str (doc_id r)),
      (''/schema_version'', doc_schema_version s = doc_schema_version r),
      (''/document_type'', doc_document_type s = doc_document_type r),
      (''/issue_date'', doc_issue_date s = doc_issue_date r),
      (''/tax_point_date'', doc_tax_point_date s = doc_tax_point_date r),
      (''/due_date'', doc_due_date s = doc_due_date r),
      (''/invoice_period'', doc_invoice_period s = doc_invoice_period r),
      (''/delivery_date'', doc_delivery_date s = doc_delivery_date r),
      (''/document_number'',
        document_number_str (doc_document_number s) = document_number_str (doc_document_number r)),
      (''/currency'', currency_str (doc_currency s) = currency_str (doc_currency r)),
      (''/meta'', doc_meta s = doc_meta r)]"

definition payload_fields ::
  "('d \<Rightarrow> 'd \<Rightarrow> bool) \<Rightarrow> ('d, 'j) commercial_document \<Rightarrow> ('d, 'j) commercial_document
     \<Rightarrow> (string \<times> bool) list" where
  "payload_fields deq s r =
     [(''/supplier'', doc_supplier s = doc_supplier r),
      (''/customer'', doc_customer s = doc_customer r),
      (''/payee'', doc_payee s = doc_payee r),
      (''/payment_terms'', doc_payment_terms s = doc_payment_terms r),
      (''/payment_instructions'', doc_payment_instructions s = doc_payment_instructions r),
      (''/lines'', list_all2 (document_line_eq deq) (doc_lines s) (doc_lines r)),
      (''/tax_summary'', list_all2 (tax_summary_eq deq) (doc_tax_summary s) (doc_tax_summary r)),
      (''/monetary_total'', monetary_total_eq deq (doc_monetary_total s) (doc_monetary_total r)),
      (''/attachments'', doc_attachments s = doc_attachments r),
      (''/references'', doc_references s = doc_references r),
      (''/notes'', doc_notes s = doc_notes r),
      (''/extensions'', doc_extensions s = doc_extensions r),
      (''/allowance_charges'',
        list_all2 (allowance_charge_eq deq) (doc_allowance_charges s) (doc_allowance_charges r)),
      (''/deliver_to'', doc_deliver_to s = doc_deliver_to r)]"

definition record_identity_lossiness ::
  "string \<Rightarrow> ('d, 'j) commercial_document \<Rightarrow> ('d, 'j) commercial_document \<Rightarrow> ledger_acc
     \<Rightarrow> ledger_acc" where
  "record_identity_lossiness adapter s r acc =
     foldl (record_field_lossiness adapter) acc (identity_fields s r)"

definition record_payload_lossiness ::
  "('d \<Rightarrow> 'd \<Rightarrow> bool) \<Rightarrow> string \<Rightarrow> ('d, 'j) commercial_document \<Rightarrow> ('d, 'j) commercial_document
     \<Rightarrow> ledger_acc \<Rightarrow> ledger_acc" where
  "record_payload_lossiness deq adapter s r acc =
     foldl (record_field_lossiness adapter) acc (payload_fields deq s r)"

definition from_roundtrip_comparison ::
  "('d \<Rightarrow> 'd \<Rightarrow> bool) \<Rightarrow> ('d, 'j) commercial_document \<Rightarrow> ('d, 'j) commercial_document \<Rightarrow> string
     \<Rightarrow> ir_error + lossiness_ledger" where
  "from_roundtrip_comparison deq source reparsed adapter =
     (let acc = record_payload_lossiness deq adapter source reparsed
                  (record_identity_lossiness adapter source reparsed ([], []))
      in ledger_new (fst acc) (snd acc))"

section \<open>Profile views\<close>

record profile_identifier =
  profile_urn :: string
  profile_version :: string

record 'j profile_view =
  view_profile :: profile_identifier
  view_source_document_id :: document_id
  view_effective_date :: date_only
  view_extensions :: "'j jurisdiction_extension list"
  view_lossiness :: lossiness_ledger

definition profile_identifier_validate :: "profile_identifier \<Rightarrow> ir_error + unit" where
  "profile_identifier_validate p =
     first_err [ensure (take 4 (profile_urn p) = ''urn:'') (IrInvalidProfileUrn (profile_urn p)),
                ir_validate_non_empty (profile_version p) ''profile.version'']"

definition profile_view_validate :: "'j profile_view \<Rightarrow> ir_error + unit" where
  "profile_view_validate v =
     first_err [profile_identifier_validate (view_profile v),
                document_id_validate (view_source_document_id v),
                date_validate (view_effective_date v),
                check_all extension_validate (view_extensions v),
                ledger_validate (view_lossiness v)]"

definition profile_view_new :: "'j profile_view \<Rightarrow> ir_error + 'j profile_view" where
  "profile_view_new v = rbind (profile_view_validate v) (\<lambda>_. Inr v)"

interpretation profile_view: validated_struct profile_view_new profile_view_validate
  by unfold_locales (simp add: profile_view_new_def)

section \<open>Properties of the ledger\<close>

definition entries :: "(string \<Rightarrow> string) \<Rightarrow> (string \<times> bool) list \<Rightarrow> lossiness_entry list" where
  "entries g fs = map (\<lambda>f. \<lparr>le_path = fst f, le_reason = g (fst f)\<rparr>) fs"

definition kept :: "string \<Rightarrow> string \<Rightarrow> string" where
  "kept adapter p = adapter @ '' round-trips '' @ p"

definition drifted :: "string \<Rightarrow> string \<Rightarrow> string" where
  "drifted adapter p = adapter @ '' drift at '' @ p"

lemma record_fields_split:
  "foldl (record_field_lossiness adapter) acc fs =
     (fst acc @ entries (kept adapter) (filter snd fs),
      snd acc @ entries (drifted adapter) (filter (Not \<circ> snd) fs))"
  by (induction fs arbitrary: acc)
     (auto simp: record_field_lossiness_def record_lossiness_def entries_def kept_def drifted_def)

definition all_fields ::
  "('d \<Rightarrow> 'd \<Rightarrow> bool) \<Rightarrow> ('d, 'j) commercial_document \<Rightarrow> ('d, 'j) commercial_document
     \<Rightarrow> (string \<times> bool) list" where
  "all_fields deq s r = identity_fields s r @ payload_fields deq s r"

lemma comparison_acc:
  "record_payload_lossiness deq adapter s r (record_identity_lossiness adapter s r ([], [])) =
     (entries (kept adapter) (filter snd (all_fields deq s r)),
      entries (drifted adapter) (filter (Not \<circ> snd) (all_fields deq s r)))"
  by (simp add: record_payload_lossiness_def record_identity_lossiness_def record_fields_split
      all_fields_def entries_def)

lemma entries_ok:
  assumes "\<forall>f \<in> set fs. CHR ''/'' \<in> set (fst f)" and "\<And>p. set p \<subseteq> set (g p)"
  shows "check_all (lossiness_entry_validate f) (entries g fs) = Inr ()"
proof -
  have "\<not> blank (fst h) \<and> \<not> blank (g (fst h))" if "h \<in> set fs" for h
    using assms(1) assms(2) [of "fst h"] that not_blank_solid [OF solid_slash] by blast
  then show ?thesis
    by (auto simp: check_all_ok_iff lossiness_entry_validate_def first_err_ok_iff non_empty_ok_iff
        entries_def)
qed

lemma all_fields_slash: "\<forall>f \<in> set (all_fields deq s r). CHR ''/'' \<in> set (fst f)"
  by (simp add: all_fields_def identity_fields_def payload_fields_def)

lemma comparison_value:
  "from_roundtrip_comparison deq s r adapter =
     Inr \<lparr>ll_preserved = entries (kept adapter) (filter snd (all_fields deq s r)),
          ll_lost = entries (drifted adapter) (filter (Not \<circ> snd) (all_fields deq s r)),
          ll_warnings = []\<rparr>"
proof -
  have ok: "check_all (lossiness_entry_validate f) (entries g (filter P (all_fields deq s r))) = Inr ()"
    if "\<And>p. set p \<subseteq> set (g p)" for f g P
    using all_fields_slash [of deq s r] that by (intro entries_ok) auto
  have "check_all (lossiness_entry_validate f)
      (entries (kept adapter) (filter P (all_fields deq s r))) = Inr ()" for f P
    by (rule ok) (auto simp: kept_def)
  moreover have "check_all (lossiness_entry_validate f)
      (entries (drifted adapter) (filter P (all_fields deq s r))) = Inr ()" for f P
    by (rule ok) (auto simp: drifted_def)
  ultimately show ?thesis
    unfolding from_roundtrip_comparison_def comparison_acc ledger_new_def ledger_validate_def
    by (simp add: first_err.simps)
qed

lemma newtype_eq_iff:
  "document_id_str x = document_id_str y \<longleftrightarrow> x = y"
  "document_number_str u = document_number_str v \<longleftrightarrow> u = v"
  "currency_str a = currency_str b \<longleftrightarrow> a = b"
  by (auto intro: document_id.expand document_number.expand iso4217_code.expand)

lemma all_fields_survive: "list_all snd (all_fields deq s r) \<longleftrightarrow> document_eq deq s r"
  unfolding all_fields_def identity_fields_def payload_fields_def document_eq_def newtype_eq_iff
  by simp blast

text \<open>The field paths of a document.\<close>

definition document_paths :: "string list" where
  "document_paths =
     [''/id'', ''/schema_version'', ''/document_type'', ''/issue_date'', ''/tax_point_date'',
      ''/due_date'', ''/invoice_period'', ''/delivery_date'', ''/document_number'', ''/currency'',
      ''/meta'', ''/supplier'', ''/customer'', ''/payee'', ''/payment_terms'',
      ''/payment_instructions'', ''/lines'', ''/tax_summary'', ''/monetary_total'',
      ''/attachments'', ''/references'', ''/notes'', ''/extensions'', ''/allowance_charges'',
      ''/deliver_to'']"

lemma all_fields_paths: "map fst (all_fields deq s r) = document_paths"
  by (simp add: all_fields_def identity_fields_def payload_fields_def document_paths_def)

lemma mset_map_filter_split:
  "mset (map f (filter P xs)) + mset (map f (filter (Not \<circ> P) xs)) = mset (map f xs)"
  by (induction xs) auto

text \<open>The comparison of a document with its re-parsed copy always returns a ledger, and the
  ledger is a partition of the 25 fields of a document: each field path is in the preserved or in
  the lost entries, once.\<close>

theorem comparison_covers_all_fields:
  "\<exists>l. from_roundtrip_comparison deq s r adapter = Inr l
     \<and> mset (map le_path (ll_preserved l)) + mset (map le_path (ll_lost l)) = mset document_paths"
proof -
  have "map le_path (entries g fs) = map fst fs" for g fs
    by (induction fs) (auto simp: entries_def)
  then show ?thesis
    using mset_map_filter_split [of fst snd "all_fields deq s r"]
    by (simp add: comparison_value all_fields_paths del: mset_map mset_filter)
qed

text \<open>C25  The ledger's lost list is empty exactly when the two documents are equal in the sense of
  the derived \<open>==\<close>: no difference in any field goes unrecorded, and no equal field is reported.\<close>

theorem comparison_lossless_iff:
  "\<exists>l. from_roundtrip_comparison deq s r adapter = Inr l
     \<and> (ll_lost l = [] \<longleftrightarrow> document_eq deq s r)"
  by (simp add: comparison_value entries_def filter_empty_conv all_fields_survive [symmetric] list_all_iff)

end
