(* ===== verification/Transmission.thy ===== *)
theory Transmission
  imports Ir
begin

text \<open>
  \<open>crates/reconcile/src/lib.rs\<close>: the identifiers and requests of the gateway boundary, the
  transmission lifecycle with its country sub-states, the registry of sub-state rules and the
  executable state machine with history.
\<close>

section \<open>Errors\<close>

datatype transmission_base_state =
  Draft | Validated | Signed | Reserved | Sent | Delivered | Acknowledged | Rejected | Archived

datatype outbox_state =
    ODraft | OValidated | OSigned | OReserved | OSent | ODelivered | OAcknowledged | ORejected
  | OArchived | ODeadLetter

datatype reconcile_error =
    MissingRequiredField string
  | InvalidIdentifier string string
  | InvalidTransition transmission_base_state transmission_base_state
  | InvalidCountrySubStateTransition string string string
  | CountrySubStateSystemMismatch string string
  | DuplicateCountrySubStateTransition string string string
  | InvalidCountryCode string
  | ContextMismatch string string string
  | InvalidDocument ir_error
  | InvalidRetryPolicy string string string
  | InvalidRetryAttempt u16 string string
  | InvalidTransmissionWorkerConfig string string string
  | InvalidOutboxState string outbox_state string

definition validate_non_empty :: "string \<Rightarrow> string \<Rightarrow> reconcile_error + unit" where
  "validate_non_empty v field = ensure (\<not> blank v) (MissingRequiredField field)"

definition validate_identifier :: "string \<Rightarrow> string \<Rightarrow> reconcile_error + unit" where
  "validate_identifier v field =
     first_err [validate_non_empty v field,
                ensure (\<not> (trim v \<noteq> v \<or> has_control v)) (InvalidIdentifier field v)]"

definition validate_text :: "string \<Rightarrow> string \<Rightarrow> reconcile_error + unit" where
  "validate_text v field =
     first_err [validate_non_empty v field,
                ensure (\<not> has_control v) (InvalidIdentifier field v)]"

definition validate_country_code :: "string \<Rightarrow> reconcile_error + unit" where
  "validate_country_code v = ensure (length v = 2 \<and> list_all is_upper v) (InvalidCountryCode v)"

definition identifier_ok :: "string \<Rightarrow> bool" where
  "identifier_ok v \<longleftrightarrow> v \<noteq> [] \<and> trim v = v \<and> \<not> has_control v"

lemma validate_identifier_iff: "validate_identifier v f = Inr u \<longleftrightarrow> identifier_ok v"
  by (auto simp: validate_identifier_def validate_non_empty_def first_err_ok_iff identifier_ok_def
      blank_def)

lemma validate_text_iff: "validate_text v f = Inr u \<longleftrightarrow> \<not> blank v \<and> \<not> has_control v"
  by (auto simp: validate_text_def validate_non_empty_def first_err_ok_iff)

lemma identifier_prefix:
  assumes "identifier_ok v" "solid c" "solid d" "\<not> has_control (c # u @ [d])" "byte d \<noteq> 194"
  shows "identifier_ok (c # u @ [d] @ v)"
proof -
  let ?s = "c # u @ [d] @ v"
  have "lead_start ?s = 0" using lead_start_solid [OF assms(2)] by simp
  moreover have "lead_end ?s = 0"
    using lead_ws_append_solid [OF ws_tests_backward assms(3), of "rev v" "rev (c # u)"] assms(1)
    by (simp add: lead_end_def identifier_ok_def trim_fixed_iff)
  moreover have "\<not> has_control ?s"
    using has_control_append_ascii [of "c # u @ [d]" v] assms by (simp add: identifier_ok_def)
  ultimately show ?thesis by (simp add: identifier_ok_def trim_fixed_iff)
qed

section \<open>Gateway identifiers and context\<close>

datatype tenant_id = TenantId (tenant_str: string)
datatype trace_id = TraceId (trace_str: string)
datatype idempotency_key = IdempotencyKey (idempotency_str: string)
datatype gateway_attempt_id = GatewayAttemptId (attempt_str: string)
datatype gateway_submission_id = GatewaySubmissionId (submission_str: string)

text \<open>The five identifier types are instances of one macro; \<open>gateway_id_new\<close> is its \<open>new\<close>.\<close>

definition gateway_id_new :: "(string \<Rightarrow> 'i) \<Rightarrow> string \<Rightarrow> string \<Rightarrow> reconcile_error + 'i" where
  "gateway_id_new mk field v = rbind (validate_identifier v field) (\<lambda>_. Inr (mk v))"

definition gateway_id_check :: "('i \<Rightarrow> string) \<Rightarrow> string \<Rightarrow> 'i \<Rightarrow> reconcile_error + unit" where
  "gateway_id_check raw field x = validate_identifier (raw x) field"

lemma gateway_id_newtype:
  assumes "\<And>v. raw (mk v) = v" "\<And>x. mk (raw x) = x"
  shows "checked_newtype (gateway_id_new mk f) raw (gateway_id_check raw f)"
  by unfold_locales
     (use assms in \<open>auto simp: gateway_id_new_def gateway_id_check_def rbind_Inr_iff\<close>)

interpretation tenant: checked_newtype "gateway_id_new TenantId ''tenant_id''" tenant_str
    "gateway_id_check tenant_str ''tenant_id''"
  by (rule gateway_id_newtype) simp_all

interpretation trace: checked_newtype "gateway_id_new TraceId ''trace_id''" trace_str
    "gateway_id_check trace_str ''trace_id''"
  by (rule gateway_id_newtype) simp_all

interpretation idempotency: checked_newtype
    "gateway_id_new IdempotencyKey ''idempotency_key''" idempotency_str
    "gateway_id_check idempotency_str ''idempotency_key''"
  by (rule gateway_id_newtype) simp_all

interpretation attempt: checked_newtype
    "gateway_id_new GatewayAttemptId ''gateway_attempt_id''" attempt_str
    "gateway_id_check attempt_str ''gateway_attempt_id''"
  by (rule gateway_id_newtype) simp_all

interpretation submission: checked_newtype
    "gateway_id_new GatewaySubmissionId ''gateway_submission_id''" submission_str
    "gateway_id_check submission_str ''gateway_submission_id''"
  by (rule gateway_id_newtype) simp_all

record gateway_context =
  ctx_tenant_id :: tenant_id
  ctx_trace_id :: trace_id
  ctx_idempotency_key :: idempotency_key
  ctx_gateway_attempt_id :: gateway_attempt_id

record gateway_route =
  route_route :: string
  route_profile :: string
  route_country :: "string option"

definition gateway_route_new ::
  "string \<Rightarrow> string \<Rightarrow> string option \<Rightarrow> reconcile_error + gateway_route" where
  "gateway_route_new route profile country =
     rbind (first_err [validate_non_empty route ''route'', validate_non_empty profile ''profile'',
                       check_opt validate_country_code country])
       (\<lambda>_. Inr \<lparr>route_route = route, route_profile = profile, route_country = country\<rparr>)"

datatype gateway_operation = Submit | Poll | Cancel | Correct

fun operation_as_str :: "gateway_operation \<Rightarrow> string" where
  "operation_as_str Submit = ''submit''"
| "operation_as_str Poll = ''poll''"
| "operation_as_str Cancel = ''cancel''"
| "operation_as_str Correct = ''correct''"

datatype gateway_status = Accepted | Pending | SRejected | Cancelled | Corrected

section \<open>The transmission lifecycle\<close>

fun base_as_str :: "transmission_base_state \<Rightarrow> string" where
  "base_as_str Draft = ''draft''"
| "base_as_str Validated = ''validated''"
| "base_as_str Signed = ''signed''"
| "base_as_str Reserved = ''reserved''"
| "base_as_str Sent = ''sent''"
| "base_as_str Delivered = ''delivered''"
| "base_as_str Acknowledged = ''acknowledged''"
| "base_as_str Rejected = ''rejected''"
| "base_as_str Archived = ''archived''"

fun can_transition_to :: "transmission_base_state \<Rightarrow> transmission_base_state \<Rightarrow> bool" where
  "can_transition_to Draft Validated = True"
| "can_transition_to Validated Signed = True"
| "can_transition_to Signed Reserved = True"
| "can_transition_to Reserved Sent = True"
| "can_transition_to Sent Delivered = True"
| "can_transition_to Sent Rejected = True"
| "can_transition_to Delivered Acknowledged = True"
| "can_transition_to Delivered Rejected = True"
| "can_transition_to Acknowledged Archived = True"
| "can_transition_to Rejected Archived = True"
| "can_transition_to _ _ = False"

definition is_terminal :: "transmission_base_state \<Rightarrow> bool" where
  "is_terminal s \<longleftrightarrow> s = Archived"

fun base_rank :: "transmission_base_state \<Rightarrow> nat" where
  "base_rank Draft = 0"
| "base_rank Validated = 1"
| "base_rank Signed = 2"
| "base_rank Reserved = 3"
| "base_rank Sent = 4"
| "base_rank Delivered = 5"
| "base_rank Acknowledged = 6"
| "base_rank Rejected = 6"
| "base_rank Archived = 7"

lemma can_transition_rank: "can_transition_to s t \<Longrightarrow> base_rank s < base_rank t"
  by (cases s; cases t) simp_all

lemma archived_iff_stuck: "is_terminal s \<longleftrightarrow> (\<forall>t. \<not> can_transition_to s t)"
proof
  show "\<forall>t. \<not> can_transition_to s t" if "is_terminal s"
    using that by (auto simp: is_terminal_def elim: can_transition_to.elims)
  show "is_terminal s" if "\<forall>t. \<not> can_transition_to s t"
    using that by (cases s) (auto simp: is_terminal_def dest: spec [of _ Validated]
        spec [of _ Signed] spec [of _ Reserved] spec [of _ Sent] spec [of _ Delivered]
        spec [of _ Acknowledged] spec [of _ Archived])
qed

interpretation base: lifecycle can_transition_to is_terminal base_rank 7
proof
  show "base_rank s < base_rank t" if "can_transition_to s t" for s t
    using that by (rule can_transition_rank)
  show "base_rank s \<le> 7" for s by (cases s) simp_all
  show "is_terminal s \<longleftrightarrow> (\<forall>t. \<not> can_transition_to s t)" for s by (rule archived_iff_stuck)
qed

lemma base_as_str_inj: "base_as_str s = base_as_str t \<longleftrightarrow> s = t"
  by (cases s; cases t) simp_all

lemma base_as_str_no_bar: "CHR ''|'' \<notin> set (base_as_str s)"
  by (cases s) simp_all

section \<open>Country sub-states and transitions\<close>

record country_sub_state =
  css_system :: string
  css_code :: string
  css_label :: string

definition country_sub_state_new ::
  "string \<Rightarrow> string \<Rightarrow> string \<Rightarrow> reconcile_error + country_sub_state" where
  "country_sub_state_new system code label =
     rbind (first_err [validate_identifier system ''country_substate.system'',
                       validate_identifier code ''country_substate.code'',
                       validate_text label ''country_substate.label''])
       (\<lambda>_. Inr \<lparr>css_system = system, css_code = code, css_label = label\<rparr>)"

record transmission_state =
  ts_base :: transmission_base_state
  ts_country :: "country_sub_state option"

definition transmission_state_new :: "transmission_base_state \<Rightarrow> transmission_state" where
  "transmission_state_new b = \<lparr>ts_base = b, ts_country = None\<rparr>"

definition with_country_substate ::
  "transmission_state \<Rightarrow> country_sub_state \<Rightarrow> transmission_state" where
  "with_country_substate s c = s\<lparr>ts_country := Some c\<rparr>"

record transmission_transition =
  tt_from :: transmission_state
  tt_to :: transmission_state
  tt_reason :: string

definition transition_new ::
  "transmission_state \<Rightarrow> transmission_state \<Rightarrow> string \<Rightarrow> reconcile_error + transmission_transition"
where
  "transition_new from to reason =
     rbind (first_err [validate_non_empty reason ''transition.reason'',
                       ensure (can_transition_to (ts_base from) (ts_base to))
                         (InvalidTransition (ts_base from) (ts_base to))])
       (\<lambda>_. Inr \<lparr>tt_from = from, tt_to = to, tt_reason = reason\<rparr>)"

definition transition_to ::
  "transmission_state \<Rightarrow> transmission_state \<Rightarrow> string \<Rightarrow> reconcile_error + transmission_transition"
where
  "transition_to state next_state reason = transition_new state next_state reason"

record country_rule =
  rule_system :: string
  rule_from_base :: transmission_base_state
  rule_from_code :: "string option"
  rule_to_base :: transmission_base_state
  rule_to_code :: string

definition country_rule_build ::
  "string \<Rightarrow> transmission_base_state \<Rightarrow> string option \<Rightarrow> transmission_base_state \<Rightarrow> string
     \<Rightarrow> reconcile_error + country_rule" where
  "country_rule_build system from_base from_code to_base to_code =
     rbind (first_err
        [validate_identifier system ''country_substate_transition.system'',
         check_opt (\<lambda>c. validate_identifier c ''country_substate_transition.from_code'') from_code,
         validate_identifier to_code ''country_substate_transition.to_code'',
         ensure (can_transition_to from_base to_base) (InvalidTransition from_base to_base)])
       (\<lambda>_. Inr \<lparr>rule_system = system, rule_from_base = from_base, rule_from_code = from_code,
                 rule_to_base = to_base, rule_to_code = to_code\<rparr>)"

definition country_rule_initial ::
  "string \<Rightarrow> transmission_base_state \<Rightarrow> transmission_base_state \<Rightarrow> string
     \<Rightarrow> reconcile_error + country_rule" where
  "country_rule_initial system from_base to_base to_code =
     country_rule_build system from_base None to_base to_code"

definition country_rule_from_code ::
  "string \<Rightarrow> transmission_base_state \<Rightarrow> string \<Rightarrow> transmission_base_state \<Rightarrow> string
     \<Rightarrow> reconcile_error + country_rule" where
  "country_rule_from_code system from_base from_code to_base to_code =
     country_rule_build system from_base (Some from_code) to_base to_code"

definition matches_states ::
  "country_rule \<Rightarrow> transmission_state \<Rightarrow> transmission_state \<Rightarrow> bool" where
  "matches_states r from to =
     (if rule_from_base r \<noteq> ts_base from \<or> rule_to_base r \<noteq> ts_base to then False
      else case ts_country to of
          None \<Rightarrow> False
        | Some to_sub \<Rightarrow>
            if \<not> (css_system to_sub = rule_system r \<and> css_code to_sub = rule_to_code r) then False
            else (case (rule_from_code r, ts_country from) of
                    (None, None) \<Rightarrow> True
                  | (Some expected, Some from_sub) \<Rightarrow>
                      css_system from_sub = rule_system r \<and> css_code from_sub = expected
                  | _ \<Rightarrow> False))"

definition rule_key :: "country_rule \<Rightarrow> string" where
  "rule_key r =
     rule_system r @ ''|'' @ base_as_str (rule_from_base r) @ ''|''
     @ (case rule_from_code r of None \<Rightarrow> [] | Some c \<Rightarrow> c) @ ''|''
     @ base_as_str (rule_to_base r) @ ''|'' @ rule_to_code r"

definition rule_endpoint :: "transmission_base_state \<Rightarrow> string option \<Rightarrow> string" where
  "rule_endpoint b code =
     (case code of None \<Rightarrow> base_as_str b | Some c \<Rightarrow> base_as_str b @ ''/'' @ c)"

definition describe_country_state :: "transmission_state \<Rightarrow> string" where
  "describe_country_state s =
     (case ts_country s of
        None \<Rightarrow> base_as_str (ts_base s)
      | Some c \<Rightarrow> base_as_str (ts_base s) @ '':'' @ css_system c @ ''/'' @ css_code c)"

definition transition_country_system ::
  "transmission_state \<Rightarrow> transmission_state \<Rightarrow> reconcile_error + string option" where
  "transition_country_system from to =
     (case (ts_country from, ts_country to) of
        (Some f, Some t) \<Rightarrow>
          if css_system f \<noteq> css_system t then
            Inl (CountrySubStateSystemMismatch (css_system f) (css_system t))
          else Inr (Some (css_system f))
      | (Some f, None) \<Rightarrow> Inr (Some (css_system f))
      | (None, Some t) \<Rightarrow> Inr (Some (css_system t))
      | (None, None) \<Rightarrow> Inr None)"

section \<open>The registry\<close>

text \<open>\<open>seen\<close> is the set of keys already inserted; the first repeated key is the error.\<close>

fun registry_check :: "string set \<Rightarrow> country_rule list \<Rightarrow> reconcile_error + unit" where
  "registry_check seen [] = Inr ()"
| "registry_check seen (r # rs) =
     (if rule_key r \<in> seen then
        Inl (DuplicateCountrySubStateTransition (rule_system r)
               (rule_endpoint (rule_from_base r) (rule_from_code r))
               (rule_endpoint (rule_to_base r) (Some (rule_to_code r))))
      else registry_check (insert (rule_key r) seen) rs)"

type_synonym country_registry = "country_rule list"

definition registry_new :: "country_rule list \<Rightarrow> reconcile_error + country_registry" where
  "registry_new rules = rbind (registry_check {} rules) (\<lambda>_. Inr rules)"

definition registry_validate_transition ::
  "country_registry \<Rightarrow> transmission_state \<Rightarrow> transmission_state \<Rightarrow> reconcile_error + unit" where
  "registry_validate_transition reg from to =
     (case transition_country_system from to of
        Inl e \<Rightarrow> Inl e
      | Inr None \<Rightarrow> Inr ()
      | Inr (Some system) \<Rightarrow>
          if ts_country to = None then Inr ()
          else if \<not> list_ex (\<lambda>r. rule_system r = system) reg then Inr ()
          else if list_ex (\<lambda>r. matches_states r from to) reg then Inr ()
          else Inl (InvalidCountrySubStateTransition system
                      (describe_country_state from) (describe_country_state to)))"

section \<open>The state machine\<close>

record state_machine =
  sm_current :: transmission_state
  sm_history :: "transmission_transition list"
  sm_registry :: country_registry

definition machine_new :: "transmission_state \<Rightarrow> state_machine" where
  "machine_new initial = \<lparr>sm_current = initial, sm_history = [], sm_registry = []\<rparr>"

definition machine_with_registry :: "transmission_state \<Rightarrow> country_registry \<Rightarrow> state_machine" where
  "machine_with_registry initial reg =
     \<lparr>sm_current = initial, sm_history = [], sm_registry = reg\<rparr>"

text \<open>\<open>apply\<close> takes \<open>&mut self\<close>: the result and the machine afterwards.\<close>

definition machine_apply ::
  "state_machine \<Rightarrow> transmission_state \<Rightarrow> string
     \<Rightarrow> (reconcile_error + transmission_transition) \<times> state_machine" where
  "machine_apply m nxt reason =
     (case transition_new (sm_current m) nxt reason of
        Inl e \<Rightarrow> (Inl e, m)
      | Inr t \<Rightarrow>
          (case registry_validate_transition (sm_registry m) (tt_from t) (tt_to t) of
             Inl e \<Rightarrow> (Inl e, m)
           | Inr _ \<Rightarrow> (Inr t, m\<lparr>sm_current := tt_to t, sm_history := sm_history m @ [t]\<rparr>)))"

text \<open>The machines a caller can reach from an initial one by any sequence of calls.\<close>

inductive machine_reach :: "state_machine \<Rightarrow> state_machine \<Rightarrow> bool" for m0 where
  here: "machine_reach m0 m0"
| call: "machine_reach m0 m \<Longrightarrow> machine_reach m0 (snd (machine_apply m nxt reason))"

section \<open>Properties of the registry\<close>

lemma registry_check_iff:
  "registry_check seen rs = Inr () \<longleftrightarrow>
     distinct (map rule_key rs) \<and> seen \<inter> rule_key ` set rs = {}"
  by (induction rs arbitrary: seen) auto

lemma registry_new_iff:
  "registry_new rs = Inr reg \<longleftrightarrow> reg = rs \<and> distinct (map rule_key rs)"
  by (auto simp: registry_new_def rbind_Inr_iff registry_check_iff)

definition bar_free :: "country_rule \<Rightarrow> bool" where
  "bar_free r \<longleftrightarrow> CHR ''|'' \<notin> set (rule_system r) \<and> CHR ''|'' \<notin> set (rule_to_code r)
     \<and> (\<forall>c. rule_from_code r = Some c \<longrightarrow> c \<noteq> [] \<and> CHR ''|'' \<notin> set c)"

lemma bar_split:
  "u @ CHR ''|'' # v = u' @ CHR ''|'' # v' \<Longrightarrow> CHR ''|'' \<notin> set u \<Longrightarrow> CHR ''|'' \<notin> set u'
     \<Longrightarrow> u = u' \<and> v = v'"
proof -
  assume eq: "u @ CHR ''|'' # v = u' @ CHR ''|'' # v'"
    and f: "CHR ''|'' \<notin> set u" "CHR ''|'' \<notin> set u'"
  have "takeWhile (\<lambda>c. c \<noteq> CHR ''|'') (u @ CHR ''|'' # v) = u"
    "takeWhile (\<lambda>c. c \<noteq> CHR ''|'') (u' @ CHR ''|'' # v') = u'"
    using f by (auto simp: takeWhile_append)
  with eq have "u = u'" by simp
  with eq show ?thesis by simp
qed

lemma rule_key_inj: "bar_free r \<Longrightarrow> bar_free s \<Longrightarrow> rule_key r = rule_key s \<Longrightarrow> r = s"
proof -
  assume br: "bar_free r" and bs: "bar_free s" and eq: "rule_key r = rule_key s"
  let ?c = "\<lambda>r. case rule_from_code r of None \<Rightarrow> [] | Some c \<Rightarrow> c"
  have cf: "CHR ''|'' \<notin> set (?c x)" if "bar_free x" for x
    using that by (auto simp: bar_free_def split: option.splits)
  let ?R = "\<lambda>r. base_as_str (rule_from_base r) @ CHR ''|'' # ?c r @ CHR ''|''
    # base_as_str (rule_to_base r) @ CHR ''|'' # rule_to_code r"
  from eq have 0: "rule_system r @ CHR ''|'' # ?R r = rule_system s @ CHR ''|'' # ?R s"
    by (simp add: rule_key_def)
  have 1: "rule_system r = rule_system s"
    "base_as_str (rule_from_base r) @ CHR ''|'' # ?c r @ CHR ''|'' # base_as_str (rule_to_base r) @ CHR ''|'' # rule_to_code r
     = base_as_str (rule_from_base s) @ CHR ''|'' # ?c s @ CHR ''|'' # base_as_str (rule_to_base s) @ CHR ''|'' # rule_to_code s"
    using bar_split [OF 0] br bs by (simp_all add: bar_free_def)
  from bar_split [OF 1(2)] have 2: "rule_from_base r = rule_from_base s"
    "?c r @ CHR ''|'' # base_as_str (rule_to_base r) @ CHR ''|'' # rule_to_code r
     = ?c s @ CHR ''|'' # base_as_str (rule_to_base s) @ CHR ''|'' # rule_to_code s"
    by (auto simp: base_as_str_no_bar base_as_str_inj)
  from bar_split [OF 2(2) cf [OF br] cf [OF bs]] have 3: "?c r = ?c s"
    "base_as_str (rule_to_base r) @ CHR ''|'' # rule_to_code r
     = base_as_str (rule_to_base s) @ CHR ''|'' # rule_to_code s"
    by auto
  from bar_split [OF 3(2)] have 4: "rule_to_base r = rule_to_base s" "rule_to_code r = rule_to_code s"
    by (auto simp: base_as_str_no_bar base_as_str_inj)
  have "rule_from_code r = rule_from_code s"
    using 3(1) br bs by (auto simp: bar_free_def split: option.splits)
  with 1(1) 2(1) 4 show ?thesis by simp
qed

text \<open>A registry whose identifiers contain no bar is accepted exactly when its rules are pairwise
  different, and then it holds exactly the given rules.\<close>

theorem registry_new_distinct:
  assumes "\<forall>r \<in> set rs. bar_free r"
  shows "registry_new rs = Inr reg \<longleftrightarrow> reg = rs \<and> distinct rs"
proof -
  have "inj_on rule_key (set rs)"
    using assms rule_key_inj by (auto intro: inj_onI)
  then show ?thesis by (simp add: registry_new_iff distinct_map)
qed

theorem registry_new_distinct_witness:
  "is_ok (registry_new [\<lparr>rule_system = ''KSEF'', rule_from_base = Reserved, rule_from_code = None,
       rule_to_base = Sent, rule_to_code = ''reserved''\<rparr>])"
proof -
  let ?r = "\<lparr>rule_system = ''KSEF'', rule_from_base = Reserved, rule_from_code = None,
       rule_to_base = Sent, rule_to_code = ''reserved''\<rparr>"
  have "\<forall>r \<in> set [?r]. bar_free r" by (simp add: bar_free_def)
  from registry_new_distinct [OF this, of "[?r]"] show ?thesis by (simp add: is_ok_iff)
qed

text \<open>With a bar inside an identifier (which the identifier check allows) two different rules get
  the same key: each of the two rules is valid, and a registry of both is refused as a duplicate.\<close>

theorem rule_key_collision:
  "\<exists>r s. country_rule_from_code ''S'' Sent ''x|delivered|y'' Delivered ''z'' = Inr r
     \<and> country_rule_from_code ''S'' Sent ''x'' Delivered ''y|delivered|z'' = Inr s
     \<and> r \<noteq> s \<and> \<not> is_ok (registry_new [r, s])"
proof (intro exI conjI)
  let ?r = "\<lparr>rule_system = ''S'', rule_from_base = Sent, rule_from_code = Some ''x|delivered|y'',
     rule_to_base = Delivered, rule_to_code = ''z''\<rparr>"
  let ?s = "\<lparr>rule_system = ''S'', rule_from_base = Sent, rule_from_code = Some ''x'',
     rule_to_base = Delivered, rule_to_code = ''y|delivered|z''\<rparr>"
  show "country_rule_from_code ''S'' Sent ''x|delivered|y'' Delivered ''z'' = Inr ?r" by code_simp
  show "country_rule_from_code ''S'' Sent ''x'' Delivered ''y|delivered|z'' = Inr ?s" by code_simp
  show "?r \<noteq> ?s" by simp
  show "\<not> is_ok (registry_new [?r, ?s])"
    by (simp add: registry_new_def rule_key_def)
qed

text \<open>The registry's decision in full: clearing the sub-state is always allowed; moving into a
  sub-state keeps the country system of the previous sub-state, and is allowed when the system has
  no rule at all or when one of the rules matches.\<close>

theorem registry_decision:
  "registry_validate_transition reg from to = Inr () \<longleftrightarrow>
     (case ts_country to of
        None \<Rightarrow> True
      | Some t \<Rightarrow>
          (case ts_country from of None \<Rightarrow> True | Some f \<Rightarrow> css_system f = css_system t)
          \<and> (\<not> list_ex (\<lambda>r. rule_system r = css_system t) reg
             \<or> list_ex (\<lambda>r. matches_states r from to) reg))"
  by (cases "ts_country from"; cases "ts_country to")
     (auto simp: registry_validate_transition_def transition_country_system_def)

section \<open>Properties of the state machine\<close>

text \<open>
  A history from one state to another: consecutive transitions, each a legal base move with a
  reason, each accepted by the registry.
\<close>

fun history_ok ::
  "country_registry \<Rightarrow> transmission_state \<Rightarrow> transmission_transition list \<Rightarrow> transmission_state
     \<Rightarrow> bool" where
  "history_ok reg s [] t \<longleftrightarrow> s = t"
| "history_ok reg s (x # xs) t \<longleftrightarrow>
     tt_from x = s \<and> can_transition_to (ts_base s) (ts_base (tt_to x)) \<and> \<not> blank (tt_reason x)
     \<and> registry_validate_transition reg s (tt_to x) = Inr () \<and> history_ok reg (tt_to x) xs t"

lemma history_ok_snoc:
  "history_ok reg s (xs @ [x]) t \<longleftrightarrow>
     history_ok reg s xs (tt_from x) \<and> can_transition_to (ts_base (tt_from x)) (ts_base (tt_to x))
     \<and> \<not> blank (tt_reason x) \<and> registry_validate_transition reg (tt_from x) (tt_to x) = Inr ()
     \<and> tt_to x = t"
  by (induction xs arbitrary: s) auto

lemma history_ok_path:
  "history_ok reg s xs t \<Longrightarrow> base.path (ts_base s) (map (\<lambda>x. ts_base (tt_to x)) xs)"
  by (induction xs arbitrary: s) auto

lemma transition_new_iff:
  "transition_new s t r = Inr x \<longleftrightarrow>
     \<not> blank r \<and> can_transition_to (ts_base s) (ts_base t)
     \<and> x = \<lparr>tt_from = s, tt_to = t, tt_reason = r\<rparr>"
  by (auto simp: transition_new_def rbind_Inr_iff first_err_ok_iff validate_non_empty_def)

lemma machine_apply_cases:
  obtains (refused) e where "machine_apply m t r = (Inl e, m)"
  | (applied) x where "machine_apply m t r =
        (Inr x, m\<lparr>sm_current := t, sm_history := sm_history m @ [x]\<rparr>)"
      "x = \<lparr>tt_from = sm_current m, tt_to = t, tt_reason = r\<rparr>" "\<not> blank r"
      "can_transition_to (ts_base (sm_current m)) (ts_base t)"
      "registry_validate_transition (sm_registry m) (sm_current m) t = Inr ()"
proof (cases "transition_new (sm_current m) t r")
  case (Inl e)
  then show ?thesis by (intro refused [of e]) (simp add: machine_apply_def)
next
  case (Inr x)
  then have x: "x = \<lparr>tt_from = sm_current m, tt_to = t, tt_reason = r\<rparr>" "\<not> blank r"
    "can_transition_to (ts_base (sm_current m)) (ts_base t)"
    by (simp_all add: transition_new_iff)
  show ?thesis
  proof (cases "registry_validate_transition (sm_registry m) (sm_current m) t")
    case (Inl e)
    then show ?thesis using Inr x by (intro refused [of e]) (simp add: machine_apply_def)
  next
    case (Inr u)
    then show ?thesis
      using \<open>transition_new (sm_current m) t r = Inr x\<close> x
      by (intro applied [of x]) (simp_all add: machine_apply_def)
  qed
qed

lemma machine_reach_history:
  "machine_reach (machine_with_registry i reg) m \<Longrightarrow>
     sm_registry m = reg \<and> history_ok reg i (sm_history m) (sm_current m)"
proof (induction rule: machine_reach.induct)
  case here
  then show ?case by (simp add: machine_with_registry_def)
next
  case (call m t r)
  show ?case
    using call.IH by (cases rule: machine_apply_cases [of m t r]) (auto simp: history_ok_snoc)
qed

text \<open>C15  The history of every reachable machine is a gap-free record from the initial to the current
  state: each transition starts where the previous one ended, is a legal base move with a reason,
  and was accepted by the registry, which never changes; no base state is ever entered twice and
  at most seven transitions are ever recorded.\<close>

theorem machine_history_sound:
  assumes "machine_reach (machine_with_registry i reg) m"
  shows "sm_registry m = reg \<and> history_ok reg i (sm_history m) (sm_current m)
    \<and> distinct (ts_base i # map (\<lambda>x. ts_base (tt_to x)) (sm_history m))
    \<and> length (sm_history m) \<le> 7"
proof -
  from assms have h: "sm_registry m = reg" "history_ok reg i (sm_history m) (sm_current m)"
    by (simp_all add: machine_reach_history)
  from h(2) have p: "base.path (ts_base i) (map (\<lambda>x. ts_base (tt_to x)) (sm_history m))"
    by (rule history_ok_path)
  from base.path_length [OF p] have "length (sm_history m) \<le> 7" by simp
  with h base.path_distinct [OF p] show ?thesis by simp
qed

theorem machine_history_sound_witness:
  "length (sm_history (snd (machine_apply (machine_with_registry (transmission_state_new Draft) [])
       (transmission_state_new Validated) ''ok''))) \<le> 7"
  using machine_history_sound [OF machine_reach.call [OF machine_reach.here]] by blast

lemma machine_apply_outcome:
  "(\<exists>e. machine_apply m t r = (Inl e, m)
      \<and> (blank r \<or> \<not> can_transition_to (ts_base (sm_current m)) (ts_base t)
         \<or> registry_validate_transition (sm_registry m) (sm_current m) t \<noteq> Inr ()))
   \<or> (machine_apply m t r =
        (Inr \<lparr>tt_from = sm_current m, tt_to = t, tt_reason = r\<rparr>,
         m\<lparr>sm_current := t,
           sm_history := sm_history m @ [\<lparr>tt_from = sm_current m, tt_to = t, tt_reason = r\<rparr>]\<rparr>)
      \<and> \<not> blank r \<and> can_transition_to (ts_base (sm_current m)) (ts_base t)
      \<and> registry_validate_transition (sm_registry m) (sm_current m) t = Inr ())"
proof (cases "transition_new (sm_current m) t r")
  case (Inl e)
  have "\<not> (\<not> blank r \<and> can_transition_to (ts_base (sm_current m)) (ts_base t))"
    using Inl transition_new_iff [of "sm_current m" t r] by auto
  with Inl show ?thesis by (auto simp: machine_apply_def)
next
  case (Inr x)
  then have x: "x = \<lparr>tt_from = sm_current m, tt_to = t, tt_reason = r\<rparr>" "\<not> blank r"
    "can_transition_to (ts_base (sm_current m)) (ts_base t)"
    by (simp_all add: transition_new_iff)
  show ?thesis
    using Inr x by (cases "registry_validate_transition (sm_registry m) (sm_current m) t")
      (auto simp: machine_apply_def)
qed

text \<open>A refused call leaves the machine unchanged, and a call is refused exactly when the reason is
  blank, the base move is not allowed, or the registry refuses the sub-state move; an accepted call
  makes the target the current state and appends the one transition it returns.\<close>

theorem machine_apply_atomic:
  "case machine_apply m t r of
     (Inl _, m') \<Rightarrow> m' = m
       \<and> (blank r = False \<and> can_transition_to (ts_base (sm_current m)) (ts_base t)
            \<and> registry_validate_transition (sm_registry m) (sm_current m) t = Inr ()) = False
   | (Inr x, m') \<Rightarrow> x = \<lparr>tt_from = sm_current m, tt_to = t, tt_reason = r\<rparr>
       \<and> m' = m\<lparr>sm_current := t, sm_history := sm_history m @ [x]\<rparr>
       \<and> \<not> blank r \<and> can_transition_to (ts_base (sm_current m)) (ts_base t)
       \<and> registry_validate_transition (sm_registry m) (sm_current m) t = Inr ()"
  using machine_apply_outcome [of m t r] by (elim disjE exE conjE) simp_all

lemma machine_reach_trans: "machine_reach a b \<Longrightarrow> machine_reach b c \<Longrightarrow> machine_reach a c"
  by (rotate_tac, induction rule: machine_reach.induct) (auto intro: machine_reach.call)

lemma apply_bare_move:
  assumes "can_transition_to (ts_base (sm_current m)) b"
  shows "sm_current (snd (machine_apply m (transmission_state_new b) ''move'')) =
    transmission_state_new b"
proof -
  have "\<not> blank ''move''"
    by (rule not_blank_solid [of "CHR ''m''"]) (simp_all add: solid_def byte_def)
  moreover have "registry_validate_transition (sm_registry m) (sm_current m)
      (transmission_state_new b) = Inr ()"
    by (simp add: registry_decision transmission_state_new_def)
  ultimately show ?thesis
    using assms machine_apply_outcome [of m "transmission_state_new b" "''move''"]
    by (auto simp: transmission_state_new_def)
qed

lemma reach_bare_base:
  "can_transition_to\<^sup>*\<^sup>* (ts_base (sm_current m)) b \<Longrightarrow>
     \<exists>m'. machine_reach m m' \<and> ts_base (sm_current m') = b"
proof (induction rule: rtranclp_induct)
  case base
  show ?case by (blast intro: machine_reach.here)
next
  case (step b c)
  then obtain m' where m': "machine_reach m m'" "ts_base (sm_current m') = b" by blast
  with step.hyps(2) have "sm_current (snd (machine_apply m' (transmission_state_new c) ''move'')) =
      transmission_state_new c"
    by (intro apply_bare_move) simp
  with m'(1) show ?case
    by (intro exI [of _ "snd (machine_apply m' (transmission_state_new c) ''move'')"])
       (auto intro: machine_reach.call simp: transmission_state_new_def)
qed

text \<open>Whatever state a machine is in and whatever country rules are configured, some sequence of
  calls takes it to the archived state.\<close>

theorem machine_can_archive: "\<exists>m'. machine_reach m m' \<and> ts_base (sm_current m') = Archived"
proof -
  obtain b where "can_transition_to\<^sup>*\<^sup>* (ts_base (sm_current m)) b" "is_terminal b"
    using base.terminates by blast
  then show ?thesis using reach_bare_base by (auto simp: is_terminal_def)
qed


end
