(* ===== verification/Sequences.thy ===== *)
theory Sequences
  imports Prelude "HOL-Library.Multiset"
begin

text \<open>
  What the components that print and sort share: Rust's \<open>Ordering\<close> and \<open>sort_by\<close>, \<open>collect\<close> of
  results, joining with a separator, and the locale of self-delimiting encodings.
\<close>

section \<open>Ordering and sorting\<close>

datatype ordering = Less | Equal | Greater

definition cmp_of :: "'a::linorder \<Rightarrow> 'a \<Rightarrow> ordering" where
  "cmp_of a b = (if a < b then Less else if a = b then Equal else Greater)"

definition then_with :: "ordering \<Rightarrow> ordering \<Rightarrow> ordering" where
  "then_with a b = (if a = Equal then b else a)"

text \<open>The stable sort of a slice, by insertion from the end.\<close>

fun insert_by :: "('a \<Rightarrow> 'a \<Rightarrow> ordering) \<Rightarrow> 'a \<Rightarrow> 'a list \<Rightarrow> 'a list" where
  "insert_by cmp x [] = [x]"
| "insert_by cmp x (y # ys) =
     (if cmp x y = Greater then y # insert_by cmp x ys else x # y # ys)"

definition sort_by :: "('a \<Rightarrow> 'a \<Rightarrow> ordering) \<Rightarrow> 'a list \<Rightarrow> 'a list" where
  "sort_by cmp xs = foldr (insert_by cmp) xs []"

lemma set_insert_by [simp]: "set (insert_by cmp x ys) = insert x (set ys)"
  by (induction ys) auto

lemma set_sort_by [simp]: "set (sort_by cmp xs) = set xs"
  by (induction xs) (simp_all add: sort_by_def)

lemma length_sort_by [simp]: "length (sort_by cmp xs) = length xs"
proof -
  have "length (insert_by cmp x ys) = Suc (length ys)" for x and ys :: "'a list"
    by (induction ys) auto
  then show ?thesis by (induction xs) (simp_all add: sort_by_def)
qed

lemma mset_sort_by [simp]: "mset (sort_by cmp xs) = mset xs"
proof -
  have "mset (insert_by cmp x ys) = add_mset x (mset ys)" for x ys
    by (induction ys) auto
  then show ?thesis by (induction xs) (simp_all add: sort_by_def)
qed

lemma distinct_sort_by [simp]: "distinct (sort_by cmp xs) \<longleftrightarrow> distinct xs"
  by (metis card_distinct distinct_card length_sort_by set_sort_by)

text \<open>A comparison that compares a key sorts by that key.\<close>

lemma sort_by_key:
  assumes "\<And>x y. cmp x y = Greater \<longleftrightarrow> f y < f x"
  shows "sort_by cmp xs = sort_key f xs"
proof -
  have "insert_by cmp x ys = insort_key f x ys" for x ys
    by (induction ys) (auto simp: assms)
  then show ?thesis by (induction xs) (simp_all add: sort_by_def)
qed

lemma sort_by_map:
  "sort_by cmp (map f xs) = map f (sort_by (\<lambda>x y. cmp (f x) (f y)) xs)"
proof -
  have "insert_by cmp (f x) (map f ys) = map f (insert_by (\<lambda>x y. cmp (f x) (f y)) x ys)" for x ys
    by (induction ys) auto
  then show ?thesis by (induction xs) (simp_all add: sort_by_def)
qed

text \<open>Two lists of the same elements with different keys are sorted into the same list.\<close>

lemma sort_key_unique:
  assumes "distinct xs" "distinct ys" "set xs = set ys" "inj_on f (set xs)"
  shows "sort_key f xs = sort_key f ys"
proof -
  have "map f (sort_key f xs) = map f (sort_key f ys)"
    using assms by (intro sorted_distinct_set_unique) (auto simp: distinct_map)
  then show ?thesis using assms(3,4) by (intro map_inj_on [of f]) auto
qed

section \<open>Results of several steps\<close>

text \<open>\<open>collect::<Result<Vec<_>, _>>()\<close>: the values in order, or the first error.\<close>

fun collect :: "('e + 'a) list \<Rightarrow> 'e + 'a list" where
  "collect [] = Inr []"
| "collect (r # rs) = rbind r (\<lambda>x. rbind (collect rs) (\<lambda>xs. Inr (x # xs)))"

lemma collect_Inr_iff: "collect rs = Inr xs \<longleftrightarrow> rs = map Inr xs"
proof (induction rs arbitrary: xs)
  case (Cons r rs)
  then show ?case by (cases xs) (auto simp: rbind_Inr_iff)
qed auto

lemma collect_Inl: "collect rs = Inl e \<Longrightarrow> Inl e \<in> set rs"
  by (induction rs) (auto simp: rbind_Inl_iff)

section \<open>Joining\<close>

fun join :: "'c list \<Rightarrow> 'c list list \<Rightarrow> 'c list" where
  "join sep [] = []"
| "join sep [t] = t"
| "join sep (t # u # ts) = t @ sep @ join sep (u # ts)"

section \<open>Self-delimiting encodings\<close>

text \<open>
  An encoding whose end can be told from its text: two encodings that start one text are encodings
  of the same value.
\<close>

locale self_delimiting =
  fixes enc :: "'a \<Rightarrow> 'c list" and ok :: "'a \<Rightarrow> bool"
  assumes enc_split: "ok x \<Longrightarrow> ok y \<Longrightarrow> enc x @ s = enc y @ t \<Longrightarrow> x = y"
begin

lemma enc_rest: "ok x \<Longrightarrow> ok y \<Longrightarrow> enc x @ s = enc y @ t \<Longrightarrow> x = y \<and> s = t"
proof -
  assume a: "ok x" "ok y" "enc x @ s = enc y @ t"
  from enc_split [OF a] have "x = y" .
  with a(3) show "x = y \<and> s = t" by simp
qed

lemma enc_inj: "ok x \<Longrightarrow> ok y \<Longrightarrow> enc x = enc y \<Longrightarrow> x = y"
  using enc_split [of x y "[]" "[]"] by simp

lemma concat_inj:
  "length xs = length ys \<Longrightarrow> list_all ok xs \<Longrightarrow> list_all ok ys \<Longrightarrow>
     concat (map enc xs) @ s = concat (map enc ys) @ t \<Longrightarrow> xs = ys \<and> s = t"
proof (induction xs ys rule: list_induct2)
  case (Cons x xs y ys)
  then show ?case
    using enc_rest [of x y "concat (map enc xs) @ s" "concat (map enc ys) @ t"] by simp
qed simp

text \<open>A sequence of encodings that ends with a character no encoding begins with.\<close>

lemma terminated_inj:
  assumes "\<And>x. ok x \<Longrightarrow> enc x \<noteq> [] \<and> hd (enc x) \<noteq> e"
  shows "list_all ok xs \<Longrightarrow> list_all ok ys \<Longrightarrow>
    concat (map enc xs) @ e # s = concat (map enc ys) @ e # t \<Longrightarrow> xs = ys \<and> s = t"
proof (induction xs arbitrary: ys)
  case Nil
  show ?case
  proof (cases ys)
    case (Cons y ys')
    with Nil assms [of y] show ?thesis by (cases "enc y") auto
  qed (use Nil in simp)
next
  case (Cons x xs)
  show ?case
  proof (cases ys)
    case Nil
    with Cons.prems assms [of x] show ?thesis by (cases "enc x") auto
  next
    case c: (Cons y ys')
    with Cons.prems enc_rest [of x y "concat (map enc xs) @ e # s" "concat (map enc ys') @ e # t"]
    have "x = y" "concat (map enc xs) @ e # s = concat (map enc ys') @ e # t" by simp_all
    with Cons.IH [of ys'] Cons.prems c show ?thesis by simp
  qed
qed

lemma unterminated_inj:
  assumes "\<And>x. ok x \<Longrightarrow> enc x \<noteq> []"
  shows "list_all ok xs \<Longrightarrow> list_all ok ys \<Longrightarrow> concat (map enc xs) = concat (map enc ys) \<Longrightarrow> xs = ys"
proof (induction xs arbitrary: ys)
  case Nil
  with assms show ?case by (cases ys) auto
next
  case (Cons x xs)
  show ?case
  proof (cases ys)
    case Nil
    with Cons.prems assms [of x] show ?thesis by simp
  next
    case c: (Cons y ys')
    with Cons.prems enc_rest [of x y "concat (map enc xs)" "concat (map enc ys')"] Cons.IH [of ys']
    show ?thesis by simp
  qed
qed

end

end
