(* ===== verification/Gateway.thy ===== *)
theory Gateway
  imports Transmission Sequences
begin

text \<open>
  The rest of \<open>crates/reconcile/src/lib.rs\<close>: the requests and receipts that cross the gateway
  boundary, the normalized gateway errors, and the invoice fingerprint.  The adapters behind the
  \<open>GatewayAdapter\<close> trait are arguments of the definitions that call them.
\<close>

section \<open>Requests and receipts\<close>

record gateway_receipt =
  rcpt_operation :: gateway_operation
  rcpt_context :: gateway_context
  rcpt_submission_id :: gateway_submission_id
  rcpt_status :: gateway_status
  rcpt_gateway_reference :: "string option"
  rcpt_raw_receipt_hash :: "string option"
  rcpt_received_at :: string
  rcpt_detail :: "string option"

definition gateway_receipt_new ::
  "gateway_operation \<Rightarrow> gateway_context \<Rightarrow> gateway_submission_id \<Rightarrow> gateway_status \<Rightarrow> string
     \<Rightarrow> reconcile_error + gateway_receipt" where
  "gateway_receipt_new operation context submission_id status received_at =
     rbind (validate_non_empty received_at ''received_at'')
       (\<lambda>_. Inr \<lparr>rcpt_operation = operation, rcpt_context = context,
                 rcpt_submission_id = submission_id, rcpt_status = status,
                 rcpt_gateway_reference = None, rcpt_raw_receipt_hash = None,
                 rcpt_received_at = received_at, rcpt_detail = None\<rparr>)"

definition ensure_same :: "string \<Rightarrow> string \<Rightarrow> string \<Rightarrow> reconcile_error + unit" where
  "ensure_same field expected actual =
     (if expected = actual then Inr () else Inl (ContextMismatch field expected actual))"

definition ensure_document_context ::
  "gateway_context \<Rightarrow> ('d, 'j) commercial_document \<Rightarrow> reconcile_error + unit" where
  "ensure_document_context ctx doc =
     first_err [ensure_same ''tenant_id'' (tenant_str (ctx_tenant_id ctx))
                  (meta_tenant_id (doc_meta doc)),
                ensure_same ''trace_id'' (trace_str (ctx_trace_id ctx))
                  (meta_trace_id (doc_meta doc))]"

definition map_invalid_document :: "ir_error + unit \<Rightarrow> reconcile_error + unit" where
  "map_invalid_document r = (case r of Inl e \<Rightarrow> Inl (InvalidDocument e) | Inr u \<Rightarrow> Inr u)"

record ('d, 'j) submit_request =
  sub_context :: gateway_context
  sub_route :: gateway_route
  sub_document :: "('d, 'j) commercial_document"

definition submit_request_new ::
  "gateway_context \<Rightarrow> gateway_route \<Rightarrow> ('d, 'j) commercial_document
     \<Rightarrow> reconcile_error + ('d, 'j) submit_request" where
  "submit_request_new ctx route doc =
     rbind (first_err [map_invalid_document (document_validate doc), ensure_document_context ctx doc])
       (\<lambda>_. Inr \<lparr>sub_context = ctx, sub_route = route, sub_document = doc\<rparr>)"

record poll_request =
  poll_context :: gateway_context
  poll_submission_id :: gateway_submission_id

definition poll_request_new :: "gateway_context \<Rightarrow> gateway_submission_id \<Rightarrow> poll_request" where
  "poll_request_new ctx sid = \<lparr>poll_context = ctx, poll_submission_id = sid\<rparr>"

record cancel_request =
  can_context :: gateway_context
  can_submission_id :: gateway_submission_id
  can_reason :: string

definition cancel_request_new ::
  "gateway_context \<Rightarrow> gateway_submission_id \<Rightarrow> string \<Rightarrow> reconcile_error + cancel_request" where
  "cancel_request_new ctx sid reason =
     rbind (validate_non_empty reason ''reason'')
       (\<lambda>_. Inr \<lparr>can_context = ctx, can_submission_id = sid, can_reason = reason\<rparr>)"

record ('d, 'j) correct_request =
  cor_context :: gateway_context
  cor_submission_id :: gateway_submission_id
  cor_document :: "('d, 'j) commercial_document"
  cor_reason :: string

definition correct_request_new ::
  "gateway_context \<Rightarrow> gateway_submission_id \<Rightarrow> ('d, 'j) commercial_document \<Rightarrow> string
     \<Rightarrow> reconcile_error + ('d, 'j) correct_request" where
  "correct_request_new ctx sid doc reason =
     rbind (first_err [validate_non_empty reason ''reason'',
                       map_invalid_document (document_validate doc),
                       ensure_document_context ctx doc])
       (\<lambda>_. Inr \<lparr>cor_context = ctx, cor_submission_id = sid, cor_document = doc,
                 cor_reason = reason\<rparr>)"

section \<open>Gateway errors\<close>

datatype gateway_error_kind =
    AuthFailure | RateLimited | MalformedReceipt | GatewayMaintenance | CertificateRejected
  | DuplicateSubmission | Timeout | NetworkFailure | KRejected | NotFound | InvalidRequest
  | UnsupportedOperation | PartnerError | UnexpectedResponse

fun kind_as_str :: "gateway_error_kind \<Rightarrow> string" where
  "kind_as_str AuthFailure = ''auth_failure''"
| "kind_as_str RateLimited = ''rate_limited''"
| "kind_as_str MalformedReceipt = ''malformed_receipt''"
| "kind_as_str GatewayMaintenance = ''gateway_maintenance''"
| "kind_as_str CertificateRejected = ''certificate_rejected''"
| "kind_as_str DuplicateSubmission = ''duplicate_submission''"
| "kind_as_str Timeout = ''timeout''"
| "kind_as_str NetworkFailure = ''network_failure''"
| "kind_as_str KRejected = ''rejected''"
| "kind_as_str NotFound = ''not_found''"
| "kind_as_str InvalidRequest = ''invalid_request''"
| "kind_as_str UnsupportedOperation = ''unsupported_operation''"
| "kind_as_str PartnerError = ''partner_error''"
| "kind_as_str UnexpectedResponse = ''unexpected_response''"

record gateway_error =
  ge_kind :: gateway_error_kind
  ge_operation :: gateway_operation
  ge_message :: string
  ge_remediation :: string
  ge_gateway_code :: "string option"
  ge_submission_id :: "gateway_submission_id option"
  ge_retry_after_seconds :: "u64 option"

definition gateway_error_new ::
  "gateway_error_kind \<Rightarrow> gateway_operation \<Rightarrow> string \<Rightarrow> string \<Rightarrow> gateway_error" where
  "gateway_error_new kind operation message remediation =
     \<lparr>ge_kind = kind, ge_operation = operation, ge_message = message,
      ge_remediation = remediation, ge_gateway_code = None, ge_submission_id = None,
      ge_retry_after_seconds = None\<rparr>"

definition with_gateway_code :: "gateway_error \<Rightarrow> string \<Rightarrow> gateway_error" where
  "with_gateway_code e c = e\<lparr>ge_gateway_code := Some c\<rparr>"

definition with_submission_id :: "gateway_error \<Rightarrow> gateway_submission_id \<Rightarrow> gateway_error" where
  "with_submission_id e i = e\<lparr>ge_submission_id := Some i\<rparr>"

definition with_retry_after_seconds :: "gateway_error \<Rightarrow> u64 \<Rightarrow> gateway_error" where
  "with_retry_after_seconds e s = e\<lparr>ge_retry_after_seconds := Some s\<rparr>"

lemma kind_as_str_ok: "identifier_ok (kind_as_str k)"
  by (induction k) code_simp+

section \<open>The invoice fingerprint\<close>

text \<open>
  \<open>hash\<close> is BLAKE3 over the concatenation of all \<open>update\<close>s, \<open>dec_text\<close> is
  \<open>normalize().to_string()\<close> of a decimal; both are of third-party crates.
\<close>

fun be_bytes :: "nat \<Rightarrow> nat \<Rightarrow> char list" where
  "be_bytes 0 n = []"
| "be_bytes (Suc k) n = be_bytes k (n div 256) @ [char_of (n mod 256)]"

definition party_vat :: "party \<Rightarrow> string" where
  "party_vat p =
     (case find (\<lambda>t. eq_ignore_case (tax_scheme t) ''vat'') (party_tax_ids p) of
        None \<Rightarrow> [] | Some t \<Rightarrow> tax_value t)"

definition fingerprint_field :: "string \<Rightarrow> char list" where
  "fingerprint_field v = be_bytes 8 (length v) @ v"

definition fingerprint_fields :: "('d \<Rightarrow> string) \<Rightarrow> ('d, 'j) commercial_document \<Rightarrow> string list" where
  "fingerprint_fields dec_text doc =
     [party_vat (doc_supplier doc), party_vat (doc_customer doc), date_str (doc_issue_date doc),
      document_number_str (doc_document_number doc),
      dec_text (mt_payable_amount (doc_monetary_total doc)), currency_str (doc_currency doc)]"

definition fingerprint ::
  "(char list \<Rightarrow> 'h) \<Rightarrow> ('d \<Rightarrow> string) \<Rightarrow> ('d, 'j) commercial_document \<Rightarrow> 'h" where
  "fingerprint hash dec_text doc =
     hash (''invoicekit:reconcile:fingerprint:v1''
           @ concat (map fingerprint_field (fingerprint_fields dec_text doc)))"

lemma length_be_bytes [simp]: "length (be_bytes k n) = k"
  by (induction k arbitrary: n) auto

lemma be_bytes_inj: "m < 256 ^ k \<Longrightarrow> n < 256 ^ k \<Longrightarrow> be_bytes k m = be_bytes k n \<Longrightarrow> m = n"
proof (induction k arbitrary: m n)
  case (Suc k)
  have "be_bytes k (m div 256) = be_bytes k (n div 256)"
    and c: "(char_of (m mod 256) :: char) = char_of (n mod 256)"
    using Suc.prems(3) by simp_all
  moreover have "m div 256 < 256 ^ k" "n div 256 < 256 ^ k"
    using Suc.prems(1,2) by (simp_all add: less_mult_imp_div_less mult.commute)
  ultimately have "m div 256 = n div 256" by (blast intro: Suc.IH)
  moreover have "m mod 256 = n mod 256"
    using arg_cong [OF c, of "of_char :: char \<Rightarrow> nat"] by simp
  ultimately show ?case by (metis div_mult_mod_eq)
qed simp

text \<open>The length prefix makes a field self-delimiting.\<close>

interpretation fp: self_delimiting fingerprint_field "\<lambda>u. length u < 2 ^ 64"
proof
  fix u v :: string and s t :: string
  assume u: "length u < 2 ^ 64" and v: "length v < 2 ^ 64"
    and eq: "fingerprint_field u @ s = fingerprint_field v @ t"
  have l: "(256::nat) ^ 8 = 2 ^ 64" by simp
  have "be_bytes 8 (length u) = be_bytes 8 (length v)" and r: "u @ s = v @ t"
    using eq by (simp_all add: fingerprint_field_def append_eq_append_conv)
  then have "length u = length v"
    using u v unfolding l [symmetric] by (blast intro: be_bytes_inj)
  with r show "u = v" by simp
qed

text \<open>The fingerprint identifies exactly the six deduplication fields (both VAT numbers, issue date,
  document number, payable amount, currency): with a collision-free hash and fields that fit the
  64-bit length prefix, two documents have the same fingerprint if and only if these fields agree.\<close>

theorem fingerprint_identifies:
  assumes "inj hash"
    and "list_all (\<lambda>u. length u < 2 ^ 64) (fingerprint_fields dec_text a)"
    and "list_all (\<lambda>u. length u < 2 ^ 64) (fingerprint_fields dec_text b)"
  shows "fingerprint hash dec_text a = fingerprint hash dec_text b \<longleftrightarrow>
    fingerprint_fields dec_text a = fingerprint_fields dec_text b"
proof
  assume "fingerprint hash dec_text a = fingerprint hash dec_text b"
  then have "concat (map fingerprint_field (fingerprint_fields dec_text a)) =
      concat (map fingerprint_field (fingerprint_fields dec_text b))"
    using assms(1) by (simp add: fingerprint_def inj_eq)
  moreover have "length (fingerprint_fields dec_text a) = length (fingerprint_fields dec_text b)"
    by (simp add: fingerprint_fields_def)
  ultimately show "fingerprint_fields dec_text a = fingerprint_fields dec_text b"
    using assms(2,3) fp.concat_inj [of "fingerprint_fields dec_text a" "fingerprint_fields dec_text b" "[]" "[]"]
    by simp
qed (simp add: fingerprint_def)

text \<open>A small valid invoice, used to show that hypotheses can hold.\<close>

definition sample_party :: "string \<Rightarrow> party" where
  "sample_party vat =
     \<lparr>party_id = None, party_name = ''ACME'',
      party_tax_ids = [\<lparr>tax_scheme = ''VAT'', tax_value = vat\<rparr>],
      party_address = \<lparr>addr_lines = [''Main Street 1''], addr_city = ''Berlin'',
        addr_subdivision = None, addr_postal_code = ''10115'', addr_country = CountryCode ''DE''\<rparr>,
      party_contact = Some \<lparr>contact_name = Some ''Jane'', contact_email = None, contact_phone = None\<rparr>\<rparr>"

definition sample_document :: "(nat, unit) commercial_document" where
  "sample_document =
     \<lparr>doc_schema_version = V1_0, doc_id = DocumentId ''doc-1'', doc_document_type = Invoice,
      doc_issue_date = DateOnly ''2026-05-26'', doc_tax_point_date = None, doc_due_date = None,
      doc_invoice_period = None, doc_delivery_date = None,
      doc_document_number = DocumentNumber ''INV-1'', doc_currency = Iso4217Code ''EUR'',
      doc_supplier = sample_party ''DE1'', doc_customer = sample_party ''FR1'', doc_payee = None,
      doc_payment_terms = None,
      doc_payment_instructions =
        [\<lparr>pi_kind = IbanBic, pi_account = Some ''DE89'', pi_reference = None\<rparr>],
      doc_lines = [\<lparr>line_id = ''1'', line_description = ''Service'', line_quantity = 1,
        line_unit_code = None, line_unit_price = 119, line_extension_amount = 119,
        line_tax_category = None, line_classifications = [], line_extensions = [],
        line_allowance_charges = []\<rparr>],
      doc_tax_summary = [],
      doc_monetary_total = \<lparr>mt_line_extension_amount = 119, mt_tax_exclusive_amount = 119,
        mt_tax_inclusive_amount = 119, mt_allowance_total_amount = None,
        mt_charge_total_amount = None, mt_prepaid_amount = None, mt_payable_amount = 119\<rparr>,
      doc_attachments = [], doc_references = [], doc_notes = [], doc_extensions = [],
      doc_allowance_charges = [], doc_deliver_to = None,
      doc_meta = \<lparr>meta_tenant_id = ''tenant'', meta_trace_id = ''trace'', meta_source_system = None\<rparr>\<rparr>"

definition sample_context :: gateway_context where
  "sample_context = \<lparr>ctx_tenant_id = TenantId ''tenant'', ctx_trace_id = TraceId ''trace'',
     ctx_idempotency_key = IdempotencyKey ''idem'', ctx_gateway_attempt_id = GatewayAttemptId ''a1''\<rparr>"

definition sample_route :: gateway_route where
  "sample_route = \<lparr>route_route = ''peppol'', route_profile = ''bis'', route_country = None\<rparr>"

lemma sample_document_valid: "document_validate sample_document = Inr ()"
  by code_simp

theorem fingerprint_identifies_witness:
  "fingerprint (\<lambda>x. x) show_nat sample_document =
     fingerprint (\<lambda>x. x) show_nat (sample_document\<lparr>doc_payee := Some (sample_party ''IT1'')\<rparr>)"
proof -
  let ?d = "sample_document\<lparr>doc_payee := Some (sample_party ''IT1'')\<rparr>"
  have f: "fingerprint_fields show_nat sample_document =
      [''DE1'', ''FR1'', ''2026-05-26'', ''INV-1'', ''119'', ''EUR'']"
    and g: "fingerprint_fields show_nat ?d =
      [''DE1'', ''FR1'', ''2026-05-26'', ''INV-1'', ''119'', ''EUR'']"
    by code_simp+
  have "list_all (\<lambda>u. length u < 2 ^ 64) (fingerprint_fields show_nat sample_document)"
    "list_all (\<lambda>u. length u < 2 ^ 64) (fingerprint_fields show_nat ?d)"
    unfolding f g by simp_all
  from fingerprint_identifies [of "\<lambda>x. x", OF _ this] show ?thesis by (simp add: inj_def f g)
qed

section \<open>Request construction\<close>

text \<open>A submit request exists exactly for a valid document whose tenant and trace are those of the
  gateway context, and it carries the three arguments unchanged.\<close>

theorem submit_request_new_iff:
  "submit_request_new ctx route doc = Inr r \<longleftrightarrow>
     document_ok doc \<and> tenant_str (ctx_tenant_id ctx) = meta_tenant_id (doc_meta doc)
     \<and> trace_str (ctx_trace_id ctx) = meta_trace_id (doc_meta doc)
     \<and> r = \<lparr>sub_context = ctx, sub_route = route, sub_document = doc\<rparr>"
proof -
  have "map_invalid_document (document_validate doc) = Inr () \<longleftrightarrow> document_ok doc"
    by (cases "document_validate doc")
       (use document_validates_iff [of doc] in \<open>auto simp: map_invalid_document_def\<close>)
  then show ?thesis
    by (auto simp: submit_request_new_def rbind_Inr_iff first_err_ok_iff ensure_document_context_def
        ensure_same_def)
qed

end
