(* ===== verification/Outbox.thy ===== *)
theory Outbox
  imports Gateway
begin

text \<open>
  \<open>crates/reconcile/src/outbox.rs\<close>: the SQL dialects and migrations, the durable outbox state,
  the retry policy with its deterministic jitter, the outbox envelope and the dead-letter record.
  \<open>hash8\<close> stands for the first eight bytes, big-endian, of the BLAKE3 digest of its argument.
\<close>

section \<open>Migrations\<close>

datatype database_dialect = Postgres | Mysql | Sqlite

fun dialect_as_str :: "database_dialect \<Rightarrow> string" where
  "dialect_as_str Postgres = ''postgres''"
| "dialect_as_str Mysql = ''mysql''"
| "dialect_as_str Sqlite = ''sqlite''"

record outbox_migration =
  mig_dialect :: database_dialect
  mig_name :: string
  mig_up_sql :: string
  mig_down_sql :: string

definition migration_is_idempotent :: "outbox_migration \<Rightarrow> bool" where
  "migration_is_idempotent m \<longleftrightarrow>
     contains (mig_up_sql m) ''IF NOT EXISTS'' \<and> contains (mig_down_sql m) ''IF EXISTS''"

text \<open>The SQL files are included at build time: \<open>sql\<close> gives their contents per dialect.\<close>

definition outbox_migration_for ::
  "(database_dialect \<Rightarrow> string \<times> string) \<Rightarrow> database_dialect \<Rightarrow> outbox_migration" where
  "outbox_migration_for sql d =
     \<lparr>mig_dialect = d, mig_name = ''001_invoicekit_outbox'', mig_up_sql = fst (sql d),
      mig_down_sql = snd (sql d)\<rparr>"

definition all_outbox_migrations ::
  "(database_dialect \<Rightarrow> string \<times> string) \<Rightarrow> outbox_migration list" where
  "all_outbox_migrations sql = map (outbox_migration_for sql) [Postgres, Mysql, Sqlite]"

section \<open>Outbox states\<close>

fun outbox_as_str :: "outbox_state \<Rightarrow> string" where
  "outbox_as_str ODraft = ''draft''"
| "outbox_as_str OValidated = ''validated''"
| "outbox_as_str OSigned = ''signed''"
| "outbox_as_str OReserved = ''reserved''"
| "outbox_as_str OSent = ''sent''"
| "outbox_as_str ODelivered = ''delivered''"
| "outbox_as_str OAcknowledged = ''acknowledged''"
| "outbox_as_str ORejected = ''rejected''"
| "outbox_as_str OArchived = ''archived''"
| "outbox_as_str ODeadLetter = ''dead_letter''"

fun from_transmission_base :: "transmission_base_state \<Rightarrow> outbox_state" where
  "from_transmission_base Draft = ODraft"
| "from_transmission_base Validated = OValidated"
| "from_transmission_base Signed = OSigned"
| "from_transmission_base Reserved = OReserved"
| "from_transmission_base Sent = OSent"
| "from_transmission_base Delivered = ODelivered"
| "from_transmission_base Acknowledged = OAcknowledged"
| "from_transmission_base Rejected = ORejected"
| "from_transmission_base Archived = OArchived"

definition outbox_is_terminal :: "outbox_state \<Rightarrow> bool" where
  "outbox_is_terminal s \<longleftrightarrow> s \<in> {ODelivered, OAcknowledged, OArchived, ODeadLetter}"

section \<open>Retry policy\<close>

record retry_policy =
  rp_max_attempts :: u16
  rp_base_delay_seconds :: u64
  rp_max_delay_seconds :: u64
  rp_jitter_percent :: u8

definition retry_policy_new :: "u16 \<Rightarrow> u64 \<Rightarrow> u64 \<Rightarrow> u8 \<Rightarrow> reconcile_error + retry_policy" where
  "retry_policy_new max_attempts base_delay max_delay jitter =
     (if max_attempts = 0 then
        Inl (InvalidRetryPolicy ''max_attempts'' ''must be at least one''
               ''set max_attempts to the total number of delivery tries to allow'')
      else if base_delay = 0 then
        Inl (InvalidRetryPolicy ''base_delay_seconds'' ''must be greater than zero''
               ''set a positive first retry delay'')
      else if max_delay < base_delay then
        Inl (InvalidRetryPolicy ''max_delay_seconds''
               ''must be greater than or equal to base_delay_seconds''
               ''raise max_delay_seconds or lower base_delay_seconds'')
      else if 100 < jitter then
        Inl (InvalidRetryPolicy ''jitter_percent'' ''must be between 0 and 100''
               ''use a jitter percentage in the inclusive range 0..=100'')
      else Inr \<lparr>rp_max_attempts = max_attempts, rp_base_delay_seconds = base_delay,
                rp_max_delay_seconds = max_delay, rp_jitter_percent = jitter\<rparr>)"

definition default_policy :: retry_policy where
  "default_policy = \<lparr>rp_max_attempts = 8, rp_base_delay_seconds = 30,
     rp_max_delay_seconds = 3600, rp_jitter_percent = 25\<rparr>"

definition deterministic_jitter ::
  "(char list \<Rightarrow> u64) \<Rightarrow> idempotency_key \<Rightarrow> u16 \<Rightarrow> u64 \<Rightarrow> u64" where
  "deterministic_jitter hash8 key attempt cap =
     hash8 (''invoicekit:reconcile:retry-jitter:v1'' @ idempotency_str key
            @ be_bytes 2 (unat attempt))
     mod sat_add cap 1"

definition exponential_delay :: "retry_policy \<Rightarrow> u16 \<Rightarrow> u64" where
  "exponential_delay p attempt =
     (let exponent = min (unat (sat_sub attempt 1)) 63;
          multiplier = (case checked_shl 1 exponent of None \<Rightarrow> - 1 | Some m \<Rightarrow> m)
      in min (sat_mul (rp_base_delay_seconds p) multiplier) (rp_max_delay_seconds p))"

definition jitter_cap :: "retry_policy \<Rightarrow> u16 \<Rightarrow> u64" where
  "jitter_cap p attempt =
     sat_mul (exponential_delay p attempt) (ucast (rp_jitter_percent p)) div 100"

definition delay_for_attempt ::
  "(char list \<Rightarrow> u64) \<Rightarrow> retry_policy \<Rightarrow> u16 \<Rightarrow> idempotency_key \<Rightarrow> reconcile_error + u64" where
  "delay_for_attempt hash8 p attempt key =
     (if attempt = 0 then
        Inl (InvalidRetryAttempt attempt ''attempt numbers are one-based''
               ''pass 1 for the first retry attempt'')
      else if rp_max_attempts p \<le> attempt then
        Inl (InvalidRetryAttempt attempt ''attempt has exhausted max_attempts''
               ''move the outbox envelope to the dead-letter table'')
      else if jitter_cap p attempt = 0 then Inr (exponential_delay p attempt)
      else Inr (min (sat_add (exponential_delay p attempt)
                       (deterministic_jitter hash8 key attempt (jitter_cap p attempt)))
                  (rp_max_delay_seconds p)))"

datatype retry_decision = RetryAfterSeconds u64 | MoveToDeadLetter

section \<open>Envelopes and dead letters\<close>

record outbox_envelope =
  env_outbox_id :: string
  env_context :: gateway_context
  env_fingerprint_hex :: string
  env_state :: outbox_state
  env_payload_json :: string
  env_attempt_count :: u16
  env_retry_policy :: retry_policy

definition outbox_envelope_new ::
  "string \<Rightarrow> gateway_context \<Rightarrow> u8 list \<Rightarrow> string \<Rightarrow> retry_policy
     \<Rightarrow> reconcile_error + outbox_envelope" where
  "outbox_envelope_new outbox_id context fingerprint_bytes payload policy =
     rbind (first_err [validate_identifier outbox_id ''outbox_id'',
                       validate_text payload ''payload_json''])
       (\<lambda>_. Inr \<lparr>env_outbox_id = outbox_id, env_context = context,
                 env_fingerprint_hex = hex_lower fingerprint_bytes, env_state = OReserved,
                 env_payload_json = payload, env_attempt_count = 0, env_retry_policy = policy\<rparr>)"

text \<open>\<open>&mut self\<close>: the decision and the envelope afterwards.\<close>

definition record_failed_attempt ::
  "(char list \<Rightarrow> u64) \<Rightarrow> outbox_envelope \<Rightarrow> (reconcile_error + retry_decision) \<times> outbox_envelope"
where
  "record_failed_attempt hash8 e =
     (if rp_max_attempts (env_retry_policy e) \<le> env_attempt_count e then
        (Inr MoveToDeadLetter, e\<lparr>env_state := ODeadLetter\<rparr>)
      else
        let e1 = e\<lparr>env_attempt_count := sat_add (env_attempt_count e) 1\<rparr>
        in if rp_max_attempts (env_retry_policy e1) \<le> env_attempt_count e1 then
             (Inr MoveToDeadLetter, e1\<lparr>env_state := ODeadLetter\<rparr>)
           else (case delay_for_attempt hash8 (env_retry_policy e1) (env_attempt_count e1)
                        (ctx_idempotency_key (env_context e1)) of
                   Inl err \<Rightarrow> (Inl err, e1)
                 | Inr d \<Rightarrow> (Inr (RetryAfterSeconds d), e1)))"

record dead_letter_record =
  dl_dead_letter_id :: string
  dl_outbox_id :: string
  dl_context :: gateway_context
  dl_fingerprint_hex :: string
  dl_final_state :: outbox_state
  dl_failure_code :: string
  dl_failure_message :: string
  dl_attempt_count :: u16
  dl_payload_json :: string

definition dead_letter_new ::
  "string \<Rightarrow> outbox_envelope \<Rightarrow> string \<Rightarrow> string \<Rightarrow> reconcile_error + dead_letter_record" where
  "dead_letter_new dead_letter_id e failure_code failure_message =
     rbind (first_err [validate_identifier dead_letter_id ''dead_letter_id'',
                       validate_identifier failure_code ''failure_code'',
                       validate_text failure_message ''failure_message''])
       (\<lambda>_. Inr \<lparr>dl_dead_letter_id = dead_letter_id, dl_outbox_id = env_outbox_id e,
                 dl_context = env_context e, dl_fingerprint_hex = env_fingerprint_hex e,
                 dl_final_state = env_state e, dl_failure_code = failure_code,
                 dl_failure_message = failure_message, dl_attempt_count = env_attempt_count e,
                 dl_payload_json = env_payload_json e\<rparr>)"

definition to_dead_letter ::
  "outbox_envelope \<Rightarrow> string \<Rightarrow> gateway_error \<Rightarrow> reconcile_error + dead_letter_record" where
  "to_dead_letter e dead_letter_id err =
     dead_letter_new dead_letter_id e (kind_as_str (ge_kind err)) (ge_message err)"

section \<open>The delay schedule\<close>

lemma unat_push_one: "n < 64 \<Longrightarrow> unat (push_bit n (1 :: u64)) = 2 ^ n"
proof -
  assume n: "n < 64"
  then have lt: "(2::nat) ^ n < 2 ^ 64" by (rule power_strict_increasing) simp
  have "unat (of_nat (2 ^ n) :: u64) = take_bit LENGTH(64) (2 ^ n)" by (simp only: unsigned_of_nat of_nat_id)
  also have "\<dots> = 2 ^ n" using lt by (simp only: take_bit_nat_eq_self_iff len_num1 len_bit0) simp
  finally show ?thesis by simp
qed

text \<open>The arithmetic of the code, saturation included, is the capped doubling on numbers.\<close>

lemma unat_exponential_delay:
  "unat (exponential_delay p attempt) =
     min (unat (rp_base_delay_seconds p) * 2 ^ min (unat attempt - 1) 63)
         (unat (rp_max_delay_seconds p))"
proof -
  let ?e = "min (unat attempt - 1) 63"
  have e: "?e < 64" by simp
  have "unat (rp_max_delay_seconds p) \<le> 2 ^ 64 - 1"
    using unat_le_max [of "rp_max_delay_seconds p"] by simp
  then show ?thesis
    using e unat_push_one [OF e]
    by (simp add: exponential_delay_def Let_def checked_shl_def word_nat_simps min_def)
qed

lemma unat_jitter_cap_le:
  "unat (jitter_cap p attempt) \<le>
     unat (exponential_delay p attempt) * unat (rp_jitter_percent p) div 100"
proof -
  have "unat (rp_jitter_percent p) < 2 ^ 64" using unat_lt_pow [of "rp_jitter_percent p"] by simp
  then have "unat (ucast (rp_jitter_percent p) :: u64) = unat (rp_jitter_percent p)"
    by (simp add: unsigned_ucast_eq take_bit_nat_eq_self)
  then show ?thesis by (simp add: jitter_cap_def unat_div_distrib unat_sat_mul div_le_mono)
qed

lemma unat_jitter_le: "unat (deterministic_jitter hash8 key attempt cap) \<le> unat cap"
proof -
  let ?m = "sat_add cap (1 :: u64)"
  have m: "unat ?m = min (unat cap + 1) (2 ^ 64 - 1)" by (simp add: unat_sat_add)
  then have "0 < unat ?m" by simp
  then have "unat (deterministic_jitter hash8 key attempt cap) < unat ?m"
    by (simp add: deterministic_jitter_def unat_mod_distrib)
  with m show ?thesis by simp
qed

lemma exponential_delay_le_max: "exponential_delay p attempt \<le> rp_max_delay_seconds p"
  by (simp add: exponential_delay_def Let_def)

interpretation retry: backoff "\<lambda>k. unat (exponential_delay p (of_nat (Suc k)))"
    "unat (rp_max_delay_seconds p)" 65535 for p
proof
  fix k :: nat
  show "unat (exponential_delay p (of_nat (Suc k))) \<le> unat (rp_max_delay_seconds p)"
    if "k < 65535"
    by (simp add: unat_exponential_delay)
  show "unat (exponential_delay p (of_nat (Suc k))) \<le>
      unat (exponential_delay p (of_nat (Suc (Suc k))))" if "Suc k < 65535"
  proof -
    have u: "unat (of_nat (Suc k) :: u16) = Suc k" "unat (of_nat (Suc (Suc k)) :: u16) = Suc (Suc k)"
      using that by (simp_all only: unsigned_of_nat) (simp_all add: take_bit_nat_eq_self)
    have "(2::nat) ^ min k 63 \<le> 2 ^ min (Suc k) 63"
      by (rule power_increasing) simp_all
    then have "unat (rp_base_delay_seconds p) * 2 ^ min k 63
        \<le> unat (rp_base_delay_seconds p) * 2 ^ min (Suc k) 63"
      by (rule mult_le_mono2)
    then show ?thesis unfolding unat_exponential_delay u by (simp add: min.coboundedI1)
  qed
qed

section \<open>Failures and the delivery budget\<close>

lemma retry_policy_new_Inr_iff:
  "retry_policy_new a b c d = Inr p \<longleftrightarrow>
     a \<noteq> 0 \<and> b \<noteq> 0 \<and> b \<le> c \<and> d \<le> 100 \<and>
     p = \<lparr>rp_max_attempts = a, rp_base_delay_seconds = b, rp_max_delay_seconds = c,
          rp_jitter_percent = d\<rparr>"
  by (auto simp: retry_policy_new_def)

lemma delay_for_attempt_ok:
  "attempt \<noteq> 0 \<Longrightarrow> attempt < rp_max_attempts p \<Longrightarrow> \<exists>d. delay_for_attempt hash8 p attempt key = Inr d"
  by (simp add: delay_for_attempt_def)

lemma delay_for_attempt_bounds:
  assumes "delay_for_attempt hash8 p attempt key = Inr d"
  shows "unat (exponential_delay p attempt) \<le> unat d"
    and "unat d \<le> unat (rp_max_delay_seconds p)"
    and "unat d \<le> unat (exponential_delay p attempt)
           + unat (exponential_delay p attempt) * unat (rp_jitter_percent p) div 100"
proof -
  let ?e = "exponential_delay p attempt" and ?j = "jitter_cap p attempt"
  let ?h = "deterministic_jitter hash8 key attempt ?j"
  have d: "d = (if ?j = 0 then ?e else min (sat_add ?e ?h) (rp_max_delay_seconds p))"
    using assms by (simp add: delay_for_attempt_def split: if_splits)
  have em: "unat ?e \<le> unat (rp_max_delay_seconds p)"
    using exponential_delay_le_max [of p attempt] by (simp add: word_le_nat_alt)
  have el: "unat ?e \<le> 2 ^ 64 - 1" using unat_le_max [of ?e] by simp
  have hj: "unat ?h \<le> unat ?e * unat (rp_jitter_percent p) div 100"
    using unat_jitter_le [of hash8 key attempt ?j] unat_jitter_cap_le [of p attempt] by linarith
  show "unat ?e \<le> unat d" "unat d \<le> unat (rp_max_delay_seconds p)"
    "unat d \<le> unat ?e + unat ?e * unat (rp_jitter_percent p) div 100"
    using d em el hj by (auto simp: unat_word_min unat_sat_add)
qed

text \<open>C23  Retry delays.  For every policy the constructor accepts and every retry number below
  its budget a delay is computed; it is at least the capped exponential delay
  \<open>min (base * 2^(k-1)) max\<close>, exceeds it by at most the configured percentage of jitter, and never
  exceeds the policy's maximum, whatever the hash; machine arithmetic never wraps.\<close>

theorem retry_delay_bounds:
  assumes "retry_policy_new max_attempts base_delay max_delay jitter = Inr p"
    and "1 \<le> unat k" and "unat k < unat max_attempts"
  shows "\<exists>d x. delay_for_attempt hash8 p k key = Inr d
           \<and> x = min (unat base_delay * 2 ^ min (unat k - 1) 63) (unat max_delay)
           \<and> x \<le> unat d \<and> unat d \<le> unat max_delay
           \<and> unat d \<le> x + x * unat jitter div 100"
proof -
  have k: "k \<noteq> 0" using assms(2) by auto
  from assms(1) have p: "p = \<lparr>rp_max_attempts = max_attempts, rp_base_delay_seconds = base_delay,
      rp_max_delay_seconds = max_delay, rp_jitter_percent = jitter\<rparr>"
    by (simp add: retry_policy_new_Inr_iff)
  obtain d where d: "delay_for_attempt hash8 p k key = Inr d"
    using delay_for_attempt_ok [OF k, of p hash8 key] assms(3) p by (auto simp: word_less_nat_alt)
  from delay_for_attempt_bounds [OF this] d show ?thesis
    by (auto simp: p unat_exponential_delay)
qed

text \<open>\<open>n\<close> failed attempts in a row: the decisions in order, and the envelope afterwards.\<close>

fun fail_attempts :: "(char list \<Rightarrow> u64) \<Rightarrow> nat \<Rightarrow> outbox_envelope
    \<Rightarrow> (reconcile_error + retry_decision) list \<times> outbox_envelope" where
  "fail_attempts hash8 0 e = ([], e)"
| "fail_attempts hash8 (Suc n) e =
     (let (d, e1) = record_failed_attempt hash8 e; (ds, e2) = fail_attempts hash8 n e1
      in (d # ds, e2))"

lemma sat_add_one_le: "unat a < n \<Longrightarrow> n < 2 ^ 16 \<Longrightarrow> unat (sat_add a (1 :: u16)) = unat a + 1"
  by (simp add: unat_sat_add)

lemma record_failed_attempt_cases:
  fixes e :: outbox_envelope
  defines "m \<equiv> unat (rp_max_attempts (env_retry_policy e))"
    and "c \<equiv> unat (env_attempt_count e)"
  obtains
    (spent) "m \<le> c" "record_failed_attempt hash8 e = (Inr MoveToDeadLetter, e\<lparr>env_state := ODeadLetter\<rparr>)"
  | (final) n where "c + 1 = m" "unat n = m" "record_failed_attempt hash8 e =
        (Inr MoveToDeadLetter, e\<lparr>env_attempt_count := n, env_state := ODeadLetter\<rparr>)"
  | (retry) n d where "c + 1 < m" "unat n = c + 1"
        "delay_for_attempt hash8 (env_retry_policy e) n (ctx_idempotency_key (env_context e)) = Inr d"
        "record_failed_attempt hash8 e = (Inr (RetryAfterSeconds d), e\<lparr>env_attempt_count := n\<rparr>)"
proof -
  let ?n = "sat_add (env_attempt_count e) 1"
  have m: "m < 2 ^ 16" using unat_lt_pow [of "rp_max_attempts (env_retry_policy e)"] by (simp add: m_def)
  consider "m \<le> c" | "c + 1 = m" | "c + 1 < m" by linarith
  then show thesis
  proof cases
    case 1
    then show ?thesis
      by (intro spent) (simp_all add: record_failed_attempt_def m_def c_def word_le_nat_alt)
  next
    case 2
    then have n: "unat ?n = m" using sat_add_one_le [of "env_attempt_count e" m] m by (simp add: c_def)
    with 2 show ?thesis
      by (intro final [of ?n])
        (simp_all add: record_failed_attempt_def Let_def m_def c_def word_le_nat_alt)
  next
    case 3
    then have n: "unat ?n = c + 1" using sat_add_one_le [of "env_attempt_count e" m] m by (simp add: c_def)
    then have "?n \<noteq> 0" by auto
    moreover have "?n < rp_max_attempts (env_retry_policy e)"
      using 3 n by (simp add: word_less_nat_alt m_def)
    ultimately obtain d where "delay_for_attempt hash8 (env_retry_policy e) ?n
        (ctx_idempotency_key (env_context e)) = Inr d"
      using delay_for_attempt_ok by blast
    with 3 n show ?thesis
      by (intro retry [of ?n d])
        (simp_all add: record_failed_attempt_def Let_def m_def c_def word_le_nat_alt)
  qed
qed

lemma fail_attempts_budget:
  assumes "unat (env_attempt_count e) + n \<le> unat (rp_max_attempts (env_retry_policy e))"
  shows "unat (env_attempt_count (snd (fail_attempts hash8 n e))) = unat (env_attempt_count e) + n
    \<and> env_retry_policy (snd (fail_attempts hash8 n e)) = env_retry_policy e
    \<and> length (fst (fail_attempts hash8 n e)) = n
    \<and> (\<forall>i < n. if unat (env_attempt_count e) + i + 1 < unat (rp_max_attempts (env_retry_policy e))
              then \<exists>d. fst (fail_attempts hash8 n e) ! i = Inr (RetryAfterSeconds d)
              else fst (fail_attempts hash8 n e) ! i = Inr MoveToDeadLetter)
    \<and> env_state (snd (fail_attempts hash8 n e)) =
        (if n \<noteq> 0 \<and> unat (env_attempt_count e) + n = unat (rp_max_attempts (env_retry_policy e))
         then ODeadLetter else env_state e)"
  using assms
proof (induction n arbitrary: e)
  case (Suc n)
  let ?m = "unat (rp_max_attempts (env_retry_policy e))" and ?c = "unat (env_attempt_count e)"
  from Suc.prems have lt: "?c < ?m" by simp
  show ?case
  proof (cases rule: record_failed_attempt_cases [of e hash8])
    case spent
    with lt show ?thesis by simp
  next
    case (final k)
    with Suc.prems have "n = 0" by simp
    with final show ?thesis by simp
  next
    case (retry k d)
    let ?e1 = "e\<lparr>env_attempt_count := k\<rparr>"
    have "unat (env_attempt_count ?e1) + n \<le> unat (rp_max_attempts (env_retry_policy ?e1))"
      using retry Suc.prems by simp
    from Suc.IH [OF this] retry show ?thesis
      by (auto simp: split_def Let_def nth_Cons' split: if_splits)
  qed
qed simp

text \<open>The delivery budget.  A new envelope of an accepted policy is given exactly
  \<open>max_attempts\<close> tries: every earlier failure asks for a retry, the last one moves it to the
  dead-letter state, the counter says how many attempts were made, and the computation of a delay
  never fails on the way.\<close>

theorem envelope_budget:
  assumes "retry_policy_new max_attempts base_delay max_delay jitter = Inr p"
    and "outbox_envelope_new outbox_id context fingerprint_bytes payload p = Inr e"
    and "n \<le> unat max_attempts"
  shows "unat (env_attempt_count (snd (fail_attempts hash8 n e))) = n
    \<and> env_state (snd (fail_attempts hash8 n e)) =
        (if n = unat max_attempts then ODeadLetter else OReserved)
    \<and> length (fst (fail_attempts hash8 n e)) = n
    \<and> (\<forall>i < n. if i + 1 < unat max_attempts
              then \<exists>d. fst (fail_attempts hash8 n e) ! i = Inr (RetryAfterSeconds d)
              else fst (fail_attempts hash8 n e) ! i = Inr MoveToDeadLetter)"
proof -
  from assms(1) have p: "rp_max_attempts p = max_attempts" "unat max_attempts \<noteq> 0"
    by (auto simp: retry_policy_new_Inr_iff unat_eq_zero)
  from assms(2) have e: "env_attempt_count e = 0" "env_retry_policy e = p" "env_state e = OReserved"
    by (auto simp: outbox_envelope_new_def rbind_Inr_iff)
  from fail_attempts_budget [of e n hash8] show ?thesis
    using assms(3) p e by auto
qed

lemma envelope_update_eqs [simp]:
  "e\<lparr>env_state := st\<rparr> = e\<lparr>env_state := st, env_attempt_count := n\<rparr> \<longleftrightarrow> n = env_attempt_count e"
  "e\<lparr>env_attempt_count := m, env_state := st\<rparr> = e\<lparr>env_state := st, env_attempt_count := n\<rparr>
     \<longleftrightarrow> n = m"
  for e :: outbox_envelope
  by (cases e; auto)+

lemma record_failed_attempt_total_raw:
  "(case record_failed_attempt hash8 e of
      (Inl _, _) \<Rightarrow> False
    | (Inr MoveToDeadLetter, e') \<Rightarrow>
        (\<exists>n \<ge> rp_max_attempts (env_retry_policy e).
           e' = e\<lparr>env_state := ODeadLetter, env_attempt_count := n\<rparr>)
        \<and> record_failed_attempt hash8 e' = (Inr MoveToDeadLetter, e')
    | (Inr (RetryAfterSeconds d), e') \<Rightarrow>
        e' = e\<lparr>env_attempt_count := env_attempt_count e + 1\<rparr>
        \<and> env_attempt_count e < env_attempt_count e'
        \<and> env_attempt_count e' < rp_max_attempts (env_retry_policy e)
        \<and> d \<le> rp_max_delay_seconds (env_retry_policy e))"
proof (cases rule: record_failed_attempt_cases [of e hash8])
  case spent
  then show ?thesis by (simp add: record_failed_attempt_def word_le_nat_alt)
next
  case (final n)
  then show ?thesis by (simp add: record_failed_attempt_def word_le_nat_alt)
next
  case (retry n d)
  have "n = env_attempt_count e + 1"
    using retry(1,2) unat_lt_pow [of "rp_max_attempts (env_retry_policy e)"]
    by (simp add: word_unat_eq_iff unat_add_fits)
  with retry delay_for_attempt_bounds(2) [OF retry(3)] show ?thesis
    by (simp add: word_less_nat_alt word_le_nat_alt)
qed

text \<open>A failed attempt never yields an error, whatever the envelope; it leaves everything but
  the state and the counter alone, never counts past the budget an envelope is within, and answers
  "move to dead letter" exactly when it puts the envelope in the dead-letter state it keeps from
  then on.\<close>

theorem record_failed_attempt_total:
  "(case record_failed_attempt hash8 e of
      (Inl _, _) \<Rightarrow> False
    | (Inr MoveToDeadLetter, e') \<Rightarrow>
        (\<exists>n \<ge> rp_max_attempts (env_retry_policy e).
           e' = e\<lparr>env_state := ODeadLetter, env_attempt_count := n\<rparr>)
        \<and> record_failed_attempt hash8 e' = (Inr MoveToDeadLetter, e')
    | (Inr (RetryAfterSeconds d), e') \<Rightarrow>
        e' = e\<lparr>env_attempt_count := env_attempt_count e + 1\<rparr>
        \<and> env_attempt_count e < env_attempt_count e'
        \<and> env_attempt_count e' < rp_max_attempts (env_retry_policy e)
        \<and> d \<le> rp_max_delay_seconds (env_retry_policy e))"
  by (rule record_failed_attempt_total_raw)

text \<open>The durable states extend the transmission states: \<open>from_transmission_base\<close> is injective,
  keeps the stable name, its range is every outbox state except \<open>dead_letter\<close>, and the worker's
  notion of terminal is wider: delivered and acknowledged rows are terminal for the outbox while the
  transmission can still go on.\<close>

theorem from_transmission_base_names:
  "inj from_transmission_base
   \<and> range from_transmission_base = - {ODeadLetter}
   \<and> outbox_as_str (from_transmission_base s) = base_as_str s
   \<and> inj outbox_as_str
   \<and> (outbox_is_terminal (from_transmission_base s) \<longleftrightarrow>
        is_terminal s \<or> s = Delivered \<or> s = Acknowledged)"
proof -
  have out: "outbox_as_str (from_transmission_base s) = base_as_str s" for s
    by (cases s) simp_all
  have i: "inj outbox_as_str"
    by (rule injI) (case_tac x; case_tac y; simp)
  have "inj from_transmission_base"
    by (rule injI) (case_tac x; case_tac y; simp)
  moreover have "range from_transmission_base = - {ODeadLetter}"
  proof (intro set_eqI iffI)
    fix x assume "x \<in> - {ODeadLetter}"
    then show "x \<in> range from_transmission_base"
      by (cases x) (auto intro: range_eqI [of _ _ Draft] range_eqI [of _ _ Validated]
        range_eqI [of _ _ Signed] range_eqI [of _ _ Reserved] range_eqI [of _ _ Sent]
        range_eqI [of _ _ Delivered] range_eqI [of _ _ Acknowledged] range_eqI [of _ _ Rejected]
        range_eqI [of _ _ Archived])
  next
    fix x assume "x \<in> range from_transmission_base"
    then obtain s where "x = from_transmission_base s" by blast
    then show "x \<in> - {ODeadLetter}" by (cases s) simp_all
  qed
  moreover have "outbox_is_terminal (from_transmission_base s) \<longleftrightarrow>
      is_terminal s \<or> s = Delivered \<or> s = Acknowledged"
    by (cases s) (simp_all add: outbox_is_terminal_def is_terminal_def)
  ultimately show ?thesis using out i by blast
qed

text \<open>Concrete inputs: three attempts, one second of base delay, a constant hash.\<close>

definition sample_policy :: retry_policy where
  "sample_policy = \<lparr>rp_max_attempts = 3, rp_base_delay_seconds = 1,
     rp_max_delay_seconds = 10, rp_jitter_percent = 0\<rparr>"

lemma sample_policy_ok: "retry_policy_new 3 1 10 0 = Inr sample_policy"
  by (simp add: retry_policy_new_Inr_iff sample_policy_def)

definition sample_envelope :: outbox_envelope where
  "sample_envelope = \<lparr>env_outbox_id = ''out_1'', env_context = sample_context,
     env_fingerprint_hex = hex_lower [0], env_state = OReserved, env_payload_json = ''{}'',
     env_attempt_count = 0, env_retry_policy = sample_policy\<rparr>"

lemma sample_envelope_ok:
  "outbox_envelope_new ''out_1'' sample_context [0] ''{}'' sample_policy = Inr sample_envelope"
proof -
  have "validate_identifier ''out_1'' ''outbox_id'' = Inr ()" by code_simp
  moreover have "validate_text ''{}'' ''payload_json'' = Inr ()" by code_simp
  ultimately show ?thesis
    by (simp add: outbox_envelope_new_def sample_envelope_def first_err.simps)
qed

theorem retry_delay_bounds_witness:
  "\<exists>d x. delay_for_attempt (\<lambda>_. 7) sample_policy 2 (ctx_idempotency_key sample_context) = Inr d
     \<and> x = min (unat (1 :: u64) * 2 ^ min (unat (2 :: u16) - 1) 63) (unat (10 :: u64))
     \<and> x \<le> unat d \<and> unat d \<le> unat (10 :: u64) \<and> unat d \<le> x + x * unat (0 :: u8) div 100"
  by (rule retry_delay_bounds [OF sample_policy_ok]) simp_all

theorem envelope_budget_witness:
  "env_state (snd (fail_attempts (\<lambda>_. 7) 3 sample_envelope)) = ODeadLetter
   \<and> env_state (snd (fail_attempts (\<lambda>_. 7) 2 sample_envelope)) = OReserved"
  using envelope_budget [OF sample_policy_ok sample_envelope_ok, of 3 "\<lambda>_. 7"]
    envelope_budget [OF sample_policy_ok sample_envelope_ok, of 2 "\<lambda>_. 7"] by simp

end
