(* ===== verification/Worker.thy ===== *)
theory Worker
  imports Outbox
begin

text \<open>
  \<open>crates/reconcile/src/worker.rs\<close>: the transmission worker of one gateway: readiness guard,
  circuit breaker, rate limit, submission through the adapter, retry and dead-letter handling,
  and the batch loop.  The adapter's \<open>submit\<close> is an argument; it transforms a state \<open>'w\<close> of the
  world, so that "the adapter is not called" is visible as an unchanged world.  Log emission is
  left out (the log event is part of the result).
\<close>

section \<open>Configuration\<close>

record gateway_rate_limit =
  rl_min_interval_seconds :: u64

definition rate_limit_new :: "u64 \<Rightarrow> gateway_rate_limit" where
  "rate_limit_new s = \<lparr>rl_min_interval_seconds = s\<rparr>"

record circuit_breaker_policy =
  cb_failure_threshold :: u16
  cb_open_seconds :: u64

definition circuit_breaker_new :: "u16 \<Rightarrow> u64 \<Rightarrow> reconcile_error + circuit_breaker_policy" where
  "circuit_breaker_new threshold open_seconds =
     (if threshold = 0 then
        Inl (InvalidTransmissionWorkerConfig ''failure_threshold'' ''must be at least one''
               ''set the number of consecutive failures required to open the circuit'')
      else if open_seconds = 0 then
        Inl (InvalidTransmissionWorkerConfig ''open_seconds'' ''must be greater than zero''
               ''set a positive circuit-open duration'')
      else Inr \<lparr>cb_failure_threshold = threshold, cb_open_seconds = open_seconds\<rparr>)"

record transmission_worker_config =
  cfg_gateway_key :: string
  cfg_max_batch_size :: nat
  cfg_rate_limit :: gateway_rate_limit
  cfg_circuit_breaker :: circuit_breaker_policy

definition worker_config_new ::
  "string \<Rightarrow> nat \<Rightarrow> gateway_rate_limit \<Rightarrow> circuit_breaker_policy
     \<Rightarrow> reconcile_error + transmission_worker_config" where
  "worker_config_new key batch limit breaker =
     rbind (first_err [validate_identifier key ''gateway_key'',
                       ensure (batch \<noteq> 0)
                         (InvalidTransmissionWorkerConfig ''max_batch_size'' ''must be at least one''
                            ''allow the worker to drain at least one outbox row per batch'')])
       (\<lambda>_. Inr \<lparr>cfg_gateway_key = key, cfg_max_batch_size = batch, cfg_rate_limit = limit,
                 cfg_circuit_breaker = breaker\<rparr>)"

section \<open>Jobs and results\<close>

record ('d, 'j) transmission_job =
  job_envelope :: outbox_envelope
  job_route :: gateway_route
  job_document :: "('d, 'j) commercial_document"

datatype outcome_kind =
  OutSubmitted | OutRetryScheduled | OutDeadLettered | OutRateLimited | OutCircuitOpen

fun outcome_as_str :: "outcome_kind \<Rightarrow> string" where
  "outcome_as_str OutSubmitted = ''submitted''"
| "outcome_as_str OutRetryScheduled = ''retry_scheduled''"
| "outcome_as_str OutDeadLettered = ''dead_lettered''"
| "outcome_as_str OutRateLimited = ''rate_limited''"
| "outcome_as_str OutCircuitOpen = ''circuit_open''"

record worker_log_event =
  log_event_name :: string
  log_bead_id :: string
  log_gateway_key :: string
  log_outbox_id :: string
  log_tenant_id :: string
  log_trace_id :: string
  log_idempotency_key :: string
  log_gateway_attempt_id :: string
  log_operation :: gateway_operation
  log_outcome :: outcome_kind
  log_retry_after_seconds :: "u64 option"
  log_gateway_error_kind :: "gateway_error_kind option"

datatype ('d, 'j) worker_result =
    Submitted outbox_envelope gateway_receipt worker_log_event
  | RetryScheduled outbox_envelope gateway_error u64 "u64 option" worker_log_event
  | DeadLettered outbox_envelope dead_letter_record gateway_error "u64 option" worker_log_event
  | Throttled "('d, 'j) transmission_job" u64 worker_log_event
  | CircuitOpen "('d, 'j) transmission_job" u64 worker_log_event

fun result_outcome :: "('d, 'j) worker_result \<Rightarrow> outcome_kind" where
  "result_outcome (Submitted _ _ _) = OutSubmitted"
| "result_outcome (RetryScheduled _ _ _ _ _) = OutRetryScheduled"
| "result_outcome (DeadLettered _ _ _ _ _) = OutDeadLettered"
| "result_outcome (Throttled _ _ _) = OutRateLimited"
| "result_outcome (CircuitOpen _ _ _) = OutCircuitOpen"

fun result_log_event :: "('d, 'j) worker_result \<Rightarrow> worker_log_event" where
  "result_log_event (Submitted _ _ l) = l"
| "result_log_event (RetryScheduled _ _ _ _ l) = l"
| "result_log_event (DeadLettered _ _ _ _ l) = l"
| "result_log_event (Throttled _ _ l) = l"
| "result_log_event (CircuitOpen _ _ l) = l"

section \<open>The worker\<close>

record transmission_worker =
  wk_config :: transmission_worker_config
  wk_last_attempt :: "u64 option"
  wk_failures :: u16
  wk_open_until :: "u64 option"

definition worker_new :: "transmission_worker_config \<Rightarrow> transmission_worker" where
  "worker_new cfg = \<lparr>wk_config = cfg, wk_last_attempt = None, wk_failures = 0, wk_open_until = None\<rparr>"

definition process_ready_state :: "outbox_envelope \<Rightarrow> reconcile_error + unit" where
  "process_ready_state e =
     ensure (env_state e = OReserved)
       (InvalidOutboxState (env_outbox_id e) (env_state e)
          ''only reserved outbox rows are ready for transmission'')"

definition rate_limit_delay :: "transmission_worker \<Rightarrow> u64 \<Rightarrow> u64 option" where
  "rate_limit_delay w now =
     (let min_interval = rl_min_interval_seconds (cfg_rate_limit (wk_config w))
      in if min_interval = 0 then None
         else case wk_last_attempt w of
             None \<Rightarrow> None
           | Some previous \<Rightarrow>
               let next_allowed = sat_add previous min_interval
               in if now < next_allowed then Some (next_allowed - now) else None)"

fun outbox_state_for_receipt :: "gateway_status \<Rightarrow> outbox_state" where
  "outbox_state_for_receipt Pending = OSent"
| "outbox_state_for_receipt SRejected = ORejected"
| "outbox_state_for_receipt Accepted = ODelivered"
| "outbox_state_for_receipt Cancelled = ODelivered"
| "outbox_state_for_receipt Corrected = ODelivered"

definition is_retryable_gateway_error :: "gateway_error_kind \<Rightarrow> bool" where
  "is_retryable_gateway_error k \<longleftrightarrow>
     k \<in> {RateLimited, GatewayMaintenance, Timeout, NetworkFailure, PartnerError, UnexpectedResponse}"

definition counts_toward_circuit_breaker :: "gateway_error_kind \<Rightarrow> bool" where
  "counts_toward_circuit_breaker k \<longleftrightarrow>
     k \<in> {GatewayMaintenance, Timeout, NetworkFailure, PartnerError, UnexpectedResponse}"

definition worker_log :: "transmission_worker \<Rightarrow> outbox_envelope \<Rightarrow> outcome_kind \<Rightarrow> u64 option
    \<Rightarrow> gateway_error_kind option \<Rightarrow> worker_log_event" where
  "worker_log w e outcome retry_after kind =
     \<lparr>log_event_name = ''invoicekit.transmission_worker.decision'',
      log_bead_id = ''invoices-t-072-transmission-worker-8gt'',
      log_gateway_key = cfg_gateway_key (wk_config w), log_outbox_id = env_outbox_id e,
      log_tenant_id = tenant_str (ctx_tenant_id (env_context e)),
      log_trace_id = trace_str (ctx_trace_id (env_context e)),
      log_idempotency_key = idempotency_str (ctx_idempotency_key (env_context e)),
      log_gateway_attempt_id = attempt_str (ctx_gateway_attempt_id (env_context e)),
      log_operation = Submit, log_outcome = outcome, log_retry_after_seconds = retry_after,
      log_gateway_error_kind = kind\<rparr>"

definition record_circuit_failure ::
  "transmission_worker \<Rightarrow> gateway_error \<Rightarrow> u64 \<Rightarrow> u64 option \<times> transmission_worker" where
  "record_circuit_failure w err now =
     (if \<not> counts_toward_circuit_breaker (ge_kind err) then (wk_open_until w, w)
      else
        let w1 = w\<lparr>wk_failures := sat_add (wk_failures w) 1\<rparr>;
            breaker = cfg_circuit_breaker (wk_config w1);
            w2 = (if cb_failure_threshold breaker \<le> wk_failures w1
                  then w1\<lparr>wk_open_until := Some (sat_add now (cb_open_seconds breaker))\<rparr> else w1)
        in (wk_open_until w2, w2))"

definition dead_letter_result :: "transmission_worker \<Rightarrow> outbox_envelope \<Rightarrow> gateway_error
    \<Rightarrow> u64 option \<Rightarrow> reconcile_error + ('d, 'j) worker_result" where
  "dead_letter_result w e err open_until =
     rbind (to_dead_letter e (''dead_'' @ env_outbox_id e) err)
       (\<lambda>dl. Inr (DeadLettered e dl err open_until
                    (worker_log w e OutDeadLettered None (Some (ge_kind err)))))"

definition retry_wait :: "u64 \<Rightarrow> gateway_error \<Rightarrow> u64" where
  "retry_wait policy_delay err =
     max policy_delay (case ge_retry_after_seconds err of None \<Rightarrow> 0 | Some s \<Rightarrow> s)"

definition handle_gateway_error :: "(char list \<Rightarrow> u64) \<Rightarrow> transmission_worker \<Rightarrow> outbox_envelope
    \<Rightarrow> gateway_error \<Rightarrow> u64 \<Rightarrow> (reconcile_error + ('d, 'j) worker_result) \<times> transmission_worker"
where
  "handle_gateway_error hash8 w e err now =
     (let (open_until, w1) = record_circuit_failure w err now;
          (decision, e1) = record_failed_attempt hash8 e
      in (if is_retryable_gateway_error (ge_kind err) then
            rbind decision (\<lambda>d. case d of
                RetryAfterSeconds policy_delay \<Rightarrow>
                  Inr (RetryScheduled e1 err (retry_wait policy_delay err) open_until
                         (worker_log w1 e1 OutRetryScheduled (Some (retry_wait policy_delay err))
                            (Some (ge_kind err))))
              | MoveToDeadLetter \<Rightarrow> dead_letter_result w1 e1 err open_until)
          else
            rbind decision
              (\<lambda>_. dead_letter_result w1 (e1\<lparr>env_state := ODeadLetter\<rparr>) err open_until),
          w1))"

type_synonym ('d, 'j, 'w) adapter =
  "'w \<Rightarrow> ('d, 'j) submit_request \<Rightarrow> (gateway_error + gateway_receipt) \<times> 'w"

definition submit_job :: "(char list \<Rightarrow> u64) \<Rightarrow> ('d, 'j, 'w) adapter \<Rightarrow> transmission_worker \<Rightarrow> 'w
    \<Rightarrow> u64 \<Rightarrow> ('d, 'j) transmission_job
    \<Rightarrow> (reconcile_error + ('d, 'j) worker_result) \<times> transmission_worker \<times> 'w" where
  "submit_job hash8 adapter w world now job =
     (case submit_request_new (env_context (job_envelope job)) (job_route job) (job_document job) of
        Inl err \<Rightarrow> (Inl err, w, world)
      | Inr request \<Rightarrow>
          let w1 = w\<lparr>wk_last_attempt := Some now\<rparr>
          in (case adapter world request of
                (Inr receipt, world1) \<Rightarrow>
                  let w2 = w1\<lparr>wk_failures := 0, wk_open_until := None\<rparr>;
                      e = (job_envelope job)
                            \<lparr>env_state := outbox_state_for_receipt (rcpt_status receipt)\<rparr>
                  in (Inr (Submitted e receipt (worker_log w2 e OutSubmitted None None)), w2, world1)
              | (Inl err, world1) \<Rightarrow>
                  let (r, w2) = handle_gateway_error hash8 w1 (job_envelope job) err now
                  in (r, w2, world1)))"

definition after_circuit :: "(char list \<Rightarrow> u64) \<Rightarrow> ('d, 'j, 'w) adapter \<Rightarrow> transmission_worker
    \<Rightarrow> 'w \<Rightarrow> u64 \<Rightarrow> ('d, 'j) transmission_job
    \<Rightarrow> (reconcile_error + ('d, 'j) worker_result) \<times> transmission_worker \<times> 'w" where
  "after_circuit hash8 adapter w world now job =
     (case rate_limit_delay w now of
        Some d \<Rightarrow>
          (Inr (Throttled job d (worker_log w (job_envelope job) OutRateLimited (Some d) None)),
           w, world)
      | None \<Rightarrow> submit_job hash8 adapter w world now job)"

definition process_once :: "(char list \<Rightarrow> u64) \<Rightarrow> ('d, 'j, 'w) adapter \<Rightarrow> transmission_worker \<Rightarrow> 'w
    \<Rightarrow> u64 \<Rightarrow> ('d, 'j) transmission_job
    \<Rightarrow> (reconcile_error + ('d, 'j) worker_result) \<times> transmission_worker \<times> 'w" where
  "process_once hash8 adapter w world now job =
     (case process_ready_state (job_envelope job) of
        Inl err \<Rightarrow> (Inl err, w, world)
      | Inr _ \<Rightarrow>
         (case wk_open_until w of
            Some open_until \<Rightarrow>
              if now < open_until then
                (Inr (CircuitOpen job (open_until - now)
                        (worker_log w (job_envelope job) OutCircuitOpen (Some (open_until - now))
                           None)), w, world)
              else after_circuit hash8 adapter (w\<lparr>wk_open_until := None\<rparr>) world now job
          | None \<Rightarrow> after_circuit hash8 adapter w world now job))"

fun process_jobs :: "(char list \<Rightarrow> u64) \<Rightarrow> ('d, 'j, 'w) adapter \<Rightarrow> transmission_worker \<Rightarrow> 'w \<Rightarrow> u64
    \<Rightarrow> ('d, 'j) transmission_job list
    \<Rightarrow> (reconcile_error + ('d, 'j) worker_result) list \<times> transmission_worker \<times> 'w" where
  "process_jobs hash8 adapter w world now [] = ([], w, world)"
| "process_jobs hash8 adapter w world now (job # jobs) =
     (let (r, w1, world1) = process_once hash8 adapter w world now job;
          (rs, w2, world2) = process_jobs hash8 adapter w1 world1 now jobs
      in (r # rs, w2, world2))"

definition process_batch :: "(char list \<Rightarrow> u64) \<Rightarrow> ('d, 'j, 'w) adapter \<Rightarrow> transmission_worker \<Rightarrow> 'w
    \<Rightarrow> u64 \<Rightarrow> ('d, 'j) transmission_job list
    \<Rightarrow> (reconcile_error + ('d, 'j) worker_result) list \<times> transmission_worker \<times> 'w" where
  "process_batch hash8 adapter w world now jobs =
     process_jobs hash8 adapter w world now (take (cfg_max_batch_size (wk_config w)) jobs)"

section \<open>The branches of a step\<close>

definition circuit_blocks :: "transmission_worker \<Rightarrow> u64 \<Rightarrow> bool" where
  "circuit_blocks w now \<longleftrightarrow> (case wk_open_until w of None \<Rightarrow> False | Some t \<Rightarrow> now < t)"

definition half_open :: "transmission_worker \<Rightarrow> transmission_worker" where
  "half_open w = w\<lparr>wk_open_until := None\<rparr>"

lemma half_open_sel [simp]:
  "wk_config (half_open w) = wk_config w" "wk_last_attempt (half_open w) = wk_last_attempt w"
  "wk_failures (half_open w) = wk_failures w" "wk_open_until (half_open w) = None"
  by (simp_all add: half_open_def)

lemma rate_limit_delay_half_open [simp]: "rate_limit_delay (half_open w) now = rate_limit_delay w now"
  by (simp add: rate_limit_delay_def Let_def)

lemma half_open_closed: "wk_open_until w = None \<Longrightarrow> half_open w = w"
  by (cases w) (simp add: half_open_def)

lemma process_once_reserved:
  assumes "env_state (job_envelope job) = OReserved" and "\<not> circuit_blocks w now"
  shows "process_once hash8 ad w s now job = after_circuit hash8 ad (half_open w) s now job"
proof (cases "wk_open_until w")
  case None
  then have h: "half_open w = w" by (rule half_open_closed)
  show ?thesis unfolding h using None assms(1)
    by (simp add: process_once_def process_ready_state_def ensure_def)
next
  case (Some t)
  with assms show ?thesis
    by (simp add: process_once_def process_ready_state_def ensure_def circuit_blocks_def half_open_def)
qed

definition attempted :: "transmission_worker \<Rightarrow> u64 \<Rightarrow> transmission_worker" where
  "attempted w now = (half_open w)\<lparr>wk_last_attempt := Some now\<rparr>"

lemma attempted_sel [simp]:
  "wk_config (attempted w now) = wk_config w" "wk_last_attempt (attempted w now) = Some now"
  "wk_failures (attempted w now) = wk_failures w" "wk_open_until (attempted w now) = None"
  by (simp_all add: attempted_def)

lemma process_once_cases:
  fixes job :: "('d, 'j) transmission_job"
  obtains
    (not_ready) "env_state (job_envelope job) \<noteq> OReserved"
      "process_once hash8 ad w s now job =
         (Inl (InvalidOutboxState (env_outbox_id (job_envelope job)) (env_state (job_envelope job))
                 ''only reserved outbox rows are ready for transmission''), w, s)"
  | (blocked) t where "env_state (job_envelope job) = OReserved" "wk_open_until w = Some t" "now < t"
      "process_once hash8 ad w s now job =
         (Inr (CircuitOpen job (t - now)
            (worker_log w (job_envelope job) OutCircuitOpen (Some (t - now)) None)), w, s)"
  | (throttled) d where "env_state (job_envelope job) = OReserved" "\<not> circuit_blocks w now"
      "rate_limit_delay w now = Some d"
      "process_once hash8 ad w s now job =
         (Inr (Throttled job d
            (worker_log (half_open w) (job_envelope job) OutRateLimited (Some d) None)),
          half_open w, s)"
  | (bad_request) err where "env_state (job_envelope job) = OReserved" "\<not> circuit_blocks w now"
      "rate_limit_delay w now = None"
      "submit_request_new (env_context (job_envelope job)) (job_route job) (job_document job) = Inl err"
      "process_once hash8 ad w s now job = (Inl err, half_open w, s)"
  | (accepted) req receipt s' where "env_state (job_envelope job) = OReserved"
      "\<not> circuit_blocks w now" "rate_limit_delay w now = None"
      "submit_request_new (env_context (job_envelope job)) (job_route job) (job_document job) = Inr req"
      "ad s req = (Inr receipt, s')"
      "process_once hash8 ad w s now job =
         (let w2 = (attempted w now)\<lparr>wk_failures := 0, wk_open_until := None\<rparr>;
              e = (job_envelope job)\<lparr>env_state := outbox_state_for_receipt (rcpt_status receipt)\<rparr>
          in (Inr (Submitted e receipt (worker_log w2 e OutSubmitted None None)), w2, s'))"
  | (failed) req err s' r w' where "env_state (job_envelope job) = OReserved"
      "\<not> circuit_blocks w now" "rate_limit_delay w now = None"
      "submit_request_new (env_context (job_envelope job)) (job_route job) (job_document job) = Inr req"
      "ad s req = (Inl err, s')"
      "handle_gateway_error hash8 (attempted w now) (job_envelope job) err now = (r, w')"
      "process_once hash8 ad w s now job = (r, w', s')"
proof (cases "env_state (job_envelope job) = OReserved")
  case False
  then show thesis
    by (intro not_ready) (simp_all add: process_once_def process_ready_state_def ensure_def)
next
  case ready: True
  show thesis
  proof (cases "circuit_blocks w now")
    case True
    then obtain t where t: "wk_open_until w = Some t" "now < t"
      by (auto simp: circuit_blocks_def split: option.splits)
    with ready show ?thesis
      by (intro blocked [of t]) (simp_all add: process_once_def process_ready_state_def ensure_def)
  next
    case closed: False
    note po = process_once_reserved [OF ready closed, of hash8 ad s]
    show ?thesis
    proof (cases "rate_limit_delay w now")
      case (Some d)
      with po ready closed show ?thesis by (intro throttled [of d]) (simp_all add: after_circuit_def)
    next
      case None
      then have po: "process_once hash8 ad w s now job = submit_job hash8 ad (half_open w) s now job"
        using po by (simp add: after_circuit_def)
      show ?thesis
      proof (cases "submit_request_new (env_context (job_envelope job)) (job_route job) (job_document job)")
        case (Inl err)
        with po ready closed None show ?thesis
          by (intro bad_request [of err]) (simp_all add: submit_job_def)
      next
        case req: (Inr req)
        obtain a s' where a: "ad s req = (a, s')" by (cases "ad s req")
        show ?thesis
        proof (cases a)
          case (Inr receipt)
          with po ready closed None req a show ?thesis
            by (intro accepted [of req receipt s']) (simp_all add: submit_job_def Let_def attempted_def)
        next
          case (Inl err)
          obtain r w' where h: "(handle_gateway_error hash8 (attempted w now) (job_envelope job) err now
              :: (reconcile_error + ('d, 'j) worker_result) \<times> _) = (r, w')"
            by (metis surj_pair)
          with po ready closed None req a Inl show ?thesis
            by (intro failed [of req err s' r w']) (simp_all add: submit_job_def Let_def attempted_def)
        qed
      qed
    qed
  qed
qed

lemma handle_gateway_error_worker:
  "snd (handle_gateway_error hash8 w e err now) = snd (record_circuit_failure w err now)"
  by (simp add: handle_gateway_error_def Let_def split_def)

lemma record_circuit_failure_sel:
  "wk_config (snd (record_circuit_failure w err now)) = wk_config w"
  "wk_last_attempt (snd (record_circuit_failure w err now)) = wk_last_attempt w"
  "fst (record_circuit_failure w err now) = wk_open_until (snd (record_circuit_failure w err now))"
  by (simp_all add: record_circuit_failure_def Let_def)

section \<open>Runs and what the gateway sees\<close>

type_synonym ('d, 'j) exchange = "u64 \<times> ('d, 'j) submit_request \<times> (gateway_error + gateway_receipt)"

text \<open>The adapter with a log of the exchanges in front of it: time, request, answer.\<close>

definition observing :: "u64 \<Rightarrow> ('d, 'j, 'w) adapter \<Rightarrow> ('d, 'j, 'w \<times> ('d, 'j) exchange list) adapter" where
  "observing now ad = (\<lambda>s req. case ad (fst s) req of (a, s') \<Rightarrow> (a, (s', snd s @ [(now, req, a)])))"

fun worker_run :: "(char list \<Rightarrow> u64) \<Rightarrow> ('d, 'j, 'w) adapter \<Rightarrow> transmission_worker
    \<Rightarrow> 'w \<times> ('d, 'j) exchange list \<Rightarrow> (u64 \<times> ('d, 'j) transmission_job) list
    \<Rightarrow> transmission_worker \<times> 'w \<times> ('d, 'j) exchange list" where
  "worker_run hash8 ad w s [] = (w, s)"
| "worker_run hash8 ad w s ((now, job) # events) =
     (case process_once hash8 (observing now ad) w s now job of
        (_, w', s') \<Rightarrow> worker_run hash8 ad w' s' events)"

lemma observing_Pair: "observing now ad s req = (a, s') \<longleftrightarrow>
    ad (fst s) req = (a, fst s') \<and> snd s' = snd s @ [(now, req, a)]"
  by (cases "ad (fst s) req"; cases s') (auto simp: observing_def)

text \<open>The number of failures that count since the last answer without an error.\<close>

definition streak :: "('d, 'j) exchange list \<Rightarrow> nat" where
  "streak xs = fold (\<lambda>(_, _, a) n. case a of
       Inr _ \<Rightarrow> 0 | Inl err \<Rightarrow> if counts_toward_circuit_breaker (ge_kind err) then n + 1 else n) xs 0"

lemma streak_Nil [simp]: "streak [] = 0"
  by (simp add: streak_def)

lemma streak_snoc [simp]: "streak (xs @ [(t, req, a)]) =
    (case a of Inr _ \<Rightarrow> 0
     | Inl err \<Rightarrow> if counts_toward_circuit_breaker (ge_kind err) then streak xs + 1 else streak xs)"
  by (cases a) (simp_all add: streak_def)

definition interval_respected :: "u64 \<Rightarrow> ('d, 'j) exchange \<Rightarrow> ('d, 'j) exchange \<Rightarrow> bool" where
  "interval_respected m x y \<longleftrightarrow>
     m = 0 \<or> min (unat (fst x) + unat m) (2 ^ 64 - 1) \<le> unat (fst y)"

definition worker_inv :: "transmission_worker_config \<Rightarrow> transmission_worker \<Rightarrow> ('d, 'j) exchange list \<Rightarrow> bool"
where
  "worker_inv cfg w log \<longleftrightarrow>
     wk_config w = cfg
     \<and> wk_last_attempt w = (if log = [] then None else Some (fst (last log)))
     \<and> successively (interval_respected (rl_min_interval_seconds (cfg_rate_limit cfg))) log
     \<and> unat (wk_failures w) = min (streak log) 65535
     \<and> (case wk_open_until w of None \<Rightarrow> True
        | Some t \<Rightarrow> log \<noteq> [] \<and> unat (cb_failure_threshold (cfg_circuit_breaker cfg)) \<le> streak log
            \<and> t = sat_add (fst (last log)) (cb_open_seconds (cfg_circuit_breaker cfg)))"

lemma worker_inv_new: "worker_inv cfg (worker_new cfg) []"
  by (simp add: worker_inv_def worker_new_def)

lemma worker_inv_half_open: "worker_inv cfg w log \<Longrightarrow> worker_inv cfg (half_open w) log"
  by (auto simp: worker_inv_def)

lemma rate_limit_delay_None:
  assumes "rate_limit_delay w now = None" "wk_last_attempt w = Some t"
  shows "rl_min_interval_seconds (cfg_rate_limit (wk_config w)) = 0 \<or>
     min (unat t + unat (rl_min_interval_seconds (cfg_rate_limit (wk_config w)))) (2 ^ 64 - 1)
       \<le> unat now"
  using assms by (auto simp: rate_limit_delay_def Let_def word_nat_simps split: if_splits)

lemma interval_snoc:
  assumes "worker_inv cfg w log" "rate_limit_delay w now = None"
  shows "successively (interval_respected (rl_min_interval_seconds (cfg_rate_limit cfg)))
           (log @ [(now, req, a)])"
proof (cases "log = []")
  case False
  with assms have "interval_respected (rl_min_interval_seconds (cfg_rate_limit cfg)) (last log) (now, req, a)"
    using rate_limit_delay_None [OF assms(2)] by (auto simp: worker_inv_def interval_respected_def)
  with False assms(1) show ?thesis by (simp add: successively_append_iff worker_inv_def)
qed simp

lemma unat_u16_threshold: "unat (n :: u16) \<le> 65535"
  using unat_le_max [of n] by simp

lemma worker_inv_failure:
  assumes "worker_inv cfg w log" "rate_limit_delay w now = None"
  shows "worker_inv cfg (snd (record_circuit_failure (attempted w now) err now))
           (log @ [(now, req, Inl err)])"
proof -
  let ?th = "cb_failure_threshold (cfg_circuit_breaker cfg)"
  have th: "unat ?th \<le> 65535" by (rule unat_u16_threshold)
  from assms(1) have w: "wk_config w = cfg" "unat (wk_failures w) = min (streak log) 65535"
    by (simp_all add: worker_inv_def)
  then show ?thesis
    using interval_snoc [OF assms, of req "Inl err"] th
    by (auto simp: worker_inv_def record_circuit_failure_def Let_def unat_sat_add word_le_nat_alt)
qed

lemma worker_inv_step:
  assumes "worker_inv cfg w log"
    and "process_once hash8 (observing now ad) w (s, log) now job = (r, w', s', log')"
  shows "worker_inv cfg w' log'"
proof (cases rule: process_once_cases [of job hash8 "observing now ad" w "(s, log)" now])
  case not_ready
  with assms show ?thesis by simp
next
  case (blocked t)
  with assms show ?thesis by simp
next
  case (throttled d)
  with assms show ?thesis by (auto intro: worker_inv_half_open)
next
  case (bad_request err)
  with assms show ?thesis by (auto intro: worker_inv_half_open)
next
  case (accepted req receipt s1)
  then have "w' = (attempted w now)\<lparr>wk_failures := 0, wk_open_until := None\<rparr>"
    "log' = log @ [(now, req, Inr receipt)]"
    using assms(2) by (auto simp: observing_Pair Let_def)
  with assms(1) interval_snoc [OF assms(1) accepted(3), of req "Inr receipt"] show ?thesis
    by (simp add: worker_inv_def)
next
  case (failed req err s1 r1 w1)
  then have "w' = snd (record_circuit_failure (attempted w now) err now)"
    using assms(2) handle_gateway_error_worker [of hash8 "attempted w now" "job_envelope job" err now]
    by (metis prod.inject snd_conv)
  moreover have "log' = log @ [(now, req, Inl err)]"
    using failed assms(2) by (auto simp: observing_Pair)
  ultimately show ?thesis using worker_inv_failure [OF assms(1) failed(3)] by simp
qed

lemma worker_inv_run:
  "worker_inv cfg w log \<Longrightarrow> worker_run hash8 ad w (s, log) events = (w', s', log') \<Longrightarrow> worker_inv cfg w' log'"
proof (induction events arbitrary: w s log)
  case (Cons ev events)
  obtain now job where ev: "ev = (now, job)" by (cases ev)
  obtain r w1 s1 log1 where st:
    "process_once hash8 (observing now ad) w (s, log) now job = (r, w1, s1, log1)"
    by (metis surj_pair)
  with Cons.prems(2) ev have "worker_run hash8 ad w1 (s1, log1) events = (w', s', log')" by simp
  with Cons.IH [OF worker_inv_step [OF Cons.prems(1) st]] show ?case .
qed simp

section \<open>What the worker guarantees\<close>

text \<open>C17  Rate limit.  Whatever jobs a fresh worker is given, at whatever times (a clock that goes
  back included), and whatever the gateway answers: with a non-zero interval two successive requests
  to the gateway are at least the interval apart (up to the end of the 64-bit range).\<close>

theorem requests_are_spaced:
  "successively (\<lambda>x y. interval = 0 \<or> min (unat (fst x) + unat interval) (2 ^ 64 - 1) \<le> unat (fst y))
     (snd (snd (worker_run hash8 ad
       (worker_new \<lparr>cfg_gateway_key = key, cfg_max_batch_size = batch,
          cfg_rate_limit = rate_limit_new interval, cfg_circuit_breaker = breaker\<rparr>)
       (world, []) events)))"
proof -
  let ?cfg = "\<lparr>cfg_gateway_key = key, cfg_max_batch_size = batch,
      cfg_rate_limit = rate_limit_new interval, cfg_circuit_breaker = breaker\<rparr>"
  obtain w s log where r: "worker_run hash8 ad (worker_new ?cfg) (world, []) events = (w, s, log)"
    by (metis surj_pair)
  from worker_inv_run [OF worker_inv_new r] have "successively (interval_respected interval) log"
    by (simp add: worker_inv_def rate_limit_new_def)
  then show ?thesis unfolding r by (simp add: interval_respected_def [abs_def])
qed

text \<open>C18  Circuit breaker.  After any run of a fresh worker its counter is the number of failures that
  count since the last accepted request (saturating at the 16-bit maximum), and the circuit is open
  only if that number has reached the threshold, until the configured time after the request that
  failed last.\<close>

theorem circuit_breaker_counts:
  "case worker_run hash8 ad (worker_new cfg) (world, []) events of (w, _, log) \<Rightarrow>
     unat (wk_failures w) = min (streak log) 65535
     \<and> (case wk_open_until w of None \<Rightarrow> True
        | Some t \<Rightarrow> log \<noteq> [] \<and> unat (cb_failure_threshold (cfg_circuit_breaker cfg)) \<le> streak log
            \<and> t = sat_add (fst (last log)) (cb_open_seconds (cfg_circuit_breaker cfg)))"
proof -
  obtain w s log where r: "worker_run hash8 ad (worker_new cfg) (world, []) events = (w, s, log)"
    by (metis surj_pair)
  from worker_inv_run [OF worker_inv_new r] r show ?thesis by (simp add: worker_inv_def)
qed

text \<open>The circuit opens: the failure that brings the count to the threshold, if it counts, opens
  the circuit until the configured time later, and says so in the result it returns.\<close>

theorem threshold_opens_circuit:
  assumes "counts_toward_circuit_breaker (ge_kind err)"
    and "unat (cb_failure_threshold (cfg_circuit_breaker (wk_config w))) \<le> unat (wk_failures w) + 1"
  shows "wk_open_until (snd (handle_gateway_error hash8 w e err now)) =
           Some (sat_add now (cb_open_seconds (cfg_circuit_breaker (wk_config w))))"
proof -
  have "unat (cb_failure_threshold (cfg_circuit_breaker (wk_config w))) \<le> 65535"
    by (rule unat_u16_threshold)
  with assms(2) have "cb_failure_threshold (cfg_circuit_breaker (wk_config w))
      \<le> sat_add (wk_failures w) 1"
    by (auto simp: word_le_nat_alt unat_sat_add min_def)
  with assms(1) show ?thesis
    by (simp add: handle_gateway_error_worker record_circuit_failure_def Let_def)
qed

text \<open>An open circuit protects the gateway: jobs offered before the deadline, however many, change
  neither the worker nor the world, and cause no request.\<close>

theorem open_circuit_blocks:
  assumes "wk_open_until w = Some t" and "\<forall>x \<in> set events. fst x < t"
  shows "worker_run hash8 ad w (world, log) events = (w, world, log)"
  using assms(2)
proof (induction events)
  case (Cons ev events)
  obtain now job where ev: "ev = (now, job)" by (cases ev)
  with Cons.prems assms(1) have "circuit_blocks w now" by (simp add: circuit_blocks_def)
  then have "\<exists>r. process_once hash8 (observing now ad) w (world, log) now job = (r, w, world, log)"
    by (cases rule: process_once_cases [of job hash8 "observing now ad" w "(world, log)" now]) auto
  with Cons ev show ?case by auto
qed simp

definition log_of :: "transmission_worker \<Rightarrow> outbox_envelope \<Rightarrow> worker_log_event \<Rightarrow> bool" where
  "log_of w e l \<longleftrightarrow> log_gateway_key l = cfg_gateway_key (wk_config w)
     \<and> log_outbox_id l = env_outbox_id e
     \<and> log_tenant_id l = tenant_str (ctx_tenant_id (env_context e))
     \<and> log_trace_id l = trace_str (ctx_trace_id (env_context e))
     \<and> log_idempotency_key l = idempotency_str (ctx_idempotency_key (env_context e))"

lemma dead_letter_result_Inr:
  assumes "dead_letter_result w e err opn = Inr r"
  shows "\<exists>dl l. r = DeadLettered e dl err opn l
    \<and> dl_outbox_id dl = env_outbox_id e \<and> dl_context dl = env_context e
    \<and> dl_fingerprint_hex dl = env_fingerprint_hex e \<and> dl_final_state dl = env_state e
    \<and> dl_failure_code dl = kind_as_str (ge_kind err) \<and> dl_failure_message dl = ge_message err
    \<and> dl_attempt_count dl = env_attempt_count e \<and> dl_payload_json dl = env_payload_json e
    \<and> log_of w e l \<and> log_outcome l = OutDeadLettered \<and> log_gateway_error_kind l = Some (ge_kind err)"
  using assms
  by (auto simp: dead_letter_result_def to_dead_letter_def dead_letter_new_def rbind_Inr_iff
      worker_log_def log_of_def)

definition failure_result ::
  "transmission_worker \<Rightarrow> outbox_envelope \<Rightarrow> gateway_error \<Rightarrow> ('d, 'j) worker_result \<Rightarrow> bool" where
  "failure_result w e0 err r \<longleftrightarrow>
     (case r of
        RetryScheduled e err' d opn l \<Rightarrow>
          err' = err \<and> is_retryable_gateway_error (ge_kind err)
          \<and> e = e0\<lparr>env_attempt_count := env_attempt_count e0 + 1\<rparr>
          \<and> env_attempt_count e < rp_max_attempts (env_retry_policy e)
          \<and> (\<exists>p \<le> rp_max_delay_seconds (env_retry_policy e). d = retry_wait p err)
          \<and> log_of w e0 l \<and> log_outcome l = OutRetryScheduled \<and> log_retry_after_seconds l = Some d
      | DeadLettered e dl err' opn l \<Rightarrow>
          err' = err \<and> env_state e = ODeadLetter
          \<and> (\<exists>n. e = e0\<lparr>env_state := ODeadLetter, env_attempt_count := n\<rparr>)
          \<and> (if is_retryable_gateway_error (ge_kind err)
             then rp_max_attempts (env_retry_policy e) \<le> env_attempt_count e else True)
          \<and> dl_outbox_id dl = env_outbox_id e \<and> dl_context dl = env_context e
          \<and> dl_fingerprint_hex dl = env_fingerprint_hex e \<and> dl_final_state dl = ODeadLetter
          \<and> dl_failure_code dl = kind_as_str (ge_kind err) \<and> dl_failure_message dl = ge_message err
          \<and> dl_attempt_count dl = env_attempt_count e \<and> dl_payload_json dl = env_payload_json e
          \<and> log_of w e0 l \<and> log_outcome l = OutDeadLettered
      | _ \<Rightarrow> False)"

lemma log_of_worker_log: "wk_config w' = wk_config w \<Longrightarrow> log_of w e (worker_log w' e a b c)"
  by (simp add: log_of_def worker_log_def)

lemma log_of_update [simp]:
  "log_of w (e\<lparr>env_state := st\<rparr>) l = log_of w e l"
  "log_of w (e\<lparr>env_attempt_count := n\<rparr>) l = log_of w e l"
  by (simp_all add: log_of_def)

lemma log_of_config: "wk_config w' = wk_config w \<Longrightarrow> log_of w' e l = log_of w e l"
  by (simp add: log_of_def)

lemma failure_result_log:
  "failure_result w e err r \<Longrightarrow> log_of w e (result_log_event r)
     \<and> log_outcome (result_log_event r) = result_outcome r
     \<and> result_outcome r \<in> {OutRetryScheduled, OutDeadLettered}"
  by (cases r) (simp_all add: failure_result_def)

lemma failure_result_config:
  "wk_config w' = wk_config w \<Longrightarrow> failure_result w' e err r = failure_result w e err r"
  by (cases r) (simp_all add: failure_result_def log_of_config [of w' w])

lemma handle_gateway_error_result:
  assumes "handle_gateway_error hash8 w e0 err now = (Inr r, w')"
  shows "failure_result w e0 err r"
proof -
  obtain o1 w1 where c: "record_circuit_failure w err now = (o1, w1)"
    by (cases "record_circuit_failure w err now")
  obtain dec e1 where d: "record_failed_attempt hash8 e0 = (dec, e1)"
    by (cases "record_failed_attempt hash8 e0")
  have cfg: "wk_config w1 = wk_config w" using record_circuit_failure_sel(1) [of w err now] c by simp
  have log: "log_of v e1 l = log_of v e0 l" for v l
    by (cases rule: record_failed_attempt_cases [of e0 hash8]) (use d in auto)
  note tot = record_failed_attempt_total_raw [of e0 hash8, unfolded d]
  show ?thesis
  proof (cases "is_retryable_gateway_error (ge_kind err)")
    case True
    then obtain x where x: "dec = Inr x" using assms tot c d
      by (auto simp: handle_gateway_error_def split: sum.splits)
    show ?thesis
    proof (cases x)
      case (RetryAfterSeconds p)
      with x True assms tot c d cfg show ?thesis
        by (auto simp: handle_gateway_error_def failure_result_def log_of_def worker_log_def)
    next
      case MoveToDeadLetter
      with x True assms c d have "dead_letter_result w1 e1 err o1 = Inr r"
        by (auto simp: handle_gateway_error_def)
      from dead_letter_result_Inr [OF this] x MoveToDeadLetter True tot show ?thesis
        by (auto simp: failure_result_def log_of_config [OF cfg] log)
    qed
  next
    case False
    then have "dead_letter_result w1 (e1\<lparr>env_state := ODeadLetter\<rparr>) err o1 = Inr r"
      using assms c d by (auto simp: handle_gateway_error_def rbind_Inr_iff)
    from dead_letter_result_Inr [OF this] False tot show ?thesis
      by (auto simp: failure_result_def log_of_config [OF cfg] log split: sum.splits retry_decision.splits)
  qed
qed

text \<open>Every answer of the worker accounts for the job: deferred jobs come back unchanged; an
  accepted one carries the state of the receipt's status; a scheduled retry has one more attempt
  counted, budget left, a delay between the policy's and the gateway's wish; a dead letter is a
  faithful copy of the envelope in the dead-letter state, after a failure that cannot be retried or
  with the budget spent; the log event names the row, the tenant, the trace and the outcome.\<close>

theorem process_once_accounts:
  "case fst (process_once hash8 ad w world now job) of
     Inl _ \<Rightarrow> True
   | Inr r \<Rightarrow>
      log_of w (job_envelope job) (result_log_event r)
      \<and> log_outcome (result_log_event r) = result_outcome r
      \<and> env_state (job_envelope job) = OReserved
      \<and> (case r of
           Throttled job' d _ \<Rightarrow> job' = job \<and> 0 < d
         | CircuitOpen job' d _ \<Rightarrow> job' = job \<and> 0 < d
         | Submitted e receipt _ \<Rightarrow>
             e = (job_envelope job)\<lparr>env_state := outbox_state_for_receipt (rcpt_status receipt)\<rparr>
         | _ \<Rightarrow> \<exists>err. failure_result w (job_envelope job) err r)"
proof (cases rule: process_once_cases [of job hash8 ad w world now])
  case (blocked t)
  then have "0 < t - now" by (simp add: word_less_nat_alt unat_sub word_le_nat_alt)
  with blocked show ?thesis by (simp add: log_of_worker_log) (simp add: worker_log_def)
next
  case (throttled d)
  then have "0 < d"
    by (auto simp: rate_limit_delay_def Let_def word_less_nat_alt unat_sub word_le_nat_alt
        split: if_splits option.splits)
  with throttled show ?thesis by (simp add: log_of_worker_log) (simp add: worker_log_def)
next
  case (accepted req receipt s')
  then show ?thesis by (simp add: Let_def log_of_def worker_log_def)
next
  case (failed req err s' r w')
  show ?thesis
  proof (cases r)
    case (Inr x)
    with failed have "failure_result (attempted w now) (job_envelope job) err x"
      using handle_gateway_error_result by blast
    then have "failure_result w (job_envelope job) err x"
      by (simp add: failure_result_config [of "attempted w now" w])
    with failed Inr show ?thesis using failure_result_log [of w "job_envelope job" err x]
      by (cases x) auto
  qed (use failed in simp)
qed simp_all

section \<open>Batches\<close>

lemma process_jobs_append:
  "process_jobs hash8 ad w s now (xs @ ys) =
     (case process_jobs hash8 ad w s now xs of (rs, w1, s1) \<Rightarrow>
        case process_jobs hash8 ad w1 s1 now ys of (rs', w2, s2) \<Rightarrow> (rs @ rs', w2, s2))"
  by (induction xs arbitrary: w s) (auto simp: Let_def split_def)

lemma process_jobs_length: "length (fst (process_jobs hash8 ad w s now jobs)) = length jobs"
  by (induction jobs arbitrary: w s) (auto simp: Let_def split_def)

text \<open>A batch gives one answer per selected job, \<open>max_batch_size\<close> at most, and the answers to its
  first jobs are those they get without the jobs after them: a later failure discards no earlier
  outcome.\<close>

theorem batch_keeps_outcomes:
  "length (fst (process_batch hash8 ad w s now jobs)) = min (cfg_max_batch_size (wk_config w)) (length jobs)
   \<and> take n (fst (process_batch hash8 ad w s now jobs)) =
       fst (process_batch hash8 ad w s now (take n jobs))"
proof -
  let ?m = "cfg_max_batch_size (wk_config w)"
  have "length (fst (process_batch hash8 ad w s now jobs)) = min ?m (length jobs)"
    by (simp add: process_batch_def process_jobs_length min.commute)
  moreover have "take n (fst (process_jobs hash8 ad w s now xs)) =
      fst (process_jobs hash8 ad w s now (take n xs))" for xs
  proof -
    have "process_jobs hash8 ad w s now xs =
        process_jobs hash8 ad w s now (take n xs @ drop n xs)" by simp
    then have "fst (process_jobs hash8 ad w s now xs) = fst (process_jobs hash8 ad w s now (take n xs))
        @ fst (case process_jobs hash8 ad w s now (take n xs) of
             (rs, w1, s1) \<Rightarrow> process_jobs hash8 ad w1 s1 now (drop n xs))"
      by (simp only: process_jobs_append) (simp add: split_def)
    moreover have "length (fst (process_jobs hash8 ad w s now (take n xs))) = min n (length xs)"
      by (simp add: process_jobs_length min.commute)
    ultimately show ?thesis
    proof (cases "n \<le> length xs")
      case False
      then show ?thesis by (simp add: process_jobs_length)
    qed simp
  qed
  ultimately show ?thesis by (simp add: process_batch_def min.commute)
qed

lemma process_jobs_run:
  "snd (process_jobs hash8 (observing now ad) w s now jobs) =
     worker_run hash8 ad w s (map (Pair now) jobs)"
  by (induction jobs arbitrary: w s) (auto simp: Let_def split_def)

lemma process_once_log:
  "\<exists>xs. snd (snd (snd (process_once hash8 (observing now ad) w s now job))) = snd s @ xs
     \<and> length xs \<le> 1 \<and> (\<forall>x \<in> set xs. fst x = now)"
proof (cases rule: process_once_cases [of job hash8 "observing now ad" w s now])
  case (accepted req receipt s')
  then show ?thesis by (auto simp: observing_Pair Let_def)
next
  case (failed req err s' r w')
  then show ?thesis by (auto simp: observing_Pair)
qed simp_all

lemma worker_run_log:
  "\<exists>xs. snd (snd (worker_run hash8 ad w s (map (Pair now) jobs))) = snd s @ xs
     \<and> (\<forall>x \<in> set xs. fst x = now)"
proof (induction jobs arbitrary: w s)
  case (Cons job jobs)
  obtain r w1 s1 where st: "process_once hash8 (observing now ad) w s now job = (r, w1, s1)"
    by (metis surj_pair)
  obtain xs where xs: "snd s1 = snd s @ xs" "\<forall>x \<in> set xs. fst x = now"
    using process_once_log [of hash8 now ad w s job] st by auto
  obtain ys where "snd (snd (worker_run hash8 ad w1 s1 (map (Pair now) jobs))) = snd s1 @ ys"
    "\<forall>x \<in> set ys. fst x = now" using Cons by blast
  with xs st show ?case by (intro exI [of _ "xs @ ys"]) auto
qed simp

text \<open>All jobs of a batch are offered at the same instant, so with a rate limit set a batch makes
  at most one request to the gateway, whatever its size: the other jobs are deferred.\<close>

theorem batch_single_request:
  assumes "rl_min_interval_seconds (cfg_rate_limit cfg) \<noteq> 0" and "unat now < 2 ^ 64 - 1"
  shows "length (snd (snd (snd (process_batch hash8 (observing now ad) (worker_new cfg) (world, []) now
           jobs)))) \<le> 1"
proof -
  let ?jobs = "take (cfg_max_batch_size cfg) jobs"
  obtain w s log where r: "worker_run hash8 ad (worker_new cfg) (world, []) (map (Pair now) ?jobs) = (w, s, log)"
    by (metis surj_pair)
  have log: "snd (snd (snd (process_batch hash8 (observing now ad) (worker_new cfg) (world, []) now jobs)))
      = log"
    by (simp add: process_batch_def process_jobs_run r worker_new_def [of cfg, THEN arg_cong, of wk_config])
  have inv: "worker_inv cfg w log" by (rule worker_inv_run [OF worker_inv_new r])
  have all: "\<forall>x \<in> set log. fst x = now"
    using worker_run_log [of hash8 ad "worker_new cfg" "(world, [])" now ?jobs] r by auto
  show ?thesis
  proof (cases log)
    case (Cons x log')
    show ?thesis
    proof (cases log')
      case (Cons y ys)
      with \<open>log = x # log'\<close> inv
      have "interval_respected (rl_min_interval_seconds (cfg_rate_limit cfg)) x y"
        by (simp add: worker_inv_def)
      moreover have "fst x = now" "fst y = now" using all Cons \<open>log = x # log'\<close> by auto
      moreover have "unat (rl_min_interval_seconds (cfg_rate_limit cfg)) \<noteq> 0"
        using assms(1) by (simp add: unat_eq_zero)
      ultimately show ?thesis using assms by (auto simp: interval_respected_def)
    qed (use Cons log in simp)
  qed (use log in simp)
qed

section \<open>Failures the worker does not record\<close>

lemma dead_letter_id_ok: "identifier_ok v \<Longrightarrow> identifier_ok (''dead_'' @ v)"
proof -
  have "\<not> has_control (CHR ''d'' # ''ead'' @ ''_'')" by code_simp
  moreover have "solid CHR ''d''" "solid CHR ''_''" "byte CHR ''_'' \<noteq> 194" by code_simp+
  ultimately show "identifier_ok v \<Longrightarrow> identifier_ok (''dead_'' @ v)"
    using identifier_prefix [of v "CHR ''d''" "CHR ''_''" "''ead''"] by simp
qed

lemma dead_letter_result_Inl_iff:
  assumes "identifier_ok (env_outbox_id e)"
  shows "(\<exists>x. dead_letter_result w e err opn = Inl x) \<longleftrightarrow> blank (ge_message err) \<or> has_control (ge_message err)"
proof -
  let ?checks = "first_err [validate_identifier (''dead_'' @ env_outbox_id e) ''dead_letter_id'',
      validate_identifier (kind_as_str (ge_kind err)) ''failure_code'',
      validate_text (ge_message err) ''failure_message'']"
  have "?checks = Inr () \<longleftrightarrow> \<not> blank (ge_message err) \<and> \<not> has_control (ge_message err)"
    using dead_letter_id_ok [OF assms] kind_as_str_ok [of "ge_kind err"]
    by (simp add: first_err_ok_iff validate_identifier_iff validate_text_iff)
  then show ?thesis
    by (cases ?checks) (auto simp: dead_letter_result_def to_dead_letter_def dead_letter_new_def)
qed

lemma gateway_failure_lost:
  assumes "identifier_ok (env_outbox_id e)"
  shows "(\<exists>x. fst (handle_gateway_error hash8 w e err now) = Inl x) \<longleftrightarrow>
    (\<not> is_retryable_gateway_error (ge_kind err)
       \<or> unat (rp_max_attempts (env_retry_policy e)) \<le> unat (env_attempt_count e) + 1)
    \<and> (blank (ge_message err) \<or> has_control (ge_message err))"
proof -
  obtain o1 w1 where c: "record_circuit_failure w err now = (o1, w1)"
    by (cases "record_circuit_failure w err now")
  have dl: "(\<exists>x. dead_letter_result w1 (e\<lparr>env_state := st, env_attempt_count := n\<rparr>) err o1 = Inl x)
      \<longleftrightarrow> blank (ge_message err) \<or> has_control (ge_message err)" for st n
    using dead_letter_result_Inl_iff [of "e\<lparr>env_state := st, env_attempt_count := n\<rparr>"] assms by simp
  have dl2: "(\<exists>x. dead_letter_result w1 (e\<lparr>env_state := st\<rparr>) err o1 = Inl x)
      \<longleftrightarrow> blank (ge_message err) \<or> has_control (ge_message err)" for st
    using dead_letter_result_Inl_iff [of "e\<lparr>env_state := st\<rparr>"] assms by simp
  have dl3: "(\<exists>x. dead_letter_result w1 (e\<lparr>env_attempt_count := n, env_state := st\<rparr>) err o1 = Inl x)
      \<longleftrightarrow> blank (ge_message err) \<or> has_control (ge_message err)" for st n
    using dead_letter_result_Inl_iff [of "e\<lparr>env_attempt_count := n, env_state := st\<rparr>"] assms by simp
  show ?thesis
  proof (cases rule: record_failed_attempt_cases [of e hash8])
    case spent
    then show ?thesis by (simp add: handle_gateway_error_def c dl2)
  next
    case (final n)
    then show ?thesis by (simp add: handle_gateway_error_def c dl3)
  next
    case (retry n d)
    then show ?thesis by (simp add: handle_gateway_error_def c dl3)
  qed
qed

text \<open>C28  When a failure answered by the gateway is lost.  The worker returns an error for a job it has
  submitted exactly when the failure should be dead-lettered and the gateway's message is blank or
  has a control character (a line break, say): then no dead letter exists and the envelope with its
  counted attempt is gone.\<close>

theorem gateway_failure_lost_iff:
  assumes "identifier_ok (env_outbox_id e)"
  shows "(\<exists>x. fst (handle_gateway_error hash8 w e err now) = Inl x) \<longleftrightarrow>
    (\<not> is_retryable_gateway_error (ge_kind err)
       \<or> unat (rp_max_attempts (env_retry_policy e)) \<le> unat (env_attempt_count e) + 1)
    \<and> (blank (ge_message err) \<or> has_control (ge_message err))"
  using assms by (rule gateway_failure_lost)

section \<open>Concrete runs\<close>

definition sample_config :: transmission_worker_config where
  "sample_config = \<lparr>cfg_gateway_key = ''mock'', cfg_max_batch_size = 10,
     cfg_rate_limit = rate_limit_new 5,
     cfg_circuit_breaker = \<lparr>cb_failure_threshold = 1, cb_open_seconds = 60\<rparr>\<rparr>"

definition sample_job :: "(nat, unit) transmission_job" where
  "sample_job = \<lparr>job_envelope = sample_envelope, job_route = sample_route,
     job_document = sample_document\<rparr>"

definition sample_error :: "gateway_error_kind \<Rightarrow> string \<Rightarrow> gateway_error" where
  "sample_error kind message = gateway_error_new kind Submit message ''retry''"

definition sample_open_worker :: transmission_worker where
  "sample_open_worker = (worker_new sample_config)\<lparr>wk_open_until := Some 60\<rparr>"

theorem threshold_opens_circuit_witness:
  "wk_open_until (snd (handle_gateway_error (\<lambda>_. 7) (worker_new sample_config) sample_envelope
     (sample_error Timeout ''slow'') 100)) = Some (sat_add 100 60)"
  using threshold_opens_circuit [of "sample_error Timeout ''slow''" "worker_new sample_config"
      "\<lambda>_. 7" sample_envelope 100]
  by (simp add: counts_toward_circuit_breaker_def sample_error_def gateway_error_new_def
      worker_new_def sample_config_def)

theorem open_circuit_blocks_witness:
  "worker_run (\<lambda>_. 7) (\<lambda>n req. (Inl (sample_error Timeout ''slow''), Suc n)) sample_open_worker
     (0, []) [(1, sample_job), (59, sample_job)] = (sample_open_worker, 0, [])"
  by (rule open_circuit_blocks [of _ 60]) (simp_all add: sample_open_worker_def)

theorem batch_single_request_witness:
  "length (snd (snd (snd (process_batch (\<lambda>_. 7)
     (observing 9 (\<lambda>n req. (Inl (sample_error RateLimited ''slow''), Suc n)))
     (worker_new sample_config) (0, []) 9 [sample_job, sample_job])))) \<le> 1"
  by (rule batch_single_request) (simp_all add: sample_config_def rate_limit_new_def)

theorem gateway_failure_lost_iff_witness:
  "\<exists>x. fst (handle_gateway_error (\<lambda>_. 7) (worker_new sample_config) sample_envelope
     (sample_error KRejected ''line 1\<newline>line 2'') 100 :: (_ + (nat, unit) worker_result) \<times> _) = Inl x"
proof -
  have "identifier_ok (env_outbox_id sample_envelope)" by code_simp
  moreover have "has_control (ge_message (sample_error KRejected ''line 1\<newline>line 2''))" by code_simp
  moreover have "\<not> is_retryable_gateway_error (ge_kind (sample_error KRejected ''line 1\<newline>line 2''))"
    by code_simp
  ultimately show ?thesis by (simp add: gateway_failure_lost_iff)
qed

end
