(* ===== verification/Webhook.thy ===== *)
theory Webhook
  imports Interfaces
begin

text \<open>
  \<open>crates/reconcile/src/webhook.rs\<close>: signing and verifying webhooks, the ledger of event ids, the
  retry policy and the delivery loop.  \<open>hmac\<close> is HMAC-SHA256 (key, message to digest bytes); an
  \<open>i64\<close> is an \<open>int\<close> in \<open>i64_range\<close>; a \<open>Duration\<close> is its number of nanoseconds, at most
  \<open>duration_max\<close>.  Transport, clock and sleeper of the delivery loop are arguments that transform a
  state \<open>'w\<close> of the world.
\<close>

section \<open>Signing\<close>

record webhook_event =
  ev_event_id :: string
  ev_topic :: string
  ev_tenant_id :: string
  ev_payload :: string

record webhook_headers =
  wh_signature :: string
  wh_event_id :: string

record webhook_envelope =
  we_event :: webhook_event
  we_headers :: webhook_headers
  we_body :: string
  we_timestamp :: int

type_synonym hmac = "u8 list \<Rightarrow> string \<Rightarrow> u8 list"

definition compute_signature :: "hmac \<Rightarrow> u8 list \<Rightarrow> int \<Rightarrow> string \<Rightarrow> string" where
  "compute_signature hmac secret timestamp body =
     hex_lower (hmac secret (show_int timestamp @ ''.'' @ body))"

definition webhook_sign :: "hmac \<Rightarrow> u8 list \<Rightarrow> webhook_event \<Rightarrow> int \<Rightarrow> webhook_envelope" where
  "webhook_sign hmac secret event timestamp =
     (let body = ev_payload event; signature = compute_signature hmac secret timestamp body
      in \<lparr>we_event = event,
          we_headers = \<lparr>wh_signature = ''t='' @ show_int timestamp @ '','' @ ''v1'' @ ''='' @ signature,
                        wh_event_id = ev_event_id event\<rparr>,
          we_body = body, we_timestamp = timestamp\<rparr>)"

section \<open>Verifying\<close>

datatype webhook_verify_error =
    BadSignatureHeader
  | BadSignatureLength
  | SignatureMismatch
  | ReplayWindowExceeded int
  | MissingEventId
  | DuplicateEvent string

type_synonym event_id_ledger = "string set"

definition ledger_record :: "event_id_ledger \<Rightarrow> string \<Rightarrow> bool \<times> event_id_ledger" where
  "ledger_record seen event_id = (event_id \<notin> seen, insert event_id seen)"

definition ledger_contains :: "event_id_ledger \<Rightarrow> string \<Rightarrow> bool" where
  "ledger_contains seen event_id \<longleftrightarrow> event_id \<in> seen"

interpretation ledger: once_ledger ledger_record ledger_contains
  by unfold_locales (auto simp: ledger_record_def ledger_contains_def)

definition scan_part :: "int option \<times> string option \<Rightarrow> string \<Rightarrow> int option \<times> string option" where
  "scan_part acc raw =
     (let part = trim raw
      in case strip_prefix ''t='' part of
           Some rest \<Rightarrow> (parse_i64 rest, snd acc)
         | None \<Rightarrow>
             (case strip_prefix ''v1='' part of
                Some rest \<Rightarrow> (fst acc, Some rest)
              | None \<Rightarrow> acc))"

definition parse_signature_header :: "string \<Rightarrow> webhook_verify_error + int \<times> string" where
  "parse_signature_header v =
     (case fold (\<lambda>p acc. scan_part acc p) (split_on (CHR '','') v) (None, None) of
        (Some ts, Some sig) \<Rightarrow> Inr (ts, sig)
      | _ \<Rightarrow> Inl BadSignatureHeader)"

definition i64_saturating_sub :: "int \<Rightarrow> int \<Rightarrow> int" where
  "i64_saturating_sub a b = max (- (2 ^ 63)) (min (2 ^ 63 - 1) (a - b))"

definition constant_time_eq :: "string \<Rightarrow> string \<Rightarrow> bool" where
  "constant_time_eq left right \<longleftrightarrow> length left = length right \<and> list_all2 (=) left right"

definition webhook_verify :: "hmac \<Rightarrow> u8 list \<Rightarrow> event_id_ledger \<Rightarrow> webhook_headers \<Rightarrow> string \<Rightarrow> int
    \<Rightarrow> (webhook_verify_error + unit) \<times> event_id_ledger" where
  "webhook_verify hmac secret ledger headers body now =
     (case parse_signature_header (wh_signature headers) of
        Inl err \<Rightarrow> (Inl err, ledger)
      | Inr (timestamp, signature) \<Rightarrow>
          let delta = i64_saturating_sub now timestamp
          in if nat \<bar>delta\<bar> > 300 then (Inl (ReplayWindowExceeded delta), ledger)
             else if length signature \<noteq> 64 then (Inl BadSignatureLength, ledger)
             else if \<not> constant_time_eq signature (compute_signature hmac secret timestamp body)
             then (Inl SignatureMismatch, ledger)
             else if wh_event_id headers = [] then (Inl MissingEventId, ledger)
             else case ledger_record ledger (wh_event_id headers) of
                 (fresh, ledger') \<Rightarrow>
                   (if fresh then Inr () else Inl (DuplicateEvent (wh_event_id headers)), ledger'))"

section \<open>Delivery\<close>

type_synonym duration = nat

definition duration_max :: duration where
  "duration_max = (2 ^ 64 - 1) * 10 ^ 9 + 999999999"

record webhook_retry_policy =
  wp_base :: duration
  wp_factor :: u32
  wp_max :: duration
  wp_max_attempts :: u32

definition stripe_default :: webhook_retry_policy where
  "stripe_default = \<lparr>wp_base = 10 ^ 9, wp_factor = 2, wp_max = 60 * 10 ^ 9, wp_max_attempts = 6\<rparr>"

definition backoff_for :: "webhook_retry_policy \<Rightarrow> u32 \<Rightarrow> duration" where
  "backoff_for p attempt =
     (let multiplier = sat_pow (wp_factor p) (unat attempt);
          scaled = min (wp_base p * unat multiplier) duration_max
      in if scaled > wp_max p then wp_max p else scaled)"

datatype delivery_outcome =
    OutcomeDelivered u32
  | PermanentFailure u16 u32
  | Exhausted u32

datatype dispatch_result = Success | PermanentClientError u16 | TransientFailure

lemma sat_add_lt_step: "sat_add a 1 < b \<Longrightarrow> unat b - unat (sat_add a 1) < unat b - unat a"
  for a b :: u32
  using unat_le_max [of b] by (simp add: word_less_nat_alt unat_sat_add)

function deliver_loop ::
  "hmac \<Rightarrow> u8 list \<Rightarrow> webhook_retry_policy \<Rightarrow> webhook_event
    \<Rightarrow> ('w \<Rightarrow> webhook_envelope \<Rightarrow> dispatch_result \<times> 'w) \<Rightarrow> ('w \<Rightarrow> int \<times> 'w) \<Rightarrow> ('w \<Rightarrow> duration \<Rightarrow> 'w)
    \<Rightarrow> u32 \<Rightarrow> 'w \<Rightarrow> delivery_outcome \<times> 'w" where
  "deliver_loop hmac secret policy event transport clock sleeper attempts0 w =
     (let attempts = sat_add attempts0 1;
          (now, w1) = clock w;
          (result, w2) = transport w1 (webhook_sign hmac secret event now)
      in case result of
           Success \<Rightarrow> (OutcomeDelivered attempts, w2)
         | PermanentClientError status \<Rightarrow> (PermanentFailure status attempts, w2)
         | TransientFailure \<Rightarrow>
             if attempts \<ge> wp_max_attempts policy then (Exhausted attempts, w2)
             else deliver_loop hmac secret policy event transport clock sleeper attempts
                    (sleeper w2 (backoff_for policy (attempts - 1))))"
  by pat_completeness auto
termination
proof (relation "measure (\<lambda>(_, _, policy, _, _, _, _, attempts, _).
      unat (wp_max_attempts policy) - unat attempts)", goal_cases)
  case (2 hmac secret policy event transport clock sleeper attempts0 w attempts x now w1 y result w2)
  then show ?case using sat_add_lt_step [of attempts0 "wp_max_attempts policy"] by simp
qed simp

declare deliver_loop.simps [simp del]

definition webhook_deliver ::
  "hmac \<Rightarrow> u8 list \<Rightarrow> webhook_retry_policy \<Rightarrow> webhook_event
    \<Rightarrow> ('w \<Rightarrow> webhook_envelope \<Rightarrow> dispatch_result \<times> 'w) \<Rightarrow> ('w \<Rightarrow> int \<times> 'w) \<Rightarrow> ('w \<Rightarrow> duration \<Rightarrow> 'w)
    \<Rightarrow> 'w \<Rightarrow> delivery_outcome \<times> 'w" where
  "webhook_deliver hmac secret policy event transport clock sleeper w =
     deliver_loop hmac secret policy event transport clock sleeper 0 w"

section \<open>Header round trip\<close>

lemma solid_digit: "is_digit c \<Longrightarrow> solid c"
  by (simp add: is_digit_def solid_def)

lemma solid_hex: "is_hex c \<Longrightarrow> solid c"
  by (auto simp: is_hex_def is_digit_def solid_def)

lemma show_int_last: "show_int i \<noteq> [] \<and> is_digit (last (show_int i))"
  using show_nat_digits [of "nat i"] show_nat_digits [of "nat (- i)"]
    last_in_set [OF show_nat_ne] by (auto simp: show_int_def)

lemma show_int_comma: "CHR '','' \<notin> set (show_int i)"
  using show_nat_digits [of "nat i"] show_nat_digits [of "nat (- i)"] is_digit_not
  by (auto simp: show_int_def)

lemma hex_comma: "CHR '','' \<notin> set (hex_lower bs)"
  using hex_lower_is_hex [of bs] by (auto simp: is_hex_def is_digit_def byte_def)

lemma strip_prefix_append [simp]: "strip_prefix p (p @ s) = Some s"
  by (simp add: strip_prefix_def)

lemma parse_header_sign:
  assumes "i64_range ts" "bs \<noteq> []"
  shows "parse_signature_header (''t='' @ show_int ts @ '','' @ ''v1'' @ ''='' @ hex_lower bs)
    = Inr (ts, hex_lower bs)"
proof -
  let ?t = "''t='' @ show_int ts" and ?v = "''v1='' @ hex_lower bs"
  have ne: "hex_lower bs \<noteq> []" using assms(2) by (cases bs) auto
  have tt: "trim ?t = ?t"
    using show_int_last [of ts]
    by (intro trim_solid_ends) (auto simp: solid_digit, simp add: solid_def byte_def)
  have t: "scan_part (None, None) ?t = (Some ts, None)"
    by (simp only: scan_part_def Let_def tt strip_prefix_append option.case snd_conv
        parse_i64_show_int [OF assms(1)])
  have tv: "trim ?v = ?v"
    using hex_lower_is_hex [of bs] last_in_set [OF ne] ne
    by (intro trim_solid_ends) (auto simp: solid_hex, simp add: solid_def byte_def)
  have no_t: "strip_prefix ''t='' ?v = None" by (simp add: strip_prefix_def)
  have v: "scan_part (Some ts, None) ?v = (Some ts, Some (hex_lower bs))"
    by (simp only: scan_part_def Let_def tv no_t strip_prefix_append option.case fst_conv)
  have "CHR '','' \<notin> set ?t" using show_int_comma [of ts] by auto
  then have "split_on CHR '','' (?t @ CHR '','' # ?v) = ?t # split_on CHR '','' ?v"
    by (rule split_on_sep)
  also have "split_on CHR '','' ?v = [?v]"
    using hex_comma [of bs] by (intro split_on_free) auto
  finally show ?thesis using t v by (simp add: parse_signature_header_def)
qed

section \<open>What verification guarantees\<close>

lemma constant_time_eq_iff [simp]: "constant_time_eq l r \<longleftrightarrow> l = r"
  by (auto simp: constant_time_eq_def list_all2_eq [symmetric])

lemma sat_sub_window: "nat \<bar>i64_saturating_sub a b\<bar> > 300 \<longleftrightarrow> \<bar>a - b\<bar> > 300"
  by (auto simp: i64_saturating_sub_def min_def max_def)

lemma webhook_verify_Inr_iff:
  "webhook_verify hmac secret seen headers body now = (Inr (), seen') \<longleftrightarrow>
     (\<exists>ts. parse_signature_header (wh_signature headers)
           = Inr (ts, compute_signature hmac secret ts body)
        \<and> \<bar>now - ts\<bar> \<le> 300 \<and> length (compute_signature hmac secret ts body) = 64
        \<and> wh_event_id headers \<noteq> [] \<and> wh_event_id headers \<notin> seen
        \<and> seen' = insert (wh_event_id headers) seen)"
  by (cases "parse_signature_header (wh_signature headers)")
    (auto simp: webhook_verify_def Let_def sat_sub_window ledger_record_def simp del: zero_less_nat_eq
      split: if_splits)

lemma webhook_verify_signed:
  assumes "\<And>m. length (hmac secret m) = 32"
    and "i64_range ts" and "\<bar>now - ts\<bar> \<le> 300" and "ev_event_id event \<noteq> []"
  shows "webhook_verify hmac secret seen (we_headers (webhook_sign hmac secret event ts))
           (we_body (webhook_sign hmac secret event ts)) now
         = (if ev_event_id event \<in> seen then Inl (DuplicateEvent (ev_event_id event)) else Inr (),
            insert (ev_event_id event) seen)"
proof -
  let ?d = "hmac secret (show_int ts @ ''.'' @ ev_payload event)"
  have "?d \<noteq> []" using assms(1) [of "show_int ts @ ''.'' @ ev_payload event"] by auto
  from parse_header_sign [OF assms(2) this] show ?thesis
    using assms(1,3,4)
    by (simp add: webhook_sign_def webhook_verify_def Let_def compute_signature_def sat_sub_window
        ledger_record_def del: zero_less_nat_eq)
qed

text \<open>C27  Signing and verification are inverse: what \<open>sign\<close> produces for an event with an id is
  accepted under the same secret at every clock within 300 seconds, when the id is new, and the id is
  recorded.  (HMAC-SHA256 has 32-byte digests.)\<close>

theorem sign_verify_roundtrip:
  assumes "\<And>m. length (hmac secret m) = 32"
    and "i64_range ts" and "\<bar>now - ts\<bar> \<le> 300"
    and "ev_event_id event \<noteq> []" and "ev_event_id event \<notin> seen"
  shows "webhook_verify hmac secret seen (we_headers (webhook_sign hmac secret event ts))
           (we_body (webhook_sign hmac secret event ts)) now
         = (Inr (), insert (ev_event_id event) seen)"
  using webhook_verify_signed [of hmac secret ts now event seen, OF assms(1-4)] assms(5) by simp

text \<open>C19  Verification is exact: a delivery is accepted exactly when its header names a timestamp
  within 300 seconds of the clock and the digest of that timestamp and the body under the secret,
  and it has an event id the ledger does not hold; acceptance records that id.  A refusal other than
  a duplicate leaves the ledger alone, so a forged request cannot use up an event id.\<close>

theorem verify_exact:
  "case webhook_verify hmac secret seen headers body now of
     (Inr _, seen') \<Rightarrow>
       (\<exists>ts. parse_signature_header (wh_signature headers)
             = Inr (ts, hex_lower (hmac secret (show_int ts @ ''.'' @ body)))
          \<and> \<bar>now - ts\<bar> \<le> 300 \<and> length (hmac secret (show_int ts @ ''.'' @ body)) = 32)
       \<and> wh_event_id headers \<noteq> [] \<and> wh_event_id headers \<notin> seen
       \<and> seen' = insert (wh_event_id headers) seen
   | (Inl err, seen') \<Rightarrow>
       seen' = seen
       \<and> \<not> ((\<exists>ts. parse_signature_header (wh_signature headers)
                 = Inr (ts, hex_lower (hmac secret (show_int ts @ ''.'' @ body)))
              \<and> \<bar>now - ts\<bar> \<le> 300 \<and> length (hmac secret (show_int ts @ ''.'' @ body)) = 32)
            \<and> wh_event_id headers \<noteq> [] \<and> wh_event_id headers \<notin> seen)
       \<and> (err = BadSignatureHeader \<longleftrightarrow> is_ok (parse_signature_header (wh_signature headers)) = False)
       \<and> (err = DuplicateEvent (wh_event_id headers) \<longleftrightarrow>
            wh_event_id headers \<in> seen
            \<and> fst (webhook_verify hmac secret {} headers body now) = Inr ())"
proof (cases "parse_signature_header (wh_signature headers)")
  case (Inl err)
  then have "err = BadSignatureHeader"
    by (auto simp: parse_signature_header_def split: prod.splits option.splits)
  with Inl show ?thesis by (simp add: webhook_verify_def)
next
  case (Inr p)
  obtain ts sig where p: "p = (ts, sig)" by (cases p)
  show ?thesis
    by (auto simp: Inr p webhook_verify_def Let_def sat_sub_window ledger_record_def
        compute_signature_def simp del: zero_less_nat_eq)
qed

text \<open>Deliveries against one ledger, in order.\<close>

fun verify_all :: "hmac \<Rightarrow> u8 list \<Rightarrow> event_id_ledger \<Rightarrow> (webhook_headers \<times> string \<times> int) list
    \<Rightarrow> (webhook_verify_error + unit) list \<times> event_id_ledger" where
  "verify_all hmac secret seen [] = ([], seen)"
| "verify_all hmac secret seen ((headers, body, now) # ds) =
     (let (r, seen1) = webhook_verify hmac secret seen headers body now;
          (rs, seen2) = verify_all hmac secret seen1 ds
      in (r # rs, seen2))"

definition accepted_ids ::
  "(webhook_headers \<times> string \<times> int) list \<Rightarrow> (webhook_verify_error + unit) list \<Rightarrow> string list" where
  "accepted_ids ds rs = map (wh_event_id \<circ> fst \<circ> fst) (filter (is_ok \<circ> snd) (zip ds rs))"

lemma webhook_verify_ledger:
  "webhook_verify hmac secret seen headers body now = (r, seen') \<Longrightarrow>
     (is_ok r \<and> wh_event_id headers \<notin> seen \<and> seen' = insert (wh_event_id headers) seen)
     \<or> (\<not> is_ok r \<and> seen' = seen)"
  by (cases "parse_signature_header (wh_signature headers)")
    (auto simp: webhook_verify_def Let_def ledger_record_def split: if_splits)

lemma verify_all_ledger:
  "verify_all hmac secret seen ds = (rs, seen') \<Longrightarrow>
     distinct (accepted_ids ds rs) \<and> set (accepted_ids ds rs) \<inter> seen = {}
     \<and> seen' = seen \<union> set (accepted_ids ds rs)"
proof (induction ds arbitrary: seen rs)
  case (Cons d ds)
  obtain headers body now where d: "d = (headers, body, now)" by (cases d)
  obtain r seen1 where v: "webhook_verify hmac secret seen headers body now = (r, seen1)"
    by (cases "webhook_verify hmac secret seen headers body now")
  obtain rs' seen2 where a: "verify_all hmac secret seen1 ds = (rs', seen2)"
    by (cases "verify_all hmac secret seen1 ds")
  from Cons.prems d v a have rs: "rs = r # rs'" "seen' = seen2" by simp_all
  from Cons.IH [of seen1 rs'] a rs webhook_verify_ledger [OF v] d show ?case
    by (auto simp: accepted_ids_def)
qed (auto simp: accepted_ids_def)

text \<open>C20  Each event id is accepted at most once over any sequence of deliveries checked against one
  ledger, and never one the ledger already held; the ledger grows by exactly the accepted ids.\<close>

theorem event_ids_accepted_once:
  "case verify_all hmac secret seen deliveries of (rs, seen') \<Rightarrow>
     distinct (accepted_ids deliveries rs) \<and> set (accepted_ids deliveries rs) \<inter> seen = {}
     \<and> seen' = seen \<union> set (accepted_ids deliveries rs)"
  using verify_all_ledger [of hmac secret seen deliveries] by (simp split: prod.split)

text \<open>The event id is not signed.  A delivery that has been accepted is accepted again, within the
  window, under any other event id the ledger does not hold: the idempotency check does not stop a
  replay by someone who can rewrite the header.\<close>

theorem event_id_not_authenticated:
  assumes "webhook_verify hmac secret seen headers body now = (Inr (), seen')"
    and "forged \<noteq> []" and "forged \<notin> seen'"
  shows "webhook_verify hmac secret seen' (headers\<lparr>wh_event_id := forged\<rparr>) body now
         = (Inr (), insert forged seen')"
proof -
  from assms(1) obtain ts where "parse_signature_header (wh_signature headers)
           = Inr (ts, compute_signature hmac secret ts body)"
        "\<bar>now - ts\<bar> \<le> 300" "length (compute_signature hmac secret ts body) = 64"
    unfolding webhook_verify_Inr_iff by blast
  with assms(2,3) show ?thesis unfolding webhook_verify_Inr_iff by (intro exI [of _ ts]) simp
qed

text \<open>Tampering is detected: inside the window, the header signed for an event is refused for a
  body with \<open>SignatureMismatch\<close>, exactly when the HMAC tells the two signed texts apart; the ledger
  does not change then.\<close>

theorem tampered_body_refused:
  assumes "\<And>m. length (hmac secret m) = 32" and "i64_range ts" and "\<bar>now - ts\<bar> \<le> 300"
  shows "webhook_verify hmac secret seen (we_headers (webhook_sign hmac secret event ts)) body now
           = (Inl SignatureMismatch, seen)
         \<longleftrightarrow> hmac secret (show_int ts @ ''.'' @ body) \<noteq> hmac secret (show_int ts @ ''.'' @ ev_payload event)"
proof -
  let ?m = "show_int ts @ ''.'' @ ev_payload event" and ?m' = "show_int ts @ ''.'' @ body"
  have "hmac secret ?m \<noteq> []" using assms(1) [of ?m] by auto
  note parse = parse_header_sign [OF assms(2) this]
  have "hex_lower (hmac secret ?m) = hex_lower (hmac secret ?m') \<longleftrightarrow> hmac secret ?m = hmac secret ?m'"
    by (auto dest: hex_lower_inj)
  then show ?thesis
    using parse assms(1,3)
    by (auto simp: webhook_verify_def webhook_sign_def Let_def compute_signature_def sat_sub_window
        ledger_record_def simp del: zero_less_nat_eq)
qed

section \<open>What delivery guarantees\<close>

text \<open>A policy whose factor is 0 does not have an increasing schedule: its one step counts.\<close>

lemma unat_backoff_for:
  "backoff_for p k = min (min (wp_base p * min (unat (wp_factor p) ^ unat k) (2 ^ 32 - 1)) duration_max)
     (wp_max p)"
  by (auto simp: backoff_for_def Let_def unat_sat_pow)

interpretation hook: backoff "\<lambda>k. backoff_for p (of_nat k)" "wp_max p"
    "if unat (wp_factor p) = 0 then 1 else 2 ^ 32" for p
proof
  fix k :: nat
  show "backoff_for p (of_nat k) \<le> wp_max p"
    if "k < (if unat (wp_factor p) = 0 then 1 else 2 ^ 32)"
    by (simp add: unat_backoff_for)
  assume k: "Suc k < (if unat (wp_factor p) = 0 then 1 else 2 ^ 32)"
  then have f: "1 \<le> unat (wp_factor p)" "Suc k < 2 ^ 32" by (auto split: if_splits)
  have u: "unat (of_nat k :: u32) = k" "unat (of_nat (Suc k) :: u32) = Suc k"
    using f(2) by (simp_all only: unsigned_of_nat of_nat_id) (simp_all add: take_bit_nat_eq_self)
  have "unat (wp_factor p) ^ k \<le> unat (wp_factor p) ^ Suc k" using f(1) by (intro power_increasing) auto
  then have "min (unat (wp_factor p) ^ k) (2 ^ 32 - 1) \<le> min (unat (wp_factor p) ^ Suc k) (2 ^ 32 - 1)"
    by (intro min.mono) simp_all
  then have "wp_base p * min (unat (wp_factor p) ^ k) (2 ^ 32 - 1)
      \<le> wp_base p * min (unat (wp_factor p) ^ Suc k) (2 ^ 32 - 1)"
    by (rule mult_le_mono2)
  then show "backoff_for p (of_nat k) \<le> backoff_for p (of_nat (Suc k))"
    unfolding unat_backoff_for u by (intro min.mono) simp_all
qed

text \<open>The arguments of the loop with a record in front of them: what was sent and answered, and how
  long was slept.\<close>

type_synonym 'w observed = "'w \<times> (webhook_envelope \<times> dispatch_result) list \<times> duration list"

definition obs_transport :: "('w \<Rightarrow> webhook_envelope \<Rightarrow> dispatch_result \<times> 'w)
    \<Rightarrow> 'w observed \<Rightarrow> webhook_envelope \<Rightarrow> dispatch_result \<times> 'w observed" where
  "obs_transport transport = (\<lambda>(w, es, ds) env. case transport w env of
     (r, w') \<Rightarrow> (r, (w', es @ [(env, r)], ds)))"

definition obs_clock :: "('w \<Rightarrow> int \<times> 'w) \<Rightarrow> 'w observed \<Rightarrow> int \<times> 'w observed" where
  "obs_clock clock = (\<lambda>(w, es, ds). case clock w of (t, w') \<Rightarrow> (t, (w', es, ds)))"

definition obs_sleeper :: "('w \<Rightarrow> duration \<Rightarrow> 'w) \<Rightarrow> 'w observed \<Rightarrow> duration \<Rightarrow> 'w observed" where
  "obs_sleeper sleeper = (\<lambda>(w, es, ds) d. (sleeper w d, es, ds @ [d]))"

fun outcome_attempts :: "delivery_outcome \<Rightarrow> u32" where
  "outcome_attempts (OutcomeDelivered a) = a"
| "outcome_attempts (PermanentFailure _ a) = a"
| "outcome_attempts (Exhausted a) = a"

fun outcome_of :: "u32 \<Rightarrow> dispatch_result \<Rightarrow> delivery_outcome" where
  "outcome_of a Success = OutcomeDelivered a"
| "outcome_of a (PermanentClientError s) = PermanentFailure s a"
| "outcome_of a TransientFailure = Exhausted a"

definition delivery_trace :: "hmac \<Rightarrow> u8 list \<Rightarrow> webhook_retry_policy \<Rightarrow> webhook_event \<Rightarrow> nat
    \<Rightarrow> delivery_outcome \<Rightarrow> (webhook_envelope \<times> dispatch_result) list \<Rightarrow> duration list \<Rightarrow> bool" where
  "delivery_trace hmac secret p event k out es ds \<longleftrightarrow>
     es \<noteq> [] \<and> k + length es \<le> max (k + 1) (unat (wp_max_attempts p))
     \<and> list_all (\<lambda>(e, _). \<exists>ts. e = webhook_sign hmac secret event ts) es
     \<and> list_all (\<lambda>(_, r). r = TransientFailure) (butlast es)
     \<and> ds = map (\<lambda>i. backoff_for p (of_nat i)) [k ..< k + length es - 1]
     \<and> unat (outcome_attempts out) = k + length es
     \<and> out = outcome_of (outcome_attempts out) (snd (last es))
     \<and> (case out of Exhausted _ \<Rightarrow> k + length es = max (k + 1) (unat (wp_max_attempts p)) | _ \<Rightarrow> True)"

lemma of_nat_unat_step: "unat (a :: u32) + 1 < 2 ^ 32 \<Longrightarrow> sat_add a 1 - 1 = a"
  by (simp add: sat_add_def)

lemma deliver_loop_trace:
  assumes "unat a0 + 1 < 2 ^ 32"
    and "deliver_loop hmac secret p event (obs_transport transport) (obs_clock clock) (obs_sleeper sleeper)
           a0 (w, es, ds) = (out, (w', es', ds'))"
  shows "\<exists>xs ys. es' = es @ xs \<and> ds' = ds @ ys \<and> delivery_trace hmac secret p event (unat a0) out xs ys"
  using assms
proof (induction "unat (wp_max_attempts p) - unat a0" arbitrary: a0 w es ds rule: less_induct)
  case less
  let ?a = "sat_add a0 1"
  have a: "unat ?a = unat a0 + 1" "?a - 1 = a0"
    using less.prems(1) by (simp_all add: unat_sat_add of_nat_unat_step)
  obtain now w1 where c: "clock w = (now, w1)" by (cases "clock w")
  let ?env = "webhook_sign hmac secret event now"
  obtain r w2 where t: "transport w1 ?env = (r, w2)" by (cases "transport w1 ?env")
  note step = less.prems(2) [unfolded deliver_loop.simps [of _ _ _ _ _ _ _ a0]]
  have now_done: ?case
    if "out = outcome_of ?a r" "es' = es @ [(?env, r)]" "ds' = ds"
      "case out of Exhausted _ \<Rightarrow> wp_max_attempts p \<le> ?a | _ \<Rightarrow> True"
    using that a
    by (intro exI [of _ "[(?env, r)]"] exI [of _ "[]"])
      (cases r; auto simp: delivery_trace_def word_le_nat_alt)
  show ?case
  proof (cases "r = TransientFailure \<and> \<not> wp_max_attempts p \<le> ?a")
    case False
    then show ?thesis
      using step c t by (intro now_done)
        (auto simp: obs_clock_def obs_transport_def Let_def split: dispatch_result.splits if_splits)
  next
    case True
    have lt: "unat (wp_max_attempts p) - unat ?a < unat (wp_max_attempts p) - unat a0"
      using True sat_add_lt_step [of a0 "wp_max_attempts p"] by (simp add: not_le)
    have "unat ?a + 1 < 2 ^ 32"
      using True unat_le_max [of "wp_max_attempts p"] by (simp add: word_le_nat_alt)
    moreover have "deliver_loop hmac secret p event (obs_transport transport) (obs_clock clock)
        (obs_sleeper sleeper) ?a
        (sleeper w2 (backoff_for p a0), es @ [(?env, r)], ds @ [backoff_for p a0]) = (out, w', es', ds')"
      using step c t True a(2)
      by (simp add: obs_clock_def obs_transport_def obs_sleeper_def Let_def)
    ultimately obtain xs ys where xs: "es' = (es @ [(?env, r)]) @ xs"
        "ds' = (ds @ [backoff_for p a0]) @ ys" "delivery_trace hmac secret p event (unat ?a) out xs ys"
      using less.hyps [OF lt] by blast
    have "[unat a0 ..< unat a0 + length xs] = unat a0 # [Suc (unat a0) ..< unat a0 + length xs]"
      using xs(3) by (intro upt_conv_Cons) (simp add: delivery_trace_def)
    then have "delivery_trace hmac secret p event (unat a0) out ((?env, r) # xs) (backoff_for p a0 # ys)"
      using xs(3) True a by (auto simp: delivery_trace_def word_le_nat_alt split: delivery_outcome.splits)
    with xs show ?thesis
      by (intro exI [of _ "(?env, r) # xs"] exI [of _ "backoff_for p a0 # ys"]) simp
  qed
qed

lemma backoff_for_le_max: "backoff_for p k \<le> wp_max p"
  by (simp add: unat_backoff_for)

lemma delivery_is_bounded_raw:
  "case webhook_deliver hmac secret p event (obs_transport transport) (obs_clock clock)
          (obs_sleeper sleeper) (w, [], []) of
     (out, (_, sent, slept)) \<Rightarrow>
       sent \<noteq> [] \<and> length sent \<le> max 1 (unat (wp_max_attempts p))
       \<and> unat (outcome_attempts out) = length sent
       \<and> list_all (\<lambda>(e, _). \<exists>ts. e = webhook_sign hmac secret event ts) sent
       \<and> list_all (\<lambda>(_, r). r = TransientFailure) (butlast sent)
       \<and> out = outcome_of (outcome_attempts out) (snd (last sent))
       \<and> (case out of Exhausted _ \<Rightarrow> length sent = max 1 (unat (wp_max_attempts p)) | _ \<Rightarrow> True)
       \<and> slept = map (\<lambda>i. backoff_for p (of_nat i)) [0 ..< length sent - 1]
       \<and> list_all (\<lambda>d. d \<le> wp_max p) slept"
proof -
  obtain out w' sent slept where r: "webhook_deliver hmac secret p event (obs_transport transport)
      (obs_clock clock) (obs_sleeper sleeper) (w, [], []) = (out, (w', sent, slept))"
    by (metis surj_pair)
  then have trace: "delivery_trace hmac secret p event 0 out sent slept"
    using deliver_loop_trace [of 0 hmac secret p event transport clock sleeper w "[]" "[]" out w' sent slept]
    by (simp add: webhook_deliver_def)
  note parts = trace [unfolded delivery_trace_def add_0_left]
  then have "list_all (\<lambda>d. d \<le> wp_max p) slept" by (auto simp: list_all_iff backoff_for_le_max)
  with parts show ?thesis unfolding r prod.case by blast
qed

text \<open>C26  Delivery ends, after at least one attempt and at most \<open>max_attempts\<close>, or one where the policy says zero: each
  attempt is freshly signed for the same event, every attempt but the last failed transiently, the
  outcome tells what the last one answered and how many there were, the budget is reported exhausted
  only when it is, and between the attempts the loop sleeps the schedule of the policy, no delay
  above its maximum.\<close>

theorem delivery_is_bounded:
  "case webhook_deliver hmac secret p event (obs_transport transport) (obs_clock clock)
          (obs_sleeper sleeper) (w, [], []) of
     (out, (_, sent, slept)) \<Rightarrow>
       sent \<noteq> [] \<and> length sent \<le> max 1 (unat (wp_max_attempts p))
       \<and> unat (outcome_attempts out) = length sent
       \<and> list_all (\<lambda>(e, _). \<exists>ts. e = webhook_sign hmac secret event ts) sent
       \<and> list_all (\<lambda>(_, r). r = TransientFailure) (butlast sent)
       \<and> out = outcome_of (outcome_attempts out) (snd (last sent))
       \<and> (case out of Exhausted _ \<Rightarrow> length sent = max 1 (unat (wp_max_attempts p)) | _ \<Rightarrow> True)
       \<and> slept = map (\<lambda>i. backoff_for p (of_nat i)) [0 ..< length sent - 1]
       \<and> list_all (\<lambda>d. d \<le> wp_max p) slept"
  by (rule delivery_is_bounded_raw)

text \<open>The schedule is the documented one, \<open>min (base * factor^k) max\<close>, and does not decrease,
  as long as the power fits 32 bits and the policy's maximum is a duration.\<close>

theorem backoff_schedule:
  assumes "unat (wp_factor p) ^ unat k < 2 ^ 32" and "wp_max p \<le> duration_max"
    and "1 \<le> unat (wp_factor p)" and "unat j \<le> unat k"
  shows "backoff_for p k = min (wp_base p * unat (wp_factor p) ^ unat k) (wp_max p)
    \<and> backoff_for p j \<le> backoff_for p k"
proof -
  have "unat k < 2 ^ 32" using unat_lt_pow [of k] by simp
  then have "backoff_for p (of_nat (unat j)) \<le> backoff_for p (of_nat (unat k))"
    using assms(3,4) by (intro hook.delay_mono) auto
  with assms show ?thesis by (auto simp: unat_backoff_for min_def)
qed

section \<open>Concrete runs\<close>

definition sample_event :: webhook_event where
  "sample_event = \<lparr>ev_event_id = ''evt-1'', ev_topic = ''t'', ev_tenant_id = ''tenant'',
     ev_payload = ''{}''\<rparr>"

definition zero_hmac :: hmac where
  "zero_hmac = (\<lambda>_ _. replicate 32 0)"

theorem sign_verify_roundtrip_witness:
  "webhook_verify zero_hmac [1] {} (we_headers (webhook_sign zero_hmac [1] sample_event 1700000000))
     (we_body (webhook_sign zero_hmac [1] sample_event 1700000000)) 1700000300
   = (Inr (), {''evt-1''})"
  using sign_verify_roundtrip [of zero_hmac "[1]" 1700000000 1700000300 sample_event "{}"]
  by (simp add: zero_hmac_def i64_range_def sample_event_def)

theorem event_id_not_authenticated_witness:
  "webhook_verify zero_hmac [1] {''evt-1''}
     ((we_headers (webhook_sign zero_hmac [1] sample_event 0))\<lparr>wh_event_id := ''evt-2''\<rparr>) ''{}'' 0
   = (Inr (), insert ''evt-2'' {''evt-1''})"
proof (rule event_id_not_authenticated [of _ _ "{}"])
  show "webhook_verify zero_hmac [1] {} (we_headers (webhook_sign zero_hmac [1] sample_event 0)) ''{}'' 0
      = (Inr (), {''evt-1''})"
    by code_simp
qed simp_all

theorem tampered_body_refused_witness:
  "webhook_verify (\<lambda>_ m. replicate 31 0 @ [of_nat (length m)]) [1] {}
     (we_headers (webhook_sign (\<lambda>_ m. replicate 31 0 @ [of_nat (length m)]) [1] sample_event 0)) ''{ }'' 0
   = (Inl SignatureMismatch, {})"
proof (rule tampered_body_refused [THEN iffD2])
  show "replicate 31 (0 :: u8) @ [of_nat (length (show_int 0 @ ''.'' @ ''{ }''))] \<noteq>
      replicate 31 0 @ [of_nat (length (show_int 0 @ ''.'' @ ev_payload sample_event))]"
    by code_simp
qed (simp_all add: i64_range_def)

theorem backoff_schedule_witness:
  "backoff_for stripe_default 3 = 8 * 10 ^ 9 \<and> backoff_for stripe_default 2 \<le> backoff_for stripe_default 3"
  using backoff_schedule [of stripe_default 3 2]
  by (simp add: stripe_default_def duration_max_def)

end
