(* ===== verification/Reconcile_Api.thy ===== *)
theory Reconcile_Api
  imports Interfaces
begin

text \<open>
  \<open>crates/reconcile/src/reconcile_api.rs\<close>: the handler behind \<open>POST /v1/reconcile\<close>, its input
  checks, and the in-memory outbox store.  The handler takes the store's \<open>buckets_for\<close> as an
  argument; \<open>usize\<close> counts are \<open>nat\<close>.
\<close>

record reconcile_entry =
  re_internal_id :: string
  re_fingerprint :: string

record reconcile_request =
  rq_tenant_id :: string
  rq_entries :: "reconcile_entry list"

record reconcile_response =
  rs_bead :: string
  rs_delivered :: "string list"
  rs_failed :: "string list"
  rs_pending :: "string list"
  rs_unknown :: "string list"

definition response_empty :: reconcile_response where
  "response_empty = \<lparr>rs_bead = ''invoices-t-075-reconciliation-api-0ne'', rs_delivered = [],
     rs_failed = [], rs_pending = [], rs_unknown = []\<rparr>"

datatype fingerprint_bucket = BDelivered | BFailed | BPending

datatype reconcile_api_error =
    BatchTooLarge nat nat
  | BadInternalId nat string
  | BadFingerprint nat string
  | Store string

definition validate_internal_id :: "nat \<Rightarrow> string \<Rightarrow> reconcile_api_error + unit" where
  "validate_internal_id idx iid =
     (if iid = [] then Inl (BadInternalId idx ''internal_id must not be empty'')
      else if 256 < length iid then
        Inl (BadInternalId idx (''internal_id exceeds 256-byte cap (got '' @ show_nat (length iid)
               @ '' bytes)''))
      else Inr ())"

definition validate_fingerprint :: "nat \<Rightarrow> string \<Rightarrow> reconcile_api_error + unit" where
  "validate_fingerprint idx fp =
     (if length fp \<noteq> 64 then
        Inl (BadFingerprint idx (''expected 64 hex chars (BLAKE3 digest), got ''
               @ show_nat (length fp)))
      else if \<not> list_all is_hex fp then
        Inl (BadFingerprint idx ''fingerprint contains non-hex characters'')
      else Inr ())"

text \<open>The loop that collects the distinct fingerprints, with its set of those seen.\<close>

fun distinct_fps :: "string set \<Rightarrow> reconcile_entry list \<Rightarrow> string list" where
  "distinct_fps seen [] = []"
| "distinct_fps seen (e # es) =
     (if re_fingerprint e \<in> seen then distinct_fps seen es
      else re_fingerprint e # distinct_fps (insert (re_fingerprint e) seen) es)"

fun push_bucket :: "fingerprint_bucket option \<Rightarrow> string \<Rightarrow> reconcile_response \<Rightarrow> reconcile_response" where
  "push_bucket (Some BDelivered) iid r = r\<lparr>rs_delivered := rs_delivered r @ [iid]\<rparr>"
| "push_bucket (Some BFailed) iid r = r\<lparr>rs_failed := rs_failed r @ [iid]\<rparr>"
| "push_bucket (Some BPending) iid r = r\<lparr>rs_pending := rs_pending r @ [iid]\<rparr>"
| "push_bucket None iid r = r\<lparr>rs_unknown := rs_unknown r @ [iid]\<rparr>"

text \<open>The loop that fills the response; \<open>look\<close> is the look-up in the map built from the store's
  answer, flattened.\<close>

fun fill_response :: "(string \<Rightarrow> fingerprint_bucket option) \<Rightarrow> string set \<Rightarrow> reconcile_entry list
    \<Rightarrow> reconcile_response \<Rightarrow> reconcile_response" where
  "fill_response look seen [] r = r"
| "fill_response look seen (e # es) r =
     (if re_internal_id e \<in> seen then fill_response look seen es r
      else fill_response look (insert (re_internal_id e) seen) es
             (push_bucket (look (re_fingerprint e)) (re_internal_id e) r))"

definition flatten_lookup ::
  "string list \<Rightarrow> fingerprint_bucket option list \<Rightarrow> string \<Rightarrow> fingerprint_bucket option" where
  "flatten_lookup fps buckets fp =
     (case map_of (rev (zip fps buckets)) fp of None \<Rightarrow> None | Some b \<Rightarrow> b)"

definition validate_entries :: "reconcile_entry list \<Rightarrow> reconcile_api_error + unit" where
  "validate_entries es =
     first_err (concat (map (\<lambda>(idx, e). [validate_internal_id idx (re_internal_id e),
                                          validate_fingerprint idx (re_fingerprint e)])
                          (enumerate 0 es)))"

definition handle_reconcile_request ::
  "(string \<Rightarrow> string list \<Rightarrow> reconcile_api_error + fingerprint_bucket option list)
     \<Rightarrow> reconcile_request \<Rightarrow> reconcile_api_error + reconcile_response" where
  "handle_reconcile_request buckets_for request =
     (let entries = rq_entries request
      in if 10000 < length entries then Inl (BatchTooLarge (length entries) 10000)
         else if entries = [] then Inr response_empty
         else rbind (validate_entries entries) (\<lambda>_.
           let fps = distinct_fps {} entries
           in rbind (buckets_for (rq_tenant_id request) fps) (\<lambda>buckets.
                if length buckets \<noteq> length fps then
                  Inl (Store (''store returned '' @ show_nat (length buckets)
                        @ '' bucket results for '' @ show_nat (length fps) @ '' fingerprints''))
                else Inr (fill_response (flatten_lookup fps buckets) {} entries response_empty))))"

section \<open>The in-memory store\<close>

type_synonym outbox_rows = "(string \<times> string \<times> fingerprint_bucket) list"

definition outbox_upsert :: "outbox_rows \<Rightarrow> string \<Rightarrow> string \<Rightarrow> fingerprint_bucket \<Rightarrow> outbox_rows" where
  "outbox_upsert rows tenant fp b =
     filter (\<lambda>(t, f, _). \<not> (t = tenant \<and> f = fp)) rows @ [(tenant, fp, b)]"

definition mem_row :: "outbox_rows \<Rightarrow> string \<Rightarrow> string \<Rightarrow> fingerprint_bucket option" where
  "mem_row rows tenant fp =
     map_option (\<lambda>(_, _, b). b) (find (\<lambda>(t, f, _). t = tenant \<and> f = fp) rows)"

definition mem_buckets_for ::
  "outbox_rows \<Rightarrow> string \<Rightarrow> string list \<Rightarrow> reconcile_api_error + fingerprint_bucket option list" where
  "mem_buckets_for rows tenant fps = Inr (map (mem_row rows tenant) fps)"

section \<open>The handler over any store that keeps the contract\<close>

definition entry_ok :: "reconcile_entry \<Rightarrow> bool" where
  "entry_ok e \<longleftrightarrow> re_internal_id e \<noteq> [] \<and> length (re_internal_id e) \<le> 256
     \<and> length (re_fingerprint e) = 64 \<and> list_all is_hex (re_fingerprint e)"

lemma validate_entries_iff: "validate_entries es = Inr u \<longleftrightarrow> list_all entry_ok es"
proof -
  have "validate_entries es = Inr u \<longleftrightarrow> (\<forall>(idx, e) \<in> set (enumerate 0 es).
      validate_internal_id idx (re_internal_id e) = Inr ()
      \<and> validate_fingerprint idx (re_fingerprint e) = Inr ())"
    by (auto simp: validate_entries_def first_err_ok_iff)
  also have "\<dots> \<longleftrightarrow> (\<forall>(idx, e) \<in> set (enumerate 0 es). entry_ok e)"
    by (auto simp: validate_internal_id_def validate_fingerprint_def entry_ok_def)
  also have "\<dots> \<longleftrightarrow> (\<forall>e \<in> snd ` set (enumerate 0 es). entry_ok e)" by auto
  also have "snd ` set (enumerate 0 es) = set es"
    by (metis map_snd_enumerate set_map)
  finally show ?thesis by (simp add: list_all_iff)
qed

lemma set_distinct_fps: "set (distinct_fps seen es) = re_fingerprint ` set es - seen"
  by (induction es arbitrary: seen) auto

lemma distinct_distinct_fps: "distinct (distinct_fps seen es)"
  by (induction es arbitrary: seen) (auto simp: set_distinct_fps)

text \<open>The entries that count: the first one of each internal id.\<close>

fun first_entries :: "string set \<Rightarrow> reconcile_entry list \<Rightarrow> reconcile_entry list" where
  "first_entries seen [] = []"
| "first_entries seen (e # es) =
     (if re_internal_id e \<in> seen then first_entries seen es
      else e # first_entries (insert (re_internal_id e) seen) es)"

definition ids_in :: "(string \<Rightarrow> fingerprint_bucket option) \<Rightarrow> fingerprint_bucket option
    \<Rightarrow> reconcile_entry list \<Rightarrow> string list" where
  "ids_in look b es =
     map re_internal_id (filter (\<lambda>e. look (re_fingerprint e) = b) (first_entries {} es))"

lemma fill_response_first:
  "fill_response look seen es r =
     fold (\<lambda>e. push_bucket (look (re_fingerprint e)) (re_internal_id e)) (first_entries seen es) r"
  by (induction es arbitrary: seen r) auto

lemma fold_push:
  fixes look es
  defines "ids \<equiv> (\<lambda>b. map re_internal_id (filter (\<lambda>e. look (re_fingerprint e) = b) es))"
  shows "fold (\<lambda>e. push_bucket (look (re_fingerprint e)) (re_internal_id e)) es r =
     \<lparr>rs_bead = rs_bead r, rs_delivered = rs_delivered r @ ids (Some BDelivered),
      rs_failed = rs_failed r @ ids (Some BFailed), rs_pending = rs_pending r @ ids (Some BPending),
      rs_unknown = rs_unknown r @ ids None\<rparr>"
  unfolding ids_def
proof (induction es arbitrary: r)
  case (Cons e es)
  show ?case
    by (cases "(look (re_fingerprint e), re_internal_id e, r)" rule: push_bucket.cases)
      (simp_all add: Cons)
qed simp

lemma fill_response_spec:
  "fill_response look {} es response_empty =
     response_empty\<lparr>rs_delivered := ids_in look (Some BDelivered) es,
       rs_failed := ids_in look (Some BFailed) es, rs_pending := ids_in look (Some BPending) es,
       rs_unknown := ids_in look None es\<rparr>"
  by (simp add: fill_response_first fold_push ids_in_def response_empty_def)

lemma first_entries_ids:
  "distinct (map re_internal_id (first_entries seen es))
   \<and> re_internal_id ` set (first_entries seen es) = re_internal_id ` set es - seen
   \<and> set (first_entries seen es) \<subseteq> set es"
  by (induction es arbitrary: seen) auto

locale outbox_store = row_lookup buckets_for row
  for buckets_for :: "'store \<Rightarrow> string \<Rightarrow> string list
      \<Rightarrow> reconcile_api_error + fingerprint_bucket option list"
    and row :: "'store \<Rightarrow> string \<Rightarrow> string \<Rightarrow> fingerprint_bucket option"
begin

lemma flatten_rows:
  assumes "fp \<in> set fps" "distinct fps"
  shows "flatten_lookup fps (map (row s t) fps) fp = row s t fp"
proof -
  let ?z = "zip fps (map (row s t) fps)"
  have "map fst ?z = fps" by simp
  with assms(2) have "distinct (map fst ?z)" "distinct (map fst (rev ?z))"
    by (simp_all only: rev_map [symmetric] distinct_rev)
  then have "map_of (rev ?z) = map_of ?z" by (simp only: map_of_inject_set set_rev)
  then show ?thesis using assms(1) by (simp add: flatten_lookup_def map_of_zip_map)
qed

lemma handled:
  "handle_reconcile_request (buckets_for s) \<lparr>rq_tenant_id = t, rq_entries = es\<rparr> = Inr r \<longleftrightarrow>
     length es \<le> 10000 \<and> list_all entry_ok es \<and> r = fill_response (row s t) {} es response_empty"
proof (cases "es = []")
  case True
  then show ?thesis by (auto simp: handle_reconcile_request_def)
next
  case False
  let ?fps = "distinct_fps {} es"
  have same: "fill_response (flatten_lookup ?fps (map (row s t) ?fps)) seen xs r0
      = fill_response (row s t) seen xs r0" if "set xs \<subseteq> set es" for seen xs r0
    using that
  proof (induction xs arbitrary: seen r0)
    case (Cons x xs)
    then have "re_fingerprint x \<in> set ?fps" by (auto simp: set_distinct_fps)
    with Cons show ?case by (simp add: flatten_rows distinct_distinct_fps)
  qed simp
  show ?thesis
    using False by (auto simp: handle_reconcile_request_def Let_def rbind_Inr_iff
        validate_entries_iff buckets_rows same)
qed

lemma bucket_of_id:
  assumes "handle_reconcile_request (buckets_for s) \<lparr>rq_tenant_id = t, rq_entries = es\<rparr> = Inr r"
  shows "rs_delivered r = ids_in (row s t) (Some BDelivered) es"
    "rs_failed r = ids_in (row s t) (Some BFailed) es"
    "rs_pending r = ids_in (row s t) (Some BPending) es"
    "rs_unknown r = ids_in (row s t) None es"
  using assms by (simp_all add: handled fill_response_spec)

end

interpretation mem: outbox_store mem_buckets_for mem_row
  by unfold_locales (simp add: mem_buckets_for_def)

section \<open>Properties\<close>

lemma ids_in_mem:
  "i \<in> set (ids_in look b es) \<longleftrightarrow>
     (\<exists>e \<in> set (first_entries {} es). re_internal_id e = i \<and> look (re_fingerprint e) = b)"
  by (auto simp: ids_in_def)

lemma first_entries_inj:
  "e \<in> set (first_entries {} es) \<Longrightarrow> e' \<in> set (first_entries {} es) \<Longrightarrow>
     re_internal_id e = re_internal_id e' \<Longrightarrow> e = e'"
  using first_entries_ids [of "{}" es] by (auto simp: distinct_map dest: inj_onD)

lemma ids_in_disjoint: "b \<noteq> c \<Longrightarrow> set (ids_in look b es) \<inter> set (ids_in look c es) = {}"
  using first_entries_inj by (fastforce simp: ids_in_mem)

lemma distinct_ids_in: "distinct (ids_in look b es)"
  using first_entries_ids [of "{}" es] by (simp add: ids_in_def distinct_map_filter)

lemma ids_in_cover:
  "(\<Union>b. set (ids_in look b es)) = re_internal_id ` set es"
proof -
  have "(\<Union>b. set (ids_in look b es)) = re_internal_id ` set (first_entries {} es)"
    unfolding ids_in_def by auto
  then show ?thesis using first_entries_ids [of "{}" es] by simp
qed

lemma UN_buckets: "(\<Union>b. f b) = f (Some BDelivered) \<union> f (Some BFailed) \<union> f (Some BPending) \<union> f None"
proof -
  have univ: "(UNIV :: fingerprint_bucket option set) = {Some BDelivered, Some BFailed, Some BPending, None}"
  proof (intro set_eqI iffI UNIV_I)
    fix x :: "fingerprint_bucket option"
    show "x \<in> {Some BDelivered, Some BFailed, Some BPending, None}"
    proof (cases x)
      case (Some y)
      then show ?thesis by (cases y) simp_all
    qed simp
  qed
  show ?thesis unfolding univ by auto
qed

text \<open>The response partitions the request: every internal id that was sent is in exactly one of
  the four lists, once, and no other id is.\<close>

theorem reconcile_partitions:
  assumes "handle_reconcile_request (mem_buckets_for rows) \<lparr>rq_tenant_id = tenant, rq_entries = es\<rparr> = Inr r"
  shows "distinct (rs_delivered r @ rs_failed r @ rs_pending r @ rs_unknown r)
    \<and> set (rs_delivered r @ rs_failed r @ rs_pending r @ rs_unknown r) = re_internal_id ` set es"
proof -
  note b = mem.bucket_of_id [OF assms]
  have "set (rs_delivered r @ rs_failed r @ rs_pending r @ rs_unknown r) = re_internal_id ` set es"
    using ids_in_cover [of "mem_row rows tenant" es] unfolding UN_buckets by (simp add: b Un_assoc)
  moreover have "distinct (rs_delivered r @ rs_failed r @ rs_pending r @ rs_unknown r)"
    using ids_in_disjoint [of _ _ "mem_row rows tenant" es]
    by (simp add: b distinct_ids_in Int_Un_distrib)
  ultimately show ?thesis by blast
qed

text \<open>The right bucket: an id is in a list exactly when the row of the tenant for the fingerprint of
  its first entry is in that bucket (unknown: when there is no row).\<close>

theorem reconcile_bucket_is_row:
  assumes "handle_reconcile_request (mem_buckets_for rows) \<lparr>rq_tenant_id = tenant, rq_entries = es\<rparr> = Inr r"
    and "es = before @ e # after" and "re_internal_id e \<notin> re_internal_id ` set before"
  shows "(re_internal_id e \<in> set (rs_delivered r) \<longleftrightarrow>
            mem_row rows tenant (re_fingerprint e) = Some BDelivered)
    \<and> (re_internal_id e \<in> set (rs_failed r) \<longleftrightarrow> mem_row rows tenant (re_fingerprint e) = Some BFailed)
    \<and> (re_internal_id e \<in> set (rs_pending r) \<longleftrightarrow> mem_row rows tenant (re_fingerprint e) = Some BPending)
    \<and> (re_internal_id e \<in> set (rs_unknown r) \<longleftrightarrow> mem_row rows tenant (re_fingerprint e) = None)"
proof -
  have "e \<in> set (first_entries seen (xs @ e # after))"
    if "re_internal_id e \<notin> re_internal_id ` set xs" "re_internal_id e \<notin> seen" for xs seen
    using that by (induction xs arbitrary: seen) auto
  from this [OF assms(3)] assms(2) have "e \<in> set (first_entries {} es)" by simp
  then have "re_internal_id e \<in> set (ids_in look b es) \<longleftrightarrow> look (re_fingerprint e) = b" for look b
    using first_entries_inj by (auto simp: ids_in_mem)
  then show ?thesis by (simp add: mem.bucket_of_id [OF assms(1)])
qed

lemma mem_row_upsert:
  "mem_row (outbox_upsert rows tenant fp b) t f = (if t = tenant \<and> f = fp then Some b else mem_row rows t f)"
proof -
  have *: "find (\<lambda>(t', f', _). t' = t \<and> f' = f) (filter (\<lambda>(t, f, _). \<not> (t = tenant \<and> f = fp)) rows
      @ [(tenant, fp, b)]) =
    (if t = tenant \<and> f = fp then Some (tenant, fp, b) else find (\<lambda>(t', f', _). t' = t \<and> f' = f) rows)"
    by (induction rows) auto
  then show ?thesis by (auto simp: mem_row_def outbox_upsert_def)
qed

text \<open>Tenant isolation: whatever rows are written for other tenants, the answer to a tenant's
  request does not change; and a tenant's own last write for a fingerprint is what it reads.\<close>

theorem reconcile_tenant_isolation:
  assumes "list_all (\<lambda>(t, _, _). t \<noteq> tenant) others"
  shows "handle_reconcile_request
           (mem_buckets_for (fold (\<lambda>(t, f, b) rows. outbox_upsert rows t f b) others rows))
           \<lparr>rq_tenant_id = tenant, rq_entries = es\<rparr>
       = handle_reconcile_request (mem_buckets_for rows) \<lparr>rq_tenant_id = tenant, rq_entries = es\<rparr>
    \<and> mem_row (outbox_upsert rows tenant fp b) tenant fp = Some b"
proof -
  have "mem_row (fold (\<lambda>(t, f, b) rows. outbox_upsert rows t f b) others rows) tenant f = mem_row rows tenant f"
    for f using assms by (induction others arbitrary: rows) (auto simp: mem_row_upsert)
  then have "mem_buckets_for (fold (\<lambda>(t, f, b) rows. outbox_upsert rows t f b) others rows) tenant
      = mem_buckets_for rows tenant" by (auto simp: mem_buckets_for_def)
  then show ?thesis by (simp add: handle_reconcile_request_def Let_def mem_row_upsert)
qed

text \<open>What is accepted: exactly a batch of at most 10000 entries whose ids have 1 to 256 bytes and
  whose fingerprints are 64 hexadecimal digits of either case.\<close>

theorem reconcile_accepts_iff:
  "is_ok (handle_reconcile_request (mem_buckets_for rows) \<lparr>rq_tenant_id = tenant, rq_entries = es\<rparr>) \<longleftrightarrow>
     length es \<le> 10000
     \<and> list_all (\<lambda>e. 1 \<le> length (re_internal_id e) \<and> length (re_internal_id e) \<le> 256
          \<and> length (re_fingerprint e) = 64 \<and> list_all is_hex (re_fingerprint e)) es"
  by (simp add: is_ok_iff mem.handled entry_ok_def [abs_def] Suc_le_eq)

text \<open>A store that answers with the wrong number of results is refused: no entry is paired with
  the bucket of another.\<close>

theorem reconcile_refuses_short_answers:
  assumes "buckets_for tenant (distinct_fps {} es) = Inr buckets"
    and "length buckets \<noteq> length (distinct_fps {} es)" and "es \<noteq> []"
  shows "\<not> is_ok (handle_reconcile_request buckets_for \<lparr>rq_tenant_id = tenant, rq_entries = es\<rparr>)"
  using assms by (cases "validate_entries es") (simp_all add: handle_reconcile_request_def Let_def)

definition sample_fp :: "u8 \<Rightarrow> string" where
  "sample_fp b = hex_lower (replicate 32 b)"

definition sample_rows :: outbox_rows where
  "sample_rows = outbox_upsert (outbox_upsert [] ''A'' (sample_fp 1) BDelivered) ''B'' (sample_fp 2) BFailed"

definition sample_entries :: "reconcile_entry list" where
  "sample_entries = [\<lparr>re_internal_id = ''i1'', re_fingerprint = sample_fp 1\<rparr>,
     \<lparr>re_internal_id = ''i2'', re_fingerprint = sample_fp 2\<rparr>,
     \<lparr>re_internal_id = ''i1'', re_fingerprint = sample_fp 2\<rparr>]"

lemma sample_response:
  "handle_reconcile_request (mem_buckets_for sample_rows) \<lparr>rq_tenant_id = ''A'', rq_entries = sample_entries\<rparr>
   = Inr (response_empty\<lparr>rs_delivered := [''i1''], rs_unknown := [''i2'']\<rparr>)"
  by code_simp

theorem reconcile_partitions_witness:
  "distinct ([''i1''] @ [] @ [] @ [''i2'']) \<and> set ([''i1''] @ [] @ [] @ [''i2'']) = re_internal_id ` set sample_entries"
  using reconcile_partitions [OF sample_response] by (simp add: response_empty_def)

theorem reconcile_bucket_is_row_witness:
  "mem_row sample_rows ''A'' (sample_fp 2) = None"
proof -
  have "sample_entries = [hd sample_entries] @ \<lparr>re_internal_id = ''i2'', re_fingerprint = sample_fp 2\<rparr>
      # [last sample_entries]" by (simp add: sample_entries_def)
  from reconcile_bucket_is_row [OF sample_response this] show ?thesis
    by (simp add: sample_entries_def)
qed

theorem reconcile_tenant_isolation_witness:
  "handle_reconcile_request (mem_buckets_for (outbox_upsert sample_rows ''B'' (sample_fp 1) BPending))
     \<lparr>rq_tenant_id = ''A'', rq_entries = sample_entries\<rparr>
   = handle_reconcile_request (mem_buckets_for sample_rows) \<lparr>rq_tenant_id = ''A'', rq_entries = sample_entries\<rparr>"
  using reconcile_tenant_isolation [of "''A''" "[(''B'', sample_fp 1, BPending)]"] by simp

theorem reconcile_refuses_short_answers_witness:
  "\<not> is_ok (handle_reconcile_request (\<lambda>_ _. Inr []) \<lparr>rq_tenant_id = ''A'', rq_entries = sample_entries\<rparr>)"
  by (rule reconcile_refuses_short_answers [of _ _ _ "[]"]) (simp_all add: sample_entries_def)

end
