(* ===== verification/Redact.thy ===== *)
theory Redact
  imports Gateway
begin

text \<open>
  \<open>crates/reconcile/src/redact.rs\<close>: the redactor that makes a copy of a document for a support
  bundle.  Each function threads the report (\<open>&mut RedactionReport\<close>) through and returns it.
\<close>

definition redacted_placeholder :: string where
  "redacted_placeholder = ''<REDACTED>''"

record redaction_report =
  fields_redacted :: "string list"

record ('d, 'j) redacted_bundle =
  bundle_document :: "('d, 'j) commercial_document"
  bundle_report :: redaction_report

definition push_field :: "string \<Rightarrow> redaction_report \<Rightarrow> redaction_report" where
  "push_field path report = report\<lparr>fields_redacted := fields_redacted report @ [path]\<rparr>"

text \<open>The closure \<open>|_| { report.push(path); PLACEHOLDER }\<close> on an optional field.\<close>

definition redact_opt :: "string \<Rightarrow> string option \<Rightarrow> redaction_report
    \<Rightarrow> string option \<times> redaction_report" where
  "redact_opt path x report =
     (case x of None \<Rightarrow> (None, report)
      | Some _ \<Rightarrow> (Some redacted_placeholder, push_field path report))"

definition role_path :: "string \<Rightarrow> string \<Rightarrow> string" where
  "role_path role rest = ''/'' @ role @ rest"

fun redact_tax_ids :: "string \<Rightarrow> nat \<Rightarrow> party_tax_id list \<Rightarrow> redaction_report
    \<Rightarrow> party_tax_id list \<times> redaction_report" where
  "redact_tax_ids role idx [] report = ([], report)"
| "redact_tax_ids role idx (t # ts) report =
     (let report1 = push_field (role_path role (''/tax_ids/'' @ show_nat idx @ ''/value'')) report;
          (ts', report2) = redact_tax_ids role (Suc idx) ts report1
      in (\<lparr>tax_scheme = tax_scheme t, tax_value = redacted_placeholder\<rparr> # ts', report2))"

fun redact_lines :: "string \<Rightarrow> nat \<Rightarrow> string list \<Rightarrow> redaction_report \<Rightarrow> string list \<times> redaction_report"
where
  "redact_lines role idx [] report = ([], report)"
| "redact_lines role idx (l # ls) report =
     (let report1 = push_field (role_path role (''/address/lines/'' @ show_nat idx)) report;
          (ls', report2) = redact_lines role (Suc idx) ls report1
      in (redacted_placeholder # ls', report2))"

definition redact_address :: "postal_address \<Rightarrow> string \<Rightarrow> redaction_report
    \<Rightarrow> postal_address \<times> redaction_report" where
  "redact_address a role report =
     (let (ls, report1) = redact_lines role 0 (addr_lines a) report;
          report2 = push_field (role_path role ''/address/city'') report1;
          report3 = push_field (role_path role ''/address/postal_code'') report2;
          (subdivision, report4) =
            redact_opt (role_path role ''/address/subdivision'') (addr_subdivision a) report3
      in (\<lparr>addr_lines = ls, addr_city = redacted_placeholder, addr_subdivision = subdivision,
           addr_postal_code = redacted_placeholder, addr_country = addr_country a\<rparr>, report4))"

definition redact_contact :: "contact \<Rightarrow> string \<Rightarrow> redaction_report \<Rightarrow> contact \<times> redaction_report"
where
  "redact_contact c role report =
     (let (name, report1) = redact_opt (role_path role ''/contact/name'') (contact_name c) report;
          (email, report2) = redact_opt (role_path role ''/contact/email'') (contact_email c) report1;
          (phone, report3) = redact_opt (role_path role ''/contact/phone'') (contact_phone c) report2
      in (\<lparr>contact_name = name, contact_email = email, contact_phone = phone\<rparr>, report3))"

definition redact_contact_opt :: "contact option \<Rightarrow> string \<Rightarrow> redaction_report
    \<Rightarrow> contact option \<times> redaction_report" where
  "redact_contact_opt x role report =
     (case x of None \<Rightarrow> (None, report)
      | Some c \<Rightarrow> let (c', report') = redact_contact c role report in (Some c', report'))"

definition redact_party :: "party \<Rightarrow> string \<Rightarrow> redaction_report \<Rightarrow> party \<times> redaction_report" where
  "redact_party p role report =
     (let (tax_ids, report1) = redact_tax_ids role 0 (party_tax_ids p) report;
          report2 = push_field (role_path role ''/name'') report1;
          (address, report3) = redact_address (party_address p) role report2;
          (c, report4) = redact_contact_opt (party_contact p) role report3
      in (\<lparr>party_id = party_id p, party_name = redacted_placeholder, party_tax_ids = tax_ids,
           party_address = address, party_contact = c\<rparr>, report4))"

definition redact_payment_instruction :: "payment_instruction \<Rightarrow> nat \<Rightarrow> redaction_report
    \<Rightarrow> payment_instruction \<times> redaction_report" where
  "redact_payment_instruction i idx report =
     (let (account, report1) = redact_opt
            (''/payment_instructions/'' @ show_nat idx @ ''/account'') (pi_account i) report;
          (reference, report2) = redact_opt
            (''/payment_instructions/'' @ show_nat idx @ ''/reference'') (pi_reference i) report1
      in (\<lparr>pi_kind = pi_kind i, pi_account = account, pi_reference = reference\<rparr>, report2))"

fun redact_instructions :: "nat \<Rightarrow> payment_instruction list \<Rightarrow> redaction_report
    \<Rightarrow> payment_instruction list \<times> redaction_report" where
  "redact_instructions idx [] report = ([], report)"
| "redact_instructions idx (i # is) report =
     (let (i', report1) = redact_payment_instruction i idx report;
          (is', report2) = redact_instructions (Suc idx) is report1
      in (i' # is', report2))"

definition redact_payee :: "party option \<Rightarrow> redaction_report \<Rightarrow> party option \<times> redaction_report" where
  "redact_payee x report =
     (case x of None \<Rightarrow> (None, report)
      | Some p \<Rightarrow> let (p', report') = redact_party p ''payee'' report in (Some p', report'))"

definition redact_for_support ::
  "('d, 'j) commercial_document \<Rightarrow> ir_error + ('d, 'j) redacted_bundle" where
  "redact_for_support d =
     (let report0 = \<lparr>fields_redacted = []\<rparr>;
          (supplier, report1) = redact_party (doc_supplier d) ''supplier'' report0;
          (customer, report2) = redact_party (doc_customer d) ''customer'' report1;
          (payee, report3) = redact_payee (doc_payee d) report2;
          (instructions, report4) = redact_instructions 0 (doc_payment_instructions d) report3
      in rbind (document_new (d\<lparr>doc_invoice_period := None, doc_delivery_date := None,
                  doc_supplier := supplier, doc_customer := customer, doc_payee := payee,
                  doc_payment_instructions := instructions, doc_allowance_charges := [],
                  doc_deliver_to := None\<rparr>))
           (\<lambda>redacted. Inr \<lparr>bundle_document = redacted, bundle_report = report4\<rparr>))"

section \<open>The personal data of a document\<close>

text \<open>
  The specification: which texts of a document are personal data, each with its path, in document
  order, and the document with each of them replaced by \<open>f path text\<close>.
\<close>

definition opt_leaf :: "string \<Rightarrow> string option \<Rightarrow> (string \<times> string) list" where
  "opt_leaf path x = (case x of None \<Rightarrow> [] | Some v \<Rightarrow> [(path, v)])"

fun indexed_leaves :: "(nat \<Rightarrow> string) \<Rightarrow> nat \<Rightarrow> string list \<Rightarrow> (string \<times> string) list" where
  "indexed_leaves path n [] = []"
| "indexed_leaves path n (x # xs) = (path n, x) # indexed_leaves path (Suc n) xs"

definition tax_path :: "string \<Rightarrow> nat \<Rightarrow> string" where
  "tax_path role n = role_path role (''/tax_ids/'' @ show_nat n @ ''/value'')"

definition line_path :: "string \<Rightarrow> nat \<Rightarrow> string" where
  "line_path role n = role_path role (''/address/lines/'' @ show_nat n)"

definition party_leaves :: "string \<Rightarrow> party \<Rightarrow> (string \<times> string) list" where
  "party_leaves role p =
     indexed_leaves (tax_path role) 0 (map tax_value (party_tax_ids p))
     @ [(role_path role ''/name'', party_name p)]
     @ indexed_leaves (line_path role) 0 (addr_lines (party_address p))
     @ [(role_path role ''/address/city'', addr_city (party_address p)),
        (role_path role ''/address/postal_code'', addr_postal_code (party_address p))]
     @ opt_leaf (role_path role ''/address/subdivision'') (addr_subdivision (party_address p))
     @ (case party_contact p of None \<Rightarrow> []
        | Some c \<Rightarrow> opt_leaf (role_path role ''/contact/name'') (contact_name c)
            @ opt_leaf (role_path role ''/contact/email'') (contact_email c)
            @ opt_leaf (role_path role ''/contact/phone'') (contact_phone c))"

definition account_path :: "nat \<Rightarrow> string" where
  "account_path n = ''/payment_instructions/'' @ show_nat n @ ''/account''"

definition reference_path :: "nat \<Rightarrow> string" where
  "reference_path n = ''/payment_instructions/'' @ show_nat n @ ''/reference''"

fun instruction_leaves :: "nat \<Rightarrow> payment_instruction list \<Rightarrow> (string \<times> string) list" where
  "instruction_leaves n [] = []"
| "instruction_leaves n (i # is) =
     opt_leaf (account_path n) (pi_account i) @ opt_leaf (reference_path n) (pi_reference i)
     @ instruction_leaves (Suc n) is"

definition document_leaves :: "('d, 'j) commercial_document \<Rightarrow> (string \<times> string) list" where
  "document_leaves d =
     party_leaves ''supplier'' (doc_supplier d) @ party_leaves ''customer'' (doc_customer d)
     @ (case doc_payee d of None \<Rightarrow> [] | Some p \<Rightarrow> party_leaves ''payee'' p)
     @ instruction_leaves 0 (doc_payment_instructions d)"

fun mask_indexed :: "(string \<Rightarrow> string \<Rightarrow> string) \<Rightarrow> (nat \<Rightarrow> string) \<Rightarrow> nat \<Rightarrow> string list \<Rightarrow> string list"
where
  "mask_indexed f path n [] = []"
| "mask_indexed f path n (x # xs) = f (path n) x # mask_indexed f path (Suc n) xs"

fun mask_tax_ids :: "(string \<Rightarrow> string \<Rightarrow> string) \<Rightarrow> string \<Rightarrow> nat \<Rightarrow> party_tax_id list
    \<Rightarrow> party_tax_id list" where
  "mask_tax_ids f role n [] = []"
| "mask_tax_ids f role n (t # ts) =
     \<lparr>tax_scheme = tax_scheme t, tax_value = f (tax_path role n) (tax_value t)\<rparr>
       # mask_tax_ids f role (Suc n) ts"

definition mask_contact :: "(string \<Rightarrow> string \<Rightarrow> string) \<Rightarrow> string \<Rightarrow> contact \<Rightarrow> contact" where
  "mask_contact f role c =
     \<lparr>contact_name = map_option (f (role_path role ''/contact/name'')) (contact_name c),
      contact_email = map_option (f (role_path role ''/contact/email'')) (contact_email c),
      contact_phone = map_option (f (role_path role ''/contact/phone'')) (contact_phone c)\<rparr>"

definition mask_address :: "(string \<Rightarrow> string \<Rightarrow> string) \<Rightarrow> string \<Rightarrow> postal_address \<Rightarrow> postal_address" where
  "mask_address f role a =
     \<lparr>addr_lines = mask_indexed f (line_path role) 0 (addr_lines a),
      addr_city = f (role_path role ''/address/city'') (addr_city a),
      addr_subdivision = map_option (f (role_path role ''/address/subdivision'')) (addr_subdivision a),
      addr_postal_code = f (role_path role ''/address/postal_code'') (addr_postal_code a),
      addr_country = addr_country a\<rparr>"

definition mask_party :: "(string \<Rightarrow> string \<Rightarrow> string) \<Rightarrow> string \<Rightarrow> party \<Rightarrow> party" where
  "mask_party f role p =
     \<lparr>party_id = party_id p, party_name = f (role_path role ''/name'') (party_name p),
      party_tax_ids = mask_tax_ids f role 0 (party_tax_ids p),
      party_address = mask_address f role (party_address p),
      party_contact = map_option (mask_contact f role) (party_contact p)\<rparr>"

fun mask_instructions :: "(string \<Rightarrow> string \<Rightarrow> string) \<Rightarrow> nat \<Rightarrow> payment_instruction list
    \<Rightarrow> payment_instruction list" where
  "mask_instructions f n [] = []"
| "mask_instructions f n (i # is) =
     \<lparr>pi_kind = pi_kind i, pi_account = map_option (f (account_path n)) (pi_account i),
      pi_reference = map_option (f (reference_path n)) (pi_reference i)\<rparr> # mask_instructions f (Suc n) is"

definition mask_document :: "(string \<Rightarrow> string \<Rightarrow> string) \<Rightarrow> ('d, 'j) commercial_document
    \<Rightarrow> ('d, 'j) commercial_document" where
  "mask_document f d =
     d\<lparr>doc_supplier := mask_party f ''supplier'' (doc_supplier d),
       doc_customer := mask_party f ''customer'' (doc_customer d),
       doc_payee := map_option (mask_party f ''payee'') (doc_payee d),
       doc_payment_instructions := mask_instructions f 0 (doc_payment_instructions d)\<rparr>"

definition hide :: "string \<Rightarrow> string \<Rightarrow> string" where
  "hide _ _ = redacted_placeholder"

lemma hide_fun: "hide p = (\<lambda>_. redacted_placeholder)"
  by (simp add: hide_def fun_eq_iff)

section \<open>The redactor meets its specification\<close>

definition report_paths :: "(string \<times> string) list \<Rightarrow> redaction_report \<Rightarrow> redaction_report" where
  "report_paths ls report = \<lparr>fields_redacted = fields_redacted report @ map fst ls\<rparr>"

lemma report_paths_simps [simp]:
  "report_paths [] r = r" "report_paths xs (report_paths ys r) = report_paths (ys @ xs) r"
  by (cases r; simp add: report_paths_def)+


lemma redact_opt_spec: "redact_opt p x r = (map_option (hide p) x, report_paths (opt_leaf p x) r)"
  by (cases x; cases r) (simp_all add: redact_opt_def opt_leaf_def hide_def report_paths_def push_field_def)

lemma redact_tax_ids_spec:
  "redact_tax_ids role n ts r =
     (mask_tax_ids hide role n ts,
      report_paths (indexed_leaves (tax_path role) n (map tax_value ts)) r)"
proof (induction ts arbitrary: n r)
  case (Cons t ts)
  then show ?case
    by (simp add: Let_def hide_def tax_path_def report_paths_def push_field_def)
qed simp

lemma redact_lines_spec:
  "redact_lines role n ls r =
     (mask_indexed hide (line_path role) n ls, report_paths (indexed_leaves (line_path role) n ls) r)"
proof (induction ls arbitrary: n r)
  case (Cons l ls)
  then show ?case
    by (simp add: Let_def hide_def line_path_def report_paths_def push_field_def)
qed simp

lemma redact_address_spec:
  "redact_address a role r =
     (mask_address hide role a,
      report_paths (indexed_leaves (line_path role) 0 (addr_lines a)
        @ [(role_path role ''/address/city'', addr_city a),
           (role_path role ''/address/postal_code'', addr_postal_code a)]
        @ opt_leaf (role_path role ''/address/subdivision'') (addr_subdivision a)) r)"
  by (simp add: redact_address_def redact_lines_spec redact_opt_spec mask_address_def Let_def
      hide_def report_paths_def push_field_def)

lemma redact_contact_spec:
  "redact_contact c role r =
     (mask_contact hide role c,
      report_paths (opt_leaf (role_path role ''/contact/name'') (contact_name c)
            @ opt_leaf (role_path role ''/contact/email'') (contact_email c)
            @ opt_leaf (role_path role ''/contact/phone'') (contact_phone c)) r)"
  by (simp add: redact_contact_def redact_opt_spec mask_contact_def)

lemma redact_party_spec:
  "redact_party p role r = (mask_party hide role p, report_paths (party_leaves role p) r)"
  by (cases "party_contact p")
    (simp_all add: redact_party_def redact_tax_ids_spec redact_address_spec redact_contact_opt_def
      redact_contact_spec mask_party_def party_leaves_def Let_def hide_def
      report_paths_def push_field_def)

lemma redact_instructions_spec:
  "redact_instructions n is r = (mask_instructions hide n is, report_paths (instruction_leaves n is) r)"
proof (induction "is" arbitrary: n r)
  case (Cons i "is")
  then show ?case
    by (simp add: redact_payment_instruction_def redact_opt_spec account_path_def reference_path_def)
qed simp

text \<open>What is dropped beside the masking.\<close>

definition drop_unreported :: "('d, 'j) commercial_document \<Rightarrow> ('d, 'j) commercial_document" where
  "drop_unreported d =
     d\<lparr>doc_invoice_period := None, doc_delivery_date := None, doc_allowance_charges := [],
       doc_deliver_to := None\<rparr>"

lemma redact_for_support_spec:
  "redact_for_support d =
     rbind (document_validate (mask_document hide (drop_unreported d)))
       (\<lambda>_. Inr \<lparr>bundle_document = mask_document hide (drop_unreported d),
                 bundle_report = \<lparr>fields_redacted = map fst (document_leaves d)\<rparr>\<rparr>)"
proof -
  have "d\<lparr>doc_invoice_period := None, doc_delivery_date := None,
      doc_supplier := mask_party hide ''supplier'' (doc_supplier d),
      doc_customer := mask_party hide ''customer'' (doc_customer d),
      doc_payee := map_option (mask_party hide ''payee'') (doc_payee d),
      doc_payment_instructions := mask_instructions hide 0 (doc_payment_instructions d),
      doc_allowance_charges := [], doc_deliver_to := None\<rparr> = mask_document hide (drop_unreported d)"
    by (cases d) (simp add: mask_document_def drop_unreported_def)
  moreover have "redact_payee (doc_payee d) r = (map_option (mask_party hide ''payee'') (doc_payee d),
      report_paths (case doc_payee d of None \<Rightarrow> [] | Some p \<Rightarrow> party_leaves ''payee'' p) r)" for r
    by (cases "doc_payee d") (simp_all add: redact_payee_def redact_party_spec)
  ultimately show ?thesis
    by (cases "document_validate (mask_document hide (drop_unreported d))")
      (simp_all add: redact_for_support_def redact_party_spec redact_instructions_spec Let_def
        document_new_def report_paths_def document_leaves_def)
qed

section \<open>Properties\<close>

lemma mask_indexed_hide: "mask_indexed hide path n (mask_indexed f path n xs) = mask_indexed hide path n xs"
  by (induction xs arbitrary: n) (auto simp: hide_fun)

lemma mask_tax_ids_hide: "mask_tax_ids hide role n (mask_tax_ids f role n ts) = mask_tax_ids hide role n ts"
  by (induction ts arbitrary: n) (auto simp: hide_fun)

lemma tax_leaves_mask:
  "indexed_leaves (tax_path role) n (map tax_value (mask_tax_ids f role n ts)) =
     map (\<lambda>(p, v). (p, f p v)) (indexed_leaves (tax_path role) n (map tax_value ts))"
  by (induction ts arbitrary: n) auto

lemma mask_party_hide: "mask_party hide role (mask_party f role p) = mask_party hide role p"
  by (cases "party_contact p"; cases "addr_subdivision (party_address p)")
    (simp_all add: mask_party_def mask_address_def mask_contact_def mask_tax_ids_hide
      mask_indexed_hide option.map_comp comp_def hide_fun)

lemma mask_instructions_hide:
  "mask_instructions hide n (mask_instructions f n is) = mask_instructions hide n is"
  by (induction "is" arbitrary: n) (auto simp: option.map_comp comp_def hide_fun)

lemma mask_document_hide: "mask_document hide (mask_document f d) = mask_document hide d"
  by (simp add: mask_document_def mask_party_hide mask_instructions_hide option.map_comp comp_def)

lemma opt_leaf_mask: "opt_leaf p (map_option (f p) x) = map (\<lambda>(p, v). (p, f p v)) (opt_leaf p x)"
  by (cases x) (simp_all add: opt_leaf_def)

lemma indexed_leaves_mask:
  "indexed_leaves path n (mask_indexed f path n xs) = map (\<lambda>(p, v). (p, f p v)) (indexed_leaves path n xs)"
  by (induction xs arbitrary: n) auto

lemma party_leaves_mask:
  "party_leaves role (mask_party f role p) = map (\<lambda>(p, v). (p, f p v)) (party_leaves role p)"
  by (cases "party_contact p")
    (simp_all add: party_leaves_def mask_party_def mask_address_def mask_contact_def tax_leaves_mask
      indexed_leaves_mask opt_leaf_mask)

lemma instruction_leaves_mask:
  "instruction_leaves n (mask_instructions f n is) = map (\<lambda>(p, v). (p, f p v)) (instruction_leaves n is)"
  by (induction "is" arbitrary: n) (auto simp: opt_leaf_mask)

lemma document_leaves_mask:
  "document_leaves (mask_document f d) = map (\<lambda>(p, v). (p, f p v)) (document_leaves d)"
  by (cases "doc_payee d")
    (simp_all add: document_leaves_def mask_document_def party_leaves_mask instruction_leaves_mask)

lemma drop_unreported_mask: "drop_unreported (mask_document f d) = mask_document f (drop_unreported d)"
  by (cases d) (simp add: drop_unreported_def mask_document_def)

lemma document_leaves_drop [simp]: "document_leaves (drop_unreported d) = document_leaves d"
  by (simp add: document_leaves_def drop_unreported_def)

text \<open>C21  Non-disclosure.  The result of the redactor, report and error included, does not depend on
  the personal data: documents that differ only in the values of those fields, however different,
  have the same bundle.\<close>

theorem redaction_discloses_nothing:
  "redact_for_support (mask_document f d) = redact_for_support (d :: ('d, 'j) commercial_document)"
proof -
  have "map fst (document_leaves (mask_document f d)) = map fst (document_leaves d)"
    by (simp add: document_leaves_mask comp_def split_def)
  then show ?thesis
    by (simp add: redact_for_support_spec drop_unreported_mask mask_document_hide)
qed

text \<open>C22  The report is complete and truthful: it lists, in document order, the paths of all personal
  data of the input, and those are the paths of the output, where each now holds the placeholder.\<close>

theorem redaction_report_exact:
  "case redact_for_support d of
     Inl _ \<Rightarrow> True
   | Inr b \<Rightarrow>
       fields_redacted (bundle_report b) = map fst (document_leaves d)
       \<and> document_leaves (bundle_document b) = map (\<lambda>(p, _). (p, redacted_placeholder)) (document_leaves d)"
  by (cases "document_validate (mask_document hide (drop_unreported d))")
    (simp_all add: redact_for_support_spec document_leaves_mask hide_def split_def)

lemma placeholder_not_blank: "\<not> blank redacted_placeholder"
  by code_simp

lemma mask_tax_ids_ok:
  "(\<forall>t \<in> set ts. \<not> blank (tax_scheme t)) \<Longrightarrow>
     \<forall>t \<in> set (mask_tax_ids hide role n ts). \<not> blank (tax_scheme t) \<and> \<not> blank (tax_value t)"
  by (induction ts arbitrary: n) (auto simp: hide_fun placeholder_not_blank)

lemma mask_indexed_ok: "\<forall>l \<in> set (mask_indexed hide path n ls). \<not> blank l"
  by (induction ls arbitrary: n) (auto simp: hide_fun placeholder_not_blank)

lemma mask_party_ok: "party_ok p \<Longrightarrow> party_ok (mask_party hide role p)"
  using mask_tax_ids_ok [of "party_tax_ids p" role 0] mask_indexed_ok
  by (simp add: party_ok_def mask_party_def address_ok_def mask_address_def hide_fun placeholder_not_blank)

lemma mask_document_ok: "document_ok d \<Longrightarrow> document_ok (mask_document hide (drop_unreported d))"
  by (cases "doc_payee d")
    (simp_all add: document_ok_def mask_document_def drop_unreported_def mask_party_ok opt_ok_def)

lemma drop_unreported_idem: "drop_unreported (drop_unreported d) = drop_unreported d"
  by (simp add: drop_unreported_def)

text \<open>Redaction of a valid document succeeds, gives a valid document, and is idempotent: redacting
  the copy again gives the same bundle.\<close>

theorem redaction_of_valid_document:
  assumes "document_validate d = Inr ()"
  shows "\<exists>b. redact_for_support d = Inr b \<and> document_validate (bundle_document b) = Inr ()
    \<and> redact_for_support (bundle_document b) = Inr b"
proof -
  let ?m = "mask_document hide (drop_unreported d)"
  have m: "document_validate ?m = Inr ()"
    using assms by (simp add: document_validates_iff mask_document_ok)
  then have b: "redact_for_support d =
      Inr \<lparr>bundle_document = ?m, bundle_report = \<lparr>fields_redacted = map fst (document_leaves d)\<rparr>\<rparr>"
    by (simp add: redact_for_support_spec)
  have "mask_document hide (drop_unreported ?m) = ?m"
    by (simp add: drop_unreported_mask drop_unreported_idem mask_document_hide)
  moreover have "map fst (document_leaves ?m) = map fst (document_leaves d)"
    by (simp add: document_leaves_mask comp_def split_def)
  ultimately have "redact_for_support ?m =
      Inr \<lparr>bundle_document = ?m, bundle_report = \<lparr>fields_redacted = map fst (document_leaves d)\<rparr>\<rparr>"
    using m by (simp add: redact_for_support_spec)
  with b m show ?thesis by simp
qed

text \<open>What else is lost.  Beside the masking, the redactor drops the invoice period, the delivery
  date, the document-level allowances and charges and the delivery party, and neither the copy nor
  the report shows that there were any: the bundle is the same whatever they were.\<close>

theorem redaction_drops_unreported:
  "redact_for_support (d\<lparr>doc_invoice_period := period, doc_delivery_date := delivered,
       doc_allowance_charges := charges, doc_deliver_to := recipient\<rparr>) = redact_for_support d
   \<and> (case redact_for_support d of
        Inl _ \<Rightarrow> True
      | Inr b \<Rightarrow> bundle_document b =
          (mask_document (\<lambda>_ _. redacted_placeholder) d)\<lparr>doc_invoice_period := None,
             doc_delivery_date := None, doc_allowance_charges := [], doc_deliver_to := None\<rparr>)"
proof -
  have "drop_unreported (d\<lparr>doc_invoice_period := period, doc_delivery_date := delivered,
      doc_allowance_charges := charges, doc_deliver_to := recipient\<rparr>) = drop_unreported d"
    by (cases d) (simp add: drop_unreported_def)
  moreover have "document_leaves (d\<lparr>doc_invoice_period := period, doc_delivery_date := delivered,
      doc_allowance_charges := charges, doc_deliver_to := recipient\<rparr>) = document_leaves d"
    by (simp add: document_leaves_def)
  moreover have "mask_document hide (drop_unreported d) =
      (mask_document (\<lambda>_ _. redacted_placeholder) d)\<lparr>doc_invoice_period := None,
         doc_delivery_date := None, doc_allowance_charges := [], doc_deliver_to := None\<rparr>"
    by (cases d) (simp add: mask_document_def drop_unreported_def hide_def [abs_def])
  ultimately show ?thesis
    by (cases "document_validate (mask_document hide (drop_unreported d))")
      (simp_all add: redact_for_support_spec)
qed

theorem redaction_of_valid_document_witness:
  "\<exists>b. redact_for_support sample_document = Inr b \<and> document_validate (bundle_document b) = Inr ()
    \<and> redact_for_support (bundle_document b) = Inr b"
  by (rule redaction_of_valid_document [OF sample_document_valid])

end
