(* ===== verification/Money.thy ===== *)
theory Money
  imports Complex_Main "HOL-Library.Product_Lexorder" Ir
begin

text \<open>
  \<open>crates/money/src/lib.rs\<close>: the currency-tagged amount, its checked arithmetic, and the allocation
  of an amount over ratios.  \<open>'d\<close> is \<open>rust_decimal::Decimal\<close>, whose operations are the fields of
  \<open>decimal_ops\<close>; what the code relies on about them is \<open>decimal_laws\<close>.  A \<open>u128\<close> is a \<open>nat\<close> with its
  bound written out.  The outer \<open>option\<close> of \<open>money_allocate\<close> is \<open>None\<close> where the code would panic
  (\<open>Decimal::from(u128)\<close> beyond 96 bits).
\<close>

section \<open>Decimals\<close>

datatype rounding = HalfUp | HalfEven | HalfDown

datatype rounding_strategy = MidpointAwayFromZero | MidpointNearestEven | MidpointTowardZero

fun strategy_from :: "rounding \<Rightarrow> rounding_strategy" where
  "strategy_from HalfUp = MidpointAwayFromZero"
| "strategy_from HalfEven = MidpointNearestEven"
| "strategy_from HalfDown = MidpointTowardZero"

record 'd decimal_ops =
  dop_zero :: 'd
  dop_one :: 'd
  dop_negative_one :: 'd
  dop_is_zero :: "'d \<Rightarrow> bool"
  dop_checked_add :: "'d \<Rightarrow> 'd \<Rightarrow> 'd option"
  dop_checked_sub :: "'d \<Rightarrow> 'd \<Rightarrow> 'd option"
  dop_checked_mul :: "'d \<Rightarrow> 'd \<Rightarrow> 'd option"
  dop_checked_div :: "'d \<Rightarrow> 'd \<Rightarrow> 'd option"
  dop_mul :: "'d \<Rightarrow> 'd \<Rightarrow> 'd"
  dop_round :: "'d \<Rightarrow> 'd"
  dop_round_dp :: "nat \<Rightarrow> rounding_strategy \<Rightarrow> 'd \<Rightarrow> 'd"
  dop_is_sign_negative :: "'d \<Rightarrow> bool"
  dop_abs :: "'d \<Rightarrow> 'd"
  dop_to_string :: "'d \<Rightarrow> string"
  dop_from_u64 :: "nat \<Rightarrow> 'd"
  dop_from_u128 :: "nat \<Rightarrow> 'd option"

section \<open>Money\<close>

datatype money_error =
    CurrencyMismatch string string
  | Overflow string
  | AllocateRequiresRatios
  | AllocateZeroSumRatios

record 'd money =
  mny_amount :: 'd
  mny_currency :: iso4217_code

definition money_new :: "'d \<Rightarrow> iso4217_code \<Rightarrow> 'd money" where
  "money_new amount currency = \<lparr>mny_amount = amount, mny_currency = currency\<rparr>"

definition currency_code :: "'d money \<Rightarrow> string" where
  "currency_code m = currency_str (mny_currency m)"

definition with_amount :: "'d money \<Rightarrow> 'd \<Rightarrow> 'd money" where
  "with_amount m amount = \<lparr>mny_amount = amount, mny_currency = mny_currency m\<rparr>"

definition zero_like :: "'d decimal_ops \<Rightarrow> 'd money \<Rightarrow> 'd money" where
  "zero_like ops m = with_amount m (dop_zero ops)"

definition money_is_zero :: "'d decimal_ops \<Rightarrow> 'd money \<Rightarrow> bool" where
  "money_is_zero ops m = dop_is_zero ops (mny_amount m)"

definition require_same_currency :: "'d money \<Rightarrow> 'd money \<Rightarrow> money_error + unit" where
  "require_same_currency m other =
     (if mny_currency m \<noteq> mny_currency other
      then Inl (CurrencyMismatch (currency_code m) (currency_code other)) else Inr ())"

definition ok_or :: "'a option \<Rightarrow> 'e \<Rightarrow> 'e + 'a" where
  "ok_or x e = (case x of None \<Rightarrow> Inl e | Some v \<Rightarrow> Inr v)"

definition money_add :: "'d decimal_ops \<Rightarrow> 'd money \<Rightarrow> 'd money \<Rightarrow> money_error + 'd money" where
  "money_add ops m other =
     rbind (require_same_currency m other) (\<lambda>_.
       rbind (ok_or (dop_checked_add ops (mny_amount m) (mny_amount other)) (Overflow ''add''))
         (\<lambda>a. Inr (with_amount m a)))"

definition money_sub :: "'d decimal_ops \<Rightarrow> 'd money \<Rightarrow> 'd money \<Rightarrow> money_error + 'd money" where
  "money_sub ops m other =
     rbind (require_same_currency m other) (\<lambda>_.
       rbind (ok_or (dop_checked_sub ops (mny_amount m) (mny_amount other)) (Overflow ''sub''))
         (\<lambda>a. Inr (with_amount m a)))"

definition mul_scalar :: "'d decimal_ops \<Rightarrow> 'd money \<Rightarrow> 'd \<Rightarrow> money_error + 'd money" where
  "mul_scalar ops m scalar =
     rbind (ok_or (dop_checked_mul ops (mny_amount m) scalar) (Overflow ''mul''))
       (\<lambda>a. Inr (with_amount m a))"

definition money_round :: "'d decimal_ops \<Rightarrow> 'd money \<Rightarrow> nat \<Rightarrow> rounding \<Rightarrow> 'd money" where
  "money_round ops m dp mode =
     with_amount m (dop_round_dp ops dp (strategy_from mode) (mny_amount m))"

section \<open>Allocation of minor units\<close>

definition u128_max :: nat where
  "u128_max = 2 ^ 128 - 1"

text \<open>The loop over the ratios: shares, remainders, and what is distributed so far.\<close>

fun alloc_loop :: "nat \<Rightarrow> nat \<Rightarrow> u64 list \<Rightarrow> nat list \<Rightarrow> nat list \<Rightarrow> nat
    \<Rightarrow> money_error + nat list \<times> nat list \<times> nat" where
  "alloc_loop tot s [] shares remainders distributed = Inr (shares, remainders, distributed)"
| "alloc_loop tot s (r # rs) shares remainders distributed =
     (let num = tot * unat r
      in if num > u128_max then Inl (Overflow ''allocate'')
         else let base = num div s; rm = num mod s
              in if distributed + base > u128_max then Inl (Overflow ''allocate'')
                 else alloc_loop tot s rs (shares @ [base]) (remainders @ [rm]) (distributed + base))"

text \<open>The indices by decreasing remainder, ties by increasing index.\<close>

definition alloc_order :: "nat list \<Rightarrow> nat list" where
  "alloc_order remainders = sort_key (\<lambda>i. (- int (remainders ! i), i)) [0 ..< length remainders]"

fun alloc_bump :: "nat list \<Rightarrow> nat list \<Rightarrow> money_error + nat list" where
  "alloc_bump [] shares = Inr shares"
| "alloc_bump (i # is) shares =
     (if shares ! i + 1 > u128_max then Inl (Overflow ''allocate'')
      else alloc_bump is (shares[i := shares ! i + 1]))"

definition allocate_minor :: "nat \<Rightarrow> u64 list \<Rightarrow> nat \<Rightarrow> money_error + nat list" where
  "allocate_minor tot ratios s =
     rbind (alloc_loop tot s ratios [] [] 0) (\<lambda>(shares, remainders, distributed).
       if tot < distributed then Inl (Overflow ''allocate'')
       else let leftover = tot - distributed; order = alloc_order remainders
            in if leftover \<ge> 2 ^ 64 then Inl (Overflow ''allocate'')
               else alloc_bump (take leftover order) shares)"

definition parse_u128 :: "string \<Rightarrow> nat option" where
  "parse_u128 s =
     Option.bind (case s of c # cs \<Rightarrow> if c = CHR ''+'' then parse_digits cs else parse_digits s
                  | [] \<Rightarrow> None)
       (\<lambda>n. if n \<le> u128_max then Some n else None)"

text \<open>The conversion of the shares back to money.\<close>

fun alloc_out :: "'d decimal_ops \<Rightarrow> 'd money \<Rightarrow> 'd \<Rightarrow> 'd \<Rightarrow> nat list
    \<Rightarrow> (money_error + 'd money list) option" where
  "alloc_out ops m sgn_d divisor [] = Some (Inr [])"
| "alloc_out ops m sgn_d divisor (share # shares) =
     (case dop_from_u128 ops share of
        None \<Rightarrow> None
      | Some amt_minor \<Rightarrow>
          (case dop_checked_div ops (dop_mul ops amt_minor sgn_d) divisor of
             None \<Rightarrow> Some (Inl (Overflow ''allocate''))
           | Some amount \<Rightarrow>
               map_option (\<lambda>r. rbind r (\<lambda>out. Inr (with_amount m amount # out)))
                 (alloc_out ops m sgn_d divisor shares)))"

definition money_allocate :: "'d decimal_ops \<Rightarrow> 'd money \<Rightarrow> u64 list \<Rightarrow> nat
    \<Rightarrow> (money_error + 'd money list) option" where
  "money_allocate ops m ratios dp =
     (if ratios = [] then Some (Inl AllocateRequiresRatios)
      else let s = (\<Sum>r \<leftarrow> ratios. unat r)
      in if s = 0 then Some (Inl AllocateZeroSumRatios)
      else if 10 ^ dp \<ge> (2 :: nat) ^ 64 then Some (Inl (Overflow ''allocate''))
      else let scale_factor = dop_from_u64 ops (10 ^ dp)
      in case dop_checked_mul ops (mny_amount m) scale_factor of
           None \<Rightarrow> Some (Inl (Overflow ''allocate''))
         | Some product \<Rightarrow>
             (let total_minor = dop_round ops product;
                  sgn_d = (if dop_is_sign_negative ops total_minor then dop_negative_one ops
                           else dop_one ops)
              in case parse_u128 (dop_to_string ops (dop_abs ops total_minor)) of
                   None \<Rightarrow> Some (Inl (Overflow ''allocate''))
                 | Some tot \<Rightarrow>
                     (case allocate_minor tot ratios s of
                        Inl e \<Rightarrow> Some (Inl e)
                      | Inr shares \<Rightarrow> alloc_out ops m sgn_d scale_factor shares)))"

section \<open>The shares\<close>

lemma alloc_loop_ok:
  "\<forall>r \<in> set rs. tot * unat r \<le> u128_max \<Longrightarrow>
   distributed + (\<Sum>r \<leftarrow> rs. tot * unat r div s) \<le> u128_max \<Longrightarrow>
   alloc_loop tot s rs shares remainders distributed =
     Inr (shares @ map (\<lambda>r. tot * unat r div s) rs, remainders @ map (\<lambda>r. tot * unat r mod s) rs,
          distributed + (\<Sum>r \<leftarrow> rs. tot * unat r div s))"
  by (induction rs arbitrary: shares remainders distributed) (auto simp: Let_def add.assoc)

lemma alloc_loop_fail:
  "\<exists>r \<in> set rs. tot * unat r > u128_max \<Longrightarrow>
   alloc_loop tot s rs shares remainders distributed = Inl (Overflow ''allocate'')"
  by (induction rs arbitrary: shares remainders distributed) (auto simp: Let_def)

lemma sum_list_div_mod:
  fixes s :: nat
  shows "(\<Sum>r \<leftarrow> rs. tot * unat r div s) * s + (\<Sum>r \<leftarrow> rs. tot * unat r mod s)
     = tot * (\<Sum>r \<leftarrow> rs. unat r)"
  by (induction rs) (simp_all add: algebra_simps)

lemma sum_list_bound_count:
  "\<forall>x \<in> set xs. x < (s::nat) \<Longrightarrow> sum_list xs \<le> length (filter (\<lambda>x. x \<noteq> 0) xs) * s"
  by (induction xs) auto

lemma sum_list_bound_count_strict:
  assumes "\<forall>x \<in> set xs. x < (s::nat)" "\<exists>x \<in> set xs. x \<noteq> 0"
  shows "sum_list xs < length (filter (\<lambda>x. x \<noteq> 0) xs) * s"
  using assms
proof (induction xs)
  case (Cons x xs)
  show ?case
  proof (cases "x = 0")
    case False
    with Cons.prems sum_list_bound_count [of xs s] show ?thesis by (auto simp: add_less_le_mono)
  qed (use Cons in auto)
qed simp

lemma alloc_bump_ok:
  "distinct is \<Longrightarrow> \<forall>i \<in> set is. i < length shares \<and> shares ! i < u128_max \<Longrightarrow>
   alloc_bump is shares =
     Inr (map (\<lambda>i. if i \<in> set is then shares ! i + 1 else shares ! i) [0 ..< length shares])"
proof (induction "is" arbitrary: shares)
  case Nil
  then show ?case by (simp add: map_nth)
next
  case (Cons i "is")
  then have "alloc_bump is (shares[i := shares ! i + 1]) =
      Inr (map (\<lambda>j. if j \<in> set is then shares[i := shares ! i + 1] ! j + 1 else shares[i := shares ! i + 1] ! j)
        [0 ..< length shares])"
    by (subst Cons.IH) (auto simp: nth_list_update)
  with Cons.prems show ?case by (auto simp: nth_list_update)
qed

lemma length_alloc_order [simp]: "length (alloc_order rems) = length rems"
  by (simp add: alloc_order_def)

lemma set_alloc_order [simp]: "set (alloc_order rems) = {..< length rems}"
  by (auto simp: alloc_order_def)

lemma distinct_alloc_order [simp]: "distinct (alloc_order rems)"
  by (simp add: alloc_order_def)

definition base_share :: "nat \<Rightarrow> u64 list \<Rightarrow> nat \<Rightarrow> nat" where
  "base_share tot ratios i = tot * unat (ratios ! i) div (\<Sum>r \<leftarrow> ratios. unat r)"

definition remainder_of :: "nat \<Rightarrow> u64 list \<Rightarrow> nat \<Rightarrow> nat" where
  "remainder_of tot ratios i = tot * unat (ratios ! i) mod (\<Sum>r \<leftarrow> ratios. unat r)"

lemma order_separates:
  assumes "i \<in> set (take l (alloc_order rems))" "j \<in> set (drop l (alloc_order rems))"
  shows "rems ! j < rems ! i \<or> (rems ! j = rems ! i \<and> i < j)"
proof -
  let ?key = "\<lambda>i. (- int (rems ! i), i)" and ?o = "alloc_order rems"
  have "sorted (map ?key ?o)" by (simp add: alloc_order_def)
  then have "sorted (map ?key (take l ?o @ drop l ?o))" by simp
  then have "sorted (map ?key (take l ?o) @ map ?key (drop l ?o))" by (simp only: map_append)
  then have "?key i \<le> ?key j" using assms by (auto simp: sorted_append)
  moreover have "i \<noteq> j" using assms set_take_disj_set_drop_if_distinct [of ?o l l] by auto
  ultimately show ?thesis by auto
qed

lemma card_nonzero_le:
  "length (filter (\<lambda>x. x \<noteq> 0) xs) = card {i. i < length xs \<and> xs ! i \<noteq> (0::nat)}"
  by (simp add: length_filter_conv_card)

text \<open>The leftover is less than the number of non-zero remainders, or there is none of either.\<close>

lemma leftover_bound:
  fixes rems :: "nat list"
  assumes "\<forall>x \<in> set rems. x < s" "l * s = sum_list rems" "0 < s"
  shows "l = 0 \<or> l < card {i. i < length rems \<and> rems ! i \<noteq> 0}"
proof (cases "\<exists>x \<in> set rems. x \<noteq> 0")
  case True
  then have "l * s < card {i. i < length rems \<and> rems ! i \<noteq> 0} * s"
    using sum_list_bound_count_strict [OF assms(1)] unfolding card_nonzero_le assms(2) by blast
  then show ?thesis using assms(3) by simp
next
  case False
  then have "sum_list rems = 0" by simp
  with assms show ?thesis by simp
qed

lemma take_order_nonzero:
  assumes "l < card {i. i < length rems \<and> rems ! i \<noteq> 0}" "i \<in> set (take l (alloc_order rems))"
  shows "rems ! i \<noteq> 0"
proof -
  let ?o = "alloc_order rems" and ?N = "{i. i < length rems \<and> rems ! i \<noteq> 0}"
  have "card (set (take l ?o)) \<le> l" using card_length [of "take l ?o"] by simp
  then have "\<not> ?N \<subseteq> set (take l ?o)"
    using assms(1) card_mono [of "set (take l ?o)" ?N] by auto
  then obtain j where j: "j \<in> ?N" "j \<notin> set (take l ?o)" by blast
  then have "j \<in> set ?o" by simp
  then have "j \<in> set (drop l ?o)" using j(2) by (metis Un_iff append_take_drop_id set_append)
  from order_separates [OF assms(2) this] j(1) show ?thesis by auto
qed

lemma sum_list_of_bool:
  "T \<subseteq> {..< n} \<Longrightarrow> (\<Sum>i \<leftarrow> [0 ..< n]. f i + (if i \<in> T then 1 else 0)) = (\<Sum>i \<leftarrow> [0 ..< n]. f i) + card T"
  for f :: "nat \<Rightarrow> nat"
proof -
  assume T: "T \<subseteq> {..< n}"
  then have "{i. i < n \<and> i \<in> T} = T" by auto
  moreover have "(\<Sum>i \<leftarrow> [0 ..< n]. if i \<in> T then 1 else 0 :: nat) = card {i. i < n \<and> i \<in> T}"
    by (simp add: interv_sum_list_conv_sum_set_nat sum.If_cases Int_def atLeast0LessThan)
  ultimately show ?thesis by (simp add: sum_list_addf)
qed

lemma allocate_minor_result:
  assumes s: "0 < (\<Sum>r \<leftarrow> ratios. unat r)" and len: "length ratios < 2 ^ 64"
    and fits: "\<forall>r \<in> set ratios. tot * unat r \<le> u128_max"
  obtains T where "T \<subseteq> {..< length ratios}"
    "allocate_minor tot ratios (\<Sum>r \<leftarrow> ratios. unat r) =
       Inr (map (\<lambda>i. base_share tot ratios i + (if i \<in> T then 1 else 0)) [0 ..< length ratios])"
    "(\<Sum>i \<leftarrow> [0 ..< length ratios]. base_share tot ratios i + (if i \<in> T then 1 else 0)) = tot"
    "\<forall>i \<in> T. remainder_of tot ratios i \<noteq> 0"
    "\<forall>i \<in> T. \<forall>j < length ratios. j \<notin> T \<longrightarrow> remainder_of tot ratios j < remainder_of tot ratios i
       \<or> (remainder_of tot ratios j = remainder_of tot ratios i \<and> i < j)"
proof -
  let ?s = "\<Sum>r \<leftarrow> ratios. unat r" and ?n = "length ratios"
  let ?B = "map (\<lambda>r. tot * unat r div ?s) ratios" and ?R = "map (\<lambda>r. tot * unat r mod ?s) ratios"
  have B: "?B = map (base_share tot ratios) [0 ..< ?n]"
    and R: "?R = map (remainder_of tot ratios) [0 ..< ?n]"
    by (rule nth_equalityI; simp add: base_share_def remainder_of_def)+
  obtain r where r: "r \<in> set ratios" "unat r \<noteq> 0"
    using s by (metis (mono_tags, lifting) less_irrefl sum_list_eq_0_iff imageE list.set_map)
  then have "tot \<le> tot * unat r" by simp
  then have tot: "tot \<le> u128_max" using fits r(1) by (meson order_trans)
  have dm: "sum_list ?B * ?s + sum_list ?R = tot * ?s" using sum_list_div_mod [of tot ?s ratios] by simp
  then have "sum_list ?B * ?s \<le> tot * ?s" by linarith
  then have D: "sum_list ?B \<le> tot" using s by simp
  define l where "l = tot - sum_list ?B"
  have l: "l * ?s = sum_list ?R" using dm D by (simp add: l_def diff_mult_distrib)
  have Rlt: "\<forall>x \<in> set ?R. x < ?s" using s by auto
  have bound: "l = 0 \<or> l < card {i. i < ?n \<and> ?R ! i \<noteq> 0}"
    using leftover_bound [OF Rlt l s] by simp
  have "card {i. i < ?n \<and> ?R ! i \<noteq> 0} \<le> ?n"
    using card_mono [of "{..< ?n}" "{i. i < ?n \<and> ?R ! i \<noteq> 0}"] by auto
  then have ln: "l \<le> ?n" using bound by linarith
  let ?T = "set (take l (alloc_order ?R))"
  have T: "?T \<subseteq> {..< ?n}" using set_take_subset [of l "alloc_order ?R"] by auto
  have nz: "remainder_of tot ratios i \<noteq> 0" if "i \<in> ?T" for i
  proof -
    have "l \<noteq> 0" using that by (cases "l = 0") auto
    then have "?R ! i \<noteq> 0" using take_order_nonzero [of l ?R i] bound that by simp
    then show ?thesis using T that by (auto simp: remainder_of_def)
  qed
  have cardT: "card ?T = l" using ln by (simp add: distinct_card)
  have sep: "remainder_of tot ratios j < remainder_of tot ratios i
       \<or> (remainder_of tot ratios j = remainder_of tot ratios i \<and> i < j)"
    if "i \<in> ?T" "j < ?n" "j \<notin> ?T" for i j
  proof -
    have "j \<in> set (drop l (alloc_order ?R))"
      using that by (metis Un_iff append_take_drop_id length_map lessThan_iff set_alloc_order set_append)
    from order_separates [OF that(1) this] show ?thesis
      using T that by (auto simp: remainder_of_def)
  qed
  have small: "?B ! i < u128_max" if "i \<in> ?T" for i
  proof -
    have i: "i < ?n" using T that by auto
    have "base_share tot ratios i * ?s + remainder_of tot ratios i = tot * unat (ratios ! i)"
      by (simp add: base_share_def remainder_of_def)
    moreover have "unat (ratios ! i) \<le> ?s" using i by (simp add: member_le_sum_list)
    then have "tot * unat (ratios ! i) \<le> tot * ?s" by simp
    ultimately have "base_share tot ratios i * ?s < tot * ?s" using nz [OF that] by linarith
    then have "base_share tot ratios i < tot" by simp
    with tot i show ?thesis by (simp add: B)
  qed
  have "alloc_loop tot ?s ratios [] [] 0 = Inr (?B, ?R, sum_list ?B)"
    using fits D tot by (subst alloc_loop_ok) auto
  moreover have "alloc_bump (take l (alloc_order ?R)) ?B =
      Inr (map (\<lambda>i. if i \<in> ?T then ?B ! i + 1 else ?B ! i) [0 ..< ?n])"
    using T small by (subst alloc_bump_ok) auto
  moreover have "map (\<lambda>i. if i \<in> ?T then ?B ! i + 1 else ?B ! i) [0 ..< ?n] =
      map (\<lambda>i. base_share tot ratios i + (if i \<in> ?T then 1 else 0)) [0 ..< ?n]"
    by (simp add: base_share_def)
  moreover have "l < 2 ^ 64" using ln len by linarith
  ultimately have res: "allocate_minor tot ratios ?s =
      Inr (map (\<lambda>i. base_share tot ratios i + (if i \<in> ?T then 1 else 0)) [0 ..< ?n])"
    using D by (simp add: allocate_minor_def Let_def l_def not_less)
  have "(\<Sum>i \<leftarrow> [0 ..< ?n]. base_share tot ratios i + (if i \<in> ?T then 1 else 0)) = sum_list ?B + l"
    using sum_list_of_bool [OF T, of "base_share tot ratios"] cardT by (simp add: B)
  also have "\<dots> = tot" using D by (simp add: l_def)
  finally show ?thesis using that [OF T res] nz sep by blast
qed

section \<open>Properties of the allocation\<close>

lemma allocate_minor_ok_iff:
  assumes "0 < (\<Sum>r \<leftarrow> ratios. unat r)" "length ratios < 2 ^ 64"
  shows "is_ok (allocate_minor tot ratios (\<Sum>r \<leftarrow> ratios. unat r))
     \<longleftrightarrow> (\<forall>r \<in> set ratios. tot * unat r \<le> u128_max)"
proof (cases "\<forall>r \<in> set ratios. tot * unat r \<le> u128_max")
  case True
  from allocate_minor_result [OF assms True] True show ?thesis by (metis is_ok_simps(1))
next
  case False
  then show ?thesis by (subst allocate_minor_def) (auto simp: alloc_loop_fail not_le)
qed

lemma alloc_loop_error: "alloc_loop tot s rs shs rems d = Inl e \<Longrightarrow> e = Overflow ''allocate''"
  by (induction rs arbitrary: shs rems d) (auto simp: Let_def split: if_splits)

lemma alloc_bump_error: "alloc_bump is shs = Inl e \<Longrightarrow> e = Overflow ''allocate''"
  by (induction "is" arbitrary: shs) (auto split: if_splits)

lemma allocate_minor_error: "allocate_minor tot ratios s = Inl e \<Longrightarrow> e = Overflow ''allocate''"
  by (auto simp: allocate_minor_def rbind_Inl_iff Let_def dest: alloc_loop_error alloc_bump_error
      split: if_splits)

text \<open>Allocation of minor units loses nothing: unless a product exceeds 128 bits there is one
  share per ratio, the shares sum to the total, each is the exact quotient rounded down or one more,
  and a zero ratio gets nothing.\<close>

theorem allocate_minor_exact:
  assumes "0 < (\<Sum>r \<leftarrow> ratios. unat r)" and "length ratios < 2 ^ 64"
  shows "case allocate_minor tot ratios (\<Sum>r \<leftarrow> ratios. unat r) of
      Inl _ \<Rightarrow> \<exists>r \<in> set ratios. u128_max < tot * unat r
    | Inr shares \<Rightarrow> length shares = length ratios \<and> sum_list shares = tot
        \<and> (\<forall>i < length ratios.
             (shares ! i = tot * unat (ratios ! i) div (\<Sum>r \<leftarrow> ratios. unat r)
              \<or> shares ! i = tot * unat (ratios ! i) div (\<Sum>r \<leftarrow> ratios. unat r) + 1)
             \<and> (unat (ratios ! i) = 0 \<longrightarrow> shares ! i = 0))"
proof (cases "\<forall>r \<in> set ratios. tot * unat r \<le> u128_max")
  case True
  obtain T where T: "T \<subseteq> {..< length ratios}"
    "allocate_minor tot ratios (\<Sum>r \<leftarrow> ratios. unat r) =
       Inr (map (\<lambda>i. base_share tot ratios i + (if i \<in> T then 1 else 0)) [0 ..< length ratios])"
    "(\<Sum>i \<leftarrow> [0 ..< length ratios]. base_share tot ratios i + (if i \<in> T then 1 else 0)) = tot"
    "\<forall>i \<in> T. remainder_of tot ratios i \<noteq> 0"
    by (rule allocate_minor_result [OF assms True])
  have "i \<notin> T" if "unat (ratios ! i) = 0" for i using T(4) that by (auto simp: remainder_of_def)
  with T(2,3) show ?thesis by (auto simp: base_share_def)
next
  case False
  then obtain e where "allocate_minor tot ratios (\<Sum>r \<leftarrow> ratios. unat r) = Inl e"
    using allocate_minor_ok_iff [OF assms, of tot] by (metis is_ok_iff sum.exhaust)
  with False show ?thesis by (auto simp: not_le)
qed

text \<open>Allocation is fair: a larger ratio never gets a smaller share; of two shares the extra unit
  goes to the larger remainder, and of two equal ratios to the one listed first.\<close>

theorem allocate_minor_fair:
  assumes "0 < (\<Sum>r \<leftarrow> ratios. unat r)" and "length ratios < 2 ^ 64"
    and "allocate_minor tot ratios (\<Sum>r \<leftarrow> ratios. unat r) = Inr shares"
    and "i < length ratios" and "j < length ratios"
  shows "(unat (ratios ! i) < unat (ratios ! j) \<longrightarrow> shares ! i \<le> shares ! j)
    \<and> (ratios ! i = ratios ! j \<and> i \<le> j \<longrightarrow> shares ! j \<le> shares ! i \<and> shares ! i \<le> shares ! j + 1)
    \<and> (base_share tot ratios i < shares ! i \<and> shares ! j = base_share tot ratios j
         \<longrightarrow> remainder_of tot ratios j \<le> remainder_of tot ratios i)"
proof -
  let ?s = "\<Sum>r \<leftarrow> ratios. unat r"
  have fits: "\<forall>r \<in> set ratios. tot * unat r \<le> u128_max"
    using allocate_minor_ok_iff [OF assms(1,2), of tot] assms(3) by simp
  obtain T where T: "allocate_minor tot ratios ?s =
       Inr (map (\<lambda>i. base_share tot ratios i + (if i \<in> T then 1 else 0)) [0 ..< length ratios])"
    and nz: "\<forall>i \<in> T. remainder_of tot ratios i \<noteq> 0"
    and sep: "\<forall>i \<in> T. \<forall>j < length ratios. j \<notin> T \<longrightarrow> remainder_of tot ratios j < remainder_of tot ratios i
       \<or> (remainder_of tot ratios j = remainder_of tot ratios i \<and> i < j)"
    by (rule allocate_minor_result [OF assms(1,2) fits])
  have sh: "shares ! k = base_share tot ratios k + (if k \<in> T then 1 else 0)" if "k < length ratios" for k
  proof -
    have "shares = map (\<lambda>i. base_share tot ratios i + (if i \<in> T then 1 else 0)) [0 ..< length ratios]"
      using assms(3) T by simp
    then show ?thesis using that by simp
  qed
  have split: "base_share tot ratios k * ?s + remainder_of tot ratios k = tot * unat (ratios ! k)" for k
    by (simp add: base_share_def remainder_of_def)
  have "shares ! i \<le> shares ! j" if less: "unat (ratios ! i) < unat (ratios ! j)"
  proof (cases "base_share tot ratios i < base_share tot ratios j")
    case True
    then show ?thesis using sh [OF assms(4)] sh [OF assms(5)] by simp
  next
    case False
    moreover have "base_share tot ratios i \<le> base_share tot ratios j"
      using less unfolding base_share_def by (intro div_le_mono mult_le_mono2) simp
    ultimately have eq: "base_share tot ratios i = base_share tot ratios j" by simp
    have "j \<in> T" if i: "i \<in> T"
    proof (rule ccontr)
      assume "j \<notin> T"
      then have "remainder_of tot ratios j \<le> remainder_of tot ratios i"
        using sep i assms(5) by (auto dest!: bspec spec)
      then have "tot * unat (ratios ! j) \<le> tot * unat (ratios ! i)"
        unfolding split [symmetric] eq by simp
      with less have "tot = 0" by auto
      then show False using nz i by (auto simp: remainder_of_def)
    qed
    with eq show ?thesis using sh [OF assms(4)] sh [OF assms(5)] by simp
  qed
  moreover have "shares ! j \<le> shares ! i \<and> shares ! i \<le> shares ! j + 1"
    if "ratios ! i = ratios ! j" "i \<le> j"
  proof -
    have eq: "base_share tot ratios i = base_share tot ratios j"
      "remainder_of tot ratios i = remainder_of tot ratios j"
      using that(1) by (simp_all add: base_share_def remainder_of_def)
    have "i \<in> T" if "j \<in> T"
    proof (rule ccontr)
      assume "i \<notin> T"
      then have "remainder_of tot ratios i < remainder_of tot ratios j
          \<or> (remainder_of tot ratios i = remainder_of tot ratios j \<and> j < i)"
        using sep \<open>j \<in> T\<close> assms(4) by blast
      with eq(2) \<open>i \<le> j\<close> show False by simp
    qed
    with eq show ?thesis using sh [OF assms(4)] sh [OF assms(5)] by auto
  qed
  moreover have "remainder_of tot ratios j \<le> remainder_of tot ratios i"
    if "base_share tot ratios i < shares ! i" "shares ! j = base_share tot ratios j"
    using that sh [OF assms(4)] sh [OF assms(5)] sep assms(5) by (auto split: if_splits dest!: bspec spec)
  ultimately show ?thesis by blast
qed

section \<open>Allocation of amounts\<close>

text \<open>
  What the code relies on of \<open>rust_decimal\<close>, \<open>v\<close> being the number a decimal denotes: integers below
  96 bits convert exactly and print in decimal, \<open>round\<close> gives a nearest integer, the sign test and
  the multiplications by one and minus one are right, and an integer divided by a power of ten is
  exact.
\<close>

definition decimal_laws :: "'d decimal_ops \<Rightarrow> ('d \<Rightarrow> rat) \<Rightarrow> bool" where
  "decimal_laws ops v \<longleftrightarrow>
     (\<forall>n < 2 ^ 96. \<exists>d. dop_from_u128 ops n = Some d \<and> v d = of_nat n)
   \<and> (\<forall>x. \<bar>v x\<bar> \<le> 2 ^ 96 - 1 \<longrightarrow> \<bar>v (dop_round ops x) - v x\<bar> \<le> 1 / 2 \<and>
        (\<exists>n < 2 ^ 96. \<bar>v (dop_round ops x)\<bar> = of_nat n
           \<and> dop_to_string ops (dop_abs ops (dop_round ops x)) = show_nat n))
   \<and> (\<forall>x. if dop_is_sign_negative ops x then v x \<le> 0 else 0 \<le> v x)
   \<and> (\<forall>x. v (dop_mul ops x (dop_one ops)) = v x \<and> v (dop_mul ops x (dop_negative_one ops)) = - v x)
   \<and> (\<forall>x n k. n < 2 ^ 96 \<and> \<bar>v x\<bar> = of_nat n \<and> (10 :: nat) ^ k < 2 ^ 64 \<longrightarrow>
        (\<exists>q. dop_checked_div ops x (dop_from_u64 ops (10 ^ k)) = Some q \<and> v q = v x / 10 ^ k))"

lemma alloc_out_ok:
  assumes laws: "decimal_laws ops v" and k: "(10 :: nat) ^ k < 2 ^ 64"
    and neg: "sgn_d = (if neg then dop_negative_one ops else dop_one ops)"
    and "\<forall>x \<in> set shares. x < 2 ^ 96"
  shows "\<exists>parts. alloc_out ops m sgn_d (dop_from_u64 ops (10 ^ k)) shares = Some (Inr parts)
     \<and> list_all (\<lambda>p. mny_currency p = mny_currency m) parts
     \<and> map (v \<circ> mny_amount) parts = map (\<lambda>n. (if neg then - of_nat n else of_nat n) / 10 ^ k) shares"
  using assms(4)
proof (induction shares)
  case (Cons n shares)
  then obtain d where d: "dop_from_u128 ops n = Some d" "v d = of_nat n"
    using laws unfolding decimal_laws_def by (meson list.set_intros(1))
  have sd: "v (dop_mul ops d sgn_d) = (if neg then - of_nat n else of_nat n)"
    using laws d(2) neg unfolding decimal_laws_def by simp
  then have "\<bar>v (dop_mul ops d sgn_d)\<bar> = of_nat n" by simp
  moreover have "n < 2 ^ 96" using Cons.prems by simp
  ultimately obtain q where "dop_checked_div ops (dop_mul ops d sgn_d) (dop_from_u64 ops (10 ^ k)) = Some q"
    "v q = v (dop_mul ops d sgn_d) / 10 ^ k"
    using laws k unfolding decimal_laws_def by blast
  with d sd Cons show ?case by (auto simp: with_amount_def)
qed simp

lemma parse_u128_show: "n \<le> u128_max \<Longrightarrow> parse_u128 (show_nat n) = Some n"
proof -
  assume n: "n \<le> u128_max"
  obtain c cs where c: "show_nat n = c # cs" by (cases "show_nat n") auto
  then have "c \<noteq> CHR ''+''" using show_nat_digits [of n] is_digit_not [of c] by simp
  with n c show ?thesis using parse_digits_show_nat [of n] by (simp add: parse_u128_def)
qed

lemma money_allocate_parts:
  assumes laws: "decimal_laws ops v" and len: "length ratios < 2 ^ 64"
    and mul: "dop_checked_mul ops (mny_amount m) (dop_from_u64 ops (10 ^ dp)) = Some p"
    and range: "\<bar>v p\<bar> \<le> 2 ^ 96 - 1"
  shows "case money_allocate ops m ratios dp of
      None \<Rightarrow> False
    | Some (Inl e) \<Rightarrow> e \<in> {AllocateRequiresRatios, AllocateZeroSumRatios, Overflow ''allocate''}
    | Some (Inr parts) \<Rightarrow> length parts = length ratios
        \<and> list_all (\<lambda>x. mny_currency x = mny_currency m) parts
        \<and> (\<Sum>x \<leftarrow> parts. v (mny_amount x)) = v (dop_round ops p) / 10 ^ dp"
proof -
  let ?s = "\<Sum>r \<leftarrow> ratios. unat r" and ?t = "dop_round ops p"
  let ?neg = "dop_is_sign_negative ops ?t"
  obtain n where n: "n < 2 ^ 96" "\<bar>v ?t\<bar> = of_nat n" "dop_to_string ops (dop_abs ops ?t) = show_nat n"
    using laws range unfolding decimal_laws_def by blast
  have "n \<le> u128_max" using n(1) by (simp add: u128_max_def)
  then have parse: "parse_u128 (dop_to_string ops (dop_abs ops ?t)) = Some n"
    using n(3) parse_u128_show by simp
  have neg: "v ?t = (if ?neg then - of_nat n else of_nat n)"
  proof -
    have "if ?neg then v ?t \<le> 0 else 0 \<le> v ?t" using laws unfolding decimal_laws_def by blast
    then show ?thesis using n(2) by (simp split: if_splits)
  qed
  show ?thesis
  proof (cases "ratios \<noteq> [] \<and> 0 < ?s \<and> (10 :: nat) ^ dp < 2 ^ 64")
    case False
    then show ?thesis by (auto simp: money_allocate_def Let_def)
  next
    case ok: True
    show ?thesis
    proof (cases "allocate_minor n ratios ?s")
      case (Inl e)
      then have "e = Overflow ''allocate''"
        using allocate_minor_error [of n ratios ?s e] by simp
      with ok mul parse Inl show ?thesis by (simp add: money_allocate_def Let_def)
    next
      case (Inr shares)
      have fits: "\<forall>r \<in> set ratios. n * unat r \<le> u128_max"
        using allocate_minor_ok_iff [of ratios n] ok len Inr by simp
      obtain T where T: "allocate_minor n ratios ?s =
         Inr (map (\<lambda>i. base_share n ratios i + (if i \<in> T then 1 else 0)) [0 ..< length ratios])"
        "(\<Sum>i \<leftarrow> [0 ..< length ratios]. base_share n ratios i + (if i \<in> T then 1 else 0)) = n"
        by (rule allocate_minor_result [OF conjunct1 [OF conjunct2 [OF ok]] len fits])
      with Inr have sh: "sum_list shares = n" "length shares = length ratios" by auto
      then have "\<forall>x \<in> set shares. x < 2 ^ 96" using n(1) member_le_sum_list le_less_trans by blast
      from alloc_out_ok [OF laws conjunct2 [OF conjunct2 [OF ok]] refl this, of m ?neg]
      obtain parts where parts: "alloc_out ops m (if ?neg then dop_negative_one ops else dop_one ops)
            (dop_from_u64 ops (10 ^ dp)) shares = Some (Inr parts)"
        "list_all (\<lambda>p. mny_currency p = mny_currency m) parts"
        "map (v \<circ> mny_amount) parts = map (\<lambda>n. (if ?neg then - of_nat n else of_nat n) / 10 ^ dp) shares"
        by blast
      have "(\<Sum>x \<leftarrow> shares. (if ?neg then - of_nat x else of_nat x) / 10 ^ dp :: rat) =
          (if ?neg then - of_nat (sum_list shares) else of_nat (sum_list shares)) / 10 ^ dp"
        by (induction shares) (simp_all add: add_divide_distrib diff_divide_distrib)
      then have "(\<Sum>x \<leftarrow> parts. v (mny_amount x)) = v ?t / 10 ^ dp"
        using parts(3) neg sh(1) by (simp add: comp_def)
      moreover have "length parts = length ratios"
        using parts(3) sh(2) by (metis length_map)
      ultimately show ?thesis
        using ok mul parse Inr parts(1,2) by (simp add: money_allocate_def Let_def)
    qed
  qed
qed

text \<open>Allocation of an amount.  With the documented decimal operations the code never panics and
  never divides wrongly: an allocation that succeeds has one part per ratio, all in the currency of
  the amount, and the parts sum to the amount rounded to \<open>dp\<close> places, so to the amount itself
  exactly when that is a whole number of minor units.\<close>

theorem money_allocate_sums:
  assumes "decimal_laws ops v" and "length ratios < 2 ^ 64"
    and "dop_checked_mul ops (mny_amount m) (dop_from_u64 ops (10 ^ dp)) = Some p"
    and "v p = v (mny_amount m) * 10 ^ dp" and "\<bar>v p\<bar> \<le> 2 ^ 96 - 1"
  shows "case money_allocate ops m ratios dp of
      None \<Rightarrow> False
    | Some (Inl e) \<Rightarrow> e \<in> {AllocateRequiresRatios, AllocateZeroSumRatios, Overflow ''allocate''}
    | Some (Inr parts) \<Rightarrow> length parts = length ratios
        \<and> list_all (\<lambda>x. mny_currency x = mny_currency m) parts
        \<and> \<bar>(\<Sum>x \<leftarrow> parts. v (mny_amount x)) - v (mny_amount m)\<bar> \<le> 1 / 2 / 10 ^ dp
        \<and> ((\<Sum>x \<leftarrow> parts. v (mny_amount x)) = v (mny_amount m)
             \<longleftrightarrow> v (mny_amount m) * 10 ^ dp \<in> \<int>)"
proof -
  let ?t = "v (dop_round ops p)" and ?a = "v (mny_amount m)"
  have near: "\<bar>?t - v p\<bar> \<le> 1 / 2" and int: "\<exists>n. \<bar>?t\<bar> = of_nat n"
    using assms(1,5) unfolding decimal_laws_def by blast+
  have t: "?t \<in> \<int>"
  proof -
    obtain n where "\<bar>?t\<bar> = of_nat n" using int by blast
    then have "?t = of_nat n \<or> ?t = - of_nat n" by linarith
    then show ?thesis by auto
  qed
  have diff: "?t / 10 ^ dp - ?a = (?t - v p) / 10 ^ dp"
    using assms(4) by (simp add: field_simps)
  have "\<bar>?t / 10 ^ dp - ?a\<bar> = \<bar>?t - v p\<bar> / 10 ^ dp" unfolding diff by (simp add: abs_divide)
  then have bound: "\<bar>?t / 10 ^ dp - ?a\<bar> \<le> 1 / 2 / 10 ^ dp"
    using near by (simp only: divide_right_mono zero_le_power zero_le_numeral)
  have "?t = v p" if vp: "v p \<in> \<int>"
  proof -
    obtain i j where "?t = of_int i" "v p = of_int j" using t vp by (meson Ints_cases)
    with near have "\<bar>of_int (i - j) :: rat\<bar> \<le> 1 / 2" by simp
    then have "\<bar>i - j\<bar> < 1" by linarith
    with \<open>?t = of_int i\<close> \<open>v p = of_int j\<close> show ?thesis by simp
  qed
  then have exact: "?t / 10 ^ dp = ?a \<longleftrightarrow> ?a * 10 ^ dp \<in> \<int>"
    using t assms(4) by (auto simp: field_simps)
  from money_allocate_parts [OF assms(1,2,3,5)] show ?thesis
    using bound exact by (auto split: option.splits sum.splits)
qed

text \<open>Amounts of different currencies never mix: addition and subtraction fail with the two codes
  unless the currencies agree, and every operation that succeeds keeps the currency of its first
  operand.\<close>

theorem money_keeps_currency:
  "(case money_add ops m other of
      Inr r \<Rightarrow> mny_currency r = mny_currency m \<and> mny_currency other = mny_currency m
    | Inl e \<Rightarrow> (e = CurrencyMismatch (currency_code m) (currency_code other)
                 \<longleftrightarrow> mny_currency m \<noteq> mny_currency other))
   \<and> (case money_sub ops m other of
      Inr r \<Rightarrow> mny_currency r = mny_currency m \<and> mny_currency other = mny_currency m
    | Inl e \<Rightarrow> (e = CurrencyMismatch (currency_code m) (currency_code other)
                 \<longleftrightarrow> mny_currency m \<noteq> mny_currency other))
   \<and> (case mul_scalar ops m x of Inr r \<Rightarrow> mny_currency r = mny_currency m | Inl e \<Rightarrow> e = Overflow ''mul'')
   \<and> mny_currency (money_round ops m dp mode) = mny_currency m
   \<and> mny_currency (zero_like ops m) = mny_currency m"
  by (auto simp: money_add_def money_sub_def mul_scalar_def money_round_def zero_like_def
      with_amount_def require_same_currency_def ok_or_def split: option.splits)

section \<open>A concrete decimal\<close>

text \<open>Mantissa and scale, without the 96-bit limit on products.\<close>

definition pair_value :: "int \<times> nat \<Rightarrow> rat" where
  "pair_value x = of_int (fst x) / 10 ^ snd x"

definition pair_ops :: "(int \<times> nat) decimal_ops" where
  "pair_ops =
     \<lparr>dop_zero = (0, 0), dop_one = (1, 0), dop_negative_one = (- 1, 0),
      dop_is_zero = (\<lambda>x. fst x = 0),
      dop_checked_add = (\<lambda>x y. Some (fst x * 10 ^ snd y + fst y * 10 ^ snd x, snd x + snd y)),
      dop_checked_sub = (\<lambda>x y. Some (fst x * 10 ^ snd y - fst y * 10 ^ snd x, snd x + snd y)),
      dop_checked_mul = (\<lambda>x y. Some (fst x * fst y, snd x + snd y)),
      dop_checked_div = (\<lambda>x y. map_option (\<lambda>k. (fst x, snd x + k))
        (List.find (\<lambda>k. 10 ^ k = fst y) [0 ..< 20])),
      dop_mul = (\<lambda>x y. (fst x * fst y, snd x + snd y)),
      dop_round = (\<lambda>x. ((2 * fst x + 10 ^ snd x) div (2 * 10 ^ snd x), 0)),
      dop_round_dp = (\<lambda>dp _ x. if snd x \<le> dp then x
        else ((2 * fst x + 10 ^ (snd x - dp)) div (2 * 10 ^ (snd x - dp)), dp)),
      dop_is_sign_negative = (\<lambda>x. fst x < 0),
      dop_abs = (\<lambda>x. (\<bar>fst x\<bar>, snd x)),
      dop_to_string = (\<lambda>x. show_int (fst x)),
      dop_from_u64 = (\<lambda>n. (int n, 0)),
      dop_from_u128 = (\<lambda>n. if n < 2 ^ 96 then Some (int n, 0) else None)\<rparr>"

lemma nearest_div:
  fixes m t :: int
  assumes "0 < t"
  shows "\<bar>of_int ((2 * m + t) div (2 * t)) - of_int m / of_int t :: rat\<bar> \<le> 1 / 2"
proof -
  let ?q = "(2 * m + t) div (2 * t)"
  have "0 \<le> (2 * m + t) mod (2 * t)" "(2 * m + t) mod (2 * t) < 2 * t" using assms by simp_all
  moreover have "(2 * m + t) = 2 * t * ?q + (2 * m + t) mod (2 * t)" by simp
  ultimately have "2 * t * ?q - 2 * m \<le> t" "- t \<le> 2 * t * ?q - 2 * m" by linarith+
  then have "\<bar>2 * t * ?q - 2 * m\<bar> \<le> t" by linarith
  then have "\<bar>of_int (2 * t * ?q - 2 * m) :: rat\<bar> \<le> of_int t"
    by (simp only: of_int_abs [symmetric] of_int_le_iff)
  then have "\<bar>of_int (2 * t * ?q - 2 * m) :: rat\<bar> / (2 * of_int t) \<le> 1 / 2"
    using assms by (simp add: divide_le_eq)
  moreover have "of_int ?q - of_int m / of_int t = (of_int (2 * t * ?q - 2 * m) :: rat) / (2 * of_int t)"
    using assms by (simp add: field_simps)
  ultimately show ?thesis using assms by (simp add: abs_divide)
qed

lemma find_power_ten: "(10 :: nat) ^ k < 2 ^ 64 \<Longrightarrow> List.find (\<lambda>j. 10 ^ j = (10 :: int) ^ k) [0 ..< 20] = Some k"
proof -
  assume k: "(10 :: nat) ^ k < 2 ^ 64"
  have "k < 20"
  proof (rule ccontr)
    assume "\<not> k < 20"
    then have "(10 :: nat) ^ 20 \<le> 10 ^ k" by (intro power_increasing) simp_all
    with k show False by simp
  qed
  moreover have "[0 ..< 20] ! j = j" if "j < 20" for j using nth_upt [of 0 j 20] that by simp
  ultimately show ?thesis unfolding find_Some_iff by (intro exI [of _ k]) simp
qed

lemma pair_laws: "decimal_laws pair_ops pair_value"
proof -
  have near: "\<bar>pair_value (dop_round pair_ops x) - pair_value x\<bar> \<le> 1 / 2" for x
    using nearest_div [of "10 ^ snd x" "fst x"] by (simp add: pair_ops_def pair_value_def)
  have int: "\<exists>n < 2 ^ 96. \<bar>pair_value (dop_round pair_ops x)\<bar> = of_nat n
      \<and> dop_to_string pair_ops (dop_abs pair_ops (dop_round pair_ops x)) = show_nat n"
    if r: "\<bar>pair_value x\<bar> \<le> 2 ^ 96 - 1" for x
  proof -
    obtain i where i: "dop_round pair_ops x = (i, 0)" by (simp add: pair_ops_def)
    then have v: "pair_value (dop_round pair_ops x) = of_int i" by (simp add: pair_value_def)
    have "\<bar>of_int i :: rat\<bar> \<le> 2 ^ 96 - 1 + 1 / 2" using near [of x] r unfolding v by linarith
    then have "(of_int \<bar>i\<bar> :: rat) < of_int (2 ^ 96)" by simp
    then have "\<bar>i\<bar> < 2 ^ 96" by (simp only: of_int_less_iff)
    then have "nat \<bar>i\<bar> < 2 ^ 96" by simp
    moreover have "dop_to_string pair_ops (dop_abs pair_ops (i, 0)) = show_nat (nat \<bar>i\<bar>)"
      by (simp add: pair_ops_def show_int_def)
    ultimately show ?thesis unfolding v by (intro exI [of _ "nat \<bar>i\<bar>"]) (simp add: i)
  qed
  have div: "\<exists>q. dop_checked_div pair_ops x (dop_from_u64 pair_ops (10 ^ k)) = Some q
      \<and> pair_value q = pair_value x / 10 ^ k" if "(10 :: nat) ^ k < 2 ^ 64" for x k
    using find_power_ten [OF that] by (simp add: pair_ops_def pair_value_def power_add)
  show ?thesis
    unfolding decimal_laws_def using near int div
    by (auto simp: pair_ops_def pair_value_def divide_nonpos_pos)
qed

lemmas allocation_evals = allocate_minor_def alloc_order_def u128_max_def Let_def upt_rec sort_key_def

definition sample_money :: "(int \<times> nat) money" where
  "sample_money = money_new (1005, 3) (Iso4217Code ''EUR'')"

lemma allocate_minor_101: "allocate_minor 101 [1, 1, 1] 3 = Inr [34, 34, 33]"
  by (simp add: allocation_evals)

theorem allocate_minor_exact_witness:
  "length [34, 34, 33 :: nat] = length [1, 1, 1 :: u64] \<and> sum_list [34, 34, 33 :: nat] = 101"
  using allocate_minor_exact [of "[1, 1, 1]" 101] by (simp add: allocate_minor_101)

theorem allocate_minor_fair_witness: "[34, 34, 33 :: nat] ! 2 \<le> [34, 34, 33] ! 0"
  using allocate_minor_fair [of "[1, 1, 1]" 101 "[34, 34, 33]" 0 2] by (simp add: allocate_minor_101)

lemma pair_sel:
  "dop_one pair_ops = (1, 0)" "dop_negative_one pair_ops = (- 1, 0)"
  "dop_checked_mul pair_ops x y = Some (fst x * fst y, snd x + snd y)"
  "dop_checked_div pair_ops x y =
     map_option (\<lambda>k. (fst x, snd x + k)) (List.find (\<lambda>k. 10 ^ k = fst y) [0 ..< 20])"
  "dop_mul pair_ops x y = (fst x * fst y, snd x + snd y)"
  "dop_round pair_ops x = ((2 * fst x + 10 ^ snd x) div (2 * 10 ^ snd x), 0)"
  "dop_is_sign_negative pair_ops x \<longleftrightarrow> fst x < 0" "dop_abs pair_ops x = (\<bar>fst x\<bar>, snd x)"
  "dop_to_string pair_ops x = show_int (fst x)" "dop_from_u64 pair_ops n = (int n, 0)"
  "dop_from_u128 pair_ops n = (if n < 2 ^ 96 then Some (int n, 0) else None)"
  by (simp_all add: pair_ops_def)

text \<open>1.005 at two places: the parts sum to a whole number of cents, so not to the amount.\<close>

theorem money_allocate_sums_witness:
  "(\<Sum>x \<leftarrow> map (with_amount sample_money) [(34, 2), (34, 2), (33, 2)]. pair_value (mny_amount x))
     \<noteq> pair_value (mny_amount sample_money)"
proof -
  have "parse_u128 (show_int 101) = Some 101"
    using parse_u128_show [of 101] by (simp add: show_int_def u128_max_def)
  moreover have "List.find (\<lambda>k. 10 ^ k = (100 :: int)) [0 ..< 20] = Some 2"
    using find_power_ten [of 2] by simp
  ultimately have a: "money_allocate pair_ops sample_money [1, 1, 1] 2 =
      Some (Inr (map (with_amount sample_money) [(34, 2), (34, 2), (33, 2)]))"
    by (simp add: money_allocate_def Let_def pair_sel sample_money_def money_new_def with_amount_def
        allocate_minor_101 [unfolded numeral_3_eq_3])
  have p: "dop_checked_mul pair_ops (mny_amount sample_money) (dop_from_u64 pair_ops (10 ^ 2)) =
      Some (100500, 3)"
    by (simp add: pair_ops_def sample_money_def money_new_def)
  have "\<not> pair_value (mny_amount sample_money) * 10 ^ 2 \<in> \<int>"
  proof
    assume "pair_value (mny_amount sample_money) * 10 ^ 2 \<in> \<int>"
    then obtain i where "pair_value (mny_amount sample_money) * 10 ^ 2 = of_int i" by (auto elim: Ints_cases)
    then have "(201 :: rat) = of_int (2 * i)" by (simp add: pair_value_def sample_money_def money_new_def)
    then have "201 = 2 * i" by (metis of_int_eq_iff of_int_numeral)
    then show False by presburger
  qed
  with money_allocate_sums [OF pair_laws _ p, of "[1, 1, 1]"] show ?thesis
    unfolding a by (simp add: pair_value_def sample_money_def money_new_def)
qed

end
