(* ===== verification/Tax_Calculation.thy ===== *)
theory Tax_Calculation
  imports Money
begin

text \<open>
  \<open>crates/tax-calculation/src/lib.rs\<close>: line extension amounts, allowances and charges, tax category
  subtotals and payable totals, each with its trace.  The scale is a \<open>nat\<close> for the code's \<open>u32\<close>
  (only compared with 28); \<open>hundred\<close> is \<open>Decimal::from(100_u8)\<close>, an argument like the decimal
  operations.  The serialization of traces is left out.
\<close>

section \<open>Inputs, results, traces\<close>

record ('r, 'd) calculation =
  calc_result :: 'r
  calc_trace :: 'd

record 'd trace_money =
  tm_amount :: 'd
  tm_currency :: string

definition from_money :: "'d money \<Rightarrow> 'd trace_money" where
  "from_money m = \<lparr>tm_amount = mny_amount m, tm_currency = currency_str (mny_currency m)\<rparr>"

datatype allowance_charge_kind = Allowance | Charge

record 'd line_extension_input =
  lei_line_id :: string
  lei_quantity :: 'd
  lei_unit_price :: "'d money"
  lei_scale :: nat
  lei_rounding :: rounding

record 'd allowance_charge_input =
  aci_base_amount :: "'d money"
  aci_kind :: allowance_charge_kind
  aci_adjustment_amount :: "'d money"

record 'd tax_subtotal_input =
  tsi_category_code :: string
  tsi_taxable_amount :: "'d money"
  tsi_tax_rate :: 'd
  tsi_scale :: nat
  tsi_rounding :: rounding

record 'd tax_category_subtotal =
  tcs_category_code :: string
  tcs_taxable_amount :: "'d money"
  tcs_tax_rate :: 'd
  tcs_tax_amount :: "'d money"

record 'd tax_subtotal_trace_part =
  tp_category_code :: string
  tp_taxable_amount :: "'d trace_money"
  tp_tax_amount :: "'d trace_money"
  tp_tax_rate :: 'd

record 'd payable_amount_input =
  pai_line_extension_total :: "'d money"
  pai_allowance_total :: "'d money option"
  pai_charge_total :: "'d money option"
  pai_tax_subtotals :: "'d tax_category_subtotal list"
  pai_prepaid_amount :: "'d money option"

record 'd payable_breakdown =
  pb_line_extension_total :: "'d money"
  pb_allowance_total :: "'d money"
  pb_charge_total :: "'d money"
  pb_tax_exclusive_amount :: "'d money"
  pb_tax_total :: "'d money"
  pb_tax_inclusive_amount :: "'d money"
  pb_prepaid_amount :: "'d money"
  pb_payable_amount :: "'d money"

text \<open>Fields in the order of the code.\<close>

datatype 'd trace_entry =
    TLineExtension string 'd "'d trace_money" rounding nat "'d trace_money" "'d trace_money"
  | TAllowanceCharge allowance_charge_kind "'d trace_money" "'d trace_money" "'d trace_money"
  | TTaxSubtotal string "'d trace_money" 'd 'd rounding nat "'d trace_money" "'d trace_money"
  | TPayableAmount "'d trace_money" "'d trace_money" "'d trace_money" "'d trace_money"
      "'d tax_subtotal_trace_part list" "'d trace_money" "'d trace_money" "'d trace_money"
      "'d trace_money"

datatype tax_calculation_error =
    InvalidScale nat
  | TaxMissingRequiredField string
  | NegativeAmount string
  | MoneyFailed string money_error

section \<open>Calculations\<close>

definition validate_scale :: "nat \<Rightarrow> tax_calculation_error + unit" where
  "validate_scale scale = ensure (\<not> 28 < scale) (InvalidScale scale)"

definition tax_validate_non_empty :: "string \<Rightarrow> string \<Rightarrow> tax_calculation_error + unit" where
  "tax_validate_non_empty v field = ensure (\<not> blank v) (TaxMissingRequiredField field)"

definition ensure_non_negative_money ::
  "'d decimal_ops \<Rightarrow> string \<Rightarrow> 'd money \<Rightarrow> tax_calculation_error + unit" where
  "ensure_non_negative_money ops field m =
     ensure (\<not> dop_is_sign_negative ops (mny_amount m)) (NegativeAmount field)"

definition map_money_err :: "string \<Rightarrow> money_error + 'a \<Rightarrow> tax_calculation_error + 'a" where
  "map_money_err op r = (case r of Inl e \<Rightarrow> Inl (MoneyFailed op e) | Inr x \<Rightarrow> Inr x)"

definition calculate_line_extension :: "'d decimal_ops \<Rightarrow> 'd line_extension_input
    \<Rightarrow> tax_calculation_error + ('d money, 'd trace_entry list) calculation" where
  "calculate_line_extension ops i =
     rbind (first_err [validate_scale (lei_scale i),
                       tax_validate_non_empty (lei_line_id i) ''line_id'',
                       ensure (\<not> dop_is_sign_negative ops (lei_quantity i)) (NegativeAmount ''quantity'')])
       (\<lambda>_. rbind (map_money_err ''line_extension.mul'' (mul_scalar ops (lei_unit_price i) (lei_quantity i)))
         (\<lambda>unrounded.
            let result = money_round ops unrounded (lei_scale i) (lei_rounding i)
            in Inr \<lparr>calc_result = result,
                    calc_trace = [TLineExtension (lei_line_id i) (lei_quantity i)
                      (from_money (lei_unit_price i)) (lei_rounding i) (lei_scale i)
                      (from_money unrounded) (from_money result)]\<rparr>))"

definition apply_allowance_charge :: "'d decimal_ops \<Rightarrow> 'd allowance_charge_input
    \<Rightarrow> tax_calculation_error + ('d money, 'd trace_entry list) calculation" where
  "apply_allowance_charge ops i =
     rbind (ensure_non_negative_money ops ''adjustment_amount'' (aci_adjustment_amount i)) (\<lambda>_.
       rbind (case aci_kind i of
                Allowance \<Rightarrow> map_money_err ''allowance.sub''
                  (money_sub ops (aci_base_amount i) (aci_adjustment_amount i))
              | Charge \<Rightarrow> map_money_err ''charge.add''
                  (money_add ops (aci_base_amount i) (aci_adjustment_amount i)))
         (\<lambda>result. Inr \<lparr>calc_result = result,
            calc_trace = [TAllowanceCharge (aci_kind i) (from_money (aci_base_amount i))
              (from_money (aci_adjustment_amount i)) (from_money result)]\<rparr>))"

definition calculate_tax_subtotal :: "'d decimal_ops \<Rightarrow> 'd \<Rightarrow> 'd tax_subtotal_input
    \<Rightarrow> tax_calculation_error + ('d tax_category_subtotal, 'd trace_entry list) calculation" where
  "calculate_tax_subtotal ops hundred i =
     rbind (first_err [tax_validate_non_empty (tsi_category_code i) ''category_code'',
                       validate_scale (tsi_scale i),
                       ensure (\<not> dop_is_sign_negative ops (tsi_tax_rate i)) (NegativeAmount ''tax_rate'')])
       (\<lambda>_. rbind (ok_or (dop_checked_div ops (tsi_tax_rate i) hundred)
              (MoneyFailed ''tax_subtotal.rate_factor'' (Overflow ''tax_subtotal.rate_factor'')))
         (\<lambda>rate_factor.
            rbind (map_money_err ''tax_subtotal.mul'' (mul_scalar ops (tsi_taxable_amount i) rate_factor))
              (\<lambda>unrounded.
                 let tax_amount = money_round ops unrounded (tsi_scale i) (tsi_rounding i)
                 in Inr \<lparr>calc_result = \<lparr>tcs_category_code = tsi_category_code i,
                           tcs_taxable_amount = tsi_taxable_amount i, tcs_tax_rate = tsi_tax_rate i,
                           tcs_tax_amount = tax_amount\<rparr>,
                         calc_trace = [TTaxSubtotal (tsi_category_code i)
                           (from_money (tsi_taxable_amount i)) (tsi_tax_rate i) rate_factor
                           (tsi_rounding i) (tsi_scale i) (from_money unrounded)
                           (from_money tax_amount)]\<rparr>)))"

definition unwrap_or :: "'a option \<Rightarrow> 'a \<Rightarrow> 'a" where
  "unwrap_or x d = (case x of None \<Rightarrow> d | Some y \<Rightarrow> y)"

fun add_taxes :: "'d decimal_ops \<Rightarrow> 'd money \<Rightarrow> 'd tax_category_subtotal list
    \<Rightarrow> tax_calculation_error + 'd money" where
  "add_taxes ops acc [] = Inr acc"
| "add_taxes ops acc (t # ts) =
     rbind (map_money_err ''payable.add_tax'' (money_add ops acc (tcs_tax_amount t)))
       (\<lambda>acc'. add_taxes ops acc' ts)"

definition trace_part :: "'d tax_category_subtotal \<Rightarrow> 'd tax_subtotal_trace_part" where
  "trace_part t = \<lparr>tp_category_code = tcs_category_code t,
     tp_taxable_amount = from_money (tcs_taxable_amount t),
     tp_tax_amount = from_money (tcs_tax_amount t), tp_tax_rate = tcs_tax_rate t\<rparr>"

definition payable_trace :: "'d payable_breakdown \<Rightarrow> 'd tax_category_subtotal list \<Rightarrow> 'd trace_entry" where
  "payable_trace b ts =
     TPayableAmount (from_money (pb_line_extension_total b)) (from_money (pb_allowance_total b))
       (from_money (pb_charge_total b)) (from_money (pb_tax_exclusive_amount b)) (map trace_part ts)
       (from_money (pb_tax_total b)) (from_money (pb_tax_inclusive_amount b))
       (from_money (pb_prepaid_amount b)) (from_money (pb_payable_amount b))"

definition calculate_payable_amount :: "'d decimal_ops \<Rightarrow> 'd payable_amount_input
    \<Rightarrow> tax_calculation_error + ('d payable_breakdown, 'd trace_entry list) calculation" where
  "calculate_payable_amount ops i =
     rbind (check_opt (ensure_non_negative_money ops ''prepaid_amount'') (pai_prepaid_amount i)) (\<lambda>_.
       let zero = zero_like ops (pai_line_extension_total i);
           allowance = unwrap_or (pai_allowance_total i) zero;
           charge = unwrap_or (pai_charge_total i) zero;
           prepaid = unwrap_or (pai_prepaid_amount i) zero
       in rbind (first_err [ensure_non_negative_money ops ''allowance_total'' allowance,
                            ensure_non_negative_money ops ''charge_total'' charge]) (\<lambda>_.
          rbind (map_money_err ''payable.sub_allowance''
                   (money_sub ops (pai_line_extension_total i) allowance)) (\<lambda>after_allowance.
          rbind (map_money_err ''payable.add_charge'' (money_add ops after_allowance charge)) (\<lambda>excl.
          rbind (add_taxes ops zero (pai_tax_subtotals i)) (\<lambda>tax_total.
          rbind (map_money_err ''payable.add_tax_total'' (money_add ops excl tax_total)) (\<lambda>incl.
          rbind (map_money_err ''payable.sub_prepaid'' (money_sub ops incl prepaid)) (\<lambda>payable.
          let b = \<lparr>pb_line_extension_total = pai_line_extension_total i,
                   pb_allowance_total = allowance, pb_charge_total = charge,
                   pb_tax_exclusive_amount = excl, pb_tax_total = tax_total,
                   pb_tax_inclusive_amount = incl, pb_prepaid_amount = prepaid,
                   pb_payable_amount = payable\<rparr>
          in Inr \<lparr>calc_result = b, calc_trace = [payable_trace b (pai_tax_subtotals i)]\<rparr>)))))))"

section \<open>Replaying a trace\<close>

text \<open>
  The reader of a trace has only the entries.  \<open>replays\<close> recomputes every figure of an entry from the
  figures before it, with the same decimal operations.
\<close>

fun fold_adds :: "'d decimal_ops \<Rightarrow> 'd \<Rightarrow> 'd list \<Rightarrow> 'd option" where
  "fold_adds ops acc [] = Some acc"
| "fold_adds ops acc (x # xs) = Option.bind (dop_checked_add ops acc x) (\<lambda>a. fold_adds ops a xs)"

definition same_currency :: "'d trace_money list \<Rightarrow> bool" where
  "same_currency ms \<longleftrightarrow> (case ms of [] \<Rightarrow> True | m # ms' \<Rightarrow> list_all (\<lambda>x. tm_currency x = tm_currency m) ms')"

fun replays :: "'d decimal_ops \<Rightarrow> 'd \<Rightarrow> 'd trace_entry \<Rightarrow> bool" where
  "replays ops hundred (TLineExtension lid quantity price mode scale unrounded result) \<longleftrightarrow>
     dop_checked_mul ops (tm_amount price) quantity = Some (tm_amount unrounded)
     \<and> tm_amount result = dop_round_dp ops scale (strategy_from mode) (tm_amount unrounded)
     \<and> same_currency [price, unrounded, result]"
| "replays ops hundred (TAllowanceCharge kind base adjustment result) \<longleftrightarrow>
     (case kind of
        Allowance \<Rightarrow> dop_checked_sub ops (tm_amount base) (tm_amount adjustment) = Some (tm_amount result)
      | Charge \<Rightarrow> dop_checked_add ops (tm_amount base) (tm_amount adjustment) = Some (tm_amount result))
     \<and> same_currency [base, adjustment, result]"
| "replays ops hundred (TTaxSubtotal code taxable rate factor mode scale unrounded tax) \<longleftrightarrow>
     dop_checked_div ops rate hundred = Some factor
     \<and> dop_checked_mul ops (tm_amount taxable) factor = Some (tm_amount unrounded)
     \<and> tm_amount tax = dop_round_dp ops scale (strategy_from mode) (tm_amount unrounded)
     \<and> same_currency [taxable, unrounded, tax]"
| "replays ops hundred (TPayableAmount ext allowance charge excl parts tax incl prepaid payable) \<longleftrightarrow>
     Option.bind (dop_checked_sub ops (tm_amount ext) (tm_amount allowance))
       (\<lambda>a. dop_checked_add ops a (tm_amount charge)) = Some (tm_amount excl)
     \<and> fold_adds ops (dop_zero ops) (map (tm_amount \<circ> tp_tax_amount) parts) = Some (tm_amount tax)
     \<and> dop_checked_add ops (tm_amount excl) (tm_amount tax) = Some (tm_amount incl)
     \<and> dop_checked_sub ops (tm_amount incl) (tm_amount prepaid) = Some (tm_amount payable)
     \<and> same_currency ([ext, allowance, charge, excl, tax, incl, prepaid, payable]
          @ map tp_tax_amount parts)"

lemma money_add_Inr_iff: "money_add ops m n = Inr r \<longleftrightarrow>
    mny_currency m = mny_currency n \<and> dop_checked_add ops (mny_amount m) (mny_amount n) = Some (mny_amount r)
    \<and> mny_currency r = mny_currency m"
  by (cases r) (auto simp: money_add_def require_same_currency_def ok_or_def with_amount_def
      split: option.splits)

lemma money_sub_Inr_iff: "money_sub ops m n = Inr r \<longleftrightarrow>
    mny_currency m = mny_currency n \<and> dop_checked_sub ops (mny_amount m) (mny_amount n) = Some (mny_amount r)
    \<and> mny_currency r = mny_currency m"
  by (cases r) (auto simp: money_sub_def require_same_currency_def ok_or_def with_amount_def
      split: option.splits)

lemma mul_scalar_Inr_iff: "mul_scalar ops m x = Inr r \<longleftrightarrow>
    dop_checked_mul ops (mny_amount m) x = Some (mny_amount r) \<and> mny_currency r = mny_currency m"
  by (cases r) (auto simp: mul_scalar_def ok_or_def with_amount_def split: option.splits)

lemma map_money_err_Inr_iff [simp]: "map_money_err op r = Inr x \<longleftrightarrow> r = Inr x"
  by (cases r) (auto simp: map_money_err_def)

lemma ok_or_Inr_iff [simp]: "ok_or x e = Inr y \<longleftrightarrow> x = Some y"
  by (cases x) (auto simp: ok_or_def)

lemmas money_iffs = money_add_Inr_iff money_sub_Inr_iff mul_scalar_Inr_iff

lemma add_taxes_Inr_iff: "add_taxes ops acc ts = Inr r \<longleftrightarrow>
    fold_adds ops (mny_amount acc) (map (mny_amount \<circ> tcs_tax_amount) ts) = Some (mny_amount r)
    \<and> list_all (\<lambda>t. mny_currency (tcs_tax_amount t) = mny_currency acc) ts
    \<and> mny_currency r = mny_currency acc"
proof (induction ts arbitrary: acc)
  case Nil
  then show ?case by (cases acc; cases r) auto
next
  case (Cons t ts)
  show ?case
    by (auto simp: rbind_Inr_iff Cons money_iffs bind_eq_Some_conv)
      (metis money.select_convs)+
qed

section \<open>Properties\<close>

text \<open>The last figure of an entry, the one the calculation returns.\<close>

fun entry_result :: "'d trace_entry \<Rightarrow> 'd trace_money" where
  "entry_result (TLineExtension _ _ _ _ _ _ r) = r"
| "entry_result (TAllowanceCharge _ _ _ r) = r"
| "entry_result (TTaxSubtotal _ _ _ _ _ _ _ r) = r"
| "entry_result (TPayableAmount _ _ _ _ _ _ _ _ r) = r"

lemma payable_Inr:
  assumes "calculate_payable_amount ops i = Inr c"
  shows "\<exists>b. calc_result c = b \<and> calc_trace c = [payable_trace b (pai_tax_subtotals i)]
    \<and> pb_line_extension_total b = pai_line_extension_total i
    \<and> pb_allowance_total b = unwrap_or (pai_allowance_total i) (zero_like ops (pai_line_extension_total i))
    \<and> pb_charge_total b = unwrap_or (pai_charge_total i) (zero_like ops (pai_line_extension_total i))
    \<and> pb_prepaid_amount b = unwrap_or (pai_prepaid_amount i) (zero_like ops (pai_line_extension_total i))
    \<and> (\<exists>after. money_sub ops (pb_line_extension_total b) (pb_allowance_total b) = Inr after
         \<and> money_add ops after (pb_charge_total b) = Inr (pb_tax_exclusive_amount b))
    \<and> add_taxes ops (zero_like ops (pai_line_extension_total i)) (pai_tax_subtotals i) = Inr (pb_tax_total b)
    \<and> money_add ops (pb_tax_exclusive_amount b) (pb_tax_total b) = Inr (pb_tax_inclusive_amount b)
    \<and> money_sub ops (pb_tax_inclusive_amount b) (pb_prepaid_amount b) = Inr (pb_payable_amount b)"
  using assms by (auto simp: calculate_payable_amount_def Let_def rbind_Inr_iff)

lemma payable_replays:
  assumes "calculate_payable_amount ops i = Inr c"
  shows "replays ops hundred (payable_trace (calc_result c) (pai_tax_subtotals i))"
  using payable_Inr [OF assms]
  by (auto simp: payable_trace_def money_iffs add_taxes_Inr_iff from_money_def same_currency_def
      trace_part_def zero_like_def with_amount_def comp_def list_all_iff)

text \<open>C24  Replayable traces.  Every successful calculation returns exactly one trace entry; the entry
  ends with the amount the calculation returns, all its amounts have one currency, and recomputing
  each of its figures from the earlier ones alone gives what it says.\<close>

theorem traces_replay:
  "(case calculate_line_extension ops i1 of Inl _ \<Rightarrow> True
    | Inr c \<Rightarrow> (\<exists>e. calc_trace c = [e] \<and> replays ops hundred e
                \<and> entry_result e = from_money (calc_result c)))
   \<and> (case apply_allowance_charge ops i2 of Inl _ \<Rightarrow> True
    | Inr c \<Rightarrow> (\<exists>e. calc_trace c = [e] \<and> replays ops hundred e
                \<and> entry_result e = from_money (calc_result c)))
   \<and> (case calculate_tax_subtotal ops hundred i3 of Inl _ \<Rightarrow> True
    | Inr c \<Rightarrow> (\<exists>e. calc_trace c = [e] \<and> replays ops hundred e
                \<and> entry_result e = from_money (tcs_tax_amount (calc_result c))))
   \<and> (case calculate_payable_amount ops i4 of Inl _ \<Rightarrow> True
    | Inr c \<Rightarrow> (\<exists>e. calc_trace c = [e] \<and> replays ops hundred e
                \<and> entry_result e = from_money (pb_payable_amount (calc_result c))))"
proof (intro conjI)
  show "case calculate_line_extension ops i1 of Inl _ \<Rightarrow> True
    | Inr c \<Rightarrow> (\<exists>e. calc_trace c = [e] \<and> replays ops hundred e
                \<and> entry_result e = from_money (calc_result c))"
    by (auto simp: calculate_line_extension_def rbind_Inr_iff Let_def money_iffs from_money_def
        money_round_def with_amount_def same_currency_def split: sum.split)
  show "case apply_allowance_charge ops i2 of Inl _ \<Rightarrow> True
    | Inr c \<Rightarrow> (\<exists>e. calc_trace c = [e] \<and> replays ops hundred e
                \<and> entry_result e = from_money (calc_result c))"
    by (cases "aci_kind i2")
      (auto simp: apply_allowance_charge_def rbind_Inr_iff money_iffs from_money_def
        same_currency_def split: sum.split)
  show "case calculate_tax_subtotal ops hundred i3 of Inl _ \<Rightarrow> True
    | Inr c \<Rightarrow> (\<exists>e. calc_trace c = [e] \<and> replays ops hundred e
                \<and> entry_result e = from_money (tcs_tax_amount (calc_result c)))"
    by (auto simp: calculate_tax_subtotal_def rbind_Inr_iff Let_def money_iffs from_money_def
        money_round_def with_amount_def same_currency_def split: sum.split)
  show "case calculate_payable_amount ops i4 of Inl _ \<Rightarrow> True
    | Inr c \<Rightarrow> (\<exists>e. calc_trace c = [e] \<and> replays ops hundred e
                \<and> entry_result e = from_money (pb_payable_amount (calc_result c)))"
  proof (cases "calculate_payable_amount ops i4")
    case (Inr c)
    with payable_Inr [OF Inr] payable_replays [OF Inr, of hundred] show ?thesis
      by (auto simp: payable_trace_def)
  qed simp
qed

text \<open>
  \<open>rust_decimal\<close> adds and subtracts exactly while the aligned mantissas fit 96 bits; \<open>dom\<close> is a set
  of decimals where they do (for instance: at most six decimal places, below 10^20).
\<close>

definition exact_on :: "'d decimal_ops \<Rightarrow> ('d \<Rightarrow> rat) \<Rightarrow> ('d \<Rightarrow> bool) \<Rightarrow> bool" where
  "exact_on ops v D \<longleftrightarrow> v (dop_zero ops) = 0
     \<and> (\<forall>x y z. D x \<and> D y \<and> dop_checked_add ops x y = Some z \<longrightarrow> v z = v x + v y)
     \<and> (\<forall>x y z. D x \<and> D y \<and> dop_checked_sub ops x y = Some z \<longrightarrow> v z = v x - v y)"

fun partial_sums :: "'d decimal_ops \<Rightarrow> 'd \<Rightarrow> 'd list \<Rightarrow> 'd list" where
  "partial_sums ops acc [] = [acc]"
| "partial_sums ops acc (x # xs) =
     acc # (case dop_checked_add ops acc x of None \<Rightarrow> [] | Some a \<Rightarrow> partial_sums ops a xs)"

lemma fold_adds_exact:
  assumes "exact_on ops v D" "fold_adds ops acc xs = Some z"
    and "list_all D xs" "list_all D (partial_sums ops acc xs)"
  shows "v z = v acc + (\<Sum>x \<leftarrow> xs. v x)"
  using assms(2-4)
proof (induction xs arbitrary: acc)
  case (Cons x xs)
  then obtain a where a: "dop_checked_add ops acc x = Some a" "fold_adds ops a xs = Some z"
    by (auto simp: bind_eq_Some_conv)
  then have "v a = v acc + v x" using Cons.prems assms(1) unfolding exact_on_def by auto
  with Cons.IH [OF a(2)] Cons.prems a(1) show ?case by simp
qed simp

definition net_of :: "('d \<Rightarrow> rat) \<Rightarrow> 'd money option \<Rightarrow> rat" where
  "net_of v x = (case x of None \<Rightarrow> 0 | Some m \<Rightarrow> v (mny_amount m))"

text \<open>The payable equation.  Where the decimal sums are exact, a computed payable amount is the line
  total less the allowances plus the charges plus the taxes less what is prepaid, absent totals
  counting as zero; and the tax-exclusive and tax-inclusive amounts are the partial results.\<close>

theorem payable_equation:
  assumes "calculate_payable_amount ops i = Inr c" and "exact_on ops v D"
    and "list_all D [mny_amount (pb_line_extension_total (calc_result c)),
          mny_amount (pb_allowance_total (calc_result c)), mny_amount (pb_charge_total (calc_result c)),
          mny_amount (pb_tax_exclusive_amount (calc_result c)), mny_amount (pb_tax_total (calc_result c)),
          mny_amount (pb_tax_inclusive_amount (calc_result c)), mny_amount (pb_prepaid_amount (calc_result c))]"
    and "dop_checked_sub ops (mny_amount (pb_line_extension_total (calc_result c)))
           (mny_amount (pb_allowance_total (calc_result c))) = Some mid" and "D mid"
    and "list_all D (map (mny_amount \<circ> tcs_tax_amount) (pai_tax_subtotals i))"
    and "list_all D (partial_sums ops (dop_zero ops) (map (mny_amount \<circ> tcs_tax_amount) (pai_tax_subtotals i)))"
  shows "v (mny_amount (pb_tax_exclusive_amount (calc_result c))) =
           v (mny_amount (pai_line_extension_total i)) - net_of v (pai_allowance_total i)
           + net_of v (pai_charge_total i)
    \<and> v (mny_amount (pb_tax_inclusive_amount (calc_result c))) =
           v (mny_amount (pb_tax_exclusive_amount (calc_result c)))
           + (\<Sum>t \<leftarrow> pai_tax_subtotals i. v (mny_amount (tcs_tax_amount t)))
    \<and> v (mny_amount (pb_payable_amount (calc_result c))) =
           v (mny_amount (pb_tax_inclusive_amount (calc_result c))) - net_of v (pai_prepaid_amount i)"
proof -
  obtain b where b: "calc_result c = b"
    "pb_line_extension_total b = pai_line_extension_total i"
    "pb_allowance_total b = unwrap_or (pai_allowance_total i) (zero_like ops (pai_line_extension_total i))"
    "pb_charge_total b = unwrap_or (pai_charge_total i) (zero_like ops (pai_line_extension_total i))"
    "pb_prepaid_amount b = unwrap_or (pai_prepaid_amount i) (zero_like ops (pai_line_extension_total i))"
    and mid: "\<exists>after. money_sub ops (pb_line_extension_total b) (pb_allowance_total b) = Inr after
         \<and> money_add ops after (pb_charge_total b) = Inr (pb_tax_exclusive_amount b)"
    and taxes: "add_taxes ops (zero_like ops (pai_line_extension_total i)) (pai_tax_subtotals i) = Inr (pb_tax_total b)"
    and incl: "money_add ops (pb_tax_exclusive_amount b) (pb_tax_total b) = Inr (pb_tax_inclusive_amount b)"
    and pay: "money_sub ops (pb_tax_inclusive_amount b) (pb_prepaid_amount b) = Inr (pb_payable_amount b)"
    using payable_Inr [OF assms(1)] by blast
  have zero: "v (dop_zero ops) = 0"
    and add: "\<And>x y z. D x \<Longrightarrow> D y \<Longrightarrow> dop_checked_add ops x y = Some z \<Longrightarrow> v z = v x + v y"
    and sub: "\<And>x y z. D x \<Longrightarrow> D y \<Longrightarrow> dop_checked_sub ops x y = Some z \<Longrightarrow> v z = v x - v y"
    using assms(2) unfolding exact_on_def by blast+
  have opt: "v (mny_amount (unwrap_or x (zero_like ops m))) = net_of v x" for x and m
    by (cases x) (simp_all add: unwrap_or_def net_of_def zero_like_def with_amount_def zero)
  have excl: "v (mny_amount (pb_tax_exclusive_amount b)) = v mid + v (mny_amount (pb_charge_total b))"
    "v mid = v (mny_amount (pb_line_extension_total b)) - v (mny_amount (pb_allowance_total b))"
    using mid assms(3-5) unfolding b(1) by (auto simp: money_iffs intro: add sub)
  have tax: "v (mny_amount (pb_tax_total b)) = (\<Sum>t \<leftarrow> pai_tax_subtotals i. v (mny_amount (tcs_tax_amount t)))"
    using taxes fold_adds_exact [OF assms(2) _ assms(6,7)]
    by (simp add: add_taxes_Inr_iff zero_like_def with_amount_def zero comp_def)
  have "v (mny_amount (pb_tax_inclusive_amount b)) =
      v (mny_amount (pb_tax_exclusive_amount b)) + v (mny_amount (pb_tax_total b))"
    using incl assms(3) unfolding b(1) by (auto simp: money_iffs intro: add)
  moreover have "v (mny_amount (pb_payable_amount b)) =
      v (mny_amount (pb_tax_inclusive_amount b)) - v (mny_amount (pb_prepaid_amount b))"
    using pay assms(3) unfolding b(1) by (auto simp: money_iffs intro: sub)
  ultimately show ?thesis unfolding b using excl tax b by (simp add: opt)
qed

definition sample_payable :: "(int \<times> nat) payable_amount_input" where
  "sample_payable =
     \<lparr>pai_line_extension_total = money_new (100, 0) (Iso4217Code ''EUR''),
      pai_allowance_total = Some (money_new (10, 0) (Iso4217Code ''EUR'')), pai_charge_total = None,
      pai_tax_subtotals = [\<lparr>tcs_category_code = ''S'', tcs_taxable_amount = money_new (90, 0) (Iso4217Code ''EUR''),
        tcs_tax_rate = (19, 0), tcs_tax_amount = money_new (171, 1) (Iso4217Code ''EUR'')\<rparr>],
      pai_prepaid_amount = None\<rparr>"

lemma pair_exact: "exact_on pair_ops pair_value (\<lambda>_. True)"
  by (auto simp: exact_on_def pair_ops_def pair_value_def power_add field_simps)

lemma pair_sums:
  "dop_zero pair_ops = (0, 0)"
  "dop_checked_add pair_ops x y = Some (fst x * 10 ^ snd y + fst y * 10 ^ snd x, snd x + snd y)"
  "dop_checked_sub pair_ops x y = Some (fst x * 10 ^ snd y - fst y * 10 ^ snd x, snd x + snd y)"
  by (simp_all add: pair_ops_def)

theorem payable_equation_witness:
  "\<exists>c. calculate_payable_amount pair_ops sample_payable = Inr c
     \<and> pair_value (mny_amount (pb_payable_amount (calc_result c))) = 1071 / 10"
proof -
  have "is_ok (calculate_payable_amount pair_ops sample_payable)"
    by (simp add: calculate_payable_amount_def sample_payable_def check_opt_def first_err.simps
        ensure_non_negative_money_def ensure_def pair_sel pair_sums unwrap_or_def zero_like_def
        with_amount_def money_new_def money_sub_def money_add_def require_same_currency_def ok_or_def
        map_money_err_def Let_def)
  then obtain c where c: "calculate_payable_amount pair_ops sample_payable = Inr c"
    by (auto simp: is_ok_iff)
  obtain mid where "dop_checked_sub pair_ops (mny_amount (pb_line_extension_total (calc_result c)))
      (mny_amount (pb_allowance_total (calc_result c))) = Some mid" by (simp add: pair_sums)
  moreover have "pair_value (100, 0) = 100" "pair_value (10, 0) = 10" "pair_value (171, 1) = 171 / 10"
    by (simp_all add: pair_value_def)
  ultimately have "pair_value (mny_amount (pb_payable_amount (calc_result c))) = 1071 / 10"
    using payable_equation [OF c pair_exact, of mid]
    by (simp add: list_all_iff sample_payable_def net_of_def money_new_def)
  with c show ?thesis by blast
qed

end
