(* ===== verification/Canonical_Json.thy ===== *)
theory Canonical_Json
  imports Rust_Str Sequences "HOL-Library.List_Lexorder"
begin

text \<open>
  The JSON half of \<open>crates/canonical/src/lib.rs\<close>: RFC 8785 canonical text of a \<open>serde_json::Value\<close>,
  and the visitor that refuses duplicate member names.  Texts are lists of Unicode scalar values
  here, since members are ordered by UTF-16 code units.
\<close>

section \<open>Text\<close>

type_synonym ustring = "nat list"

definition scalar :: "nat \<Rightarrow> bool" where
  "scalar c \<longleftrightarrow> c < 0xD800 \<or> 0xE000 \<le> c \<and> c < 0x110000"

definition ascii :: "string \<Rightarrow> ustring" where
  "ascii s = map of_char s"

fun utf16_units :: "nat \<Rightarrow> nat list" where
  "utf16_units c =
     (if c < 0x10000 then [c]
      else [0xD800 + (c - 0x10000) div 0x400, 0xDC00 + (c - 0x10000) mod 0x400])"

definition encode_utf16 :: "ustring \<Rightarrow> nat list" where
  "encode_utf16 s = concat (map utf16_units s)"

interpretation utf16: self_delimiting utf16_units scalar
proof
  fix c d s t
  assume "scalar c" "scalar d" and eq: "utf16_units c @ s = utf16_units d @ t"
  then consider "c < 0x10000" "d < 0x10000" | "\<not> c < 0x10000" "\<not> d < 0x10000"
    by (auto simp: scalar_def split: if_splits)
  then show "c = d"
  proof cases
    case 2
    then have "(c - 0x10000) div 0x400 = (d - 0x10000) div 0x400"
      "(c - 0x10000) mod 0x400 = (d - 0x10000) mod 0x400"
      using eq by simp_all
    then have "c - 0x10000 = d - 0x10000" by (metis div_mult_mod_eq)
    with 2 show ?thesis by simp
  qed (use eq in simp)
qed

lemma encode_utf16_inj: "list_all scalar s \<Longrightarrow> list_all scalar t \<Longrightarrow> encode_utf16 s = encode_utf16 t \<Longrightarrow> s = t"
  unfolding encode_utf16_def by (rule utf16.unterminated_inj) auto

text \<open>The comparison loop over the two iterators of code units.\<close>

fun compare_units :: "nat list \<Rightarrow> nat list \<Rightarrow> ordering" where
  "compare_units [] [] = Equal"
| "compare_units [] (_ # _) = Less"
| "compare_units (_ # _) [] = Greater"
| "compare_units (a # as) (b # bs) = (if a \<noteq> b then cmp_of a b else compare_units as bs)"

definition compare_utf16 :: "ustring \<Rightarrow> ustring \<Rightarrow> ordering" where
  "compare_utf16 a b = compare_units (encode_utf16 a) (encode_utf16 b)"

lemma compare_units_cmp: "compare_units as bs = cmp_of as bs"
  by (induction as bs rule: compare_units.induct) (auto simp: cmp_of_def)

section \<open>Values\<close>

text \<open>
  A \<open>serde_json::Number\<close> (without \<open>arbitrary_precision\<close>): a \<open>u64\<close>, a negative \<open>i64\<close> or a finite \<open>f64\<close>.
  Floats are those of a record of the operations used: the ECMAScript text of \<open>ryu_js\<close>, \<open>is_finite\<close>
  and \<open>to_string\<close>.
\<close>

datatype 'f json_number = PosInt u64 | NegInt int | Float 'f

record 'f float_ops =
  fo_is_finite :: "'f \<Rightarrow> bool"
  fo_ryu_js :: "'f \<Rightarrow> ustring"
  fo_to_string :: "'f \<Rightarrow> ustring"

datatype 'f json =
    JsonNull
  | JsonBool bool
  | JsonNumber "'f json_number"
  | JsonString ustring
  | JsonArray "'f json list"
  | JsonObject "(ustring \<times> 'f json) list"

datatype canonicalize_error =
    InvalidJson ustring
  | DuplicateObjectMember ustring
  | UnsafeInteger ustring
  | NonFiniteNumber ustring

section \<open>Writing\<close>

definition int_text :: "int \<Rightarrow> ustring" where
  "int_text i = ascii (show_int i)"

definition ensure_safe_integer :: "int \<Rightarrow> canonicalize_error + unit" where
  "ensure_safe_integer v = ensure (- 9007199254740991 \<le> v \<and> v \<le> 9007199254740991) (UnsafeInteger (int_text v))"

fun write_number :: "'f float_ops \<Rightarrow> 'f json_number \<Rightarrow> canonicalize_error + ustring" where
  "write_number fo (PosInt u) =
     rbind (ensure_safe_integer (int (unat u))) (\<lambda>_. Inr (int_text (int (unat u))))"
| "write_number fo (NegInt i) = rbind (ensure_safe_integer i) (\<lambda>_. Inr (int_text i))"
| "write_number fo (Float f) =
     (if \<not> fo_is_finite fo f then Inl (NonFiniteNumber (fo_to_string fo f)) else Inr (fo_ryu_js fo f))"

definition hex_scalar :: "nat \<Rightarrow> nat" where
  "hex_scalar d = (if d < 10 then 48 + d else 87 + d)"

definition escape_char :: "nat \<Rightarrow> ustring" where
  "escape_char c =
     (if c = 34 then [92, 34]
      else if c = 92 then [92, 92]
      else if c = 8 then [92, 98]
      else if c = 12 then [92, 102]
      else if c = 10 then [92, 110]
      else if c = 13 then [92, 114]
      else if c = 9 then [92, 116]
      else if c < 32 then [92, 117, 48, 48, hex_scalar (c div 16), hex_scalar (c mod 16)]
      else [c])"

definition write_string :: "ustring \<Rightarrow> ustring" where
  "write_string s = 34 # concat (map escape_char s) @ [34]"

text \<open>The order of the members of an object.\<close>

definition compare_members :: "ustring \<times> 'f json \<Rightarrow> ustring \<times> 'f json \<Rightarrow> ordering" where
  "compare_members a b = compare_utf16 (fst a) (fst b)"

definition braced :: "nat \<Rightarrow> nat \<Rightarrow> ustring list \<Rightarrow> ustring" where
  "braced l r ts = l # join [44] ts @ [r]"

lemma json_member_size: "(k, v) \<in> set m \<Longrightarrow> size v < Suc (size_list (size_prod (\<lambda>_. 0) size) m)"
  by (induction m) auto

function write_value :: "'f float_ops \<Rightarrow> 'f json \<Rightarrow> canonicalize_error + ustring" where
  "write_value fo JsonNull = Inr (ascii ''null'')"
| "write_value fo (JsonBool b) = Inr (ascii (if b then ''true'' else ''false''))"
| "write_value fo (JsonNumber n) = write_number fo n"
| "write_value fo (JsonString s) = Inr (write_string s)"
| "write_value fo (JsonArray items) =
     rbind (collect (map (write_value fo) items)) (\<lambda>ts. Inr (braced 91 93 ts))"
| "write_value fo (JsonObject m) =
     rbind (collect (map (\<lambda>(k, v). rbind (write_value fo v) (\<lambda>t. Inr (write_string k @ 58 # t)))
                      (sort_by compare_members m)))
       (\<lambda>ts. Inr (braced 123 125 ts))"
  by pat_completeness auto
termination
  by (relation "measure (size \<circ> snd)") (auto intro: le_imp_less_Suc size_list_estimation' json_member_size)

definition canonicalize_value :: "'f float_ops \<Rightarrow> 'f json \<Rightarrow> canonicalize_error + ustring" where
  "canonicalize_value fo v = write_value fo v"

text \<open>
  What \<open>serde_json::from_str\<close> drives the visitor with: the tokens of the text as a tree, cut off where
  the parser fails.  \<open>SynBad e\<close> is a value at which it fails, the optional error of a sequence or map
  comes instead of the next element, and \<open>trailing\<close> is the check for characters after the value.
\<close>

datatype 'f syn_tree =
    SynBad ustring
  | SynNull
  | SynBool bool
  | SynNumber "'f json_number"
  | SynString ustring
  | SynSeq "'f syn_tree list" "ustring option"
  | SynMap "(ustring \<times> 'f syn_tree) list" "ustring option"

fun visit_value :: "'f syn_tree \<Rightarrow> canonicalize_error + 'f json"
  and visit_seq :: "'f syn_tree list \<Rightarrow> ustring option \<Rightarrow> canonicalize_error + 'f json list"
  and visit_map :: "ustring set \<Rightarrow> (ustring \<times> 'f syn_tree) list \<Rightarrow> ustring option
        \<Rightarrow> canonicalize_error + (ustring \<times> 'f json) list" where
  "visit_value (SynBad e) = Inl (InvalidJson e)"
| "visit_value SynNull = Inr JsonNull"
| "visit_value (SynBool b) = Inr (JsonBool b)"
| "visit_value (SynNumber n) = Inr (JsonNumber n)"
| "visit_value (SynString s) = Inr (JsonString s)"
| "visit_value (SynSeq xs e) = rbind (visit_seq xs e) (\<lambda>vs. Inr (JsonArray vs))"
| "visit_value (SynMap ms e) = rbind (visit_map {} ms e) (\<lambda>vs. Inr (JsonObject vs))"
| "visit_seq [] e = (case e of None \<Rightarrow> Inr [] | Some err \<Rightarrow> Inl (InvalidJson err))"
| "visit_seq (x # xs) e = rbind (visit_value x) (\<lambda>v. rbind (visit_seq xs e) (\<lambda>vs. Inr (v # vs)))"
| "visit_map seen [] e = (case e of None \<Rightarrow> Inr [] | Some err \<Rightarrow> Inl (InvalidJson err))"
| "visit_map seen (m # ms) e =
     (if fst m \<in> seen then Inl (DuplicateObjectMember (fst m))
      else rbind (visit_value (snd m)) (\<lambda>v. rbind (visit_map (insert (fst m) seen) ms e)
             (\<lambda>vs. Inr ((fst m, v) # vs))))"

definition parse_value :: "(ustring \<Rightarrow> 'f syn_tree \<times> ustring option) \<Rightarrow> ustring
    \<Rightarrow> canonicalize_error + 'f json" where
  "parse_value from_str input =
     (case from_str input of (tree, trailing) \<Rightarrow>
        rbind (visit_value tree) (\<lambda>v. case trailing of None \<Rightarrow> Inr v | Some e \<Rightarrow> Inl (InvalidJson e)))"

definition canonicalize :: "(ustring \<Rightarrow> 'f syn_tree \<times> ustring option) \<Rightarrow> 'f float_ops \<Rightarrow> ustring
    \<Rightarrow> canonicalize_error + ustring" where
  "canonicalize from_str fo input = rbind (parse_value from_str input) (canonicalize_value fo)"

section \<open>Equality of values up to the order of members\<close>

text \<open>
  A value of which every object has distinct member names, and every string consists of scalar
  values: what \<open>serde_json\<close> values are.
\<close>

fun well_formed :: "'f json \<Rightarrow> bool" where
  "well_formed (JsonString s) \<longleftrightarrow> list_all scalar s"
| "well_formed (JsonArray items) \<longleftrightarrow> list_all well_formed items"
| "well_formed (JsonObject m) \<longleftrightarrow> distinct (map fst m)
     \<and> list_all (\<lambda>(k, v). list_all scalar k \<and> well_formed v) m"
| "well_formed _ \<longleftrightarrow> True"

text \<open>
  Integers are the same number when they have the same value, whatever variant holds them; floats when ECMAScript
  prints them alike, and a float and an integer when it prints the float as the decimal numeral of the integer, as
  it does 1.0 and 1.
\<close>

fun integer_of :: "'f json_number \<Rightarrow> int option" where
  "integer_of (PosInt u) = Some (uint u)"
| "integer_of (NegInt i) = Some i"
| "integer_of (Float _) = None"

fun same_number :: "'f float_ops \<Rightarrow> 'f json_number \<Rightarrow> 'f json_number \<Rightarrow> bool" where
  "same_number fo (Float f) (Float g) \<longleftrightarrow> fo_ryu_js fo f = fo_ryu_js fo g"
| "same_number fo (Float f) n \<longleftrightarrow> (case integer_of n of None \<Rightarrow> False | Some i \<Rightarrow> fo_ryu_js fo f = map of_char (show_int i))"
| "same_number fo m (Float g) \<longleftrightarrow> (case integer_of m of None \<Rightarrow> False | Some i \<Rightarrow> map of_char (show_int i) = fo_ryu_js fo g)"
| "same_number fo m n \<longleftrightarrow> integer_of m = integer_of n"

inductive same_json :: "'f float_ops \<Rightarrow> 'f json \<Rightarrow> 'f json \<Rightarrow> bool" for fo where
  null: "same_json fo JsonNull JsonNull"
| bool: "same_json fo (JsonBool b) (JsonBool b)"
| num: "same_number fo m n \<Longrightarrow> same_json fo (JsonNumber m) (JsonNumber n)"
| str: "same_json fo (JsonString s) (JsonString s)"
| arr: "list_all2 (same_json fo) xs ys \<Longrightarrow> same_json fo (JsonArray xs) (JsonArray ys)"
| obj: "fst ` set m = fst ` set n
    \<Longrightarrow> (\<And>k v w. (k, v) \<in> set m \<Longrightarrow> (k, w) \<in> set n \<Longrightarrow> same_json fo v w)
    \<Longrightarrow> same_json fo (JsonObject m) (JsonObject n)"

section \<open>Reading the text back\<close>

definition number_chars :: "nat set" where
  "number_chars = {43, 45, 46, 101} \<union> {48..57}"

text \<open>What ECMAScript's \<open>Number::toString\<close> writes for a finite number.\<close>

definition ecmascript_text :: "'f float_ops \<Rightarrow> bool" where
  "ecmascript_text fo \<longleftrightarrow>
     (\<forall>f. fo_is_finite fo f \<longrightarrow> fo_ryu_js fo f \<noteq> [] \<and> set (fo_ryu_js fo f) \<subseteq> number_chars)"

lemma hex_scalar_inj: "m < 16 \<Longrightarrow> n < 16 \<Longrightarrow> hex_scalar m = hex_scalar n \<Longrightarrow> m = n"
  by (auto simp: hex_scalar_def split: if_splits)

text \<open>The letter after the backslash of an escaped character.\<close>

definition plain :: "nat \<Rightarrow> bool" where
  "plain c \<longleftrightarrow> 32 \<le> c \<and> c \<noteq> 34 \<and> c \<noteq> 92"

definition letter :: "nat \<Rightarrow> nat" where
  "letter c = (if c = 34 then 34 else if c = 92 then 92 else if c = 8 then 98 else if c = 12 then 102
     else if c = 10 then 110 else if c = 13 then 114 else if c = 9 then 116 else 117)"

lemma escape_char_cases:
  "escape_char c = (if plain c then [c] else 92 # letter c #
     (if letter c = 117 then [48, 48, hex_scalar (c div 16), hex_scalar (c mod 16)] else []))"
  by (simp add: escape_char_def plain_def letter_def)

lemma letter_inj: "letter c = letter d \<Longrightarrow> letter c \<noteq> 117 \<Longrightarrow> c = d"
  by (simp add: letter_def split: if_splits)

interpretation esc: self_delimiting escape_char "\<lambda>_. True"
proof
  fix c d s t
  assume eq: "escape_char c @ s = escape_char d @ t"
  then have pl: "plain c \<longleftrightarrow> plain d" by (auto simp: escape_char_cases plain_def split: if_splits)
  show "c = d"
  proof (cases "plain c")
    case True
    with eq pl show ?thesis by (simp add: escape_char_cases)
  next
    case np: False
    then have l: "letter c = letter d" using eq pl by (simp add: escape_char_cases)
    show ?thesis
    proof (cases "letter c = 117")
      case True
      then have "c < 32" "d < 32" using np pl l by (auto simp: plain_def letter_def split: if_splits)
      moreover have "hex_scalar (c div 16) = hex_scalar (d div 16)"
        "hex_scalar (c mod 16) = hex_scalar (d mod 16)"
        using eq np pl l True by (simp_all add: escape_char_cases)
      ultimately have "c div 16 = d div 16" "c mod 16 = d mod 16"
        by (auto intro: hex_scalar_inj)
      then show ?thesis by (metis div_mult_mod_eq)
    qed (use l letter_inj in blast)
  qed
qed

interpretation str: self_delimiting write_string "\<lambda>_. True"
proof
  fix u v s t
  assume "write_string u @ s = write_string v @ t"
  then have "concat (map escape_char u) @ 34 # s = concat (map escape_char v) @ 34 # t"
    by (simp add: write_string_def)
  then show "u = v"
    using esc.terminated_inj [of 34 u v s t] by (auto simp: escape_char_def list_all_iff)
qed

text \<open>A value is followed by the end of the text, a comma or a closing bracket.\<close>

definition stops :: "ustring \<Rightarrow> bool" where
  "stops s \<longleftrightarrow> s = [] \<or> hd s \<in> {44, 93, 125}"

definition starts :: "ustring \<Rightarrow> bool" where
  "starts s \<longleftrightarrow> s \<noteq> [] \<and> hd s \<notin> {44, 93, 125}"

lemma joined_split:
  assumes "\<And>x y s t. x \<in> set xs \<Longrightarrow> y \<in> set ys \<Longrightarrow> stops s \<Longrightarrow> stops t \<Longrightarrow> f x @ s = g y @ t
      \<Longrightarrow> P x y \<and> s = t"
    and "\<And>x. x \<in> set xs \<Longrightarrow> starts (f x)" and "\<And>y. y \<in> set ys \<Longrightarrow> starts (g y)"
    and "r = 93 \<or> r = 125" and "join [44] (map f xs) @ r # s = join [44] (map g ys) @ r # t"
  shows "list_all2 P xs ys \<and> s = t"
  using assms
proof (induction xs arbitrary: ys)
  case Nil
  show ?case
  proof (cases ys)
    case (Cons y ys')
    with Nil.prems(3) have "starts (g y)" by simp
    moreover have "\<exists>u. join [44] (map g ys) = g y @ u" using Cons by (cases ys') auto
    ultimately show ?thesis using Nil.prems(4,5) by (cases "g y") (auto simp: starts_def)
  qed (use Nil in simp)
next
  case (Cons x xs)
  let ?u = "if xs = [] then r # s else 44 # join [44] (map f xs) @ r # s"
  have x: "starts (f x)" "join [44] (map f (x # xs)) @ r # s = f x @ ?u"
    using Cons.prems(2) by (cases xs; simp)+
  show ?case
  proof (cases ys)
    case Nil
    with x Cons.prems(4,5) show ?thesis by (cases "f x") (auto simp: starts_def)
  next
    case c: (Cons y ys')
    let ?v = "if ys' = [] then r # t else 44 # join [44] (map g ys') @ r # t"
    have "f x @ ?u = g y @ ?v"
      using x(2) Cons.prems(5) c by (cases ys') simp_all
    moreover have "stops ?u" "stops ?v" using Cons.prems(4) by (auto simp: stops_def)
    ultimately have p: "P x y" "?u = ?v" using Cons.prems(1) [of x y ?u ?v] c by simp_all
    show ?thesis
    proof (cases "xs = [] \<or> ys' = []")
      case True
      with p Cons.prems(4) c show ?thesis by (auto split: if_splits)
    next
      case False
      with p have "join [44] (map f xs) @ r # s = join [44] (map g ys') @ r # t" by simp
      moreover have "x \<in> set xs \<Longrightarrow> y \<in> set ys' \<Longrightarrow> stops s \<Longrightarrow> stops t \<Longrightarrow> f x @ s = g y @ t
          \<Longrightarrow> P x y \<and> s = t" for x y s t
        by (rule Cons.prems(1)) (simp_all add: c)
      ultimately have "list_all2 P xs ys' \<and> s = t"
        using Cons.prems(2-4) c by (intro Cons.IH) simp_all
      with p c show ?thesis by simp
    qed
  qed
qed

lemma int_text_chars: "int_text i \<noteq> [] \<and> set (int_text i) \<subseteq> number_chars"
proof -
  have "of_char c \<in> number_chars" if "is_digit c" for c
    using that by (auto simp: is_digit_def byte_def number_chars_def)
  with show_nat_digits have "set (ascii (show_nat n)) \<subseteq> number_chars" for n
    by (auto simp: ascii_def)
  moreover have "show_nat n \<noteq> []" for n by (rule show_nat_ne)
  ultimately show ?thesis by (auto simp: int_text_def show_int_def ascii_def number_chars_def)
qed

lemma number_text_chars:
  "ecmascript_text fo \<Longrightarrow> write_number fo n = Inr t \<Longrightarrow> t \<noteq> [] \<and> set t \<subseteq> number_chars"
  using int_text_chars by (cases n) (auto simp: rbind_Inr_iff ecmascript_text_def split: if_splits)

lemma show_int_inj: "show_int i = show_int j \<longleftrightarrow> i = j"
proof -
  have "CHR ''-'' \<notin> set (show_nat n)" for n
    using show_nat_digits [of n] by (auto simp: is_digit_def byte_def)
  then have "hd (show_nat n) \<noteq> CHR ''-''" for n by (metis hd_in_set show_nat_ne)
  then have "show_nat n \<noteq> CHR ''-'' # s" "CHR ''-'' # s \<noteq> show_nat n" for n s by (metis list.sel(1))+
  then show ?thesis
    by (cases "i < 0"; cases "j < 0") (simp_all add: show_int_def show_nat_inj nat_eq_iff)
qed

text \<open>Two numbers that have a text have the same one exactly when they are the same number.\<close>

lemma number_text_iff:
  assumes "write_number fo m = Inr s" "write_number fo n = Inr t"
  shows "s = t \<longleftrightarrow> same_number fo m n"
proof -
  have "inj (of_char :: char \<Rightarrow> nat)" by (simp add: inj_def)
  then have "int_text i = int_text j \<longleftrightarrow> i = j" for i j
    by (simp add: int_text_def ascii_def inj_map_eq_map show_int_inj)
  moreover have "write_number fo k = Inr u \<Longrightarrow>
      u = (case k of Float f \<Rightarrow> fo_ryu_js fo f | PosInt v \<Rightarrow> int_text (uint v) | NegInt i \<Rightarrow> int_text i)" for k u
    by (cases k) (simp_all add: rbind_Inr_iff split: if_splits)
  note this [OF assms(1)] this [OF assms(2)]
  ultimately show ?thesis
    by (cases m; cases n) (simp_all add: int_text_def [symmetric] ascii_def [symmetric])
qed

lemma number_split:
  assumes "set a \<subseteq> number_chars" "set b \<subseteq> number_chars" "stops s" "stops t" "a @ s = b @ t"
  shows "a = b \<and> s = t"
proof -
  have "takeWhile (\<lambda>c. c \<in> number_chars) (a @ s) = a" if "set a \<subseteq> number_chars" "stops s" for a s
    using that by (cases s) (auto simp: takeWhile_append stops_def number_chars_def)
  with assms show ?thesis by (metis append_eq_append_conv2 same_append_eq)
qed

fun heads :: "'f json \<Rightarrow> nat set" where
  "heads JsonNull = {110}"
| "heads (JsonBool b) = {if b then 116 else 102}"
| "heads (JsonNumber _) = number_chars"
| "heads (JsonString _) = {34}"
| "heads (JsonArray _) = {91}"
| "heads (JsonObject _) = {123}"

lemma write_head:
  "ecmascript_text fo \<Longrightarrow> write_value fo v = Inr t \<Longrightarrow> t \<noteq> [] \<and> hd t \<in> heads v"
  using number_text_chars [of fo _ t]
  by (cases v) (auto simp: ascii_def write_string_def braced_def rbind_Inr_iff split: if_splits
      dest: hd_in_set)

lemma write_starts: "ecmascript_text fo \<Longrightarrow> write_value fo v = Inr t \<Longrightarrow> starts t"
  using write_head [of fo v t] by (cases v) (auto simp: starts_def number_chars_def)

text \<open>The written text of a value that has one.\<close>

definition text_of :: "'f float_ops \<Rightarrow> 'f json \<Rightarrow> ustring" where
  "text_of fo v = (case write_value fo v of Inl _ \<Rightarrow> [] | Inr t \<Rightarrow> t)"

definition member_text :: "'f float_ops \<Rightarrow> ustring \<times> 'f json \<Rightarrow> ustring" where
  "member_text fo m = write_string (fst m) @ 58 # text_of fo (snd m)"

lemma write_array:
  "write_value fo (JsonArray xs) = Inr t \<longleftrightarrow>
     (\<forall>x \<in> set xs. is_ok (write_value fo x)) \<and> t = braced 91 93 (map (text_of fo) xs)"
proof -
  have "map (write_value fo) xs = map Inr ts \<longleftrightarrow>
      (\<forall>x \<in> set xs. is_ok (write_value fo x)) \<and> ts = map (text_of fo) xs" for ts
    by (induction xs arbitrary: ts) (auto simp: is_ok_iff text_of_def Cons_eq_map_conv)
  then show ?thesis by (auto simp: rbind_Inr_iff collect_Inr_iff)
qed

lemma write_object:
  "write_value fo (JsonObject m) = Inr t \<longleftrightarrow>
     (\<forall>x \<in> set m. is_ok (write_value fo (snd x)))
     \<and> t = braced 123 125 (map (member_text fo) (sort_by compare_members m))"
proof -
  have "map (\<lambda>(k, v). rbind (write_value fo v) (\<lambda>t. Inr (write_string k @ 58 # t))) xs = map Inr ts \<longleftrightarrow>
      (\<forall>x \<in> set xs. is_ok (write_value fo (snd x))) \<and> ts = map (member_text fo) xs" for xs ts
    by (induction xs arbitrary: ts)
      (auto simp: is_ok_iff text_of_def member_text_def rbind_Inr_iff Cons_eq_map_conv)
  then show ?thesis by (auto simp: rbind_Inr_iff collect_Inr_iff)
qed

lemma containers_ok:
  "is_ok (write_value fo (JsonArray xs)) \<longleftrightarrow> (\<forall>x \<in> set xs. is_ok (write_value fo x))"
  "is_ok (write_value fo (JsonObject m)) \<longleftrightarrow> (\<forall>x \<in> set m. is_ok (write_value fo (snd x)))"
  by (simp_all only: is_ok_iff [of "write_value fo (JsonArray xs)"] write_array
      is_ok_iff [of "write_value fo (JsonObject m)"] write_object) simp_all

lemma containers_text:
  "\<forall>x \<in> set xs. is_ok (write_value fo x) \<Longrightarrow>
     text_of fo (JsonArray xs) = braced 91 93 (map (text_of fo) xs)"
  "\<forall>x \<in> set m. is_ok (write_value fo (snd x)) \<Longrightarrow>
     text_of fo (JsonObject m) = braced 123 125 (map (member_text fo) (sort_by compare_members m))"
  using write_array [of fo xs "braced 91 93 (map (text_of fo) xs)"]
    write_object [of fo m "braced 123 125 (map (member_text fo) (sort_by compare_members m))"]
  by (simp_all add: text_of_def [of fo "JsonArray xs"] text_of_def [of fo "JsonObject m"]
      del: write_value.simps)

lemma starts_text_of: "ecmascript_text fo \<Longrightarrow> is_ok (write_value fo v) \<Longrightarrow> starts (text_of fo v)"
  using write_starts by (auto simp: is_ok_iff text_of_def)

lemma heads_meet:
  assumes "ecmascript_text fo" "is_ok (write_value fo v)" "is_ok (write_value fo w)"
    and "text_of fo v @ s = text_of fo w @ t"
  shows "heads v \<inter> heads w \<noteq> {}"
proof -
  have "text_of fo u \<noteq> [] \<and> hd (text_of fo u) \<in> heads u" if "is_ok (write_value fo u)" for u
    using that write_head [OF assms(1)] by (auto simp: is_ok_iff text_of_def)
  with assms(2-4) have "hd (text_of fo v) \<in> heads v" "hd (text_of fo v) \<in> heads w"
    by (metis hd_append2)+
  then show ?thesis by blast
qed

lemma members_agree:
  assumes "list_all2 (\<lambda>a b. fst a = fst b \<and> P (snd a) (snd b)) xs ys"
  shows "fst ` set xs = fst ` set ys
    \<and> (distinct (map fst xs) \<longrightarrow> (\<forall>k v w. (k, v) \<in> set xs \<longrightarrow> (k, w) \<in> set ys \<longrightarrow> P v w))"
  using assms
proof (induction rule: list_all2_induct)
  case (Cons a xs b ys)
  have "(k, v) \<in> set xs \<Longrightarrow> k \<in> fst ` set ys" "(k, w) \<in> set ys \<Longrightarrow> k \<in> fst ` set xs" for k v w
    using Cons.IH by force+
  with Cons show ?case by (cases a; cases b) (auto; force)
qed simp

lemma members_sorted: "map fst (sort_by compare_members m) = sort_by compare_utf16 (map fst m)"
  by (simp add: sort_by_map compare_members_def [abs_def])

lemma write_split:
  assumes fo: "ecmascript_text fo"
  shows "is_ok (write_value fo v) \<Longrightarrow> is_ok (write_value fo w) \<Longrightarrow> well_formed v \<Longrightarrow> well_formed w \<Longrightarrow>
    stops s \<Longrightarrow> stops t \<Longrightarrow> text_of fo v @ s = text_of fo w @ t \<Longrightarrow> same_json fo v w \<and> s = t"
proof (induction v arbitrary: w s t)
  case JsonNull
  with heads_meet [OF fo JsonNull(1,2,7)] show ?case
    by (cases w) (auto simp: number_chars_def text_of_def intro: same_json.null split: if_splits)
next
  case (JsonBool b)
  with heads_meet [OF fo JsonBool(1,2,7)] show ?case
    by (cases w) (auto simp: number_chars_def text_of_def intro: same_json.bool split: if_splits)
next
  case (JsonNumber n)
  then obtain m where w: "w = JsonNumber m"
    using heads_meet [OF fo JsonNumber(1,2,7)] by (cases w) (auto simp: number_chars_def split: if_splits)
  obtain a b where ab: "write_number fo n = Inr a" "write_number fo m = Inr b"
    using JsonNumber(1,2) w by (auto simp: is_ok_iff)
  have "a = b \<and> s = t"
    using JsonNumber w ab number_text_chars [OF fo ab(1)] number_text_chars [OF fo ab(2)]
    by (intro number_split) (simp_all add: text_of_def)
  with w number_text_iff [OF ab] show ?case by (auto intro: same_json.num)
next
  case (JsonString u)
  then obtain u' where w: "w = JsonString u'"
    using heads_meet [OF fo JsonString(1,2,7)] by (cases w) (auto simp: number_chars_def split: if_splits)
  with JsonString str.enc_rest [of u s u' t] show ?case by (auto simp: text_of_def intro: same_json.str)
next
  case (JsonArray xs)
  then obtain ys where w: "w = JsonArray ys"
    using heads_meet [OF fo JsonArray.prems(1,2,7)] by (cases w) (auto simp: number_chars_def split: if_splits)
  have ok: "\<forall>x \<in> set xs. is_ok (write_value fo x)" "\<forall>x \<in> set ys. is_ok (write_value fo x)"
    using JsonArray.prems(1,2) unfolding w containers_ok by simp_all
  have "list_all2 (same_json fo) xs ys \<and> s = t"
  proof (rule joined_split [where f = "text_of fo" and g = "text_of fo" and r = 93])
    show "join [44] (map (text_of fo) xs) @ 93 # s = join [44] (map (text_of fo) ys) @ 93 # t"
      using JsonArray.prems(7) w ok by (simp add: containers_text braced_def)
  qed (use JsonArray w ok starts_text_of [OF fo] in \<open>auto simp: list_all_iff\<close>)
  with w show ?case by (auto intro: same_json.arr)
next
  case (JsonObject m)
  then obtain n where w: "w = JsonObject n"
    using heads_meet [OF fo JsonObject.prems(1,2,7)] by (cases w) (auto simp: number_chars_def split: if_splits)
  let ?ms = "sort_by compare_members m" and ?ns = "sort_by compare_members n"
  have ok: "\<forall>x \<in> set m. is_ok (write_value fo (snd x))" "\<forall>x \<in> set n. is_ok (write_value fo (snd x))"
    using JsonObject.prems(1,2) unfolding w containers_ok by simp_all
  have "list_all2 (\<lambda>a b. fst a = fst b \<and> same_json fo (snd a) (snd b)) ?ms ?ns \<and> s = t"
  proof (rule joined_split [where f = "member_text fo" and g = "member_text fo" and r = 125])
    show "join [44] (map (member_text fo) ?ms) @ 125 # s = join [44] (map (member_text fo) ?ns) @ 125 # t"
      using JsonObject.prems(7) w ok by (simp add: containers_text braced_def)
    fix a b s t
    assume ab: "a \<in> set ?ms" "b \<in> set ?ns" and st: "stops s" "stops t"
      and "member_text fo a @ s = member_text fo b @ t"
    then have "fst a = fst b" and eq: "text_of fo (snd a) @ s = text_of fo (snd b) @ t"
      using str.enc_rest [of "fst a" "58 # text_of fo (snd a) @ s" "fst b" "58 # text_of fo (snd b) @ t"]
      by (simp_all add: member_text_def)
    moreover have "same_json fo (snd a) (snd b) \<and> s = t"
    proof (rule JsonObject.IH [of a])
      show "snd a \<in> Basic_BNFs.snds a" by (cases a) simp
    qed (use ab st eq ok JsonObject.prems(3,4) w in \<open>auto simp: list_all_iff\<close>)
    ultimately show "(fst a = fst b \<and> same_json fo (snd a) (snd b)) \<and> s = t" by simp
  qed (simp_all add: member_text_def write_string_def starts_def)
  moreover have "distinct (map fst ?ms)"
    using JsonObject.prems(3) by (simp add: members_sorted)
  ultimately show ?case
    using members_agree [of "same_json fo" ?ms ?ns] w by (auto intro!: same_json.obj)
qed

section \<open>The canonical text identifies the value\<close>

lemma sorted_members_agree:
  assumes "well_formed (JsonObject m)" "well_formed (JsonObject n)" "fst ` set m = fst ` set n"
  shows "map fst (sort_by compare_members m) = map fst (sort_by compare_members n)"
proof -
  have "compare_utf16 x y = Greater \<longleftrightarrow> encode_utf16 y < encode_utf16 x" for x y
    by (auto simp: compare_utf16_def compare_units_cmp cmp_of_def)
  note key = sort_by_key [of compare_utf16 encode_utf16, OF this]
  have "sort_key encode_utf16 (map fst m) = sort_key encode_utf16 (map fst n)"
    using assms by (intro sort_key_unique)
      (auto simp: list_all_iff intro!: inj_onI encode_utf16_inj)
  then show ?thesis by (simp add: members_sorted key)
qed

lemma same_json_write:
  "same_json fo v w \<Longrightarrow> well_formed v \<Longrightarrow> well_formed w \<Longrightarrow> is_ok (write_value fo v) \<Longrightarrow> is_ok (write_value fo w)
     \<Longrightarrow> write_value fo v = write_value fo w"
proof (induction rule: same_json.induct)
  case (num m n)
  then show ?case using number_text_iff [of fo m _ n] by (auto simp: is_ok_iff)
next
  case (arr xs ys)
  then have "list_all (\<lambda>x. is_ok (write_value fo x)) xs" "list_all (\<lambda>x. is_ok (write_value fo x)) ys"
    unfolding containers_ok by (simp_all add: list_all_iff)
  with arr have "map (write_value fo) xs = map (write_value fo) ys"
    by (intro nth_equalityI) (auto simp: list_all2_conv_all_nth list_all_length)
  then show ?case by simp
next
  case (obj m n)
  let ?ms = "sort_by compare_members m" and ?ns = "sort_by compare_members n"
  let ?f = "\<lambda>(k, v). rbind (write_value fo v) (\<lambda>t. Inr (write_string k @ 58 # t))"
  have keys: "map fst ?ms = map fst ?ns"
    using obj.prems(1,2) obj.hyps(1) by (rule sorted_members_agree)
  have oks: "\<forall>x \<in> set m. is_ok (write_value fo (snd x))" "\<forall>x \<in> set n. is_ok (write_value fo (snd x))"
    using obj.prems(3,4) unfolding containers_ok by simp_all
  have "map ?f ?ms = map ?f ?ns"
  proof (rule nth_equalityI)
    show len: "length (map ?f ?ms) = length (map ?f ?ns)" using arg_cong [OF keys, of length] by simp
    fix i
    assume i: "i < length (map ?f ?ms)"
    obtain k v where kv: "?ms ! i = (k, v)" by (cases "?ms ! i")
    obtain k' w where kw: "?ns ! i = (k', w)" by (cases "?ns ! i")
    have "k' = k" using i len arg_cong [OF keys, of "\<lambda>l. l ! i"] kv kw by simp
    moreover have "(k, v) \<in> set m" "(k', w) \<in> set n"
      using i len kv kw by (metis length_map nth_mem set_sort_by)+
    moreover from this have "well_formed v" "well_formed w" "is_ok (write_value fo v)" "is_ok (write_value fo w)"
      using obj.prems(1,2) oks by (auto simp: list_all_iff)
    ultimately have "write_value fo v = write_value fo w"
      using obj.IH [of k v w] by simp
    with i len kv kw \<open>k' = k\<close> show "map ?f ?ms ! i = map ?f ?ns ! i" by simp
  qed
  then show ?case by simp
qed simp_all

text \<open>C30  Canonical JSON identifies the value.  Two values for which the canonicalizer returns a text get
  the same text exactly when they are the same value up to the order of the members of objects, integers
  compared by value and floats by what ECMAScript prints for them: no reordering changes the bytes that are signed, and
  no two different documents share them.\<close>

theorem canonical_text_identifies:
  assumes "ecmascript_text fo" and "well_formed v" and "well_formed w"
    and "canonicalize_value fo v = Inr s" and "canonicalize_value fo w = Inr t"
  shows "s = t \<longleftrightarrow> same_json fo v w"
proof
  assume "s = t"
  with assms write_split [of fo v w "[]" "[]"] show "same_json fo v w"
    by (simp add: canonicalize_value_def text_of_def stops_def)
next
  assume "same_json fo v w"
  with same_json_write [of fo v w] assms show "s = t" by (simp add: canonicalize_value_def is_ok_iff)
qed

section \<open>Duplicate members\<close>

fun complete :: "'f syn_tree \<Rightarrow> bool" where
  "complete (SynBad _) \<longleftrightarrow> False"
| "complete (SynSeq xs e) \<longleftrightarrow> e = None \<and> list_all complete xs"
| "complete (SynMap ms e) \<longleftrightarrow> e = None \<and> list_all (\<lambda>(_, x). complete x) ms"
| "complete _ \<longleftrightarrow> True"

fun unique_members :: "'f syn_tree \<Rightarrow> bool" where
  "unique_members (SynSeq xs _) \<longleftrightarrow> list_all unique_members xs"
| "unique_members (SynMap ms _) \<longleftrightarrow> distinct (map fst ms) \<and> list_all (\<lambda>(_, x). unique_members x) ms"
| "unique_members _ \<longleftrightarrow> True"

fun value_of :: "'f syn_tree \<Rightarrow> 'f json" where
  "value_of (SynBool b) = JsonBool b"
| "value_of (SynNumber n) = JsonNumber n"
| "value_of (SynString s) = JsonString s"
| "value_of (SynSeq xs _) = JsonArray (map value_of xs)"
| "value_of (SynMap ms _) = JsonObject (map (\<lambda>(k, x). (k, value_of x)) ms)"
| "value_of _ = JsonNull"

lemma visit_Inr_iff:
  "visit_value tree = Inr v \<longleftrightarrow> complete tree \<and> unique_members tree \<and> v = value_of tree"
  "visit_seq xs e = Inr vs \<longleftrightarrow> e = None \<and> list_all complete xs \<and> list_all unique_members xs
     \<and> vs = map value_of xs"
  "visit_map seen ms e = Inr us \<longleftrightarrow> e = None \<and> list_all (\<lambda>(_, x). complete x) ms
     \<and> distinct (map fst ms) \<and> fst ` set ms \<inter> seen = {} \<and> list_all (\<lambda>(_, x). unique_members x) ms
     \<and> us = map (\<lambda>(k, x). (k, value_of x)) ms"
  for tree :: "'f syn_tree" and xs :: "'f syn_tree list" and ms :: "(ustring \<times> 'f syn_tree) list"
proof (induction tree and xs e and seen ms e arbitrary: v and vs and us
    rule: visit_value_visit_seq_visit_map.induct)
  case (11 seen m ms e)
  then show ?case by (cases m) (auto simp: rbind_Inr_iff)
qed (auto simp: rbind_Inr_iff split: option.splits)

text \<open>Duplicate members are refused: the text has a value exactly when the parser accepts all of it and
  no object of it, at any depth, names a member twice; the value is then the one the text denotes.\<close>

theorem duplicates_refused:
  "parse_value from_str input = Inr v \<longleftrightarrow>
     (case from_str input of (tree, trailing) \<Rightarrow>
        trailing = None \<and> complete tree \<and> unique_members tree \<and> v = value_of tree)"
  by (auto simp: parse_value_def rbind_Inr_iff visit_Inr_iff split: prod.splits option.splits)

section \<open>Concrete runs\<close>

definition no_floats :: "unit float_ops" where
  "no_floats = \<lparr>fo_is_finite = \<lambda>_. True, fo_ryu_js = \<lambda>_. [48], fo_to_string = \<lambda>_. [48]\<rparr>"

theorem canonical_text_identifies_witness:
  "\<exists>s. canonicalize_value no_floats
     (JsonObject [([98], JsonNumber (NegInt (- 1))), ([97], JsonArray [JsonNull, JsonBool True])]) = Inr s
   \<and> canonicalize_value no_floats
     (JsonObject [([97], JsonArray [JsonNull, JsonBool True]), ([98], JsonNumber (NegInt (- 1)))]) = Inr s"
proof -
  let ?v = "JsonObject [([98], JsonNumber (NegInt (- 1))), ([97], JsonArray [JsonNull, JsonBool True])]"
  let ?w = "JsonObject [([97], JsonArray [JsonNull, JsonBool True]), ([98], JsonNumber (NegInt (- 1)))]"
  have e: "ecmascript_text no_floats" by (simp add: ecmascript_text_def no_floats_def number_chars_def)
  have wf: "well_formed ?v" "well_formed ?w" by (simp_all add: scalar_def)
  have "is_ok (write_value no_floats (JsonNumber (NegInt (- 1))))"
    by (simp add: ensure_safe_integer_def ensure_def)
  then have "is_ok (write_value no_floats ?v)" "is_ok (write_value no_floats ?w)"
    by (simp_all only: containers_ok) (simp_all add: containers_ok(1) del: write_value.simps(3,5,6))
  then obtain s t where st: "canonicalize_value no_floats ?v = Inr s" "canonicalize_value no_floats ?w = Inr t"
    unfolding canonicalize_value_def is_ok_iff by blast
  have "same_json no_floats (JsonArray [JsonNull, JsonBool True]) (JsonArray [JsonNull, JsonBool True])"
    by (rule same_json.arr) (simp add: same_json.null same_json.bool)
  then have "same_json no_floats ?v ?w"
    by (intro same_json.obj) (auto intro: same_json.num)
  with canonical_text_identifies [OF e wf st] st show ?thesis by simp
qed

end
