(* ===== verification/Rust_Map.thy ===== *)
theory Rust_Map
  imports Sequences Rust_Str "HOL-Library.List_Lexorder" "HOL-Library.Char_ord"
begin

text \<open>
  \<open>BTreeMap\<close> as the list of its entries in key order, \<open>split_once\<close>, and integers parsed in a radix.
  Strings are compared byte by byte, as \<open>str::cmp\<close> does.
\<close>

section \<open>Ordered maps\<close>

type_synonym ('k, 'v) btree = "('k \<times> 'v) list"

fun btree_insert :: "'k::linorder \<Rightarrow> 'v \<Rightarrow> ('k, 'v) btree \<Rightarrow> ('k, 'v) btree" where
  "btree_insert k v [] = [(k, v)]"
| "btree_insert k v ((j, w) # m) =
     (if k < j then (k, v) # (j, w) # m
      else if k = j then (k, v) # m
      else (j, w) # btree_insert k v m)"

definition btree_remove :: "'k \<Rightarrow> ('k, 'v) btree \<Rightarrow> ('k, 'v) btree" where
  "btree_remove k m = filter (\<lambda>e. fst e \<noteq> k) m"

definition btree_ok :: "('k::linorder, 'v) btree \<Rightarrow> bool" where
  "btree_ok m \<longleftrightarrow> sorted_wrt (<) (map fst m)"

lemma set_btree_insert_keys [simp]: "fst ` set (btree_insert k v m) = insert k (fst ` set m)"
  by (induction k v m rule: btree_insert.induct) auto

lemma btree_ok_Nil [simp]: "btree_ok []"
  by (simp add: btree_ok_def)

lemma btree_ok_insert [simp]: "btree_ok m \<Longrightarrow> btree_ok (btree_insert k v m)"
proof (induction k v m rule: btree_insert.induct)
  case (2 k v j w m)
  have "\<forall>x \<in> set (map fst (btree_insert k v m)). j < x" if "j < k" "\<forall>x \<in> set (map fst m). j < x"
    using that by auto
  with 2 show ?case by (auto simp: btree_ok_def)
qed (simp add: btree_ok_def)

lemma btree_ok_remove [simp]: "btree_ok m \<Longrightarrow> btree_ok (btree_remove k m)"
  by (induction m) (auto simp: btree_ok_def btree_remove_def)

lemma map_of_btree_insert [simp]: "btree_ok m \<Longrightarrow> map_of (btree_insert k v m) = (map_of m)(k \<mapsto> v)"
proof (induction k v m rule: btree_insert.induct)
  case (2 k v j w m)
  have "map_of m k = None" if "k < j"
    using that 2(2) by (force simp: btree_ok_def map_of_eq_None_iff)
  with 2 show ?case by (auto simp: btree_ok_def fun_eq_iff)
qed simp

lemma map_of_btree_remove [simp]: "map_of (btree_remove k m) = (map_of m)(k := None)"
  by (induction m) (auto simp: btree_remove_def fun_eq_iff)

lemma distinct_btree: "btree_ok m \<Longrightarrow> distinct (map fst m)"
  unfolding btree_ok_def using strict_sorted_iff by blast

text \<open>A map has one representation.\<close>

lemma btree_eqI:
  assumes "btree_ok m" "btree_ok n" "map_of m = map_of n"
  shows "m = n"
proof (rule map_sorted_distinct_set_unique [of fst])
  show "inj_on fst (set m \<union> set n)"
  proof (rule inj_onI)
    fix x y
    assume xy: "x \<in> set m \<union> set n" "y \<in> set m \<union> set n" "fst x = fst y"
    have "map_of m (fst z) = Some (snd z)" if "z \<in> set m \<union> set n" for z
      using that assms(3) distinct_btree [OF assms(1)] distinct_btree [OF assms(2)]
      by (cases z) (metis Un_iff fst_conv map_of_eq_Some_iff snd_conv)
    with xy show "x = y" by (metis option.inject prod.expand)
  qed
  show "set m = set n"
    using assms(3) distinct_btree [OF assms(1)] distinct_btree [OF assms(2)] by (metis map_of_inject_set)
qed (use assms in \<open>auto simp: btree_ok_def dest: strict_sorted_imp_sorted intro: distinct_btree\<close>)

definition btree_of :: "('k::linorder \<times> 'v) list \<Rightarrow> ('k, 'v) btree" where
  "btree_of es = fold (\<lambda>(k, v). btree_insert k v) es []"

section \<open>Splitting at the first separator\<close>

definition split_once :: "char \<Rightarrow> string \<Rightarrow> (string \<times> string) option" where
  "split_once c s =
     (case dropWhile (\<lambda>x. x \<noteq> c) s of [] \<Rightarrow> None | _ # r \<Rightarrow> Some (takeWhile (\<lambda>x. x \<noteq> c) s, r))"

lemma split_once_Some_iff: "split_once c s = Some (a, b) \<longleftrightarrow> s = a @ c # b \<and> c \<notin> set a"
proof
  assume "split_once c s = Some (a, b)"
  then obtain x where "dropWhile (\<lambda>x. x \<noteq> c) s = x # b" "a = takeWhile (\<lambda>x. x \<noteq> c) s"
    by (auto simp: split_once_def split: list.splits)
  moreover from this have "x = c" using hd_dropWhile [of "\<lambda>x. x \<noteq> c" s] by auto
  ultimately show "s = a @ c # b \<and> c \<notin> set a"
    by (metis (mono_tags, lifting) set_takeWhileD takeWhile_dropWhile_id)
next
  assume "s = a @ c # b \<and> c \<notin> set a"
  moreover from this have "takeWhile (\<lambda>x. x \<noteq> c) (a @ c # b) = a" "dropWhile (\<lambda>x. x \<noteq> c) (a @ c # b) = c # b"
    by (auto simp: takeWhile_append dropWhile_append)
  ultimately show "split_once c s = Some (a, b)" by (simp add: split_once_def)
qed

lemma split_once_None_iff: "split_once c s = None \<longleftrightarrow> c \<notin> set s"
  using dropWhile_eq_Nil_conv [of "\<lambda>x. x \<noteq> c" s]
  by (auto simp: split_once_def simp del: dropWhile_eq_Nil_conv split: list.splits)

section \<open>Lines\<close>

text \<open>\<open>str::lines\<close>: a line ends at a line feed, with the carriage return before it.\<close>

definition strip_cr :: "string \<Rightarrow> string" where
  "strip_cr l = (if l \<noteq> [] \<and> last l = CHR 0x0D then butlast l else l)"

definition str_lines :: "string \<Rightarrow> string list" where
  "str_lines s =
     (let ps = split_on (CHR 0x0A) s
      in map strip_cr (butlast ps) @ (if last ps = [] then [] else [last ps]))"

section \<open>Integers in a radix\<close>

text \<open>\<open>from_str_radix\<close> of an unsigned type with the given maximum: one leading plus sign, digits and
  letters of either case.\<close>

definition digit_value :: "char \<Rightarrow> nat option" where
  "digit_value c =
     (let n = (of_char c :: nat)
      in if 48 \<le> n \<and> n \<le> 57 then Some (n - 48)
         else if 97 \<le> n \<and> n \<le> 122 then Some (n - 87)
         else if 65 \<le> n \<and> n \<le> 90 then Some (n - 55) else None)"

fun radix_value :: "nat \<Rightarrow> nat \<Rightarrow> nat \<Rightarrow> string \<Rightarrow> nat option" where
  "radix_value base bound acc [] = Some acc"
| "radix_value base bound acc (c # cs) =
     (case digit_value c of
        None \<Rightarrow> None
      | Some d \<Rightarrow> if base \<le> d \<or> bound < acc * base + d then None
                  else radix_value base bound (acc * base + d) cs)"

definition parse_radix :: "nat \<Rightarrow> nat \<Rightarrow> string \<Rightarrow> nat option" where
  "parse_radix base bound s =
     (let digits = (case s of c # cs \<Rightarrow> if c = CHR ''+'' then cs else s | [] \<Rightarrow> [])
      in if digits = [] then None else radix_value base bound 0 digits)"

section \<open>UTF-8\<close>

text \<open>\<open>char::from_u32\<close> and the bytes of the character.\<close>

definition utf8_of_scalar :: "nat \<Rightarrow> string option" where
  "utf8_of_scalar c =
     (if c < 0x80 then Some [char_of c]
      else if c < 0x800 then Some [char_of (0xC0 + c div 64), char_of (0x80 + c mod 64)]
      else if c < 0xD800 \<or> 0xE000 \<le> c \<and> c < 0x10000
      then Some [char_of (0xE0 + c div 4096), char_of (0x80 + c div 64 mod 64), char_of (0x80 + c mod 64)]
      else if 0x10000 \<le> c \<and> c < 0x110000
      then Some [char_of (0xF0 + c div 262144), char_of (0x80 + c div 4096 mod 64),
                 char_of (0x80 + c div 64 mod 64), char_of (0x80 + c mod 64)]
      else None)"

end
