(* ===== verification/Canonical_Xml.thy ===== *)
theory Canonical_Xml
  imports Rust_Map Rust_Str "HOL-Library.Product_Lexorder" "HOL-Library.Multiset"
begin

text \<open>
  The XML half of \<open>crates/canonical/src/lib.rs\<close>: the no-comments C14N profile with the invoice overlay
  of namespace prefixes.  The \<open>quick_xml\<close> reader is outside; a document is the list of its events, each
  with the names and decoded contents the reader gives, or the error it reports there.
\<close>

section \<open>Errors and events\<close>

datatype xml_error =
    InvalidXml string
  | InvalidAttribute string
  | InvalidEncoding string
  | InvalidName string
  | UnboundPrefix string
  | DuplicateAttribute string
  | UnclosedElement string
  | UnexpectedEndTag string
  | UnsupportedDoctype
  | UnsupportedEntityReference string

type_synonym xml_attributes = "(xml_error + string \<times> string) list"

datatype xml_event =
    EvStart string xml_attributes
  | EvEmpty string xml_attributes
  | EvEnd string
  | EvText "xml_error + string"
  | EvCData "xml_error + string"
  | EvGeneralRef "xml_error + string"
  | EvPI string
  | EvDecl "xml_error + unit"
  | EvDocType
  | EvComment
  | EvFailed xml_error

section \<open>Names and namespaces\<close>

definition xml_namespace_uri :: string where
  "xml_namespace_uri = ''http://www.w3.org/XML/1998/namespace''"

definition xmlns_namespace_uri :: string where
  "xmlns_namespace_uri = ''http://www.w3.org/2000/xmlns/''"

record namespace_frame =
  nf_input :: "(string, string) btree"
  nf_output :: "(string, string) btree"

definition frame_root :: namespace_frame where
  "frame_root = \<lparr>nf_input = [(''xml'', xml_namespace_uri)], nf_output = [(''xml'', xml_namespace_uri)]\<rparr>"

record raw_xml_attribute =
  ra_prefix :: string
  ra_local_name :: string
  ra_value :: string

record canonical_xml_attribute =
  ca_rendered_name :: string
  ca_namespace_uri :: string
  ca_local_name :: string
  ca_value :: string

definition split_xml_qname :: "string \<Rightarrow> string \<times> string" where
  "split_xml_qname name = (case split_once (CHR '':'') name of None \<Rightarrow> ([], name) | Some pl \<Rightarrow> pl)"

definition render_xml_qname :: "string \<Rightarrow> string \<Rightarrow> string" where
  "render_xml_qname prefix local_name = (if prefix = [] then local_name else prefix @ '':'' @ local_name)"

definition overlay_prefixes :: "(string \<times> string) list" where
  "overlay_prefixes =
     [(''urn:oasis:names:specification:ubl:schema:xsd:CommonAggregateComponents-2'', ''cac''),
      (''urn:oasis:names:specification:ubl:schema:xsd:CommonBasicComponents-2'', ''cbc''),
      (''urn:oasis:names:specification:ubl:schema:xsd:CommonExtensionComponents-2'', ''ext''),
      (''urn:oasis:names:specification:ubl:schema:xsd:QualifiedDataTypes-2'', ''qdt''),
      (''urn:oasis:names:specification:ubl:schema:xsd:UnqualifiedDataTypes-2'', ''udt''),
      (''urn:un:unece:uncefact:data:standard:UnqualifiedDataType:100'', ''udt''),
      (''urn:un:unece:uncefact:data:standard:CrossIndustryInvoice:100'', ''rsm''),
      (''urn:un:unece:uncefact:data:standard:ReusableAggregateBusinessInformationEntity:100'', ''ram''),
      (''http://www.w3.org/2000/09/xmldsig#'', ''ds''),
      (''http://uri.etsi.org/01903/v1.3.2#'', ''xades''),
      (xml_namespace_uri, ''xml'')]"

definition preferred_invoice_prefix :: "string \<Rightarrow> string \<Rightarrow> bool \<Rightarrow> string" where
  "preferred_invoice_prefix uri original_prefix is_attribute =
     (let prefix =
        (if uri = ''urn:oasis:names:specification:ubl:schema:xsd:Invoice-2'' \<and> \<not> is_attribute then []
         else case map_of overlay_prefixes uri of Some p \<Rightarrow> p | None \<Rightarrow> original_prefix)
      in if is_attribute \<and> prefix = [] \<and> uri \<noteq> [] then original_prefix else prefix)"

definition lookup_element_namespace :: "namespace_frame \<Rightarrow> string \<Rightarrow> xml_error + string option" where
  "lookup_element_namespace frame prefix =
     (if prefix = []
      then Inr (case map_of (nf_input frame) [] of None \<Rightarrow> None | Some uri \<Rightarrow> if uri = [] then None else Some uri)
      else case map_of (nf_input frame) prefix of
          None \<Rightarrow> Inl (UnboundPrefix prefix) | Some uri \<Rightarrow> Inr (Some uri))"

definition lookup_attribute_namespace :: "namespace_frame \<Rightarrow> string \<Rightarrow> xml_error + string option" where
  "lookup_attribute_namespace frame prefix =
     (if prefix = [] then Inr None
      else case map_of (nf_input frame) prefix of
          None \<Rightarrow> Inl (UnboundPrefix prefix) | Some uri \<Rightarrow> Inr (Some uri))"

definition resolve_attribute_namespaces ::
  "namespace_frame \<Rightarrow> raw_xml_attribute list \<Rightarrow> xml_error + string option list" where
  "resolve_attribute_namespaces frame raws =
     collect (map (\<lambda>a. lookup_attribute_namespace frame (ra_prefix a)) raws)"

definition ensure_output_namespace ::
  "namespace_frame \<Rightarrow> (string, string) btree \<Rightarrow> string \<Rightarrow> string
     \<Rightarrow> xml_error + namespace_frame \<times> (string, string) btree" where
  "ensure_output_namespace frame declarations prefix uri =
     (if prefix = ''xmlns'' \<or> uri = xmlns_namespace_uri then Inl (UnboundPrefix prefix)
      else if prefix = ''xml'' \<or> uri = xml_namespace_uri then Inr (frame, declarations)
      else if map_of (nf_output frame) prefix = Some uri then Inr (frame, declarations)
      else Inr (frame\<lparr>nf_output := btree_insert prefix uri (nf_output frame)\<rparr>,
                btree_insert prefix uri declarations))"

section \<open>Prefixes of attributes\<close>

text \<open>The source prefixes seen for each namespace.\<close>

definition source_prefixes :: "(raw_xml_attribute \<times> string option) list \<Rightarrow> (string, string set) btree" where
  "source_prefixes ans = fold (\<lambda>(a, ns) m. case ns of
       None \<Rightarrow> m
     | Some uri \<Rightarrow> btree_insert uri
         (insert (ra_prefix a) (case map_of m uri of None \<Rightarrow> {} | Some ps \<Rightarrow> ps)) m) ans []"

text \<open>
  The loop that appends 2, 3, \<dots> to the preferred prefix until it is free.  It needs no more tries than
  there are prefixes that can be taken.
\<close>

definition prefix_candidates :: "string \<Rightarrow> nat \<Rightarrow> string list" where
  "prefix_candidates preferred tries = preferred # map (\<lambda>i. preferred @ show_nat i) [2 ..< tries + 2]"

definition prefix_conflicts ::
  "(string, string) btree \<Rightarrow> (string, string) btree \<Rightarrow> (string, string) btree \<Rightarrow> string \<Rightarrow> string \<Rightarrow> bool" where
  "prefix_conflicts used declarations output uri candidate \<longleftrightarrow>
     (case map_of used candidate of None \<Rightarrow> False | Some owner \<Rightarrow> owner \<noteq> uri)
     \<or> (case (case map_of declarations candidate of None \<Rightarrow> map_of output candidate | Some u \<Rightarrow> Some u) of
          None \<Rightarrow> False | Some bound \<Rightarrow> bound \<noteq> uri)"

definition free_prefix ::
  "(string, string) btree \<Rightarrow> (string, string) btree \<Rightarrow> (string, string) btree \<Rightarrow> string \<Rightarrow> string \<Rightarrow> string" where
  "free_prefix used declarations output uri preferred =
     (case find (\<lambda>c. \<not> prefix_conflicts used declarations output uri c)
             (prefix_candidates preferred (length used + length declarations + length output)) of
        Some c \<Rightarrow> c | None \<Rightarrow> preferred)"

fun assign_prefixes ::
  "(string, string) btree \<Rightarrow> (string, string) btree \<Rightarrow> (string \<times> string) list \<Rightarrow> (string, string) btree
    \<Rightarrow> (string, string) btree \<Rightarrow> (string, string) btree" where
  "assign_prefixes declarations output [] used assignment = assignment"
| "assign_prefixes declarations output ((preferred, uri) # entries) used assignment =
     (if preferred = [] \<or> preferred = ''xml'' \<or> uri = xml_namespace_uri
      then assign_prefixes declarations output entries used (btree_insert uri preferred assignment)
      else let candidate = free_prefix used declarations output uri preferred
           in assign_prefixes declarations output entries (btree_insert candidate uri used)
                (btree_insert uri candidate assignment))"

definition prefix_entries :: "(raw_xml_attribute \<times> string option) list \<Rightarrow> (string \<times> string) list" where
  "prefix_entries ans =
     sort (map (\<lambda>(uri, prefixes). (preferred_invoice_prefix uri (Min prefixes) True, uri)) (source_prefixes ans))"

definition assign_attribute_prefixes ::
  "namespace_frame \<Rightarrow> (string, string) btree \<Rightarrow> (raw_xml_attribute \<times> string option) list
    \<Rightarrow> (string, string) btree" where
  "assign_attribute_prefixes frame declarations ans =
     assign_prefixes declarations (nf_output frame) (prefix_entries ans) [] []"

section \<open>Escaping\<close>

definition is_xml_whitespace :: "char \<Rightarrow> bool" where
  "is_xml_whitespace c \<longleftrightarrow> of_char c \<in> {32, 9, 10, 13 :: nat}"

definition text_char :: "char \<Rightarrow> string" where
  "text_char c =
     (if c = CHR ''&'' then ''&amp;'' else if c = CHR ''<'' then ''&lt;'' else if c = CHR ''>'' then ''&gt;''
      else if c = CHR 0x0D then ''&#xD;'' else [c])"

definition write_xml_text_node :: "string \<Rightarrow> string" where
  "write_xml_text_node t = (if list_all is_xml_whitespace t then [] else concat (map text_char t))"

definition attr_char :: "char \<Rightarrow> string" where
  "attr_char c =
     (if c = CHR ''&'' then ''&amp;'' else if c = CHR ''<'' then ''&lt;'' else if c = CHR 0x22 then ''&quot;''
      else if c = CHR 0x09 then ''&#x9;'' else if c = CHR 0x0A then ''&#xA;''
      else if c = CHR 0x0D then ''&#xD;'' else [c])"

definition write_xml_attr_value :: "string \<Rightarrow> string" where
  "write_xml_attr_value v = concat (map attr_char v)"

definition write_xml_end :: "string \<Rightarrow> string" where
  "write_xml_end rendered_name = ''</'' @ rendered_name @ ''>''"

definition resolve_xml_reference :: "string \<Rightarrow> xml_error + string" where
  "resolve_xml_reference r =
     (if r = ''amp'' then Inr ''&'' else if r = ''lt'' then Inr ''<'' else if r = ''gt'' then Inr ''>''
      else if r = ''apos'' then Inr [CHR 0x27] else if r = ''quot'' then Inr [CHR 0x22]
      else
        let number = (case strip_prefix ''#x'' r of
              Some hex \<Rightarrow> parse_radix 16 (2 ^ 32 - 1) hex
            | None \<Rightarrow> Option.bind (strip_prefix ''#'' r) (parse_radix 10 (2 ^ 32 - 1)))
        in case Option.bind number utf8_of_scalar of
             None \<Rightarrow> Inl (UnsupportedEntityReference r) | Some c \<Rightarrow> Inr c)"

section \<open>Start tags\<close>

text \<open>The first loop of \<open>write_xml_start\<close>: namespace declarations and other attributes.\<close>

fun read_attributes :: "(string, string) btree \<Rightarrow> raw_xml_attribute list \<Rightarrow> xml_attributes
    \<Rightarrow> xml_error + (string, string) btree \<times> raw_xml_attribute list" where
  "read_attributes input raws [] = Inr (input, raws)"
| "read_attributes input raws (Inl e # as) = Inl e"
| "read_attributes input raws (Inr (key, v) # as) =
     (if key = ''xmlns'' then read_attributes (btree_insert [] v input) raws as
      else case strip_prefix ''xmlns:'' key of
          Some prefix \<Rightarrow>
            read_attributes (if prefix \<noteq> ''xml'' \<and> prefix \<noteq> ''xmlns'' then btree_insert prefix v input else input)
              raws as
        | None \<Rightarrow>
            (case split_xml_qname key of (prefix, local_name) \<Rightarrow>
               read_attributes input
                 (raws @ [\<lparr>ra_prefix = prefix, ra_local_name = local_name, ra_value = v\<rparr>]) as))"

text \<open>The loop that renders the attributes, declaring what is not in scope.\<close>

fun render_attributes :: "(string, string) btree \<Rightarrow> namespace_frame \<Rightarrow> (string, string) btree \<Rightarrow> string set
    \<Rightarrow> canonical_xml_attribute list \<Rightarrow> (raw_xml_attribute \<times> string option) list
    \<Rightarrow> xml_error + namespace_frame \<times> (string, string) btree \<times> canonical_xml_attribute list" where
  "render_attributes assignment frame declarations names done [] = Inr (frame, declarations, done)"
| "render_attributes assignment frame declarations names done ((a, ns) # ans) =
     (let prefix = (case ns of None \<Rightarrow> [] | Some uri \<Rightarrow>
            (case map_of assignment uri of Some p \<Rightarrow> p | None \<Rightarrow> []));
          rendered_name = render_xml_qname prefix (ra_local_name a)
      in if rendered_name \<in> names then Inl (DuplicateAttribute rendered_name)
         else rbind (case ns of None \<Rightarrow> Inr (frame, declarations)
                     | Some uri \<Rightarrow> ensure_output_namespace frame declarations prefix uri)
           (\<lambda>(frame1, declarations1).
              render_attributes assignment frame1 declarations1 (insert rendered_name names)
                (done @ [\<lparr>ca_rendered_name = rendered_name,
                          ca_namespace_uri = (case ns of None \<Rightarrow> [] | Some uri \<Rightarrow> uri),
                          ca_local_name = ra_local_name a, ca_value = ra_value a\<rparr>]) ans))"

definition compare_attributes :: "canonical_xml_attribute \<Rightarrow> canonical_xml_attribute \<Rightarrow> ordering" where
  "compare_attributes l r =
     then_with (cmp_of (ca_namespace_uri l) (ca_namespace_uri r))
       (then_with (cmp_of (ca_local_name l) (ca_local_name r))
         (cmp_of (ca_rendered_name l) (ca_rendered_name r)))"

record start_tag =
  tag_name :: string
  tag_declarations :: "(string, string) btree"
  tag_attributes :: "canonical_xml_attribute list"

text \<open>The namespace of the element comes into scope; an element without one undeclares the default.\<close>

definition declare_element ::
  "namespace_frame \<Rightarrow> string option \<Rightarrow> string \<Rightarrow> xml_error + namespace_frame \<times> (string, string) btree" where
  "declare_element frame ns rendered_prefix =
     (case ns of
        Some uri \<Rightarrow> ensure_output_namespace frame [] rendered_prefix uri
      | None \<Rightarrow> Inr (case map_of (nf_output frame) [] of
            Some uri \<Rightarrow> if uri \<noteq> [] then (frame\<lparr>nf_output := btree_remove [] (nf_output frame)\<rparr>, [([], [])])
                       else (frame, [])
          | None \<Rightarrow> (frame, [])))"

text \<open>What \<open>write_xml_start\<close> computes before it writes.\<close>

definition resolve_start :: "namespace_frame \<Rightarrow> string \<Rightarrow> xml_attributes \<Rightarrow> xml_error + start_tag \<times> namespace_frame"
where
  "resolve_start current name attrs =
     rbind (read_attributes (nf_input current) [] attrs) (\<lambda>(input, raws).
       let frame = current\<lparr>nf_input := input\<rparr>; (prefix, local_name) = split_xml_qname name
       in rbind (lookup_element_namespace frame prefix) (\<lambda>ns.
         let rendered_prefix = (case ns of None \<Rightarrow> [] | Some uri \<Rightarrow> preferred_invoice_prefix uri prefix False)
         in rbind (declare_element frame ns rendered_prefix) (\<lambda>(frame1, declarations).
           rbind (resolve_attribute_namespaces frame1 raws) (\<lambda>nss.
             rbind (render_attributes (assign_attribute_prefixes frame1 declarations (zip raws nss))
                      frame1 declarations {} [] (zip raws nss)) (\<lambda>(frame2, declarations2, attributes).
               Inr (\<lparr>tag_name = render_xml_qname rendered_prefix local_name, tag_declarations = declarations2,
                     tag_attributes = sort_by compare_attributes attributes\<rparr>, frame2))))))"

definition start_text :: "start_tag \<Rightarrow> string" where
  "start_text tag =
     ''<'' @ tag_name tag
     @ concat (map (\<lambda>(prefix, uri). '' '' @ (if prefix = [] then ''xmlns'' else ''xmlns:'' @ prefix)
                     @ [CHR ''='', CHR 0x22] @ write_xml_attr_value uri @ [CHR 0x22]) (tag_declarations tag))
     @ concat (map (\<lambda>a. '' '' @ ca_rendered_name a @ [CHR ''='', CHR 0x22]
                     @ write_xml_attr_value (ca_value a) @ [CHR 0x22]) (tag_attributes tag))
     @ ''>''"

definition write_xml_start :: "namespace_frame \<Rightarrow> string \<Rightarrow> xml_attributes
    \<Rightarrow> xml_error + string \<times> namespace_frame \<times> string" where
  "write_xml_start current name attrs =
     rbind (resolve_start current name attrs) (\<lambda>(tag, frame). Inr (tag_name tag, frame, start_text tag))"

section \<open>The document\<close>

text \<open>The loop over the events: the frames and the open elements are stacks, the top first.\<close>

fun xml_loop :: "namespace_frame list \<Rightarrow> string list \<Rightarrow> string \<Rightarrow> xml_event list \<Rightarrow> xml_error + string" where
  "xml_loop frames opened out [] = (case opened of [] \<Rightarrow> Inr out | element # _ \<Rightarrow> Inl (UnclosedElement element))"
| "xml_loop frames opened out (EvStart name attrs # es) =
     (case frames of
        [] \<Rightarrow> Inl (UnexpectedEndTag [])
      | current # _ \<Rightarrow> rbind (write_xml_start current name attrs)
          (\<lambda>(element, frame, t). xml_loop (frame # frames) (element # opened) (out @ t) es))"
| "xml_loop frames opened out (EvEmpty name attrs # es) =
     (case frames of
        [] \<Rightarrow> Inl (UnexpectedEndTag [])
      | current # _ \<Rightarrow> rbind (write_xml_start current name attrs)
          (\<lambda>(element, _, t). xml_loop frames opened (out @ t @ write_xml_end element) es))"
| "xml_loop frames opened out (EvEnd name # es) =
     (case opened of
        [] \<Rightarrow> Inl (UnexpectedEndTag name)
      | element # rest \<Rightarrow> xml_loop (tl frames) rest (out @ write_xml_end element) es)"
| "xml_loop frames opened out (EvText t # es) =
     rbind t (\<lambda>s. xml_loop frames opened (out @ write_xml_text_node s) es)"
| "xml_loop frames opened out (EvCData t # es) =
     rbind t (\<lambda>s. xml_loop frames opened (out @ write_xml_text_node s) es)"
| "xml_loop frames opened out (EvGeneralRef r # es) =
     rbind r (\<lambda>s. rbind (resolve_xml_reference s)
       (\<lambda>c. xml_loop frames opened (out @ write_xml_text_node c) es))"
| "xml_loop frames opened out (EvPI content # es) =
     xml_loop frames opened (out @ ''<?'' @ trim content @ ''?>'') es"
| "xml_loop frames opened out (EvDecl d # es) = rbind d (\<lambda>_. xml_loop frames opened out es)"
| "xml_loop frames opened out (EvDocType # es) = Inl UnsupportedDoctype"
| "xml_loop frames opened out (EvComment # es) = xml_loop frames opened out es"
| "xml_loop frames opened out (EvFailed e # es) = Inl e"

definition canonicalize_xml :: "xml_event list \<Rightarrow> xml_error + string" where
  "canonicalize_xml events = xml_loop [frame_root] [] [] events"

section \<open>Free prefixes\<close>

lemma distinct_candidates: "distinct (prefix_candidates p n)"
  using show_nat_inj by (auto simp: prefix_candidates_def distinct_map inj_on_def)

lemma length_candidates: "length (prefix_candidates p n) = Suc n"
  by (simp add: prefix_candidates_def del: upt_Suc)

lemma conflicts_bound:
  "prefix_conflicts used declarations output uri c \<Longrightarrow>
     c \<in> fst ` set used \<union> fst ` set declarations \<union> fst ` set output"
  by (auto simp: prefix_conflicts_def split: option.splits dest: map_of_SomeD
      intro: rev_image_eqI)

text \<open>The search finds a prefix that is free.\<close>

lemma free_prefix_free:
  "\<not> prefix_conflicts used declarations output uri (free_prefix used declarations output uri preferred)
   \<and> free_prefix used declarations output uri preferred \<in> set (prefix_candidates preferred
       (length used + length declarations + length output))"
proof -
  let ?n = "length used + length declarations + length output"
  let ?cs = "prefix_candidates preferred ?n"
  let ?bound = "fst ` set used \<union> fst ` set declarations \<union> fst ` set output"
  have "\<exists>c \<in> set ?cs. \<not> prefix_conflicts used declarations output uri c"
  proof (rule ccontr)
    assume "\<not> ?thesis"
    then have "set ?cs \<subseteq> ?bound" using conflicts_bound by blast
    then have "card (set ?cs) \<le> card ?bound" by (intro card_mono) auto
    also have "\<dots> \<le> ?n"
      by (intro order_trans [OF card_Un_le] add_mono order_trans [OF card_image_le] card_length) auto
    finally show False
      using distinct_card [OF distinct_candidates, of preferred ?n] by (simp add: length_candidates)
  qed
  then obtain c where c: "find (\<lambda>c. \<not> prefix_conflicts used declarations output uri c) ?cs = Some c"
    by (metis find_None_iff option.exhaust)
  then have "\<not> prefix_conflicts used declarations output uri c \<and> c \<in> set ?cs"
    unfolding find_Some_iff by auto
  moreover have "free_prefix used declarations output uri preferred = c"
    unfolding free_prefix_def by (simp only: c option.case)
  ultimately show ?thesis by simp
qed

lemma free_prefix_starts:
  "\<exists>ds. free_prefix used declarations output uri preferred = preferred @ ds \<and> (ds = [] \<or> (\<exists>n. ds = show_nat n))"
proof -
  let ?c = "free_prefix used declarations output uri preferred"
  obtain n where "?c \<in> set (prefix_candidates preferred n)" using free_prefix_free by blast
  then show ?thesis by (auto simp: prefix_candidates_def)
qed

section \<open>What a start tag means\<close>

definition frame_ok :: "namespace_frame \<Rightarrow> bool" where
  "frame_ok f \<longleftrightarrow> btree_ok (nf_input f) \<and> btree_ok (nf_output f)
     \<and> map_of (nf_input f) ''xml'' = Some xml_namespace_uri
     \<and> map_of (nf_output f) ''xml'' = Some xml_namespace_uri"

lemma frame_ok_root: "frame_ok frame_root"
  by (simp add: frame_ok_def frame_root_def btree_ok_def)

lemma read_attributes_frame:
  "read_attributes input raws attrs = Inr (input', raws') \<Longrightarrow> btree_ok input \<Longrightarrow>
     map_of input ''xml'' = Some u \<Longrightarrow> btree_ok input' \<and> map_of input' ''xml'' = Some u"
  by (induction input raws attrs rule: read_attributes.induct) (auto split: if_splits option.splits prod.splits)

lemma ensure_output_ok:
  assumes "ensure_output_namespace f d p u = Inr (f', d')" "frame_ok f"
    and "p = ''xml'' \<longleftrightarrow> u = xml_namespace_uri"
  shows "frame_ok f' \<and> nf_input f' = nf_input f \<and> map_of (nf_output f') = (map_of (nf_output f))(p \<mapsto> u)"
  using assms by (auto simp: ensure_output_namespace_def frame_ok_def fun_eq_iff split: if_splits)

text \<open>
  The assignment of prefixes: the namespace \<open>xml\<close> has its own prefix, every other namespace one that is
  not bound to another namespace, neither by the assignment itself nor in the output scope.
\<close>

definition prefix_ok :: "(string, string) btree \<Rightarrow> (string, string) btree \<Rightarrow> string \<Rightarrow> string \<Rightarrow> bool" where
  "prefix_ok output used u p \<longleftrightarrow>
     (if u = xml_namespace_uri then p = ''xml''
      else p \<noteq> [] \<and> p \<noteq> ''xml'' \<and> map_of used p = Some u
        \<and> (map_of output p = None \<or> map_of output p = Some u))"

definition assignment_ok :: "(string, string) btree \<Rightarrow> (string, string) btree \<Rightarrow> (string, string) btree \<Rightarrow> bool" where
  "assignment_ok output used A \<longleftrightarrow> btree_ok A \<and> btree_ok used
     \<and> (\<forall>u p. map_of A u = Some p \<longrightarrow> prefix_ok output used u p)"

lemma prefix_okD:
  assumes "prefix_ok output used u p"
  shows "p \<noteq> []" "p = ''xml'' \<longleftrightarrow> u = xml_namespace_uri"
    and "u \<noteq> xml_namespace_uri \<Longrightarrow> map_of output p = None \<or> map_of output p = Some u"
    and "prefix_ok output used v p \<Longrightarrow> u = v"
  using assms by (auto simp: prefix_ok_def split: if_splits)

lemma assignment_okD: "assignment_ok output used A \<Longrightarrow> map_of A u = Some p \<Longrightarrow> prefix_ok output used u p"
  by (simp add: assignment_ok_def)

lemma assignment_ok_insert:
  assumes A: "assignment_ok output used A" and u: "u \<noteq> xml_namespace_uri" and c: "c \<noteq> []" "c \<noteq> ''xml''"
    and used: "map_of used c = None \<or> map_of used c = Some u"
    and out: "map_of output c = None \<or> map_of output c = Some u"
  shows "assignment_ok output (btree_insert c u used) (btree_insert u c A)"
proof -
  have ok: "btree_ok A" "btree_ok used" using A by (simp_all add: assignment_ok_def)
  have "prefix_ok output (btree_insert c u used) v p" if v: "map_of (btree_insert u c A) v = Some p" for v p
  proof (cases "v = u")
    case True
    with v ok u c out show ?thesis by (simp add: prefix_ok_def)
  next
    case False
    with v ok A have p: "prefix_ok output used v p" by (simp add: assignment_ok_def)
    then have "v \<noteq> xml_namespace_uri \<Longrightarrow> p \<noteq> c" using used False by (auto simp: prefix_ok_def)
    with p ok show ?thesis by (simp add: prefix_ok_def)
  qed
  with ok show ?thesis by (simp add: assignment_ok_def del: map_of_btree_insert)
qed

lemma assign_prefixes_ok:
  assumes xml: "map_of output ''xml'' = Some xml_namespace_uri"
    and declared: "\<And>p u. map_of declarations p = Some u \<Longrightarrow> p \<noteq> [] \<Longrightarrow> map_of output p = Some u"
  shows "assignment_ok output used A \<Longrightarrow>
    \<forall>(p, u) \<in> set entries. p \<noteq> [] \<and> (p = ''xml'' \<longleftrightarrow> u = xml_namespace_uri) \<Longrightarrow>
    (\<exists>used'. assignment_ok output used' (assign_prefixes declarations output entries used A))
    \<and> fst ` set (assign_prefixes declarations output entries used A) = fst ` set A \<union> snd ` set entries"
proof (induction entries arbitrary: used A)
  case (Cons e entries)
  obtain p u where e: "e = (p, u)" by (cases e)
  have pu: "p \<noteq> []" "p = ''xml'' \<longleftrightarrow> u = xml_namespace_uri"
    using Cons.prems(2) e by auto
  have entries: "\<forall>(p, u) \<in> set entries. p \<noteq> [] \<and> (p = ''xml'' \<longleftrightarrow> u = xml_namespace_uri)"
    using Cons.prems(2) by simp
  show ?case
  proof (cases "u = xml_namespace_uri")
    case True
    then have "assignment_ok output used (btree_insert u p A)"
      using Cons.prems(1) pu by (simp add: assignment_ok_def prefix_ok_def)
    from Cons.IH [OF this entries] show ?thesis using True pu e by simp
  next
    case False
    let ?c = "free_prefix used declarations output u p"
    have nc: "\<not> prefix_conflicts used declarations output u ?c" using free_prefix_free by blast
    have ne: "?c \<noteq> []" using free_prefix_starts [where preferred = p] pu(1) by (metis append_is_Nil_conv)
    have out: "map_of output ?c = None \<or> map_of output ?c = Some u"
      using nc declared [of ?c] ne by (cases "map_of declarations ?c"; cases "map_of output ?c")
        (simp_all add: prefix_conflicts_def)
    moreover have "?c \<noteq> ''xml''" using out xml False by auto
    moreover have "map_of used ?c = None \<or> map_of used ?c = Some u"
      using nc by (cases "map_of used ?c") (simp_all add: prefix_conflicts_def)
    ultimately have "assignment_ok output (btree_insert ?c u used) (btree_insert u ?c A)"
      using Cons.prems(1) False ne by (intro assignment_ok_insert) simp_all
    from Cons.IH [OF this entries] show ?thesis using False pu e by (simp add: Let_def)
  qed
qed auto

definition prefixes_of :: "(raw_xml_attribute \<times> string option) list \<Rightarrow> string \<Rightarrow> string set" where
  "prefixes_of ans u = ra_prefix ` {a. (a, Some u) \<in> set ans}"

lemma prefixes_of_snoc:
  "prefixes_of (ans @ [(b, ns)]) u =
     (if ns = Some u then insert (ra_prefix b) (prefixes_of ans u) else prefixes_of ans u)"
  by (auto simp: prefixes_of_def)

lemma finite_prefixes_of: "finite (prefixes_of ans u)"
  by (rule finite_subset [of _ "ra_prefix ` fst ` set ans"]) (force simp: prefixes_of_def)+

lemma source_prefixes_map:
  "btree_ok (source_prefixes ans) \<and> map_of (source_prefixes ans) =
     (\<lambda>u. if prefixes_of ans u = {} then None else Some (prefixes_of ans u))"
proof (induction ans rule: rev_induct)
  case (snoc x ans)
  obtain b ns where x: "x = (b, ns)" by (cases x)
  show ?case
  proof (cases ns)
    case None
    show ?thesis
      using snoc unfolding x None prefixes_of_snoc by (auto simp: source_prefixes_def fun_eq_iff)
  next
    case (Some v)
    have "source_prefixes (ans @ [x]) = btree_insert v
        (insert (ra_prefix b) (case map_of (source_prefixes ans) v of None \<Rightarrow> {} | Some ps \<Rightarrow> ps))
        (source_prefixes ans)"
      by (simp add: source_prefixes_def x Some)
    also have "\<dots> = btree_insert v (insert (ra_prefix b) (prefixes_of ans v)) (source_prefixes ans)"
      using snoc by simp
    finally show ?thesis using snoc x Some by (auto simp: prefixes_of_snoc fun_eq_iff)
  qed
qed (simp add: source_prefixes_def prefixes_of_def)

lemma overlay_prefix:
  "map_of overlay_prefixes u = Some p \<Longrightarrow> p \<noteq> [] \<and> (p = ''xml'' \<longleftrightarrow> u = xml_namespace_uri)"
  by (auto simp: overlay_prefixes_def xml_namespace_uri_def split: if_splits)

lemma overlay_xml: "map_of overlay_prefixes xml_namespace_uri = Some ''xml''"
  by (simp add: overlay_prefixes_def xml_namespace_uri_def)

lemma preferred_attribute_prefix:
  assumes "q \<noteq> []" "q = ''xml'' \<Longrightarrow> u = xml_namespace_uri"
  shows "preferred_invoice_prefix u q True \<noteq> []
    \<and> (preferred_invoice_prefix u q True = ''xml'' \<longleftrightarrow> u = xml_namespace_uri)"
proof (cases "map_of overlay_prefixes u")
  case None
  then have "u \<noteq> xml_namespace_uri" using overlay_xml by auto
  moreover have "preferred_invoice_prefix u q True = q"
    by (simp add: preferred_invoice_prefix_def None)
  ultimately show ?thesis using assms by auto
next
  case (Some p)
  then have "preferred_invoice_prefix u q True = p"
    using overlay_prefix [OF Some] by (simp add: preferred_invoice_prefix_def)
  with overlay_prefix [OF Some] show ?thesis by simp
qed

text \<open>Attributes of which every namespace comes from a source prefix.\<close>

definition sourced :: "(raw_xml_attribute \<times> string option) list \<Rightarrow> bool" where
  "sourced ans \<longleftrightarrow> (\<forall>(a, ns) \<in> set ans. case ns of None \<Rightarrow> True
     | Some u \<Rightarrow> ra_prefix a \<noteq> [] \<and> (ra_prefix a = ''xml'' \<longrightarrow> u = xml_namespace_uri))"

lemma prefix_entries_ok:
  assumes "sourced ans"
  shows "(\<forall>(p, u) \<in> set (prefix_entries ans). p \<noteq> [] \<and> (p = ''xml'' \<longleftrightarrow> u = xml_namespace_uri))
    \<and> snd ` set (prefix_entries ans) = {u. \<exists>a. (a, Some u) \<in> set ans}"
proof
  note sp = source_prefixes_map [of ans]
  show "\<forall>(p, u) \<in> set (prefix_entries ans). p \<noteq> [] \<and> (p = ''xml'' \<longleftrightarrow> u = xml_namespace_uri)"
  proof clarify
    fix p u
    assume "(p, u) \<in> set (prefix_entries ans)"
    then obtain ps where ps: "(u, ps) \<in> set (source_prefixes ans)"
      and p: "p = preferred_invoice_prefix u (Min ps) True"
      by (auto simp: prefix_entries_def)
    have "map_of (source_prefixes ans) u = Some ps"
      using sp ps by (metis distinct_btree map_of_is_SomeI)
    then have "(if prefixes_of ans u = {} then None else Some (prefixes_of ans u)) = Some ps"
      using sp by metis
    then have "ps = prefixes_of ans u" "ps \<noteq> {}" by (simp_all split: if_splits)
    with finite_prefixes_of have "Min ps \<in> prefixes_of ans u" by (metis Min_in)
    then obtain a where "(a, Some u) \<in> set ans" "Min ps = ra_prefix a" by (auto simp: prefixes_of_def)
    then have "Min ps \<noteq> []" "Min ps = ''xml'' \<Longrightarrow> u = xml_namespace_uri"
      using assms by (force simp: sourced_def)+
    from preferred_attribute_prefix [OF this] p
    show "p \<noteq> [] \<and> (p = ''xml'' \<longleftrightarrow> u = xml_namespace_uri)" by simp
  qed
  have "snd ` set (prefix_entries ans) = fst ` set (source_prefixes ans)"
    by (force simp: prefix_entries_def)
  also have "\<dots> = {u. map_of (source_prefixes ans) u \<noteq> None}"
    by (auto simp: map_of_eq_None_iff)
  also have "\<dots> = {u. \<exists>a. (a, Some u) \<in> set ans}" using sp by (auto simp: prefixes_of_def)
  finally show "snd ` set (prefix_entries ans) = {u. \<exists>a. (a, Some u) \<in> set ans}" .
qed

lemma prefix_entries_cong:
  assumes "set ans = set bns"
  shows "prefix_entries ans = prefix_entries bns"
proof -
  have "prefixes_of ans = prefixes_of bns" using assms by (simp add: prefixes_of_def fun_eq_iff)
  then have "map_of (source_prefixes ans) = map_of (source_prefixes bns)"
    unfolding source_prefixes_map [THEN conjunct2] by (rule arg_cong)
  then have "source_prefixes ans = source_prefixes bns"
    by (intro btree_eqI source_prefixes_map [THEN conjunct1])
  then show ?thesis by (simp add: prefix_entries_def)
qed

section \<open>Rendered attributes\<close>

definition attribute_prefix :: "(string, string) btree \<Rightarrow> string option \<Rightarrow> string" where
  "attribute_prefix A ns = (case ns of None \<Rightarrow> [] | Some u \<Rightarrow>
     (case map_of A u of Some p \<Rightarrow> p | None \<Rightarrow> []))"

definition render_attribute ::
  "(string, string) btree \<Rightarrow> raw_xml_attribute \<times> string option \<Rightarrow> canonical_xml_attribute" where
  "render_attribute A = (\<lambda>(a, ns).
     \<lparr>ca_rendered_name = render_xml_qname (attribute_prefix A ns) (ra_local_name a),
      ca_namespace_uri = (case ns of None \<Rightarrow> [] | Some uri \<Rightarrow> uri),
      ca_local_name = ra_local_name a, ca_value = ra_value a\<rparr>)"

text \<open>An assignment as the renderer needs it, for the namespaces of the attributes.\<close>

definition assignment_for ::
  "(string, string) btree \<Rightarrow> namespace_frame \<Rightarrow> (raw_xml_attribute \<times> string option) list \<Rightarrow> bool" where
  "assignment_for A f ans \<longleftrightarrow>
     (\<forall>u p. map_of A u = Some p \<longrightarrow> p \<noteq> [] \<and> (p = ''xml'' \<longleftrightarrow> u = xml_namespace_uri)
        \<and> (map_of (nf_output f) p = None \<or> map_of (nf_output f) p = Some u)
        \<and> (\<forall>v. map_of A v = Some p \<longrightarrow> u = v))
     \<and> (\<forall>(a, ns) \<in> set ans. \<forall>u. ns = Some u \<longrightarrow> map_of A u \<noteq> None)"

definition declarable :: "(string, string) btree \<Rightarrow> (raw_xml_attribute \<times> string option) list \<Rightarrow> bool" where
  "declarable A ans \<longleftrightarrow> (\<forall>(a, ns) \<in> set ans. \<forall>u. ns = Some u \<longrightarrow>
     attribute_prefix A ns \<noteq> ''xmlns'' \<and> u \<noteq> xmlns_namespace_uri)"

lemma assignment_forD:
  assumes "assignment_for A f ans" "map_of A u = Some p"
  shows "p \<noteq> []" "p = ''xml'' \<longleftrightarrow> u = xml_namespace_uri"
    and "map_of (nf_output f) p = None \<or> map_of (nf_output f) p = Some u"
    and "map_of A v = Some p \<Longrightarrow> u = v"
  using assms by (auto simp: assignment_for_def)

lemma assignment_for_step:
  assumes A: "assignment_for A f ((a, ns) # ans)"
    and f': "map_of (nf_output f') = (case ns of None \<Rightarrow> map_of (nf_output f)
        | Some u \<Rightarrow> (map_of (nf_output f))(attribute_prefix A ns \<mapsto> u))"
  shows "assignment_for A f' ans"
proof (cases ns)
  case None
  with assms show ?thesis by (simp add: assignment_for_def)
next
  case (Some u)
  with A obtain p where p: "map_of A u = Some p" by (auto simp: assignment_for_def)
  with f' Some have f': "map_of (nf_output f') = (map_of (nf_output f))(p \<mapsto> u)"
    by (simp add: attribute_prefix_def)
  have "map_of (nf_output f') q = None \<or> map_of (nf_output f') q = Some v" if "map_of A v = Some q" for v q
    using assignment_forD(3) [OF A that] assignment_forD(4) [OF A p, of v] that by (auto simp: f')
  with A show ?thesis by (simp add: assignment_for_def)
qed

text \<open>
  Rendering succeeds exactly when the rendered names differ; then every attribute is rendered with the
  prefix of its namespace, and exactly these prefixes are bound, and declared where they were not.
\<close>

definition rendered_scope ::
  "(string, string) btree \<Rightarrow> namespace_frame \<Rightarrow> (raw_xml_attribute \<times> string option) list
    \<Rightarrow> (string \<rightharpoonup> string)" where
  "rendered_scope A f ans = map_of (concat (map (\<lambda>(a, ns). case ns of None \<Rightarrow> []
      | Some u \<Rightarrow> [(attribute_prefix A ns, u)]) ans)) ++ map_of (nf_output f)"

lemma ensure_output_step:
  assumes "frame_ok f" "btree_ok d" "p = ''xml'' \<longleftrightarrow> u = xml_namespace_uri"
    and "p \<noteq> ''xmlns''" "u \<noteq> xmlns_namespace_uri"
  shows "\<exists>f1 d1. ensure_output_namespace f d p u = Inr (f1, d1) \<and> frame_ok f1 \<and> nf_input f1 = nf_input f
    \<and> map_of (nf_output f1) = (map_of (nf_output f))(p \<mapsto> u) \<and> btree_ok d1
    \<and> map_of d1 = (if map_of (nf_output f) p = Some u then map_of d else (map_of d)(p \<mapsto> u))"
  using assms by (auto simp: ensure_output_namespace_def frame_ok_def fun_eq_iff)

lemma attribute_scope_step:
  assumes "frame_ok f" "btree_ok d"
    and "\<And>u. ns = Some u \<Longrightarrow> (p = ''xml'' \<longleftrightarrow> u = xml_namespace_uri) \<and> p \<noteq> ''xmlns'' \<and> u \<noteq> xmlns_namespace_uri"
  shows "\<exists>f1 d1. (case ns of None \<Rightarrow> Inr (f, d) | Some u \<Rightarrow> ensure_output_namespace f d p u) = Inr (f1, d1)
    \<and> frame_ok f1 \<and> nf_input f1 = nf_input f
    \<and> map_of (nf_output f1) = (case ns of None \<Rightarrow> map_of (nf_output f)
        | Some u \<Rightarrow> (map_of (nf_output f))(p \<mapsto> u))
    \<and> btree_ok d1
    \<and> map_of d1 = (case ns of None \<Rightarrow> map_of d
        | Some u \<Rightarrow> if map_of (nf_output f) p = Some u then map_of d else (map_of d)(p \<mapsto> u))"
proof (cases ns)
  case None
  with assms show ?thesis by simp
next
  case (Some u)
  from assms(3) [OF this] ensure_output_step [OF assms(1,2), of p u] show ?thesis by (simp add: Some)
qed

lemma rendered_scope_step:
  assumes "map_of (nf_output f1) = (case ns of None \<Rightarrow> map_of (nf_output f)
        | Some u \<Rightarrow> (map_of (nf_output f))(attribute_prefix A ns \<mapsto> u))"
    and "\<And>u. ns = Some u \<Longrightarrow> map_of (nf_output f) (attribute_prefix A ns) = None
        \<or> map_of (nf_output f) (attribute_prefix A ns) = Some u"
  shows "rendered_scope A f1 ans = rendered_scope A f ((a, ns) # ans)"
proof (cases ns)
  case None
  with assms(1) show ?thesis by (simp add: rendered_scope_def)
next
  case (Some u)
  then show ?thesis
    using assms(2) [OF Some] by (auto simp: rendered_scope_def assms(1) map_add_def fun_eq_iff
        split: option.splits)
qed

lemma render_attributes_iff:
  assumes "frame_ok f" "btree_ok d" "assignment_for A f ans"
  shows "render_attributes A f d names out ans = Inr (f', d', out') \<longleftrightarrow>
    distinct (map (ca_rendered_name \<circ> render_attribute A) ans)
    \<and> (ca_rendered_name \<circ> render_attribute A) ` set ans \<inter> names = {}
    \<and> declarable A ans
    \<and> out' = out @ map (render_attribute A) ans
    \<and> frame_ok f' \<and> nf_input f' = nf_input f \<and> map_of (nf_output f') = rendered_scope A f ans
    \<and> btree_ok d'
    \<and> map_of d' = (\<lambda>p. if map_of (nf_output f) p = rendered_scope A f ans p then map_of d p
                       else rendered_scope A f ans p)"
  using assms
proof (induction ans arbitrary: f d names out)
  case Nil
  have "rendered_scope A f [] = map_of (nf_output f)"
    by (simp add: rendered_scope_def)
  with Nil show ?case
    by (auto simp: declarable_def frame_ok_def intro: btree_eqI intro!: namespace_frame.equality)
next
  case (Cons x ans)
  obtain a ns where x: "x = (a, ns)" by (cases x)
  let ?p = "attribute_prefix A ns" and ?r = "render_attribute A x"
  have name: "ca_rendered_name ?r = render_xml_qname ?p (ra_local_name a)"
    by (simp add: x render_attribute_def)
  have unfold: "render_attributes A f d names out (x # ans) =
      (if ca_rendered_name ?r \<in> names then Inl (DuplicateAttribute (ca_rendered_name ?r))
       else rbind (case ns of None \<Rightarrow> Inr (f, d) | Some u \<Rightarrow> ensure_output_namespace f d ?p u)
         (\<lambda>(f1, d1). render_attributes A f1 d1 (insert (ca_rendered_name ?r) names) (out @ [?r]) ans))"
    by (simp only: x render_attributes.simps Let_def render_attribute_def attribute_prefix_def prod.case
        canonical_xml_attribute.simps)
  have ns: "(?p = ''xml'' \<longleftrightarrow> u = xml_namespace_uri)
      \<and> (map_of (nf_output f) ?p = None \<or> map_of (nf_output f) ?p = Some u)" if "ns = Some u" for u
  proof -
    have "map_of A u \<noteq> None" using Cons.prems(3) unfolding x that assignment_for_def by simp
    then obtain p where "map_of A u = Some p" by blast
    with assignment_forD [OF Cons.prems(3)] that show ?thesis by (simp add: attribute_prefix_def)
  qed
  show ?case
  proof (cases "\<exists>u. ns = Some u \<and> (?p = ''xmlns'' \<or> u = xmlns_namespace_uri)")
    case True
    then obtain u where u: "ns = Some u" "?p = ''xmlns'' \<or> u = xmlns_namespace_uri" by blast
    then have "ensure_output_namespace f d ?p u = Inl (UnboundPrefix ?p)"
      by (simp add: ensure_output_namespace_def)
    then have "render_attributes A f d names out (x # ans) \<noteq> Inr (f', d', out')"
      unfolding unfold by (simp add: u(1))
    moreover have "\<not> declarable A (x # ans)" using u by (auto simp: declarable_def x)
    ultimately show ?thesis by blast
  next
    case False
    then obtain f1 d1 where st: "(case ns of None \<Rightarrow> Inr (f, d) | Some u \<Rightarrow> ensure_output_namespace f d ?p u)
          = Inr (f1, d1)"
      and f1: "frame_ok f1" "nf_input f1 = nf_input f" "btree_ok d1"
        "map_of (nf_output f1) = (case ns of None \<Rightarrow> map_of (nf_output f)
          | Some u \<Rightarrow> (map_of (nf_output f))(?p \<mapsto> u))"
      and d1: "map_of d1 = (case ns of None \<Rightarrow> map_of d
          | Some u \<Rightarrow> if map_of (nf_output f) ?p = Some u then map_of d else (map_of d)(?p \<mapsto> u))"
      using attribute_scope_step [OF Cons.prems(1,2), of ns ?p] ns by blast
    have scope: "rendered_scope A f1 ans = rendered_scope A f (x # ans)"
      unfolding x using f1(4) ns by (intro rendered_scope_step) auto
    have decl: "(\<lambda>p. if map_of (nf_output f1) p = rendered_scope A f1 ans p then map_of d1 p
          else rendered_scope A f1 ans p)
        = (\<lambda>p. if map_of (nf_output f) p = rendered_scope A f (x # ans) p then map_of d p
          else rendered_scope A f (x # ans) p)"
      unfolding scope using ns
      by (auto simp: f1(4) d1 fun_eq_iff x rendered_scope_def map_add_def split: option.splits if_splits)
    have "assignment_for A f1 ans" using Cons.prems(3) f1(4) unfolding x by (rule assignment_for_step)
    note IH = Cons.IH [OF f1(1,3) this, of "insert (ca_rendered_name ?r) names" "out @ [?r]",
        unfolded decl, unfolded scope f1(2)]
    have "declarable A (x # ans) \<longleftrightarrow> declarable A ans" using False by (auto simp: declarable_def x)
    with IH show ?thesis unfolding unfold st rbind_simps prod.case by auto
  qed
qed

section \<open>What the scopes of a tag are\<close>

definition element_prefix :: "string option \<Rightarrow> string \<Rightarrow> string" where
  "element_prefix ns prefix =
     (case ns of None \<Rightarrow> [] | Some uri \<Rightarrow> preferred_invoice_prefix uri prefix False)"

lemma resolve_start_iff:
  "resolve_start current name attrs = Inr (tag, frame) \<longleftrightarrow>
    (\<exists>input raws ns f1 d1 nss d2 atts.
       read_attributes (nf_input current) [] attrs = Inr (input, raws)
     \<and> lookup_element_namespace (current\<lparr>nf_input := input\<rparr>) (fst (split_xml_qname name)) = Inr ns
     \<and> declare_element (current\<lparr>nf_input := input\<rparr>) ns (element_prefix ns (fst (split_xml_qname name)))
         = Inr (f1, d1)
     \<and> resolve_attribute_namespaces f1 raws = Inr nss
     \<and> render_attributes (assign_attribute_prefixes f1 d1 (zip raws nss)) f1 d1 {} [] (zip raws nss)
         = Inr (frame, d2, atts)
     \<and> tag = \<lparr>tag_name = render_xml_qname (element_prefix ns (fst (split_xml_qname name)))
                (snd (split_xml_qname name)),
              tag_declarations = d2, tag_attributes = sort_by compare_attributes atts\<rparr>)"
  by (cases "split_xml_qname name")
    (auto simp: resolve_start_def rbind_Inr_iff Let_def element_prefix_def split_paired_Ex)

text \<open>What declarations make of a scope: an empty default namespace undeclares it.\<close>

definition scope_after :: "(string \<rightharpoonup> string) \<Rightarrow> (string, string) btree \<Rightarrow> (string \<rightharpoonup> string)" where
  "scope_after scope declarations =
     (\<lambda>p. case map_of declarations p of
            None \<Rightarrow> scope p | Some u \<Rightarrow> if p = [] \<and> u = [] then None else Some u)"

definition names_element :: "namespace_frame \<Rightarrow> string \<Rightarrow> string option \<Rightarrow> string \<Rightarrow> bool" where
  "names_element frame rendered ns local_name \<longleftrightarrow>
     (\<exists>p. rendered = render_xml_qname p local_name \<and>
        (case ns of Some u \<Rightarrow> map_of (nf_output frame) p = Some u
         | None \<Rightarrow> p = [] \<and> (map_of (nf_output frame) [] = None \<or> map_of (nf_output frame) [] = Some [])))"

definition names_attribute :: "namespace_frame \<Rightarrow> string \<Rightarrow> string option \<Rightarrow> string \<Rightarrow> bool" where
  "names_attribute frame rendered ns local_name \<longleftrightarrow>
     (\<exists>p. rendered = render_xml_qname p local_name \<and>
        (case ns of Some u \<Rightarrow> p \<noteq> [] \<and> map_of (nf_output frame) p = Some u | None \<Rightarrow> p = []))"

lemma preferred_element_prefix:
  assumes "q = ''xml'' \<Longrightarrow> u = xml_namespace_uri" "q = [] \<Longrightarrow> u \<noteq> []"
  shows "(preferred_invoice_prefix u q False = ''xml'' \<longleftrightarrow> u = xml_namespace_uri)
    \<and> (preferred_invoice_prefix u q False = [] \<longrightarrow> u \<noteq> [])"
proof (cases "map_of overlay_prefixes u")
  case None
  then have "u \<noteq> xml_namespace_uri" using overlay_xml by auto
  with None assms show ?thesis by (auto simp: preferred_invoice_prefix_def)
next
  case (Some p)
  have "u = ''urn:oasis:names:specification:ubl:schema:xsd:Invoice-2'' \<Longrightarrow> u \<noteq> xml_namespace_uri"
    by (simp add: xml_namespace_uri_def)
  with overlay_prefix [OF Some] Some show ?thesis by (auto simp: preferred_invoice_prefix_def)
qed

lemma lookup_element_known:
  assumes "frame_ok f" "lookup_element_namespace f p = Inr (Some u)"
  shows "p = ''xml'' \<Longrightarrow> u = xml_namespace_uri" and "p = [] \<Longrightarrow> u \<noteq> []"
  using assms by (auto simp: lookup_element_namespace_def frame_ok_def split: if_splits option.splits)

lemma declare_element_ok:
  assumes f: "frame_ok f" and ns: "lookup_element_namespace f q = Inr ns"
    and de: "declare_element f ns (element_prefix ns q) = Inr (f1, d1)"
  shows "frame_ok f1 \<and> nf_input f1 = nf_input f \<and> btree_ok d1
    \<and> map_of (nf_output f1) = scope_after (map_of (nf_output f)) d1
    \<and> (\<forall>p u. map_of d1 p = Some u \<longrightarrow> p \<noteq> [] \<longrightarrow> map_of (nf_output f1) p = Some u)
    \<and> names_element f1 (render_xml_qname (element_prefix ns q) l) ns l"
proof (cases ns)
  case None
  have "names_element g (render_xml_qname [] l) None l"
    if "map_of (nf_output g) [] = None \<or> map_of (nf_output g) [] = Some []" for g
    using that by (auto simp: names_element_def)
  with de f show ?thesis
    by (auto simp: None declare_element_def element_prefix_def frame_ok_def scope_after_def fun_eq_iff
        btree_ok_def [of "[_]"] split: option.splits if_splits)
next
  case (Some u)
  let ?p = "preferred_invoice_prefix u q False"
  have p: "?p = ''xml'' \<longleftrightarrow> u = xml_namespace_uri" "?p = [] \<Longrightarrow> u \<noteq> []"
    using preferred_element_prefix [of q u] lookup_element_known [OF f, of q u] ns Some by auto
  have de': "ensure_output_namespace f [] ?p u = Inr (f1, d1)"
    using de by (simp add: Some declare_element_def element_prefix_def)
  then have "?p \<noteq> ''xmlns''" "u \<noteq> xmlns_namespace_uri" by (auto simp: ensure_output_namespace_def split: if_splits)
  from ensure_output_step [OF f btree_ok_Nil p(1) this] de'
  have out: "frame_ok f1" "nf_input f1 = nf_input f" "map_of (nf_output f1) = (map_of (nf_output f))(?p \<mapsto> u)"
    and d1: "btree_ok d1" "map_of d1 = (if map_of (nf_output f) ?p = Some u then Map.empty else [?p \<mapsto> u])"
    by auto
  have "names_element f1 (render_xml_qname ?p l) ns l"
    using out(3) by (auto simp: names_element_def Some)
  moreover have "map_of (nf_output f1) = scope_after (map_of (nf_output f)) d1"
    using out(3) d1(2) p(2) by (auto simp: scope_after_def fun_eq_iff)
  moreover have "\<forall>p v. map_of d1 p = Some v \<longrightarrow> p \<noteq> [] \<longrightarrow> map_of (nf_output f1) p = Some v"
    by (simp add: out(3) d1(2))
  ultimately show ?thesis using out(1,2) d1(1) by (simp add: Some element_prefix_def)
qed

lemma resolved_attributes_sourced:
  assumes "frame_ok f" "resolve_attribute_namespaces f raws = Inr nss"
  shows "sourced (zip raws nss)"
proof -
  from assms(2) have "map (\<lambda>a. lookup_attribute_namespace f (ra_prefix a)) raws = map Inr nss"
    by (simp add: resolve_attribute_namespaces_def collect_Inr_iff)
  then have "lookup_attribute_namespace f (ra_prefix a) = Inr ns" if "(a, ns) \<in> set (zip raws nss)" for a ns
    using that by (induction raws arbitrary: nss) (auto simp: Cons_eq_map_conv)
  then show ?thesis using assms(1)
    by (fastforce simp: sourced_def lookup_attribute_namespace_def frame_ok_def split: if_splits option.splits)
qed

lemma assignment_for_ok:
  assumes f: "frame_ok f" and s: "sourced ans"
    and d: "\<And>p u. map_of d p = Some u \<Longrightarrow> p \<noteq> [] \<Longrightarrow> map_of (nf_output f) p = Some u"
  shows "assignment_for (assign_attribute_prefixes f d ans) f ans"
proof -
  let ?A = "assign_attribute_prefixes f d ans"
  have xml: "map_of (nf_output f) ''xml'' = Some xml_namespace_uri" using f by (simp add: frame_ok_def)
  have "(\<exists>used. assignment_ok (nf_output f) used ?A) \<and> fst ` set ?A
      = fst ` set ([] :: (string, string) btree) \<union> snd ` set (prefix_entries ans)"
    unfolding assign_attribute_prefixes_def
    by (rule assign_prefixes_ok [OF xml]) (use d prefix_entries_ok [OF s] in \<open>simp_all add: assignment_ok_def\<close>)
  with prefix_entries_ok [OF s] obtain used where A: "assignment_ok (nf_output f) used ?A"
    and dom: "fst ` set ?A = {u. \<exists>a. (a, Some u) \<in> set ans}"
    by auto
  have "p \<noteq> [] \<and> (p = ''xml'' \<longleftrightarrow> u = xml_namespace_uri)
      \<and> (map_of (nf_output f) p = None \<or> map_of (nf_output f) p = Some u)
      \<and> (\<forall>v. map_of ?A v = Some p \<longrightarrow> u = v)" if "map_of ?A u = Some p" for u p
    using prefix_okD [OF assignment_okD [OF A that]] assignment_okD [OF A] xml by metis
  moreover have "map_of ?A u \<noteq> None" if "(a, Some u) \<in> set ans" for a u
    using dom that by (auto simp: map_of_eq_None_iff)
  ultimately show ?thesis by (auto simp: assignment_for_def)
qed

lemma rendered_scope_extends:
  "map_of (nf_output f) p = Some u \<Longrightarrow> rendered_scope A f ans p = Some u"
  by (simp add: rendered_scope_def map_add_Some_iff)

lemma rendered_scope_attribute:
  assumes "assignment_for A f ans" "(a, Some u) \<in> set ans"
  shows "attribute_prefix A (Some u) \<noteq> [] \<and> rendered_scope A f ans (attribute_prefix A (Some u)) = Some u"
  using assms
proof (induction ans arbitrary: f)
  case (Cons x ans)
  obtain b ns where x: "x = (b, ns)" by (cases x)
  define g where "g = (case ns of None \<Rightarrow> f
    | Some v \<Rightarrow> f\<lparr>nf_output := (attribute_prefix A ns, v) # nf_output f\<rparr>)"
  have g: "map_of (nf_output g) = (case ns of None \<Rightarrow> map_of (nf_output f)
      | Some v \<Rightarrow> (map_of (nf_output f))(attribute_prefix A ns \<mapsto> v))"
    by (simp add: g_def split: option.splits)
  have p: "map_of A v \<noteq> None" if "(c, Some v) \<in> set (x # ans)" for c v
    using Cons.prems(1) that by (auto simp: assignment_for_def)
  have ns: "map_of (nf_output f) (attribute_prefix A ns) = None
      \<or> map_of (nf_output f) (attribute_prefix A ns) = Some v" if "ns = Some v" for v
    using p [of b v] assignment_forD(3) [OF Cons.prems(1), of v] that x
    by (cases "map_of A v") (simp_all add: attribute_prefix_def)
  have ne: "attribute_prefix A (Some u) \<noteq> []"
    using p [OF Cons.prems(2)] assignment_forD(1) [OF Cons.prems(1)] by (auto simp: attribute_prefix_def)
  have scope: "rendered_scope A g ans = rendered_scope A f (x # ans)"
    unfolding x using g ns by (rule rendered_scope_step)
  show ?case
  proof (cases "(a, Some u) \<in> set ans")
    case True
    have "assignment_for A g ans" using Cons.prems(1) g unfolding x by (rule assignment_for_step)
    from Cons.IH [OF this True] show ?thesis by (simp add: scope)
  next
    case False
    then have "map_of (nf_output g) (attribute_prefix A (Some u)) = Some u"
      using Cons.prems(2) x g by auto
    from rendered_scope_extends [OF this] ne show ?thesis by (simp flip: scope)
  qed
qed simp

lemma lookup_cong:
  assumes "nf_input f = nf_input g"
  shows "lookup_element_namespace f = lookup_element_namespace g"
    and "resolve_attribute_namespaces f = resolve_attribute_namespaces g"
  unfolding fun_eq_iff lookup_element_namespace_def resolve_attribute_namespaces_def
    lookup_attribute_namespace_def assms by simp_all

lemma names_element_mono:
  assumes "names_element f r ns l"
    and "\<And>p u. map_of (nf_output f) p = Some u \<Longrightarrow> map_of (nf_output g) p = Some u"
    and "map_of (nf_output f) [] = None \<Longrightarrow> map_of (nf_output g) [] = None"
  shows "names_element g r ns l"
  using assms by (auto simp: names_element_def split: option.splits)

lemma names_attribute_rendered:
  assumes "assignment_for A f ans" "(a, ns) \<in> set ans" "map_of (nf_output g) = rendered_scope A f ans"
  shows "names_attribute g (ca_rendered_name (render_attribute A (a, ns))) ns (ra_local_name a)"
  using rendered_scope_attribute [OF assms(1)] assms(2)
  by (cases ns) (auto simp: names_attribute_def render_attribute_def assms(3) attribute_prefix_def
      intro!: exI [of _ "attribute_prefix A ns"])

lemma rendered_scope_default:
  assumes "assignment_for A f ans"
  shows "rendered_scope A f ans [] = map_of (nf_output f) []"
proof -
  have "attribute_prefix A (Some u) \<noteq> []" if "(a, Some u) \<in> set ans" for a u
    using rendered_scope_attribute [OF assms that] by simp
  then have "map_of (concat (map (\<lambda>(a, ns). case ns of None \<Rightarrow> []
      | Some u \<Rightarrow> [(attribute_prefix A ns, u)]) ans)) [] = None"
    by (fastforce simp: map_of_eq_None_iff split: option.splits)
  then show ?thesis unfolding rendered_scope_def map_add_def by (simp split: option.splits)
qed

text \<open>The steps of a start tag that succeeds, and what each leaves well formed.\<close>

lemma resolve_startE:
  assumes "frame_ok current" "resolve_start current name attrs = Inr (tag, frame)"
  obtains input raws ns f1 d1 nss d2 atts where
    "read_attributes (nf_input current) [] attrs = Inr (input, raws)"
    and "lookup_element_namespace (current\<lparr>nf_input := input\<rparr>) (fst (split_xml_qname name)) = Inr ns"
    and "declare_element (current\<lparr>nf_input := input\<rparr>) ns (element_prefix ns (fst (split_xml_qname name)))
         = Inr (f1, d1)"
    and "resolve_attribute_namespaces f1 raws = Inr nss"
    and "render_attributes (assign_attribute_prefixes f1 d1 (zip raws nss)) f1 d1 {} [] (zip raws nss)
         = Inr (frame, d2, atts)"
    and "tag = \<lparr>tag_name = render_xml_qname (element_prefix ns (fst (split_xml_qname name)))
                (snd (split_xml_qname name)),
              tag_declarations = d2, tag_attributes = sort_by compare_attributes atts\<rparr>"
    and "frame_ok (current\<lparr>nf_input := input\<rparr>)" "frame_ok f1" "btree_ok d1"
    and "assignment_for (assign_attribute_prefixes f1 d1 (zip raws nss)) f1 (zip raws nss)"
proof -
  from assms(2) obtain input raws ns f1 d1 nss d2 atts where
    rd: "read_attributes (nf_input current) [] attrs = Inr (input, raws)"
    and ns: "lookup_element_namespace (current\<lparr>nf_input := input\<rparr>) (fst (split_xml_qname name)) = Inr ns"
    and de: "declare_element (current\<lparr>nf_input := input\<rparr>) ns (element_prefix ns (fst (split_xml_qname name)))
         = Inr (f1, d1)"
    and nss: "resolve_attribute_namespaces f1 raws = Inr nss"
    and ren: "render_attributes (assign_attribute_prefixes f1 d1 (zip raws nss)) f1 d1 {} [] (zip raws nss)
         = Inr (frame, d2, atts)"
    and tag: "tag = \<lparr>tag_name = render_xml_qname (element_prefix ns (fst (split_xml_qname name)))
                (snd (split_xml_qname name)),
              tag_declarations = d2, tag_attributes = sort_by compare_attributes atts\<rparr>"
    unfolding resolve_start_iff by blast
  have f: "frame_ok (current\<lparr>nf_input := input\<rparr>)"
    using read_attributes_frame [OF rd] assms(1) by (auto simp: frame_ok_def)
  note d = declare_element_ok [OF f ns de]
  have "assignment_for (assign_attribute_prefixes f1 d1 (zip raws nss)) f1 (zip raws nss)"
    using d by (intro assignment_for_ok resolved_attributes_sourced [OF _ nss]) blast+
  with rd ns de nss ren tag f d show thesis by (intro that) blast+
qed

lemma rendered_scope_after:
  assumes A: "assignment_for A f ans" and f: "map_of (nf_output f) = scope_after scope d"
    and out: "map_of out = rendered_scope A f ans"
    and d': "map_of d' = (\<lambda>p. if map_of (nf_output f) p = rendered_scope A f ans p then map_of d p
        else rendered_scope A f ans p)"
  shows "map_of out = scope_after scope d'"
proof
  fix p
  show "map_of out p = scope_after scope d' p"
    using rendered_scope_default [OF A] rendered_scope_extends [of f p _ A ans] out f
      fun_cong [OF d', of p]
    by (cases "map_of out p"; cases "map_of (nf_output f) p") (auto simp: scope_after_def)
qed

text \<open>A start tag keeps the namespaces of its source: the name it writes for the element, read in the new
  output scope, has the namespace and local name of the source; so has each attribute, and the attributes
  are those of the source with their values; and the new output scope is the old one changed by exactly
  the namespace declarations the tag writes.
\<close>

theorem start_tag_keeps_namespaces:
  assumes "frame_ok current" "resolve_start current name attrs = Inr (tag, frame)"
  shows "\<exists>raws ns nss.
      read_attributes (nf_input current) [] attrs = Inr (nf_input frame, raws)
    \<and> lookup_element_namespace frame (fst (split_xml_qname name)) = Inr ns
    \<and> names_element frame (tag_name tag) ns (snd (split_xml_qname name))
    \<and> resolve_attribute_namespaces frame raws = Inr nss
    \<and> mset (map (\<lambda>a. (ca_namespace_uri a, ca_local_name a, ca_value a)) (tag_attributes tag))
        = mset (map (\<lambda>(a, ns). (case ns of None \<Rightarrow> [] | Some u \<Rightarrow> u, ra_local_name a, ra_value a))
            (zip raws nss))
    \<and> list_all (\<lambda>c. \<exists>(a, ns) \<in> set (zip raws nss). ca_local_name c = ra_local_name a
        \<and> names_attribute frame (ca_rendered_name c) ns (ca_local_name c)
        \<and> ca_namespace_uri c = (case ns of None \<Rightarrow> [] | Some u \<Rightarrow> u)) (tag_attributes tag)
    \<and> distinct (map ca_rendered_name (tag_attributes tag))
    \<and> map_of (nf_output frame) = scope_after (map_of (nf_output current)) (tag_declarations tag)
    \<and> frame_ok frame"
proof -
  from assms obtain input raws ns f1 d1 nss d2 atts where
    rd: "read_attributes (nf_input current) [] attrs = Inr (input, raws)"
    and ns: "lookup_element_namespace (current\<lparr>nf_input := input\<rparr>) (fst (split_xml_qname name)) = Inr ns"
    and de: "declare_element (current\<lparr>nf_input := input\<rparr>) ns (element_prefix ns (fst (split_xml_qname name)))
         = Inr (f1, d1)"
    and nss: "resolve_attribute_namespaces f1 raws = Inr nss"
    and ren: "render_attributes (assign_attribute_prefixes f1 d1 (zip raws nss)) f1 d1 {} [] (zip raws nss)
         = Inr (frame, d2, atts)"
    and tag: "tag = \<lparr>tag_name = render_xml_qname (element_prefix ns (fst (split_xml_qname name)))
                (snd (split_xml_qname name)),
              tag_declarations = d2, tag_attributes = sort_by compare_attributes atts\<rparr>"
    and cur: "frame_ok (current\<lparr>nf_input := input\<rparr>)" and f1: "frame_ok f1" "btree_ok d1"
    and A: "assignment_for (assign_attribute_prefixes f1 d1 (zip raws nss)) f1 (zip raws nss)"
    by (rule resolve_startE)
  let ?A = "assign_attribute_prefixes f1 d1 (zip raws nss)" and ?ans = "zip raws nss"
  note d = declare_element_ok [OF cur ns de]
  note r = render_attributes_iff [OF f1 A, THEN iffD1, OF ren]
  have atts: "atts = map (render_attribute ?A) ?ans" using r by simp
  have inp: "nf_input frame = input" using r d by simp
  have out: "map_of (nf_output frame) = rendered_scope ?A f1 ?ans" using r by simp
  have elem: "names_element frame (tag_name tag) ns (snd (split_xml_qname name))"
    using d rendered_scope_extends rendered_scope_default [OF A]
    by (auto simp: tag out intro: names_element_mono [of f1])
  have scope: "map_of (nf_output frame) = scope_after (map_of (nf_output current)) d2"
    using A by (rule rendered_scope_after) (use r d out in simp_all)
  have attrs: "list_all (\<lambda>c. \<exists>(a, ns) \<in> set ?ans. ca_local_name c = ra_local_name a
        \<and> names_attribute frame (ca_rendered_name c) ns (ca_local_name c)
        \<and> ca_namespace_uri c = (case ns of None \<Rightarrow> [] | Some u \<Rightarrow> u)) (tag_attributes tag)"
    using names_attribute_rendered [OF A _ out]
    by (fastforce simp: list_all_iff tag atts render_attribute_def)
  have content: "mset (map (\<lambda>a. (ca_namespace_uri a, ca_local_name a, ca_value a)) (tag_attributes tag))
      = mset (map (\<lambda>(a, ns). (case ns of None \<Rightarrow> [] | Some u \<Rightarrow> u, ra_local_name a, ra_value a)) ?ans)"
    by (auto simp: tag atts multiset.map_comp render_attribute_def intro!: image_mset_cong)
  have "mset (map ca_rendered_name (tag_attributes tag))
      = mset (map (ca_rendered_name \<circ> render_attribute ?A) ?ans)"
    by (simp add: tag atts multiset.map_comp)
  then have names: "distinct (map ca_rendered_name (tag_attributes tag))"
    using mset_eq_imp_distinct_iff r by blast
  have frame: "frame_ok frame" and decl: "tag_declarations tag = d2" using r by (simp_all add: tag)
  show ?thesis
    using rd ns nss elem attrs scope content names frame d
      lookup_cong [of frame "current\<lparr>nf_input := input\<rparr>"] lookup_cong(2) [of frame f1]
    by (intro exI [of _ raws] exI [of _ ns] exI [of _ nss]) (simp add: inp decl)
qed

section \<open>The order of attributes\<close>

lemma read_attributes_append:
  "read_attributes input raws (map Inr kvs) = Inr (input', raws') \<Longrightarrow>
     read_attributes input (rs @ raws) (map Inr kvs) = Inr (input', rs @ raws')"
  by (induction kvs arbitrary: input raws) (auto split: if_splits option.splits prod.splits)

text \<open>One attribute as a declaration or as an attribute proper.\<close>

definition declared_prefix :: "string \<Rightarrow> string option" where
  "declared_prefix key = (if key = ''xmlns'' then Some [] else strip_prefix ''xmlns:'' key)"

definition raw_of :: "string \<times> string \<Rightarrow> raw_xml_attribute" where
  "raw_of = (\<lambda>(key, v). \<lparr>ra_prefix = fst (split_xml_qname key), ra_local_name = snd (split_xml_qname key),
     ra_value = v\<rparr>)"

definition declares :: "string \<times> string \<Rightarrow> (string \<times> string) option" where
  "declares kv = (case declared_prefix (fst kv) of
     None \<Rightarrow> None | Some p \<Rightarrow> if p = ''xml'' \<or> p = ''xmlns'' then None else Some (p, snd kv))"

lemma read_attributes_fold:
  "read_attributes input raws (map Inr kvs) =
     Inr (fold (\<lambda>(p, v). btree_insert p v) (List.map_filter declares kvs) input,
          raws @ map raw_of (filter (\<lambda>kv. declared_prefix (fst kv) = None) kvs))"
  by (induction kvs arbitrary: input raws)
    (auto simp: declares_def declared_prefix_def raw_of_def map_filter_simps split: option.splits prod.splits)

lemma map_of_fold_insert:
  assumes "btree_ok m" "distinct (map fst es)"
  shows "btree_ok (fold (\<lambda>(p, v). btree_insert p v) es m)
    \<and> map_of (fold (\<lambda>(p, v). btree_insert p v) es m) = map_of m ++ map_of es"
  using assms
proof (induction es arbitrary: m)
  case (Cons e es)
  obtain p v where e: "e = (p, v)" by (cases e)
  have "p \<notin> dom (map_of es)" using Cons.prems(2) by (simp add: e dom_map_of_conv_image_fst)
  then have eq: "(map_of m)(p \<mapsto> v) ++ map_of es = map_of m ++ map_of (e # es)"
    by (auto simp: e map_add_def fun_eq_iff dom_def split: option.splits)
  have ok: "btree_ok (btree_insert p v m)" "distinct (map fst es)" using Cons.prems by simp_all
  from Cons.IH [OF this] show ?case
    by (simp only: e fold_simps prod.case map_of_btree_insert [OF Cons.prems(1)] eq [unfolded e])
qed simp

lemma strip_prefix_inj: "strip_prefix p s = Some r \<Longrightarrow> s = p @ r"
  by (simp add: strip_prefix_def split: if_splits) (metis append_take_drop_id)

lemma declares_inj:
  assumes "declares (k, v) = Some (p, w)" "declares (k', v') = Some (p, w')"
    and "k \<noteq> ''xmlns:''" "k' \<noteq> ''xmlns:''"
  shows "k = k'"
  using assms
  by (auto simp: declares_def declared_prefix_def split: option.splits if_splits dest!: strip_prefix_inj)

lemma distinct_declarations:
  "distinct (map fst kvs) \<Longrightarrow> ''xmlns:'' \<notin> set (map fst kvs) \<Longrightarrow>
     distinct (map fst (List.map_filter declares kvs))"
proof (induction kvs)
  case (Cons x kvs)
  obtain k v where x: "x = (k, v)" by (cases x)
  have "p \<notin> fst ` set (List.map_filter declares kvs)" if "declares (k, v) = Some (p, w)" for p w
  proof
    assume "p \<in> fst ` set (List.map_filter declares kvs)"
    then obtain k' v' w' where "(k', v') \<in> set kvs" "declares (k', v') = Some (p, w')"
      by (force simp: map_filter_def split: option.splits)
    moreover from this have "k' \<noteq> ''xmlns:''" using Cons.prems(2) by (force simp: x)
    ultimately have "k' = k" using declares_inj [OF that, of k' v' w'] Cons.prems(2) by (auto simp: x)
    with \<open>(k', v') \<in> set kvs\<close> Cons.prems show False by (force simp: x)
  qed
  with Cons show ?case by (auto simp: x map_filter_simps split: option.splits)
qed simp

text \<open>Reading permuted attributes: the same scope, permuted attributes.\<close>

lemma read_attributes_permuted:
  assumes "mset kvs = mset kvs'" "distinct (map fst kvs)" "''xmlns:'' \<notin> set (map fst kvs)"
    and "btree_ok input"
    and "read_attributes input [] (map Inr kvs) = Inr (input1, raws)"
  shows "\<exists>raws'. read_attributes input [] (map Inr kvs') = Inr (input1, raws') \<and> mset raws = mset raws'"
proof -
  have d': "distinct (map fst kvs')" using assms(1,2) by (metis mset_eq_imp_distinct_iff mset_map)
  have x': "''xmlns:'' \<notin> set (map fst kvs')" using mset_eq_setD [OF assms(1)] assms(3) by simp
  let ?F = "\<lambda>es. fold (\<lambda>(p, v). btree_insert p v) (List.map_filter declares es) input"
  note f = map_of_fold_insert [OF assms(4) distinct_declarations]
  have s: "set (List.map_filter declares kvs) = set (List.map_filter declares kvs')"
    using mset_eq_setD [OF assms(1)] by (simp add: map_filter_def)
  have "map_of (List.map_filter declares kvs) = map_of (List.map_filter declares kvs')"
    using distinct_declarations [OF assms(2,3)] distinct_declarations [OF d' x'] s
    by (simp add: map_of_inject_set)
  with f [OF assms(2,3)] f [OF d' x'] have "?F kvs = ?F kvs'" by (intro btree_eqI) simp_all
  moreover have "mset (map raw_of (filter (\<lambda>kv. declared_prefix (fst kv) = None) kvs))
      = mset (map raw_of (filter (\<lambda>kv. declared_prefix (fst kv) = None) kvs'))"
    by (simp add: assms(1))
  ultimately show ?thesis using assms(5) by (auto simp: read_attributes_fold)
qed

lemma zip_permuted:
  assumes "mset raws = mset raws'" "resolve_attribute_namespaces f raws = Inr nss"
  shows "\<exists>nss'. resolve_attribute_namespaces f raws' = Inr nss' \<and> mset (zip raws nss) = mset (zip raws' nss')"
proof -
  let ?l = "\<lambda>a. lookup_attribute_namespace f (ra_prefix a)"
  have zipped: "zip rs (map (projr \<circ> ?l) rs) = map (\<lambda>a. (a, projr (?l a))) rs" for rs
    by (simp add: zip_map2 zip_same_conv_map)
  have ok: "?l ` set raws \<subseteq> range Inr"
    using assms(2) by (metis (no_types, lifting) collect_Inr_iff image_set image_mono resolve_attribute_namespaces_def
        subset_UNIV)
  have res: "resolve_attribute_namespaces f rs = Inr (map (projr \<circ> ?l) rs)" if "set rs = set raws" for rs
    using ok that by (force simp: resolve_attribute_namespaces_def collect_Inr_iff)
  have "set raws' = set raws" using mset_eq_setD [OF assms(1)] by simp
  from res [OF this] res [OF refl] assms show ?thesis by (simp add: zipped)
qed

lemma rendered_scope_iff:
  assumes "assignment_for A f ans"
  shows "rendered_scope A f ans p = Some u \<longleftrightarrow>
    map_of (nf_output f) p = Some u \<or> (\<exists>a. (a, Some u) \<in> set ans \<and> attribute_prefix A (Some u) = p)"
proof
  assume "rendered_scope A f ans p = Some u"
  then show "map_of (nf_output f) p = Some u \<or> (\<exists>a. (a, Some u) \<in> set ans \<and> attribute_prefix A (Some u) = p)"
    by (fastforce simp: rendered_scope_def map_add_Some_iff split: option.splits dest!: map_of_SomeD)
qed (use rendered_scope_extends rendered_scope_attribute [OF assms] in blast)

lemma rendered_scope_cong:
  assumes "assignment_for A f ans" "set ans = set bns"
  shows "rendered_scope A f ans = rendered_scope A f bns"
proof
  fix p
  have "assignment_for A f bns" using assms by (simp add: assignment_for_def)
  then have "rendered_scope A f ans p = Some u \<longleftrightarrow> rendered_scope A f bns p = Some u" for u
    using rendered_scope_iff [OF assms(1), of p u] rendered_scope_iff [of A f bns p u] assms(2) by simp
  then show "rendered_scope A f ans p = rendered_scope A f bns p"
    by (metis option.exhaust)
qed

lemma sort_attributes_unique:
  assumes "mset xs = mset ys" "distinct (map ca_rendered_name xs)"
  shows "sort_by compare_attributes xs = sort_by compare_attributes ys"
proof -
  let ?k = "\<lambda>a. (ca_namespace_uri a, ca_local_name a, ca_rendered_name a)"
  have key: "sort_by compare_attributes zs = sort_key ?k zs" for zs
    by (rule sort_by_key) (auto simp: compare_attributes_def then_with_def cmp_of_def)
  have "inj_on ?k (set xs)" using assms(2) by (auto simp: distinct_map inj_on_def)
  moreover have "distinct xs" "distinct ys"
    using assms by (auto simp: distinct_map dest: mset_eq_imp_distinct_iff)
  ultimately show ?thesis
    unfolding key using mset_eq_setD [OF assms(1)] by (intro sort_key_unique) auto
qed

lemma render_permuted:
  assumes f: "frame_ok f" "btree_ok d" "assignment_for A f ans" and p: "mset ans = mset bns"
    and ren: "render_attributes A f d {} [] ans = Inr (f', d', out)"
  shows "\<exists>out'. render_attributes A f d {} [] bns = Inr (f', d', out')
    \<and> sort_by compare_attributes out = sort_by compare_attributes out'"
proof -
  have s: "set ans = set bns" using mset_eq_setD [OF p] .
  have b: "assignment_for A f bns" using f(3) by (simp add: assignment_for_def s)
  note r = render_attributes_iff [OF f, THEN iffD1, OF ren]
  have m: "mset (map g ans) = mset (map g bns)" for g :: "raw_xml_attribute \<times> string option \<Rightarrow> 'x"
    by (simp add: p)
  have names: "distinct (map (ca_rendered_name \<circ> render_attribute A) ans)" using r by simp
  then have "distinct (map (ca_rendered_name \<circ> render_attribute A) bns)"
    using mset_eq_imp_distinct_iff [OF m] by blast
  moreover have "declarable A bns" using r by (simp add: declarable_def s)
  ultimately have "render_attributes A f d {} [] bns = Inr (f', d', map (render_attribute A) bns)"
    using r [unfolded rendered_scope_cong [OF f(3) s]]
    by (intro render_attributes_iff [OF f(1,2) b, THEN iffD2]) simp
  moreover have "sort_by compare_attributes out = sort_by compare_attributes (map (render_attribute A) bns)"
    using r names by (intro sort_attributes_unique) (simp_all add: p)
  ultimately show ?thesis by blast
qed

text \<open>A tag does not depend on the order of its attributes.\<close>

lemma resolve_start_permuted:
  assumes kvs: "mset kvs = mset kvs'" "distinct (map fst kvs)" "''xmlns:'' \<notin> set (map fst kvs)"
    and ok: "frame_ok current" and res: "resolve_start current name (map Inr kvs) = Inr (tag, frame)"
  shows "resolve_start current name (map Inr kvs') = Inr (tag, frame)"
proof -
  from ok res obtain input raws ns f1 d1 nss d2 atts where
    rd: "read_attributes (nf_input current) [] (map Inr kvs) = Inr (input, raws)"
    and ns: "lookup_element_namespace (current\<lparr>nf_input := input\<rparr>) (fst (split_xml_qname name)) = Inr ns"
    and de: "declare_element (current\<lparr>nf_input := input\<rparr>) ns (element_prefix ns (fst (split_xml_qname name)))
         = Inr (f1, d1)"
    and nss: "resolve_attribute_namespaces f1 raws = Inr nss"
    and ren: "render_attributes (assign_attribute_prefixes f1 d1 (zip raws nss)) f1 d1 {} [] (zip raws nss)
         = Inr (frame, d2, atts)"
    and tag: "tag = \<lparr>tag_name = render_xml_qname (element_prefix ns (fst (split_xml_qname name)))
                (snd (split_xml_qname name)),
              tag_declarations = d2, tag_attributes = sort_by compare_attributes atts\<rparr>"
    and cur: "frame_ok (current\<lparr>nf_input := input\<rparr>)" and f1: "frame_ok f1" "btree_ok d1"
    and A: "assignment_for (assign_attribute_prefixes f1 d1 (zip raws nss)) f1 (zip raws nss)"
    by (rule resolve_startE)
  have inp: "btree_ok (nf_input current)" using ok by (simp add: frame_ok_def)
  from read_attributes_permuted [OF kvs inp rd] obtain raws' where
    rd': "read_attributes (nf_input current) [] (map Inr kvs') = Inr (input, raws')" "mset raws = mset raws'" by blast
  from zip_permuted [OF rd'(2) nss] obtain nss' where
    nss': "resolve_attribute_namespaces f1 raws' = Inr nss'" "mset (zip raws nss) = mset (zip raws' nss')" by blast
  have "assign_attribute_prefixes f1 d1 (zip raws nss) = assign_attribute_prefixes f1 d1 (zip raws' nss')"
    using prefix_entries_cong [OF mset_eq_setD [OF nss'(2)]] by (simp add: assign_attribute_prefixes_def)
  with render_permuted [OF f1 A nss'(2) ren] obtain atts' where
    "render_attributes (assign_attribute_prefixes f1 d1 (zip raws' nss')) f1 d1 {} [] (zip raws' nss')
       = Inr (frame, d2, atts')"
    "sort_by compare_attributes atts = sort_by compare_attributes atts'" by auto
  with rd'(1) ns de nss'(1) tag show ?thesis unfolding resolve_start_iff by (metis (no_types, lifting))
qed

section \<open>The same document\<close>

text \<open>
  Event streams of one XML document, up to what the canonical form leaves out: the order of attributes
  (whose names the reader has checked to be distinct), comments, the empty-element form, CDATA
  sections, and white space between elements.
\<close>

fun is_tag_event :: "xml_event \<Rightarrow> bool" where
  "is_tag_event (EvStart _ _) \<longleftrightarrow> True"
| "is_tag_event (EvEmpty _ _) \<longleftrightarrow> True"
| "is_tag_event (EvEnd _) \<longleftrightarrow> True"
| "is_tag_event _ \<longleftrightarrow> False"

text \<open>Text between two tags is between elements unless it is all that an element contains.\<close>

fun between_elements :: "xml_event \<Rightarrow> xml_event \<Rightarrow> bool" where
  "between_elements (EvStart _ _) (EvEnd _) \<longleftrightarrow> False"
| "between_elements a b \<longleftrightarrow> is_tag_event a \<and> is_tag_event b"

inductive same_document :: "xml_event list \<Rightarrow> xml_event list \<Rightarrow> bool" where
  refl: "same_document es es"
| sym: "same_document es fs \<Longrightarrow> same_document fs es"
| trans: "same_document es fs \<Longrightarrow> same_document fs gs \<Longrightarrow> same_document es gs"
| attribute_order:
    "mset kvs = mset kvs' \<Longrightarrow> distinct (map fst kvs) \<Longrightarrow> ''xmlns:'' \<notin> set (map fst kvs) \<Longrightarrow>
     same_document (es @ EvStart name (map Inr kvs) # fs) (es @ EvStart name (map Inr kvs') # fs)"
| comment: "same_document (es @ EvComment # fs) (es @ fs)"
| empty_element:
    "same_document (es @ EvEmpty name attrs # fs) (es @ EvStart name attrs # EvEnd name # fs)"
| cdata: "same_document (es @ EvCData t # fs) (es @ EvText t # fs)"
| blank: "between_elements a b \<Longrightarrow> list_all (list_all is_xml_whitespace) ts \<Longrightarrow>
     same_document (es @ a # map (\<lambda>t. EvText (Inr t)) ts @ b # fs) (es @ a # b # fs)"

text \<open>Every frame of the loop is well formed.\<close>

lemma write_start_frame:
  assumes "frame_ok current" "write_xml_start current name attrs = Inr (element, frame, t)"
  shows "frame_ok frame"
proof -
  from assms(2) obtain tag where "resolve_start current name attrs = Inr (tag, frame)"
    by (auto simp: write_xml_start_def rbind_Inr_iff)
  from assms(1) this show ?thesis
  proof (cases rule: resolve_startE)
    case (1 input raws ns f1 d1 nss d2 atts)
    from render_attributes_iff [OF this(8,9,10), THEN iffD1, OF this(5)] show ?thesis by simp
  qed
qed

lemma xml_loop_context:
  assumes "\<And>frames opened out. list_all frame_ok frames \<Longrightarrow>
      xml_loop frames opened out es = Inr r \<Longrightarrow> xml_loop frames opened out es' = Inr r"
  shows "list_all frame_ok frames \<Longrightarrow>
    xml_loop frames opened out (pre @ es) = Inr r \<Longrightarrow> xml_loop frames opened out (pre @ es') = Inr r"
proof (induction frames opened out pre rule: xml_loop.induct)
  case (2 frames opened out name attrs es)
  then show ?case
    by (auto simp: rbind_Inr_iff write_start_frame split: list.splits)
next
  case (3 frames opened out name attrs es)
  then show ?case by (auto simp: rbind_Inr_iff split: list.splits)
next
  case (4 frames opened out name es)
  then show ?case by (cases frames) (auto split: list.splits)
qed (use assms in \<open>auto simp: rbind_Inr_iff\<close>)

lemma write_start_permuted:
  assumes "mset kvs = mset kvs'" "distinct (map fst kvs)" "''xmlns:'' \<notin> set (map fst kvs)" "frame_ok current"
    and "write_xml_start current name (map Inr kvs) = Inr r"
  shows "write_xml_start current name (map Inr kvs') = Inr r"
  using assms(5) resolve_start_permuted [OF assms(1-4)]
  by (fastforce simp: write_xml_start_def rbind_Inr_iff)

lemma canonicalize_context:
  assumes "canonicalize_xml (pre @ es) = Inr r"
    and "\<And>frames opened out. list_all frame_ok frames \<Longrightarrow>
      xml_loop frames opened out es = Inr r \<Longrightarrow> xml_loop frames opened out es' = Inr r"
  shows "canonicalize_xml (pre @ es') = Inr r"
  using xml_loop_context [where frames = "[frame_root]" and opened = "[]" and out = "[]" and pre = pre,
      OF assms(2)] assms(1)
  by (simp add: canonicalize_xml_def frame_ok_root)

text \<open>C31  The canonical form does not depend on what the documentation calls insignificant: if two event
  streams differ in the order of attributes, comments, empty-element tags, CDATA sections and white space between
  elements only, and one is canonicalised, so is the other, with the same bytes.
\<close>

theorem same_document_same_bytes:
  "same_document es fs \<Longrightarrow> canonicalize_xml es = Inr out \<longleftrightarrow> canonicalize_xml fs = Inr out"
proof (induction rule: same_document.induct)
  case (attribute_order kvs kvs' es name fs)
  have p: "mset kvs' = mset kvs" "distinct (map fst kvs')" "''xmlns:'' \<notin> set (map fst kvs')"
    using attribute_order mset_eq_setD [OF attribute_order(1)] by (auto dest: mset_eq_imp_distinct_iff)
       (metis mset_eq_imp_distinct_iff mset_map)
  note swap = write_start_permuted [OF attribute_order] write_start_permuted [OF p]
  show ?case
    by (intro iffI; erule canonicalize_context)
      (auto simp: rbind_Inr_iff split: list.splits dest: swap)
next
  case (comment es fs)
  show ?case by (intro iffI; erule canonicalize_context) auto
next
  case (empty_element es name attrs fs)
  show ?case by (intro iffI; erule canonicalize_context) (auto simp: rbind_Inr_iff split: list.splits)
next
  case (cdata es t fs)
  show ?case by (intro iffI; erule canonicalize_context) auto
next
  case (blank a b ts es fs)
  have "xml_loop frames opened out' (map (\<lambda>t. EvText (Inr t)) ts @ gs) = xml_loop frames opened out' gs" for frames opened out' gs
    using blank(2) by (induction ts) (simp_all add: write_xml_text_node_def)
  then have skip: "canonicalize_xml (es @ [a] @ map (\<lambda>t. EvText (Inr t)) ts @ b # fs) = Inr out
      \<longleftrightarrow> canonicalize_xml (es @ [a] @ b # fs) = Inr out"
    using canonicalize_context [of "es @ [a]" "map (\<lambda>t. EvText (Inr t)) ts @ b # fs" out "b # fs"]
      canonicalize_context [of "es @ [a]" "b # fs" out "map (\<lambda>t. EvText (Inr t)) ts @ b # fs"]
    by auto
  then show ?case by simp
qed auto

lemma same_document_same_bytes_witness:
  "canonicalize_xml [EvStart ''a'' [Inr (''y'', ''1''), Inr (''x'', ''2'')], EvText (Inr '' ''), EvEmpty ''b'' [], EvEnd ''a'']
     = canonicalize_xml [EvComment, EvStart ''a'' [Inr (''x'', ''2''), Inr (''y'', ''1'')], EvEmpty ''b'' [], EvEnd ''a'']
   \<and> canonicalize_xml [EvComment, EvStart ''a'' [Inr (''x'', ''2''), Inr (''y'', ''1'')], EvEmpty ''b'' [], EvEnd ''a'']
     = Inr ''<a x=\"2\" y=\"1\"><b></b></a>''"
proof -
  let ?xy = "[(''x'', ''2''), (''y'', ''1'')]" and ?yx = "[(''y'', ''1''), (''x'', ''2'')]"
  let ?rest = "[EvEmpty ''b'' [], EvEnd ''a'']"
  have p: "mset ?yx = mset ?xy" "distinct (map fst ?yx)" "''xmlns:'' \<notin> set (map fst ?yx)" by simp_all
  have "same_document ([] @ EvStart ''a'' (map Inr ?yx) # map (\<lambda>t. EvText (Inr t)) ['' ''] @ EvEmpty ''b'' [] # [EvEnd ''a''])
      ([] @ EvStart ''a'' (map Inr ?yx) # EvEmpty ''b'' [] # [EvEnd ''a''])"
    by (rule same_document.blank) (simp_all add: is_xml_whitespace_def)
  moreover have "same_document ([] @ EvStart ''a'' (map Inr ?yx) # ?rest) ([] @ EvStart ''a'' (map Inr ?xy) # ?rest)"
    by (rule same_document.attribute_order [OF p])
  moreover have "same_document ([] @ EvComment # EvStart ''a'' (map Inr ?xy) # ?rest)
      ([] @ EvStart ''a'' (map Inr ?xy) # ?rest)" by (rule same_document.comment)
  ultimately have "same_document [EvStart ''a'' (map Inr ?yx), EvText (Inr '' ''), EvEmpty ''b'' [], EvEnd ''a'']
      [EvComment, EvStart ''a'' (map Inr ?xy), EvEmpty ''b'' [], EvEnd ''a'']"
    by simp (meson same_document.sym same_document.trans)
  from same_document_same_bytes [OF this]
  have "canonicalize_xml [EvStart ''a'' (map Inr ?yx), EvText (Inr '' ''), EvEmpty ''b'' [], EvEnd ''a''] = Inr out \<longleftrightarrow>
      canonicalize_xml [EvComment, EvStart ''a'' (map Inr ?xy), EvEmpty ''b'' [], EvEnd ''a''] = Inr out" for out by this
  moreover have "canonicalize_xml [EvComment, EvStart ''a'' (map Inr ?xy), EvEmpty ''b'' [], EvEnd ''a'']
      = Inr ''<a x=\"2\" y=\"1\"><b></b></a>''"
    by code_simp
  ultimately show ?thesis by simp
qed

lemma start_tag_keeps_namespaces_witness:
  "\<exists>tag frame. resolve_start frame_root ''a:x'' [Inr (''xmlns:a'', ''u'')] = Inr (tag, frame)
    \<and> map_of (nf_output frame) = scope_after (map_of (nf_output frame_root)) (tag_declarations tag)"
proof -
  have "\<exists>tag frame. resolve_start frame_root ''a:x'' [Inr (''xmlns:a'', ''u'')] = Inr (tag, frame)"
    by (simp add: resolve_start_def Let_def strip_prefix_def split_xml_qname_def split_once_def
        lookup_element_namespace_def frame_root_def declare_element_def ensure_output_namespace_def
        resolve_attribute_namespaces_def xml_namespace_uri_def xmlns_namespace_uri_def
        preferred_invoice_prefix_def overlay_prefixes_def)
  with start_tag_keeps_namespaces [OF frame_ok_root] show ?thesis by blast
qed

section \<open>Escaped text\<close>

interpretation attr_esc: self_delimiting attr_char "\<lambda>_. True"
  by unfold_locales (auto simp: attr_char_def split: if_splits)

interpretation text_esc: self_delimiting text_char "\<lambda>_. True"
  by unfold_locales (auto simp: text_char_def split: if_splits)

text \<open>
  An attribute value and a text node can be read back from the canonical bytes: a value ends at the
  quotation mark, a text node that is not white space at the next markup, and neither can be mistaken for
  another.
\<close>

theorem escaping_identifies:
  "(\<exists>s t. write_xml_attr_value v @ CHR 0x22 # s = write_xml_attr_value w @ CHR 0x22 # t) \<longleftrightarrow> v = w"
proof
  assume "\<exists>s t. write_xml_attr_value v @ CHR 0x22 # s = write_xml_attr_value w @ CHR 0x22 # t"
  then obtain s t where "concat (map attr_char v) @ CHR 0x22 # s = concat (map attr_char w) @ CHR 0x22 # t"
    unfolding write_xml_attr_value_def by blast
  then have "v = w \<and> s = t"
    by (rule attr_esc.terminated_inj [rotated 3]) (auto simp: attr_char_def list_all_iff)
  then show "v = w" ..
qed blast

text \<open>
  White space between two references is a text node of white space only, and is dropped although it is
  not between elements: two documents whose texts differ have the same canonical bytes.
\<close>

theorem blank_between_references:
  "canonicalize_xml [EvStart ''n'' [], EvGeneralRef (Inr ''lt''), EvText (Inr '' ''), EvGeneralRef (Inr ''gt''),
     EvEnd ''n''] = Inr ''<n>&lt;&gt;</n>''
   \<and> canonicalize_xml [EvStart ''n'' [], EvGeneralRef (Inr ''lt''), EvGeneralRef (Inr ''gt''), EvEnd ''n'']
     = Inr ''<n>&lt;&gt;</n>''"
  by (simp add: canonicalize_xml_def write_xml_start_def resolve_start_def Let_def start_text_def split_xml_qname_def
      split_once_def lookup_element_namespace_def frame_root_def declare_element_def sort_by_def
      resolve_attribute_namespaces_def render_xml_qname_def resolve_xml_reference_def write_xml_text_node_def
      text_char_def is_xml_whitespace_def write_xml_end_def)

end
