(* ===== verification/Managed_Access.thy ===== *)
theory Managed_Access
  imports Rust_Map Rust_Str Interfaces
begin

text \<open>
  \<open>crates/managed-api/src/lib.rs\<close>: tenants, credentials, permissions, OpenID Connect claims and audit
  events of the hosted service.  Times in seconds are 64-bit words; \<open>now + 300\<close> wraps as in a release
  build.  Serialisation and the JSON schema of the audit event are not modelled.
\<close>

section \<open>Identifiers\<close>

datatype m_tenant_id = MTenantId (m_tenant_str: string)
datatype m_principal_id = PrincipalId (principal_str: string)
datatype m_api_key_id = ApiKeyId (api_key_str: string)
datatype m_trace_id = MTraceId (m_trace_str: string)
datatype m_audit_event_id = AuditEventId (audit_event_str: string)

datatype api_scope =
    TenantAdmin
  | InvoiceRead
  | InvoiceWrite
  | InvoiceValidate
  | InvoiceRender
  | InvoiceTransmit
  | ArchiveRead
  | AuditRead

datatype permission =
    ManageTenant
  | ManageApiKeys
  | ReadInvoices
  | WriteInvoices
  | ValidateInvoices
  | RenderInvoices
  | TransmitInvoices
  | ReadArchive
  | ReadAudit

datatype role = Admin | Member | Viewer

datatype managed_error =
    InvalidManagedIdentifier string string
  | MissingScope api_scope
  | PermissionDenied role permission
  | TenantMismatch m_tenant_id m_tenant_id
  | OidcConfigInvalid string
  | OidcClaimRejected string

definition ascii_alphanumeric :: "char \<Rightarrow> bool" where
  "ascii_alphanumeric c \<longleftrightarrow> is_digit c \<or> is_upper c \<or> is_lower c"

definition managed_identifier :: "string \<Rightarrow> string \<Rightarrow> managed_error + string" where
  "managed_identifier field v =
     (if v = [] then Inl (InvalidManagedIdentifier field ''value must not be empty'')
      else if 128 < length v then Inl (InvalidManagedIdentifier field ''value is longer than 128 bytes'')
      else if trim v \<noteq> v
        then Inl (InvalidManagedIdentifier field ''value must not contain surrounding whitespace'')
      else if \<not> list_all (\<lambda>b. ascii_alphanumeric b \<or> b \<in> set ''_.:-'') v
        then Inl (InvalidManagedIdentifier field ''value contains unsupported characters'')
      else Inr v)"

definition require_non_empty :: "string \<Rightarrow> string \<Rightarrow> managed_error + string" where
  "require_non_empty field v =
     (if blank v then Inl (InvalidManagedIdentifier field ''value must not be empty'') else Inr v)"

definition m_tenant_id_new :: "string \<Rightarrow> managed_error + m_tenant_id" where
  "m_tenant_id_new v = rbind (managed_identifier ''tenant_id'' v) (\<lambda>s. Inr (MTenantId s))"

definition m_principal_id_new :: "string \<Rightarrow> managed_error + m_principal_id" where
  "m_principal_id_new v = rbind (managed_identifier ''principal_id'' v) (\<lambda>s. Inr (PrincipalId s))"

definition m_api_key_id_new :: "string \<Rightarrow> managed_error + m_api_key_id" where
  "m_api_key_id_new v = rbind (managed_identifier ''api_key_id'' v) (\<lambda>s. Inr (ApiKeyId s))"

definition m_trace_id_new :: "string \<Rightarrow> managed_error + m_trace_id" where
  "m_trace_id_new v = rbind (managed_identifier ''trace_id'' v) (\<lambda>s. Inr (MTraceId s))"

definition m_audit_event_id_new :: "string \<Rightarrow> managed_error + m_audit_event_id" where
  "m_audit_event_id_new v = rbind (managed_identifier ''audit_event_id'' v) (\<lambda>s. Inr (AuditEventId s))"

section \<open>Requests of a tenant\<close>

datatype actor =
    ActorApiKey m_api_key_id
  | ActorPrincipal m_principal_id
  | ActorSystem string

record request_context =
  ctx_tenant :: m_tenant_id
  ctx_trace :: m_trace_id
  ctx_actor :: actor

text \<open>\<open>TenantScoped\<close> is the function that gives the tenant of a value.\<close>

definition require_same_tenant :: "request_context \<Rightarrow> ('a \<Rightarrow> m_tenant_id) \<Rightarrow> 'a \<Rightarrow> managed_error + unit" where
  "require_same_tenant ctx tenant_of v =
     (if ctx_tenant ctx = tenant_of v then Inr () else Inl (TenantMismatch (ctx_tenant ctx) (tenant_of v)))"

section \<open>Scopes, roles and permissions\<close>

fun scope_as_str :: "api_scope \<Rightarrow> string" where
  "scope_as_str TenantAdmin = ''tenant:admin''"
| "scope_as_str InvoiceRead = ''invoice:read''"
| "scope_as_str InvoiceWrite = ''invoice:write''"
| "scope_as_str InvoiceValidate = ''invoice:validate''"
| "scope_as_str InvoiceRender = ''invoice:render''"
| "scope_as_str InvoiceTransmit = ''invoice:transmit''"
| "scope_as_str ArchiveRead = ''archive:read''"
| "scope_as_str AuditRead = ''audit:read''"

fun scope_permits :: "api_scope \<Rightarrow> permission \<Rightarrow> bool" where
  "scope_permits TenantAdmin _ \<longleftrightarrow> True"
| "scope_permits InvoiceRead p \<longleftrightarrow> p = ReadInvoices"
| "scope_permits InvoiceWrite p \<longleftrightarrow> p = WriteInvoices"
| "scope_permits InvoiceValidate p \<longleftrightarrow> p = ValidateInvoices"
| "scope_permits InvoiceRender p \<longleftrightarrow> p = RenderInvoices"
| "scope_permits InvoiceTransmit p \<longleftrightarrow> p = TransmitInvoices"
| "scope_permits ArchiveRead p \<longleftrightarrow> p = ReadArchive"
| "scope_permits AuditRead p \<longleftrightarrow> p = ReadAudit"

record api_key_secret_digest =
  digest_algorithm :: string
  digest_text :: string

definition secret_digest_new :: "string \<Rightarrow> string \<Rightarrow> managed_error + api_key_secret_digest" where
  "secret_digest_new algorithm digest =
     rbind (managed_identifier ''secret_digest.algorithm'' algorithm) (\<lambda>a.
       if blank digest
       then Inl (InvalidManagedIdentifier ''secret_digest.digest'' ''digest must not be empty'')
       else Inr \<lparr>digest_algorithm = a, digest_text = digest\<rparr>)"

datatype api_key_status = KeyActive | KeyRevoked

record api_key_record =
  key_tenant :: m_tenant_id
  key_id :: m_api_key_id
  key_name :: string
  key_digest :: api_key_secret_digest
  key_preview :: string
  key_scopes :: "api_scope set"
  key_status :: api_key_status
  key_created_at :: string

definition api_key_new :: "m_tenant_id \<Rightarrow> m_api_key_id \<Rightarrow> string \<Rightarrow> api_key_secret_digest \<Rightarrow> string
    \<Rightarrow> api_scope set \<Rightarrow> string \<Rightarrow> managed_error + api_key_record" where
  "api_key_new tenant key name digest preview scopes created_at =
     (if scopes = {}
      then Inl (InvalidManagedIdentifier ''scopes'' ''at least one explicit scope is required'')
      else rbind (require_non_empty ''name'' name) (\<lambda>name'.
        rbind (require_non_empty ''secret_preview'' preview) (\<lambda>preview'.
        rbind (require_non_empty ''created_at'' created_at) (\<lambda>created_at'.
          Inr \<lparr>key_tenant = tenant, key_id = key, key_name = name', key_digest = digest,
               key_preview = preview', key_scopes = scopes, key_status = KeyActive,
               key_created_at = created_at'\<rparr>))))"

definition allows_scope :: "api_key_record \<Rightarrow> api_scope \<Rightarrow> bool" where
  "allows_scope key scope \<longleftrightarrow>
     key_status key = KeyActive \<and> (TenantAdmin \<in> key_scopes key \<or> scope \<in> key_scopes key)"

definition require_scope :: "api_key_record \<Rightarrow> api_scope \<Rightarrow> managed_error + unit" where
  "require_scope key scope = (if allows_scope key scope then Inr () else Inl (MissingScope scope))"

fun role_allows :: "role \<Rightarrow> permission \<Rightarrow> bool" where
  "role_allows Admin p \<longleftrightarrow> True"
| "role_allows Member p \<longleftrightarrow>
     p \<in> {ReadInvoices, WriteInvoices, ValidateInvoices, RenderInvoices, TransmitInvoices, ReadArchive}"
| "role_allows Viewer p \<longleftrightarrow> p \<in> {ReadInvoices, ValidateInvoices, RenderInvoices}"

definition require_permission :: "role \<Rightarrow> permission \<Rightarrow> managed_error + unit" where
  "require_permission r p = (if role_allows r p then Inr () else Inl (PermissionDenied r p))"

record membership =
  mem_tenant :: m_tenant_id
  mem_principal :: m_principal_id
  mem_role :: role

definition membership_require_permission :: "membership \<Rightarrow> permission \<Rightarrow> managed_error + unit" where
  "membership_require_permission m p = require_permission (mem_role m) p"

section \<open>OpenID Connect\<close>

record google_oidc_config =
  oidc_client_id :: string
  oidc_redirect_uri :: string
  oidc_hosted_domain :: "string option"

text \<open>\<open>contains(char::is_whitespace)\<close>: a white-space code point starts somewhere in the text.\<close>

fun has_whitespace :: "string \<Rightarrow> bool" where
  "has_whitespace [] \<longleftrightarrow> False"
| "has_whitespace (c # cs) \<longleftrightarrow> 0 < lead_ws ws1 ws2 ws3 (c # cs) \<or> has_whitespace cs"

definition google_oidc_config_new :: "string \<Rightarrow> string \<Rightarrow> string option \<Rightarrow> managed_error + google_oidc_config" where
  "google_oidc_config_new client_id redirect_uri hosted_domain =
     rbind (require_non_empty ''client_id'' client_id) (\<lambda>client_id'.
     rbind (require_non_empty ''redirect_uri'' redirect_uri) (\<lambda>redirect_uri'.
       if strip_prefix ''https://'' redirect_uri' = None
       then Inl (OidcConfigInvalid ''redirect_uri must use https'')
       else if (case hosted_domain of None \<Rightarrow> False | Some d \<Rightarrow> blank d \<or> has_whitespace d)
       then Inl (OidcConfigInvalid ''hosted_domain must be non-empty and contain no whitespace'')
       else Inr \<lparr>oidc_client_id = client_id', oidc_redirect_uri = redirect_uri',
                 oidc_hosted_domain = hosted_domain\<rparr>))"

definition upper_hex_digit :: "nat \<Rightarrow> char" where
  "upper_hex_digit v = (if v < 10 then char_of (48 + v) else char_of (55 + v))"

definition percent_byte :: "char \<Rightarrow> string" where
  "percent_byte b =
     (if ascii_alphanumeric b \<or> b \<in> set ''-._~'' then [b]
      else [CHR ''%'', upper_hex_digit (byte b div 16), upper_hex_digit (byte b mod 16)])"

definition percent_encode_component :: "string \<Rightarrow> string" where
  "percent_encode_component v = concat (map percent_byte v)"

definition authorization_url :: "google_oidc_config \<Rightarrow> string \<Rightarrow> string \<Rightarrow> string \<Rightarrow> managed_error + string" where
  "authorization_url cfg state nonce challenge =
     rbind (require_non_empty ''state'' state) (\<lambda>state'.
     rbind (require_non_empty ''nonce'' nonce) (\<lambda>nonce'.
     rbind (require_non_empty ''pkce_code_challenge'' challenge) (\<lambda>challenge'.
       let query =
         [(''client_id'', percent_encode_component (oidc_client_id cfg)),
          (''redirect_uri'', percent_encode_component (oidc_redirect_uri cfg)),
          (''response_type'', ''code''),
          (''scope'', percent_encode_component ''openid email profile''),
          (''state'', percent_encode_component state'),
          (''nonce'', percent_encode_component nonce'),
          (''code_challenge'', percent_encode_component challenge'),
          (''code_challenge_method'', ''S256'')]
         @ (case oidc_hosted_domain cfg of None \<Rightarrow> []
            | Some d \<Rightarrow> [(''hd'', percent_encode_component d)])
       in Inr (''https://accounts.google.com/o/oauth2/v2/auth?''
               @ join ''&'' (map (\<lambda>(name, v). name @ ''='' @ v) query)))))"

record google_id_token_claims =
  cl_issuer :: string
  cl_subject :: string
  cl_audience :: "string list"
  cl_email :: string
  cl_email_verified :: bool
  cl_hosted_domain :: "string option"
  cl_expires_at :: u64
  cl_issued_at :: u64

datatype oidc_provider = Google

record oidc_identity =
  oid_provider :: oidc_provider
  oid_subject :: string
  oid_email :: string
  oid_hosted_domain :: "string option"

definition accept_verified_claims ::
  "google_oidc_config \<Rightarrow> google_id_token_claims \<Rightarrow> u64 \<Rightarrow> managed_error + oidc_identity" where
  "accept_verified_claims cfg claims now =
     (if cl_issuer claims \<noteq> ''https://accounts.google.com''
      then Inl (OidcClaimRejected ''issuer must be https://accounts.google.com'')
      else if oidc_client_id cfg \<notin> set (cl_audience claims)
      then Inl (OidcClaimRejected ''audience does not include configured client_id'')
      else if cl_expires_at claims \<le> now then Inl (OidcClaimRejected ''token is expired'')
      else if now + 300 < cl_issued_at claims
      then Inl (OidcClaimRejected ''issued-at is too far in the future'')
      else if \<not> cl_email_verified claims then Inl (OidcClaimRejected ''email must be verified'')
      else if blank (cl_subject claims) then Inl (OidcClaimRejected ''subject must not be empty'')
      else if blank (cl_email claims) \<or> CHR ''@'' \<notin> set (cl_email claims)
      then Inl (OidcClaimRejected ''email must be present'')
      else if (case oidc_hosted_domain cfg of None \<Rightarrow> False | Some d \<Rightarrow> cl_hosted_domain claims \<noteq> Some d)
      then Inl (OidcClaimRejected ''hosted domain does not match configuration'')
      else Inr \<lparr>oid_provider = Google, oid_subject = cl_subject claims, 
                oid_email = cl_email claims, oid_hosted_domain = cl_hosted_domain claims\<rparr>)"

section \<open>Audit events\<close>

datatype audit_action =
    TenantCreated
  | ApiKeyCreated
  | ApiKeyRevoked
  | OidcLoginSucceeded
  | OidcLoginRejected
  | RoleAssigned
  | RoleRemoved
  | InvoiceValidated
  | InvoiceTransmitted

datatype audit_outcome = AuditSucceeded | AuditDenied | AuditFailed

record audit_target =
  tgt_kind :: string
  tgt_id :: string

definition audit_target_new :: "string \<Rightarrow> string \<Rightarrow> managed_error + audit_target" where
  "audit_target_new kind i =
     rbind (require_non_empty ''target.kind'' kind) (\<lambda>k.
     rbind (require_non_empty ''target.id'' i) (\<lambda>j. Inr \<lparr>tgt_kind = k, tgt_id = j\<rparr>))"

record audit_event =
  ae_event_id :: m_audit_event_id
  ae_tenant :: m_tenant_id
  ae_trace :: m_trace_id
  ae_actor :: actor
  ae_action :: audit_action
  ae_outcome :: audit_outcome
  ae_target :: audit_target
  ae_occurred_at :: string
  ae_metadata :: "(string, string) btree"

definition audit_event_new :: "m_audit_event_id \<Rightarrow> request_context \<Rightarrow> audit_action \<Rightarrow> audit_outcome
    \<Rightarrow> audit_target \<Rightarrow> string \<Rightarrow> managed_error + audit_event" where
  "audit_event_new event_id ctx action outcome target occurred_at =
     rbind (require_non_empty ''occurred_at'' occurred_at) (\<lambda>t.
       Inr \<lparr>ae_event_id = event_id, ae_tenant = ctx_tenant ctx, ae_trace = ctx_trace ctx,
            ae_actor = ctx_actor ctx, ae_action = action, ae_outcome = outcome, ae_target = target,
            ae_occurred_at = t, ae_metadata = []\<rparr>)"

definition with_metadata :: "audit_event \<Rightarrow> string \<Rightarrow> string \<Rightarrow> managed_error + audit_event" where
  "with_metadata event k v =
     rbind (require_non_empty ''metadata.key'' k) (\<lambda>k'.
     rbind (require_non_empty ''metadata.value'' v) (\<lambda>v'.
       Inr (event\<lparr>ae_metadata := btree_insert k' v' (ae_metadata event)\<rparr>)))"

section \<open>Identifiers are plain text\<close>

definition identifier_char :: "char \<Rightarrow> bool" where
  "identifier_char b \<longleftrightarrow> ascii_alphanumeric b \<or> b \<in> set ''_.:-''"

lemma identifier_char_solid: "identifier_char c \<Longrightarrow> solid c"
  by (auto simp: identifier_char_def ascii_alphanumeric_def is_digit_def is_upper_def is_lower_def solid_def
      byte_def)

lemma managed_identifier_iff:
  "managed_identifier field v = Inr w \<longleftrightarrow>
     w = v \<and> v \<noteq> [] \<and> length v \<le> 128 \<and> list_all identifier_char v"
proof -
  have "trim v = v" if "v \<noteq> []" "list_all identifier_char v"
    using that by (intro trim_solid_ends identifier_char_solid) (auto simp: list_all_iff)
  then show ?thesis
    by (auto simp: managed_identifier_def identifier_char_def [abs_def])
qed

lemma require_non_empty_Inr [simp]: "require_non_empty f v = Inr w \<longleftrightarrow> w = v \<and> \<not> blank v"
  by (auto simp: require_non_empty_def)

definition identifier_valid :: "string \<Rightarrow> managed_error + unit" where
  "identifier_valid v = ensure (v \<noteq> [] \<and> length v \<le> 128 \<and> list_all identifier_char v)
     (InvalidManagedIdentifier [] [])"

interpretation tenant_newtype: checked_newtype m_tenant_id_new m_tenant_str "identifier_valid \<circ> m_tenant_str"
  by unfold_locales (auto simp: m_tenant_id_new_def rbind_Inr_iff managed_identifier_iff identifier_valid_def)

interpretation principal_newtype:
  checked_newtype m_principal_id_new principal_str "identifier_valid \<circ> principal_str"
  by unfold_locales (auto simp: m_principal_id_new_def rbind_Inr_iff managed_identifier_iff identifier_valid_def)

interpretation api_key_newtype: checked_newtype m_api_key_id_new api_key_str "identifier_valid \<circ> api_key_str"
  by unfold_locales (auto simp: m_api_key_id_new_def rbind_Inr_iff managed_identifier_iff identifier_valid_def)

interpretation trace_newtype: checked_newtype m_trace_id_new m_trace_str "identifier_valid \<circ> m_trace_str"
  by unfold_locales (auto simp: m_trace_id_new_def rbind_Inr_iff managed_identifier_iff identifier_valid_def)

interpretation audit_event_newtype:
  checked_newtype m_audit_event_id_new audit_event_str "identifier_valid \<circ> audit_event_str"
  by unfold_locales
    (auto simp: m_audit_event_id_new_def rbind_Inr_iff managed_identifier_iff identifier_valid_def)

section \<open>Authorisation\<close>

text \<open>A key allows a scope exactly when it is active and its scopes together grant every permission the
  scope stands for: no scope gives more than its own permissions, and the administrator scope is needed
  for what no other scope grants.
\<close>

theorem key_allows_exactly_its_permissions:
  "require_scope key scope = Inr () \<longleftrightarrow> key_status key = KeyActive
     \<and> {p. scope_permits scope p} \<subseteq> {p. \<exists>s \<in> key_scopes key. scope_permits s p}"
proof -
  have single: "scope_permits s p \<longleftrightarrow> s = TenantAdmin \<or> s = scope"
    if "scope_permits scope p" "scope \<noteq> TenantAdmin" for s p
    using that by (cases scope; cases s) auto
  have some: "\<exists>p. scope_permits scope p" by (cases scope) auto
  have admin: "scope_permits s ManageTenant \<longleftrightarrow> s = TenantAdmin" for s by (cases s) auto
  show ?thesis
  proof (cases "scope = TenantAdmin")
    case True
    have "UNIV \<subseteq> {p. \<exists>s \<in> key_scopes key. scope_permits s p} \<longleftrightarrow> TenantAdmin \<in> key_scopes key"
    proof
      assume "UNIV \<subseteq> {p. \<exists>s \<in> key_scopes key. scope_permits s p}"
      then have "ManageTenant \<in> {p. \<exists>s \<in> key_scopes key. scope_permits s p}" by blast
      with admin show "TenantAdmin \<in> key_scopes key" by auto
    next
      assume "TenantAdmin \<in> key_scopes key"
      then show "UNIV \<subseteq> {p. \<exists>s \<in> key_scopes key. scope_permits s p}" by force
    qed
    with True show ?thesis by (simp add: require_scope_def allows_scope_def)
  next
    case False
    obtain p where p: "scope_permits scope p" using some by blast
    have "{p. scope_permits scope p} \<subseteq> {p. \<exists>s \<in> key_scopes key. scope_permits s p}
        \<longleftrightarrow> (\<exists>s \<in> key_scopes key. s = TenantAdmin \<or> s = scope)"
    proof
      assume "{p. scope_permits scope p} \<subseteq> {p. \<exists>s \<in> key_scopes key. scope_permits s p}"
      then have "\<exists>s \<in> key_scopes key. scope_permits s p" using p by blast
      then show "\<exists>s \<in> key_scopes key. s = TenantAdmin \<or> s = scope" by (simp add: single [OF p False])
    next
      assume "\<exists>s \<in> key_scopes key. s = TenantAdmin \<or> s = scope"
      then show "{p. scope_permits scope p} \<subseteq> {p. \<exists>s \<in> key_scopes key. scope_permits s p}"
        using single [OF _ False] by (intro subsetI CollectI) simp
    qed
    then have "{p. scope_permits scope p} \<subseteq> {p. \<exists>s \<in> key_scopes key. scope_permits s p}
        \<longleftrightarrow> TenantAdmin \<in> key_scopes key \<or> scope \<in> key_scopes key" by auto
    then show ?thesis by (simp add: require_scope_def allows_scope_def)
  qed
qed

text \<open>The roles are ordered, and only the administrator manages access or reads the audit log.\<close>

lemma roles_ordered:
  "{p. role_allows Viewer p} \<subset> {p. role_allows Member p}" "{p. role_allows Member p} \<subset> {p. role_allows Admin p}"
  by auto

lemma role_allows_all_iff:
  "p \<in> {ManageTenant, ManageApiKeys, ReadAudit} \<Longrightarrow> role_allows r p \<longleftrightarrow> r = Admin"
  by (cases r) auto

section \<open>Claims\<close>

text \<open>
  Verified claims are accepted exactly when issuer and audience are right, the token has not expired
  and was not issued more than five minutes from now, the email is verified and present, and the hosted
  domain is the configured one; the identity is that of the claims.
\<close>

theorem claims_accepted_iff:
  assumes "unat now + 300 < 2 ^ 64"
  shows "accept_verified_claims cfg claims now = Inr identity \<longleftrightarrow>
      cl_issuer claims = ''https://accounts.google.com''
    \<and> oidc_client_id cfg \<in> set (cl_audience claims)
    \<and> unat now < unat (cl_expires_at claims) \<and> unat (cl_issued_at claims) \<le> unat now + 300
    \<and> cl_email_verified claims \<and> \<not> blank (cl_subject claims)
    \<and> \<not> blank (cl_email claims) \<and> CHR ''@'' \<in> set (cl_email claims)
    \<and> (case oidc_hosted_domain cfg of None \<Rightarrow> True | Some d \<Rightarrow> cl_hosted_domain claims = Some d)
    \<and> identity = \<lparr>oid_provider = Google, oid_subject = cl_subject claims, oid_email = cl_email claims,
        oid_hosted_domain = cl_hosted_domain claims\<rparr>"
proof -
  have "unat (now + 300) = unat now + 300" using assms by (simp add: unat_add_fits)
  then show ?thesis
    by (auto simp: accept_verified_claims_def word_less_nat_alt word_le_nat_alt not_less not_le
        split: option.splits)
qed

section \<open>The authorisation URL\<close>

lemma upper_hex_digit_inj: "m < 16 \<Longrightarrow> n < 16 \<Longrightarrow> upper_hex_digit m = upper_hex_digit n \<Longrightarrow> m = n"
  by (auto simp: upper_hex_digit_def split: if_splits)

lemma byte_bound: "byte c < 256"
  by (simp add: byte_def)

interpretation percent: self_delimiting percent_byte "\<lambda>_. True"
proof
  fix b c s t
  assume eq: "percent_byte b @ s = percent_byte c @ t"
  let ?p = "\<lambda>b. ascii_alphanumeric b \<or> b \<in> set ''-._~''"
  have pc: "\<not> ?p CHR ''%''" by (simp add: ascii_alphanumeric_def is_digit_def is_upper_def is_lower_def byte_def)
  show "b = c"
  proof (cases "?p b \<or> ?p c")
    case True
    with eq pc show ?thesis by (auto simp: percent_byte_def split: if_splits)
  next
    case False
    then have "upper_hex_digit (byte b div 16) = upper_hex_digit (byte c div 16)"
      "upper_hex_digit (byte b mod 16) = upper_hex_digit (byte c mod 16)"
      using eq by (simp_all add: percent_byte_def)
    then have "byte b div 16 = byte c div 16" "byte b mod 16 = byte c mod 16"
      using byte_bound [of b] byte_bound [of c] by (auto intro!: upper_hex_digit_inj)
    then have "byte b = byte c" by (metis div_mult_mod_eq)
    then show ?thesis by (simp add: byte_def)
  qed
qed

lemma percent_field:
  "percent_encode_component v @ CHR ''&'' # s = percent_encode_component w @ CHR ''&'' # t \<longleftrightarrow> v = w \<and> s = t"
proof
  assume "percent_encode_component v @ CHR ''&'' # s = percent_encode_component w @ CHR ''&'' # t"
  then show "v = w \<and> s = t"
    unfolding percent_encode_component_def
    by (rule percent.terminated_inj [rotated 3])
      (auto simp: percent_byte_def list_all_iff ascii_alphanumeric_def is_digit_def is_upper_def is_lower_def
        byte_def)
qed simp

lemma percent_encode_inj: "percent_encode_component v = percent_encode_component w \<longleftrightarrow> v = w"
  using percent.unterminated_inj [of v w]
  by (auto simp: percent_encode_component_def percent_byte_def list_all_iff)

text \<open>The query with its names, as one text.\<close>

lemma authorization_url_text:
  "authorization_url cfg state nonce challenge = Inr url \<longleftrightarrow>
     \<not> blank state \<and> \<not> blank nonce \<and> \<not> blank challenge
   \<and> url = ''https://accounts.google.com/o/oauth2/v2/auth?client_id='' @ percent_encode_component (oidc_client_id cfg)
       @ CHR ''&'' # ''redirect_uri='' @ percent_encode_component (oidc_redirect_uri cfg)
       @ CHR ''&'' # ''response_type=code&scope='' @ percent_encode_component ''openid email profile''
       @ CHR ''&'' # ''state='' @ percent_encode_component state
       @ CHR ''&'' # ''nonce='' @ percent_encode_component nonce
       @ CHR ''&'' # ''code_challenge='' @ percent_encode_component challenge
       @ CHR ''&'' # ''code_challenge_method=S256''
       @ (case oidc_hosted_domain cfg of None \<Rightarrow> []
          | Some d \<Rightarrow> CHR ''&'' # ''hd='' @ percent_encode_component d)"
  by (cases "oidc_hosted_domain cfg") (auto simp: authorization_url_def rbind_Inr_iff Let_def)

text \<open>The authorisation URL identifies its parameters: what is put into one of them cannot become
  another parameter, and the values can be read back.
\<close>

theorem authorization_url_identifies:
  assumes "authorization_url cfg state nonce challenge = Inr url"
    and "authorization_url cfg' state' nonce' challenge' = Inr url"
  shows "cfg = cfg' \<and> state = state' \<and> nonce = nonce' \<and> challenge = challenge'"
proof -
  from assms(1) [unfolded authorization_url_text] assms(2) [unfolded authorization_url_text]
  have "oidc_client_id cfg = oidc_client_id cfg' \<and> oidc_redirect_uri cfg = oidc_redirect_uri cfg'
      \<and> state = state' \<and> nonce = nonce' \<and> challenge = challenge'
      \<and> (case oidc_hosted_domain cfg of None \<Rightarrow> [] | Some d \<Rightarrow> CHR ''&'' # ''hd='' @ percent_encode_component d)
        = (case oidc_hosted_domain cfg' of None \<Rightarrow> [] | Some d \<Rightarrow> CHR ''&'' # ''hd='' @ percent_encode_component d)"
    by (simp only: append_Cons append_Nil append_assoc append_same_eq same_append_eq list.inject percent_field)
  moreover from this have "oidc_hosted_domain cfg = oidc_hosted_domain cfg'"
    by (auto simp: percent_encode_inj split: option.splits)
  ultimately show ?thesis by (intro conjI google_oidc_config.equality) simp_all
qed

lemma claims_accepted_iff_witness:
  "\<exists>identity. accept_verified_claims
     \<lparr>oidc_client_id = ''client'', oidc_redirect_uri = ''https://e'', oidc_hosted_domain = None\<rparr>
     \<lparr>cl_issuer = ''https://accounts.google.com'', cl_subject = ''s'', cl_audience = [''client''],
      cl_email = ''u@e'', cl_email_verified = True, cl_hosted_domain = None, cl_expires_at = 2000,
      cl_issued_at = 1000\<rparr> 1500 = Inr identity"
proof -
  have "\<not> blank ''s''" "\<not> blank ''u@e''"
    by (rule not_blank_solid [of "CHR ''s''"] not_blank_solid [of "CHR ''u''"]; simp add: solid_def byte_def)+
  then show ?thesis by (subst claims_accepted_iff) simp_all
qed

lemma authorization_url_identifies_witness:
  "\<exists>url. authorization_url
      \<lparr>oidc_client_id = ''c'', oidc_redirect_uri = ''https://e'', oidc_hosted_domain = Some ''e''\<rparr> ''s'' ''n'' ''k''
      = Inr url
    \<and> authorization_url
      \<lparr>oidc_client_id = ''c'', oidc_redirect_uri = ''https://e'', oidc_hosted_domain = Some ''e''\<rparr> ''s'' ''n'' ''&''
      \<noteq> Inr url"
proof -
  have nb: "\<not> blank [c]" if "solid c" for c using not_blank_solid [OF that] by simp
  let ?cfg = "\<lparr>oidc_client_id = ''c'', oidc_redirect_uri = ''https://e'', oidc_hosted_domain = Some ''e''\<rparr>"
  have "\<exists>url. authorization_url ?cfg ''s'' ''n'' ''k'' = Inr url"
    using nb by (simp add: authorization_url_text solid_def byte_def)
  moreover have "authorization_url ?cfg ''s'' ''n'' ''&'' \<noteq> Inr url"
    if "authorization_url ?cfg ''s'' ''n'' ''k'' = Inr url" for url
    using authorization_url_identifies [OF that, of ?cfg "''s''" "''n''" "''&''"] by auto
  ultimately show ?thesis by blast
qed

end
