(* ===== verification/Paging.thy ===== *)
theory Paging
  imports Prelude
begin

text \<open>
  Listings that are handed out page by page.  A client follows the cursor of each page to the next; the
  locale \<open>paged_listing\<close> is what a provider promises, and its lemma that the client then reaches a page
  without a cursor and has seen every item once, in order.
\<close>

text \<open>At most \<open>n\<close> requests; \<open>None\<close> is a client whose last allowed request still returned a cursor.\<close>

fun follow_pages :: "nat \<Rightarrow> ('c option \<Rightarrow> 'e + 'a list \<times> 'c option) \<Rightarrow> 'c option \<Rightarrow> ('e + 'a list) option" where
  "follow_pages 0 fetch c = None"
| "follow_pages (Suc n) fetch c =
     (case fetch c of
        Inl e \<Rightarrow> Some (Inl e)
      | Inr (xs, None) \<Rightarrow> Some (Inr xs)
      | Inr (xs, Some c') \<Rightarrow> map_option (\<lambda>r. rbind r (\<lambda>ys. Inr (xs @ ys))) (follow_pages n fetch (Some c')))"

locale paged_listing =
  fixes fetch :: "'c option \<Rightarrow> 'e + 'a list \<times> 'c option"
    and cursor :: "nat \<Rightarrow> 'c"
    and items :: "'a list"
    and size :: nat
  assumes size_pos: "0 < size"
    and fetch_first: "fetch None = fetch (Some (cursor 0))"
    and fetch_at: "k \<le> length items \<Longrightarrow> fetch (Some (cursor k)) =
        Inr (take size (drop k items), if k + size < length items then Some (cursor (k + size)) else None)"
begin

lemma follow_from:
  "k \<le> length items \<Longrightarrow> length items - k < n \<Longrightarrow> follow_pages n fetch (Some (cursor k)) = Some (Inr (drop k items))"
proof (induction n arbitrary: k)
  case (Suc n)
  show ?case
  proof (cases "k + size < length items")
    case True
    then have "follow_pages n fetch (Some (cursor (k + size))) = Some (Inr (drop (k + size) items))"
      using Suc.prems size_pos by (intro Suc.IH) auto
    moreover have "take size (drop k items) @ drop (k + size) items = drop k items"
      by (metis add.commute append_take_drop_id drop_drop)
    ultimately show ?thesis using True Suc.prems by (simp add: fetch_at)
  next
    case False
    then show ?thesis using Suc.prems by (simp add: fetch_at)
  qed
qed simp

text \<open>One fetch more than there are items is enough to reach the last page.\<close>

lemma follow_all: "length items < n \<Longrightarrow> follow_pages n fetch None = Some (Inr items)"
  using follow_from [of 0 n] by (cases n) (simp_all add: fetch_first)

end

end
