(* ===== verification/Audit_Log.thy ===== *)
theory Audit_Log
  imports Managed_Access Paging "HOL-Library.Product_Lexorder"
begin

text \<open>
  \<open>crates/managed-api/src/audit_log.rs\<close>: the customer-facing audit log, its in-memory store, the query
  handler with its cursors, and signed exports.  The store trait is the function that answers a query;
  HMAC-SHA256 and the JSON encoding of one event are parameters.  A lock is never poisoned, since no
  holder panics.
\<close>

section \<open>Queries and pages\<close>

datatype export_format = ExportJson | ExportCsv

record audit_query =
  aq_tenant :: m_tenant_id
  aq_action :: "audit_action option"
  aq_outcome :: "audit_outcome option"
  aq_target_kind :: "string option"
  aq_target_id :: "string option"
  aq_since :: "string option"
  aq_until :: "string option"
  aq_page_size :: nat
  aq_cursor :: "string option"

definition for_tenant :: "m_tenant_id \<Rightarrow> audit_query" where
  "for_tenant t = \<lparr>aq_tenant = t, aq_action = None, aq_outcome = None, aq_target_kind = None,
     aq_target_id = None, aq_since = None, aq_until = None, aq_page_size = 0, aq_cursor = None\<rparr>"

record audit_page =
  pg_events :: "audit_event list"
  pg_count :: nat
  pg_next_cursor :: "string option"

record signed_export_data =
  ex_format :: export_format
  ex_tenant :: m_tenant_id
  ex_event_count :: nat
  ex_signature_alg :: string
  ex_signature :: string
  ex_body :: string

datatype audit_query_error =
    AuditCrossTenant string string
  | BadCursor string
  | AuditStore string
  | AuditFilter string

datatype export_verify_error = UnknownScheme string | AuditSignatureMismatch | BadHex string

section \<open>Cursors\<close>

fun show_hex :: "nat \<Rightarrow> string" where
  "show_hex n = (if n < 16 then [hex_digit n] else show_hex (n div 16) @ [hex_digit (n mod 16)])"

declare show_hex.simps [simp del]

definition encode_cursor :: "nat \<Rightarrow> string" where
  "encode_cursor offset = ''v1.'' @ show_hex offset"

definition decode_cursor :: "string \<Rightarrow> audit_query_error + nat" where
  "decode_cursor s =
     (case strip_prefix ''v1.'' s of
        None \<Rightarrow> Inl (BadCursor s)
      | Some rest \<Rightarrow> (case parse_radix 16 (2 ^ 64 - 1) rest of None \<Rightarrow> Inl (BadCursor s) | Some n \<Rightarrow> Inr n))"

section \<open>The in-memory store\<close>

type_synonym audit_store = "audit_event list"

definition audit_append :: "audit_store \<Rightarrow> audit_event \<Rightarrow> audit_store" where
  "audit_append events event =
     (if list_ex (\<lambda>e. ae_event_id e = ae_event_id event) events then events else events @ [event])"

definition is_none_or :: "'a option \<Rightarrow> ('a \<Rightarrow> bool) \<Rightarrow> bool" where
  "is_none_or x p = (case x of None \<Rightarrow> True | Some a \<Rightarrow> p a)"

definition audit_matches :: "audit_query \<Rightarrow> audit_event \<Rightarrow> bool" where
  "audit_matches q e \<longleftrightarrow>
     ae_tenant e = aq_tenant q
   \<and> is_none_or (aq_action q) (\<lambda>a. ae_action e = a)
   \<and> is_none_or (aq_outcome q) (\<lambda>r. ae_outcome e = r)
   \<and> is_none_or (aq_target_kind q) (\<lambda>k. tgt_kind (ae_target e) = k)
   \<and> is_none_or (aq_target_id q) (\<lambda>i. tgt_id (ae_target e) = i)
   \<and> is_none_or (aq_since q) (\<lambda>s. s \<le> ae_occurred_at e)
   \<and> is_none_or (aq_until q) (\<lambda>u. ae_occurred_at e \<le> u)"

definition compare_events :: "audit_event \<Rightarrow> audit_event \<Rightarrow> ordering" where
  "compare_events a b =
     then_with (cmp_of (ae_occurred_at a) (ae_occurred_at b))
       (cmp_of (audit_event_str (ae_event_id a)) (audit_event_str (ae_event_id b)))"

definition usize_saturating_add :: "nat \<Rightarrow> nat \<Rightarrow> nat" where
  "usize_saturating_add a b = min (a + b) (2 ^ 64 - 1)"

definition mem_query :: "audit_store \<Rightarrow> audit_query \<Rightarrow> audit_query_error + audit_page" where
  "mem_query events q =
     (let filtered = sort_by compare_events (filter (audit_matches q) events)
      in rbind (case aq_cursor q of None \<Rightarrow> Inr 0
                | Some c \<Rightarrow> rbind (decode_cursor c) (\<lambda>n. Inr (min n (length filtered))))
         (\<lambda>start.
            let stop = min (usize_saturating_add start (aq_page_size q)) (length filtered);
                page = take (stop - start) (drop start filtered)
            in Inr \<lparr>pg_events = page, pg_count = length page,
                    pg_next_cursor = (if stop < length filtered then Some (encode_cursor stop) else None)\<rparr>))"

section \<open>The handler\<close>

definition blank_filter :: "string option \<times> string \<Rightarrow> audit_query_error + unit" where
  "blank_filter = (\<lambda>(v, field).
     ensure (v \<noteq> Some []) (AuditFilter (field @ '' must not be blank'')))"

definition handle_audit_query ::
  "request_context \<Rightarrow> (audit_query \<Rightarrow> audit_query_error + audit_page) \<Rightarrow> audit_query
     \<Rightarrow> audit_query_error + audit_page" where
  "handle_audit_query ctx store q =
     (if aq_tenant q \<noteq> ctx_tenant ctx
      then Inl (AuditCrossTenant (m_tenant_str (ctx_tenant ctx)) (m_tenant_str (aq_tenant q)))
      else rbind (check_all blank_filter
             [(aq_since q, ''since''), (aq_until q, ''until''), (aq_target_kind q, ''target_kind''),
              (aq_target_id q, ''target_id'')])
        (\<lambda>_. store (q\<lparr>aq_page_size := (if aq_page_size q = 0 then 50
                                       else if 500 < aq_page_size q then 500 else aq_page_size q)\<rparr>)))"

section \<open>Exports\<close>

fun actor_short :: "actor \<Rightarrow> string" where
  "actor_short (ActorSystem name) = ''system:'' @ name"
| "actor_short (ActorPrincipal p) = ''principal:'' @ principal_str p"
| "actor_short (ActorApiKey k) = ''api_key:'' @ api_key_str k"

fun serde_action :: "audit_action \<Rightarrow> string" where
  "serde_action TenantCreated = ''tenant_created''"
| "serde_action ApiKeyCreated = ''api_key_created''"
| "serde_action ApiKeyRevoked = ''api_key_revoked''"
| "serde_action OidcLoginSucceeded = ''oidc_login_succeeded''"
| "serde_action OidcLoginRejected = ''oidc_login_rejected''"
| "serde_action RoleAssigned = ''role_assigned''"
| "serde_action RoleRemoved = ''role_removed''"
| "serde_action InvoiceValidated = ''invoice_validated''"
| "serde_action InvoiceTransmitted = ''invoice_transmitted''"

fun serde_outcome :: "audit_outcome \<Rightarrow> string" where
  "serde_outcome AuditSucceeded = ''succeeded''"
| "serde_outcome AuditDenied = ''denied''"
| "serde_outcome AuditFailed = ''failed''"

definition metadata_compact :: "(string, string) btree \<Rightarrow> string" where
  "metadata_compact m = join '';'' (map (\<lambda>(k, v). k @ ''='' @ v) m)"

definition csv_escape :: "string \<Rightarrow> string" where
  "csv_escape s =
     (if CHR '','' \<in> set s \<or> CHR 0x22 \<in> set s \<or> CHR 0x0A \<in> set s
      then CHR 0x22 # concat (map (\<lambda>c. if c = CHR 0x22 then [CHR 0x22, CHR 0x22] else [c]) s) @ [CHR 0x22]
      else s)"

definition csv_fields :: "audit_event \<Rightarrow> string list" where
  "csv_fields e =
     [audit_event_str (ae_event_id e), m_tenant_str (ae_tenant e), m_trace_str (ae_trace e),
      actor_short (ae_actor e), serde_action (ae_action e), serde_outcome (ae_outcome e),
      tgt_kind (ae_target e), tgt_id (ae_target e), ae_occurred_at e, metadata_compact (ae_metadata e)]"

definition csv_row :: "string list \<Rightarrow> string" where
  "csv_row fs = join '','' (map csv_escape fs) @ [CHR 0x0A]"

definition render_csv :: "audit_event list \<Rightarrow> string" where
  "render_csv events =
     ''event_id,tenant_id,trace_id,actor,action,outcome,target_kind,target_id,occurred_at,metadata''
     @ CHR 0x0A # concat (map (csv_row \<circ> csv_fields) events)"

fun render_json :: "(audit_event \<Rightarrow> string option) \<Rightarrow> audit_event list \<Rightarrow> managed_error + string" where
  "render_json to_vec [] = Inr []"
| "render_json to_vec (e # es) =
     (case to_vec e of
        None \<Rightarrow> Inl (InvalidManagedIdentifier ''audit_event'' ''audit event JSON encode failed'')
      | Some line \<Rightarrow> rbind (render_json to_vec es) (\<lambda>out. Inr (line @ CHR 0x0A # out)))"

definition signed_export :: "(u8 list \<Rightarrow> string \<Rightarrow> u8 list) \<Rightarrow> (audit_event \<Rightarrow> string option) \<Rightarrow> m_tenant_id
    \<Rightarrow> export_format \<Rightarrow> audit_page \<Rightarrow> u8 list \<Rightarrow> managed_error + signed_export_data" where
  "signed_export hmac to_vec tenant fmt page key =
     rbind (case fmt of ExportJson \<Rightarrow> render_json to_vec (pg_events page)
            | ExportCsv \<Rightarrow> Inr (render_csv (pg_events page)))
       (\<lambda>body. Inr \<lparr>ex_format = fmt, ex_tenant = tenant, ex_event_count = pg_count page,
          ex_signature_alg = ''hmac-sha256'', ex_signature = hex_lower (hmac key body), ex_body = body\<rparr>)"

definition hex_nybble :: "char \<Rightarrow> string + nat" where
  "hex_nybble c =
     (if is_digit c then Inr (byte c - 48)
      else if 97 \<le> byte c \<and> byte c \<le> 102 then Inr (byte c - 87)
      else if 65 \<le> byte c \<and> byte c \<le> 70 then Inr (byte c - 55)
      else Inl (''non-hex byte 0x'' @ show_hex (byte c)))"

fun hex_pairs :: "string \<Rightarrow> string + u8 list" where
  "hex_pairs (a # b # cs) =
     rbind (hex_nybble a) (\<lambda>hi. rbind (hex_nybble b) (\<lambda>lo. rbind (hex_pairs cs) (\<lambda>bs.
       Inr (of_nat (16 * hi + lo) # bs))))"
| "hex_pairs _ = Inr []"

definition hex_decode :: "string \<Rightarrow> string + u8 list" where
  "hex_decode s =
     (if length s mod 2 \<noteq> 0 then Inl (''odd-length hex string ('' @ show_nat (length s) @ '' chars)'')
      else hex_pairs s)"

definition verify_signed_export :: "(u8 list \<Rightarrow> string \<Rightarrow> u8 list) \<Rightarrow> signed_export_data \<Rightarrow> u8 list
    \<Rightarrow> export_verify_error + string" where
  "verify_signed_export hmac export key =
     (if ex_signature_alg export \<noteq> ''hmac-sha256'' then Inl (UnknownScheme (ex_signature_alg export))
      else case hex_decode (ex_signature export) of
          Inl e \<Rightarrow> Inl (BadHex e)
        | Inr supplied \<Rightarrow> if hmac key (ex_body export) = supplied then Inr (ex_body export)
                          else Inl AuditSignatureMismatch)"

section \<open>Cursors are read back\<close>

lemma digit_value_hex: "n < 16 \<Longrightarrow> digit_value (hex_digit n) = Some n"
  by (simp add: digit_value_def hex_digit_def Let_def)

lemma radix_value_snoc:
  "radix_value base bound acc (s @ [c]) =
     Option.bind (radix_value base bound acc s) (\<lambda>v. radix_value base bound v [c])"
  by (induction base bound acc s rule: radix_value.induct) (auto split: option.splits)

lemma radix_value_show_hex: "n \<le> bound \<Longrightarrow> radix_value 16 bound 0 (show_hex n) = Some n"
proof (induction n rule: show_hex.induct)
  case (1 n)
  show ?case
  proof (cases "n < 16")
    case True
    with 1 show ?thesis by (simp add: show_hex.simps [of n] digit_value_hex)
  next
    case False
    then have "radix_value 16 bound 0 (show_hex (n div 16)) = Some (n div 16)" using 1 by simp
    with False 1(2) show ?thesis
      by (subst show_hex.simps) (simp add: radix_value_snoc digit_value_hex)
  qed
qed

lemma show_hex_ne: "show_hex n \<noteq> [] \<and> hd (show_hex n) \<noteq> CHR ''+''"
proof (induction n rule: show_hex.induct)
  case (1 n)
  have "hex_digit m \<noteq> CHR ''+''" if "m < 16" for m
    using hex_digit_byte [OF that] by (auto simp: byte_def split: if_splits)
  with 1 show ?case by (subst (1 2) show_hex.simps) simp
qed

lemma decode_encode_cursor: "n < 2 ^ 64 \<Longrightarrow> decode_cursor (encode_cursor n) = Inr n"
  using show_hex_ne [of n] radix_value_show_hex [of n "2 ^ 64 - 1"]
  by (auto simp: decode_cursor_def encode_cursor_def strip_prefix_def parse_radix_def Let_def split: list.splits)

section \<open>The pages of a query\<close>

definition event_key :: "audit_event \<Rightarrow> string \<times> string" where
  "event_key e = (ae_occurred_at e, audit_event_str (ae_event_id e))"

text \<open>The events a query is about, oldest first.\<close>

definition matching_events :: "audit_store \<Rightarrow> audit_query \<Rightarrow> audit_event list" where
  "matching_events events q = sort_by compare_events (filter (audit_matches q) events)"

lemma compare_events_key: "compare_events a b = Greater \<longleftrightarrow> event_key b < event_key a"
  by (auto simp: compare_events_def then_with_def cmp_of_def event_key_def less_prod_def')

lemma mem_query_at:
  assumes "length events < 2 ^ 64" "k \<le> length (matching_events events q)" "aq_cursor q = Some (encode_cursor k)"
    and "aq_page_size q < 2 ^ 64"
  shows "mem_query events q =
    (let es = matching_events events q; page = take (aq_page_size q) (drop k es)
     in Inr \<lparr>pg_events = page, pg_count = length page,
             pg_next_cursor = (if k + aq_page_size q < length es then Some (encode_cursor (k + aq_page_size q))
                               else None)\<rparr>)"
proof -
  let ?es = "matching_events events q"
  have len: "length ?es \<le> length events" by (simp add: matching_events_def)
  have "min (usize_saturating_add k (aq_page_size q)) (length ?es) = min (k + aq_page_size q) (length ?es)"
    using len assms(1) by (simp add: usize_saturating_add_def)
  moreover have "take (min (k + aq_page_size q) (length ?es) - k) (drop k ?es) = take (aq_page_size q) (drop k ?es)"
    by (cases "k + aq_page_size q \<le> length ?es") (simp_all add: min_def)
  moreover have "decode_cursor (encode_cursor k) = Inr k"
    using len assms by (intro decode_encode_cursor) simp
  moreover have "min k (length ?es) = k" using assms(2) by simp
  ultimately show ?thesis
    by (cases "k + aq_page_size q < length ?es")
      (simp_all add: mem_query_def Let_def assms(3) flip: matching_events_def)
qed

lemma audit_matches_update [simp]:
  "audit_matches (q\<lparr>aq_cursor := c\<rparr>) = audit_matches q" "audit_matches (q\<lparr>aq_page_size := n\<rparr>) = audit_matches q"
  by (simp_all add: fun_eq_iff audit_matches_def)

lemma matching_events_update [simp]:
  "matching_events events (q\<lparr>aq_cursor := c\<rparr>) = matching_events events q"
  "matching_events events (q\<lparr>aq_page_size := n\<rparr>) = matching_events events q"
  by (simp_all add: matching_events_def)

lemma mem_query_first:
  "mem_query events (q\<lparr>aq_cursor := None\<rparr>) = mem_query events (q\<lparr>aq_cursor := Some (encode_cursor 0)\<rparr>)"
  by (simp add: mem_query_def Let_def decode_encode_cursor)

text \<open>The listing a client sees of a query, whatever the cursor it carries.\<close>

definition page_listing :: "audit_query_error + audit_page
    \<Rightarrow> audit_query_error + audit_event list \<times> string option" where
  "page_listing r = rbind r (\<lambda>page. Inr (pg_events page, pg_next_cursor page))"

definition effective_size :: "audit_query \<Rightarrow> nat" where
  "effective_size q = (if aq_page_size q = 0 then 50 else min 500 (aq_page_size q))"

definition filters_given :: "audit_query \<Rightarrow> bool" where
  "filters_given q \<longleftrightarrow> aq_since q \<noteq> Some [] \<and> aq_until q \<noteq> Some [] \<and> aq_target_kind q \<noteq> Some []
     \<and> aq_target_id q \<noteq> Some []"

lemma handle_audit_query_ok:
  "handle_audit_query ctx store q =
     (if aq_tenant q \<noteq> ctx_tenant ctx
      then Inl (AuditCrossTenant (m_tenant_str (ctx_tenant ctx)) (m_tenant_str (aq_tenant q)))
      else if filters_given q then store (q\<lparr>aq_page_size := effective_size q\<rparr>)
      else handle_audit_query ctx store q)"
  by (auto simp: handle_audit_query_def check_all_def first_err.simps blank_filter_def ensure_def filters_given_def
      effective_size_def min_def)

text \<open>A \<open>Vec\<close> holds fewer than \<open>2 ^ 63\<close> elements, so a store is within its capacity.\<close>

definition capacity :: "audit_store \<Rightarrow> audit_store" where
  "capacity events = take (2 ^ 63 - 1) events"

definition audit_fetch :: "audit_store \<Rightarrow> audit_query \<Rightarrow> string option
    \<Rightarrow> audit_query_error + audit_event list \<times> string option" where
  "audit_fetch events q c =
     page_listing (mem_query (capacity events) (q\<lparr>aq_cursor := c, aq_page_size := effective_size q\<rparr>))"

interpretation audit_paging: paged_listing "audit_fetch events q" encode_cursor
    "matching_events (capacity events) q" "effective_size q" for events q
proof
  have swap: "q\<lparr>aq_cursor := c, aq_page_size := effective_size q\<rparr>
      = q\<lparr>aq_page_size := effective_size q, aq_cursor := c\<rparr>" for c
    by (cases q) simp
  show "0 < effective_size q" by (simp add: effective_size_def)
  show "audit_fetch events q None = audit_fetch events q (Some (encode_cursor 0))"
    unfolding audit_fetch_def swap by (simp add: mem_query_first)
  show "audit_fetch events q (Some (encode_cursor k))
      = Inr (take (effective_size q) (drop k (matching_events (capacity events) q)),
             if k + effective_size q < length (matching_events (capacity events) q)
             then Some (encode_cursor (k + effective_size q)) else None)"
    if "k \<le> length (matching_events (capacity events) q)" for k
  proof -
    have "length (capacity events) < 2 ^ 64" by (simp add: capacity_def)
    with that show ?thesis
      unfolding audit_fetch_def
      by (subst mem_query_at [of _ k]) (simp_all add: page_listing_def Let_def effective_size_def min.strict_coboundedI1)
  qed
qed

lemma handled_fetch:
  assumes "aq_tenant q = ctx_tenant ctx" "filters_given q" "length events < 2 ^ 63"
  shows "page_listing (handle_audit_query ctx (mem_query events) (q\<lparr>aq_cursor := c\<rparr>)) = audit_fetch events q c"
  using assms
  by (subst handle_audit_query_ok) (simp add: audit_fetch_def capacity_def filters_given_def effective_size_def)

lemma matching_events_mset: "mset (matching_events events q) = filter_mset (audit_matches q) (mset events)"
  by (simp add: matching_events_def)

lemma matching_events_sorted: "sorted (map event_key (matching_events events q))"
  unfolding matching_events_def by (simp add: sort_by_key [of _ event_key] compare_events_key)

text \<open>C32  A client of its own tenant that follows the cursors from the first page reaches a page without a
  cursor within one request more than there are events, and has then seen every event its query matches
  exactly as often as it is stored, oldest first: the listing ends, and no event is lost or repeated between pages.
\<close>

theorem pages_enumerate_events:
  assumes "aq_tenant q = ctx_tenant ctx" and "filters_given q" and "length events < 2 ^ 63"
    and "length events < n"
  shows "\<exists>es. follow_pages n
      (\<lambda>c. page_listing (handle_audit_query ctx (mem_query events) (q\<lparr>aq_cursor := c\<rparr>))) None = Some (Inr es)
    \<and> mset es = filter_mset (audit_matches q) (mset events) \<and> sorted (map event_key es)"
proof -
  have "capacity events = events" using assms(3) by (simp add: capacity_def)
  moreover have "length (matching_events events q) < n"
    using assms(4) by (simp add: matching_events_def le_less_trans [OF length_filter_le])
  ultimately show ?thesis
    using audit_paging.follow_all [of events q n] matching_events_mset matching_events_sorted
    by (simp add: handled_fetch [OF assms(1-3)])
qed

definition sample_audit_event :: "string \<Rightarrow> string \<Rightarrow> audit_event" where
  "sample_audit_event i at = \<lparr>ae_event_id = AuditEventId i, ae_tenant = MTenantId ''t'', ae_trace = MTraceId ''trace'',
     ae_actor = ActorSystem ''worker'', ae_action = InvoiceValidated, ae_outcome = AuditSucceeded,
     ae_target = \<lparr>tgt_kind = ''invoice'', tgt_id = ''INV-1''\<rparr>, ae_occurred_at = at, ae_metadata = []\<rparr>"

lemma pages_enumerate_events_witness:
  "\<exists>es. follow_pages 4
      (\<lambda>c. page_listing (handle_audit_query
         \<lparr>ctx_tenant = MTenantId ''t'', ctx_trace = MTraceId [], ctx_actor = ActorSystem []\<rparr>
         (mem_query [sample_audit_event ''e2'' ''2026-02'', sample_audit_event ''e1'' ''2026-01'',
            (sample_audit_event ''e0'' ''2026-01'')\<lparr>ae_tenant := MTenantId ''u''\<rparr>])
         ((for_tenant (MTenantId ''t''))\<lparr>aq_page_size := 1, aq_cursor := c\<rparr>))) None = Some (Inr es)
    \<and> mset es = {#sample_audit_event ''e1'' ''2026-01'', sample_audit_event ''e2'' ''2026-02''#}"
proof -
  let ?ctx = "\<lparr>ctx_tenant = MTenantId ''t'', ctx_trace = MTraceId [], ctx_actor = ActorSystem []\<rparr>"
  let ?q = "(for_tenant (MTenantId ''t''))\<lparr>aq_page_size := 1\<rparr>"
  let ?es = "[sample_audit_event ''e2'' ''2026-02'', sample_audit_event ''e1'' ''2026-01'',
    (sample_audit_event ''e0'' ''2026-01'')\<lparr>ae_tenant := MTenantId ''u''\<rparr>]"
  have "aq_tenant ?q = ctx_tenant ?ctx" "filters_given ?q"
    by (simp_all add: for_tenant_def filters_given_def)
  from pages_enumerate_events [OF this, of ?es 4] have "\<exists>es. follow_pages 4
      (\<lambda>c. page_listing (handle_audit_query ?ctx (mem_query ?es) (?q\<lparr>aq_cursor := c\<rparr>))) None = Some (Inr es)
    \<and> mset es = filter_mset (audit_matches ?q) (mset ?es)" by auto
  moreover have "filter_mset (audit_matches ?q) (mset ?es)
      = {#sample_audit_event ''e1'' ''2026-01'', sample_audit_event ''e2'' ''2026-02''#}"
    by (simp add: audit_matches_def for_tenant_def sample_audit_event_def is_none_or_def add_mset_commute)
  ultimately show ?thesis by simp
qed

section \<open>Isolation\<close>

lemma mem_query_page:
  assumes "mem_query events r = Inr page"
  shows "list_all (\<lambda>e. ae_tenant e = aq_tenant r) (pg_events page) \<and> pg_count page = length (pg_events page)
    \<and> pg_count page \<le> aq_page_size r"
proof -
  let ?es = "matching_events events r"
  let ?stop = "\<lambda>k. min (usize_saturating_add k (aq_page_size r)) (length ?es)"
  from assms obtain k where page: "pg_events page = take (?stop k - k) (drop k ?es)"
      "pg_count page = length (pg_events page)"
    unfolding mem_query_def matching_events_def [symmetric] rbind_Inr_iff Let_def by auto
  have m: "length (pg_events page) \<le> aq_page_size r"
    unfolding page(1) by (simp add: usize_saturating_add_def)
  have "set (pg_events page) \<subseteq> set (matching_events events r)"
    unfolding page(1) by (meson set_drop_subset set_take_subset subset_trans)
  with page(2) m show ?thesis by (auto simp: matching_events_def audit_matches_def list_all_iff)
qed

lemma mem_query_filter: "mem_query (filter (\<lambda>e. ae_tenant e = aq_tenant r) events) r = mem_query events r"
proof -
  have "filter (audit_matches r) (filter (\<lambda>e. ae_tenant e = aq_tenant r) events) = filter (audit_matches r) events"
    by (auto simp: audit_matches_def intro!: filter_cong)
  then show ?thesis by (simp add: mem_query_def)
qed

lemma handle_audit_query_size:
  "handle_audit_query ctx store q =
     (if aq_tenant q \<noteq> ctx_tenant ctx
      then Inl (AuditCrossTenant (m_tenant_str (ctx_tenant ctx)) (m_tenant_str (aq_tenant q)))
      else rbind (check_all blank_filter
            [(aq_since q, ''since''), (aq_until q, ''until''), (aq_target_kind q, ''target_kind''),
             (aq_target_id q, ''target_id'')]) (\<lambda>_. store (q\<lparr>aq_page_size := effective_size q\<rparr>)))"
  by (simp add: handle_audit_query_def effective_size_def min_def)

text \<open>C33  A query sees its own tenant only: the answer does not depend on the events of other tenants, every
  event on the page is of the tenant of the caller, and a query for another tenant is refused.
\<close>

theorem audit_query_isolated:
  "(case handle_audit_query ctx (mem_query events) q of
      Inl _ \<Rightarrow> True
    | Inr page \<Rightarrow> aq_tenant q = ctx_tenant ctx
        \<and> list_all (\<lambda>e. ae_tenant e = ctx_tenant ctx) (pg_events page)
        \<and> pg_count page = length (pg_events page) \<and> pg_count page \<le> 500)
   \<and> handle_audit_query ctx (mem_query events) q
     = handle_audit_query ctx (mem_query (filter (\<lambda>e. ae_tenant e = ctx_tenant ctx) events)) q"
proof -
  let ?r = "q\<lparr>aq_page_size := effective_size q\<rparr>"
  have "effective_size q \<le> 500" by (simp add: effective_size_def)
  with mem_query_page [of events ?r] mem_query_filter [of ?r events] show ?thesis
    unfolding handle_audit_query_size
    by (cases "mem_query events ?r") (fastforce simp: rbind_def split: sum.splits)+
qed

section \<open>Signed exports\<close>

lemma hex_nybble_digit: "n < 16 \<Longrightarrow> hex_nybble (hex_digit n) = Inr n"
  by (auto simp: hex_nybble_def hex_digit_byte is_digit_def)

lemma hex_pairs_lower: "hex_pairs (hex_lower bs) = Inr bs"
proof (induction bs)
  case (Cons b bs)
  have "unat b < 256" using unat_lt_pow [of b] by simp
  moreover have "of_nat (16 * (unat b div 16) + unat b mod 16) = b"
    by (simp only: mult_div_mod_eq of_nat_unat ucast_id)
  then have "16 * of_nat (unat b div 16) + of_nat (unat b mod 16) = b"
    by (metis of_nat_add of_nat_mult of_nat_numeral)
  ultimately show ?case using Cons by (simp add: hex_nybble_digit)
qed simp

lemma hex_decode_lower: "hex_decode (hex_lower bs) = Inr bs"
  by (simp add: hex_decode_def hex_pairs_lower)

lemma verify_signed_export_iff:
  "verify_signed_export hmac export key = Inr body \<longleftrightarrow>
     ex_signature_alg export = ''hmac-sha256''
   \<and> hex_decode (ex_signature export) = Inr (hmac key (ex_body export)) \<and> body = ex_body export"
  by (auto simp: verify_signed_export_def split: sum.splits)

text \<open>
  The signature covers the body only: the tenant, the number of events and the format of an accepted
  export can be replaced, and it is still accepted with the same body.
\<close>

theorem export_labels_not_signed:
  "verify_signed_export hmac (export\<lparr>ex_tenant := t, ex_event_count := n, ex_format := fmt\<rparr>) key
     = verify_signed_export hmac export key"
  by (simp add: verify_signed_export_def split: sum.splits)

section \<open>Rows of a CSV export\<close>

definition doubled :: "string \<Rightarrow> string" where
  "doubled s = concat (map (\<lambda>c. if c = CHR 0x22 then [CHR 0x22, CHR 0x22] else [c]) s)"

definition separator :: "char \<Rightarrow> bool" where
  "separator c \<longleftrightarrow> c = CHR '','' \<or> c = CHR 0x0A"

lemma separator_not_quote: "separator c \<Longrightarrow> c \<noteq> CHR 0x22"
  by (auto simp: separator_def)

lemma doubled_split:
  "separator c \<Longrightarrow> separator d \<Longrightarrow> doubled v @ CHR 0x22 # c # s = doubled w @ CHR 0x22 # d # t \<Longrightarrow>
     v = w \<and> c = d \<and> s = t"
proof (induction v arbitrary: w)
  case Nil
  then show ?case by (cases w) (auto simp: doubled_def separator_def split: if_splits)
next
  case (Cons x v)
  then obtain y w' where w: "w = y # w'"
    by (cases w) (auto simp: doubled_def separator_def split: if_splits)
  have xy: "x = y" using Cons.prems w by (auto simp: doubled_def separator_def split: if_splits)
  then have "doubled v @ CHR 0x22 # c # s = doubled w' @ CHR 0x22 # d # t"
    using Cons.prems(3) w by (simp add: doubled_def split: if_splits)
  with Cons.IH [OF Cons.prems(1,2)] xy w show ?case by simp
qed

lemma plain_split:
  assumes "list_all (\<lambda>x. \<not> separator x) v" "list_all (\<lambda>x. \<not> separator x) w" "separator c" "separator d"
    and "v @ c # s = w @ d # t"
  shows "v = w \<and> c = d \<and> s = t"
  using assms
proof (induction v arbitrary: w)
  case Nil
  then show ?case by (cases w) auto
next
  case (Cons x v)
  then show ?case by (cases w) auto
qed

text \<open>A field can be told from what follows it.\<close>

lemma csv_escape_split:
  assumes "separator c" "separator d" "csv_escape v @ c # s = csv_escape w @ d # t"
  shows "v = w \<and> c = d \<and> s = t"
proof -
  let ?q = "\<lambda>s. CHR '','' \<in> set s \<or> CHR 0x22 \<in> set s \<or> CHR 0x0A \<in> set s"
  have quoted: "csv_escape s = CHR 0x22 # doubled s @ [CHR 0x22]" if "?q s" for s
    using that by (simp add: csv_escape_def doubled_def)
  have plain: "csv_escape s = s" "list_all (\<lambda>x. \<not> separator x) s" "CHR 0x22 \<notin> set s" if "\<not> ?q s" for s
    using that by (auto simp: csv_escape_def separator_def list_all_iff)
  have mixed: False if "\<not> ?q a" "?q b" "csv_escape a @ e # u = csv_escape b @ f # r" "separator e" for a b e f u r
    using that(3,4) plain(1,3) [OF that(1)] quoted [OF that(2)] by (cases a) (auto simp: separator_def)
  consider "?q v" "?q w" | "\<not> ?q v" "\<not> ?q w" using mixed assms by metis
  then show ?thesis
  proof cases
    case 1
    then show ?thesis using doubled_split [OF assms(1,2), of v s w t] assms(3) by (simp add: quoted)
  next
    case 2
    then show ?thesis using plain_split [OF _ _ assms(1,2), of v w s t] plain assms(3) by metis
  qed
qed

lemma joined_fields_split:
  "length fs = length gs \<Longrightarrow> fs \<noteq> [] \<Longrightarrow>
    join '','' (map csv_escape fs) @ CHR 0x0A # s = join '','' (map csv_escape gs) @ CHR 0x0A # t \<Longrightarrow>
    fs = gs \<and> s = t"
proof (induction fs gs rule: list_induct2)
  case (Cons f fs g gs)
  have sep: "separator CHR 0x0A" "separator CHR '',''" by (simp_all add: separator_def)
  show ?case
  proof (cases fs)
    case Nil
    with Cons.hyps have "gs = []" by simp
    with Nil Cons.prems(2) have "csv_escape f @ CHR 0x0A # s = csv_escape g @ CHR 0x0A # t" by simp
    from csv_escape_split [OF sep(1,1) this] Nil \<open>gs = []\<close> show ?thesis by simp
  next
    case c: (Cons f' fs')
    with Cons.hyps obtain g' gs' where g: "gs = g' # gs'" by (cases gs) auto
    have "csv_escape f @ CHR '','' # join '','' (map csv_escape fs) @ CHR 0x0A # s
        = csv_escape g @ CHR '','' # join '','' (map csv_escape gs) @ CHR 0x0A # t"
      using Cons.prems(2) c g by simp
    from csv_escape_split [OF sep(2,2) this]
    have "f = g" "join '','' (map csv_escape fs) @ CHR 0x0A # s = join '','' (map csv_escape gs) @ CHR 0x0A # t"
      by blast+
    moreover have "fs \<noteq> []" by (simp add: c)
    ultimately show ?thesis using Cons.IH by blast
  qed
qed simp

interpretation csv: self_delimiting csv_row "\<lambda>fs. length fs = 10"
proof
  fix fs gs s t
  assume l: "length fs = 10" "length gs = 10" and eq: "csv_row fs @ s = csv_row gs @ t"
  from l have "length fs = length gs" "fs \<noteq> []" by auto
  from joined_fields_split [OF this] eq show "fs = gs" by (simp add: csv_row_def)
qed

text \<open>The rows of a CSV export can be read back: two exports with the same text have the same events up
  to what a column shows of them, so no comma, quotation mark or line break in a field can forge a field
  or a row.
\<close>

theorem csv_rows_identified:
  "render_csv events = render_csv events' \<longleftrightarrow> map csv_fields events = map csv_fields events'"
proof
  assume "render_csv events = render_csv events'"
  then have "concat (map csv_row (map csv_fields events)) = concat (map csv_row (map csv_fields events'))"
    by (simp add: render_csv_def)
  then show "map csv_fields events = map csv_fields events'"
    by (rule csv.unterminated_inj [rotated 3]) (auto simp: csv_row_def list_all_iff csv_fields_def)
next
  assume "map csv_fields events = map csv_fields events'"
  then show "render_csv events = render_csv events'" unfolding render_csv_def map_map [symmetric] by simp
qed

text \<open>The lines of a JSON export.\<close>

lemma render_json_Inr_iff:
  "render_json to_vec es = Inr body \<longleftrightarrow>
     (\<exists>lines. map to_vec es = map Some lines \<and> body = concat (map (\<lambda>l. l @ [CHR 0x0A]) lines))"
proof (induction es arbitrary: body)
  case (Cons e es)
  show ?case
  proof (cases "to_vec e")
    case (Some l)
    then show ?thesis
      by (auto simp: rbind_Inr_iff Cons Cons_eq_map_conv)
  qed (auto simp: Cons_eq_map_conv)
qed auto

text \<open>What the columns of a row show of an event: everything but how its metadata is split into entries.\<close>

definition csv_view :: "audit_event \<Rightarrow> audit_event \<times> string" where
  "csv_view e = (e\<lparr>ae_metadata := []\<rparr>, metadata_compact (ae_metadata e))"

lemma actor_short_inj: "actor_short a = actor_short b \<longleftrightarrow> a = b"
  by (cases a; cases b) (auto intro: m_api_key_id.expand m_principal_id.expand)

lemma serde_action_inj: "serde_action a = serde_action b \<longleftrightarrow> a = b"
  by (cases a; cases b) simp_all

lemma serde_outcome_inj: "serde_outcome a = serde_outcome b \<longleftrightarrow> a = b"
  by (cases a; cases b) simp_all

lemma csv_fields_iff: "csv_fields e = csv_fields e' \<longleftrightarrow> csv_view e = csv_view e'"
  by (cases e; cases e')
    (auto simp: csv_fields_def csv_view_def actor_short_inj serde_action_inj serde_outcome_inj
      intro: m_audit_event_id.expand m_tenant_id.expand m_trace_id.expand audit_target.equality)

lemma csv_fields_views: "map csv_fields es = map csv_fields es' \<longleftrightarrow> map csv_view es = map csv_view es'"
proof (induction es arbitrary: es')
  case (Cons e es)
  then show ?case by (cases es') (simp_all add: csv_fields_iff)
qed auto

text \<open>C35  An export verifies under the key it was signed with and its body holds every event of the page in
  order: a JSON body is the JSON of each, one per line; a CSV body is that of another list of events exactly when both
  show the same identifiers, tenants, traces, actors, actions, outcomes, targets, times and metadata columns.  A changed
  body verifies, under whatever key, only with the same HMAC.
\<close>

theorem export_roundtrip:
  assumes "signed_export hmac to_vec tenant fmt page key = Inr export"
  shows "verify_signed_export hmac export key = Inr (ex_body export)
    \<and> (case fmt of
         ExportJson \<Rightarrow> \<exists>lines. map to_vec (pg_events page) = map Some lines
           \<and> ex_body export = concat (map (\<lambda>l. l @ [CHR 0x0A]) lines)
       | ExportCsv \<Rightarrow> \<forall>events. ex_body export = render_csv events \<longleftrightarrow> map csv_view events = map csv_view (pg_events page))
    \<and> ex_format export = fmt \<and> ex_tenant export = tenant \<and> ex_event_count export = pg_count page
    \<and> (verify_signed_export hmac (export\<lparr>ex_body := body\<rparr>) key' = Inr body
        \<longleftrightarrow> hmac key' body = hmac key (ex_body export))"
proof -
  obtain out where out: "(case fmt of ExportJson \<Rightarrow> render_json to_vec (pg_events page)
      | ExportCsv \<Rightarrow> Inr (render_csv (pg_events page))) = Inr out"
    and export: "export = \<lparr>ex_format = fmt, ex_tenant = tenant, ex_event_count = pg_count page,
      ex_signature_alg = ''hmac-sha256'', ex_signature = hex_lower (hmac key out), ex_body = out\<rparr>"
    using assms unfolding signed_export_def rbind_Inr_iff by blast
  have "case fmt of
      ExportJson \<Rightarrow> \<exists>lines. map to_vec (pg_events page) = map Some lines \<and> out = concat (map (\<lambda>l. l @ [CHR 0x0A]) lines)
    | ExportCsv \<Rightarrow> \<forall>events. out = render_csv events \<longleftrightarrow> map csv_view events = map csv_view (pg_events page)"
    using out by (cases fmt) (auto simp: render_json_Inr_iff csv_rows_identified csv_fields_views)
  then show ?thesis
    by (cases fmt) (auto simp: export verify_signed_export_iff hex_decode_lower)
qed

text \<open>The metadata column joins its entries without escaping: different metadata may look the same.\<close>

lemma metadata_ambiguous:
  "metadata_compact [(''a'', ''1;b=2'')] = metadata_compact [(''a'', ''1''), (''b'', ''2'')]"
  by (simp add: metadata_compact_def)

lemma export_roundtrip_witness:
  "\<exists>export. signed_export (\<lambda>k m. k) (\<lambda>e. Some (ae_occurred_at e)) (MTenantId ''t'') ExportJson
      \<lparr>pg_events = [sample_audit_event ''e1'' ''2026-01'', sample_audit_event ''e2'' ''2026-02''], pg_count = 2,
       pg_next_cursor = None\<rparr> [1] = Inr export
    \<and> verify_signed_export (\<lambda>k m. k) export [1] = Inr (ex_body export)
    \<and> ex_body export = ''2026-01'' @ [CHR 0x0A] @ ''2026-02'' @ [CHR 0x0A]"
proof -
  let ?page = "\<lparr>pg_events = [sample_audit_event ''e1'' ''2026-01'', sample_audit_event ''e2'' ''2026-02''], pg_count = 2,
       pg_next_cursor = None\<rparr>"
  obtain export where e: "signed_export (\<lambda>k m. k) (\<lambda>e. Some (ae_occurred_at e)) (MTenantId ''t'') ExportJson ?page [1] = Inr export"
    by (simp add: signed_export_def)
  from export_roundtrip [OF this] have "verify_signed_export (\<lambda>k m. k) export [1] = Inr (ex_body export)"
    "\<exists>lines. map (\<lambda>e. Some (ae_occurred_at e)) (pg_events ?page) = map Some lines
       \<and> ex_body export = concat (map (\<lambda>l. l @ [CHR 0x0A]) lines)" by simp_all
  with e show ?thesis by (auto simp: sample_audit_event_def Cons_eq_map_conv)
qed

end
