(* ===== verification/Sse_Ack.thy ===== *)
theory Sse_Ack
  imports Managed_Access
begin

text \<open>
  \<open>crates/managed-api/src/sse_ack.rs\<close>: the stream of acknowledgement events, its in-memory store, the
  replay after a reconnect and the frames on the wire.  The JSON encoding of an event is a parameter; a
  lock is never poisoned.
\<close>

section \<open>Events and frames\<close>

record ack_event =
  ack_event_id :: string
  ack_tenant :: m_tenant_id
  ack_kind :: string
  ack_outbox_id :: string
  ack_trace_id :: string
  ack_occurred_at :: string
  ack_metadata :: "(string, string) btree"

record sse_frame =
  fr_event_id :: string
  fr_kind :: string
  fr_body :: string

definition keepalive :: sse_frame where
  "keepalive = \<lparr>fr_event_id = [], fr_kind = [], fr_body = '': keepalive'' @ [CHR 0x0A, CHR 0x0A]\<rparr>"

datatype sse_error = SseCrossTenant string string | BadLastEventId string | SseStore string

section \<open>The in-memory stream\<close>

definition publish :: "ack_event list \<Rightarrow> ack_event \<Rightarrow> sse_error + ack_event list" where
  "publish events event =
     (if list_ex (\<lambda>e. ack_tenant e = ack_tenant event \<and> ack_event_id e = ack_event_id event) events
      then Inr events else Inr (events @ [event]))"

definition compare_acks :: "ack_event \<Rightarrow> ack_event \<Rightarrow> ordering" where
  "compare_acks a b =
     then_with (cmp_of (ack_event_id a) (ack_event_id b)) (cmp_of (ack_occurred_at a) (ack_occurred_at b))"

definition events_since :: "ack_event list \<Rightarrow> m_tenant_id \<Rightarrow> string option \<Rightarrow> nat \<Rightarrow> sse_error + ack_event list" where
  "events_since events tenant after limit =
     (let tenant_events = sort_by compare_acks (filter (\<lambda>e. ack_tenant e = tenant) events);
          cutoff = (case after of
              Some cursor \<Rightarrow> dropWhile (\<lambda>e. ack_event_id e \<le> cursor) tenant_events
            | None \<Rightarrow> tenant_events)
      in Inr (take (max limit 1) cutoff))"

section \<open>Subscriptions\<close>

definition validate_subscription ::
  "request_context \<Rightarrow> m_tenant_id \<Rightarrow> string option \<Rightarrow> sse_error + string option" where
  "validate_subscription ctx requested last_event_id =
     (if ctx_tenant ctx \<noteq> requested
      then Inl (SseCrossTenant (m_tenant_str (ctx_tenant ctx)) (m_tenant_str requested))
      else if last_event_id = Some [] then Inl (BadLastEventId [])
      else Inr last_event_id)"

definition escape_sse_field :: "string \<Rightarrow> string" where
  "escape_sse_field s = map (\<lambda>c. if c = CHR 0x0D \<or> c = CHR 0x0A then CHR '' '' else c) s"

definition format_event_frame :: "(ack_event \<Rightarrow> string) \<Rightarrow> ack_event \<Rightarrow> sse_frame" where
  "format_event_frame to_json event =
     \<lparr>fr_event_id = ack_event_id event, fr_kind = ack_kind event,
      fr_body = ''id: '' @ escape_sse_field (ack_event_id event) @ CHR 0x0A
        # ''event: '' @ escape_sse_field (ack_kind event) @ CHR 0x0A
        # concat (map (\<lambda>line. ''data: '' @ line @ [CHR 0x0A]) (str_lines (to_json event)))
        @ [CHR 0x0A]\<rparr>"

text \<open>The stream is the answer of its \<open>events_since\<close>.\<close>

definition build_reconnect_payload ::
  "(ack_event \<Rightarrow> string) \<Rightarrow> (m_tenant_id \<Rightarrow> string option \<Rightarrow> nat \<Rightarrow> sse_error + ack_event list)
     \<Rightarrow> m_tenant_id \<Rightarrow> string option \<Rightarrow> nat \<Rightarrow> sse_error + sse_frame list" where
  "build_reconnect_payload to_json stream tenant last_event_id limit =
     rbind (stream tenant last_event_id limit) (\<lambda>events. Inr (map (format_event_frame to_json) events))"

definition non_empty_value :: "string option \<Rightarrow> string option" where
  "non_empty_value v = (if v = Some [] then None else v)"

definition parse_last_event_id :: "(string, string) btree \<Rightarrow> (string, string) btree \<Rightarrow> string option" where
  "parse_last_event_id headers query =
     (case non_empty_value (map_of headers ''last-event-id'') of
        Some v \<Rightarrow> Some v
      | None \<Rightarrow> (case non_empty_value (map_of headers ''Last-Event-ID'') of
          Some v \<Rightarrow> Some v
        | None \<Rightarrow> non_empty_value (map_of query ''lastEventId'')))"

section \<open>A client that reconnects\<close>

text \<open>
  What may happen to a stream while one client of the tenant reads it: events are published, of any
  tenant, and the client connects with the id of the last frame it got and a limit.
\<close>

datatype stream_op = Publish ack_event | Reconnect nat

record sse_session =
  ss_store :: "ack_event list"
  ss_last_id :: "string option"
  ss_received :: "sse_frame list"

definition sse_start :: sse_session where
  "sse_start = \<lparr>ss_store = [], ss_last_id = None, ss_received = []\<rparr>"

definition last_header :: "sse_frame list \<Rightarrow> string option \<Rightarrow> string option" where
  "last_header frames old = (if frames = [] then old else Some (escape_sse_field (fr_event_id (last frames))))"

fun sse_step :: "(ack_event \<Rightarrow> string) \<Rightarrow> request_context \<Rightarrow> sse_session \<Rightarrow> stream_op \<Rightarrow> sse_error + sse_session" where
  "sse_step to_json ctx s (Publish e) = rbind (publish (ss_store s) e) (\<lambda>es. Inr (s\<lparr>ss_store := es\<rparr>))"
| "sse_step to_json ctx s (Reconnect limit) =
     rbind (validate_subscription ctx (ctx_tenant ctx)
              (case ss_last_id s of None \<Rightarrow> None
               | Some i \<Rightarrow> parse_last_event_id [(''last-event-id'', i)] []))
       (\<lambda>cursor. rbind (build_reconnect_payload to_json (events_since (ss_store s)) (ctx_tenant ctx) cursor limit)
         (\<lambda>frames. Inr (s\<lparr>ss_last_id := last_header frames (ss_last_id s),
                           ss_received := ss_received s @ frames\<rparr>)))"

fun sse_run :: "(ack_event \<Rightarrow> string) \<Rightarrow> request_context \<Rightarrow> sse_session \<Rightarrow> stream_op list \<Rightarrow> sse_error + sse_session" where
  "sse_run to_json ctx s [] = Inr s"
| "sse_run to_json ctx s (x # xs) = rbind (sse_step to_json ctx s x) (\<lambda>s'. sse_run to_json ctx s' xs)"

fun published :: "m_tenant_id \<Rightarrow> stream_op list \<Rightarrow> ack_event list" where
  "published t [] = []"
| "published t (Publish e # xs) = (if ack_tenant e = t then e # published t xs else published t xs)"
| "published t (Reconnect n # xs) = published t xs"

text \<open>The ids of a tenant are monotonic, and can be sent in a header.\<close>

definition monotonic_ids :: "ack_event list \<Rightarrow> bool" where
  "monotonic_ids es \<longleftrightarrow> sorted_wrt (<) (map ack_event_id es)
     \<and> list_all (\<lambda>e. ack_event_id e \<noteq> [] \<and> CHR 0x0D \<notin> set (ack_event_id e) \<and> CHR 0x0A \<notin> set (ack_event_id e)) es"

lemma escape_clean: "CHR 0x0D \<notin> set s \<Longrightarrow> CHR 0x0A \<notin> set s \<Longrightarrow> escape_sse_field s = s"
  by (auto simp: escape_sse_field_def intro!: map_idI)

text \<open>What holds between the operations: the client has a prefix of the events of its tenant.\<close>

definition session_inv :: "(ack_event \<Rightarrow> string) \<Rightarrow> m_tenant_id \<Rightarrow> ack_event list \<Rightarrow> nat \<Rightarrow> sse_session \<Rightarrow> bool" where
  "session_inv to_json t es k s \<longleftrightarrow>
     filter (\<lambda>e. ack_tenant e = t) (ss_store s) = es \<and> k \<le> length es
   \<and> ss_received s = map (format_event_frame to_json) (take k es)
   \<and> ss_last_id s = (if k = 0 then None else Some (ack_event_id (es ! (k - 1))))"

lemma sort_monotonic:
  assumes "monotonic_ids es"
  shows "sort_by compare_acks es = es"
proof -
  have "insert_by compare_acks e es = e # es" if "sorted_wrt (<) (map ack_event_id (e # es))" for e es
    using that by (cases es) (auto simp: compare_acks_def then_with_def cmp_of_def)
  then have "sorted_wrt (<) (map ack_event_id es) \<Longrightarrow> sort_by compare_acks es = es" for es
    by (induction es) (simp_all add: sort_by_def)
  with assms show ?thesis by (simp add: monotonic_ids_def)
qed

lemma drop_after_cursor:
  assumes "sorted_wrt (<) (map ack_event_id es)" "0 < k" "k \<le> length es"
  shows "dropWhile (\<lambda>e. ack_event_id e \<le> ack_event_id (es ! (k - 1))) es = drop k es"
  using assms
proof (induction es arbitrary: k)
  case (Cons e es)
  show ?case
  proof (cases "k = 1")
    case True
    then show ?thesis using Cons.prems by (cases es) (auto simp: not_le)
  next
    case False
    then obtain j where j: "k = Suc j" "0 < j" "j \<le> length es" using Cons.prems by (cases k) auto
    then have "es ! (j - 1) \<in> set es" by simp
    then have "ack_event_id e \<le> ack_event_id (es ! (j - 1))" using Cons.prems(1) by (auto simp: less_imp_le)
    moreover have "(e # es) ! (k - 1) = es ! (j - 1)" using j by (cases j) auto
    ultimately show ?thesis using Cons.IH [OF _ j(2,3)] Cons.prems(1) j(1) by simp
  qed
qed simp

lemma events_since_monotonic:
  assumes "monotonic_ids es" "filter (\<lambda>e. ack_tenant e = t) store = es" "k \<le> length es"
  shows "events_since store t (if k = 0 then None else Some (ack_event_id (es ! (k - 1)))) limit
    = Inr (take (max limit 1) (drop k es))"
  using assms drop_after_cursor [of es k]
  by (auto simp: events_since_def sort_monotonic monotonic_ids_def)

lemma last_id_accepted:
  assumes "monotonic_ids es" "k \<le> length es"
  shows "validate_subscription ctx (ctx_tenant ctx)
      (case (if k = 0 then None else Some (ack_event_id (es ! (k - 1)))) of None \<Rightarrow> None
       | Some i \<Rightarrow> parse_last_event_id [(''last-event-id'', i)] [])
    = Inr (if k = 0 then None else Some (ack_event_id (es ! (k - 1))))"
proof (cases "k = 0")
  case False
  then have "es ! (k - 1) \<in> set es" using assms(2) by simp
  then have "ack_event_id (es ! (k - 1)) \<noteq> []" using assms(1) by (simp add: monotonic_ids_def list_all_iff)
  then show ?thesis by (simp add: validate_subscription_def parse_last_event_id_def non_empty_value_def)
qed (simp add: validate_subscription_def)

lemma last_header_prefix:
  assumes "monotonic_ids es" "j < m" "m \<le> length es"
  shows "last_header (map (format_event_frame to_json) (take (m - j) (drop j es))) old
    = Some (ack_event_id (es ! (m - 1)))"
proof -
  have "last (take (m - j) (drop j es)) = es ! (m - 1)"
    using assms(2,3) by (simp add: last_conv_nth)
  moreover have "take (m - j) (drop j es) \<noteq> []" using assms(2,3) by simp
  moreover have "es ! (m - 1) \<in> set es" using assms(2,3) by simp
  then have "escape_sse_field (ack_event_id (es ! (m - 1))) = ack_event_id (es ! (m - 1))"
    using assms(1) by (simp add: monotonic_ids_def list_all_iff escape_clean)
  ultimately show ?thesis by (simp add: last_header_def last_map format_event_frame_def)
qed

lemma reconnect_step:
  assumes inv: "session_inv to_json (ctx_tenant ctx) es k s" and mono: "monotonic_ids es"
  shows "\<exists>s'. sse_step to_json ctx s (Reconnect limit) = Inr s'
    \<and> session_inv to_json (ctx_tenant ctx) es (min (k + max limit 1) (length es)) s'"
proof -
  let ?m = "min (k + max limit 1) (length es)" and ?t = "ctx_tenant ctx"
  have k: "k \<le> length es" and store: "filter (\<lambda>e. ack_tenant e = ?t) (ss_store s) = es"
    and rec: "ss_received s = map (format_event_frame to_json) (take k es)"
    and cur: "ss_last_id s = (if k = 0 then None else Some (ack_event_id (es ! (k - 1))))"
    using inv by (simp_all add: session_inv_def)
  let ?new = "take (max limit 1) (drop k es)"
  have new: "?new = take (?m - k) (drop k es)" using k by (cases "k + max limit 1 \<le> length es") auto
  have step: "sse_step to_json ctx s (Reconnect limit) =
      Inr (s\<lparr>ss_last_id := last_header (map (format_event_frame to_json) ?new) (ss_last_id s),
             ss_received := ss_received s @ map (format_event_frame to_json) ?new\<rparr>)"
    using last_id_accepted [OF mono k, of ctx] events_since_monotonic [OF mono store k, of limit]
    by (simp only: sse_step.simps cur rbind_simps build_reconnect_payload_def)
  have "take k es @ ?new = take ?m es"
    unfolding new using k by (metis le_add_diff_inverse min.boundedI le_add1 take_add)
  moreover have "last_header (map (format_event_frame to_json) ?new) (ss_last_id s)
      = (if ?m = 0 then None else Some (ack_event_id (es ! (?m - 1))))"
  proof (cases "k < ?m")
    case True
    then have "es \<noteq> []" by auto
    with True show ?thesis unfolding new using last_header_prefix [OF mono, of k ?m] by simp
  next
    case False
    then have "k = ?m" using k by auto
    then show ?thesis unfolding new by (simp add: last_header_def cur)
  qed
  moreover have "?m \<le> length es" by simp
  ultimately show ?thesis
    unfolding step session_inv_def using store rec by (simp del: One_nat_def min.bounded_iff flip: map_append)
qed

lemma publish_step:
  assumes inv: "session_inv to_json (ctx_tenant ctx) es k s"
    and mono: "monotonic_ids (es @ published (ctx_tenant ctx) [Publish e])"
  shows "\<exists>s'. sse_step to_json ctx s (Publish e) = Inr s'
    \<and> session_inv to_json (ctx_tenant ctx) (es @ published (ctx_tenant ctx) [Publish e]) k s'"
proof (cases "ack_tenant e = ctx_tenant ctx")
  case True
  have "ack_event_id x \<noteq> ack_event_id e" if "x \<in> set (ss_store s)" "ack_tenant x = ack_tenant e" for x
  proof -
    have "x \<in> set es" using that inv True by (auto simp: session_inv_def)
    with mono True show ?thesis by (auto simp: monotonic_ids_def sorted_wrt_append)
  qed
  then have "publish (ss_store s) e = Inr (ss_store s @ [e])" by (auto simp: publish_def list_ex_iff)
  with inv True show ?thesis by (auto simp: session_inv_def nth_append)
next
  case False
  then show ?thesis using inv by (auto simp: session_inv_def publish_def)
qed

lemma published_Cons: "published t (x # xs) = published t [x] @ published t xs"
  by (cases x) auto

lemma session_run:
  "session_inv to_json (ctx_tenant ctx) es k s \<Longrightarrow>
     monotonic_ids (es @ published (ctx_tenant ctx) ops) \<Longrightarrow>
     \<exists>s' k'. sse_run to_json ctx s ops = Inr s'
       \<and> session_inv to_json (ctx_tenant ctx) (es @ published (ctx_tenant ctx) ops) k' s'"
proof (induction ops arbitrary: s es k)
  case (Cons x ops)
  let ?es = "es @ published (ctx_tenant ctx) [x]"
  have mono: "monotonic_ids (?es @ published (ctx_tenant ctx) ops)"
    using Cons.prems(2) by (simp add: published_Cons [of _ x ops])
  then have "monotonic_ids ?es" by (simp add: monotonic_ids_def sorted_wrt_append)
  then obtain s' k' where step: "sse_step to_json ctx s x = Inr s'"
    and inv: "session_inv to_json (ctx_tenant ctx) ?es k' s'"
    using publish_step [OF Cons.prems(1)] reconnect_step [OF Cons.prems(1)]
    by (cases x) fastforce+
  from Cons.IH [OF inv mono] show ?case using step by (simp add: published_Cons [of _ x ops])
qed auto

text \<open>C34  Whatever is published, by whichever tenant, between the connections of a client: as long as the ids
  of its tenant are monotonic, no step fails and the client has received the first events of its tenant,
  each once and in order; a reconnect with a large enough limit gives it all the others.
\<close>

theorem reconnecting_client_complete:
  assumes "monotonic_ids (published (ctx_tenant ctx) ops)"
  shows "\<exists>s. sse_run to_json ctx sse_start ops = Inr s
    \<and> (\<exists>k. ss_received s = map (format_event_frame to_json) (take k (published (ctx_tenant ctx) ops)))
    \<and> (\<exists>s'. sse_step to_json ctx s (Reconnect (length (published (ctx_tenant ctx) ops))) = Inr s'
        \<and> ss_received s' = map (format_event_frame to_json) (published (ctx_tenant ctx) ops))"
proof -
  let ?es = "published (ctx_tenant ctx) ops"
  have "session_inv to_json (ctx_tenant ctx) [] 0 sse_start" by (simp add: session_inv_def sse_start_def)
  from session_run [OF this, of ops] assms obtain s k where
    run: "sse_run to_json ctx sse_start ops = Inr s" and inv: "session_inv to_json (ctx_tenant ctx) ?es k s"
    by auto
  from reconnect_step [OF inv assms, of "length ?es"] obtain s' where
    "sse_step to_json ctx s (Reconnect (length ?es)) = Inr s'"
    "session_inv to_json (ctx_tenant ctx) ?es (min (k + max (length ?es) 1) (length ?es)) s'" by blast
  with run inv show ?thesis by (auto simp: session_inv_def)
qed

lemma reconnecting_client_complete_witness:
  "\<exists>s. sse_run (\<lambda>_. ''{}'') \<lparr>ctx_tenant = MTenantId ''t'', ctx_trace = MTraceId ''r'', ctx_actor = ActorSystem ''a''\<rparr>
     sse_start [Reconnect 1,
       Publish \<lparr>ack_event_id = ''1'', ack_tenant = MTenantId ''t'', ack_kind = ''k'', ack_outbox_id = ''o'',
         ack_trace_id = ''r'', ack_occurred_at = ''d'', ack_metadata = []\<rparr>,
       Reconnect 1] = Inr s"
  using reconnecting_client_complete [of
      "\<lparr>ctx_tenant = MTenantId ''t'', ctx_trace = MTraceId ''r'', ctx_actor = ActorSystem ''a''\<rparr>"
      "[Reconnect 1,
       Publish \<lparr>ack_event_id = ''1'', ack_tenant = MTenantId ''t'', ack_kind = ''k'', ack_outbox_id = ''o'',
         ack_trace_id = ''r'', ack_occurred_at = ''d'', ack_metadata = []\<rparr>,
       Reconnect 1]" "\<lambda>_. ''{}''"]
  by (auto simp: monotonic_ids_def simp del: sse_run.simps)

section \<open>Frames\<close>

lemma escape_no_break: "CHR 0x0A \<notin> set (escape_sse_field s) \<and> CHR 0x0D \<notin> set (escape_sse_field s)"
  by (auto simp: escape_sse_field_def)

text \<open>
  A frame of an event whose JSON is one line has exactly the lines id, event and data and the blank
  line that ends it, whatever the id and the kind contain: no field can start another line or frame.
\<close>

theorem frame_has_three_lines:
  assumes "CHR 0x0A \<notin> set (to_json event)" "to_json event \<noteq> []"
  shows "split_on (CHR 0x0A) (fr_body (format_event_frame to_json event)) =
    [''id: '' @ escape_sse_field (ack_event_id event), ''event: '' @ escape_sse_field (ack_kind event),
     ''data: '' @ to_json event, [], []]"
proof -
  have lines: "str_lines (to_json event) = [to_json event]"
    using assms by (simp add: str_lines_def split_on_free)
  have sep: "split_on (CHR 0x0A) (u @ CHR 0x0A # v) = u # split_on (CHR 0x0A) v" if "CHR 0x0A \<notin> set u" for u v
    using that by (rule split_on_sep)
  have "fr_body (format_event_frame to_json event) =
      (''id: '' @ escape_sse_field (ack_event_id event)) @ CHR 0x0A
      # (''event: '' @ escape_sse_field (ack_kind event)) @ CHR 0x0A
      # (''data: '' @ to_json event) @ CHR 0x0A # [] @ CHR 0x0A # []"
    by (simp add: format_event_frame_def lines)
  then show ?thesis
    using escape_no_break assms(1) by (simp only: sep set_append Un_iff) (simp add: sep)
qed

end
