(* ===== verification/Constant_Time.thy ===== *)
theory Constant_Time
  imports Rust_Str
begin

text \<open>
  The comparison without early exit that the crates \<open>codelists\<close> and \<open>rulepack\<close> both write: the
  difference of the lengths, or-ed with that of every pair of bytes, a missing byte being zero.
\<close>

definition byte_at :: "string \<Rightarrow> nat \<Rightarrow> u8" where
  "byte_at s i = (if i < length s then of_nat (byte (s ! i)) else 0)"

definition ct_diff :: "string \<Rightarrow> string \<Rightarrow> u64" where
  "ct_diff left right =
     fold (\<lambda>i diff. or diff (ucast (xor (byte_at left i) (byte_at right i))))
       [0 ..< max (length left) (length right)]
       (xor (of_nat (length left)) (of_nat (length right)))"

lemma fold_or_zero:
  fixes a :: "'a::len word"
  shows "fold (\<lambda>i d. or d (g i)) xs a = 0 \<longleftrightarrow> a = 0 \<and> (\<forall>i \<in> set xs. g i = 0)"
  by (induction xs arbitrary: a) (auto simp: or_eq_0_iff)

lemma xor_zero_iff: "xor a b = 0 \<longleftrightarrow> a = b" for a b :: "'a::len word"
  by (metis xor.left_neutral xor.right_neutral xor_self_eq xor.assoc)

lemma ucast_zero_up: "ucast (b :: u8) = (0 :: u64) \<longleftrightarrow> b = 0"
proof -
  have "unat b < 2 ^ 64" using unat_lt_pow [of b] by simp
  then show ?thesis by (simp add: word_unat_eq_iff unsigned_ucast_eq take_bit_nat_eq_self)
qed

lemma byte_word_eq: "(of_nat (byte c) :: u8) = of_nat (byte d) \<longleftrightarrow> c = d"
proof -
  have "byte c < 256" for c by (simp add: byte_def)
  then have "unat (of_nat (byte c) :: u8) = byte c" for c by (simp add: unat_of_nat)
  then show ?thesis by (metis byte_def of_char_eq_iff)
qed

lemma ct_diff_refl: "ct_diff s s = 0"
  unfolding ct_diff_def fold_or_zero by simp

text \<open>The comparison without early exit is equality on every string a 64-bit machine can hold.\<close>

lemma ct_diff_zero_iff:
  assumes "length l < 2 ^ 64" "length r < 2 ^ 64"
  shows "ct_diff l r = 0 \<longleftrightarrow> l = r"
proof
  assume "ct_diff l r = 0"
  then have len: "(of_nat (length l) :: u64) = of_nat (length r)"
    and eq: "\<forall>i < max (length l) (length r). byte_at l i = byte_at r i"
    by (simp_all add: ct_diff_def fold_or_zero xor_zero_iff ucast_zero_up)
  have "length l = length r"
    using arg_cong [OF len, where f = unat] assms by (simp add: unat_of_nat)
  then show "l = r"
    using eq by (intro nth_equalityI) (simp_all add: byte_at_def byte_word_eq)
next
  assume "l = r"
  then show "ct_diff l r = 0" by (simp add: ct_diff_refl)
qed

end
