(* ===== verification/Maxima.thy ===== *)
theory Maxima
  imports Sequences
begin

text \<open>
  The first greatest element of a list under a key, which is what searching a sorted list and
  \<open>Iterator::max_by\<close> (from the end) both compute.
\<close>

definition first_max :: "('a \<Rightarrow> 'k::linorder) \<Rightarrow> 'a list \<Rightarrow> 'a option" where
  "first_max k xs = find (\<lambda>m. list_all (\<lambda>n. k n \<le> k m) xs) xs"

lemma first_max_Nil [simp]: "first_max k [] = None"
  by (simp add: first_max_def)

lemma first_max_ne: "xs \<noteq> [] \<Longrightarrow> \<exists>m. first_max k xs = Some m"
proof -
  assume "xs \<noteq> []"
  then have "finite (k ` set xs)" "k ` set xs \<noteq> {}" by simp_all
  from Max_in [OF this] obtain m where "m \<in> set xs" "Max (k ` set xs) = k m" by auto
  moreover have "k n \<le> Max (k ` set xs)" if "n \<in> set xs" for n
    using that by simp
  ultimately have "m \<in> set xs" "\<forall>n \<in> set xs. k n \<le> k m" by simp_all
  then show ?thesis
    by (cases "first_max k xs") (auto simp: first_max_def find_None_iff list_all_iff)
qed

lemma first_max_Some:
  "first_max k xs = Some m \<Longrightarrow> m \<in> set xs \<and> (\<forall>n \<in> set xs. k n \<le> k m)"
  by (auto simp: first_max_def find_Some_iff list_all_iff)

lemma first_max_None_iff [simp]: "first_max k xs = None \<longleftrightarrow> xs = []"
  by (cases "xs = []") (use first_max_ne [of xs k] in auto)

lemma first_max_Cons:
  "first_max k (x # xs) =
     (case first_max k xs of None \<Rightarrow> Some x | Some m \<Rightarrow> if k x < k m then Some m else Some x)"
proof (cases "xs = []")
  case False
  then obtain m where m: "first_max k xs = Some m" by (auto dest: first_max_ne)
  note first_max_Some [OF m]
  moreover have "find (\<lambda>m. list_all (\<lambda>n. k n \<le> k m) (x # xs)) xs = first_max k xs"
    if "k x < k m"
    unfolding first_max_def
    by (rule find_cong) (use that first_max_Some [OF m] in \<open>auto simp: list_all_iff dest: order_trans less_imp_le\<close>)
  ultimately show ?thesis using m
    by (auto simp: first_max_def [of k "x # xs"] list_all_iff)
qed (simp add: first_max_def)

text \<open>\<open>max_by\<close>: of equal elements the last one is kept.\<close>

fun max_by_from :: "('a \<Rightarrow> 'a \<Rightarrow> ordering) \<Rightarrow> 'a \<Rightarrow> 'a list \<Rightarrow> 'a" where
  "max_by_from cmp best [] = best"
| "max_by_from cmp best (x # xs) = max_by_from cmp (if cmp best x = Greater then best else x) xs"

definition max_by :: "('a \<Rightarrow> 'a \<Rightarrow> ordering) \<Rightarrow> 'a list \<Rightarrow> 'a option" where
  "max_by cmp xs = (case xs of [] \<Rightarrow> None | x # xs' \<Rightarrow> Some (max_by_from cmp x xs'))"

lemma max_by_from_snoc:
  "max_by_from cmp best (xs @ [x]) =
     (let b = max_by_from cmp best xs in if cmp b x = Greater then b else x)"
  by (induction xs arbitrary: best) (simp_all add: Let_def)

lemma max_by_first_max:
  assumes "\<And>a b. cmp a b = Greater \<longleftrightarrow> k b < k a"
  shows "max_by cmp xs = first_max k (rev xs)"
proof (induction xs rule: rev_induct)
  case (snoc y ys)
  have "max_by cmp (ys @ [y]) =
      (case max_by cmp ys of None \<Rightarrow> Some y | Some b \<Rightarrow> if k y < k b then Some b else Some y)"
    by (cases ys) (simp_all add: max_by_def max_by_from_snoc assms Let_def)
  then show ?case by (simp add: snoc first_max_Cons)
qed (simp add: max_by_def)

end
