(* ===== verification/Codelists.thy ===== *)
theory Codelists
  imports Ir Rust_Map Constant_Time Maxima
begin

text \<open>
  \<open>crates/codelists/src/lib.rs\<close> and \<open>sources.rs\<close>: signed, effective-dated code lists, the registry that
  answers look-ups for a date, and the builder of manifests from an upstream file.  SHA-256 and the JSON
  parser are parameters.
\<close>

section \<open>Dates\<close>

definition cl_is_leap_year :: "u16 \<Rightarrow> bool" where
  "cl_is_leap_year y \<longleftrightarrow> (y mod 4 = 0 \<and> y mod 100 \<noteq> 0) \<or> y mod 400 = 0"

definition cl_days_in_month :: "u16 \<Rightarrow> u8 \<Rightarrow> u8" where
  "cl_days_in_month y m =
     (if m \<in> {1, 3, 5, 7, 8, 10, 12} then 31
      else if m \<in> {4, 6, 9, 11} then 30
      else if m = 2 then (if cl_is_leap_year y then 29 else 28)
      else 0)"

definition cl_is_valid_date :: "string \<Rightarrow> bool" where
  "cl_is_valid_date date =
     (if length date \<noteq> 10 then False
      else if date ! 4 \<noteq> CHR ''-'' \<or> date ! 7 \<noteq> CHR ''-'' then False
      else if \<not> list_all (\<lambda>i. i = 4 \<or> i = 7 \<or> is_digit (date ! i)) [0..<10] then False
      else case parse_radix 10 65535 (take 4 date) of
          None \<Rightarrow> False
        | Some year \<Rightarrow>
            (case parse_radix 10 255 (take 2 (drop 5 date)) of
               None \<Rightarrow> False
             | Some month \<Rightarrow>
                 (case parse_radix 10 255 (take 2 (drop 8 date)) of
                    None \<Rightarrow> False
                  | Some day \<Rightarrow>
                      0 < year \<and> 1 \<le> month \<and> month \<le> 12
                      \<and> 1 \<le> day \<and> day \<le> unat (cl_days_in_month (of_nat year) (of_nat month)))))"

section \<open>Manifests\<close>

record cl_entry =
  ent_code :: string
  ent_label :: string
  ent_valid_from :: "string option"
  ent_valid_to :: "string option"
  ent_attrs :: "(string, string) btree"

record manifest =
  mf_list :: string
  mf_version :: string
  mf_effective_from :: string
  mf_effective_to :: "string option"
  mf_source_url :: string
  mf_retrieved_at :: string
  mf_signature_alg :: string
  mf_signature :: string
  mf_entries :: "cl_entry list"

datatype codelist_error =
    ClJson string
  | ClEmptyField string
  | ClAmbiguousSeparator string char
  | ClInvalidDate string
  | ClInvalidDateWindow string string "string option"
  | ClEmptyManifest string
  | ClDuplicateEntry string string
  | ClUnsupportedAlgorithm string string
  | ClSignatureMismatch string string string

definition cl_require_non_empty :: "string \<Rightarrow> string \<Rightarrow> codelist_error + unit" where
  "cl_require_non_empty field v = (if blank v then Inl (ClEmptyField field) else Inr ())"

fun require_payload_safe :: "string \<Rightarrow> string \<Rightarrow> codelist_error + unit" where
  "require_payload_safe field [] = Inr ()"
| "require_payload_safe field (c # cs) =
     (if c \<in> {CHR 0x0A, CHR 0x0D, CHR ''|'', CHR '';'', CHR ''=''} then Inl (ClAmbiguousSeparator field c)
      else require_payload_safe field cs)"

definition cl_validate_date :: "string \<Rightarrow> codelist_error + unit" where
  "cl_validate_date date = (if \<not> cl_is_valid_date date then Inl (ClInvalidDate date) else Inr ())"

definition is_within_window_unchecked :: "string \<Rightarrow> string option \<Rightarrow> string option \<Rightarrow> bool" where
  "is_within_window_unchecked on_date from to =
     (if (case from of None \<Rightarrow> False | Some f \<Rightarrow> on_date < f) then False
      else if (case to of None \<Rightarrow> False | Some t \<Rightarrow> t < on_date) then False else True)"

definition is_within_window :: "string \<Rightarrow> string option \<Rightarrow> string option \<Rightarrow> bool" where
  "is_within_window on_date from to =
     (if \<not> is_ok (cl_validate_date on_date) then False else is_within_window_unchecked on_date from to)"

definition entry_is_effective_on :: "cl_entry \<Rightarrow> string \<Rightarrow> bool" where
  "entry_is_effective_on e on_date = is_within_window on_date (ent_valid_from e) (ent_valid_to e)"

definition manifest_is_effective_on :: "manifest \<Rightarrow> string \<Rightarrow> bool" where
  "manifest_is_effective_on m on_date =
     is_within_window on_date (Some (mf_effective_from m)) (mf_effective_to m)"

definition check_safe_date :: "string \<Rightarrow> string \<Rightarrow> codelist_error + unit" where
  "check_safe_date field d = rbind (require_payload_safe field d) (\<lambda>_. cl_validate_date d)"

definition check_window :: "string \<Rightarrow> string option \<Rightarrow> string option \<Rightarrow> codelist_error + unit" where
  "check_window list from to =
     (case (from, to) of
        (Some f, Some t) \<Rightarrow> if t < f then Inl (ClInvalidDateWindow list f (Some t)) else Inr ()
      | _ \<Rightarrow> Inr ())"

definition entry_validate :: "string \<Rightarrow> cl_entry \<Rightarrow> codelist_error + unit" where
  "entry_validate list e =
     first_err
       [cl_require_non_empty ''code'' (ent_code e),
        cl_require_non_empty ''label'' (ent_label e),
        require_payload_safe ''entry.code'' (ent_code e),
        require_payload_safe ''entry.label'' (ent_label e),
        check_opt (check_safe_date ''entry.valid_from'') (ent_valid_from e),
        check_opt (check_safe_date ''entry.valid_to'') (ent_valid_to e),
        check_all (\<lambda>(k, v). rbind (require_payload_safe ''entry.attrs.key'' k)
                     (\<lambda>_. require_payload_safe ''entry.attrs.value'' v)) (ent_attrs e),
        check_window list (ent_valid_from e) (ent_valid_to e)]"

fun entries_validate :: "string \<Rightarrow> string set \<Rightarrow> cl_entry list \<Rightarrow> codelist_error + unit" where
  "entries_validate list codes [] = Inr ()"
| "entries_validate list codes (e # es) =
     rbind (entry_validate list e) (\<lambda>_.
       if ent_code e \<in> codes then Inl (ClDuplicateEntry list (ent_code e))
       else entries_validate list (insert (ent_code e) codes) es)"

definition manifest_validate :: "manifest \<Rightarrow> codelist_error + unit" where
  "manifest_validate m =
     first_err
       [cl_require_non_empty ''list'' (mf_list m),
        cl_require_non_empty ''version'' (mf_version m),
        cl_require_non_empty ''source_url'' (mf_source_url m),
        cl_require_non_empty ''retrieved_at'' (mf_retrieved_at m),
        cl_require_non_empty ''signature_alg'' (mf_signature_alg m),
        cl_require_non_empty ''signature'' (mf_signature m),
        require_payload_safe ''list'' (mf_list m),
        require_payload_safe ''version'' (mf_version m),
        require_payload_safe ''source_url'' (mf_source_url m),
        require_payload_safe ''retrieved_at'' (mf_retrieved_at m),
        check_opt (require_payload_safe ''effective_to'') (mf_effective_to m),
        require_payload_safe ''effective_from'' (mf_effective_from m),
        cl_validate_date (mf_effective_from m),
        check_opt cl_validate_date (mf_effective_to m),
        check_window (mf_list m) (Some (mf_effective_from m)) (mf_effective_to m),
        (if mf_entries m = [] then Inl (ClEmptyManifest (mf_list m)) else Inr ()),
        entries_validate (mf_list m) {} (mf_entries m)]"

definition text_or_empty :: "string option \<Rightarrow> string" where
  "text_or_empty t = (case t of None \<Rightarrow> [] | Some s \<Rightarrow> s)"

definition entry_line :: "cl_entry \<Rightarrow> string" where
  "entry_line e =
     ''entry='' @ ent_code e @ ''|'' @ ent_label e @ ''|'' @ text_or_empty (ent_valid_from e)
     @ ''|'' @ text_or_empty (ent_valid_to e)
     @ ''|'' @ join '';'' (map (\<lambda>(k, v). k @ ''='' @ v) (ent_attrs e))"

definition signing_payload :: "manifest \<Rightarrow> string" where
  "signing_payload m =
     join [CHR 0x0A]
       ([''manifest-v1'',
         ''list='' @ mf_list m,
         ''version='' @ mf_version m,
         ''effective_from='' @ mf_effective_from m,
         ''effective_to='' @ text_or_empty (mf_effective_to m),
         ''source_url='' @ mf_source_url m,
         ''retrieved_at='' @ mf_retrieved_at m]
        @ map entry_line (mf_entries m))"

text \<open>\<open>hex_lower\<close> of this crate indexes a table of digits.\<close>

definition cl_hex_lower :: "u8 list \<Rightarrow> string" where
  "cl_hex_lower bytes =
     concat (map (\<lambda>b. [''0123456789abcdef'' ! unat (drop_bit 4 b),
                        ''0123456789abcdef'' ! unat (and b 15)]) bytes)"

definition expected_signature :: "(string \<Rightarrow> u8 list) \<Rightarrow> manifest \<Rightarrow> string" where
  "expected_signature sha256 m = cl_hex_lower (sha256 (signing_payload m))"

definition cl_constant_time_eq :: "string \<Rightarrow> string \<Rightarrow> bool" where
  "cl_constant_time_eq left right = (ct_diff left right = 0)"

definition manifest_verify :: "(string \<Rightarrow> u8 list) \<Rightarrow> manifest \<Rightarrow> codelist_error + unit" where
  "manifest_verify sha256 m =
     rbind (manifest_validate m) (\<lambda>_.
       if mf_signature_alg m \<noteq> ''sha256:identity''
       then Inl (ClUnsupportedAlgorithm (mf_list m) (mf_signature_alg m))
       else let expected = expected_signature sha256 m
            in if \<not> cl_constant_time_eq (mf_signature m) expected
               then Inl (ClSignatureMismatch (mf_list m) expected (mf_signature m)) else Inr ())"

definition manifest_from_json :: "(string \<Rightarrow> u8 list) \<Rightarrow> (string \<Rightarrow> string + manifest) \<Rightarrow> string
    \<Rightarrow> codelist_error + manifest" where
  "manifest_from_json sha256 from_str raw =
     (case from_str raw of
        Inl e \<Rightarrow> Inl (ClJson e)
      | Inr m \<Rightarrow> rbind (manifest_verify sha256 m) (\<lambda>_. Inr m))"

section \<open>The registry\<close>

record indexed_manifest =
  im_manifest :: manifest
  im_index :: "string \<rightharpoonup> nat"

type_synonym registry = "(string, indexed_manifest list) btree"

text \<open>\<open>entry(code).or_insert(idx)\<close> for each entry in order.\<close>

definition code_index :: "cl_entry list \<Rightarrow> string \<rightharpoonup> nat" where
  "code_index es =
     fold (\<lambda>(i, e) m. if m (ent_code e) = None then m(ent_code e \<mapsto> i) else m) (enumerate 0 es) Map.empty"

definition indexed_manifest_new :: "manifest \<Rightarrow> indexed_manifest" where
  "indexed_manifest_new m = \<lparr>im_manifest = m, im_index = code_index (mf_entries m)\<rparr>"

definition lookup_validated :: "indexed_manifest \<Rightarrow> string \<Rightarrow> string \<Rightarrow> cl_entry option" where
  "lookup_validated im code on_date =
     Option.bind (im_index im code) (\<lambda>idx.
       let e = mf_entries (im_manifest im) ! idx
       in if is_within_window_unchecked on_date (ent_valid_from e) (ent_valid_to e) then Some e else None)"

definition covers_validated :: "indexed_manifest \<Rightarrow> string \<Rightarrow> bool" where
  "covers_validated im on_date =
     is_within_window_unchecked on_date (Some (mf_effective_from (im_manifest im)))
       (mf_effective_to (im_manifest im))"

fun group_manifests :: "(string \<Rightarrow> u8 list) \<Rightarrow> (string, manifest list) btree \<Rightarrow> manifest list
    \<Rightarrow> codelist_error + (string, manifest list) btree" where
  "group_manifests sha256 grouped [] = Inr grouped"
| "group_manifests sha256 grouped (m # ms) =
     rbind (manifest_verify sha256 m) (\<lambda>_.
       group_manifests sha256
         (btree_insert (mf_list m)
            ((case map_of grouped (mf_list m) of None \<Rightarrow> [] | Some l \<Rightarrow> l) @ [m]) grouped) ms)"

definition compare_effective :: "manifest \<Rightarrow> manifest \<Rightarrow> ordering" where
  "compare_effective left right = cmp_of (mf_effective_from right) (mf_effective_from left)"

definition from_manifests :: "(string \<Rightarrow> u8 list) \<Rightarrow> manifest list \<Rightarrow> codelist_error + registry" where
  "from_manifests sha256 ms =
     rbind (group_manifests sha256 [] ms) (\<lambda>grouped.
       Inr (map (\<lambda>(list, l). (list, map indexed_manifest_new (sort_by compare_effective l))) grouped))"

definition registry_seeded :: "(string \<Rightarrow> u8 list) \<Rightarrow> (string \<Rightarrow> string + manifest) \<Rightarrow> string list
    \<Rightarrow> codelist_error + registry" where
  "registry_seeded sha256 from_str raws =
     rbind (collect (map (manifest_from_json sha256 from_str) raws)) (from_manifests sha256)"

definition indexed_manifest_validated :: "registry \<Rightarrow> string \<Rightarrow> string \<Rightarrow> indexed_manifest option" where
  "indexed_manifest_validated reg list on_date =
     Option.bind (map_of reg list) (find (\<lambda>im. covers_validated im on_date))"

definition registry_lookup :: "registry \<Rightarrow> string \<Rightarrow> string \<Rightarrow> string \<Rightarrow> cl_entry option" where
  "registry_lookup reg list code on_date =
     (if \<not> is_ok (cl_validate_date on_date) then None
      else Option.bind (indexed_manifest_validated reg list on_date)
             (\<lambda>im. lookup_validated im code on_date))"

definition registry_manifest :: "registry \<Rightarrow> string \<Rightarrow> string \<Rightarrow> manifest option" where
  "registry_manifest reg list on_date =
     (if \<not> is_ok (cl_validate_date on_date) then None
      else map_option im_manifest (indexed_manifest_validated reg list on_date))"

definition list_names :: "registry \<Rightarrow> string list" where
  "list_names reg = map fst reg"

definition registry_manifests :: "registry \<Rightarrow> manifest list" where
  "registry_manifests reg = concat (map (map im_manifest \<circ> snd) reg)"

section \<open>Dates agree with the document model\<close>

lemma radix_value_digits:
  assumes "list_all is_digit s" "(acc + 1) * 10 ^ length s \<le> bound + 1"
  shows "radix_value 10 bound acc s = digits_val acc s"
  using assms
proof (induction s arbitrary: acc)
  case (Cons c s)
  have c: "48 \<le> byte c" "byte c \<le> 57" using Cons.prems(1) by (simp_all add: is_digit_def)
  let ?a = "acc * 10 + (byte c - 48)"
  have "?a + 1 \<le> (acc + 1) * 10" using c by simp
  then have "(?a + 1) * 10 ^ length s \<le> (acc + 1) * 10 * 10 ^ length s" by (rule mult_right_mono) simp
  also have "\<dots> = (acc + 1) * 10 ^ length (c # s)" by (simp add: algebra_simps)
  finally have b: "(?a + 1) * 10 ^ length s \<le> bound + 1" using Cons.prems(2) by (rule order_trans)
  have "(?a + 1) * 1 \<le> (?a + 1) * 10 ^ length s" by (rule mult_le_mono2) simp
  from order_trans [OF this b] have "?a \<le> bound" by simp
  moreover have "digit_value c = Some (byte c - 48)" using c by (simp add: digit_value_def byte_def)
  moreover have "byte c - 48 < 10" using c by simp
  ultimately have "radix_value 10 bound acc (c # s) = radix_value 10 bound ?a s"
    by (simp only: radix_value.simps) simp
  moreover have "digits_val acc (c # s) = digits_val ?a s" using Cons.prems(1) by simp
  ultimately show ?case using Cons.IH [OF _ b] Cons.prems(1) by simp
qed simp

lemma digits_val_less:
  "digits_val acc s = Some n \<Longrightarrow> n < (acc + 1) * 10 ^ length s"
proof (induction acc s rule: digits_val.induct)
  case (2 acc c s)
  then have "n < (acc * 10 + (byte c - 48) + 1) * 10 ^ length s" and d: "is_digit c" by (auto split: if_splits)
  moreover have "acc * 10 + (byte c - 48) + 1 \<le> (acc + 1) * 10"
    using d unfolding is_digit_def by arith
  then have "(acc * 10 + (byte c - 48) + 1) * 10 ^ length s \<le> (acc + 1) * 10 * 10 ^ length s"
    by (rule mult_right_mono) simp
  ultimately show ?case by (simp add: algebra_simps)
qed simp

lemma parse_radix_digits:
  assumes "list_all is_digit s" "10 ^ length s \<le> bound + 1"
  shows "parse_radix 10 bound s = parse_digits s"
  using assms radix_value_digits [of s 0 bound]
  by (auto simp: parse_radix_def parse_digits_def is_digit_def byte_def split: list.splits)

lemma cl_is_leap_year_nat: "y < 2 ^ 16 \<Longrightarrow> cl_is_leap_year (of_nat y) \<longleftrightarrow> is_leap_year y"
  by (simp add: cl_is_leap_year_def is_leap_year_def word_unat_eq_iff unat_mod unat_of_nat)

lemma cl_days_in_month_nat:
  assumes "y < 2 ^ 16" "m < 2 ^ 8"
  shows "unat (cl_days_in_month (of_nat y) (of_nat m)) = days_in_month y m"
  using cl_is_leap_year_nat [OF assms(1)] assms(2)
  by (auto simp: cl_days_in_month_def days_in_month_def word_unat_eq_iff unat_of_nat)

text \<open>
  The code-list crate and the document model, which each parse dates themselves, accept the same
  dates; neither the 16-bit year nor the 8-bit month and day overflow.
\<close>

theorem code_list_dates_agree: "cl_is_valid_date s = is_valid_date s"
proof (cases "length s = 10 \<and> list_all (\<lambda>i. i = 4 \<or> i = 7 \<or> is_digit (s ! i)) [0..<10]")
  case True
  have l: "[0..<10] = [0, 1, 2, 3, 4, 5, 6, 7, 8, 9]" by (simp add: upt_rec)
  from True obtain a0 a1 a2 a3 a4 a5 a6 a7 a8 a9 where s: "s = [a0, a1, a2, a3, a4, a5, a6, a7, a8, a9]"
    by (blast elim: length_10_obtain)
  have d: "list_all is_digit (take 4 s)" "list_all is_digit (take 2 (drop 5 s))" "list_all is_digit (take 2 (drop 8 s))"
    using True by (simp_all add: s l)
  have len: "length (take 4 s) = 4" "length (take 2 (drop 5 s)) = 2" "length (take 2 (drop 8 s)) = 2"
    by (simp_all add: s)
  have p: "parse_radix 10 65535 (take 4 s) = parse_digits (take 4 s)"
    "parse_radix 10 255 (take 2 (drop 5 s)) = parse_digits (take 2 (drop 5 s))"
    "parse_radix 10 255 (take 2 (drop 8 s)) = parse_digits (take 2 (drop 8 s))"
    using parse_radix_digits [OF d(1), of 65535, unfolded len] parse_radix_digits [OF d(2), of 255, unfolded len]
      parse_radix_digits [OF d(3), of 255, unfolded len] by simp_all
  have bound: "y < 2 ^ 16 \<and> m < 2 ^ 8" if "parse_digits (take 4 s) = Some y" "parse_digits (take 2 (drop 5 s)) = Some m"
    for y m
  proof -
    have "y < 10000" "m < 100"
      using that len digits_val_less [of 0 "take 4 s" y] digits_val_less [of 0 "take 2 (drop 5 s)" m]
      by (simp_all add: parse_digits_def split: if_splits)
    then show ?thesis by simp
  qed
  show ?thesis
    unfolding cl_is_valid_date_def is_valid_date_def p
    using bound cl_days_in_month_nat by (auto split: option.splits)
qed (auto simp: cl_is_valid_date_def is_valid_date_def)

section \<open>What a valid manifest is\<close>

definition payload_safe :: "string \<Rightarrow> bool" where
  "payload_safe s \<longleftrightarrow> set s \<inter> {CHR 0x0A, CHR 0x0D, CHR ''|'', CHR '';'', CHR ''=''} = {}"

lemma require_payload_safe_iff: "require_payload_safe f s = Inr u \<longleftrightarrow> payload_safe s"
  by (induction f s rule: require_payload_safe.induct) (auto simp: payload_safe_def)

lemma cl_require_non_empty_iff: "cl_require_non_empty f s = Inr u \<longleftrightarrow> \<not> blank s"
  by (simp add: cl_require_non_empty_def)

lemma cl_validate_date_iff: "cl_validate_date s = Inr u \<longleftrightarrow> is_valid_date s"
  by (simp add: cl_validate_date_def code_list_dates_agree)

lemma check_window_iff:
  "check_window l f t = Inr u \<longleftrightarrow> (case (f, t) of (Some a, Some b) \<Rightarrow> a \<le> b | _ \<Rightarrow> True)"
  by (auto simp: check_window_def split: option.splits)

definition date_text_ok :: "string option \<Rightarrow> bool" where
  "date_text_ok d = (case d of None \<Rightarrow> True | Some s \<Rightarrow> payload_safe s \<and> is_valid_date s)"

definition cl_entry_ok :: "cl_entry \<Rightarrow> bool" where
  "cl_entry_ok e \<longleftrightarrow> \<not> blank (ent_code e) \<and> \<not> blank (ent_label e)
     \<and> payload_safe (ent_code e) \<and> payload_safe (ent_label e)
     \<and> date_text_ok (ent_valid_from e) \<and> date_text_ok (ent_valid_to e)
     \<and> list_all (\<lambda>(k, v). payload_safe k \<and> payload_safe v) (ent_attrs e)
     \<and> (case (ent_valid_from e, ent_valid_to e) of (Some a, Some b) \<Rightarrow> a \<le> b | _ \<Rightarrow> True)"

definition manifest_ok :: "manifest \<Rightarrow> bool" where
  "manifest_ok m \<longleftrightarrow>
     list_all (\<lambda>s. \<not> blank s)
       [mf_list m, mf_version m, mf_source_url m, mf_retrieved_at m, mf_signature_alg m, mf_signature m]
   \<and> list_all payload_safe [mf_list m, mf_version m, mf_source_url m, mf_retrieved_at m, mf_effective_from m]
   \<and> is_valid_date (mf_effective_from m) \<and> date_text_ok (mf_effective_to m)
   \<and> (case mf_effective_to m of None \<Rightarrow> True | Some t \<Rightarrow> mf_effective_from m \<le> t)
   \<and> mf_entries m \<noteq> [] \<and> list_all cl_entry_ok (mf_entries m) \<and> distinct (map ent_code (mf_entries m))"

lemma entry_validate_iff: "entry_validate list e = Inr u \<longleftrightarrow> cl_entry_ok e"
  by (auto simp: entry_validate_def first_err_ok_iff check_opt_ok_iff check_all_ok_iff rbind_Inr_iff check_safe_date_def
      cl_entry_ok_def cl_require_non_empty_iff require_payload_safe_iff cl_validate_date_iff check_window_iff
      date_text_ok_def list_all_iff split: option.splits)

lemma entries_validate_iff:
  "entries_validate list codes es = Inr u \<longleftrightarrow>
     list_all cl_entry_ok es \<and> distinct (map ent_code es) \<and> ent_code ` set es \<inter> codes = {}"
  by (induction list codes es rule: entries_validate.induct) (auto simp: rbind_Inr_iff entry_validate_iff)

lemma manifest_validate_iff: "manifest_validate m = Inr u \<longleftrightarrow> manifest_ok m"
proof -
  have e: "(if mf_entries m = [] then Inl (ClEmptyManifest (mf_list m)) else Inr ()) = (Inr () :: codelist_error + unit)
     \<longleftrightarrow> mf_entries m \<noteq> []" by simp
  show ?thesis
    unfolding manifest_validate_def first_err_ok_iff manifest_ok_def date_text_ok_def
    by (cases "mf_effective_to m")
       (simp_all add: check_opt_ok_iff cl_require_non_empty_iff require_payload_safe_iff cl_validate_date_iff
         check_window_iff entries_validate_iff e conj_ac del: not_Cons_self2)
qed

section \<open>The signed payload\<close>

lemma split_on_join:
  "ls \<noteq> [] \<Longrightarrow> list_all (\<lambda>l. c \<notin> set l) ls \<Longrightarrow> split_on c (join [c] ls) = ls"
proof (induction "[c]" ls rule: join.induct)
  case (3 t u ts)
  then show ?case using split_on_sep [of c t] by simp
qed (simp_all add: split_on_free)

lemma join_inj:
  fixes c :: char
  assumes "join [c] ls = join [c] ls'" "list_all (\<lambda>l. c \<notin> set l) ls" "list_all (\<lambda>l. c \<notin> set l) ls'"
    and "ls \<noteq> []" "ls' \<noteq> []"
  shows "ls = ls'"
proof -
  have "ls = split_on c (join [c] ls')" using split_on_join [OF assms(4,2)] by (simp only: assms(1))
  also have "\<dots> = ls'" by (rule split_on_join [OF assms(5,3)])
  finally show ?thesis .
qed

lemma free_split:
  fixes c :: char
  assumes "u @ c # v = u' @ c # v'" "c \<notin> set u" "c \<notin> set u'"
  shows "u = u' \<and> v = v'"
proof -
  have "split_once c (u @ c # v) = Some (u, v)" "split_once c (u @ c # v) = Some (u', v')"
    unfolding split_once_Some_iff using assms by (iprover, iprover)
  then show ?thesis by simp
qed

lemma payload_safe_free:
  assumes "payload_safe s"
  shows "CHR 0x0A \<notin> set s" "CHR ''|'' \<notin> set s" "CHR '';'' \<notin> set s" "CHR ''='' \<notin> set s"
  using assms by (auto simp: payload_safe_def)

definition attrs_text :: "(string, string) btree \<Rightarrow> string" where
  "attrs_text as = join '';'' (map (\<lambda>(k, v). k @ ''='' @ v) as)"

lemma attrs_text_inj:
  assumes "attrs_text as = attrs_text bs"
    and "list_all (\<lambda>(k, v). payload_safe k \<and> payload_safe v) as"
    and "list_all (\<lambda>(k, v). payload_safe k \<and> payload_safe v) bs"
  shows "as = bs"
proof -
  let ?f = "\<lambda>(k, v). k @ ''='' @ v"
  have one: "a = b" if "?f a = ?f b" "payload_safe (fst a)" "payload_safe (fst b)" for a b :: "string \<times> string"
    using free_split [of "fst a" "CHR ''=''" "snd a" "fst b" "snd b"] that
    by (simp add: payload_safe_free case_prod_unfold prod_eq_iff)
  have inj: "as = bs" if eq: "map ?f as = map ?f bs" and safe: "list_all (\<lambda>(k, v). payload_safe k \<and> payload_safe v) as"
    "list_all (\<lambda>(k, v). payload_safe k \<and> payload_safe v) bs"
  proof -
    have "inj_on ?f (set as \<union> set bs)"
      by (rule inj_onI, rule one) (use safe in \<open>auto simp: list_all_iff\<close>)
    with eq show ?thesis by (rule map_inj_on)
  qed
  have free: "list_all (\<lambda>l. CHR '';'' \<notin> set l) (map ?f cs)"
    if "list_all (\<lambda>(k, v). payload_safe k \<and> payload_safe v) cs" for cs
    using that by (auto simp: list_all_iff payload_safe_free)
  have ne: "attrs_text cs = [] \<longleftrightarrow> cs = []" for cs
  proof (cases cs)
    case (Cons c cs')
    then show ?thesis by (cases cs') (simp_all add: attrs_text_def case_prod_unfold)
  qed (simp add: attrs_text_def)
  show ?thesis
  proof (cases "as = [] \<or> bs = []")
    case True
    with assms(1) have "attrs_text as = []" "attrs_text bs = []" using ne [of as] ne [of bs] by (metis, metis)
    then show ?thesis by (simp add: ne)
  next
    case False
    have "map ?f as = map ?f bs"
      by (rule join_inj [OF assms(1) [unfolded attrs_text_def] free [OF assms(2)] free [OF assms(3)]])
         (use False in simp_all)
    from inj [OF this assms(2,3)] show ?thesis .
  qed
qed

lemma date_text_inj:
  "text_or_empty d = text_or_empty d' \<Longrightarrow> date_text_ok d \<Longrightarrow> date_text_ok d' \<Longrightarrow> d = d'"
  by (auto simp: text_or_empty_def date_text_ok_def is_valid_date_def split: option.splits)

lemma date_text_safe: "date_text_ok d \<Longrightarrow> payload_safe (text_or_empty d)"
  by (auto simp: text_or_empty_def date_text_ok_def payload_safe_def split: option.splits)

lemma entry_line_inj:
  assumes "entry_line e = entry_line e'" "cl_entry_ok e" "cl_entry_ok e'"
  shows "e = e'"
proof -
  note ok = assms(2,3) [unfolded cl_entry_ok_def]
  have bar: "u @ ''|'' @ v = u' @ ''|'' @ v' \<longleftrightarrow> u = u' \<and> v = v'" if "payload_safe u" "payload_safe u'" for u u' v v'
    using free_split [of u "CHR ''|''" v u' v'] that by (auto simp: payload_safe_free)
  have "ent_code e = ent_code e'" "ent_label e = ent_label e'"
    "text_or_empty (ent_valid_from e) = text_or_empty (ent_valid_from e')"
    "text_or_empty (ent_valid_to e) = text_or_empty (ent_valid_to e')"
    "attrs_text (ent_attrs e) = attrs_text (ent_attrs e')"
    using assms(1) ok by (simp_all only: entry_line_def attrs_text_def [symmetric] same_append_eq bar date_text_safe)
  with ok show ?thesis
    by (intro cl_entry.equality) (simp_all add: date_text_inj attrs_text_inj)
qed

lemma entry_line_free: "cl_entry_ok e \<Longrightarrow> CHR 0x0A \<notin> set (entry_line e)"
proof -
  assume ok: "cl_entry_ok e"
  have nl: "CHR 0x0A \<notin> set (join '';'' ls)" if "\<forall>l \<in> set ls. CHR 0x0A \<notin> set l" for ls
    using that by (induction "'';''" ls rule: join.induct) auto
  have "\<forall>l \<in> set (map (\<lambda>(k, v). k @ ''='' @ v) (ent_attrs e)). CHR 0x0A \<notin> set l"
    using ok by (auto simp: cl_entry_ok_def list_all_iff payload_safe_free)
  note nl [OF this]
  moreover have "payload_safe (ent_code e)" "payload_safe (ent_label e)" "payload_safe (text_or_empty (ent_valid_from e))"
    "payload_safe (text_or_empty (ent_valid_to e))" using ok by (simp_all add: cl_entry_ok_def date_text_safe)
  note this [THEN payload_safe_free(1)]
  ultimately show ?thesis unfolding entry_line_def set_append Un_iff by simp
qed

text \<open>What the payload is about.\<close>

definition unsigned :: "manifest \<Rightarrow> manifest" where
  "unsigned m = m\<lparr>mf_signature := [], mf_signature_alg := []\<rparr>"

text \<open>C36  The payload that is signed identifies a valid manifest: two manifests with the same payload have
  the same list, version, window, source and entries, so one signature cannot stand for two code lists.
\<close>

theorem payload_identifies_manifest:
  assumes "manifest_validate m = Inr ()" "manifest_validate n = Inr ()"
  shows "signing_payload m = signing_payload n \<longleftrightarrow> unsigned m = unsigned n"
proof
  assume eq: "signing_payload m = signing_payload n"
  note ok = assms [unfolded manifest_validate_iff]
  let ?head = "\<lambda>m. [''manifest-v1'', ''list='' @ mf_list m, ''version='' @ mf_version m,
     ''effective_from='' @ mf_effective_from m, ''effective_to='' @ text_or_empty (mf_effective_to m),
     ''source_url='' @ mf_source_url m, ''retrieved_at='' @ mf_retrieved_at m]"
  have free: "list_all (\<lambda>l. CHR 0x0A \<notin> set l) (?head m @ map entry_line (mf_entries m))" if "manifest_ok m" for m
    using that date_text_safe entry_line_free
    by (auto simp: manifest_ok_def list_all_iff payload_safe_free)
  have "?head m @ map entry_line (mf_entries m) = ?head n @ map entry_line (mf_entries n)"
    using eq ok free by (intro join_inj [of "CHR 0x0A"]) (simp_all only: signing_payload_def, simp_all)
  then have h: "mf_list m = mf_list n" "mf_version m = mf_version n" "mf_effective_from m = mf_effective_from n"
    "text_or_empty (mf_effective_to m) = text_or_empty (mf_effective_to n)"
    "mf_source_url m = mf_source_url n" "mf_retrieved_at m = mf_retrieved_at n"
    and es: "map entry_line (mf_entries m) = map entry_line (mf_entries n)" by simp_all
  have "inj_on entry_line (set (mf_entries m) \<union> set (mf_entries n))"
    using ok entry_line_inj by (auto simp: inj_on_def manifest_ok_def list_all_iff)
  with es have "mf_entries m = mf_entries n" by (rule map_inj_on)
  moreover have "mf_effective_to m = mf_effective_to n"
    using h(4) ok by (intro date_text_inj) (simp_all add: manifest_ok_def)
  ultimately show "unsigned m = unsigned n" using h by (simp add: unsigned_def)
next
  assume "unsigned m = unsigned n"
  then have "signing_payload (unsigned m) = signing_payload (unsigned n)" by simp
  then show "signing_payload m = signing_payload n" by (simp add: signing_payload_def unsigned_def)
qed

section \<open>Signatures\<close>

lemma cl_constant_time_eq_refl [simp]: "cl_constant_time_eq s s"
  by (simp add: cl_constant_time_eq_def ct_diff_refl)

lemma cl_constant_time_eq_iff:
  "length l < 2 ^ 64 \<Longrightarrow> length r < 2 ^ 64 \<Longrightarrow> cl_constant_time_eq l r \<longleftrightarrow> l = r"
  by (simp add: cl_constant_time_eq_def ct_diff_zero_iff)

lemma manifest_verify_iff:
  assumes "length (mf_signature m) < 2 ^ 64" "length (expected_signature sha256 m) < 2 ^ 64"
  shows "manifest_verify sha256 m = Inr u \<longleftrightarrow>
    manifest_ok m \<and> mf_signature_alg m = ''sha256:identity'' \<and> mf_signature m = expected_signature sha256 m"
  using cl_constant_time_eq_iff [OF assms]
  by (simp add: manifest_verify_def rbind_Inr_iff manifest_validate_iff Let_def)

section \<open>What a look-up answers\<close>

fun position :: "('a \<Rightarrow> bool) \<Rightarrow> 'a list \<Rightarrow> nat option" where
  "position P [] = None"
| "position P (x # xs) = (if P x then Some 0 else map_option Suc (position P xs))"

lemma position_find: "map_option (nth xs) (position P xs) = find P xs"
  by (induction xs) (auto simp: option.map_comp comp_def)

lemma code_index_fold:
  "fold (\<lambda>(i, e) m. if m (ent_code e) = None then m(ent_code e \<mapsto> i) else m) (enumerate n es) m c
     = (case m c of Some i \<Rightarrow> Some i | None \<Rightarrow> map_option ((+) n) (position (\<lambda>e. ent_code e = c) es))"
proof (induction es arbitrary: n m)
  case (Cons e es)
  have [simp]: "(+) (Suc n) = (\<lambda>x. Suc (n + x))" by auto
  show ?case
    by (cases "m (ent_code e)"; cases "ent_code e = c")
       (simp_all add: Cons option.map_comp comp_def split: option.splits)
qed (simp split: option.splits)

lemma code_index_position: "code_index es c = position (\<lambda>e. ent_code e = c) es"
  by (cases "position (\<lambda>e. ent_code e = c) es") (simp_all add: code_index_def code_index_fold)

lemma find_insert_desc:
  assumes "sorted_wrt (\<lambda>a b. mf_effective_from b \<le> mf_effective_from a) ys"
  shows "find P (insert_by compare_effective x ys) =
    (if P x then case find P ys of None \<Rightarrow> Some x
       | Some m \<Rightarrow> if mf_effective_from x < mf_effective_from m then Some m else Some x
     else find P ys)"
  using assms
proof (induction ys)
  case (Cons y ys)
  have "mf_effective_from m \<le> mf_effective_from y" if "find P ys = Some m" for m
    using that Cons.prems by (auto simp: find_Some_iff)
  then show ?case using Cons
    by (auto simp: compare_effective_def cmp_of_def split: option.splits if_splits)
qed simp

lemma sorted_desc_sort: "sorted_wrt (\<lambda>a b. mf_effective_from b \<le> mf_effective_from a) (sort_by compare_effective ms)"
proof -
  have "sorted_wrt (\<lambda>a b. mf_effective_from b \<le> mf_effective_from a) (insert_by compare_effective x ys)"
    if "sorted_wrt (\<lambda>a b. mf_effective_from b \<le> mf_effective_from a) ys" for x ys
    using that by (induction ys) (auto simp: compare_effective_def cmp_of_def split: if_splits)
  then show ?thesis by (induction ms) (simp_all add: sort_by_def)
qed

lemma find_sort_desc: "find P (sort_by compare_effective ms) = first_max mf_effective_from (filter P ms)"
proof (induction ms)
  case (Cons m ms)
  then show ?case
    using find_insert_desc [OF sorted_desc_sort [of ms], of P m]
    by (simp add: sort_by_def first_max_Cons)
qed (simp add: sort_by_def)

lemma group_manifests_ok:
  assumes "group_manifests sha256 grouped ms = Inr g" "btree_ok grouped"
  shows "btree_ok g" and "map_of g list = (case map_of grouped list of
      None \<Rightarrow> if filter (\<lambda>m. mf_list m = list) ms = [] then None else Some (filter (\<lambda>m. mf_list m = list) ms)
    | Some l \<Rightarrow> Some (l @ filter (\<lambda>m. mf_list m = list) ms))"
    and "list_all (\<lambda>m. manifest_verify sha256 m = Inr ()) ms"
  using assms
  by (induction sha256 grouped ms rule: group_manifests.induct)
     (auto simp: rbind_Inr_iff split: option.splits)

lemma find_map_option: "find P (map f xs) = map_option f (find (P \<circ> f) xs)"
  by (induction xs) auto

lemma is_ok_validate_date [simp]: "is_ok (cl_validate_date d) = is_valid_date d"
  by (simp add: cl_validate_date_def code_list_dates_agree)

lemma registry_manifest_at:
  assumes "from_manifests sha256 ms = Inr reg"
  shows "indexed_manifest_validated reg list d = map_option indexed_manifest_new
    (first_max mf_effective_from (filter (\<lambda>m. mf_list m = list
       \<and> is_within_window_unchecked d (Some (mf_effective_from m)) (mf_effective_to m)) ms))"
proof -
  obtain g where g: "group_manifests sha256 [] ms = Inr g"
    and reg: "reg = map (\<lambda>(list, l). (list, map indexed_manifest_new (sort_by compare_effective l))) g"
    using assms by (auto simp: from_manifests_def rbind_Inr_iff)
  let ?P = "\<lambda>m. is_within_window_unchecked d (Some (mf_effective_from m)) (mf_effective_to m)"
  have "(\<lambda>im. covers_validated im d) \<circ> indexed_manifest_new = ?P"
    by (simp add: fun_eq_iff covers_validated_def indexed_manifest_new_def)
  then have found: "find (\<lambda>im. covers_validated im d) (map indexed_manifest_new (sort_by compare_effective l))
      = map_option indexed_manifest_new (first_max mf_effective_from (filter ?P l))" for l
    by (simp add: find_map_option find_sort_desc)
  have r: "map_of reg list = map_option (\<lambda>l. map indexed_manifest_new (sort_by compare_effective l)) (map_of g list)"
    unfolding reg by (simp add: map_of_map)
  have m: "map_of g list = (if filter (\<lambda>m. mf_list m = list) ms = [] then None
      else Some (filter (\<lambda>m. mf_list m = list) ms))"
    using group_manifests_ok(2) [OF g btree_ok_Nil, of list] by simp
  have f: "filter ?P (filter (\<lambda>m. mf_list m = list) ms) = filter (\<lambda>m. mf_list m = list \<and> ?P m) ms"
    by (simp add: conj_commute)
  show ?thesis
  proof (cases "filter (\<lambda>m. mf_list m = list) ms = []")
    case True
    then have "filter (\<lambda>m. mf_list m = list \<and> ?P m) ms = []" by (simp add: filter_empty_conv)
    with True show ?thesis by (simp add: indexed_manifest_validated_def r m)
  next
    case False
    then show ?thesis by (simp only: indexed_manifest_validated_def r m f [symmetric] found if_False
          option.map bind.bind_lunit)
  qed
qed

lemma lookup_validated_find:
  "lookup_validated (indexed_manifest_new m) code d =
     Option.bind (find (\<lambda>e. ent_code e = code) (mf_entries m))
       (\<lambda>e. if is_within_window_unchecked d (ent_valid_from e) (ent_valid_to e) then Some e else None)"
  unfolding lookup_validated_def indexed_manifest_new_def position_find [symmetric]
  by (cases "position (\<lambda>e. ent_code e = code) (mf_entries m)") (simp_all add: code_index_position Let_def)

text \<open>C37  The registry refines its specification: a look-up answers from the manifest of the list that is in
  force on the date and has the latest start (the first given of those), with the entry of that code if
  the entry's own window holds the date; a text that is no date has no answer.
\<close>

theorem lookup_answers_latest:
  assumes "from_manifests sha256 ms = Inr reg"
  shows "registry_lookup reg list code d =
    (if is_valid_date d
     then Option.bind (first_max mf_effective_from (filter (\<lambda>m. mf_list m = list \<and> manifest_is_effective_on m d) ms))
            (\<lambda>m. Option.bind (find (\<lambda>e. ent_code e = code) (mf_entries m))
               (\<lambda>e. if entry_is_effective_on e d then Some e else None))
     else None)"
proof (cases "is_valid_date d")
  case True
  then show ?thesis
    by (simp add: registry_lookup_def registry_manifest_at [OF assms] Option.map_conv_bind_option comp_def
        lookup_validated_find manifest_is_effective_on_def entry_is_effective_on_def is_within_window_def)
qed (simp add: registry_lookup_def)

lemma registry_lookup_cong:
  assumes "from_manifests sha256 ms = Inr reg" "from_manifests sha256 ms' = Inr reg'"
    and "filter (\<lambda>m. mf_list m = list
           \<and> is_within_window_unchecked d (Some (mf_effective_from m)) (mf_effective_to m)) ms
       = filter (\<lambda>m. mf_list m = list
           \<and> is_within_window_unchecked d (Some (mf_effective_from m)) (mf_effective_to m)) ms'"
  shows "registry_lookup reg list code d = registry_lookup reg' list code d"
  by (simp add: registry_lookup_def registry_manifest_at [OF assms(1)] registry_manifest_at [OF assms(2)] assms(3))

text \<open>
  Publishing is monotone: adding manifests of other lists, or manifests that start after a date,
  never changes what the registry answers for that date.
\<close>

theorem later_manifests_keep_answers:
  assumes "from_manifests sha256 ms = Inr reg" "from_manifests sha256 (ms @ later) = Inr reg'"
    and "list_all (\<lambda>m. if mf_list m = list then d < mf_effective_from m else True) later"
  shows "registry_lookup reg' list code d = registry_lookup reg list code d"
proof (rule registry_lookup_cong [OF assms(2,1)])
  have "filter (\<lambda>m. mf_list m = list
      \<and> is_within_window_unchecked d (Some (mf_effective_from m)) (mf_effective_to m)) later = []"
    using assms(3) by (auto simp: filter_empty_conv list_all_iff is_within_window_unchecked_def split: if_splits)
  then show "filter (\<lambda>m. mf_list m = list
      \<and> is_within_window_unchecked d (Some (mf_effective_from m)) (mf_effective_to m)) (ms @ later)
    = filter (\<lambda>m. mf_list m = list
      \<and> is_within_window_unchecked d (Some (mf_effective_from m)) (mf_effective_to m)) ms" by simp
qed

section \<open>A concrete list\<close>

definition sample_manifest :: "string \<Rightarrow> string \<Rightarrow> manifest" where
  "sample_manifest version from =
     \<lparr>mf_list = ''l'', mf_version = version, mf_effective_from = from, mf_effective_to = None,
      mf_source_url = ''u'', mf_retrieved_at = ''2024-01-01'', mf_signature_alg = ''sha256:identity'',
      mf_signature = replicate 64 (CHR ''0''),
      mf_entries = [\<lparr>ent_code = ''c'', ent_label = version, ent_valid_from = None, ent_valid_to = None,
                     ent_attrs = [(''a'', ''1'')]\<rparr>]\<rparr>"

lemma sample_ok:
  "manifest_ok (sample_manifest ''1'' ''2024-01-01'')" "manifest_ok (sample_manifest ''2'' ''2025-01-01'')"
proof -
  have nb: "\<not> blank (a # s)" if "solid a" for a s using that by (intro not_blank_solid [of a]) auto
  have sig: "replicate 64 CHR ''0'' = CHR ''0'' # replicate 63 (CHR ''0'')" by (simp add: eval_nat_numeral)
  have "is_valid_date ''2024-01-01''" "is_valid_date ''2025-01-01''" by code_simp+
  then show "manifest_ok (sample_manifest ''1'' ''2024-01-01'')" "manifest_ok (sample_manifest ''2'' ''2025-01-01'')"
    unfolding sample_manifest_def sig
    by (simp_all add: manifest_ok_def cl_entry_ok_def date_text_ok_def payload_safe_def nb solid_def byte_def)
qed

lemmas sample_validates = sample_ok [folded manifest_validate_iff [where u = "()"]]

lemma sample_verifies:
  "manifest_verify (\<lambda>_. replicate 32 0) (sample_manifest ''1'' ''2024-01-01'') = Inr ()"
  "manifest_verify (\<lambda>_. replicate 32 0) (sample_manifest ''2'' ''2025-01-01'') = Inr ()"
proof -
  have "cl_hex_lower (replicate n 0) = replicate (2 * n) (CHR ''0'')" for n
    by (induction n) (simp_all add: cl_hex_lower_def)
  from this [of 32] have "mf_signature (sample_manifest v f) = replicate 64 (CHR ''0'')"
    "expected_signature (\<lambda>_. replicate 32 0) m = replicate 64 (CHR ''0'')"
    "mf_signature_alg (sample_manifest v f) = ''sha256:identity''" for v f m
    by (simp_all add: sample_manifest_def expected_signature_def)
  then show "manifest_verify (\<lambda>_. replicate 32 0) (sample_manifest ''1'' ''2024-01-01'') = Inr ()"
    "manifest_verify (\<lambda>_. replicate 32 0) (sample_manifest ''2'' ''2025-01-01'') = Inr ()"
    by (simp_all add: manifest_verify_def sample_validates Let_def)
qed

lemma sample_registry:
  "from_manifests (\<lambda>_. replicate 32 0) [sample_manifest ''1'' ''2024-01-01''] =
     Inr [(''l'', [indexed_manifest_new (sample_manifest ''1'' ''2024-01-01'')])]"
  "from_manifests (\<lambda>_. replicate 32 0)
       [sample_manifest ''1'' ''2024-01-01'', sample_manifest ''2'' ''2025-01-01''] =
     Inr [(''l'', [indexed_manifest_new (sample_manifest ''2'' ''2025-01-01''),
                   indexed_manifest_new (sample_manifest ''1'' ''2024-01-01'')])]"
proof -
  have "mf_list (sample_manifest v f) = ''l''" "mf_effective_from (sample_manifest v f) = f" for v f
    by (simp_all add: sample_manifest_def)
  moreover have "''2024-01-01'' < ''2025-01-01''" "\<not> ''2025-01-01'' < ''2024-01-01''" by simp_all
  ultimately show
    "from_manifests (\<lambda>_. replicate 32 0) [sample_manifest ''1'' ''2024-01-01''] =
       Inr [(''l'', [indexed_manifest_new (sample_manifest ''1'' ''2024-01-01'')])]"
    "from_manifests (\<lambda>_. replicate 32 0)
         [sample_manifest ''1'' ''2024-01-01'', sample_manifest ''2'' ''2025-01-01''] =
       Inr [(''l'', [indexed_manifest_new (sample_manifest ''2'' ''2025-01-01''),
                     indexed_manifest_new (sample_manifest ''1'' ''2024-01-01'')])]"
    by (simp_all add: from_manifests_def sample_verifies sort_by_def compare_effective_def cmp_of_def)
qed

theorem payload_identifies_manifest_witness:
  "signing_payload (sample_manifest ''1'' ''2024-01-01'') \<noteq> signing_payload (sample_manifest ''2'' ''2025-01-01'')"
  using payload_identifies_manifest [OF sample_validates] by (simp add: unsigned_def sample_manifest_def)

theorem lookup_answers_latest_witness:
  "map_option ent_label (registry_lookup
     [(''l'', [indexed_manifest_new (sample_manifest ''2'' ''2025-01-01''),
               indexed_manifest_new (sample_manifest ''1'' ''2024-01-01'')])] ''l'' ''c'' ''2024-06-01'') = Some ''1''"
proof -
  have v: "is_valid_date ''2024-06-01''" by code_simp
  have "first_max mf_effective_from [sample_manifest ''1'' ''2024-01-01''] = Some (sample_manifest ''1'' ''2024-01-01'')"
    by (simp add: first_max_def)
  then show ?thesis
    unfolding lookup_answers_latest [OF sample_registry(2)]
    by (simp add: v manifest_is_effective_on_def entry_is_effective_on_def is_within_window_def
        is_within_window_unchecked_def sample_manifest_def)
qed

theorem later_manifests_keep_answers_witness:
  "registry_lookup
     [(''l'', [indexed_manifest_new (sample_manifest ''2'' ''2025-01-01''),
               indexed_manifest_new (sample_manifest ''1'' ''2024-01-01'')])] ''l'' ''c'' ''2024-06-01''
   = registry_lookup [(''l'', [indexed_manifest_new (sample_manifest ''1'' ''2024-01-01'')])] ''l'' ''c'' ''2024-06-01''"
proof (rule later_manifests_keep_answers [OF sample_registry(1), of "[sample_manifest ''2'' ''2025-01-01'']"])
  show "from_manifests (\<lambda>_. replicate 32 0)
      ([sample_manifest ''1'' ''2024-01-01''] @ [sample_manifest ''2'' ''2025-01-01'']) =
    Inr [(''l'', [indexed_manifest_new (sample_manifest ''2'' ''2025-01-01''),
                  indexed_manifest_new (sample_manifest ''1'' ''2024-01-01'')])]"
    using sample_registry(2) by simp
  show "list_all (\<lambda>m. if mf_list m = ''l'' then ''2024-06-01'' < mf_effective_from m else True)
      [sample_manifest ''2'' ''2025-01-01'']" by (simp add: sample_manifest_def)
qed

end
