(* ===== verification/Codelist_Sources.thy ===== *)
theory Codelist_Sources
  imports Codelists
begin

text \<open>
  \<open>crates/codelists/src/sources.rs\<close>: the registry of upstream authorities, the ISO 4217 reader and the
  builder of signed manifests.  The text of an error detail is kept as the values it is formatted from.
\<close>

section \<open>Sources\<close>

datatype source_format = Csv

datatype malformed_detail =
    MissingHeader
  | MissingColumn string
  | ColumnCount nat nat nat
  | EmptyCode nat
  | NumericNotThreeDigits nat string
  | MinorNotInteger nat string
  | DuplicateCode nat string nat
  | NoDataRows

datatype source_error =
    SrcUnknownList string
  | SrcMalformed string malformed_detail
  | SrcBadRetrievedAt string

record source_spec =
  src_list_name :: string
  src_upstream_url :: string
  src_format :: source_format
  src_normalize :: "string \<Rightarrow> source_error + cl_entry list"
  src_version_template :: string
  src_default_effective_from :: string

section \<open>The ISO 4217 reader\<close>

abbreviation iso_bad :: "malformed_detail \<Rightarrow> source_error + 'a" where
  "iso_bad detail \<equiv> Inl (SrcMalformed ''iso-4217'' detail)"

definition source_rows :: "string \<Rightarrow> string list" where
  "source_rows raw = filter (\<lambda>l. l \<noteq> [] \<and> hd l \<noteq> CHR ''#'') (map trim (str_lines raw))"

definition find_column :: "string list \<Rightarrow> string \<Rightarrow> source_error + nat" where
  "find_column cols name =
     (case position (\<lambda>c. eq_ignore_case c name) cols of
        None \<Rightarrow> iso_bad (MissingColumn name) | Some i \<Rightarrow> Inr i)"

definition iso_entry :: "string \<Rightarrow> string \<Rightarrow> string \<Rightarrow> string \<Rightarrow> cl_entry" where
  "iso_entry code label numeric minor =
     \<lparr>ent_code = code, ent_label = label, ent_valid_from = None, ent_valid_to = None,
      ent_attrs = btree_insert ''minor_units'' minor (btree_insert ''numeric'' numeric [])\<rparr>"

text \<open>The body of the loop over the rows; \<open>rowno\<close> is \<open>lineno + 2\<close>.\<close>

definition iso_row :: "nat \<Rightarrow> nat \<times> nat \<times> nat \<times> nat \<Rightarrow> nat \<Rightarrow> (string \<rightharpoonup> nat) \<Rightarrow> string
    \<Rightarrow> source_error + cl_entry" where
  "iso_row width columns rowno seen row =
     (case columns of (i_code, i_label, i_numeric, i_minor) \<Rightarrow>
      let cells = map trim (split_on CHR '','' row);
          code = cells ! i_code; numeric = cells ! i_numeric; minor = cells ! i_minor
      in if length cells \<noteq> width then iso_bad (ColumnCount rowno (length cells) width)
         else if code = [] then iso_bad (EmptyCode rowno)
         else if length numeric \<noteq> 3 \<or> \<not> list_all is_digit numeric
           then iso_bad (NumericNotThreeDigits rowno numeric)
         else if parse_radix 10 255 minor = None then iso_bad (MinorNotInteger rowno minor)
         else case seen code of
             Some prior \<Rightarrow> iso_bad (DuplicateCode rowno code prior)
           | None \<Rightarrow> Inr (iso_entry code (cells ! i_label) numeric minor))"

fun iso_rows :: "nat \<Rightarrow> nat \<times> nat \<times> nat \<times> nat \<Rightarrow> nat \<Rightarrow> (string \<rightharpoonup> nat) \<Rightarrow> string list
    \<Rightarrow> source_error + cl_entry list" where
  "iso_rows width columns rowno seen [] = Inr []"
| "iso_rows width columns rowno seen (row # rows) =
     rbind (iso_row width columns rowno seen row) (\<lambda>e.
       rbind (iso_rows width columns (Suc rowno) (seen(ent_code e \<mapsto> rowno)) rows) (\<lambda>es.
         Inr (e # es)))"

definition normalize_iso_4217_csv :: "string \<Rightarrow> source_error + cl_entry list" where
  "normalize_iso_4217_csv raw =
     (case source_rows raw of
        [] \<Rightarrow> iso_bad MissingHeader
      | header # rows \<Rightarrow>
          let cols = map trim (split_on CHR '','' header) in
          rbind (find_column cols ''code'') (\<lambda>i_code.
          rbind (find_column cols ''label'') (\<lambda>i_label.
          rbind (find_column cols ''numeric'') (\<lambda>i_numeric.
          rbind (find_column cols ''minor_units'') (\<lambda>i_minor.
          rbind (iso_rows (length cols) (i_code, i_label, i_numeric, i_minor) 2 Map.empty rows) (\<lambda>out.
            if out = [] then iso_bad NoDataRows
            else Inr (sort_by (\<lambda>a b. cmp_of (ent_code a) (ent_code b)) out)))))))"

definition builtin_sources :: "source_spec list" where
  "builtin_sources =
     [\<lparr>src_list_name = ''iso-4217'',
       src_upstream_url =
         ''https://www.six-group.com/en/products-services/financial-information/data-standards.html'',
       src_format = Csv,
       src_normalize = normalize_iso_4217_csv,
       src_version_template = ''iso-4217-{RETRIEVED_AT}'',
       src_default_effective_from = ''2024-01-01''\<rparr>]"

definition source_for :: "string \<Rightarrow> source_error + source_spec" where
  "source_for list =
     (case find (\<lambda>s. src_list_name s = list) builtin_sources of
        None \<Rightarrow> Inl (SrcUnknownList list) | Some s \<Rightarrow> Inr s)"

section \<open>Building a manifest\<close>

text \<open>\<open>replace(pat, with)\<close> for a non-empty pattern.\<close>

function str_replace :: "string \<Rightarrow> string \<Rightarrow> string \<Rightarrow> string" where
  "str_replace pat by [] = []"
| "str_replace pat by (c # s) =
     (if pat \<noteq> [] \<and> take (length pat) (c # s) = pat
      then by @ str_replace pat by (drop (length pat) (c # s))
      else c # str_replace pat by s)"
  by pat_completeness auto
termination by (relation "measure (\<lambda>(pat, by, s). length s)") (auto simp: Suc_le_eq)

definition is_iso_date :: "string \<Rightarrow> bool" where
  "is_iso_date s =
     (if length s \<noteq> 10 then False
      else s ! 4 = CHR ''-'' \<and> s ! 7 = CHR ''-''
         \<and> list_all is_digit (take 4 s) \<and> list_all is_digit (take 2 (drop 5 s))
         \<and> list_all is_digit (take 2 (drop 8 s)))"

definition build_manifest :: "(string \<Rightarrow> u8 list) \<Rightarrow> source_spec \<Rightarrow> string \<Rightarrow> string
    \<Rightarrow> source_error + manifest" where
  "build_manifest sha256 spec raw_upstream retrieved_at =
     (if \<not> is_iso_date retrieved_at then Inl (SrcBadRetrievedAt retrieved_at)
      else rbind (src_normalize spec raw_upstream) (\<lambda>entries.
        let m = \<lparr>mf_list = src_list_name spec,
                 mf_version = str_replace ''{RETRIEVED_AT}'' retrieved_at (src_version_template spec),
                 mf_effective_from = src_default_effective_from spec, mf_effective_to = None,
                 mf_source_url = src_upstream_url spec, mf_retrieved_at = retrieved_at,
                 mf_signature_alg = ''sha256:identity'', mf_signature = [], mf_entries = entries\<rparr>
        in Inr (m\<lparr>mf_signature := expected_signature sha256 m\<rparr>)))"

section \<open>What the reader produces\<close>

lemma position_Some: "position P xs = Some i \<Longrightarrow> i < length xs \<and> P (xs ! i)"
  by (induction xs arbitrary: i) (auto split: if_splits)

lemma find_column_Inr: "find_column cols name = Inr i \<Longrightarrow> i < length cols"
  by (auto simp: find_column_def dest: position_Some split: option.splits)

lemma radix_value_10: "radix_value 10 bound acc s = Some n \<Longrightarrow> list_all is_digit s"
proof (induction s arbitrary: acc)
  case (Cons c s)
  then obtain d where "digit_value c = Some d" "d < 10" "radix_value 10 bound (acc * 10 + d) s = Some n"
    by (auto split: option.splits if_splits)
  with Cons.IH show ?case by (auto simp: digit_value_def Let_def is_digit_def byte_def split: if_splits)
qed simp

lemma digits_safe: "list_all is_digit s \<Longrightarrow> payload_safe s"
  by (auto simp: payload_safe_def list_all_iff is_digit_def byte_def)

lemma parse_radix_10_safe: "parse_radix 10 bound s = Some n \<Longrightarrow> payload_safe s"
proof (cases s)
  case (Cons c cs)
  assume "parse_radix 10 bound s = Some n"
  then have "list_all is_digit (if c = CHR ''+'' then cs else s)"
    using radix_value_10 [of bound 0 "if c = CHR ''+'' then cs else s" n]
    by (simp add: parse_radix_def Cons Let_def del: radix_value.simps split: if_splits)
  from digits_safe [OF this] show ?thesis by (auto simp: payload_safe_def Cons split: if_splits)
qed (simp add: payload_safe_def)

text \<open>What the loop ensures of an entry; the label is not constrained.\<close>

definition source_entry_ok :: "cl_entry \<Rightarrow> bool" where
  "source_entry_ok e \<longleftrightarrow> ent_code e \<noteq> [] \<and> trim (ent_code e) = ent_code e
     \<and> ent_valid_from e = None \<and> ent_valid_to e = None
     \<and> list_all (\<lambda>(k, v). payload_safe k \<and> payload_safe v) (ent_attrs e)"

lemma iso_row_Inr:
  assumes "iso_row width (i, j, k, l) rowno seen row = Inr e" "i < width"
  shows "source_entry_ok e \<and> seen (ent_code e) = None"
proof -
  let ?cells = "map trim (split_on CHR '','' row)"
  from assms(1) obtain n where len: "length ?cells = width" and code: "?cells ! i \<noteq> []" "seen (?cells ! i) = None"
    and num: "list_all is_digit (?cells ! k)" and minor: "parse_radix 10 255 (?cells ! l) = Some n"
    and e: "e = iso_entry (?cells ! i) (?cells ! j) (?cells ! k) (?cells ! l)"
    by (auto simp: iso_row_def Let_def simp del: length_map split: if_splits option.splits)
  have "trim (?cells ! i) = ?cells ! i" using len assms(2) by simp
  moreover have "payload_safe ''numeric''" "payload_safe ''minor_units''" by (simp_all add: payload_safe_def)
  ultimately show ?thesis using code digits_safe [OF num] parse_radix_10_safe [OF minor]
    unfolding e by (simp add: source_entry_ok_def iso_entry_def)
qed

lemma iso_rows_Inr:
  assumes "iso_rows width (i, j, k, l) rowno seen rows = Inr es" "i < width"
  shows "list_all source_entry_ok es \<and> distinct (map ent_code es) \<and> ent_code ` set es \<inter> dom seen = {}"
  using assms(1)
proof (induction rows arbitrary: rowno seen es)
  case (Cons row rows)
  then obtain e es' where es: "es = e # es'" and e: "iso_row width (i, j, k, l) rowno seen row = Inr e"
    and rest: "iso_rows width (i, j, k, l) (Suc rowno) (seen(ent_code e \<mapsto> rowno)) rows = Inr es'"
    by (auto simp: rbind_Inr_iff)
  from Cons.IH [OF rest] iso_row_Inr [OF e assms(2)] show ?case by (auto simp: es)
qed simp

lemma normalize_Inr:
  assumes "normalize_iso_4217_csv raw = Inr es"
  shows "es \<noteq> []" "list_all source_entry_ok es" "distinct (map ent_code es)"
proof -
  let ?sort = "sort_by (\<lambda>a b. cmp_of (ent_code a) (ent_code b)) :: cl_entry list \<Rightarrow> cl_entry list"
  from assms obtain header rows i j k l out where
    i: "find_column (map trim (split_on CHR '','' header)) ''code'' = Inr i"
    and out: "iso_rows (length (map trim (split_on CHR '','' header))) (i, j, k, l) 2 Map.empty rows = Inr out"
    and ne: "out \<noteq> []" and es: "es = ?sort out"
    by (auto simp: normalize_iso_4217_csv_def Let_def rbind_Inr_iff split: list.splits if_splits)
  note rows = iso_rows_Inr [OF out find_column_Inr [OF i]]
  show "es \<noteq> []" using ne by (metis es length_0_conv length_sort_by)
  show "list_all source_entry_ok es" using rows by (simp add: es list_all_iff)
  have "distinct (map ent_code out)" using rows by simp
  moreover have "mset (map ent_code es) = mset (map ent_code out)" by (simp add: es)
  ultimately show "distinct (map ent_code es)" by (metis mset_eq_imp_distinct_iff)
qed

lemma source_entry_ok_iff:
  "source_entry_ok e \<Longrightarrow> cl_entry_ok e \<longleftrightarrow>
     \<not> blank (ent_label e) \<and> payload_safe (ent_label e) \<and> payload_safe (ent_code e)"
  by (auto simp: source_entry_ok_def cl_entry_ok_def blank_def date_text_ok_def)

lemma is_iso_date_safe:
  assumes "is_iso_date s"
  shows "payload_safe s" "solid (hd s)"
proof -
  from assms have "length s = 10 \<and> is_iso_date s" by (simp add: is_iso_date_def split: if_splits)
  then obtain a0 a1 a2 a3 a4 a5 a6 a7 a8 a9 where s: "s = [a0, a1, a2, a3, a4, a5, a6, a7, a8, a9]"
    by (blast elim: length_10_obtain)
  have "list_all (\<lambda>c. is_digit c \<or> c = CHR ''-'') s" "is_digit (hd s)"
    using assms by (simp_all add: is_iso_date_def s)
  then show "payload_safe s" "solid (hd s)"
    by (auto simp: payload_safe_def list_all_iff is_digit_def byte_def solid_def)
qed

lemma hex_not_blank:
  assumes "bs \<noteq> []"
  shows "\<not> blank (cl_hex_lower bs)"
proof -
  obtain b bs' where bs: "bs = b # bs'" using assms by (cases bs) auto
  let ?c = "''0123456789abcdef'' ! unat (and b 15)"
  have "and b 15 = take_bit 4 b" by (simp add: take_bit_eq_mask mask_eq_exp_minus_1)
  then have "unat (and b 15) < 2 ^ 4" by (simp only: unsigned_take_bit_eq take_bit_nat_less_exp)
  then have "unat (and b 15) < length ''0123456789abcdef''" by simp
  then have "?c \<in> set ''0123456789abcdef''" by (rule nth_mem)
  then have "solid ?c" by (auto simp: solid_def byte_def)
  moreover have "?c \<in> set (cl_hex_lower bs)" by (simp add: bs cl_hex_lower_def)
  ultimately show ?thesis by (rule not_blank_solid)
qed

lemma iso_list_texts:
  "\<not> blank ''iso-4217''" "\<not> blank ''sha256:identity''" "is_valid_date ''2024-01-01''"
  "\<not> blank ''https://www.six-group.com/en/products-services/financial-information/data-standards.html''"
  "payload_safe ''iso-4217''" "payload_safe ''2024-01-01''"
  "payload_safe ''https://www.six-group.com/en/products-services/financial-information/data-standards.html''"
  by (rule not_blank_solid [of "CHR ''i''"], simp add: solid_def byte_def, simp)
     (rule not_blank_solid [of "CHR ''i''"], simp add: solid_def byte_def, simp, code_simp,
      rule not_blank_solid [of "CHR ''h''"], simp add: solid_def byte_def, simp, simp_all add: payload_safe_def)

text \<open>A manifest built for ISO 4217 passes its own verification exactly when every label is present and
  no label or code contains a separator of the signed payload; the reader lets the others through.
\<close>

theorem built_manifest_verifies_iff:
  assumes "source_for ''iso-4217'' = Inr spec" "build_manifest sha256 spec raw retrieved_at = Inr m"
    and "\<And>t. length (sha256 t) = 32"
  shows "manifest_verify sha256 m = Inr () \<longleftrightarrow>
    list_all (\<lambda>e. \<not> blank (ent_label e) \<and> payload_safe (ent_label e) \<and> payload_safe (ent_code e)) (mf_entries m)"
proof -
  have spec: "spec = hd builtin_sources" using assms(1) by (simp add: source_for_def builtin_sources_def)
  from assms(2) obtain es where d: "is_iso_date retrieved_at" and es: "normalize_iso_4217_csv raw = Inr es"
    and m: "mf_list m = ''iso-4217''" "mf_version m = str_replace ''{RETRIEVED_AT}'' retrieved_at ''iso-4217-{RETRIEVED_AT}''"
      "mf_effective_from m = ''2024-01-01''" "mf_effective_to m = None"
      "mf_source_url m = ''https://www.six-group.com/en/products-services/financial-information/data-standards.html''"
      "mf_retrieved_at m = retrieved_at" "mf_signature_alg m = ''sha256:identity''" "mf_entries m = es"
      "mf_signature m = expected_signature sha256 m"
    by (auto simp: build_manifest_def spec builtin_sources_def rbind_Inr_iff Let_def expected_signature_def
        signing_payload_def split: if_splits)
  have v: "mf_version m = ''iso-4217-'' @ retrieved_at" unfolding m(2) by simp
  note safe = is_iso_date_safe [OF d]
  have "retrieved_at \<noteq> []" using d by (auto simp: is_iso_date_def split: if_splits)
  note nb = not_blank_solid [OF safe(2) hd_in_set [OF this]]
  have nb_v: "\<not> blank (''iso-4217-'' @ retrieved_at)"
    by (rule not_blank_solid [of "CHR ''i''"]) (simp_all add: solid_def byte_def)
  have sig: "\<not> blank (mf_signature m)"
    unfolding m expected_signature_def by (rule hex_not_blank) (metis assms(3) list.size(3) zero_neq_numeral)
  note norm = normalize_Inr [OF es]
  have entries: "list_all cl_entry_ok es \<longleftrightarrow>
      list_all (\<lambda>e. \<not> blank (ent_label e) \<and> payload_safe (ent_label e) \<and> payload_safe (ent_code e)) es"
    by (rule list.pred_cong [OF refl]) (use norm(2) in \<open>simp add: list_all_iff source_entry_ok_iff\<close>)
  have "manifest_ok m \<longleftrightarrow> list_all cl_entry_ok es"
    using nb nb_v sig safe(1) norm(1,3)
    by (simp add: manifest_ok_def m v iso_list_texts date_text_ok_def del: m(9)) (simp add: payload_safe_def)
  then show ?thesis
    by (simp add: entries m manifest_verify_def rbind_Inr_iff manifest_validate_iff Let_def)
qed

text \<open>A label with a semicolon is read, built and signed, and the manifest then fails its verification.\<close>

theorem built_manifest_verifies_iff_witness:
  "\<exists>m. build_manifest (\<lambda>_. replicate 32 0) (hd builtin_sources)
      (''code,label,numeric,minor_units'' @ [CHR 0x0A] @ ''BTN,a;b,064,2'') ''2024-06-01'' = Inr m
    \<and> manifest_verify (\<lambda>_. replicate 32 0) m \<noteq> Inr ()"
proof -
  obtain m where m: "build_manifest (\<lambda>_. replicate 32 0) (hd builtin_sources)
      (''code,label,numeric,minor_units'' @ [CHR 0x0A] @ ''BTN,a;b,064,2'') ''2024-06-01'' = Inr m"
    and e: "map ent_label (mf_entries m) = [''a;b'']"
  proof -
    have "rbind (build_manifest (\<lambda>_. replicate 32 0) (hd builtin_sources)
      (''code,label,numeric,minor_units'' @ [CHR 0x0A] @ ''BTN,a;b,064,2'') ''2024-06-01'')
      (\<lambda>m. Inr (map ent_label (mf_entries m))) = Inr [''a;b'']" by code_simp
    then show ?thesis by (auto simp: rbind_Inr_iff intro: that)
  qed
  have "source_for ''iso-4217'' = Inr (hd builtin_sources)" by (simp add: source_for_def builtin_sources_def)
  from built_manifest_verifies_iff [OF this m] have "manifest_verify (\<lambda>_. replicate 32 0) m \<noteq> Inr ()"
    using e by (auto simp: map_eq_Cons_conv payload_safe_def)
  with m show ?thesis by blast
qed

end
