(* ===== verification/Json_Value.thy ===== *)
theory Json_Value
  imports Main
begin

text \<open>
  \<open>serde_json::Value\<close> as the crates \<open>rulepack\<close> and \<open>validate\<close> carry it: a number is kept as its text, an
  object as its members.
\<close>

datatype serde_value =
    SNull
  | SBool bool
  | SNumber string
  | SString string
  | SArray "serde_value list"
  | SObject "(string \<times> serde_value) list"

fun json_get :: "serde_value \<Rightarrow> string \<Rightarrow> serde_value option" where
  "json_get (SObject ms) key = map_of ms key"
| "json_get _ key = None"

fun json_as_array :: "serde_value \<Rightarrow> serde_value list option" where
  "json_as_array (SArray vs) = Some vs"
| "json_as_array _ = None"

fun json_as_str :: "serde_value \<Rightarrow> string option" where
  "json_as_str (SString s) = Some s"
| "json_as_str _ = None"

end
