(* ===== verification/Validation_Result.thy ===== *)
theory Validation_Result
  imports Rust_Str Sequences Rust_Map Json_Value
begin

text \<open>
  \<open>crates/validate/src/lib.rs\<close>: the typed result of a rule, its checked parts, and the explain plan that
  says for every rule of an inventory what was decided.  JSON schemas and serialisation are not modelled;
  the text of the inputs in the Markdown report is a parameter.
\<close>

section \<open>Results\<close>

datatype validate_error =
    BlankField string
  | InvalidBusinessTerm string
  | InvalidLocation string

definition val_non_blank :: "string \<Rightarrow> string \<Rightarrow> validate_error + unit" where
  "val_non_blank v field = (if trim v = [] then Inl (BlankField field) else Inr ())"

definition is_term_code :: "string \<Rightarrow> string \<Rightarrow> bool" where
  "is_term_code code prefix =
     (case strip_prefix prefix code of
        None \<Rightarrow> False
      | Some rest \<Rightarrow>
          (case strip_prefix ''-'' rest of
             None \<Rightarrow> False
           | Some digits \<Rightarrow> digits \<noteq> [] \<and> list_all is_digit digits \<and> digits \<noteq> ''0''))"

datatype rule_id = RuleId (rule_str: string)

definition rule_id_new :: "string \<Rightarrow> validate_error + rule_id" where
  "rule_id_new v = rbind (val_non_blank v ''rule_id'') (\<lambda>_. Inr (RuleId v))"

datatype severity = Fatal | Error | Warning | Info

datatype business_term = BusinessTerm (term_code: string) | BusinessGroup (term_code: string)

definition business_term_new :: "string \<Rightarrow> validate_error + business_term" where
  "business_term_new code =
     (if \<not> is_term_code code ''BT'' then Inl (InvalidBusinessTerm code) else Inr (BusinessTerm code))"

definition business_group_new :: "string \<Rightarrow> validate_error + business_term" where
  "business_group_new code =
     (if \<not> is_term_code code ''BG'' then Inl (InvalidBusinessTerm code) else Inr (BusinessGroup code))"

datatype location = JsonPointer string | XPath string

definition json_pointer_new :: "string \<Rightarrow> validate_error + location" where
  "json_pointer_new pointer =
     (if pointer \<noteq> [] \<and> hd pointer \<noteq> CHR ''/'' then Inl (InvalidLocation pointer) else Inr (JsonPointer pointer))"

definition xpath_new :: "string \<Rightarrow> validate_error + location" where
  "xpath_new expr = (if trim expr = [] then Inl (InvalidLocation expr) else Inr (XPath expr))"

record suggested_fix =
  fix_summary :: string
  fix_patch :: "string option"

definition suggested_fix_new :: "string \<Rightarrow> validate_error + suggested_fix" where
  "suggested_fix_new summary =
     rbind (val_non_blank summary ''suggested_fix.summary'')
       (\<lambda>_. Inr \<lparr>fix_summary = summary, fix_patch = None\<rparr>)"

record citation =
  cit_source :: string
  cit_section :: string
  cit_url :: "string option"

definition citation_new :: "string \<Rightarrow> string \<Rightarrow> string option \<Rightarrow> validate_error + citation" where
  "citation_new source sect url =
     rbind (val_non_blank source ''citation.source'') (\<lambda>_.
     rbind (val_non_blank sect ''citation.section'') (\<lambda>_.
       Inr \<lparr>cit_source = source, cit_section = sect, cit_url = url\<rparr>))"

record validation_trace =
  vt_backend :: string
  vt_trace_id :: string
  vt_details :: serde_value

definition validation_trace_new :: "string \<Rightarrow> string \<Rightarrow> validate_error + validation_trace" where
  "validation_trace_new backend trace_id =
     rbind (val_non_blank backend ''trace.backend'') (\<lambda>_.
     rbind (val_non_blank trace_id ''trace.trace_id'') (\<lambda>_.
       Inr \<lparr>vt_backend = backend, vt_trace_id = trace_id, vt_details = SNull\<rparr>))"

record validation_result =
  vr_rule_id :: rule_id
  vr_severity :: severity
  vr_term :: business_term
  vr_location :: location
  vr_suggested_fix :: "suggested_fix option"
  vr_citation :: citation
  vr_trace :: "validation_trace option"

definition validation_result_new :: "rule_id \<Rightarrow> severity \<Rightarrow> business_term \<Rightarrow> location \<Rightarrow> citation \<Rightarrow> validation_result" where
  "validation_result_new rule sev t loc cit =
     \<lparr>vr_rule_id = rule, vr_severity = sev, vr_term = t, vr_location = loc, vr_suggested_fix = None,
      vr_citation = cit, vr_trace = None\<rparr>"

definition with_suggested_fix :: "suggested_fix \<Rightarrow> validation_result \<Rightarrow> validation_result" where
  "with_suggested_fix f r = r\<lparr>vr_suggested_fix := Some f\<rparr>"

definition with_trace :: "validation_trace \<Rightarrow> validation_result \<Rightarrow> validation_result" where
  "with_trace t r = r\<lparr>vr_trace := Some t\<rparr>"

section \<open>The explain plan\<close>

datatype decision = Pass | DecInfo | DecWarning | Fail

fun decision_as_str :: "decision \<Rightarrow> string" where
  "decision_as_str Pass = ''pass''"
| "decision_as_str DecInfo = ''info''"
| "decision_as_str DecWarning = ''warning''"
| "decision_as_str Fail = ''fail''"

record evaluation_step =
  step_rule_id :: rule_id
  step_path :: string
  step_inputs :: "(string, serde_value) btree"
  step_decision :: decision
  step_citations :: "citation list"

record explain_plan =
  plan_schema_version :: string
  plan_backend :: string
  plan_trace_id :: string
  plan_steps :: "evaluation_step list"

definition explain_plan_new :: "string \<Rightarrow> string \<Rightarrow> evaluation_step list \<Rightarrow> validate_error + explain_plan" where
  "explain_plan_new backend trace_id steps =
     rbind (val_non_blank backend ''explain_plan.backend'') (\<lambda>_.
     rbind (val_non_blank trace_id ''explain_plan.trace_id'') (\<lambda>_.
       Inr \<lparr>plan_schema_version = ''1.0'', plan_backend = backend, plan_trace_id = trace_id, plan_steps = steps\<rparr>))"

definition evaluation_step_new :: "rule_id \<Rightarrow> string \<Rightarrow> decision \<Rightarrow> citation list \<Rightarrow> validate_error + evaluation_step" where
  "evaluation_step_new rule path dec cits =
     rbind (val_non_blank path ''explain_plan.evaluated_at_path'') (\<lambda>_.
       Inr \<lparr>step_rule_id = rule, step_path = path, step_inputs = [], step_decision = dec, step_citations = cits\<rparr>)"

definition with_input :: "string \<Rightarrow> serde_value \<Rightarrow> evaluation_step \<Rightarrow> evaluation_step" where
  "with_input name v step = step\<lparr>step_inputs := btree_insert name v (step_inputs step)\<rparr>"

definition strongest_decision :: "validation_result list \<Rightarrow> decision" where
  "strongest_decision fs =
     (if list_ex (\<lambda>f. vr_severity f \<in> {Fatal, Error}) fs then Fail
      else if list_ex (\<lambda>f. vr_severity f = Warning) fs then DecWarning else DecInfo)"

fun location_path :: "location \<Rightarrow> string" where
  "location_path (JsonPointer p) = p"
| "location_path (XPath e) = e"

definition evaluate_rule :: "(string \<Rightarrow> validate_error + citation) \<Rightarrow> validation_result list \<Rightarrow> string
    \<Rightarrow> validate_error + evaluation_step" where
  "evaluate_rule fallback findings rule =
     (let matching = filter (\<lambda>f. rule_str (vr_rule_id f) = rule) findings
      in rbind (if matching = []
                then rbind (fallback rule) (\<lambda>c. Inr (Pass, ''/'', [c]))
                else Inr (strongest_decision matching, location_path (vr_location (hd matching)),
                          map vr_citation matching))
           (\<lambda>(dec, path, cits).
              rbind (rule_id_new rule) (\<lambda>r.
              rbind (evaluation_step_new r path dec cits) (\<lambda>step.
                Inr (with_input ''finding_count'' (SNumber (show_nat (length matching))) step)))))"

definition explain_plan_from_results :: "string \<Rightarrow> string \<Rightarrow> string list \<Rightarrow> validation_result list
    \<Rightarrow> (string \<Rightarrow> validate_error + citation) \<Rightarrow> validate_error + explain_plan" where
  "explain_plan_from_results backend trace_id rules findings fallback =
     rbind (collect (map (evaluate_rule fallback findings) rules)) (explain_plan_new backend trace_id)"

definition escape_markdown_cell :: "string \<Rightarrow> string" where
  "escape_markdown_cell v =
     map (\<lambda>c. if c = CHR 0x0A then CHR '' '' else c)
       (concat (map (\<lambda>c. if c = CHR ''|'' then [CHR 0x5C, CHR ''|''] else [c]) v))"

definition to_markdown_cell :: "citation \<Rightarrow> string" where
  "to_markdown_cell c =
     (case cit_url c of
        None \<Rightarrow> escape_markdown_cell (cit_source c) @ '' '' @ escape_markdown_cell (cit_section c)
      | Some url \<Rightarrow> escape_markdown_cell (cit_source c) @ '' '' @ escape_markdown_cell (cit_section c)
                    @ '' ('' @ escape_markdown_cell url @ '')'')"

definition step_markdown :: "((string, serde_value) btree \<Rightarrow> string) \<Rightarrow> evaluation_step \<Rightarrow> string" where
  "step_markdown inputs_json step =
     ''| '' @ rule_str (step_rule_id step) @ '' | '' @ decision_as_str (step_decision step)
     @ '' | `'' @ escape_markdown_cell (step_path step) @ ''` | ''
     @ join ''<br>'' (map to_markdown_cell (step_citations step)) @ '' |'' @ [CHR 0x0A]
     @ (if step_inputs step \<noteq> []
        then ''|  | inputs |  | `'' @ escape_markdown_cell (inputs_json (step_inputs step)) @ ''` |'' @ [CHR 0x0A]
        else [])"

definition to_markdown :: "((string, serde_value) btree \<Rightarrow> string) \<Rightarrow> explain_plan \<Rightarrow> string" where
  "to_markdown inputs_json plan =
     ''# Validation Explain Plan'' @ [CHR 0x0A, CHR 0x0A]
     @ ''- Schema: '' @ plan_schema_version plan @ [CHR 0x0A]
     @ ''- Backend: '' @ plan_backend plan @ [CHR 0x0A]
     @ ''- Trace: '' @ plan_trace_id plan @ [CHR 0x0A]
     @ ''- Rules evaluated: '' @ show_nat (length (plan_steps plan)) @ [CHR 0x0A, CHR 0x0A]
     @ ''| Rule | Decision | Evaluated at | Citations |'' @ [CHR 0x0A]
     @ ''| --- | --- | --- | --- |'' @ [CHR 0x0A]
     @ concat (map (step_markdown inputs_json) (plan_steps plan))"

section \<open>What the plan says\<close>

lemma val_non_blank_iff [simp]: "val_non_blank v f = Inr u \<longleftrightarrow> \<not> blank v"
  by (simp add: val_non_blank_def blank_def)

lemma rule_id_new_iff: "rule_id_new v = Inr r \<longleftrightarrow> \<not> blank v \<and> r = RuleId v"
  by (auto simp: rule_id_new_def rbind_Inr_iff)

definition matching :: "string \<Rightarrow> validation_result list \<Rightarrow> validation_result list" where
  "matching rule findings = filter (\<lambda>f. rule_str (vr_rule_id f) = rule) findings"

definition expected_decision :: "validation_result list \<Rightarrow> decision" where
  "expected_decision fs =
     (if fs = [] then Pass
      else if list_ex (\<lambda>f. vr_severity f = Fatal \<or> vr_severity f = Error) fs then Fail
      else if list_ex (\<lambda>f. vr_severity f = Warning) fs then DecWarning else DecInfo)"

definition first_path :: "validation_result list \<Rightarrow> string" where
  "first_path fs = (case fs of [] \<Rightarrow> ''/'' | f # _ \<Rightarrow> location_path (vr_location f))"

lemma evaluate_rule_Inr_iff:
  "evaluate_rule fallback findings rule = Inr step \<longleftrightarrow>
     \<not> blank rule \<and> \<not> blank (first_path (matching rule findings))
     \<and> (\<exists>cits. (if matching rule findings = [] then (\<exists>c. fallback rule = Inr c \<and> cits = [c])
                else cits = map vr_citation (matching rule findings))
          \<and> step = \<lparr>step_rule_id = RuleId rule, step_path = first_path (matching rule findings),
                    step_inputs = [(''finding_count'', SNumber (show_nat (length (matching rule findings))))],
                    step_decision = expected_decision (matching rule findings), step_citations = cits\<rparr>)"
proof (cases "matching rule findings")
  case Nil
  then show ?thesis
    by (auto simp: evaluate_rule_def matching_def [symmetric] Let_def rbind_Inr_iff rule_id_new_iff
        evaluation_step_new_def with_input_def first_path_def expected_decision_def)
next
  case (Cons f fs)
  have dec: "strongest_decision (f # fs) = expected_decision (f # fs)"
    unfolding strongest_decision_def expected_decision_def by simp
  show ?thesis unfolding evaluate_rule_def matching_def [symmetric] Let_def Cons dec
    by (auto simp: rbind_Inr_iff rule_id_new_iff evaluation_step_new_def with_input_def first_path_def)
qed

definition reported_count :: "evaluation_step \<Rightarrow> nat" where
  "reported_count step =
     (case map_of (step_inputs step) ''finding_count'' of
        Some (SNumber t) \<Rightarrow> (case parse_digits t of Some n \<Rightarrow> n | None \<Rightarrow> 0) | _ \<Rightarrow> 0)"

lemma evaluate_rule_step:
  assumes "evaluate_rule fallback findings rule = Inr step"
  shows "rule_str (step_rule_id step) = rule" "reported_count step = length (matching rule findings)"
    "step_decision step = expected_decision (matching rule findings)"
    "step_path step = first_path (matching rule findings)"
  using assms by (auto simp: evaluate_rule_Inr_iff reported_count_def parse_digits_show_nat)

lemma one_match:
  "distinct rs \<Longrightarrow> x \<in> set rs \<Longrightarrow> sum_list (map (\<lambda>r. if x = r then 1 else 0) rs) = (1 :: nat)"
proof (induction rs)
  case (Cons r rs)
  have "sum_list (map (\<lambda>r. if x = r then 1 else 0) rs) = (0 :: nat)" if "x \<notin> set rs"
    using that by (induction rs) auto
  with Cons show ?case by auto
qed simp

lemma sum_matching:
  assumes "distinct rules" "\<forall>f \<in> set findings. rule_str (vr_rule_id f) \<in> set rules"
  shows "sum_list (map (\<lambda>r. length (matching r findings)) rules) = length findings"
  using assms(2)
proof (induction findings)
  case (Cons f fs)
  have "sum_list (map (\<lambda>r. if rule_str (vr_rule_id f) = r then 1 else 0) rules) = (1 :: nat)"
    using one_match [OF assms(1)] Cons.prems by simp
  moreover have "length (matching r (f # fs)) = (if rule_str (vr_rule_id f) = r then 1 else 0) + length (matching r fs)" for r
    by (simp add: matching_def)
  ultimately show ?case using Cons by (simp add: sum_list_addf)
qed (simp add: matching_def)

lemma explain_plan_steps:
  assumes "explain_plan_from_results backend trace_id rules findings fallback = Inr plan"
  shows "map (\<lambda>s. (rule_str (step_rule_id s), step_decision s)) (plan_steps plan)
      = map (\<lambda>r. (r, expected_decision (matching r findings))) rules
    \<and> (if distinct rules \<and> list_all (\<lambda>f. rule_str (vr_rule_id f) \<in> set rules) findings
       then sum_list (map reported_count (plan_steps plan)) = length findings else True)"
proof -
  obtain steps where "map (evaluate_rule fallback findings) rules = map Inr steps" "plan_steps plan = steps"
    using assms by (auto simp: explain_plan_from_results_def explain_plan_new_def rbind_Inr_iff collect_Inr_iff)
  then have all: "list_all2 (\<lambda>r s. evaluate_rule fallback findings r = Inr s) rules (plan_steps plan)"
    by (simp add: list_all2_conv_all_nth map_equality_iff)
  from this have "map (\<lambda>s. (rule_str (step_rule_id s), step_decision s)) (plan_steps plan)
      = map (\<lambda>r. (r, expected_decision (matching r findings))) rules"
    "map reported_count (plan_steps plan) = map (\<lambda>r. length (matching r findings)) rules"
    by (induction rule: list_all2_induct) (simp_all add: evaluate_rule_step)
  then show ?thesis using sum_matching [of rules findings] by (simp add: list_all_iff)
qed

text \<open>An explain plan accounts for the run: it has one step for each rule of the inventory, in order; a
  step fails exactly on an error or fatal finding of its rule, else warns on a warning, and passes
  exactly without findings; and with every finding in the inventory the counts add up to the findings.
\<close>

theorem explain_plan_accounts:
  assumes "explain_plan_from_results backend trace_id rules findings fallback = Inr plan"
  shows "map (\<lambda>s. (rule_str (step_rule_id s), step_decision s)) (plan_steps plan)
      = map (\<lambda>r. (r, expected_decision (matching r findings))) rules
    \<and> (if distinct rules \<and> list_all (\<lambda>f. rule_str (vr_rule_id f) \<in> set rules) findings
       then sum_list (map reported_count (plan_steps plan)) = length findings else True)"
  by (rule explain_plan_steps [OF assms])

text \<open>
  A plan is built exactly when the texts are not blank, every rule without a finding has a citation,
  and no rule's first finding is at the empty JSON pointer or another blank path.
\<close>

theorem explain_plan_ok_iff:
  "is_ok (explain_plan_from_results backend trace_id rules findings fallback) \<longleftrightarrow>
     \<not> blank backend \<and> \<not> blank trace_id
     \<and> list_all (\<lambda>r. \<not> blank r \<and> \<not> blank (first_path (matching r findings))
                   \<and> (if matching r findings = [] then is_ok (fallback r) else True)) rules"
proof -
  have one: "is_ok (evaluate_rule fallback findings r) \<longleftrightarrow> \<not> blank r \<and> \<not> blank (first_path (matching r findings))
      \<and> (if matching r findings = [] then is_ok (fallback r) else True)" for r
    by (auto simp: is_ok_iff evaluate_rule_Inr_iff)
  have all: "is_ok (collect rs) \<longleftrightarrow> list_all is_ok rs" for rs :: "(validate_error + evaluation_step) list"
    by (induction rs) (auto simp: is_ok_iff rbind_Inr_iff)
  have "is_ok (rbind r (explain_plan_new backend trace_id)) \<longleftrightarrow> is_ok r \<and> \<not> blank backend \<and> \<not> blank trace_id"
    for r by (cases r) (auto simp: is_ok_iff explain_plan_new_def rbind_Inr_iff)
  then show ?thesis
    by (auto simp: explain_plan_from_results_def all list.pred_map one comp_def)
qed

text \<open>A finding at the document root, which \<open>json_pointer\<close> accepts, makes the plan fail.\<close>

theorem root_finding_has_no_plan:
  "\<exists>loc f. json_pointer_new [] = Inr loc
     \<and> f = validation_result_new (RuleId ''R'') Error (BusinessTerm ''BT-1'') loc
         \<lparr>cit_source = ''s'', cit_section = ''c'', cit_url = None\<rparr>
     \<and> explain_plan_from_results ''b'' ''t'' [''R''] [f] (\<lambda>r. citation_new ''s'' r None)
         = Inl (BlankField ''explain_plan.evaluated_at_path'')"
proof -
  have "\<not> blank ''R''" by (rule not_blank_solid [of "CHR ''R''"]) (simp_all add: solid_def byte_def)
  then show ?thesis
    by (simp add: json_pointer_new_def explain_plan_from_results_def evaluate_rule_def Let_def
        validation_result_new_def rule_id_new_def evaluation_step_new_def val_non_blank_def blank_def)
qed

theorem explain_plan_accounts_witness:
  "\<exists>plan. explain_plan_from_results ''b'' ''t'' [''Q'', ''R'']
       [validation_result_new (RuleId ''R'') Error (BusinessTerm ''BT-1'') (XPath ''/x'')
         \<lparr>cit_source = ''s'', cit_section = ''c'', cit_url = None\<rparr>] (\<lambda>r. citation_new ''s'' ''c'' None) = Inr plan
     \<and> map step_decision (plan_steps plan) = [Pass, Fail] \<and> sum_list (map reported_count (plan_steps plan)) = 1"
proof -
  let ?fs = "[validation_result_new (RuleId ''R'') Error (BusinessTerm ''BT-1'') (XPath ''/x'')
         \<lparr>cit_source = ''s'', cit_section = ''c'', cit_url = None\<rparr>]"
  have nb: "\<not> blank (a # s)" if "solid a" for a s using that by (intro not_blank_solid [of a]) auto
  have "is_ok (explain_plan_from_results ''b'' ''t'' [''Q'', ''R''] ?fs (\<lambda>r. citation_new ''s'' ''c'' None))"
    unfolding explain_plan_ok_iff
    by (simp add: nb solid_def byte_def first_path_def matching_def validation_result_new_def citation_new_def
        val_non_blank_def blank_def [symmetric])
  then obtain plan where plan: "explain_plan_from_results ''b'' ''t'' [''Q'', ''R''] ?fs (\<lambda>r. citation_new ''s'' ''c'' None) = Inr plan"
    by (auto simp: is_ok_iff)
  from explain_plan_accounts [OF plan]
  have "map (\<lambda>s. (rule_str (step_rule_id s), step_decision s)) (plan_steps plan) = [(''Q'', Pass), (''R'', Fail)]"
    "sum_list (map reported_count (plan_steps plan)) = 1"
    by (simp_all add: matching_def expected_decision_def validation_result_new_def)
  from arg_cong [OF this(1), of "map snd"] this(2) plan show ?thesis by (auto simp: comp_def)
qed

end
