(* ===== verification/Rulepack.thy ===== *)
theory Rulepack
  imports Rust_Map Constant_Time Maxima Json_Value "HOL-Library.Product_Lexorder"
begin

text \<open>
  \<open>crates/rulepack/src/lib.rs\<close> and \<open>hot_reload.rs\<close>: signed, effective-dated rule packs, the registry
  that selects one, and the registry that is reloaded from a directory.  BLAKE3, the JSON reader and
  printer and the file system are parameters.
\<close>

section \<open>Manifests\<close>

record parity_fixtures =
  pf_oracle :: string
  pf_fixture_set_id :: string
  pf_expected_parity_pct :: string

record generated_metadata =
  gm_generator :: string
  gm_generated_at :: string
  gm_notes :: string

record rp_manifest =
  rp_rulepack_id :: string
  rp_country :: string
  rp_profile :: string
  rp_upstream_version :: string
  rp_effective_from :: string
  rp_effective_to :: "string option"
  rp_source_url :: string
  rp_retrieved_at :: string
  rp_codelist_versions :: "(string, string) btree"
  rp_upstream_checksum :: string
  rp_generated_metadata :: generated_metadata
  rp_parity_fixtures :: parity_fixtures
  rp_known_gaps :: "string list"
  rp_signature_alg :: string
  rp_signature :: string
  rp_body :: serde_value

datatype rulepack_error =
    UnknownSignatureScheme string string
  | RpSignatureMismatch string string string
  | InvalidEffectiveWindow string string string
  | SeedManifestInvalid string rulepack_error
  | RpJson string

text \<open>\<open>serde_json::from_str\<close>, \<open>serde_json::to_vec\<close> of a value and \<open>blake3::hash(..).to_hex()\<close>.\<close>

record rulepack_ops =
  rpo_from_str :: "string \<Rightarrow> string + rp_manifest"
  rpo_to_vec :: "serde_value \<Rightarrow> string + string"
  rpo_blake3_hex :: "string \<Rightarrow> string"

definition rp_constant_time_eq :: "string \<Rightarrow> string \<Rightarrow> bool" where
  "rp_constant_time_eq left right = (ct_diff left right = 0)"

definition zero_blake3_hex :: string where
  "zero_blake3_hex = replicate 64 (CHR ''0'')"

definition verify_blake3_identity :: "rulepack_ops \<Rightarrow> rp_manifest \<Rightarrow> rulepack_error + unit" where
  "verify_blake3_identity ops m =
     (case rpo_to_vec ops (rp_body m) of
        Inl e \<Rightarrow> Inl (RpJson e)
      | Inr canonical \<Rightarrow>
          let actual = rpo_blake3_hex ops canonical in
          if rp_constant_time_eq (rp_signature m) zero_blake3_hex
          then (if rp_body m = SObject [(''rules'', SArray [])] then Inr ()
                else Inl (RpSignatureMismatch (rp_rulepack_id m) actual (rp_signature m)))
          else if rp_constant_time_eq actual (rp_signature m) then Inr ()
          else Inl (RpSignatureMismatch (rp_rulepack_id m) actual (rp_signature m)))"

definition rp_verify :: "rulepack_ops \<Rightarrow> rp_manifest \<Rightarrow> rulepack_error + unit" where
  "rp_verify ops m =
     (case rp_effective_to m of
        Some end' \<Rightarrow>
          if end' < rp_effective_from m
          then Inl (InvalidEffectiveWindow (rp_rulepack_id m) (rp_effective_from m) end')
          else if rp_signature_alg m = ''blake3:identity'' then verify_blake3_identity ops m
          else Inl (UnknownSignatureScheme (rp_rulepack_id m) (rp_signature_alg m))
      | None \<Rightarrow>
          if rp_signature_alg m = ''blake3:identity'' then verify_blake3_identity ops m
          else Inl (UnknownSignatureScheme (rp_rulepack_id m) (rp_signature_alg m)))"

definition rp_from_json :: "rulepack_ops \<Rightarrow> string \<Rightarrow> rulepack_error + rp_manifest" where
  "rp_from_json ops raw =
     (case rpo_from_str ops raw of
        Inl e \<Rightarrow> Inl (RpJson e)
      | Inr m \<Rightarrow> rbind (rp_verify ops m) (\<lambda>_. Inr m))"

definition rp_covers :: "rp_manifest \<Rightarrow> string \<Rightarrow> bool" where
  "rp_covers m on_date =
     (if on_date < rp_effective_from m then False
      else case rp_effective_to m of None \<Rightarrow> True | Some end' \<Rightarrow> on_date \<le> end')"

section \<open>The registry\<close>

type_synonym rp_registry = "rp_manifest list"

definition rp_seeded :: "rulepack_ops \<Rightarrow> (string \<times> string) list \<Rightarrow> rulepack_error + rp_registry" where
  "rp_seeded ops seeds =
     collect (map (\<lambda>(slug, raw). case rp_from_json ops raw of
        Inl e \<Rightarrow> Inl (SeedManifestInvalid slug e) | Inr m \<Rightarrow> Inr m) seeds)"

definition rp_insert :: "rulepack_ops \<Rightarrow> rp_manifest \<Rightarrow> rp_registry \<Rightarrow> rulepack_error + rp_registry" where
  "rp_insert ops m reg = rbind (rp_verify ops m) (\<lambda>_. Inr (reg @ [m]))"

definition pack_eligible :: "string \<Rightarrow> string \<Rightarrow> string \<Rightarrow> rp_manifest \<Rightarrow> bool" where
  "pack_eligible country profile on_date m \<longleftrightarrow>
     rp_profile m = profile \<and> (rp_country m = country \<or> rp_country m = ''global'') \<and> rp_covers m on_date"

definition compare_packs :: "string \<Rightarrow> rp_manifest \<Rightarrow> rp_manifest \<Rightarrow> ordering" where
  "compare_packs country left right =
     then_with (cmp_of (rp_country left = country) (rp_country right = country))
       (cmp_of (rp_effective_from left) (rp_effective_from right))"

definition pack_for :: "rp_registry \<Rightarrow> string \<Rightarrow> string \<Rightarrow> string \<Rightarrow> rp_manifest option" where
  "pack_for reg country profile on_date =
     max_by (compare_packs country) (filter (pack_eligible country profile on_date) reg)"

section \<open>Reloading from a directory\<close>

datatype hot_reload_error =
    HrReadDir string string
  | HrManifest string rulepack_error
  | HrWatcher string string

text \<open>The file system at one moment: the listing of the directory and the contents of its files.\<close>

record dir_view =
  dv_entries :: "string + (string + string) list"
  dv_read :: "string \<Rightarrow> string + string"

text \<open>\<open>Path::extension\<close>: what follows the last dot of the file name, which must not start with it.\<close>

definition path_file_name :: "string \<Rightarrow> string" where
  "path_file_name path = last (split_on CHR ''/'' path)"

definition path_extension :: "string \<Rightarrow> string option" where
  "path_extension path =
     (let name = rev (path_file_name path)
      in case split_once CHR ''.'' name of
           None \<Rightarrow> None | Some (ext, stem) \<Rightarrow> if stem = [] then None else Some (rev ext))"

definition is_json_path :: "string \<Rightarrow> bool" where
  "is_json_path path =
     (case path_extension path of None \<Rightarrow> False | Some ext \<Rightarrow> eq_ignore_case ext ''json'')"

fun load_files :: "rulepack_ops \<Rightarrow> string \<Rightarrow> dir_view \<Rightarrow> string list \<Rightarrow> rp_registry
    \<Rightarrow> hot_reload_error + rp_registry" where
  "load_files ops dir view [] reg = Inr reg"
| "load_files ops dir view (path # paths) reg =
     (case dv_read view path of
        Inl detail \<Rightarrow> Inl (HrReadDir dir detail)
      | Inr raw \<Rightarrow>
          (case rp_from_json ops raw of
             Inl e \<Rightarrow> Inl (HrManifest path e)
           | Inr m \<Rightarrow>
               (case rp_insert ops m reg of
                  Inl e \<Rightarrow> Inl (HrManifest path e)
                | Inr reg' \<Rightarrow> load_files ops dir view paths reg')))"

definition read_registry :: "rulepack_ops \<Rightarrow> string \<Rightarrow> dir_view \<Rightarrow> hot_reload_error + rp_registry" where
  "read_registry ops dir view =
     (case dv_entries view of
        Inl detail \<Rightarrow> Inl (HrReadDir dir detail)
      | Inr entries \<Rightarrow>
          (case collect entries of
             Inl detail \<Rightarrow> Inl (HrReadDir dir detail)
           | Inr paths \<Rightarrow> load_files ops dir view (sort (filter is_json_path paths)) []))"

record hot_registry =
  hr_inner :: rp_registry
  hr_dir :: string

definition load_from_dir :: "rulepack_ops \<Rightarrow> string \<Rightarrow> dir_view \<Rightarrow> hot_reload_error + hot_registry" where
  "load_from_dir ops dir view =
     rbind (read_registry ops dir view) (\<lambda>reg. Inr \<lparr>hr_inner = reg, hr_dir = dir\<rparr>)"

definition reload_now :: "rulepack_ops \<Rightarrow> dir_view \<Rightarrow> hot_registry \<Rightarrow> (hot_reload_error + unit) \<times> hot_registry" where
  "reload_now ops view h =
     (case read_registry ops (hr_dir h) view of
        Inl e \<Rightarrow> (Inl e, h)
      | Inr next' \<Rightarrow> (Inr (), h\<lparr>hr_inner := next'\<rparr>))"

text \<open>The loop of the watcher thread; a receive comes with whether the stop message was there after it.\<close>

datatype fs_event_kind = FsAny | FsAccess | FsCreate | FsModify | FsRemove | FsOther

definition is_relevant :: "fs_event_kind \<times> string list \<Rightarrow> bool" where
  "is_relevant ev =
     (fst ev \<in> {FsCreate, FsModify, FsRemove, FsAny} \<and> list_ex is_json_path (snd ev))"

datatype watch_receive =
    WatchEvent "fs_event_kind \<times> string list"
  | WatchError
  | WatchTimeout dir_view
  | WatchDisconnected

fun watch_loop :: "rulepack_ops \<Rightarrow> (watch_receive \<times> bool) list \<Rightarrow> bool \<Rightarrow> hot_registry
    \<Rightarrow> bool \<times> hot_registry" where
  "watch_loop ops [] pending h = (pending, h)"
| "watch_loop ops ((WatchDisconnected, stop) # rs) pending h = (pending, h)"
| "watch_loop ops ((WatchEvent ev, stop) # rs) pending h =
     (let p = (if is_relevant ev then True else pending)
      in if stop then (p, h) else watch_loop ops rs p h)"
| "watch_loop ops ((WatchError, stop) # rs) pending h =
     (if stop then (pending, h) else watch_loop ops rs pending h)"
| "watch_loop ops ((WatchTimeout view, stop) # rs) pending h =
     (let (p, h') = (if pending then (False, snd (reload_now ops view h)) else (pending, h))
      in if stop then (p, h') else watch_loop ops rs p h')"

section \<open>What verification accepts\<close>

lemma rp_constant_time_eq_iff:
  "length l < 2 ^ 64 \<Longrightarrow> length r < 2 ^ 64 \<Longrightarrow> rp_constant_time_eq l r \<longleftrightarrow> l = r"
  by (simp add: rp_constant_time_eq_def ct_diff_zero_iff)

text \<open>A rule pack is accepted exactly when its window is not reversed, its scheme is the BLAKE3 digest,
  and the signature is the digest of its body, or the all-zero placeholder on an empty body; the
  placeholder is refused on a body with rules even where it is the digest.
\<close>

theorem rp_verify_iff:
  assumes "length (rp_signature m) < 2 ^ 64" "\<And>t. length (rpo_blake3_hex ops t) = 64"
  shows "rp_verify ops m = Inr () \<longleftrightarrow>
    (case rp_effective_to m of None \<Rightarrow> True | Some t \<Rightarrow> rp_effective_from m \<le> t)
    \<and> rp_signature_alg m = ''blake3:identity''
    \<and> (case rpo_to_vec ops (rp_body m) of Inl e \<Rightarrow> False
       | Inr body \<Rightarrow> if rp_signature m = zero_blake3_hex then rp_body m = SObject [(''rules'', SArray [])]
                     else rp_signature m = rpo_blake3_hex ops body)"
proof -
  have "rp_constant_time_eq (rp_signature m) zero_blake3_hex \<longleftrightarrow> rp_signature m = zero_blake3_hex"
    "rp_constant_time_eq (rpo_blake3_hex ops t) (rp_signature m) \<longleftrightarrow> rp_signature m = rpo_blake3_hex ops t" for t
    using rp_constant_time_eq_iff [of "rp_signature m" zero_blake3_hex]
      rp_constant_time_eq_iff [of "rpo_blake3_hex ops t" "rp_signature m"] assms
    by (auto simp: zero_blake3_hex_def)
  then have v: "verify_blake3_identity ops m = Inr () \<longleftrightarrow> (case rpo_to_vec ops (rp_body m) of Inl e \<Rightarrow> False
       | Inr body \<Rightarrow> if rp_signature m = zero_blake3_hex then rp_body m = SObject [(''rules'', SArray [])]
                     else rp_signature m = rpo_blake3_hex ops body)"
    by (simp add: verify_blake3_identity_def Let_def split: sum.split)
  show ?thesis unfolding rp_verify_def
    by (cases "rp_effective_to m") (auto simp: v)
qed

section \<open>Which pack is selected\<close>

text \<open>
  The pack that is selected is the last registered one among the eligible packs with the greatest
  pair of exact country and effective date: a country's own pack before the global one, then the latest.
\<close>

theorem pack_for_selects:
  "pack_for reg country profile on_date =
     first_max (\<lambda>m. (rp_country m = country, rp_effective_from m))
       (rev (filter (pack_eligible country profile on_date) reg))"
  unfolding pack_for_def
  by (rule max_by_first_max) (auto simp: compare_packs_def then_with_def cmp_of_def less_prod_def' split: if_splits)

section \<open>Reloading\<close>

lemma rp_insert_Inr_iff: "rp_insert ops m reg = Inr reg' \<longleftrightarrow> rp_verify ops m = Inr () \<and> reg' = reg @ [m]"
  by (auto simp: rp_insert_def rbind_Inr_iff)

lemma load_files_verified:
  "load_files ops dir view paths reg = Inr reg' \<Longrightarrow> list_all (\<lambda>m. rp_verify ops m = Inr ()) reg
     \<Longrightarrow> list_all (\<lambda>m. rp_verify ops m = Inr ()) reg'"
  by (induction ops dir view paths reg rule: load_files.induct)
     (auto simp: rp_insert_Inr_iff split: sum.splits)

lemma read_registry_verified:
  "read_registry ops dir view = Inr reg \<Longrightarrow> list_all (\<lambda>m. rp_verify ops m = Inr ()) reg"
  by (auto simp: read_registry_def load_files_verified split: sum.splits)

definition all_verified :: "rulepack_ops \<Rightarrow> rp_registry \<Rightarrow> bool" where
  "all_verified ops reg = list_all (\<lambda>m. rp_verify ops m = Inr ()) reg"

lemma load_files_all:
  "load_files ops dir view paths reg = Inr reg' \<Longrightarrow> length reg' = length reg + length paths"
  by (induction ops dir view paths reg rule: load_files.induct)
     (auto simp: rp_insert_Inr_iff split: sum.splits)

lemma reload_now_cases:
  obtains (kept) e where "reload_now ops view h = (Inl e, h)"
  | (read) reg where "read_registry ops (hr_dir h) view = Inr reg" "reload_now ops view h = (Inr (), h\<lparr>hr_inner := reg\<rparr>)"
  by (cases "read_registry ops (hr_dir h) view") (auto simp: reload_now_def)

text \<open>
  A registry is a complete reading of a directory when the listing succeeded and it has one pack for each JSON
  file, in the order of the paths: what the file's text denotes, and that passes verification.
\<close>

definition complete_reading :: "rulepack_ops \<Rightarrow> dir_view \<Rightarrow> rp_registry \<Rightarrow> bool" where
  "complete_reading ops view reg \<longleftrightarrow>
     (case dv_entries view of
        Inl _ \<Rightarrow> False
      | Inr entries \<Rightarrow>
          list_all is_ok entries
        \<and> list_all2 (\<lambda>path m. case dv_read view path of Inl _ \<Rightarrow> False
              | Inr raw \<Rightarrow> rpo_from_str ops raw = Inr m \<and> rp_verify ops m = Inr ())
            (sort (filter is_json_path (map projr entries))) reg)"

lemma load_files_complete:
  "load_files ops dir view paths reg = Inr reg' \<longleftrightarrow>
     (\<exists>read. reg' = reg @ read \<and> list_all2 (\<lambda>path m. case dv_read view path of Inl _ \<Rightarrow> False
         | Inr raw \<Rightarrow> rpo_from_str ops raw = Inr m \<and> rp_verify ops m = Inr ()) paths read)"
proof (induction paths arbitrary: reg)
  case (Cons path paths)
  show ?case
  proof (cases "\<exists>raw m. dv_read view path = Inr raw \<and> rpo_from_str ops raw = Inr m \<and> rp_verify ops m = Inr ()")
    case True
    then obtain raw m where "dv_read view path = Inr raw" "rpo_from_str ops raw = Inr m" "rp_verify ops m = Inr ()"
      by blast
    then show ?thesis
      by (auto simp: rp_from_json_def rp_insert_def Cons list_all2_Cons1)
  next
    case False
    then have "load_files ops dir view (path # paths) reg \<noteq> Inr reg'"
      by (auto simp: rp_from_json_def rp_insert_def rbind_Inr_iff split: sum.split)
    with False show ?thesis by (auto simp: list_all2_Cons1 split: sum.splits)
  qed
qed auto

lemma collect_entries: "collect xs = Inr ys \<longleftrightarrow> list_all is_ok xs \<and> ys = map projr xs"
  unfolding collect_Inr_iff by (induction xs arbitrary: ys) (auto simp: is_ok_iff Cons_eq_map_conv)

lemma read_registry_complete: "read_registry ops dir view = Inr reg \<longleftrightarrow> complete_reading ops view reg"
proof (cases "dv_entries view")
  case (Inr entries)
  show ?thesis
  proof (cases "collect entries")
    case (Inl e)
    with collect_entries [of entries "map projr entries"] have "\<not> list_all is_ok entries" by simp
    with Inl Inr show ?thesis by (simp add: read_registry_def complete_reading_def)
  next
    case paths: (Inr paths)
    with Inr collect_entries [of entries paths] show ?thesis
      by (simp add: read_registry_def complete_reading_def load_files_complete)
  qed
qed (simp add: read_registry_def complete_reading_def)

text \<open>C38  Whatever the watcher receives, the registry it serves is the one it had or one complete reading of
  the directory at some quiet moment: a pack for every JSON file, each what its file says and verified.  A broken file
  never replaces or truncates what is served.
\<close>

theorem watcher_serves_verified:
  assumes "all_verified ops (hr_inner h)" "watch_loop ops rs pending h = (p, h')"
  shows "all_verified ops (hr_inner h') \<and> hr_dir h' = hr_dir h
    \<and> (if hr_inner h' = hr_inner h then True
       else list_ex (\<lambda>(r, stop). case r of WatchTimeout view \<Rightarrow> complete_reading ops view (hr_inner h')
                                 | _ \<Rightarrow> False) rs)"
  using assms
proof (induction rs arbitrary: pending h)
  case (Cons x rs)
  obtain r stop where x: "x = (r, stop)" by (cases x)
  show ?case
  proof (cases r)
    case (WatchTimeout view)
    let ?h = "if pending then snd (reload_now ops view h) else h"
    have now: "all_verified ops (hr_inner ?h)" "hr_dir ?h = hr_dir h"
        "hr_inner ?h = hr_inner h \<or> complete_reading ops view (hr_inner ?h)"
      using Cons.prems(1) by (cases rule: reload_now_cases [of ops view h];
          simp add: all_verified_def read_registry_verified flip: read_registry_complete [of ops "hr_dir h"])+
    have step: "watch_loop ops (x # rs) pending h = (if stop then (False, ?h) else watch_loop ops rs False ?h)"
      by (cases pending; cases stop) (simp_all add: x WatchTimeout)
    show ?thesis
    proof (cases stop)
      case True
      with Cons.prems(2) have "h' = ?h" by (simp add: step)
      with now show ?thesis by (auto simp: x WatchTimeout)
    next
      case False
      with Cons.prems(2) have "watch_loop ops rs False ?h = (p, h')" by (simp add: step)
      from Cons.IH [OF now(1) this, unfolded now(2)] now(2,3) show ?thesis by (auto simp: x WatchTimeout split: if_splits)
    qed
  next
    case (WatchEvent ev)
    with Cons.prems(2) have "h' = h \<or> watch_loop ops rs (if is_relevant ev then True else pending) h = (p, h')"
      by (auto simp: x Let_def split: if_splits)
    with Cons.IH [OF Cons.prems(1)] Cons.prems(1) show ?thesis by (auto simp: x WatchEvent split: if_splits)
  next
    case WatchError
    with Cons.prems(2) have "h' = h \<or> watch_loop ops rs pending h = (p, h')"
      by (auto simp: x split: if_splits)
    with Cons.IH [OF Cons.prems(1)] Cons.prems(1) show ?thesis by (auto simp: x WatchError split: if_splits)
  next
    case WatchDisconnected
    with Cons.prems show ?thesis by (simp add: x)
  qed
qed simp

text \<open>
  A change is picked up: after a relevant event, with no stop and no timeout in between, the first
  quiet moment reads the directory and serves the result if all of it is valid.
\<close>

theorem relevant_change_is_loaded:
  assumes "list_all (\<lambda>(r, stop). \<not> stop \<and> (case r of WatchEvent e \<Rightarrow> True | WatchError \<Rightarrow> True | _ \<Rightarrow> False)) rs"
    and "list_ex (\<lambda>(r, stop). case r of WatchEvent e \<Rightarrow> is_relevant e | _ \<Rightarrow> False) rs"
  shows "watch_loop ops (rs @ [(WatchTimeout view, stop)]) pending h = (False, snd (reload_now ops view h))"
proof -
  have "watch_loop ops (rs @ [(WatchTimeout view, stop)]) pending h = (False, snd (reload_now ops view h))"
    if "pending \<or> list_ex (\<lambda>(r, stop). case r of WatchEvent e \<Rightarrow> is_relevant e | _ \<Rightarrow> False) rs" for pending
    using that assms(1)
  proof (induction rs arbitrary: pending)
    case Nil
    then show ?case by simp
  next
    case (Cons x rs)
    obtain r where x: "x = (r, False)" using Cons.prems(2) by (cases x) auto
    show ?case
    proof (cases r)
      case (WatchEvent e)
      with Cons.prems Cons.IH [of "if is_relevant e then True else pending"] show ?thesis by (auto simp: x Let_def)
    qed (use Cons in \<open>auto simp: x\<close>)
  qed
  with assms(2) show ?thesis by blast
qed

section \<open>A concrete pack\<close>

definition sample_pack :: rp_manifest where
  "sample_pack =
     \<lparr>rp_rulepack_id = ''p'', rp_country = ''global'', rp_profile = ''en'', rp_upstream_version = ''1'',
      rp_effective_from = ''2024-01-01'', rp_effective_to = None, rp_source_url = ''u'',
      rp_retrieved_at = ''2024-01-01'', rp_codelist_versions = [], rp_upstream_checksum = [],
      rp_generated_metadata = \<lparr>gm_generator = [], gm_generated_at = [], gm_notes = []\<rparr>,
      rp_parity_fixtures = \<lparr>pf_oracle = [], pf_fixture_set_id = [], pf_expected_parity_pct = []\<rparr>,
      rp_known_gaps = [], rp_signature_alg = ''blake3:identity'', rp_signature = zero_blake3_hex,
      rp_body = SObject [(''rules'', SArray [])]\<rparr>"

definition sample_ops :: rulepack_ops where
  "sample_ops = \<lparr>rpo_from_str = \<lambda>_. Inr sample_pack, rpo_to_vec = \<lambda>_. Inr [],
                 rpo_blake3_hex = \<lambda>_. replicate 64 (CHR ''1'')\<rparr>"

definition sample_view :: dir_view where
  "sample_view = \<lparr>dv_entries = Inr [Inr ''d/a.json''], dv_read = \<lambda>_. Inr []\<rparr>"

lemma sample_json_path: "is_json_path ''d/a.json''" by code_simp

theorem rp_verify_iff_witness: "rp_verify sample_ops sample_pack = Inr ()"
proof -
  have "length (rp_signature sample_pack) < 2 ^ 64" "length (rpo_blake3_hex sample_ops t) = 64" for t
    by (simp_all add: sample_pack_def sample_ops_def zero_blake3_hex_def)
  from rp_verify_iff [OF this] show ?thesis by (simp add: sample_pack_def sample_ops_def)
qed

lemma sample_verified: "rp_verify sample_ops sample_pack = Inr ()"
  by (simp add: rp_verify_def verify_blake3_identity_def rp_constant_time_eq_def ct_diff_refl
      sample_pack_def sample_ops_def)

lemma sample_reload:
  "reload_now sample_ops sample_view \<lparr>hr_inner = [], hr_dir = ''d''\<rparr>
     = (Inr (), \<lparr>hr_inner = [sample_pack], hr_dir = ''d''\<rparr>)"
proof -
  have "rp_from_json sample_ops raw = Inr sample_pack" for raw
    using sample_verified by (simp add: rp_from_json_def) (simp add: sample_ops_def)
  then show ?thesis
    using sample_verified
    by (simp add: reload_now_def read_registry_def sample_view_def sample_json_path rp_insert_def)
qed

theorem relevant_change_is_loaded_witness:
  "watch_loop sample_ops ([((WatchEvent (FsCreate, [''d/a.json''])), False)] @ [(WatchTimeout sample_view, True)]) False
      \<lparr>hr_inner = [], hr_dir = ''d''\<rparr> = (False, \<lparr>hr_inner = [sample_pack], hr_dir = ''d''\<rparr>)"
  by (subst relevant_change_is_loaded) (simp_all add: sample_reload is_relevant_def sample_json_path)

theorem watcher_serves_verified_witness:
  "all_verified sample_ops [sample_pack] \<and> complete_reading sample_ops sample_view [sample_pack]"
proof -
  have "watch_loop sample_ops [((WatchEvent (FsCreate, [''d/a.json''])), False), (WatchTimeout sample_view, True)] False
      \<lparr>hr_inner = [], hr_dir = ''d''\<rparr> = (False, \<lparr>hr_inner = [sample_pack], hr_dir = ''d''\<rparr>)"
    by (simp add: sample_reload is_relevant_def sample_json_path Let_def)
  from watcher_serves_verified [OF _ this] show ?thesis by (simp add: all_verified_def)
qed

end
