(* ===== verification/En_Xml.thy ===== *)
theory En_Xml
  imports Rust_Str Rust_Map Validation_Result Rulepack
begin

text \<open>
  The XML half of \<open>crates/validate-ubl-cii/src/lib.rs\<close>: errors, the tree of nodes and the loop that builds
  it from the events of the \<open>quick_xml\<close> reader.  The reader is outside: a document is the list of what
  \<open>read_event\<close> returns, with contents that are decoded for an XML version; the end of the list is
  \<open>Eof\<close>.  The input is a \<open>&str\<close>, so names are valid UTF-8 and \<open>En16931Error::Utf8\<close> does not occur.
\<close>

section \<open>Errors\<close>

datatype en_error =
    EnXml string
  | EnEncoding string
  | EnAttribute string
  | UnsupportedRoot string
  | MalformedXml string
  | EnValidation validate_error
  | EnRulepack rulepack_error
  | InvalidValidationDate string
  | RulepackNotFound string string string
  | RulepackPolicyError string string

section \<open>Nodes\<close>

datatype xml_node =
  XmlNode (xn_name: string) (xn_namespace: "string option") (xn_attrs: "(string \<times> string) list")
    (xn_text: string) (xn_children: "xml_node list")

definition node_new :: "string \<Rightarrow> string option \<Rightarrow> (string \<times> string) list \<Rightarrow> xml_node" where
  "node_new name ns attrs = XmlNode name ns attrs [] []"

definition xn_attr :: "xml_node \<Rightarrow> string \<Rightarrow> string option" where
  "xn_attr node name = map_option snd (find (\<lambda>a. fst a = name) (xn_attrs node))"

definition xn_child :: "xml_node \<Rightarrow> string \<Rightarrow> xml_node option" where
  "xn_child node name = find (\<lambda>c. xn_name c = name) (xn_children node)"

definition children_named :: "xml_node \<Rightarrow> string \<Rightarrow> xml_node list" where
  "children_named node name = filter (\<lambda>c. xn_name c = name) (xn_children node)"

fun descendants :: "string \<Rightarrow> xml_node \<Rightarrow> xml_node list" where
  "descendants name (XmlNode _ _ _ _ cs) =
     concat (map (\<lambda>c. (if xn_name c = name then [c] else []) @ descendants name c) cs)"

fun xn_path :: "xml_node \<Rightarrow> string list \<Rightarrow> xml_node option" where
  "xn_path node [] = Some node"
| "xn_path node (part # parts) = Option.bind (xn_child node part) (\<lambda>c. xn_path c parts)"

definition en_non_blank :: "string \<Rightarrow> string option" where
  "en_non_blank v = (let t = trim v in if t = [] then None else Some t)"

definition path_text :: "xml_node \<Rightarrow> string list \<Rightarrow> string option" where
  "path_text node path = Option.bind (xn_path node path) (\<lambda>n. en_non_blank (xn_text n))"

definition append_text :: "string \<Rightarrow> xml_node \<Rightarrow> xml_node" where
  "append_text t n = XmlNode (xn_name n) (xn_namespace n) (xn_attrs n) (xn_text n @ t) (xn_children n)"

definition append_child :: "xml_node \<Rightarrow> xml_node \<Rightarrow> xml_node" where
  "append_child c n = XmlNode (xn_name n) (xn_namespace n) (xn_attrs n) (xn_text n) (xn_children n @ [c])"

section \<open>Events\<close>

datatype xml_version = Explicit10 | Explicit11

text \<open>An attribute: an error of the iterator, or its key and the outcome of decoding its value.\<close>

type_synonym en_attributes = "(string + string \<times> (xml_version \<Rightarrow> string + string)) list"

datatype en_event =
    EnDecl "string + string"
  | EnStart string en_attributes
  | EnEmpty string en_attributes
  | EnEnd string
  | EnText "xml_version \<Rightarrow> string + string"
  | EnCData "xml_version \<Rightarrow> string + string"
  | EnGeneralRef "xml_version \<Rightarrow> string + string"
  | EnDocType
  | EnPI
  | EnComment

definition or_err :: "(string \<Rightarrow> en_error) \<Rightarrow> string + 'a \<Rightarrow> en_error + 'a" where
  "or_err f r = (case r of Inl e \<Rightarrow> Inl (f e) | Inr x \<Rightarrow> Inr x)"

definition rsplit_once :: "char \<Rightarrow> string \<Rightarrow> (string \<times> string) option" where
  "rsplit_once c s = map_option (\<lambda>(b, a). (rev a, rev b)) (split_once c (rev s))"

definition local_name :: "string \<Rightarrow> string" where
  "local_name name = (case rsplit_once CHR '':'' name of None \<Rightarrow> name | Some (_, l) \<Rightarrow> l)"

fun read_attrs :: "xml_version \<Rightarrow> en_attributes \<Rightarrow> en_error + (string \<times> string) list" where
  "read_attrs version [] = Inr []"
| "read_attrs version (a # as) =
     rbind (or_err EnAttribute a) (\<lambda>(key, decode).
       if key = ''xmlns'' \<or> strip_prefix ''xmlns:'' key \<noteq> None then read_attrs version as
       else rbind (or_err EnXml (decode version)) (\<lambda>v.
            rbind (read_attrs version as) (\<lambda>rest. Inr ((local_name key, v) # rest))))"

fun find_namespace :: "xml_version \<Rightarrow> string \<Rightarrow> en_attributes \<Rightarrow> en_error + string option" where
  "find_namespace version key [] = Inr None"
| "find_namespace version key (a # as) =
     rbind (or_err EnAttribute a) (\<lambda>(k, decode).
       if k = key then rbind (or_err EnXml (decode version)) (\<lambda>v. Inr (Some v))
       else find_namespace version key as)"

definition root_namespace_uri :: "xml_version \<Rightarrow> string \<Rightarrow> en_attributes \<Rightarrow> en_error + string option" where
  "root_namespace_uri version qname attrs =
     (let prefix = (case rsplit_once CHR '':'' qname of None \<Rightarrow> ''xmlns'' | Some (p, _) \<Rightarrow> p)
      in find_namespace version (if prefix = ''xmlns'' then prefix else ''xmlns:'' @ prefix) attrs)"

section \<open>The loop\<close>

text \<open>The local variables of \<open>parse_xml\<close>; the top of the stack is its head.\<close>

record parse_state =
  ps_version :: xml_version
  ps_stack :: "xml_node list"
  ps_root :: "xml_node option"

definition max_nesting_depth :: nat where
  "max_nesting_depth = 256"

definition push_node :: "xml_node \<Rightarrow> parse_state \<Rightarrow> en_error + parse_state" where
  "push_node node s =
     (case ps_stack s of
        parent # rest \<Rightarrow> Inr (s\<lparr>ps_stack := append_child node parent # rest\<rparr>)
      | [] \<Rightarrow> if ps_root s = None then Inr (s\<lparr>ps_root := Some node\<rparr>)
              else Inl (MalformedXml ''multiple roots''))"

definition start_node :: "string \<Rightarrow> en_attributes \<Rightarrow> parse_state \<Rightarrow> en_error + xml_node" where
  "start_node qname attrs s =
     rbind (if ps_stack s = [] \<and> ps_root s = None then root_namespace_uri (ps_version s) qname attrs else Inr None)
       (\<lambda>ns. rbind (read_attrs (ps_version s) attrs) (\<lambda>as. Inr (node_new (local_name qname) ns as)))"

definition push_text :: "string \<Rightarrow> parse_state \<Rightarrow> parse_state" where
  "push_text t s = (case ps_stack s of [] \<Rightarrow> s | n # rest \<Rightarrow> s\<lparr>ps_stack := append_text t n # rest\<rparr>)"

definition decoded_text :: "(xml_version \<Rightarrow> string + string) \<Rightarrow> (string \<Rightarrow> string) \<Rightarrow> parse_state
    \<Rightarrow> en_error + parse_state" where
  "decoded_text content f s =
     (if ps_stack s = [] then Inr s
      else rbind (or_err EnEncoding (content (ps_version s))) (\<lambda>t. Inr (push_text (f t) s)))"

fun parse_event :: "en_event \<Rightarrow> parse_state \<Rightarrow> en_error + parse_state" where
  "parse_event (EnDecl version) s =
     rbind (or_err EnXml version) (\<lambda>v. Inr (s\<lparr>ps_version := if v = ''1.1'' then Explicit11 else Explicit10\<rparr>))"
| "parse_event (EnStart qname attrs) s =
     rbind (start_node qname attrs s) (\<lambda>node.
       if length (ps_stack s) \<ge> max_nesting_depth
       then Inl (MalformedXml (''element nesting depth exceeds '' @ show_nat max_nesting_depth))
       else Inr (s\<lparr>ps_stack := node # ps_stack s\<rparr>))"
| "parse_event (EnEmpty qname attrs) s = rbind (start_node qname attrs s) (\<lambda>node. push_node node s)"
| "parse_event (EnEnd qname) s =
     (case ps_stack s of
        [] \<Rightarrow> Inl (MalformedXml (local_name qname))
      | node # rest \<Rightarrow>
          if xn_name node \<noteq> local_name qname
          then Inl (MalformedXml (xn_name node @ '' / '' @ local_name qname))
          else push_node node (s\<lparr>ps_stack := rest\<rparr>))"
| "parse_event (EnText content) s = decoded_text content (\<lambda>t. t) s"
| "parse_event (EnCData content) s = decoded_text content (\<lambda>t. t) s"
| "parse_event (EnGeneralRef content) s = decoded_text content (\<lambda>t. ''&'' @ t @ '';'') s"
| "parse_event EnDocType s = Inl (UnsupportedRoot ''DOCTYPE'')"
| "parse_event EnPI s = Inr s"
| "parse_event EnComment s = Inr s"

fun parse_events :: "(string + en_event) list \<Rightarrow> parse_state \<Rightarrow> en_error + parse_state" where
  "parse_events [] s = Inr s"
| "parse_events (r # rs) s =
     rbind (or_err EnXml r) (\<lambda>ev. rbind (parse_event ev s) (parse_events rs))"

definition parse_xml :: "(string + en_event) list \<Rightarrow> en_error + xml_node" where
  "parse_xml input =
     rbind (parse_events input \<lparr>ps_version = Explicit10, ps_stack = [], ps_root = None\<rparr>) (\<lambda>s.
       if ps_stack s \<noteq> [] then Inl (MalformedXml ''unclosed element'')
       else case ps_root s of
         None \<Rightarrow> Inl (UnsupportedRoot ''empty document'') | Some root \<Rightarrow> Inr root)"

section \<open>Bounded nesting\<close>

fun xn_depth :: "xml_node \<Rightarrow> nat" where
  "xn_depth (XmlNode _ _ _ _ cs) = Suc (fold max (map xn_depth cs) 0)"

lemma fold_max_le: "fold max ns (m :: nat) \<le> b \<longleftrightarrow> m \<le> b \<and> (\<forall>n \<in> set ns. n \<le> b)"
  by (induction ns arbitrary: m) auto

lemma depth_le_iff: "xn_depth n \<le> Suc b \<longleftrightarrow> (\<forall>c \<in> set (xn_children n). xn_depth c \<le> b)"
  by (cases n) (simp add: fold_max_le)

lemma depth_new [simp]: "xn_depth (node_new name ns as) = 1"
  by (simp add: node_new_def)

lemma depth_append_text [simp]: "xn_depth (append_text t n) = xn_depth n"
  by (cases n) (simp add: append_text_def)

lemma depth_append_child:
  "xn_depth n \<le> Suc b \<Longrightarrow> xn_depth c \<le> b \<Longrightarrow> xn_depth (append_child c n) \<le> Suc b"
  unfolding depth_le_iff by (auto simp: append_child_def)

text \<open>A node of the stack leaves room for those below it: its depth and its height stay within the limit.\<close>

fun stack_ok :: "xml_node list \<Rightarrow> bool" where
  "stack_ok [] = True"
| "stack_ok (n # rest) = (xn_depth n + length rest \<le> 257 \<and> length rest < 256 \<and> stack_ok rest)"

definition parse_inv :: "parse_state \<Rightarrow> bool" where
  "parse_inv s \<longleftrightarrow> stack_ok (ps_stack s)
     \<and> (case ps_root s of None \<Rightarrow> True | Some r \<Rightarrow> xn_depth r \<le> 257)"

lemma stack_ok_length: "stack_ok st \<Longrightarrow> length st \<le> 256"
  by (cases st) auto

lemma push_node_inv:
  assumes "push_node n s = Inr s'" "parse_inv s" "xn_depth n + length (ps_stack s) \<le> 257"
  shows "parse_inv s'"
proof (cases "ps_stack s")
  case Nil
  with assms show ?thesis by (auto simp: push_node_def parse_inv_def split: if_splits)
next
  case (Cons p rest)
  with assms have s': "s' = s\<lparr>ps_stack := append_child n p # rest\<rparr>" by (simp add: push_node_def)
  have "xn_depth p \<le> Suc (256 - length rest)" "xn_depth n \<le> 256 - length rest" "length rest < 256"
    using assms(2,3) unfolding parse_inv_def Cons by auto
  then have "xn_depth (append_child n p) \<le> Suc (256 - length rest)" by (intro depth_append_child)
  with \<open>length rest < 256\<close> have "xn_depth (append_child n p) + length rest \<le> 257" by simp
  with assms(2) show ?thesis by (simp add: s' parse_inv_def Cons)
qed

lemma push_text_inv: "parse_inv s \<Longrightarrow> parse_inv (push_text t s)"
  by (cases "ps_stack s") (simp_all add: push_text_def parse_inv_def)

lemma parse_inv_version [simp]: "parse_inv (s\<lparr>ps_version := v\<rparr>) = parse_inv s"
  by (simp add: parse_inv_def)

lemma start_node_depth: "start_node qname attrs s = Inr n \<Longrightarrow> xn_depth n = 1"
  by (auto simp: start_node_def rbind_Inr_iff)

lemma parse_event_inv: "parse_event ev s = Inr s' \<Longrightarrow> parse_inv s \<Longrightarrow> parse_inv s'"
proof (cases ev)
  case (EnStart qname attrs)
  assume "parse_event ev s = Inr s'" "parse_inv s"
  then show ?thesis
    by (auto simp: EnStart rbind_Inr_iff parse_inv_def max_nesting_depth_def dest: start_node_depth split: if_splits)
next
  case (EnEmpty qname attrs)
  assume "parse_event ev s = Inr s'" "parse_inv s"
  from this(1) obtain n where n: "start_node qname attrs s = Inr n" and push: "push_node n s = Inr s'"
    by (auto simp: EnEmpty rbind_Inr_iff)
  have "length (ps_stack s) \<le> 256" using \<open>parse_inv s\<close> by (simp add: parse_inv_def stack_ok_length)
  then have "xn_depth n + length (ps_stack s) \<le> 257" using start_node_depth [OF n] by simp
  with push \<open>parse_inv s\<close> show ?thesis by (rule push_node_inv)
next
  case (EnEnd qname)
  assume ev: "parse_event ev s = Inr s'" and inv: "parse_inv s"
  then obtain n rest where st: "ps_stack s = n # rest" and "push_node n (s\<lparr>ps_stack := rest\<rparr>) = Inr s'"
    by (auto simp: EnEnd split: list.splits if_splits)
  moreover have "parse_inv (s\<lparr>ps_stack := rest\<rparr>)" "xn_depth n + length rest \<le> 257"
    using inv by (simp_all add: parse_inv_def st)
  ultimately show ?thesis by (auto intro: push_node_inv)
qed (auto simp: decoded_text_def rbind_Inr_iff push_text_inv split: if_splits)

lemma parse_events_inv: "parse_events rs s = Inr s' \<Longrightarrow> parse_inv s \<Longrightarrow> parse_inv s'"
  by (induction rs s rule: parse_events.induct) (auto simp: rbind_Inr_iff dest: parse_event_inv)

text \<open>Whatever the input, an accepted tree is at most 257 levels deep: 256 open elements and one level
  of self-closing ones, which the depth check does not count.
\<close>

theorem parsed_tree_is_shallow: "parse_xml input = Inr root \<Longrightarrow> xn_depth root \<le> 257"
  by (auto simp: parse_xml_def rbind_Inr_iff parse_inv_def dest!: parse_events_inv split: if_splits option.splits)

text \<open>The bound is reached: the depth check is not made for a self-closing element.\<close>

definition open_a :: xml_node where
  "open_a = node_new ''a'' None []"

fun wrap_a :: "nat \<Rightarrow> xml_node \<Rightarrow> xml_node" where
  "wrap_a 0 t = t"
| "wrap_a (Suc n) t = wrap_a n (append_child t open_a)"

definition nested_events :: "nat \<Rightarrow> en_event list" where
  "nested_events n = replicate n (EnStart ''a'' []) @ [EnEmpty ''a'' []] @ replicate n (EnEnd ''a'')"

lemma local_name_a: "local_name ''a'' = ''a''"
  by (simp add: local_name_def rsplit_once_def split_once_None_iff [THEN iffD2])

lemma start_a: "start_node ''a'' [] s = Inr open_a"
  by (simp add: start_node_def root_namespace_uri_def Let_def rsplit_once_def open_a_def local_name_a
      split_once_None_iff [THEN iffD2])

lemma parse_starts:
  "k + length (ps_stack s) \<le> 256 \<Longrightarrow>
     parse_events (map Inr (replicate k (EnStart ''a'' []) @ evs)) s
     = parse_events (map Inr evs) (s\<lparr>ps_stack := replicate k open_a @ ps_stack s\<rparr>)"
proof (induction k arbitrary: s)
  case (Suc k)
  have "parse_event (EnStart ''a'' []) s = Inr (s\<lparr>ps_stack := open_a # ps_stack s\<rparr>)"
    using Suc.prems by (simp add: start_a max_nesting_depth_def)
  with Suc.IH [of "s\<lparr>ps_stack := open_a # ps_stack s\<rparr>"] Suc.prems show ?case
    by (simp only: replicate_Suc append_Cons list.map parse_events.simps or_err_def sum.case rbind_simps)
      (simp add: replicate_app_Cons_same)
qed simp

lemma name_append_child [simp]: "xn_name (append_child c n) = xn_name n"
  by (simp add: append_child_def)

lemma parse_ends:
  "xn_name t = ''a'' \<Longrightarrow> ps_root s = None \<Longrightarrow> ps_stack s = t # replicate k open_a \<Longrightarrow>
     parse_events (map Inr (replicate (Suc k) (EnEnd ''a''))) s
     = Inr (s\<lparr>ps_stack := [], ps_root := Some (wrap_a k t)\<rparr>)"
proof (induction k arbitrary: s t)
  case (Suc k)
  have a: "xn_name (append_child t open_a) = ''a''" by (simp add: open_a_def node_new_def)
  have "parse_event (EnEnd ''a'') s = Inr (s\<lparr>ps_stack := append_child t open_a # replicate k open_a\<rparr>)"
    using Suc.prems by (simp add: local_name_a push_node_def)
  with Suc.IH [OF a, of "s\<lparr>ps_stack := append_child t open_a # replicate k open_a\<rparr>"] Suc.prems show ?case
    by (simp only: replicate_Suc [of "Suc k"] list.map parse_events.simps or_err_def sum.case rbind_simps) simp
qed (simp add: or_err_def local_name_a push_node_def)

lemma depth_wrap_a: "xn_depth t + n \<le> xn_depth (wrap_a n t)"
proof (induction n arbitrary: t)
  case (Suc n)
  have "Suc (xn_depth t) \<le> xn_depth (append_child t open_a)"
    using depth_le_iff [of "append_child t open_a" "xn_depth t - 1"]
    by (cases "xn_depth t"; cases t) (auto simp: append_child_def not_less_eq_eq)
  with Suc [of "append_child t open_a"] show ?case by simp
qed simp

lemma parse_nested:
  assumes "n < 256"
  shows "parse_xml (map Inr (nested_events (Suc n))) = Inr (wrap_a n (append_child open_a open_a))"
proof -
  let ?s = "\<lparr>ps_version = Explicit10, ps_stack = [], ps_root = None\<rparr>"
  have a: "xn_name open_a = ''a''" by (simp add: open_a_def node_new_def)
  have "parse_events (map Inr (nested_events (Suc n))) ?s
      = parse_events (map Inr (replicate (Suc n) (EnEnd ''a'')))
          (?s\<lparr>ps_stack := append_child open_a open_a # replicate n open_a\<rparr>)"
    unfolding nested_events_def
    by (subst parse_starts) (use assms in \<open>simp_all add: or_err_def start_a push_node_def\<close>)
  also have "\<dots> = Inr (?s\<lparr>ps_stack := [], ps_root := Some (wrap_a n (append_child open_a open_a))\<rparr>)"
    by (subst parse_ends) (simp_all add: a)
  finally show ?thesis by (simp add: parse_xml_def)
qed

theorem parsed_tree_is_shallow_witness:
  "\<exists>root. parse_xml (map Inr (nested_events 256)) = Inr root \<and> xn_depth root = 257"
proof -
  let ?root = "wrap_a 255 (append_child open_a open_a)"
  have parse: "parse_xml (map Inr (nested_events 256)) = Inr ?root"
    using parse_nested [of 255] by simp
  then have "xn_depth ?root \<le> 257" by (rule parsed_tree_is_shallow)
  moreover have "257 \<le> xn_depth ?root"
    using depth_wrap_a [of "append_child open_a open_a" 255] depth_wrap_a [of open_a 1] by (simp add: open_a_def)
  ultimately show ?thesis using parse by auto
qed

section \<open>Reading back what was written\<close>

definition plain_attr :: "string \<times> string \<Rightarrow> string + string \<times> (xml_version \<Rightarrow> string + string)" where
  "plain_attr a = Inr (fst a, \<lambda>_. Inr (snd a))"

fun node_events :: "xml_node \<Rightarrow> en_event list" where
  "node_events (XmlNode name ns attrs body cs) =
     EnStart name (map plain_attr attrs) # EnText (\<lambda>_. Inr body)
       # concat (map node_events cs) @ [EnEnd name]"

definition document_events :: "xml_node \<Rightarrow> en_event list" where
  "document_events root =
     EnStart (xn_name root)
         ((case xn_namespace root of None \<Rightarrow> [] | Some uri \<Rightarrow> [plain_attr (''xmlns'', uri)])
          @ map plain_attr (xn_attrs root))
       # EnText (\<lambda>_. Inr (xn_text root)) # concat (map node_events (xn_children root)) @ [EnEnd (xn_name root)]"

definition plain_name :: "string \<Rightarrow> bool" where
  "plain_name n \<longleftrightarrow> CHR '':'' \<notin> set n"

definition plain_attrs :: "(string \<times> string) list \<Rightarrow> bool" where
  "plain_attrs as \<longleftrightarrow> list_all (\<lambda>a. plain_name (fst a) \<and> fst a \<noteq> ''xmlns'') as"

fun plain_node :: "xml_node \<Rightarrow> bool" where
  "plain_node (XmlNode name ns attrs body cs) \<longleftrightarrow>
     plain_name name \<and> plain_attrs attrs \<and> list_all (\<lambda>c. xn_namespace c = None \<and> plain_node c) cs"

lemma local_name_plain: "plain_name n \<Longrightarrow> local_name n = n"
  by (simp add: plain_name_def local_name_def rsplit_once_def split_once_None_iff [THEN iffD2])

lemma read_attrs_plain: "plain_attrs as \<Longrightarrow> read_attrs v (map plain_attr as) = Inr as"
proof (induction as)
  case (Cons a as)
  then have a: "plain_name (fst a)" "fst a \<noteq> ''xmlns''" and "plain_attrs as" by (simp_all add: plain_attrs_def)
  have "strip_prefix ''xmlns:'' (fst a) = None"
  proof (rule ccontr)
    assume "strip_prefix ''xmlns:'' (fst a) \<noteq> None"
    then have "take 6 (fst a) = ''xmlns:''" by (simp add: strip_prefix_def eval_nat_numeral split: if_splits)
    then have "CHR '':'' \<in> set (take 6 (fst a))" by simp
    then show False using a(1) by (auto simp: plain_name_def dest: in_set_takeD)
  qed
  with a Cons.IH [OF \<open>plain_attrs as\<close>] show ?case
    by (simp add: plain_attr_def or_err_def local_name_plain)
qed simp

lemma find_namespace_plain: "plain_attrs as \<Longrightarrow> find_namespace v ''xmlns'' (map plain_attr as) = Inr None"
  by (induction as) (auto simp: plain_attrs_def plain_attr_def or_err_def)

lemma fold_append_child: "fold append_child cs n =
    XmlNode (xn_name n) (xn_namespace n) (xn_attrs n) (xn_text n) (xn_children n @ cs)"
  by (induction cs arbitrary: n) (simp_all add: append_child_def)

lemma parse_events_append:
  "parse_events (rs @ rs') s = rbind (parse_events rs s) (parse_events rs')"
proof (induction rs arbitrary: s)
  case (Cons r rs)
  then show ?case
    by (cases "or_err EnXml r"; simp; cases "parse_event (projr (or_err EnXml r)) s"; simp)
qed simp

lemma parse_children:
  assumes "\<And>c s p rest. c \<in> set cs \<Longrightarrow> ps_stack s = p # rest \<Longrightarrow> length rest + xn_depth c < 256
      \<Longrightarrow> parse_events (map Inr (node_events c)) s = Inr (s\<lparr>ps_stack := append_child c p # rest\<rparr>)"
    and "ps_stack s = p # rest" "\<forall>c \<in> set cs. length rest + xn_depth c < 256"
  shows "parse_events (map Inr (concat (map node_events cs))) s =
    Inr (s\<lparr>ps_stack := fold append_child cs p # rest\<rparr>)"
  using assms
proof (induction cs arbitrary: s p)
  case (Cons c cs)
  have "parse_events (map Inr (node_events c)) s = Inr (s\<lparr>ps_stack := append_child c p # rest\<rparr>)"
    using Cons.prems by simp
  moreover have "parse_events (map Inr (concat (map node_events cs))) (s\<lparr>ps_stack := append_child c p # rest\<rparr>)
      = Inr (s\<lparr>ps_stack := fold append_child cs (append_child c p) # rest\<rparr>)"
    using Cons.prems by (subst Cons.IH) auto
  ultimately show ?case by (simp add: parse_events_append)
qed (cases s, simp)

lemma parse_node:
  "plain_node n \<Longrightarrow> xn_namespace n = None \<Longrightarrow> ps_stack s = p # rest \<Longrightarrow> length rest + xn_depth n < 256
     \<Longrightarrow> parse_events (map Inr (node_events n)) s = Inr (s\<lparr>ps_stack := append_child n p # rest\<rparr>)"
proof (induction n arbitrary: s p rest)
  case (XmlNode name ns attrs body cs)
  have name: "plain_name name" "plain_attrs attrs" "ns = None" using XmlNode.prems by simp_all
  have small: "\<forall>c \<in> set cs. length (p # rest) + xn_depth c < 256"
    using XmlNode.prems(4) depth_le_iff [of "XmlNode name ns attrs body cs" "255 - length (p # rest)"] by force
  let ?st = "s\<lparr>ps_stack := XmlNode name None attrs body [] # p # rest\<rparr>"
  have "parse_events (map Inr (concat (map node_events cs))) ?st =
      Inr (?st\<lparr>ps_stack := fold append_child cs (XmlNode name None attrs body []) # p # rest\<rparr>)"
  proof (rule parse_children)
    show "parse_events (map Inr (node_events c)) s' = Inr (s'\<lparr>ps_stack := append_child c q # r\<rparr>)"
      if "c \<in> set cs" "ps_stack s' = q # r" "length r + xn_depth c < 256" for c s' q r
      using XmlNode.IH [OF that(1) _ _ that(2,3)] XmlNode.prems(1) that(1) by (auto simp: list_all_iff)
  qed (use small in simp_all)
  moreover have "start_node name (map plain_attr attrs) s = Inr (XmlNode name None attrs [] [])"
    using XmlNode.prems(3) name by (simp add: start_node_def read_attrs_plain node_new_def local_name_plain)
  moreover have "length (ps_stack s) < 256" using XmlNode.prems(3,4) by simp
  ultimately show ?case
    using XmlNode.prems(3) name
    by (simp add: parse_events_append or_err_def max_nesting_depth_def decoded_text_def push_text_def
        append_text_def fold_append_child local_name_plain push_node_def)
qed

lemma parse_document_events:
  assumes "plain_node root" "xn_depth root \<le> 256"
  shows "parse_xml (map Inr (document_events root)) = Inr root"
proof -
  obtain name ns attrs body cs where root: "root = XmlNode name ns attrs body cs" by (cases root)
  have name: "plain_name name" "plain_attrs attrs" and cs: "list_all (\<lambda>c. xn_namespace c = None \<and> plain_node c) cs"
    using assms(1) by (simp_all add: root)
  have small: "\<forall>c \<in> set cs. xn_depth c < 256"
    using assms(2) depth_le_iff [of root 255] by (auto simp: root)
  let ?s = "\<lparr>ps_version = Explicit10, ps_stack = [], ps_root = None\<rparr>"
  let ?attrs = "(case ns of None \<Rightarrow> [] | Some uri \<Rightarrow> [plain_attr (''xmlns'', uri)]) @ map plain_attr attrs"
  have "root_namespace_uri Explicit10 name ?attrs = Inr ns"
    using name by (cases ns) (simp_all add: root_namespace_uri_def rsplit_once_def plain_name_def
        split_once_None_iff [THEN iffD2] find_namespace_plain plain_attr_def or_err_def Let_def)
  moreover have "read_attrs Explicit10 ?attrs = Inr attrs"
    using read_attrs_plain [OF name(2)] by (cases ns) (simp_all add: plain_attr_def or_err_def)
  ultimately have start: "start_node name ?attrs ?s = Inr (XmlNode name ns attrs [] [])"
    by (simp add: start_node_def node_new_def local_name_plain name)
  let ?st = "?s\<lparr>ps_stack := [XmlNode name ns attrs body []]\<rparr>"
  have "parse_events (map Inr (concat (map node_events cs))) ?st =
      Inr (?st\<lparr>ps_stack := [fold append_child cs (XmlNode name ns attrs body [])]\<rparr>)"
    by (rule parse_children) (use parse_node cs small in \<open>auto simp: list_all_iff\<close>)
  then show ?thesis
    by (simp add: parse_xml_def document_events_def root parse_events_append or_err_def start
        max_nesting_depth_def decoded_text_def push_text_def append_text_def fold_append_child
        local_name_plain name push_node_def)
qed

text \<open>C40  Round trip: the events that write a tree of at most 256 levels, with unprefixed names, are read
  back as that tree, with the default namespace of the root, its attributes, texts and children.
\<close>

theorem parse_xml_roundtrip:
  assumes "plain_node root" "xn_depth root \<le> 256"
  shows "parse_xml (map Inr (document_events root)) = Inr root"
  by (rule parse_document_events [OF assms])

definition leaf :: "string \<Rightarrow> string \<Rightarrow> xml_node" where
  "leaf name t = XmlNode name None [] t []"

theorem parse_xml_roundtrip_witness:
  "parse_xml (map Inr (document_events
     (XmlNode ''Invoice'' (Some ''urn:x'') [(''v'', ''1'')] [] [leaf ''ID'' ''7'', leaf ''Note'' ''a'']))) =
   Inr (XmlNode ''Invoice'' (Some ''urn:x'') [(''v'', ''1'')] [] [leaf ''ID'' ''7'', leaf ''Note'' ''a''])"
  by (rule parse_xml_roundtrip) (simp_all add: leaf_def plain_name_def plain_attrs_def)

end
