(* ===== verification/En_Select.thy ===== *)
theory En_Select
  imports En_Xml
begin

text \<open>
  The selectors, dates, amounts and the construction of findings of \<open>crates/validate-ubl-cii/src/lib.rs\<close>,
  which its rules share.  \<open>'d\<close> is \<open>rust_decimal::Decimal\<close> with the operations of \<open>amount_ops\<close>; the
  operators \<open>+\<close> and \<open>-\<close> panic on overflow, which is \<open>None\<close> in the record and \<open>Inl EnPanic\<close> in a rule.
\<close>

section \<open>Contexts\<close>

datatype document_syntax = Ubl | Cii

text \<open>
  The node lists that the rules read are collected once; \<open>charge_nodes\<close> and \<open>allowance_nodes\<close> are split
  by the charge indicator.
\<close>

record validation_context =
  ctx_syntax :: document_syntax
  ctx_root :: xml_node
  ctx_line_nodes :: "xml_node list"
  ctx_tax_summary_nodes :: "xml_node list"
  ctx_tax_representative_nodes :: "xml_node list"
  ctx_payment_means_nodes :: "xml_node list"
  ctx_allowance_nodes :: "xml_node list"
  ctx_charge_nodes :: "xml_node list"
  ctx_invoice_period_nodes :: "xml_node list"

section \<open>Findings\<close>

text \<open>A rule stops by a panic of an operator or by an error; otherwise it appends findings.\<close>

datatype en_stop = EnPanic | EnFail en_error

type_synonym rule_outcome = "en_stop + validation_result list"

definition fail_with_severity :: "string \<Rightarrow> severity \<Rightarrow> string \<Rightarrow> string \<Rightarrow> string \<Rightarrow> rule_outcome" where
  "fail_with_severity rule sev term_text loc fix =
     (case rbind (if strip_prefix ''BG-'' term_text \<noteq> None then business_group_new term_text
                  else business_term_new term_text) (\<lambda>t.
           rbind (rule_id_new rule) (\<lambda>r.
           rbind (xpath_new loc) (\<lambda>l.
           rbind (citation_new ''ConnectingEurope/eInvoicing-EN16931 validation-1.3.16'' rule
                    (Some ''https://github.com/ConnectingEurope/eInvoicing-EN16931'')) (\<lambda>c.
           rbind (suggested_fix_new fix) (\<lambda>f.
             Inr (with_suggested_fix f (validation_result_new r sev t l c))))))) of
        Inl e \<Rightarrow> Inl (EnFail (EnValidation e)) | Inr f \<Rightarrow> Inr [f])"

definition fail :: "string \<Rightarrow> string \<Rightarrow> string \<Rightarrow> string \<Rightarrow> rule_outcome" where
  "fail rule term_text loc fix = fail_with_severity rule Error term_text loc fix"

definition require_text :: "string \<Rightarrow> string \<Rightarrow> string \<Rightarrow> string option \<Rightarrow> string \<Rightarrow> rule_outcome" where
  "require_text rule term_text loc v fix = (if v = None then fail rule term_text loc fix else Inr [])"

text \<open>A rule that reports once, and the loops \<open>for (index, x) in xs.iter().enumerate()\<close>.\<close>

definition fail_if :: "bool \<Rightarrow> string \<Rightarrow> string \<Rightarrow> string \<Rightarrow> string \<Rightarrow> rule_outcome" where
  "fail_if b rule term_text loc fix = (if b then fail rule term_text loc fix else Inr [])"

fun each_from :: "nat \<Rightarrow> (nat \<Rightarrow> 'a \<Rightarrow> rule_outcome) \<Rightarrow> 'a list \<Rightarrow> rule_outcome" where
  "each_from i f [] = Inr []"
| "each_from i f (x # xs) = rbind (f i x) (\<lambda>fs. rbind (each_from (Suc i) f xs) (\<lambda>gs. Inr (fs @ gs)))"

abbreviation each :: "(nat \<Rightarrow> 'a \<Rightarrow> rule_outcome) \<Rightarrow> 'a list \<Rightarrow> rule_outcome" where
  "each \<equiv> each_from 0"

abbreviation number :: "nat \<Rightarrow> string" where
  "number \<equiv> show_nat"

section \<open>Lines, taxes and parties\<close>

definition opt_children :: "xml_node option \<Rightarrow> string \<Rightarrow> xml_node list" where
  "opt_children n name = (case n of None \<Rightarrow> [] | Some m \<Rightarrow> children_named m name)"

definition is_top_level_line :: "document_syntax \<Rightarrow> xml_node \<Rightarrow> bool" where
  "is_top_level_line syn line \<longleftrightarrow>
     syn \<noteq> Cii \<or> xn_path line [''AssociatedDocumentLineDocument'', ''ParentLineID''] = None"

definition collect_lines :: "document_syntax \<Rightarrow> xml_node \<Rightarrow> xml_node list" where
  "collect_lines syn root =
     (case syn of
        Ubl \<Rightarrow> filter (\<lambda>c. xn_name c = ''InvoiceLine'' \<or> xn_name c = ''CreditNoteLine'') (xn_children root)
      | Cii \<Rightarrow> descendants ''IncludedSupplyChainTradeLineItem'' root)"

definition cii_header_settlement_of :: "xml_node \<Rightarrow> xml_node option" where
  "cii_header_settlement_of root = xn_path root [''SupplyChainTradeTransaction'', ''ApplicableHeaderTradeSettlement'']"

definition collect_tax_summaries :: "document_syntax \<Rightarrow> xml_node \<Rightarrow> xml_node list" where
  "collect_tax_summaries syn root =
     (case syn of
        Ubl \<Rightarrow> descendants ''TaxSubtotal'' root
      | Cii \<Rightarrow> opt_children (xn_path root [''SupplyChainTradeTransaction'', ''ApplicableHeaderTradeSettlement''])
                 ''ApplicableTradeTax'')"

definition differs_when_both_present :: "string option \<Rightarrow> string option \<Rightarrow> bool" where
  "differs_when_both_present l r = (case (l, r) of (Some a, Some b) \<Rightarrow> a \<noteq> b | _ \<Rightarrow> True)"

definition is_vat_code :: "string \<Rightarrow> bool" where
  "is_vat_code v = eq_ignore_case (trim v) ''VAT''"

definition is_category_o :: "string \<Rightarrow> bool" where
  "is_category_o v \<longleftrightarrow> trim v = ''O''"

definition opt_holds :: "('a \<Rightarrow> bool) \<Rightarrow> 'a option \<Rightarrow> bool" where
  "opt_holds P x = (case x of None \<Rightarrow> False | Some y \<Rightarrow> P y)"

definition opt_filter :: "('a \<Rightarrow> bool) \<Rightarrow> 'a option \<Rightarrow> 'a option" where
  "opt_filter P x = (case x of None \<Rightarrow> None | Some y \<Rightarrow> if P y then Some y else None)"

definition or_else :: "'a option \<Rightarrow> 'a option \<Rightarrow> 'a option" where
  "or_else x y = (case x of None \<Rightarrow> y | Some a \<Rightarrow> Some a)"

definition opt_text :: "xml_node option \<Rightarrow> string list \<Rightarrow> string option" where
  "opt_text n path = Option.bind n (\<lambda>m. path_text m path)"

definition has_vat_tax_scheme :: "xml_node \<Rightarrow> bool" where
  "has_vat_tax_scheme node = opt_holds is_vat_code (path_text node [''TaxScheme'', ''ID''])"

definition ubl_vat_tax_category :: "xml_node \<Rightarrow> xml_node option" where
  "ubl_vat_tax_category tax = opt_filter has_vat_tax_scheme (xn_path tax [''TaxCategory''])"

definition cii_vat_tax :: "xml_node \<Rightarrow> xml_node option" where
  "cii_vat_tax tax = (if opt_holds is_vat_code (path_text tax [''TypeCode'']) then Some tax else None)"

definition line_vat_tax_category :: "document_syntax \<Rightarrow> xml_node \<Rightarrow> xml_node option" where
  "line_vat_tax_category syn line =
     (case syn of
        Ubl \<Rightarrow> opt_filter has_vat_tax_scheme (xn_path line [''Item'', ''ClassifiedTaxCategory''])
      | Cii \<Rightarrow> Option.bind (xn_path line [''SpecifiedLineTradeSettlement'', ''ApplicableTradeTax'']) cii_vat_tax)"

text \<open>\<open>split_whitespace\<close> of the constant, whose only white space is the space.\<close>

definition vat_category_uncl5305_codes :: string where
  "vat_category_uncl5305_codes = '' AE L M E S Z G O K B ''"

definition tax_category_code_is_uncl5305 :: "string \<Rightarrow> bool" where
  "tax_category_code_is_uncl5305 v =
     (let n = trim v
      in CHR '' '' \<notin> set n
         \<and> list_ex (\<lambda>code. code = n) (filter (\<lambda>w. w \<noteq> []) (split_on CHR '' '' vat_category_uncl5305_codes)))"

definition category_code :: "xml_node \<Rightarrow> document_syntax \<Rightarrow> string option" where
  "category_code node syn = (case syn of Ubl \<Rightarrow> path_text node [''ID''] | Cii \<Rightarrow> path_text node [''CategoryCode''])"

definition has_tax_exemption_reason :: "xml_node \<Rightarrow> document_syntax \<Rightarrow> bool" where
  "has_tax_exemption_reason node syn =
     (case syn of
        Ubl \<Rightarrow> path_text node [''TaxExemptionReason''] \<noteq> None \<or> path_text node [''TaxExemptionReasonCode''] \<noteq> None
      | Cii \<Rightarrow> path_text node [''ExemptionReason''] \<noteq> None \<or> path_text node [''ExemptionReasonCode''] \<noteq> None)"

definition cii_header_settlement :: "validation_context \<Rightarrow> xml_node option" where
  "cii_header_settlement ctx = cii_header_settlement_of (ctx_root ctx)"

definition cii_monetary_total :: "validation_context \<Rightarrow> xml_node option" where
  "cii_monetary_total ctx =
     Option.bind (cii_header_settlement ctx) (\<lambda>s. xn_child s ''SpecifiedTradeSettlementHeaderMonetarySummation'')"

definition ubl_monetary_total :: "validation_context \<Rightarrow> xml_node option" where
  "ubl_monetary_total ctx = xn_child (ctx_root ctx) ''LegalMonetaryTotal''"

definition seller_party :: "validation_context \<Rightarrow> xml_node option" where
  "seller_party ctx =
     (case ctx_syntax ctx of
        Ubl \<Rightarrow> xn_path (ctx_root ctx) [''AccountingSupplierParty'', ''Party'']
      | Cii \<Rightarrow> xn_path (ctx_root ctx)
                 [''SupplyChainTradeTransaction'', ''ApplicableHeaderTradeAgreement'', ''SellerTradeParty''])"

definition buyer_party :: "validation_context \<Rightarrow> xml_node option" where
  "buyer_party ctx =
     (case ctx_syntax ctx of
        Ubl \<Rightarrow> xn_path (ctx_root ctx) [''AccountingCustomerParty'', ''Party'']
      | Cii \<Rightarrow> xn_path (ctx_root ctx)
                 [''SupplyChainTradeTransaction'', ''ApplicableHeaderTradeAgreement'', ''BuyerTradeParty''])"

definition collect_tax_representatives :: "document_syntax \<Rightarrow> xml_node \<Rightarrow> xml_node list" where
  "collect_tax_representatives syn root =
     (case syn of Ubl \<Rightarrow> children_named root ''TaxRepresentativeParty''
                | Cii \<Rightarrow> descendants ''SellerTaxRepresentativeTradeParty'' root)"

definition collect_payment_means :: "document_syntax \<Rightarrow> xml_node \<Rightarrow> xml_node list" where
  "collect_payment_means syn root =
     (case syn of Ubl \<Rightarrow> children_named root ''PaymentMeans''
                | Cii \<Rightarrow> descendants ''SpecifiedTradeSettlementPaymentMeans'' root)"

section \<open>Payments\<close>

definition payment_code :: "xml_node \<Rightarrow> document_syntax \<Rightarrow> string option" where
  "payment_code payment syn =
     (case syn of Ubl \<Rightarrow> path_text payment [''PaymentMeansCode''] | Cii \<Rightarrow> path_text payment [''TypeCode''])"

definition payment_account_node :: "xml_node \<Rightarrow> document_syntax \<Rightarrow> xml_node option" where
  "payment_account_node payment syn =
     (case syn of Ubl \<Rightarrow> xn_child payment ''PayeeFinancialAccount''
                | Cii \<Rightarrow> xn_child payment ''PayeePartyCreditorFinancialAccount'')"

definition payment_account_id :: "xml_node \<Rightarrow> document_syntax \<Rightarrow> string option" where
  "payment_account_id payment syn =
     Option.bind (payment_account_node payment syn) (\<lambda>account.
       case syn of
         Ubl \<Rightarrow> path_text account [''ID'']
       | Cii \<Rightarrow> or_else (path_text account [''IBANID'']) (path_text account [''ProprietaryID'']))"

definition is_credit_transfer_code :: "string \<Rightarrow> bool" where
  "is_credit_transfer_code v \<longleftrightarrow> trim v \<in> {''30'', ''58''}"

definition attr_is_non_blank :: "xml_node \<Rightarrow> string \<Rightarrow> bool" where
  "attr_is_non_blank node name \<longleftrightarrow> Option.bind (xn_attr node name) en_non_blank \<noteq> None"

section \<open>Allowances and charges\<close>

definition charge_indicator :: "xml_node \<Rightarrow> string option" where
  "charge_indicator node =
     or_else (path_text node [''ChargeIndicator''])
       (or_else (path_text node [''ChargeIndicator'', ''Indicator'']) (path_text node [''Indicator'']))"

definition is_true_indicator :: "string \<Rightarrow> bool" where
  "is_true_indicator v \<longleftrightarrow> trim v \<in> {''true'', ''1''}"

definition is_false_indicator :: "string \<Rightarrow> bool" where
  "is_false_indicator v \<longleftrightarrow> trim v \<in> {''false'', ''0''}"

definition indicator_selects_charge :: "bool \<Rightarrow> xml_node \<Rightarrow> bool" where
  "indicator_selects_charge charge node =
     opt_holds (\<lambda>i. if charge then is_true_indicator i else is_false_indicator i) (charge_indicator node)"

definition has_allowance_charge_reason :: "xml_node \<Rightarrow> document_syntax \<Rightarrow> bool" where
  "has_allowance_charge_reason node syn =
     (case syn of
        Ubl \<Rightarrow> path_text node [''AllowanceChargeReason''] \<noteq> None
               \<or> path_text node [''AllowanceChargeReasonCode''] \<noteq> None
      | Cii \<Rightarrow> path_text node [''Reason''] \<noteq> None \<or> path_text node [''ReasonCode''] \<noteq> None)"

definition has_allowance_charge_amount :: "xml_node \<Rightarrow> document_syntax \<Rightarrow> bool" where
  "has_allowance_charge_amount node syn =
     (case syn of Ubl \<Rightarrow> path_text node [''Amount''] \<noteq> None | Cii \<Rightarrow> path_text node [''ActualAmount''] \<noteq> None)"

definition has_allowance_charge_vat_category :: "xml_node \<Rightarrow> document_syntax \<Rightarrow> bool" where
  "has_allowance_charge_vat_category node syn =
     (case syn of
        Ubl \<Rightarrow> list_ex (\<lambda>c. has_vat_tax_scheme c \<and> path_text c [''ID''] \<noteq> None) (children_named node ''TaxCategory'')
      | Cii \<Rightarrow> list_ex (\<lambda>t. opt_holds is_vat_code (path_text t [''TypeCode'']) \<and> path_text t [''CategoryCode''] \<noteq> None)
                 (children_named node ''CategoryTradeTax''))"

definition collect_document_allowance_charges :: "document_syntax \<Rightarrow> xml_node \<Rightarrow> bool \<Rightarrow> xml_node list" where
  "collect_document_allowance_charges syn root charge =
     (case syn of
        Ubl \<Rightarrow> filter (indicator_selects_charge charge) (children_named root ''AllowanceCharge'')
      | Cii \<Rightarrow> filter (indicator_selects_charge charge)
                 (opt_children (cii_header_settlement_of root) ''SpecifiedTradeAllowanceCharge''))"

definition document_allowance_charges :: "validation_context \<Rightarrow> bool \<Rightarrow> xml_node list" where
  "document_allowance_charges ctx charge = (if charge then ctx_charge_nodes ctx else ctx_allowance_nodes ctx)"

definition line_allowance_charges_all :: "validation_context \<Rightarrow> xml_node \<Rightarrow> xml_node list" where
  "line_allowance_charges_all ctx line =
     (case ctx_syntax ctx of
        Ubl \<Rightarrow> children_named line ''AllowanceCharge''
      | Cii \<Rightarrow> opt_children (xn_path line [''SpecifiedLineTradeSettlement'']) ''SpecifiedTradeAllowanceCharge'')"

definition en_line_allowance_charges :: "validation_context \<Rightarrow> xml_node \<Rightarrow> bool \<Rightarrow> xml_node list" where
  "en_line_allowance_charges ctx line charge =
     (case ctx_syntax ctx of
        Ubl \<Rightarrow> filter (indicator_selects_charge charge) (children_named line ''AllowanceCharge'')
      | Cii \<Rightarrow> filter (indicator_selects_charge charge)
                 (opt_children (xn_path line [''SpecifiedLineTradeSettlement'']) ''SpecifiedTradeAllowanceCharge''))"

definition document_allowance_charges_all :: "validation_context \<Rightarrow> xml_node list" where
  "document_allowance_charges_all ctx =
     (case ctx_syntax ctx of
        Ubl \<Rightarrow> children_named (ctx_root ctx) ''AllowanceCharge''
      | Cii \<Rightarrow> opt_children (cii_header_settlement ctx) ''SpecifiedTradeAllowanceCharge'')"

definition cii_has_only_document_allowance_nodes :: "validation_context \<Rightarrow> bool" where
  "cii_has_only_document_allowance_nodes ctx =
     (if ctx_syntax ctx \<noteq> Cii then False
      else let nodes = document_allowance_charges_all ctx
           in nodes \<noteq> [] \<and> list_all (indicator_selects_charge False) nodes)"

section \<open>Periods and dates\<close>

definition collect_invoice_periods :: "document_syntax \<Rightarrow> xml_node \<Rightarrow> xml_node list" where
  "collect_invoice_periods syn root =
     (case syn of Ubl \<Rightarrow> children_named root ''InvoicePeriod''
                | Cii \<Rightarrow> opt_children (cii_header_settlement_of root) ''BillingSpecifiedPeriod'')"

text \<open>The at most four digits that are parsed fit a \<open>u32\<close>.\<close>

fun parse_ascii_digits_from :: "nat \<Rightarrow> string \<Rightarrow> nat option" where
  "parse_ascii_digits_from v [] = Some v"
| "parse_ascii_digits_from v (c # cs) =
     (if is_digit c then parse_ascii_digits_from (v * 10 + (byte c - 48)) cs else None)"

definition parse_ascii_digits :: "string \<Rightarrow> nat option" where
  "parse_ascii_digits s = parse_ascii_digits_from 0 s"

definition en_is_leap_year :: "int \<Rightarrow> bool" where
  "en_is_leap_year y \<longleftrightarrow> (y mod 4 = 0 \<and> y mod 100 \<noteq> 0) \<or> y mod 400 = 0"

definition en_days_in_month :: "int \<Rightarrow> nat \<Rightarrow> nat" where
  "en_days_in_month y m =
     (if m \<in> {1, 3, 5, 7, 8, 10, 12} then 31
      else if m \<in> {4, 6, 9, 11} then 30
      else if m = 2 then (if en_is_leap_year y then 29 else 28) else 0)"

text \<open>
  The operands of the \<open>i32\<close> divisions are not negative, or exact multiples, so truncation and \<open>div\<close> agree;
  years have at most 4 digits, so no \<open>i32\<close> operation overflows.  \<open>En_Dates\<close> shows what is counted.
\<close>

definition days_from_civil :: "int \<Rightarrow> int \<Rightarrow> int \<Rightarrow> int" where
  "days_from_civil year month day =
     (let y = year - (if month \<le> 2 then 1 else 0);
          era = (if y \<ge> 0 then y else y - 399) div 400;
          yoe = y - era * 400;
          doy = (153 * (month + (if month > 2 then - 3 else 9)) + 2) div 5 + day - 1;
          doe = yoe * 365 + yoe div 4 - yoe div 100 + doy
      in era * 146097 + doe - 719468)"

definition date_minutes :: "int \<Rightarrow> nat \<Rightarrow> nat \<Rightarrow> int \<Rightarrow> int option" where
  "date_minutes year month day offset =
     (if month = 0 \<or> month > 12 \<or> day = 0 \<or> day > en_days_in_month year month then None
      else Some (days_from_civil year (int month) (int day) * 1440 - offset))"

definition timezone_offset :: "string \<Rightarrow> int option" where
  "timezone_offset tz =
     (if tz = [] \<or> tz = ''Z'' then Some 0
      else if length tz = 6 then
        Option.bind (if hd tz = CHR ''+'' then Some 1 else if hd tz = CHR ''-'' then Some (- 1) else None) (\<lambda>sgn.
          if tz ! 3 \<noteq> CHR '':'' then None
          else Option.bind (parse_ascii_digits (take 2 (drop 1 tz))) (\<lambda>hours.
               Option.bind (parse_ascii_digits (take 2 (drop 4 tz))) (\<lambda>minutes.
                 if hours > 14 \<or> minutes > 59 then None
                 else Some (sgn * (int hours * 60 + int minutes)))))
      else None)"

definition parse_ubl_date :: "string \<Rightarrow> int option" where
  "parse_ubl_date v =
     (let s = trim v
      in if length s < 10 then None
         else if s ! 4 \<noteq> CHR ''-'' \<or> s ! 7 \<noteq> CHR ''-'' then None
         else Option.bind (parse_ascii_digits (take 4 s)) (\<lambda>year.
              Option.bind (parse_ascii_digits (take 2 (drop 5 s))) (\<lambda>month.
              Option.bind (parse_ascii_digits (take 2 (drop 8 s))) (\<lambda>day.
              Option.bind (timezone_offset (drop 10 s)) (\<lambda>offset.
                date_minutes (int year) month day offset)))))"

definition parse_cii_date :: "string \<Rightarrow> int option" where
  "parse_cii_date v =
     (let s = trim v
      in if length s \<noteq> 8 then None
         else Option.bind (parse_ascii_digits (take 4 s)) (\<lambda>year.
              Option.bind (parse_ascii_digits (take 2 (drop 4 s))) (\<lambda>month.
              Option.bind (parse_ascii_digits (take 2 (drop 6 s))) (\<lambda>day.
                date_minutes (int year) month day 0))))"

definition period_date :: "xml_node \<Rightarrow> string \<Rightarrow> (string \<Rightarrow> int option) \<Rightarrow> bool \<times> int option" where
  "period_date period name parse =
     (case xn_child period name of
        None \<Rightarrow> (False, None)
      | Some node \<Rightarrow> (True, Option.bind (en_non_blank (xn_text node)) parse))"

definition cii_period_date :: "xml_node \<Rightarrow> string \<Rightarrow> bool \<times> int option" where
  "cii_period_date period name =
     (case xn_child period name of
        None \<Rightarrow> (False, None)
      | Some node \<Rightarrow>
          (True, Option.bind (opt_filter (\<lambda>d. xn_attr d ''format'' = Some ''102'') (xn_child node ''DateTimeString''))
                   (\<lambda>d. Option.bind (en_non_blank (xn_text d)) parse_cii_date)))"

definition period_start :: "xml_node \<Rightarrow> document_syntax \<Rightarrow> bool \<times> int option" where
  "period_start period syn =
     (case syn of Ubl \<Rightarrow> period_date period ''StartDate'' parse_ubl_date | Cii \<Rightarrow> cii_period_date period ''StartDateTime'')"

definition period_end :: "xml_node \<Rightarrow> document_syntax \<Rightarrow> bool \<times> int option" where
  "period_end period syn =
     (case syn of Ubl \<Rightarrow> period_date period ''EndDate'' parse_ubl_date | Cii \<Rightarrow> cii_period_date period ''EndDateTime'')"

text \<open>\<open>has_start && has_end && !matches!((start, end), (Some(s), Some(e)) if e >= s)\<close>\<close>

definition period_reversed :: "xml_node \<Rightarrow> document_syntax \<Rightarrow> bool" where
  "period_reversed period syn =
     (case (period_start period syn, period_end period syn) of
        ((has_start, st), (has_end, en)) \<Rightarrow>
          has_start \<and> has_end \<and> \<not> (case (st, en) of (Some s, Some e) \<Rightarrow> s \<le> e | _ \<Rightarrow> False))"

definition validate_iso_date :: "string \<Rightarrow> en_error + unit" where
  "validate_iso_date v =
     (if length v \<noteq> 10 \<or> v ! 4 \<noteq> CHR ''-'' \<or> v ! 7 \<noteq> CHR ''-'' then Inl (InvalidValidationDate v)
      else case Option.bind (parse_ascii_digits (take 4 v)) (\<lambda>year.
                Option.bind (parse_ascii_digits (take 2 (drop 5 v))) (\<lambda>month.
                Option.bind (parse_ascii_digits (take 2 (drop 8 v))) (\<lambda>day.
                  date_minutes (int year) month day 0))) of
             None \<Rightarrow> Inl (InvalidValidationDate v) | Some _ \<Rightarrow> Inr ())"

section \<open>VAT identifiers and currencies\<close>

definition is_continuation :: "char \<Rightarrow> bool" where
  "is_continuation c \<longleftrightarrow> 128 \<le> byte c \<and> byte c < 192"

text \<open>\<open>chars().take(n)\<close> and \<open>chars().count()\<close> of UTF-8 text.\<close>

fun take_chars :: "nat \<Rightarrow> string \<Rightarrow> string" where
  "take_chars 0 s = []"
| "take_chars (Suc n) [] = []"
| "take_chars (Suc n) (c # s) = c # takeWhile is_continuation s @ take_chars n (dropWhile is_continuation s)"

definition char_count :: "string \<Rightarrow> nat" where
  "char_count s = length (filter (\<lambda>c. \<not> is_continuation c) s)"

fun contains_str :: "string \<Rightarrow> string \<Rightarrow> bool" where
  "contains_str [] needle \<longleftrightarrow> needle = []"
| "contains_str (c # s) needle \<longleftrightarrow> take (length needle) (c # s) = needle \<or> contains_str s needle"

definition vat_id_country_prefixes :: string where
  "vat_id_country_prefixes = '' 1A AD AE AF AG AI AL AM AN AO AQ AR AS AT AU AW AX AZ BA BB BD BE BF BG BH BI BJ BL BM BN''
     @ '' BO BQ BR BS BT BV BW BY BZ CA CC CD CF CG CH CI CK CL CM CN CO CR CU CV CW CX CY CZ DE DJ''
     @ '' DK DM DO DZ EC EE EG EH EL ER ES ET FI FJ FK FM FO FR GA GB GD GE GF GG GH GI GL GM GN GP''
     @ '' GQ GR GS GT GU GW GY HK HM HN HR HT HU ID IE IL IM IN IO IQ IR IS IT JE JM JO JP KE KG KH''
     @ '' KI KM KN KP KR KW KY KZ LA LB LC LI LK LR LS LT LU LV LY MA MC MD ME MF MG MH MK ML MM MN''
     @ '' MO MP MQ MR MS MT MU MV MW MX MY MZ NA NC NE NF NG NI NL NO NP NR NU NZ OM PA PE PF PG PH''
     @ '' PK PL PM PN PR PS PT PW PY QA RE RO RS RU RW SA SB SC SD SE SG SH SI SJ SK SL SM SN SO SR''
     @ '' SS ST SV SX SY SZ TC TD TF TG TH TJ TK TL TM TN TO TR TT TV TW TZ UA UG UM US UY UZ VA VC''
     @ '' VE VG VI VN VU WF WS XI YE YT ZA ZM ZW ''"

definition is_valid_vat_identifier_prefix :: "string \<Rightarrow> bool" where
  "is_valid_vat_identifier_prefix v =
     (let prefix = take_chars 2 v
      in length prefix = 2 \<and> contains_str vat_id_country_prefixes ('' '' @ prefix @ '' ''))"

definition document_currency :: "validation_context \<Rightarrow> string option" where
  "document_currency ctx =
     (case ctx_syntax ctx of Ubl \<Rightarrow> path_text (ctx_root ctx) [''DocumentCurrencyCode'']
                           | Cii \<Rightarrow> opt_text (cii_header_settlement ctx) [''InvoiceCurrencyCode''])"

definition tax_currency :: "validation_context \<Rightarrow> string option" where
  "tax_currency ctx =
     (case ctx_syntax ctx of Ubl \<Rightarrow> path_text (ctx_root ctx) [''TaxCurrencyCode'']
                           | Cii \<Rightarrow> opt_text (cii_header_settlement ctx) [''TaxCurrencyCode''])"

definition ubl_tax_amounts_for_currency :: "xml_node \<Rightarrow> string \<Rightarrow> xml_node list" where
  "ubl_tax_amounts_for_currency root currency =
     filter (\<lambda>a. xn_attr a ''currencyID'' = Some currency)
       (List.map_filter (\<lambda>t. xn_child t ''TaxAmount'') (children_named root ''TaxTotal''))"

definition cii_tax_total_amounts_for_currency :: "validation_context \<Rightarrow> string \<Rightarrow> xml_node list" where
  "cii_tax_total_amounts_for_currency ctx currency =
     filter (\<lambda>a. xn_attr a ''currencyID'' = Some currency)
       (opt_children (cii_monetary_total ctx) ''TaxTotalAmount'')"

section \<open>Amounts\<close>

record 'd amount_ops =
  am_parse :: "string \<Rightarrow> 'd option"
  am_zero :: 'd
  am_one :: 'd
  am_new :: "int \<Rightarrow> 'd"
  am_abs :: "'d \<Rightarrow> 'd"
  am_less :: "'d \<Rightarrow> 'd \<Rightarrow> bool"
  am_eq :: "'d \<Rightarrow> 'd \<Rightarrow> bool"
  am_add :: "'d \<Rightarrow> 'd \<Rightarrow> 'd option"
  am_sub :: "'d \<Rightarrow> 'd \<Rightarrow> 'd option"
  am_checked_mul :: "'d \<Rightarrow> 'd \<Rightarrow> 'd option"
  am_checked_div :: "'d \<Rightarrow> 'd \<Rightarrow> 'd option"
  am_round_dp :: "nat \<Rightarrow> 'd \<Rightarrow> 'd"

definition en_decimal :: "'d amount_ops \<Rightarrow> string \<Rightarrow> 'd option" where
  "en_decimal ops v =
     Option.bind (am_parse ops (trim v)) (\<lambda>d.
       if am_less ops (am_new ops 10000000000000000) (am_abs ops d) then None else Some d)"

definition opt_decimal :: "'d amount_ops \<Rightarrow> string option \<Rightarrow> 'd option" where
  "opt_decimal ops t = Option.bind t (en_decimal ops)"

definition or_panic :: "'d option \<Rightarrow> en_stop + 'd" where
  "or_panic x = (case x of None \<Rightarrow> Inl EnPanic | Some d \<Rightarrow> Inr d)"

fun sum_from :: "'d amount_ops \<Rightarrow> 'd \<Rightarrow> 'd list \<Rightarrow> en_stop + 'd" where
  "sum_from ops acc [] = Inr acc"
| "sum_from ops acc (d # ds) = rbind (or_panic (am_add ops acc d)) (\<lambda>a. sum_from ops a ds)"

definition amount_sum :: "'d amount_ops \<Rightarrow> 'd list \<Rightarrow> en_stop + 'd" where
  "amount_sum ops ds = sum_from ops (am_zero ops) ds"

text \<open>\<open>a - b + c\<close> and \<open>a + b - c\<close>\<close>

definition minus_plus :: "'d amount_ops \<Rightarrow> 'd \<Rightarrow> 'd \<Rightarrow> 'd \<Rightarrow> en_stop + 'd" where
  "minus_plus ops a b c = rbind (or_panic (am_sub ops a b)) (\<lambda>d. or_panic (am_add ops d c))"

definition plus_minus :: "'d amount_ops \<Rightarrow> 'd \<Rightarrow> 'd \<Rightarrow> 'd \<Rightarrow> en_stop + 'd" where
  "plus_minus ops a b c = rbind (or_panic (am_add ops a b)) (\<lambda>d. or_panic (am_sub ops d c))"

definition rounded_2 :: "'d amount_ops \<Rightarrow> 'd \<Rightarrow> 'd" where
  "rounded_2 ops d = am_round_dp ops 2 d"

definition rounded_0 :: "'d amount_ops \<Rightarrow> 'd \<Rightarrow> 'd" where
  "rounded_0 ops d = am_round_dp ops 0 d"

definition am_some_eq :: "'d amount_ops \<Rightarrow> 'd option \<Rightarrow> 'd \<Rightarrow> bool" where
  "am_some_eq ops x d = (case x of None \<Rightarrow> False | Some y \<Rightarrow> am_eq ops y d)"

definition category_rate :: "'d amount_ops \<Rightarrow> xml_node \<Rightarrow> document_syntax \<Rightarrow> 'd option" where
  "category_rate ops node syn =
     (case syn of Ubl \<Rightarrow> opt_decimal ops (path_text node [''Percent''])
                | Cii \<Rightarrow> opt_decimal ops (path_text node [''RateApplicablePercent'']))"

definition allowance_charge_amount :: "'d amount_ops \<Rightarrow> xml_node \<Rightarrow> document_syntax \<Rightarrow> 'd option" where
  "allowance_charge_amount ops node syn =
     (case syn of Ubl \<Rightarrow> opt_decimal ops (path_text node [''Amount''])
                | Cii \<Rightarrow> opt_decimal ops (path_text node [''ActualAmount'']))"

definition header_amount :: "'d amount_ops \<Rightarrow> validation_context \<Rightarrow> string \<Rightarrow> 'd option" where
  "header_amount ops ctx name =
     (case ctx_syntax ctx of
        Ubl \<Rightarrow> opt_decimal ops (opt_text (ubl_monetary_total ctx) [name])
      | Cii \<Rightarrow> opt_decimal ops (opt_text (cii_monetary_total ctx) [name]))"

definition line_amount_text :: "document_syntax \<Rightarrow> xml_node \<Rightarrow> string option" where
  "line_amount_text syn line =
     (case syn of
        Ubl \<Rightarrow> path_text line [''LineExtensionAmount'']
      | Cii \<Rightarrow> path_text line [''SpecifiedLineTradeSettlement'',
                 ''SpecifiedTradeSettlementLineMonetarySummation'', ''LineTotalAmount''])"

definition line_amounts :: "'d amount_ops \<Rightarrow> validation_context \<Rightarrow> 'd list" where
  "line_amounts ops ctx =
     List.map_filter (\<lambda>line. opt_decimal ops (line_amount_text (ctx_syntax ctx) line))
       (filter (is_top_level_line (ctx_syntax ctx)) (ctx_line_nodes ctx))"

definition br_co_17_within_tolerance :: "'d amount_ops \<Rightarrow> document_syntax \<Rightarrow> 'd \<Rightarrow> 'd \<Rightarrow> en_stop + bool" where
  "br_co_17_within_tolerance ops syn actual expected =
     rbind (or_panic (am_sub ops actual (am_one ops))) (\<lambda>low.
       case syn of
         Ubl \<Rightarrow> if am_less ops low expected
                then rbind (or_panic (am_add ops actual (am_one ops))) (\<lambda>high. Inr (am_less ops expected high))
                else Inr False
       | Cii \<Rightarrow> if \<not> am_less ops expected low
                then rbind (or_panic (am_add ops actual (am_one ops))) (\<lambda>high. Inr (\<not> am_less ops high expected))
                else Inr False)"

section \<open>The context\<close>

definition context_of :: "document_syntax \<Rightarrow> xml_node \<Rightarrow> validation_context" where
  "context_of syn root =
     \<lparr>ctx_syntax = syn, ctx_root = root, ctx_line_nodes = collect_lines syn root,
      ctx_tax_summary_nodes = collect_tax_summaries syn root,
      ctx_tax_representative_nodes = collect_tax_representatives syn root,
      ctx_payment_means_nodes = collect_payment_means syn root,
      ctx_allowance_nodes = collect_document_allowance_charges syn root False,
      ctx_charge_nodes = collect_document_allowance_charges syn root True,
      ctx_invoice_period_nodes = collect_invoice_periods syn root\<rparr>"

end
