(* ===== verification/En_Rules_Br.thy ===== *)
theory En_Rules_Br
  imports En_Select
begin

text \<open>
  The rules BR-01 to BR-65 of \<open>crates/validate-ubl-cii/src/lib.rs\<close>, one definition per function, each the
  list of findings it appends.
\<close>

section \<open>The document\<close>

definition br_01 :: "validation_context \<Rightarrow> rule_outcome" where
  "br_01 ctx = require_text ''BR-01'' ''BT-24'' ''/document/profile''
     (case ctx_syntax ctx of
        Ubl \<Rightarrow> path_text (ctx_root ctx) [''CustomizationID'']
      | Cii \<Rightarrow> path_text (ctx_root ctx)
                 [''ExchangedDocumentContext'', ''GuidelineSpecifiedDocumentContextParameter'', ''ID''])
     ''Set the EN 16931 profile specification identifier''"

definition br_02 :: "validation_context \<Rightarrow> rule_outcome" where
  "br_02 ctx = require_text ''BR-02'' ''BT-1'' ''/document/id''
     (case ctx_syntax ctx of
        Ubl \<Rightarrow> path_text (ctx_root ctx) [''ID'']
      | Cii \<Rightarrow> path_text (ctx_root ctx) [''ExchangedDocument'', ''ID''])
     ''Set the invoice number''"

definition br_03 :: "validation_context \<Rightarrow> rule_outcome" where
  "br_03 ctx = require_text ''BR-03'' ''BT-2'' ''/document/issue_date''
     (case ctx_syntax ctx of
        Ubl \<Rightarrow> path_text (ctx_root ctx) [''IssueDate'']
      | Cii \<Rightarrow> Option.bind (opt_filter (\<lambda>n. xn_attr n ''format'' = Some ''102'')
                  (xn_path (ctx_root ctx) [''ExchangedDocument'', ''IssueDateTime'', ''DateTimeString'']))
                (\<lambda>n. en_non_blank (xn_text n)))
     ''Set the invoice issue date''"

definition br_04 :: "validation_context \<Rightarrow> rule_outcome" where
  "br_04 ctx = require_text ''BR-04'' ''BT-3'' ''/document/type_code''
     (case ctx_syntax ctx of
        Ubl \<Rightarrow> or_else (path_text (ctx_root ctx) [''InvoiceTypeCode''])
                 (path_text (ctx_root ctx) [''CreditNoteTypeCode''])
      | Cii \<Rightarrow> path_text (ctx_root ctx) [''ExchangedDocument'', ''TypeCode''])
     ''Set the invoice type code''"

definition br_05 :: "validation_context \<Rightarrow> rule_outcome" where
  "br_05 ctx = require_text ''BR-05'' ''BT-5'' ''/document/currency''
     (case ctx_syntax ctx of
        Ubl \<Rightarrow> path_text (ctx_root ctx) [''DocumentCurrencyCode'']
      | Cii \<Rightarrow> opt_text (cii_header_settlement ctx) [''InvoiceCurrencyCode''])
     ''Set the document currency code''"

definition br_06 :: "validation_context \<Rightarrow> rule_outcome" where
  "br_06 ctx = require_text ''BR-06'' ''BT-27'' ''/supplier/name''
     (case ctx_syntax ctx of
        Ubl \<Rightarrow> path_text (ctx_root ctx)
                 [''AccountingSupplierParty'', ''Party'', ''PartyLegalEntity'', ''RegistrationName'']
      | Cii \<Rightarrow> path_text (ctx_root ctx)
                 [''SupplyChainTradeTransaction'', ''ApplicableHeaderTradeAgreement'', ''SellerTradeParty'', ''Name''])
     ''Set the seller name''"

definition br_07 :: "validation_context \<Rightarrow> rule_outcome" where
  "br_07 ctx = require_text ''BR-07'' ''BT-44'' ''/customer/name''
     (case ctx_syntax ctx of
        Ubl \<Rightarrow> path_text (ctx_root ctx)
                 [''AccountingCustomerParty'', ''Party'', ''PartyLegalEntity'', ''RegistrationName'']
      | Cii \<Rightarrow> path_text (ctx_root ctx)
                 [''SupplyChainTradeTransaction'', ''ApplicableHeaderTradeAgreement'', ''BuyerTradeParty'', ''Name''])
     ''Set the buyer name''"

definition br_08 :: "validation_context \<Rightarrow> rule_outcome" where
  "br_08 ctx = fail_if
     (case ctx_syntax ctx of
        Ubl \<Rightarrow> xn_path (ctx_root ctx) [''AccountingSupplierParty'', ''Party'', ''PostalAddress''] = None
      | Cii \<Rightarrow> xn_path (ctx_root ctx)
                 [''SupplyChainTradeTransaction'', ''ApplicableHeaderTradeAgreement'', ''SellerTradeParty'',
                  ''PostalTradeAddress''] = None)
     ''BR-08'' ''BG-5'' ''/supplier/address'' ''Add the seller postal address''"

definition br_09 :: "validation_context \<Rightarrow> rule_outcome" where
  "br_09 ctx = require_text ''BR-09'' ''BT-40'' ''/supplier/address/country''
     (case ctx_syntax ctx of
        Ubl \<Rightarrow> path_text (ctx_root ctx)
                 [''AccountingSupplierParty'', ''Party'', ''PostalAddress'', ''Country'', ''IdentificationCode'']
      | Cii \<Rightarrow> path_text (ctx_root ctx)
                 [''SupplyChainTradeTransaction'', ''ApplicableHeaderTradeAgreement'', ''SellerTradeParty'',
                  ''PostalTradeAddress'', ''CountryID''])
     ''Set the seller country code''"

definition br_10 :: "validation_context \<Rightarrow> rule_outcome" where
  "br_10 ctx = fail_if
     (case ctx_syntax ctx of
        Ubl \<Rightarrow> xn_path (ctx_root ctx) [''AccountingCustomerParty'', ''Party'', ''PostalAddress''] = None
      | Cii \<Rightarrow> xn_path (ctx_root ctx)
                 [''SupplyChainTradeTransaction'', ''ApplicableHeaderTradeAgreement'', ''BuyerTradeParty'',
                  ''PostalTradeAddress''] = None)
     ''BR-10'' ''BG-8'' ''/customer/address'' ''Add the buyer postal address''"

definition br_11 :: "validation_context \<Rightarrow> rule_outcome" where
  "br_11 ctx = require_text ''BR-11'' ''BT-55'' ''/customer/address/country''
     (case ctx_syntax ctx of
        Ubl \<Rightarrow> path_text (ctx_root ctx)
                 [''AccountingCustomerParty'', ''Party'', ''PostalAddress'', ''Country'', ''IdentificationCode'']
      | Cii \<Rightarrow> path_text (ctx_root ctx)
                 [''SupplyChainTradeTransaction'', ''ApplicableHeaderTradeAgreement'', ''BuyerTradeParty'',
                  ''PostalTradeAddress'', ''CountryID''])
     ''Set the buyer country code''"

definition total_text :: "validation_context \<Rightarrow> string \<Rightarrow> string \<Rightarrow> string option" where
  "total_text ctx ubl_name cii_name =
     (case ctx_syntax ctx of
        Ubl \<Rightarrow> opt_text (ubl_monetary_total ctx) [ubl_name]
      | Cii \<Rightarrow> opt_text (cii_monetary_total ctx) [cii_name])"

definition br_12 :: "validation_context \<Rightarrow> rule_outcome" where
  "br_12 ctx = require_text ''BR-12'' ''BT-106'' ''/monetary_total/line_extension_amount''
     (total_text ctx ''LineExtensionAmount'' ''LineTotalAmount'') ''Set the sum of invoice line net amounts''"

definition br_13 :: "validation_context \<Rightarrow> rule_outcome" where
  "br_13 ctx = require_text ''BR-13'' ''BT-109'' ''/monetary_total/tax_exclusive_amount''
     (total_text ctx ''TaxExclusiveAmount'' ''TaxBasisTotalAmount'') ''Set the invoice total without VAT''"

definition br_14 :: "validation_context \<Rightarrow> rule_outcome" where
  "br_14 ctx = require_text ''BR-14'' ''BT-112'' ''/monetary_total/tax_inclusive_amount''
     (total_text ctx ''TaxInclusiveAmount'' ''GrandTotalAmount'') ''Set the invoice total with VAT''"

definition br_15 :: "validation_context \<Rightarrow> rule_outcome" where
  "br_15 ctx = require_text ''BR-15'' ''BT-115'' ''/monetary_total/payable_amount''
     (total_text ctx ''PayableAmount'' ''DuePayableAmount'') ''Set the amount due for payment''"

definition br_16 :: "validation_context \<Rightarrow> rule_outcome" where
  "br_16 ctx = fail_if (ctx_line_nodes ctx = []) ''BR-16'' ''BG-25'' ''/lines'' ''Add at least one invoice line''"

text \<open>\<open>None\<close> where there is no payee.\<close>

definition valid_payee :: "validation_context \<Rightarrow> bool option" where
  "valid_payee ctx =
     (case ctx_syntax ctx of
        Ubl \<Rightarrow> map_option (\<lambda>payee.
            let seller = xn_path (ctx_root ctx) [''AccountingSupplierParty'', ''Party''];
                seller_name = opt_text seller [''PartyName'', ''Name''];
                seller_id = opt_text seller [''PartyIdentification'', ''ID''];
                payee_name = path_text payee [''PartyName'', ''Name''];
                payee_id = path_text payee [''PartyIdentification'', ''ID'']
            in payee_name \<noteq> None \<and> differs_when_both_present payee_name seller_name
               \<and> differs_when_both_present payee_id seller_id)
          (xn_child (ctx_root ctx) ''PayeeParty'')
      | Cii \<Rightarrow> map_option (\<lambda>payee.
            let seller = xn_path (ctx_root ctx)
                  [''SupplyChainTradeTransaction'', ''ApplicableHeaderTradeAgreement'', ''SellerTradeParty''];
                seller_name = opt_text seller [''Name''];
                seller_id = opt_text seller [''ID''];
                seller_legal_id = opt_text seller [''SpecifiedLegalOrganization'', ''ID''];
                payee_name = path_text payee [''Name''];
                payee_id = path_text payee [''ID''];
                payee_legal_id = path_text payee [''SpecifiedLegalOrganization'', ''ID'']
            in payee_name \<noteq> None \<and> differs_when_both_present payee_name seller_name
               \<and> differs_when_both_present payee_id seller_id
               \<and> differs_when_both_present payee_legal_id seller_legal_id)
          (xn_path (ctx_root ctx)
             [''SupplyChainTradeTransaction'', ''ApplicableHeaderTradeSettlement'', ''PayeeTradeParty'']))"

definition br_17 :: "validation_context \<Rightarrow> rule_outcome" where
  "br_17 ctx = fail_if (valid_payee ctx = Some False) ''BR-17'' ''BT-59'' ''/payee/name''
     ''Set a payee name and identifier that differ from the seller when a payee party is present''"

section \<open>The tax representative\<close>

definition br_18 :: "validation_context \<Rightarrow> rule_outcome" where
  "br_18 ctx = each (\<lambda>i representative. fail_if
       ((case ctx_syntax ctx of Ubl \<Rightarrow> path_text representative [''PartyName'', ''Name'']
                              | Cii \<Rightarrow> path_text representative [''Name'']) = None)
       ''BR-18'' ''BT-62'' (''/seller/tax_representative/'' @ number i @ ''/name'')
       ''Set the seller tax representative name'')
     (ctx_tax_representative_nodes ctx)"

definition br_19 :: "validation_context \<Rightarrow> rule_outcome" where
  "br_19 ctx = each (\<lambda>i representative. fail_if
       (case ctx_syntax ctx of Ubl \<Rightarrow> xn_child representative ''PostalAddress'' = None
                             | Cii \<Rightarrow> xn_child representative ''PostalTradeAddress'' = None)
       ''BR-19'' ''BG-12'' (''/seller/tax_representative/'' @ number i @ ''/address'')
       ''Add the seller tax representative postal address'')
     (ctx_tax_representative_nodes ctx)"

definition br_20 :: "validation_context \<Rightarrow> rule_outcome" where
  "br_20 ctx = each (\<lambda>i representative. fail_if
       (case ctx_syntax ctx of
          Ubl \<Rightarrow> xn_child representative ''PostalAddress'' \<noteq> None
                 \<and> path_text representative [''PostalAddress'', ''Country'', ''IdentificationCode''] = None
        | Cii \<Rightarrow> path_text representative [''PostalTradeAddress'', ''CountryID''] = None)
       ''BR-20'' ''BT-69'' (''/seller/tax_representative/'' @ number i @ ''/address/country'')
       ''Set the seller tax representative country code'')
     (ctx_tax_representative_nodes ctx)"

section \<open>Lines\<close>

definition br_21 :: "validation_context \<Rightarrow> rule_outcome" where
  "br_21 ctx = each (\<lambda>i line. fail_if
       ((case ctx_syntax ctx of Ubl \<Rightarrow> path_text line [''ID'']
                              | Cii \<Rightarrow> path_text line [''AssociatedDocumentLineDocument'', ''LineID'']) = None)
       ''BR-21'' ''BT-126'' (''/lines/'' @ number i @ ''/id'') ''Set the invoice line identifier'')
     (filter (is_top_level_line (ctx_syntax ctx)) (ctx_line_nodes ctx))"

definition br_22 :: "validation_context \<Rightarrow> rule_outcome" where
  "br_22 ctx = each (\<lambda>i line. fail_if
       ((case ctx_syntax ctx of
           Ubl \<Rightarrow> or_else (path_text line [''InvoicedQuantity'']) (path_text line [''CreditedQuantity''])
         | Cii \<Rightarrow> path_text line [''SpecifiedLineTradeDelivery'', ''BilledQuantity'']) = None)
       ''BR-22'' ''BT-129'' (''/lines/'' @ number i @ ''/quantity'') ''Set the invoice line quantity'')
     (ctx_line_nodes ctx)"

definition br_23 :: "validation_context \<Rightarrow> rule_outcome" where
  "br_23 ctx = each (\<lambda>i line. fail_if
       (Option.bind (case ctx_syntax ctx of
            Ubl \<Rightarrow> or_else (xn_child line ''InvoicedQuantity'') (xn_child line ''CreditedQuantity'')
          | Cii \<Rightarrow> xn_path line [''SpecifiedLineTradeDelivery'', ''BilledQuantity''])
          (\<lambda>n. Option.bind (xn_attr n ''unitCode'') en_non_blank) = None)
       ''BR-23'' ''BT-130'' (''/lines/'' @ number i @ ''/unit_code'') ''Set the invoice line unit code'')
     (ctx_line_nodes ctx)"

definition br_24 :: "validation_context \<Rightarrow> rule_outcome" where
  "br_24 ctx = each (\<lambda>i line. fail_if (line_amount_text (ctx_syntax ctx) line = None)
       ''BR-24'' ''BT-131'' (''/lines/'' @ number i @ ''/line_extension_amount'') ''Set the invoice line net amount'')
     (ctx_line_nodes ctx)"

definition br_25 :: "validation_context \<Rightarrow> rule_outcome" where
  "br_25 ctx = each (\<lambda>i line. fail_if
       ((case ctx_syntax ctx of Ubl \<Rightarrow> path_text line [''Item'', ''Name'']
                              | Cii \<Rightarrow> path_text line [''SpecifiedTradeProduct'', ''Name'']) = None)
       ''BR-25'' ''BT-153'' (''/lines/'' @ number i @ ''/description'') ''Set the item name'')
     (ctx_line_nodes ctx)"

definition net_price_text :: "document_syntax \<Rightarrow> xml_node \<Rightarrow> string option" where
  "net_price_text syn line =
     (case syn of
        Ubl \<Rightarrow> path_text line [''Price'', ''PriceAmount'']
      | Cii \<Rightarrow> path_text line [''SpecifiedLineTradeAgreement'', ''NetPriceProductTradePrice'', ''ChargeAmount''])"

definition br_26 :: "validation_context \<Rightarrow> rule_outcome" where
  "br_26 ctx = each (\<lambda>i line. fail_if (net_price_text (ctx_syntax ctx) line = None)
       ''BR-26'' ''BT-146'' (''/lines/'' @ number i @ ''/unit_price'') ''Set the item net price'')
     (ctx_line_nodes ctx)"

definition br_27 :: "'d amount_ops \<Rightarrow> validation_context \<Rightarrow> rule_outcome" where
  "br_27 ops ctx = each (\<lambda>i line. fail_if
       (opt_holds (\<lambda>a. am_less ops a (am_zero ops)) (opt_decimal ops (net_price_text (ctx_syntax ctx) line)))
       ''BR-27'' ''BT-146'' (''/lines/'' @ number i @ ''/unit_price'') ''Set a non-negative item net price'')
     (ctx_line_nodes ctx)"

definition br_28 :: "'d amount_ops \<Rightarrow> validation_context \<Rightarrow> rule_outcome" where
  "br_28 ops ctx = each (\<lambda>i line. fail_if
       (opt_holds (\<lambda>a. am_less ops a (am_zero ops)) (opt_decimal ops (case ctx_syntax ctx of
            Ubl \<Rightarrow> path_text line [''Price'', ''AllowanceCharge'', ''BaseAmount'']
          | Cii \<Rightarrow> path_text line [''SpecifiedLineTradeAgreement'', ''GrossPriceProductTradePrice'', ''ChargeAmount''])))
       ''BR-28'' ''BT-148'' (''/lines/'' @ number i @ ''/gross_price'') ''Set a non-negative item gross price'')
     (ctx_line_nodes ctx)"

section \<open>Periods\<close>

definition br_29 :: "validation_context \<Rightarrow> rule_outcome" where
  "br_29 ctx = each (\<lambda>i period. fail_if (period_reversed period (ctx_syntax ctx))
       ''BR-29'' ''BT-74'' (''/invoice_periods/'' @ number i @ ''/end_date'')
       ''Set an invoicing period end date later than or equal to the start date'')
     (ctx_invoice_period_nodes ctx)"

definition line_periods :: "document_syntax \<Rightarrow> xml_node \<Rightarrow> xml_node list" where
  "line_periods syn line =
     (case syn of
        Ubl \<Rightarrow> children_named line ''InvoicePeriod''
      | Cii \<Rightarrow> opt_children (xn_path line [''SpecifiedLineTradeSettlement'']) ''BillingSpecifiedPeriod'')"

definition br_30 :: "validation_context \<Rightarrow> rule_outcome" where
  "br_30 ctx = each (\<lambda>i line. each (\<lambda>j period. fail_if (period_reversed period (ctx_syntax ctx))
         ''BR-30'' ''BT-135'' (''/lines/'' @ number i @ ''/periods/'' @ number j @ ''/end_date'')
         ''Set an invoice line period end date later than or equal to the start date'')
       (line_periods (ctx_syntax ctx) line))
     (ctx_line_nodes ctx)"

section \<open>Allowances and charges\<close>

definition br_31 :: "validation_context \<Rightarrow> rule_outcome" where
  "br_31 ctx = each (\<lambda>i charge. fail_if (\<not> has_allowance_charge_amount charge (ctx_syntax ctx))
       ''BR-31'' ''BT-92'' (''/document_allowances/'' @ number i @ ''/amount'')
       ''Set the document-level allowance amount'')
     (document_allowance_charges ctx False)"

definition br_32 :: "validation_context \<Rightarrow> rule_outcome" where
  "br_32 ctx = each (\<lambda>i charge. fail_if (\<not> has_allowance_charge_vat_category charge (ctx_syntax ctx))
       ''BR-32'' ''BT-95'' (''/document_allowances/'' @ number i @ ''/vat_category'')
       ''Set the document-level allowance VAT category code'')
     (document_allowance_charges ctx False)"

definition br_33 :: "validation_context \<Rightarrow> rule_outcome" where
  "br_33 ctx = each (\<lambda>i charge. fail_if (\<not> has_allowance_charge_reason charge (ctx_syntax ctx))
       ''BR-33'' ''BT-97'' (''/document_allowances/'' @ number i @ ''/reason'')
       ''Set a document-level allowance reason or reason code'')
     (document_allowance_charges ctx False)"

definition br_36 :: "validation_context \<Rightarrow> rule_outcome" where
  "br_36 ctx = each (\<lambda>i charge. fail_if (\<not> has_allowance_charge_amount charge (ctx_syntax ctx))
       ''BR-36'' ''BT-99'' (''/document_charges/'' @ number i @ ''/amount'')
       ''Set the document-level charge amount'')
     (document_allowance_charges ctx True)"

definition br_37 :: "validation_context \<Rightarrow> rule_outcome" where
  "br_37 ctx = each (\<lambda>i charge. fail_if (\<not> has_allowance_charge_vat_category charge (ctx_syntax ctx))
       ''BR-37'' ''BT-102'' (''/document_charges/'' @ number i @ ''/vat_category'')
       ''Set the document-level charge VAT category code'')
     (document_allowance_charges ctx True)"

definition br_38 :: "validation_context \<Rightarrow> rule_outcome" where
  "br_38 ctx = each (\<lambda>i charge. fail_if (\<not> has_allowance_charge_reason charge (ctx_syntax ctx))
       ''BR-38'' ''BT-104'' (''/document_charges/'' @ number i @ ''/reason'')
       ''Set a document-level charge reason or reason code'')
     (document_allowance_charges ctx True)"

definition br_41 :: "validation_context \<Rightarrow> rule_outcome" where
  "br_41 ctx = each (\<lambda>i line. each (\<lambda>j charge. fail_if (\<not> has_allowance_charge_amount charge (ctx_syntax ctx))
         ''BR-41'' ''BT-136'' (''/lines/'' @ number i @ ''/allowances/'' @ number j @ ''/amount'')
         ''Set the invoice line allowance amount'')
       (en_line_allowance_charges ctx line False))
     (ctx_line_nodes ctx)"

definition br_42 :: "validation_context \<Rightarrow> rule_outcome" where
  "br_42 ctx = each (\<lambda>i line. each (\<lambda>j charge. fail_if (\<not> has_allowance_charge_reason charge (ctx_syntax ctx))
         ''BR-42'' ''BT-139'' (''/lines/'' @ number i @ ''/allowances/'' @ number j @ ''/reason'')
         ''Set an invoice line allowance reason or reason code'')
       (en_line_allowance_charges ctx line False))
     (ctx_line_nodes ctx)"

definition br_43 :: "validation_context \<Rightarrow> rule_outcome" where
  "br_43 ctx = each (\<lambda>i line. each (\<lambda>j charge. fail_if (\<not> has_allowance_charge_amount charge (ctx_syntax ctx))
         ''BR-43'' ''BT-141'' (''/lines/'' @ number i @ ''/charges/'' @ number j @ ''/amount'')
         ''Set the invoice line charge amount'')
       (en_line_allowance_charges ctx line True))
     (ctx_line_nodes ctx)"

definition br_44 :: "validation_context \<Rightarrow> rule_outcome" where
  "br_44 ctx = each (\<lambda>i line. each (\<lambda>j charge. fail_if (\<not> has_allowance_charge_reason charge (ctx_syntax ctx))
         ''BR-44'' ''BT-144'' (''/lines/'' @ number i @ ''/charges/'' @ number j @ ''/reason'')
         ''Set an invoice line charge reason or reason code'')
       (en_line_allowance_charges ctx line True))
     (ctx_line_nodes ctx)"

section \<open>The VAT breakdown\<close>

definition br_45 :: "validation_context \<Rightarrow> rule_outcome" where
  "br_45 ctx = each (\<lambda>i tax. fail_if
       ((case ctx_syntax ctx of Ubl \<Rightarrow> path_text tax [''TaxableAmount''] | Cii \<Rightarrow> path_text tax [''BasisAmount'']) = None)
       ''BR-45'' ''BT-116'' (''/tax_summary/'' @ number i @ ''/taxable_amount'') ''Set the VAT category taxable amount'')
     (ctx_tax_summary_nodes ctx)"

definition br_46 :: "validation_context \<Rightarrow> rule_outcome" where
  "br_46 ctx = each (\<lambda>i tax. fail_if
       ((case ctx_syntax ctx of Ubl \<Rightarrow> path_text tax [''TaxAmount''] | Cii \<Rightarrow> path_text tax [''CalculatedAmount'']) = None)
       ''BR-46'' ''BT-117'' (''/tax_summary/'' @ number i @ ''/tax_amount'') ''Set the VAT category tax amount'')
     (ctx_tax_summary_nodes ctx)"

text \<open>The VAT category element of a breakdown group.\<close>

definition summary_category :: "document_syntax \<Rightarrow> xml_node \<Rightarrow> xml_node option" where
  "summary_category syn tax = (case syn of Ubl \<Rightarrow> ubl_vat_tax_category tax | Cii \<Rightarrow> cii_vat_tax tax)"

definition br_47 :: "validation_context \<Rightarrow> rule_outcome" where
  "br_47 ctx = each (\<lambda>i tax. fail_if
       ((case ctx_syntax ctx of Ubl \<Rightarrow> opt_text (ubl_vat_tax_category tax) [''ID'']
                              | Cii \<Rightarrow> opt_text (cii_vat_tax tax) [''CategoryCode'']) = None)
       ''BR-47'' ''BT-118'' (''/tax_summary/'' @ number i @ ''/category_code'') ''Set the VAT category code'')
     (ctx_tax_summary_nodes ctx)"

definition br_48 :: "validation_context \<Rightarrow> rule_outcome" where
  "br_48 ctx = each (\<lambda>i tax. fail_if
       (case (case ctx_syntax ctx of
                Ubl \<Rightarrow> (opt_text (ubl_vat_tax_category tax) [''ID''], opt_text (ubl_vat_tax_category tax) [''Percent''])
              | Cii \<Rightarrow> (opt_text (cii_vat_tax tax) [''CategoryCode''],
                        opt_text (cii_vat_tax tax) [''RateApplicablePercent''])) of
          (category, rate) \<Rightarrow> \<not> opt_holds is_category_o category \<and> rate = None)
       ''BR-48'' ''BT-119'' (''/tax_summary/'' @ number i @ ''/tax_rate'')
       ''Set the VAT category rate unless the category is O'')
     (ctx_tax_summary_nodes ctx)"

section \<open>Payments\<close>

definition br_49 :: "validation_context \<Rightarrow> rule_outcome" where
  "br_49 ctx = each (\<lambda>i payment. fail_if (payment_code payment (ctx_syntax ctx) = None)
       ''BR-49'' ''BT-81'' (''/payment_means/'' @ number i @ ''/type_code'') ''Set the payment means type code'')
     (ctx_payment_means_nodes ctx)"

definition br_50 :: "validation_context \<Rightarrow> rule_outcome" where
  "br_50 ctx = each (\<lambda>i payment. fail_if
       (opt_holds is_credit_transfer_code (payment_code payment (ctx_syntax ctx))
        \<and> payment_account_node payment (ctx_syntax ctx) \<noteq> None
        \<and> payment_account_id payment (ctx_syntax ctx) = None)
       ''BR-50'' ''BT-84'' (''/payment_means/'' @ number i @ ''/account/id'') ''Set the payment account identifier'')
     (ctx_payment_means_nodes ctx)"

definition long_card_number :: "string option \<Rightarrow> bool" where
  "long_card_number t = opt_holds (\<lambda>v. char_count (trim v) > 10) t"

definition br_51 :: "validation_context \<Rightarrow> rule_outcome" where
  "br_51 ctx =
     (case ctx_syntax ctx of
        Ubl \<Rightarrow> each (\<lambda>i card.
              if long_card_number (path_text card [''PrimaryAccountNumberID''])
              then fail_with_severity ''BR-51'' Warning ''BT-87''
                     (''/payment_card/'' @ number i @ ''/primary_account_number'')
                     ''Store at most the first six and last four payment card digits''
              else Inr [])
            (List.map_filter (\<lambda>p. xn_child p ''CardAccount'') (children_named (ctx_root ctx) ''PaymentMeans''))
      | Cii \<Rightarrow> each (\<lambda>i card. fail_if (long_card_number (path_text card [''ID'']))
              ''BR-51'' ''BT-87'' (''/payment_card/'' @ number i @ ''/primary_account_number'')
              ''Store at most the first six and last four payment card digits'')
            (descendants ''ApplicableTradeSettlementFinancialCard'' (ctx_root ctx)))"

section \<open>References and attributes\<close>

definition br_52 :: "validation_context \<Rightarrow> rule_outcome" where
  "br_52 ctx = each (\<lambda>i reference. fail_if
       ((case ctx_syntax ctx of Ubl \<Rightarrow> path_text reference [''ID'']
                              | Cii \<Rightarrow> path_text reference [''IssuerAssignedID'']) = None)
       ''BR-52'' ''BT-122'' (''/supporting_documents/'' @ number i @ ''/reference'')
       ''Set the supporting document reference'')
     (case ctx_syntax ctx of Ubl \<Rightarrow> children_named (ctx_root ctx) ''AdditionalDocumentReference''
                           | Cii \<Rightarrow> descendants ''AdditionalReferencedDocument'' (ctx_root ctx))"

definition br_53 :: "validation_context \<Rightarrow> rule_outcome" where
  "br_53 ctx =
     (case tax_currency ctx of
        None \<Rightarrow> Inr []
      | Some currency \<Rightarrow>
          fail_if (\<not> (case ctx_syntax ctx of
                Ubl \<Rightarrow> ubl_tax_amounts_for_currency (ctx_root ctx) currency \<noteq> []
              | Cii \<Rightarrow> document_currency ctx \<noteq> Some currency
                       \<and> cii_tax_total_amounts_for_currency ctx currency \<noteq> []))
            ''BR-53'' ''BT-111'' ''/tax_total/accounting_currency_amount''
            ''Provide the invoice total VAT amount in the VAT accounting currency'')"

text \<open>The UBL loop numbers the attributes across the lines.\<close>

definition br_54 :: "validation_context \<Rightarrow> rule_outcome" where
  "br_54 ctx =
     (case ctx_syntax ctx of
        Ubl \<Rightarrow> each (\<lambda>i attribute. fail_if
              (path_text attribute [''Name''] = None \<or> path_text attribute [''Value''] = None)
              ''BR-54'' ''BG-32'' (''/item_attributes/'' @ number i) ''Set both the item attribute name and value'')
            (concat (map (\<lambda>line. opt_children (xn_child line ''Item'') ''AdditionalItemProperty'') (ctx_line_nodes ctx)))
      | Cii \<Rightarrow> each (\<lambda>i attribute. fail_if
              (path_text attribute [''Description''] = None \<or> path_text attribute [''Value''] = None)
              ''BR-54'' ''BG-32'' (''/item_attributes/'' @ number i) ''Set both the item attribute name and value'')
            (descendants ''ApplicableProductCharacteristic'' (ctx_root ctx)))"

definition br_55 :: "validation_context \<Rightarrow> rule_outcome" where
  "br_55 ctx =
     (case ctx_syntax ctx of
        Ubl \<Rightarrow> each (\<lambda>i reference. fail_if (path_text reference [''ID''] = None)
              ''BR-55'' ''BT-25'' (''/references/'' @ number i @ ''/id'')
              ''Set the preceding invoice reference identifier'')
            (List.map_filter (\<lambda>b. xn_child b ''InvoiceDocumentReference'')
               (children_named (ctx_root ctx) ''BillingReference''))
      | Cii \<Rightarrow> each (\<lambda>i reference. fail_if (path_text reference [''IssuerAssignedID''] = None)
              ''BR-55'' ''BT-25'' (''/references/'' @ number i @ ''/id'')
              ''Set the preceding invoice reference identifier'')
            (descendants ''AdditionalReferencedDocument'' (ctx_root ctx)))"

definition br_56 :: "validation_context \<Rightarrow> rule_outcome" where
  "br_56 ctx = each (\<lambda>i representative. fail_if
       ((case ctx_syntax ctx of
           Ubl \<Rightarrow> opt_text (find has_vat_tax_scheme (children_named representative ''PartyTaxScheme'')) [''CompanyID'']
         | Cii \<Rightarrow> opt_text
              (find (\<lambda>r. opt_holds (\<lambda>n. xn_attr n ''schemeID'' = Some ''VA'') (xn_child r ''ID''))
                 (children_named representative ''SpecifiedTaxRegistration'')) [''ID'']) = None)
       ''BR-56'' ''BT-63'' (''/seller/tax_representative/'' @ number i @ ''/vat_id'')
       ''Set the seller tax representative VAT identifier'')
     (ctx_tax_representative_nodes ctx)"

definition br_57 :: "validation_context \<Rightarrow> rule_outcome" where
  "br_57 ctx =
     (case ctx_syntax ctx of
        Ubl \<Rightarrow> each (\<lambda>i address. fail_if (path_text address [''Country'', ''IdentificationCode''] = None)
              ''BR-57'' ''BT-80'' (''/delivery/'' @ number i @ ''/address/country'') ''Set the deliver-to country code'')
            (List.map_filter (\<lambda>d. xn_path d [''DeliveryLocation'', ''Address'']) (children_named (ctx_root ctx) ''Delivery''))
      | Cii \<Rightarrow> each (\<lambda>i delivery. fail_if
              (opt_holds (\<lambda>a. path_text a [''CountryID''] = None)
                 (xn_path delivery [''ShipToTradeParty'', ''PostalTradeAddress'']))
              ''BR-57'' ''BT-80'' (''/delivery/'' @ number i @ ''/address/country'') ''Set the deliver-to country code'')
            (descendants ''ApplicableHeaderTradeDelivery'' (ctx_root ctx)))"

definition br_61 :: "validation_context \<Rightarrow> rule_outcome" where
  "br_61 ctx = each (\<lambda>i payment.
       case payment_code payment (ctx_syntax ctx) of
         None \<Rightarrow> Inr []
       | Some code \<Rightarrow>
           if \<not> is_credit_transfer_code code then Inr []
           else fail_if
             (case ctx_syntax ctx of
                Ubl \<Rightarrow> payment_account_id payment (ctx_syntax ctx) = None
              | Cii \<Rightarrow> opt_holds (\<lambda>a. xn_child a ''IBANID'' = None \<and> xn_child a ''ProprietaryID'' = None)
                         (payment_account_node payment (ctx_syntax ctx)))
             ''BR-61'' ''BT-84'' (''/payment_means/'' @ number i @ ''/account/id'')
             ''Set the payment account identifier for credit transfer payments'')
     (ctx_payment_means_nodes ctx)"

section \<open>Scheme identifiers\<close>

text \<open>An electronic address without a scheme, for the seller and the buyer.\<close>

definition endpoint_scheme_missing :: "document_syntax \<Rightarrow> xml_node option \<Rightarrow> bool" where
  "endpoint_scheme_missing syn party =
     (case syn of
        Ubl \<Rightarrow> opt_holds (\<lambda>e. \<not> attr_is_non_blank e ''schemeID'') (Option.bind party (\<lambda>p. xn_child p ''EndpointID''))
      | Cii \<Rightarrow> opt_holds (\<lambda>p. opt_holds
                  (\<lambda>c. \<not> opt_holds (\<lambda>u. attr_is_non_blank u ''schemeID'') (xn_child c ''URIID''))
                  (xn_child p ''URIUniversalCommunication'')) party)"

definition br_62 :: "validation_context \<Rightarrow> rule_outcome" where
  "br_62 ctx = fail_if (endpoint_scheme_missing (ctx_syntax ctx) (seller_party ctx))
     ''BR-62'' ''BT-34'' ''/seller/electronic_address/scheme''
     ''Set the seller electronic address scheme identifier''"

definition br_63 :: "validation_context \<Rightarrow> rule_outcome" where
  "br_63 ctx = fail_if (endpoint_scheme_missing (ctx_syntax ctx) (buyer_party ctx))
     ''BR-63'' ''BT-49'' ''/buyer/electronic_address/scheme''
     ''Set the buyer electronic address scheme identifier''"

definition br_64 :: "validation_context \<Rightarrow> rule_outcome" where
  "br_64 ctx = each (\<lambda>i line. fail_if
       (opt_holds (\<lambda>n. \<not> attr_is_non_blank n ''schemeID'')
          (case ctx_syntax ctx of
             Ubl \<Rightarrow> Option.bind (xn_path line [''Item'', ''StandardItemIdentification'']) (\<lambda>n. xn_child n ''ID'')
           | Cii \<Rightarrow> xn_path line [''SpecifiedTradeProduct'', ''GlobalID'']))
       ''BR-64'' ''BT-157'' (''/lines/'' @ number i @ ''/standard_item_id/scheme'')
       ''Set the item standard identifier scheme identifier'')
     (ctx_line_nodes ctx)"

definition br_65 :: "validation_context \<Rightarrow> rule_outcome" where
  "br_65 ctx = each (\<lambda>i line. each (\<lambda>_ classification. fail_if
         (case ctx_syntax ctx of
            Ubl \<Rightarrow> opt_holds (\<lambda>code. \<not> attr_is_non_blank code ''listID'')
                     (xn_child classification ''ItemClassificationCode'')
          | Cii \<Rightarrow> \<not> attr_is_non_blank classification ''listID'')
         ''BR-65'' ''BT-158'' (''/lines/'' @ number i @ ''/classification/scheme'')
         ''Set the item classification identifier scheme identifier'')
       (case ctx_syntax ctx of
          Ubl \<Rightarrow> opt_children (xn_child line ''Item'') ''CommodityClassification''
        | Cii \<Rightarrow> descendants ''ClassCode'' line))
     (ctx_line_nodes ctx)"

end
