(* ===== verification/En_Rules_Co.thy ===== *)
theory En_Rules_Co
  imports En_Rules_Br
begin

text \<open>
  The rules BR-AE, BR-CL and BR-CO of \<open>crates/validate-ubl-cii/src/lib.rs\<close> and the functions that run
  all rules in order.
\<close>

section \<open>Reverse charge and code lists\<close>

definition br_ae_05 :: "'d amount_ops \<Rightarrow> validation_context \<Rightarrow> rule_outcome" where
  "br_ae_05 ops ctx = each (\<lambda>i line.
       case line_vat_tax_category (ctx_syntax ctx) line of
         None \<Rightarrow> Inr []
       | Some category \<Rightarrow> fail_if
           (category_code category (ctx_syntax ctx) = Some ''AE''
            \<and> \<not> am_some_eq ops (category_rate ops category (ctx_syntax ctx)) (am_zero ops))
           ''BR-AE-05'' ''BT-152'' (''/lines/'' @ number i @ ''/tax_rate'')
           ''Set the invoice line reverse-charge VAT rate to zero'')
     (ctx_line_nodes ctx)"

text \<open>The amounts of category AE: lines, charges or allowances.\<close>

definition ae_line_amounts :: "'d amount_ops \<Rightarrow> validation_context \<Rightarrow> 'd list" where
  "ae_line_amounts ops ctx =
     List.map_filter (\<lambda>line. opt_decimal ops (path_text line [''LineExtensionAmount'']))
       (filter (\<lambda>line. opt_text (xn_path line [''Item'', ''ClassifiedTaxCategory'']) [''ID''] = Some ''AE'')
          (ctx_line_nodes ctx))"

definition ae_charge_amounts :: "'d amount_ops \<Rightarrow> validation_context \<Rightarrow> bool \<Rightarrow> 'd list" where
  "ae_charge_amounts ops ctx charge =
     List.map_filter (\<lambda>c. allowance_charge_amount ops c (ctx_syntax ctx))
       (filter (\<lambda>c. opt_text (xn_path c [''TaxCategory'']) [''ID''] = Some ''AE'')
          (document_allowance_charges ctx charge))"

definition ae_expected :: "'d amount_ops \<Rightarrow> validation_context \<Rightarrow> en_stop + 'd" where
  "ae_expected ops ctx =
     rbind (amount_sum ops (ae_line_amounts ops ctx)) (\<lambda>ls.
     rbind (amount_sum ops (ae_charge_amounts ops ctx True)) (\<lambda>cs.
     rbind (or_panic (am_add ops ls cs)) (\<lambda>s.
     rbind (amount_sum ops (ae_charge_amounts ops ctx False)) (\<lambda>as.
     rbind (or_panic (am_sub ops s as)) (\<lambda>d. Inr (rounded_2 ops d))))))"

definition br_ae_08 :: "'d amount_ops \<Rightarrow> validation_context \<Rightarrow> rule_outcome" where
  "br_ae_08 ops ctx =
     (if ctx_syntax ctx \<noteq> Ubl then Inr []
      else each (\<lambda>i tax.
        case ubl_vat_tax_category tax of
          None \<Rightarrow> Inr []
        | Some category \<Rightarrow>
            if path_text category [''ID''] \<noteq> Some ''AE'' then Inr []
            else case opt_decimal ops (path_text tax [''TaxableAmount'']) of
                None \<Rightarrow> Inr []
              | Some taxable \<Rightarrow>
                  rbind (ae_expected ops ctx) (\<lambda>expected. fail_if (\<not> am_eq ops taxable expected)
                    ''BR-AE-08'' ''BT-116'' (''/tax_summary/'' @ number i @ ''/taxable_amount'')
                    ''Set reverse-charge VAT taxable amount to matching line amounts plus charges minus allowances''))
        (ctx_tax_summary_nodes ctx))"

definition br_ae_10 :: "validation_context \<Rightarrow> rule_outcome" where
  "br_ae_10 ctx = each (\<lambda>i tax.
       case summary_category (ctx_syntax ctx) tax of
         None \<Rightarrow> Inr []
       | Some category \<Rightarrow> fail_if
           (category_code category (ctx_syntax ctx) = Some ''AE'' \<and> \<not> has_tax_exemption_reason category (ctx_syntax ctx))
           ''BR-AE-10'' ''BT-121'' (''/tax_summary/'' @ number i @ ''/exemption_reason'')
           ''Set a reverse-charge VAT exemption reason or reason code'')
     (ctx_tax_summary_nodes ctx)"

definition br_cl_17 :: "validation_context \<Rightarrow> rule_outcome" where
  "br_cl_17 ctx = each (\<lambda>i tax.
       case Option.bind (summary_category (ctx_syntax ctx) tax) (\<lambda>n. category_code n (ctx_syntax ctx)) of
         None \<Rightarrow> Inr []
       | Some code \<Rightarrow> fail_if (\<not> tax_category_code_is_uncl5305 code)
           ''BR-CL-17'' ''BT-118'' (''/tax_summary/'' @ number i @ ''/category_code'')
           ''Use a UNCL5305 VAT category code'')
     (ctx_tax_summary_nodes ctx)"

definition br_cl_18 :: "validation_context \<Rightarrow> rule_outcome" where
  "br_cl_18 ctx = each (\<lambda>i line.
       case Option.bind (line_vat_tax_category (ctx_syntax ctx) line) (\<lambda>n. category_code n (ctx_syntax ctx)) of
         None \<Rightarrow> Inr []
       | Some code \<Rightarrow> fail_if (\<not> tax_category_code_is_uncl5305 code)
           ''BR-CL-18'' ''BT-151'' (''/lines/'' @ number i @ ''/tax_category'')
           ''Use a UNCL5305 invoice line VAT category code'')
     (ctx_line_nodes ctx)"

section \<open>Conditions\<close>

definition br_co_03 :: "validation_context \<Rightarrow> rule_outcome" where
  "br_co_03 ctx =
     (let has_date = (case ctx_syntax ctx of
                        Ubl \<Rightarrow> xn_child (ctx_root ctx) ''TaxPointDate'' \<noteq> None
                      | Cii \<Rightarrow> descendants ''TaxPointDate'' (ctx_root ctx) \<noteq> []);
          has_code = (case ctx_syntax ctx of
                        Ubl \<Rightarrow> list_ex (\<lambda>p. xn_child p ''DescriptionCode'' \<noteq> None) (ctx_invoice_period_nodes ctx)
                      | Cii \<Rightarrow> descendants ''DueDateTypeCode'' (ctx_root ctx) \<noteq> [])
      in fail_if (has_date \<and> has_code) ''BR-CO-03'' ''BT-8'' ''/tax_point''
           ''Use either the VAT point date or the VAT point date code, not both'')"

definition br_co_04 :: "validation_context \<Rightarrow> rule_outcome" where
  "br_co_04 ctx = each (\<lambda>i line. fail_if
       ((case ctx_syntax ctx of
           Ubl \<Rightarrow> opt_text (opt_filter has_vat_tax_scheme (xn_path line [''Item'', ''ClassifiedTaxCategory''])) [''ID'']
         | Cii \<Rightarrow> opt_text (Option.bind (xn_path line [''SpecifiedLineTradeSettlement'', ''ApplicableTradeTax'']) cii_vat_tax)
                    [''CategoryCode'']) = None)
       ''BR-CO-04'' ''BT-151'' (''/lines/'' @ number i @ ''/tax_category'') ''Set the invoice line VAT category code'')
     (filter (is_top_level_line (ctx_syntax ctx)) (ctx_line_nodes ctx))"

definition br_co_05 :: "validation_context \<Rightarrow> rule_outcome" where
  "br_co_05 ctx = Inr []"

definition br_co_06 :: "validation_context \<Rightarrow> rule_outcome" where
  "br_co_06 ctx = Inr []"

definition br_co_07 :: "validation_context \<Rightarrow> rule_outcome" where
  "br_co_07 ctx = Inr []"

definition br_co_08 :: "validation_context \<Rightarrow> rule_outcome" where
  "br_co_08 ctx = Inr []"

definition vat_ids :: "validation_context \<Rightarrow> string list" where
  "vat_ids ctx =
     (case ctx_syntax ctx of
        Ubl \<Rightarrow> List.map_filter (\<lambda>s. path_text s [''CompanyID''])
                 (filter has_vat_tax_scheme (descendants ''PartyTaxScheme'' (ctx_root ctx)))
      | Cii \<Rightarrow> List.map_filter (\<lambda>n. en_non_blank (xn_text n))
                 (filter (\<lambda>n. xn_attr n ''schemeID'' = Some ''VA'')
                    (List.map_filter (\<lambda>r. xn_child r ''ID'') (descendants ''SpecifiedTaxRegistration'' (ctx_root ctx)))))"

definition br_co_09 :: "validation_context \<Rightarrow> rule_outcome" where
  "br_co_09 ctx = each (\<lambda>i vat_id. fail_if (\<not> is_valid_vat_identifier_prefix vat_id)
       ''BR-CO-09'' ''BT-31'' (''/vat_identifiers/'' @ number i)
       ''Prefix VAT identifiers with an ISO 3166-1 alpha-2 country code, EL, or XI'')
     (vat_ids ctx)"

section \<open>Totals\<close>

definition br_co_10 :: "'d amount_ops \<Rightarrow> validation_context \<Rightarrow> rule_outcome" where
  "br_co_10 ops ctx =
     (case header_amount ops ctx (case ctx_syntax ctx of Ubl \<Rightarrow> ''LineExtensionAmount'' | Cii \<Rightarrow> ''LineTotalAmount'') of
        None \<Rightarrow> Inr []
      | Some tot \<Rightarrow>
          rbind (amount_sum ops (line_amounts ops ctx)) (\<lambda>s. fail_if (\<not> am_eq ops tot (rounded_2 ops s))
            ''BR-CO-10'' ''BT-106'' ''/monetary_total/line_extension_amount''
            ''Set the line net total to the rounded sum of line net amounts''))"

definition charge_amounts :: "'d amount_ops \<Rightarrow> validation_context \<Rightarrow> bool \<Rightarrow> 'd list" where
  "charge_amounts ops ctx charge =
     List.map_filter (\<lambda>c. allowance_charge_amount ops c (ctx_syntax ctx)) (document_allowance_charges ctx charge)"

definition br_co_11 :: "'d amount_ops \<Rightarrow> validation_context \<Rightarrow> rule_outcome" where
  "br_co_11 ops ctx =
     (let tot = header_amount ops ctx ''AllowanceTotalAmount''
      in if document_allowance_charges ctx False = [] \<and> tot = None then Inr []
         else rbind (amount_sum ops (charge_amounts ops ctx False)) (\<lambda>s.
           fail_if (\<not> am_some_eq ops tot (rounded_2 ops s))
             ''BR-CO-11'' ''BT-107'' ''/monetary_total/allowance_total_amount''
             ''Set the document allowance total to the rounded sum of document allowance amounts''))"

definition br_co_12 :: "'d amount_ops \<Rightarrow> validation_context \<Rightarrow> rule_outcome" where
  "br_co_12 ops ctx =
     (let tot = header_amount ops ctx ''ChargeTotalAmount''
      in if document_allowance_charges ctx True = [] \<and> (tot = None \<or> cii_has_only_document_allowance_nodes ctx)
         then Inr []
         else rbind (amount_sum ops (charge_amounts ops ctx True)) (\<lambda>s.
           fail_if (\<not> am_some_eq ops tot (rounded_2 ops s))
             ''BR-CO-12'' ''BT-108'' ''/monetary_total/charge_total_amount''
             ''Set the document charge total to the rounded sum of document charge amounts''))"

definition or_zero :: "'d amount_ops \<Rightarrow> 'd option \<Rightarrow> 'd" where
  "or_zero ops x = (case x of None \<Rightarrow> am_zero ops | Some d \<Rightarrow> d)"

definition br_co_13 :: "'d amount_ops \<Rightarrow> validation_context \<Rightarrow> rule_outcome" where
  "br_co_13 ops ctx =
     (case header_amount ops ctx (case ctx_syntax ctx of Ubl \<Rightarrow> ''TaxExclusiveAmount'' | Cii \<Rightarrow> ''TaxBasisTotalAmount'') of
        None \<Rightarrow> Inr []
      | Some tax_exclusive \<Rightarrow>
          rbind (minus_plus ops
              (or_zero ops (header_amount ops ctx
                 (case ctx_syntax ctx of Ubl \<Rightarrow> ''LineExtensionAmount'' | Cii \<Rightarrow> ''LineTotalAmount'')))
              (or_zero ops (header_amount ops ctx ''AllowanceTotalAmount''))
              (or_zero ops (header_amount ops ctx ''ChargeTotalAmount''))) (\<lambda>d.
            fail_if (\<not> am_eq ops tax_exclusive (rounded_2 ops d))
              ''BR-CO-13'' ''BT-109'' ''/monetary_total/tax_exclusive_amount''
              ''Set the VAT-exclusive total to line total minus allowances plus charges''))"

definition subtotal_amounts :: "'d amount_ops \<Rightarrow> xml_node \<Rightarrow> 'd list" where
  "subtotal_amounts ops tax_total =
     List.map_filter (\<lambda>s. opt_decimal ops (path_text s [''TaxAmount''])) (children_named tax_total ''TaxSubtotal'')"

definition br_co_14_ubl :: "'d amount_ops \<Rightarrow> validation_context \<Rightarrow> rule_outcome" where
  "br_co_14_ubl ops ctx = each (\<lambda>i tax_total.
       if children_named tax_total ''TaxSubtotal'' = [] then Inr []
       else case opt_decimal ops (path_text tax_total [''TaxAmount'']) of
           None \<Rightarrow> Inr []
         | Some tot \<Rightarrow>
             rbind (amount_sum ops (subtotal_amounts ops tax_total)) (\<lambda>s.
               fail_if (\<not> am_eq ops tot (rounded_2 ops s))
                 ''BR-CO-14'' ''BT-110'' (''/tax_totals/'' @ number i @ ''/tax_amount'')
                 ''Set the invoice total VAT amount to the sum of VAT category tax amounts''))
     (children_named (ctx_root ctx) ''TaxTotal'')"

definition cii_tax_amounts :: "'d amount_ops \<Rightarrow> validation_context \<Rightarrow> 'd list" where
  "cii_tax_amounts ops ctx =
     List.map_filter (\<lambda>t. opt_decimal ops (path_text t [''CalculatedAmount'']))
       (opt_children (cii_header_settlement ctx) ''ApplicableTradeTax'')"

definition br_co_14_cii :: "'d amount_ops \<Rightarrow> validation_context \<Rightarrow> rule_outcome" where
  "br_co_14_cii ops ctx =
     (case document_currency ctx of
        None \<Rightarrow> Inr []
      | Some currency \<Rightarrow>
          let totals = cii_tax_total_amounts_for_currency ctx currency
          in if totals = [] then Inr []
             else rbind (amount_sum ops (cii_tax_amounts ops ctx)) (\<lambda>s.
               each (\<lambda>i tot. fail_if (\<not> am_some_eq ops (en_decimal ops (xn_text tot)) (rounded_2 ops s))
                   ''BR-CO-14'' ''BT-110'' (''/tax_totals/'' @ number i @ ''/tax_amount'')
                   ''Set the invoice total VAT amount to the sum of VAT category tax amounts'')
                 totals))"

definition br_co_14 :: "'d amount_ops \<Rightarrow> validation_context \<Rightarrow> rule_outcome" where
  "br_co_14 ops ctx = (case ctx_syntax ctx of Ubl \<Rightarrow> br_co_14_ubl ops ctx | Cii \<Rightarrow> br_co_14_cii ops ctx)"

definition equals_with_tax :: "'d amount_ops \<Rightarrow> 'd \<Rightarrow> 'd \<Rightarrow> 'd \<Rightarrow> en_stop + bool" where
  "equals_with_tax ops inclusive exclusive tax =
     rbind (or_panic (am_add ops exclusive tax)) (\<lambda>s. Inr (am_eq ops inclusive (rounded_2 ops s)))"

definition br_co_15_ubl_valid :: "'d amount_ops \<Rightarrow> validation_context \<Rightarrow> string \<Rightarrow> en_stop + bool" where
  "br_co_15_ubl_valid ops ctx currency =
     (case ubl_tax_amounts_for_currency (ctx_root ctx) currency of
        [amount] \<Rightarrow>
          (case (header_amount ops ctx ''TaxInclusiveAmount'', header_amount ops ctx ''TaxExclusiveAmount'') of
             (Some inclusive, Some exclusive) \<Rightarrow>
               equals_with_tax ops inclusive exclusive (or_zero ops (en_decimal ops (xn_text amount)))
           | _ \<Rightarrow> Inr True)
      | _ \<Rightarrow> Inr False)"

definition br_co_15_cii_valid :: "'d amount_ops \<Rightarrow> validation_context \<Rightarrow> string \<Rightarrow> en_stop + bool" where
  "br_co_15_cii_valid ops ctx currency =
     (case (header_amount ops ctx ''GrandTotalAmount'', header_amount ops ctx ''TaxBasisTotalAmount'') of
        (Some inclusive, Some exclusive) \<Rightarrow>
          rbind (case cii_tax_total_amounts_for_currency ctx currency of
                   [amount] \<Rightarrow>
                     (case en_decimal ops (xn_text amount) of
                        None \<Rightarrow> Inr False | Some tax \<Rightarrow> equals_with_tax ops inclusive exclusive tax)
                 | _ \<Rightarrow> Inr False)
            (\<lambda>with_tax. Inr (with_tax \<or> am_eq ops inclusive exclusive))
      | _ \<Rightarrow> Inr True)"

definition br_co_15 :: "'d amount_ops \<Rightarrow> validation_context \<Rightarrow> rule_outcome" where
  "br_co_15 ops ctx =
     (case document_currency ctx of
        None \<Rightarrow> Inr []
      | Some currency \<Rightarrow>
          rbind (case ctx_syntax ctx of Ubl \<Rightarrow> br_co_15_ubl_valid ops ctx currency
                                      | Cii \<Rightarrow> br_co_15_cii_valid ops ctx currency) (\<lambda>valid.
            fail_if (\<not> valid) ''BR-CO-15'' ''BT-112'' ''/monetary_total/tax_inclusive_amount''
              ''Set the VAT-inclusive total to VAT-exclusive total plus invoice VAT total''))"

definition br_co_16 :: "'d amount_ops \<Rightarrow> validation_context \<Rightarrow> rule_outcome" where
  "br_co_16 ops ctx =
     (case (case ctx_syntax ctx of
              Ubl \<Rightarrow> (header_amount ops ctx ''PayableAmount'', header_amount ops ctx ''TaxInclusiveAmount'',
                      header_amount ops ctx ''PrepaidAmount'', header_amount ops ctx ''PayableRoundingAmount'')
            | Cii \<Rightarrow> (header_amount ops ctx ''DuePayableAmount'', header_amount ops ctx ''GrandTotalAmount'',
                      header_amount ops ctx ''TotalPrepaidAmount'', header_amount ops ctx ''RoundingAmount'')) of
        (Some payable, Some inclusive, prepaid, rounding_amount) \<Rightarrow>
          rbind (minus_plus ops inclusive (or_zero ops prepaid) (or_zero ops rounding_amount)) (\<lambda>d.
            fail_if (\<not> am_eq ops payable (rounded_2 ops d))
              ''BR-CO-16'' ''BT-115'' ''/monetary_total/payable_amount''
              ''Set payable amount to VAT-inclusive total minus prepaid amount plus rounding amount'')
      | _ \<Rightarrow> Inr [])"

text \<open>The outcome of the check of one breakdown group, \<open>None\<close> where it is skipped.\<close>

definition br_co_17_valid :: "'d amount_ops \<Rightarrow> document_syntax \<Rightarrow> 'd option \<Rightarrow> 'd \<Rightarrow> 'd option \<Rightarrow> en_stop + bool option" where
  "br_co_17_valid ops syn taxable tax_amount rate =
     (let zero_tax = am_eq ops (rounded_0 ops tax_amount) (am_zero ops)
      in case rate of
           None \<Rightarrow> Inr (Some zero_tax)
         | Some r \<Rightarrow>
             if am_eq ops (rounded_0 ops r) (am_zero ops) then Inr (Some zero_tax)
             else case taxable of
                 None \<Rightarrow> Inr (Some zero_tax)
               | Some base \<Rightarrow>
                   (case Option.bind (am_checked_mul ops (am_abs ops base) r) (\<lambda>p. am_checked_div ops p (am_new ops 100)) of
                      None \<Rightarrow> Inr None
                    | Some expected \<Rightarrow>
                        rbind (br_co_17_within_tolerance ops syn (am_abs ops tax_amount) (rounded_2 ops expected))
                          (\<lambda>b. Inr (Some b))))"

definition br_co_17 :: "'d amount_ops \<Rightarrow> validation_context \<Rightarrow> rule_outcome" where
  "br_co_17 ops ctx = each (\<lambda>i tax.
       case (case ctx_syntax ctx of
               Ubl \<Rightarrow> (opt_decimal ops (path_text tax [''TaxableAmount'']), opt_decimal ops (path_text tax [''TaxAmount'']),
                       opt_decimal ops (opt_text (ubl_vat_tax_category tax) [''Percent'']))
             | Cii \<Rightarrow> (opt_decimal ops (path_text tax [''BasisAmount'']), opt_decimal ops (path_text tax [''CalculatedAmount'']),
                       opt_decimal ops (opt_text (cii_vat_tax tax) [''RateApplicablePercent'']))) of
         (taxable, None, rate) \<Rightarrow> Inr []
       | (taxable, Some tax_amount, rate) \<Rightarrow>
           rbind (br_co_17_valid ops (ctx_syntax ctx) taxable tax_amount rate) (\<lambda>valid.
             fail_if (valid = Some False)
               ''BR-CO-17'' ''BT-117'' (''/tax_summary/'' @ number i @ ''/tax_amount'')
               ''Set VAT tax amount to taxable amount multiplied by VAT rate, rounded to two decimals''))
     (ctx_tax_summary_nodes ctx)"

section \<open>Groups\<close>

definition br_co_18 :: "validation_context \<Rightarrow> rule_outcome" where
  "br_co_18 ctx = fail_if (ctx_tax_summary_nodes ctx = []) ''BR-CO-18'' ''BG-23'' ''/tax_summary''
     ''Add at least one VAT breakdown group''"

definition period_has_date :: "document_syntax \<Rightarrow> xml_node \<Rightarrow> bool" where
  "period_has_date syn period \<longleftrightarrow>
     (case syn of
        Ubl \<Rightarrow> xn_child period ''StartDate'' \<noteq> None \<or> xn_child period ''EndDate'' \<noteq> None
      | Cii \<Rightarrow> xn_child period ''StartDateTime'' \<noteq> None \<or> xn_child period ''EndDateTime'' \<noteq> None)"

definition br_co_19 :: "validation_context \<Rightarrow> rule_outcome" where
  "br_co_19 ctx = each (\<lambda>i period.
       let has_date = period_has_date (ctx_syntax ctx) period;
           allowed_code_only = (ctx_syntax ctx = Ubl \<and> xn_child period ''DescriptionCode'' \<noteq> None \<and> \<not> has_date)
       in fail_if (\<not> has_date \<and> \<not> allowed_code_only)
            ''BR-CO-19'' ''BG-14'' (''/invoice_periods/'' @ number i)
            ''Set an invoicing period start date, end date, or allowed date code'')
     (ctx_invoice_period_nodes ctx)"

definition br_co_20 :: "validation_context \<Rightarrow> rule_outcome" where
  "br_co_20 ctx = each (\<lambda>i line. each (\<lambda>j period. fail_if (\<not> period_has_date (ctx_syntax ctx) period)
         ''BR-CO-20'' ''BG-26'' (''/lines/'' @ number i @ ''/periods/'' @ number j)
         ''Set an invoice line period start or end date'')
       (line_periods (ctx_syntax ctx) line))
     (ctx_line_nodes ctx)"

text \<open>An allowance (or charge) by its indicator without a reason.\<close>

definition lacks_reason :: "(string \<Rightarrow> bool) \<Rightarrow> document_syntax \<Rightarrow> xml_node \<Rightarrow> bool" where
  "lacks_reason indicates syn charge \<longleftrightarrow>
     opt_holds indicates (charge_indicator charge) \<and> \<not> has_allowance_charge_reason charge syn"

definition br_co_21 :: "validation_context \<Rightarrow> rule_outcome" where
  "br_co_21 ctx = each (\<lambda>i charge. fail_if (lacks_reason is_false_indicator (ctx_syntax ctx) charge)
       ''BR-CO-21'' ''BT-97'' (''/document_allowances/'' @ number i @ ''/reason'')
       ''Set a document-level allowance reason or reason code'')
     (document_allowance_charges_all ctx)"

definition br_co_22 :: "validation_context \<Rightarrow> rule_outcome" where
  "br_co_22 ctx = each (\<lambda>i charge. fail_if (lacks_reason is_true_indicator (ctx_syntax ctx) charge)
       ''BR-CO-22'' ''BT-104'' (''/document_charges/'' @ number i @ ''/reason'')
       ''Set a document-level charge reason or reason code'')
     (document_allowance_charges_all ctx)"

definition br_co_23 :: "validation_context \<Rightarrow> rule_outcome" where
  "br_co_23 ctx = each (\<lambda>i line. each (\<lambda>j charge. fail_if (lacks_reason is_false_indicator (ctx_syntax ctx) charge)
         ''BR-CO-23'' ''BT-139'' (''/lines/'' @ number i @ ''/allowances/'' @ number j @ ''/reason'')
         ''Set an invoice line allowance reason or reason code'')
       (line_allowance_charges_all ctx line))
     (ctx_line_nodes ctx)"

definition br_co_24 :: "validation_context \<Rightarrow> rule_outcome" where
  "br_co_24 ctx = each (\<lambda>i line. each (\<lambda>j charge. fail_if (lacks_reason is_true_indicator (ctx_syntax ctx) charge)
         ''BR-CO-24'' ''BT-144'' (''/lines/'' @ number i @ ''/charges/'' @ number j @ ''/reason'')
         ''Set an invoice line charge reason or reason code'')
       (line_allowance_charges_all ctx line))
     (ctx_line_nodes ctx)"

definition seller_identified :: "document_syntax \<Rightarrow> xml_node \<Rightarrow> bool" where
  "seller_identified syn seller \<longleftrightarrow>
     (case syn of
        Ubl \<Rightarrow> list_ex (\<lambda>p. opt_holds (\<lambda>n. en_non_blank (xn_text n) \<noteq> None
                   \<and> (case xn_attr n ''schemeID'' of None \<Rightarrow> True | Some scheme \<Rightarrow> trim scheme \<noteq> ''SEPA''))
                 (xn_child p ''ID'')) (children_named seller ''PartyIdentification'')
               \<or> list_ex (\<lambda>l. path_text l [''CompanyID''] \<noteq> None) (children_named seller ''PartyLegalEntity'')
               \<or> list_ex (\<lambda>s. has_vat_tax_scheme s \<and> path_text s [''CompanyID''] \<noteq> None)
                   (children_named seller ''PartyTaxScheme'')
      | Cii \<Rightarrow> path_text seller [''ID''] \<noteq> None \<or> path_text seller [''GlobalID''] \<noteq> None
               \<or> path_text seller [''SpecifiedLegalOrganization'', ''ID''] \<noteq> None
               \<or> list_ex (\<lambda>r. opt_holds (\<lambda>n. xn_attr n ''schemeID'' = Some ''VA'' \<and> en_non_blank (xn_text n) \<noteq> None)
                    (xn_child r ''ID'')) (children_named seller ''SpecifiedTaxRegistration''))"

definition br_co_26 :: "validation_context \<Rightarrow> rule_outcome" where
  "br_co_26 ctx = fail_if (\<not> opt_holds (seller_identified (ctx_syntax ctx)) (seller_party ctx))
     ''BR-CO-26'' ''BT-29'' ''/seller/identifier''
     ''Set a seller identifier, legal registration identifier, or VAT identifier''"

section \<open>Running the rules\<close>

text \<open>Rules one after the other, each ended by \<open>?\<close>; the findings are in the order they were pushed.\<close>

fun run_rules :: "(validation_context \<Rightarrow> rule_outcome) list \<Rightarrow> validation_context \<Rightarrow> rule_outcome" where
  "run_rules [] ctx = Inr []"
| "run_rules (r # rs) ctx = rbind (r ctx) (\<lambda>fs. rbind (run_rules rs ctx) (\<lambda>gs. Inr (fs @ gs)))"

definition br_rules :: "'d amount_ops \<Rightarrow> (validation_context \<Rightarrow> rule_outcome) list" where
  "br_rules ops =
     [br_01, br_02, br_03, br_04, br_05, br_06, br_07, br_08, br_09, br_10, br_11, br_12, br_13, br_14, br_15,
      br_16, br_17, br_18, br_19, br_20, br_21, br_22, br_23, br_24, br_25, br_26, br_27 ops, br_28 ops, br_29,
      br_30, br_31, br_32, br_33, br_36, br_37, br_38, br_41, br_42, br_43, br_44, br_45, br_46, br_47, br_48,
      br_49, br_50, br_51, br_52, br_53, br_54, br_55, br_56, br_57, br_61, br_62, br_63, br_64, br_65]"

definition br_ae_rules :: "'d amount_ops \<Rightarrow> (validation_context \<Rightarrow> rule_outcome) list" where
  "br_ae_rules ops = [br_ae_05 ops, br_ae_08 ops, br_ae_10]"

definition br_cl_rules :: "(validation_context \<Rightarrow> rule_outcome) list" where
  "br_cl_rules = [br_cl_17, br_cl_18]"

definition br_co_rules :: "'d amount_ops \<Rightarrow> (validation_context \<Rightarrow> rule_outcome) list" where
  "br_co_rules ops =
     [br_co_03, br_co_04, br_co_05, br_co_06, br_co_07, br_co_08, br_co_09, br_co_10 ops, br_co_11 ops,
      br_co_12 ops, br_co_13 ops, br_co_14 ops, br_co_15 ops, br_co_16 ops, br_co_17 ops, br_co_18, br_co_19,
      br_co_20, br_co_21, br_co_22, br_co_23, br_co_24, br_co_26]"

definition all_rules :: "'d amount_ops \<Rightarrow> validation_context \<Rightarrow> rule_outcome" where
  "all_rules ops ctx =
     rbind (run_rules (br_rules ops) ctx) (\<lambda>a.
     rbind (run_rules (br_ae_rules ops) ctx) (\<lambda>b.
     rbind (run_rules br_cl_rules ctx) (\<lambda>c.
     rbind (run_rules (br_co_rules ops) ctx) (\<lambda>d. Inr (a @ b @ c @ d)))))"

end
