(* ===== verification/En16931.thy ===== *)
theory En16931
  imports En_Rules_Co
begin

text \<open>
  The entry points of \<open>crates/validate-ubl-cii/src/lib.rs\<close>: the selection of the rule pack, its policy of
  disabled rules, the recognition of the root and the report.  The embedded manifests of
  \<open>Registry::seeded\<close> are the list \<open>seeds\<close>.
\<close>

section \<open>The inventory of rules\<close>

definition implemented_rule_ids :: "string list" where
  "implemented_rule_ids =
     [''BR-01'', ''BR-02'', ''BR-03'', ''BR-04'', ''BR-05'', ''BR-06'', ''BR-07'', ''BR-08'', ''BR-09'', ''BR-10'',
      ''BR-11'', ''BR-12'', ''BR-13'', ''BR-14'', ''BR-15'', ''BR-16'', ''BR-17'', ''BR-18'', ''BR-19'', ''BR-20'',
      ''BR-21'', ''BR-22'', ''BR-23'', ''BR-24'', ''BR-25'', ''BR-26'', ''BR-27'', ''BR-28'', ''BR-29'', ''BR-30'',
      ''BR-31'', ''BR-32'', ''BR-33'', ''BR-36'', ''BR-37'', ''BR-38'', ''BR-41'', ''BR-42'', ''BR-43'', ''BR-44'',
      ''BR-45'', ''BR-46'', ''BR-47'', ''BR-48'', ''BR-49'', ''BR-50'', ''BR-51'', ''BR-52'', ''BR-53'', ''BR-54'',
      ''BR-55'', ''BR-56'', ''BR-57'', ''BR-61'', ''BR-62'', ''BR-63'', ''BR-64'', ''BR-65'', ''BR-CO-03'', ''BR-CO-04'',
      ''BR-AE-05'', ''BR-AE-08'', ''BR-AE-10'', ''BR-CL-17'', ''BR-CL-18'', ''BR-CO-05'', ''BR-CO-06'', ''BR-CO-07'',
      ''BR-CO-08'', ''BR-CO-09'', ''BR-CO-10'', ''BR-CO-11'', ''BR-CO-12'', ''BR-CO-13'', ''BR-CO-14'', ''BR-CO-15'',
      ''BR-CO-16'', ''BR-CO-17'', ''BR-CO-18'', ''BR-CO-19'', ''BR-CO-20'', ''BR-CO-21'', ''BR-CO-22'', ''BR-CO-23'',
      ''BR-CO-24'', ''BR-CO-26'']"

definition deferred_rule_ids :: "string list" where
  "deferred_rule_ids = []"

record deferred_rule =
  dr_id :: string
  dr_reason :: string

definition deferred_rules :: "deferred_rule list" where
  "deferred_rules = map (\<lambda>i. \<lparr>dr_id = i,
     dr_reason = ''Deferred pending typed IR or reference-validator parity work in T-031''\<rparr>) deferred_rule_ids"

record en16931_coverage =
  cov_total :: nat
  cov_implemented :: nat
  cov_deferred_ir_gap :: nat

definition coverage_current :: en16931_coverage where
  "coverage_current = \<lparr>cov_total = 86, cov_implemented = 86, cov_deferred_ir_gap = 0\<rparr>"

section \<open>Options and policy\<close>

record validation_options =
  vo_validation_date :: "string option"
  vo_country :: string
  vo_profile :: string

definition default_options :: validation_options where
  "default_options = \<lparr>vo_validation_date = None, vo_country = ''global'', vo_profile = ''urn:cen.eu:en16931:2017''\<rparr>"

definition with_validation_date :: "string \<Rightarrow> validation_options \<Rightarrow> validation_options" where
  "with_validation_date d opts = opts\<lparr>vo_validation_date := Some d\<rparr>"

text \<open>\<open>disabled_rules\<close> is a \<open>BTreeSet\<close>: the keys of an ordered map.\<close>

record rulepack_policy =
  rpp_disabled_all :: bool
  rpp_disabled_rules :: "(string, unit) btree"

fun policy_rules :: "string \<Rightarrow> serde_value list \<Rightarrow> rulepack_policy \<Rightarrow> en_error + rulepack_policy" where
  "policy_rules pack [] p = Inr p"
| "policy_rules pack (v # vs) p =
     (case json_as_str v of
        None \<Rightarrow> Inl (RulepackPolicyError pack ''`disabled_rules` entries must be strings'')
      | Some rule \<Rightarrow> policy_rules pack vs
          (if rule = ''*'' then p\<lparr>rpp_disabled_all := True\<rparr>
           else p\<lparr>rpp_disabled_rules := btree_insert rule () (rpp_disabled_rules p)\<rparr>))"

definition policy_from_manifest :: "rp_manifest \<Rightarrow> en_error + rulepack_policy" where
  "policy_from_manifest m =
     (case json_get (rp_body m) ''disabled_rules'' of
        None \<Rightarrow> Inr \<lparr>rpp_disabled_all = False, rpp_disabled_rules = []\<rparr>
      | Some disabled \<Rightarrow>
          (case json_as_array disabled of
             None \<Rightarrow> Inl (RulepackPolicyError (rp_rulepack_id m) ''`disabled_rules` must be an array'')
           | Some rules \<Rightarrow>
               policy_rules (rp_rulepack_id m) rules \<lparr>rpp_disabled_all = False, rpp_disabled_rules = []\<rparr>))"

definition retain_enabled_findings :: "rulepack_policy \<Rightarrow> validation_result list \<Rightarrow> validation_result list" where
  "retain_enabled_findings p fs =
     (if rpp_disabled_all p then []
      else filter (\<lambda>f. map_of (rpp_disabled_rules p) (rule_str (vr_rule_id f)) = None) fs)"

definition disabled_rules_for_audit :: "rulepack_policy \<Rightarrow> string list" where
  "disabled_rules_for_audit p = (if rpp_disabled_all p then [''*''] else map fst (rpp_disabled_rules p))"

section \<open>The report\<close>

record rulepack_audit =
  ra_rulepack_id :: string
  ra_upstream_version :: string
  ra_effective_from :: string
  ra_effective_to :: "string option"
  ra_source_url :: string
  ra_retrieved_at :: string
  ra_signature_alg :: string
  ra_selected_for_date :: string
  ra_disabled_rules :: "string list"

definition audit_from_manifest :: "rp_manifest \<Rightarrow> string \<Rightarrow> rulepack_policy \<Rightarrow> rulepack_audit" where
  "audit_from_manifest m selected p =
     \<lparr>ra_rulepack_id = rp_rulepack_id m, ra_upstream_version = rp_upstream_version m,
      ra_effective_from = rp_effective_from m, ra_effective_to = rp_effective_to m,
      ra_source_url = rp_source_url m, ra_retrieved_at = rp_retrieved_at m,
      ra_signature_alg = rp_signature_alg m, ra_selected_for_date = selected,
      ra_disabled_rules = disabled_rules_for_audit p\<rparr>"

record en16931_report =
  er_syntax :: document_syntax
  er_findings :: "validation_result list"
  er_coverage :: en16931_coverage
  er_rulepack :: rulepack_audit

definition root_syntax :: "xml_node \<Rightarrow> en_error + document_syntax" where
  "root_syntax root =
     (if xn_name root = ''Invoice''
         \<and> xn_namespace root = Some ''urn:oasis:names:specification:ubl:schema:xsd:Invoice-2''
       \<or> xn_name root = ''CreditNote''
         \<and> xn_namespace root = Some ''urn:oasis:names:specification:ubl:schema:xsd:CreditNote-2'' then Inr Ubl
      else if xn_name root = ''CrossIndustryInvoice''
         \<and> xn_namespace root = Some ''urn:un:unece:uncefact:data:standard:CrossIndustryInvoice:100'' then Inr Cii
      else Inl (UnsupportedRoot (xn_name root @ '' ['' @
             (case xn_namespace root of None \<Rightarrow> ''unbound'' | Some ns \<Rightarrow> ns) @ '']'')))"

definition or_fail :: "en_error + 'a \<Rightarrow> en_stop + 'a" where
  "or_fail r = (case r of Inl e \<Rightarrow> Inl (EnFail e) | Inr x \<Rightarrow> Inr x)"

definition lookup_date :: "validation_options \<Rightarrow> string" where
  "lookup_date opts = (case vo_validation_date opts of None \<Rightarrow> ''9999-12-31'' | Some d \<Rightarrow> d)"

definition selected_manifest :: "validation_options \<Rightarrow> rp_registry \<Rightarrow> en_error + rp_manifest" where
  "selected_manifest opts reg =
     rbind (validate_iso_date (lookup_date opts)) (\<lambda>_.
       case pack_for reg (vo_country opts) (vo_profile opts) (lookup_date opts) of
         None \<Rightarrow> Inl (RulepackNotFound (vo_country opts) (vo_profile opts) (lookup_date opts))
       | Some m \<Rightarrow> Inr m)"

definition validate_xml_with_registry :: "'d amount_ops \<Rightarrow> (string + en_event) list \<Rightarrow> validation_options
    \<Rightarrow> rp_registry \<Rightarrow> en_stop + en16931_report" where
  "validate_xml_with_registry ops input opts reg =
     rbind (or_fail (selected_manifest opts reg)) (\<lambda>m.
     rbind (or_fail (policy_from_manifest m)) (\<lambda>policy.
     rbind (or_fail (parse_xml input)) (\<lambda>root.
     rbind (or_fail (root_syntax root)) (\<lambda>syn.
     rbind (all_rules ops (context_of syn root)) (\<lambda>findings.
       Inr \<lparr>er_syntax = syn, er_findings = retain_enabled_findings policy findings,
            er_coverage = coverage_current,
            er_rulepack = audit_from_manifest m
              (case vo_validation_date opts of None \<Rightarrow> ''latest'' | Some d \<Rightarrow> d) policy\<rparr>)))))"

definition validate_xml_with_options :: "rulepack_ops \<Rightarrow> (string \<times> string) list \<Rightarrow> 'd amount_ops
    \<Rightarrow> (string + en_event) list \<Rightarrow> validation_options \<Rightarrow> en_stop + en16931_report" where
  "validate_xml_with_options rops seeds ops input opts =
     (case rp_seeded rops seeds of
        Inl e \<Rightarrow> Inl (EnFail (EnRulepack e))
      | Inr reg \<Rightarrow> validate_xml_with_registry ops input opts reg)"

definition validate_xml_on_date :: "rulepack_ops \<Rightarrow> (string \<times> string) list \<Rightarrow> 'd amount_ops
    \<Rightarrow> (string + en_event) list \<Rightarrow> string \<Rightarrow> en_stop + en16931_report" where
  "validate_xml_on_date rops seeds ops input d =
     validate_xml_with_options rops seeds ops input (with_validation_date d default_options)"

definition validate_xml :: "rulepack_ops \<Rightarrow> (string \<times> string) list \<Rightarrow> 'd amount_ops
    \<Rightarrow> (string + en_event) list \<Rightarrow> en_stop + en16931_report" where
  "validate_xml rops seeds ops input = validate_xml_with_options rops seeds ops input default_options"

end
