(* ===== verification/En_Emits.thy ===== *)
theory En_Emits
  imports En16931
begin

text \<open>
  What a rule of the EN 16931 validator may produce: findings of its own rule that are well formed, no
  error, and a panic only where its arithmetic may overflow.  The lemmas follow the shape of the rules, so
  that each rule is one application of the simplifier.
\<close>

section \<open>Well-formed findings\<close>

definition term_ok :: "string \<Rightarrow> bool" where
  "term_ok t \<longleftrightarrow> (if strip_prefix ''BG-'' t \<noteq> None then is_term_code t ''BG'' else is_term_code t ''BT'')"

definition path_location :: "location \<Rightarrow> bool" where
  "path_location l \<longleftrightarrow> (\<exists>p. l = XPath (CHR ''/'' # p))"

definition en_finding :: "string \<Rightarrow> validation_result \<Rightarrow> bool" where
  "en_finding rule f \<longleftrightarrow>
     vr_rule_id f = RuleId rule \<and> cit_section (vr_citation f) = rule
     \<and> (vr_severity f = Error \<or> vr_severity f = Warning)
     \<and> term_ok (term_code (vr_term f)) \<and> path_location (vr_location f)
     \<and> vr_suggested_fix f \<noteq> None \<and> vr_trace f = None"

text \<open>The outcome of a rule, and of a computation in it; \<open>p\<close> says whether a panic is admitted.\<close>

fun emits :: "bool \<Rightarrow> string \<Rightarrow> rule_outcome \<Rightarrow> bool" where
  "emits p rule (Inr fs) \<longleftrightarrow> list_all (en_finding rule) fs"
| "emits p rule (Inl EnPanic) \<longleftrightarrow> p"
| "emits p rule (Inl (EnFail e)) \<longleftrightarrow> False"

fun computes :: "bool \<Rightarrow> en_stop + 'a \<Rightarrow> bool" where
  "computes p (Inr x) \<longleftrightarrow> True"
| "computes p (Inl EnPanic) \<longleftrightarrow> p"
| "computes p (Inl (EnFail e)) \<longleftrightarrow> False"

lemma solid_B: "solid CHR ''B''" and solid_c: "solid CHR ''C''"
  by (simp_all add: solid_def byte_def)

text \<open>The arguments of \<open>fail\<close> in the rules.\<close>

definition sound_text :: "string \<Rightarrow> bool" where
  "sound_text s \<longleftrightarrow> s \<noteq> [] \<and> solid (hd s)"

definition rooted :: "string \<Rightarrow> bool" where
  "rooted loc \<longleftrightarrow> loc \<noteq> [] \<and> hd loc = CHR ''/''"

lemma sound_text_not_blank: "sound_text s \<Longrightarrow> trim s \<noteq> []"
  using not_blank_solid [of "hd s" s] by (simp add: sound_text_def blank_def)

lemma fail_with_severity_emits:
  assumes "sound_text rule" "term_ok t" "sound_text fix" "sev = Error \<or> sev = Warning"
    "rooted loc"
  shows "emits p rule (fail_with_severity rule sev t loc fix)"
proof -
  obtain l where l: "loc = CHR ''/'' # l" using assms(5) by (cases loc) (simp_all add: rooted_def)
  have loc: "trim loc \<noteq> []"
    using not_blank_solid [OF solid_slash, of loc] by (simp add: blank_def l)
  have source: "sound_text ''ConnectingEurope/eInvoicing-EN16931 validation-1.3.16''"
    by (simp add: sound_text_def solid_c)
  show ?thesis
    using assms(2,4) sound_text_not_blank [OF source]
    by (cases "strip_prefix ''BG-'' t = None")
      (simp_all add: fail_with_severity_def sound_text_not_blank assms(1,3) loc val_non_blank_def
        business_group_new_def business_term_new_def rule_id_new_def xpath_new_def citation_new_def
        suggested_fix_new_def with_suggested_fix_def validation_result_new_def en_finding_def
        path_location_def term_ok_def, simp_all add: l)
qed

lemma fail_emits:
  "sound_text rule \<Longrightarrow> term_ok t \<Longrightarrow> sound_text fix \<Longrightarrow> rooted loc \<Longrightarrow> emits p rule (fail rule t loc fix)"
  by (simp add: fail_def fail_with_severity_emits)

lemma fail_if_emits:
  "sound_text rule \<Longrightarrow> term_ok t \<Longrightarrow> sound_text fix \<Longrightarrow> rooted loc \<Longrightarrow> emits p rule (fail_if b rule t loc fix)"
  by (simp add: fail_if_def fail_emits)

lemma require_text_emits:
  "sound_text rule \<Longrightarrow> term_ok t \<Longrightarrow> sound_text fix \<Longrightarrow> rooted loc \<Longrightarrow> emits p rule (require_text rule t loc v fix)"
  by (simp add: require_text_def fail_emits)

lemma emits_mono: "emits False rule r \<Longrightarrow> emits p rule r"
  by (cases "(p, rule, r)" rule: emits.cases) auto

lemma emits_rbind:
  "computes p m \<Longrightarrow> (\<And>x. m = Inr x \<Longrightarrow> emits p rule (f x)) \<Longrightarrow> emits p rule (rbind m f)"
  by (cases "(p, m)" rule: computes.cases) auto

lemma computes_rbind:
  "computes p m \<Longrightarrow> (\<And>x. m = Inr x \<Longrightarrow> computes p (f x)) \<Longrightarrow> computes p (rbind m f)"
  by (cases "(p, m)" rule: computes.cases) auto

lemma emits_append:
  "emits p rule r \<Longrightarrow> emits p rule r' \<Longrightarrow> emits p rule (rbind r (\<lambda>fs. rbind r' (\<lambda>gs. Inr (fs @ gs))))"
  by (cases "(p, rule, r)" rule: emits.cases; cases "(p, rule, r')" rule: emits.cases) auto

lemma each_from_emits:
  "(\<And>i x. x \<in> set xs \<Longrightarrow> emits p rule (f i x)) \<Longrightarrow> emits p rule (each_from n f xs)"
  by (induction n f xs rule: each_from.induct) (simp_all add: emits_append)

lemma emits_if: "(b \<Longrightarrow> emits p rule x) \<Longrightarrow> (\<not> b \<Longrightarrow> emits p rule y) \<Longrightarrow> emits p rule (if b then x else y)"
  by simp

lemma emits_option:
  "emits p rule x \<Longrightarrow> (\<And>a. v = Some a \<Longrightarrow> emits p rule (f a)) \<Longrightarrow> emits p rule (case v of None \<Rightarrow> x | Some a \<Rightarrow> f a)"
  by (simp split: option.split)

lemma emits_syntax:
  "(s = Ubl \<Longrightarrow> emits p rule x) \<Longrightarrow> (s = Cii \<Longrightarrow> emits p rule y) \<Longrightarrow> emits p rule (case s of Ubl \<Rightarrow> x | Cii \<Rightarrow> y)"
  by (cases s) simp_all

lemma emits_Nil: "emits p rule (Inr [])"
  by simp

lemma computes_Inr: "computes p (Inr x)"
  by simp

lemma computes_or_panic: "computes p (or_panic x) \<longleftrightarrow> p \<or> x \<noteq> None"
  by (simp add: or_panic_def split: option.split)

lemma computes_if: "(b \<Longrightarrow> computes p x) \<Longrightarrow> (\<not> b \<Longrightarrow> computes p y) \<Longrightarrow> computes p (if b then x else y)"
  by simp

lemma computes_syntax:
  "(s = Ubl \<Longrightarrow> computes p x) \<Longrightarrow> (s = Cii \<Longrightarrow> computes p y) \<Longrightarrow> computes p (case s of Ubl \<Rightarrow> x | Cii \<Rightarrow> y)"
  by (cases s) simp_all

lemmas emits_intros = fail_if_emits fail_with_severity_emits require_text_emits each_from_emits emits_if emits_option emits_syntax emits_Nil

lemmas emits_checks = sound_text_def solid_def byte_def rooted_def term_ok_def is_term_code_def strip_prefix_def
  is_digit_def

section \<open>The rules without arithmetic\<close>

lemmas document_rules_defs =
  br_01_def br_02_def br_03_def br_04_def br_05_def br_06_def br_07_def br_08_def br_09_def br_10_def
  br_11_def br_12_def br_13_def br_14_def br_15_def br_16_def br_17_def

lemma document_rules_emit:
    "emits p ''BR-01'' (br_01 ctx)" "emits p ''BR-02'' (br_02 ctx)" "emits p ''BR-03'' (br_03 ctx)"
    "emits p ''BR-04'' (br_04 ctx)" "emits p ''BR-05'' (br_05 ctx)" "emits p ''BR-06'' (br_06 ctx)"
    "emits p ''BR-07'' (br_07 ctx)" "emits p ''BR-08'' (br_08 ctx)" "emits p ''BR-09'' (br_09 ctx)"
    "emits p ''BR-10'' (br_10 ctx)" "emits p ''BR-11'' (br_11 ctx)" "emits p ''BR-12'' (br_12 ctx)"
    "emits p ''BR-13'' (br_13 ctx)" "emits p ''BR-14'' (br_14 ctx)" "emits p ''BR-15'' (br_15 ctx)"
    "emits p ''BR-16'' (br_16 ctx)" "emits p ''BR-17'' (br_17 ctx)"
  unfolding document_rules_defs Let_def by (intro emits_intros; simp add: emits_checks)+

lemmas party_and_line_rules_defs =
  br_18_def br_19_def br_20_def br_21_def br_22_def br_23_def br_24_def br_25_def br_26_def br_27_def
  br_28_def br_29_def br_30_def br_31_def br_32_def br_33_def

lemma party_and_line_rules_emit:
    "emits p ''BR-18'' (br_18 ctx)" "emits p ''BR-19'' (br_19 ctx)" "emits p ''BR-20'' (br_20 ctx)"
    "emits p ''BR-21'' (br_21 ctx)" "emits p ''BR-22'' (br_22 ctx)" "emits p ''BR-23'' (br_23 ctx)"
    "emits p ''BR-24'' (br_24 ctx)" "emits p ''BR-25'' (br_25 ctx)" "emits p ''BR-26'' (br_26 ctx)"
    "emits p ''BR-27'' (br_27 ops ctx)" "emits p ''BR-28'' (br_28 ops ctx)" "emits p ''BR-29'' (br_29 ctx)"
    "emits p ''BR-30'' (br_30 ctx)" "emits p ''BR-31'' (br_31 ctx)" "emits p ''BR-32'' (br_32 ctx)"
    "emits p ''BR-33'' (br_33 ctx)"
  unfolding party_and_line_rules_defs Let_def by (intro emits_intros; simp add: emits_checks)+

lemmas charge_and_tax_rules_defs =
  br_36_def br_37_def br_38_def br_41_def br_42_def br_43_def br_44_def br_45_def br_46_def br_47_def
  br_48_def br_49_def br_50_def

lemma charge_and_tax_rules_emit:
    "emits p ''BR-36'' (br_36 ctx)" "emits p ''BR-37'' (br_37 ctx)" "emits p ''BR-38'' (br_38 ctx)"
    "emits p ''BR-41'' (br_41 ctx)" "emits p ''BR-42'' (br_42 ctx)" "emits p ''BR-43'' (br_43 ctx)"
    "emits p ''BR-44'' (br_44 ctx)" "emits p ''BR-45'' (br_45 ctx)" "emits p ''BR-46'' (br_46 ctx)"
    "emits p ''BR-47'' (br_47 ctx)" "emits p ''BR-48'' (br_48 ctx)" "emits p ''BR-49'' (br_49 ctx)"
    "emits p ''BR-50'' (br_50 ctx)"
  unfolding charge_and_tax_rules_defs Let_def by (intro emits_intros; simp add: emits_checks)+

lemmas reference_rules_defs =
  br_51_def br_52_def br_53_def br_54_def br_55_def br_56_def br_57_def br_61_def br_62_def br_63_def
  br_64_def br_65_def

lemma reference_rules_emit:
    "emits p ''BR-51'' (br_51 ctx)" "emits p ''BR-52'' (br_52 ctx)" "emits p ''BR-53'' (br_53 ctx)"
    "emits p ''BR-54'' (br_54 ctx)" "emits p ''BR-55'' (br_55 ctx)" "emits p ''BR-56'' (br_56 ctx)"
    "emits p ''BR-57'' (br_57 ctx)" "emits p ''BR-61'' (br_61 ctx)" "emits p ''BR-62'' (br_62 ctx)"
    "emits p ''BR-63'' (br_63 ctx)" "emits p ''BR-64'' (br_64 ctx)" "emits p ''BR-65'' (br_65 ctx)"
  unfolding reference_rules_defs Let_def by (intro emits_intros; simp add: emits_checks)+

lemmas code_rules_defs =
  br_ae_05_def br_ae_10_def br_cl_17_def br_cl_18_def br_co_03_def br_co_04_def br_co_05_def br_co_06_def
  br_co_07_def br_co_08_def br_co_09_def

lemma code_rules_emit:
    "emits p ''BR-AE-05'' (br_ae_05 ops ctx)" "emits p ''BR-AE-10'' (br_ae_10 ctx)"
    "emits p ''BR-CL-17'' (br_cl_17 ctx)" "emits p ''BR-CL-18'' (br_cl_18 ctx)"
    "emits p ''BR-CO-03'' (br_co_03 ctx)" "emits p ''BR-CO-04'' (br_co_04 ctx)"
    "emits p ''BR-CO-05'' (br_co_05 ctx)" "emits p ''BR-CO-06'' (br_co_06 ctx)"
    "emits p ''BR-CO-07'' (br_co_07 ctx)" "emits p ''BR-CO-08'' (br_co_08 ctx)"
    "emits p ''BR-CO-09'' (br_co_09 ctx)"
  unfolding code_rules_defs Let_def by (intro emits_intros; simp add: emits_checks)+

lemmas group_rules_defs =
  br_co_18_def br_co_19_def br_co_20_def br_co_21_def br_co_22_def br_co_23_def br_co_24_def br_co_26_def

lemma group_rules_emit:
    "emits p ''BR-CO-18'' (br_co_18 ctx)" "emits p ''BR-CO-19'' (br_co_19 ctx)"
    "emits p ''BR-CO-20'' (br_co_20 ctx)" "emits p ''BR-CO-21'' (br_co_21 ctx)"
    "emits p ''BR-CO-22'' (br_co_22 ctx)" "emits p ''BR-CO-23'' (br_co_23 ctx)"
    "emits p ''BR-CO-24'' (br_co_24 ctx)" "emits p ''BR-CO-26'' (br_co_26 ctx)"
  unfolding group_rules_defs Let_def by (intro emits_intros; simp add: emits_checks)+

end
