(* ===== verification/En_Amounts.thy ===== *)
theory En_Amounts
  imports En_Emits Complex_Main
begin

text \<open>
  The arithmetic of the EN 16931 rules: what is assumed of \<open>rust_decimal\<close>, the sums that cannot overflow
  because \<open>decimal\<close> bounds every amount by \<open>10 ^ 16\<close>, and the rules that add.
\<close>

section \<open>The decimal type\<close>

definition cents :: "rat \<Rightarrow> bool" where
  "cents q \<longleftrightarrow> (\<exists>n :: int. q = of_int n / 100)"

text \<open>
  A decimal has 96 bits and at most 28 decimals: a sum below \<open>7 * 10 ^ 28\<close> exists and is rounded in its
  last place; it is exact where 2 decimals are enough and it is below \<open>7 * 10 ^ 26\<close>.
\<close>

definition amount_laws :: "'d amount_ops \<Rightarrow> ('d \<Rightarrow> rat) \<Rightarrow> bool" where
  "amount_laws ops val \<longleftrightarrow>
     (\<forall>a b. am_eq ops a b = (val a = val b)) \<and> (\<forall>a b. am_less ops a b = (val a < val b))
     \<and> val (am_zero ops) = 0 \<and> val (am_one ops) = 1
     \<and> (\<forall>n. \<bar>n\<bar> \<le> 10 ^ 18 \<longrightarrow> val (am_new ops n) = of_int n) \<and> (\<forall>a. val (am_abs ops a) = \<bar>val a\<bar>)
     \<and> (\<forall>a b. \<bar>val a + val b\<bar> \<le> 7 * 10 ^ 28 \<longrightarrow>
          (\<exists>c. am_add ops a b = Some c \<and> \<bar>val c - (val a + val b)\<bar> \<le> 1
             \<and> (cents (val a) \<and> cents (val b) \<and> \<bar>val a + val b\<bar> \<le> 7 * 10 ^ 26 \<longrightarrow> val c = val a + val b)))
     \<and> (\<forall>a b. \<bar>val a - val b\<bar> \<le> 7 * 10 ^ 28 \<longrightarrow>
          (\<exists>c. am_sub ops a b = Some c \<and> \<bar>val c - (val a - val b)\<bar> \<le> 1
             \<and> (cents (val a) \<and> cents (val b) \<and> \<bar>val a - val b\<bar> \<le> 7 * 10 ^ 26 \<longrightarrow> val c = val a - val b)))
     \<and> (\<forall>a. cents (val a) \<longrightarrow> val (am_round_dp ops 2 a) = val a)"

lemma laws_compare:
  assumes "amount_laws ops val"
  shows "am_eq ops a b = (val a = val b)" "am_less ops a b = (val a < val b)" "val (am_zero ops) = 0"
    "val (am_one ops) = 1" "val (am_abs ops a) = \<bar>val a\<bar>" "cents (val a) \<Longrightarrow> val (am_round_dp ops 2 a) = val a"
    "\<bar>n\<bar> \<le> 10 ^ 18 \<Longrightarrow> val (am_new ops n) = of_int n"
  using assms by (auto simp: amount_laws_def)

lemma laws_add:
  assumes "amount_laws ops val" "\<bar>val a + val b\<bar> \<le> 7 * 10 ^ 28"
  obtains c where "am_add ops a b = Some c" "\<bar>val c - (val a + val b)\<bar> \<le> 1"
    "cents (val a) \<Longrightarrow> cents (val b) \<Longrightarrow> \<bar>val a + val b\<bar> \<le> 7 * 10 ^ 26 \<Longrightarrow> val c = val a + val b"
  using assms unfolding amount_laws_def by blast

lemma laws_sub:
  assumes "amount_laws ops val" "\<bar>val a - val b\<bar> \<le> 7 * 10 ^ 28"
  obtains c where "am_sub ops a b = Some c" "\<bar>val c - (val a - val b)\<bar> \<le> 1"
    "cents (val a) \<Longrightarrow> cents (val b) \<Longrightarrow> \<bar>val a - val b\<bar> \<le> 7 * 10 ^ 26 \<Longrightarrow> val c = val a - val b"
  using assms unfolding amount_laws_def by blast

lemma cents_0: "cents 0"
  unfolding cents_def by (rule exI [of _ 0]) simp

lemma cents_add: "cents a \<Longrightarrow> cents b \<Longrightarrow> cents (a + b)"
  unfolding cents_def by (metis add_divide_distrib of_int_add)

lemma cents_diff: "cents a \<Longrightarrow> cents b \<Longrightarrow> cents (a - b)"
  unfolding cents_def by (metis diff_divide_distrib of_int_diff)

section \<open>Bounded amounts\<close>

lemma opt_decimal_bound:
  assumes "amount_laws ops val" "opt_decimal ops t = Some d"
  shows "\<bar>val d\<bar> \<le> 10 ^ 16"
  using assms(2) laws_compare [OF assms(1)]
  by (auto simp: opt_decimal_def en_decimal_def bind_eq_Some_conv not_less split: if_splits)

lemma allowance_charge_amount_bound:
  "amount_laws ops val \<Longrightarrow> allowance_charge_amount ops c s = Some d \<Longrightarrow> \<bar>val d\<bar> \<le> 10 ^ 16"
  by (cases s) (simp_all only: allowance_charge_amount_def document_syntax.case, (rule opt_decimal_bound; assumption)+)

lemma header_amount_bound: "amount_laws ops val \<Longrightarrow> header_amount ops ctx n = Some d \<Longrightarrow> \<bar>val d\<bar> \<le> 10 ^ 16"
  by (cases "ctx_syntax ctx") (simp_all only: header_amount_def document_syntax.case, (rule opt_decimal_bound; assumption)+)

lemma or_zero_bound:
  assumes "amount_laws ops val" "\<And>d. x = Some d \<Longrightarrow> \<bar>val d\<bar> \<le> 10 ^ 16"
  shows "\<bar>val (or_zero ops x)\<bar> \<le> 10 ^ 16"
  using assms laws_compare [OF assms(1)] by (simp add: or_zero_def split: option.split)

lemma length_map_filter: "length (List.map_filter f xs) \<le> length xs"
  by (simp add: List.map_filter_def)

lemma set_map_filter_iff: "y \<in> set (List.map_filter f xs) \<longleftrightarrow> (\<exists>x \<in> set xs. f x = Some y)"
  by (induction xs) (auto simp: List.map_filter_def)

definition bounded_list :: "('d \<Rightarrow> rat) \<Rightarrow> 'd list \<Rightarrow> bool" where
  "bounded_list val ds \<longleftrightarrow> length ds \<le> 10 ^ 12 \<and> (\<forall>d \<in> set ds. \<bar>val d\<bar> \<le> 10 ^ 16)"

lemma bounded_map_filter:
  assumes "length xs \<le> 10 ^ 12" "\<And>x d. f x = Some d \<Longrightarrow> \<bar>val d\<bar> \<le> 10 ^ 16"
  shows "bounded_list val (List.map_filter f xs)"
  unfolding bounded_list_def
  by (meson assms length_map_filter order_trans set_map_filter_iff)

lemma sum_from_bound:
  assumes "amount_laws ops val" "\<forall>d \<in> set ds. \<bar>val d\<bar> \<le> 10 ^ 16"
    "\<bar>val acc\<bar> \<le> of_nat m * (10 ^ 16 + 1)" "m + length ds \<le> 10 ^ 12"
  shows "\<exists>s. sum_from ops acc ds = Inr s \<and> \<bar>val s\<bar> \<le> of_nat (m + length ds) * (10 ^ 16 + 1)"
  using assms(2-4)
proof (induction ds arbitrary: acc m)
  case (Cons d ds)
  have "of_nat m \<le> (10 ^ 12 :: rat)"
    using Cons.prems(3) of_nat_mono [of m "10 ^ 12", where 'a = rat] by simp
  then have small: "of_nat m * (10 ^ 16 + 1) \<le> (10 ^ 12 * (10 ^ 16 + 1) :: rat)" by (intro mult_right_mono) simp_all
  have sum: "\<bar>val acc + val d\<bar> \<le> of_nat m * (10 ^ 16 + 1) + 10 ^ 16"
    using Cons.prems(1,2) by (intro order_trans [OF abs_triangle_ineq] add_mono) simp_all
  obtain c where c: "am_add ops acc d = Some c" "\<bar>val c - (val acc + val d)\<bar> \<le> 1"
    by (rule laws_add [OF assms(1), of acc d]) (use sum small in auto)
  have "\<bar>val c\<bar> \<le> of_nat (Suc m) * (10 ^ 16 + 1)"
    using c(2) sum by (simp add: algebra_simps abs_le_iff)
  from Cons.IH [OF _ this] Cons.prems show ?case by (simp add: or_panic_def c(1))
qed simp

lemma amount_sum_bound:
  assumes "amount_laws ops val" "bounded_list val ds"
  obtains s where "amount_sum ops ds = Inr s" "\<bar>val s\<bar> \<le> 2 * 10 ^ 28"
proof -
  have "of_nat (length ds) \<le> (10 ^ 12 :: rat)"
    using assms(2) of_nat_mono [of "length ds" "10 ^ 12", where 'a = rat] by (simp add: bounded_list_def)
  then have "of_nat (length ds) * (10 ^ 16 + 1) \<le> (10 ^ 12 * (10 ^ 16 + 1) :: rat)"
    by (intro mult_right_mono) simp_all
  then have len: "of_nat (length ds) * (10 ^ 16 + 1) \<le> (2 * 10 ^ 28 :: rat)" by (rule order_trans) simp
  obtain s where "sum_from ops (am_zero ops) ds = Inr s" "\<bar>val s\<bar> \<le> of_nat (0 + length ds) * (10 ^ 16 + 1)"
    using sum_from_bound [OF assms(1), of ds "am_zero ops" 0] assms(2) laws_compare [OF assms(1)]
    by (auto simp: bounded_list_def)
  with len that show thesis by (auto simp: amount_sum_def intro: order_trans)
qed

section \<open>The size of a document\<close>

fun xn_nodes :: "xml_node \<Rightarrow> nat" where
  "xn_nodes (XmlNode _ _ _ _ cs) = Suc (sum_list (map xn_nodes cs))"

lemma nodes_pos: "0 < xn_nodes n"
  by (cases n) simp

lemma nodes_child: "c \<in> set (xn_children n) \<Longrightarrow> xn_nodes c \<le> xn_nodes n"
  by (cases n) (simp add: le_SucI member_le_sum_list)

lemma length_le_sum_list: "(\<And>x. x \<in> set xs \<Longrightarrow> 0 < f x) \<Longrightarrow> length xs \<le> sum_list (map (f :: 'a \<Rightarrow> nat) xs)"
proof (induction xs)
  case (Cons x xs)
  then have "length xs \<le> sum_list (map f xs)" "0 < f x" by simp_all
  then show ?case by simp
qed simp

lemma length_children: "length (xn_children n) \<le> xn_nodes n"
  using length_le_sum_list [of "xn_children n" xn_nodes] by (cases n) (auto simp: nodes_pos)

lemma length_children_named: "length (children_named n name) \<le> xn_nodes n"
  using order_trans [OF length_filter_le length_children] by (simp add: children_named_def)

lemma length_descendants: "length (descendants name n) < xn_nodes n"
proof (induction name n rule: descendants.induct)
  case (1 name n ns as body cs)
  have "length ((if xn_name c = name then [c] else []) @ descendants name c) \<le> xn_nodes c" if "c \<in> set cs" for c
    using 1 [OF that] by simp
  then have "sum_list (map (\<lambda>c. length ((if xn_name c = name then [c] else []) @ descendants name c)) cs)
      \<le> sum_list (map xn_nodes cs)"
    by (rule sum_list_mono)
  then show ?case by (simp add: length_concat comp_def less_Suc_eq_le)
qed

lemma nodes_xn_path: "xn_path n path = Some m \<Longrightarrow> xn_nodes m \<le> xn_nodes n"
proof (induction n path rule: xn_path.induct)
  case (2 node part parts)
  then obtain c where c: "xn_child node part = Some c" "xn_nodes m \<le> xn_nodes c"
    by (auto simp: bind_eq_Some_conv)
  then have "c \<in> set (xn_children node)" by (auto simp: xn_child_def find_Some_iff)
  with c(2) nodes_child [of c node] show ?case by simp
qed simp

lemma length_opt_children: "length (opt_children (xn_path n path) name) \<le> xn_nodes n"
proof (cases "xn_path n path")
  case (Some m)
  with nodes_xn_path [OF Some] length_children_named [of m name] show ?thesis by (simp add: opt_children_def)
qed (simp add: opt_children_def)

text \<open>The lists of the context and of the selectors that are summed.\<close>

lemma length_context:
  "length (ctx_line_nodes (context_of s doc)) \<le> xn_nodes doc"
  "length (ctx_charge_nodes (context_of s doc)) \<le> xn_nodes doc"
  "length (ctx_allowance_nodes (context_of s doc)) \<le> xn_nodes doc"
proof -
  have charges: "length (collect_document_allowance_charges s doc b) \<le> xn_nodes doc" for b
    using order_trans [OF length_filter_le length_children_named]
      order_trans [OF length_filter_le length_opt_children]
    by (cases s) (simp_all add: collect_document_allowance_charges_def cii_header_settlement_of_def del: xn_path.simps)
  show "length (ctx_charge_nodes (context_of s doc)) \<le> xn_nodes doc"
    "length (ctx_allowance_nodes (context_of s doc)) \<le> xn_nodes doc"
    using charges by (simp_all add: context_of_def)
  show "length (ctx_line_nodes (context_of s doc)) \<le> xn_nodes doc"
    using order_trans [OF length_filter_le length_children [of doc]]
      less_imp_le [OF length_descendants [of "''IncludedSupplyChainTradeLineItem''" doc]]
    by (cases s) (simp_all add: context_of_def collect_lines_def)
qed

end
