(* ===== verification/En_Sound.thy ===== *)
theory En_Sound
  imports En_Amounts
begin

text \<open>
  Every rule of the EN 16931 validator reports well-formed findings under its own identifier and never
  fails; on a document of fewer than \<open>10 ^ 12\<close> elements its arithmetic cannot overflow.
\<close>

section \<open>Computations that stay in range\<close>

definition fits :: "bool \<Rightarrow> 'd amount_ops \<Rightarrow> ('d \<Rightarrow> rat) \<Rightarrow> validation_context \<Rightarrow> bool" where
  "fits p ops val ctx \<longleftrightarrow>
     p \<or> amount_laws ops val \<and> ctx = context_of (ctx_syntax ctx) (ctx_root ctx) \<and> xn_nodes (ctx_root ctx) \<le> 10 ^ 12"

fun in_range :: "bool \<Rightarrow> ('d \<Rightarrow> rat) \<Rightarrow> rat \<Rightarrow> en_stop + 'd \<Rightarrow> bool" where
  "in_range p val b (Inr x) \<longleftrightarrow> p \<or> \<bar>val x\<bar> \<le> b"
| "in_range p val b (Inl EnPanic) \<longleftrightarrow> p"
| "in_range p val b (Inl (EnFail e)) \<longleftrightarrow> False"

lemma in_range_add:
  assumes "fits p ops val ctx" "p \<or> \<bar>val x\<bar> \<le> a" "p \<or> \<bar>val y\<bar> \<le> b" "a + b \<le> 7 * 10 ^ 28"
  shows "in_range p val (a + b + 1) (or_panic (am_add ops x y))"
proof (cases p)
  case False
  then have xy: "\<bar>val x + val y\<bar> \<le> a + b" and laws: "amount_laws ops val"
    using assms(1-3) by (auto simp: fits_def abs_le_iff)
  obtain c where "am_add ops x y = Some c" "\<bar>val c - (val x + val y)\<bar> \<le> 1"
    by (rule laws_add [OF laws order_trans [OF xy assms(4)]])
  with xy show ?thesis by (simp add: or_panic_def abs_le_iff)
qed (simp add: or_panic_def split: option.split)

lemma in_range_sub:
  assumes "fits p ops val ctx" "p \<or> \<bar>val x\<bar> \<le> a" "p \<or> \<bar>val y\<bar> \<le> b" "a + b \<le> 7 * 10 ^ 28"
  shows "in_range p val (a + b + 1) (or_panic (am_sub ops x y))"
proof (cases p)
  case False
  then have xy: "\<bar>val x - val y\<bar> \<le> a + b" and laws: "amount_laws ops val"
    using assms(1-3) by (auto simp: fits_def abs_le_iff)
  obtain c where "am_sub ops x y = Some c" "\<bar>val c - (val x - val y)\<bar> \<le> 1"
    by (rule laws_sub [OF laws order_trans [OF xy assms(4)]])
  with xy show ?thesis by (simp add: or_panic_def abs_le_iff)
qed (simp add: or_panic_def split: option.split)

lemma sum_from_no_failure: "sum_from ops acc ds \<noteq> Inl (EnFail e)"
  by (induction ops acc ds rule: sum_from.induct) (auto simp: or_panic_def rbind_def split: option.splits sum.splits)

lemma in_range_sum:
  assumes "fits p ops val ctx" "p \<or> bounded_list val ds"
  shows "in_range p val (2 * 10 ^ 28) (amount_sum ops ds)"
proof (cases p)
  case True
  have "amount_sum ops ds \<noteq> Inl (EnFail e)" for e by (simp add: amount_sum_def sum_from_no_failure)
  with True show ?thesis by (cases "(p, val, 2 * 10 ^ 28 :: rat, amount_sum ops ds)" rule: in_range.cases) auto
next
  case False
  then have "amount_laws ops val" "bounded_list val ds" using assms by (auto simp: fits_def)
  then show ?thesis using amount_sum_bound by (metis in_range.simps(1))
qed

lemma in_range_rbind:
  "in_range p val a m \<Longrightarrow> (\<And>x. p \<or> \<bar>val x\<bar> \<le> a \<Longrightarrow> in_range p w b (f x)) \<Longrightarrow> in_range p w b (rbind m f)"
  by (cases "(p, val, a, m)" rule: in_range.cases) auto

lemma emits_in_range:
  "in_range p val a m \<Longrightarrow> (\<And>x. p \<or> \<bar>val x\<bar> \<le> a \<Longrightarrow> emits p rule (f x)) \<Longrightarrow> emits p rule (rbind m f)"
  by (cases "(p, val, a, m)" rule: in_range.cases) auto

lemma computes_in_range:
  "in_range p val a m \<Longrightarrow> (\<And>x. p \<or> \<bar>val x\<bar> \<le> a \<Longrightarrow> computes p (f x)) \<Longrightarrow> computes p (rbind m f)"
  by (cases "(p, val, a, m)" rule: in_range.cases) auto

lemma in_range_Inr: "p \<or> \<bar>val x\<bar> \<le> a \<Longrightarrow> in_range p val a (Inr x)"
  by simp

section \<open>The amounts of the rules\<close>

lemma fits_amount:
  assumes "fits p ops val ctx"
  shows "opt_decimal ops t = Some d \<Longrightarrow> p \<or> \<bar>val d\<bar> \<le> 10 ^ 16"
    "header_amount ops ctx n = Some d \<Longrightarrow> p \<or> \<bar>val d\<bar> \<le> 10 ^ 16"
    "p \<or> \<bar>val (or_zero ops (header_amount ops ctx n))\<bar> \<le> 10 ^ 16"
    "p \<or> \<bar>val (or_zero ops (opt_decimal ops t))\<bar> \<le> 10 ^ 16"
  using assms opt_decimal_bound [of ops val] header_amount_bound [of ops val ctx] or_zero_bound [of ops val]
  unfolding fits_def by blast+

lemma fits_map_filter:
  assumes "fits p ops val ctx" "\<And>x d. f x = Some d \<Longrightarrow> p \<or> \<bar>val d\<bar> \<le> 10 ^ 16"
    "length xs \<le> xn_nodes (ctx_root ctx)"
  shows "p \<or> bounded_list val (List.map_filter f xs)"
  using assms bounded_map_filter [of xs f val] unfolding fits_def by (meson order_trans)

lemma fits_lengths:
  assumes "fits p ops val ctx" "\<not> p"
  shows "length (ctx_line_nodes ctx) \<le> xn_nodes (ctx_root ctx)"
    "length (document_allowance_charges ctx b) \<le> xn_nodes (ctx_root ctx)"
  using assms length_context [of "ctx_syntax ctx" "ctx_root ctx"]
  by (auto simp: fits_def document_allowance_charges_def)

lemma fits_filtered:
  assumes "fits p ops val ctx" "\<And>x d. f x = Some d \<Longrightarrow> p \<or> \<bar>val d\<bar> \<le> 10 ^ 16"
  shows "p \<or> bounded_list val (List.map_filter f (filter P (ctx_line_nodes ctx)))"
    "p \<or> bounded_list val (List.map_filter f (filter P (document_allowance_charges ctx b)))"
  using fits_map_filter [OF assms(1), of f] assms(2) fits_lengths [OF assms(1)] order_trans [OF length_filter_le]
  by metis+

lemma fits_charge_amount:
  "fits p ops val ctx \<Longrightarrow> allowance_charge_amount ops c s = Some d \<Longrightarrow> p \<or> \<bar>val d\<bar> \<le> 10 ^ 16"
  using allowance_charge_amount_bound [of ops val] unfolding fits_def by blast

lemma fits_sums:
  assumes "fits p ops val ctx"
  shows "p \<or> bounded_list val (line_amounts ops ctx)" "p \<or> bounded_list val (charge_amounts ops ctx b)"
    "p \<or> bounded_list val (ae_line_amounts ops ctx)" "p \<or> bounded_list val (ae_charge_amounts ops ctx b)"
    "p \<or> bounded_list val (cii_tax_amounts ops ctx)"
    "tot \<in> set (children_named (ctx_root ctx) name) \<Longrightarrow> p \<or> bounded_list val (subtotal_amounts ops tot)"
proof -
  show "p \<or> bounded_list val (line_amounts ops ctx)"
    unfolding line_amounts_def by (rule fits_filtered(1) [OF assms]; rule fits_amount(1) [OF assms])
  show "p \<or> bounded_list val (ae_line_amounts ops ctx)"
    unfolding ae_line_amounts_def by (rule fits_filtered(1) [OF assms]; rule fits_amount(1) [OF assms])
  show "p \<or> bounded_list val (ae_charge_amounts ops ctx b)"
    unfolding ae_charge_amounts_def
    by (rule fits_filtered(2) [OF assms]; rule fits_charge_amount [OF assms])
  show "p \<or> bounded_list val (charge_amounts ops ctx b)"
    using fits_filtered(2) [where f = "\<lambda>c. allowance_charge_amount ops c (ctx_syntax ctx)" and P = "\<lambda>_. True",
        OF assms fits_charge_amount [OF assms]]
    by (simp add: charge_amounts_def)
  show "p \<or> bounded_list val (cii_tax_amounts ops ctx)"
    unfolding cii_tax_amounts_def cii_header_settlement_def cii_header_settlement_of_def
    by (rule fits_map_filter [OF assms]; (rule fits_amount(1) [OF assms] length_opt_children)?)
  show "p \<or> bounded_list val (subtotal_amounts ops tot)" if tot: "tot \<in> set (children_named (ctx_root ctx) name)"
  proof -
    have "xn_nodes tot \<le> xn_nodes (ctx_root ctx)" using nodes_child tot by (auto simp: children_named_def)
    then have "length (children_named tot ''TaxSubtotal'') \<le> xn_nodes (ctx_root ctx)"
      using length_children_named order_trans by blast
    then show ?thesis
      unfolding subtotal_amounts_def by (intro fits_map_filter [OF assms] fits_amount(1) [OF assms])
  qed
qed

section \<open>The rules with arithmetic\<close>

lemma br_co_10_emits: "fits p ops val ctx \<Longrightarrow> emits p ''BR-CO-10'' (br_co_10 ops ctx)"
  unfolding br_co_10_def
  by (intro emits_intros; (rule emits_in_range [OF in_range_sum], assumption, erule fits_sums)?;
      intro emits_intros; simp add: emits_checks)

lemma br_co_11_emits: "fits p ops val ctx \<Longrightarrow> emits p ''BR-CO-11'' (br_co_11 ops ctx)"
  unfolding br_co_11_def Let_def
  by (intro emits_intros; (rule emits_in_range [OF in_range_sum], assumption, erule fits_sums)?;
      intro emits_intros; simp add: emits_checks)

lemma br_co_12_emits: "fits p ops val ctx \<Longrightarrow> emits p ''BR-CO-12'' (br_co_12 ops ctx)"
  unfolding br_co_12_def Let_def
  by (intro emits_intros; (rule emits_in_range [OF in_range_sum], assumption, erule fits_sums)?;
      intro emits_intros; simp add: emits_checks)

lemma minus_plus_in_range:
  assumes "fits p ops val ctx" "p \<or> \<bar>val x\<bar> \<le> 10 ^ 16" "p \<or> \<bar>val y\<bar> \<le> 10 ^ 16" "p \<or> \<bar>val z\<bar> \<le> 10 ^ 16"
  shows "in_range p val (4 * 10 ^ 16) (minus_plus ops x y z)"
proof -
  have "in_range p val (10 ^ 16 + 10 ^ 16 + 1) (or_panic (am_sub ops x y))"
    by (rule in_range_sub [OF assms(1-3)]) simp
  then show ?thesis unfolding minus_plus_def
  proof (rule in_range_rbind)
    fix d
    assume "p \<or> \<bar>val d\<bar> \<le> 10 ^ 16 + 10 ^ 16 + 1"
    then have "in_range p val (10 ^ 16 + 10 ^ 16 + 1 + 10 ^ 16 + 1) (or_panic (am_add ops d z))"
      by (intro in_range_add [OF assms(1)] assms(4)) simp_all
    then show "in_range p val (4 * 10 ^ 16) (or_panic (am_add ops d z))"
      by (cases "or_panic (am_add ops d z)" rule: sum.exhaust)
        (auto simp: or_panic_def split: option.splits)
  qed
qed

lemma br_co_13_emits: "fits p ops val ctx \<Longrightarrow> emits p ''BR-CO-13'' (br_co_13 ops ctx)"
  unfolding br_co_13_def
  by (intro emits_intros; (rule emits_in_range [OF minus_plus_in_range], assumption, (erule fits_amount)+)?;
      intro emits_intros; simp add: emits_checks)

lemma br_co_16_emits: "fits p ops val ctx \<Longrightarrow> emits p ''BR-CO-16'' (br_co_16 ops ctx)"
proof -
  assume fit: "fits p ops val ctx"
  have "emits p ''BR-CO-16'' (rbind (minus_plus ops inclusive (or_zero ops (header_amount ops ctx a)) (or_zero ops (header_amount ops ctx b)))
      (\<lambda>d. fail_if (\<not> am_eq ops payable (rounded_2 ops d)) ''BR-CO-16'' ''BT-115'' ''/monetary_total/payable_amount''
         ''Set payable amount to VAT-inclusive total minus prepaid amount plus rounding amount''))"
    if "header_amount ops ctx n = Some inclusive" for inclusive payable a b n
    by (rule emits_in_range [OF minus_plus_in_range [OF fit fits_amount(2) [OF fit that] fits_amount(3,3) [OF fit]]])
      (intro emits_intros; simp add: emits_checks)
  then show ?thesis
    by (cases "ctx_syntax ctx") (auto simp: br_co_16_def split: option.split)
qed

lemma br_co_14_emits: "fits p ops val ctx \<Longrightarrow> emits p ''BR-CO-14'' (br_co_14 ops ctx)"
  unfolding br_co_14_def br_co_14_ubl_def br_co_14_cii_def Let_def
  by (intro emits_intros; (rule emits_in_range [OF in_range_sum], assumption, erule fits_sums, assumption?)?;
      intro emits_intros; simp add: emits_checks)

lemma in_range_mono: "in_range p val a m \<Longrightarrow> a \<le> b \<Longrightarrow> in_range p val b m"
  by (cases "(p, val, a, m)" rule: in_range.cases) auto

lemma ae_expected_in_range:
  assumes "fits p ops val ctx"
  shows "computes p (ae_expected ops ctx)"
  unfolding ae_expected_def
proof (intro computes_in_range [OF in_range_sum [OF assms fits_sums(3) [OF assms]]]
    computes_in_range [OF in_range_sum [OF assms fits_sums(4) [OF assms]]])
  fix ls cs
  assume ls: "p \<or> \<bar>val ls\<bar> \<le> 2 * 10 ^ 28" and cs: "p \<or> \<bar>val cs\<bar> \<le> 2 * 10 ^ 28"
  show "computes p (rbind (or_panic (am_add ops ls cs)) (\<lambda>s. rbind (amount_sum ops (ae_charge_amounts ops ctx False))
      (\<lambda>as. rbind (or_panic (am_sub ops s as)) (\<lambda>d. Inr (rounded_2 ops d)))))"
  proof (intro computes_in_range [OF in_range_add [OF assms ls cs]]
      computes_in_range [OF in_range_sum [OF assms fits_sums(4) [OF assms]]])
    fix s as
    assume s: "p \<or> \<bar>val s\<bar> \<le> 2 * 10 ^ 28 + 2 * 10 ^ 28 + 1" and as: "p \<or> \<bar>val as\<bar> \<le> 2 * 10 ^ 28"
    show "computes p (rbind (or_panic (am_sub ops s as)) (\<lambda>d. Inr (rounded_2 ops d)))"
      by (rule computes_in_range [OF in_range_sub [OF assms s as]]) simp_all
  qed simp
qed

lemma br_ae_08_emits: "fits p ops val ctx \<Longrightarrow> emits p ''BR-AE-08'' (br_ae_08 ops ctx)"
  unfolding br_ae_08_def
  by (intro emits_intros; (rule emits_rbind [OF ae_expected_in_range], assumption)?;
      intro emits_intros; simp add: emits_checks)

lemma equals_with_tax_computes:
  assumes "fits p ops val ctx" "p \<or> \<bar>val x\<bar> \<le> 10 ^ 16" "p \<or> \<bar>val t\<bar> \<le> 10 ^ 16"
  shows "computes p (equals_with_tax ops inclusive x t)"
  unfolding equals_with_tax_def by (rule computes_in_range [OF in_range_add [OF assms]]) simp_all

lemma en_decimal_amount: "fits p ops val ctx \<Longrightarrow> en_decimal ops s = Some d \<Longrightarrow> p \<or> \<bar>val d\<bar> \<le> 10 ^ 16"
  using fits_amount(1) [of p ops val ctx "Some s" d] by (simp add: opt_decimal_def)

lemma or_zero_en_decimal: "fits p ops val ctx \<Longrightarrow> p \<or> \<bar>val (or_zero ops (en_decimal ops s))\<bar> \<le> 10 ^ 16"
  using fits_amount(4) [of p ops val ctx "Some s"] by (simp add: opt_decimal_def)

lemma br_co_15_ubl_computes:
  assumes "fits p ops val ctx"
  shows "computes p (br_co_15_ubl_valid ops ctx currency)"
proof -
  have "computes p (equals_with_tax ops i x (or_zero ops (en_decimal ops s)))"
    if "header_amount ops ctx ''TaxExclusiveAmount'' = Some x" for i x s
    by (rule equals_with_tax_computes [OF assms fits_amount(2) [OF assms that] or_zero_en_decimal [OF assms]])
  then show ?thesis
    by (simp add: br_co_15_ubl_valid_def split: list.split option.split)
qed

lemma br_co_15_cii_computes:
  assumes "fits p ops val ctx"
  shows "computes p (br_co_15_cii_valid ops ctx currency)"
proof -
  have "computes p (equals_with_tax ops i x t)"
    if "header_amount ops ctx ''TaxBasisTotalAmount'' = Some x" "en_decimal ops s = Some t" for i x s t
    by (rule equals_with_tax_computes [OF assms fits_amount(2) [OF assms that(1)] en_decimal_amount [OF assms that(2)]])
  then show ?thesis
    by (auto simp: br_co_15_cii_valid_def intro!: computes_rbind split: list.split option.split)
qed

lemma br_co_15_emits:
  assumes "fits p ops val ctx"
  shows "emits p ''BR-CO-15'' (br_co_15 ops ctx)"
  unfolding br_co_15_def
proof (intro emits_intros emits_rbind computes_syntax)
  show "computes p (br_co_15_ubl_valid ops ctx currency)" "computes p (br_co_15_cii_valid ops ctx currency)" for currency
    using assms by (rule br_co_15_ubl_computes br_co_15_cii_computes)+
qed (simp_all add: emits_checks)

lemma tolerance_computes:
  assumes "fits p ops val ctx" "p \<or> \<bar>val a\<bar> \<le> 10 ^ 16"
  shows "computes p (br_co_17_within_tolerance ops s a e)"
proof -
  have one: "p \<or> \<bar>val (am_one ops)\<bar> \<le> 1" using assms(1) by (auto simp: fits_def amount_laws_def)
  have high: "computes p (rbind (or_panic (am_add ops a (am_one ops))) (\<lambda>h. Inr (P h)))" for P :: "'a \<Rightarrow> bool"
    by (rule computes_in_range [OF in_range_add [OF assms one]]) simp_all
  show ?thesis unfolding br_co_17_within_tolerance_def
    by (rule computes_in_range [OF in_range_sub [OF assms one]]) (cases s; simp add: high)+
qed

lemma br_co_17_emits:
  assumes "fits p ops val ctx"
  shows "emits p ''BR-CO-17'' (br_co_17 ops ctx)"
proof -
  have abs: "p \<or> \<bar>val (am_abs ops d)\<bar> \<le> 10 ^ 16" if "p \<or> \<bar>val d\<bar> \<le> 10 ^ 16" for d
    using that assms by (auto simp: fits_def laws_compare)
  have valid: "computes p (br_co_17_valid ops (ctx_syntax ctx) base tax_amount rate)"
    if "p \<or> \<bar>val tax_amount\<bar> \<le> 10 ^ 16" for base tax_amount rate
    unfolding br_co_17_valid_def Let_def
    by (auto split: option.split intro!: computes_rbind tolerance_computes [OF assms] abs that)
  have one: "emits p ''BR-CO-17'' (case v of (taxable, None, rate) \<Rightarrow> Inr []
       | (taxable, Some tax_amount, rate) \<Rightarrow>
           rbind (br_co_17_valid ops (ctx_syntax ctx) taxable tax_amount rate) (\<lambda>valid.
             fail_if (valid = Some False) ''BR-CO-17'' ''BT-117'' (''/tax_summary/'' @ number i @ ''/tax_amount'')
               ''Set VAT tax amount to taxable amount multiplied by VAT rate, rounded to two decimals''))"
    if "\<And>d. fst (snd v) = Some d \<Longrightarrow> p \<or> \<bar>val d\<bar> \<le> 10 ^ 16" for i v
    using that
    by (cases v; cases "fst (snd v)")
      (auto intro!: emits_rbind valid fail_if_emits simp: emits_checks)
  show ?thesis
    unfolding br_co_17_def
    by (rule each_from_emits, rule one, cases "ctx_syntax ctx") (auto dest: fits_amount(1) [OF assms])
qed

lemmas arithmetic_rules_emit = br_ae_08_emits br_co_10_emits br_co_11_emits br_co_12_emits br_co_13_emits
  br_co_14_emits br_co_15_emits br_co_16_emits br_co_17_emits

section \<open>All rules\<close>

lemma run_rules_emits:
  assumes "list_all2 (\<lambda>rule r. emits p rule (r ctx)) rules rs"
  shows "case run_rules rs ctx of Inr fs \<Rightarrow> list_all (\<lambda>f. \<exists>rule \<in> set rules. en_finding rule f) fs
    | Inl EnPanic \<Rightarrow> p | Inl (EnFail e) \<Rightarrow> False"
  using assms
proof (induction rules rs rule: list_all2_induct)
  case (Cons rule rules r rs)
  from Cons.hyps(1) Cons.IH show ?case
    by (cases "(p, rule, r ctx)" rule: emits.cases)
      (auto simp: list_all_iff rbind_def split: sum.splits en_stop.splits)
qed simp

definition br_ids :: "string list" where
  "br_ids = take 58 implemented_rule_ids"

definition br_ae_ids :: "string list" where
  "br_ae_ids = [''BR-AE-05'', ''BR-AE-08'', ''BR-AE-10'']"

definition br_cl_ids :: "string list" where
  "br_cl_ids = [''BR-CL-17'', ''BR-CL-18'']"

definition br_co_ids :: "string list" where
  "br_co_ids = take 2 (drop 58 implemented_rule_ids) @ drop 65 implemented_rule_ids"

lemma rules_emit:
  assumes "fits p ops val ctx"
  shows "list_all2 (\<lambda>rule r. emits p rule (r ctx)) br_ids (br_rules ops)"
    "list_all2 (\<lambda>rule r. emits p rule (r ctx)) br_ae_ids (br_ae_rules ops)"
    "list_all2 (\<lambda>rule r. emits p rule (r ctx)) br_cl_ids br_cl_rules"
    "list_all2 (\<lambda>rule r. emits p rule (r ctx)) br_co_ids (br_co_rules ops)"
  by (simp_all add: br_ids_def br_ae_ids_def br_cl_ids_def br_co_ids_def implemented_rule_ids_def
      br_rules_def br_ae_rules_def br_cl_rules_def br_co_rules_def document_rules_emit party_and_line_rules_emit
      charge_and_tax_rules_emit reference_rules_emit code_rules_emit group_rules_emit
      arithmetic_rules_emit [OF assms])

lemma rule_ids_implemented: "set (br_ids @ br_ae_ids @ br_cl_ids @ br_co_ids) = set implemented_rule_ids"
proof -
  have "implemented_rule_ids = br_ids @ take 2 (drop 58 implemented_rule_ids) @ (br_ae_ids @ br_cl_ids) @ drop 65 implemented_rule_ids"
    by (simp add: br_ids_def br_ae_ids_def br_cl_ids_def implemented_rule_ids_def)
  then have "set implemented_rule_ids
      = set (br_ids @ take 2 (drop 58 implemented_rule_ids) @ (br_ae_ids @ br_cl_ids) @ drop 65 implemented_rule_ids)"
    by (rule arg_cong)
  then show ?thesis by (auto simp: br_co_ids_def)
qed

definition rules_of :: "'d amount_ops \<Rightarrow> (validation_context \<Rightarrow> rule_outcome) list" where
  "rules_of ops = br_rules ops @ br_ae_rules ops @ br_cl_rules @ br_co_rules ops"

lemma run_rules_append:
  "run_rules (rs @ rs') ctx = rbind (run_rules rs ctx) (\<lambda>fs. rbind (run_rules rs' ctx) (\<lambda>gs. Inr (fs @ gs)))"
  by (induction rs) (auto simp: rbind_def split: sum.split)

lemma all_rules_run: "all_rules ops ctx = run_rules (rules_of ops) ctx"
  by (auto simp: all_rules_def rules_of_def run_rules_append rbind_def split: sum.split)

lemma all_rules_emit:
  assumes "fits p ops val ctx"
  shows "case all_rules ops ctx of Inr fs \<Rightarrow> list_all (\<lambda>f. \<exists>rule \<in> set implemented_rule_ids. en_finding rule f) fs
    | Inl EnPanic \<Rightarrow> p | Inl (EnFail e) \<Rightarrow> False"
proof -
  have "list_all2 (\<lambda>rule r. emits p rule (r ctx)) (br_ids @ br_ae_ids @ br_cl_ids @ br_co_ids) (rules_of ops)"
    unfolding rules_of_def by (intro list_all2_appendI rules_emit [OF assms])
  from run_rules_emits [OF this] show ?thesis unfolding all_rules_run rule_ids_implemented .
qed

lemma fits_True: "fits True ops val ctx"
  by (simp add: fits_def)

text \<open>A rule whose identifier is not among the findings has none.\<close>

lemma silent_rule:
  assumes "run_rules rs ctx = Inr fs" "r \<in> set rs" "emits p rule (r ctx)" "\<forall>f \<in> set fs. vr_rule_id f \<noteq> RuleId rule"
  shows "r ctx = Inr []"
proof -
  have "\<exists>gs. r ctx = Inr gs \<and> set gs \<subseteq> set fs" using assms(1,2)
    by (induction rs arbitrary: fs) (auto simp: rbind_Inr_iff, fastforce)
  then obtain gs where gs: "r ctx = Inr gs" "set gs \<subseteq> set fs" by blast
  with assms(3,4) have "gs = []" by (cases gs) (auto simp: en_finding_def)
  with gs show ?thesis by simp
qed

text \<open>Every finding comes from the rule whose identifier it has.\<close>

definition all_ids :: "string list" where
  "all_ids = br_ids @ br_ae_ids @ br_cl_ids @ br_co_ids"

lemma finding_source:
  assumes "list_all2 (\<lambda>rule r. emits p rule (r ctx)) rules rs" "run_rules rs ctx = Inr fs" "f \<in> set fs"
  shows "\<exists>(rule, r) \<in> set (zip rules rs). vr_rule_id f = RuleId rule \<and> (\<exists>gs. r ctx = Inr gs \<and> f \<in> set gs)"
  using assms
proof (induction rules rs arbitrary: fs rule: list_all2_induct)
  case (Cons rule rules r rs)
  obtain gs hs where "r ctx = Inr gs" "run_rules rs ctx = Inr hs" "fs = gs @ hs"
    using Cons.prems(1) by (auto simp: rbind_Inr_iff)
  moreover from this Cons.hyps(1) have "list_all (en_finding rule) gs" by simp
  ultimately show ?case using Cons.IH [of hs] Cons.prems(2) by (auto simp: list_all_iff en_finding_def)
qed simp

lemma all_rules_source:
  "all_rules ops ctx = Inr fs \<Longrightarrow> f \<in> set fs \<Longrightarrow>
     \<exists>(rule, r) \<in> set (zip all_ids (rules_of ops)). vr_rule_id f = RuleId rule \<and> (\<exists>gs. r ctx = Inr gs \<and> f \<in> set gs)"
  unfolding all_rules_run all_ids_def rules_of_def
  by (rule finding_source [of True]) (intro list_all2_appendI rules_emit [OF fits_True])

end
