(* ===== verification/En_Sample.thy ===== *)
theory En_Sample
  imports En_Sound
begin

text \<open>
  Sample data for the validator: rational amounts that satisfy \<open>amount_laws\<close>, one rule pack, and a small
  UBL invoice with its totals.
\<close>

section \<open>Amounts\<close>

definition rat_amounts :: "rat amount_ops" where
  "rat_amounts =
     \<lparr>am_parse = (\<lambda>s. map_option of_nat (parse_digits s)), am_zero = 0, am_one = 1, am_new = of_int, am_abs = abs,
      am_less = (<), am_eq = (=),
      am_add = (\<lambda>a b. if \<bar>a + b\<bar> \<le> 7 * 10 ^ 28 then Some (a + b) else None),
      am_sub = (\<lambda>a b. if \<bar>a - b\<bar> \<le> 7 * 10 ^ 28 then Some (a - b) else None),
      am_checked_mul = (\<lambda>a b. if \<bar>a * b\<bar> \<le> 7 * 10 ^ 28 then Some (a * b) else None),
      am_checked_div = (\<lambda>a b. if b = 0 then None else Some (a / b)),
      am_round_dp = (\<lambda>n a. of_int (round (a * 10 ^ n)) / 10 ^ n)\<rparr>"

lemma rat_amounts_laws: "amount_laws rat_amounts (\<lambda>q. q)"
proof -
  have "of_int (round (a * 10\<^sup>2)) / 10\<^sup>2 = a" if c: "cents a" for a :: rat
  proof -
    obtain n :: int where "a = of_int n / 100" using c unfolding cents_def by blast
    then show ?thesis by simp
  qed
  then show ?thesis by (simp add: amount_laws_def rat_amounts_def)
qed

section \<open>A rule pack that disables one rule\<close>

definition en_pack :: rp_manifest where
  "en_pack = sample_pack\<lparr>rp_country := ''global'', rp_profile := ''urn:cen.eu:en16931:2017'',
     rp_effective_from := ''2024-01-01'', rp_effective_to := None,
     rp_body := SObject [(''disabled_rules'', SArray [SString ''BR-01''])]\<rparr>"

lemma validate_default_date: "validate_iso_date (lookup_date default_options) = Inr ()"
  by code_simp

lemma en_pack_eligible:
  "pack_eligible ''global'' ''urn:cen.eu:en16931:2017'' ''9999-12-31'' en_pack"
  by (simp add: pack_eligible_def en_pack_def rp_covers_def)

lemma en_pack_selected: "selected_manifest default_options [en_pack] = Inr en_pack"
  using en_pack_eligible
  by (simp add: selected_manifest_def validate_default_date pack_for_def max_by_def,
      simp add: default_options_def lookup_date_def)

section \<open>An invoice\<close>

definition sample_invoice :: xml_node where
  "sample_invoice =
     XmlNode ''Invoice'' (Some ''urn:oasis:names:specification:ubl:schema:xsd:Invoice-2'') [] []
       [leaf ''DocumentCurrencyCode'' ''EUR'',
        XmlNode ''TaxTotal'' None [] [] [XmlNode ''TaxAmount'' None [(''currencyID'', ''EUR'')] ''19'' []],
        XmlNode ''LegalMonetaryTotal'' None [] []
          [leaf ''LineExtensionAmount'' ''100'', leaf ''TaxExclusiveAmount'' ''100'',
           leaf ''TaxInclusiveAmount'' ''119'', leaf ''PayableAmount'' ''119''],
        XmlNode ''InvoiceLine'' None [] [] [leaf ''LineExtensionAmount'' ''100'']]"

lemma sample_invoice_parsed: "parse_xml (map Inr (document_events sample_invoice)) = Inr sample_invoice"
  by (rule parse_document_events) (simp_all add: sample_invoice_def leaf_def plain_name_def plain_attrs_def)

lemma sample_invoice_length: "length (map Inr (document_events sample_invoice)) \<le> 10 ^ 9"
  by (simp add: sample_invoice_def leaf_def document_events_def)

lemma sample_invoice_syntax: "root_syntax sample_invoice = Inr Ubl"
  by (simp add: root_syntax_def sample_invoice_def)

lemma en_pack_policy:
  "policy_from_manifest en_pack = Inr \<lparr>rpp_disabled_all = False, rpp_disabled_rules = [(''BR-01'', ())]\<rparr>"
  by (simp add: policy_from_manifest_def en_pack_def)

text \<open>The validator accepts the sample, whatever the rules find.\<close>

lemma sample_invoice_fits: "fits False rat_amounts (\<lambda>q. q) (context_of Ubl sample_invoice)"
  by (simp add: fits_def rat_amounts_laws context_of_def sample_invoice_def leaf_def)

lemma sample_invoice_findings:
  obtains fs where "all_rules rat_amounts (context_of Ubl sample_invoice) = Inr fs"
  using all_rules_emit [OF sample_invoice_fits] by (auto split: sum.splits en_stop.splits)

lemma trim_samples: "trim ''EUR'' = ''EUR''" "trim ''100'' = ''100''" "trim ''19'' = ''19''" "trim ''119'' = ''119''"
  by (simp_all add: trim_solid_ends solid_def byte_def)

lemma digits_samples: "parse_digits ''100'' = Some 100" "parse_digits ''19'' = Some 19" "parse_digits ''119'' = Some 119"
  by code_simp+

lemma en_decimal_samples:
  "en_decimal rat_amounts ''100'' = Some 100" "en_decimal rat_amounts ''19'' = Some 19"
  "en_decimal rat_amounts ''119'' = Some 119"
  by (simp_all add: en_decimal_def rat_amounts_def trim_samples digits_samples)

lemmas sample_reads = context_of_def sample_invoice_def leaf_def header_amount_def opt_decimal_def opt_text_def
  ubl_monetary_total_def xn_child_def path_text_def en_non_blank_def trim_samples en_decimal_samples or_zero_def

lemma sample_amounts:
  "document_currency (context_of Ubl sample_invoice) = Some ''EUR''"
  "header_amount rat_amounts (context_of Ubl sample_invoice) ''LineExtensionAmount'' = Some 100"
  "header_amount rat_amounts (context_of Ubl sample_invoice) ''TaxExclusiveAmount'' = Some 100"
  "header_amount rat_amounts (context_of Ubl sample_invoice) ''TaxInclusiveAmount'' = Some 119"
  "header_amount rat_amounts (context_of Ubl sample_invoice) ''PayableAmount'' = Some 119"
  "header_amount rat_amounts (context_of Ubl sample_invoice) ''PrepaidAmount'' = None"
  "header_amount rat_amounts (context_of Ubl sample_invoice) ''PayableRoundingAmount'' = None"
  "header_amount rat_amounts (context_of Ubl sample_invoice) ''AllowanceTotalAmount'' = None"
  "header_amount rat_amounts (context_of Ubl sample_invoice) ''ChargeTotalAmount'' = None"
  by (simp_all add: sample_reads document_currency_def)

lemma sample_lists:
  "line_amounts rat_amounts (context_of Ubl sample_invoice) = [100]"
  "charge_amounts rat_amounts (context_of Ubl sample_invoice) b = []"
  "document_allowance_charges (context_of Ubl sample_invoice) b = []"
  "ubl_tax_amounts_for_currency sample_invoice ''EUR'' =
     [XmlNode ''TaxAmount'' None [(''currencyID'', ''EUR'')] ''19'' []]"
  by (simp_all add: sample_reads line_amounts_def line_amount_text_def collect_lines_def is_top_level_line_def
      charge_amounts_def document_allowance_charges_def collect_document_allowance_charges_def children_named_def
      ubl_tax_amounts_for_currency_def xn_attr_def List.map_filter_def)

lemma sample_syntax: "ctx_syntax (context_of Ubl sample_invoice) = Ubl" "ctx_root (context_of Ubl sample_invoice) = sample_invoice"
  by (simp_all add: context_of_def)

lemma rat_amounts_simps:
  "am_zero rat_amounts = 0" "am_eq rat_amounts = (=)"
  "am_add rat_amounts a b = (if \<bar>a + b\<bar> \<le> 7 * 10 ^ 28 then Some (a + b) else None)"
  "am_sub rat_amounts a b = (if \<bar>a - b\<bar> \<le> 7 * 10 ^ 28 then Some (a - b) else None)"
  "rounded_2 rat_amounts (of_int n) = of_int n" "rounded_2 rat_amounts (numeral k) = numeral k"
proof -
  show "rounded_2 rat_amounts (of_int n) = of_int n" for n
    using round_of_int [of "n * 100", where 'a = rat] by (simp add: rounded_2_def rat_amounts_def)
  from this [of "numeral k"] show "rounded_2 rat_amounts (numeral k) = numeral k" by simp
qed (simp_all add: rat_amounts_def)

lemma sample_silent:
  "br_co_10 rat_amounts (context_of Ubl sample_invoice) = Inr []"
  "br_co_11 rat_amounts (context_of Ubl sample_invoice) = Inr []"
  "br_co_12 rat_amounts (context_of Ubl sample_invoice) = Inr []"
  "br_co_13 rat_amounts (context_of Ubl sample_invoice) = Inr []"
  "br_co_15 rat_amounts (context_of Ubl sample_invoice) = Inr []"
  "br_co_16 rat_amounts (context_of Ubl sample_invoice) = Inr []"
  by (simp_all add: br_co_10_def br_co_11_def br_co_12_def br_co_13_def br_co_15_def br_co_16_def
      br_co_15_ubl_valid_def equals_with_tax_def minus_plus_def or_panic_def amount_sum_def sample_syntax sample_amounts
      sample_lists en_decimal_samples or_zero_def rat_amounts_simps fail_if_def)

end
