(* ===== verification/En_Report.thy ===== *)
theory En_Report
  imports En_Sample
begin

text \<open>
  What the report of the EN 16931 validator guarantees: its findings are well formed and belong to the
  enabled rules of the inventory, the validation does not panic, and every report has an explain plan.
\<close>

section \<open>The size of the parsed tree\<close>

definition parse_nodes :: "parse_state \<Rightarrow> nat" where
  "parse_nodes s = sum_list (map xn_nodes (ps_stack s)) + (case ps_root s of None \<Rightarrow> 0 | Some r \<Rightarrow> xn_nodes r)"

lemma nodes_new: "xn_nodes (node_new name ns as) = 1"
  by (simp add: node_new_def)

lemma nodes_append_text: "xn_nodes (append_text t n) = xn_nodes n"
  by (cases n) (simp add: append_text_def)

lemma nodes_append_child: "xn_nodes (append_child c n) = xn_nodes n + xn_nodes c"
  by (cases n) (simp add: append_child_def)

lemma push_node_nodes: "push_node n s = Inr s' \<Longrightarrow> parse_nodes s' = parse_nodes s + xn_nodes n"
  by (auto simp: push_node_def parse_nodes_def nodes_append_child split: list.splits option.splits)

lemma push_text_nodes: "parse_nodes (push_text t s) = parse_nodes s"
  by (simp add: push_text_def parse_nodes_def nodes_append_text split: list.split)

lemma start_node_nodes: "start_node qname attrs s = Inr n \<Longrightarrow> xn_nodes n = 1"
  by (auto simp: start_node_def rbind_Inr_iff nodes_new)

lemma decoded_text_nodes: "decoded_text content f s = Inr s' \<Longrightarrow> parse_nodes s' = parse_nodes s"
  by (auto simp: decoded_text_def rbind_Inr_iff push_text_nodes split: if_splits)

lemma parse_event_nodes:
  assumes "parse_event ev s = Inr s'"
  shows "parse_nodes s' \<le> Suc (parse_nodes s)"
proof (cases ev)
  case (EnDecl version)
  with assms show ?thesis by (auto simp: rbind_Inr_iff parse_nodes_def)
next
  case (EnStart qname attrs)
  with assms show ?thesis
    by (auto simp: rbind_Inr_iff parse_nodes_def dest!: start_node_nodes split: if_splits)
next
  case (EnEmpty qname attrs)
  with assms show ?thesis by (auto simp: rbind_Inr_iff dest!: start_node_nodes push_node_nodes)
next
  case (EnEnd qname)
  with assms obtain n rest where "ps_stack s = n # rest" "push_node n (s\<lparr>ps_stack := rest\<rparr>) = Inr s'"
    by (auto split: list.splits if_splits)
  then show ?thesis by (auto dest!: push_node_nodes simp: parse_nodes_def)
qed (use assms in \<open>auto dest: decoded_text_nodes\<close>)

lemma parse_events_nodes: "parse_events rs s = Inr s' \<Longrightarrow> parse_nodes s' \<le> parse_nodes s + length rs"
proof (induction rs s rule: parse_events.induct)
  case (2 r rs s)
  then obtain ev t where "parse_event ev s = Inr t" "parse_events rs t = Inr s'" "or_err EnXml r = Inr ev"
    by (auto simp: rbind_Inr_iff)
  with 2 parse_event_nodes [of ev s t] show ?case by fastforce
qed simp

lemma parse_xml_nodes: "parse_xml input = Inr doc \<Longrightarrow> xn_nodes doc \<le> length input"
  by (auto simp: parse_xml_def rbind_Inr_iff parse_nodes_def dest!: parse_events_nodes split: if_splits option.splits)

section \<open>The report\<close>

lemma or_fail_Inr [simp]: "or_fail r = Inr x \<longleftrightarrow> r = Inr x"
  by (cases r) (simp_all add: or_fail_def)

lemma or_fail_no_panic [simp]: "or_fail r \<noteq> Inl EnPanic"
  by (cases r) (simp_all add: or_fail_def)

definition report_of :: "rp_manifest \<Rightarrow> rulepack_policy \<Rightarrow> validation_options \<Rightarrow> document_syntax
    \<Rightarrow> validation_result list \<Rightarrow> en16931_report" where
  "report_of m policy opts syn fs =
     \<lparr>er_syntax = syn, er_findings = retain_enabled_findings policy fs, er_coverage = coverage_current,
      er_rulepack = audit_from_manifest m (case vo_validation_date opts of None \<Rightarrow> ''latest'' | Some d \<Rightarrow> d) policy\<rparr>"

lemma validate_Inr_iff:
  "validate_xml_with_registry ops input opts reg = Inr rep \<longleftrightarrow>
     (\<exists>m policy doc syn fs. selected_manifest opts reg = Inr m \<and> policy_from_manifest m = Inr policy
        \<and> parse_xml input = Inr doc \<and> root_syntax doc = Inr syn \<and> all_rules ops (context_of syn doc) = Inr fs
        \<and> rep = report_of m policy opts syn fs)"
  by (auto simp: validate_xml_with_registry_def rbind_Inr_iff report_of_def)

lemma all_rules_findings:
  assumes "all_rules ops ctx = Inr fs" "f \<in> set fs"
  shows "\<exists>rule \<in> set implemented_rule_ids. en_finding rule f"
  using all_rules_emit [OF fits_True [of ops "\<lambda>_. 0" ctx]] assms by (auto simp: list_all_iff)

lemma retained: "f \<in> set (retain_enabled_findings policy fs) \<Longrightarrow>
    f \<in> set fs \<and> rule_str (vr_rule_id f) \<notin> set (disabled_rules_for_audit policy)"
  by (auto simp: retain_enabled_findings_def disabled_rules_for_audit_def map_of_eq_None_iff split: if_splits)

lemma implemented_distinct: "distinct implemented_rule_ids" "length implemented_rule_ids = 86"
  by (simp_all add: implemented_rule_ids_def)

text \<open>C39  The findings of a report are well formed: each belongs to one of the 86 implemented rules, which
  the rule pack does not disable, is an error or a warning about a well-formed business term at a rooted
  path, cites its own rule and suggests a fix; and the coverage counts the implemented rules.
\<close>

theorem report_is_well_typed:
  assumes "validate_xml_with_registry ops input opts reg = Inr rep"
  shows "list_all (\<lambda>f. list_ex (\<lambda>rule. en_finding rule f) implemented_rule_ids
        \<and> rule_str (vr_rule_id f) \<notin> set (ra_disabled_rules (er_rulepack rep))) (er_findings rep)
    \<and> cov_implemented (er_coverage rep) = length (remdups implemented_rule_ids)"
  using assms
  by (auto simp: validate_Inr_iff report_of_def list_all_iff list_ex_iff audit_from_manifest_def coverage_current_def
      implemented_distinct distinct_remdups_id dest!: retained intro: all_rules_findings)

lemma fits_False:
  assumes "amount_laws ops val" "parse_xml input = Inr doc" "length input \<le> 10 ^ 12"
  shows "fits False ops val (context_of syn doc)"
  using assms(1) order_trans [OF parse_xml_nodes [OF assms(2)] assms(3)] by (simp add: fits_def context_of_def)

text \<open>C16  The validator is total: on a document of at most \<open>10 ^ 12\<close> events it never panics, and it reports
  exactly when a rule pack covers the request, its policy is well formed, the XML parses and the root is
  supported; the rules themselves always finish.
\<close>

theorem validator_never_panics:
  assumes "amount_laws ops val" "length input \<le> 10 ^ 12"
  shows "validate_xml_with_registry ops input opts reg \<noteq> Inl EnPanic
    \<and> (is_ok (validate_xml_with_registry ops input opts reg) \<longleftrightarrow>
        is_ok (rbind (selected_manifest opts reg) policy_from_manifest) \<and> is_ok (rbind (parse_xml input) root_syntax))"
proof -
  have rules: "\<exists>fs. all_rules ops (context_of syn doc) = Inr fs" if "parse_xml input = Inr doc" for syn doc
    using all_rules_emit [OF fits_False [OF assms(1) that assms(2)], of syn]
    by (auto split: sum.splits en_stop.splits)
  have "all_rules ops (context_of syn doc) \<noteq> Inl EnPanic" if "parse_xml input = Inr doc" for syn doc
    using rules [OF that, of syn] by auto
  then have "validate_xml_with_registry ops input opts reg \<noteq> Inl EnPanic"
    by (auto simp: validate_xml_with_registry_def rbind_Inl_iff)
  moreover have "is_ok (validate_xml_with_registry ops input opts reg) \<longleftrightarrow>
      is_ok (rbind (selected_manifest opts reg) policy_from_manifest) \<and> is_ok (rbind (parse_xml input) root_syntax)"
    unfolding is_ok_iff validate_Inr_iff rbind_Inr_iff by (blast dest: rules)
  ultimately show ?thesis ..
qed

section \<open>Disabled rules\<close>

lemma policy_rules_strings:
  "btree_ok (rpp_disabled_rules p) \<Longrightarrow>
     \<exists>q. policy_rules pack (map SString names) p = Inr q
       \<and> rpp_disabled_all q = (rpp_disabled_all p \<or> ''*'' \<in> set names) \<and> btree_ok (rpp_disabled_rules q)
       \<and> fst ` set (rpp_disabled_rules q) = fst ` set (rpp_disabled_rules p) \<union> (set names - {''*''})"
proof (induction names arbitrary: p)
  case (Cons a names)
  show ?case
  proof (cases "a = ''*''")
    case True
    with Cons.IH [of "p\<lparr>rpp_disabled_all := True\<rparr>"] Cons.prems show ?thesis by simp
  next
    case False
    with Cons.IH [of "p\<lparr>rpp_disabled_rules := btree_insert a () (rpp_disabled_rules p)\<rparr>"] Cons.prems show ?thesis
      by auto
  qed
qed simp

lemma policy_of_strings:
  assumes "json_get (rp_body m) ''disabled_rules'' = Some (SArray (map SString names))"
  shows "\<exists>q. policy_from_manifest m = Inr q \<and> rpp_disabled_all q = (''*'' \<in> set names)
    \<and> btree_ok (rpp_disabled_rules q) \<and> fst ` set (rpp_disabled_rules q) = set names - {''*''}"
  using policy_rules_strings [of "\<lparr>rpp_disabled_all = False, rpp_disabled_rules = []\<rparr>" "rp_rulepack_id m" names] assms
  by (simp add: policy_from_manifest_def)

text \<open>Disabled rules: where the selected rule pack disables a list of names, the report has the findings
  of all rules but those named, in their order, and none at all where \<open>*\<close> is named; the audit lists the
  names in ascending order without repetition, or \<open>*\<close> alone.
\<close>

theorem disabled_rules_respected:
  assumes "selected_manifest opts reg = Inr m"
    "json_get (rp_body m) ''disabled_rules'' = Some (SArray (map SString names))"
    "parse_xml input = Inr doc" "root_syntax doc = Inr syn" "all_rules ops (context_of syn doc) = Inr fs"
  shows "\<exists>rep. validate_xml_with_registry ops input opts reg = Inr rep
    \<and> er_findings rep = (if ''*'' \<in> set names then [] else filter (\<lambda>f. rule_str (vr_rule_id f) \<notin> set names) fs)
    \<and> ra_disabled_rules (er_rulepack rep) = (if ''*'' \<in> set names then [''*''] else sorted_list_of_set (set names))"
proof -
  obtain q where q: "policy_from_manifest m = Inr q" "rpp_disabled_all q = (''*'' \<in> set names)"
    "btree_ok (rpp_disabled_rules q)" "fst ` set (rpp_disabled_rules q) = set names - {''*''}"
    using policy_of_strings [OF assms(2)] by blast
  have "map fst (rpp_disabled_rules q) = sorted_list_of_set (set names - {''*''})"
    using q(3,4) sorted_list_of_set.idem_if_sorted_distinct [of "map fst (rpp_disabled_rules q)"]
    by (simp add: btree_ok_def strict_sorted_iff)
  moreover have "map_of (rpp_disabled_rules q) r = None \<longleftrightarrow> r \<notin> set names - {''*''}" for r
    using q(4) by (simp add: map_of_eq_None_iff)
  ultimately show ?thesis
    using assms q(1,2)
    by (intro exI [of _ "report_of m q opts syn fs"])
      (auto simp: validate_Inr_iff report_of_def retain_enabled_findings_def disabled_rules_for_audit_def
        audit_from_manifest_def intro: filter_cong)
qed

text \<open>Every report can be explained: with texts that are not blank and a citation for every rule, the
  explain plan over the implemented rules exists, has a step for each of them in order, and its finding
  counts add up to the findings of the report.
\<close>

theorem report_is_explained:
  assumes "validate_xml_with_registry ops input opts reg = Inr rep" "\<not> blank backend" "\<not> blank trace_id"
    "\<And>rule. is_ok (fallback rule)"
  shows "\<exists>plan. explain_plan_from_results backend trace_id implemented_rule_ids (er_findings rep) fallback = Inr plan
    \<and> map (\<lambda>s. (rule_str (step_rule_id s), step_decision s)) (plan_steps plan)
        = map (\<lambda>r. (r, expected_decision (matching r (er_findings rep)))) implemented_rule_ids
    \<and> sum_list (map reported_count (plan_steps plan)) = length (er_findings rep)"
proof -
  have found: "\<exists>rule \<in> set implemented_rule_ids. en_finding rule f" if "f \<in> set (er_findings rep)" for f
    using assms(1) that by (auto simp: validate_Inr_iff report_of_def dest!: retained intro: all_rules_findings)
  have path: "\<not> blank (first_path (matching r (er_findings rep)))" for r
  proof (cases "matching r (er_findings rep)")
    case Nil
    then show ?thesis by (simp add: first_path_def not_blank_solid [of "CHR ''/''"])
  next
    case (Cons f fs)
    then have "f \<in> set (er_findings rep)" by (metis list.set_intros(1) filter_is_subset matching_def subsetD)
    from found [OF this] obtain l where "vr_location f = XPath (CHR ''/'' # l)"
      by (auto simp: en_finding_def path_location_def)
    with Cons show ?thesis by (simp add: first_path_def not_blank_solid [of "CHR ''/''"])
  qed
  have "list_all (\<lambda>r. \<not> blank r) implemented_rule_ids"
    by (simp add: implemented_rule_ids_def not_blank_solid [OF solid_B])
  then have "is_ok (explain_plan_from_results backend trace_id implemented_rule_ids (er_findings rep) fallback)"
    using assms(2-4) path by (simp add: explain_plan_ok_iff list_all_iff)
  then obtain plan where plan:
    "explain_plan_from_results backend trace_id implemented_rule_ids (er_findings rep) fallback = Inr plan"
    by (auto simp: is_ok_iff)
  have "list_all (\<lambda>f. rule_str (vr_rule_id f) \<in> set implemented_rule_ids) (er_findings rep)"
    using found by (fastforce simp: list_all_iff en_finding_def)
  with plan explain_plan_steps [OF plan] show ?thesis by (auto simp: implemented_distinct)
qed

section \<open>The sample invoice\<close>

abbreviation sample_events :: "(string + en_event) list" where
  "sample_events \<equiv> map Inr (document_events sample_invoice)"

lemma sample_report:
  assumes "all_rules rat_amounts (context_of Ubl sample_invoice) = Inr fs"
  shows "validate_xml_with_registry rat_amounts sample_events default_options [en_pack]
    = Inr (report_of en_pack \<lparr>rpp_disabled_all = False, rpp_disabled_rules = [(''BR-01'', ())]\<rparr> default_options Ubl fs)"
  unfolding validate_Inr_iff
  using assms en_pack_selected en_pack_policy sample_invoice_parsed sample_invoice_syntax by blast

theorem report_is_well_typed_witness:
  "\<exists>rep. validate_xml_with_registry rat_amounts sample_events default_options [en_pack] = Inr rep
     \<and> ra_disabled_rules (er_rulepack rep) = [''BR-01'']
     \<and> list_all (\<lambda>f. list_ex (\<lambda>rule. en_finding rule f) implemented_rule_ids \<and> rule_str (vr_rule_id f) \<noteq> ''BR-01'')
         (er_findings rep)"
proof -
  obtain fs where "all_rules rat_amounts (context_of Ubl sample_invoice) = Inr fs" by (rule sample_invoice_findings)
  from sample_report [OF this] obtain rep where
    rep: "validate_xml_with_registry rat_amounts sample_events default_options [en_pack] = Inr rep"
    "ra_disabled_rules (er_rulepack rep) = [''BR-01'']"
    by (auto simp: report_of_def audit_from_manifest_def disabled_rules_for_audit_def)
  from report_is_well_typed [OF rep(1)] rep show ?thesis by auto
qed

theorem validator_never_panics_witness:
  "validate_xml_with_registry rat_amounts sample_events default_options [en_pack] \<noteq> Inl EnPanic
   \<and> is_ok (validate_xml_with_registry rat_amounts sample_events default_options [en_pack])"
proof -
  have "length sample_events \<le> 10 ^ 12" using sample_invoice_length by simp
  from validator_never_panics [OF rat_amounts_laws this, of default_options "[en_pack]"] show ?thesis
    by (simp add: en_pack_selected en_pack_policy sample_invoice_parsed sample_invoice_syntax is_ok_iff)
qed

theorem disabled_rules_respected_witness:
  "\<exists>rep fs. validate_xml_with_registry rat_amounts sample_events default_options [en_pack] = Inr rep
     \<and> all_rules rat_amounts (context_of Ubl sample_invoice) = Inr fs
     \<and> er_findings rep = filter (\<lambda>f. rule_str (vr_rule_id f) \<noteq> ''BR-01'') fs
     \<and> ra_disabled_rules (er_rulepack rep) = [''BR-01'']"
proof -
  obtain fs where fs: "all_rules rat_amounts (context_of Ubl sample_invoice) = Inr fs" by (rule sample_invoice_findings)
  have "json_get (rp_body en_pack) ''disabled_rules'' = Some (SArray (map SString [''BR-01'']))"
    by (simp add: en_pack_def)
  from disabled_rules_respected [OF en_pack_selected this sample_invoice_parsed sample_invoice_syntax fs] fs
  show ?thesis by auto
qed

theorem report_is_explained_witness:
  "\<exists>rep plan. validate_xml_with_registry rat_amounts sample_events default_options [en_pack] = Inr rep
     \<and> explain_plan_from_results ''b'' ''t'' implemented_rule_ids (er_findings rep)
         (\<lambda>rule. Inr \<lparr>cit_source = ''s'', cit_section = rule, cit_url = None\<rparr>) = Inr plan
     \<and> sum_list (map reported_count (plan_steps plan)) = length (er_findings rep)"
proof -
  obtain fs where "all_rules rat_amounts (context_of Ubl sample_invoice) = Inr fs" by (rule sample_invoice_findings)
  note rep = sample_report [OF this]
  have "\<not> blank ''b''" "\<not> blank ''t''"
    by (rule not_blank_solid [of "CHR ''b''"], simp_all add: solid_def byte_def)
      (rule not_blank_solid [of "CHR ''t''"], simp_all add: solid_def byte_def)
  from report_is_explained [OF rep this, of "\<lambda>rule. Inr \<lparr>cit_source = ''s'', cit_section = rule, cit_url = None\<rparr>"] rep
  show ?thesis by (auto simp: is_ok_iff)
qed

end
