(* ===== verification/En_Totals.thy ===== *)
theory En_Totals
  imports En_Report
begin

text \<open>
  End-to-end arithmetic: the rules BR-CO-10 to BR-CO-16 together make the amount due of a UBL document the
  sum of its lines, charges, VAT, rounding and prepayments.
\<close>

lemma fail_ne_Nil: "fail_with_severity rule sev t loc fix \<noteq> Inr []"
  by (simp add: fail_with_severity_def split: sum.split)

lemma fail_if_Nil [simp]: "fail_if b rule t loc fix = Inr [] \<longleftrightarrow> \<not> b"
  by (simp add: fail_if_def fail_def fail_ne_Nil)

section \<open>Exact sums\<close>

definition exact :: "('d \<Rightarrow> rat) \<Rightarrow> rat \<Rightarrow> 'd \<Rightarrow> bool" where
  "exact val b d \<longleftrightarrow> cents (val d) \<and> \<bar>val d\<bar> \<le> b"

lemma exact_add:
  assumes "amount_laws ops val" "exact val a x" "exact val b y" "a + b \<le> 7 * 10 ^ 26"
  obtains c where "am_add ops x y = Some c" "val c = val x + val y" "exact val (a + b) c"
proof -
  have sum: "\<bar>val x + val y\<bar> \<le> a + b" "cents (val x)" "cents (val y)" "cents (val x + val y)"
    using assms(2,3) by (auto simp: exact_def abs_le_iff intro: cents_add)
  have small: "\<bar>val x + val y\<bar> \<le> 7 * 10 ^ 26" "\<bar>val x + val y\<bar> \<le> 7 * 10 ^ 28"
    using sum(1) assms(4) by simp_all
  show thesis
    by (rule laws_add [OF assms(1) small(2)]) (use that sum small(1) in \<open>auto simp: exact_def\<close>)
qed

lemma exact_sub:
  assumes "amount_laws ops val" "exact val a x" "exact val b y" "a + b \<le> 7 * 10 ^ 26"
  obtains c where "am_sub ops x y = Some c" "val c = val x - val y" "exact val (a + b) c"
proof -
  have sum: "\<bar>val x - val y\<bar> \<le> a + b" "cents (val x)" "cents (val y)" "cents (val x - val y)"
    using assms(2,3) by (auto simp: exact_def abs_le_iff intro: cents_diff)
  have small: "\<bar>val x - val y\<bar> \<le> 7 * 10 ^ 26" "\<bar>val x - val y\<bar> \<le> 7 * 10 ^ 28"
    using sum(1) assms(4) by simp_all
  show thesis
    by (rule laws_sub [OF assms(1) small(2)]) (use that sum small(1) in \<open>auto simp: exact_def\<close>)
qed

lemma sum_from_exact:
  assumes "amount_laws ops val" "list_all (exact val (10 ^ 16)) ds" "exact val (of_nat m * 10 ^ 16) acc"
    "m + length ds \<le> 10 ^ 9"
  shows "\<exists>s. sum_from ops acc ds = Inr s \<and> val s = val acc + sum_list (map val ds)
    \<and> exact val (of_nat (m + length ds) * 10 ^ 16) s"
  using assms(2-4)
proof (induction ds arbitrary: acc m)
  case (Cons d ds)
  have "of_nat (Suc m) \<le> (10 ^ 9 :: rat)"
    using Cons.prems(3) of_nat_mono [of "Suc m" "10 ^ 9", where 'a = rat] by simp
  then have "of_nat (Suc m) * 10 ^ 16 \<le> (10 ^ 9 * 10 ^ 16 :: rat)" by (intro mult_right_mono) simp_all
  then have small: "of_nat m * 10 ^ 16 + 10 ^ 16 \<le> (7 * 10 ^ 26 :: rat)" by (simp add: algebra_simps)
  have d: "exact val (10 ^ 16) d" using Cons.prems(1) by simp
  obtain c where c: "am_add ops acc d = Some c" "val c = val acc + val d" "exact val (of_nat m * 10 ^ 16 + 10 ^ 16) c"
    using exact_add [OF assms(1) Cons.prems(2) d small] .
  have suc: "of_nat m * 10 ^ 16 + 10 ^ 16 = (of_nat (Suc m) * 10 ^ 16 :: rat)" by (simp add: algebra_simps)
  have "exact val (of_nat (Suc m) * 10 ^ 16) c" using c(3) unfolding suc .
  from Cons.IH [OF _ this] Cons.prems show ?case by (auto simp: or_panic_def c(1,2))
qed simp

lemma amount_sum_exact:
  assumes "amount_laws ops val" "list_all (exact val (10 ^ 16)) ds" "length ds \<le> 10 ^ 9"
  obtains s where "amount_sum ops ds = Inr s" "val s = sum_list (map val ds)" "exact val (10 ^ 25) s"
proof -
  have zero: "val (am_zero ops) = 0" using laws_compare [OF assms(1)] by simp
  obtain s where s: "amount_sum ops ds = Inr s" "val s = sum_list (map val ds)"
    "exact val (of_nat (length ds) * 10 ^ 16) s"
    using sum_from_exact [OF assms(1,2), of 0 "am_zero ops"] assms(3) zero
    by (auto simp: amount_sum_def exact_def cents_0)
  have "of_nat (length ds) \<le> (10 ^ 9 :: rat)"
    using assms(3) of_nat_mono [of "length ds" "10 ^ 9", where 'a = rat] by simp
  then have "of_nat (length ds) * 10 ^ 16 \<le> (10 ^ 9 * 10 ^ 16 :: rat)" by (intro mult_right_mono) simp_all
  then have "exact val (10 ^ 25) s" using s(3) by (auto simp: exact_def)
  with s that show thesis by blast
qed

lemma minus_plus_exact:
  assumes "amount_laws ops val" "exact val (10 ^ 25) x" "exact val (10 ^ 25) y" "exact val (10 ^ 25) z"
  obtains s where "minus_plus ops x y z = Inr s" "val (rounded_2 ops s) = val x - val y + val z"
    "cents (val x - val y + val z)"
proof -
  obtain c where c: "am_sub ops x y = Some c" "val c = val x - val y" "exact val (10 ^ 25 + 10 ^ 25) c"
    by (rule exact_sub [OF assms(1-3)]) simp_all
  obtain s where s: "am_add ops c z = Some s" "val s = val c + val z" "exact val (10 ^ 25 + 10 ^ 25 + 10 ^ 25) s"
    by (rule exact_add [OF assms(1) c(3) assms(4)]) simp_all
  then have "val (rounded_2 ops s) = val s" "cents (val s)"
    using laws_compare(6) [OF assms(1)] by (auto simp: rounded_2_def exact_def)
  with s that c show thesis by (simp add: minus_plus_def or_panic_def)
qed

section \<open>What the rules say when they are silent\<close>

lemma exact_mono: "exact val a d \<Longrightarrow> a \<le> b \<Longrightarrow> exact val b d"
  by (auto simp: exact_def)

lemma br_co_10_silent:
  assumes "amount_laws ops val" "br_co_10 ops ctx = Inr []" "ctx_syntax ctx = Ubl"
    "header_amount ops ctx ''LineExtensionAmount'' = Some t"
    "list_all (exact val (10 ^ 16)) (line_amounts ops ctx)" "length (line_amounts ops ctx) \<le> 10 ^ 9"
  shows "val t = sum_list (map val (line_amounts ops ctx))" "cents (val t)"
proof -
  obtain s where s: "amount_sum ops (line_amounts ops ctx) = Inr s" "val s = sum_list (map val (line_amounts ops ctx))"
    "exact val (10 ^ 25) s"
    using amount_sum_exact [OF assms(1,5,6)] .
  then have "val (rounded_2 ops s) = val s" using laws_compare(6) [OF assms(1)] by (simp add: rounded_2_def exact_def)
  moreover have "am_eq ops t (rounded_2 ops s)" using assms(2-4) s(1) by (simp add: br_co_10_def)
  ultimately show "val t = sum_list (map val (line_amounts ops ctx))" "cents (val t)"
    using s laws_compare(1) [OF assms(1)] by (auto simp: exact_def)
qed

lemma charge_total_silent:
  assumes "amount_laws ops val" "list_all (exact val (10 ^ 16)) (charge_amounts ops ctx b)"
    "length (charge_amounts ops ctx b) \<le> 10 ^ 9"
    "(if document_allowance_charges ctx b = [] \<and> tot = None then Inr []
      else rbind (amount_sum ops (charge_amounts ops ctx b)) (\<lambda>s. fail_if (\<not> am_some_eq ops tot (rounded_2 ops s)) r t l f))
     = Inr []"
  shows "val (or_zero ops tot) = sum_list (map val (charge_amounts ops ctx b))" "exact val (10 ^ 25) (or_zero ops tot)"
proof -
  obtain s where s: "amount_sum ops (charge_amounts ops ctx b) = Inr s"
    "val s = sum_list (map val (charge_amounts ops ctx b))" "exact val (10 ^ 25) s"
    using amount_sum_exact [OF assms(1-3)] .
  then have round: "val (rounded_2 ops s) = val s"
    using laws_compare(6) [OF assms(1)] by (simp add: rounded_2_def exact_def)
  have "val (or_zero ops tot) = sum_list (map val (charge_amounts ops ctx b)) \<and> exact val (10 ^ 25) (or_zero ops tot)"
  proof (cases tot)
    case None
    with assms(4) s have none: "document_allowance_charges ctx b = []" by (auto simp: am_some_eq_def split: if_splits)
    then show ?thesis using laws_compare(3) [OF assms(1)] None
      by (simp add: charge_amounts_def or_zero_def exact_def cents_0 List.map_filter_def)
  next
    case (Some d)
    with assms(4) s have "am_eq ops d (rounded_2 ops s)" by (simp add: am_some_eq_def)
    then show ?thesis using s round laws_compare(1) [OF assms(1)] Some by (simp add: or_zero_def exact_def)
  qed
  then show "val (or_zero ops tot) = sum_list (map val (charge_amounts ops ctx b))" "exact val (10 ^ 25) (or_zero ops tot)"
    by simp_all
qed

section \<open>The amount due\<close>

definition total_rules :: "string list" where
  "total_rules = [''BR-CO-10'', ''BR-CO-11'', ''BR-CO-12'', ''BR-CO-13'', ''BR-CO-15'', ''BR-CO-16'']"

text \<open>The amounts of the document that enter the totals.\<close>

definition entered_amounts :: "'d amount_ops \<Rightarrow> validation_context \<Rightarrow> string \<Rightarrow> 'd list" where
  "entered_amounts ops ctx currency =
     line_amounts ops ctx @ charge_amounts ops ctx True @ charge_amounts ops ctx False
     @ [or_zero ops (header_amount ops ctx ''PrepaidAmount''), or_zero ops (header_amount ops ctx ''PayableRoundingAmount'')]
     @ map (\<lambda>n. or_zero ops (en_decimal ops (xn_text n))) (ubl_tax_amounts_for_currency (ctx_root ctx) currency)"

lemma total_rules_silent:
  assumes "all_rules ops ctx = Inr fs" "list_all (\<lambda>f. rule_str (vr_rule_id f) \<notin> set total_rules) fs"
  shows "br_co_10 ops ctx = Inr []" "br_co_11 ops ctx = Inr []" "br_co_12 ops ctx = Inr []"
    "br_co_13 ops ctx = Inr []" "br_co_15 ops ctx = Inr []" "br_co_16 ops ctx = Inr []"
proof -
  have silent: "r ctx = Inr []" if "r \<in> set (br_co_rules ops)" "emits True rule (r ctx)" "rule \<in> set total_rules" for r rule
    using assms that
    by (intro silent_rule [of "rules_of ops" ctx fs r True rule]) (auto simp: all_rules_run rules_of_def list_all_iff)
  show "br_co_10 ops ctx = Inr []" "br_co_11 ops ctx = Inr []" "br_co_12 ops ctx = Inr []"
    "br_co_13 ops ctx = Inr []" "br_co_15 ops ctx = Inr []" "br_co_16 ops ctx = Inr []"
    by (rule silent [OF _ arithmetic_rules_emit(2) [OF fits_True]], simp add: br_co_rules_def, simp add: total_rules_def)
      (rule silent [OF _ arithmetic_rules_emit(3) [OF fits_True]], simp add: br_co_rules_def, simp add: total_rules_def,
       rule silent [OF _ arithmetic_rules_emit(4) [OF fits_True]], simp add: br_co_rules_def, simp add: total_rules_def,
       rule silent [OF _ arithmetic_rules_emit(5) [OF fits_True]], simp add: br_co_rules_def, simp add: total_rules_def,
       rule silent [OF _ arithmetic_rules_emit(7) [OF fits_True]], simp add: br_co_rules_def, simp add: total_rules_def,
       rule silent [OF _ arithmetic_rules_emit(8) [OF fits_True]], simp add: br_co_rules_def, simp add: total_rules_def)
qed

text \<open>A UBL document that the total rules accept, with amounts of 2 decimals.\<close>

definition totals_checked :: "'d amount_ops \<Rightarrow> ('d \<Rightarrow> rat) \<Rightarrow> validation_context \<Rightarrow> string \<Rightarrow> bool" where
  "totals_checked ops val ctx currency \<longleftrightarrow>
     amount_laws ops val \<and> fits False ops val ctx \<and> xn_nodes (ctx_root ctx) \<le> 10 ^ 9 \<and> ctx_syntax ctx = Ubl
     \<and> (\<exists>fs. all_rules ops ctx = Inr fs \<and> list_all (\<lambda>f. rule_str (vr_rule_id f) \<notin> set total_rules) fs)
     \<and> document_currency ctx = Some currency \<and> list_all (\<lambda>d. cents (val d)) (entered_amounts ops ctx currency)"

lemma totals_checked_silent:
  assumes "totals_checked ops val ctx currency"
  shows "br_co_10 ops ctx = Inr []" "br_co_11 ops ctx = Inr []" "br_co_12 ops ctx = Inr []"
    "br_co_13 ops ctx = Inr []" "br_co_15 ops ctx = Inr []" "br_co_16 ops ctx = Inr []"
  using assms total_rules_silent by (auto simp: totals_checked_def)

lemma totals_checked_exact:
  assumes "totals_checked ops val ctx currency"
  shows "list_all (exact val (10 ^ 16)) (line_amounts ops ctx)" "list_all (exact val (10 ^ 16)) (charge_amounts ops ctx b)"
    "length (line_amounts ops ctx) \<le> 10 ^ 9" "length (charge_amounts ops ctx b) \<le> 10 ^ 9"
    "exact val (10 ^ 25) (or_zero ops (header_amount ops ctx ''PrepaidAmount''))"
    "exact val (10 ^ 25) (or_zero ops (header_amount ops ctx ''PayableRoundingAmount''))"
    "n \<in> set (ubl_tax_amounts_for_currency (ctx_root ctx) currency) \<Longrightarrow>
       exact val (10 ^ 25) (or_zero ops (en_decimal ops (xn_text n)))"
proof -
  have fit: "fits False ops val ctx" and nodes: "xn_nodes (ctx_root ctx) \<le> 10 ^ 9"
    and entered: "list_all (\<lambda>d. cents (val d)) (entered_amounts ops ctx currency)"
    using assms by (simp_all add: totals_checked_def)
  have header: "\<bar>val (or_zero ops (header_amount ops ctx n))\<bar> \<le> 10 ^ 25" for n
    using fits_amount(3) [OF fit, of n] by simp
  show "length (line_amounts ops ctx) \<le> 10 ^ 9" "length (charge_amounts ops ctx b) \<le> 10 ^ 9"
    using fits_lengths [OF fit] nodes order_trans [OF length_map_filter length_filter_le]
      length_map_filter [of _ "document_allowance_charges ctx b"]
    by (fastforce simp: line_amounts_def charge_amounts_def intro: order_trans)+
  show "list_all (exact val (10 ^ 16)) (line_amounts ops ctx)"
    using entered fits_sums(1) [OF fit] by (simp add: entered_amounts_def list_all_iff exact_def bounded_list_def)
  show "list_all (exact val (10 ^ 16)) (charge_amounts ops ctx b)"
    using entered fits_sums(2) [OF fit, of b]
    by (cases b) (simp_all add: entered_amounts_def list_all_iff exact_def bounded_list_def)
  show "exact val (10 ^ 25) (or_zero ops (header_amount ops ctx ''PrepaidAmount''))"
    "exact val (10 ^ 25) (or_zero ops (header_amount ops ctx ''PayableRoundingAmount''))"
    using entered header by (simp_all add: entered_amounts_def exact_def)
  show "exact val (10 ^ 25) (or_zero ops (en_decimal ops (xn_text n)))"
    if "n \<in> set (ubl_tax_amounts_for_currency (ctx_root ctx) currency)"
    using entered that or_zero_en_decimal [OF fit, of "xn_text n"] by (auto simp: entered_amounts_def exact_def list_all_iff)
qed

lemma header_exact:
  assumes "totals_checked ops val ctx currency" "header_amount ops ctx n = Some d" "cents (val d)"
  shows "exact val (10 ^ 25) d"
proof -
  have "fits False ops val ctx" using assms(1) by (simp add: totals_checked_def)
  from fits_amount(2) [OF this assms(2)] show ?thesis using assms(3) by (simp add: exact_def)
qed

lemma tax_exclusive_adds_up:
  assumes "totals_checked ops val ctx currency" "header_amount ops ctx ''LineExtensionAmount'' = Some line_total"
    "header_amount ops ctx ''TaxExclusiveAmount'' = Some exclusive"
  shows "val exclusive = sum_list (map val (line_amounts ops ctx)) - sum_list (map val (charge_amounts ops ctx False))
      + sum_list (map val (charge_amounts ops ctx True))" "exact val (10 ^ 25) exclusive"
proof -
  note silent = totals_checked_silent [OF assms(1)] and ex = totals_checked_exact [OF assms(1)]
  have laws: "amount_laws ops val" and syn: "ctx_syntax ctx = Ubl" using assms(1) by (simp_all add: totals_checked_def)
  have line_total: "val line_total = sum_list (map val (line_amounts ops ctx))" "exact val (10 ^ 25) line_total"
    using br_co_10_silent [OF laws silent(1) syn assms(2) ex(1,3)] header_exact [OF assms(1,2)] by simp_all
  have allow: "val (or_zero ops (header_amount ops ctx ''AllowanceTotalAmount'')) = sum_list (map val (charge_amounts ops ctx False))"
      "exact val (10 ^ 25) (or_zero ops (header_amount ops ctx ''AllowanceTotalAmount''))"
    using charge_total_silent [OF laws ex(2,4) silent(2) [unfolded br_co_11_def Let_def]] .
  have not_cii: "\<not> cii_has_only_document_allowance_nodes ctx"
    by (simp add: cii_has_only_document_allowance_nodes_def syn)
  have charge: "val (or_zero ops (header_amount ops ctx ''ChargeTotalAmount'')) = sum_list (map val (charge_amounts ops ctx True))"
      "exact val (10 ^ 25) (or_zero ops (header_amount ops ctx ''ChargeTotalAmount''))"
    using charge_total_silent [OF laws ex(2,4)] silent(3) not_cii unfolding br_co_12_def Let_def by simp_all
  obtain s where s: "minus_plus ops (or_zero ops (Some line_total)) (or_zero ops (header_amount ops ctx ''AllowanceTotalAmount''))
      (or_zero ops (header_amount ops ctx ''ChargeTotalAmount'')) = Inr s"
    "val (rounded_2 ops s) = val line_total - val (or_zero ops (header_amount ops ctx ''AllowanceTotalAmount''))
       + val (or_zero ops (header_amount ops ctx ''ChargeTotalAmount''))" "cents (val (rounded_2 ops s))"
    using minus_plus_exact [OF laws line_total(2) allow(2) charge(2)] by (auto simp: or_zero_def)
  then have "val exclusive = val (rounded_2 ops s)"
    using silent(4) assms(2,3) syn laws_compare(1) [OF laws] by (simp add: br_co_13_def)
  then show "val exclusive = sum_list (map val (line_amounts ops ctx)) - sum_list (map val (charge_amounts ops ctx False))
      + sum_list (map val (charge_amounts ops ctx True))" "exact val (10 ^ 25) exclusive"
    using s(2,3) line_total(1) allow(1) charge(1) header_exact [OF assms(1,3)] by simp_all
qed

lemma tax_inclusive_adds_up:
  assumes "totals_checked ops val ctx currency" "header_amount ops ctx ''TaxExclusiveAmount'' = Some exclusive"
    "header_amount ops ctx ''TaxInclusiveAmount'' = Some inclusive" "exact val (10 ^ 25) exclusive"
  obtains tax where "ubl_tax_amounts_for_currency (ctx_root ctx) currency = [tax]"
    "val inclusive = val exclusive + val (or_zero ops (en_decimal ops (xn_text tax)))" "exact val (10 ^ 25) inclusive"
proof -
  have laws: "amount_laws ops val" and syn: "ctx_syntax ctx = Ubl" and currency: "document_currency ctx = Some currency"
    using assms(1) by (simp_all add: totals_checked_def)
  obtain tax where tax: "ubl_tax_amounts_for_currency (ctx_root ctx) currency = [tax]"
    "equals_with_tax ops inclusive exclusive (or_zero ops (en_decimal ops (xn_text tax))) = Inr True"
    using totals_checked_silent(5) [OF assms(1)] currency assms(2,3) syn
    by (auto simp: br_co_15_def br_co_15_ubl_valid_def rbind_Inr_iff split: list.splits)
  let ?tax = "or_zero ops (en_decimal ops (xn_text tax))"
  have "exact val (10 ^ 25) ?tax" using totals_checked_exact(7) [OF assms(1)] tax(1) by simp
  then obtain c where c: "am_add ops exclusive ?tax = Some c" "val c = val exclusive + val ?tax" "exact val (10 ^ 25 + 10 ^ 25) c"
    by (rule exact_add [OF laws assms(4)]) simp_all
  then have "val inclusive = val exclusive + val ?tax" "cents (val inclusive)"
    using tax(2) laws_compare(1,6) [OF laws] by (auto simp: equals_with_tax_def or_panic_def rounded_2_def exact_def)
  with tax(1) that header_exact [OF assms(1,3)] show thesis by blast
qed

lemma amount_due_adds_up:
  assumes checked: "totals_checked ops val ctx currency"
    and totals: "header_amount ops ctx ''LineExtensionAmount'' = Some line_total"
      "header_amount ops ctx ''TaxExclusiveAmount'' = Some exclusive"
      "header_amount ops ctx ''TaxInclusiveAmount'' = Some inclusive"
      "header_amount ops ctx ''PayableAmount'' = Some payable"
  shows "\<exists>tax. ubl_tax_amounts_for_currency (ctx_root ctx) currency = [tax]
    \<and> val payable = sum_list (map val (line_amounts ops ctx)) - sum_list (map val (charge_amounts ops ctx False))
        + sum_list (map val (charge_amounts ops ctx True)) + val (or_zero ops (en_decimal ops (xn_text tax)))
        - val (or_zero ops (header_amount ops ctx ''PrepaidAmount''))
        + val (or_zero ops (header_amount ops ctx ''PayableRoundingAmount''))"
proof -
  have laws: "amount_laws ops val" and syn: "ctx_syntax ctx = Ubl" using checked by (simp_all add: totals_checked_def)
  note exclusive = tax_exclusive_adds_up [OF checked totals(1,2)]
  obtain tax where tax: "ubl_tax_amounts_for_currency (ctx_root ctx) currency = [tax]"
    "val inclusive = val exclusive + val (or_zero ops (en_decimal ops (xn_text tax)))" "exact val (10 ^ 25) inclusive"
    by (rule tax_inclusive_adds_up [OF checked totals(2,3) exclusive(2)])
  obtain d where d: "minus_plus ops inclusive (or_zero ops (header_amount ops ctx ''PrepaidAmount''))
       (or_zero ops (header_amount ops ctx ''PayableRoundingAmount'')) = Inr d"
    "val (rounded_2 ops d) = val inclusive - val (or_zero ops (header_amount ops ctx ''PrepaidAmount''))
       + val (or_zero ops (header_amount ops ctx ''PayableRoundingAmount''))"
    using minus_plus_exact [OF laws tax(3) totals_checked_exact(5,6) [OF checked]] by blast
  then have "val payable = val (rounded_2 ops d)"
    using totals_checked_silent(6) [OF checked] totals(3,4) syn laws_compare(1) [OF laws] by (simp add: br_co_16_def)
  with d(2) exclusive(1) tax(1,2) show ?thesis by simp
qed

text \<open>C14  The amount due: a UBL document whose report has no finding of the total rules, none of which is
  disabled, and whose amounts have at most 2 decimals, states exactly one VAT amount in its currency, and
  its payable amount is the sum of the line amounts minus allowances plus charges plus that VAT minus the
  prepaid amount plus the rounding amount.
\<close>

theorem ubl_amount_due:
  assumes "amount_laws ops val" "length input \<le> 10 ^ 9"
    "validate_xml_with_registry ops input opts reg = Inr rep" "parse_xml input = Inr doc" "er_syntax rep = Ubl"
    "list_all (\<lambda>f. rule_str (vr_rule_id f) \<notin> set total_rules) (er_findings rep)"
    "list_all (\<lambda>r. r \<notin> set (''*'' # total_rules)) (ra_disabled_rules (er_rulepack rep))"
    "document_currency (context_of Ubl doc) = Some currency"
    "header_amount ops (context_of Ubl doc) ''LineExtensionAmount'' = Some line_total"
    "header_amount ops (context_of Ubl doc) ''TaxExclusiveAmount'' = Some exclusive"
    "header_amount ops (context_of Ubl doc) ''TaxInclusiveAmount'' = Some inclusive"
    "header_amount ops (context_of Ubl doc) ''PayableAmount'' = Some payable"
    "list_all (\<lambda>d. cents (val d)) (entered_amounts ops (context_of Ubl doc) currency)"
  shows "\<exists>tax. ubl_tax_amounts_for_currency doc currency = [tax]
    \<and> val payable = sum_list (map val (line_amounts ops (context_of Ubl doc)))
        - sum_list (map val (charge_amounts ops (context_of Ubl doc) False))
        + sum_list (map val (charge_amounts ops (context_of Ubl doc) True))
        + val (or_zero ops (en_decimal ops (xn_text tax)))
        - val (or_zero ops (header_amount ops (context_of Ubl doc) ''PrepaidAmount''))
        + val (or_zero ops (header_amount ops (context_of Ubl doc) ''PayableRoundingAmount''))"
proof -
  obtain m policy fs where rep: "all_rules ops (context_of Ubl doc) = Inr fs"
    "er_findings rep = retain_enabled_findings policy fs"
    "ra_disabled_rules (er_rulepack rep) = disabled_rules_for_audit policy"
    using assms(3-5) by (auto simp: validate_Inr_iff report_of_def audit_from_manifest_def)
  have "f \<in> set (er_findings rep)" if "f \<in> set fs" "rule_str (vr_rule_id f) \<in> set total_rules" for f
    using that assms(7)
    by (auto simp: rep retain_enabled_findings_def disabled_rules_for_audit_def list_all_iff map_of_eq_None_iff
        split: if_splits)
  then have silent: "list_all (\<lambda>f. rule_str (vr_rule_id f) \<notin> set total_rules) fs"
    using assms(6) by (auto simp: list_all_iff)
  have nodes: "xn_nodes doc \<le> 10 ^ 9" using parse_xml_nodes [OF assms(4)] assms(2) by simp
  then have "totals_checked ops val (context_of Ubl doc) currency"
    unfolding totals_checked_def
    using assms(1,8,13) rep(1) silent by (auto simp: fits_def context_of_def)
  from amount_due_adds_up [OF this assms(9-12)] show ?thesis by (simp add: context_of_def)
qed

lemma total_rule_entries:
  "(rule, r) \<in> set (zip all_ids (rules_of ops)) \<Longrightarrow> rule \<in> set total_rules \<Longrightarrow>
     r \<in> set [br_co_10 ops, br_co_11 ops, br_co_12 ops, br_co_13 ops, br_co_15 ops, br_co_16 ops]"
  by (simp add: all_ids_def br_ids_def br_ae_ids_def br_cl_ids_def br_co_ids_def implemented_rule_ids_def rules_of_def
      br_rules_def br_ae_rules_def br_cl_rules_def br_co_rules_def total_rules_def) (elim disjE; simp)

lemma sample_totals_silent:
  assumes "all_rules rat_amounts (context_of Ubl sample_invoice) = Inr fs"
  shows "list_all (\<lambda>f. rule_str (vr_rule_id f) \<notin> set total_rules) fs"
  unfolding list_all_iff
proof
  fix f assume "f \<in> set fs"
  from all_rules_source [OF assms this] obtain rule r gs where
    src: "(rule, r) \<in> set (zip all_ids (rules_of rat_amounts))" "vr_rule_id f = RuleId rule"
    "r (context_of Ubl sample_invoice) = Inr gs" "f \<in> set gs" by auto
  show "rule_str (vr_rule_id f) \<notin> set total_rules"
  proof
    assume "rule_str (vr_rule_id f) \<in> set total_rules"
    then have "r \<in> set [br_co_10 rat_amounts, br_co_11 rat_amounts, br_co_12 rat_amounts, br_co_13 rat_amounts,
        br_co_15 rat_amounts, br_co_16 rat_amounts]"
      using total_rule_entries [OF src(1)] src(2) by simp
    then show False using src(3,4) sample_silent by auto
  qed
qed

theorem ubl_amount_due_witness:
  "\<exists>rep. validate_xml_with_registry rat_amounts sample_events default_options [en_pack] = Inr rep
     \<and> header_amount rat_amounts (context_of Ubl sample_invoice) ''PayableAmount'' = Some 119
     \<and> (119 :: rat) = sum_list [100] - sum_list [] + sum_list [] + 19 - 0 + 0"
proof -
  obtain fs where fs: "all_rules rat_amounts (context_of Ubl sample_invoice) = Inr fs" by (rule sample_invoice_findings)
  let ?rep = "report_of en_pack \<lparr>rpp_disabled_all = False, rpp_disabled_rules = [(''BR-01'', ())]\<rparr> default_options Ubl fs"
  have findings: "list_all (\<lambda>f. rule_str (vr_rule_id f) \<notin> set total_rules) (er_findings ?rep)"
    using sample_totals_silent [OF fs] by (simp add: report_of_def retain_enabled_findings_def list_all_iff)
  have "list_all (\<lambda>r. r \<notin> set (''*'' # total_rules)) (ra_disabled_rules (er_rulepack ?rep))"
    by (simp add: report_of_def audit_from_manifest_def disabled_rules_for_audit_def total_rules_def)
  moreover have "cents 100" "cents 19" "cents 0"
    unfolding cents_def by (rule exI [of _ 10000], simp, rule exI [of _ 1900], simp, rule exI [of _ 0], simp)
  then have "list_all (\<lambda>d. cents d) (entered_amounts rat_amounts (context_of Ubl sample_invoice) ''EUR'')"
    by (simp add: entered_amounts_def sample_lists sample_amounts sample_syntax or_zero_def rat_amounts_simps en_decimal_samples)
  ultimately have "\<exists>tax. ubl_tax_amounts_for_currency sample_invoice ''EUR'' = [tax]
    \<and> 119 = sum_list [100] - sum_list [] + sum_list [] + or_zero rat_amounts (en_decimal rat_amounts (xn_text tax))
        - (0 :: rat) + 0"
    using ubl_amount_due [OF rat_amounts_laws sample_invoice_length sample_report [OF fs] sample_invoice_parsed _ findings
        _ sample_amounts(1-5)]
    by (simp add: report_of_def sample_lists sample_amounts or_zero_def rat_amounts_simps)
  then show ?thesis using sample_report [OF fs] sample_amounts(5) by simp
qed

end
