(* ===== verification/En_Dates.thy ===== *)
theory En_Dates
  imports En_Select
begin

text \<open>
  The dates that BR-29 and BR-30 compare: \<open>days_from_civil\<close> counts the days of the proleptic Gregorian
  calendar, so the minutes of two dates are in the order of the dates.
\<close>

section \<open>Counting days\<close>

definition year_days :: "nat \<Rightarrow> nat" where
  "year_days y = (if en_is_leap_year (int y) then 366 else 365)"

text \<open>The days up to a date, from the first day of year 0.\<close>

definition calendar_days :: "nat \<Rightarrow> nat \<Rightarrow> nat \<Rightarrow> nat" where
  "calendar_days y m d =
     sum_list (map year_days [0..<y]) + sum_list (map (en_days_in_month (int y)) [1..<m]) + d"

lemma leap_iff: "en_is_leap_year (int y) \<longleftrightarrow> 4 dvd y \<and> \<not> 100 dvd y \<or> 400 dvd y"
proof -
  have "int y mod int k = 0 \<longleftrightarrow> k dvd y" for k by (simp add: zmod_int [symmetric] mod_eq_0_iff_dvd)
  from this [of 4] this [of 100] this [of 400] show ?thesis by (simp add: en_is_leap_year_def)
qed

lemma year_days_eq: "int (year_days y) = 365 + of_bool (4 dvd y) - of_bool (100 dvd y) + of_bool (400 dvd y)"
proof -
  have "4 dvd y" if "100 dvd y" using that dvd_trans [of 4 100 y] by simp
  moreover have "100 dvd y" if "400 dvd y" using that dvd_trans [of 100 400 y] by simp
  ultimately show ?thesis by (auto simp: year_days_def leap_iff)
qed

lemma div_Suc_dvd: "int (Suc y div k) = int (y div k) + of_bool (k dvd Suc y)"
  by (simp add: div_Suc mod_eq_0_iff_dvd)

lemma years_total:
  "int (sum_list (map year_days [0..<Suc y])) = 365 * int y + int (y div 4) - int (y div 100) + int (y div 400) + 366"
proof (induction y)
  case 0
  show ?case by (simp add: year_days_def en_is_leap_year_def)
next
  case (Suc y)
  have "int (sum_list (map year_days [0..<Suc (Suc y)])) = int (sum_list (map year_days [0..<Suc y])) + int (year_days (Suc y))"
    by simp
  then show ?case using Suc year_days_eq [of "Suc y"] by (simp only: div_Suc_dvd) simp
qed

lemma div_mod_400: "k * j = 400 \<Longrightarrow> 0 < k \<Longrightarrow> n div k = j * (n div 400) + n mod 400 div k" for n k j :: int
proof -
  assume kj: "k * j = 400" "0 < k"
  have "n = n mod 400 + k * (j * (n div 400))"
    using mult_div_mod_eq [of 400 n] kj(1) by (simp only: mult.assoc [symmetric])
  then have "n div k = (n mod 400 + k * (j * (n div 400))) div k" by simp
  also have "\<dots> = j * (n div 400) + n mod 400 div k" using kj(2) by simp
  finally show ?thesis .
qed

text \<open>The count of the era, year of era and day of year; \<open>linarith\<close> is kept away from \<open>div\<close>.\<close>

lemma era_sum:
  "y = 400 * q + r \<Longrightarrow> a = 100 * q + b \<Longrightarrow> c = 4 * q + e \<Longrightarrow>
     q * 146097 + (r * 365 + b - e + doy) = 365 * y + a - c + q + doy" for y :: int
  by simp

lemma era_days:
  fixes y doy :: int
  shows "y div 400 * 146097 + ((y - y div 400 * 400) * 365 + (y - y div 400 * 400) div 4 - (y - y div 400 * 400) div 100 + doy)
    = 365 * y + y div 4 - y div 100 + y div 400 + doy"
  unfolding minus_div_mult_eq_mod
  by (rule era_sum; (rule div_mod_400 mult_div_mod_eq [symmetric])?) simp_all

definition shifted_days :: "nat \<Rightarrow> int \<Rightarrow> int" where
  "shifted_days y doy = 365 * int y + int (y div 4) - int (y div 100) + int (y div 400) + doy - 719468"

lemma shifted_days_eq:
  "int y div 400 * 146097 + ((int y - int y div 400 * 400) * 365 + (int y - int y div 400 * 400) div 4
     - (int y - int y div 400 * 400) div 100 + doy) - 719468 = shifted_days y doy"
  unfolding era_days shifted_days_def by (simp only: zdiv_int of_nat_numeral)

lemma days_from_civil_late:
  assumes "2 < month"
  shows "days_from_civil (int y) month day = shifted_days y ((153 * (month + - 3) + 2) div 5 + day - 1)"
  using assms unfolding shifted_days_eq [symmetric] days_from_civil_def Let_def by (simp only: if_P if_not_P not_le diff_zero of_nat_0_le_iff if_True)

lemma days_from_civil_early:
  assumes "month \<le> 2"
  shows "days_from_civil (int (Suc y)) month day = shifted_days y ((153 * (month + 9) + 2) div 5 + day - 1)"
proof -
  have "int (Suc y) - 1 = int y" by simp
  with assms show ?thesis
    unfolding shifted_days_eq [symmetric] days_from_civil_def Let_def
    by (simp only: if_P if_not_P not_less of_nat_0_le_iff if_True)
qed

lemma shifted_total:
  "int (sum_list (map year_days [0..<Suc y])) = shifted_days y doy + 366 + 719468 - doy"
  unfolding years_total shifted_days_def by simp

lemma months_before:
  assumes "month \<in> {1..12}"
  shows "int (sum_list (map (en_days_in_month (int y)) [1..<month])) =
    (if month = 1 then 0 else if month = 2 then 31
     else (153 * (int month - 3) + 2) div 5 + 59 + of_bool (en_is_leap_year (int y)))"
proof -
  have "month = 1 \<or> month = 2 \<or> month = 3 \<or> month = 4 \<or> month = 5 \<or> month = 6 \<or> month = 7 \<or> month = 8
    \<or> month = 9 \<or> month = 10 \<or> month = 11 \<or> month = 12" using assms unfolding atLeastAtMost_iff by presburger
  then show ?thesis
    by (elim disjE) (simp_all add: en_days_in_month_def upt_rec)
qed

lemma days_from_civil_counts:
  assumes "month \<in> {1..12}"
  shows "days_from_civil (int y) (int month) (int day) = int (calendar_days y month day) - 719529"
proof (cases "month \<le> 2")
  case True
  then have m: "int month \<le> 2" "month = 1 \<or> month = 2" using assms by auto
  show ?thesis
  proof (cases y)
    case 0
    then show ?thesis using m by (auto simp: days_from_civil_def calendar_days_def en_days_in_month_def upt_rec)
  next
    case (Suc x)
    have feb: "[Suc 0..<2] = [1]" by (simp add: upt_rec)
    from m(2) days_from_civil_early [OF m(1), of x "int day"] show ?thesis
      using shifted_total [of x "(153 * (int month + 9) + 2) div 5 + int day - 1"]
      by (auto simp: Suc calendar_days_def en_days_in_month_def feb simp del: upt_Suc)
  qed
next
  case False
  have year: "int (sum_list (map year_days [0..<Suc y])) = int (sum_list (map year_days [0..<y])) + int (year_days y)" by simp
  let ?doy = "(153 * (int month + - 3) + 2) div 5 + int day - 1"
  have "days_from_civil (int y) (int month) (int day) = shifted_days y ?doy"
    using False by (intro days_from_civil_late) simp
  moreover have "int (sum_list (map (en_days_in_month (int y)) [1..<month]))
      = (153 * (int month + - 3) + 2) div 5 + int (year_days y) - 306"
    using months_before [OF assms, of y] False by (simp add: year_days_def)
  ultimately show ?thesis
    using year shifted_total [of y ?doy] unfolding calendar_days_def of_nat_add by simp
qed

section \<open>The order of dates\<close>

definition valid_day :: "nat \<Rightarrow> nat \<Rightarrow> nat \<Rightarrow> bool" where
  "valid_day y m d \<longleftrightarrow> m \<in> {1..12} \<and> d \<in> {1..en_days_in_month (int y) m}"

lemma date_minutes_valid:
  "date_minutes (int y) m d offset = Some t \<longleftrightarrow>
     valid_day y m d \<and> t = (int (calendar_days y m d) - 719529) * 1440 - offset"
  using days_from_civil_counts [of m y d] by (auto simp: date_minutes_def valid_day_def)

lemma calendar_within_year:
  assumes "valid_day y m d"
  shows "sum_list (map (en_days_in_month (int y)) [1..<m]) + d \<le> year_days y"
proof -
  have m: "m \<in> {1..12}" and d: "d \<le> en_days_in_month (int y) m" using assms by (auto simp: valid_day_def)
  have "sum_list (map (en_days_in_month (int y)) [1..<m]) + en_days_in_month (int y) m
      = sum_list (map (en_days_in_month (int y)) [1..<Suc m])"
    using m by simp
  also have "\<dots> \<le> sum_list (map (en_days_in_month (int y)) [1..<13])"
  proof -
    have "[1..<13] = [1..<Suc m] @ [Suc m..<13]" using m upt_add_eq_append [of 1 "Suc m" "12 - m"] by simp
    then show ?thesis by (simp del: upt_Suc)
  qed
  also have "\<dots> = year_days y"
    by (simp add: year_days_def en_days_in_month_def upt_rec)
  finally show ?thesis using d by simp
qed

lemma calendar_less:
  assumes "valid_day y m d" "valid_day y' m' d'" "(y, m, d) < (y', m', d')"
  shows "calendar_days y m d < calendar_days y' m' d'"
proof (cases "y = y'")
  case False
  then have less: "y < y'" using assms(3) by auto
  then have "[0..<y'] = [0..<y] @ y # [Suc y..<y']"
    using upt_add_eq_append [of 0 y "y' - y"] upt_conv_Cons [of y y'] by simp
  then have "sum_list (map year_days [0..<y]) + year_days y \<le> sum_list (map year_days [0..<y'])" by simp
  moreover have "0 < d'" using assms(2) by (simp add: valid_day_def)
  ultimately show ?thesis using calendar_within_year [OF assms(1)] by (simp add: calendar_days_def)
next
  case True
  show ?thesis
  proof (cases "m = m'")
    case True
    with \<open>y = y'\<close> assms(3) show ?thesis by (simp add: calendar_days_def)
  next
    case False
    then have less: "m < m'" "1 \<le> m" using assms(1,3) \<open>y = y'\<close> by (auto simp: valid_day_def)
    then have "[1..<m'] = [1..<m] @ m # [Suc m..<m']"
      using upt_add_eq_append [of 1 m "m' - m"] upt_conv_Cons [of m m'] by simp
    then have "sum_list (map (en_days_in_month (int y)) [1..<m]) + en_days_in_month (int y) m
        \<le> sum_list (map (en_days_in_month (int y)) [1..<m'])" by simp
    moreover have "0 < d'" "d \<le> en_days_in_month (int y) m" using assms(1,2) by (simp_all add: valid_day_def)
    ultimately show ?thesis using \<open>y = y'\<close> by (simp add: calendar_days_def)
  qed
qed

text \<open>The minutes of a date are the days of the calendar counted one by one, less the offset; so two
  dates without offset compare as year, month and day do, whatever leap years lie between.
\<close>

theorem dates_compare_as_calendar:
  assumes "date_minutes (int y) m d 0 = Some a" "date_minutes (int y') m' d' 0 = Some b"
  shows "(a \<le> b) = ((y, m, d) \<le> (y', m', d'))
    \<and> b - a = (int (calendar_days y' m' d') - int (calendar_days y m d)) * 1440"
proof -
  have valid: "valid_day y m d" "valid_day y' m' d'"
    and ab: "a = (int (calendar_days y m d) - 719529) * 1440" "b = (int (calendar_days y' m' d') - 719529) * 1440"
    using assms by (simp_all add: date_minutes_valid)
  consider "(y, m, d) < (y', m', d')" | "(y', m', d') < (y, m, d)" | "(y, m, d) = (y', m', d')"
    by (meson linorder_less_linear)
  then have "(calendar_days y m d \<le> calendar_days y' m' d') = ((y, m, d) \<le> (y', m', d'))"
    using calendar_less [OF valid] calendar_less [OF valid(2,1)] by cases (auto simp del: less_prod_def)
  then show ?thesis by (simp add: ab)
qed

theorem dates_compare_as_calendar_witness:
  "\<exists>a b. date_minutes 2024 2 29 0 = Some a \<and> date_minutes 2024 3 1 0 = Some b \<and> a < b \<and> b - a = 1440"
proof -
  have a: "date_minutes (int 2024) 2 29 0 = Some 28486080" "date_minutes (int 2024) 3 1 0 = Some 28487520"
    by (simp_all add: date_minutes_def en_days_in_month_def en_is_leap_year_def days_from_civil_def)
  from dates_compare_as_calendar [OF this] a show ?thesis by simp
qed

end
