(* ===== verification/Evidence.thy ===== *)
theory Evidence
  imports Rust_Map
begin

text \<open>
  \<open>crates/evidence/src/lib.rs\<close>: evidence bundles, their manifest of hashes, the portable form and its
  checks.  BLAKE3, the JSON of the manifest, tar and zstd are parameters; a path is a byte string, of
  which the tar reader says whether it is UTF-8.
\<close>

section \<open>Bundles\<close>

record artefact_entry =
  ae_id :: string
  ae_size :: nat
  ae_blake3_hex :: string
  ae_content_type :: "string option"

record ev_manifest =
  evm_schema_version :: string
  evm_created_at :: string
  evm_tenant_id :: string
  evm_trace_id :: string
  evm_artefacts :: "artefact_entry list"

record evidence_bundle =
  evb_manifest :: ev_manifest
  evb_artefacts :: "(string, string) btree"

datatype bundle_error =
    UnsupportedSchema string
  | InvalidArtefactPath string
  | UnsupportedTarEntry string string
  | HashDrift string string string
  | MissingArtefact string
  | UnknownArtefact string
  | MissingManifest
  | BadManifestJson string
  | BundleIo string
  | DecompressionTooLarge nat

definition ev_schema_version :: string where
  "ev_schema_version = ''1.0''"

definition manifest_artefact_id :: string where
  "manifest_artefact_id = ''manifest.json''"

definition manifest_signature_artefact_id :: string where
  "manifest_signature_artefact_id = ''signatures/manifest.dsse''"

definition max_decompressed_size :: nat where
  "max_decompressed_size = 512 * 1024 * 1024"

section \<open>The libraries\<close>

datatype tar_type = TarDir | TarFile | TarOther string

text \<open>An entry of a tar archive: its type, its path and its data, which may fail to read.\<close>

record tar_entry =
  te_type :: tar_type
  te_path :: "string + string"
  te_data :: "string + string"

text \<open>
  \<open>bo_append\<close> is the error of \<open>Builder::append_data\<close> for an entry, \<open>bo_finish\<close> the archive of the appended
  entries, all regular files with the normalised metadata; \<open>bo_zstd_decode\<close> is the stream of the decoder:
  the bytes it yields and the error it ends with, if any.
\<close>

record bundle_ops =
  bo_blake3_hex :: "string \<Rightarrow> string"
  bo_manifest_to_vec :: "ev_manifest \<Rightarrow> string + string"
  bo_manifest_from_slice :: "string \<Rightarrow> string + ev_manifest"
  bo_append :: "string \<Rightarrow> string \<Rightarrow> string option"
  bo_finish :: "(string \<times> string) list \<Rightarrow> string + string"
  bo_zstd_encode :: "string \<Rightarrow> string + string"
  bo_zstd_decode :: "string \<Rightarrow> string + string \<times> string option"
  bo_entries :: "string \<Rightarrow> string + (string + tar_entry) list"
  bo_utf8 :: "string \<Rightarrow> bool"
  bo_lossy :: "string \<Rightarrow> string"

section \<open>Paths\<close>

text \<open>
  \<open>Path::components\<close> on Unix: the root, and the parts between slashes; empty parts and \<open>.\<close> are
  skipped, \<open>..\<close> is a component of its own.
\<close>

definition path_parts :: "string \<Rightarrow> string list" where
  "path_parts p = filter (\<lambda>c. c \<noteq> [] \<and> c \<noteq> ''.'') (split_on CHR ''/'' p)"

definition artefact_id_from_path :: "bundle_ops \<Rightarrow> string \<Rightarrow> bundle_error + string" where
  "artefact_id_from_path ops p =
     (if p \<noteq> [] \<and> hd p = CHR ''/'' then Inl (InvalidArtefactPath (bo_lossy ops p))
      else if list_ex (\<lambda>c. c = ''..'' \<or> \<not> bo_utf8 ops c \<or> CHR 0x5C \<in> set c) (path_parts p)
      then Inl (InvalidArtefactPath (bo_lossy ops p))
      else if path_parts p = [] then Inl (InvalidArtefactPath (bo_lossy ops p))
      else Inr (join ''/'' (path_parts p)))"

definition validate_artefact_id :: "bundle_ops \<Rightarrow> string \<Rightarrow> bundle_error + unit" where
  "validate_artefact_id ops aid =
     (if aid = [] \<or> CHR 0x5C \<in> set aid then Inl (InvalidArtefactPath aid)
      else rbind (artefact_id_from_path ops aid) (\<lambda>normalized.
        if normalized = aid then Inr () else Inl (InvalidArtefactPath aid)))"

section \<open>Manifests and checks\<close>

definition manifest_for :: "bundle_ops \<Rightarrow> (string, string) btree \<Rightarrow> string \<Rightarrow> string \<Rightarrow> string \<Rightarrow> ev_manifest" where
  "manifest_for ops payloads tenant_id trace_id created_at =
     \<lparr>evm_schema_version = ev_schema_version, evm_created_at = created_at, evm_tenant_id = tenant_id,
      evm_trace_id = trace_id,
      evm_artefacts = map (\<lambda>(aid, bytes). \<lparr>ae_id = aid, ae_size = length bytes,
        ae_blake3_hex = bo_blake3_hex ops bytes, ae_content_type = None\<rparr>) payloads\<rparr>"

text \<open>The loop of \<open>verify\<close> removes from the map of manifest entries what it has seen.\<close>

fun verify_artefacts :: "bundle_ops \<Rightarrow> (string, artefact_entry) btree \<Rightarrow> (string \<times> string) list
    \<Rightarrow> bundle_error + (string, artefact_entry) btree" where
  "verify_artefacts ops mm [] = Inr mm"
| "verify_artefacts ops mm ((aid, bytes) # rest) =
     (case map_of mm aid of
        None \<Rightarrow> if aid = manifest_signature_artefact_id then verify_artefacts ops mm rest
                else Inl (UnknownArtefact aid)
      | Some entry \<Rightarrow>
          if ae_size entry \<noteq> length bytes
          then Inl (HashDrift aid (''size='' @ show_nat (ae_size entry)) (''size='' @ show_nat (length bytes)))
          else if bo_blake3_hex ops bytes \<noteq> ae_blake3_hex entry
          then Inl (HashDrift aid (ae_blake3_hex entry) (bo_blake3_hex ops bytes))
          else verify_artefacts ops (btree_remove aid mm) rest)"

definition manifest_map :: "ev_manifest \<Rightarrow> (string, artefact_entry) btree" where
  "manifest_map m = btree_remove manifest_artefact_id (btree_of (map (\<lambda>e. (ae_id e, e)) (evm_artefacts m)))"

definition ev_verify :: "bundle_ops \<Rightarrow> evidence_bundle \<Rightarrow> bundle_error + unit" where
  "ev_verify ops b =
     (if evm_schema_version (evb_manifest b) \<noteq> ev_schema_version
      then Inl (UnsupportedSchema (evm_schema_version (evb_manifest b)))
      else rbind (verify_artefacts ops (manifest_map (evb_manifest b)) (evb_artefacts b)) (\<lambda>mm.
        case mm of [] \<Rightarrow> Inr () | (missing, _) # _ \<Rightarrow> Inl (MissingArtefact missing)))"

section \<open>The portable form\<close>

fun append_entries :: "bundle_ops \<Rightarrow> (string \<times> string) list \<Rightarrow> bundle_error + unit" where
  "append_entries ops [] = Inr ()"
| "append_entries ops ((aid, bytes) # rest) =
     rbind (validate_artefact_id ops aid) (\<lambda>_.
       case bo_append ops aid bytes of Some e \<Rightarrow> Inl (BundleIo e) | None \<Rightarrow> append_entries ops rest)"

definition pack_entries :: "evidence_bundle \<Rightarrow> string \<Rightarrow> (string \<times> string) list" where
  "pack_entries b manifest_bytes =
     sort_key fst (filter (\<lambda>e. fst e \<noteq> manifest_artefact_id) (evb_artefacts b) @ [(manifest_artefact_id, manifest_bytes)])"

definition io :: "string + 'a \<Rightarrow> bundle_error + 'a" where
  "io r = (case r of Inl e \<Rightarrow> Inl (BundleIo e) | Inr x \<Rightarrow> Inr x)"

definition bad_json :: "string + 'a \<Rightarrow> bundle_error + 'a" where
  "bad_json r = (case r of Inl e \<Rightarrow> Inl (BadManifestJson e) | Inr x \<Rightarrow> Inr x)"

definition ev_pack :: "bundle_ops \<Rightarrow> evidence_bundle \<Rightarrow> bundle_error + string" where
  "ev_pack ops b =
     rbind (bad_json (bo_manifest_to_vec ops (evb_manifest b))) (\<lambda>manifest_bytes.
     rbind (append_entries ops (pack_entries b manifest_bytes)) (\<lambda>_.
     rbind (io (bo_finish ops (pack_entries b manifest_bytes))) (\<lambda>tar.
       io (bo_zstd_encode ops tar))))"

text \<open>
  \<open>take(limit + 1)\<close> and \<open>read_to_end\<close>: an error of the stream is met only within the budget.
\<close>

definition decode_all_capped :: "bundle_ops \<Rightarrow> string \<Rightarrow> nat \<Rightarrow> bundle_error + string" where
  "decode_all_capped ops bytes limit =
     rbind (io (bo_zstd_decode ops bytes)) (\<lambda>(data, err).
       if length data > limit then Inl (DecompressionTooLarge limit)
       else case err of Some e \<Rightarrow> Inl (BundleIo e) | None \<Rightarrow> Inr data)"

definition read_entry :: "bundle_ops \<Rightarrow> tar_entry \<Rightarrow> bundle_error + (string \<times> string) option" where
  "read_entry ops entry =
     (if te_type entry = TarDir then Inr None
      else rbind (io (te_path entry)) (\<lambda>path.
           rbind (artefact_id_from_path ops path) (\<lambda>aid.
             case te_type entry of
               TarOther t \<Rightarrow> Inl (UnsupportedTarEntry aid t)
             | _ \<Rightarrow> rbind (io (te_data entry)) (\<lambda>data. Inr (Some (aid, data))))))"

fun read_entries :: "bundle_ops \<Rightarrow> (string + tar_entry) list \<Rightarrow> (string, string) btree
    \<Rightarrow> bundle_error + (string, string) btree" where
  "read_entries ops [] artefacts = Inr artefacts"
| "read_entries ops (r # rs) artefacts =
     rbind (io r) (\<lambda>entry. rbind (read_entry ops entry) (\<lambda>payload.
       case payload of
         None \<Rightarrow> read_entries ops rs artefacts
       | Some (aid, data) \<Rightarrow>
           if map_of artefacts aid \<noteq> None then Inl (BundleIo (''duplicate artefact id: '' @ aid))
           else read_entries ops rs (btree_insert aid data artefacts)))"

definition ev_unpack :: "bundle_ops \<Rightarrow> string \<Rightarrow> bundle_error + evidence_bundle" where
  "ev_unpack ops bytes =
     rbind (decode_all_capped ops bytes max_decompressed_size) (\<lambda>decoded.
     rbind (io (bo_entries ops decoded)) (\<lambda>entries.
     rbind (read_entries ops entries []) (\<lambda>artefacts.
       case map_of artefacts manifest_artefact_id of
         None \<Rightarrow> Inl MissingManifest
       | Some manifest_bytes \<Rightarrow>
           rbind (bad_json (bo_manifest_from_slice ops manifest_bytes)) (\<lambda>m.
             if evm_schema_version m \<noteq> ev_schema_version then Inl (UnsupportedSchema (evm_schema_version m))
             else let b = \<lparr>evb_manifest = m, evb_artefacts = btree_remove manifest_artefact_id artefacts\<rparr>
                  in rbind (ev_verify ops b) (\<lambda>_. Inr b)))))"

section \<open>What the check decides\<close>

lemma btree_of_ok: "btree_ok (btree_of es)"
proof -
  have "btree_ok m \<Longrightarrow> btree_ok (fold (\<lambda>(k, v). btree_insert k v) es m)" for m
    by (induction es arbitrary: m) auto
  then show ?thesis by (simp add: btree_of_def)
qed

lemma map_of_btree_of: "map_of (btree_of es) = map_of (rev es)"
proof -
  have "btree_ok m \<Longrightarrow> map_of (fold (\<lambda>(k, v). btree_insert k v) es m) = map_of m ++ map_of (rev es)" for m
    by (induction es arbitrary: m) (auto simp: map_add_def fun_eq_iff split: option.splits)
  from this [OF btree_ok_Nil] show ?thesis by (simp add: btree_of_def)
qed

text \<open>The entry of an identifier that counts: the last one, and none for the manifest itself.\<close>

definition listed :: "ev_manifest \<Rightarrow> string \<Rightarrow> artefact_entry option" where
  "listed m aid = (if aid = manifest_artefact_id then None
     else map_of (rev (map (\<lambda>e. (ae_id e, e)) (evm_artefacts m))) aid)"

lemma manifest_map_listed: "btree_ok (manifest_map m)" "map_of (manifest_map m) = listed m"
  by (auto simp: manifest_map_def btree_of_ok map_of_btree_of listed_def fun_eq_iff)

definition entry_matches :: "bundle_ops \<Rightarrow> artefact_entry \<Rightarrow> string \<Rightarrow> bool" where
  "entry_matches ops e bytes \<longleftrightarrow> ae_size e = length bytes \<and> ae_blake3_hex e = bo_blake3_hex ops bytes"

lemma verify_artefacts_iff:
  "btree_ok mm \<Longrightarrow> distinct (map fst as) \<Longrightarrow>
     verify_artefacts ops mm as = Inr mm' \<longleftrightarrow>
       list_all (\<lambda>(aid, bytes). case map_of mm aid of None \<Rightarrow> aid = manifest_signature_artefact_id
                   | Some e \<Rightarrow> entry_matches ops e bytes) as
       \<and> mm' = filter (\<lambda>e. fst e \<notin> fst ` set as) mm"
proof (induction ops mm as rule: verify_artefacts.induct)
  case (2 ops mm aid bytes rest)
  have other: "map_of (btree_remove aid mm) k = map_of mm k" if "k \<in> fst ` set rest" for k
    using that 2(4) by auto
  have rest: "list_all (\<lambda>(k, bytes). case map_of (btree_remove aid mm) k of None \<Rightarrow> k = manifest_signature_artefact_id
        | Some e \<Rightarrow> entry_matches ops e bytes) rest
      = list_all (\<lambda>(k, bytes). case map_of mm k of None \<Rightarrow> k = manifest_signature_artefact_id
        | Some e \<Rightarrow> entry_matches ops e bytes) rest"
    using other by (intro list.pred_cong) (auto simp: rev_image_eqI split: option.splits)
  have gone: "filter (\<lambda>e. fst e \<notin> fst ` set rest) (btree_remove aid mm)
      = filter (\<lambda>e. fst e \<notin> fst ` set ((aid, bytes) # rest)) mm"
    unfolding btree_remove_def by (auto intro: filter_cong)
  show ?case
  proof (cases "map_of mm aid")
    case None
    then have "aid \<notin> fst ` set mm" by (simp add: map_of_eq_None_iff)
    then have "filter (\<lambda>e. fst e \<notin> fst ` set rest) mm = filter (\<lambda>e. fst e \<notin> fst ` set ((aid, bytes) # rest)) mm"
      by (intro filter_cong) force+
    with None 2(1) 2(3,4) show ?thesis by auto
  next
    case (Some e)
    show ?thesis
    proof (cases "entry_matches ops e bytes")
      case True
      then have "verify_artefacts ops mm ((aid, bytes) # rest) = verify_artefacts ops (btree_remove aid mm) rest"
        using Some by (simp add: entry_matches_def)
      moreover have "verify_artefacts ops (btree_remove aid mm) rest = Inr mm' \<longleftrightarrow>
          list_all (\<lambda>(k, bytes). case map_of mm k of None \<Rightarrow> k = manifest_signature_artefact_id
            | Some e \<Rightarrow> entry_matches ops e bytes) rest
          \<and> mm' = filter (\<lambda>e. fst e \<notin> fst ` set ((aid, bytes) # rest)) mm"
        unfolding rest [symmetric] gone [symmetric]
        using 2(2) [OF Some] True 2(3,4) by (simp add: entry_matches_def)
      ultimately show ?thesis using Some True by simp
    next
      case False
      then show ?thesis using Some by (auto simp: entry_matches_def)
    qed
  qed
qed auto

theorem ev_verify_iff:
  assumes "btree_ok (evb_artefacts b)"
  shows "ev_verify ops b = Inr () \<longleftrightarrow>
    evm_schema_version (evb_manifest b) = ''1.0''
    \<and> list_all (\<lambda>(aid, bytes). case listed (evb_manifest b) aid of None \<Rightarrow> aid = ''signatures/manifest.dsse''
        | Some e \<Rightarrow> entry_matches ops e bytes) (evb_artefacts b)
    \<and> list_all (\<lambda>e. ae_id e = ''manifest.json'' \<or> map_of (evb_artefacts b) (ae_id e) \<noteq> None) (evm_artefacts (evb_manifest b))"
proof -
  let ?mm = "manifest_map (evb_manifest b)"
  have keys: "fst ` set ?mm = ae_id ` set (evm_artefacts (evb_manifest b)) - {manifest_artefact_id}"
  proof (rule set_eqI)
    fix k
    have "k \<in> fst ` set ?mm \<longleftrightarrow> map_of ?mm k \<noteq> None" by (simp add: map_of_eq_None_iff)
    also have "\<dots> \<longleftrightarrow> k \<in> ae_id ` set (evm_artefacts (evb_manifest b)) - {manifest_artefact_id}"
      unfolding manifest_map_listed(2) listed_def
      by (simp add: map_of_eq_None_iff image_image del: not_None_eq)
    finally show "k \<in> fst ` set ?mm \<longleftrightarrow> k \<in> ae_id ` set (evm_artefacts (evb_manifest b)) - {manifest_artefact_id}" .
  qed
  have left: "filter (\<lambda>e. fst e \<notin> fst ` set (evb_artefacts b)) ?mm = []
    \<longleftrightarrow> list_all (\<lambda>e. ae_id e = ''manifest.json'' \<or> map_of (evb_artefacts b) (ae_id e) \<noteq> None)
          (evm_artefacts (evb_manifest b))" (is "?left = [] \<longleftrightarrow> ?right")
  proof -
    have "?left = [] \<longleftrightarrow> fst ` set ?mm \<subseteq> fst ` set (evb_artefacts b)"
      by (auto simp: filter_empty_conv)
    also have "\<dots> \<longleftrightarrow> ?right"
      unfolding keys manifest_artefact_id_def by (auto simp: list_all_iff map_of_eq_None_iff)
    finally show ?thesis .
  qed
  have "ev_verify ops b = Inr () \<longleftrightarrow> evm_schema_version (evb_manifest b) = ev_schema_version
      \<and> (\<exists>mm'. verify_artefacts ops ?mm (evb_artefacts b) = Inr mm' \<and> mm' = [])"
  proof -
    have "(case mm of [] \<Rightarrow> Inr () | (missing, _) # _ \<Rightarrow> Inl (MissingArtefact missing)) = Inr () \<longleftrightarrow> mm = []"
      for mm :: "(string, artefact_entry) btree"
      by (cases mm) auto
    then show ?thesis by (auto simp: ev_verify_def rbind_Inr_iff)
  qed
  then show ?thesis unfolding manifest_signature_artefact_id_def [symmetric]
    using left verify_artefacts_iff [OF manifest_map_listed(1) [of "evb_manifest b"] distinct_btree [OF assms], of ops]
    by (simp add: manifest_map_listed(2) ev_schema_version_def)
qed

text \<open>Two checked bundles with one manifest: where an artefact differs, both have one, and they collide.\<close>

lemma manifest_bound:
  assumes "btree_ok (evb_artefacts b)" "btree_ok (evb_artefacts c)" "evb_manifest b = evb_manifest c"
    "ev_verify ops b = Inr ()" "ev_verify ops c = Inr ()" "aid \<noteq> ''signatures/manifest.dsse''"
    "map_of (evb_artefacts b) aid \<noteq> map_of (evb_artefacts c) aid"
  shows "\<exists>x y. map_of (evb_artefacts b) aid = Some x \<and> map_of (evb_artefacts c) aid = Some y
    \<and> x \<noteq> y \<and> length x = length y \<and> bo_blake3_hex ops x = bo_blake3_hex ops y"
proof -
  have same: "\<exists>e. listed m aid = Some e \<and> map_of (evb_artefacts d) aid = Some x \<and> entry_matches ops e x"
    if "evb_manifest d = m" "ev_verify ops d = Inr ()" "btree_ok (evb_artefacts d)" "map_of (evb_artefacts d) aid = Some x"
    for d m x
    using that assms(6) map_of_SomeD [OF that(4)]
    by (fastforce simp: ev_verify_iff [OF that(3)] list_all_iff split: option.splits)
  have present: "map_of (evb_artefacts d) aid \<noteq> None"
    if "evb_manifest d = m" "ev_verify ops d = Inr ()" "btree_ok (evb_artefacts d)" "listed m aid = Some e" for d m e
  proof -
    have "aid \<noteq> ''manifest.json''" "aid \<in> ae_id ` set (evm_artefacts m)"
      using that(4) map_of_SomeD by (fastforce simp: listed_def manifest_artefact_id_def split: if_splits)+
    then show ?thesis using that(1,2) by (auto simp: ev_verify_iff [OF that(3)] list_all_iff)
  qed
  obtain x y where "map_of (evb_artefacts b) aid = Some x" "map_of (evb_artefacts c) aid = Some y"
    using assms(7) same [OF assms(3,4,1)] same [OF refl assms(5,2)] present [OF assms(3,4,1)] present [OF refl assms(5,2)]
    by (cases "map_of (evb_artefacts b) aid"; cases "map_of (evb_artefacts c) aid") fastforce+
  moreover from this same [OF assms(3,4,1)] same [OF refl assms(5,2)]
  have "length x = length y" "bo_blake3_hex ops x = bo_blake3_hex ops y"
    by (fastforce simp: entry_matches_def)+
  ultimately show ?thesis using assms(7) by auto
qed

text \<open>C8  A manifest binds its artefacts: if two bundles with the same manifest both pass the check and
  differ in an artefact other than the signature sidecar, then two different byte strings of the same
  length have the same BLAKE3 hash.
\<close>

theorem manifest_binds_artefacts:
  assumes "btree_ok (evb_artefacts b)" "btree_ok (evb_artefacts c)" "evb_manifest b = evb_manifest c"
    "ev_verify ops b = Inr ()" "ev_verify ops c = Inr ()" "aid \<noteq> ''signatures/manifest.dsse''"
    "map_of (evb_artefacts b) aid \<noteq> map_of (evb_artefacts c) aid"
  shows "\<exists>x y. x \<noteq> y \<and> length x = length y \<and> bo_blake3_hex ops x = bo_blake3_hex ops y"
  using manifest_bound [OF assms] by blast

text \<open>An identifier that is listed twice is checked against its last entry only.\<close>

theorem duplicate_entry_unchecked:
  "ev_verify ops
     \<lparr>evb_manifest = \<lparr>evm_schema_version = ''1.0'', evm_created_at = c, evm_tenant_id = t, evm_trace_id = r,
        evm_artefacts = [\<lparr>ae_id = ''a'', ae_size = 7, ae_blake3_hex = ''wrong'', ae_content_type = None\<rparr>,
          \<lparr>ae_id = ''a'', ae_size = 0, ae_blake3_hex = bo_blake3_hex ops [], ae_content_type = None\<rparr>]\<rparr>,
      evb_artefacts = [(''a'', [])]\<rparr> = Inr ()"
  by (subst ev_verify_iff)
    (simp_all add: btree_ok_def listed_def entry_matches_def manifest_artefact_id_def)

section \<open>Packing and unpacking\<close>

definition safe_part :: "bundle_ops \<Rightarrow> string \<Rightarrow> bool" where
  "safe_part ops c \<longleftrightarrow> c \<noteq> [] \<and> c \<noteq> ''.'' \<and> c \<noteq> ''..'' \<and> CHR ''/'' \<notin> set c \<and> CHR 0x5C \<notin> set c \<and> bo_utf8 ops c"

definition safe_id :: "bundle_ops \<Rightarrow> string \<Rightarrow> bool" where
  "safe_id ops aid \<longleftrightarrow> (\<exists>parts. parts \<noteq> [] \<and> list_all (safe_part ops) parts \<and> aid = join ''/'' parts)"

lemma split_on_parts: "p \<in> set (split_on c s) \<Longrightarrow> c \<notin> set p"
  by (induction s arbitrary: p) (auto split: list.splits if_splits)

lemma split_on_parts_joined: "parts \<noteq> [] \<Longrightarrow> list_all (\<lambda>p. c \<notin> set p) parts \<Longrightarrow> split_on c (join [c] parts) = parts"
proof (induction "[c]" parts rule: join.induct)
  case (3 x y xs)
  then show ?case using split_on_sep [of c x "join [c] (y # xs)"] by simp
qed (simp_all add: split_on_free)

lemma set_join: "set (join sep parts) \<subseteq> set sep \<union> \<Union> (set ` set parts)"
  by (induction sep parts rule: join.induct) auto

lemma safe_parts:
  assumes "parts \<noteq> []" "list_all (safe_part ops) parts"
  shows "path_parts (join ''/'' parts) = parts" "join ''/'' parts \<noteq> []" "hd (join ''/'' parts) \<noteq> CHR ''/''"
    "CHR 0x5C \<notin> set (join ''/'' parts)"
proof -
  have "list_all (\<lambda>p. CHR ''/'' \<notin> set p) parts" using assms(2) by (auto simp: list_all_iff safe_part_def)
  from split_on_parts_joined [OF assms(1) this] show "path_parts (join ''/'' parts) = parts"
    using assms(2) by (auto simp: path_parts_def list_all_iff safe_part_def intro!: filter_True)
  obtain p ps where ps: "parts = p # ps" "p \<noteq> []" "CHR ''/'' \<notin> set p"
    using assms by (cases parts) (auto simp: safe_part_def)
  moreover have "\<exists>r. join ''/'' (p # ps) = p @ r" by (cases ps) simp_all
  ultimately obtain r where r: "join ''/'' parts = p @ r" by blast
  obtain c q where "p = c # q" "c \<noteq> CHR ''/''" using ps(2,3) by (cases p) auto
  with r have "join ''/'' parts = c # q @ r" "c \<noteq> CHR ''/''" by simp_all
  then show "join ''/'' parts \<noteq> []" "hd (join ''/'' parts) \<noteq> CHR ''/''" by (simp_all only: list.sel list.distinct not_False_eq_True)
  show "CHR 0x5C \<notin> set (join ''/'' parts)"
    using set_join [of "''/''" parts] assms(2) by (auto simp: safe_part_def list_all_iff)
qed

lemma artefact_id_safe: "artefact_id_from_path ops p = Inr aid \<Longrightarrow> safe_id ops aid"
proof -
  assume "artefact_id_from_path ops p = Inr aid"
  then have p: "path_parts p \<noteq> []" "aid = join ''/'' (path_parts p)"
    and parts: "\<not> list_ex (\<lambda>c. c = ''..'' \<or> \<not> bo_utf8 ops c \<or> CHR 0x5C \<in> set c) (path_parts p)"
    by (simp_all add: artefact_id_from_path_def split: if_split_asm)
  have "safe_part ops c" if "c \<in> set (path_parts p)" for c
    using that parts split_on_parts [of c "CHR ''/''" p] by (auto simp: safe_part_def list_ex_iff path_parts_def)
  with p show ?thesis by (auto simp: safe_id_def list_all_iff)
qed

lemma safe_id_from_path: "safe_id ops aid \<Longrightarrow> artefact_id_from_path ops aid = Inr aid"
proof -
  assume "safe_id ops aid"
  then obtain parts where parts: "parts \<noteq> []" "list_all (safe_part ops) parts" "aid = join ''/'' parts"
    by (auto simp: safe_id_def)
  moreover have "\<not> list_ex (\<lambda>c. c = ''..'' \<or> \<not> bo_utf8 ops c \<or> CHR 0x5C \<in> set c) parts"
    using parts(2) by (simp add: list_ex_iff list_all_iff safe_part_def)
  ultimately show ?thesis using safe_parts [OF parts(1,2)] by (simp add: artefact_id_from_path_def)
qed

lemma validate_artefact_id_iff: "validate_artefact_id ops aid = Inr () \<longleftrightarrow> safe_id ops aid"
proof
  assume "validate_artefact_id ops aid = Inr ()"
  then have "artefact_id_from_path ops aid = Inr aid"
    by (auto simp: validate_artefact_id_def rbind_Inr_iff split: if_splits)
  then show "safe_id ops aid" by (rule artefact_id_safe)
next
  assume safe: "safe_id ops aid"
  then have "aid \<noteq> []" "CHR 0x5C \<notin> set aid" using safe_parts(2,4) by (auto simp: safe_id_def)
  with safe_id_from_path [OF safe] show "validate_artefact_id ops aid = Inr ()"
    by (simp add: validate_artefact_id_def)
qed

lemma append_entries_iff:
  "append_entries ops es = Inr () \<longleftrightarrow> list_all (\<lambda>(aid, bytes). safe_id ops aid \<and> bo_append ops aid bytes = None) es"
proof (induction es)
  case (Cons e es)
  obtain aid bytes where "e = (aid, bytes)" by fastforce
  then show ?case
    using Cons by (auto simp: rbind_Inr_iff validate_artefact_id_iff split: option.splits)
qed simp

text \<open>What the libraries promise for the data of a bundle: decoding gives back what was encoded, entry by entry.\<close>

definition regular :: "string \<times> string \<Rightarrow> tar_entry" where
  "regular e = \<lparr>te_type = TarFile, te_path = Inr (fst e), te_data = Inr (snd e)\<rparr>"

definition library_round_trip :: "bundle_ops \<Rightarrow> evidence_bundle \<Rightarrow> bool" where
  "library_round_trip ops b =
     (case bo_manifest_to_vec ops (evb_manifest b) of
        Inl _ \<Rightarrow> False
      | Inr t \<Rightarrow>
          bo_manifest_from_slice ops t = Inr (evb_manifest b) \<and> bo_utf8 ops ''manifest.json''
          \<and> list_all (\<lambda>(aid, bytes). bo_append ops aid bytes = None) (pack_entries b t)
          \<and> (case bo_finish ops (pack_entries b t) of
                Inl _ \<Rightarrow> False
              | Inr tar \<Rightarrow> bo_entries ops tar = Inr (map (Inr \<circ> regular) (pack_entries b t))
                  \<and> (case bo_zstd_encode ops tar of
                        Inl _ \<Rightarrow> False
                      | Inr z \<Rightarrow> bo_zstd_decode ops z = Inr (tar, None))))"

text \<open>A bundle that can be packed: its artefacts are ordered, named and listed as they should be.\<close>

definition packable :: "bundle_ops \<Rightarrow> evidence_bundle \<Rightarrow> bool" where
  "packable ops b \<longleftrightarrow> btree_ok (evb_artefacts b) \<and> list_all (\<lambda>e. safe_id ops (fst e)) (evb_artefacts b)
     \<and> map_of (evb_artefacts b) ''manifest.json'' = None \<and> ev_verify ops b = Inr ()"

lemma read_regular:
  "list_all (\<lambda>e. safe_id ops (fst e)) es \<Longrightarrow> distinct (map fst es) \<Longrightarrow> fst ` set es \<inter> fst ` set acc = {} \<Longrightarrow>
     btree_ok acc \<Longrightarrow>
     read_entries ops (map (Inr \<circ> regular) es) acc = Inr (fold (\<lambda>(k, v). btree_insert k v) es acc)"
proof (induction es arbitrary: acc)
  case (Cons e es)
  obtain aid data where e: "e = (aid, data)" by fastforce
  have "read_entry ops (regular e) = Inr (Some (aid, data))"
    using Cons.prems(1) by (simp add: read_entry_def regular_def io_def e safe_id_from_path)
  moreover have "map_of acc aid = None" using Cons.prems(3) by (simp add: map_of_eq_None_iff e)
  moreover have "read_entries ops (map (Inr \<circ> regular) es) (btree_insert aid data acc)
      = Inr (fold (\<lambda>(k, v). btree_insert k v) es (btree_insert aid data acc))"
    using Cons.prems by (intro Cons.IH) (auto simp: e)
  ultimately show ?case by (simp add: io_def e comp_def)
qed simp

lemma btree_remove_insert: "btree_ok m \<Longrightarrow> map_of m k = None \<Longrightarrow> btree_remove k (btree_insert k v m) = m"
  by (intro btree_eqI) (auto simp: fun_eq_iff)

text \<open>The archive holds the artefacts and the manifest, each once and under a safe path.\<close>

lemma pack_entries_read:
  assumes "packable ops b" "bo_utf8 ops ''manifest.json''"
  shows "list_all (\<lambda>e. safe_id ops (fst e)) (pack_entries b t)"
    "read_entries ops (map (Inr \<circ> regular) (pack_entries b t)) []
       = Inr (btree_insert manifest_artefact_id t (evb_artefacts b))"
proof -
  let ?es = "pack_entries b t" and ?as = "evb_artefacts b @ [(manifest_artefact_id, t)]"
  have b: "btree_ok (evb_artefacts b)" "list_all (\<lambda>e. safe_id ops (fst e)) (evb_artefacts b)"
    "map_of (evb_artefacts b) manifest_artefact_id = None"
    using assms(1) by (simp_all add: packable_def manifest_artefact_id_def)
  have "safe_part ops manifest_artefact_id"
    using assms(2) by (simp add: safe_part_def manifest_artefact_id_def)
  then have "safe_id ops manifest_artefact_id"
    unfolding safe_id_def by (intro exI [of _ "[manifest_artefact_id]"]) simp
  moreover have keep: "filter (\<lambda>e. fst e \<noteq> manifest_artefact_id) (evb_artefacts b) = evb_artefacts b"
    using b(3) by (intro filter_True) (auto simp: map_of_eq_None_iff rev_image_eqI)
  ultimately show safe: "list_all (\<lambda>e. safe_id ops (fst e)) ?es"
    using b(2) by (auto simp: pack_entries_def list_all_iff)
  have set: "set ?es = set ?as" by (simp add: pack_entries_def keep)
  have ids: "distinct (map fst ?as)"
    using distinct_btree [OF b(1)] b(3) by (simp add: map_of_eq_None_iff)
  then have distinct: "distinct (map fst ?es)"
    unfolding pack_entries_def keep by (metis mset_map mset_eq_imp_distinct_iff mset_sort)
  have "btree_of ?es = btree_insert manifest_artefact_id t (evb_artefacts b)"
  proof (rule btree_eqI)
    have "map_of (rev ?es) = map_of ?as"
      using distinct ids set by (subst map_of_inject_set) (simp_all only: rev_map [symmetric] distinct_rev set_rev)
    also have "\<dots> = (map_of (evb_artefacts b))(manifest_artefact_id \<mapsto> t)"
      using b(3) by (auto simp: fun_eq_iff map_add_def split: option.split)
    finally show "map_of (btree_of ?es) = map_of (btree_insert manifest_artefact_id t (evb_artefacts b))"
      using b(1) by (simp add: map_of_btree_of)
  qed (simp_all add: btree_of_ok b(1))
  then show "read_entries ops (map (Inr \<circ> regular) ?es) []
      = Inr (btree_insert manifest_artefact_id t (evb_artefacts b))"
    using read_regular [OF safe distinct, of "[]"] by (simp add: btree_of_def)
qed

lemma pack_unpack:
  assumes "library_round_trip ops b" "packable ops b"
  shows "\<exists>z tar. ev_pack ops b = Inr z \<and> bo_zstd_decode ops z = Inr (tar, None)
    \<and> ev_unpack ops z = (if length tar \<le> 536870912 then Inr b else Inl (DecompressionTooLarge 536870912))"
proof -
  obtain t tar z where t: "bo_manifest_to_vec ops (evb_manifest b) = Inr t" "bo_manifest_from_slice ops t = Inr (evb_manifest b)"
      "bo_utf8 ops ''manifest.json''"
    and app: "list_all (\<lambda>(aid, bytes). bo_append ops aid bytes = None) (pack_entries b t)"
    and tar: "bo_finish ops (pack_entries b t) = Inr tar" "bo_zstd_encode ops tar = Inr z" "bo_zstd_decode ops z = Inr (tar, None)"
      "bo_entries ops tar = Inr (map (Inr \<circ> regular) (pack_entries b t))"
    using assms(1) by (auto simp: library_round_trip_def split: sum.splits)
  note es = pack_entries_read [OF assms(2) t(3), of t]
  have b: "btree_ok (evb_artefacts b)" "map_of (evb_artefacts b) manifest_artefact_id = None" "ev_verify ops b = Inr ()"
    using assms(2) by (simp_all add: packable_def manifest_artefact_id_def)
  have "append_entries ops (pack_entries b t) = Inr ()"
    using es(1) app by (auto simp: append_entries_iff list_all_iff)
  then have "ev_pack ops b = Inr z" by (simp add: ev_pack_def bad_json_def t io_def tar)
  moreover have whole: "\<lparr>evb_manifest = evb_manifest b,
      evb_artefacts = btree_remove manifest_artefact_id (btree_insert manifest_artefact_id t (evb_artefacts b))\<rparr> = b"
    using btree_remove_insert [OF b(1,2)] by (cases b) simp
  moreover have "evm_schema_version (evb_manifest b) = ev_schema_version"
    using b(3) by (simp add: ev_verify_def split: if_splits)
  then have "ev_unpack ops z = (if length tar > max_decompressed_size then Inl (DecompressionTooLarge max_decompressed_size) else Inr b)"
    using b(1,3)
    by (simp add: ev_unpack_def decode_all_capped_def io_def tar es(2) bad_json_def t Let_def whole)
  ultimately show ?thesis using tar(3) by (auto simp: max_decompressed_size_def not_less)
qed

text \<open>C7  Round trip: a packable bundle packs, and unless its archive is larger than 512 MiB, unpacking gives
  the bundle back, manifest and artefacts.
\<close>

theorem pack_unpack_roundtrip:
  assumes "library_round_trip ops b" "packable ops b"
  shows "\<exists>z tar. ev_pack ops b = Inr z \<and> bo_zstd_decode ops z = Inr (tar, None)
    \<and> ev_unpack ops z = (if length tar \<le> 536870912 then Inr b else Inl (DecompressionTooLarge 536870912))"
  using assms by (rule pack_unpack)

text \<open>What an unpacked archive can hold: every entry was read under a safe identifier.\<close>

lemma read_entries_safe:
  "read_entries ops rs acc = Inr m \<Longrightarrow> btree_ok acc \<Longrightarrow> list_all (\<lambda>e. safe_id ops (fst e)) acc \<Longrightarrow>
     btree_ok m \<and> list_all (\<lambda>e. safe_id ops (fst e)) m"
proof (induction ops rs acc rule: read_entries.induct)
  case (2 ops r rs acc)
  obtain entry payload where e: "io r = Inr entry" "read_entry ops entry = Inr payload"
    using 2(3) by (auto simp: rbind_Inr_iff)
  show ?case
  proof (cases payload)
    case None
    then show ?thesis using 2 e by (auto simp: rbind_Inr_iff)
  next
    case (Some p)
    obtain aid data where p: "p = (aid, data)" by fastforce
    have "safe_id ops aid"
      using e(2) unfolding Some p
      by (cases "te_type entry") (auto simp: read_entry_def rbind_Inr_iff dest: artefact_id_safe)
    moreover have "set (btree_insert aid data acc) \<subseteq> insert (aid, data) (set acc)"
      by (induction aid data acc rule: btree_insert.induct) auto
    ultimately have "list_all (\<lambda>e. safe_id ops (fst e)) (btree_insert aid data acc)"
      using 2(5) by (auto simp: list_all_iff)
    then show ?thesis using 2 e Some p by (auto simp: rbind_Inr_iff split: if_splits)
  qed
qed simp

lemma unpack_checked:
  "case ev_unpack ops bytes of
     Inl _ \<Rightarrow> True
   | Inr b \<Rightarrow> ev_verify ops b = Inr () \<and> btree_ok (evb_artefacts b)
       \<and> list_all (\<lambda>e. safe_id ops (fst e)) (evb_artefacts b)
       \<and> map_of (evb_artefacts b) ''manifest.json'' = None
       \<and> (case bo_zstd_decode ops bytes of Inl _ \<Rightarrow> False | Inr (data, _) \<Rightarrow> length data \<le> 536870912)"
proof (cases "ev_unpack ops bytes")
  case (Inr b)
  then obtain d es as mb m where d: "decode_all_capped ops bytes max_decompressed_size = Inr d"
    and as: "read_entries ops es [] = Inr as" and v: "ev_verify ops b = Inr ()"
    and b: "evb_artefacts b = btree_remove manifest_artefact_id as"
    by (auto simp: ev_unpack_def rbind_Inr_iff Let_def split: option.splits if_splits)
  have "(case bo_zstd_decode ops bytes of Inl _ \<Rightarrow> False | Inr (data, _) \<Rightarrow> length data \<le> 536870912)"
    using d by (auto simp: decode_all_capped_def rbind_Inr_iff io_def max_decompressed_size_def split: sum.splits if_splits)
  moreover from read_entries_safe [OF as] have "btree_ok (evb_artefacts b)" "list_all (\<lambda>e. safe_id ops (fst e)) (evb_artefacts b)"
    unfolding b by (auto simp: list_all_iff btree_remove_def intro: btree_ok_remove [unfolded btree_remove_def])
  moreover have "map_of (evb_artefacts b) ''manifest.json'' = None"
    unfolding b by (simp add: manifest_artefact_id_def)
  ultimately show ?thesis using Inr v by simp
qed simp

text \<open>C6  Whatever the bytes, a bundle that comes out of \<open>unpack\<close> passes \<open>verify\<close>, its artefacts are a map of
  identifiers that are relative paths without \<open>.\<close> or \<open>..\<close> or backslash, and the archive decompressed to at
  most 512 MiB.
\<close>

theorem unpack_sound:
  "case ev_unpack ops bytes of
     Inl _ \<Rightarrow> True
   | Inr b \<Rightarrow> ev_verify ops b = Inr () \<and> btree_ok (evb_artefacts b)
       \<and> list_all (\<lambda>e. safe_id ops (fst e)) (evb_artefacts b)
       \<and> map_of (evb_artefacts b) ''manifest.json'' = None
       \<and> (case bo_zstd_decode ops bytes of Inl _ \<Rightarrow> False | Inr (data, _) \<Rightarrow> length data \<le> 536870912)"
  by (rule unpack_checked)

section \<open>Concrete bundles\<close>

definition sample_artefact :: "string \<Rightarrow> (string, string) btree" where
  "sample_artefact bytes = [(''formats/ubl.xml'', bytes)]"

text \<open>A hash that is the data itself, and one that is the same for all data.\<close>

definition plain_hash :: "string \<Rightarrow> string" where
  "plain_hash bytes = bytes"

definition blind_hash :: "string \<Rightarrow> string" where
  "blind_hash bytes = ''h''"

definition sample_bundle :: "string \<Rightarrow> string \<Rightarrow> evidence_bundle" where
  "sample_bundle bytes hash =
     \<lparr>evb_manifest = \<lparr>evm_schema_version = ''1.0'', evm_created_at = ''2026-05-27T00:00:00Z'', evm_tenant_id = ''t'',
        evm_trace_id = ''r'', evm_artefacts = [\<lparr>ae_id = ''formats/ubl.xml'', ae_size = length bytes,
          ae_blake3_hex = hash, ae_content_type = None\<rparr>]\<rparr>,
      evb_artefacts = sample_artefact bytes\<rparr>"

text \<open>Libraries that know one bundle.\<close>

definition ops_for :: "(string \<Rightarrow> string) \<Rightarrow> evidence_bundle \<Rightarrow> bundle_ops" where
  "ops_for hash b =
     \<lparr>bo_blake3_hex = hash,
      bo_manifest_to_vec = (\<lambda>m. if m = evb_manifest b then Inr ''{}'' else Inl ''unknown''),
      bo_manifest_from_slice = (\<lambda>_. Inr (evb_manifest b)),
      bo_append = (\<lambda>_ _. None), bo_finish = (\<lambda>_. Inr ''tar''), bo_zstd_encode = (\<lambda>_. Inr ''zstd''),
      bo_zstd_decode = (\<lambda>_. Inr (''tar'', None)),
      bo_entries = (\<lambda>_. Inr (map (Inr \<circ> regular) (pack_entries b ''{}''))),
      bo_utf8 = (\<lambda>_. True), bo_lossy = (\<lambda>p. p)\<rparr>"

definition sample_bundle_ops :: "(string \<Rightarrow> string) \<Rightarrow> bundle_ops" where
  "sample_bundle_ops hash = ops_for hash (sample_bundle ''x'' (hash ''x''))"

lemma ops_for_round_trip: "library_round_trip (ops_for hash b) b"
  by (simp add: library_round_trip_def ops_for_def list_all_iff)

lemma ops_for_tar: "bo_zstd_decode (ops_for hash b) z = Inr (tar, None) \<Longrightarrow> length tar = 3"
  by (auto simp: ops_for_def)

lemma ops_for_safe:
  "safe_id (ops_for hash b) ''formats/ubl.xml''" "safe_id (ops_for hash b) ''signatures/manifest.dsse''"
  unfolding validate_artefact_id_iff [symmetric]
  by (simp_all add: validate_artefact_id_def artefact_id_from_path_def path_parts_def ops_for_def)

theorem manifest_binds_artefacts_witness:
  "\<exists>x y. x \<noteq> y \<and> length x = length y
     \<and> bo_blake3_hex (sample_bundle_ops blind_hash) x = bo_blake3_hex (sample_bundle_ops blind_hash) y"
proof (rule manifest_binds_artefacts [of "sample_bundle ''x'' ''h''" "sample_bundle ''y'' ''h''" _ "''formats/ubl.xml''"])
  show "ev_verify (sample_bundle_ops blind_hash) (sample_bundle ''x'' ''h'') = Inr ()" by code_simp
  show "ev_verify (sample_bundle_ops blind_hash) (sample_bundle ''y'' ''h'') = Inr ()" by code_simp
qed (simp_all add: sample_bundle_def sample_artefact_def btree_ok_def)

lemma sample_packs:
  "packable (sample_bundle_ops hash) (sample_bundle ''x'' (hash ''x''))"
proof -
  let ?ops = "sample_bundle_ops hash" and ?b = "sample_bundle ''x'' (hash ''x'')"
  have "btree_ok (evb_artefacts ?b)" by (simp add: sample_bundle_def sample_artefact_def btree_ok_def)
  moreover from this have "ev_verify ?ops ?b = Inr ()"
    by (simp add: ev_verify_iff sample_bundle_def sample_artefact_def listed_def manifest_artefact_id_def
        entry_matches_def sample_bundle_ops_def ops_for_def)
  ultimately show ?thesis
    using ops_for_safe(1) [of hash ?b]
    by (simp add: packable_def sample_bundle_ops_def) (simp add: sample_bundle_def sample_artefact_def)
qed

theorem pack_unpack_roundtrip_witness:
  "\<exists>z. ev_pack (sample_bundle_ops plain_hash) (sample_bundle ''x'' ''x'') = Inr z
     \<and> ev_unpack (sample_bundle_ops plain_hash) z = Inr (sample_bundle ''x'' ''x'')"
  using pack_unpack_roundtrip [OF _ sample_packs, of plain_hash] ops_for_round_trip
  by (fastforce simp: plain_hash_def sample_bundle_ops_def dest: ops_for_tar)

end
