(* ===== verification/Archive.thy ===== *)
theory Archive
  imports Evidence "HOL-Library.Product_Lexorder"
begin

text \<open>
  \<open>crates/archive/src/lib.rs\<close>: the archive trait with the contract of its backends, the map of the tests
  and the two object-lock services; the directory of files is in \<open>Archive_Files\<close>.
\<close>

section \<open>Errors, identifiers, retention\<close>

type_synonym archive_id = string

datatype archive_error =
    ArPack bundle_error
  | ArIo string
  | ArNotFound string
  | ArDrift string
  | ArInvalidId string

fun bundle_error_text :: "bundle_error \<Rightarrow> string" where
  "bundle_error_text (UnsupportedSchema v) = ''bundle schema version '' @ v @ '' unsupported by this build''"
| "bundle_error_text (InvalidArtefactPath p) = ''bundle artefact path is invalid: '' @ p"
| "bundle_error_text (UnsupportedTarEntry aid t) = ''bundle artefact '' @ aid @ '' has unsupported tar entry type '' @ t"
| "bundle_error_text (HashDrift aid m obs) = ''bundle artefact '' @ aid @ '' hash drift: manifest='' @ m @ '', observed='' @ obs"
| "bundle_error_text (MissingArtefact aid) = ''bundle artefact '' @ aid @ '' listed in manifest but missing from container''"
| "bundle_error_text (UnknownArtefact aid) = ''bundle artefact '' @ aid @ '' present but not listed in manifest''"
| "bundle_error_text MissingManifest = ''bundle missing manifest artefact''"
| "bundle_error_text (BadManifestJson e) = ''bundle manifest JSON parse failure: '' @ e"
| "bundle_error_text (BundleIo e) = ''bundle io error: '' @ e"
| "bundle_error_text (DecompressionTooLarge limit) = ''bundle decompressed size exceeds the '' @ show_nat limit
     @ ''-byte cap; refusing to buffer a possible decompression bomb''"

datatype retention_mode = RetGovernance | RetCompliance

fun as_cloud_value :: "retention_mode \<Rightarrow> string" where
  "as_cloud_value RetGovernance = ''GOVERNANCE''"
| "as_cloud_value RetCompliance = ''COMPLIANCE''"

record retention_policy =
  ret_mode :: retention_mode
  ret_until :: string
  ret_legal_hold :: bool

definition ret_compliance :: "string \<Rightarrow> retention_policy" where
  "ret_compliance t = \<lparr>ret_mode = RetCompliance, ret_until = t, ret_legal_hold = False\<rparr>"

definition ret_governance :: "string \<Rightarrow> retention_policy" where
  "ret_governance t = \<lparr>ret_mode = RetGovernance, ret_until = t, ret_legal_hold = False\<rparr>"

definition with_legal_hold :: "retention_policy \<Rightarrow> retention_policy" where
  "with_legal_hold p = p\<lparr>ret_legal_hold := True\<rparr>"

definition unpack_stored :: "bundle_ops \<Rightarrow> string \<Rightarrow> archive_error + evidence_bundle" where
  "unpack_stored ops bytes =
     (case ev_unpack ops bytes of Inl err \<Rightarrow> Inl (ArDrift (bundle_error_text err)) | Inr b \<Rightarrow> Inr b)"

section \<open>The contract of an archive\<close>

text \<open>
  A backend keeps a state; \<open>good\<close> is its invariant, \<open>address\<close> the place an identifier names, and \<open>recovers b\<close>
  says that the portable form of the bundle unpacks.  A call of \<open>store\<close> that fails leaves every bundle of the archive as it was.
\<close>

definition stored_at :: "(archive_id \<Rightarrow> 'k) \<Rightarrow> 'e + archive_id \<Rightarrow> archive_id \<Rightarrow> bool" where
  "stored_at address r aid \<longleftrightarrow> (case r of Inl _ \<Rightarrow> False | Inr other \<Rightarrow> address other = address aid)"

locale archive_backend =
  fixes store :: "'s \<Rightarrow> 'b \<Rightarrow> ('e + archive_id) \<times> 's"
    and fetch :: "'s \<Rightarrow> archive_id \<Rightarrow> 'e + 'b"
    and has :: "'s \<Rightarrow> archive_id \<Rightarrow> bool"
    and address :: "archive_id \<Rightarrow> 'k"
    and good :: "'s \<Rightarrow> bool"
    and recovers :: "'b \<Rightarrow> bool"
  assumes store_good: "good s \<Longrightarrow> store s b = (r, s') \<Longrightarrow> good s'"
    and store_fetch: "good s \<Longrightarrow> store s b = (Inr aid, s') \<Longrightarrow> recovers b \<Longrightarrow> fetch s' aid = Inr b"
    and store_other: "good s \<Longrightarrow> store s b = (r, s') \<Longrightarrow> \<not> stored_at address r aid \<Longrightarrow> fetch s' aid = fetch s aid"
    and fetch_has: "fetch s aid = Inr b \<Longrightarrow> has s aid"
begin

fun store_all :: "'s \<Rightarrow> 'b list \<Rightarrow> ('e + archive_id) list \<times> 's" where
  "store_all s [] = ([], s)"
| "store_all s (b # bs) =
     (let (r, s1) = store s b; (rs, s2) = store_all s1 bs in (r # rs, s2))"

lemma store_all_length: "length (fst (store_all s bs)) = length bs"
  by (induction bs arbitrary: s) (simp_all add: split_def Let_def)

lemma store_all_other:
  "good s \<Longrightarrow> list_all (\<lambda>r. \<not> stored_at address r aid) (fst (store_all s bs)) \<Longrightarrow>
     fetch (snd (store_all s bs)) aid = fetch s aid"
proof (induction bs arbitrary: s)
  case (Cons b bs)
  obtain r s1 where s1: "store s b = (r, s1)" by fastforce
  from Cons.prems(2) have "\<not> stored_at address r aid" "list_all (\<lambda>r. \<not> stored_at address r aid) (fst (store_all s1 bs))"
    by (simp_all add: s1 split_def Let_def)
  with Cons.IH [OF store_good [OF Cons.prems(1) s1]] store_other [OF Cons.prems(1) s1] show ?case
    by (simp add: s1 split_def Let_def)
qed simp

lemma store_all_fetch:
  assumes "good s" "i < length bs" "fst (store_all s bs) ! i = Inr aid" "recovers (bs ! i)"
    "list_all (\<lambda>r. \<not> stored_at address r aid) (drop (Suc i) (fst (store_all s bs)))"
  shows "fetch (snd (store_all s bs)) aid = Inr (bs ! i) \<and> has (snd (store_all s bs)) aid"
proof -
  have "fetch (snd (store_all s bs)) aid = Inr (bs ! i)"
    using assms
  proof (induction bs arbitrary: s i)
    case (Cons b bs)
    obtain r s1 where s1: "store s b = (r, s1)" by fastforce
    note good = store_good [OF Cons.prems(1) s1]
    show ?case
    proof (cases i)
      case 0
      with Cons.prems have "store s b = (Inr aid, s1)" "list_all (\<lambda>r. \<not> stored_at address r aid) (fst (store_all s1 bs))"
        by (simp_all add: s1 split_def Let_def)
      with store_fetch [OF Cons.prems(1) this(1)] store_all_other [OF good] Cons.prems(4) 0 show ?thesis
        by (simp add: s1 split_def Let_def)
    next
      case (Suc j)
      with Cons.prems Cons.IH [OF good, of j] show ?thesis by (simp add: s1 split_def Let_def)
    qed
  qed simp
  then show ?thesis using fetch_has by blast
qed

end

section \<open>The archive of the tests\<close>

definition mock_store :: "bundle_ops \<Rightarrow> (archive_id, string) btree \<Rightarrow> evidence_bundle
    \<Rightarrow> (archive_error + archive_id) \<times> (archive_id, string) btree" where
  "mock_store ops st b =
     (case ev_pack ops b of
        Inl e \<Rightarrow> (Inl (ArPack e), st)
      | Inr bytes \<Rightarrow> (Inr (bo_blake3_hex ops bytes), btree_insert (bo_blake3_hex ops bytes) bytes st))"

definition mock_retrieve :: "bundle_ops \<Rightarrow> (archive_id, string) btree \<Rightarrow> archive_id \<Rightarrow> archive_error + evidence_bundle" where
  "mock_retrieve ops st aid =
     (case map_of st aid of None \<Rightarrow> Inl (ArNotFound aid) | Some bytes \<Rightarrow> unpack_stored ops bytes)"

definition mock_exists :: "(archive_id, string) btree \<Rightarrow> archive_id \<Rightarrow> bool" where
  "mock_exists st aid \<longleftrightarrow> map_of st aid \<noteq> None"

text \<open>The bundles whose portable form unpacks to themselves.\<close>

definition recovers :: "bundle_ops \<Rightarrow> evidence_bundle \<Rightarrow> bool" where
  "recovers ops b \<longleftrightarrow> (case ev_pack ops b of Inl _ \<Rightarrow> True | Inr bytes \<Rightarrow> ev_unpack ops bytes = Inr b)"

lemma recovers_unpack: "recovers ops b \<Longrightarrow> ev_pack ops b = Inr bytes \<Longrightarrow> unpack_stored ops bytes = Inr b"
  by (simp add: recovers_def unpack_stored_def)

interpretation mock: archive_backend "mock_store ops" "mock_retrieve ops" mock_exists "\<lambda>aid. aid" btree_ok "recovers ops"
  for ops
proof
  fix s s' :: "(archive_id, string) btree" and b r aid
  assume "btree_ok s" "mock_store ops s b = (r, s')"
  then show "btree_ok s'" by (auto simp: mock_store_def split: sum.splits)
  show "mock_retrieve ops s' aid = mock_retrieve ops s aid" if "\<not> stored_at (\<lambda>aid. aid) r aid"
    using that \<open>btree_ok s\<close> \<open>mock_store ops s b = (r, s')\<close>
    by (auto simp: mock_store_def mock_retrieve_def stored_at_def split: sum.splits if_splits)
next
  fix s s' :: "(archive_id, string) btree" and b aid
  assume "btree_ok s" "mock_store ops s b = (Inr aid, s')" "recovers ops b"
  then show "mock_retrieve ops s' aid = Inr b"
    by (auto simp: mock_store_def mock_retrieve_def recovers_unpack split: sum.splits)
next
  fix s :: "(archive_id, string) btree" and b aid
  assume "mock_retrieve ops s aid = Inr b"
  then show "mock_exists s aid" by (auto simp: mock_retrieve_def mock_exists_def split: option.splits)
qed

section \<open>Object-lock archives\<close>

datatype object_lock_backend = S3ObjectLock | AzureWorm

record object_lock_put =
  olp_backend :: object_lock_backend
  olp_namespace :: string
  olp_key :: string
  olp_body :: string
  olp_content_hash :: string
  olp_retention :: retention_policy

record object_lock_receipt =
  olr_version_id :: "string option"

text \<open>An adapter of the object store: \<open>put\<close>, \<open>get\<close> and \<open>exists\<close> over a state of its own.\<close>

record 's object_store =
  os_put :: "'s \<Rightarrow> object_lock_put \<Rightarrow> (archive_error + object_lock_receipt) \<times> 's"
  os_get :: "'s \<Rightarrow> string \<Rightarrow> string \<Rightarrow> archive_error + string"
  os_exists :: "'s \<Rightarrow> string \<Rightarrow> string \<Rightarrow> bool"

record object_lock_archive =
  ola_namespace :: string
  ola_prefix :: string
  ola_retention :: retention_policy

definition normalize_prefix :: "string \<Rightarrow> string" where
  "normalize_prefix pre =
     rev (dropWhile (\<lambda>c. c = CHR ''/'') (rev (dropWhile (\<lambda>c. c = CHR ''/'') pre)))"

definition object_key :: "string \<Rightarrow> string \<Rightarrow> string" where
  "object_key pre hash = (if pre = [] then hash @ ''.ikb'' else pre @ ''/'' @ hash @ ''.ikb'')"

definition scheme_archive_id :: "string \<Rightarrow> string \<Rightarrow> string \<Rightarrow> string option \<Rightarrow> archive_id" where
  "scheme_archive_id scheme namespace object version =
     (case version of
        None \<Rightarrow> scheme @ ''://'' @ namespace @ ''/'' @ object
      | Some v \<Rightarrow> scheme @ ''://'' @ namespace @ ''/'' @ object @ ''#versionId='' @ v)"

text \<open>\<open>str::split_once\<close> with a string as the separator.\<close>

fun split_once_str :: "string \<Rightarrow> string \<Rightarrow> (string \<times> string) option" where
  "split_once_str sep s =
     (case strip_prefix sep s of
        Some r \<Rightarrow> Some ([], r)
      | None \<Rightarrow> (case s of [] \<Rightarrow> None
                | c # r \<Rightarrow> map_option (\<lambda>(a, b). (c # a, b)) (split_once_str sep r)))"

declare split_once_str.simps [simp del]

definition object_from_scheme_id :: "string \<Rightarrow> string \<Rightarrow> archive_id \<Rightarrow> archive_error + string" where
  "object_from_scheme_id scheme namespace aid =
     (case strip_prefix (scheme @ ''://'' @ namespace @ ''/'') aid of
        None \<Rightarrow> Inl (ArInvalidId aid)
      | Some rest \<Rightarrow>
          let object = (case split_once_str ''#versionId='' rest of None \<Rightarrow> rest | Some (a, _) \<Rightarrow> a)
          in if object = [] then Inl (ArInvalidId aid) else Inr object)"

definition put_locked_bundle :: "bundle_ops \<Rightarrow> 's object_store \<Rightarrow> string \<Rightarrow> object_lock_backend \<Rightarrow> string \<Rightarrow> string
    \<Rightarrow> retention_policy \<Rightarrow> 's \<Rightarrow> evidence_bundle \<Rightarrow> (archive_error + archive_id) \<times> 's" where
  "put_locked_bundle ops store scheme backend namespace pre retention s b =
     (case ev_pack ops b of
        Inl e \<Rightarrow> (Inl (ArPack e), s)
      | Inr bytes \<Rightarrow>
          let hash = bo_blake3_hex ops bytes; object = object_key pre hash
          in (case os_put store s \<lparr>olp_backend = backend, olp_namespace = namespace, olp_key = object,
                    olp_body = bytes, olp_content_hash = hash, olp_retention = retention\<rparr> of
                (Inl e, s') \<Rightarrow> (Inl e, s')
              | (Inr receipt, s') \<Rightarrow> (Inr (scheme_archive_id scheme namespace object (olr_version_id receipt)), s')))"

definition get_locked_bundle :: "bundle_ops \<Rightarrow> 's object_store \<Rightarrow> string \<Rightarrow> string \<Rightarrow> 's \<Rightarrow> archive_id
    \<Rightarrow> archive_error + evidence_bundle" where
  "get_locked_bundle ops store scheme namespace s aid =
     rbind (object_from_scheme_id scheme namespace aid) (\<lambda>object.
     rbind (os_get store s namespace object) (unpack_stored ops))"

definition locked_bundle_exists :: "'s object_store \<Rightarrow> string \<Rightarrow> string \<Rightarrow> 's \<Rightarrow> archive_id \<Rightarrow> bool" where
  "locked_bundle_exists store scheme namespace s aid =
     (case object_from_scheme_id scheme namespace aid of
        Inl _ \<Rightarrow> False | Inr object \<Rightarrow> os_exists store s namespace object)"

definition object_lock_new :: "string \<Rightarrow> string \<Rightarrow> retention_policy \<Rightarrow> object_lock_archive" where
  "object_lock_new namespace key_prefix retention =
     \<lparr>ola_namespace = namespace, ola_prefix = normalize_prefix key_prefix, ola_retention = retention\<rparr>"

definition s3_store :: "bundle_ops \<Rightarrow> 's object_store \<Rightarrow> object_lock_archive \<Rightarrow> 's \<Rightarrow> evidence_bundle
    \<Rightarrow> (archive_error + archive_id) \<times> 's" where
  "s3_store ops store a =
     put_locked_bundle ops store ''s3'' S3ObjectLock (ola_namespace a) (ola_prefix a) (ola_retention a)"

definition s3_retrieve :: "bundle_ops \<Rightarrow> 's object_store \<Rightarrow> object_lock_archive \<Rightarrow> 's \<Rightarrow> archive_id
    \<Rightarrow> archive_error + evidence_bundle" where
  "s3_retrieve ops store a = get_locked_bundle ops store ''s3'' (ola_namespace a)"

definition s3_exists :: "'s object_store \<Rightarrow> object_lock_archive \<Rightarrow> 's \<Rightarrow> archive_id \<Rightarrow> bool" where
  "s3_exists store a = locked_bundle_exists store ''s3'' (ola_namespace a)"

definition azure_store :: "bundle_ops \<Rightarrow> 's object_store \<Rightarrow> object_lock_archive \<Rightarrow> 's \<Rightarrow> evidence_bundle
    \<Rightarrow> (archive_error + archive_id) \<times> 's" where
  "azure_store ops store a =
     put_locked_bundle ops store ''azure'' AzureWorm (ola_namespace a) (ola_prefix a) (ola_retention a)"

definition azure_retrieve :: "bundle_ops \<Rightarrow> 's object_store \<Rightarrow> object_lock_archive \<Rightarrow> 's \<Rightarrow> archive_id
    \<Rightarrow> archive_error + evidence_bundle" where
  "azure_retrieve ops store a = get_locked_bundle ops store ''azure'' (ola_namespace a)"

definition azure_exists :: "'s object_store \<Rightarrow> object_lock_archive \<Rightarrow> 's \<Rightarrow> archive_id \<Rightarrow> bool" where
  "azure_exists store a = locked_bundle_exists store ''azure'' (ola_namespace a)"

text \<open>The archive of one of the two services, by its scheme.\<close>

lemmas object_lock_archives = s3_store_def s3_retrieve_def s3_exists_def azure_store_def azure_retrieve_def azure_exists_def

definition version_marker :: string where
  "version_marker = ''#versionId=''"

lemma strip_own_prefix: "strip_prefix p (p @ r) = Some r"
  by (simp add: strip_prefix_def)

lemma strip_prefix_None_append: "strip_prefix p (a @ r) = None \<Longrightarrow> strip_prefix p a = None"
  by (cases "length p \<le> length a") (auto simp: strip_prefix_def split: if_splits)

lemma split_once_str_first:
  "sep \<noteq> [] \<Longrightarrow> split_once_str sep s = Some (a, b) \<Longrightarrow> s = a @ sep @ b \<and> split_once_str sep a = None"
proof (induction s arbitrary: a)
  case Nil
  then show ?case by (auto simp: split_once_str.simps [of sep "[]"] strip_prefix_def split: if_splits)
next
  case (Cons c s)
  show ?case
  proof (cases "strip_prefix sep (c # s)")
    case (Some r)
    then have "split_once_str sep (c # s) = Some ([], r)" "c # s = sep @ r"
      by (subst split_once_str.simps, auto simp: strip_prefix_def split: if_splits) (metis append_take_drop_id)
    moreover have "split_once_str sep [] = None"
      using Cons.prems(1) by (simp add: split_once_str.simps strip_prefix_def)
    ultimately show ?thesis using Cons.prems(2) by simp
  next
    case None
    then have "split_once_str sep (c # s) = map_option (\<lambda>(a, b). (c # a, b)) (split_once_str sep s)"
      by (subst split_once_str.simps) simp
    with Cons.prems(2) obtain a' where a': "a = c # a'" "split_once_str sep s = Some (a', b)" by auto
    with Cons.IH [OF Cons.prems(1)] have s: "s = a' @ sep @ b" "split_once_str sep a' = None" by blast+
    with None have "strip_prefix sep (c # a') = None"
      using strip_prefix_None_append [of sep "c # a'" "sep @ b"] by simp
    with s a' show ?thesis by (subst split_once_str.simps) simp
  qed
qed

lemma split_once_marker: "split_once_str version_marker a = None \<Longrightarrow> split_once_str version_marker (a @ version_marker @ b) = Some (a, b)"
proof (induction a)
  case Nil
  then show ?case by (simp add: split_once_str.simps strip_own_prefix)
next
  case (Cons c a)
  have none: "strip_prefix version_marker (c # a) = None" "split_once_str version_marker a = None"
    using Cons.prems by (subst (asm) split_once_str.simps, simp split: option.splits)+
  have "strip_prefix version_marker (c # a @ version_marker @ b) = None"
  proof (rule ccontr)
    assume "\<not> ?thesis"
    then have head: "c = CHR ''#''" "take 10 (a @ version_marker @ b) = ''versionId=''"
      by (auto simp: strip_prefix_def version_marker_def eval_nat_numeral split: if_splits)
    show False
    proof (cases "length a < 10")
      case True
      then have "CHR ''#'' \<in> set (take 10 (a @ version_marker @ b))"
        by (cases "10 - length a") (simp_all add: version_marker_def)
      then show False unfolding head(2) by simp
    next
      case False
      with head none(1) show False by (simp add: strip_prefix_def version_marker_def eval_nat_numeral)
    qed
  qed
  with Cons.IH [OF none(2)] show ?case by (subst split_once_str.simps) simp
qed

text \<open>The identifier of an object names it, unless its key contains the version marker.\<close>

lemma object_from_scheme_archive_id:
  assumes "split_once_str version_marker object = None" "object \<noteq> []"
  shows "object_from_scheme_id scheme namespace (scheme_archive_id scheme namespace object version) = Inr object"
  using assms split_once_marker [OF assms(1)]
    strip_own_prefix [of "scheme @ ''://'' @ namespace @ ''/''"]
  by (cases version) (simp_all add: object_from_scheme_id_def scheme_archive_id_def version_marker_def)

lemma parsed_object_plain:
  "object_from_scheme_id scheme namespace aid = Inr object \<Longrightarrow> split_once_str version_marker object = None"
  by (auto simp: object_from_scheme_id_def version_marker_def Let_def dest!: split_once_str_first [rotated] split: option.splits if_splits)

text \<open>What a retention-capable object store promises.\<close>

locale object_lock_laws =
  fixes store :: "'s object_store"
  assumes put_get: "os_put store s req = (Inr receipt, s') \<Longrightarrow>
      os_get store s' (olp_namespace req) (olp_key req) = Inr (olp_body req)"
    and put_other: "os_put store s req = (Inr receipt, s') \<Longrightarrow>
      namespace \<noteq> olp_namespace req \<or> key \<noteq> olp_key req \<Longrightarrow>
      os_get store s' namespace key = os_get store s namespace key"
    and put_failed: "os_put store s req = (Inl e, s') \<Longrightarrow> os_get store s' namespace key = os_get store s namespace key"
    and get_exists: "os_get store s namespace key = Inr body \<Longrightarrow> os_exists store s namespace key"

text \<open>The key of an object is an address as long as it does not contain the version marker.\<close>

definition plain_key :: "bundle_ops \<Rightarrow> string \<Rightarrow> evidence_bundle \<Rightarrow> bool" where
  "plain_key ops pre b \<longleftrightarrow> (case ev_pack ops b of Inl _ \<Rightarrow> True
     | Inr bytes \<Rightarrow> split_once_str version_marker (object_key pre (bo_blake3_hex ops bytes)) = None)"

lemma put_locked_bundle_cases:
  assumes "put_locked_bundle ops store scheme backend namespace pre retention s b = (r, s')"
  obtains (pack) e where "ev_pack ops b = Inl e" "r = Inl (ArPack e)" "s' = s"
  | (put) bytes res where "ev_pack ops b = Inr bytes"
      "os_put store s \<lparr>olp_backend = backend, olp_namespace = namespace, olp_key = object_key pre (bo_blake3_hex ops bytes),
         olp_body = bytes, olp_content_hash = bo_blake3_hex ops bytes, olp_retention = retention\<rparr> = (res, s')"
      "r = map_sum id (\<lambda>receipt. scheme_archive_id scheme namespace (object_key pre (bo_blake3_hex ops bytes))
         (olr_version_id receipt)) res"
  using assms by (auto simp: put_locked_bundle_def Let_def split: sum.splits prod.splits)

sublocale object_lock_laws \<subseteq> locked: archive_backend "put_locked_bundle ops store scheme backend namespace pre retention"
    "get_locked_bundle ops store scheme namespace" "locked_bundle_exists store scheme namespace"
    "object_from_scheme_id scheme namespace" "\<lambda>s. True" "\<lambda>b. recovers ops b \<and> plain_key ops pre b"
  for ops scheme backend namespace pre retention
proof
  fix s b aid s'
  assume st: "put_locked_bundle ops store scheme backend namespace pre retention s b = (Inr aid, s')"
    "recovers ops b \<and> plain_key ops pre b"
  from st(1) show "get_locked_bundle ops store scheme namespace s' aid = Inr b"
  proof (cases rule: put_locked_bundle_cases)
    case (put bytes res)
    then obtain receipt where res: "res = Inr receipt"
      "aid = scheme_archive_id scheme namespace (object_key pre (bo_blake3_hex ops bytes)) (olr_version_id receipt)"
      by (cases res) auto
    have "object_from_scheme_id scheme namespace aid = Inr (object_key pre (bo_blake3_hex ops bytes))"
      unfolding res(2) using st(2) put(1)
      by (intro object_from_scheme_archive_id) (auto simp: object_key_def plain_key_def)
    with put_get [OF put(2) [unfolded res(1)]] st(2) put(1) show ?thesis
      by (simp add: get_locked_bundle_def recovers_unpack)
  qed simp
next
  fix s b r s' aid
  assume st: "put_locked_bundle ops store scheme backend namespace pre retention s b = (r, s')"
    "\<not> stored_at (object_from_scheme_id scheme namespace) r aid"
  from st(1) show "get_locked_bundle ops store scheme namespace s' aid = get_locked_bundle ops store scheme namespace s aid"
  proof (cases rule: put_locked_bundle_cases)
    case (put bytes res)
    have "os_get store s' namespace object = os_get store s namespace object"
      if object: "object_from_scheme_id scheme namespace aid = Inr object" for object
    proof (cases res)
      case (Inl e)
      with put_failed put(2) show ?thesis by blast
    next
      case (Inr receipt)
      let ?key = "object_key pre (bo_blake3_hex ops bytes)"
      have "object \<noteq> ?key"
      proof
        assume "object = ?key"
        with parsed_object_plain [OF object] have "object_from_scheme_id scheme namespace
            (scheme_archive_id scheme namespace ?key (olr_version_id receipt)) = Inr ?key"
          by (intro object_from_scheme_archive_id) (auto simp: object_key_def)
        with put(3) Inr object \<open>object = ?key\<close> st(2) show False by (simp add: stored_at_def)
      qed
      with put_other [OF put(2) [unfolded Inr], of namespace object] show ?thesis by simp
    qed
    then show ?thesis
      by (cases "object_from_scheme_id scheme namespace aid") (simp_all add: get_locked_bundle_def)
  qed simp
next
  fix s aid b
  assume "get_locked_bundle ops store scheme namespace s aid = Inr b"
  then show "locked_bundle_exists store scheme namespace s aid"
    by (auto simp: get_locked_bundle_def locked_bundle_exists_def rbind_Inr_iff dest: get_exists)
qed simp

text \<open>The object store of the tests.\<close>

record locked_object =
  lo_backend :: object_lock_backend
  lo_body :: string
  lo_content_hash :: string
  lo_retention :: retention_policy
  lo_version_id :: string

type_synonym object_map = "(string \<times> string, locked_object) btree"

definition memory_put :: "object_map \<Rightarrow> object_lock_put \<Rightarrow> (archive_error + object_lock_receipt) \<times> object_map" where
  "memory_put objects req =
     (let version = ''v'' @ show_nat (length objects + 1)
      in (Inr \<lparr>olr_version_id = Some version\<rparr>,
          btree_insert (olp_namespace req, olp_key req)
            \<lparr>lo_backend = olp_backend req, lo_body = olp_body req, lo_content_hash = olp_content_hash req,
             lo_retention = olp_retention req, lo_version_id = version\<rparr> objects))"

definition memory_get :: "object_map \<Rightarrow> string \<Rightarrow> string \<Rightarrow> archive_error + string" where
  "memory_get objects namespace key =
     (case map_of objects (namespace, key) of
        None \<Rightarrow> Inl (ArNotFound (namespace @ ''/'' @ key))
      | Some object \<Rightarrow> Inr (lo_body object))"

definition memory_exists :: "object_map \<Rightarrow> string \<Rightarrow> string \<Rightarrow> bool" where
  "memory_exists objects namespace key \<longleftrightarrow> map_of objects (namespace, key) \<noteq> None"

definition memory_store :: "object_map object_store" where
  "memory_store = \<lparr>os_put = memory_put, os_get = memory_get, os_exists = memory_exists\<rparr>"

text \<open>The entry of a key is found again even if the list were not in order.\<close>

lemma map_of_insert: "map_of (btree_insert k v m) k = Some v"
  by (induction k v m rule: btree_insert.induct) auto

lemma map_of_insert_other: "j \<noteq> k \<Longrightarrow> map_of (btree_insert k v m) j = map_of m j"
  by (induction k v m rule: btree_insert.induct) auto

interpretation memory: object_lock_laws memory_store
  by unfold_locales
    (auto simp: memory_store_def memory_put_def memory_get_def memory_exists_def Let_def map_of_insert map_of_insert_other
      split: option.splits)

end
