(* ===== verification/Archive_Files.thy ===== *)
theory Archive_Files
  imports Archive
begin

text \<open>
  \<open>crates/archive/src/lib.rs\<close>, \<open>LocalFsArchive\<close>: a directory of files, each written to a temporary file
  and renamed into place.  The file system is modelled with names and inodes, so that an open handle
  outlives a renaming; every call can fail, and the calls of several writers may interleave.  What a power
  failure does to data that was not synchronised is not modelled.
\<close>

section \<open>The archive of files\<close>

type_synonym fs_path = "string list"

text \<open>Names lead to inodes; an inode is an index into the contents.\<close>

record file_system =
  fs_dirs :: "fs_path set"
  fs_names :: "fs_path \<Rightarrow> nat option"
  fs_inodes :: "string list"

text \<open>A call succeeds, or fails with an error, a write after some of its bytes.\<close>

datatype fs_outcome = FsDone | FsError string nat

definition enoent :: string where
  "enoent = ''No such file or directory (os error 2)''"

definition fs_create_dir_all :: "fs_path \<Rightarrow> file_system \<Rightarrow> file_system" where
  "fs_create_dir_all p fs = fs\<lparr>fs_dirs := fs_dirs fs \<union> set (map (\<lambda>n. take n p) [0 ..< Suc (length p)])\<rparr>"

definition fs_create :: "fs_path \<Rightarrow> file_system \<Rightarrow> (string + nat) \<times> file_system" where
  "fs_create p fs =
     (if butlast p \<notin> fs_dirs fs then (Inl enoent, fs)
      else case fs_names fs p of
        Some h \<Rightarrow> (Inr h, fs\<lparr>fs_inodes := (fs_inodes fs)[h := []]\<rparr>)
      | None \<Rightarrow> (Inr (length (fs_inodes fs)),
          fs\<lparr>fs_names := (fs_names fs)(p \<mapsto> length (fs_inodes fs)), fs_inodes := fs_inodes fs @ [[]]\<rparr>))"

text \<open>A write at the start of the file of a handle.\<close>

definition fs_write :: "nat \<Rightarrow> string \<Rightarrow> file_system \<Rightarrow> file_system" where
  "fs_write h bytes fs =
     fs\<lparr>fs_inodes := (fs_inodes fs)[h := bytes @ drop (length bytes) (fs_inodes fs ! h)]\<rparr>"

definition fs_rename :: "fs_path \<Rightarrow> fs_path \<Rightarrow> file_system \<Rightarrow> (string + unit) \<times> file_system" where
  "fs_rename from to fs =
     (case fs_names fs from of
        None \<Rightarrow> (Inl enoent, fs)
      | Some h \<Rightarrow> (Inr (), fs\<lparr>fs_names := ((fs_names fs)(from := None))(to \<mapsto> h)\<rparr>))"

definition fs_read :: "file_system \<Rightarrow> fs_path \<Rightarrow> string option" where
  "fs_read fs p = map_option (\<lambda>h. fs_inodes fs ! h) (fs_names fs p)"

text \<open>\<open>store\<close> is five calls; between two of them other writers may run.\<close>

datatype writer_pc = AtDirs | AtCreate | AtWrite nat | AtSync nat | AtRename | Stored | WriteFailed string

record writer =
  wr_path :: fs_path
  wr_bytes :: string
  wr_pc :: writer_pc

definition temp_path :: "fs_path \<Rightarrow> fs_path" where
  "temp_path p = butlast p @ [last p @ ''.tmp'']"

definition writer_step :: "fs_outcome \<Rightarrow> writer \<Rightarrow> file_system \<Rightarrow> writer \<times> file_system" where
  "writer_step outcome w fs =
     (let goto = (\<lambda>pc. w\<lparr>wr_pc := pc\<rparr>); tmp = temp_path (wr_path w)
      in case outcome of
        FsError e n \<Rightarrow>
          (case wr_pc w of
             Stored \<Rightarrow> (w, fs)
           | WriteFailed _ \<Rightarrow> (w, fs)
           | AtWrite h \<Rightarrow> (goto (WriteFailed e), fs_write h (take n (wr_bytes w)) fs)
           | _ \<Rightarrow> (goto (WriteFailed e), fs))
      | FsDone \<Rightarrow>
          (case wr_pc w of
             AtDirs \<Rightarrow> (goto AtCreate, fs_create_dir_all (butlast (wr_path w)) fs)
           | AtCreate \<Rightarrow> (case fs_create tmp fs of
                 (Inl e, fs') \<Rightarrow> (goto (WriteFailed e), fs') | (Inr h, fs') \<Rightarrow> (goto (AtWrite h), fs'))
           | AtWrite h \<Rightarrow> (goto (AtSync h), fs_write h (wr_bytes w) fs)
           | AtSync h \<Rightarrow> (goto AtRename, fs)
           | AtRename \<Rightarrow> (case fs_rename tmp (wr_path w) fs of
                 (Inl e, fs') \<Rightarrow> (goto (WriteFailed e), fs') | (Inr _, fs') \<Rightarrow> (goto Stored, fs'))
           | _ \<Rightarrow> (w, fs)))"

text \<open>A writer alone, with the outcomes of its calls; what is not listed succeeds.\<close>

fun writer_rank :: "writer_pc \<Rightarrow> nat" where
  "writer_rank AtDirs = 5"
| "writer_rank AtCreate = 4"
| "writer_rank (AtWrite _) = 3"
| "writer_rank (AtSync _) = 2"
| "writer_rank AtRename = 1"
| "writer_rank _ = 0"

definition next_outcome :: "fs_outcome list \<Rightarrow> fs_outcome" where
  "next_outcome os = (case os of [] \<Rightarrow> FsDone | f # _ \<Rightarrow> f)"

lemma writer_step_rank:
  "wr_pc w = AtDirs \<Longrightarrow> writer_rank (wr_pc (fst (writer_step f w fs))) < 5"
  "wr_pc w = AtCreate \<Longrightarrow> writer_rank (wr_pc (fst (writer_step f w fs))) < 4"
  "wr_pc w = AtWrite h \<Longrightarrow> writer_rank (wr_pc (fst (writer_step f w fs))) < 3"
  "wr_pc w = AtSync h \<Longrightarrow> writer_rank (wr_pc (fst (writer_step f w fs))) < 2"
  "wr_pc w = AtRename \<Longrightarrow> writer_rank (wr_pc (fst (writer_step f w fs))) = 0"
  by (cases f; simp add: writer_step_def Let_def split: prod.splits sum.splits)+

function run_writer :: "fs_outcome list \<Rightarrow> writer \<Rightarrow> file_system \<Rightarrow> (archive_error + unit) \<times> file_system" where
  "run_writer os w fs =
     (case wr_pc w of
        Stored \<Rightarrow> (Inr (), fs)
      | WriteFailed e \<Rightarrow> (Inl (ArIo e), fs)
      | _ \<Rightarrow> run_writer (tl os) (fst (writer_step (next_outcome os) w fs)) (snd (writer_step (next_outcome os) w fs)))"
  by auto
termination
  by (relation "measure (\<lambda>(os, w, fs). writer_rank (wr_pc w))") (simp_all add: split_def writer_step_rank)

declare run_writer.simps [simp del]

text \<open>One call of a writer alone.\<close>

lemma run_writer_at:
  "run_writer os \<lparr>wr_path = p, wr_bytes = b, wr_pc = pc\<rparr> fs =
     (case pc of
        Stored \<Rightarrow> (Inr (), fs)
      | WriteFailed e \<Rightarrow> (Inl (ArIo e), fs)
      | _ \<Rightarrow> (case writer_step (next_outcome os) \<lparr>wr_path = p, wr_bytes = b, wr_pc = pc\<rparr> fs of
                (w', fs') \<Rightarrow> run_writer (tl os) w' fs'))"
  by (subst run_writer.simps, cases pc) (simp_all add: split_def)

definition is_blake3_id :: "archive_id \<Rightarrow> bool" where
  "is_blake3_id aid \<longleftrightarrow> length aid = 64 \<and> list_all (\<lambda>c. c \<in> set ''0123456789abcdef'') aid"

definition entry_path :: "fs_path \<Rightarrow> archive_id \<Rightarrow> archive_error + fs_path" where
  "entry_path dir aid = (if is_blake3_id aid then Inr (dir @ [take 2 aid, aid @ ''.ikb'']) else Inl (ArInvalidId aid))"

definition local_store :: "bundle_ops \<Rightarrow> fs_path \<Rightarrow> fs_outcome list \<Rightarrow> file_system \<Rightarrow> evidence_bundle
    \<Rightarrow> (archive_error + archive_id) \<times> file_system" where
  "local_store ops dir os fs b =
     (case ev_pack ops b of
        Inl e \<Rightarrow> (Inl (ArPack e), fs)
      | Inr bytes \<Rightarrow>
          let aid = bo_blake3_hex ops bytes
          in case entry_path dir aid of
               Inl e \<Rightarrow> (Inl e, fs)
             | Inr p \<Rightarrow> map_prod (map_sum id (\<lambda>_. aid)) id
                 (run_writer os \<lparr>wr_path = p, wr_bytes = bytes, wr_pc = AtDirs\<rparr> fs))"

definition local_retrieve :: "bundle_ops \<Rightarrow> fs_path \<Rightarrow> file_system \<Rightarrow> archive_id \<Rightarrow> archive_error + evidence_bundle" where
  "local_retrieve ops dir fs aid =
     rbind (entry_path dir aid) (\<lambda>p.
       case fs_read fs p of None \<Rightarrow> Inl (ArNotFound aid) | Some bytes \<Rightarrow> unpack_stored ops bytes)"

definition local_exists :: "fs_path \<Rightarrow> file_system \<Rightarrow> archive_id \<Rightarrow> bool" where
  "local_exists dir fs aid =
     (case entry_path dir aid of Inl _ \<Rightarrow> False | Inr p \<Rightarrow> fs_names fs p \<noteq> None \<or> p \<in> fs_dirs fs)"

section \<open>What the calls do\<close>

definition fs_good :: "file_system \<Rightarrow> bool" where
  "fs_good fs \<longleftrightarrow> (\<forall>p h. fs_names fs p = Some h \<longrightarrow> h < length (fs_inodes fs))
     \<and> (\<forall>p q h. fs_names fs p = Some h \<longrightarrow> fs_names fs q = Some h \<longrightarrow> p = q)"

definition unchanged :: "fs_path set \<Rightarrow> file_system \<Rightarrow> file_system \<Rightarrow> bool" where
  "unchanged ps fs fs' \<longleftrightarrow> (\<forall>q. q \<notin> ps \<longrightarrow> fs_names fs' q = fs_names fs q \<and> fs_read fs' q = fs_read fs q)"

lemma unchanged_refl [simp]: "unchanged ps fs fs"
  by (simp add: unchanged_def)

lemma create_dir_all_good:
  "fs_good fs \<Longrightarrow> fs_good (fs_create_dir_all p fs)" "unchanged ps fs (fs_create_dir_all p fs)"
  "fs_read (fs_create_dir_all p fs) q = fs_read fs q"
  by (simp_all add: fs_good_def unchanged_def fs_read_def fs_create_dir_all_def)

lemma create_good:
  assumes "fs_good fs" "fs_create p fs = (Inr h, fs')"
  shows "fs_good fs'" "fs_names fs' p = Some h" "fs_read fs' p = Some []" "unchanged {p} fs fs'"
proof -
  have "fs_good fs' \<and> fs_names fs' p = Some h \<and> fs_read fs' p = Some [] \<and> unchanged {p} fs fs'"
  proof (cases "fs_names fs p")
    case None
    with assms have fs': "h = length (fs_inodes fs)"
      "fs' = fs\<lparr>fs_names := (fs_names fs)(p \<mapsto> h), fs_inodes := fs_inodes fs @ [[]]\<rparr>"
      by (auto simp: fs_create_def split: if_splits)
    have fresh: "fs_names fs q = Some i \<Longrightarrow> i < length (fs_inodes fs)" for q i
      using assms(1) by (auto simp: fs_good_def)
    have new: "fs_names fs q \<noteq> Some (length (fs_inodes fs))" for q
      using fresh by blast
    have "fs_good fs'" unfolding fs_good_def fs'
      using assms(1) new by (auto simp: fs_good_def less_Suc_eq split: if_splits)
    moreover have "unchanged {p} fs fs'" unfolding unchanged_def fs'
      using assms(1) by (auto simp: fs_good_def fs_read_def nth_append split: option.splits intro!: option.map_cong0)
    ultimately show ?thesis by (simp add: fs_read_def fs')
  next
    case (Some i)
    with assms have fs': "i = h" "fs' = fs\<lparr>fs_inodes := (fs_inodes fs)[h := []]\<rparr>"
      by (auto simp: fs_create_def split: if_splits)
    moreover have "fs_good fs'" using assms(1) by (simp add: fs_good_def fs')
    moreover have "unchanged {p} fs fs'" unfolding unchanged_def fs'(2)
      using assms(1) Some fs'(1) by (force simp: fs_good_def fs_read_def nth_list_update intro!: option.map_cong0)
    ultimately show ?thesis using Some assms(1) by (simp add: fs_read_def fs_good_def fs')
  qed
  then show "fs_good fs'" "fs_names fs' p = Some h" "fs_read fs' p = Some []" "unchanged {p} fs fs'" by simp_all
qed

lemma write_good:
  assumes "fs_good fs" "fs_names fs p = Some h" "fs_read fs p = Some []"
  shows "fs_good (fs_write h bytes fs)" "fs_names (fs_write h bytes fs) = fs_names fs"
    "fs_read (fs_write h bytes fs) p = Some bytes" "unchanged {p} fs (fs_write h bytes fs)"
proof -
  show "fs_good (fs_write h bytes fs)" "fs_names (fs_write h bytes fs) = fs_names fs"
    using assms(1) by (simp_all add: fs_good_def fs_write_def)
  have "h < length (fs_inodes fs)" "fs_inodes fs ! h = []"
    using assms by (simp_all add: fs_good_def fs_read_def)
  then show "fs_read (fs_write h bytes fs) p = Some bytes"
    using assms(2) by (simp add: fs_read_def fs_write_def)
  show "unchanged {p} fs (fs_write h bytes fs)"
    using assms(1,2) by (force simp: unchanged_def fs_good_def fs_read_def fs_write_def nth_list_update intro!: option.map_cong0)
qed

lemma rename_good:
  assumes "fs_good fs" "fs_rename p q fs = (Inr (), fs')" "p \<noteq> q"
  shows "fs_good fs'" "fs_read fs' q = fs_read fs p" "unchanged {p, q} fs fs'"
proof -
  obtain h where h: "fs_names fs p = Some h" "fs' = fs\<lparr>fs_names := ((fs_names fs)(p := None))(q \<mapsto> h)\<rparr>"
    using assms(2) by (auto simp: fs_rename_def split: option.splits)
  show "fs_good fs'" unfolding fs_good_def h(2) using assms(1) h(1) by (auto simp: fs_good_def)
  show "fs_read fs' q = fs_read fs p" "unchanged {p, q} fs fs'"
    using h by (simp_all add: fs_read_def unchanged_def)
qed

section \<open>What a writer does\<close>

text \<open>What holds of the temporary file while a writer has it.\<close>

definition writer_inv :: "writer \<Rightarrow> file_system \<Rightarrow> bool" where
  "writer_inv w fs \<longleftrightarrow>
     (let tmp = temp_path (wr_path w)
      in case wr_pc w of
        AtWrite h \<Rightarrow> fs_names fs tmp = Some h \<and> fs_read fs tmp = Some []
      | AtSync h \<Rightarrow> fs_read fs tmp = Some (wr_bytes w)
      | AtRename \<Rightarrow> fs_read fs tmp = Some (wr_bytes w)
      | Stored \<Rightarrow> fs_read fs (wr_path w) = Some (wr_bytes w)
      | _ \<Rightarrow> True)"

definition is_entry_path :: "fs_path \<Rightarrow> bool" where
  "is_entry_path p \<longleftrightarrow> p \<noteq> [] \<and> length (last p) = 68"

lemma entry_path_entry: "entry_path dir aid = Inr p \<Longrightarrow> is_entry_path p"
  by (auto simp: entry_path_def is_entry_path_def is_blake3_id_def split: if_splits)

lemma temp_no_entry: "is_entry_path p \<Longrightarrow> \<not> is_entry_path (temp_path p)"
  by (simp add: is_entry_path_def temp_path_def)

lemma temp_path_inj: "p \<noteq> [] \<Longrightarrow> q \<noteq> [] \<Longrightarrow> temp_path p = temp_path q \<longleftrightarrow> p = q"
  by (metis append_butlast_last_id append_same_eq butlast_snoc last_snoc temp_path_def)

lemma writer_step_same: "writer_step f w fs = (w', fs') \<Longrightarrow> wr_path w' = wr_path w \<and> wr_bytes w' = wr_bytes w"
  by (auto simp: writer_step_def Let_def split: fs_outcome.splits writer_pc.splits prod.splits sum.splits)

lemma writer_step_sound:
  assumes "fs_good fs" "writer_inv w fs" "is_entry_path (wr_path w)" "writer_step f w fs = (w', fs')"
  shows "fs_good fs' \<and> writer_inv w' fs' \<and> unchanged {temp_path (wr_path w), wr_path w} fs fs'
    \<and> (wr_pc w' \<noteq> Stored \<longrightarrow> fs_read fs' (wr_path w) = fs_read fs (wr_path w))"
proof -
  let ?tmp = "temp_path (wr_path w)"
  have tmp: "?tmp \<noteq> wr_path w" using temp_no_entry [OF assms(3)] assms(3) by auto
  have frame: "unchanged {?tmp, wr_path w} fs fs'' \<and> fs_read fs'' (wr_path w) = fs_read fs (wr_path w)"
    if "unchanged {?tmp} fs fs''" for fs''
    using that tmp by (auto simp: unchanged_def)
  show ?thesis
  proof (cases f)
    case (FsError e n)
    show ?thesis
    proof (cases "wr_pc w")
      case (AtWrite h)
      with FsError assms(2,4) have "fs_names fs ?tmp = Some h" "fs_read fs ?tmp = Some []"
        and st: "fs' = fs_write h (take n (wr_bytes w)) fs" "w' = w\<lparr>wr_pc := WriteFailed e\<rparr>"
        by (auto simp: writer_inv_def writer_step_def Let_def)
      note wrote = write_good [OF assms(1) this(1,2), of "take n (wr_bytes w)"]
      from wrote(1) frame [OF wrote(4)] show ?thesis by (simp add: st writer_inv_def)
    qed (use assms FsError in \<open>auto simp: writer_inv_def writer_step_def Let_def\<close>)
  next
    case FsDone
    show ?thesis
    proof (cases "wr_pc w")
      case AtDirs
      with assms FsDone show ?thesis
        by (auto simp: writer_inv_def writer_step_def Let_def create_dir_all_good)
    next
      case AtCreate
      obtain res fs1 where c: "fs_create ?tmp fs = (res, fs1)" by fastforce
      show ?thesis
      proof (cases res)
        case (Inl e)
        with c have "fs1 = fs" by (auto simp: fs_create_def split: if_splits option.splits)
        with assms AtCreate FsDone c Inl show ?thesis by (auto simp: writer_inv_def writer_step_def Let_def)
      next
        case (Inr h)
        note create = create_good [OF assms(1) c [unfolded Inr]]
        have "fs' = fs1" "w' = w\<lparr>wr_pc := AtWrite h\<rparr>"
          using assms(4) AtCreate FsDone c Inr by (auto simp: writer_step_def Let_def)
        with create frame [OF create(4)] show ?thesis by (simp add: writer_inv_def)
      qed
    next
      case (AtWrite h)
      with FsDone assms(2,4) have "fs_names fs ?tmp = Some h" "fs_read fs ?tmp = Some []"
        and st: "fs' = fs_write h (wr_bytes w) fs" "w' = w\<lparr>wr_pc := AtSync h\<rparr>"
        by (auto simp: writer_inv_def writer_step_def Let_def)
      note wrote = write_good [OF assms(1) this(1,2), of "wr_bytes w"]
      from wrote(1,3) frame [OF wrote(4)] show ?thesis by (simp add: st writer_inv_def)
    next
      case AtRename
      obtain res fs1 where c: "fs_rename ?tmp (wr_path w) fs = (res, fs1)" by fastforce
      show ?thesis
      proof (cases res)
        case (Inl e)
        with c have "fs1 = fs" by (auto simp: fs_rename_def split: option.splits)
        with assms AtRename FsDone c Inl show ?thesis by (auto simp: writer_inv_def writer_step_def Let_def)
      next
        case (Inr u)
        then have "fs_rename ?tmp (wr_path w) fs = (Inr (), fs1)" using c by simp
        note rename = rename_good [OF assms(1) this tmp]
        have "fs' = fs1" "w' = w\<lparr>wr_pc := Stored\<rparr>"
          using assms(4) AtRename FsDone c Inr by (auto simp: writer_step_def Let_def)
        with rename AtRename assms(2) show ?thesis by (simp add: writer_inv_def)
      qed
    qed (use assms FsDone in \<open>auto simp: writer_inv_def writer_step_def Let_def\<close>)
  qed
qed

section \<open>One writer\<close>

lemma run_writer_sound:
  assumes "fs_good fs" "writer_inv w fs" "is_entry_path (wr_path w)" "wr_pc w \<noteq> Stored"
    "run_writer os w fs = (r, fs')"
  shows "fs_good fs' \<and> (\<forall>q. is_entry_path q \<longrightarrow>
    fs_read fs' q = (if q = wr_path w \<and> r = Inr () then Some (wr_bytes w) else fs_read fs q))"
  using assms
proof (induction os w fs rule: run_writer.induct)
  case (1 os w fs)
  show ?case
  proof (cases "writer_rank (wr_pc w) = 0")
    case True
    with "1.prems"(4,5) show ?thesis
      using "1.prems"(1) by (cases "wr_pc w") (auto simp: run_writer.simps [of os w])
  next
    case False
    obtain w1 fs1 where st: "writer_step (next_outcome os) w fs = (w1, fs1)" by fastforce
    note sound = writer_step_sound [OF "1.prems"(1-3) st] writer_step_same [OF st]
    have run: "run_writer (tl os) w1 fs1 = (r, fs')"
      using "1.prems"(5) False st by (cases "wr_pc w") (simp_all add: run_writer.simps [of os w])
    have "\<not> is_entry_path (temp_path (wr_path w))" by (rule temp_no_entry [OF "1.prems"(3)])
    then have other: "fs_read fs1 q = fs_read fs q" if "is_entry_path q" "q \<noteq> wr_path w" for q
      using that sound(1) unfolding unchanged_def by (metis insertE singletonD)
    show ?thesis
    proof (cases "wr_pc w1 = Stored")
      case True
      with run have "r = Inr ()" "fs' = fs1" by (simp_all add: run_writer.simps [of _ w1])
      with sound True other show ?thesis by (simp add: writer_inv_def)
    next
      case not_stored: False
      have "fs_good fs' \<and> (\<forall>q. is_entry_path q \<longrightarrow>
          fs_read fs' q = (if q = wr_path w1 \<and> r = Inr () then Some (wr_bytes w1) else fs_read fs1 q))"
        using False sound not_stored run st "1.prems"(3)
        by (cases "wr_pc w") (simp_all add: "1.IH")
      moreover have "fs_read fs1 q = fs_read fs q" if "is_entry_path q" for q
        using that sound(1) not_stored other by (cases "q = wr_path w") simp_all
      ultimately show ?thesis using sound(2) by auto
    qed
  qed
qed

text \<open>A session of calls: the outcomes of the file system are consumed five by five.\<close>

definition local_call :: "bundle_ops \<Rightarrow> fs_path \<Rightarrow> fs_outcome list \<times> file_system \<Rightarrow> evidence_bundle
    \<Rightarrow> (archive_error + archive_id) \<times> fs_outcome list \<times> file_system" where
  "local_call ops dir s b =
     (case local_store ops dir (take 5 (fst s)) (snd s) b of (r, fs') \<Rightarrow> (r, (drop 5 (fst s), fs')))"

lemma entry_path_inj: "entry_path dir aid = Inr p \<Longrightarrow> entry_path dir other = Inr p \<Longrightarrow> aid = other"
  by (auto simp: entry_path_def split: if_splits)

lemma local_store_cases:
  assumes "local_store ops dir os fs b = (r, fs')"
  obtains (refused) e where "r = Inl e" "fs' = fs"
  | (run) bytes p res where "ev_pack ops b = Inr bytes" "entry_path dir (bo_blake3_hex ops bytes) = Inr p"
      "run_writer os \<lparr>wr_path = p, wr_bytes = bytes, wr_pc = AtDirs\<rparr> fs = (res, fs')"
      "r = map_sum id (\<lambda>_. bo_blake3_hex ops bytes) res"
  using assms by (auto simp: local_store_def Let_def map_prod_def split: sum.splits prod.splits)

lemma local_store_sound:
  assumes "fs_good fs" "local_store ops dir os fs b = (r, fs')"
  shows "fs_good fs'"
    "r = Inr aid \<Longrightarrow> \<exists>bytes p. ev_pack ops b = Inr bytes \<and> bo_blake3_hex ops bytes = aid \<and> entry_path dir aid = Inr p
       \<and> fs_read fs' p = Some bytes"
    "r \<noteq> Inr aid \<Longrightarrow> entry_path dir aid = Inr p \<Longrightarrow> fs_read fs' p = fs_read fs p"
proof -
  have "fs_good fs'
    \<and> (r = Inr aid \<longrightarrow> (\<exists>bytes p. ev_pack ops b = Inr bytes \<and> bo_blake3_hex ops bytes = aid \<and> entry_path dir aid = Inr p
         \<and> fs_read fs' p = Some bytes))
    \<and> (\<forall>p. r \<noteq> Inr aid \<longrightarrow> entry_path dir aid = Inr p \<longrightarrow> fs_read fs' p = fs_read fs p)"
    using assms(2)
  proof (cases rule: local_store_cases)
    case (run bytes p res)
    note sound = run_writer_sound [OF assms(1) _ _ _ run(3)]
    have entry: "is_entry_path p" by (rule entry_path_entry [OF run(2)])
    with sound have s: "fs_good fs'"
      "is_entry_path q \<Longrightarrow> fs_read fs' q = (if q = p \<and> res = Inr () then Some bytes else fs_read fs q)" for q
      by (simp_all add: writer_inv_def)
    show ?thesis
    proof (intro conjI impI allI)
      assume "r = Inr aid"
      with run(4) have "res = Inr ()" "aid = bo_blake3_hex ops bytes" by (cases res; simp)+
      with run(1,2) s(2) [OF entry] show "\<exists>bytes p. ev_pack ops b = Inr bytes \<and> bo_blake3_hex ops bytes = aid
          \<and> entry_path dir aid = Inr p \<and> fs_read fs' p = Some bytes"
        by auto
    next
      fix q
      assume q: "r \<noteq> Inr aid" "entry_path dir aid = Inr q"
      have "\<not> (q = p \<and> res = Inr ())"
        using q run(2,4) entry_path_inj by (metis map_sum.simps(2))
      with s(2) [OF entry_path_entry [OF q(2)]] show "fs_read fs' q = fs_read fs q" by presburger
    qed (rule s(1))
  qed (use assms(1) in simp)
  then show "fs_good fs'"
    "r = Inr aid \<Longrightarrow> \<exists>bytes p. ev_pack ops b = Inr bytes \<and> bo_blake3_hex ops bytes = aid \<and> entry_path dir aid = Inr p
       \<and> fs_read fs' p = Some bytes"
    "r \<noteq> Inr aid \<Longrightarrow> entry_path dir aid = Inr p \<Longrightarrow> fs_read fs' p = fs_read fs p"
    by blast+
qed

interpretation files: archive_backend "local_call ops dir" "local_retrieve ops dir \<circ> snd" "local_exists dir \<circ> snd"
    "\<lambda>aid. aid" "fs_good \<circ> snd" "recovers ops"
  for ops dir
proof
  fix s s' :: "fs_outcome list \<times> file_system" and b aid
  assume st: "(fs_good \<circ> snd) s" "local_call ops dir s b = (Inr aid, s')" "recovers ops b"
  then have "local_store ops dir (take 5 (fst s)) (snd s) b = (Inr aid, snd s')"
    by (auto simp: local_call_def split: prod.splits)
  from local_store_sound(2) [OF _ this] st(1) obtain bytes p where
    "ev_pack ops b = Inr bytes" "entry_path dir aid = Inr p" "fs_read (snd s') p = Some bytes" by auto
  with recovers_unpack [OF st(3)] show "(local_retrieve ops dir \<circ> snd) s' aid = Inr b"
    by (simp add: local_retrieve_def)
next
  fix s s' :: "fs_outcome list \<times> file_system" and b r
  assume st: "(fs_good \<circ> snd) s" "local_call ops dir s b = (r, s')"
  then have run: "local_store ops dir (take 5 (fst s)) (snd s) b = (r, snd s')"
    by (auto simp: local_call_def split: prod.splits)
  from local_store_sound(1) [OF _ run] st(1) show "(fs_good \<circ> snd) s'" by simp
  fix aid
  assume "\<not> stored_at (\<lambda>aid. aid) r aid"
  then have "r \<noteq> Inr aid" by (auto simp: stored_at_def)
  with local_store_sound(3) [OF _ run] st(1) show "(local_retrieve ops dir \<circ> snd) s' aid = (local_retrieve ops dir \<circ> snd) s aid"
    by (cases "entry_path dir aid") (simp_all add: local_retrieve_def)
next
  fix s :: "fs_outcome list \<times> file_system" and b aid
  assume "(local_retrieve ops dir \<circ> snd) s aid = Inr b"
  then show "(local_exists dir \<circ> snd) s aid"
    by (auto simp: local_retrieve_def local_exists_def rbind_Inr_iff fs_read_def split: option.splits)
qed

fun store_bundles :: "bundle_ops \<Rightarrow> fs_path \<Rightarrow> fs_outcome list \<times> file_system \<Rightarrow> evidence_bundle list
    \<Rightarrow> (archive_error + archive_id) list \<times> fs_outcome list \<times> file_system" where
  "store_bundles ops dir s [] = ([], s)"
| "store_bundles ops dir s (b # bs) =
     (case local_call ops dir s b of (r, s1) \<Rightarrow> case store_bundles ops dir s1 bs of (rs, s2) \<Rightarrow> (r # rs, s2))"

lemma store_bundles_all: "store_bundles ops dir s bs = files.store_all ops dir s bs"
  by (induction bs arbitrary: s) (simp_all add: Let_def split_def)

text \<open>One backend of the archive: the last bundle acknowledged under an identifier is the one that comes back.\<close>

lemma last_acknowledged_returns:
  assumes "fs_good fs" "store_bundles ops dir (os, fs) bs = (rs, (os', fs'))" "i < length bs" "rs ! i = Inr aid"
    "recovers ops (bs ! i)" "Inr aid \<notin> set (drop (Suc i) rs)"
  shows "local_retrieve ops dir fs' aid = Inr (bs ! i) \<and> local_exists dir fs' aid"
proof -
  have "list_all (\<lambda>r. \<not> stored_at (\<lambda>aid. aid) r aid) (drop (Suc i) rs)"
    using assms(6) by (auto simp: list_all_iff stored_at_def split: sum.splits)
  with files.store_all_fetch [of "(os, fs)" i bs ops dir aid] assms show ?thesis
    by (simp add: store_bundles_all)
qed

lemma store_bundles_split:
  assumes "fs_good fs" "store_bundles ops dir (os, fs) (b # bs) = (rs, (os', fs'))"
  obtains r os1 fs1 rs' where "rs = r # rs'" "local_store ops dir (take 5 os) fs b = (r, fs1)" "fs_good fs1"
    "store_bundles ops dir (os1, fs1) bs = (rs', (os', fs'))"
proof -
  obtain r fs1 where r: "local_store ops dir (take 5 os) fs b = (r, fs1)" by fastforce
  then have "local_call ops dir (os, fs) b = (r, (drop 5 os, fs1))" by (simp add: local_call_def)
  with assms(2) obtain rs' where "rs = r # rs'" "store_bundles ops dir (drop 5 os, fs1) bs = (rs', (os', fs'))"
    by (auto split: prod.splits)
  with r local_store_sound(1) [OF assms(1) r] show ?thesis by (intro that)
qed

text \<open>The file of an identifier holds the packed form of a bundle that was acknowledged under it, if there is one.\<close>

lemma store_bundles_files:
  "fs_good fs \<Longrightarrow> store_bundles ops dir (os, fs) bs = (rs, (os', fs')) \<Longrightarrow> entry_path dir aid = Inr p \<Longrightarrow>
     length rs = length bs
     \<and> (fs_read fs' p = fs_read fs p \<and> Inr aid \<notin> set rs
        \<or> (\<exists>j z. j < length bs \<and> rs ! j = Inr aid \<and> ev_pack ops (bs ! j) = Inr z \<and> bo_blake3_hex ops z = aid
             \<and> fs_read fs' p = Some z))"
proof (induction bs arbitrary: os fs rs)
  case (Cons b bs)
  from Cons.prems(1,2) obtain r os1 fs1 rs' where rs: "rs = r # rs'" and r: "local_store ops dir (take 5 os) fs b = (r, fs1)"
    and s: "fs_good fs1" "store_bundles ops dir (os1, fs1) bs = (rs', (os', fs'))"
    by (rule store_bundles_split)
  note sound = local_store_sound(2,3) [OF Cons.prems(1) r]
  from Cons.IH [OF s Cons.prems(3)] consider
      (kept) "length rs' = length bs" "fs_read fs' p = fs_read fs1 p" "Inr aid \<notin> set rs'"
    | (later) j z where "length rs' = length bs" "j < length bs" "rs' ! j = Inr aid" "ev_pack ops (bs ! j) = Inr z"
        "bo_blake3_hex ops z = aid" "fs_read fs' p = Some z" by blast
  then show ?case
  proof cases
    case kept
    show ?thesis
    proof (cases "r = Inr aid")
      case True
      from sound(1) [OF this] Cons.prems(3) obtain z where "ev_pack ops b = Inr z" "bo_blake3_hex ops z = aid"
        "fs_read fs1 p = Some z" by auto
      with True kept show ?thesis by (auto simp: rs intro!: exI [of _ 0])
    next
      case False
      with sound(2) [OF False Cons.prems(3)] kept show ?thesis by (simp add: rs)
    qed
  next
    case later
    then show ?thesis by (auto simp: rs intro!: exI [of _ "Suc j"])
  qed
qed simp

lemma store_bundles_acknowledged:
  "fs_good fs \<Longrightarrow> store_bundles ops dir (os, fs) bs = (rs, (os', fs')) \<Longrightarrow> i < length bs \<Longrightarrow> rs ! i = Inr aid \<Longrightarrow>
     \<exists>z p. ev_pack ops (bs ! i) = Inr z \<and> bo_blake3_hex ops z = aid \<and> entry_path dir aid = Inr p \<and> i < length rs"
proof (induction bs arbitrary: os fs rs i)
  case (Cons b bs)
  from Cons.prems(1,2) obtain r os1 fs1 rs' where rs: "rs = r # rs'" and r: "local_store ops dir (take 5 os) fs b = (r, fs1)"
    and s: "fs_good fs1" "store_bundles ops dir (os1, fs1) bs = (rs', (os', fs'))"
    by (rule store_bundles_split)
  show ?case
  proof (cases i)
    case 0
    with Cons.prems(4) rs local_store_sound(2) [OF Cons.prems(1) r] show ?thesis by auto
  next
    case (Suc k)
    with Cons.prems(3,4) rs Cons.IH [OF s, of k] show ?thesis by auto
  qed
qed simp

text \<open>C5  The archive keeps what it acknowledged: bundles are stored one after the other, every call of the
  file system may fail, a write even halfway.  The identifier that \<open>store\<close> returned is the hash of the packed bundle, it
  exists ever after, and \<open>retrieve\<close> gives what these bytes unpack to, unless another acknowledged bundle packs to
  different bytes with the same hash.
\<close>

theorem files_keep_bundles:
  assumes "fs_good fs" "store_bundles ops dir (os, fs) bs = (rs, (os', fs'))" "i < length bs" "rs ! i = Inr aid"
  shows "\<exists>z. ev_pack ops (bs ! i) = Inr z \<and> bo_blake3_hex ops z = aid \<and> local_exists dir fs' aid
    \<and> (local_retrieve ops dir fs' aid
          = (case ev_unpack ops z of Inl err \<Rightarrow> Inl (ArDrift (bundle_error_text err)) | Inr b \<Rightarrow> Inr b)
       \<or> (\<exists>j y. j < length bs \<and> rs ! j = Inr aid \<and> ev_pack ops (bs ! j) = Inr y \<and> y \<noteq> z
            \<and> bo_blake3_hex ops y = bo_blake3_hex ops z))"
proof -
  from store_bundles_acknowledged [OF assms] obtain z p where z: "ev_pack ops (bs ! i) = Inr z" "bo_blake3_hex ops z = aid"
    and p: "entry_path dir aid = Inr p" and len: "i < length rs" by blast
  from len assms(4) have "Inr aid \<in> set rs" by (metis nth_mem)
  with store_bundles_files [OF assms(1,2) p] obtain j y where y: "j < length bs" "rs ! j = Inr aid"
    "ev_pack ops (bs ! j) = Inr y" "bo_blake3_hex ops y = aid" "fs_read fs' p = Some y" by blast
  then have "local_exists dir fs' aid" "local_retrieve ops dir fs' aid = unpack_stored ops y"
    by (auto simp: local_exists_def local_retrieve_def fs_read_def p split: option.splits)
  with y z show ?thesis by (cases "y = z") (auto simp: unpack_stored_def)
qed

section \<open>Many writers\<close>

text \<open>Writers on threads or processes of their own: at each step one of them makes its next call.\<close>

inductive run_step :: "writer list \<times> file_system \<Rightarrow> writer list \<times> file_system \<Rightarrow> bool" where
  "i < length ws \<Longrightarrow> writer_step f (ws ! i) fs = (w', fs') \<Longrightarrow> run_step (ws, fs) (ws[i := w'], fs')"

inductive_cases run_stepE: "run_step (ws, fs) s'"

definition writers_inv :: "file_system \<Rightarrow> writer list \<times> file_system \<Rightarrow> bool" where
  "writers_inv fs0 s \<longleftrightarrow> (case s of (ws, fs) \<Rightarrow>
     fs_good fs \<and> distinct (map wr_path ws) \<and> (\<forall>w \<in> set ws. is_entry_path (wr_path w) \<and> writer_inv w fs)
     \<and> (\<forall>q. is_entry_path q \<longrightarrow> (\<forall>w \<in> set ws. wr_path w = q \<longrightarrow> wr_pc w \<noteq> Stored) \<longrightarrow> fs_read fs q = fs_read fs0 q))"

lemma writer_inv_frame:
  assumes "writer_inv v fs" "unchanged {temp_path (wr_path w), wr_path w} fs fs'"
    "is_entry_path (wr_path v)" "is_entry_path (wr_path w)" "wr_path v \<noteq> wr_path w"
  shows "writer_inv v fs'"
proof -
  have "temp_path (wr_path v) \<noteq> temp_path (wr_path w)"
    using assms(3-5) by (simp add: temp_path_inj is_entry_path_def)
  moreover have "temp_path (wr_path v) \<noteq> wr_path w" "temp_path (wr_path w) \<noteq> wr_path v"
    using assms(3,4) temp_no_entry by metis+
  ultimately show ?thesis
    using assms(1,2,5) by (auto simp: writer_inv_def unchanged_def Let_def split: writer_pc.splits)
qed

lemma run_step_keeps: "run_step s s' \<Longrightarrow> writers_inv fs0 s \<Longrightarrow> writers_inv fs0 s'"
proof (induction rule: run_step.induct)
  case (1 i ws f fs w' fs')
  let ?w = "ws ! i"
  have inv: "fs_good fs" "distinct (map wr_path ws)" "\<And>w. w \<in> set ws \<Longrightarrow> is_entry_path (wr_path w) \<and> writer_inv w fs"
    and old: "\<And>q. is_entry_path q \<Longrightarrow> \<forall>w \<in> set ws. wr_path w = q \<longrightarrow> wr_pc w \<noteq> Stored \<Longrightarrow> fs_read fs q = fs_read fs0 q"
    using 1(3) by (auto simp: writers_inv_def)
  have w: "?w \<in> set ws" using 1(1) by simp
  note same = writer_step_same [OF 1(2)]
  have entry: "is_entry_path (wr_path ?w)" "writer_inv ?w fs" using inv(3) [OF w] by simp_all
  note sound = writer_step_sound [OF inv(1) entry(2,1) 1(2)]
  have paths: "map wr_path (ws[i := w']) = map wr_path ws"
    using 1(1) same by (simp add: map_update list_update_same_conv)
  have "is_entry_path (wr_path v) \<and> writer_inv v fs'" if "v \<in> set (ws[i := w'])" for v
  proof -
    from that obtain j where j: "j < length ws" "v = (ws[i := w']) ! j" by (auto simp: in_set_conv_nth)
    show ?thesis
    proof (cases "j = i")
      case True
      with j sound same entry show ?thesis by simp
    next
      case False
      with j have v: "v = ws ! j" "v \<in> set ws" by simp_all
      moreover have "wr_path v \<noteq> wr_path ?w"
        using inv(2) False j(1) 1(1) v(1) by (simp add: distinct_conv_nth)
      ultimately show ?thesis
        using inv(3) [OF v(2)] entry sound writer_inv_frame [of v fs ?w fs'] by blast
    qed
  qed
  moreover have "fs_read fs' q = fs_read fs0 q"
    if q: "is_entry_path q" "\<forall>v \<in> set (ws[i := w']). wr_path v = q \<longrightarrow> wr_pc v \<noteq> Stored" for q
  proof (cases "q = wr_path ?w")
    case True
    have "w' \<in> set (ws[i := w'])" using 1(1) by (simp add: set_update_memI)
    with q(2) True same have "wr_pc w' \<noteq> Stored" by simp
    moreover have "wr_pc ?w \<noteq> Stored"
      using calculation 1(2) by (auto simp: writer_step_def Let_def split: fs_outcome.splits)
    moreover have "wr_pc v \<noteq> Stored" if "v \<in> set ws" "wr_path v = q" for v
      using that inv(2) w True calculation by (metis distinct_map inj_onD)
    ultimately show ?thesis using sound old [OF q(1)] True by auto
  next
    case False
    have "q \<noteq> temp_path (wr_path ?w)" using temp_no_entry [OF entry(1)] q(1) by blast
    with False sound have "fs_read fs' q = fs_read fs q" by (simp add: unchanged_def)
    moreover have "wr_pc v \<noteq> Stored" if "v \<in> set ws" "wr_path v = q" for v
    proof -
      have "v \<in> set (ws[i := w'])"
        using that False by (metis in_set_conv_nth length_list_update nth_list_update_neq)
      with that q(2) show ?thesis by blast
    qed
    ultimately show ?thesis using old [OF q(1)] by auto
  qed
  ultimately show ?case using sound inv(2) by (simp add: writers_inv_def paths)
qed

text \<open>C4  No half-written entry: any number of writers store different bundles into one directory, their calls
  interleave in any order and each may fail.  Then at every moment the file of an archive identifier holds
  all the bytes of the writer that has stored it, and what it held before when there is none.
\<close>

theorem entries_are_whole:
  assumes "fs_good fs" "list_all (\<lambda>w. wr_pc w = AtDirs \<and> is_entry_path (wr_path w)) ws" "distinct (map wr_path ws)"
    "run_step\<^sup>*\<^sup>* (ws, fs) (ws', fs')" "is_entry_path p"
  shows "fs_read fs' p = (case find (\<lambda>w. wr_path w = p \<and> wr_pc w = Stored) ws' of
    None \<Rightarrow> fs_read fs p | Some w \<Rightarrow> Some (wr_bytes w))"
proof -
  have "writers_inv fs (ws, fs)"
    using assms(1-3) by (auto simp: writers_inv_def writer_inv_def list_all_iff)
  with assms(4) have inv: "writers_inv fs (ws', fs')"
    by (induction rule: rtranclp_induct) (auto intro: run_step_keeps)
  show ?thesis
  proof (cases "find (\<lambda>w. wr_path w = p \<and> wr_pc w = Stored) ws'")
    case None
    with inv assms(5) have "fs_read fs' p = fs_read fs p" by (auto simp: writers_inv_def find_None_iff)
    with None show ?thesis by simp
  next
    case (Some w)
    then have "w \<in> set ws'" "wr_path w = p" "wr_pc w = Stored" by (auto simp: find_Some_iff)
    with inv Some show ?thesis by (auto simp: writers_inv_def writer_inv_def Let_def)
  qed
qed

text \<open>A schedule: who makes the next call, and what becomes of it.\<close>

fun run_schedule :: "(nat \<times> fs_outcome) list \<Rightarrow> writer list \<times> file_system \<Rightarrow> writer list \<times> file_system" where
  "run_schedule [] s = s"
| "run_schedule ((i, f) # sched) (ws, fs) =
     (case writer_step f (ws ! i) fs of (w', fs') \<Rightarrow> run_schedule sched (ws[i := w'], fs'))"

lemma run_schedule_steps:
  "list_all (\<lambda>(i, _). i < length ws) sched \<Longrightarrow> run_step\<^sup>*\<^sup>* (ws, fs) (run_schedule sched (ws, fs))"
proof (induction sched "(ws, fs)" arbitrary: ws fs rule: run_schedule.induct)
  case (2 i f sched ws fs)
  obtain w' fs' where st: "writer_step f (ws ! i) fs = (w', fs')" by fastforce
  from run_step.intros [OF _ st] 2(2) have "run_step (ws, fs) (ws[i := w'], fs')" by simp
  moreover have "run_step\<^sup>*\<^sup>* (ws[i := w'], fs') (run_schedule sched (ws[i := w'], fs'))"
    using 2(1) [OF st [symmetric]] 2(2) by simp
  ultimately show ?case using st by simp
qed simp

definition empty_fs :: file_system where
  "empty_fs = \<lparr>fs_dirs = {}, fs_names = (\<lambda>_. None), fs_inodes = []\<rparr>"

definition sample_id :: "char \<Rightarrow> archive_id" where
  "sample_id c = replicate 64 c"

definition sample_writer :: "char \<Rightarrow> string \<Rightarrow> writer" where
  "sample_writer c bytes = \<lparr>wr_path = [''root'', [c, c], sample_id c @ ''.ikb''], wr_bytes = bytes, wr_pc = AtDirs\<rparr>"

lemmas runs = run_schedule.simps writer_step_def Let_def fs_create_dir_all_def fs_create_def fs_write_def
  fs_rename_def fs_read_def empty_fs_def temp_path_def sample_writer_def

text \<open>
  Two writers of the same bundle share the temporary file: the second truncates what the first is about to
  rename, and the identifier that the first returns names an empty file.
\<close>

theorem half_written_entry_visible:
  "\<exists>ws fs. run_step\<^sup>*\<^sup>* ([sample_writer CHR ''0'' ''ikb'', sample_writer CHR ''0'' ''ikb''], empty_fs) (ws, fs)
     \<and> wr_pc (ws ! 0) = Stored \<and> fs_read fs (wr_path (ws ! 0)) = Some []"
proof -
  let ?ws = "[sample_writer CHR ''0'' ''ikb'', sample_writer CHR ''0'' ''ikb'']"
  let ?sched = "map (\<lambda>i. (i, FsDone)) [0, 0, 0, 0, 1, 1, 0 :: nat]"
  obtain ws fs where r: "run_schedule ?sched (?ws, empty_fs) = (ws, fs)" by fastforce
  have "run_step\<^sup>*\<^sup>* (?ws, empty_fs) (ws, fs)"
    unfolding r [symmetric] by (rule run_schedule_steps) simp
  moreover have "wr_pc (ws ! 0) = Stored" "fs_read fs (wr_path (ws ! 0)) = Some []"
    using r by (auto simp: runs)
  ultimately show ?thesis by blast
qed

section \<open>Concrete runs\<close>

theorem entries_are_whole_witness:
  "\<exists>ws fs. run_step\<^sup>*\<^sup>* ([sample_writer CHR ''0'' ''ikb'', sample_writer CHR ''1'' ''other''], empty_fs) (ws, fs)
     \<and> fs_read fs (wr_path (sample_writer CHR ''0'' ''ikb'')) = Some ''ikb''
     \<and> fs_read fs (wr_path (sample_writer CHR ''1'' ''other'')) = None"
proof -
  let ?ws = "[sample_writer CHR ''0'' ''ikb'', sample_writer CHR ''1'' ''other'']"
  let ?sched = "[(0, FsDone), (1, FsDone), (1, FsDone), (0, FsDone), (0, FsDone), (0, FsDone),
    (1, FsError ''disk full'' 2), (0, FsDone)] :: (nat \<times> fs_outcome) list"
  obtain ws fs where r: "run_schedule ?sched (?ws, empty_fs) = (ws, fs)" by fastforce
  have steps: "run_step\<^sup>*\<^sup>* (?ws, empty_fs) (ws, fs)"
    unfolding r [symmetric] by (rule run_schedule_steps) simp
  have start: "fs_good empty_fs" "list_all (\<lambda>w. wr_pc w = AtDirs \<and> is_entry_path (wr_path w)) ?ws"
    "distinct (map wr_path ?ws)"
    by (simp_all add: fs_good_def empty_fs_def sample_writer_def is_entry_path_def sample_id_def)
  have ws: "map wr_pc ws = [Stored, WriteFailed ''disk full'']" "map wr_path ws = map wr_path ?ws" "map wr_bytes ws = map wr_bytes ?ws"
    using r by (auto simp: runs)
  have entry: "is_entry_path (wr_path (sample_writer c bytes))" for c bytes
    by (simp add: sample_writer_def is_entry_path_def sample_id_def)
  from ws entries_are_whole [OF start steps entry, of "CHR ''0''" "''ikb''"]
    entries_are_whole [OF start steps entry, of "CHR ''1''" "''other''"]
  have "fs_read fs (wr_path (sample_writer CHR ''0'' ''ikb'')) = Some ''ikb''"
     "fs_read fs (wr_path (sample_writer CHR ''1'' ''other'')) = None"
    by (auto simp: sample_writer_def fs_read_def empty_fs_def map_eq_Cons_conv Cons_eq_map_conv)
  with steps show ?thesis by blast
qed

definition zero_hash :: "string \<Rightarrow> string" where
  "zero_hash bytes = sample_id CHR ''0''"

theorem files_keep_bundles_witness:
  "\<exists>s aid. store_bundles (sample_bundle_ops zero_hash) [''root'']
      ([FsDone, FsDone, FsDone, FsDone, FsDone, FsDone, FsDone, FsError ''disk full'' 2], empty_fs)
      [sample_bundle ''x'' (zero_hash ''x''), sample_bundle ''x'' (zero_hash ''x'')] = ([Inr aid, Inl (ArIo ''disk full'')], s)
    \<and> local_retrieve (sample_bundle_ops zero_hash) [''root''] (snd s) aid = Inr (sample_bundle ''x'' (zero_hash ''x''))"
proof -
  let ?ops = "sample_bundle_ops zero_hash" and ?b = "sample_bundle ''x'' (zero_hash ''x'')"
  let ?os = "[FsDone, FsDone, FsDone, FsDone, FsDone, FsDone, FsDone, FsError ''disk full'' 2]"
  obtain z where pack: "ev_pack ?ops ?b = Inr z" and rec: "recovers ?ops ?b"
    using pack_unpack [OF _ sample_packs, of zero_hash] ops_for_round_trip
    by (fastforce simp: recovers_def sample_bundle_ops_def dest: ops_for_tar)
  obtain rs os' fs' where st: "store_bundles ?ops [''root''] (?os, empty_fs) [?b, ?b] = (rs, (os', fs'))"
    by (metis surj_pair)
  have "is_blake3_id (sample_id CHR ''0'')" by (simp add: is_blake3_id_def sample_id_def list_all_iff)
  moreover have "bo_blake3_hex ?ops bytes = sample_id CHR ''0''" for bytes
    by (simp add: sample_bundle_ops_def ops_for_def zero_hash_def)
  ultimately have rs: "rs = [Inr (sample_id CHR ''0''), Inl (ArIo ''disk full'')]"
    using st by (simp add: local_call_def local_store_def pack entry_path_def run_writer_at next_outcome_def runs)
  have "fs_good empty_fs" by (simp add: fs_good_def empty_fs_def)
  from files_keep_bundles [OF this st, of 0 "sample_id CHR ''0''"] pack rec rs st show ?thesis
    by (auto simp: recovers_def less_Suc_eq)
qed

end
