(* ===== verification/Dsse.thy ===== *)
theory Dsse
  imports Evidence
begin

text \<open>
  \<open>crates/evidence-dsse/src/lib.rs\<close>: the signed envelope of a bundle's manifest.  The base64 library, the
  JSON of an envelope and the signer are parameters; the digest of the mock signer is the one of the crate.
\<close>

section \<open>Envelopes\<close>

record dsse_signature =
  dss_keyid :: string
  dss_sig :: string

record dsse_envelope =
  dse_payload :: string
  dse_payload_type :: string
  dse_signatures :: "dsse_signature list"

datatype dsse_error =
    BadBase64 string
  | ManifestSerialize string
  | NoSignatures
  | DsseSignerError string
  | UnknownKey string
  | BadSignature string
  | PayloadTypeDrift string string
  | PayloadDrift

definition manifest_payload_type :: string where
  "manifest_payload_type = ''application/vnd.invoicekit.manifest+json''"

record dsse_ops =
  do_b64_encode :: "string \<Rightarrow> string"
  do_b64_decode :: "string \<Rightarrow> string + string"
  do_envelope_to_vec :: "dsse_envelope \<Rightarrow> string + string"
  do_envelope_from_slice :: "string \<Rightarrow> string + dsse_envelope"

record manifest_signer =
  ms_keyid :: string
  ms_sign_pae :: "string \<Rightarrow> dsse_error + string"
  ms_verify_pae :: "string \<Rightarrow> string \<Rightarrow> dsse_error + unit"

definition read_standard_base64 :: "dsse_ops \<Rightarrow> string \<Rightarrow> dsse_error + string" where
  "read_standard_base64 ops bytes =
     (case do_b64_decode ops bytes of Inl e \<Rightarrow> Inl (BadBase64 e) | Inr out \<Rightarrow> Inr out)"

definition decoded_payload :: "dsse_ops \<Rightarrow> dsse_envelope \<Rightarrow> dsse_error + string" where
  "decoded_payload ops e = read_standard_base64 ops (dse_payload e)"

definition pae :: "string \<Rightarrow> string \<Rightarrow> string" where
  "pae payload_type payload =
     ''DSSEv1 '' @ show_nat (length payload_type) @ '' '' @ payload_type @ '' '' @ show_nat (length payload) @ '' '' @ payload"

definition wrap :: "dsse_ops \<Rightarrow> manifest_signer \<Rightarrow> string \<Rightarrow> string \<Rightarrow> dsse_error + dsse_envelope" where
  "wrap ops signer payload_type payload =
     rbind (ms_sign_pae signer (pae payload_type payload)) (\<lambda>sig_bytes.
       Inr \<lparr>dse_payload = do_b64_encode ops payload, dse_payload_type = payload_type,
         dse_signatures = [\<lparr>dss_keyid = ms_keyid signer, dss_sig = do_b64_encode ops sig_bytes\<rparr>]\<rparr>)"

definition serialise :: "string + string \<Rightarrow> dsse_error + string" where
  "serialise r = (case r of Inl e \<Rightarrow> Inl (ManifestSerialize e) | Inr bytes \<Rightarrow> Inr bytes)"

lemma serialise_Inr_iff: "serialise r = Inr bytes \<longleftrightarrow> r = Inr bytes"
  by (cases r) (simp_all add: serialise_def)

definition manifest_payload_bytes :: "bundle_ops \<Rightarrow> evidence_bundle \<Rightarrow> dsse_error + string" where
  "manifest_payload_bytes bops b = serialise (bo_manifest_to_vec bops (evb_manifest b))"

definition wrap_manifest :: "bundle_ops \<Rightarrow> dsse_ops \<Rightarrow> evidence_bundle \<Rightarrow> manifest_signer \<Rightarrow> dsse_error + dsse_envelope" where
  "wrap_manifest bops ops b signer =
     rbind (manifest_payload_bytes bops b) (\<lambda>payload. wrap ops signer manifest_payload_type payload)"

definition attach_manifest_dsse :: "bundle_ops \<Rightarrow> dsse_ops \<Rightarrow> evidence_bundle \<Rightarrow> manifest_signer
    \<Rightarrow> dsse_error + evidence_bundle" where
  "attach_manifest_dsse bops ops b signer =
     rbind (wrap_manifest bops ops b signer) (\<lambda>envelope.
     rbind (serialise (do_envelope_to_vec ops envelope)) (\<lambda>bytes.
       Inr (b\<lparr>evb_artefacts := btree_insert manifest_signature_artefact_id bytes (evb_artefacts b)\<rparr>)))"

definition verify_envelope :: "dsse_ops \<Rightarrow> dsse_envelope \<Rightarrow> string \<Rightarrow> string \<Rightarrow> manifest_signer \<Rightarrow> dsse_error + unit" where
  "verify_envelope ops e expected_type expected_payload signer =
     (if dse_signatures e = [] then Inl NoSignatures
      else if dse_payload_type e \<noteq> expected_type then Inl (PayloadTypeDrift expected_type (dse_payload_type e))
      else rbind (decoded_payload ops e) (\<lambda>observed.
        if observed \<noteq> expected_payload then Inl PayloadDrift
        else case find (\<lambda>s. dss_keyid s = ms_keyid signer) (dse_signatures e) of
            None \<Rightarrow> Inl (UnknownKey (ms_keyid signer))
          | Some s \<Rightarrow> rbind (read_standard_base64 ops (dss_sig s)) (\<lambda>sig_bytes.
              ms_verify_pae signer (pae expected_type expected_payload) sig_bytes)))"

section \<open>The mock signer\<close>

definition fnv1a :: "string \<Rightarrow> u64" where
  "fnv1a bytes = fold (\<lambda>c state. (xor state (of_nat (byte c))) * 0x00000100000001b3) bytes 0xcbf29ce484222325"

definition digest_byte :: "u64 \<Rightarrow> nat \<Rightarrow> char" where
  "digest_byte state i =
     (let r = word_rotl (i * 7 mod 64) state
      in char_of (unat (ucast (xor r (drop_bit 8 r)) :: u8)))"

definition mock_digest :: "string \<Rightarrow> string" where
  "mock_digest bytes = map (digest_byte (fnv1a bytes)) [0 ..< 32]"

definition mock_manifest_signer :: "string \<Rightarrow> manifest_signer" where
  "mock_manifest_signer keyid =
     \<lparr>ms_keyid = keyid,
      ms_sign_pae = (\<lambda>m. Inr (''mock-dsse:'' @ mock_digest m)),
      ms_verify_pae = (\<lambda>m s. if ''mock-dsse:'' @ mock_digest m = s then Inr () else Inl (BadSignature keyid))\<rparr>"

section \<open>The signed text identifies type and payload\<close>

lemma digits_then_space:
  "list_all is_digit a \<Longrightarrow> list_all is_digit b \<Longrightarrow> a @ CHR '' '' # s = b @ CHR '' '' # t \<Longrightarrow> a = b \<and> s = t"
proof (induction a arbitrary: b)
  case Nil
  then show ?case by (cases b) (auto simp: is_digit_def byte_def)
next
  case (Cons c a)
  then show ?case by (cases b) (auto simp: is_digit_def byte_def)
qed

text \<open>A length, a space and as many bytes.\<close>

definition counted :: "string \<Rightarrow> string" where
  "counted s = show_nat (length s) @ '' '' @ s"

interpretation counted: self_delimiting counted "\<lambda>_. True"
proof
  fix x y s t
  assume "counted x @ s = counted y @ t"
  then have "show_nat (length x) @ CHR '' '' # x @ s = show_nat (length y) @ CHR '' '' # y @ t"
    by (simp add: counted_def)
  with digits_then_space [of "show_nat (length x)" "show_nat (length y)"]
  have "length x = length y" "x @ s = y @ t"
    using show_nat_digits by (auto simp: list_all_iff show_nat_inj)
  then show "x = y" by simp
qed

lemma pae_inj: "pae t p = pae t' p' \<longleftrightarrow> t = t' \<and> p = p'"
proof
  assume "pae t p = pae t' p'"
  then have "counted t @ '' '' @ counted p = counted t' @ '' '' @ counted p'"
    by (simp add: pae_def counted_def)
  then have "t = t' \<and> '' '' @ counted p = '' '' @ counted p'" by (intro counted.enc_rest) simp_all
  with counted.enc_inj [of p p'] show "t = t' \<and> p = p'" by simp
qed simp

section \<open>What verification decides\<close>

theorem verify_envelope_iff:
  "verify_envelope ops e ty payload signer = Inr () \<longleftrightarrow>
     dse_payload_type e = ty \<and> do_b64_decode ops (dse_payload e) = Inr payload
     \<and> (case find (\<lambda>s. dss_keyid s = ms_keyid signer) (dse_signatures e) of
           None \<Rightarrow> False
         | Some s \<Rightarrow> (case do_b64_decode ops (dss_sig s) of
              Inl _ \<Rightarrow> False | Inr sig_bytes \<Rightarrow> ms_verify_pae signer (pae ty payload) sig_bytes = Inr ()))"
  by (cases "dse_signatures e")
    (auto simp: verify_envelope_def rbind_Inr_iff decoded_payload_def read_standard_base64_def split: sum.splits option.splits)

lemma wrap_verifies:
  assumes "wrap ops signer ty payload = Inr e"
    and "\<And>s. ms_sign_pae signer (pae ty payload) = Inr s \<Longrightarrow>
      ms_verify_pae signer (pae ty payload) s = Inr () \<and> do_b64_decode ops (do_b64_encode ops s) = Inr s"
    and "do_b64_decode ops (do_b64_encode ops payload) = Inr payload"
  shows "verify_envelope ops e ty payload signer = Inr ()"
  using assms by (auto simp: wrap_def rbind_Inr_iff verify_envelope_iff)

text \<open>
  A signer that accepts only what it was asked to sign makes envelopes authentic: the accepted payload was
  signed, under the accepted type.
\<close>

lemma envelope_authentic:
  assumes "\<And>m s. ms_verify_pae signer m s = Inr () \<Longrightarrow> m \<in> (\<lambda>(ty, p). pae ty p) ` asked"
    and "verify_envelope ops e ty payload signer = Inr ()"
  shows "(ty, payload) \<in> asked"
proof -
  from assms(2) obtain s where "ms_verify_pae signer (pae ty payload) s = Inr ()"
    by (auto simp: verify_envelope_iff split: option.splits sum.splits)
  from assms(1) [OF this] show ?thesis by (auto simp: pae_inj)
qed

end
