(* ===== verification/Signer.thy ===== *)
theory Signer
  imports Rust_Map Json_Value
begin

text \<open>
  \<open>crates/signer/src/lib.rs\<close>: the signing surface with its software signer, its mock and the client of
  the signing daemon.  The keyed hash, the hash and the exchange with the daemon are parameters; the
  base64 encoder is the one written in the crate.
\<close>

unbundle bit_operations_syntax

section \<open>Requests and signatures\<close>

record signature_rec =
  sig_key_ref :: string
  sig_algorithm :: string
  sig_b64 :: string

record sign_request =
  sr_payload :: string
  sr_key_ref :: string

datatype signing_error =
    UnknownKeyRef string
  | SignerUnavailable string
  | SignerRefused string

fun signing_error_text :: "signing_error \<Rightarrow> string" where
  "signing_error_text (UnknownKeyRef k) = ''unknown key reference: '' @ k"
| "signing_error_text (SignerUnavailable e) = ''signer backend unavailable: '' @ e"
| "signing_error_text (SignerRefused e) = ''signer refused: '' @ e"

section \<open>Base64\<close>

definition b64_alphabet :: string where
  "b64_alphabet = ''ABCDEFGHIJKLMNOPQRSTUVWXYZabcdefghijklmnopqrstuvwxyz0123456789+/''"

definition b64_char :: "u8 \<Rightarrow> char" where
  "b64_char w = b64_alphabet ! unat w"

fun base64_encode :: "u8 list \<Rightarrow> string" where
  "base64_encode (b0 # b1 # b2 # rest) =
     b64_char (drop_bit 2 b0) # b64_char ((push_bit 4 (b0 AND 3)) OR drop_bit 4 b1)
     # b64_char ((push_bit 2 (b1 AND 15)) OR drop_bit 6 b2) # b64_char (b2 AND 63) # base64_encode rest"
| "base64_encode [b0, b1] =
     [b64_char (drop_bit 2 b0), b64_char ((push_bit 4 (b0 AND 3)) OR drop_bit 4 b1),
      b64_char (push_bit 2 (b1 AND 15)), CHR ''='']"
| "base64_encode [b0] = [b64_char (drop_bit 2 b0), b64_char (push_bit 4 (b0 AND 3)), CHR ''='', CHR ''='']"
| "base64_encode [] = []"

section \<open>Signers\<close>

text \<open>A request's answer; \<open>mac\<close> is BLAKE3 keyed hashing.\<close>

type_synonym signer = "sign_request \<Rightarrow> signing_error + signature_rec"

definition software_sign :: "(u8 list \<Rightarrow> string \<Rightarrow> u8 list) \<Rightarrow> (string, u8 list) btree \<Rightarrow> signer" where
  "software_sign mac keys req =
     (case map_of keys (sr_key_ref req) of
        None \<Rightarrow> Inl (UnknownKeyRef (sr_key_ref req))
      | Some key \<Rightarrow> Inr \<lparr>sig_key_ref = sr_key_ref req, sig_algorithm = ''blake3-keyed-256'',
          sig_b64 = base64_encode (mac key (sr_payload req))\<rparr>)"

definition software_with_key :: "string \<Rightarrow> u8 list \<Rightarrow> (string, u8 list) btree \<Rightarrow> (string, u8 list) btree" where
  "software_with_key key_ref bytes keys = btree_insert key_ref bytes keys"

definition software_list_keys :: "(string, u8 list) btree \<Rightarrow> string list" where
  "software_list_keys keys = map fst keys"

record mock_signer =
  msg_calls :: "sign_request list"
  msg_known_keys :: "string list"

definition mock_signer_new :: "string list \<Rightarrow> mock_signer" where
  "mock_signer_new known = \<lparr>msg_calls = [], msg_known_keys = known\<rparr>"

definition mock_sign :: "(string \<Rightarrow> u8 list) \<Rightarrow> mock_signer \<Rightarrow> sign_request
    \<Rightarrow> (signing_error + signature_rec) \<times> mock_signer" where
  "mock_sign hash m req =
     (if sr_key_ref req \<notin> set (msg_known_keys m) then (Inl (UnknownKeyRef (sr_key_ref req)), m)
      else (Inr \<lparr>sig_key_ref = sr_key_ref req, sig_algorithm = ''mock-blake3-256'',
              sig_b64 = base64_encode (hash (sr_payload req))\<rparr>,
            m\<lparr>msg_calls := msg_calls m @ [req]\<rparr>))"

section \<open>The client of the daemon\<close>

text \<open>
  One exchange with the daemon: a line is sent and a line is read, or the socket fails; \<open>dm_parse\<close> reads
  JSON and \<open>dm_signature\<close> reads a signature from a JSON value.
\<close>

record daemon_io =
  dm_exchange :: "serde_value \<Rightarrow> signing_error + string"
  dm_parse :: "string \<Rightarrow> string + serde_value"
  dm_signature :: "serde_value \<Rightarrow> string + signature_rec"

definition map_daemon_error :: "string \<Rightarrow> signing_error" where
  "map_daemon_error err =
     (case strip_prefix ''unknown key reference: '' err of None \<Rightarrow> SignerRefused err | Some key \<Rightarrow> UnknownKeyRef key)"

definition daemon_rpc :: "daemon_io \<Rightarrow> string \<Rightarrow> serde_value \<Rightarrow> signing_error + serde_value" where
  "daemon_rpc io method params =
     rbind (dm_exchange io (SObject [(''method'', SString method), (''params'', params)])) (\<lambda>response.
       case dm_parse io (trim response) of
         Inl err \<Rightarrow> Inl (SignerRefused (''malformed daemon response: '' @ err))
       | Inr value \<Rightarrow>
           (case Option.bind (json_get value ''error'') json_as_str of
              Some err \<Rightarrow> Inl (map_daemon_error err) | None \<Rightarrow> Inr value))"

definition payload_bytes :: "string \<Rightarrow> u8 list" where
  "payload_bytes payload = map (\<lambda>c. of_nat (byte c)) payload"

definition sign_params :: "sign_request \<Rightarrow> serde_value" where
  "sign_params req =
     SObject [(''key_ref'', SString (sr_key_ref req)), (''payload_b64'', SString (base64_encode (payload_bytes (sr_payload req))))]"

fun key_texts :: "serde_value list \<Rightarrow> signing_error + string list" where
  "key_texts [] = Inr []"
| "key_texts (key # keys) =
     (case json_as_str key of
        None \<Rightarrow> Inl (SignerRefused ''list_keys key is not a string'')
      | Some k \<Rightarrow> rbind (key_texts keys) (\<lambda>ks. Inr (k # ks)))"

definition parse_list_keys_response :: "serde_value \<Rightarrow> signing_error + string list" where
  "parse_list_keys_response value =
     (case Option.bind (json_get value ''keys'') json_as_array of
        None \<Rightarrow> Inl (SignerRefused ''list_keys response missing keys'')
      | Some keys \<Rightarrow> key_texts keys)"

definition try_list_keys :: "daemon_io \<Rightarrow> signing_error + string list" where
  "try_list_keys io = rbind (daemon_rpc io ''list_keys'' (SObject [])) parse_list_keys_response"

definition daemon_sign :: "daemon_io \<Rightarrow> signer" where
  "daemon_sign io req =
     rbind (daemon_rpc io ''sign'' (sign_params req)) (\<lambda>value.
       case dm_signature io value of
         Inl err \<Rightarrow> Inl (SignerRefused (''malformed signature response: '' @ err))
       | Inr s \<Rightarrow> Inr s)"

definition daemon_list_keys :: "daemon_io \<Rightarrow> string list" where
  "daemon_list_keys io = (case try_list_keys io of Inl _ \<Rightarrow> [] | Inr ks \<Rightarrow> ks)"

section \<open>Base64 identifies the bytes\<close>

lemma b64_char_inj: "unat v < 64 \<Longrightarrow> unat w < 64 \<Longrightarrow> b64_char v = b64_char w \<Longrightarrow> v = w"
proof -
  have "distinct b64_alphabet" "length b64_alphabet = 64" by (simp_all add: b64_alphabet_def)
  then show "unat v < 64 \<Longrightarrow> unat w < 64 \<Longrightarrow> b64_char v = b64_char w \<Longrightarrow> v = w"
    by (simp add: b64_char_def nth_eq_iff_index_eq word_unat_eq_iff)
qed

lemma b64_char_pad: "unat w < 64 \<Longrightarrow> b64_char w \<noteq> CHR ''=''"
proof -
  have "CHR ''='' \<notin> set b64_alphabet" "length b64_alphabet = 64" by (simp_all add: b64_alphabet_def)
  then show "unat w < 64 \<Longrightarrow> b64_char w \<noteq> CHR ''=''" unfolding b64_char_def by (metis nth_mem)
qed

lemma byte_bit: "bit w n \<Longrightarrow> n < 8" for w :: u8
  using bit_imp_le_length [of w n] by simp

lemma sextet_iff: "unat w < 64 \<longleftrightarrow> (\<forall>n. 6 \<le> n \<longrightarrow> \<not> bit w n)" for w :: u8
proof -
  have "unat w < 64 \<longleftrightarrow> unat (take_bit 6 w) = unat w"
    by (simp only: unsigned_take_bit_eq) (auto simp: take_bit_eq_mod mod_less_divisor mod_eq_self_iff_div_eq_0)
  also have "\<dots> \<longleftrightarrow> (\<forall>n. 6 \<le> n \<longrightarrow> \<not> bit w n)"
    unfolding word_unat_eq_iff [symmetric] using byte_bit by (fastforce simp: bit_eq_iff bit_take_bit_iff not_le)
  finally show ?thesis .
qed

lemma byte_masks:
  fixes b :: u8
  shows "b AND 3 = take_bit 2 b" "b AND 15 = take_bit 4 b" "b AND 63 = take_bit 6 b"
  by (simp_all add: take_bit_eq_mask mask_eq_exp_minus_1)

lemmas byte_bits = byte_masks bit_take_bit_iff bit_push_bit_iff bit_drop_bit_eq bit_or_iff

lemma sextets [simp]:
  fixes b0 b1 b2 :: u8
  shows "unat (drop_bit 2 b0) < 64" "unat ((push_bit 4 (b0 AND 3)) OR drop_bit 4 b1) < 64"
    "unat (push_bit 4 (b0 AND 3)) < 64" "unat ((push_bit 2 (b1 AND 15)) OR drop_bit 6 b2) < 64"
    "unat (push_bit 2 (b1 AND 15)) < 64" "unat (b2 AND 63) < 64"
  unfolding sextet_iff by (auto simp: byte_bits o_def dest!: byte_bit)

text \<open>Four sextets give back three bytes.\<close>

lemma first_byte:
  fixes b0 c0 b1 c1 :: u8
  assumes "drop_bit 2 b0 = drop_bit 2 c0" "push_bit 4 (b0 AND 3) OR drop_bit 4 b1 = push_bit 4 (c0 AND 3) OR drop_bit 4 c1"
  shows "b0 = c0" "drop_bit 4 b1 = drop_bit 4 c1"
proof -
  show "b0 = c0"
  proof (rule bit_word_eqI)
    fix n assume "n < LENGTH(8)"
    show "bit b0 n = bit c0 n"
    proof (cases "n < 2")
      case True
      have "bit (push_bit 4 (b0 AND 3) OR drop_bit 4 b1) (n + 4) = bit (push_bit 4 (c0 AND 3) OR drop_bit 4 c1) (n + 4)"
        by (simp only: assms(2))
      with True show ?thesis by (auto simp: byte_bits dest: byte_bit)
    next
      case False
      have "bit (drop_bit 2 b0) (n - 2) = bit (drop_bit 2 c0) (n - 2)" by (simp only: assms(1))
      with False show ?thesis by (simp add: bit_drop_bit_eq o_def del: add_2_eq_Suc)
    qed
  qed
  show "drop_bit 4 b1 = drop_bit 4 c1"
  proof (rule bit_word_eqI)
    fix n assume "n < LENGTH(8)"
    have "bit (push_bit 4 (b0 AND 3) OR drop_bit 4 b1) n = bit (push_bit 4 (c0 AND 3) OR drop_bit 4 c1) n"
      by (simp only: assms(2))
    then show "bit (drop_bit 4 b1) n = bit (drop_bit 4 c1) n"
      by (cases "n < 4") (auto simp: byte_bits dest: byte_bit)
  qed
qed

lemma byte_of_halves:
  fixes b c :: u8
  assumes "drop_bit k b = drop_bit k c" "take_bit k b = take_bit k c"
  shows "b = c"
  using assms by (metis bits_ident)

lemma second_byte:
  fixes b1 c1 b2 c2 :: u8
  assumes "drop_bit 4 b1 = drop_bit 4 c1" "push_bit 2 (b1 AND 15) OR drop_bit 6 b2 = push_bit 2 (c1 AND 15) OR drop_bit 6 c2"
  shows "b1 = c1" "drop_bit 6 b2 = drop_bit 6 c2"
proof -
  have eq: "bit (push_bit 2 (b1 AND 15) OR drop_bit 6 b2) n = bit (push_bit 2 (c1 AND 15) OR drop_bit 6 c2) n" for n
    by (simp only: assms(2))
  show "b1 = c1"
  proof (rule byte_of_halves [OF assms(1)], rule bit_word_eqI)
    fix n assume "n < LENGTH(8)"
    show "bit (take_bit 4 b1) n = bit (take_bit 4 c1) n"
      using eq [of "n + 2"] by (auto simp: byte_bits o_def dest: byte_bit)
  qed
  show "drop_bit 6 b2 = drop_bit 6 c2"
  proof (rule bit_word_eqI)
    fix n assume "n < LENGTH(8)"
    show "bit (drop_bit 6 b2) n = bit (drop_bit 6 c2) n"
      using eq [of n] by (cases "n < 2") (auto simp: byte_bits o_def dest: byte_bit)
  qed
qed

lemmas pads = sextets [THEN b64_char_pad]

lemmas unpadded = base64_encode.simps list.inject list.distinct pads pads [symmetric] simp_thms

lemma base64_encode_inj: "base64_encode bs = base64_encode cs \<Longrightarrow> bs = cs"
proof (induction bs arbitrary: cs rule: base64_encode.induct)
  case (1 b0 b1 b2 rest)
  show ?case
  proof (cases cs rule: base64_encode.cases)
    case c: (1 c0 c1 c2 more)
    note eq = 1(2) [unfolded c base64_encode.simps list.inject]
    note first = first_byte [OF b64_char_inj [OF sextets(1) sextets(1)] b64_char_inj [OF sextets(2) sextets(2)]]
    from eq have "b0 = c0" "drop_bit 4 b1 = drop_bit 4 c1" by (blast intro: first)+
    note second = second_byte [OF this(2) b64_char_inj [OF sextets(4) sextets(4)]]
    from eq have "b1 = c1" "drop_bit 6 b2 = drop_bit 6 c2" by (blast intro: second)+
    moreover have "b2 AND 63 = c2 AND 63" using eq b64_char_inj [OF sextets(6) sextets(6)] by blast
    then have "b2 = c2" using byte_of_halves [OF \<open>drop_bit 6 b2 = drop_bit 6 c2\<close>] by (simp add: byte_masks)
    moreover have "rest = more" using 1(1) eq by blast
    ultimately show ?thesis using c \<open>b0 = c0\<close> by simp
  qed (use 1(2) in \<open>simp_all only: unpadded\<close>)
next
  case (2 b0 b1)
  show ?case
  proof (cases cs rule: base64_encode.cases)
    case c: (2 c0 c1)
    note eq = 2 [unfolded c base64_encode.simps list.inject]
    note first = first_byte [OF b64_char_inj [OF sextets(1) sextets(1)] b64_char_inj [OF sextets(2) sextets(2)]]
    from eq have "b0 = c0" "drop_bit 4 b1 = drop_bit 4 c1" by (blast intro: first)+
    moreover have "push_bit 2 (b1 AND 15) = push_bit 2 (c1 AND 15)" using eq b64_char_inj [OF sextets(5) sextets(5)] by blast
    then have "b1 = c1" using second_byte(1) [OF calculation(2), of 0 0] by simp
    ultimately show ?thesis using c by simp
  qed (use 2 in \<open>simp_all only: unpadded\<close>)
next
  case (3 b0)
  show ?case
  proof (cases cs rule: base64_encode.cases)
    case c: (3 c0)
    note eq = 3 [unfolded c base64_encode.simps list.inject]
    have "drop_bit 2 b0 = drop_bit 2 c0" using eq b64_char_inj [OF sextets(1) sextets(1)] by blast
    moreover have "push_bit 4 (b0 AND 3) = push_bit 4 (c0 AND 3)" using eq b64_char_inj [OF sextets(3) sextets(3)] by blast
    ultimately show ?thesis using c first_byte(1) [of b0 c0 0 0] by simp
  qed (use 3 in \<open>simp_all only: unpadded\<close>)
next
  case 4
  then show ?case by (cases cs rule: base64_encode.cases) simp_all
qed

end
