(* ===== verification/Verify.thy ===== *)
theory Verify
  imports Dsse Signer Archive
begin

text \<open>
  \<open>crates/timestamping/src/lib.rs\<close> and \<open>crates/verify/src/lib.rs\<close>: time stamps over an imprint, and the report
  on a bundle with its four checks.  BLAKE3 as 32 bytes and the \<open>Debug\<close> form of a string are parameters.
\<close>

section \<open>Time stamps\<close>

datatype hash_algorithm = Sha256 | Sha384 | Sha512 | Blake3

fun hash_slug :: "hash_algorithm \<Rightarrow> string" where
  "hash_slug Sha256 = ''sha-256''"
| "hash_slug Sha384 = ''sha-384''"
| "hash_slug Sha512 = ''sha-512''"
| "hash_slug Blake3 = ''blake3''"

record timestamp_request =
  tr_algorithm :: hash_algorithm
  tr_imprint :: string
  tr_nonce :: "u64 option"
  tr_cert_req :: bool

record rfc_timestamp =
  ts_token :: string
  ts_algorithm :: hash_algorithm
  ts_imprint :: string
  ts_generated_at :: string
  ts_tsa_name :: string
  ts_serial :: string

datatype timestamping_error =
    BadImprintLength string nat nat
  | TsRefused string
  | TsTransport string
  | TsMalformed string
  | ImprintDrift

fun timestamping_error_text :: "timestamping_error \<Rightarrow> string" where
  "timestamping_error_text (BadImprintLength algorithm expected got) =
     ''hash imprint length mismatch for '' @ algorithm @ '': expected '' @ show_nat expected @ '', got '' @ show_nat got"
| "timestamping_error_text (TsRefused e) = ''TSA refused: '' @ e"
| "timestamping_error_text (TsTransport e) = ''TSA transport failure: '' @ e"
| "timestamping_error_text (TsMalformed e) = ''TSA response was not a valid TimeStampToken: '' @ e"
| "timestamping_error_text ImprintDrift = ''timestamp message imprint drifted''"

fun imprint_length :: "hash_algorithm \<Rightarrow> nat" where
  "imprint_length Sha384 = 48"
| "imprint_length Sha512 = 64"
| "imprint_length _ = 32"

definition validate_imprint_length :: "hash_algorithm \<Rightarrow> nat \<Rightarrow> timestamping_error + unit" where
  "validate_imprint_length algorithm observed =
     (if observed = imprint_length algorithm then Inr ()
      else Inl (BadImprintLength (hash_slug algorithm) (imprint_length algorithm) observed))"

text \<open>The mock authority: its name, its fixed time and the next serial number, a \<open>u64\<close>.\<close>

record mock_tsa =
  mt_fixed_time :: string
  mt_tsa_name :: string
  mt_next_serial :: u64

definition mock_tsa_with :: "string \<Rightarrow> string \<Rightarrow> mock_tsa" where
  "mock_tsa_with fixed_time tsa_name = \<lparr>mt_fixed_time = fixed_time, mt_tsa_name = tsa_name, mt_next_serial = 1\<rparr>"

definition mock_tsa_new :: mock_tsa where
  "mock_tsa_new = mock_tsa_with ''2026-01-01T00:00:00Z'' ''mock-tsa''"

text \<open>\<open>token_json\<close> is the JSON of the token's fields.\<close>

definition mock_request_timestamp :: "(mock_tsa \<Rightarrow> timestamp_request \<Rightarrow> u64 \<Rightarrow> string + string) \<Rightarrow> mock_tsa \<Rightarrow> timestamp_request
    \<Rightarrow> (timestamping_error + rfc_timestamp) \<times> mock_tsa" where
  "mock_request_timestamp token_json tsa req =
     (case validate_imprint_length (tr_algorithm req) (length (tr_imprint req)) of
        Inl e \<Rightarrow> (Inl e, tsa)
      | Inr _ \<Rightarrow>
          let serial = mt_next_serial tsa; tsa' = tsa\<lparr>mt_next_serial := serial + 1\<rparr>
          in (case token_json tsa req serial of
                Inl e \<Rightarrow> (Inl (TsMalformed e), tsa')
              | Inr token \<Rightarrow> (Inr \<lparr>ts_token = token, ts_algorithm = tr_algorithm req, ts_imprint = tr_imprint req,
                  ts_generated_at = mt_fixed_time tsa, ts_tsa_name = mt_tsa_name tsa, ts_serial = show_nat (unat serial)\<rparr>, tsa')))"

definition mock_verify_timestamp :: "rfc_timestamp \<Rightarrow> string \<Rightarrow> timestamping_error + unit" where
  "mock_verify_timestamp ts imprint = (if ts_imprint ts \<noteq> imprint then Inl ImprintDrift else Inr ())"

section \<open>Reports\<close>

type_synonym timestamp_client = "rfc_timestamp \<Rightarrow> string \<Rightarrow> timestamping_error + unit"

record verify_options =
  vo_signer :: "signer option"
  vo_signature :: "signature_rec option"
  vo_dsse_signer :: "manifest_signer option"
  vo_require_dsse :: bool
  vo_client :: "timestamp_client option"
  vo_timestamp :: "rfc_timestamp option"
  vo_algorithm :: hash_algorithm

definition content_only :: verify_options where
  "content_only = \<lparr>vo_signer = None, vo_signature = None, vo_dsse_signer = None, vo_require_dsse = False,
     vo_client = None, vo_timestamp = None, vo_algorithm = Blake3\<rparr>"

datatype check_outcome = CheckPassed | CheckSkipped string | CheckFailed string

fun check_is_passed :: "check_outcome \<Rightarrow> bool" where
  "check_is_passed CheckPassed = True"
| "check_is_passed _ = False"

fun check_is_failed :: "check_outcome \<Rightarrow> bool" where
  "check_is_failed (CheckFailed _) = True"
| "check_is_failed _ = False"

record verify_report =
  vr_ok :: bool
  vr_content_address :: check_outcome
  vr_signature :: check_outcome
  vr_manifest_envelope :: check_outcome
  vr_timestamp :: check_outcome

record verify_ops = bundle_ops +
  vf_dsse :: dsse_ops
  vf_blake3 :: "string \<Rightarrow> string"
  vf_debug :: "string \<Rightarrow> string"

definition bundle_part :: "verify_ops \<Rightarrow> bundle_ops" where
  "bundle_part = bundle_ops.truncate"

fun dsse_error_text :: "(string \<Rightarrow> string) \<Rightarrow> dsse_error \<Rightarrow> string" where
  "dsse_error_text dbg (BadBase64 e) = ''base64 decode failure: '' @ e"
| "dsse_error_text dbg (ManifestSerialize e) = ''manifest serialise failure: '' @ e"
| "dsse_error_text dbg NoSignatures = ''envelope carries no signatures''"
| "dsse_error_text dbg (DsseSignerError e) = ''signer/verifier error: '' @ e"
| "dsse_error_text dbg (UnknownKey k) = ''no signature found for keyid '' @ dbg k"
| "dsse_error_text dbg (BadSignature k) = ''signature did not verify for keyid '' @ dbg k"
| "dsse_error_text dbg (PayloadTypeDrift expected got) = ''payload type drift: expected '' @ dbg expected @ '', got '' @ dbg got"
| "dsse_error_text dbg PayloadDrift = ''payload drift: envelope payload differs from re-computed manifest''"

definition run_content_address_check :: "verify_ops \<Rightarrow> evidence_bundle \<Rightarrow> check_outcome" where
  "run_content_address_check ops b =
     (case ev_pack (bundle_part ops) b of
        Inl err \<Rightarrow> CheckFailed (''bundle re-pack failed: '' @ bundle_error_text err)
      | Inr packed \<Rightarrow>
          (case ev_unpack (bundle_part ops) packed of
             Inl err \<Rightarrow> CheckFailed (''bundle re-unpack rejected: '' @ bundle_error_text err)
           | Inr again \<Rightarrow> if again = b then CheckPassed else CheckFailed ''bundle re-pack round-trip drifted''))"

definition manifest_bytes :: "verify_ops \<Rightarrow> evidence_bundle \<Rightarrow> bundle_error + string" where
  "manifest_bytes ops b =
     rbind (ev_pack (bundle_part ops) b) (\<lambda>packed.
     rbind (ev_unpack (bundle_part ops) packed) (\<lambda>again.
       bad_json (bo_manifest_to_vec ops (evb_manifest again))))"

definition manifest_payload :: "verify_ops \<Rightarrow> evidence_bundle \<Rightarrow> check_outcome + string" where
  "manifest_payload ops b =
     (case manifest_bytes ops b of
        Inl err \<Rightarrow> Inl (CheckFailed (''manifest re-serialise failed: '' @ bundle_error_text err))
      | Inr bytes \<Rightarrow> Inr bytes)"

definition run_signature_check :: "verify_ops \<Rightarrow> evidence_bundle \<Rightarrow> verify_options \<Rightarrow> check_outcome" where
  "run_signature_check ops b options =
     (case vo_signer options of
        None \<Rightarrow> CheckSkipped ''no signer supplied''
      | Some sign \<Rightarrow>
     (case vo_signature options of
        None \<Rightarrow> CheckSkipped ''no signature supplied''
      | Some signature \<Rightarrow>
     (case manifest_payload ops b of
        Inl outcome \<Rightarrow> outcome
      | Inr payload \<Rightarrow>
     (case sign \<lparr>sr_payload = payload, sr_key_ref = sig_key_ref signature\<rparr> of
        Inr recomputed \<Rightarrow>
          if sig_algorithm recomputed = sig_algorithm signature \<and> sig_b64 recomputed = sig_b64 signature then CheckPassed
          else CheckFailed (''signature mismatch (alg manifest='' @ sig_algorithm signature @ '', observed=''
            @ sig_algorithm recomputed @ '')'')
      | Inl (UnknownKeyRef k) \<Rightarrow> CheckFailed (''signer rejects key: '' @ k)
      | Inl err \<Rightarrow> CheckFailed (''signer error: '' @ signing_error_text err)))))"

definition dsse_missing :: string where
  "dsse_missing = ''manifest DSSE artefact missing: '' @ manifest_signature_artefact_id"

definition run_manifest_envelope_check :: "verify_ops \<Rightarrow> evidence_bundle \<Rightarrow> verify_options \<Rightarrow> check_outcome" where
  "run_manifest_envelope_check ops b options =
     (case vo_dsse_signer options of
        None \<Rightarrow>
          if vo_require_dsse options \<and> map_of (evb_artefacts b) manifest_signature_artefact_id = None
          then CheckFailed dsse_missing else CheckSkipped ''no manifest DSSE signer supplied''
      | Some signer \<Rightarrow>
     (case map_of (evb_artefacts b) manifest_signature_artefact_id of
        None \<Rightarrow> CheckFailed dsse_missing
      | Some bytes \<Rightarrow>
     (case do_envelope_from_slice (vf_dsse ops) bytes of
        Inl err \<Rightarrow> CheckFailed (''manifest DSSE parse failed: '' @ err)
      | Inr envelope \<Rightarrow>
     (case manifest_payload ops b of
        Inl outcome \<Rightarrow> outcome
      | Inr payload \<Rightarrow>
     (case verify_envelope (vf_dsse ops) envelope manifest_payload_type payload signer of
        Inr _ \<Rightarrow> CheckPassed
      | Inl err \<Rightarrow> CheckFailed (''manifest DSSE verification failed: '' @ dsse_error_text (vf_debug ops) err))))))"

definition recompute_imprint :: "verify_ops \<Rightarrow> hash_algorithm \<Rightarrow> string \<Rightarrow> string" where
  "recompute_imprint ops algorithm payload =
     (case algorithm of
        Sha384 \<Rightarrow> vf_blake3 ops payload @ replicate 16 (CHR 0x00)
      | Sha512 \<Rightarrow> vf_blake3 ops payload @ replicate 32 (CHR 0x00)
      | _ \<Rightarrow> vf_blake3 ops payload)"

definition run_timestamp_check :: "verify_ops \<Rightarrow> evidence_bundle \<Rightarrow> verify_options \<Rightarrow> check_outcome" where
  "run_timestamp_check ops b options =
     (case vo_client options of
        None \<Rightarrow> CheckSkipped ''no timestamp client supplied''
      | Some verify_timestamp \<Rightarrow>
     (case vo_timestamp options of
        None \<Rightarrow> CheckSkipped ''no timestamp record supplied''
      | Some ts \<Rightarrow>
     (case manifest_payload ops b of
        Inl outcome \<Rightarrow> outcome
      | Inr manifest \<Rightarrow>
     (case verify_timestamp ts (recompute_imprint ops (vo_algorithm options) manifest) of
        Inr _ \<Rightarrow> CheckPassed
      | Inl ImprintDrift \<Rightarrow> CheckFailed ''timestamp imprint disagrees with re-hashed manifest''
      | Inl err \<Rightarrow> CheckFailed (''timestamp verify error: '' @ timestamping_error_text err)))))"

definition verify_bundle :: "verify_ops \<Rightarrow> evidence_bundle \<Rightarrow> verify_options \<Rightarrow> verify_report" where
  "verify_bundle ops b options =
     (let content = run_content_address_check ops b; signature = run_signature_check ops b options;
          envelope = run_manifest_envelope_check ops b options; stamp = run_timestamp_check ops b options
      in \<lparr>vr_ok = (\<not> check_is_failed content \<and> \<not> check_is_failed signature \<and> \<not> check_is_failed envelope
            \<and> \<not> check_is_failed stamp),
          vr_content_address = content, vr_signature = signature, vr_manifest_envelope = envelope, vr_timestamp = stamp\<rparr>)"

definition verify_packed :: "verify_ops \<Rightarrow> string \<Rightarrow> verify_options \<Rightarrow> bundle_error + verify_report" where
  "verify_packed ops bytes options =
     rbind (ev_unpack (bundle_part ops) bytes) (\<lambda>b. Inr (verify_bundle ops b options))"

datatype sign_bundle_error = SignManifest bundle_error | SignRefused signing_error

definition sign_bundle :: "verify_ops \<Rightarrow> evidence_bundle \<Rightarrow> signer \<Rightarrow> string \<Rightarrow> sign_bundle_error + signature_rec" where
  "sign_bundle ops b sign key_ref =
     (case manifest_bytes ops b of
        Inl e \<Rightarrow> Inl (SignManifest e)
      | Inr payload \<Rightarrow>
          (case sign \<lparr>sr_payload = payload, sr_key_ref = key_ref\<rparr> of Inl e \<Rightarrow> Inl (SignRefused e) | Inr s \<Rightarrow> Inr s))"

section \<open>What the report says\<close>

lemma bundle_part_simps [simp]:
  "bo_manifest_to_vec (bundle_part ops) = bo_manifest_to_vec ops" "bo_blake3_hex (bundle_part ops) = bo_blake3_hex ops"
  by (simp_all add: bundle_part_def bundle_ops.truncate_def)

text \<open>The three checks on the bytes of the manifest.\<close>

definition signature_holds :: "verify_options \<Rightarrow> string \<Rightarrow> bool" where
  "signature_holds options payload \<longleftrightarrow>
     (case (vo_signer options, vo_signature options) of
        (Some sign, Some s) \<Rightarrow>
          (case sign \<lparr>sr_payload = payload, sr_key_ref = sig_key_ref s\<rparr> of
             Inl _ \<Rightarrow> False | Inr r \<Rightarrow> sig_algorithm r = sig_algorithm s \<and> sig_b64 r = sig_b64 s)
      | _ \<Rightarrow> True)"

definition envelope_holds :: "verify_ops \<Rightarrow> evidence_bundle \<Rightarrow> verify_options \<Rightarrow> string \<Rightarrow> bool" where
  "envelope_holds ops b options payload \<longleftrightarrow>
     (case (vo_dsse_signer options, map_of (evb_artefacts b) ''signatures/manifest.dsse'') of
        (None, None) \<Rightarrow> \<not> vo_require_dsse options
      | (None, Some _) \<Rightarrow> True
      | (Some _, None) \<Rightarrow> False
      | (Some signer, Some bytes) \<Rightarrow>
          (case do_envelope_from_slice (vf_dsse ops) bytes of
             Inl _ \<Rightarrow> False
           | Inr e \<Rightarrow> verify_envelope (vf_dsse ops) e manifest_payload_type payload signer = Inr ()))"

definition stamp_holds :: "verify_ops \<Rightarrow> verify_options \<Rightarrow> string \<Rightarrow> bool" where
  "stamp_holds ops options payload \<longleftrightarrow>
     (case (vo_client options, vo_timestamp options) of
        (Some check, Some ts) \<Rightarrow> check ts (recompute_imprint ops (vo_algorithm options) payload) = Inr ()
      | _ \<Rightarrow> True)"

definition repacks :: "verify_ops \<Rightarrow> evidence_bundle \<Rightarrow> bool" where
  "repacks ops b \<longleftrightarrow>
     (case ev_pack (bundle_part ops) b of Inl _ \<Rightarrow> False | Inr z \<Rightarrow> ev_unpack (bundle_part ops) z = Inr b)"

lemma content_address_iff: "run_content_address_check ops b = CheckPassed \<longleftrightarrow> repacks ops b"
  "check_is_failed (run_content_address_check ops b) \<longleftrightarrow> \<not> repacks ops b"
  by (auto simp: run_content_address_check_def repacks_def split: sum.splits)

lemma repacks_manifest:
  assumes "repacks ops b"
  shows "\<exists>payload. bo_manifest_to_vec ops (evb_manifest b) = Inr payload \<and> manifest_payload ops b = Inr payload"
proof -
  obtain z where z: "ev_pack (bundle_part ops) b = Inr z" "ev_unpack (bundle_part ops) z = Inr b"
    using assms by (auto simp: repacks_def split: sum.splits)
  then obtain payload where "bo_manifest_to_vec ops (evb_manifest b) = Inr payload"
    by (auto simp: ev_pack_def rbind_Inr_iff bad_json_def split: sum.splits)
  with z show ?thesis by (simp add: manifest_payload_def manifest_bytes_def bad_json_def)
qed

lemma checks_iff:
  assumes "manifest_payload ops b = Inr payload"
  shows "check_is_failed (run_signature_check ops b options) \<longleftrightarrow> \<not> signature_holds options payload"
    "check_is_failed (run_manifest_envelope_check ops b options) \<longleftrightarrow> \<not> envelope_holds ops b options payload"
    "check_is_failed (run_timestamp_check ops b options) \<longleftrightarrow> \<not> stamp_holds ops options payload"
proof -
  show "check_is_failed (run_signature_check ops b options) \<longleftrightarrow> \<not> signature_holds options payload"
    using assms by (auto simp: run_signature_check_def signature_holds_def split: option.split sum.splits signing_error.splits)
  show "check_is_failed (run_manifest_envelope_check ops b options) \<longleftrightarrow> \<not> envelope_holds ops b options payload"
    using assms by (auto simp: run_manifest_envelope_check_def envelope_holds_def manifest_signature_artefact_id_def
        split: option.splits sum.splits)
  show "check_is_failed (run_timestamp_check ops b options) \<longleftrightarrow> \<not> stamp_holds ops options payload"
    using assms by (auto simp: run_timestamp_check_def stamp_holds_def split: option.split sum.splits timestamping_error.splits)
qed

lemma report_ok_when:
  "vr_ok (verify_bundle ops b options) \<longleftrightarrow>
     repacks ops b
     \<and> (case bo_manifest_to_vec ops (evb_manifest b) of
          Inl _ \<Rightarrow> False
        | Inr payload \<Rightarrow> signature_holds options payload \<and> envelope_holds ops b options payload
            \<and> stamp_holds ops options payload)"
proof (cases "repacks ops b")
  case True
  then obtain payload where "bo_manifest_to_vec ops (evb_manifest b) = Inr payload" "manifest_payload ops b = Inr payload"
    using repacks_manifest by blast
  with True show ?thesis by (simp add: verify_bundle_def Let_def content_address_iff checks_iff)
qed (simp add: verify_bundle_def Let_def content_address_iff)

text \<open>The verdict is exact: a report is \<open>ok\<close> exactly when the bundle packs and unpacks to itself and the
  bytes of its manifest satisfy every check that was asked for: the detached signature recomputes, the
  envelope is there and verifies, the time stamp is bound to the imprint.
\<close>

theorem report_ok_iff:
  "vr_ok (verify_bundle ops b options) \<longleftrightarrow>
     repacks ops b
     \<and> (case bo_manifest_to_vec ops (evb_manifest b) of
          Inl _ \<Rightarrow> False
        | Inr payload \<Rightarrow> signature_holds options payload \<and> envelope_holds ops b options payload
            \<and> stamp_holds ops options payload)"
  by (rule report_ok_when)

lemma report_ok:
  assumes "vr_ok (verify_bundle ops b options)"
  obtains payload where "repacks ops b" "bo_manifest_to_vec ops (evb_manifest b) = Inr payload"
    "signature_holds options payload" "envelope_holds ops b options payload" "stamp_holds ops options payload"
proof -
  have "repacks ops b" using assms by (auto simp: verify_bundle_def Let_def content_address_iff)
  moreover from this obtain payload where p: "bo_manifest_to_vec ops (evb_manifest b) = Inr payload" "manifest_payload ops b = Inr payload"
    using repacks_manifest by blast
  ultimately show ?thesis
    using assms that checks_iff [OF p(2), of options] by (simp add: verify_bundle_def Let_def)
qed

lemma repacks_checked: "repacks ops b \<Longrightarrow> ev_verify (bundle_part ops) b = Inr () \<and> btree_ok (evb_artefacts b)"
proof -
  assume "repacks ops b"
  then obtain z where "ev_unpack (bundle_part ops) z = Inr b" by (auto simp: repacks_def split: sum.split_asm)
  with unpack_checked [of "bundle_part ops" z] show ?thesis by simp
qed

text \<open>C3  Authenticity end to end: a bundle whose report is \<open>ok\<close> under the envelope check carries an envelope
  with a signature under the key of the signer that the signer accepts over exactly the bytes of its manifest under
  the manifest's type.  If such a message was ever signed for a checked bundle \<open>c\<close>, under whatever type, then \<open>b\<close> has the
  manifest of \<open>c\<close> and each of its artefacts, apart from the envelope itself, unless the two artefacts are different bytes
  of one length with one hash.  The JSON of a manifest is assumed to be read back as the manifest.
\<close>

theorem verified_bundle_is_authentic:
  assumes "vr_ok (verify_bundle ops b options)" "vo_dsse_signer options = Some signer"
    "\<And>m t. bo_manifest_to_vec ops m = Inr t \<Longrightarrow> bo_manifest_from_slice ops t = Inr m"
  shows "\<exists>payload bytes e s sig.
      bo_manifest_to_vec ops (evb_manifest b) = Inr payload
    \<and> map_of (evb_artefacts b) ''signatures/manifest.dsse'' = Some bytes
    \<and> do_envelope_from_slice (vf_dsse ops) bytes = Inr e \<and> s \<in> set (dse_signatures e) \<and> dss_keyid s = ms_keyid signer
    \<and> do_b64_decode (vf_dsse ops) (dss_sig s) = Inr sig
    \<and> ms_verify_pae signer (pae manifest_payload_type payload) sig = Inr ()
    \<and> (\<forall>c ty q. bo_manifest_to_vec ops (evb_manifest c) = Inr q \<and> pae ty q = pae manifest_payload_type payload
          \<and> btree_ok (evb_artefacts c) \<and> ev_verify (bundle_part ops) c = Inr () \<longrightarrow>
        evb_manifest b = evb_manifest c
        \<and> (\<forall>aid. aid \<noteq> ''signatures/manifest.dsse'' \<longrightarrow>
             map_of (evb_artefacts b) aid = map_of (evb_artefacts c) aid
           \<or> (\<exists>x y. map_of (evb_artefacts b) aid = Some x \<and> map_of (evb_artefacts c) aid = Some y
                \<and> x \<noteq> y \<and> length x = length y \<and> bo_blake3_hex ops x = bo_blake3_hex ops y)))"
proof -
  from assms(1) obtain payload where r: "repacks ops b" "bo_manifest_to_vec ops (evb_manifest b) = Inr payload"
    "envelope_holds ops b options payload" by (rule report_ok)
  from r(3) obtain bytes e where e: "map_of (evb_artefacts b) ''signatures/manifest.dsse'' = Some bytes"
    "do_envelope_from_slice (vf_dsse ops) bytes = Inr e"
    "verify_envelope (vf_dsse ops) e manifest_payload_type payload signer = Inr ()"
    using assms(2) by (auto simp: envelope_holds_def split: option.splits sum.splits)
  then obtain s sig where s: "find (\<lambda>s. dss_keyid s = ms_keyid signer) (dse_signatures e) = Some s"
    "do_b64_decode (vf_dsse ops) (dss_sig s) = Inr sig"
    "ms_verify_pae signer (pae manifest_payload_type payload) sig = Inr ()"
    by (auto simp: verify_envelope_iff split: option.splits sum.splits)
  from s(1) have member: "s \<in> set (dse_signatures e)" "dss_keyid s = ms_keyid signer"
    by (auto simp: find_Some_iff)
  have bound: "evb_manifest b = evb_manifest c
      \<and> (\<forall>aid. aid \<noteq> ''signatures/manifest.dsse'' \<longrightarrow>
           map_of (evb_artefacts b) aid = map_of (evb_artefacts c) aid
         \<or> (\<exists>x y. map_of (evb_artefacts b) aid = Some x \<and> map_of (evb_artefacts c) aid = Some y
              \<and> x \<noteq> y \<and> length x = length y \<and> bo_blake3_hex ops x = bo_blake3_hex ops y))"
    if c: "bo_manifest_to_vec ops (evb_manifest c) = Inr q \<and> pae ty q = pae manifest_payload_type payload
          \<and> btree_ok (evb_artefacts c) \<and> ev_verify (bundle_part ops) c = Inr ()" for c ty q
  proof -
    have "q = payload" using c by (simp add: pae_inj)
    with assms(3) [OF r(2)] assms(3) [of "evb_manifest c" q] c have same: "evb_manifest b = evb_manifest c" by simp
    from repacks_checked [OF r(1)] have checked: "btree_ok (evb_artefacts b)" "ev_verify (bundle_part ops) b = Inr ()"
      by simp_all
    from same manifest_bound [OF checked(1) _ same checked(2)] c show ?thesis by (auto simp del: ex_simps)
  qed
  from r(2) e(1,2) member s(2,3) bound show ?thesis by blast
qed

section \<open>Signing, then verifying\<close>

lemma sign_bundle_verifies:
  "sign_bundle ops b sign k = Inr s \<Longrightarrow> sig_key_ref s = k \<Longrightarrow>
     run_signature_check ops b (content_only\<lparr>vo_signer := Some sign, vo_signature := Some s\<rparr>) = CheckPassed"
  by (auto simp: sign_bundle_def run_signature_check_def manifest_payload_def split: sum.splits)

lemma software_signs_its_key: "software_sign mac keys req = Inr s \<Longrightarrow> sig_key_ref s = sr_key_ref req"
  by (auto simp: software_sign_def split: option.splits)

lemma imprint_fits:
  "length (vf_blake3 ops payload) = 32 \<Longrightarrow>
     validate_imprint_length algorithm (length (recompute_imprint ops algorithm payload)) = Inr ()"
  by (cases algorithm) (simp_all add: validate_imprint_length_def recompute_imprint_def)

text \<open>What signer, base64 and JSON promise for one envelope.\<close>

definition seals :: "verify_ops \<Rightarrow> manifest_signer \<Rightarrow> evidence_bundle \<Rightarrow> bool" where
  "seals ops signer b \<longleftrightarrow>
     (case bo_manifest_to_vec ops (evb_manifest b) of
        Inl _ \<Rightarrow> True
      | Inr payload \<Rightarrow> do_b64_decode (vf_dsse ops) (do_b64_encode (vf_dsse ops) payload) = Inr payload
          \<and> (case ms_sign_pae signer (pae manifest_payload_type payload) of
               Inl _ \<Rightarrow> True
             | Inr s \<Rightarrow> ms_verify_pae signer (pae manifest_payload_type payload) s = Inr ()
                 \<and> do_b64_decode (vf_dsse ops) (do_b64_encode (vf_dsse ops) s) = Inr s)
          \<and> (case wrap (vf_dsse ops) signer manifest_payload_type payload of
               Inl _ \<Rightarrow> True
             | Inr e \<Rightarrow> (case do_envelope_to_vec (vf_dsse ops) e of
                 Inl _ \<Rightarrow> True | Inr t \<Rightarrow> do_envelope_from_slice (vf_dsse ops) t = Inr e)))"

text \<open>C12  Round trip of the envelope: a bundle to which an envelope was attached has an \<open>ok\<close> report under the
  strictest envelope policy exactly when its content check passes.
\<close>

theorem attached_envelope_verifies:
  assumes "attach_manifest_dsse (bundle_part ops) (vf_dsse ops) b signer = Inr c" "seals ops signer b" "btree_ok (evb_artefacts b)"
  shows "vr_ok (verify_bundle ops c (content_only\<lparr>vo_dsse_signer := Some signer, vo_require_dsse := True\<rparr>))
    \<longleftrightarrow> check_is_passed (run_content_address_check ops c)"
proof -
  obtain payload e bytes where p: "bo_manifest_to_vec ops (evb_manifest b) = Inr payload"
    "wrap (vf_dsse ops) signer manifest_payload_type payload = Inr e"
    "do_envelope_to_vec (vf_dsse ops) e = Inr bytes"
    and c: "c = b\<lparr>evb_artefacts := btree_insert manifest_signature_artefact_id bytes (evb_artefacts b)\<rparr>"
    using assms(1) by (auto simp: attach_manifest_dsse_def wrap_manifest_def manifest_payload_bytes_def
        serialise_Inr_iff rbind_Inr_iff)
  have e: "do_envelope_from_slice (vf_dsse ops) bytes = Inr e"
    using assms(2) p by (simp add: seals_def)
  have "verify_envelope (vf_dsse ops) e manifest_payload_type payload signer = Inr ()"
    using assms(2) p(1) by (intro wrap_verifies [OF p(2)]) (auto simp: seals_def)
  with e p(1) assms(3) have holds: "envelope_holds ops c (content_only\<lparr>vo_dsse_signer := Some signer, vo_require_dsse := True\<rparr>) payload"
    by (simp add: envelope_holds_def content_only_def c manifest_signature_artefact_id_def)
  show ?thesis
  proof (cases "repacks ops c")
    case True
    then obtain payload' where "bo_manifest_to_vec ops (evb_manifest c) = Inr payload'" "manifest_payload ops c = Inr payload'"
      using repacks_manifest by blast
    with p(1) c have pay: "manifest_payload ops c = Inr payload" by simp
    have "vr_ok (verify_bundle ops c (content_only\<lparr>vo_dsse_signer := Some signer, vo_require_dsse := True\<rparr>))"
      using True holds checks_iff [OF pay]
      by (simp add: verify_bundle_def Let_def content_address_iff signature_holds_def stamp_holds_def content_only_def)
    with True content_address_iff(1) [of ops c] show ?thesis by simp
  next
    case False
    then have "check_is_failed (run_content_address_check ops c)" by (simp add: content_address_iff)
    then show ?thesis
      by (cases "run_content_address_check ops c") (simp_all add: verify_bundle_def Let_def)
  qed
qed

section \<open>Concrete reports\<close>

definition sealed_bundle :: evidence_bundle where
  "sealed_bundle = (sample_bundle ''x'' ''x'')\<lparr>evb_artefacts := [(''formats/ubl.xml'', ''x''), (''signatures/manifest.dsse'', ''dsse'')]\<rparr>"

text \<open>A signer of one message, and an envelope that only it can have made.\<close>

definition one_signer :: manifest_signer where
  "one_signer = \<lparr>ms_keyid = ''key'', ms_sign_pae = (\<lambda>_. Inr ''sig''),
     ms_verify_pae = (\<lambda>m s. if m = pae manifest_payload_type ''{}'' \<and> s = ''sig'' then Inr () else Inl (BadSignature ''key''))\<rparr>"

definition one_envelope :: dsse_envelope where
  "one_envelope = \<lparr>dse_payload = ''{}'', dse_payload_type = manifest_payload_type,
     dse_signatures = [\<lparr>dss_keyid = ''key'', dss_sig = ''sig''\<rparr>]\<rparr>"

definition sample_verify_ops :: verify_ops where
  "sample_verify_ops = bundle_ops.extend (ops_for plain_hash sealed_bundle)
     \<lparr>vf_dsse = \<lparr>do_b64_encode = (\<lambda>s. s), do_b64_decode = (\<lambda>s. Inr s), do_envelope_to_vec = (\<lambda>_. Inr ''dsse''),
        do_envelope_from_slice = (\<lambda>_. Inr one_envelope)\<rparr>,
      vf_blake3 = plain_hash, vf_debug = (\<lambda>s. s)\<rparr>"

lemma sample_verify_simps [simp]:
  "bundle_part sample_verify_ops = ops_for plain_hash sealed_bundle"
  "bo_manifest_to_vec sample_verify_ops = bo_manifest_to_vec (ops_for plain_hash sealed_bundle)"
  by (simp_all add: bundle_part_def sample_verify_ops_def bundle_ops.truncate_def bundle_ops.extend_def ops_for_def)

lemma sealed_manifest: "evb_manifest sealed_bundle = evb_manifest (sample_bundle ''x'' ''x'')"
  by (simp add: sealed_bundle_def)

lemma sealed_repacks: "repacks sample_verify_ops sealed_bundle"
proof -
  let ?ops = "ops_for plain_hash sealed_bundle"
  have ok: "btree_ok (evb_artefacts sealed_bundle)"
    by (simp add: sealed_bundle_def btree_ok_def)
  then have "ev_verify ?ops sealed_bundle = Inr ()"
    by (simp add: ev_verify_iff sealed_bundle_def sample_bundle_def listed_def manifest_artefact_id_def
        entry_matches_def ops_for_def plain_hash_def)
  with ok have "packable ?ops sealed_bundle"
    using ops_for_safe [of plain_hash sealed_bundle]
    by (simp add: packable_def) (simp add: sealed_bundle_def)
  from pack_unpack [OF ops_for_round_trip this] show ?thesis
    by (fastforce simp: repacks_def dest: ops_for_tar)
qed

lemma sealed_ok: "vr_ok (verify_bundle sample_verify_ops sealed_bundle (content_only\<lparr>vo_dsse_signer := Some one_signer\<rparr>))"
proof -
  have "envelope_holds sample_verify_ops sealed_bundle (content_only\<lparr>vo_dsse_signer := Some one_signer\<rparr>) ''{}''"
    by (simp add: envelope_holds_def content_only_def sealed_bundle_def sample_verify_ops_def bundle_ops.extend_def
        verify_envelope_iff one_envelope_def one_signer_def)
  with sealed_repacks show ?thesis
    unfolding report_ok_when
    by (simp add: signature_holds_def stamp_holds_def content_only_def ops_for_def)
qed

theorem verified_bundle_is_authentic_witness:
  "evb_manifest sealed_bundle = evb_manifest (sample_bundle ''x'' ''x'')
   \<and> (map_of (evb_artefacts sealed_bundle))(''signatures/manifest.dsse'' := None)
       = (map_of (evb_artefacts (sample_bundle ''x'' ''x'')))(''signatures/manifest.dsse'' := None)"
proof -
  let ?b = "sample_bundle ''x'' ''x''" and ?ops = "sample_verify_ops"
  have ok: "btree_ok (evb_artefacts ?b)" by (simp add: sample_bundle_def sample_artefact_def btree_ok_def)
  then have checked: "ev_verify (bundle_part ?ops) ?b = Inr ()"
    by (simp add: ev_verify_iff sample_bundle_def sample_artefact_def listed_def manifest_artefact_id_def
        entry_matches_def ops_for_def plain_hash_def)
  have json: "bo_manifest_to_vec ?ops m = Inr t \<Longrightarrow> bo_manifest_from_slice ?ops t = Inr m" for m t
    by (simp add: sample_verify_ops_def bundle_ops.extend_def ops_for_def split: if_splits)
  have signer: "vo_dsse_signer (content_only\<lparr>vo_dsse_signer := Some one_signer\<rparr>) = Some one_signer" by simp
  have signed: "bo_manifest_to_vec ?ops (evb_manifest ?b) = Inr ''{}''"
    "bo_manifest_to_vec ?ops (evb_manifest sealed_bundle) = Inr ''{}''"
    by (simp_all add: ops_for_def sealed_manifest)
  have hash: "bo_blake3_hex ?ops x = x" for x
    by (simp add: sample_verify_ops_def bundle_ops.extend_def ops_for_def plain_hash_def)
  from verified_bundle_is_authentic [OF sealed_ok signer json] signed(2)
  have "bo_manifest_to_vec ?ops (evb_manifest ?b) = Inr ''{}'' \<and> pae manifest_payload_type ''{}'' = pae manifest_payload_type ''{}''
      \<and> btree_ok (evb_artefacts ?b) \<and> ev_verify (bundle_part ?ops) ?b = Inr () \<longrightarrow>
    evb_manifest sealed_bundle = evb_manifest ?b
    \<and> (\<forall>aid. aid \<noteq> ''signatures/manifest.dsse'' \<longrightarrow> map_of (evb_artefacts sealed_bundle) aid = map_of (evb_artefacts ?b) aid)"
    unfolding hash by (metis sum.inject(2))
  with signed(1) ok checked show ?thesis by (auto simp: fun_eq_iff)
qed

theorem attached_envelope_verifies_witness:
  "attach_manifest_dsse (bundle_part sample_verify_ops) (vf_dsse sample_verify_ops) (sample_bundle ''x'' ''x'') one_signer
     = Inr sealed_bundle
   \<and> vr_ok (verify_bundle sample_verify_ops sealed_bundle (content_only\<lparr>vo_dsse_signer := Some one_signer, vo_require_dsse := True\<rparr>))"
proof -
  let ?b = "sample_bundle ''x'' ''x''"
  have man: "bo_manifest_to_vec (ops_for plain_hash sealed_bundle) (evb_manifest ?b) = Inr ''{}''"
    by (simp add: ops_for_def sealed_manifest)
  have dsse: "vf_dsse sample_verify_ops = \<lparr>do_b64_encode = (\<lambda>s. s), do_b64_decode = (\<lambda>s. Inr s),
      do_envelope_to_vec = (\<lambda>_. Inr ''dsse''), do_envelope_from_slice = (\<lambda>_. Inr one_envelope)\<rparr>"
    by (simp add: sample_verify_ops_def bundle_ops.extend_def)
  have attach: "attach_manifest_dsse (bundle_part sample_verify_ops) (vf_dsse sample_verify_ops) ?b one_signer = Inr sealed_bundle"
    by (simp add: attach_manifest_dsse_def wrap_manifest_def manifest_payload_bytes_def serialise_def man dsse wrap_def
        one_signer_def) (simp add: sealed_bundle_def sample_bundle_def sample_artefact_def manifest_signature_artefact_id_def)
  moreover have "seals sample_verify_ops one_signer ?b"
    by (simp add: seals_def man dsse wrap_def one_signer_def one_envelope_def)
  moreover have "btree_ok (evb_artefacts ?b)" by (simp add: sample_bundle_def sample_artefact_def btree_ok_def)
  ultimately show ?thesis
    using attached_envelope_verifies [of sample_verify_ops ?b one_signer sealed_bundle]
      content_address_iff(1) [THEN iffD2, OF sealed_repacks]
    by simp
qed

end
