(* ===== verification/Replay.thy ===== *)
theory Replay
  imports Evidence
begin

text \<open>
  \<open>crates/replay/src/lib.rs\<close>: replaying the pipeline of a bundle and comparing hashes, with the replayers of
  the sandbox.
\<close>

section \<open>Options, deltas, reports\<close>

record replay_options =
  ro_only :: "string set"
  ro_ignore :: "string set"

definition replay_all :: replay_options where
  "replay_all = \<lparr>ro_only = {}, ro_ignore = {}\<rparr>"

definition replay_only :: "string list \<Rightarrow> replay_options" where
  "replay_only ids = \<lparr>ro_only = set ids, ro_ignore = {}\<rparr>"

definition ignoring :: "string \<Rightarrow> replay_options \<Rightarrow> replay_options" where
  "ignoring aid options = options\<lparr>ro_ignore := insert aid (ro_ignore options)\<rparr>"

definition includes_id :: "replay_options \<Rightarrow> string \<Rightarrow> bool" where
  "includes_id options aid \<longleftrightarrow>
     (if ro_only options \<noteq> {} \<and> aid \<notin> ro_only options then False
      else if aid \<in> ro_ignore options then False else True)"

datatype artefact_delta =
    ByteEqual string
  | Drifted string string nat nat
  | NotReplayed
  | Unexpected string nat

fun is_byte_equal :: "artefact_delta \<Rightarrow> bool" where
  "is_byte_equal (ByteEqual _) = True"
| "is_byte_equal _ = False"

fun is_diff :: "artefact_delta \<Rightarrow> bool" where
  "is_diff (Drifted _ _ _ _) = True"
| "is_diff (Unexpected _ _) = True"
| "is_diff NotReplayed = True"
| "is_diff (ByteEqual _) = False"

record replay_report =
  rr_ok :: bool
  rr_deltas :: "(string, artefact_delta) btree"

definition drifted_ids :: "replay_report \<Rightarrow> string list" where
  "drifted_ids rep = map fst (filter (\<lambda>e. is_diff (snd e)) (rr_deltas rep))"

datatype replay_error = ReplayerError string

record pipeline_replayer =
  pr_artefact :: "evidence_bundle \<Rightarrow> string \<Rightarrow> replay_error + string option"
  pr_extra :: "evidence_bundle \<Rightarrow> (string, string) btree"

section \<open>Replaying\<close>

definition delta_of :: "(string \<Rightarrow> string) \<Rightarrow> string \<Rightarrow> string option \<Rightarrow> artefact_delta" where
  "delta_of hash recorded replayed =
     (case replayed of
        None \<Rightarrow> NotReplayed
      | Some observed \<Rightarrow>
          if hash recorded = hash observed then ByteEqual (hash observed)
          else Drifted (hash recorded) (hash observed) (length recorded) (length observed))"

fun replay_recorded :: "(string \<Rightarrow> string) \<Rightarrow> evidence_bundle \<Rightarrow> pipeline_replayer \<Rightarrow> replay_options
    \<Rightarrow> (string \<times> string) list \<Rightarrow> (string, artefact_delta) btree \<Rightarrow> replay_error + (string, artefact_delta) btree" where
  "replay_recorded hash b r options [] deltas = Inr deltas"
| "replay_recorded hash b r options ((aid, recorded) # rest) deltas =
     (if \<not> includes_id options aid then replay_recorded hash b r options rest deltas
      else rbind (pr_artefact r b aid) (\<lambda>replayed.
        replay_recorded hash b r options rest (btree_insert aid (delta_of hash recorded replayed) deltas)))"

fun replay_extra :: "(string \<Rightarrow> string) \<Rightarrow> evidence_bundle \<Rightarrow> replay_options \<Rightarrow> (string \<times> string) list
    \<Rightarrow> (string, artefact_delta) btree \<Rightarrow> (string, artefact_delta) btree" where
  "replay_extra hash b options [] deltas = deltas"
| "replay_extra hash b options ((aid, observed) # rest) deltas =
     (if \<not> includes_id options aid then replay_extra hash b options rest deltas
      else if map_of (evb_artefacts b) aid \<noteq> None then replay_extra hash b options rest deltas
      else replay_extra hash b options rest (btree_insert aid (Unexpected (hash observed) (length observed)) deltas))"

definition replay :: "(string \<Rightarrow> string) \<Rightarrow> evidence_bundle \<Rightarrow> pipeline_replayer \<Rightarrow> replay_options
    \<Rightarrow> replay_error + replay_report" where
  "replay hash b r options =
     rbind (replay_recorded hash b r options (evb_artefacts b) []) (\<lambda>recorded.
       let deltas = replay_extra hash b options (pr_extra r b) recorded
       in Inr \<lparr>rr_ok = list_all (\<lambda>e. \<not> is_diff (snd e)) deltas, rr_deltas = deltas\<rparr>)"

section \<open>The replayers of the sandbox\<close>

definition identity_replayer :: pipeline_replayer where
  "identity_replayer = \<lparr>pr_artefact = (\<lambda>b aid. Inr (map_of (evb_artefacts b) aid)), pr_extra = (\<lambda>_. [])\<rparr>"

record mutating_replayer =
  mr_drift :: "string set"
  mr_extra :: "(string, string) btree"

definition drifting :: "string list \<Rightarrow> mutating_replayer" where
  "drifting ids = \<lparr>mr_drift = set ids, mr_extra = []\<rparr>"

definition with_extra :: "string \<Rightarrow> string \<Rightarrow> mutating_replayer \<Rightarrow> mutating_replayer" where
  "with_extra aid bytes m = m\<lparr>mr_extra := btree_insert aid bytes (mr_extra m)\<rparr>"

definition mutating :: "mutating_replayer \<Rightarrow> pipeline_replayer" where
  "mutating m =
     \<lparr>pr_artefact = (\<lambda>b aid. Inr (case map_of (evb_artefacts b) aid of
          None \<Rightarrow> None
        | Some recorded \<Rightarrow> if aid \<in> mr_drift m then Some (recorded @ ''--mutated'') else Some recorded)),
      pr_extra = (\<lambda>_. mr_extra m)\<rparr>"

section \<open>What a report says\<close>

lemma replay_recorded_map:
  "replay_recorded hash b r options as deltas = Inr ds \<Longrightarrow> btree_ok deltas \<Longrightarrow> distinct (map fst as) \<Longrightarrow>
     btree_ok ds \<and> (\<forall>aid. map_of ds aid =
       (case map_of as aid of
          Some recorded \<Rightarrow> if includes_id options aid
            then (case pr_artefact r b aid of Inr replayed \<Rightarrow> Some (delta_of hash recorded replayed) | Inl _ \<Rightarrow> None)
            else map_of deltas aid
        | None \<Rightarrow> map_of deltas aid))"
proof (induction hash b r options as deltas rule: replay_recorded.induct)
  case (2 hash b r options aid recorded rest deltas)
  show ?case
  proof (cases "includes_id options aid")
    case False
    with 2 show ?thesis by (auto simp: map_of_eq_None_iff split: option.splits)
  next
    case True
    then obtain replayed where p: "pr_artefact r b aid = Inr replayed"
      "replay_recorded hash b r options rest (btree_insert aid (delta_of hash recorded replayed) deltas) = Inr ds"
      using 2(3) by (auto simp: rbind_Inr_iff)
    have "map_of rest aid = None" using 2(5) by (simp add: map_of_eq_None_iff)
    with 2(2) [of replayed] True p 2(4,5) show ?thesis by (auto split: option.splits)
  qed
qed simp

lemma replay_extra_map:
  "btree_ok deltas \<Longrightarrow> distinct (map fst es) \<Longrightarrow>
     btree_ok (replay_extra hash b options es deltas)
     \<and> (\<forall>aid. map_of (replay_extra hash b options es deltas) aid =
       (case map_of es aid of
          Some observed \<Rightarrow> if includes_id options aid \<and> map_of (evb_artefacts b) aid = None
            then Some (Unexpected (hash observed) (length observed)) else map_of deltas aid
        | None \<Rightarrow> map_of deltas aid))"
proof (induction hash b options es deltas rule: replay_extra.induct)
  case (2 hash b options aid observed rest deltas)
  have "map_of rest aid = None" using 2(5) by (simp add: map_of_eq_None_iff)
  with 2 show ?case by (auto split: option.splits)
qed simp

text \<open>
  What the crate documents, over the inputs: an identifier is selected when it is on the allow list, or that is
  empty, and not on the deny list; it replays when the bytes recorded and replayed have one hash, or when it is neither
  recorded nor emitted.
\<close>

definition selected :: "replay_options \<Rightarrow> string \<Rightarrow> bool" where
  "selected options aid \<longleftrightarrow> (ro_only options = {} \<or> aid \<in> ro_only options) \<and> aid \<notin> ro_ignore options"

definition replays_equal :: "(string \<Rightarrow> string) \<Rightarrow> evidence_bundle \<Rightarrow> pipeline_replayer \<Rightarrow> string \<Rightarrow> bool" where
  "replays_equal hash b r aid \<longleftrightarrow>
     (case (map_of (evb_artefacts b) aid, pr_artefact r b aid) of
        (Some recorded, Inr (Some observed)) \<Rightarrow> hash observed = hash recorded
      | (Some _, _) \<Rightarrow> False
      | (None, _) \<Rightarrow> aid \<notin> fst ` set (pr_extra r b))"

text \<open>What the delta of a selected identifier has to say.\<close>

fun tells :: "(string \<Rightarrow> string) \<Rightarrow> string option \<Rightarrow> string option \<Rightarrow> artefact_delta \<Rightarrow> bool" where
  "tells hash (Some x) (Some y) (ByteEqual h) \<longleftrightarrow> hash x = h \<and> hash y = h"
| "tells hash (Some x) (Some y) (Drifted h k m n) \<longleftrightarrow> h \<noteq> k \<and> hash x = h \<and> hash y = k \<and> length x = m \<and> length y = n"
| "tells hash (Some x) None NotReplayed \<longleftrightarrow> True"
| "tells hash None (Some y) (Unexpected h n) \<longleftrightarrow> hash y = h \<and> length y = n"
| "tells _ _ _ _ \<longleftrightarrow> False"

definition replayed_bytes :: "evidence_bundle \<Rightarrow> pipeline_replayer \<Rightarrow> string \<Rightarrow> string option" where
  "replayed_bytes b r aid =
     (case (map_of (evb_artefacts b) aid, pr_artefact r b aid) of
        (Some _, Inr y) \<Rightarrow> y
      | (Some _, Inl _) \<Rightarrow> None
      | (None, _) \<Rightarrow> map_of (pr_extra r b) aid)"

lemma includes_selected: "includes_id options aid \<longleftrightarrow> selected options aid"
  by (simp add: includes_id_def selected_def)

lemma delta_tells: "tells hash (Some x) y (delta_of hash x y)"
  by (cases y) (simp_all add: delta_of_def)

lemma is_diff_tells:
  "tells hash x y d \<Longrightarrow> is_diff d \<longleftrightarrow> (case (x, y) of (Some u, Some v) \<Rightarrow> hash u \<noteq> hash v | _ \<Rightarrow> True)"
  by (cases "(hash, x, y, d)" rule: tells.cases) auto

lemma replay_recorded_runs:
  "replay_recorded hash b r options as deltas = Inr ds \<Longrightarrow> (aid, x) \<in> set as \<Longrightarrow> includes_id options aid
     \<Longrightarrow> \<exists>y. pr_artefact r b aid = Inr y"
  by (induction hash b r options as deltas rule: replay_recorded.induct) (auto simp: rbind_Inr_iff split: if_splits)

lemma named_iff: "aid \<in> fst ` set xs \<longleftrightarrow> map_of xs aid \<noteq> None"
  by (simp add: map_of_eq_None_iff)

text \<open>The deltas of a report, one by one.\<close>

lemma report_deltas:
  assumes "replay hash b r options = Inr rep" "btree_ok (evb_artefacts b)" "btree_ok (pr_extra r b)"
  shows "btree_ok (rr_deltas rep) \<and> (rr_ok rep \<longleftrightarrow> list_all (\<lambda>e. \<not> is_diff (snd e)) (rr_deltas rep))"
    and "case map_of (rr_deltas rep) aid of
        None \<Rightarrow> \<not> selected options aid \<or> aid \<notin> fst ` set (evb_artefacts b) \<union> fst ` set (pr_extra r b)
      | Some d \<Rightarrow> selected options aid \<and> tells hash (map_of (evb_artefacts b) aid) (replayed_bytes b r aid) d"
proof -
  obtain ds where ds: "replay_recorded hash b r options (evb_artefacts b) [] = Inr ds"
    and rep: "rep = \<lparr>rr_ok = list_all (\<lambda>e. \<not> is_diff (snd e)) (replay_extra hash b options (pr_extra r b) ds),
      rr_deltas = replay_extra hash b options (pr_extra r b) ds\<rparr>"
    using assms(1) by (auto simp: replay_def rbind_Inr_iff Let_def)
  note recorded = replay_recorded_map [OF ds btree_ok_Nil distinct_btree [OF assms(2)]]
  note extra = replay_extra_map [OF _ distinct_btree [OF assms(3)], of ds hash b options]
  show "btree_ok (rr_deltas rep) \<and> (rr_ok rep \<longleftrightarrow> list_all (\<lambda>e. \<not> is_diff (snd e)) (rr_deltas rep))"
    using recorded extra by (simp add: rep)
  have "map_of (rr_deltas rep) aid =
    (if \<not> includes_id options aid then None
     else case map_of (evb_artefacts b) aid of
         Some x \<Rightarrow> (case pr_artefact r b aid of Inr y \<Rightarrow> Some (delta_of hash x y) | Inl _ \<Rightarrow> None)
       | None \<Rightarrow> map_option (\<lambda>y. Unexpected (hash y) (length y)) (map_of (pr_extra r b) aid))"
    using recorded extra by (auto simp: rep split: option.splits)
  moreover have "\<exists>y. pr_artefact r b aid = Inr y" if "includes_id options aid" "map_of (evb_artefacts b) aid = Some x" for x
    using replay_recorded_runs [OF ds map_of_SomeD [OF that(2)] that(1)] .
  ultimately show "case map_of (rr_deltas rep) aid of
        None \<Rightarrow> \<not> selected options aid \<or> aid \<notin> fst ` set (evb_artefacts b) \<union> fst ` set (pr_extra r b)
      | Some d \<Rightarrow> selected options aid \<and> tells hash (map_of (evb_artefacts b) aid) (replayed_bytes b r aid) d"
    by (cases "map_of (evb_artefacts b) aid"; cases "map_of (pr_extra r b) aid")
      (auto simp: includes_selected replayed_bytes_def delta_tells named_iff split: sum.splits)
qed

text \<open>C13  The report is exact.  It has a delta for each selected identifier that the bundle records or the
  replayer emits and for no other, in the order of identifiers; the delta says which of the four cases it is, with the
  hashes and lengths of the bytes; the report is \<open>ok\<close> exactly when every selected identifier replays, and its drifted
  identifiers are the ones that do not.
\<close>

theorem replay_report_exact:
  assumes "replay hash b r options = Inr rep" "btree_ok (evb_artefacts b)" "btree_ok (pr_extra r b)"
  shows "btree_ok (rr_deltas rep)
    \<and> (\<forall>aid. case map_of (rr_deltas rep) aid of
        None \<Rightarrow> \<not> selected options aid \<or> aid \<notin> fst ` set (evb_artefacts b) \<union> fst ` set (pr_extra r b)
      | Some d \<Rightarrow> selected options aid \<and> tells hash (map_of (evb_artefacts b) aid) (replayed_bytes b r aid) d)
    \<and> (rr_ok rep \<longleftrightarrow> (\<forall>aid. selected options aid \<longrightarrow> replays_equal hash b r aid))
    \<and> set (drifted_ids rep) = {aid. selected options aid \<and> \<not> replays_equal hash b r aid}"
proof -
  note ok = report_deltas(1) [OF assms] and deltas = report_deltas(2) [OF assms]
  have dist: "distinct (map fst (rr_deltas rep))" using ok distinct_btree by blast
  have drift: "set (drifted_ids rep) = {aid. \<exists>d. map_of (rr_deltas rep) aid = Some d \<and> is_diff d}"
    using dist by (force simp: drifted_ids_def map_of_eq_Some_iff)
  have "(\<exists>d. map_of (rr_deltas rep) aid = Some d \<and> is_diff d) \<longleftrightarrow> selected options aid \<and> \<not> replays_equal hash b r aid" for aid
    using deltas [of aid]
    by (cases "map_of (evb_artefacts b) aid"; cases "map_of (pr_extra r b) aid"; cases "map_of (rr_deltas rep) aid")
      (auto simp: replays_equal_def replayed_bytes_def named_iff dest!: is_diff_tells split: option.splits sum.splits)
  with drift have ids: "set (drifted_ids rep) = {aid. selected options aid \<and> \<not> replays_equal hash b r aid}" by simp
  moreover have "rr_ok rep \<longleftrightarrow> set (drifted_ids rep) = {}"
    using ok by (auto simp: drifted_ids_def list_all_iff filter_empty_conv)
  ultimately show ?thesis using ok deltas by auto
qed

text \<open>Replaying what was recorded is \<open>ok\<close> under every selection.\<close>

lemma identity_recorded:
  "btree_ok (evb_artefacts b) \<Longrightarrow> set as \<subseteq> set (evb_artefacts b) \<Longrightarrow>
     list_all (\<lambda>e. \<not> is_diff (snd e)) deltas \<Longrightarrow>
     \<exists>ds. replay_recorded hash b identity_replayer options as deltas = Inr ds \<and> list_all (\<lambda>e. \<not> is_diff (snd e)) ds"
proof (induction as arbitrary: deltas)
  case (Cons e as)
  obtain aid recorded where e: "e = (aid, recorded)" by fastforce
  have "map_of (evb_artefacts b) aid = Some recorded"
    using Cons.prems(1,2) e by (simp add: distinct_btree map_of_eq_Some_iff)
  moreover have "set (btree_insert aid (ByteEqual (hash recorded)) deltas) \<subseteq> insert (aid, ByteEqual (hash recorded)) (set deltas)"
    by (induction aid "ByteEqual (hash recorded)" deltas rule: btree_insert.induct) auto
  then have "list_all (\<lambda>e. \<not> is_diff (snd e)) (btree_insert aid (ByteEqual (hash recorded)) deltas)"
    using Cons.prems(3) by (fastforce simp: list_all_iff)
  ultimately show ?case
    using Cons.IH Cons.prems by (simp add: e identity_replayer_def delta_of_def)
qed simp

theorem identity_replay_ok:
  assumes "btree_ok (evb_artefacts b)"
  shows "\<exists>rep. replay hash b identity_replayer options = Inr rep \<and> rr_ok rep"
proof -
  obtain ds where "replay_recorded hash b identity_replayer options (evb_artefacts b) [] = Inr ds"
    "list_all (\<lambda>e. \<not> is_diff (snd e)) ds"
    using identity_recorded [OF assms subset_refl, of "[]" hash options] by auto
  moreover have "pr_extra identity_replayer b = []" by (simp add: identity_replayer_def)
  ultimately show ?thesis by (simp add: replay_def)
qed

text \<open>The selection of identifiers that the bundle does not record selects nothing, and the report is \<open>ok\<close>.\<close>

theorem empty_selection_is_ok:
  "\<exists>rep. replay hash \<lparr>evb_manifest = m, evb_artefacts = [(''a'', x)]\<rparr>
     \<lparr>pr_artefact = (\<lambda>_ _. Inr None), pr_extra = (\<lambda>_. [])\<rparr> (replay_only [''b'']) = Inr rep \<and> rr_ok rep"
  by (simp add: replay_def includes_id_def replay_only_def)

section \<open>A concrete replay\<close>

theorem replay_report_exact_witness:
  "\<exists>rep. replay plain_hash (sample_bundle ''x'' ''x'') (mutating (with_extra ''new'' ''y'' (drifting [''formats/ubl.xml'']))) replay_all = Inr rep
     \<and> {''new'', ''formats/ubl.xml''} \<subseteq> set (drifted_ids rep) \<and> \<not> rr_ok rep
     \<and> map_of (rr_deltas rep) ''new'' = Some (Unexpected ''y'' 1)"
proof -
  let ?b = "sample_bundle ''x'' ''x''" and ?r = "mutating (with_extra ''new'' ''y'' (drifting [''formats/ubl.xml'']))"
  obtain rep where rep: "replay plain_hash ?b ?r replay_all = Inr rep"
    by (simp add: replay_def sample_bundle_def sample_artefact_def mutating_def includes_id_def replay_all_def Let_def)
  have ok: "btree_ok (evb_artefacts ?b)" "btree_ok (pr_extra ?r ?b)"
    by (simp_all add: sample_bundle_def sample_artefact_def mutating_def with_extra_def drifting_def btree_ok_def)
  note parts = sample_bundle_def sample_artefact_def mutating_def with_extra_def drifting_def plain_hash_def
  have "selected replay_all aid" for aid by (simp add: selected_def replay_all_def)
  moreover have "\<not> replays_equal plain_hash ?b ?r ''new''" "\<not> replays_equal plain_hash ?b ?r ''formats/ubl.xml''"
    "replayed_bytes ?b ?r ''new'' = Some ''y''" "map_of (evb_artefacts ?b) ''new'' = None"
    by (simp_all add: replays_equal_def replayed_bytes_def parts)
  moreover have "tells plain_hash None (Some ''y'') d \<longleftrightarrow> d = Unexpected ''y'' 1" for d
    by (cases d) (auto simp: plain_hash_def)
  moreover have "''new'' \<in> fst ` set (pr_extra ?r ?b)" by (simp add: parts)
  moreover note replay_report_exact [OF rep ok]
  ultimately have "{''new'', ''formats/ubl.xml''} \<subseteq> set (drifted_ids rep)" "\<not> rr_ok rep"
    "case map_of (rr_deltas rep) ''new'' of None \<Rightarrow> False | Some d \<Rightarrow> d = Unexpected ''y'' 1"
    by (auto simp del: One_nat_def dest: spec [of _ "''new''"] split: option.splits)
  with rep show ?thesis by (auto split: option.splits)
qed

end
