(* ===== verification/Ubl_Mapping.thy ===== *)
theory Ubl_Mapping
  imports Ir
begin

text \<open>
  \<open>crates/format-ubl/src/mapping.rs\<close>: what becomes of each top-level element of a UBL invoice and credit
  note.  The column of explanations is left out, nothing reads it.
\<close>

datatype ubl_document_kind = KindInvoice | KindCreditNote

datatype ubl_coverage_class =
    CoreIr
  | InvoiceKitMetadataExtension
  | UblDocumentFieldExtension
  | ProfileExtensionPayload
  | LossinessLedgerPreserved
  | UnsupportedGap

record ubl_element_coverage =
  uc_document :: ubl_document_kind
  uc_element :: string
  uc_cardinality :: string
  uc_class :: ubl_coverage_class

definition row_i :: "string \<Rightarrow> string \<Rightarrow> ubl_coverage_class \<Rightarrow> ubl_element_coverage" where
  "row_i element cardinality cls =
     \<lparr>uc_document = KindInvoice, uc_element = element, uc_cardinality = cardinality, uc_class = cls\<rparr>"

definition row_c :: "string \<Rightarrow> string \<Rightarrow> ubl_coverage_class \<Rightarrow> ubl_element_coverage" where
  "row_c element cardinality cls =
     \<lparr>uc_document = KindCreditNote, uc_element = element, uc_cardinality = cardinality, uc_class = cls\<rparr>"

definition invoice_element_coverage :: "ubl_element_coverage list" where
  "invoice_element_coverage =
     [row_i ''ext:UBLExtensions'' ''0..1'' InvoiceKitMetadataExtension,
      row_i ''cbc:UBLVersionID'' ''0..1'' ProfileExtensionPayload,
      row_i ''cbc:CustomizationID'' ''0..1'' ProfileExtensionPayload,
      row_i ''cbc:ProfileID'' ''0..1'' ProfileExtensionPayload,
      row_i ''cbc:ProfileExecutionID'' ''0..1'' ProfileExtensionPayload,
      row_i ''cbc:ID'' ''1..1'' CoreIr,
      row_i ''cbc:CopyIndicator'' ''0..1'' UblDocumentFieldExtension,
      row_i ''cbc:UUID'' ''0..1'' CoreIr,
      row_i ''cbc:IssueDate'' ''1..1'' CoreIr,
      row_i ''cbc:IssueTime'' ''0..1'' UblDocumentFieldExtension,
      row_i ''cbc:DueDate'' ''0..1'' CoreIr,
      row_i ''cbc:InvoiceTypeCode'' ''0..1'' CoreIr,
      row_i ''cbc:Note'' ''0..unbounded'' CoreIr,
      row_i ''cbc:TaxPointDate'' ''0..1'' CoreIr,
      row_i ''cbc:DocumentCurrencyCode'' ''0..1'' CoreIr,
      row_i ''cbc:TaxCurrencyCode'' ''0..1'' UblDocumentFieldExtension,
      row_i ''cbc:PricingCurrencyCode'' ''0..1'' UblDocumentFieldExtension,
      row_i ''cbc:PaymentCurrencyCode'' ''0..1'' UblDocumentFieldExtension,
      row_i ''cbc:PaymentAlternativeCurrencyCode'' ''0..1'' UblDocumentFieldExtension,
      row_i ''cbc:AccountingCostCode'' ''0..1'' LossinessLedgerPreserved,
      row_i ''cbc:AccountingCost'' ''0..1'' UblDocumentFieldExtension,
      row_i ''cbc:LineCountNumeric'' ''0..1'' UblDocumentFieldExtension,
      row_i ''cbc:BuyerReference'' ''0..1'' UblDocumentFieldExtension,
      row_i ''cac:InvoicePeriod'' ''0..unbounded'' LossinessLedgerPreserved,
      row_i ''cac:OrderReference'' ''0..1'' LossinessLedgerPreserved,
      row_i ''cac:BillingReference'' ''0..unbounded'' LossinessLedgerPreserved,
      row_i ''cac:DespatchDocumentReference'' ''0..unbounded'' LossinessLedgerPreserved,
      row_i ''cac:ReceiptDocumentReference'' ''0..unbounded'' LossinessLedgerPreserved,
      row_i ''cac:StatementDocumentReference'' ''0..unbounded'' LossinessLedgerPreserved,
      row_i ''cac:OriginatorDocumentReference'' ''0..unbounded'' LossinessLedgerPreserved,
      row_i ''cac:ContractDocumentReference'' ''0..unbounded'' LossinessLedgerPreserved,
      row_i ''cac:AdditionalDocumentReference'' ''0..unbounded'' LossinessLedgerPreserved,
      row_i ''cac:ProjectReference'' ''0..unbounded'' LossinessLedgerPreserved,
      row_i ''cac:Signature'' ''0..unbounded'' UblDocumentFieldExtension,
      row_i ''cac:AccountingSupplierParty'' ''1..1'' CoreIr,
      row_i ''cac:AccountingCustomerParty'' ''1..1'' CoreIr,
      row_i ''cac:PayeeParty'' ''0..1'' CoreIr,
      row_i ''cac:BuyerCustomerParty'' ''0..1'' LossinessLedgerPreserved,
      row_i ''cac:SellerSupplierParty'' ''0..1'' LossinessLedgerPreserved,
      row_i ''cac:TaxRepresentativeParty'' ''0..1'' LossinessLedgerPreserved,
      row_i ''cac:Delivery'' ''0..unbounded'' LossinessLedgerPreserved,
      row_i ''cac:DeliveryTerms'' ''0..1'' LossinessLedgerPreserved,
      row_i ''cac:PaymentMeans'' ''0..unbounded'' CoreIr,
      row_i ''cac:PaymentTerms'' ''0..unbounded'' CoreIr,
      row_i ''cac:PrepaidPayment'' ''0..unbounded'' LossinessLedgerPreserved,
      row_i ''cac:AllowanceCharge'' ''0..unbounded'' LossinessLedgerPreserved,
      row_i ''cac:TaxExchangeRate'' ''0..1'' UblDocumentFieldExtension,
      row_i ''cac:PricingExchangeRate'' ''0..1'' UblDocumentFieldExtension,
      row_i ''cac:PaymentExchangeRate'' ''0..1'' UblDocumentFieldExtension,
      row_i ''cac:PaymentAlternativeExchangeRate'' ''0..1'' UblDocumentFieldExtension,
      row_i ''cac:TaxTotal'' ''0..unbounded'' CoreIr,
      row_i ''cac:WithholdingTaxTotal'' ''0..unbounded'' UblDocumentFieldExtension,
      row_i ''cac:LegalMonetaryTotal'' ''1..1'' CoreIr,
      row_i ''cac:InvoiceLine'' ''1..unbounded'' CoreIr]"

definition credit_note_element_coverage :: "ubl_element_coverage list" where
  "credit_note_element_coverage =
     [row_c ''ext:UBLExtensions'' ''0..1'' InvoiceKitMetadataExtension,
      row_c ''cbc:UBLVersionID'' ''0..1'' ProfileExtensionPayload,
      row_c ''cbc:CustomizationID'' ''0..1'' ProfileExtensionPayload,
      row_c ''cbc:ProfileID'' ''0..1'' ProfileExtensionPayload,
      row_c ''cbc:ProfileExecutionID'' ''0..1'' ProfileExtensionPayload,
      row_c ''cbc:ID'' ''1..1'' CoreIr,
      row_c ''cbc:CopyIndicator'' ''0..1'' UblDocumentFieldExtension,
      row_c ''cbc:UUID'' ''0..1'' CoreIr,
      row_c ''cbc:IssueDate'' ''1..1'' CoreIr,
      row_c ''cbc:IssueTime'' ''0..1'' UblDocumentFieldExtension,
      row_c ''cbc:TaxPointDate'' ''0..1'' CoreIr,
      row_c ''cbc:CreditNoteTypeCode'' ''0..1'' CoreIr,
      row_c ''cbc:Note'' ''0..unbounded'' CoreIr,
      row_c ''cbc:DocumentCurrencyCode'' ''0..1'' CoreIr,
      row_c ''cbc:TaxCurrencyCode'' ''0..1'' UblDocumentFieldExtension,
      row_c ''cbc:PricingCurrencyCode'' ''0..1'' UblDocumentFieldExtension,
      row_c ''cbc:PaymentCurrencyCode'' ''0..1'' UblDocumentFieldExtension,
      row_c ''cbc:PaymentAlternativeCurrencyCode'' ''0..1'' UblDocumentFieldExtension,
      row_c ''cbc:AccountingCostCode'' ''0..1'' LossinessLedgerPreserved,
      row_c ''cbc:AccountingCost'' ''0..1'' UblDocumentFieldExtension,
      row_c ''cbc:LineCountNumeric'' ''0..1'' UblDocumentFieldExtension,
      row_c ''cbc:BuyerReference'' ''0..1'' UblDocumentFieldExtension,
      row_c ''cac:InvoicePeriod'' ''0..unbounded'' LossinessLedgerPreserved,
      row_c ''cac:DiscrepancyResponse'' ''0..unbounded'' LossinessLedgerPreserved,
      row_c ''cac:OrderReference'' ''0..1'' LossinessLedgerPreserved,
      row_c ''cac:BillingReference'' ''0..unbounded'' LossinessLedgerPreserved,
      row_c ''cac:DespatchDocumentReference'' ''0..unbounded'' LossinessLedgerPreserved,
      row_c ''cac:ReceiptDocumentReference'' ''0..unbounded'' LossinessLedgerPreserved,
      row_c ''cac:ContractDocumentReference'' ''0..unbounded'' LossinessLedgerPreserved,
      row_c ''cac:AdditionalDocumentReference'' ''0..unbounded'' LossinessLedgerPreserved,
      row_c ''cac:StatementDocumentReference'' ''0..unbounded'' LossinessLedgerPreserved,
      row_c ''cac:OriginatorDocumentReference'' ''0..unbounded'' LossinessLedgerPreserved,
      row_c ''cac:Signature'' ''0..unbounded'' UblDocumentFieldExtension,
      row_c ''cac:AccountingSupplierParty'' ''1..1'' CoreIr,
      row_c ''cac:AccountingCustomerParty'' ''1..1'' CoreIr,
      row_c ''cac:PayeeParty'' ''0..1'' CoreIr,
      row_c ''cac:BuyerCustomerParty'' ''0..1'' LossinessLedgerPreserved,
      row_c ''cac:SellerSupplierParty'' ''0..1'' LossinessLedgerPreserved,
      row_c ''cac:TaxRepresentativeParty'' ''0..1'' LossinessLedgerPreserved,
      row_c ''cac:Delivery'' ''0..unbounded'' LossinessLedgerPreserved,
      row_c ''cac:DeliveryTerms'' ''0..unbounded'' LossinessLedgerPreserved,
      row_c ''cac:PaymentMeans'' ''0..unbounded'' CoreIr,
      row_c ''cac:PaymentTerms'' ''0..unbounded'' CoreIr,
      row_c ''cac:TaxExchangeRate'' ''0..1'' UblDocumentFieldExtension,
      row_c ''cac:PricingExchangeRate'' ''0..1'' UblDocumentFieldExtension,
      row_c ''cac:PaymentExchangeRate'' ''0..1'' UblDocumentFieldExtension,
      row_c ''cac:PaymentAlternativeExchangeRate'' ''0..1'' UblDocumentFieldExtension,
      row_c ''cac:AllowanceCharge'' ''0..unbounded'' LossinessLedgerPreserved,
      row_c ''cac:TaxTotal'' ''0..unbounded'' CoreIr,
      row_c ''cac:LegalMonetaryTotal'' ''1..1'' CoreIr,
      row_c ''cac:CreditNoteLine'' ''1..unbounded'' CoreIr]"

fun top_level_coverage :: "ubl_document_kind \<Rightarrow> ubl_element_coverage list" where
  "top_level_coverage KindInvoice = invoice_element_coverage"
| "top_level_coverage KindCreditNote = credit_note_element_coverage"

definition coverage_for :: "ubl_document_kind \<Rightarrow> string \<Rightarrow> ubl_element_coverage option" where
  "coverage_for document element = find (\<lambda>row. uc_element row = element) (top_level_coverage document)"

definition invoicekit_metadata_urn :: string where
  "invoicekit_metadata_urn = ''urn:invoicekit:ubl:extension:metadata:v1''"

definition ubl_fields_urn :: string where
  "ubl_fields_urn = ''urn:invoicekit:ubl:2.1:document-fields''"

end
