(* ===== verification/Ubl_Parse.thy ===== *)
theory Ubl_Parse
  imports Ubl_Mapping Canonical_Xml Json_Value
begin

text \<open>
  The parser of \<open>crates/format-ubl/src/lib.rs\<close>: a state machine over the events of the XML reader (the
  events of \<open>Canonical_Xml\<close>).  The reader itself and \<open>Decimal::from_str\<close> are parameters.  Stacks have
  their top first.
\<close>

section \<open>Errors and names\<close>

datatype ubl_error =
    UblReader xml_error
  | UblInvalidName string
  | UblUnsupportedRoot string
  | UblUnsupportedType document_type
  | UblUnsupportedField document_type string string
  | UblMissingElement string
  | UblInvalidDecimal string string
  | UblInvalidIr ir_error
  | UblCanonicalize xml_error
  | UblInvalidPreserved string string
  | UblAmountOverflow

definition ubl_ir :: "ir_error + 'a \<Rightarrow> ubl_error + 'a" where
  "ubl_ir r = (case r of Inl e \<Rightarrow> Inl (UblInvalidIr e) | Inr x \<Rightarrow> Inr x)"

definition ubl_read :: "xml_error + 'a \<Rightarrow> ubl_error + 'a" where
  "ubl_read r = (case r of Inl e \<Rightarrow> Inl (UblReader e) | Inr x \<Rightarrow> Inr x)"

definition need :: "string \<Rightarrow> 'a option \<Rightarrow> ubl_error + 'a" where
  "need field x = (case x of None \<Rightarrow> Inl (UblMissingElement field) | Some y \<Rightarrow> Inr y)"

lemma ubl_result_simps [simp]:
  "ubl_ir (Inr x) = Inr x" "ubl_ir (Inl e) = Inl (UblInvalidIr e)"
  "ubl_read (Inr x) = Inr x" "ubl_read (Inl f) = Inl (UblReader f)"
  "need n (Some x) = Inr x" "need n None = Inl (UblMissingElement n)"
  by (simp_all add: ubl_ir_def ubl_read_def need_def)

definition ns_invoice :: string where
  "ns_invoice = ''urn:oasis:names:specification:ubl:schema:xsd:Invoice-2''"

definition ns_credit_note :: string where
  "ns_credit_note = ''urn:oasis:names:specification:ubl:schema:xsd:CreditNote-2''"

definition ns_cac :: string where
  "ns_cac = ''urn:oasis:names:specification:ubl:schema:xsd:CommonAggregateComponents-2''"

definition ns_cbc :: string where
  "ns_cbc = ''urn:oasis:names:specification:ubl:schema:xsd:CommonBasicComponents-2''"

definition ns_ext :: string where
  "ns_ext = ''urn:oasis:names:specification:ubl:schema:xsd:CommonExtensionComponents-2''"

definition ns_ik :: string where
  "ns_ik = ''urn:invoicekit:ubl:extension''"

record parsed_element =
  pe_name :: string
  pe_namespace :: "string option"

type_synonym ubl_attrs = "(string \<times> string) list"

definition attr_value :: "ubl_attrs \<Rightarrow> string \<Rightarrow> string option" where
  "attr_value attrs local_name = map_of attrs local_name"

definition ubl_element_qname :: "parsed_element \<Rightarrow> ubl_error + string" where
  "ubl_element_qname e =
     (case pe_namespace e of
        None \<Rightarrow> Inr (pe_name e)
      | Some ns \<Rightarrow>
          if ns = ns_cbc then Inr (''cbc:'' @ pe_name e)
          else if ns = ns_cac then Inr (''cac:'' @ pe_name e)
          else if ns = ns_ext then Inr (''ext:'' @ pe_name e)
          else if ns = ns_ik then Inr (''ik:'' @ pe_name e)
          else if ns = ns_invoice \<or> ns = ns_credit_note then Inr (pe_name e)
          else Inl (UblInvalidName (''unsupported preserved namespace `'' @ ns @ ''`'')))"

definition is_element :: "parsed_element \<Rightarrow> string \<Rightarrow> string \<Rightarrow> bool" where
  "is_element e local_name namespace \<longleftrightarrow> pe_name e = local_name \<and> pe_namespace e = Some namespace"

definition path_ends :: "parsed_element list \<Rightarrow> string list \<Rightarrow> bool" where
  "path_ends stack suffix \<longleftrightarrow>
     length suffix \<le> length stack
     \<and> list_all (\<lambda>(e, n). pe_name e = n) (zip (take (length suffix) stack) (rev suffix))"

definition path_ends_ns :: "parsed_element list \<Rightarrow> (string \<times> string) list \<Rightarrow> bool" where
  "path_ends_ns stack suffix \<longleftrightarrow>
     length suffix \<le> length stack
     \<and> list_all (\<lambda>(e, n, ns). is_element e n ns) (zip (take (length suffix) stack) (rev suffix))"

definition in_any :: "parsed_element list \<Rightarrow> string list \<Rightarrow> bool" where
  "in_any stack names \<longleftrightarrow> list_ex (\<lambda>e. pe_name e \<in> set names) stack"

definition is_root_ubl_extensions :: "parsed_element list \<Rightarrow> bool" where
  "is_root_ubl_extensions stack \<longleftrightarrow>
     (case stack of [e, _] \<Rightarrow> is_element e ''UBLExtensions'' ns_ext | _ \<Rightarrow> False)"

definition in_top_level_ubl_extension :: "parsed_element list \<Rightarrow> bool" where
  "in_top_level_ubl_extension stack \<longleftrightarrow>
     (case rev stack of _ # e1 # e2 # _ \<Rightarrow> is_element e1 ''UBLExtensions'' ns_ext \<and> is_element e2 ''UBLExtension'' ns_ext
      | _ \<Rightarrow> False)"

definition is_root_child :: "parsed_element list \<Rightarrow> string \<Rightarrow> bool" where
  "is_root_child stack child \<longleftrightarrow> (case stack of [e, _] \<Rightarrow> pe_name e = child | _ \<Rightarrow> False)"

datatype party_role = RoleSupplier | RoleCustomer | RolePayee

definition party_role :: "parsed_element list \<Rightarrow> party_role option" where
  "party_role stack =
     (if in_any stack [''AccountingSupplierParty''] then Some RoleSupplier
      else if in_any stack [''AccountingCustomerParty''] then Some RoleCustomer
      else if in_any stack [''PayeeParty''] then Some RolePayee
      else None)"

fun document_kind_from_type :: "document_type \<Rightarrow> ubl_document_kind option" where
  "document_kind_from_type Invoice = Some KindInvoice"
| "document_kind_from_type CreditNote = Some KindCreditNote"
| "document_kind_from_type _ = None"

definition should_preserve_top_level :: "parsed_element list \<Rightarrow> parsed_element \<Rightarrow> ubl_document_kind \<Rightarrow> bool" where
  "should_preserve_top_level stack e kind \<longleftrightarrow>
     length stack = 1
     \<and> (case ubl_element_qname e of
          Inl _ \<Rightarrow> False
        | Inr qname \<Rightarrow>
            qname \<noteq> ''cbc:AccountingCost'' \<and> qname \<noteq> ''cbc:BuyerReference''
            \<and> (case coverage_for kind qname of
                 None \<Rightarrow> False
               | Some row \<Rightarrow> uc_class row \<in> {ProfileExtensionPayload, LossinessLedgerPreserved,
                   UblDocumentFieldExtension, UnsupportedGap}))"

section \<open>Namespaces\<close>

type_synonym ubl_frame = "(string \<times> string) list"

fun frame_set :: "ubl_frame \<Rightarrow> string \<Rightarrow> string \<Rightarrow> ubl_frame" where
  "frame_set [] prefix uri = [(prefix, uri)]"
| "frame_set ((p, u) # f) prefix uri = (if p = prefix then (p, uri) # f else (p, u) # frame_set f prefix uri)"

definition frame_lookup :: "ubl_frame \<Rightarrow> string \<Rightarrow> string option" where
  "frame_lookup f prefix = map_of (rev f) prefix"

definition read_element_name :: "string \<Rightarrow> ubl_frame \<Rightarrow> ubl_error + parsed_element" where
  "read_element_name name f =
     (let (prefix, local_name) = split_xml_qname name
      in if prefix = [] then Inr \<lparr>pe_name = local_name, pe_namespace = frame_lookup f []\<rparr>
         else case frame_lookup f prefix of
             None \<Rightarrow> Inl (UblInvalidName (''unbound namespace prefix `'' @ prefix @ ''`''))
           | Some uri \<Rightarrow> Inr \<lparr>pe_name = local_name, pe_namespace = Some uri\<rparr>)"

fun ubl_read_attrs :: "ubl_frame \<Rightarrow> ubl_attrs \<Rightarrow> xml_attributes \<Rightarrow> ubl_error + ubl_attrs \<times> ubl_frame" where
  "ubl_read_attrs f attrs [] = Inr (attrs, f)"
| "ubl_read_attrs f attrs (Inl e # as) = Inl (UblReader e)"
| "ubl_read_attrs f attrs (Inr (key, v) # as) =
     (if key = ''xmlns'' then ubl_read_attrs (frame_set f [] v) attrs as
      else case strip_prefix ''xmlns:'' key of
          Some prefix \<Rightarrow> ubl_read_attrs (frame_set f prefix v) attrs as
        | None \<Rightarrow> ubl_read_attrs f (attrs @ [(snd (split_xml_qname key), v)]) as)"

definition read_element_start ::
  "ubl_frame \<Rightarrow> string \<Rightarrow> xml_attributes \<Rightarrow> ubl_error + parsed_element \<times> ubl_attrs \<times> ubl_frame" where
  "read_element_start current name attrs =
     rbind (ubl_read_attrs current [] attrs) (\<lambda>(as, f).
       rbind (read_element_name name f) (\<lambda>e. Inr (e, as, f)))"

definition ubl_resolve_reference :: "string \<Rightarrow> ubl_error + string" where
  "ubl_resolve_reference r =
     (if r = ''amp'' then Inr ''&'' else if r = ''lt'' then Inr ''<'' else if r = ''gt'' then Inr ''>''
      else if r = ''apos'' then Inr [CHR 0x27] else if r = ''quot'' then Inr [CHR 0x22]
      else Inl (UblUnsupportedRoot (''entity:'' @ r)))"

section \<open>Captured fragments\<close>

definition ubl_xml_text :: "string \<Rightarrow> string" where
  "ubl_xml_text v = concat (map text_char v)"

definition ubl_xml_attr :: "string \<Rightarrow> string" where
  "ubl_xml_attr v = concat (map attr_char v)"

definition ubl_start_element :: "parsed_element \<Rightarrow> ubl_attrs \<Rightarrow> ubl_error + string" where
  "ubl_start_element e attrs =
     rbind (ubl_element_qname e) (\<lambda>name.
       Inr (''<'' @ name
         @ concat (map (\<lambda>(k, v). '' '' @ k @ [CHR ''='', CHR 0x22] @ ubl_xml_attr v @ [CHR 0x22]) attrs) @ ''>''))"

record preserved_xml =
  pv_element :: string
  pv_xml :: string

definition preserved_into_value :: "preserved_xml \<Rightarrow> serde_value" where
  "preserved_into_value p = SObject [(''element'', SString (pv_element p)), (''xml'', SString (pv_xml p))]"

definition is_default_profile_fragment :: "preserved_xml \<Rightarrow> bool" where
  "is_default_profile_fragment p \<longleftrightarrow>
     pv_element p = ''cbc:CustomizationID''
       \<and> pv_xml p = ''<cbc:CustomizationID>urn:invoicekit:ubl:2.1:core</cbc:CustomizationID>''
     \<or> pv_element p = ''cbc:ProfileID'' \<and> pv_xml p = ''<cbc:ProfileID>urn:invoicekit:profile:core</cbc:ProfileID>''"

record xml_capture =
  cap_element :: string
  cap_xml :: string
  cap_depth :: nat

definition capture_start :: "xml_capture \<Rightarrow> parsed_element \<Rightarrow> ubl_attrs \<Rightarrow> ubl_error + xml_capture" where
  "capture_start c e attrs =
     rbind (ubl_start_element e attrs) (\<lambda>t.
       Inr (c\<lparr>cap_xml := cap_xml c @ t, cap_depth := cap_depth c + 1\<rparr>))"

definition capture_new :: "parsed_element \<Rightarrow> ubl_attrs \<Rightarrow> ubl_error + xml_capture" where
  "capture_new e attrs =
     rbind (ubl_element_qname e) (\<lambda>name.
       capture_start \<lparr>cap_element = name, cap_xml = [], cap_depth = 0\<rparr> e attrs)"

definition capture_end :: "xml_capture \<Rightarrow> parsed_element \<Rightarrow> ubl_error + xml_capture" where
  "capture_end c e =
     rbind (ubl_element_qname e) (\<lambda>name.
       if cap_depth c = 0 then Inl (UblMissingElement ''preserved top-level UBL element'')
       else Inr (c\<lparr>cap_xml := cap_xml c @ ''</'' @ name @ ''>'', cap_depth := cap_depth c - 1\<rparr>))"

definition capture_text :: "xml_capture \<Rightarrow> string \<Rightarrow> xml_capture" where
  "capture_text c raw = c\<lparr>cap_xml := cap_xml c @ ubl_xml_text raw\<rparr>"

definition capture_finish :: "xml_capture \<Rightarrow> preserved_xml" where
  "capture_finish c = \<lparr>pv_element = cap_element c, pv_xml = cap_xml c\<rparr>"

section \<open>Builders\<close>

record party_builder =
  pb_id :: "string option"
  pb_name :: "string option"
  pb_tax_ids :: "party_tax_id list"
  pb_lines :: "string list"
  pb_city :: "string option"
  pb_subdivision :: "string option"
  pb_postal_code :: "string option"
  pb_country :: "string option"
  pb_contact_name :: "string option"
  pb_email :: "string option"
  pb_phone :: "string option"

definition party_builder_new :: party_builder where
  "party_builder_new = \<lparr>pb_id = None, pb_name = None, pb_tax_ids = [], pb_lines = [], pb_city = None,
     pb_subdivision = None, pb_postal_code = None, pb_country = None, pb_contact_name = None, pb_email = None,
     pb_phone = None\<rparr>"

definition party_build :: "string \<Rightarrow> party_builder \<Rightarrow> ubl_error + party" where
  "party_build field b =
     rbind (need field (pb_name b)) (\<lambda>name.
     rbind (if pb_lines b = [] then Inl (UblMissingElement ''cac:PostalAddress/cbc:StreetName'') else Inr (pb_lines b))
       (\<lambda>ls.
     rbind (need ''cac:PostalAddress/cbc:CityName'' (pb_city b)) (\<lambda>city.
     rbind (need ''cac:PostalAddress/cbc:PostalZone'' (pb_postal_code b)) (\<lambda>postal.
     rbind (need ''cac:Country/cbc:IdentificationCode'' (pb_country b)) (\<lambda>code.
     rbind (ubl_ir (country_new code)) (\<lambda>country.
       Inr \<lparr>party_id = pb_id b, party_name = name, party_tax_ids = pb_tax_ids b,
         party_address = \<lparr>addr_lines = ls, addr_city = city, addr_subdivision = pb_subdivision b,
           addr_postal_code = postal, addr_country = country\<rparr>,
         party_contact =
           (if pb_contact_name b \<noteq> None \<or> pb_email b \<noteq> None \<or> pb_phone b \<noteq> None
            then Some \<lparr>contact_name = pb_contact_name b, contact_email = pb_email b, contact_phone = pb_phone b\<rparr>
            else None)\<rparr>))))))"

record classification_builder =
  cb_code :: string
  cb_scheme_id :: string
  cb_scheme_version :: "string option"

definition classification_builder_new :: classification_builder where
  "classification_builder_new = \<lparr>cb_code = [], cb_scheme_id = [], cb_scheme_version = None\<rparr>"

definition classification_build :: "classification_builder \<Rightarrow> item_classification" where
  "classification_build b =
     \<lparr>cls_code = trim (cb_code b), cls_scheme_id = cb_scheme_id b, cls_scheme_version = cb_scheme_version b\<rparr>"

record 'd line_builder =
  lb_id :: "string option"
  lb_description :: "string option"
  lb_quantity :: "'d option"
  lb_unit_code :: "string option"
  lb_unit_price :: "'d option"
  lb_extension_amount :: "'d option"
  lb_tax_category :: "string option"
  lb_classifications :: "item_classification list"
  lb_classification :: "classification_builder option"

definition line_builder_new :: "'d line_builder" where
  "line_builder_new = \<lparr>lb_id = None, lb_description = None, lb_quantity = None, lb_unit_code = None,
     lb_unit_price = None, lb_extension_amount = None, lb_tax_category = None, lb_classifications = [],
     lb_classification = None\<rparr>"

definition line_build :: "'d line_builder \<Rightarrow> ubl_error + ('d, serde_value) document_line" where
  "line_build b =
     rbind (need ''cac:InvoiceLine/cbc:ID'' (lb_id b)) (\<lambda>id.
     rbind (need ''cac:Item/cbc:Name'' (lb_description b)) (\<lambda>description.
     rbind (need ''cbc:InvoicedQuantity'' (lb_quantity b)) (\<lambda>quantity.
     rbind (need ''cac:Price/cbc:PriceAmount'' (lb_unit_price b)) (\<lambda>unit_price.
     rbind (need ''cbc:LineExtensionAmount'' (lb_extension_amount b)) (\<lambda>amount.
       Inr \<lparr>line_id = id, line_description = description, line_quantity = quantity,
         line_unit_code = lb_unit_code b, line_unit_price = unit_price, line_extension_amount = amount,
         line_tax_category = lb_tax_category b, line_classifications = lb_classifications b,
         line_extensions = [], line_allowance_charges = []\<rparr>)))))"

record 'd tax_builder =
  xb_category_code :: "string option"
  xb_taxable_amount :: "'d option"
  xb_tax_amount :: "'d option"
  xb_tax_rate :: "'d option"
  xb_exemption_reason :: "string option"
  xb_exemption_reason_code :: "string option"

definition tax_builder_new :: "'d tax_builder" where
  "tax_builder_new = \<lparr>xb_category_code = None, xb_taxable_amount = None, xb_tax_amount = None, xb_tax_rate = None,
     xb_exemption_reason = None, xb_exemption_reason_code = None\<rparr>"

definition tax_build :: "'d tax_builder \<Rightarrow> ubl_error + 'd tax_category_summary" where
  "tax_build b =
     rbind (need ''cac:TaxCategory/cbc:ID'' (xb_category_code b)) (\<lambda>code.
     rbind (need ''cbc:TaxableAmount'' (xb_taxable_amount b)) (\<lambda>taxable.
     rbind (need ''cbc:TaxAmount'' (xb_tax_amount b)) (\<lambda>tax.
       Inr \<lparr>ts_category_code = code, ts_taxable_amount = taxable, ts_tax_amount = tax,
         ts_tax_rate = xb_tax_rate b, ts_exemption_reason = xb_exemption_reason b,
         ts_exemption_reason_code = xb_exemption_reason_code b\<rparr>)))"

record 'd total_builder =
  tb_line_extension :: "'d option"
  tb_tax_exclusive :: "'d option"
  tb_tax_inclusive :: "'d option"
  tb_allowance_total :: "'d option"
  tb_charge_total :: "'d option"
  tb_prepaid :: "'d option"
  tb_payable :: "'d option"

definition total_builder_new :: "'d total_builder" where
  "total_builder_new = \<lparr>tb_line_extension = None, tb_tax_exclusive = None, tb_tax_inclusive = None,
     tb_allowance_total = None, tb_charge_total = None, tb_prepaid = None, tb_payable = None\<rparr>"

definition total_build :: "'d total_builder \<Rightarrow> ubl_error + 'd monetary_total" where
  "total_build b =
     rbind (need ''cbc:LineExtensionAmount'' (tb_line_extension b)) (\<lambda>le.
     rbind (need ''cbc:TaxExclusiveAmount'' (tb_tax_exclusive b)) (\<lambda>te.
     rbind (need ''cbc:TaxInclusiveAmount'' (tb_tax_inclusive b)) (\<lambda>ti.
     rbind (need ''cbc:PayableAmount'' (tb_payable b)) (\<lambda>pay.
       Inr \<lparr>mt_line_extension_amount = le, mt_tax_exclusive_amount = te, mt_tax_inclusive_amount = ti,
         mt_allowance_total_amount = tb_allowance_total b, mt_charge_total_amount = tb_charge_total b,
         mt_prepaid_amount = tb_prepaid b, mt_payable_amount = pay\<rparr>))))"

record payment_builder =
  yb_account :: "string option"
  yb_reference :: "string option"

definition payment_builder_new :: payment_builder where
  "payment_builder_new = \<lparr>yb_account = None, yb_reference = None\<rparr>"

definition payment_build :: "payment_builder \<Rightarrow> payment_instruction option" where
  "payment_build b =
     (if yb_account b = None \<and> yb_reference b = None then None
      else Some \<lparr>pi_kind = (if yb_account b \<noteq> None then IbanBic else OtherInstruction),
             pi_account = yb_account b, pi_reference = yb_reference b\<rparr>)"

end
