(* ===== verification/Ubl_Machine.thy ===== *)
theory Ubl_Machine
  imports Ubl_Parse
begin

text \<open>
  The state of the UBL parser and its three handlers, the loop over the events, and the document built at the
  end (\<open>ParseState\<close> and \<open>parse_xml_document\<close> in \<open>crates/format-ubl/src/lib.rs\<close>).
\<close>

record 'd ubl_state =
  us_document_type :: "document_type option"
  us_document_id :: "string option"
  us_document_number :: "string option"
  us_issue_date :: "string option"
  us_tax_point_date :: "string option"
  us_due_date :: "string option"
  us_currency :: "string option"
  us_tenant_id :: "string option"
  us_trace_id :: "string option"
  us_source_system :: "string option"
  us_buyer_reference :: "string option"
  us_accounting_cost :: "string option"
  us_preserved :: "preserved_xml list"
  us_capture :: "xml_capture option"
  us_extension_uri :: "string option"
  us_supplier :: party_builder
  us_customer :: party_builder
  us_payee :: party_builder
  us_has_payee :: bool
  us_terms :: "string option"
  us_payments :: "payment_instruction list"
  us_payment :: "payment_builder option"
  us_dropped :: nat
  us_lines :: "('d, serde_value) document_line list"
  us_line :: "'d line_builder option"
  us_tax_summary :: "'d tax_category_summary list"
  us_tax :: "'d tax_builder option"
  us_total :: "'d total_builder"
  us_notes :: "localized_string list"
  us_note_language :: "string option"

definition ubl_state_new :: "'d ubl_state" where
  "ubl_state_new =
     \<lparr>us_document_type = None, us_document_id = None, us_document_number = None, us_issue_date = None,
      us_tax_point_date = None, us_due_date = None, us_currency = None, us_tenant_id = None, us_trace_id = None,
      us_source_system = None, us_buyer_reference = None, us_accounting_cost = None, us_preserved = [],
      us_capture = None, us_extension_uri = None, us_supplier = party_builder_new, us_customer = party_builder_new,
      us_payee = party_builder_new, us_has_payee = False, us_terms = None, us_payments = [], us_payment = None,
      us_dropped = 0, us_lines = [], us_line = None, us_tax_summary = [], us_tax = None,
      us_total = total_builder_new, us_notes = [], us_note_language = None\<rparr>"

section \<open>Start of an element\<close>

definition root_type :: "string \<Rightarrow> ubl_error + document_type" where
  "root_type name =
     (if name = ''Invoice'' then Inr Invoice else if name = ''CreditNote'' then Inr CreditNote
      else Inl (UblUnsupportedRoot name))"

definition start_root :: "parsed_element list \<Rightarrow> string \<Rightarrow> 'd ubl_state \<Rightarrow> ubl_error + 'd ubl_state" where
  "start_root stack name s =
     (if stack = [] then rbind (root_type name) (\<lambda>t. Inr (s\<lparr>us_document_type := Some t\<rparr>)) else Inr s)"

definition line_start :: "parsed_element list \<Rightarrow> string \<Rightarrow> ubl_attrs \<Rightarrow> 'd line_builder \<Rightarrow> 'd line_builder" where
  "line_start stack name attrs l0 =
     (let l1 = (if name = ''InvoicedQuantity'' \<or> name = ''CreditedQuantity''
                then l0\<lparr>lb_unit_code := attr_value attrs ''unitCode''\<rparr> else l0);
          l2 = (if path_ends stack [''Item''] \<and> name = ''CommodityClassification''
                then l1\<lparr>lb_classification := Some classification_builder_new\<rparr> else l1)
      in if path_ends stack [''Item'', ''CommodityClassification''] \<and> name = ''ItemClassificationCode''
         then l2\<lparr>lb_classification := map_option (\<lambda>c. c\<lparr>
             cb_scheme_id := (case attr_value attrs ''listID'' of None \<Rightarrow> [] | Some v \<Rightarrow> v),
             cb_scheme_version := attr_value attrs ''listVersionID''\<rparr>) (lb_classification l2)\<rparr>
         else l2)"

definition start_open :: "parsed_element list \<Rightarrow> parsed_element \<Rightarrow> ubl_attrs \<Rightarrow> 'd ubl_state \<Rightarrow> 'd ubl_state" where
  "start_open stack e attrs s0 =
     (let name = pe_name e;
          s1 = (if is_element e ''UBLExtension'' ns_ext \<and> is_root_ubl_extensions stack
                then s0\<lparr>us_extension_uri := None\<rparr> else s0);
          s2 = (if name = ''InvoiceLine'' \<or> name = ''CreditNoteLine''
                then s1\<lparr>us_line := Some line_builder_new\<rparr> else s1);
          s3 = (if name = ''TaxSubtotal'' then s2\<lparr>us_tax := Some tax_builder_new\<rparr> else s2);
          s4 = (if name = ''PaymentMeans'' then s3\<lparr>us_payment := Some payment_builder_new\<rparr> else s3);
          s5 = (if name = ''Note'' \<and> length stack = 1
                then s4\<lparr>us_note_language := attr_value attrs ''languageID''\<rparr> else s4)
      in s5\<lparr>us_line := map_option (line_start stack name attrs) (us_line s5)\<rparr>)"

definition start_element ::
  "parsed_element list \<Rightarrow> parsed_element \<Rightarrow> ubl_attrs \<Rightarrow> 'd ubl_state \<Rightarrow> ubl_error + 'd ubl_state" where
  "start_element stack e attrs s0 =
     rbind (start_root stack (pe_name e) s0) (\<lambda>s.
       case us_capture s of
         Some c \<Rightarrow> rbind (capture_start c e attrs) (\<lambda>c'. Inr (s\<lparr>us_capture := Some c'\<rparr>))
       | None \<Rightarrow>
           if (case Option.bind (us_document_type s) document_kind_from_type of
                 None \<Rightarrow> False | Some kind \<Rightarrow> should_preserve_top_level stack e kind)
           then rbind (capture_new e attrs) (\<lambda>c. Inr (s\<lparr>us_capture := Some c\<rparr>))
           else Inr (start_open stack e attrs s))"

section \<open>End of an element\<close>

definition end_classification :: "'d line_builder \<Rightarrow> 'd line_builder" where
  "end_classification l =
     (case lb_classification l of
        None \<Rightarrow> l
      | Some c \<Rightarrow> l\<lparr>lb_classification := None, lb_classifications := lb_classifications l @ [classification_build c]\<rparr>)"

definition end_line :: "string \<Rightarrow> 'd ubl_state \<Rightarrow> ubl_error + 'd ubl_state" where
  "end_line name s =
     (if name = ''InvoiceLine'' \<or> name = ''CreditNoteLine''
      then rbind (need ''InvoiceLine'' (us_line s)) (\<lambda>b. rbind (line_build b) (\<lambda>l.
             Inr (s\<lparr>us_line := None, us_lines := us_lines s @ [l]\<rparr>)))
      else Inr s)"

definition end_tax :: "string \<Rightarrow> 'd ubl_state \<Rightarrow> ubl_error + 'd ubl_state" where
  "end_tax name s =
     (if name = ''TaxSubtotal''
      then rbind (need ''TaxSubtotal'' (us_tax s)) (\<lambda>b. rbind (tax_build b) (\<lambda>t.
             Inr (s\<lparr>us_tax := None, us_tax_summary := us_tax_summary s @ [t]\<rparr>)))
      else Inr s)"

definition end_payment :: "string \<Rightarrow> 'd ubl_state \<Rightarrow> 'd ubl_state" where
  "end_payment name s =
     (if name = ''PaymentMeans''
      then (case us_payment s of
              None \<Rightarrow> s
            | Some b \<Rightarrow> (case payment_build b of
                Some p \<Rightarrow> s\<lparr>us_payment := None, us_payments := us_payments s @ [p]\<rparr>
              | None \<Rightarrow> s\<lparr>us_payment := None, us_dropped := us_dropped s + 1\<rparr>))
      else s)"

definition end_element :: "parsed_element \<Rightarrow> 'd ubl_state \<Rightarrow> ubl_error + 'd ubl_state" where
  "end_element e s =
     (case us_capture s of
        Some c \<Rightarrow> rbind (capture_end c e) (\<lambda>c'.
          Inr (if cap_depth c' = 0 then s\<lparr>us_capture := None, us_preserved := us_preserved s @ [capture_finish c']\<rparr>
               else s\<lparr>us_capture := Some c'\<rparr>))
      | None \<Rightarrow>
          let name = pe_name e;
              s1 = (if name = ''CommodityClassification''
                    then s\<lparr>us_line := map_option end_classification (us_line s)\<rparr> else s)
          in rbind (end_line name s1) (\<lambda>s2. rbind (end_tax name s2) (\<lambda>s3.
            let s4 = end_payment name s3
            in Inr (if is_element e ''UBLExtension'' ns_ext then s4\<lparr>us_extension_uri := None\<rparr> else s4))))"

section \<open>Text\<close>

definition ubl_decimal :: "(string \<Rightarrow> 'd option) \<Rightarrow> string \<Rightarrow> string \<Rightarrow> ubl_error + 'd option" where
  "ubl_decimal dec path value = (case dec value of None \<Rightarrow> Inl (UblInvalidDecimal path value) | Some d \<Rightarrow> Inr (Some d))"

text \<open>
  The groups of the handler, in the order of its tests: a group that has no use for the text is \<open>None\<close>.
\<close>

definition line_text :: "(string \<Rightarrow> 'd option) \<Rightarrow> parsed_element list \<Rightarrow> string \<Rightarrow> 'd line_builder
    \<Rightarrow> (ubl_error + 'd line_builder) option" where
  "line_text dec stack v l =
     (if path_ends stack [''InvoiceLine'', ''ID''] \<or> path_ends stack [''CreditNoteLine'', ''ID'']
      then Some (Inr (l\<lparr>lb_id := Some v\<rparr>))
      else if path_ends stack [''InvoicedQuantity''] \<or> path_ends stack [''CreditedQuantity'']
      then Some (rbind (ubl_decimal dec ''line.quantity'' v) (\<lambda>d. Inr (l\<lparr>lb_quantity := d\<rparr>)))
      else if path_ends stack [''LineExtensionAmount'']
      then Some (rbind (ubl_decimal dec ''line.line_extension_amount'' v) (\<lambda>d. Inr (l\<lparr>lb_extension_amount := d\<rparr>)))
      else if path_ends stack [''Price'', ''PriceAmount'']
      then Some (rbind (ubl_decimal dec ''line.unit_price'' v) (\<lambda>d. Inr (l\<lparr>lb_unit_price := d\<rparr>)))
      else if path_ends stack [''Item'', ''Description''] \<or> path_ends stack [''Item'', ''Name'']
      then Some (Inr (l\<lparr>lb_description := Some v\<rparr>))
      else if path_ends stack [''ClassifiedTaxCategory'', ''ID''] then Some (Inr (l\<lparr>lb_tax_category := Some v\<rparr>))
      else None)"

definition tax_text :: "(string \<Rightarrow> 'd option) \<Rightarrow> parsed_element list \<Rightarrow> string \<Rightarrow> 'd tax_builder
    \<Rightarrow> (ubl_error + 'd tax_builder) option" where
  "tax_text dec stack v t =
     (if path_ends stack [''TaxableAmount'']
      then Some (rbind (ubl_decimal dec ''tax_summary.taxable_amount'' v) (\<lambda>d. Inr (t\<lparr>xb_taxable_amount := d\<rparr>)))
      else if path_ends stack [''TaxAmount'']
      then Some (rbind (ubl_decimal dec ''tax_summary.tax_amount'' v) (\<lambda>d. Inr (t\<lparr>xb_tax_amount := d\<rparr>)))
      else if path_ends stack [''TaxCategory'', ''ID''] then Some (Inr (t\<lparr>xb_category_code := Some v\<rparr>))
      else if path_ends stack [''TaxCategory'', ''Percent'']
      then Some (rbind (ubl_decimal dec ''tax_summary.tax_rate'' v) (\<lambda>d. Inr (t\<lparr>xb_tax_rate := d\<rparr>)))
      else None)"

definition party_text :: "parsed_element list \<Rightarrow> string \<Rightarrow> party_builder \<Rightarrow> party_builder option" where
  "party_text stack v p =
     (if path_ends stack [''EndpointID''] \<or> path_ends stack [''PartyIdentification'', ''ID'']
      then Some (if pb_id p = None then p\<lparr>pb_id := Some v\<rparr> else p)
      else if path_ends stack [''PartyName'', ''Name''] \<or> path_ends stack [''PartyLegalEntity'', ''RegistrationName'']
      then Some (p\<lparr>pb_name := Some v\<rparr>)
      else if path_ends stack [''PartyTaxScheme'', ''CompanyID'']
      then Some (p\<lparr>pb_tax_ids := pb_tax_ids p @ [\<lparr>tax_scheme = ''vat'', tax_value = v\<rparr>]\<rparr>)
      else if path_ends stack [''PostalAddress'', ''StreetName'']
        \<or> path_ends stack [''PostalAddress'', ''AdditionalStreetName''] \<or> path_ends stack [''PostalAddress'', ''Line'']
      then Some (p\<lparr>pb_lines := pb_lines p @ [v]\<rparr>)
      else if path_ends stack [''PostalAddress'', ''CityName''] then Some (p\<lparr>pb_city := Some v\<rparr>)
      else if path_ends stack [''PostalAddress'', ''PostalZone''] then Some (p\<lparr>pb_postal_code := Some v\<rparr>)
      else if path_ends stack [''PostalAddress'', ''CountrySubentity''] then Some (p\<lparr>pb_subdivision := Some v\<rparr>)
      else if path_ends stack [''Country'', ''IdentificationCode''] then Some (p\<lparr>pb_country := Some v\<rparr>)
      else if path_ends stack [''Contact'', ''Name''] then Some (p\<lparr>pb_contact_name := Some v\<rparr>)
      else if path_ends stack [''Contact'', ''ElectronicMail''] then Some (p\<lparr>pb_email := Some v\<rparr>)
      else if path_ends stack [''Contact'', ''Telephone''] then Some (p\<lparr>pb_phone := Some v\<rparr>)
      else None)"

text \<open>\<open>party_mut\<close>: the payee is there once a text below it is looked at.\<close>

fun party_mut :: "party_role \<Rightarrow> 'd ubl_state \<Rightarrow> 'd ubl_state \<times> party_builder" where
  "party_mut RoleSupplier s = (s, us_supplier s)"
| "party_mut RoleCustomer s = (s, us_customer s)"
| "party_mut RolePayee s = (s\<lparr>us_has_payee := True\<rparr>, us_payee s)"

fun party_put :: "party_role \<Rightarrow> party_builder \<Rightarrow> 'd ubl_state \<Rightarrow> 'd ubl_state" where
  "party_put RoleSupplier p s = s\<lparr>us_supplier := p\<rparr>"
| "party_put RoleCustomer p s = s\<lparr>us_customer := p\<rparr>"
| "party_put RolePayee p s = s\<lparr>us_payee := p\<rparr>"

definition payment_text :: "parsed_element list \<Rightarrow> string \<Rightarrow> payment_builder \<Rightarrow> payment_builder option" where
  "payment_text stack v p =
     (if path_ends stack [''PaymentID''] then Some (p\<lparr>yb_reference := Some v\<rparr>)
      else if path_ends stack [''PayeeFinancialAccount'', ''ID''] then Some (p\<lparr>yb_account := Some v\<rparr>)
      else None)"

definition totals_text :: "(string \<Rightarrow> 'd option) \<Rightarrow> parsed_element list \<Rightarrow> string \<Rightarrow> 'd total_builder
    \<Rightarrow> (ubl_error + 'd total_builder) option" where
  "totals_text dec stack v t =
     (if path_ends stack [''LineExtensionAmount'']
      then Some (rbind (ubl_decimal dec ''monetary_total.line_extension_amount'' v) (\<lambda>d. Inr (t\<lparr>tb_line_extension := d\<rparr>)))
      else if path_ends stack [''TaxExclusiveAmount'']
      then Some (rbind (ubl_decimal dec ''monetary_total.tax_exclusive_amount'' v) (\<lambda>d. Inr (t\<lparr>tb_tax_exclusive := d\<rparr>)))
      else if path_ends stack [''TaxInclusiveAmount'']
      then Some (rbind (ubl_decimal dec ''monetary_total.tax_inclusive_amount'' v) (\<lambda>d. Inr (t\<lparr>tb_tax_inclusive := d\<rparr>)))
      else if path_ends stack [''AllowanceTotalAmount'']
      then Some (rbind (ubl_decimal dec ''monetary_total.allowance_total_amount'' v) (\<lambda>d. Inr (t\<lparr>tb_allowance_total := d\<rparr>)))
      else if path_ends stack [''ChargeTotalAmount'']
      then Some (rbind (ubl_decimal dec ''monetary_total.charge_total_amount'' v) (\<lambda>d. Inr (t\<lparr>tb_charge_total := d\<rparr>)))
      else if path_ends stack [''PrepaidAmount'']
      then Some (rbind (ubl_decimal dec ''monetary_total.prepaid_amount'' v) (\<lambda>d. Inr (t\<lparr>tb_prepaid := d\<rparr>)))
      else if path_ends stack [''PayableAmount'']
      then Some (rbind (ubl_decimal dec ''monetary_total.payable_amount'' v) (\<lambda>d. Inr (t\<lparr>tb_payable := d\<rparr>)))
      else None)"

definition is_metadata_field :: "'d ubl_state \<Rightarrow> parsed_element list \<Rightarrow> string \<Rightarrow> bool" where
  "is_metadata_field s stack field \<longleftrightarrow>
     us_extension_uri s = Some invoicekit_metadata_urn \<and> in_top_level_ubl_extension stack
     \<and> path_ends_ns stack [(''ExtensionContent'', ns_ext), (''DocumentMeta'', ns_ik), (field, ns_ik)]"

definition root_text :: "parsed_element list \<Rightarrow> string \<Rightarrow> 'd ubl_state \<Rightarrow> 'd ubl_state" where
  "root_text stack v s =
     (if is_root_child stack ''ID'' then s\<lparr>us_document_number := Some v\<rparr>
      else if is_root_child stack ''UUID'' then s\<lparr>us_document_id := Some v\<rparr>
      else if is_root_child stack ''IssueDate'' then s\<lparr>us_issue_date := Some v\<rparr>
      else if is_root_child stack ''TaxPointDate'' then s\<lparr>us_tax_point_date := Some v\<rparr>
      else if is_root_child stack ''DueDate'' then s\<lparr>us_due_date := Some v\<rparr>
      else if is_root_child stack ''DocumentCurrencyCode'' then s\<lparr>us_currency := Some v\<rparr>
      else if is_root_child stack ''BuyerReference'' then s\<lparr>us_buyer_reference := Some v\<rparr>
      else if is_root_child stack ''AccountingCost'' then s\<lparr>us_accounting_cost := Some v\<rparr>
      else if is_root_child stack ''Note''
      then s\<lparr>us_notes := us_notes s @ [\<lparr>ls_language = (case us_note_language s of None \<Rightarrow> ''und'' | Some l \<Rightarrow> l),
             ls_text = v\<rparr>]\<rparr>
      else if path_ends stack [''PaymentTerms'', ''Note''] then s\<lparr>us_terms := Some v\<rparr>
      else if is_metadata_field s stack ''TenantID'' then s\<lparr>us_tenant_id := Some v\<rparr>
      else if is_metadata_field s stack ''TraceID'' then s\<lparr>us_trace_id := Some v\<rparr>
      else if is_metadata_field s stack ''SourceSystem'' then s\<lparr>us_source_system := Some v\<rparr>
      else s)"

text \<open>Texts kept untrimmed: the code of a classification and the reasons of an exemption.\<close>

definition append_to :: "string option \<Rightarrow> string \<Rightarrow> string option" where
  "append_to x raw = Some ((case x of None \<Rightarrow> [] | Some y \<Rightarrow> y) @ raw)"

definition raw_text :: "parsed_element list \<Rightarrow> string \<Rightarrow> 'd ubl_state \<Rightarrow> 'd ubl_state option" where
  "raw_text stack raw s =
     (if path_ends stack [''Item'', ''CommodityClassification'', ''ItemClassificationCode'']
      then Some (s\<lparr>us_line := map_option (\<lambda>l. l\<lparr>lb_classification :=
             map_option (\<lambda>c. c\<lparr>cb_code := cb_code c @ raw\<rparr>) (lb_classification l)\<rparr>) (us_line s)\<rparr>)
      else case us_tax s of
          None \<Rightarrow> None
        | Some t \<Rightarrow>
            if path_ends stack [''TaxCategory'', ''TaxExemptionReasonCode'']
            then Some (s\<lparr>us_tax := Some (t\<lparr>xb_exemption_reason_code := append_to (xb_exemption_reason_code t) raw\<rparr>)\<rparr>)
            else if path_ends stack [''TaxCategory'', ''TaxExemptionReason'']
            then Some (s\<lparr>us_tax := Some (t\<lparr>xb_exemption_reason := append_to (xb_exemption_reason t) raw\<rparr>)\<rparr>)
            else None)"

text \<open>After the party, the payment and the totals, whose builders may be open at once.\<close>

definition total_or_root_text ::
  "(string \<Rightarrow> 'd option) \<Rightarrow> parsed_element list \<Rightarrow> string \<Rightarrow> 'd ubl_state \<Rightarrow> ubl_error + 'd ubl_state" where
  "total_or_root_text dec stack v s =
     (case (if in_any stack [''LegalMonetaryTotal''] then totals_text dec stack v (us_total s) else None) of
        Some r \<Rightarrow> rbind r (\<lambda>t. Inr (s\<lparr>us_total := t\<rparr>))
      | None \<Rightarrow> Inr (root_text stack v s))"

definition payment_or_later_text ::
  "(string \<Rightarrow> 'd option) \<Rightarrow> parsed_element list \<Rightarrow> string \<Rightarrow> 'd ubl_state \<Rightarrow> ubl_error + 'd ubl_state" where
  "payment_or_later_text dec stack v s =
     (case Option.bind (us_payment s) (payment_text stack v) of
        Some p \<Rightarrow> Inr (s\<lparr>us_payment := Some p\<rparr>)
      | None \<Rightarrow> total_or_root_text dec stack v s)"

definition party_or_later_text ::
  "(string \<Rightarrow> 'd option) \<Rightarrow> parsed_element list \<Rightarrow> string \<Rightarrow> 'd ubl_state \<Rightarrow> ubl_error + 'd ubl_state" where
  "party_or_later_text dec stack v s =
     (case party_role stack of
        None \<Rightarrow> payment_or_later_text dec stack v s
      | Some role \<Rightarrow>
          (case party_mut role s of (s1, p) \<Rightarrow>
             (case party_text stack v p of
                Some p' \<Rightarrow> Inr (party_put role p' s1)
              | None \<Rightarrow> payment_or_later_text dec stack v s1)))"

definition value_text ::
  "(string \<Rightarrow> 'd option) \<Rightarrow> parsed_element list \<Rightarrow> string \<Rightarrow> 'd ubl_state \<Rightarrow> ubl_error + 'd ubl_state" where
  "value_text dec stack v s =
     (if path_ends_ns stack [(''UBLExtension'', ns_ext), (''ExtensionURI'', ns_ext)] \<and> in_top_level_ubl_extension stack
      then Inr (s\<lparr>us_extension_uri := Some v\<rparr>)
      else case Option.bind (us_line s) (line_text dec stack v) of
          Some r \<Rightarrow> rbind r (\<lambda>l. Inr (s\<lparr>us_line := Some l\<rparr>))
        | None \<Rightarrow>
            (case Option.bind (us_tax s) (tax_text dec stack v) of
               Some r \<Rightarrow> rbind r (\<lambda>t. Inr (s\<lparr>us_tax := Some t\<rparr>))
             | None \<Rightarrow> party_or_later_text dec stack v s))"

definition text_event ::
  "(string \<Rightarrow> 'd option) \<Rightarrow> parsed_element list \<Rightarrow> string \<Rightarrow> 'd ubl_state \<Rightarrow> ubl_error + 'd ubl_state" where
  "text_event dec stack raw s =
     (case us_capture s of
        Some c \<Rightarrow> Inr (s\<lparr>us_capture := Some (capture_text c raw)\<rparr>)
      | None \<Rightarrow>
          (case raw_text stack raw s of
             Some s' \<Rightarrow> Inr s'
           | None \<Rightarrow> if trim raw = [] then Inr s else value_text dec stack (trim raw) s))"

section \<open>The document\<close>

definition bead_id :: string where
  "bead_id = ''invoices-t-040-ubl-2-1-parser-serializer-1v2''"

definition document_fields :: "'d ubl_state \<Rightarrow> (string \<times> serde_value) list" where
  "document_fields s =
     (case us_buyer_reference s of None \<Rightarrow> [] | Some v \<Rightarrow> [(''buyer_reference'', SString v)])
     @ (case us_accounting_cost s of None \<Rightarrow> [] | Some v \<Rightarrow> [(''accounting_cost'', SString v)])
     @ (let kept = filter (\<lambda>p. \<not> is_default_profile_fragment p) (us_preserved s)
        in if kept = [] then [] else [(''top_level'', SArray (map preserved_into_value kept))])"

definition ubl_extensions :: "'d ubl_state \<Rightarrow> ubl_error + serde_value jurisdiction_extension list" where
  "ubl_extensions s =
     (if document_fields s = [] then Inr []
      else rbind (ubl_ir (extension_new ubl_fields_urn (JNonNull (SObject (document_fields s)))))
        (\<lambda>e. Inr [e]))"

definition date_opt :: "string option \<Rightarrow> ubl_error + date_only option" where
  "date_opt x = (case x of None \<Rightarrow> Inr None | Some v \<Rightarrow> rbind (ubl_ir (date_new v)) (\<lambda>d. Inr (Some d)))"

definition ubl_terms :: "'d ubl_state \<Rightarrow> ubl_error + payment_terms option" where
  "ubl_terms s =
     (case us_terms s of
        None \<Rightarrow> Inr None
      | Some description \<Rightarrow> rbind (date_opt (us_due_date s)) (\<lambda>due.
          Inr (Some \<lparr>terms_description = description, terms_due_date = due\<rparr>)))"

definition ubl_payee :: "'d ubl_state \<Rightarrow> ubl_error + party option" where
  "ubl_payee s =
     (if us_has_payee s then rbind (party_build ''PayeeParty'' (us_payee s)) (\<lambda>p. Inr (Some p)) else Inr None)"

definition ubl_finish :: "'d ubl_state \<Rightarrow> ubl_error + ('d, serde_value) commercial_document" where
  "ubl_finish s =
     rbind (need ''Invoice|CreditNote'' (us_document_type s)) (\<lambda>document_type.
     rbind (need ''cbc:ID'' (us_document_number s)) (\<lambda>number_text.
     let id_text = (case us_document_id s of None \<Rightarrow> number_text | Some v \<Rightarrow> v) in
     rbind (need ''cbc:IssueDate'' (us_issue_date s)) (\<lambda>issue_text.
     rbind (need ''cbc:DocumentCurrencyCode'' (us_currency s)) (\<lambda>currency_text.
     let tenant = (case us_tenant_id s of None \<Rightarrow> ''ubl-import'' | Some v \<Rightarrow> v);
         trace = (case us_trace_id s of None \<Rightarrow> bead_id @ '':'' @ id_text | Some v \<Rightarrow> v) in
     rbind (ubl_extensions s) (\<lambda>extensions.
     rbind (ubl_terms s) (\<lambda>terms.
     rbind (ubl_ir (document_id_new id_text)) (\<lambda>id.
     rbind (ubl_ir (date_new issue_text)) (\<lambda>issue.
     rbind (date_opt (us_tax_point_date s)) (\<lambda>tax_point.
     rbind (date_opt (us_due_date s)) (\<lambda>due.
     rbind (ubl_ir (document_number_new number_text)) (\<lambda>number.
     rbind (ubl_ir (currency_new currency_text)) (\<lambda>currency.
     rbind (party_build ''AccountingSupplierParty'' (us_supplier s)) (\<lambda>supplier.
     rbind (party_build ''AccountingCustomerParty'' (us_customer s)) (\<lambda>customer.
     rbind (ubl_payee s) (\<lambda>payee.
     rbind (total_build (us_total s)) (\<lambda>total.
       ubl_ir (document_new
         \<lparr>doc_schema_version = V1_0, doc_id = id, doc_document_type = document_type, doc_issue_date = issue,
          doc_tax_point_date = tax_point, doc_due_date = due, doc_invoice_period = None, doc_delivery_date = None,
          doc_document_number = number, doc_currency = currency, doc_supplier = supplier, doc_customer = customer,
          doc_payee = payee, doc_payment_terms = terms, doc_payment_instructions = us_payments s,
          doc_lines = us_lines s, doc_tax_summary = us_tax_summary s, doc_monetary_total = total,
          doc_attachments = [], doc_references = [], doc_notes = us_notes s, doc_extensions = extensions,
          doc_allowance_charges = [], doc_deliver_to = None,
          doc_meta = \<lparr>meta_tenant_id = tenant, meta_trace_id = trace, meta_source_system = us_source_system s\<rparr>\<rparr>)
     ))))))))))))))))"

section \<open>The loop\<close>

fun ubl_loop :: "(string \<Rightarrow> 'd option) \<Rightarrow> ubl_frame list \<Rightarrow> parsed_element list \<Rightarrow> 'd ubl_state \<Rightarrow> xml_event list
    \<Rightarrow> ubl_error + 'd ubl_state" where
  "ubl_loop dec frames stack s [] = Inr s"
| "ubl_loop dec frames stack s (EvStart name attrs # es) =
     rbind (read_element_start (case frames of [] \<Rightarrow> [] | f # _ \<Rightarrow> f) name attrs) (\<lambda>(e, as, f).
       rbind (start_element stack e as s) (\<lambda>s1. ubl_loop dec (f # frames) (e # stack) s1 es))"
| "ubl_loop dec frames stack s (EvEmpty name attrs # es) =
     rbind (read_element_start (case frames of [] \<Rightarrow> [] | f # _ \<Rightarrow> f) name attrs) (\<lambda>(e, as, _).
       rbind (start_element stack e as s) (\<lambda>s1. rbind (end_element e s1) (\<lambda>s2. ubl_loop dec frames stack s2 es)))"
| "ubl_loop dec frames stack s (EvEnd name # es) =
     rbind (case frames of [] \<Rightarrow> Inl (UblUnsupportedRoot ''missing namespace'') | f # _ \<Rightarrow> read_element_name name f) (\<lambda>e.
       rbind (end_element e s) (\<lambda>s1.
         case stack of
           [] \<Rightarrow> Inl (UblUnsupportedRoot (pe_name e))
         | opened # rest \<Rightarrow>
             if opened \<noteq> e then Inl (UblUnsupportedRoot (pe_name opened @ ''/'' @ pe_name e))
             else ubl_loop dec (tl frames) rest s1 es))"
| "ubl_loop dec frames stack s (EvText t # es) =
     rbind (ubl_read t) (\<lambda>raw. rbind (text_event dec stack raw s) (\<lambda>s1. ubl_loop dec frames stack s1 es))"
| "ubl_loop dec frames stack s (EvCData t # es) =
     rbind (ubl_read t) (\<lambda>raw. rbind (text_event dec stack raw s) (\<lambda>s1. ubl_loop dec frames stack s1 es))"
| "ubl_loop dec frames stack s (EvGeneralRef r # es) =
     rbind (ubl_read r) (\<lambda>ref. rbind (ubl_resolve_reference ref) (\<lambda>raw.
       rbind (text_event dec stack raw s) (\<lambda>s1. ubl_loop dec frames stack s1 es)))"
| "ubl_loop dec frames stack s (EvDecl d # es) = rbind (ubl_read d) (\<lambda>_. ubl_loop dec frames stack s es)"
| "ubl_loop dec frames stack s (EvDocType # es) = Inl (UblUnsupportedRoot ''DOCTYPE'')"
| "ubl_loop dec frames stack s (EvPI content # es) = ubl_loop dec frames stack s es"
| "ubl_loop dec frames stack s (EvComment # es) = ubl_loop dec frames stack s es"
| "ubl_loop dec frames stack s (EvFailed e # es) = Inl (UblReader e)"

definition parse_xml_document ::
  "(string \<Rightarrow> 'd option) \<Rightarrow> xml_event list \<Rightarrow> ubl_error + ('d, serde_value) commercial_document \<times> nat" where
  "parse_xml_document dec events =
     rbind (ubl_loop dec [ []] [] ubl_state_new events) (\<lambda>s.
       rbind (ubl_finish s) (\<lambda>d. Inr (d, us_dropped s)))"

end
