(* ===== verification/Xml_Tree.thy ===== *)
theory Xml_Tree
  imports Canonical_Xml
begin

text \<open>
  XML as trees: the text a tree is written as with the escapes of \<open>crates/canonical\<close> and
  \<open>crates/format-ubl\<close>, the events of that text, and a reader of such texts as an instance of the
  \<open>quick_xml\<close> reader the crates call.
\<close>

section \<open>Trees, texts and events\<close>

datatype xml_tree = XElem string "(string \<times> string) list" "xml_tree list" | XText string

definition attr_text :: "string \<times> string \<Rightarrow> string" where
  "attr_text kv = '' '' @ fst kv @ [CHR ''='', CHR 0x22] @ concat (map attr_char (snd kv)) @ [CHR 0x22]"

fun xrender :: "xml_tree \<Rightarrow> string" and xrenders :: "xml_tree list \<Rightarrow> string" where
  "xrender (XElem n as ts) = ''<'' @ n @ concat (map attr_text as) @ ''>'' @ xrenders ts @ ''</'' @ n @ ''>''"
| "xrender (XText v) = concat (map text_char v)"
| "xrenders [] = []"
| "xrenders (t # ts) = xrender t @ xrenders ts"

text \<open>A text is one event up to the next escaped character, which is an event of its own.\<close>

definition char_ref :: "char \<Rightarrow> string option" where
  "char_ref c =
     (if c = CHR ''&'' then Some ''amp'' else if c = CHR ''<'' then Some ''lt'' else if c = CHR ''>'' then Some ''gt''
      else if c = CHR 0x0D then Some ''#xD'' else None)"

definition flush_text :: "string \<Rightarrow> xml_event list" where
  "flush_text buf = (if buf = [] then [] else [EvText (Inr buf)])"

fun text_events :: "string \<Rightarrow> string \<Rightarrow> xml_event list" where
  "text_events buf [] = flush_text buf"
| "text_events buf (c # cs) =
     (case char_ref c of
        None \<Rightarrow> text_events (buf @ [c]) cs
      | Some r \<Rightarrow> flush_text buf @ EvGeneralRef (Inr r) # text_events [] cs)"

fun xevents :: "xml_tree \<Rightarrow> xml_event list" and xevents_list :: "xml_tree list \<Rightarrow> xml_event list" where
  "xevents (XElem n as ts) = EvStart n (map Inr as) # xevents_list ts @ [EvEnd n]"
| "xevents (XText v) = text_events [] v"
| "xevents_list [] = []"
| "xevents_list (t # ts) = xevents t @ xevents_list ts"

text \<open>Names without markup, attributes with distinct names, texts neither empty nor side by side.\<close>

definition xml_name :: "string \<Rightarrow> bool" where
  "xml_name n \<longleftrightarrow> n \<noteq> []
     \<and> list_all (\<lambda>c. c \<notin> {CHR ''<'', CHR ''>'', CHR ''/'', CHR ''='', CHR '' '', CHR ''&'', CHR 0x22, CHR ''!'', CHR ''?''}) n"

fun xtree_ok :: "xml_tree \<Rightarrow> bool" and xtrees_ok :: "bool \<Rightarrow> xml_tree list \<Rightarrow> bool" where
  "xtree_ok (XElem n as ts) \<longleftrightarrow>
     xml_name n \<and> list_all (\<lambda>kv. xml_name (fst kv)) as \<and> distinct (map fst as) \<and> xtrees_ok False ts"
| "xtree_ok (XText v) \<longleftrightarrow> v \<noteq> []"
| "xtrees_ok after_text [] \<longleftrightarrow> True"
| "xtrees_ok after_text (t # ts) \<longleftrightarrow>
     xtree_ok t \<and> (case t of XText _ \<Rightarrow> \<not> after_text | _ \<Rightarrow> True)
     \<and> xtrees_ok (case t of XText _ \<Rightarrow> True | _ \<Rightarrow> False) ts"

text \<open>What the crates rely on of the reader.\<close>

definition reads_trees :: "(string \<Rightarrow> xml_event list) \<Rightarrow> bool" where
  "reads_trees read \<longleftrightarrow>
     (\<forall>n as ts. xtree_ok (XElem n as ts) \<longrightarrow> read (xrender (XElem n as ts)) = xevents (XElem n as ts))"

section \<open>A reader\<close>

text \<open>The characters an escaped attribute value stands for.\<close>

definition attr_entities :: "(string \<times> char) list" where
  "attr_entities =
     [(''&amp;'', CHR ''&''), (''&lt;'', CHR ''<''), (''&quot;'', CHR 0x22), (''&#x9;'', CHR 0x09),
      (''&#xA;'', CHR 0x0A), (''&#xD;'', CHR 0x0D)]"

fun match_entity :: "(string \<times> char) list \<Rightarrow> string \<Rightarrow> (char \<times> string) option" where
  "match_entity [] s = None"
| "match_entity ((e, c) # es) s = (if take (length e) s = e then Some (c, drop (length e) s) else match_entity es s)"

lemma match_entity_shorter: "match_entity es s = Some (c, r) \<Longrightarrow> list_all (\<lambda>p. fst p \<noteq> []) es \<Longrightarrow> length r < length s"
proof (induction es s rule: match_entity.induct)
  case (2 e c' es s)
  show ?case
  proof (cases "take (length e) s = e")
    case True
    then have "s \<noteq> []" using 2(3) by auto
    then show ?thesis using True 2(2,3) by (auto simp: diff_less)
  qed (use 2 in simp)
qed simp

lemma attr_entity_shorter: "match_entity attr_entities s = Some (c, r) \<Longrightarrow> length r < length s"
  by (erule match_entity_shorter) (simp add: attr_entities_def)

lemma drop_while_le: "length (dropWhile P s) \<le> length s"
  by (rule length_dropWhile_le)

lemma drop_while_le' [simp]:
  "length (dropWhile P s) - k \<le> length s" "length (dropWhile P s) \<le> Suc (length s)"
  "length (dropWhile P s) \<le> Suc (Suc (length s))"
  using drop_while_le [of P s] by linarith+

text \<open>A value up to the quotation mark, and what follows it.\<close>

function read_value :: "string \<Rightarrow> string \<Rightarrow> (string \<times> string) option" where
  "read_value acc s =
     (case s of
        [] \<Rightarrow> None
      | c # r \<Rightarrow>
          if c = CHR 0x22 then Some (acc, r)
          else case match_entity attr_entities s of
              Some (d, r') \<Rightarrow> read_value (acc @ [d]) r'
            | None \<Rightarrow> read_value (acc @ [c]) r)"
  by auto
termination
  by (relation "measure (\<lambda>(acc, s). length s)") (auto dest!: attr_entity_shorter)

declare read_value.simps [simp del]

lemma read_value_shorter: "read_value acc s = Some (v, r) \<Longrightarrow> length r < length s"
proof (induction acc s rule: read_value.induct)
  case (1 acc s)
  show ?case
  proof (cases s)
    case Nil
    then show ?thesis using 1(3) by (simp add: read_value.simps)
  next
    case (Cons c r0)
    note eq = 1(3) [unfolded Cons read_value.simps [of _ "c # r0"]]
    show ?thesis
    proof (cases "c = CHR 0x22")
      case False
      show ?thesis
      proof (cases "match_entity attr_entities s")
        case None
        then show ?thesis using 1(1) [OF Cons False None] eq Cons False by simp
      next
        case (Some p)
        then obtain d r' where p: "match_entity attr_entities s = Some (d, r')" by (cases p) auto
        then show ?thesis
          using 1(2) [OF Cons False p HOL.refl] eq Cons False attr_entity_shorter [OF p] by simp
      qed
    qed (use eq Cons in simp)
  qed
qed

function read_tag_attrs :: "(string \<times> string) list \<Rightarrow> string \<Rightarrow> ((string \<times> string) list \<times> string) option" where
  "read_tag_attrs acc s =
     (case s of
        [] \<Rightarrow> None
      | c # r \<Rightarrow>
          if c = CHR ''>'' then Some (acc, r)
          else case read_value [] (drop 2 (dropWhile (\<lambda>c. c \<noteq> CHR ''='') r)) of
              None \<Rightarrow> None
            | Some (v, r') \<Rightarrow> read_tag_attrs (acc @ [(takeWhile (\<lambda>c. c \<noteq> CHR ''='') r, v)]) r')"
  by auto
termination
proof (relation "measure (\<lambda>(acc, s). length s)", goal_cases)
  case (2 acc s c r x v r')
  from 2(3) have "length r' < length (drop 2 (dropWhile (\<lambda>c. c \<noteq> CHR ''='') r))"
    using 2(4) by (auto dest: read_value_shorter)
  also have "\<dots> \<le> length r" by simp
  finally show ?case using 2(1) by simp
qed simp

declare read_tag_attrs.simps [simp del]

lemma read_tag_attrs_shorter: "read_tag_attrs acc s = Some (as, r) \<Longrightarrow> length r < length s"
proof (induction acc s rule: read_tag_attrs.induct)
  case (1 acc s)
  show ?case
  proof (cases s)
    case Nil
    then show ?thesis using 1(2) by (simp add: read_tag_attrs.simps [of _ "[]"])
  next
    case (Cons c r0)
    show ?thesis
    proof (cases "c = CHR ''>''")
      case True
      then show ?thesis using 1(2) Cons by (auto simp: read_tag_attrs.simps [of _ "CHR ''>'' # r0"])
    next
      case False
      let ?s = "drop 2 (dropWhile (\<lambda>c. c \<noteq> CHR ''='') r0)"
      obtain v r' where v: "read_value [] ?s = Some (v, r')"
        and rest: "read_tag_attrs (acc @ [(takeWhile (\<lambda>c. c \<noteq> CHR ''='') r0, v)]) r' = Some (as, r)"
        using 1(2) Cons False by (auto simp: read_tag_attrs.simps [of _ "c # r0"] split: option.splits)
      have "length r' < length ?s" using v by (rule read_value_shorter)
      also have "\<dots> \<le> length r0" by simp
      finally show ?thesis using 1(1) [OF Cons False v HOL.refl rest] Cons by simp
    qed
  qed
qed

text \<open>Markup, references and texts, in this order of tests.\<close>

definition tag_end :: "char \<Rightarrow> bool" where
  "tag_end c \<longleftrightarrow> c = CHR '' '' \<or> c = CHR ''>''"

definition markup :: "char \<Rightarrow> bool" where
  "markup c \<longleftrightarrow> c = CHR ''<'' \<or> c = CHR ''&''"

function tree_reader :: "string \<Rightarrow> xml_event list" where
  "tree_reader s =
     (case s of
        [] \<Rightarrow> []
      | c # r \<Rightarrow>
          if c = CHR ''<'' \<and> take 1 r = ''/''
          then EvEnd (takeWhile (\<lambda>c. c \<noteq> CHR ''>'') (tl r)) # tree_reader (drop 1 (dropWhile (\<lambda>c. c \<noteq> CHR ''>'') (tl r)))
          else if c = CHR ''<''
          then (case read_tag_attrs [] (dropWhile (\<lambda>c. \<not> tag_end c) r) of
                  None \<Rightarrow> [EvFailed (InvalidXml ''unclosed tag'')]
                | Some (as, r') \<Rightarrow> EvStart (takeWhile (\<lambda>c. \<not> tag_end c) r) (map Inr as) # tree_reader r')
          else if c = CHR ''&''
          then EvGeneralRef (Inr (takeWhile (\<lambda>c. c \<noteq> CHR '';'') r)) # tree_reader (drop 1 (dropWhile (\<lambda>c. c \<noteq> CHR '';'') r))
          else EvText (Inr (takeWhile (\<lambda>c. \<not> markup c) s)) # tree_reader (dropWhile (\<lambda>c. \<not> markup c) s))"
  by auto
termination
proof (relation "measure length", goal_cases)
  case (2 s c r)
  have "length (drop 1 (dropWhile (\<lambda>c. c \<noteq> CHR ''>'') (tl r))) \<le> length r"
    using drop_while_le [of "\<lambda>c. c \<noteq> CHR ''>''" "tl r"] by simp
  then show ?case using 2(1) by simp
next
  case (3 s c r x as r')
  from 3(4) have "length r' < length (dropWhile (\<lambda>c. \<not> tag_end c) r)"
    using 3(5) by (auto dest: read_tag_attrs_shorter)
  also have "\<dots> \<le> length r" by (rule length_dropWhile_le)
  finally show ?case using 3(1) by simp
next
  case (4 s c r)
  show ?case using 4(1) drop_while_le [of "\<lambda>c. c \<noteq> CHR '';''" r] by simp
next
  case (5 s c r)
  then have "\<not> markup c" by (auto simp: markup_def)
  then show ?case using 5(1) length_dropWhile_le [of "\<lambda>c. \<not> markup c" r] by simp
qed simp

declare tree_reader.simps [simp del]

section \<open>The reader reads trees\<close>

lemma up_to:
  "list_all P n \<Longrightarrow> \<not> P c \<Longrightarrow> takeWhile P (n @ c # r) = n \<and> dropWhile P (n @ c # r) = c # r"
  by (induction n) auto

lemma match_entity_special:
  assumes "c \<in> {CHR ''&'', CHR ''<'', CHR 0x22, CHR 0x09, CHR 0x0A, CHR 0x0D}"
  shows "match_entity attr_entities (attr_char c @ r) = Some (c, r)"
  using assms by (auto simp: attr_entities_def attr_char_def)

lemma match_entity_plain: "c \<noteq> CHR ''&'' \<Longrightarrow> match_entity attr_entities (c # r) = None"
  by (simp add: attr_entities_def)

lemma read_value_text: "read_value acc (concat (map attr_char v) @ CHR 0x22 # r) = Some (acc @ v, r)"
proof (induction v arbitrary: acc)
  case Nil
  then show ?case by (simp add: read_value.simps [of _ "CHR 0x22 # r"])
next
  case (Cons c v)
  let ?r = "concat (map attr_char v) @ CHR 0x22 # r"
  show ?case
  proof (cases "c \<in> {CHR ''&'', CHR ''<'', CHR 0x22, CHR 0x09, CHR 0x0A, CHR 0x0D}")
    case True
    obtain a b where ab: "attr_char c = a # b" "a \<noteq> CHR 0x22" using True by (auto simp: attr_char_def)
    have "read_value acc (a # b @ ?r) = read_value (acc @ [c]) ?r"
      using match_entity_special [OF True, of ?r] ab by (subst read_value.simps) simp
    then show ?thesis using ab Cons by simp
  next
    case False
    then have "attr_char c = [c]" by (auto simp: attr_char_def)
    moreover have "read_value acc (c # ?r) = read_value (acc @ [c]) ?r"
      using False match_entity_plain [of c ?r] by (subst read_value.simps) simp
    ultimately show ?thesis using Cons by simp
  qed
qed

lemma key_up_to_equals:
  assumes "CHR ''='' \<notin> set k"
  shows "takeWhile (\<lambda>c. c \<noteq> CHR ''='') (k @ CHR ''='' # s) = k"
    "dropWhile (\<lambda>c. c \<noteq> CHR ''='') (k @ CHR ''='' # s) = CHR ''='' # s"
  using assms by (induction k) auto

lemma read_tag_attrs_text:
  "list_all (\<lambda>kv. CHR ''='' \<notin> set (fst kv)) as \<Longrightarrow>
   read_tag_attrs acc (concat (map attr_text as) @ CHR ''>'' # r) = Some (acc @ as, r)"
proof (induction as arbitrary: acc)
  case Nil
  then show ?case by (simp add: read_tag_attrs.simps [of _ "CHR ''>'' # r"])
next
  case (Cons kv as)
  obtain k v where kv: "kv = (k, v)" by (cases kv)
  let ?r = "concat (map attr_text as) @ CHR ''>'' # r"
  let ?s = "k @ CHR ''='' # CHR 0x22 # concat (map attr_char v) @ CHR 0x22 # ?r"
  have "read_tag_attrs acc (CHR '' '' # ?s) = read_tag_attrs (acc @ [(k, v)]) ?r"
    using Cons.prems kv by (subst read_tag_attrs.simps) (simp add: key_up_to_equals read_value_text)
  moreover have "concat (map attr_text (kv # as)) @ CHR ''>'' # r = CHR '' '' # ?s"
    using kv by (simp add: attr_text_def [of "(k, v)"])
  ultimately show ?case using Cons kv by simp
qed

text \<open>What may follow a text: nothing, or markup.\<close>

definition opens_markup :: "string \<Rightarrow> bool" where
  "opens_markup r \<longleftrightarrow> (case r of [] \<Rightarrow> True | c # _ \<Rightarrow> markup c)"

lemma read_plain:
  assumes "list_all (\<lambda>c. \<not> markup c) buf" "opens_markup r"
  shows "tree_reader (buf @ r) = flush_text buf @ tree_reader r"
proof (cases buf)
  case (Cons c cs)
  have "takeWhile (\<lambda>c. \<not> markup c) (buf @ r) = buf \<and> dropWhile (\<lambda>c. \<not> markup c) (buf @ r) = r"
    using assms by (induction buf) (auto simp: opens_markup_def split: list.splits)
  moreover have "c \<noteq> CHR ''<''" "c \<noteq> CHR ''&''" using assms Cons by (auto simp: markup_def)
  ultimately show ?thesis using Cons by (subst tree_reader.simps) (simp add: flush_text_def)
qed (simp add: flush_text_def)

lemma text_up_to_semicolon:
  "CHR '';'' \<notin> set n \<Longrightarrow> tree_reader (CHR ''&'' # n @ CHR '';'' # r) = EvGeneralRef (Inr n) # tree_reader r"
proof -
  assume n: "CHR '';'' \<notin> set n"
  then have "takeWhile (\<lambda>c. c \<noteq> CHR '';'') (n @ CHR '';'' # r) = n \<and> dropWhile (\<lambda>c. c \<noteq> CHR '';'') (n @ CHR '';'' # r) = CHR '';'' # r"
    by (induction n) auto
  then show ?thesis by (subst tree_reader.simps) simp
qed

lemma read_text:
  assumes "list_all (\<lambda>c. \<not> markup c) buf" "opens_markup r"
  shows "tree_reader (buf @ concat (map text_char v) @ r) = text_events buf v @ tree_reader r"
  using assms(1)
proof (induction v arbitrary: buf)
  case Nil
  then show ?case using read_plain assms(2) by simp
next
  case (Cons c v)
  let ?r = "concat (map text_char v) @ r"
  show ?case
  proof (cases "char_ref c")
    case None
    then have "text_char c = [c]" "\<not> markup c" by (auto simp: char_ref_def text_char_def markup_def split: if_splits)
    then show ?thesis using Cons.IH [of "buf @ [c]"] Cons.prems None by simp
  next
    case (Some n)
    then have n: "text_char c = CHR ''&'' # n @ [CHR '';'']" "CHR '';'' \<notin> set n"
      by (auto simp: char_ref_def text_char_def split: if_splits)
    have "tree_reader (buf @ CHR ''&'' # n @ CHR '';'' # ?r)
        = flush_text buf @ tree_reader (CHR ''&'' # n @ CHR '';'' # ?r)"
      by (rule read_plain [OF Cons.prems]) (simp add: opens_markup_def markup_def)
    also have "\<dots> = flush_text buf @ EvGeneralRef (Inr n) # text_events [] v @ tree_reader r"
      using text_up_to_semicolon [OF n(2)] Cons.IH [of "[]"] by simp
    finally show ?thesis using n(1) Some by simp
  qed
qed

lemma opens_after_text: "xtrees_ok True ts \<Longrightarrow> opens_markup r \<Longrightarrow> opens_markup (xrenders ts @ r)"
  by (cases ts) (auto simp: opens_markup_def markup_def split: xml_tree.splits)

lemma read_open_tag:
  assumes "xml_name n" "list_all (\<lambda>kv. xml_name (fst kv)) as"
  shows "tree_reader (CHR ''<'' # n @ concat (map attr_text as) @ CHR ''>'' # r) = EvStart n (map Inr as) # tree_reader r"
proof -
  let ?t = "concat (map attr_text as) @ CHR ''>'' # r"
  obtain c t where c: "?t = c # t" "tag_end c" by (cases as) (auto simp: attr_text_def tag_end_def)
  have "list_all (\<lambda>c. \<not> tag_end c) n" using assms(1) by (auto simp: xml_name_def tag_end_def list_all_iff)
  then have "takeWhile (\<lambda>c. \<not> tag_end c) (n @ ?t) = n \<and> dropWhile (\<lambda>c. \<not> tag_end c) (n @ ?t) = ?t"
    unfolding c(1) using c(2) by (intro up_to) simp_all
  moreover have "take 1 (n @ ?t) \<noteq> ''/''" using assms(1) by (cases n) (auto simp: xml_name_def)
  moreover have "read_tag_attrs [] ?t = Some (as, r)"
    using read_tag_attrs_text [of as "[]" r] assms(2) by (force simp: xml_name_def list_all_iff)
  ultimately show ?thesis by (subst tree_reader.simps) simp
qed

lemma read_close_tag:
  assumes "xml_name n"
  shows "tree_reader (CHR ''<'' # CHR ''/'' # n @ CHR ''>'' # r) = EvEnd n # tree_reader r"
proof -
  have "takeWhile (\<lambda>c. c \<noteq> CHR ''>'') (n @ CHR ''>'' # r) = n \<and> dropWhile (\<lambda>c. c \<noteq> CHR ''>'') (n @ CHR ''>'' # r) = CHR ''>'' # r"
    using assms by (intro up_to) (auto simp: xml_name_def list_all_iff)
  then show ?thesis by (subst tree_reader.simps) simp
qed

definition after_ok :: "xml_tree \<Rightarrow> string \<Rightarrow> bool" where
  "after_ok t r \<longleftrightarrow> (case t of XText _ \<Rightarrow> opens_markup r | _ \<Rightarrow> True)"

lemma read_tree:
  "xtree_ok t \<Longrightarrow> after_ok t r \<Longrightarrow> tree_reader (xrender t @ r) = xevents t @ tree_reader r"
  "xtrees_ok b ts \<Longrightarrow> opens_markup r \<Longrightarrow> tree_reader (xrenders ts @ r) = xevents_list ts @ tree_reader r"
proof (induction t and ts arbitrary: r and b r rule: xrender_xrenders.induct)
  case (1 n as ts)
  have "opens_markup (CHR ''<'' # s)" for s by (simp add: opens_markup_def markup_def)
  with 1(1) [of False] 1(2) show ?case by (simp add: read_open_tag read_close_tag)
next
  case (2 v)
  then show ?case using read_text [of "[]" r v] by (simp add: after_ok_def)
next
  case (4 t ts)
  have "after_ok t (xrenders ts @ r)"
    using 4(3,4) by (cases t) (simp_all add: after_ok_def opens_after_text)
  then show ?case using 4(1,3,4) 4(2) [of "case t of XElem _ _ _ \<Rightarrow> False | XText _ \<Rightarrow> True" r] by simp
qed simp

lemma tree_reader_reads: "reads_trees tree_reader"
proof -
  have "tree_reader (xrender (XElem n as ts)) = xevents (XElem n as ts)" if "xtree_ok (XElem n as ts)" for n as ts
    using read_tree(1) [OF that, of "[]"] by (simp add: after_ok_def tree_reader.simps [of "[]"])
  then show ?thesis unfolding reads_trees_def by blast
qed

end
