(* ===== verification/Ubl_Tree.thy ===== *)
theory Ubl_Tree
  imports Ubl_Machine Xml_Tree
begin

text \<open>
  UBL documents as trees of resolved elements: their texts with and without the canonical namespace
  declarations, what \<open>canonicalize_xml\<close> makes of them, and a run of the parser over the tree that
  agrees with its loop over the events.
\<close>

section \<open>Trees of resolved elements\<close>

datatype ubl_tree = UElem parsed_element ubl_attrs "ubl_tree list" | UText string

definition std_prefixes :: "(string \<times> string) list" where
  "std_prefixes = [(''cac'', ns_cac), (''cbc'', ns_cbc), (''ext'', ns_ext), (''ik'', ns_ik)]"

text \<open>The element of a standard prefix.\<close>

definition std_elem :: "string \<Rightarrow> string \<Rightarrow> parsed_element" where
  "std_elem p n = \<lparr>pe_name = n, pe_namespace = map_of std_prefixes p\<rparr>"

definition elem_prefix :: "parsed_element \<Rightarrow> string" where
  "elem_prefix e =
     (case pe_namespace e of
        None \<Rightarrow> []
      | Some ns \<Rightarrow> (case find (\<lambda>q. snd q = ns) std_prefixes of None \<Rightarrow> [] | Some q \<Rightarrow> fst q))"

definition elem_namespace :: "parsed_element \<Rightarrow> string" where
  "elem_namespace e = (case pe_namespace e of None \<Rightarrow> [] | Some ns \<Rightarrow> ns)"

definition elem_qname :: "parsed_element \<Rightarrow> string" where
  "elem_qname e = render_xml_qname (elem_prefix e) (pe_name e)"

definition decl_key :: "string \<Rightarrow> string" where
  "decl_key p = (if p = [] then ''xmlns'' else ''xmlns:'' @ p)"

text \<open>The XML of a tree below elements that declare the prefixes \<open>D\<close>.\<close>

fun tree_of :: "string set \<Rightarrow> ubl_tree \<Rightarrow> xml_tree" and trees_of :: "string set \<Rightarrow> ubl_tree list \<Rightarrow> xml_tree list" where
  "tree_of D (UElem e as ts) =
     XElem (elem_qname e)
       ((if elem_prefix e \<in> D then [] else [(decl_key (elem_prefix e), elem_namespace e)]) @ as)
       (trees_of (insert (elem_prefix e) D) ts)"
| "tree_of D (UText v) = XText v"
| "trees_of D [] = []"
| "trees_of D (t # ts) = tree_of D t # trees_of D ts"

definition all_prefixes :: "string set" where
  "all_prefixes = {''cac'', ''cbc'', ''ext'', ''ik''}"

text \<open>Texts that are one event and that neither trimming nor escaping touches.\<close>

definition bare_text :: "string \<Rightarrow> bool" where
  "bare_text v \<longleftrightarrow> v \<noteq> [] \<and> trim v = v \<and> list_all (\<lambda>c. char_ref c = None) v"

definition ubl_name :: "string \<Rightarrow> bool" where
  "ubl_name n \<longleftrightarrow> xml_name n \<and> CHR '':'' \<notin> set n"

definition ubl_attrs_ok :: "ubl_attrs \<Rightarrow> bool" where
  "ubl_attrs_ok as \<longleftrightarrow> list_all (\<lambda>kv. ubl_name (fst kv) \<and> fst kv \<noteq> ''xmlns'') as \<and> sorted_wrt (<) (map fst as)"

fun utree_ok :: "ubl_tree \<Rightarrow> bool" and utrees_ok :: "bool \<Rightarrow> ubl_tree list \<Rightarrow> bool" where
  "utree_ok (UElem e as ts) \<longleftrightarrow>
     (\<exists>p \<in> all_prefixes. e = std_elem p (pe_name e)) \<and> ubl_name (pe_name e) \<and> ubl_attrs_ok as \<and> utrees_ok False ts"
| "utree_ok (UText v) \<longleftrightarrow> bare_text v"
| "utrees_ok after_text [] \<longleftrightarrow> True"
| "utrees_ok after_text (t # ts) \<longleftrightarrow>
     utree_ok t \<and> (case t of UText _ \<Rightarrow> \<not> after_text | _ \<Rightarrow> True)
     \<and> utrees_ok (case t of UText _ \<Rightarrow> True | _ \<Rightarrow> False) ts"

section \<open>Standard elements\<close>

lemma ns_distinct: "distinct [ns_cac, ns_cbc, ns_ext, ns_ik, ns_invoice, ns_credit_note]"
  by (simp add: ns_cac_def ns_cbc_def ns_ext_def ns_ik_def ns_invoice_def ns_credit_note_def)

lemma ns_neq [simp]:
  "ns_cac \<noteq> ns_cbc" "ns_cac \<noteq> ns_ext" "ns_cac \<noteq> ns_ik" "ns_cac \<noteq> ns_invoice" "ns_cac \<noteq> ns_credit_note"
  "ns_cbc \<noteq> ns_cac" "ns_cbc \<noteq> ns_ext" "ns_cbc \<noteq> ns_ik" "ns_cbc \<noteq> ns_invoice" "ns_cbc \<noteq> ns_credit_note"
  "ns_ext \<noteq> ns_cac" "ns_ext \<noteq> ns_cbc" "ns_ext \<noteq> ns_ik" "ns_ext \<noteq> ns_invoice" "ns_ext \<noteq> ns_credit_note"
  "ns_ik \<noteq> ns_cac" "ns_ik \<noteq> ns_cbc" "ns_ik \<noteq> ns_ext" "ns_ik \<noteq> ns_invoice" "ns_ik \<noteq> ns_credit_note"
  "ns_invoice \<noteq> ns_cac" "ns_invoice \<noteq> ns_cbc" "ns_invoice \<noteq> ns_ext" "ns_invoice \<noteq> ns_ik" "ns_invoice \<noteq> ns_credit_note"
  "ns_credit_note \<noteq> ns_cac" "ns_credit_note \<noteq> ns_cbc" "ns_credit_note \<noteq> ns_ext" "ns_credit_note \<noteq> ns_ik"
  "ns_credit_note \<noteq> ns_invoice"
  using ns_distinct by auto

lemma pe_std_elem [simp]: "pe_name (std_elem p n) = n" "pe_namespace (std_elem p n) = map_of std_prefixes p"
  by (simp_all add: std_elem_def)

lemma std_elem_facts:
  assumes "p \<in> all_prefixes"
  shows "elem_prefix (std_elem p n) = p" "map_of std_prefixes p = Some (elem_namespace (std_elem p n))"
    "ubl_element_qname (std_elem p n) = Inr (p @ '':'' @ n)" "elem_qname (std_elem p n) = p @ '':'' @ n"
    "p \<noteq> []" "p \<noteq> ''xml''" "p \<noteq> ''xmlns''" "CHR '':'' \<notin> set p"
  using assms
  by (auto simp: all_prefixes_def elem_prefix_def elem_namespace_def ubl_element_qname_def elem_qname_def
      render_xml_qname_def std_prefixes_def)

lemma std_namespace_facts:
  assumes "p \<in> all_prefixes"
  shows "elem_namespace (std_elem p n) \<noteq> xmlns_namespace_uri" "elem_namespace (std_elem p n) \<noteq> xml_namespace_uri"
    "preferred_invoice_prefix (elem_namespace (std_elem p n)) p False = p"
  using assms
  by (auto simp: all_prefixes_def elem_namespace_def std_prefixes_def xmlns_namespace_uri_def xml_namespace_uri_def
      preferred_invoice_prefix_def overlay_prefixes_def ns_cac_def ns_cbc_def ns_ext_def ns_ik_def)

lemma split_qname: "CHR '':'' \<notin> set p \<Longrightarrow> split_xml_qname (p @ CHR '':'' # n) = (p, n)"
  using split_once_Some_iff [of "CHR '':''" "p @ CHR '':'' # n" p n] by (simp add: split_xml_qname_def)

lemma split_local: "CHR '':'' \<notin> set n \<Longrightarrow> split_xml_qname n = ([], n)"
  by (simp add: split_xml_qname_def split_once_None_iff [THEN iffD2])

section \<open>The parser over a tree\<close>

lemma rbind_assoc: "rbind (rbind r f) g = rbind r (\<lambda>x. rbind (f x) g)"
  by (cases r) simp_all

text \<open>The handlers in the order the loop calls them.\<close>

fun tree_run :: "(string \<Rightarrow> 'd option) \<Rightarrow> parsed_element list \<Rightarrow> 'd ubl_state \<Rightarrow> ubl_tree \<Rightarrow> ubl_error + 'd ubl_state"
  and trees_run :: "(string \<Rightarrow> 'd option) \<Rightarrow> parsed_element list \<Rightarrow> 'd ubl_state \<Rightarrow> ubl_tree list \<Rightarrow> ubl_error + 'd ubl_state"
where
  "tree_run dec stack s (UElem e as ts) =
     rbind (start_element stack e as s) (\<lambda>s1. rbind (trees_run dec (e # stack) s1 ts) (\<lambda>s2. end_element e s2))"
| "tree_run dec stack s (UText v) = text_event dec stack v s"
| "trees_run dec stack s [] = Inr s"
| "trees_run dec stack s (t # ts) = rbind (tree_run dec stack s t) (\<lambda>s1. trees_run dec stack s1 ts)"

definition frame_has :: "string set \<Rightarrow> ubl_frame \<Rightarrow> bool" where
  "frame_has D f \<longleftrightarrow> distinct (map fst f) \<and> (\<forall>p \<in> D \<inter> all_prefixes. frame_lookup f p = map_of std_prefixes p)"

lemma frame_set_keys: "fst ` set (frame_set f p u) = insert p (fst ` set f)"
  by (induction f p u rule: frame_set.induct) auto

lemma frame_set_distinct: "distinct (map fst f) \<Longrightarrow> distinct (map fst (frame_set f p u))"
  by (induction f p u rule: frame_set.induct) (auto simp: frame_set_keys)

lemma map_of_frame_set: "map_of (frame_set f p u) = (map_of f)(p \<mapsto> u)"
  by (induction f p u rule: frame_set.induct) auto

lemma frame_lookup_map_of: "distinct (map fst f) \<Longrightarrow> frame_lookup f p = map_of f p"
proof -
  assume d: "distinct (map fst f)"
  then have "map_of (rev f) = map_of f" by (intro map_of_eqI) (auto simp: rev_map [symmetric])
  then show ?thesis by (simp add: frame_lookup_def)
qed

lemma frame_lookup_set: "distinct (map fst f) \<Longrightarrow> frame_lookup (frame_set f p u) q = (if q = p then Some u else frame_lookup f q)"
  by (simp add: frame_lookup_map_of frame_set_distinct map_of_frame_set)

lemma no_colon_no_declaration: "CHR '':'' \<notin> set k \<Longrightarrow> strip_prefix ''xmlns:'' k = None"
proof (cases "strip_prefix ''xmlns:'' k")
  case (Some r)
  then have "k = ''xmlns:'' @ r" by (rule strip_prefix_inj)
  then show "CHR '':'' \<notin> set k \<Longrightarrow> ?thesis" by simp
qed simp

lemma rbind_right: "rbind r Inr = r" "rbind r (\<lambda>x. Inr x) = r"
  by (cases r; simp)+

lemma read_plain_attrs:
  "list_all (\<lambda>kv. ubl_name (fst kv) \<and> fst kv \<noteq> ''xmlns'') as \<Longrightarrow> ubl_read_attrs f acc (map Inr as) = Inr (acc @ as, f)"
proof (induction as arbitrary: acc)
  case (Cons kv as)
  obtain k v where kv: "kv = (k, v)" by (cases kv)
  have k: "k \<noteq> ''xmlns''" "CHR '':'' \<notin> set k" using Cons.prems kv by (auto simp: ubl_name_def)
  have "strip_prefix ''xmlns:'' k = None" using k(2) by (rule no_colon_no_declaration)
  with k Cons kv show ?case by (simp add: split_local)
qed simp

lemma declared_namespace:
  assumes "p \<in> all_prefixes" "distinct (map fst f)"
  shows "ubl_read_attrs f [] (Inr (decl_key p, u) # as) = ubl_read_attrs (frame_set f p u) [] as"
  using assms by (auto simp: decl_key_def all_prefixes_def strip_prefix_def)

lemma read_std_name:
  assumes "p \<in> all_prefixes" "frame_lookup f p = map_of std_prefixes p"
  shows "read_element_name (p @ CHR '':'' # n) f = Inr (std_elem p n)"
  using std_elem_facts(2) [OF assms(1), of n] std_elem_facts(5,8) [OF assms(1)] assms(2)
  by (cases "map_of std_prefixes p") (simp_all add: read_element_name_def split_qname std_elem_def)

text \<open>A start tag of the tree, with or without the declaration of its prefix.\<close>

lemma read_start_tag:
  assumes p: "p \<in> all_prefixes" and as: "ubl_attrs_ok as" and f: "frame_has D f" and e: "e = std_elem p n"
  obtains f' where
    "read_element_start f (elem_qname e) (map Inr ((if elem_prefix e \<in> D then [] else [(decl_key (elem_prefix e), elem_namespace e)]) @ as))
       = Inr (e, as, f')" "frame_has (insert p D) f'" "read_element_name (elem_qname e) f' = Inr e"
proof (cases "p \<in> D")
  case True
  with f p have look: "frame_lookup f p = map_of std_prefixes p" by (auto simp: frame_has_def)
  with True as p e have "read_element_start f (elem_qname e)
      (map Inr ((if elem_prefix e \<in> D then [] else [(decl_key (elem_prefix e), elem_namespace e)]) @ as)) = Inr (e, as, f)"
    by (simp add: read_element_start_def std_elem_facts read_std_name read_plain_attrs ubl_attrs_ok_def)
  then show ?thesis
    using that True f read_std_name [OF p look] std_elem_facts [OF p] e by (simp add: insert_absorb)
next
  case False
  let ?f = "frame_set f p (elem_namespace e)"
  have d: "distinct (map fst f)" using f by (simp add: frame_has_def)
  then have look: "frame_lookup ?f p = map_of std_prefixes p"
    using std_elem_facts(2) [OF p, of n] e by (simp add: frame_lookup_set)
  have "frame_has (insert p D) ?f"
    using f look d by (auto simp: frame_has_def frame_set_distinct frame_lookup_set)
  moreover have "read_element_start f (elem_qname e)
      (map Inr ((if elem_prefix e \<in> D then [] else [(decl_key (elem_prefix e), elem_namespace e)]) @ as)) = Inr (e, as, ?f)"
    using False as p e d look
    by (simp add: read_element_start_def std_elem_facts declared_namespace read_std_name read_plain_attrs ubl_attrs_ok_def
        del: ubl_read_attrs.simps)
  ultimately show ?thesis using that read_std_name [OF p look] std_elem_facts [OF p] e by simp
qed

lemma plain_events: "bare_text v \<Longrightarrow> text_events [] v = [EvText (Inr v)]"
proof -
  have "list_all (\<lambda>c. char_ref c = None) v \<Longrightarrow> text_events buf v = flush_text (buf @ v)" for buf
    by (induction v arbitrary: buf) auto
  then show "bare_text v \<Longrightarrow> ?thesis" by (simp add: bare_text_def flush_text_def)
qed

lemma loop_tree:
  "utree_ok t \<Longrightarrow> frame_has D f \<Longrightarrow>
     ubl_loop dec (f # fs) stack s (xevents (tree_of D t) @ es)
       = rbind (tree_run dec stack s t) (\<lambda>s'. ubl_loop dec (f # fs) stack s' es)"
  "utrees_ok b ts \<Longrightarrow> frame_has D f \<Longrightarrow>
     ubl_loop dec (f # fs) stack s (xevents_list (trees_of D ts) @ es)
       = rbind (trees_run dec stack s ts) (\<lambda>s'. ubl_loop dec (f # fs) stack s' es)"
proof (induction t and b ts arbitrary: D f fs stack s es and D f fs stack s es rule: utree_ok_utrees_ok.induct)
  case (1 e as ts)
  then obtain p where p: "p \<in> all_prefixes" "e = std_elem p (pe_name e)" by auto
  from 1 have as: "ubl_attrs_ok as" by simp
  obtain f' where f': "read_element_start f (elem_qname e)
      (map Inr ((if elem_prefix e \<in> D then [] else [(decl_key (elem_prefix e), elem_namespace e)]) @ as)) = Inr (e, as, f')"
    "frame_has (insert p D) f'" "read_element_name (elem_qname e) f' = Inr e"
    by (rule read_start_tag [OF p(1) as 1(3) p(2)])
  have pre: "elem_prefix e = p" using std_elem_facts(1) [OF p(1)] p(2) by metis
  have IH: "ubl_loop dec (f' # f # fs) (e # stack) s1 (xevents_list (trees_of (insert p D) ts) @ EvEnd (elem_qname e) # es)
      = rbind (trees_run dec (e # stack) s1 ts) (\<lambda>s2. ubl_loop dec (f' # f # fs) (e # stack) s2 (EvEnd (elem_qname e) # es))" for s1
    using 1(1) 1(2) f'(2) by simp
  show ?case
    using f'(1,3) by (cases "start_element stack e as s") (simp_all add: pre IH rbind_assoc)
next
  case (2 v)
  then show ?case by (simp add: plain_events)
next
  case (4 b t ts)
  show ?case using 4(3) by (simp add: 4(1,2) [OF _ 4(4)] rbind_assoc)
qed simp

end
