(* ===== verification/Ubl_Canonical.thy ===== *)
theory Ubl_Canonical
  imports Ubl_Tree
begin

text \<open>
  \<open>canonicalize_xml\<close> on the events of a UBL tree: each element declares its prefix where no element
  around it does, and nothing else changes.
\<close>

definition raw_attr :: "string \<times> string \<Rightarrow> raw_xml_attribute" where
  "raw_attr kv = \<lparr>ra_prefix = [], ra_local_name = fst kv, ra_value = snd kv\<rparr>"

definition canonical_attr :: "string \<times> string \<Rightarrow> canonical_xml_attribute" where
  "canonical_attr kv = \<lparr>ca_rendered_name = fst kv, ca_namespace_uri = [], ca_local_name = fst kv, ca_value = snd kv\<rparr>"

lemma read_local_attributes:
  "list_all (\<lambda>kv. ubl_name (fst kv) \<and> fst kv \<noteq> ''xmlns'') as \<Longrightarrow>
     read_attributes input acc (map Inr as) = Inr (input, acc @ map raw_attr as)"
proof (induction as arbitrary: acc)
  case (Cons kv as)
  obtain k v where kv: "kv = (k, v)" by (cases kv)
  have k: "k \<noteq> ''xmlns''" "CHR '':'' \<notin> set k" using Cons.prems kv by (auto simp: ubl_name_def)
  have "strip_prefix ''xmlns:'' k = None" using k(2) by (rule no_colon_no_declaration)
  with k Cons kv show ?case by (simp add: split_local raw_attr_def)
qed simp

lemma local_namespaces: "resolve_attribute_namespaces f (map raw_attr as) = Inr (replicate (length as) None)"
  by (induction as) (simp_all add: resolve_attribute_namespaces_def lookup_attribute_namespace_def raw_attr_def)

lemma zip_local: "zip (map raw_attr as) (replicate (length as) None) = map (\<lambda>kv. (raw_attr kv, None)) as"
  by (induction as) simp_all

lemma render_local:
  "distinct (map fst as) \<Longrightarrow> fst ` set as \<inter> names = {} \<Longrightarrow>
     render_attributes A f d names acc (map (\<lambda>kv. (raw_attr kv, None)) as) = Inr (f, d, acc @ map canonical_attr as)"
  by (induction as arbitrary: names acc)
    (auto simp: raw_attr_def canonical_attr_def render_xml_qname_def)

lemma sort_local: "sorted_wrt (<) (map fst as) \<Longrightarrow> sort_by compare_attributes (map canonical_attr as) = map canonical_attr as"
proof -
  assume s: "sorted_wrt (<) (map fst as)"
  let ?k = "\<lambda>a. (ca_namespace_uri a, ca_local_name a, ca_rendered_name a)"
  have "sort_by compare_attributes zs = sort_key ?k zs" for zs
    by (rule sort_by_key) (auto simp: compare_attributes_def then_with_def cmp_of_def)
  moreover have "sorted (map fst as)" using s by (rule strict_sorted_imp_sorted)
  then have "sorted (map ?k (map canonical_attr as))"
    by (auto simp: canonical_attr_def sorted_iff_nth_mono)
  ultimately show ?thesis by (simp only: sort_key_id_if_sorted)
qed

text \<open>The frames met inside a document: the input binds every standard prefix, the output those declared.\<close>

definition canonical_frame :: "string set \<Rightarrow> namespace_frame \<Rightarrow> bool" where
  "canonical_frame D f \<longleftrightarrow> btree_ok (nf_input f) \<and> btree_ok (nf_output f)
     \<and> (\<forall>p \<in> all_prefixes. map_of (nf_input f) p = map_of std_prefixes p
          \<and> map_of (nf_output f) p = (if p \<in> D then map_of std_prefixes p else None))"

lemma start_of_element:
  assumes f: "canonical_frame D f" and p: "p \<in> all_prefixes" and e: "e = std_elem p n" and as: "ubl_attrs_ok as"
  obtains f' where "canonical_frame (insert p D) f'"
    "write_xml_start f (elem_qname e) (map Inr as) = Inr (elem_qname e, f',
       ''<'' @ elem_qname e @ concat (map attr_text
         ((if p \<in> D then [] else [(decl_key p, elem_namespace e)]) @ as)) @ ''>'')"
proof -
  let ?u = "elem_namespace e"
  let ?d = "if p \<in> D then [] else [(p, ?u)]"
  let ?f = "if p \<in> D then f else f\<lparr>nf_output := btree_insert p ?u (nf_output f)\<rparr>"
  have u: "map_of std_prefixes p = Some ?u" using std_elem_facts(2) [OF p] e by simp
  have inp: "map_of (nf_input f) p = Some ?u" and out: "map_of (nf_output f) p = (if p \<in> D then Some ?u else None)"
    using f p u by (auto simp: canonical_frame_def)
  have same: "f\<lparr>nf_input := nf_input f\<rparr> = f" by simp
  have rd: "read_attributes (nf_input f) [] (map Inr as) = Inr (nf_input f, map raw_attr as)"
    using as read_local_attributes [of as "nf_input f" "[]"] by (simp add: ubl_attrs_ok_def)
  have sp: "split_xml_qname (elem_qname e) = (p, n)"
    using std_elem_facts(4,8) [OF p] e by (simp add: split_qname)
  have q: "render_xml_qname p n = elem_qname e"
    using std_elem_facts(4) [OF p, of n] std_elem_facts(5) [OF p] e by (simp add: render_xml_qname_def)
  have look: "lookup_element_namespace f p = Inr (Some ?u)"
    using inp std_elem_facts(5) [OF p] by (simp add: lookup_element_namespace_def)
  have pre: "preferred_invoice_prefix ?u p False = p" using std_namespace_facts(3) [OF p] e by simp
  have decl: "declare_element f (Some ?u) p = Inr (?f, ?d)"
    using std_namespace_facts(1,2) [OF p] std_elem_facts(6,7) [OF p] e out
    by (simp add: declare_element_def ensure_output_namespace_def)
  have ren: "render_attributes A g d {} [] (map (\<lambda>kv. (raw_attr kv, None)) as) = Inr (g, d, map canonical_attr as)" for A g d
    using as render_local [of as "{}" A g d "[]"] by (simp add: ubl_attrs_ok_def strict_sorted_iff)
  have "resolve_start f (elem_qname e) (map Inr as)
      = Inr (\<lparr>tag_name = elem_qname e, tag_declarations = ?d, tag_attributes = map canonical_attr as\<rparr>, ?f)"
    using as
    by (simp add: resolve_start_def rd sp look pre decl local_namespaces zip_local ren sort_local ubl_attrs_ok_def q
        del: if_split)
  moreover have "start_text \<lparr>tag_name = elem_qname e, tag_declarations = ?d, tag_attributes = map canonical_attr as\<rparr>
      = ''<'' @ elem_qname e @ concat (map attr_text ((if p \<in> D then [] else [(decl_key p, ?u)]) @ as)) @ ''>''"
    using std_elem_facts(5) [OF p]
    by (simp add: start_text_def attr_text_def [abs_def] write_xml_attr_value_def decl_key_def canonical_attr_def comp_def)
  moreover have "canonical_frame (insert p D) ?f"
    using f u p by (auto simp: canonical_frame_def)
  ultimately show ?thesis using that by (simp add: write_xml_start_def)
qed

lemma plain_text_node: "bare_text v \<Longrightarrow> write_xml_text_node v = concat (map text_char v)"
proof -
  assume v: "bare_text v"
  then obtain c cs where c: "v = c # cs" by (cases v) (auto simp: bare_text_def)
  have "\<not> ws1 c"
    using v c trim_fixed_iff [of v]
    by (cases "(ws1, ws2, ws3, v)" rule: lead_ws.cases) (auto simp: bare_text_def lead_start_def split: if_splits)
  then have "\<not> is_xml_whitespace c" by (auto simp: ws1_def is_xml_whitespace_def byte_def)
  then show ?thesis using c by (simp add: write_xml_text_node_def)
qed

lemma loop_canonical:
  "utree_ok t \<Longrightarrow> canonical_frame D f \<Longrightarrow>
     xml_loop (f # fs) opened out (xevents (tree_of all_prefixes t) @ es)
       = xml_loop (f # fs) opened (out @ xrender (tree_of D t)) es"
  "utrees_ok b ts \<Longrightarrow> canonical_frame D f \<Longrightarrow>
     xml_loop (f # fs) opened out (xevents_list (trees_of all_prefixes ts) @ es)
       = xml_loop (f # fs) opened (out @ xrenders (trees_of D ts)) es"
proof (induction t and b ts arbitrary: D f fs opened out es and D f fs opened out es rule: utree_ok_utrees_ok.induct)
  case (1 e as ts)
  then obtain p where p: "p \<in> all_prefixes" "e = std_elem p (pe_name e)" by auto
  from 1 have as: "ubl_attrs_ok as" by simp
  obtain f' where f': "canonical_frame (insert p D) f'"
    "write_xml_start f (elem_qname e) (map Inr as) = Inr (elem_qname e, f',
       ''<'' @ elem_qname e @ concat (map attr_text
         ((if p \<in> D then [] else [(decl_key p, elem_namespace e)]) @ as)) @ ''>'')"
    by (rule start_of_element [OF 1(3) p as])
  have pre: "elem_prefix e = p" using std_elem_facts(1) [OF p(1)] p(2) by metis
  have ins: "insert p all_prefixes = all_prefixes" using p(1) by auto
  show ?case
    using 1(1) [OF _ f'(1)] 1(2) p(1) by (simp add: pre ins f'(2) write_xml_end_def)
next
  case (2 v)
  then show ?case by (simp add: plain_events plain_text_node)
next
  case (4 b t ts)
  show ?case using 4(3) by (simp add: 4(1,2) [OF _ 4(4)])
qed simp

section \<open>Documents\<close>

text \<open>The namespaces the serializer declares on the root element, and those of the canonical form.\<close>

definition root_declarations :: "string \<Rightarrow> (string \<times> string) list" where
  "root_declarations ns =
     (''xmlns'', ns) # map (\<lambda>(p, u). (''xmlns:'' @ p, u)) std_prefixes"

definition raw_document :: "string \<Rightarrow> string \<Rightarrow> ubl_tree list \<Rightarrow> xml_tree" where
  "raw_document name ns ts = XElem name (root_declarations ns) (trees_of all_prefixes ts)"

definition canonical_document :: "string \<Rightarrow> string \<Rightarrow> ubl_tree list \<Rightarrow> xml_tree" where
  "canonical_document name ns ts = XElem name [(''xmlns'', ns)] (trees_of {[]} ts)"

definition ubl_roots :: "(string \<times> string) list" where
  "ubl_roots = [(''Invoice'', ns_invoice), (''CreditNote'', ns_credit_note)]"

lemma root_namespaces:
  "ns_invoice \<noteq> xmlns_namespace_uri" "ns_invoice \<noteq> xml_namespace_uri" "ns_invoice \<noteq> []"
  "preferred_invoice_prefix ns_invoice [] False = []"
  "ns_credit_note \<noteq> xmlns_namespace_uri" "ns_credit_note \<noteq> xml_namespace_uri" "ns_credit_note \<noteq> []"
  "preferred_invoice_prefix ns_credit_note [] False = []"
  by (simp_all add: ns_invoice_def ns_credit_note_def xmlns_namespace_uri_def xml_namespace_uri_def
      preferred_invoice_prefix_def overlay_prefixes_def Let_def)

lemma root_start:
  assumes "(name, ns) \<in> set ubl_roots"
  obtains f' where "canonical_frame {[]} f'"
    "write_xml_start frame_root name (map Inr (root_declarations ns)) = Inr (name, f',
       ''<'' @ name @ concat (map attr_text [(''xmlns'', ns)]) @ ''>'')"
proof -
  have names: "strip_prefix ''xmlns:'' name = None" "split_xml_qname name = ([], name)" "name \<noteq> []"
    using assms by (auto simp: ubl_roots_def strip_prefix_def split_xml_qname_def split_once_def)
  have ns: "ns \<noteq> xmlns_namespace_uri" "ns \<noteq> xml_namespace_uri" "ns \<noteq> []" "preferred_invoice_prefix ns [] False = []"
    using assms root_namespaces by (auto simp: ubl_roots_def)
  obtain inp where rd: "read_attributes (nf_input frame_root) [] (map Inr (root_declarations ns)) = Inr (inp, [])"
    and inp: "btree_ok inp" "map_of inp = (map_of (nf_input frame_root))([] \<mapsto> ns, ''cac'' \<mapsto> ns_cac, ''cbc'' \<mapsto> ns_cbc,
      ''ext'' \<mapsto> ns_ext, ''ik'' \<mapsto> ns_ik)"
  proof
    let ?inp = "btree_insert ''ik'' ns_ik (btree_insert ''ext'' ns_ext (btree_insert ''cbc'' ns_cbc
        (btree_insert ''cac'' ns_cac (btree_insert [] ns (nf_input frame_root)))))"
    show "read_attributes (nf_input frame_root) [] (map Inr (root_declarations ns)) = Inr (?inp, [])"
      by (simp add: root_declarations_def std_prefixes_def strip_prefix_def)
    show "btree_ok ?inp" using frame_ok_root by (simp add: frame_ok_def)
    show "map_of ?inp = (map_of (nf_input frame_root))([] \<mapsto> ns, ''cac'' \<mapsto> ns_cac, ''cbc'' \<mapsto> ns_cbc,
        ''ext'' \<mapsto> ns_ext, ''ik'' \<mapsto> ns_ik)"
      using frame_ok_root by (simp add: frame_ok_def)
  qed
  let ?f = "\<lparr>nf_input = inp, nf_output = btree_insert [] ns (nf_output frame_root)\<rparr>"
  have out: "map_of (nf_output frame_root) [] = None" by (simp add: frame_root_def)
  have "lookup_element_namespace (frame_root\<lparr>nf_input := inp\<rparr>) [] = Inr (Some ns)"
    using ns(3) by (simp add: lookup_element_namespace_def inp(2))
  moreover have "declare_element (frame_root\<lparr>nf_input := inp\<rparr>) (Some ns) [] = Inr (?f, [([], ns)])"
    using ns(1,2) out by (simp add: declare_element_def ensure_output_namespace_def)
  ultimately have "resolve_start frame_root name (map Inr (root_declarations ns))
      = Inr (\<lparr>tag_name = name, tag_declarations = [([], ns)], tag_attributes = []\<rparr>, ?f)"
    using names(2) ns(4)
    by (simp add: resolve_start_def rd resolve_attribute_namespaces_def render_xml_qname_def sort_by_def)
  then have "write_xml_start frame_root name (map Inr (root_declarations ns)) = Inr (name, ?f,
       ''<'' @ name @ concat (map attr_text [(''xmlns'', ns)]) @ ''>'')"
    by (simp add: write_xml_start_def start_text_def attr_text_def write_xml_attr_value_def)
  moreover have "canonical_frame {[]} ?f"
    using frame_ok_root inp
    by (simp add: canonical_frame_def all_prefixes_def std_prefixes_def frame_ok_def) (simp add: frame_root_def)
  ultimately show ?thesis using that by blast
qed

lemma canonical_of_raw:
  assumes "(name, ns) \<in> set ubl_roots" "utrees_ok False ts"
  shows "canonicalize_xml (xevents (raw_document name ns ts)) = Inr (xrender (canonical_document name ns ts))"
proof -
  obtain f where f: "canonical_frame {[]} f"
    "write_xml_start frame_root name (map Inr (root_declarations ns)) = Inr (name, f,
       ''<'' @ name @ concat (map attr_text [(''xmlns'', ns)]) @ ''>'')"
    by (rule root_start [OF assms(1)])
  show ?thesis
    using f(2) loop_canonical(2) [OF assms(2) f(1), of "[frame_root]" "[name]" _ "[EvEnd name]"]
    by (simp add: canonicalize_xml_def raw_document_def canonical_document_def write_xml_end_def)
qed

text \<open>The parser sees the same tree in both forms.\<close>

definition root_elem :: "string \<Rightarrow> string \<Rightarrow> parsed_element" where
  "root_elem name ns = \<lparr>pe_name = name, pe_namespace = Some ns\<rparr>"

lemma root_name:
  assumes "(name, ns) \<in> set ubl_roots" "frame_lookup f [] = Some ns"
  shows "read_element_name name f = Inr (root_elem name ns)"
  using assms by (auto simp: ubl_roots_def read_element_name_def root_elem_def split_xml_qname_def split_once_def)

lemma loop_document:
  assumes r: "(name, ns) \<in> set ubl_roots" and ok: "utrees_ok False ts"
    and start: "read_element_start [] name attrs = Inr (root_elem name ns, [], f)"
    and f: "frame_has D f" "frame_lookup f [] = Some ns"
  shows "ubl_loop dec [ []] [] ubl_state_new (EvStart name attrs # xevents_list (trees_of D ts) @ [EvEnd name])
    = tree_run dec [] ubl_state_new (UElem (root_elem name ns) [] ts)"
  using loop_tree(2) [OF ok f(1), of dec "[ []]" "[root_elem name ns]" _ "[EvEnd name]"] start root_name [OF r f(2)]
  by (cases "start_element [] (root_elem name ns) [] (ubl_state_new :: 'a ubl_state)") (simp_all add: rbind_right)

lemma loop_canonical_document:
  assumes r: "(name, ns) \<in> set ubl_roots" and ok: "utrees_ok False ts"
  shows "ubl_loop dec [ []] [] ubl_state_new (xevents (canonical_document name ns ts))
    = tree_run dec [] ubl_state_new (UElem (root_elem name ns) [] ts)"
proof -
  let ?f = "[([], ns)]"
  have f: "frame_has {[]} ?f" "frame_lookup ?f [] = Some ns"
    by (auto simp: frame_has_def all_prefixes_def frame_lookup_def)
  have "read_element_start [] name [Inr (''xmlns'', ns)] = Inr (root_elem name ns, [], ?f)"
    using root_name [OF r f(2)] by (simp add: read_element_start_def)
  from loop_document [OF r ok this f] show ?thesis by (simp add: canonical_document_def)
qed

end
