(* ===== verification/Ubl_Write.thy ===== *)
theory Ubl_Write
  imports Ubl_Machine Ir_Ledger Money
begin

text \<open>
  The serializer of \<open>crates/format-ubl/src/lib.rs\<close>, with the replay of preserved fragments and their check,
  and the two entry points.  \<open>read\<close> is the XML reader, \<open>ops\<close> the decimal arithmetic, \<open>dec\<close> its parser.
\<close>

section \<open>Elements\<close>

definition open_tag :: "string \<Rightarrow> string" where
  "open_tag name = ''<'' @ name @ ''>''"

definition close_tag :: "string \<Rightarrow> string" where
  "close_tag name = ''</'' @ name @ ''>''"

definition write_text_element :: "string \<Rightarrow> string \<Rightarrow> string" where
  "write_text_element name v = open_tag name @ ubl_xml_text v @ close_tag name"

definition write_attr :: "string \<Rightarrow> string \<Rightarrow> string" where
  "write_attr name v = '' '' @ name @ [CHR ''='', CHR 0x22] @ ubl_xml_attr v @ [CHR 0x22]"

definition write_opt :: "('a \<Rightarrow> string) \<Rightarrow> 'a option \<Rightarrow> string" where
  "write_opt f x = (case x of None \<Rightarrow> [] | Some v \<Rightarrow> f v)"

definition write_amount_element :: "'d decimal_ops \<Rightarrow> string \<Rightarrow> string \<Rightarrow> 'd \<Rightarrow> string" where
  "write_amount_element ops currency name amount =
     ''<'' @ name @ write_attr ''currencyID'' currency @ ''>'' @ ubl_xml_text (dop_to_string ops amount)
     @ close_tag name"

definition write_note :: "localized_string \<Rightarrow> string" where
  "write_note n = ''<cbc:Note'' @ write_attr ''languageID'' (ls_language n) @ ''>'' @ ubl_xml_text (ls_text n) @ ''</cbc:Note>''"

definition write_tax_scheme :: string where
  "write_tax_scheme = open_tag ''cac:TaxScheme'' @ write_text_element ''cbc:ID'' ''VAT'' @ close_tag ''cac:TaxScheme''"

section \<open>Parties\<close>

definition write_address_as :: "string \<Rightarrow> postal_address \<Rightarrow> string" where
  "write_address_as wrapper a =
     open_tag wrapper
     @ (case addr_lines a of
          [] \<Rightarrow> []
        | first # rest \<Rightarrow> write_text_element ''cbc:StreetName'' first
            @ concat (map (write_text_element ''cbc:AdditionalStreetName'') rest))
     @ write_text_element ''cbc:CityName'' (addr_city a)
     @ write_text_element ''cbc:PostalZone'' (addr_postal_code a)
     @ write_opt (write_text_element ''cbc:CountrySubentity'') (addr_subdivision a)
     @ open_tag ''cac:Country'' @ write_text_element ''cbc:IdentificationCode'' (country_str (addr_country a))
     @ close_tag ''cac:Country'' @ close_tag wrapper"

definition write_address :: "postal_address \<Rightarrow> string" where
  "write_address a = write_address_as ''cac:PostalAddress'' a"

definition write_contact :: "contact \<Rightarrow> string" where
  "write_contact c =
     (if contact_name c \<noteq> None \<or> contact_email c \<noteq> None \<or> contact_phone c \<noteq> None
      then open_tag ''cac:Contact''
        @ write_opt (write_text_element ''cbc:Name'') (contact_name c)
        @ write_opt (write_text_element ''cbc:Telephone'') (contact_phone c)
        @ write_opt (write_text_element ''cbc:ElectronicMail'') (contact_email c)
        @ close_tag ''cac:Contact''
      else [])"

definition write_party_id :: "string \<Rightarrow> string" where
  "write_party_id v = write_text_element ''cbc:EndpointID'' v
     @ open_tag ''cac:PartyIdentification'' @ write_text_element ''cbc:ID'' v @ close_tag ''cac:PartyIdentification''"

definition write_tax_id :: "party_tax_id \<Rightarrow> string" where
  "write_tax_id t = open_tag ''cac:PartyTaxScheme'' @ write_text_element ''cbc:CompanyID'' (tax_value t)
     @ open_tag ''cac:TaxScheme'' @ write_text_element ''cbc:ID'' (tax_scheme t) @ close_tag ''cac:TaxScheme''
     @ close_tag ''cac:PartyTaxScheme''"

definition write_party :: "string \<Rightarrow> string option \<Rightarrow> party \<Rightarrow> string" where
  "write_party container nested_party p =
     open_tag container @ write_opt open_tag nested_party
     @ write_opt write_party_id (party_id p)
     @ open_tag ''cac:PartyName'' @ write_text_element ''cbc:Name'' (party_name p) @ close_tag ''cac:PartyName''
     @ write_address (party_address p)
     @ concat (map write_tax_id (party_tax_ids p))
     @ open_tag ''cac:PartyLegalEntity'' @ write_text_element ''cbc:RegistrationName'' (party_name p)
     @ close_tag ''cac:PartyLegalEntity''
     @ write_opt write_contact (party_contact p)
     @ write_opt close_tag nested_party @ close_tag container"

section \<open>Preserved fragments\<close>

definition extension_field :: "('d, serde_value) commercial_document \<Rightarrow> string \<Rightarrow> serde_value option" where
  "extension_field d key =
     Option.bind (find (\<lambda>e. ext_urn e = ubl_fields_urn) (doc_extensions d))
       (\<lambda>e. case ext_payload e of JNull \<Rightarrow> None | JNonNull v \<Rightarrow> json_get v key)"

definition ubl_document_field :: "('d, serde_value) commercial_document \<Rightarrow> string \<Rightarrow> string option" where
  "ubl_document_field d key = Option.bind (extension_field d key) json_as_str"

definition write_ubl_document_field :: "('d, serde_value) commercial_document \<Rightarrow> string \<Rightarrow> string \<Rightarrow> string" where
  "write_ubl_document_field d key element = write_opt (write_text_element element) (ubl_document_field d key)"

record fragment_state =
  fs_namespaces :: "ubl_frame list"
  fs_elements :: "parsed_element list"
  fs_depth :: nat
  fs_saw_wrapper :: bool
  fs_saw_child :: bool

definition fragment_state_new :: fragment_state where
  "fragment_state_new =
     \<lparr>fs_namespaces = [ []], fs_elements = [], fs_depth = 0, fs_saw_wrapper = False, fs_saw_child = False\<rparr>"

definition validate_preserved_child :: "string \<Rightarrow> parsed_element \<Rightarrow> bool \<Rightarrow> ubl_error + unit" where
  "validate_preserved_child expected e already =
     (if already then Inl (UblInvalidPreserved expected ''fragment has multiple root elements'')
      else rbind (ubl_element_qname e) (\<lambda>actual.
        if actual \<noteq> expected
        then Inl (UblInvalidPreserved expected
          (''fragment root `'' @ actual @ ''` does not match expected slot''))
        else Inr ()))"

definition fragment_frame :: "fragment_state \<Rightarrow> ubl_frame" where
  "fragment_frame s = (case fs_namespaces s of [] \<Rightarrow> [] | f # _ \<Rightarrow> f)"

definition fragment_start :: "string \<Rightarrow> string \<Rightarrow> xml_attributes \<Rightarrow> fragment_state \<Rightarrow> ubl_error + fragment_state" where
  "fragment_start expected name attrs s =
     rbind (read_element_start (fragment_frame s) name attrs) (\<lambda>(e, _, f).
       rbind (if fs_depth s = 0
              then if pe_name e \<noteq> ''Wrapper''
                   then Inl (UblInvalidPreserved expected ''validation wrapper did not parse'')
                   else Inr (s\<lparr>fs_saw_wrapper := True\<rparr>)
              else if fs_depth s = 1
              then rbind (validate_preserved_child expected e (fs_saw_child s)) (\<lambda>_. Inr (s\<lparr>fs_saw_child := True\<rparr>))
              else Inr s) (\<lambda>s1.
         Inr (s1\<lparr>fs_elements := e # fs_elements s1, fs_namespaces := f # fs_namespaces s1,
                 fs_depth := fs_depth s1 + 1\<rparr>)))"

definition fragment_empty :: "string \<Rightarrow> string \<Rightarrow> xml_attributes \<Rightarrow> fragment_state \<Rightarrow> ubl_error + fragment_state" where
  "fragment_empty expected name attrs s =
     rbind (read_element_start (fragment_frame s) name attrs) (\<lambda>(e, _, _).
       if fs_depth s = 1
       then rbind (validate_preserved_child expected e (fs_saw_child s)) (\<lambda>_. Inr (s\<lparr>fs_saw_child := True\<rparr>))
       else if fs_depth s = 0 then Inl (UblInvalidPreserved expected ''fragment wrapper cannot be empty'')
       else Inr s)"

definition fragment_end :: "string \<Rightarrow> string \<Rightarrow> fragment_state \<Rightarrow> ubl_error + fragment_state" where
  "fragment_end expected name s =
     (if fs_depth s = 0
      then Inl (UblInvalidPreserved expected ''fragment has more closing tags than opening tags'')
      else rbind (case fs_namespaces s of [] \<Rightarrow> Inl (UblUnsupportedRoot ''missing namespace'')
                  | f # _ \<Rightarrow> read_element_name name f) (\<lambda>e.
        case fs_elements s of
          [] \<Rightarrow> Inl (UblInvalidPreserved expected ''fragment has more closing tags than opening tags'')
        | opened # rest \<Rightarrow>
            if e \<noteq> opened
            then Inl (UblInvalidPreserved expected
              (''closing tag `'' @ pe_name e @ ''` does not match opening tag `'' @ pe_name opened @ ''`''))
            else Inr (s\<lparr>fs_elements := rest, fs_depth := fs_depth s - 1, fs_namespaces := tl (fs_namespaces s)\<rparr>)))"

definition fragment_text :: "string \<Rightarrow> string \<Rightarrow> string \<Rightarrow> fragment_state \<Rightarrow> ubl_error + unit" where
  "fragment_text expected kind t s =
     (if fs_depth s \<le> 1 \<and> trim t \<noteq> []
      then Inl (UblInvalidPreserved expected (''fragment has '' @ kind @ '' outside its root element''))
      else Inr ())"

fun reader_message :: "xml_error \<Rightarrow> string" where
  "reader_message (InvalidXml m) = m"
| "reader_message (InvalidAttribute m) = m"
| "reader_message (InvalidEncoding m) = m"
| "reader_message _ = []"

fun fragment_loop :: "string \<Rightarrow> fragment_state \<Rightarrow> xml_event list \<Rightarrow> ubl_error + fragment_state" where
  "fragment_loop expected s [] = Inr s"
| "fragment_loop expected s (EvStart name attrs # es) =
     rbind (fragment_start expected name attrs s) (\<lambda>s1. fragment_loop expected s1 es)"
| "fragment_loop expected s (EvEmpty name attrs # es) =
     rbind (fragment_empty expected name attrs s) (\<lambda>s1. fragment_loop expected s1 es)"
| "fragment_loop expected s (EvEnd name # es) =
     rbind (fragment_end expected name s) (\<lambda>s1. fragment_loop expected s1 es)"
| "fragment_loop expected s (EvText t # es) =
     rbind (ubl_read t) (\<lambda>v. rbind (fragment_text expected ''text'' v s) (\<lambda>_. fragment_loop expected s es))"
| "fragment_loop expected s (EvCData t # es) =
     rbind (ubl_read t) (\<lambda>v. rbind (fragment_text expected ''CDATA'' v s) (\<lambda>_. fragment_loop expected s es))"
| "fragment_loop expected s (EvGeneralRef r # es) =
     rbind (ubl_read r) (\<lambda>v. rbind (fragment_text expected ''entity text'' v s) (\<lambda>_. fragment_loop expected s es))"
| "fragment_loop expected s (EvDecl d # es) = rbind (ubl_read d) (\<lambda>_. fragment_loop expected s es)"
| "fragment_loop expected s (EvDocType # es) = Inl (UblInvalidPreserved expected ''DOCTYPE is not allowed'')"
| "fragment_loop expected s (EvPI content # es) = fragment_loop expected s es"
| "fragment_loop expected s (EvComment # es) = fragment_loop expected s es"
| "fragment_loop expected s (EvFailed e # es) =
     Inl (UblInvalidPreserved expected (''fragment XML is not well formed: '' @ reader_message e))"

definition fragment_finish :: "string \<Rightarrow> fragment_state \<Rightarrow> ubl_error + unit" where
  "fragment_finish expected s =
     (if \<not> fs_saw_wrapper s then Inl (UblInvalidPreserved expected ''fragment did not parse'')
      else if \<not> fs_saw_child s then Inl (UblInvalidPreserved expected ''fragment is empty'')
      else if fs_depth s \<noteq> 0 then Inl (UblInvalidPreserved expected ''fragment is not balanced'')
      else if fs_elements s \<noteq> [] then Inl (UblInvalidPreserved expected ''fragment is not balanced'')
      else Inr ())"

definition namespace_attr :: "string \<Rightarrow> string \<Rightarrow> string" where
  "namespace_attr prefix uri = '' xmlns:'' @ prefix @ [CHR ''='', CHR 0x22] @ uri @ [CHR 0x22]"

definition standard_namespaces :: string where
  "standard_namespaces =
     namespace_attr ''cac'' ns_cac @ namespace_attr ''cbc'' ns_cbc @ namespace_attr ''ext'' ns_ext @ namespace_attr ''ik'' ns_ik"

definition validate_preserved_fragment_xml :: "(string \<Rightarrow> xml_event list) \<Rightarrow> string \<Rightarrow> string \<Rightarrow> ubl_error + unit" where
  "validate_preserved_fragment_xml read expected fragment =
     rbind (fragment_loop expected fragment_state_new
         (read (''<Wrapper'' @ standard_namespaces @ ''>'' @ fragment @ ''</Wrapper>'')))
       (fragment_finish expected)"

definition validate_preserved_top_level_slot :: "document_type \<Rightarrow> string \<Rightarrow> ubl_error + unit" where
  "validate_preserved_top_level_slot t expected =
     (case document_kind_from_type t of
        None \<Rightarrow> Inl (UblInvalidPreserved expected
          ''document type cannot contain UBL Invoice/CreditNote top-level fragments'')
      | Some kind \<Rightarrow>
          if coverage_for kind expected = None
          then Inl (UblInvalidPreserved expected ''element is not valid for this UBL document type'')
          else Inr ())"

definition validate_preserved_top_level_fragment ::
  "(string \<Rightarrow> xml_event list) \<Rightarrow> document_type \<Rightarrow> string \<Rightarrow> string \<Rightarrow> ubl_error + unit" where
  "validate_preserved_top_level_fragment read t expected fragment =
     rbind (validate_preserved_top_level_slot t expected) (\<lambda>_.
       validate_preserved_fragment_xml read expected fragment)"

fun replay_items :: "(string \<Rightarrow> xml_event list) \<Rightarrow> document_type \<Rightarrow> string \<Rightarrow> serde_value list
    \<Rightarrow> ubl_error + string list" where
  "replay_items read t element [] = Inr []"
| "replay_items read t element (item # items) =
     (case (if Option.bind (json_get item ''element'') json_as_str = Some element
            then Option.bind (json_get item ''xml'') json_as_str else None) of
        None \<Rightarrow> replay_items read t element items
      | Some fragment \<Rightarrow>
          rbind (validate_preserved_top_level_fragment read t element fragment) (\<lambda>_.
            rbind (replay_items read t element items) (\<lambda>fs. Inr (fragment # fs))))"

text \<open>\<open>write_preserved_top_level\<close>: the texts it writes; it answers whether there was one.\<close>

definition preserved_top_level :: "(string \<Rightarrow> xml_event list) \<Rightarrow> ('d, serde_value) commercial_document \<Rightarrow> string
    \<Rightarrow> ubl_error + string list" where
  "preserved_top_level read d element =
     (case Option.bind (extension_field d ''top_level'') json_as_array of
        None \<Rightarrow> Inr []
      | Some items \<Rightarrow> replay_items read (doc_document_type d) element items)"

definition write_preserved :: "(string \<Rightarrow> xml_event list) \<Rightarrow> ('d, serde_value) commercial_document \<Rightarrow> string
    \<Rightarrow> ubl_error + string" where
  "write_preserved read d element = rbind (preserved_top_level read d element) (\<lambda>fs. Inr (concat fs))"

definition write_preserved_or_default :: "(string \<Rightarrow> xml_event list) \<Rightarrow> ('d, serde_value) commercial_document
    \<Rightarrow> string \<Rightarrow> string \<Rightarrow> ubl_error + string" where
  "write_preserved_or_default read d element v =
     rbind (preserved_top_level read d element) (\<lambda>fs.
       Inr (if fs = [] then write_text_element element v else concat fs))"

text \<open>A sequence of writers, each ended by \<open>?\<close>.\<close>

fun write_all :: "(ubl_error + string) list \<Rightarrow> ubl_error + string" where
  "write_all [] = Inr []"
| "write_all (w # ws) = rbind w (\<lambda>t. rbind (write_all ws) (\<lambda>ts. Inr (t @ ts)))"

section \<open>Native elements of the document\<close>

definition write_metadata_extension :: "document_meta \<Rightarrow> string" where
  "write_metadata_extension m =
     open_tag ''ext:UBLExtensions'' @ open_tag ''ext:UBLExtension''
     @ write_text_element ''ext:ExtensionURI'' invoicekit_metadata_urn
     @ open_tag ''ext:ExtensionContent'' @ open_tag ''ik:DocumentMeta''
     @ write_text_element ''ik:TenantID'' (meta_tenant_id m) @ write_text_element ''ik:TraceID'' (meta_trace_id m)
     @ write_opt (write_text_element ''ik:SourceSystem'') (meta_source_system m)
     @ close_tag ''ik:DocumentMeta'' @ close_tag ''ext:ExtensionContent'' @ close_tag ''ext:UBLExtension''
     @ close_tag ''ext:UBLExtensions''"

definition write_dated_reference :: "document_reference \<Rightarrow> string" where
  "write_dated_reference r =
     write_text_element ''cbc:ID'' (ref_id r)
     @ write_opt (\<lambda>x. write_text_element ''cbc:IssueDate'' (date_str x)) (ref_issue_date r)"

definition write_typed_references :: "document_reference list \<Rightarrow> string \<Rightarrow> reference_kind_class \<Rightarrow> string" where
  "write_typed_references rs element kind =
     concat (map (\<lambda>r. open_tag element @ write_dated_reference r @ close_tag element)
       (filter (\<lambda>r. kind_class r = kind) rs))"

definition write_native_references :: "document_reference list \<Rightarrow> string \<Rightarrow> string" where
  "write_native_references rs slot =
     (if slot = ''cac:OrderReference''
      then write_opt (\<lambda>r. open_tag ''cac:OrderReference'' @ write_text_element ''cbc:ID'' (ref_id r)
             @ close_tag ''cac:OrderReference'') (find (\<lambda>r. kind_class r = Order) rs)
      else if slot = ''cac:BillingReference''
      then concat (map (\<lambda>r. open_tag ''cac:BillingReference'' @ open_tag ''cac:InvoiceDocumentReference''
             @ write_dated_reference r @ close_tag ''cac:InvoiceDocumentReference'' @ close_tag ''cac:BillingReference'')
             (filter (\<lambda>r. kind_class r = PrecedingInvoice) rs))
      else if slot = ''cac:ContractDocumentReference'' then write_typed_references rs slot Contract
      else if slot = ''cac:DespatchDocumentReference'' then write_typed_references rs slot DespatchAdvice
      else if slot = ''cac:ReceiptDocumentReference'' then write_typed_references rs slot ReceivingAdvice
      else [])"

definition write_native_period :: "invoice_period option \<Rightarrow> string \<Rightarrow> string" where
  "write_native_period period slot =
     (if slot \<noteq> ''cac:InvoicePeriod'' then []
      else write_opt (\<lambda>p. open_tag ''cac:InvoicePeriod''
        @ write_opt (\<lambda>x. write_text_element ''cbc:StartDate'' (date_str x)) (period_start_date p)
        @ write_opt (\<lambda>x. write_text_element ''cbc:EndDate'' (date_str x)) (period_end_date p)
        @ close_tag ''cac:InvoicePeriod'') period)"

definition write_deliver_to :: "deliver_to_party \<Rightarrow> string" where
  "write_deliver_to t =
     (if dtp_location_id t \<noteq> None \<or> dtp_address t \<noteq> None
      then open_tag ''cac:DeliveryLocation''
        @ write_opt (write_text_element ''cbc:ID'') (dtp_location_id t)
        @ write_opt (write_address_as ''cac:Address'') (dtp_address t)
        @ close_tag ''cac:DeliveryLocation''
      else [])
     @ write_opt (\<lambda>n. open_tag ''cac:DeliveryParty'' @ open_tag ''cac:PartyName'' @ write_text_element ''cbc:Name'' n
         @ close_tag ''cac:PartyName'' @ close_tag ''cac:DeliveryParty'') (dtp_name t)"

definition write_native_delivery :: "('d, 'j) commercial_document \<Rightarrow> string" where
  "write_native_delivery d =
     (if doc_delivery_date d = None \<and> doc_deliver_to d = None then []
      else open_tag ''cac:Delivery''
        @ write_opt (\<lambda>x. write_text_element ''cbc:ActualDeliveryDate'' (date_str x)) (doc_delivery_date d)
        @ write_opt write_deliver_to (doc_deliver_to d)
        @ close_tag ''cac:Delivery'')"

definition write_allowance_charge :: "'d decimal_ops \<Rightarrow> string \<Rightarrow> 'd document_allowance_charge \<Rightarrow> string" where
  "write_allowance_charge ops currency a =
     open_tag ''cac:AllowanceCharge''
     @ write_text_element ''cbc:ChargeIndicator'' (if ac_is_charge a then ''true'' else ''false'')
     @ write_opt (write_text_element ''cbc:AllowanceChargeReasonCode'') (ac_reason_code a)
     @ write_opt (write_text_element ''cbc:AllowanceChargeReason'') (ac_reason a)
     @ write_opt (\<lambda>p. write_text_element ''cbc:MultiplierFactorNumeric'' (dop_to_string ops p)) (ac_percentage a)
     @ write_amount_element ops currency ''cbc:Amount'' (ac_amount a)
     @ write_opt (write_amount_element ops currency ''cbc:BaseAmount'') (ac_base_amount a)
     @ write_opt (\<lambda>category. open_tag ''cac:TaxCategory'' @ write_text_element ''cbc:ID'' category
         @ write_opt (\<lambda>r. write_text_element ''cbc:Percent'' (dop_to_string ops r)) (ac_tax_rate a)
         @ write_tax_scheme @ close_tag ''cac:TaxCategory'') (ac_tax_category a)
     @ close_tag ''cac:AllowanceCharge''"

definition write_payment_instruction :: "payment_instruction \<Rightarrow> string" where
  "write_payment_instruction p =
     open_tag ''cac:PaymentMeans''
     @ write_text_element ''cbc:PaymentMeansCode''
         (case pi_kind p of Sepa \<Rightarrow> ''30'' | IbanBic \<Rightarrow> ''30'' | SwissQr \<Rightarrow> ''1'' | EpcQr \<Rightarrow> ''1'' | ZatcaQr \<Rightarrow> ''1''
          | OtherInstruction \<Rightarrow> ''1'')
     @ write_opt (write_text_element ''cbc:PaymentID'') (pi_reference p)
     @ write_opt (\<lambda>a. open_tag ''cac:PayeeFinancialAccount'' @ write_text_element ''cbc:ID'' a
         @ close_tag ''cac:PayeeFinancialAccount'') (pi_account p)
     @ close_tag ''cac:PaymentMeans''"

definition write_terms :: "payment_terms \<Rightarrow> string" where
  "write_terms t = open_tag ''cac:PaymentTerms'' @ write_text_element ''cbc:Note'' (terms_description t)
     @ close_tag ''cac:PaymentTerms''"

definition write_tax_subtotal :: "'d decimal_ops \<Rightarrow> string \<Rightarrow> 'd tax_category_summary \<Rightarrow> string" where
  "write_tax_subtotal ops currency t =
     open_tag ''cac:TaxSubtotal''
     @ write_amount_element ops currency ''cbc:TaxableAmount'' (ts_taxable_amount t)
     @ write_amount_element ops currency ''cbc:TaxAmount'' (ts_tax_amount t)
     @ open_tag ''cac:TaxCategory'' @ write_text_element ''cbc:ID'' (ts_category_code t)
     @ write_opt (\<lambda>r. write_text_element ''cbc:Percent'' (dop_to_string ops r)) (ts_tax_rate t)
     @ write_opt (write_text_element ''cbc:TaxExemptionReasonCode'') (ts_exemption_reason_code t)
     @ write_opt (write_text_element ''cbc:TaxExemptionReason'') (ts_exemption_reason t)
     @ write_tax_scheme @ close_tag ''cac:TaxCategory'' @ close_tag ''cac:TaxSubtotal''"

fun tax_sum :: "'d decimal_ops \<Rightarrow> 'd \<Rightarrow> 'd tax_category_summary list \<Rightarrow> ubl_error + 'd" where
  "tax_sum ops acc [] = Inr acc"
| "tax_sum ops acc (t # ts) =
     (case dop_checked_add ops acc (ts_tax_amount t) of None \<Rightarrow> Inl UblAmountOverflow | Some a \<Rightarrow> tax_sum ops a ts)"

definition write_tax_total :: "'d decimal_ops \<Rightarrow> string \<Rightarrow> 'd tax_category_summary list \<Rightarrow> ubl_error + string" where
  "write_tax_total ops currency ts =
     rbind (tax_sum ops (dop_zero ops) ts) (\<lambda>total.
       Inr (open_tag ''cac:TaxTotal'' @ write_amount_element ops currency ''cbc:TaxAmount'' total
         @ concat (map (write_tax_subtotal ops currency) ts) @ close_tag ''cac:TaxTotal''))"

definition write_monetary_total :: "'d decimal_ops \<Rightarrow> string \<Rightarrow> 'd monetary_total \<Rightarrow> string" where
  "write_monetary_total ops currency t =
     open_tag ''cac:LegalMonetaryTotal''
     @ write_amount_element ops currency ''cbc:LineExtensionAmount'' (mt_line_extension_amount t)
     @ write_amount_element ops currency ''cbc:TaxExclusiveAmount'' (mt_tax_exclusive_amount t)
     @ write_amount_element ops currency ''cbc:TaxInclusiveAmount'' (mt_tax_inclusive_amount t)
     @ write_opt (write_amount_element ops currency ''cbc:AllowanceTotalAmount'') (mt_allowance_total_amount t)
     @ write_opt (write_amount_element ops currency ''cbc:ChargeTotalAmount'') (mt_charge_total_amount t)
     @ write_opt (write_amount_element ops currency ''cbc:PrepaidAmount'') (mt_prepaid_amount t)
     @ write_amount_element ops currency ''cbc:PayableAmount'' (mt_payable_amount t)
     @ close_tag ''cac:LegalMonetaryTotal''"

definition write_commodity_classification :: "item_classification \<Rightarrow> string" where
  "write_commodity_classification c =
     open_tag ''cac:CommodityClassification''
     @ ''<cbc:ItemClassificationCode'' @ write_attr ''listID'' (cls_scheme_id c)
     @ write_opt (write_attr ''listVersionID'') (cls_scheme_version c) @ ''>''
     @ ubl_xml_text (cls_code c) @ close_tag ''cbc:ItemClassificationCode''
     @ close_tag ''cac:CommodityClassification''"

definition write_line :: "'d decimal_ops \<Rightarrow> document_type \<Rightarrow> string \<Rightarrow> ('d, 'j) document_line \<Rightarrow> string" where
  "write_line ops document_type currency l =
     (let (container, quantity_element) =
        (if document_type = CreditNote then (''cac:CreditNoteLine'', ''cbc:CreditedQuantity'')
         else (''cac:InvoiceLine'', ''cbc:InvoicedQuantity''))
      in open_tag container
        @ write_text_element ''cbc:ID'' (line_id l)
        @ ''<'' @ quantity_element @ write_opt (write_attr ''unitCode'') (line_unit_code l) @ ''>''
        @ ubl_xml_text (dop_to_string ops (line_quantity l)) @ close_tag quantity_element
        @ write_amount_element ops currency ''cbc:LineExtensionAmount'' (line_extension_amount l)
        @ concat (map (write_allowance_charge ops currency) (line_allowance_charges l))
        @ open_tag ''cac:Item'' @ write_text_element ''cbc:Name'' (line_description l)
        @ concat (map write_commodity_classification (line_classifications l))
        @ write_opt (\<lambda>category. open_tag ''cac:ClassifiedTaxCategory'' @ write_text_element ''cbc:ID'' category
            @ write_tax_scheme @ close_tag ''cac:ClassifiedTaxCategory'') (line_tax_category l)
        @ close_tag ''cac:Item''
        @ open_tag ''cac:Price'' @ write_amount_element ops currency ''cbc:PriceAmount'' (line_unit_price l)
        @ close_tag ''cac:Price'' @ close_tag container)"

section \<open>The document\<close>

definition invoice_slots :: "string list" where
  "invoice_slots =
     [''cac:InvoicePeriod'', ''cac:OrderReference'', ''cac:BillingReference'', ''cac:DespatchDocumentReference'',
      ''cac:ReceiptDocumentReference'', ''cac:StatementDocumentReference'', ''cac:OriginatorDocumentReference'',
      ''cac:ContractDocumentReference'', ''cac:AdditionalDocumentReference'', ''cac:ProjectReference'',
      ''cac:Signature'']"

definition credit_note_slots :: "string list" where
  "credit_note_slots =
     [''cac:InvoicePeriod'', ''cac:DiscrepancyResponse'', ''cac:OrderReference'', ''cac:BillingReference'',
      ''cac:DespatchDocumentReference'', ''cac:ReceiptDocumentReference'', ''cac:ContractDocumentReference'',
      ''cac:AdditionalDocumentReference'', ''cac:StatementDocumentReference'', ''cac:OriginatorDocumentReference'',
      ''cac:Signature'']"

text \<open>One slot before the supplier: what was preserved, and what the document has of its own.\<close>

definition write_slot :: "(string \<Rightarrow> xml_event list) \<Rightarrow> ('d, serde_value) commercial_document \<Rightarrow> string
    \<Rightarrow> ubl_error + string" where
  "write_slot read d element =
     rbind (preserved_top_level read d element) (\<lambda>fs.
       Inr (concat fs
         @ (if fs = [] then write_native_period (doc_invoice_period d) element else [])
         @ (if fs \<noteq> [] \<and> element = ''cac:OrderReference'' then []
            else write_native_references (doc_references d) element)))"

definition write_preserved_before_supplier :: "(string \<Rightarrow> xml_event list) \<Rightarrow> ('d, serde_value) commercial_document
    \<Rightarrow> ubl_error + string" where
  "write_preserved_before_supplier read d =
     write_all (map (write_slot read d)
       (if doc_document_type d = Invoice then invoice_slots else credit_note_slots))"

definition write_document_header :: "(string \<Rightarrow> xml_event list) \<Rightarrow> ('d, serde_value) commercial_document
    \<Rightarrow> string \<Rightarrow> ubl_error + string" where
  "write_document_header read d currency =
     (let tax_point = write_opt (\<lambda>x. write_text_element ''cbc:TaxPointDate'' (date_str x)) (doc_tax_point_date d)
      in write_all
       [Inr (write_metadata_extension (doc_meta d)),
        write_preserved read d ''cbc:UBLVersionID'',
        write_preserved_or_default read d ''cbc:CustomizationID'' ''urn:invoicekit:ubl:2.1:core'',
        write_preserved_or_default read d ''cbc:ProfileID'' ''urn:invoicekit:profile:core'',
        write_preserved read d ''cbc:ProfileExecutionID'',
        Inr (write_text_element ''cbc:ID'' (document_number_str (doc_document_number d))),
        write_preserved read d ''cbc:CopyIndicator'',
        Inr (write_text_element ''cbc:UUID'' (document_id_str (doc_id d))
          @ write_text_element ''cbc:IssueDate'' (date_str (doc_issue_date d))),
        write_preserved read d ''cbc:IssueTime'',
        Inr (if doc_document_type d = Invoice
             then write_opt (\<lambda>x. write_text_element ''cbc:DueDate'' (date_str x)) (doc_due_date d)
               @ write_text_element ''cbc:InvoiceTypeCode'' ''380''
             else tax_point @ write_text_element ''cbc:CreditNoteTypeCode'' ''381''),
        Inr (concat (map write_note (doc_notes d))),
        Inr (if doc_document_type d = Invoice then tax_point else []),
        Inr (write_text_element ''cbc:DocumentCurrencyCode'' currency),
        write_preserved read d ''cbc:TaxCurrencyCode'',
        write_preserved read d ''cbc:PricingCurrencyCode'',
        write_preserved read d ''cbc:PaymentCurrencyCode'',
        write_preserved read d ''cbc:PaymentAlternativeCurrencyCode'',
        write_preserved read d ''cbc:AccountingCostCode'',
        Inr (write_ubl_document_field d ''accounting_cost'' ''cbc:AccountingCost''),
        write_preserved read d ''cbc:LineCountNumeric'',
        Inr (write_ubl_document_field d ''buyer_reference'' ''cbc:BuyerReference''),
        write_preserved_before_supplier read d])"

definition write_document_parties :: "(string \<Rightarrow> xml_event list) \<Rightarrow> ('d, serde_value) commercial_document
    \<Rightarrow> ubl_error + string" where
  "write_document_parties read d =
     write_all
       [Inr (write_party ''cac:AccountingSupplierParty'' (Some ''cac:Party'') (doc_supplier d)
          @ write_party ''cac:AccountingCustomerParty'' (Some ''cac:Party'') (doc_customer d)
          @ write_opt (write_party ''cac:PayeeParty'' None) (doc_payee d)),
        write_preserved read d ''cac:BuyerCustomerParty'',
        write_preserved read d ''cac:SellerSupplierParty'',
        write_preserved read d ''cac:TaxRepresentativeParty'',
        rbind (preserved_top_level read d ''cac:Delivery'') (\<lambda>fs.
          Inr (if fs = [] then write_native_delivery d else concat fs)),
        write_preserved read d ''cac:DeliveryTerms'']"

definition write_preserved_exchange_rates :: "(string \<Rightarrow> xml_event list) \<Rightarrow> ('d, serde_value) commercial_document
    \<Rightarrow> ubl_error + string" where
  "write_preserved_exchange_rates read d =
     write_all (map (write_preserved read d)
       [''cac:TaxExchangeRate'', ''cac:PricingExchangeRate'', ''cac:PaymentExchangeRate'',
        ''cac:PaymentAlternativeExchangeRate''])"

definition write_document_settlement :: "(string \<Rightarrow> xml_event list) \<Rightarrow> 'd decimal_ops
    \<Rightarrow> ('d, serde_value) commercial_document \<Rightarrow> string \<Rightarrow> ubl_error + string" where
  "write_document_settlement read ops d currency =
     (let charges = Inr (concat (map (write_allowance_charge ops currency) (doc_allowance_charges d)))
      in write_all
       ([Inr (concat (map write_payment_instruction (doc_payment_instructions d))),
         Inr (write_opt write_terms (doc_payment_terms d))]
        @ (if doc_document_type d = Invoice
           then [write_preserved read d ''cac:PrepaidPayment'', write_preserved read d ''cac:AllowanceCharge'', charges,
                 write_preserved_exchange_rates read d]
           else [write_preserved_exchange_rates read d, write_preserved read d ''cac:AllowanceCharge'', charges])
        @ [if doc_tax_summary d = [] then Inr [] else write_tax_total ops currency (doc_tax_summary d),
           write_preserved read d ''cac:WithholdingTaxTotal'',
           Inr (write_monetary_total ops currency (doc_monetary_total d))]))"

definition serialize_document :: "(string \<Rightarrow> xml_event list) \<Rightarrow> 'd decimal_ops
    \<Rightarrow> ('d, serde_value) commercial_document \<Rightarrow> string \<Rightarrow> string \<Rightarrow> ubl_error + string" where
  "serialize_document read ops d root_name root_namespace =
     (if doc_document_type d = CreditNote \<and> doc_due_date d \<noteq> None
      then Inl (UblUnsupportedField CreditNote ''due_date''
        ''UBL 2.1 CreditNote has no top-level cbc:DueDate; omit due_date or model the value in a profile-specific extension'')
      else
        let currency = currency_str (doc_currency d)
        in write_all
          [Inr (''<'' @ root_name @ '' xmlns='' @ [CHR 0x22] @ root_namespace @ [CHR 0x22] @ standard_namespaces @ ''>''),
           write_document_header read d currency,
           write_document_parties read d,
           write_document_settlement read ops d currency,
           Inr (concat (map (write_line ops (doc_document_type d) currency) (doc_lines d))),
           Inr (close_tag root_name)])"

section \<open>Entry points\<close>

definition ubl_to_xml :: "(string \<Rightarrow> xml_event list) \<Rightarrow> 'd decimal_ops
    \<Rightarrow> ('d, serde_value) commercial_document \<Rightarrow> ubl_error + string" where
  "ubl_to_xml read ops d =
     rbind (ubl_ir (document_validate d)) (\<lambda>_.
       rbind (case doc_document_type d of
           Invoice \<Rightarrow> serialize_document read ops d ''Invoice'' ns_invoice
         | CreditNote \<Rightarrow> serialize_document read ops d ''CreditNote'' ns_credit_note
         | other \<Rightarrow> Inl (UblUnsupportedType other)) (\<lambda>raw.
         case canonicalize_xml (read raw) of Inl e \<Rightarrow> Inl (UblCanonicalize e) | Inr xml \<Rightarrow> Inr xml))"

definition dropped_payment_entry :: "nat \<Rightarrow> lossiness_entry" where
  "dropped_payment_entry n =
     \<lparr>le_path = ''/payment_instructions'',
      le_reason = ''[format-ubl] dropped '' @ show_nat n @ '' cac:PaymentMeans element(s) carrying only ''
        @ ''cbc:PaymentMeansCode (no cbc:PaymentID or cac:PayeeFinancialAccount); the core ''
        @ ''invoice model has no field for a bare payment-means code''\<rparr>"

definition ubl_from_xml :: "(string \<Rightarrow> xml_event list) \<Rightarrow> 'd decimal_ops \<Rightarrow> ('d \<Rightarrow> 'd \<Rightarrow> bool) \<Rightarrow> (string \<Rightarrow> 'd option)
    \<Rightarrow> string \<Rightarrow> ubl_error + ('d, serde_value) commercial_document \<times> lossiness_ledger" where
  "ubl_from_xml read ops deq dec input =
     rbind (parse_xml_document dec (read input)) (\<lambda>(d, dropped).
       rbind (ubl_to_xml read ops d) (\<lambda>serialized.
         rbind (parse_xml_document dec (read serialized)) (\<lambda>(reparsed, _).
           rbind (ubl_ir (from_roundtrip_comparison deq d reparsed ''format-ubl'')) (\<lambda>ledger.
             Inr (d, if 0 < dropped then ledger\<lparr>ll_lost := ll_lost ledger @ [dropped_payment_entry dropped]\<rparr>
                     else ledger)))))"

end
