(* ===== verification/Ubl_Doc.thy ===== *)
theory Ubl_Doc
  imports Ubl_Canonical Ubl_Write
begin

text \<open>
  The document a commercial document is serialized to, as a tree, and that the serializer writes the text of
  this tree when no fragments are replayed.
\<close>

section \<open>The tree of a document\<close>

definition cac :: "string \<Rightarrow> ubl_tree list \<Rightarrow> ubl_tree" where
  "cac n ts = UElem (std_elem ''cac'' n) [] ts"

definition cbc :: "string \<Rightarrow> string \<Rightarrow> ubl_tree" where
  "cbc n v = UElem (std_elem ''cbc'' n) [] [UText v]"

definition cbc_with :: "string \<Rightarrow> ubl_attrs \<Rightarrow> string \<Rightarrow> ubl_tree" where
  "cbc_with n as v = UElem (std_elem ''cbc'' n) as [UText v]"

definition opt_tree :: "('a \<Rightarrow> ubl_tree) \<Rightarrow> 'a option \<Rightarrow> ubl_tree list" where
  "opt_tree f x = (case x of None \<Rightarrow> [] | Some v \<Rightarrow> [f v])"

definition date_tree :: "string \<Rightarrow> date_only \<Rightarrow> ubl_tree" where
  "date_tree n x = cbc n (date_str x)"

definition tax_scheme_tree :: "string \<Rightarrow> ubl_tree" where
  "tax_scheme_tree v = cac ''TaxScheme'' [cbc ''ID'' v]"

definition address_tree :: "string \<Rightarrow> postal_address \<Rightarrow> ubl_tree" where
  "address_tree wrapper a =
     cac wrapper
       ((case addr_lines a of [] \<Rightarrow> [] | first # rest \<Rightarrow> cbc ''StreetName'' first # map (cbc ''AdditionalStreetName'') rest)
        @ [cbc ''CityName'' (addr_city a), cbc ''PostalZone'' (addr_postal_code a)]
        @ opt_tree (cbc ''CountrySubentity'') (addr_subdivision a)
        @ [cac ''Country'' [cbc ''IdentificationCode'' (country_str (addr_country a))]])"

definition contact_tree :: "contact \<Rightarrow> ubl_tree" where
  "contact_tree c =
     cac ''Contact'' (opt_tree (cbc ''Name'') (contact_name c) @ opt_tree (cbc ''Telephone'') (contact_phone c)
       @ opt_tree (cbc ''ElectronicMail'') (contact_email c))"

definition contact_given :: "contact option \<Rightarrow> contact option" where
  "contact_given x = Option.bind x (\<lambda>c.
     if contact_name c \<noteq> None \<or> contact_email c \<noteq> None \<or> contact_phone c \<noteq> None then Some c else None)"

definition tax_id_tree :: "party_tax_id \<Rightarrow> ubl_tree" where
  "tax_id_tree t = cac ''PartyTaxScheme'' [cbc ''CompanyID'' (tax_value t), tax_scheme_tree (tax_scheme t)]"

definition party_trees :: "party \<Rightarrow> ubl_tree list" where
  "party_trees p =
     (case party_id p of None \<Rightarrow> []
      | Some v \<Rightarrow> [cbc ''EndpointID'' v, cac ''PartyIdentification'' [cbc ''ID'' v]])
     @ [cac ''PartyName'' [cbc ''Name'' (party_name p)], address_tree ''PostalAddress'' (party_address p)]
     @ map tax_id_tree (party_tax_ids p)
     @ [cac ''PartyLegalEntity'' [cbc ''RegistrationName'' (party_name p)]]
     @ opt_tree contact_tree (contact_given (party_contact p))"

definition metadata_tree :: "document_meta \<Rightarrow> ubl_tree" where
  "metadata_tree m =
     UElem (std_elem ''ext'' ''UBLExtensions'') []
       [UElem (std_elem ''ext'' ''UBLExtension'') []
         [UElem (std_elem ''ext'' ''ExtensionURI'') [] [UText invoicekit_metadata_urn],
          UElem (std_elem ''ext'' ''ExtensionContent'') []
            [UElem (std_elem ''ik'' ''DocumentMeta'') []
              ([UElem (std_elem ''ik'' ''TenantID'') [] [UText (meta_tenant_id m)],
                UElem (std_elem ''ik'' ''TraceID'') [] [UText (meta_trace_id m)]]
               @ opt_tree (\<lambda>v. UElem (std_elem ''ik'' ''SourceSystem'') [] [UText v]) (meta_source_system m))]]]"

definition note_tree :: "localized_string \<Rightarrow> ubl_tree" where
  "note_tree n = cbc_with ''Note'' [(''languageID'', ls_language n)] (ls_text n)"

definition reference_trees :: "document_reference \<Rightarrow> ubl_tree list" where
  "reference_trees r = cbc ''ID'' (ref_id r) # opt_tree (date_tree ''IssueDate'') (ref_issue_date r)"

definition typed_references :: "string \<Rightarrow> reference_kind_class \<Rightarrow> document_reference list \<Rightarrow> ubl_tree list" where
  "typed_references n kind rs = map (\<lambda>r. cac n (reference_trees r)) (filter (\<lambda>r. kind_class r = kind) rs)"

definition period_trees :: "invoice_period option \<Rightarrow> ubl_tree list" where
  "period_trees x = opt_tree (\<lambda>p. cac ''InvoicePeriod''
     (opt_tree (date_tree ''StartDate'') (period_start_date p) @ opt_tree (date_tree ''EndDate'') (period_end_date p))) x"

definition order_trees :: "document_reference list \<Rightarrow> ubl_tree list" where
  "order_trees rs = opt_tree (\<lambda>r. cac ''OrderReference'' [cbc ''ID'' (ref_id r)]) (find (\<lambda>r. kind_class r = Order) rs)"

definition billing_trees :: "document_reference list \<Rightarrow> ubl_tree list" where
  "billing_trees rs = map (\<lambda>r. cac ''BillingReference'' [cac ''InvoiceDocumentReference'' (reference_trees r)])
     (filter (\<lambda>r. kind_class r = PrecedingInvoice) rs)"

text \<open>The elements the parser keeps as fragments: before the supplier, the delivery, the charges.\<close>

definition slot_trees :: "('d, 'j) commercial_document \<Rightarrow> ubl_tree list" where
  "slot_trees d =
     (let rs = doc_references d
      in period_trees (doc_invoice_period d) @ order_trees rs @ billing_trees rs
         @ typed_references ''DespatchDocumentReference'' DespatchAdvice rs
         @ typed_references ''ReceiptDocumentReference'' ReceivingAdvice rs
         @ typed_references ''ContractDocumentReference'' Contract rs)"

definition deliver_to_trees :: "deliver_to_party \<Rightarrow> ubl_tree list" where
  "deliver_to_trees t =
     (if dtp_location_id t \<noteq> None \<or> dtp_address t \<noteq> None
      then [cac ''DeliveryLocation'' (opt_tree (cbc ''ID'') (dtp_location_id t) @ opt_tree (address_tree ''Address'') (dtp_address t))]
      else [])
     @ opt_tree (\<lambda>n. cac ''DeliveryParty'' [cac ''PartyName'' [cbc ''Name'' n]]) (dtp_name t)"

definition delivery_trees :: "('d, 'j) commercial_document \<Rightarrow> ubl_tree list" where
  "delivery_trees d =
     (if doc_delivery_date d = None \<and> doc_deliver_to d = None then []
      else [cac ''Delivery'' (opt_tree (date_tree ''ActualDeliveryDate'') (doc_delivery_date d)
        @ (case doc_deliver_to d of None \<Rightarrow> [] | Some t \<Rightarrow> deliver_to_trees t))])"

definition amount_tree :: "'d decimal_ops \<Rightarrow> string \<Rightarrow> string \<Rightarrow> 'd \<Rightarrow> ubl_tree" where
  "amount_tree ops cur n x = cbc_with n [(''currencyID'', cur)] (dop_to_string ops x)"

definition decimal_tree :: "'d decimal_ops \<Rightarrow> string \<Rightarrow> 'd \<Rightarrow> ubl_tree" where
  "decimal_tree ops n x = cbc n (dop_to_string ops x)"

definition charge_tree :: "'d decimal_ops \<Rightarrow> string \<Rightarrow> 'd document_allowance_charge \<Rightarrow> ubl_tree" where
  "charge_tree ops cur a =
     cac ''AllowanceCharge''
       ([cbc ''ChargeIndicator'' (if ac_is_charge a then ''true'' else ''false'')]
        @ opt_tree (cbc ''AllowanceChargeReasonCode'') (ac_reason_code a)
        @ opt_tree (cbc ''AllowanceChargeReason'') (ac_reason a)
        @ opt_tree (decimal_tree ops ''MultiplierFactorNumeric'') (ac_percentage a)
        @ [amount_tree ops cur ''Amount'' (ac_amount a)]
        @ opt_tree (amount_tree ops cur ''BaseAmount'') (ac_base_amount a)
        @ opt_tree (\<lambda>category. cac ''TaxCategory'' (cbc ''ID'' category
            # opt_tree (decimal_tree ops ''Percent'') (ac_tax_rate a) @ [tax_scheme_tree ''VAT''])) (ac_tax_category a))"

definition means_code :: "payment_instruction_kind \<Rightarrow> string" where
  "means_code k = (if k = Sepa \<or> k = IbanBic then ''30'' else ''1'')"

definition payment_tree :: "payment_instruction \<Rightarrow> ubl_tree" where
  "payment_tree p =
     cac ''PaymentMeans''
       (cbc ''PaymentMeansCode'' (means_code (pi_kind p))
        # opt_tree (cbc ''PaymentID'') (pi_reference p)
        @ opt_tree (\<lambda>a. cac ''PayeeFinancialAccount'' [cbc ''ID'' a]) (pi_account p))"

definition terms_tree :: "payment_terms \<Rightarrow> ubl_tree" where
  "terms_tree t = cac ''PaymentTerms'' [cbc ''Note'' (terms_description t)]"

definition subtotal_tree :: "'d decimal_ops \<Rightarrow> string \<Rightarrow> 'd tax_category_summary \<Rightarrow> ubl_tree" where
  "subtotal_tree ops cur t =
     cac ''TaxSubtotal''
       [amount_tree ops cur ''TaxableAmount'' (ts_taxable_amount t), amount_tree ops cur ''TaxAmount'' (ts_tax_amount t),
        cac ''TaxCategory''
          (cbc ''ID'' (ts_category_code t) # opt_tree (decimal_tree ops ''Percent'') (ts_tax_rate t)
           @ opt_tree (cbc ''TaxExemptionReasonCode'') (ts_exemption_reason_code t)
           @ opt_tree (cbc ''TaxExemptionReason'') (ts_exemption_reason t) @ [tax_scheme_tree ''VAT''])]"

definition tax_total_trees :: "'d decimal_ops \<Rightarrow> string \<Rightarrow> 'd \<Rightarrow> 'd tax_category_summary list \<Rightarrow> ubl_tree list" where
  "tax_total_trees ops cur taxes ts =
     (if ts = [] then []
      else [cac ''TaxTotal'' (amount_tree ops cur ''TaxAmount'' taxes # map (subtotal_tree ops cur) ts)])"

definition total_tree :: "'d decimal_ops \<Rightarrow> string \<Rightarrow> 'd monetary_total \<Rightarrow> ubl_tree" where
  "total_tree ops cur t =
     cac ''LegalMonetaryTotal''
       ([amount_tree ops cur ''LineExtensionAmount'' (mt_line_extension_amount t),
         amount_tree ops cur ''TaxExclusiveAmount'' (mt_tax_exclusive_amount t),
         amount_tree ops cur ''TaxInclusiveAmount'' (mt_tax_inclusive_amount t)]
        @ opt_tree (amount_tree ops cur ''AllowanceTotalAmount'') (mt_allowance_total_amount t)
        @ opt_tree (amount_tree ops cur ''ChargeTotalAmount'') (mt_charge_total_amount t)
        @ opt_tree (amount_tree ops cur ''PrepaidAmount'') (mt_prepaid_amount t)
        @ [amount_tree ops cur ''PayableAmount'' (mt_payable_amount t)])"

definition class_attrs :: "item_classification \<Rightarrow> ubl_attrs" where
  "class_attrs c = (''listID'', cls_scheme_id c)
     # (case cls_scheme_version c of None \<Rightarrow> [] | Some v \<Rightarrow> [(''listVersionID'', v)])"

definition class_tree :: "item_classification \<Rightarrow> ubl_tree" where
  "class_tree c = cac ''CommodityClassification'' [cbc_with ''ItemClassificationCode'' (class_attrs c) (cls_code c)]"

definition unit_attrs :: "string option \<Rightarrow> ubl_attrs" where
  "unit_attrs u = (case u of None \<Rightarrow> [] | Some v \<Rightarrow> [(''unitCode'', v)])"

definition line_name :: "document_type \<Rightarrow> string" where
  "line_name t = (if t = CreditNote then ''CreditNoteLine'' else ''InvoiceLine'')"

definition quantity_name :: "document_type \<Rightarrow> string" where
  "quantity_name t = (if t = CreditNote then ''CreditedQuantity'' else ''InvoicedQuantity'')"

definition item_trees :: "('d, 'j) document_line \<Rightarrow> ubl_tree list" where
  "item_trees l =
     cbc ''Name'' (line_description l) # map class_tree (line_classifications l)
     @ opt_tree (\<lambda>c. cac ''ClassifiedTaxCategory'' [cbc ''ID'' c, tax_scheme_tree ''VAT'']) (line_tax_category l)"

definition line_tree :: "'d decimal_ops \<Rightarrow> document_type \<Rightarrow> string \<Rightarrow> ('d, 'j) document_line \<Rightarrow> ubl_tree" where
  "line_tree ops t cur l =
     cac (line_name t)
       ([cbc ''ID'' (line_id l),
         cbc_with (quantity_name t) (unit_attrs (line_unit_code l)) (dop_to_string ops (line_quantity l)),
         amount_tree ops cur ''LineExtensionAmount'' (line_extension_amount l)]
        @ map (charge_tree ops cur) (line_allowance_charges l)
        @ [cac ''Item'' (item_trees l), cac ''Price'' [amount_tree ops cur ''PriceAmount'' (line_unit_price l)]])"

definition type_trees :: "('d, 'j) commercial_document \<Rightarrow> ubl_tree list" where
  "type_trees d =
     (if doc_document_type d = Invoice
      then opt_tree (date_tree ''DueDate'') (doc_due_date d) @ [cbc ''InvoiceTypeCode'' ''380'']
        @ map note_tree (doc_notes d) @ opt_tree (date_tree ''TaxPointDate'') (doc_tax_point_date d)
      else opt_tree (date_tree ''TaxPointDate'') (doc_tax_point_date d) @ [cbc ''CreditNoteTypeCode'' ''381'']
        @ map note_tree (doc_notes d))"

definition header_trees :: "('d, 'j) commercial_document \<Rightarrow> ubl_tree list" where
  "header_trees d =
     [metadata_tree (doc_meta d), cbc ''CustomizationID'' ''urn:invoicekit:ubl:2.1:core'',
      cbc ''ProfileID'' ''urn:invoicekit:profile:core'', cbc ''ID'' (document_number_str (doc_document_number d)),
      cbc ''UUID'' (document_id_str (doc_id d)), date_tree ''IssueDate'' (doc_issue_date d)]
     @ type_trees d @ [cbc ''DocumentCurrencyCode'' (currency_str (doc_currency d))]"

definition document_party_trees :: "('d, 'j) commercial_document \<Rightarrow> ubl_tree list" where
  "document_party_trees d =
     [cac ''AccountingSupplierParty'' [cac ''Party'' (party_trees (doc_supplier d))],
      cac ''AccountingCustomerParty'' [cac ''Party'' (party_trees (doc_customer d))]]
     @ opt_tree (\<lambda>p. cac ''PayeeParty'' (party_trees p)) (doc_payee d)"

definition settlement_trees :: "'d decimal_ops \<Rightarrow> 'd \<Rightarrow> ('d, 'j) commercial_document \<Rightarrow> ubl_tree list" where
  "settlement_trees ops taxes d =
     (let cur = currency_str (doc_currency d)
      in map payment_tree (doc_payment_instructions d) @ opt_tree terms_tree (doc_payment_terms d)
         @ map (charge_tree ops cur) (doc_allowance_charges d)
         @ tax_total_trees ops cur taxes (doc_tax_summary d) @ [total_tree ops cur (doc_monetary_total d)])"

definition document_trees :: "'d decimal_ops \<Rightarrow> 'd \<Rightarrow> ('d, 'j) commercial_document \<Rightarrow> ubl_tree list" where
  "document_trees ops taxes d =
     header_trees d @ slot_trees d @ document_party_trees d @ delivery_trees d @ settlement_trees ops taxes d
     @ map (line_tree ops (doc_document_type d) (currency_str (doc_currency d))) (doc_lines d)"

section \<open>The serializer writes the tree\<close>

definition tree_text :: "ubl_tree \<Rightarrow> string" where
  "tree_text t = xrender (tree_of all_prefixes t)"

definition trees_text :: "ubl_tree list \<Rightarrow> string" where
  "trees_text ts = xrenders (trees_of all_prefixes ts)"

lemma trees_text_simps [simp]:
  "trees_text [] = []" "trees_text (t # ts) = tree_text t @ trees_text ts"
  by (simp_all add: trees_text_def tree_text_def)

lemma trees_text_append [simp]: "trees_text (ts @ us) = trees_text ts @ trees_text us"
  by (induction ts) simp_all

lemma trees_text_map [simp]: "trees_text (map f xs) = concat (map (\<lambda>x. tree_text (f x)) xs)"
  by (induction xs) simp_all

lemma trees_text_opt [simp]: "trees_text (opt_tree f x) = write_opt (\<lambda>v. tree_text (f v)) x"
  by (cases x) (simp_all add: opt_tree_def write_opt_def)

lemma attr_text_write: "attr_text (k, v) = write_attr k v"
  by (simp add: attr_text_def write_attr_def ubl_xml_attr_def)

lemma std_tree_text:
  assumes "p \<in> all_prefixes"
  shows "tree_text (UElem (std_elem p n) as ts) = ''<'' @ (p @ '':'' @ n) @ concat (map attr_text as) @ ''>''
    @ trees_text ts @ close_tag (p @ '':'' @ n)"
  using std_elem_facts(1,4) [OF assms, of n] assms
  by (simp add: tree_text_def trees_text_def insert_absorb close_tag_def)

lemma text_tree_text [simp]: "tree_text (UText v) = ubl_xml_text v"
  by (simp add: tree_text_def ubl_xml_text_def)

lemma prefix_memberships [simp]: "''cac'' \<in> all_prefixes" "''cbc'' \<in> all_prefixes" "''ext'' \<in> all_prefixes" "''ik'' \<in> all_prefixes"
  by (simp_all add: all_prefixes_def)

lemma built_text [simp]:
  "tree_text (cac n ts) = open_tag (''cac:'' @ n) @ trees_text ts @ close_tag (''cac:'' @ n)"
  "tree_text (cbc n v) = write_text_element (''cbc:'' @ n) v"
  "tree_text (cbc_with n as v) = ''<cbc:'' @ n @ concat (map attr_text as) @ ''>'' @ ubl_xml_text v @ close_tag (''cbc:'' @ n)"
  "tree_text (UElem (std_elem ''ext'' n) [] ts) = open_tag (''ext:'' @ n) @ trees_text ts @ close_tag (''ext:'' @ n)"
  "tree_text (UElem (std_elem ''ik'' n) [] ts) = open_tag (''ik:'' @ n) @ trees_text ts @ close_tag (''ik:'' @ n)"
  by (simp_all add: cac_def cbc_def cbc_with_def std_tree_text open_tag_def write_text_element_def)

lemma amount_text [simp]: "tree_text (amount_tree ops cur n x) = write_amount_element ops cur (''cbc:'' @ n) x"
  by (simp add: amount_tree_def write_amount_element_def attr_text_write)

lemma simple_texts [simp]:
  "tree_text (date_tree n x) = write_text_element (''cbc:'' @ n) (date_str x)"
  "tree_text (decimal_tree ops n y) = write_text_element (''cbc:'' @ n) (dop_to_string ops y)"
  "tree_text (tax_scheme_tree ''VAT'') = write_tax_scheme"
  "tree_text (note_tree nt) = write_note nt"
  "tree_text (terms_tree t) = write_terms t"
  by (simp_all add: date_tree_def decimal_tree_def tax_scheme_tree_def write_tax_scheme_def note_tree_def
      write_note_def attr_text_write close_tag_def terms_tree_def write_terms_def)

lemma address_text [simp]: "tree_text (address_tree n a) = write_address_as (''cac:'' @ n) a"
  by (cases "addr_lines a") (simp_all add: address_tree_def write_address_as_def comp_def)

lemma contact_text: "trees_text (opt_tree contact_tree (contact_given x)) = write_opt write_contact x"
  by (cases x) (simp_all add: contact_given_def write_opt_def [of write_contact] opt_tree_def [of contact_tree]
      contact_tree_def write_contact_def del: trees_text_opt, simp)

lemma party_text_written:
  "open_tag c @ write_opt open_tag w @ trees_text (party_trees p) @ write_opt close_tag w @ close_tag c = write_party c w p"
  by (cases "party_id p")
    (simp_all add: party_trees_def write_party_def contact_text write_address_def write_party_id_def tax_id_tree_def
      write_tax_id_def [abs_def] tax_scheme_tree_def write_opt_def [of write_party_id] del: trees_text_opt)

lemma metadata_text [simp]: "tree_text (metadata_tree m) = write_metadata_extension m"
  by (simp add: metadata_tree_def write_metadata_extension_def write_text_element_def [abs_def])

lemma charge_text [simp]: "tree_text (charge_tree ops cur a) = write_allowance_charge ops cur a"
  by (simp add: charge_tree_def write_allowance_charge_def)

lemma payment_written [simp]: "tree_text (payment_tree p) = write_payment_instruction p"
  by (cases "pi_kind p") (simp_all add: payment_tree_def write_payment_instruction_def means_code_def)

lemma subtotal_written [simp]: "tree_text (subtotal_tree ops cur t) = write_tax_subtotal ops cur t"
  by (simp add: subtotal_tree_def write_tax_subtotal_def)

lemma total_written [simp]: "tree_text (total_tree ops cur t) = write_monetary_total ops cur t"
  by (simp add: total_tree_def write_monetary_total_def)

lemma class_written [simp]: "tree_text (class_tree c) = write_commodity_classification c"
  by (cases "cls_scheme_version c")
    (simp_all add: class_tree_def class_attrs_def write_commodity_classification_def attr_text_write write_opt_def)

lemma line_written [simp]: "tree_text (line_tree ops t cur l) = write_line ops t cur l"
  by (cases "line_unit_code l")
    (simp_all add: line_tree_def write_line_def line_name_def quantity_name_def item_trees_def unit_attrs_def
      attr_text_write write_opt_def [of "write_attr ''unitCode''"])

lemma delivery_written: "trees_text (delivery_trees d) = write_native_delivery d"
  by (cases "doc_deliver_to d")
    (simp_all add: delivery_trees_def write_native_delivery_def deliver_to_trees_def write_deliver_to_def
      write_opt_def [of write_deliver_to])

text \<open>A document without fragments to replay.\<close>

definition fresh :: "('d, serde_value) commercial_document \<Rightarrow> bool" where
  "fresh d \<longleftrightarrow> list_all (\<lambda>e. ext_urn e \<noteq> ubl_fields_urn) (doc_extensions d)"

lemma fresh_writes [simp]:
  assumes "fresh d"
  shows "preserved_top_level read d el = Inr []" "write_preserved read d el = Inr []"
    "write_preserved_or_default read d el v = Inr (write_text_element el v)" "write_ubl_document_field d k el = []"
proof -
  have "find (\<lambda>e. ext_urn e = ubl_fields_urn) (doc_extensions d) = None"
    using assms by (auto simp: find_None_iff fresh_def list_all_iff)
  then have "extension_field d k = None" for k by (simp add: extension_field_def)
  then show "preserved_top_level read d el = Inr []" "write_ubl_document_field d k el = []"
    by (simp_all add: preserved_top_level_def write_ubl_document_field_def ubl_document_field_def write_opt_def)
  then show "write_preserved read d el = Inr []" "write_preserved_or_default read d el v = Inr (write_text_element el v)"
    by (simp_all add: write_preserved_def write_preserved_or_default_def)
qed

lemma period_written: "trees_text (period_trees x) = write_native_period x ''cac:InvoicePeriod''"
  by (simp add: period_trees_def write_native_period_def)

lemma reference_written: "trees_text (reference_trees r) = write_dated_reference r"
  by (simp add: reference_trees_def write_dated_reference_def)

lemma references_written:
  "trees_text (order_trees rs) = write_native_references rs ''cac:OrderReference''"
  "trees_text (billing_trees rs) = write_native_references rs ''cac:BillingReference''"
  "trees_text (typed_references ''DespatchDocumentReference'' DespatchAdvice rs)
     = write_native_references rs ''cac:DespatchDocumentReference''"
  "trees_text (typed_references ''ReceiptDocumentReference'' ReceivingAdvice rs)
     = write_native_references rs ''cac:ReceiptDocumentReference''"
  "trees_text (typed_references ''ContractDocumentReference'' Contract rs)
     = write_native_references rs ''cac:ContractDocumentReference''"
  by (simp_all add: order_trees_def billing_trees_def typed_references_def write_native_references_def
      write_typed_references_def reference_written comp_def)

lemma other_slots:
  "el \<notin> {''cac:OrderReference'', ''cac:BillingReference'', ''cac:DespatchDocumentReference'',
     ''cac:ReceiptDocumentReference'', ''cac:ContractDocumentReference''} \<Longrightarrow> write_native_references rs el = []"
  "el \<noteq> ''cac:InvoicePeriod'' \<Longrightarrow> write_native_period x el = []"
  by (simp_all add: write_native_references_def write_native_period_def)

lemma slots_written: "fresh d \<Longrightarrow> write_preserved_before_supplier read d = Inr (trees_text (slot_trees d))"
  by (simp add: write_preserved_before_supplier_def invoice_slots_def credit_note_slots_def write_slot_def slot_trees_def
      period_written references_written other_slots Let_def)

lemma header_written:
  "fresh d \<Longrightarrow> write_document_header read d (currency_str (doc_currency d))
     = Inr (trees_text (header_trees d) @ trees_text (slot_trees d))"
  by (simp add: write_document_header_def Let_def slots_written header_trees_def type_trees_def)

lemma parties_written:
  "fresh d \<Longrightarrow> write_document_parties read d
     = Inr (trees_text (document_party_trees d) @ trees_text (delivery_trees d))"
  using party_text_written [of "''cac:PayeeParty''" None]
  by (simp add: write_document_parties_def document_party_trees_def delivery_written
      party_text_written [of _ "Some ''cac:Party''", symmetric] write_opt_def [of open_tag] write_opt_def [of close_tag])

lemma settlement_written:
  assumes "fresh d" "tax_sum ops (dop_zero ops) (doc_tax_summary d) = Inr taxes"
  shows "write_document_settlement read ops d (currency_str (doc_currency d))
    = Inr (trees_text (settlement_trees ops taxes d))"
  using assms
  by (simp add: write_document_settlement_def settlement_trees_def write_preserved_exchange_rates_def
      tax_total_trees_def write_tax_total_def Let_def)

lemma namespace_text: "concat (map attr_char ns_cac) = ns_cac" "concat (map attr_char ns_cbc) = ns_cbc"
  "concat (map attr_char ns_ext) = ns_ext" "concat (map attr_char ns_ik) = ns_ik"
  "concat (map attr_char ns_invoice) = ns_invoice" "concat (map attr_char ns_credit_note) = ns_credit_note"
  by (simp_all add: ns_cac_def ns_cbc_def ns_ext_def ns_ik_def ns_invoice_def ns_credit_note_def attr_char_def)

text \<open>The serializer's text is that of the tree.\<close>

lemma serialize_fresh:
  assumes "fresh d" "(name, ns) \<in> set ubl_roots" "doc_document_type d = CreditNote \<longrightarrow> doc_due_date d = None"
    "tax_sum ops (dop_zero ops) (doc_tax_summary d) = Inr taxes"
  shows "serialize_document read ops d name ns = Inr (xrender (raw_document name ns (document_trees ops taxes d)))"
proof -
  have root: "'' xmlns='' @ [CHR 0x22] @ ns @ [CHR 0x22] @ standard_namespaces = concat (map attr_text (root_declarations ns))"
    using assms(2)
    by (auto simp: standard_namespaces_def root_declarations_def attr_text_def std_prefixes_def namespace_attr_def
        namespace_text ubl_roots_def)
  have "xrender (raw_document name ns ts) = ''<'' @ name @ concat (map attr_text (root_declarations ns)) @ ''>''
      @ trees_text ts @ close_tag name" for ts
    by (simp add: raw_document_def trees_text_def close_tag_def)
  then show ?thesis
    using assms(1,3,4)
    by (simp add: serialize_document_def Let_def header_written parties_written settlement_written document_trees_def
        root [symmetric])
qed

end
