(* ===== verification/Ubl_Run.thy ===== *)
theory Ubl_Run
  imports Ubl_Doc
begin

text \<open>
  What the parser does with each part of the tree of a document: the handlers run over the parts, one
  lemma per part, each with the fields of the state it changes.
\<close>

section \<open>Elements below the top level\<close>

definition special_names :: "string list" where
  "special_names = [''InvoiceLine'', ''CreditNoteLine'', ''TaxSubtotal'', ''PaymentMeans'', ''UBLExtension'',
     ''CommodityClassification'', ''ItemClassificationCode'', ''InvoicedQuantity'', ''CreditedQuantity'']"

lemma line_start_other: "n \<notin> set special_names \<Longrightarrow> line_start stack n as l = l"
  by (simp add: line_start_def special_names_def)

lemma map_option_same: "(\<And>x. f x = x) \<Longrightarrow> map_option f y = y"
  by (cases y) simp_all

lemma start_below:
  assumes "us_capture s = None" "2 \<le> length stack"
  shows "start_element stack e as s = Inr (start_open stack e as s)"
proof -
  have "start_root stack (pe_name e) s = Inr s" using assms(2) by (auto simp: start_root_def)
  moreover have "\<not> should_preserve_top_level stack e k" for k
    using assms(2) by (simp add: should_preserve_top_level_def)
  ultimately show ?thesis using assms(1) by (simp add: start_element_def split: option.splits)
qed

lemma start_other:
  assumes "us_capture s = None" "2 \<le> length stack" "n \<notin> set special_names"
  shows "start_element stack (std_elem p n) as s = Inr s"
proof -
  have "map_option (line_start stack n as) (us_line s) = us_line s"
    by (rule map_option_same) (rule line_start_other [OF assms(3)])
  then show ?thesis
    using assms by (simp add: start_below start_open_def is_element_def special_names_def Let_def)
qed

lemma end_other:
  assumes "us_capture s = None" "n \<notin> set special_names"
  shows "end_element (std_elem p n) s = Inr s"
  using assms by (simp add: end_element_def end_line_def end_tax_def end_payment_def is_element_def special_names_def)

lemma run_cac:
  assumes "us_capture s = None" "2 \<le> length stack" "n \<notin> set special_names"
    "trees_run dec (std_elem ''cac'' n # stack) s ts = Inr s'" "us_capture s' = None"
  shows "tree_run dec stack s (cac n ts) = Inr s'"
  using assms by (simp add: cac_def start_other end_other)

lemma trees_run_append [simp]:
  "trees_run dec stack s (ts @ us) = rbind (trees_run dec stack s ts) (\<lambda>s1. trees_run dec stack s1 us)"
  by (induction ts arbitrary: s) (simp_all add: rbind_assoc)

lemma trees_run_opt: "trees_run dec stack s (opt_tree f x) = (case x of None \<Rightarrow> Inr s | Some v \<Rightarrow> tree_run dec stack s (f v))"
  by (cases x) (simp_all add: opt_tree_def rbind_right)

lemma party_keeps [simp]:
  "us_capture (fst (party_mut role s)) = us_capture s" "us_capture (party_put role p s) = us_capture s"
  by (cases role; simp)+

lemma root_text_capture [simp]: "us_capture (root_text stack v s) = us_capture s"
  by (simp add: root_text_def)

lemma later_capture:
  "total_or_root_text dec stack v s = Inr s' \<Longrightarrow> us_capture s' = us_capture s"
  "payment_or_later_text dec stack v s = Inr s' \<Longrightarrow> us_capture s' = us_capture s"
  "party_or_later_text dec stack v s = Inr s' \<Longrightarrow> us_capture s' = us_capture s"
  "value_text dec stack v s = Inr s' \<Longrightarrow> us_capture s' = us_capture s"
proof -
  show total: "us_capture s' = us_capture s" if "total_or_root_text dec stack v s = Inr s'" for s s'
    using that by (auto simp: total_or_root_text_def rbind_Inr_iff split: option.splits)
  show payment: "us_capture s' = us_capture s" if "payment_or_later_text dec stack v s = Inr s'" for s s'
    using that total by (auto simp: payment_or_later_text_def split: option.splits)
  show party: "us_capture s' = us_capture s" if "party_or_later_text dec stack v s = Inr s'" for s s'
  proof (cases "party_role stack")
    case None
    then show ?thesis using that payment by (simp add: party_or_later_text_def)
  next
    case (Some role)
    obtain s1 b where mut: "party_mut role s = (s1, b)" by fastforce
    then have "us_capture s1 = us_capture s" using party_keeps(1) [of role s] by simp
    then show ?thesis
      using that Some mut payment [of s1 s'] by (cases "party_text stack v b") (auto simp: party_or_later_text_def)
  qed
  show "us_capture s' = us_capture s" if "value_text dec stack v s = Inr s'"
    using that party by (auto simp: value_text_def rbind_Inr_iff split: option.splits if_splits)
qed

text \<open>A leaf is its text, looked at by the groups of the text handler.\<close>

definition raw_names :: "string list" where
  "raw_names = [''ItemClassificationCode'', ''TaxExemptionReasonCode'', ''TaxExemptionReason'']"

lemma path_ends_Cons: "path_ends (e # st) (ns @ [n]) \<longleftrightarrow> pe_name e = n \<and> path_ends st ns"
  by (auto simp: path_ends_def)

lemma path_ends_1 [simp]: "path_ends (e # st) [n] \<longleftrightarrow> pe_name e = n"
  by (auto simp: path_ends_def)

lemma path_ends_2 [simp]: "path_ends (e # st) [m, n] \<longleftrightarrow> pe_name e = n \<and> path_ends st [m]"
  by (cases st) (auto simp: path_ends_def)

lemma path_ends_3 [simp]: "path_ends (e # st) [l, m, n] \<longleftrightarrow> pe_name e = n \<and> path_ends st [l, m]"
  using path_ends_Cons [of e st "[l, m]" n] by simp

lemma run_leaf_std:
  assumes "us_capture s = None" "2 \<le> length stack" "n \<notin> set special_names" "n \<notin> set raw_names" "bare_text v"
  shows "tree_run dec stack s (UElem (std_elem p n) as [UText v]) = value_text dec (std_elem p n # stack) v s"
proof -
  have "raw_text (std_elem p n # stack) v s = None"
    using assms(4) by (auto simp: raw_text_def raw_names_def split: option.splits)
  then have t: "text_event dec (std_elem p n # stack) v s = value_text dec (std_elem p n # stack) v s"
    using assms(1,5) by (simp add: text_event_def bare_text_def)
  show ?thesis
  proof (cases "value_text dec (std_elem p n # stack) v s")
    case (Inr s')
    then have "us_capture s' = None" using later_capture(4) assms(1) by fastforce
    with Inr assms t show ?thesis by (simp add: start_other end_other)
  qed (use assms t in \<open>simp add: start_other\<close>)
qed

lemma run_leaf:
  assumes "us_capture s = None" "2 \<le> length stack" "n \<notin> set special_names" "n \<notin> set raw_names" "bare_text v"
  shows "tree_run dec stack s (cbc_with n as v) = value_text dec (std_elem ''cbc'' n # stack) v s"
    "tree_run dec stack s (cbc n v) = value_text dec (std_elem ''cbc'' n # stack) v s"
  using run_leaf_std [OF assms] by (simp_all add: cbc_def cbc_with_def)

section \<open>Parties\<close>

definition upd_party :: "party_role \<Rightarrow> (party_builder \<Rightarrow> party_builder) \<Rightarrow> 'd ubl_state \<Rightarrow> 'd ubl_state" where
  "upd_party role f s = (case party_mut role s of (s1, p) \<Rightarrow> party_put role (f p) s1)"

lemma upd_party_simps [simp]:
  "us_capture (upd_party role f s) = us_capture s" "us_line (upd_party role f s) = us_line s"
  "us_tax (upd_party role f s) = us_tax s" "us_payment (upd_party role f s) = us_payment s"
  "us_document_type (upd_party role f s) = us_document_type s"
  "us_extension_uri (upd_party role f s) = us_extension_uri s"
  "upd_party role g (upd_party role f s) = upd_party role (g \<circ> f) s"
  by (cases role; simp add: upd_party_def)+

text \<open>No builder is open: a text below a party goes to the party.\<close>

definition calm :: "'d ubl_state \<Rightarrow> bool" where
  "calm s \<longleftrightarrow> us_capture s = None \<and> us_line s = None \<and> us_tax s = None \<and> us_payment s = None"

lemma calm_upd [simp]: "calm (upd_party role f s) \<longleftrightarrow> calm s"
  by (simp add: calm_def)

definition below_party :: "party_role \<Rightarrow> parsed_element list \<Rightarrow> bool" where
  "below_party role stack \<longleftrightarrow> 2 \<le> length stack \<and> party_role stack = Some role \<and> \<not> in_any stack [''LegalMonetaryTotal'']"

definition role_names :: "string list" where
  "role_names = [''AccountingSupplierParty'', ''AccountingCustomerParty'', ''PayeeParty'', ''LegalMonetaryTotal'']"

lemma in_any_Cons [simp]: "in_any (e # st) ns \<longleftrightarrow> pe_name e \<in> set ns \<or> in_any st ns"
  by (simp add: in_any_def)

lemma below_party_Cons: "pe_name e \<notin> set role_names \<Longrightarrow> below_party role stack \<Longrightarrow> below_party role (e # stack)"
proof -
  assume "pe_name e \<notin> set role_names"
  then have "party_role (e # stack) = party_role stack" "\<not> in_any [e] [''LegalMonetaryTotal'']"
    by (simp_all add: party_role_def role_names_def in_any_def)
  then show "below_party role stack \<Longrightarrow> ?thesis" by (simp add: below_party_def in_any_def)
qed

lemma not_root_child: "2 \<le> length st \<Longrightarrow> \<not> is_root_child (e # st) c"
  by (cases st; cases "tl st") (simp_all add: is_root_child_def)

lemma root_text_below:
  assumes "2 \<le> length st" "\<not> path_ends st [''PaymentTerms'']" "pe_name e \<notin> {''TenantID'', ''TraceID'', ''SourceSystem''}"
  shows "root_text (e # st) v s = s"
proof -
  have "\<not> is_metadata_field s (e # st) k" if "k \<in> {''TenantID'', ''TraceID'', ''SourceSystem''}" for k
    using that assms(3) by (auto simp: is_metadata_field_def path_ends_ns_def is_element_def)
  then show ?thesis using assms(1,2) by (simp add: root_text_def not_root_child)
qed

lemma not_extension_uri: "n \<noteq> ''ExtensionURI'' \<Longrightarrow> \<not> path_ends_ns (std_elem p n # st) [(a, b), (''ExtensionURI'', c)]"
  by (cases st) (auto simp: path_ends_ns_def is_element_def)

definition leaf_names :: "string list" where
  "leaf_names = ''ExtensionURI'' # special_names @ raw_names @ role_names"

lemma party_leaf:
  assumes "calm s" "below_party role stack" "n \<notin> set leaf_names" "bare_text v"
    and f: "\<And>b. party_text (std_elem ''cbc'' n # stack) v b = Some (f b)"
  shows "tree_run dec stack s (cbc n v) = Inr (upd_party role f s)"
proof -
  let ?st = "std_elem ''cbc'' n # stack"
  have b: "below_party role ?st" using assms(2,3) by (intro below_party_Cons) (simp_all add: leaf_names_def)
  have "tree_run dec stack s (cbc n v) = value_text dec ?st v s"
    using assms by (intro run_leaf) (auto simp: calm_def below_party_def leaf_names_def)
  also have "\<dots> = party_or_later_text dec ?st v s"
    using assms(1,3) by (simp add: value_text_def not_extension_uri calm_def leaf_names_def)
  also have "\<dots> = Inr (upd_party role f s)"
    using b f by (simp add: party_or_later_text_def below_party_def upd_party_def split: prod.splits)
  finally show ?thesis .
qed

lemma upd_party_id: "upd_party role (\<lambda>b. b) s = fst (party_mut role s)"
  by (cases role; cases s; simp add: upd_party_def)

lemma party_mut_payment: "us_payment (fst (party_mut role s)) = us_payment s"
  by (cases role) simp_all

text \<open>A text no party takes leaves everything but the mark that there is a party.\<close>

lemma party_leaf_other:
  assumes "calm s" "below_party role stack" "n \<notin> set leaf_names" "bare_text v"
    and none: "\<And>b. party_text (std_elem ''cbc'' n # stack) v b = None"
    and root: "3 \<le> length stack" "\<not> path_ends stack [''PaymentTerms'']"
      "n \<noteq> ''TenantID''" "n \<noteq> ''TraceID''" "n \<noteq> ''SourceSystem''"
  shows "tree_run dec stack s (cbc n v) = Inr (upd_party role (\<lambda>b. b) s)"
proof -
  let ?st = "std_elem ''cbc'' n # stack"
  have b: "below_party role ?st" using assms(2,3) by (intro below_party_Cons) (simp_all add: leaf_names_def)
  obtain s1 p where mut: "party_mut role s = (s1, p)" by fastforce
  have s1: "us_payment s1 = None" "s1 = upd_party role (\<lambda>b. b) s"
    using assms(1) mut upd_party_id [of role s] party_mut_payment [of role s] by (simp_all add: calm_def)
  have "root_text ?st v s1 = s1"
    using root by (intro root_text_below) simp_all
  then have later: "payment_or_later_text dec ?st v s1 = Inr s1"
    using s1(1) b by (simp add: payment_or_later_text_def total_or_root_text_def below_party_def)
  have "tree_run dec stack s (cbc n v) = value_text dec ?st v s"
    using assms by (intro run_leaf) (auto simp: calm_def below_party_def leaf_names_def)
  also have "\<dots> = party_or_later_text dec ?st v s"
    using assms(1,3) by (simp add: value_text_def not_extension_uri calm_def leaf_names_def)
  also have "\<dots> = Inr (upd_party role (\<lambda>b. b) s)"
    using b none mut later s1(2) by (simp add: party_or_later_text_def below_party_def)
  finally show ?thesis .
qed

end
