(* ===== verification/Ubl_Party.thy ===== *)
theory Ubl_Party
  imports Ubl_Run
begin

text \<open>A party read back from its tree.\<close>

section \<open>The texts of a tree\<close>

fun tree_texts :: "ubl_tree \<Rightarrow> string list" and trees_texts :: "ubl_tree list \<Rightarrow> string list" where
  "tree_texts (UElem e as ts) = trees_texts ts"
| "tree_texts (UText v) = [v]"
| "trees_texts [] = []"
| "trees_texts (t # ts) = tree_texts t @ trees_texts ts"

definition all_plain :: "ubl_tree list \<Rightarrow> bool" where
  "all_plain ts \<longleftrightarrow> list_all bare_text (trees_texts ts)"

lemma trees_texts_append [simp]: "trees_texts (ts @ us) = trees_texts ts @ trees_texts us"
  by (induction ts) simp_all

lemma all_plain_simps [simp]:
  "all_plain []" "all_plain (ts @ us) \<longleftrightarrow> all_plain ts \<and> all_plain us"
  "all_plain (cac n ts # us) \<longleftrightarrow> all_plain ts \<and> all_plain us"
  "all_plain (cbc n v # us) \<longleftrightarrow> bare_text v \<and> all_plain us"
  "all_plain (cbc_with n as v # us) \<longleftrightarrow> bare_text v \<and> all_plain us"
  by (auto simp: all_plain_def cac_def cbc_def cbc_with_def)

lemma all_plain_Cons: "all_plain (t # ts) \<longleftrightarrow> all_plain [t] \<and> all_plain ts"
  by (auto simp: all_plain_def)

lemma all_plain_map [simp]: "all_plain (map f xs) \<longleftrightarrow> (\<forall>x \<in> set xs. all_plain [f x])"
  by (induction xs) (auto simp: all_plain_def)

lemma all_plain_opt [simp]: "all_plain (opt_tree f x) \<longleftrightarrow> (\<forall>v. x = Some v \<longrightarrow> all_plain [f v])"
  by (cases x) (auto simp: opt_tree_def)

lemma all_plain_first [simp]:
  "all_plain (t # u # ts) \<longleftrightarrow> all_plain [t] \<and> all_plain (u # ts)"
  "all_plain (t # map f xs) \<longleftrightarrow> all_plain [t] \<and> all_plain (map f xs)"
  "all_plain (t # us @ vs) \<longleftrightarrow> all_plain [t] \<and> all_plain (us @ vs)"
  "all_plain (t # opt_tree g x) \<longleftrightarrow> all_plain [t] \<and> all_plain (opt_tree g x)"
  by (rule all_plain_Cons)+

section \<open>The address\<close>

lemma in_party [simp]:
  "below_party role stack \<Longrightarrow> n \<notin> set role_names \<Longrightarrow> below_party role (std_elem p n # stack)"
  by (rule below_party_Cons) simp_all

lemmas name_sets = leaf_names_def special_names_def raw_names_def role_names_def

lemma below_length: "below_party role stack \<Longrightarrow> 2 \<le> length stack"
  by (simp add: below_party_def)

lemma container_in_party:
  assumes "calm s" "below_party role stack" "n \<notin> set leaf_names"
    "trees_run dec (std_elem ''cac'' n # stack) s ts = Inr (upd_party role f s)"
  shows "tree_run dec stack s (cac n ts) = Inr (upd_party role f s)"
  using assms by (intro run_cac) (auto simp: calm_def below_party_def leaf_names_def)

text \<open>The texts a party takes.\<close>

lemma party_leaves:
  assumes "calm s" "below_party role stack" "bare_text v"
  shows "tree_run dec stack s (cbc ''EndpointID'' v) = Inr (upd_party role (\<lambda>b. if pb_id b = None then b\<lparr>pb_id := Some v\<rparr> else b) s)"
    "tree_run dec (std_elem ''cac'' ''PartyIdentification'' # stack) s (cbc ''ID'' v)
       = Inr (upd_party role (\<lambda>b. if pb_id b = None then b\<lparr>pb_id := Some v\<rparr> else b) s)"
    "tree_run dec (std_elem ''cac'' ''PartyName'' # stack) s (cbc ''Name'' v) = Inr (upd_party role (\<lambda>b. b\<lparr>pb_name := Some v\<rparr>) s)"
    "tree_run dec (std_elem ''cac'' ''PartyLegalEntity'' # stack) s (cbc ''RegistrationName'' v)
       = Inr (upd_party role (\<lambda>b. b\<lparr>pb_name := Some v\<rparr>) s)"
    "tree_run dec (std_elem ''cac'' ''PartyTaxScheme'' # stack) s (cbc ''CompanyID'' v)
       = Inr (upd_party role (\<lambda>b. b\<lparr>pb_tax_ids := pb_tax_ids b @ [\<lparr>tax_scheme = ''vat'', tax_value = v\<rparr>]\<rparr>) s)"
    "tree_run dec (std_elem ''cac'' ''PostalAddress'' # stack) s (cbc ''StreetName'' v)
       = Inr (upd_party role (\<lambda>b. b\<lparr>pb_lines := pb_lines b @ [v]\<rparr>) s)"
    "tree_run dec (std_elem ''cac'' ''PostalAddress'' # stack) s (cbc ''AdditionalStreetName'' v)
       = Inr (upd_party role (\<lambda>b. b\<lparr>pb_lines := pb_lines b @ [v]\<rparr>) s)"
    "tree_run dec (std_elem ''cac'' ''PostalAddress'' # stack) s (cbc ''CityName'' v)
       = Inr (upd_party role (\<lambda>b. b\<lparr>pb_city := Some v\<rparr>) s)"
    "tree_run dec (std_elem ''cac'' ''PostalAddress'' # stack) s (cbc ''PostalZone'' v)
       = Inr (upd_party role (\<lambda>b. b\<lparr>pb_postal_code := Some v\<rparr>) s)"
    "tree_run dec (std_elem ''cac'' ''PostalAddress'' # stack) s (cbc ''CountrySubentity'' v)
       = Inr (upd_party role (\<lambda>b. b\<lparr>pb_subdivision := Some v\<rparr>) s)"
    "tree_run dec (std_elem ''cac'' ''Country'' # stack) s (cbc ''IdentificationCode'' v)
       = Inr (upd_party role (\<lambda>b. b\<lparr>pb_country := Some v\<rparr>) s)"
    "tree_run dec (std_elem ''cac'' ''Contact'' # stack) s (cbc ''Name'' v) = Inr (upd_party role (\<lambda>b. b\<lparr>pb_contact_name := Some v\<rparr>) s)"
    "tree_run dec (std_elem ''cac'' ''Contact'' # stack) s (cbc ''ElectronicMail'' v) = Inr (upd_party role (\<lambda>b. b\<lparr>pb_email := Some v\<rparr>) s)"
    "tree_run dec (std_elem ''cac'' ''Contact'' # stack) s (cbc ''Telephone'' v) = Inr (upd_party role (\<lambda>b. b\<lparr>pb_phone := Some v\<rparr>) s)"
    "tree_run dec (std_elem ''cac'' ''TaxScheme'' # stack) s (cbc ''ID'' v) = Inr (upd_party role (\<lambda>b. b) s)"
  using assms
  by ((intro party_leaf party_leaf_other; simp add: name_sets party_text_def below_length)+)

lemma street_lines:
  assumes "below_party role stack"
  shows "calm s \<Longrightarrow> list_all bare_text ls \<Longrightarrow>
    trees_run dec (std_elem ''cac'' ''PostalAddress'' # stack) (upd_party role f s) (map (cbc ''AdditionalStreetName'') ls)
      = Inr (upd_party role ((\<lambda>b. b\<lparr>pb_lines := pb_lines b @ ls\<rparr>) \<circ> f) s)"
  by (induction ls arbitrary: f) (simp_all add: party_leaves [OF _ assms] comp_def)

definition address_fill :: "postal_address \<Rightarrow> party_builder \<Rightarrow> party_builder" where
  "address_fill a b =
     b\<lparr>pb_lines := pb_lines b @ addr_lines a, pb_city := Some (addr_city a),
       pb_postal_code := Some (addr_postal_code a),
       pb_subdivision := (case addr_subdivision a of None \<Rightarrow> pb_subdivision b | Some v \<Rightarrow> Some v),
       pb_country := Some (country_str (addr_country a))\<rparr>"

lemma run_address:
  assumes "calm s" "below_party role stack" "all_plain [address_tree ''PostalAddress'' a]"
  shows "tree_run dec stack s (address_tree ''PostalAddress'' a) = Inr (upd_party role (address_fill a) s)"
proof -
  let ?st = "std_elem ''cac'' ''PostalAddress'' # stack"
  have b: "below_party role ?st" using assms(2) by (simp add: role_names_def)
  note leaves = party_leaves [OF _ assms(2)] party_leaves [OF _ b] street_lines [OF assms(2)]
  have p: "bare_text (addr_city a)" "bare_text (addr_postal_code a)" "bare_text (country_str (addr_country a))"
    "list_all bare_text (addr_lines a)" "\<And>v. addr_subdivision a = Some v \<Longrightarrow> bare_text v"
    using assms(3) by (auto simp: address_tree_def list_all_iff split: list.splits)
  have country: "tree_run dec ?st s' (cac ''Country'' [cbc ''IdentificationCode'' (country_str (addr_country a))])
      = Inr (upd_party role (\<lambda>b. b\<lparr>pb_country := Some (country_str (addr_country a))\<rparr>) s')" if "calm s'" for s'
    using that p(3) by (intro container_in_party [OF that b]) (simp_all add: leaves name_sets)
  have "trees_run dec ?st s ((case addr_lines a of [] \<Rightarrow> []
      | first # rest \<Rightarrow> cbc ''StreetName'' first # map (cbc ''AdditionalStreetName'') rest)
        @ [cbc ''CityName'' (addr_city a), cbc ''PostalZone'' (addr_postal_code a)]
        @ opt_tree (cbc ''CountrySubentity'') (addr_subdivision a)
        @ [cac ''Country'' [cbc ''IdentificationCode'' (country_str (addr_country a))]])
      = Inr (upd_party role (address_fill a) s)"
    using assms(1) p
    by (cases "addr_lines a"; cases "addr_subdivision a")
      (simp_all add: leaves country opt_tree_def comp_def address_fill_def [abs_def])
  then show ?thesis
    unfolding address_tree_def by (intro container_in_party [OF assms(1,2)]) (simp add: name_sets)
qed

definition contact_fill :: "contact option \<Rightarrow> party_builder \<Rightarrow> party_builder" where
  "contact_fill x b =
     (case x of
        None \<Rightarrow> b
      | Some c \<Rightarrow> b\<lparr>pb_contact_name := (case contact_name c of None \<Rightarrow> pb_contact_name b | v \<Rightarrow> v),
          pb_phone := (case contact_phone c of None \<Rightarrow> pb_phone b | v \<Rightarrow> v),
          pb_email := (case contact_email c of None \<Rightarrow> pb_email b | v \<Rightarrow> v)\<rparr>)"

lemma run_contact:
  assumes "calm s" "below_party role stack" "all_plain [contact_tree c]" "contact_given (Some c) = Some c"
  shows "tree_run dec stack s (contact_tree c) = Inr (upd_party role (contact_fill (Some c)) s)"
  unfolding contact_tree_def
proof (rule container_in_party [OF assms(1,2)])
  show "trees_run dec (std_elem ''cac'' ''Contact'' # stack) s
      (opt_tree (cbc ''Name'') (contact_name c) @ opt_tree (cbc ''Telephone'') (contact_phone c)
        @ opt_tree (cbc ''ElectronicMail'') (contact_email c)) = Inr (upd_party role (contact_fill (Some c)) s)"
    using assms(1,3,4)
    by (cases "contact_name c"; cases "contact_phone c"; cases "contact_email c")
      (simp_all add: contact_tree_def opt_tree_def party_leaves [OF _ assms(2)] comp_def contact_fill_def [abs_def]
        contact_given_def)
qed (simp add: name_sets)

lemma run_tax_ids:
  assumes "below_party role stack"
  shows "calm s \<Longrightarrow> all_plain (map tax_id_tree ts) \<Longrightarrow>
    trees_run dec stack (upd_party role f s) (map tax_id_tree ts)
      = Inr (upd_party role ((\<lambda>b. b\<lparr>pb_tax_ids := pb_tax_ids b @ map (\<lambda>t. \<lparr>tax_scheme = ''vat'', tax_value = tax_value t\<rparr>) ts\<rparr>) \<circ> f) s)"
proof (induction ts arbitrary: f)
  case Nil
  then show ?case by (simp add: comp_def)
next
  case (Cons t ts)
  let ?st = "std_elem ''cac'' ''PartyTaxScheme'' # stack"
  have b: "below_party role ?st" using assms by (simp add: role_names_def)
  have scheme: "tree_run dec ?st s' (tax_scheme_tree (tax_scheme t)) = Inr (upd_party role (\<lambda>b. b) s')" if "calm s'" for s'
    unfolding tax_scheme_tree_def using that Cons.prems(2)
    by (intro container_in_party [OF that b]) (simp_all add: party_leaves [OF _ b] name_sets tax_id_tree_def tax_scheme_tree_def)
  have "tree_run dec stack (upd_party role f s) (tax_id_tree t)
      = Inr (upd_party role (\<lambda>b. b\<lparr>pb_tax_ids := pb_tax_ids b @ [\<lparr>tax_scheme = ''vat'', tax_value = tax_value t\<rparr>]\<rparr>) (upd_party role f s))"
    unfolding tax_id_tree_def
    by (rule container_in_party)
      (use Cons.prems assms in \<open>simp_all add: party_leaves [OF _ assms] scheme name_sets tax_id_tree_def comp_def\<close>)
  then show ?case using Cons by (simp add: comp_def)
qed

text \<open>The whole party.\<close>

definition party_fill :: "party \<Rightarrow> party_builder \<Rightarrow> party_builder" where
  "party_fill p b =
     contact_fill (contact_given (party_contact p))
       ((address_fill (party_address p) b)\<lparr>
          pb_id := (case pb_id b of None \<Rightarrow> party_id p | v \<Rightarrow> v), pb_name := Some (party_name p),
          pb_tax_ids := pb_tax_ids b @ map (\<lambda>t. \<lparr>tax_scheme = ''vat'', tax_value = tax_value t\<rparr>) (party_tax_ids p)\<rparr>)"

lemma upd_party_cong: "(\<And>b. f b = g b) \<Longrightarrow> upd_party role f s = upd_party role g s"
  by (simp add: upd_party_def)

lemma run_party:
  assumes "calm s" "below_party role stack" "all_plain (party_trees p)"
  shows "trees_run dec stack s (party_trees p) = Inr (upd_party role (party_fill p) s)"
proof -
  note leaves = party_leaves [OF _ assms(2)]
  have ident: "tree_run dec stack s' (cac ''PartyIdentification'' [cbc ''ID'' v])
      = Inr (upd_party role (\<lambda>b. if pb_id b = None then b\<lparr>pb_id := Some v\<rparr> else b) s')" if "calm s'" "bare_text v" for s' v
    using that by (intro container_in_party [OF that(1) assms(2)]) (simp_all add: leaves name_sets)
  have name: "tree_run dec stack s' (cac ''PartyName'' [cbc ''Name'' v]) = Inr (upd_party role (\<lambda>b. b\<lparr>pb_name := Some v\<rparr>) s')"
    "tree_run dec stack s' (cac ''PartyLegalEntity'' [cbc ''RegistrationName'' v]) = Inr (upd_party role (\<lambda>b. b\<lparr>pb_name := Some v\<rparr>) s')"
    if "calm s'" "bare_text v" for s' v
    using that by (intro container_in_party [OF that(1) assms(2)]; simp add: leaves name_sets)+
  have contact: "trees_run dec stack (upd_party role f s') (opt_tree contact_tree (contact_given (party_contact p)))
      = Inr (upd_party role (contact_fill (contact_given (party_contact p)) \<circ> f) s')" if "calm s'" for s' f
  proof (cases "contact_given (party_contact p)")
    case (Some c)
    then have "contact_given (Some c) = Some c"
      by (auto simp: contact_given_def bind_eq_Some_conv split: if_splits)
    moreover have "all_plain [contact_tree c]" using assms(3) Some by (simp add: party_trees_def)
    ultimately show ?thesis using that Some by (simp add: run_contact [OF _ assms(2)] opt_tree_def rbind_right)
  next
    case None
    then show ?thesis by (simp add: opt_tree_def contact_fill_def [abs_def] comp_def)
  qed
  have bare_text: "all_plain [address_tree ''PostalAddress'' (party_address p)]" "all_plain (map tax_id_tree (party_tax_ids p))"
    "bare_text (party_name p)" "\<And>v. party_id p = Some v \<Longrightarrow> bare_text v"
    using assms(3) by (auto simp: party_trees_def split: option.splits)
  show ?thesis
    using assms(1) bare_text(3,4)
    by (cases "party_id p")
      (simp_all add: party_trees_def leaves ident name contact run_address [OF _ assms(2) bare_text(1)]
        run_tax_ids [OF assms(2) _ bare_text(2)], 
       (rule upd_party_cong, rename_tac b, case_tac b, simp add: party_fill_def address_fill_def split: option.split)+)
qed

end
