(* ===== verification/Ubl_Parts.thy ===== *)
theory Ubl_Parts
  imports Ubl_Party
begin

text \<open>The parts of a document below its root, each run by the parser.\<close>

section \<open>The top level\<close>

definition kept_name :: "ubl_document_kind \<Rightarrow> string \<Rightarrow> bool" where
  "kept_name k q \<longleftrightarrow> (case coverage_for k q of
       None \<Rightarrow> False
     | Some row \<Rightarrow> uc_class row \<in> {ProfileExtensionPayload, LossinessLedgerPreserved, UblDocumentFieldExtension, UnsupportedGap})"

definition core_names :: "string list" where
  "core_names =
     [''ext:UBLExtensions'', ''cbc:ID'', ''cbc:UUID'', ''cbc:IssueDate'', ''cbc:DueDate'', ''cbc:InvoiceTypeCode'',
      ''cbc:CreditNoteTypeCode'', ''cbc:Note'', ''cbc:TaxPointDate'', ''cbc:DocumentCurrencyCode'',
      ''cac:AccountingSupplierParty'', ''cac:AccountingCustomerParty'', ''cac:PayeeParty'', ''cac:PaymentMeans'',
      ''cac:PaymentTerms'', ''cac:TaxTotal'', ''cac:LegalMonetaryTotal'', ''cac:InvoiceLine'', ''cac:CreditNoteLine'']"

definition fragment_names :: "string list" where
  "fragment_names =
     [''cbc:CustomizationID'', ''cbc:ProfileID'', ''cac:InvoicePeriod'', ''cac:OrderReference'', ''cac:BillingReference'',
      ''cac:DespatchDocumentReference'', ''cac:ReceiptDocumentReference'', ''cac:ContractDocumentReference'',
      ''cac:Delivery'', ''cac:AllowanceCharge'']"

lemma core_not_kept: "list_all (\<lambda>q. \<not> kept_name k q) core_names"
  by (cases k) (hypsubst, code_simp)+

lemma fragments_kept: "list_all (kept_name k) fragment_names"
  by (cases k) (hypsubst, code_simp)+

lemma preserve_std:
  assumes "p \<in> all_prefixes"
  shows "should_preserve_top_level [r] (std_elem p n) k \<longleftrightarrow>
    p @ '':'' @ n \<noteq> ''cbc:AccountingCost'' \<and> p @ '':'' @ n \<noteq> ''cbc:BuyerReference'' \<and> kept_name k (p @ '':'' @ n)"
  using std_elem_facts(3) [OF assms, of n] by (simp add: should_preserve_top_level_def kept_name_def)

lemma core_not_preserved:
  "p \<in> all_prefixes \<Longrightarrow> p @ '':'' @ n \<in> set core_names \<Longrightarrow> \<not> should_preserve_top_level [r] (std_elem p n) k"
  using core_not_kept [of k] by (simp add: preserve_std list_all_iff)

lemma start_top:
  assumes "us_capture s = None" "p \<in> all_prefixes" "p @ '':'' @ n \<in> set core_names"
  shows "start_element [r] (std_elem p n) as s = Inr (start_open [r] (std_elem p n) as s)"
  using assms core_not_preserved by (simp add: start_element_def start_root_def split: option.splits)

lemma start_open_other:
  assumes "n \<notin> set special_names" "n \<noteq> ''Note''"
  shows "start_open [r] (std_elem p n) as s = s"
proof -
  have "map_option (line_start [r] n as) (us_line s) = us_line s"
    by (rule map_option_same) (rule line_start_other [OF assms(1)])
  then show ?thesis using assms by (simp add: start_open_def is_element_def special_names_def Let_def)
qed

text \<open>A root of the two kinds.\<close>

definition plain_root :: "parsed_element \<Rightarrow> bool" where
  "plain_root r \<longleftrightarrow> pe_name r = ''Invoice'' \<or> pe_name r = ''CreditNote''"

lemma root_no_role: "plain_root r \<Longrightarrow> pe_name r \<notin> set role_names \<and> pe_name r \<noteq> ''PaymentTerms''"
  by (auto simp: plain_root_def role_names_def)

lemma role_of_path [simp]:
  "party_role [] = None"
  "pe_name e \<notin> set role_names \<Longrightarrow> party_role (e # st) = party_role st"
  "in_any [] ns \<longleftrightarrow> False"
  by (simp_all add: party_role_def role_names_def in_any_def)

lemma container_top:
  assumes "us_capture s = None" "''cac:'' @ n \<in> set core_names" "n \<notin> set special_names" "n \<noteq> ''Note''"
    "trees_run dec [std_elem ''cac'' n, r] s ts = Inr s'" "us_capture s' = None"
  shows "tree_run dec [r] s (cac n ts) = Inr s'"
  using assms by (simp add: cac_def start_top start_open_other end_other)

lemma quiet_text:
  assumes "calm s" "pe_name e \<noteq> ''ExtensionURI''" "pe_name e \<notin> set role_names" "party_role st = None"
    "\<not> in_any st [''LegalMonetaryTotal'']"
  shows "value_text dec (e # st) v s = Inr (root_text (e # st) v s)"
proof -
  have "\<not> path_ends_ns (e # st) [(''UBLExtension'', ns_ext), (''ExtensionURI'', ns_ext)]"
    using assms(2) by (cases st) (auto simp: path_ends_ns_def is_element_def)
  then show ?thesis
    using assms by (simp add: value_text_def calm_def party_or_later_text_def payment_or_later_text_def
        total_or_root_text_def role_names_def)
qed

lemma leaf_top:
  assumes "calm s" "plain_root r" "''cbc:'' @ n \<in> set core_names" "n \<notin> set leaf_names" "n \<noteq> ''Note''" "bare_text v"
  shows "tree_run dec [r] s (cbc n v) = Inr (root_text [std_elem ''cbc'' n, r] v s)"
proof -
  have c: "us_capture s = None" using assms(1) by (simp add: calm_def)
  have "raw_text [std_elem ''cbc'' n, r] v s = None"
    using assms(4) by (auto simp: raw_text_def name_sets split: option.splits)
  then have "text_event dec [std_elem ''cbc'' n, r] v s = value_text dec [std_elem ''cbc'' n, r] v s"
    using c assms(6) by (simp add: text_event_def bare_text_def)
  also have "\<dots> = Inr (root_text [std_elem ''cbc'' n, r] v s)"
    using assms(1,4) root_no_role [OF assms(2)] by (intro quiet_text) (auto simp: name_sets)
  finally show ?thesis
    using assms(3-5) c by (simp add: cbc_def start_top start_open_other end_other leaf_names_def)
qed

lemma root_child_pair [simp]: "is_root_child [e, r] c \<longleftrightarrow> pe_name e = c"
  by (simp add: is_root_child_def)

lemma header_leaves:
  assumes "calm s" "plain_root r" "bare_text v"
  shows "tree_run dec [r] s (cbc ''ID'' v) = Inr (s\<lparr>us_document_number := Some v\<rparr>)"
    "tree_run dec [r] s (cbc ''UUID'' v) = Inr (s\<lparr>us_document_id := Some v\<rparr>)"
    "tree_run dec [r] s (cbc ''IssueDate'' v) = Inr (s\<lparr>us_issue_date := Some v\<rparr>)"
    "tree_run dec [r] s (cbc ''TaxPointDate'' v) = Inr (s\<lparr>us_tax_point_date := Some v\<rparr>)"
    "tree_run dec [r] s (cbc ''DueDate'' v) = Inr (s\<lparr>us_due_date := Some v\<rparr>)"
    "tree_run dec [r] s (cbc ''DocumentCurrencyCode'' v) = Inr (s\<lparr>us_currency := Some v\<rparr>)"
  using assms by (simp_all add: leaf_top core_names_def name_sets root_text_def)

lemma type_code_leaves:
  assumes "calm s" "plain_root r" "bare_text v" "n = ''InvoiceTypeCode'' \<or> n = ''CreditNoteTypeCode''"
  shows "tree_run dec [r] s (cbc n v) = Inr s"
proof -
  have "\<not> is_metadata_field s [std_elem ''cbc'' n, r] k" for k
    by (simp add: is_metadata_field_def path_ends_ns_def)
  with assms show ?thesis
    by (auto simp: leaf_top core_names_def name_sets root_text_def)
qed

lemma run_note:
  assumes "calm s" "plain_root r" "bare_text (ls_text n)"
  shows "tree_run dec [r] s (note_tree n) = Inr (s\<lparr>us_note_language := Some (ls_language n), us_notes := us_notes s @ [n]\<rparr>)"
proof -
  let ?as = "[(''languageID'', ls_language n)]" and ?e = "std_elem ''cbc'' ''Note''"
  let ?s = "s\<lparr>us_note_language := Some (ls_language n)\<rparr>"
  have c: "us_capture s = None" "us_line s = None" using assms(1) by (simp_all add: calm_def)
  have start: "start_element [r] ?e ?as s = Inr ?s"
    using c by (simp add: start_top core_names_def start_open_def is_element_def Let_def attr_value_def)
  have "raw_text [?e, r] (ls_text n) ?s = None" by (auto simp: raw_text_def split: option.splits)
  then have "text_event dec [?e, r] (ls_text n) ?s = value_text dec [?e, r] (ls_text n) ?s"
    using c assms(3) by (simp add: text_event_def bare_text_def)
  also have "\<dots> = Inr (root_text [?e, r] (ls_text n) ?s)"
    using assms(1) root_no_role [OF assms(2)] by (intro quiet_text) (auto simp: name_sets calm_def)
  finally show ?thesis
    using start c by (cases n) (simp add: note_tree_def cbc_with_def root_text_def end_other special_names_def)
qed

lemma run_notes:
  assumes "plain_root r"
  shows "calm s \<Longrightarrow> all_plain (map note_tree ns) \<Longrightarrow>
    \<exists>l. trees_run dec [r] s (map note_tree ns) = Inr (s\<lparr>us_note_language := l, us_notes := us_notes s @ ns\<rparr>)"
proof (induction ns arbitrary: s)
  case Nil
  show ?case by (intro exI [of _ "us_note_language s"]) simp
next
  case (Cons n ns)
  let ?s = "s\<lparr>us_note_language := Some (ls_language n), us_notes := us_notes s @ [n]\<rparr>"
  have "bare_text (ls_text n)" using Cons.prems(2) by (simp add: note_tree_def)
  moreover obtain l where "trees_run dec [r] ?s (map note_tree ns) = Inr (?s\<lparr>us_note_language := l, us_notes := us_notes ?s @ ns\<rparr>)"
    using Cons.IH [of ?s] Cons.prems by (auto simp: calm_def)
  ultimately show ?case using Cons.prems(1) by (intro exI [of _ l]) (simp add: run_note assms)
qed

lemma run_terms:
  assumes "calm s" "plain_root r" "all_plain [terms_tree t]"
  shows "tree_run dec [r] s (terms_tree t) = Inr (s\<lparr>us_terms := Some (terms_description t)\<rparr>)"
proof -
  have c: "us_capture s = None" using assms(1) by (simp add: calm_def)
  have v: "bare_text (terms_description t)" using assms(3) by (simp add: terms_tree_def)
  have "tree_run dec [std_elem ''cac'' ''PaymentTerms'', r] s (cbc ''Note'' (terms_description t))
      = value_text dec [std_elem ''cbc'' ''Note'', std_elem ''cac'' ''PaymentTerms'', r] (terms_description t) s"
    using c v by (intro run_leaf) (simp_all add: name_sets)
  also have "\<dots> = Inr (root_text [std_elem ''cbc'' ''Note'', std_elem ''cac'' ''PaymentTerms'', r] (terms_description t) s)"
    using assms(1) root_no_role [OF assms(2)] by (intro quiet_text) (auto simp: name_sets)
  finally show ?thesis
    unfolding terms_tree_def using c
    by (intro container_top) (simp_all add: core_names_def name_sets root_text_def not_root_child)
qed

end
