(* ===== verification/Ubl_Capture.thy ===== *)
theory Ubl_Capture
  imports Ubl_Parts
begin

text \<open>
  Top-level elements outside the document model, kept as their texts, and the settlement of a document:
  payment means, tax totals, monetary totals.
\<close>

section \<open>Fragments\<close>

lemma start_tag_text:
  assumes "p \<in> all_prefixes"
  shows "ubl_start_element (std_elem p n) as
    = Inr (''<'' @ (p @ '':'' @ n) @ concat (map attr_text as) @ ''>'')"
proof -
  have "(\<lambda>(k, v). '' '' @ k @ [CHR ''='', CHR 0x22] @ ubl_xml_attr v @ [CHR 0x22]) = attr_text"
    by (auto simp: attr_text_def ubl_xml_attr_def)
  then show ?thesis by (simp add: ubl_start_element_def std_elem_facts [OF assms])
qed

lemma capture_tree:
  "utree_ok t \<Longrightarrow> stack \<noteq> [] \<Longrightarrow> us_capture s = Some c \<Longrightarrow> 0 < cap_depth c \<Longrightarrow>
     tree_run dec stack s t = Inr (s\<lparr>us_capture := Some (c\<lparr>cap_xml := cap_xml c @ tree_text t\<rparr>)\<rparr>)"
  "utrees_ok b ts \<Longrightarrow> stack \<noteq> [] \<Longrightarrow> us_capture s = Some c \<Longrightarrow> 0 < cap_depth c \<Longrightarrow>
     trees_run dec stack s ts = Inr (s\<lparr>us_capture := Some (c\<lparr>cap_xml := cap_xml c @ trees_text ts\<rparr>)\<rparr>)"
proof (induction t and b ts arbitrary: stack s c and stack s c rule: utree_ok_utrees_ok.induct)
  case (1 e as ts)
  then obtain p where p: "p \<in> all_prefixes" "e = std_elem p (pe_name e)" by auto
  let ?c = "c\<lparr>cap_xml := cap_xml c @ ''<'' @ (p @ '':'' @ pe_name e) @ concat (map attr_text as) @ ''>'', cap_depth := cap_depth c + 1\<rparr>"
  have open_tag: "ubl_start_element e as = Inr (''<'' @ (p @ '':'' @ pe_name e) @ concat (map attr_text as) @ ''>'')"
    by (subst (1 2) p(2)) (simp add: start_tag_text [OF p(1)])
  have "start_element stack e as s = Inr (s\<lparr>us_capture := Some ?c\<rparr>)"
    using 1(3,4) open_tag by (simp add: start_element_def start_root_def capture_start_def)
  moreover have "trees_run dec (e # stack) (s\<lparr>us_capture := Some ?c\<rparr>) ts
      = Inr (s\<lparr>us_capture := Some (?c\<lparr>cap_xml := cap_xml ?c @ trees_text ts\<rparr>)\<rparr>)"
    using 1(1) [where c = ?c] 1(2) by simp
  moreover have "ubl_element_qname e = Inr (p @ '':'' @ pe_name e)"
    by (subst (1 2) p(2)) (simp add: std_elem_facts [OF p(1)])
  moreover have "tree_text (UElem e as ts) = ''<'' @ (p @ '':'' @ pe_name e) @ concat (map attr_text as) @ ''>''
      @ trees_text ts @ close_tag (p @ '':'' @ pe_name e)"
    by (subst (1 2 3) p(2)) (simp add: std_tree_text [OF p(1)])
  ultimately show ?case using 1(5) by (simp add: end_element_def capture_end_def close_tag_def)
next
  case (2 v)
  then show ?case by (simp add: text_event_def capture_text_def)
next
  case (3 b)
  then show ?case by (cases s; cases c) simp
next
  case (4 b t ts)
  then show ?case by simp
qed

definition fragment_of :: "ubl_tree \<Rightarrow> preserved_xml" where
  "fragment_of t =
     \<lparr>pv_element = (case t of UElem e _ _ \<Rightarrow> elem_qname e | UText _ \<Rightarrow> []), pv_xml = tree_text t\<rparr>"

definition fragment_tree :: "ubl_document_kind \<Rightarrow> ubl_tree \<Rightarrow> bool" where
  "fragment_tree k t \<longleftrightarrow> utree_ok t
     \<and> (case t of UElem e _ _ \<Rightarrow> kept_name k (elem_qname e) \<and> elem_qname e \<noteq> ''cbc:AccountingCost''
          \<and> elem_qname e \<noteq> ''cbc:BuyerReference'' | UText _ \<Rightarrow> False)"

lemma run_fragment:
  assumes "us_capture s = None" "Option.bind (us_document_type s) document_kind_from_type = Some k" "fragment_tree k t"
  shows "tree_run dec [r] s t = Inr (s\<lparr>us_preserved := us_preserved s @ [fragment_of t]\<rparr>)"
proof -
  obtain e as ts where t: "t = UElem e as ts" using assms(3) by (cases t) (auto simp: fragment_tree_def)
  then obtain p where p: "p \<in> all_prefixes" "e = std_elem p (pe_name e)" using assms(3) by (auto simp: fragment_tree_def)
  obtain n where e: "e = std_elem p n" using p(2) by blast
  have q: "elem_qname e = p @ '':'' @ n" using e std_elem_facts(4) [OF p(1)] by simp
  let ?open = "''<'' @ (p @ '':'' @ n) @ concat (map attr_text as) @ ''>''"
  let ?c = "\<lparr>cap_element = p @ '':'' @ n, cap_xml = ?open, cap_depth = 1\<rparr>"
  have "should_preserve_top_level [r] e k"
    using assms(3) t q e by (simp add: fragment_tree_def preserve_std [OF p(1)])
  then have start: "start_element [r] e as s = Inr (s\<lparr>us_capture := Some ?c\<rparr>)"
    using assms(1,2) e
    by (simp add: start_element_def start_root_def capture_new_def capture_start_def start_tag_text [OF p(1)]
        std_elem_facts [OF p(1)])
  have body: "trees_run dec [e, r] (s\<lparr>us_capture := Some ?c\<rparr>) ts
      = Inr (s\<lparr>us_capture := Some (?c\<lparr>cap_xml := cap_xml ?c @ trees_text ts\<rparr>)\<rparr>)"
    using capture_tree(2) [of False ts "[e, r]" "s\<lparr>us_capture := Some ?c\<rparr>" ?c dec] assms(3) t by (simp add: fragment_tree_def)
  have "tree_text t = ?open @ trees_text ts @ close_tag (p @ '':'' @ n)"
    using t e std_tree_text [OF p(1)] by simp
  then show ?thesis
    using t e start body q assms(1)
    by (cases s) (simp add: end_element_def capture_end_def capture_finish_def fragment_of_def std_elem_facts [OF p(1)] close_tag_def)
qed

lemma run_fragments:
  "us_capture s = None \<Longrightarrow> Option.bind (us_document_type s) document_kind_from_type = Some k \<Longrightarrow>
     list_all (fragment_tree k) ts \<Longrightarrow> trees_run dec [r] s ts = Inr (s\<lparr>us_preserved := us_preserved s @ map fragment_of ts\<rparr>)"
  by (induction ts arbitrary: s) (simp_all add: run_fragment)

end
