(* ===== verification/Ubl_Settle.thy ===== *)
theory Ubl_Settle
  imports Ubl_Capture
begin

text \<open>The settlement of a document: payment means, tax totals, monetary totals, and the metadata.\<close>

section \<open>Elements with no effect\<close>

lemma trees_idle: "list_all (\<lambda>t. tree_run dec st s t = Inr s) ts \<Longrightarrow> trees_run dec st s ts = Inr s"
  by (induction ts) simp_all

lemma list_all_opt [simp]: "list_all P (opt_tree f x) \<longleftrightarrow> (case x of None \<Rightarrow> True | Some v \<Rightarrow> P (f v))"
  by (cases x) (simp_all add: opt_tree_def)

text \<open>Leaves below one container below the root, outside of every party.\<close>

definition inner :: "parsed_element list \<Rightarrow> bool" where
  "inner stack \<longleftrightarrow> 2 \<le> length stack \<and> party_role stack = None"

lemma inner_Cons [simp]: "pe_name e \<notin> set role_names \<Longrightarrow> inner st \<Longrightarrow> inner (e # st)"
  by (simp add: inner_def)

lemma inner_top: "pe_name e \<notin> {''AccountingSupplierParty'', ''AccountingCustomerParty'', ''PayeeParty''} \<Longrightarrow> plain_root r \<Longrightarrow> inner [e, r]"
  using root_no_role [of r] by (auto simp: inner_def party_role_def role_names_def)

lemma leaf_value:
  assumes "us_capture s = None" "inner stack" "n \<notin> set leaf_names" "bare_text v"
  shows "tree_run dec stack s (cbc_with n as v) =
     (case Option.bind (us_line s) (line_text dec (std_elem ''cbc'' n # stack) v) of
        Some r \<Rightarrow> rbind r (\<lambda>l. Inr (s\<lparr>us_line := Some l\<rparr>))
      | None \<Rightarrow>
          (case Option.bind (us_tax s) (tax_text dec (std_elem ''cbc'' n # stack) v) of
             Some r \<Rightarrow> rbind r (\<lambda>t. Inr (s\<lparr>us_tax := Some t\<rparr>))
           | None \<Rightarrow> payment_or_later_text dec (std_elem ''cbc'' n # stack) v s))"
proof -
  have "party_role (std_elem ''cbc'' n # stack) = None"
    using assms(2,3) by (simp add: inner_def leaf_names_def)
  then have "party_or_later_text dec (std_elem ''cbc'' n # stack) v s = payment_or_later_text dec (std_elem ''cbc'' n # stack) v s"
    by (simp add: party_or_later_text_def)
  moreover have "tree_run dec stack s (cbc_with n as v) = value_text dec (std_elem ''cbc'' n # stack) v s"
    using assms by (intro run_leaf) (simp_all add: inner_def leaf_names_def)
  ultimately show ?thesis
    using assms(3) by (simp add: value_text_def not_extension_uri leaf_names_def cong: option.case_cong)
qed

lemma cbc_as_with: "cbc n v = cbc_with n [] v"
  by (simp add: cbc_def cbc_with_def)

lemmas leaf_values = leaf_value leaf_value [where as = "[]", folded cbc_as_with]

section \<open>Payment means\<close>

lemma path_ends_Nil [simp]: "path_ends st []"
  by (simp add: path_ends_def)

definition payment_core :: "payment_instruction \<Rightarrow> payment_instruction option" where
  "payment_core p = payment_build \<lparr>yb_account = pi_account p, yb_reference = pi_reference p\<rparr>"

definition add_payment :: "payment_instruction \<Rightarrow> 'd ubl_state \<Rightarrow> 'd ubl_state" where
  "add_payment p s = (case payment_core p of
     Some q \<Rightarrow> s\<lparr>us_payments := us_payments s @ [q]\<rparr> | None \<Rightarrow> s\<lparr>us_dropped := us_dropped s + 1\<rparr>)"

lemma start_payment:
  assumes "us_capture s = None"
  shows "start_element [r] (std_elem ''cac'' ''PaymentMeans'') [] s = Inr (s\<lparr>us_payment := Some payment_builder_new\<rparr>)"
proof -
  have "map_option (line_start [r] ''PaymentMeans'' []) (us_line s) = us_line s"
    by (rule map_option_same) (simp add: line_start_def)
  then show ?thesis using assms by (cases s) (simp add: start_top core_names_def start_open_def is_element_def Let_def)
qed

lemma run_payment:
  assumes "calm s" "plain_root r" "all_plain [payment_tree p]"
  shows "tree_run dec [r] s (payment_tree p) = Inr (add_payment p s)"
proof -
  let ?e = "std_elem ''cac'' ''PaymentMeans''"
  let ?s = "\<lambda>b. s\<lparr>us_payment := Some b\<rparr>"
  have c: "us_capture s = None" "us_line s = None" "us_tax s = None" "us_payment s = None"
    using assms(1) by (simp_all add: calm_def)
  have inn: "inner [?e, r]" "inner [std_elem ''cac'' ''PayeeFinancialAccount'', ?e, r]"
    using inner_top [of ?e r] assms(2) by (simp_all add: role_names_def)
  have code: "tree_run dec [?e, r] (?s b) (cbc ''PaymentMeansCode'' v) = Inr (?s b)" if "bare_text v" for v b
    using that c root_no_role [OF assms(2)]
    by (simp add: leaf_values inn name_sets payment_or_later_text_def payment_text_def total_or_root_text_def root_text_below)
  have ident: "tree_run dec [?e, r] (?s b) (cbc ''PaymentID'' v) = Inr (?s (b\<lparr>yb_reference := Some v\<rparr>))" if "bare_text v" for v b
    using that c by (simp add: leaf_values inn name_sets payment_or_later_text_def payment_text_def)
  have account: "tree_run dec [?e, r] (?s b) (cac ''PayeeFinancialAccount'' [cbc ''ID'' v]) = Inr (?s (b\<lparr>yb_account := Some v\<rparr>))"
    if "bare_text v" for v b
    using that c by (intro run_cac) (simp_all add: leaf_values inn name_sets payment_or_later_text_def payment_text_def)
  have code_plain: "bare_text (means_code (pi_kind p))" using assms(3) by (simp add: payment_tree_def)
  have "trees_run dec [?e, r] (?s payment_builder_new)
      (cbc ''PaymentMeansCode'' (means_code (pi_kind p)) # opt_tree (cbc ''PaymentID'') (pi_reference p)
        @ opt_tree (\<lambda>a. cac ''PayeeFinancialAccount'' [cbc ''ID'' a]) (pi_account p))
      = Inr (?s \<lparr>yb_account = pi_account p, yb_reference = pi_reference p\<rparr>)"
    using assms(3)
    by (cases "pi_reference p"; cases "pi_account p")
      (simp_all add: payment_tree_def code_plain code ident account payment_builder_new_def opt_tree_def)
  moreover have "end_element ?e (?s b) = Inr (case payment_build b of
      Some q \<Rightarrow> s\<lparr>us_payments := us_payments s @ [q]\<rparr> | None \<Rightarrow> s\<lparr>us_dropped := us_dropped s + 1\<rparr>)" for b
    using c by (cases s) (simp add: end_element_def end_line_def end_tax_def end_payment_def is_element_def split: option.split)
  ultimately show ?thesis
    using c by (simp add: payment_tree_def cac_def start_payment add_payment_def payment_core_def)
qed

lemma add_payment_simps [simp]:
  "us_capture (add_payment p s) = us_capture s" "us_line (add_payment p s) = us_line s"
  "us_tax (add_payment p s) = us_tax s" "us_payment (add_payment p s) = us_payment s"
  "us_document_type (add_payment p s) = us_document_type s" "calm (add_payment p s) \<longleftrightarrow> calm s"
  by (simp_all add: add_payment_def calm_def split: option.split)

lemma run_payments:
  assumes "plain_root r"
  shows "calm s \<Longrightarrow> all_plain (map payment_tree ps) \<Longrightarrow>
    trees_run dec [r] s (map payment_tree ps)
      = Inr (s\<lparr>us_payments := us_payments s @ List.map_filter payment_core ps,
          us_dropped := us_dropped s + length (filter (\<lambda>p. payment_core p = None) ps)\<rparr>)"
proof (induction ps arbitrary: s)
  case Nil
  then show ?case by (cases s) simp
next
  case (Cons p ps)
  then show ?case
    using run_payment [OF _ assms, of s p dec]
    by (simp add: List.map_filter_simps) (simp add: add_payment_def split: option.split)
qed

section \<open>Monetary totals\<close>

lemma total_leaf:
  assumes "calm s" "plain_root r" "n \<notin> set leaf_names" "bare_text v"
    "totals_text dec [std_elem ''cbc'' n, std_elem ''cac'' ''LegalMonetaryTotal'', r] v (us_total s) = Some (Inr t)"
  shows "tree_run dec [std_elem ''cac'' ''LegalMonetaryTotal'', r] s (cbc_with n as v) = Inr (s\<lparr>us_total := t\<rparr>)"
  using assms inner_top [of "std_elem ''cac'' ''LegalMonetaryTotal''" r]
  by (simp add: leaf_values calm_def payment_or_later_text_def total_or_root_text_def)

text \<open>Amounts read back.\<close>

definition reads_decimals :: "'d decimal_ops \<Rightarrow> (string \<Rightarrow> 'd option) \<Rightarrow> bool" where
  "reads_decimals ops dec \<longleftrightarrow> (\<forall>x. dec (dop_to_string ops x) = Some x)"

lemma reads_decimal [simp]: "reads_decimals ops dec \<Longrightarrow> ubl_decimal dec path (dop_to_string ops x) = Inr (Some x)"
  by (simp add: reads_decimals_def ubl_decimal_def)

definition total_fill :: "'d monetary_total \<Rightarrow> 'd total_builder" where
  "total_fill t =
     \<lparr>tb_line_extension = Some (mt_line_extension_amount t), tb_tax_exclusive = Some (mt_tax_exclusive_amount t),
      tb_tax_inclusive = Some (mt_tax_inclusive_amount t), tb_allowance_total = mt_allowance_total_amount t,
      tb_charge_total = mt_charge_total_amount t, tb_prepaid = mt_prepaid_amount t,
      tb_payable = Some (mt_payable_amount t)\<rparr>"

lemma all_plain_amount [simp]: "all_plain [amount_tree ops cur n x] \<longleftrightarrow> bare_text (dop_to_string ops x)"
  "all_plain [decimal_tree ops n x] \<longleftrightarrow> bare_text (dop_to_string ops x)"
  by (simp_all add: amount_tree_def decimal_tree_def)

lemma run_total:
  assumes "calm s" "plain_root r" "reads_decimals ops dec" "all_plain [total_tree ops cur t]" "us_total s = total_builder_new"
  shows "tree_run dec [r] s (total_tree ops cur t) = Inr (s\<lparr>us_total := total_fill t\<rparr>)"
proof -
  have calm: "calm (s\<lparr>us_total := x\<rparr>)" for x using assms(1) by (simp add: calm_def)
  note leaf = total_leaf [OF _ assms(2), unfolded totals_text_def] and ops = assms(3)
  show ?thesis
    unfolding total_tree_def
    by (rule container_top)
      (use assms calm in \<open>cases "mt_allowance_total_amount t"; cases "mt_charge_total_amount t"; cases "mt_prepaid_amount t";
        simp add: total_tree_def amount_tree_def leaf name_sets ops opt_tree_def total_fill_def total_builder_new_def
          core_names_def calm_def\<close>)+
qed

end
