(* ===== verification/Ubl_Lines.thy ===== *)
theory Ubl_Lines
  imports Ubl_Settle
begin

text \<open>Tax totals and document lines read back from their trees.\<close>

section \<open>Tax totals\<close>

lemma tax_leaf:
  assumes "us_capture s = None" "us_line s = None" "us_tax s = Some t" "inner stack" "n \<notin> set leaf_names" "bare_text v"
    "tax_text dec (std_elem ''cbc'' n # stack) v t = Some (Inr t')"
  shows "tree_run dec stack s (cbc_with n as v) = Inr (s\<lparr>us_tax := Some t'\<rparr>)"
    "tree_run dec stack s (cbc n v) = Inr (s\<lparr>us_tax := Some t'\<rparr>)"
  using assms by (simp_all add: leaf_values)

lemma reason_leaf:
  assumes "us_capture s = None" "2 \<le> length stack" "n = ''TaxExemptionReasonCode'' \<or> n = ''TaxExemptionReason''"
    "raw_text (std_elem ''cbc'' n # stack) v s = Some s'" "us_capture s' = None"
  shows "tree_run dec stack s (cbc n v) = Inr s'"
  using assms by (auto simp: cbc_def start_other end_other text_event_def special_names_def)

text \<open>A text that no builder takes.\<close>

lemma idle_leaf:
  assumes "us_capture s = None" "us_payment s = None" "inner stack" "\<not> in_any stack [''LegalMonetaryTotal'']"
    "\<not> path_ends stack [''PaymentTerms'']" "n \<notin> set leaf_names" "n \<notin> {''TenantID'', ''TraceID'', ''SourceSystem''}"
    "bare_text v" "Option.bind (us_line s) (line_text dec (std_elem ''cbc'' n # stack) v) = None"
    "Option.bind (us_tax s) (tax_text dec (std_elem ''cbc'' n # stack) v) = None"
  shows "tree_run dec stack s (cbc_with n as v) = Inr s" "tree_run dec stack s (cbc n v) = Inr s"
proof -
  have "root_text (std_elem ''cbc'' n # stack) v s = s"
    using assms(3,5,7) by (intro root_text_below) (simp_all add: inner_def)
  then have "payment_or_later_text dec (std_elem ''cbc'' n # stack) v s = Inr s"
    using assms(2,4,6) by (simp add: payment_or_later_text_def total_or_root_text_def leaf_names_def role_names_def)
  then show "tree_run dec stack s (cbc_with n as v) = Inr s" "tree_run dec stack s (cbc n v) = Inr s"
    using assms by (simp_all add: leaf_values)
qed

lemma start_subtotal:
  assumes "us_capture s = None" "us_line s = None"
  shows "start_element [e, r] (std_elem ''cac'' ''TaxSubtotal'') [] s = Inr (s\<lparr>us_tax := Some tax_builder_new\<rparr>)"
  using assms
  by (cases s) (simp add: start_below start_open_def is_element_def Let_def)

lemma run_subtotal:
  assumes "calm s" "plain_root r" "reads_decimals ops dec" "all_plain [subtotal_tree ops cur t]"
  shows "tree_run dec [std_elem ''cac'' ''TaxTotal'', r] s (subtotal_tree ops cur t)
    = Inr (s\<lparr>us_tax_summary := us_tax_summary s @ [t]\<rparr>)"
proof -
  let ?top = "std_elem ''cac'' ''TaxTotal''" and ?e = "std_elem ''cac'' ''TaxSubtotal''" and ?c = "std_elem ''cac'' ''TaxCategory''"
  let ?s = "\<lambda>b. s\<lparr>us_tax := Some b\<rparr>"
  have c: "us_capture s = None" "us_line s = None" "us_tax s = None" "us_payment s = None"
    using assms(1) by (simp_all add: calm_def)
  have inn: "inner [?e, ?top, r]" "inner [?c, ?e, ?top, r]" "inner [std_elem ''cac'' ''TaxScheme'', ?c, ?e, ?top, r]"
    using inner_top [of ?top r] assms(2) by (simp_all add: role_names_def)
  have no_lmt: "\<not> in_any [r] [''LegalMonetaryTotal'']" "pe_name r \<noteq> ''LegalMonetaryTotal''"
    using root_no_role [OF assms(2)] by (simp_all add: role_names_def)
  have amounts: "tree_run dec [?e, ?top, r] (?s b) (cbc_with ''TaxableAmount'' as (dop_to_string ops x)) = Inr (?s (b\<lparr>xb_taxable_amount := Some x\<rparr>))"
    "tree_run dec [?e, ?top, r] (?s b) (cbc_with ''TaxAmount'' as (dop_to_string ops x)) = Inr (?s (b\<lparr>xb_tax_amount := Some x\<rparr>))"
    "tree_run dec [?c, ?e, ?top, r] (?s b) (cbc ''Percent'' (dop_to_string ops x)) = Inr (?s (b\<lparr>xb_tax_rate := Some x\<rparr>))"
    if "bare_text (dop_to_string ops x)" for b x as
    using that c inn by (simp_all add: tax_leaf tax_text_def name_sets assms(3))
  have code: "tree_run dec [?c, ?e, ?top, r] (?s b) (cbc ''ID'' v) = Inr (?s (b\<lparr>xb_category_code := Some v\<rparr>))"
    if "bare_text v" for b v
    using that c inn by (simp add: tax_leaf tax_text_def name_sets)
  have reasons: "tree_run dec [?c, ?e, ?top, r] (?s b) (cbc ''TaxExemptionReasonCode'' v)
      = Inr (?s (b\<lparr>xb_exemption_reason_code := append_to (xb_exemption_reason_code b) v\<rparr>))"
    "tree_run dec [?c, ?e, ?top, r] (?s b) (cbc ''TaxExemptionReason'' v)
      = Inr (?s (b\<lparr>xb_exemption_reason := append_to (xb_exemption_reason b) v\<rparr>))" for b v
    using c by (simp_all add: reason_leaf raw_text_def)
  have scheme: "tree_run dec [?c, ?e, ?top, r] (?s b) (tax_scheme_tree ''VAT'') = Inr (?s b)" if "bare_text ''VAT''" for b
    unfolding tax_scheme_tree_def using that c inn no_lmt
    by (intro run_cac) (simp_all add: idle_leaf tax_text_def name_sets)
  let ?cat = "cbc ''ID'' (ts_category_code t) # opt_tree (decimal_tree ops ''Percent'') (ts_tax_rate t)
      @ opt_tree (cbc ''TaxExemptionReasonCode'') (ts_exemption_reason_code t)
      @ opt_tree (cbc ''TaxExemptionReason'') (ts_exemption_reason t) @ [tax_scheme_tree ''VAT'']"
  let ?b = "\<lparr>xb_category_code = Some (ts_category_code t), xb_taxable_amount = Some (ts_taxable_amount t),
      xb_tax_amount = Some (ts_tax_amount t), xb_tax_rate = ts_tax_rate t, xb_exemption_reason = ts_exemption_reason t,
      xb_exemption_reason_code = ts_exemption_reason_code t\<rparr>"
  have plains: "bare_text (dop_to_string ops (ts_taxable_amount t))" "bare_text (dop_to_string ops (ts_tax_amount t))"
    "bare_text (ts_category_code t)" "\<And>x. ts_tax_rate t = Some x \<Longrightarrow> bare_text (dop_to_string ops x)" "bare_text ''VAT''"
    using assms(4) by (auto simp: subtotal_tree_def tax_scheme_tree_def)
  let ?new = "tax_builder_new\<lparr>xb_taxable_amount := Some (ts_taxable_amount t), xb_tax_amount := Some (ts_tax_amount t)\<rparr>"
  have rate: "trees_run dec [?c, ?e, ?top, r] (?s b) (opt_tree (decimal_tree ops ''Percent'') (ts_tax_rate t))
      = Inr (?s (b\<lparr>xb_tax_rate := ts_tax_rate t\<rparr>))" if "xb_tax_rate b = None" for b
    using that plains(4) by (cases "ts_tax_rate t"; cases b) (simp_all add: opt_tree_def decimal_tree_def amounts)
  have reason_code: "trees_run dec [?c, ?e, ?top, r] (?s b) (opt_tree (cbc ''TaxExemptionReasonCode'') x)
      = Inr (?s (b\<lparr>xb_exemption_reason_code := x\<rparr>))" if "xb_exemption_reason_code b = None" for b x
    using that by (cases x; cases b) (simp_all add: opt_tree_def reasons append_to_def)
  have reason: "trees_run dec [?c, ?e, ?top, r] (?s b) (opt_tree (cbc ''TaxExemptionReason'') x)
      = Inr (?s (b\<lparr>xb_exemption_reason := x\<rparr>))" if "xb_exemption_reason b = None" for b x
    using that by (cases x; cases b) (simp_all add: opt_tree_def reasons append_to_def)
  have "trees_run dec [?c, ?e, ?top, r] (?s ?new) ?cat = Inr (?s ?b)"
    by (simp add: code [OF plains(3)] scheme [OF plains(5)] rate reason_code reason tax_builder_new_def)
  then have "tree_run dec [?e, ?top, r] (?s ?new) (cac ''TaxCategory'' ?cat) = Inr (?s ?b)"
    using c by (intro run_cac) (simp_all add: special_names_def)
  moreover have "end_element ?e (?s ?b) = Inr (s\<lparr>us_tax_summary := us_tax_summary s @ [t]\<rparr>)"
    using c by (cases s; cases t) (simp add: end_element_def end_line_def end_tax_def end_payment_def is_element_def tax_build_def)
  ultimately show ?thesis
    using c plains
    by (simp add: subtotal_tree_def cac_def [of "''TaxSubtotal''"] start_subtotal amounts amount_tree_def)
qed

lemma run_subtotals:
  assumes "plain_root r" "reads_decimals ops dec"
  shows "calm s \<Longrightarrow> all_plain (map (subtotal_tree ops cur) ts) \<Longrightarrow>
    trees_run dec [std_elem ''cac'' ''TaxTotal'', r] s (map (subtotal_tree ops cur) ts)
      = Inr (s\<lparr>us_tax_summary := us_tax_summary s @ ts\<rparr>)"
  by (induction ts arbitrary: s) (simp_all add: run_subtotal [OF _ assms] calm_def)

lemma run_tax_totals:
  assumes "calm s" "plain_root r" "reads_decimals ops dec" "all_plain (tax_total_trees ops cur taxes ts)"
  shows "trees_run dec [r] s (tax_total_trees ops cur taxes ts) = Inr (s\<lparr>us_tax_summary := us_tax_summary s @ ts\<rparr>)"
proof (cases "ts = []")
  case True
  then show ?thesis by (cases s) (simp add: tax_total_trees_def)
next
  case False
  let ?top = "std_elem ''cac'' ''TaxTotal''"
  have c: "us_capture s = None" "us_line s = None" "us_tax s = None" "us_payment s = None"
    using assms(1) by (simp_all add: calm_def)
  have "tree_run dec [?top, r] s (amount_tree ops cur ''TaxAmount'' taxes) = Inr s"
    using c False assms(2,4) inner_top [of ?top r] root_no_role [OF assms(2)]
    by (simp add: amount_tree_def tax_total_trees_def idle_leaf name_sets)
  then have "trees_run dec [?top, r] s (amount_tree ops cur ''TaxAmount'' taxes # map (subtotal_tree ops cur) ts)
      = Inr (s\<lparr>us_tax_summary := us_tax_summary s @ ts\<rparr>)"
    using False assms by (simp add: run_subtotals tax_total_trees_def)
  then have "tree_run dec [r] s (cac ''TaxTotal'' (amount_tree ops cur ''TaxAmount'' taxes # map (subtotal_tree ops cur) ts))
      = Inr (s\<lparr>us_tax_summary := us_tax_summary s @ ts\<rparr>)"
    using c by (intro container_top) (simp_all add: core_names_def special_names_def)
  then show ?thesis using False by (simp add: tax_total_trees_def)
qed

section \<open>Lines\<close>

definition line_names :: "string list" where
  "line_names = [''InvoiceLine'', ''CreditNoteLine'']"

definition run_line_ready :: "parsed_element \<Rightarrow> 'd ubl_state \<Rightarrow> bool" where
  "run_line_ready e s \<longleftrightarrow> pe_name e \<in> set line_names \<and> us_capture s = None \<and> us_tax s = None \<and> us_payment s = None"

lemma line_leaf:
  assumes "us_capture s = None" "us_line s = Some l" "inner stack" "n \<notin> set leaf_names" "bare_text v"
    "line_text dec (std_elem ''cbc'' n # stack) v l = Some (Inr l')"
  shows "tree_run dec stack s (cbc_with n as v) = Inr (s\<lparr>us_line := Some l'\<rparr>)"
    "tree_run dec stack s (cbc n v) = Inr (s\<lparr>us_line := Some l'\<rparr>)"
  using assms by (simp_all add: leaf_values)

lemma inner_line: "pe_name e \<in> set line_names \<Longrightarrow> plain_root r \<Longrightarrow> inner [e, r]"
  by (auto simp: line_names_def intro: inner_top)

text \<open>The leaves of a line.\<close>

lemma line_leaves:
  assumes "run_line_ready e s" "plain_root r" "bare_text v"
  shows "tree_run dec [e, r] (s\<lparr>us_line := Some l\<rparr>) (cbc ''ID'' v) = Inr (s\<lparr>us_line := Some (l\<lparr>lb_id := Some v\<rparr>)\<rparr>)"
    "tree_run dec [std_elem ''cac'' ''Item'', e, r] (s\<lparr>us_line := Some l\<rparr>) (cbc ''Name'' v)
       = Inr (s\<lparr>us_line := Some (l\<lparr>lb_description := Some v\<rparr>)\<rparr>)"
    "tree_run dec [std_elem ''cac'' ''ClassifiedTaxCategory'', std_elem ''cac'' ''Item'', e, r] (s\<lparr>us_line := Some l\<rparr>) (cbc ''ID'' v)
       = Inr (s\<lparr>us_line := Some (l\<lparr>lb_tax_category := Some v\<rparr>)\<rparr>)"
proof -
  have inn: "inner [e, r]" "inner [std_elem ''cac'' ''Item'', e, r]"
    "inner [std_elem ''cac'' ''ClassifiedTaxCategory'', std_elem ''cac'' ''Item'', e, r]"
    using assms(1,2) inner_line [of e r] by (simp_all add: run_line_ready_def role_names_def)
  have e: "pe_name e = ''InvoiceLine'' \<or> pe_name e = ''CreditNoteLine''" "us_capture s = None"
    using assms(1) by (auto simp: run_line_ready_def line_names_def)
  show "tree_run dec [e, r] (s\<lparr>us_line := Some l\<rparr>) (cbc ''ID'' v) = Inr (s\<lparr>us_line := Some (l\<lparr>lb_id := Some v\<rparr>)\<rparr>)"
    using assms(3) inn e by (simp add: line_leaf line_text_def name_sets)
  show "tree_run dec [std_elem ''cac'' ''Item'', e, r] (s\<lparr>us_line := Some l\<rparr>) (cbc ''Name'' v)
       = Inr (s\<lparr>us_line := Some (l\<lparr>lb_description := Some v\<rparr>)\<rparr>)"
    using assms(3) inn e by (simp add: line_leaf line_text_def name_sets)
  show "tree_run dec [std_elem ''cac'' ''ClassifiedTaxCategory'', std_elem ''cac'' ''Item'', e, r] (s\<lparr>us_line := Some l\<rparr>) (cbc ''ID'' v)
       = Inr (s\<lparr>us_line := Some (l\<lparr>lb_tax_category := Some v\<rparr>)\<rparr>)"
    using assms(3) inn e by (simp add: line_leaf line_text_def name_sets)
qed

lemma line_amounts:
  assumes "run_line_ready e s" "plain_root r" "reads_decimals ops dec" "bare_text (dop_to_string ops x)"
  shows "tree_run dec [e, r] (s\<lparr>us_line := Some l\<rparr>) (amount_tree ops cur ''LineExtensionAmount'' x)
      = Inr (s\<lparr>us_line := Some (l\<lparr>lb_extension_amount := Some x\<rparr>)\<rparr>)"
    "tree_run dec [std_elem ''cac'' ''Price'', e, r] (s\<lparr>us_line := Some l\<rparr>) (amount_tree ops cur ''PriceAmount'' x)
      = Inr (s\<lparr>us_line := Some (l\<lparr>lb_unit_price := Some x\<rparr>)\<rparr>)"
proof -
  have inn: "inner [e, r]" "inner [std_elem ''cac'' ''Price'', e, r]"
    using assms(1,2) inner_line [of e r] by (simp_all add: run_line_ready_def role_names_def)
  have e: "pe_name e \<noteq> ''Price''" "us_capture s = None" using assms(1) by (auto simp: run_line_ready_def line_names_def)
  show "tree_run dec [e, r] (s\<lparr>us_line := Some l\<rparr>) (amount_tree ops cur ''LineExtensionAmount'' x)
      = Inr (s\<lparr>us_line := Some (l\<lparr>lb_extension_amount := Some x\<rparr>)\<rparr>)"
    using assms(3,4) inn e by (simp add: amount_tree_def line_leaf line_text_def name_sets)
  show "tree_run dec [std_elem ''cac'' ''Price'', e, r] (s\<lparr>us_line := Some l\<rparr>) (amount_tree ops cur ''PriceAmount'' x)
      = Inr (s\<lparr>us_line := Some (l\<lparr>lb_unit_price := Some x\<rparr>)\<rparr>)"
    using assms(3,4) inn e by (simp add: amount_tree_def line_leaf line_text_def name_sets)
qed

text \<open>The elements below a line that its builder looks at when they start.\<close>

lemma start_deep:
  assumes "us_capture s = None" "2 \<le> length stack"
    "n \<notin> {''UBLExtension'', ''InvoiceLine'', ''CreditNoteLine'', ''TaxSubtotal'', ''PaymentMeans''}"
  shows "start_element stack (std_elem p n) as s = Inr (s\<lparr>us_line := map_option (line_start stack n as) (us_line s)\<rparr>)"
  using assms by (simp add: start_below start_open_def is_element_def Let_def)

lemma end_deep:
  assumes "us_capture s = None"
    "n \<notin> {''UBLExtension'', ''InvoiceLine'', ''CreditNoteLine'', ''TaxSubtotal'', ''PaymentMeans'', ''CommodityClassification''}"
  shows "end_element (std_elem p n) s = Inr s"
  using assms by (simp add: end_element_def end_line_def end_tax_def end_payment_def is_element_def)

text \<open>The quantity, with its unit from the attribute.\<close>

lemma run_quantity:
  assumes "run_line_ready e s" "plain_root r" "reads_decimals ops dec" "bare_text (dop_to_string ops x)" "e \<noteq> r"
  shows "tree_run dec [e, r] (s\<lparr>us_line := Some l\<rparr>) (cbc_with (quantity_name t) (unit_attrs u) (dop_to_string ops x))
    = Inr (s\<lparr>us_line := Some (l\<lparr>lb_unit_code := u, lb_quantity := Some x\<rparr>)\<rparr>)"
proof -
  let ?n = "quantity_name t"
  have n: "?n = ''InvoicedQuantity'' \<or> ?n = ''CreditedQuantity''" by (simp add: quantity_name_def)
  have c: "us_capture s = None" "us_tax s = None" using assms(1) by (simp_all add: run_line_ready_def)
  have u: "attr_value (unit_attrs u) ''unitCode'' = u" by (cases u) (simp_all add: unit_attrs_def attr_value_def)
  have "line_start [e, r] ?n (unit_attrs u) l = l\<lparr>lb_unit_code := u\<rparr>"
    using n u by (auto simp: line_start_def Let_def)
  then have start: "start_element [e, r] (std_elem ''cbc'' ?n) (unit_attrs u) (s\<lparr>us_line := Some l\<rparr>)
      = Inr (s\<lparr>us_line := Some (l\<lparr>lb_unit_code := u\<rparr>)\<rparr>)"
    using n c by (subst start_deep) auto
  let ?st = "[std_elem ''cbc'' ?n, e, r]" and ?s = "s\<lparr>us_line := Some (l\<lparr>lb_unit_code := u\<rparr>)\<rparr>"
  have "raw_text ?st (dop_to_string ops x) ?s = None" using n c by (auto simp: raw_text_def)
  then have "text_event dec ?st (dop_to_string ops x) ?s = value_text dec ?st (dop_to_string ops x) ?s"
    using c assms(4) by (simp add: text_event_def bare_text_def)
  also have "\<dots> = Inr (s\<lparr>us_line := Some (l\<lparr>lb_unit_code := u, lb_quantity := Some x\<rparr>)\<rparr>)"
  proof -
    have "line_text dec ?st (dop_to_string ops x) (l\<lparr>lb_unit_code := u\<rparr>)
        = Some (Inr (l\<lparr>lb_unit_code := u, lb_quantity := Some x\<rparr>))"
      using n assms(3) by (auto simp: line_text_def)
    moreover have "?n \<noteq> ''ExtensionURI''" using n by auto
    ultimately show ?thesis by (simp add: value_text_def not_extension_uri)
  qed
  moreover have "end_element (std_elem ''cbc'' ?n) (s\<lparr>us_line := Some l'\<rparr>) = Inr (s\<lparr>us_line := Some l'\<rparr>)" for l'
    using n c by (intro end_deep) auto
  ultimately show ?thesis using start by (simp add: cbc_with_def)
qed

text \<open>A classification.\<close>

lemma run_class:
  assumes "run_line_ready e s" "plain_root r" "bare_text (cls_code k)" "lb_classification l = None"
  shows "tree_run dec [std_elem ''cac'' ''Item'', e, r] (s\<lparr>us_line := Some l\<rparr>) (class_tree k)
    = Inr (s\<lparr>us_line := Some (l\<lparr>lb_classifications := lb_classifications l @ [k]\<rparr>)\<rparr>)"
proof -
  let ?i = "std_elem ''cac'' ''Item''" and ?k = "std_elem ''cac'' ''CommodityClassification''"
    and ?c = "std_elem ''cbc'' ''ItemClassificationCode''"
  let ?s = "\<lambda>l. s\<lparr>us_line := Some l\<rparr>"
  have c: "us_capture s = None" "us_tax s = None" using assms(1) by (simp_all add: run_line_ready_def)
  have "start_element [?i, e, r] ?k [] (?s l) = Inr (?s (l\<lparr>lb_classification := Some classification_builder_new\<rparr>))"
    using c by (simp add: start_deep line_start_def Let_def)
  moreover have "start_element [?k, ?i, e, r] ?c (class_attrs k) (?s (l\<lparr>lb_classification := Some classification_builder_new\<rparr>))
      = Inr (?s (l\<lparr>lb_classification := Some \<lparr>cb_code = [], cb_scheme_id = cls_scheme_id k, cb_scheme_version = cls_scheme_version k\<rparr>\<rparr>))"
    using c
    by (cases "cls_scheme_version k")
      (simp_all add: start_deep line_start_def Let_def classification_builder_new_def class_attrs_def attr_value_def)
  moreover have "text_event dec [?c, ?k, ?i, e, r] (cls_code k)
      (?s (l\<lparr>lb_classification := Some \<lparr>cb_code = [], cb_scheme_id = cls_scheme_id k, cb_scheme_version = cls_scheme_version k\<rparr>\<rparr>))
      = Inr (?s (l\<lparr>lb_classification := Some \<lparr>cb_code = cls_code k, cb_scheme_id = cls_scheme_id k, cb_scheme_version = cls_scheme_version k\<rparr>\<rparr>))"
    using c by (simp add: text_event_def raw_text_def)
  moreover have "end_element ?c (?s l') = Inr (?s l')" for l'
    using c by (simp add: end_deep)
  moreover have "end_element ?k (?s l') = Inr (?s (end_classification l'))" for l'
    using c by (simp add: end_element_def end_line_def end_tax_def end_payment_def is_element_def)
  moreover have "trim (cls_code k) = cls_code k" using assms(3) by (simp add: bare_text_def)
  ultimately show ?thesis
    using assms(4)
    by (cases k; cases l) (simp add: class_tree_def cac_def cbc_with_def end_classification_def classification_build_def)
qed

lemma run_classes:
  assumes "run_line_ready e s" "plain_root r"
  shows "list_all (\<lambda>k. bare_text (cls_code k)) ks \<Longrightarrow> lb_classification l = None \<Longrightarrow>
    trees_run dec [std_elem ''cac'' ''Item'', e, r] (s\<lparr>us_line := Some l\<rparr>) (map class_tree ks)
      = Inr (s\<lparr>us_line := Some (l\<lparr>lb_classifications := lb_classifications l @ ks\<rparr>)\<rparr>)"
  by (induction ks arbitrary: l) (simp_all add: run_class [OF assms])

end
