(* ===== verification/Ubl_Line.thy ===== *)
theory Ubl_Line
  imports Ubl_Lines
begin

text \<open>A whole line, and the metadata extension, read back from their trees.\<close>

section \<open>Charges of a line\<close>

lemma all_plain_split: "all_plain [UElem e as ts] \<longleftrightarrow> all_plain ts"
  by (simp add: all_plain_def)

lemma charge_leaf:
  assumes "us_capture s = None" "us_payment s = None" "us_tax s = None" "inner stack" "\<not> in_any stack [''LegalMonetaryTotal'']"
    "\<not> path_ends stack [''PaymentTerms'']" "bare_text v" "n \<notin> set leaf_names"
    "n \<notin> {''TenantID'', ''TraceID'', ''SourceSystem'', ''InvoicedQuantity'', ''CreditedQuantity'', ''LineExtensionAmount'',
      ''PriceAmount'', ''Description'', ''Name''}"
    "n = ''ID'' \<longrightarrow> \<not> path_ends stack [''InvoiceLine''] \<and> \<not> path_ends stack [''CreditNoteLine'']
      \<and> \<not> path_ends stack [''ClassifiedTaxCategory'']"
  shows "tree_run dec stack s (cbc_with n as v) = Inr s" "tree_run dec stack s (cbc n v) = Inr s"
proof -
  have "line_text dec (std_elem ''cbc'' n # stack) v l = None" for l
    using assms(9,10) by (simp add: line_text_def)
  then show "tree_run dec stack s (cbc_with n as v) = Inr s" "tree_run dec stack s (cbc n v) = Inr s"
    using assms by (simp_all add: idle_leaf bind_eq_None_conv)
qed

lemma run_charge:
  assumes "run_line_ready e s" "plain_root r" "all_plain [charge_tree ops cur a]"
  shows "tree_run dec [e, r] (s\<lparr>us_line := l\<rparr>) (charge_tree ops cur a) = Inr (s\<lparr>us_line := l\<rparr>)"
proof -
  let ?a = "std_elem ''cac'' ''AllowanceCharge''" and ?k = "std_elem ''cac'' ''TaxCategory''" and ?v = "std_elem ''cac'' ''TaxScheme''"
  let ?s = "s\<lparr>us_line := l\<rparr>"
  have inn: "inner [?a, e, r]" "inner [?k, ?a, e, r]" "inner [?v, ?k, ?a, e, r]"
    using assms(1,2) inner_line [of e r] by (simp_all add: run_line_ready_def role_names_def)
  have e: "pe_name e \<noteq> ''LegalMonetaryTotal''" "pe_name e \<noteq> ''PaymentTerms''" "us_capture s = None" "us_tax s = None" "us_payment s = None"
    using assms(1) by (auto simp: run_line_ready_def line_names_def)
  have r: "pe_name r \<noteq> ''LegalMonetaryTotal''" using root_no_role [OF assms(2)] by (simp add: role_names_def)
  have leaf: "tree_run dec [?a, e, r] ?s (cbc_with n as v) = Inr ?s" "tree_run dec [?a, e, r] ?s (cbc n v) = Inr ?s"
    if "bare_text v" "n \<in> {''ChargeIndicator'', ''AllowanceChargeReasonCode'', ''AllowanceChargeReason'', ''MultiplierFactorNumeric'',
      ''Amount'', ''BaseAmount''}" for n as v
    using that inn e r by (auto intro!: charge_leaf simp: name_sets)
  have deep: "tree_run dec [?k, ?a, e, r] ?s (cbc n v) = Inr ?s" if "bare_text v" "n = ''ID'' \<or> n = ''Percent''" for n v
    using that inn e r by (auto intro!: charge_leaf simp: name_sets)
  have "tree_run dec [?v, ?k, ?a, e, r] ?s (cbc ''ID'' v) = Inr ?s" if "bare_text v" for v
    using that inn e r by (intro charge_leaf) (simp_all add: name_sets)
  then have scheme: "tree_run dec [?k, ?a, e, r] ?s (tax_scheme_tree ''VAT'') = Inr ?s" if "bare_text ''VAT''"
    unfolding tax_scheme_tree_def using that e by (intro run_cac) (simp_all add: special_names_def)
  have category: "tree_run dec [?a, e, r] ?s (cac ''TaxCategory'' ts) = Inr ?s"
    if "list_all (\<lambda>t. tree_run dec [?k, ?a, e, r] ?s t = Inr ?s) ts" for ts
    using that e by (intro run_cac trees_idle) (simp_all add: special_names_def)
  have p: "bare_text (if ac_is_charge a then ''true'' else ''false'')" "\<And>v. ac_reason_code a = Some v \<Longrightarrow> bare_text v"
    "\<And>v. ac_reason a = Some v \<Longrightarrow> bare_text v" "\<And>x. ac_percentage a = Some x \<Longrightarrow> bare_text (dop_to_string ops x)"
    "bare_text (dop_to_string ops (ac_amount a))" "\<And>x. ac_base_amount a = Some x \<Longrightarrow> bare_text (dop_to_string ops x)"
    "\<And>v. ac_tax_category a = Some v \<Longrightarrow> bare_text v \<and> bare_text ''VAT''
       \<and> (case ac_tax_rate a of None \<Rightarrow> True | Some x \<Rightarrow> bare_text (dop_to_string ops x))"
    using assms(3) by (auto simp: charge_tree_def tax_scheme_tree_def split: option.split)
  let ?ok = "list_all (\<lambda>t. tree_run dec [?a, e, r] ?s t = Inr ?s)"
  have first: "?ok [cbc ''ChargeIndicator'' (if ac_is_charge a then ''true'' else ''false'')]" "?ok [amount_tree ops cur ''Amount'' (ac_amount a)]"
    by (simp_all add: leaf amount_tree_def p(1,5))
  have reasons: "?ok (opt_tree (cbc ''AllowanceChargeReasonCode'') (ac_reason_code a))"
    "?ok (opt_tree (cbc ''AllowanceChargeReason'') (ac_reason a))"
    by (auto simp: leaf p(2,3) split: option.split)
  have amounts: "?ok (opt_tree (decimal_tree ops ''MultiplierFactorNumeric'') (ac_percentage a))"
    "?ok (opt_tree (amount_tree ops cur ''BaseAmount'') (ac_base_amount a))"
    by (auto simp: leaf decimal_tree_def amount_tree_def p(4,6) split: option.split)
  have tax: "?ok (opt_tree (\<lambda>category. cac ''TaxCategory'' (cbc ''ID'' category
      # opt_tree (decimal_tree ops ''Percent'') (ac_tax_rate a) @ [tax_scheme_tree ''VAT''])) (ac_tax_category a))"
    using p(7) by (auto simp: deep scheme decimal_tree_def intro!: category split: option.split option.splits)
  have "?ok ([cbc ''ChargeIndicator'' (if ac_is_charge a then ''true'' else ''false'')]
        @ opt_tree (cbc ''AllowanceChargeReasonCode'') (ac_reason_code a)
        @ opt_tree (cbc ''AllowanceChargeReason'') (ac_reason a)
        @ opt_tree (decimal_tree ops ''MultiplierFactorNumeric'') (ac_percentage a)
        @ [amount_tree ops cur ''Amount'' (ac_amount a)]
        @ opt_tree (amount_tree ops cur ''BaseAmount'') (ac_base_amount a)
        @ opt_tree (\<lambda>category. cac ''TaxCategory'' (cbc ''ID'' category
            # opt_tree (decimal_tree ops ''Percent'') (ac_tax_rate a) @ [tax_scheme_tree ''VAT''])) (ac_tax_category a))"
    unfolding list_all_append by (intro conjI first reasons amounts tax)
  then show ?thesis
    unfolding charge_tree_def using e by (intro run_cac trees_idle) (simp_all add: special_names_def)
qed

end
