(* ===== verification/Ubl_Lineup.thy ===== *)
theory Ubl_Lineup
  imports Ubl_Line
begin

text \<open>The lines of a document and its metadata extension, read back.\<close>

section \<open>The item and the price\<close>

lemma run_charges:
  assumes "run_line_ready e s" "plain_root r" "all_plain (map (charge_tree ops cur) as)"
  shows "trees_run dec [e, r] (s\<lparr>us_line := l\<rparr>) (map (charge_tree ops cur) as) = Inr (s\<lparr>us_line := l\<rparr>)"
  using assms by (intro trees_idle) (auto simp: list_all_iff intro: run_charge)

definition item_fill :: "('d, 'j) document_line \<Rightarrow> 'd line_builder \<Rightarrow> 'd line_builder" where
  "item_fill x l = l\<lparr>lb_description := Some (line_description x),
     lb_classifications := lb_classifications l @ line_classifications x,
     lb_tax_category := (case line_tax_category x of None \<Rightarrow> lb_tax_category l | Some v \<Rightarrow> Some v)\<rparr>"

lemma run_item:
  assumes "run_line_ready e s" "plain_root r" "all_plain (item_trees x)" "lb_classification l = None"
  shows "tree_run dec [e, r] (s\<lparr>us_line := Some l\<rparr>) (cac ''Item'' (item_trees x)) = Inr (s\<lparr>us_line := Some (item_fill x l)\<rparr>)"
proof -
  let ?i = "std_elem ''cac'' ''Item''" and ?k = "std_elem ''cac'' ''ClassifiedTaxCategory''" and ?v = "std_elem ''cac'' ''TaxScheme''"
  let ?s = "\<lambda>l. s\<lparr>us_line := Some l\<rparr>"
  have c: "us_capture s = None" "us_tax s = None" "us_payment s = None" using assms(1) by (simp_all add: run_line_ready_def)
  have e: "pe_name e \<noteq> ''LegalMonetaryTotal''" "pe_name r \<noteq> ''LegalMonetaryTotal''"
    using assms(1) root_no_role [OF assms(2)] by (auto simp: run_line_ready_def line_names_def role_names_def)
  have inn: "inner [?v, ?k, ?i, e, r]"
    using assms(1,2) inner_line [of e r] by (simp add: run_line_ready_def role_names_def)
  have p: "bare_text (line_description x)" "list_all (\<lambda>k. bare_text (cls_code k)) (line_classifications x)"
    "\<And>v. line_tax_category x = Some v \<Longrightarrow> bare_text v \<and> bare_text ''VAT''"
    using assms(3) by (auto simp: item_trees_def list_all_iff class_tree_def tax_scheme_tree_def)
  have "tree_run dec [?v, ?k, ?i, e, r] (?s l') (cbc ''ID'' v) = Inr (?s l')" if "bare_text v" for l' v
    using that inn c e by (intro charge_leaf) (simp_all add: name_sets)
  then have "tree_run dec [?k, ?i, e, r] (?s l') (tax_scheme_tree ''VAT'') = Inr (?s l')" if "bare_text ''VAT''" for l'
    unfolding tax_scheme_tree_def using that c by (intro run_cac) (simp_all add: special_names_def)
  then have category: "tree_run dec [?i, e, r] (?s l') (cac ''ClassifiedTaxCategory'' [cbc ''ID'' v, tax_scheme_tree ''VAT''])
      = Inr (?s (l'\<lparr>lb_tax_category := Some v\<rparr>))" if "bare_text v" "bare_text ''VAT''" for l' v
    using that c by (intro run_cac) (simp_all add: special_names_def line_leaves [OF assms(1,2)])
  have "trees_run dec [?i, e, r] (?s l) (item_trees x) = Inr (?s (item_fill x l))"
    using p assms(4)
    by (cases "line_tax_category x"; cases l)
      (simp_all add: item_trees_def line_leaves [OF assms(1,2)] run_classes [OF assms(1,2)] category opt_tree_def item_fill_def)
  then show ?thesis using c by (intro run_cac) (simp_all add: special_names_def)
qed

section \<open>A line\<close>

definition line_core :: "('d, 'j) document_line \<Rightarrow> ('d, serde_value) document_line" where
  "line_core x =
     \<lparr>line_id = line_id x, line_description = line_description x, line_quantity = line_quantity x,
      line_unit_code = line_unit_code x, line_unit_price = line_unit_price x,
      line_extension_amount = line_extension_amount x, line_tax_category = line_tax_category x,
      line_classifications = line_classifications x, line_extensions = [], line_allowance_charges = []\<rparr>"

definition line_fill :: "('d, 'j) document_line \<Rightarrow> 'd line_builder" where
  "line_fill x =
     \<lparr>lb_id = Some (line_id x), lb_description = Some (line_description x), lb_quantity = Some (line_quantity x),
      lb_unit_code = line_unit_code x, lb_unit_price = Some (line_unit_price x),
      lb_extension_amount = Some (line_extension_amount x), lb_tax_category = line_tax_category x,
      lb_classifications = line_classifications x, lb_classification = None\<rparr>"

lemma line_filled: "line_build (line_fill x) = Inr (line_core x)"
  by (simp add: line_build_def line_fill_def line_core_def)

lemma start_line:
  fixes s :: "'d ubl_state"
  assumes "us_capture s = None" "n \<in> set line_names"
  shows "start_element [r] (std_elem ''cac'' n) [] s = Inr (s\<lparr>us_line := Some line_builder_new\<rparr>)"
proof -
  have n: "n = ''InvoiceLine'' \<or> n = ''CreditNoteLine''" using assms(2) by (simp add: line_names_def)
  then have "line_start [r] n [] line_builder_new = (line_builder_new :: 'd line_builder)"
    by (auto simp: line_start_def)
  then have "start_open [r] (std_elem ''cac'' n) [] s = s\<lparr>us_line := Some line_builder_new\<rparr>"
    using n by (elim disjE) (simp_all add: start_open_def is_element_def Let_def)
  moreover have "''cac:'' @ n \<in> set core_names" using n by (auto simp: core_names_def)
  ultimately show ?thesis using assms(1) by (simp add: start_top)
qed

lemma end_of_line:
  assumes "us_capture s = None" "n \<in> set line_names" "us_line s = None"
  shows "end_element (std_elem p n) (s\<lparr>us_line := Some (line_fill x)\<rparr>) = Inr (s\<lparr>us_lines := us_lines s @ [line_core x]\<rparr>)"
proof -
  have n: "n \<noteq> ''CommodityClassification''" "n \<noteq> ''TaxSubtotal''" "n \<noteq> ''PaymentMeans''" "n \<noteq> ''UBLExtension''"
    "n = ''InvoiceLine'' \<or> n = ''CreditNoteLine''"
    using assms(2) by (auto simp: line_names_def)
  then show ?thesis
    using assms(1,3) by (cases s) (simp add: end_element_def end_line_def end_tax_def end_payment_def is_element_def line_filled)
qed

lemma run_line:
  assumes "calm s" "plain_root r" "reads_decimals ops dec" "all_plain [line_tree ops t cur x]"
  shows "tree_run dec [r] s (line_tree ops t cur x) = Inr (s\<lparr>us_lines := us_lines s @ [line_core x]\<rparr>)"
proof -
  let ?e = "std_elem ''cac'' (line_name t)"
  have c: "us_capture s = None" "us_line s = None" "us_tax s = None" "us_payment s = None"
    using assms(1) by (simp_all add: calm_def)
  have n: "line_name t \<in> set line_names" by (simp add: line_name_def line_names_def)
  have ready: "run_line_ready ?e s" using c n by (simp add: run_line_ready_def)
  have er: "?e \<noteq> r" using assms(2) by (auto simp: plain_root_def line_name_def)
  have p: "bare_text (line_id x)" "bare_text (dop_to_string ops (line_quantity x))" "bare_text (dop_to_string ops (line_extension_amount x))"
    "bare_text (dop_to_string ops (line_unit_price x))" "all_plain (map (charge_tree ops cur) (line_allowance_charges x))"
    "all_plain (item_trees x)"
    using assms(4) by (simp_all add: line_tree_def)
  let ?s = "\<lambda>l. s\<lparr>us_line := Some l\<rparr>"
  have price: "tree_run dec [?e, r] (?s l) (cac ''Price'' [amount_tree ops cur ''PriceAmount'' (line_unit_price x)])
      = Inr (?s (l\<lparr>lb_unit_price := Some (line_unit_price x)\<rparr>))" for l
    using c p(4) by (intro run_cac) (simp_all add: special_names_def line_amounts [OF ready assms(2,3)])
  note steps = line_leaves [OF ready assms(2)] run_quantity [OF ready assms(2,3) _ er] line_amounts [OF ready assms(2,3)]
    run_charges [OF ready assms(2)] run_item [OF ready assms(2)] price
  have "trees_run dec [?e, r] (?s line_builder_new)
      ([cbc ''ID'' (line_id x),
         cbc_with (quantity_name t) (unit_attrs (line_unit_code x)) (dop_to_string ops (line_quantity x)),
         amount_tree ops cur ''LineExtensionAmount'' (line_extension_amount x)]
        @ map (charge_tree ops cur) (line_allowance_charges x)
        @ [cac ''Item'' (item_trees x), cac ''Price'' [amount_tree ops cur ''PriceAmount'' (line_unit_price x)]])
      = Inr (?s (line_fill x))"
    using p
    by (cases "line_tax_category x") (simp_all add: steps line_builder_new_def line_fill_def item_fill_def)
  then show ?thesis
    unfolding line_tree_def cac_def using c n by (simp add: start_line end_of_line)
qed

lemma run_lines:
  assumes "plain_root r" "reads_decimals ops dec"
  shows "calm s \<Longrightarrow> all_plain (map (line_tree ops t cur) xs) \<Longrightarrow>
    trees_run dec [r] s (map (line_tree ops t cur) xs) = Inr (s\<lparr>us_lines := us_lines s @ map line_core xs\<rparr>)"
  by (induction xs arbitrary: s) (simp_all add: run_line [OF _ assms] calm_def)

section \<open>The metadata extension\<close>

definition meta_fill :: "document_meta \<Rightarrow> 'd ubl_state \<Rightarrow> 'd ubl_state" where
  "meta_fill m s = s\<lparr>us_extension_uri := None, us_tenant_id := Some (meta_tenant_id m), us_trace_id := Some (meta_trace_id m),
     us_source_system := (case meta_source_system m of None \<Rightarrow> us_source_system s | Some v \<Rightarrow> Some v)\<rparr>"

lemma run_std:
  assumes "us_capture s = None" "2 \<le> length stack" "n \<notin> set special_names"
    "trees_run dec (std_elem p n # stack) s ts = Inr s'" "us_capture s' = None"
  shows "tree_run dec stack s (UElem (std_elem p n) [] ts) = Inr s'"
  using assms by (simp add: start_other end_other)

lemma meta_leaf:
  assumes "calm s" "plain_root r" "bare_text v" "us_extension_uri s = Some invoicekit_metadata_urn"
    and st: "st = [std_elem ''ik'' ''DocumentMeta'', std_elem ''ext'' ''ExtensionContent'', std_elem ''ext'' ''UBLExtension'',
      std_elem ''ext'' ''UBLExtensions'', r]"
  shows "tree_run dec st s (UElem (std_elem ''ik'' ''TenantID'') [] [UText v]) = Inr (s\<lparr>us_tenant_id := Some v\<rparr>)"
    "tree_run dec st s (UElem (std_elem ''ik'' ''TraceID'') [] [UText v]) = Inr (s\<lparr>us_trace_id := Some v\<rparr>)"
    "tree_run dec st s (UElem (std_elem ''ik'' ''SourceSystem'') [] [UText v]) = Inr (s\<lparr>us_source_system := Some v\<rparr>)"
proof -
  have std: "map_of std_prefixes ''ik'' = Some ns_ik" "map_of std_prefixes ''ext'' = Some ns_ext"
    by (simp_all add: std_prefixes_def)
  have field: "is_metadata_field s (std_elem ''ik'' n # st) k \<longleftrightarrow> n = k" for n k
    using assms(4) by (auto simp: st is_metadata_field_def in_top_level_ubl_extension_def path_ends_ns_def is_element_def std)
  have no_role: "party_role st = None" "\<not> in_any st [''LegalMonetaryTotal'']"
    using root_no_role [OF assms(2)] by (simp_all add: st role_names_def)
  have leaf: "tree_run dec st s (UElem (std_elem ''ik'' n) [] [UText v]) = Inr (root_text (std_elem ''ik'' n # st) v s)"
    if "n \<in> {''TenantID'', ''TraceID'', ''SourceSystem''}" for n
  proof -
    have "tree_run dec st s (UElem (std_elem ''ik'' n) [] [UText v]) = value_text dec (std_elem ''ik'' n # st) v s"
      using that assms(1,3) by (intro run_leaf_std) (auto simp: calm_def st name_sets)
    also have "\<dots> = Inr (root_text (std_elem ''ik'' n # st) v s)"
      using that assms(1) no_role by (intro quiet_text) (auto simp: name_sets)
    finally show ?thesis .
  qed
  have length: "2 \<le> length st" by (simp add: st)
  have "\<not> path_ends st [''PaymentTerms'']" by (simp add: st)
  then have "root_text (std_elem ''ik'' ''TenantID'' # st) v s = s\<lparr>us_tenant_id := Some v\<rparr>"
    "root_text (std_elem ''ik'' ''TraceID'' # st) v s = s\<lparr>us_trace_id := Some v\<rparr>"
    "root_text (std_elem ''ik'' ''SourceSystem'' # st) v s = s\<lparr>us_source_system := Some v\<rparr>"
    by (simp_all add: root_text_def not_root_child [OF length] field)
  then show "tree_run dec st s (UElem (std_elem ''ik'' ''TenantID'') [] [UText v]) = Inr (s\<lparr>us_tenant_id := Some v\<rparr>)"
    "tree_run dec st s (UElem (std_elem ''ik'' ''TraceID'') [] [UText v]) = Inr (s\<lparr>us_trace_id := Some v\<rparr>)"
    "tree_run dec st s (UElem (std_elem ''ik'' ''SourceSystem'') [] [UText v]) = Inr (s\<lparr>us_source_system := Some v\<rparr>)"
    by (simp_all add: leaf del: tree_run.simps)
qed

end
