(* ===== verification/Ubl_Whole.thy ===== *)
theory Ubl_Whole
  imports Ubl_Lineup
begin

text \<open>A whole document run by the parser, and the document built from the state reached.\<close>

section \<open>Metadata\<close>

lemma plain_urn: "bare_text invoicekit_metadata_urn"
  by (simp add: invoicekit_metadata_urn_def bare_text_def) code_simp

lemma run_metadata:
  assumes "calm s" "plain_root r" "all_plain [metadata_tree m]"
  shows "tree_run dec [r] s (metadata_tree m) = Inr (meta_fill m s)"
proof -
  let ?x = "std_elem ''ext'' ''UBLExtensions''" and ?e = "std_elem ''ext'' ''UBLExtension''"
    and ?c = "std_elem ''ext'' ''ExtensionContent''" and ?m = "std_elem ''ik'' ''DocumentMeta''"
  have c: "us_capture s = None" "us_line s = None" "us_tax s = None" "us_payment s = None"
    using assms(1) by (simp_all add: calm_def)
  have std: "map_of std_prefixes ''ik'' = Some ns_ik" "map_of std_prefixes ''ext'' = Some ns_ext"
    by (simp_all add: std_prefixes_def)
  have plains: "bare_text (meta_tenant_id m)" "bare_text (meta_trace_id m)" "\<And>v. meta_source_system m = Some v \<Longrightarrow> bare_text v"
    using assms(3) by (auto simp: metadata_tree_def all_plain_def opt_tree_def)
  let ?u = "s\<lparr>us_extension_uri := Some invoicekit_metadata_urn\<rparr>"
  have open_all: "start_element [r] ?x [] s = Inr s"
    using c by (simp add: start_top core_names_def start_open_other special_names_def)
  have open_one: "start_element [?x, r] ?e [] s = Inr (s\<lparr>us_extension_uri := None\<rparr>)"
    using c by (cases s) (simp add: start_below start_open_def is_element_def is_root_ubl_extensions_def std Let_def)
  have uri: "tree_run dec [?e, ?x, r] (s\<lparr>us_extension_uri := None\<rparr>) (UElem (std_elem ''ext'' ''ExtensionURI'') [] [UText invoicekit_metadata_urn])
      = Inr ?u"
  proof -
    have "tree_run dec [?e, ?x, r] (s\<lparr>us_extension_uri := None\<rparr>) (UElem (std_elem ''ext'' ''ExtensionURI'') [] [UText invoicekit_metadata_urn])
        = value_text dec [std_elem ''ext'' ''ExtensionURI'', ?e, ?x, r] invoicekit_metadata_urn (s\<lparr>us_extension_uri := None\<rparr>)"
      using c plain_urn by (intro run_leaf_std) (simp_all add: special_names_def raw_names_def)
    then show ?thesis
      by (simp add: value_text_def path_ends_ns_def in_top_level_ubl_extension_def is_element_def std del: tree_run.simps)
  qed
  note leaves = meta_leaf [OF _ assms(2) _ _ HOL.refl]
  have calm: "calm ?u" "calm (?u\<lparr>us_tenant_id := a\<rparr>)" "calm (?u\<lparr>us_tenant_id := a, us_trace_id := b\<rparr>)" for a b
    using c by (simp_all add: calm_def)
  have fields: "trees_run dec [?m, ?c, ?e, ?x, r] ?u
      ([UElem (std_elem ''ik'' ''TenantID'') [] [UText (meta_tenant_id m)],
        UElem (std_elem ''ik'' ''TraceID'') [] [UText (meta_trace_id m)]]
       @ opt_tree (\<lambda>v. UElem (std_elem ''ik'' ''SourceSystem'') [] [UText v]) (meta_source_system m))
      = Inr ((meta_fill m s)\<lparr>us_extension_uri := Some invoicekit_metadata_urn\<rparr>)" (is "trees_run _ _ _ ?fs = _")
    using plains calm
    by (cases "meta_source_system m") (simp_all add: leaves opt_tree_def meta_fill_def del: tree_run.simps)
  have "tree_run dec [?c, ?e, ?x, r] ?u (UElem ?m [] ?fs) = Inr ((meta_fill m s)\<lparr>us_extension_uri := Some invoicekit_metadata_urn\<rparr>)"
    using c fields by (intro run_std) (simp_all add: special_names_def meta_fill_def)
  then have "tree_run dec [?e, ?x, r] ?u (UElem ?c [] [UElem ?m [] ?fs]) = Inr ((meta_fill m s)\<lparr>us_extension_uri := Some invoicekit_metadata_urn\<rparr>)"
    using c by (intro run_std) (simp_all add: special_names_def meta_fill_def del: tree_run.simps)
  moreover have "end_element ?e ((meta_fill m s)\<lparr>us_extension_uri := Some invoicekit_metadata_urn\<rparr>) = Inr (meta_fill m s)"
    using c by (simp add: end_element_def end_line_def end_tax_def end_payment_def is_element_def std meta_fill_def)
  ultimately have "tree_run dec [?x, r] s (UElem ?e [] [UElem (std_elem ''ext'' ''ExtensionURI'') [] [UText invoicekit_metadata_urn],
      UElem ?c [] [UElem ?m [] ?fs]]) = Inr (meta_fill m s)"
    by (subst tree_run.simps) (simp add: open_one uri del: tree_run.simps)
  moreover have "end_element ?x (meta_fill m s) = Inr (meta_fill m s)"
    using c by (intro end_other) (simp_all add: meta_fill_def special_names_def)
  ultimately show ?thesis
    by (subst metadata_tree_def, subst tree_run.simps) (simp add: open_all del: tree_run.simps)
qed

section \<open>The parties\<close>

lemma below_top:
  "plain_root r \<Longrightarrow> below_party RoleSupplier [std_elem ''cac'' ''AccountingSupplierParty'', r]"
  "plain_root r \<Longrightarrow> below_party RoleCustomer [std_elem ''cac'' ''AccountingCustomerParty'', r]"
  "plain_root r \<Longrightarrow> below_party RolePayee [std_elem ''cac'' ''PayeeParty'', r]"
  by (auto simp: below_party_def party_role_def plain_root_def)

lemma run_wrapped_party:
  assumes "calm s" "below_party role [std_elem ''cac'' n, r]" "''cac:'' @ n \<in> set core_names" "n \<notin> set special_names" "n \<noteq> ''Note''"
    "all_plain (party_trees p)"
  shows "tree_run dec [r] s (cac n [cac ''Party'' (party_trees p)]) = Inr (upd_party role (party_fill p) s)"
    "tree_run dec [r] s (cac n (party_trees p)) = Inr (upd_party role (party_fill p) s)"
proof -
  have c: "us_capture s = None" using assms(1) by (simp add: calm_def)
  have b: "below_party role [std_elem ''cac'' ''Party'', std_elem ''cac'' n, r]"
    using assms(2) by (simp add: role_names_def)
  have "tree_run dec [std_elem ''cac'' n, r] s (cac ''Party'' (party_trees p)) = Inr (upd_party role (party_fill p) s)"
    by (rule container_in_party [OF assms(1,2)]) (simp_all add: run_party [OF assms(1) b assms(6)] name_sets)
  then show "tree_run dec [r] s (cac n [cac ''Party'' (party_trees p)]) = Inr (upd_party role (party_fill p) s)"
    using c assms(3-5) by (intro container_top) simp_all
  show "tree_run dec [r] s (cac n (party_trees p)) = Inr (upd_party role (party_fill p) s)"
    using c assms(3-5) run_party [OF assms(1,2,6)] by (intro container_top) simp_all
qed

definition parties_fill :: "('d, 'j) commercial_document \<Rightarrow> 'd ubl_state \<Rightarrow> 'd ubl_state" where
  "parties_fill d s =
     s\<lparr>us_supplier := party_fill (doc_supplier d) (us_supplier s), us_customer := party_fill (doc_customer d) (us_customer s),
       us_has_payee := us_has_payee s \<or> doc_payee d \<noteq> None,
       us_payee := (case doc_payee d of None \<Rightarrow> us_payee s | Some p \<Rightarrow> party_fill p (us_payee s))\<rparr>"

lemma run_document_parties:
  assumes "calm s" "plain_root r" "all_plain (document_party_trees d)"
  shows "trees_run dec [r] s (document_party_trees d) = Inr (parties_fill d s)"
proof -
  have p: "all_plain (party_trees (doc_supplier d))" "all_plain (party_trees (doc_customer d))"
    "\<And>p. doc_payee d = Some p \<Longrightarrow> all_plain (party_trees p)"
    using assms(3) by (auto simp: document_party_trees_def)
  note parties = run_wrapped_party [OF _ below_top(1) [OF assms(2)]] run_wrapped_party [OF _ below_top(2) [OF assms(2)]]
    run_wrapped_party [OF _ below_top(3) [OF assms(2)]]
  have names: "''cac:AccountingSupplierParty'' \<in> set core_names" "''cac:AccountingCustomerParty'' \<in> set core_names"
    "''cac:PayeeParty'' \<in> set core_names" by (simp_all add: core_names_def)
  show ?thesis
    using assms(1) p names
    by (cases "doc_payee d"; cases s)
      (simp_all add: document_party_trees_def parties special_names_def opt_tree_def parties_fill_def upd_party_def calm_def)
qed

section \<open>The header\<close>

definition default_fragments :: "ubl_tree list" where
  "default_fragments = [cbc ''CustomizationID'' ''urn:invoicekit:ubl:2.1:core'', cbc ''ProfileID'' ''urn:invoicekit:profile:core'']"

lemma default_fragments_kept: "list_all (fragment_tree k) default_fragments"
proof -
  have "bare_text ''urn:invoicekit:ubl:2.1:core''" "bare_text ''urn:invoicekit:profile:core''" by code_simp+
  moreover have "kept_name k ''cbc:CustomizationID''" "kept_name k ''cbc:ProfileID''"
    using fragments_kept [of k] by (simp_all add: fragment_names_def)
  moreover have "ubl_name ''CustomizationID''" "ubl_name ''ProfileID''" by code_simp+
  ultimately show ?thesis
    by (simp add: default_fragments_def fragment_tree_def cbc_def std_elem_facts ubl_attrs_ok_def exI [of _ "''cbc''"])
      (metis prefix_memberships(2))
qed

end
