(* ===== verification/Ubl_Return.thy ===== *)
theory Ubl_Return
  imports Ubl_Whole
begin

text \<open>
  The tree of a document is one the canonical form and the parser's loop treat as a tree, and the parser's
  run over it.
\<close>

section \<open>Well-formed trees\<close>

lemma utree_ok_built [simp]:
  "utree_ok (cac n ts) \<longleftrightarrow> ubl_name n \<and> utrees_ok False ts"
  "utree_ok (cbc n v) \<longleftrightarrow> ubl_name n \<and> bare_text v"
  "utree_ok (cbc_with n as v) \<longleftrightarrow> ubl_name n \<and> ubl_attrs_ok as \<and> bare_text v"
proof -
  have "\<exists>p \<in> all_prefixes. std_elem ''cac'' n = std_elem p n" "\<exists>p \<in> all_prefixes. std_elem ''cbc'' n = std_elem p n"
    by (rule bexI [of _ "''cac''"], simp_all) (rule bexI [of _ "''cbc''"], simp_all)
  then show "utree_ok (cac n ts) \<longleftrightarrow> ubl_name n \<and> utrees_ok False ts" "utree_ok (cbc n v) \<longleftrightarrow> ubl_name n \<and> bare_text v"
    "utree_ok (cbc_with n as v) \<longleftrightarrow> ubl_name n \<and> ubl_attrs_ok as \<and> bare_text v"
    by (simp_all add: cac_def cbc_def cbc_with_def ubl_attrs_ok_def)
qed

lemma utree_ok_std [simp]:
  "p \<in> all_prefixes \<Longrightarrow> utree_ok (UElem (std_elem p n) [] ts) \<longleftrightarrow> ubl_name n \<and> utrees_ok False ts"
  by (auto simp: ubl_attrs_ok_def)

definition element_tree :: "ubl_tree \<Rightarrow> bool" where
  "element_tree t \<longleftrightarrow> (case t of UElem e as ts \<Rightarrow> utree_ok t | UText v \<Rightarrow> False)"

lemma element_trees: "list_all element_tree ts \<Longrightarrow> utrees_ok b ts"
  by (induction ts arbitrary: b) (auto simp: element_tree_def split: ubl_tree.splits)

lemma element_built [simp]:
  "element_tree (cac n ts) \<longleftrightarrow> ubl_name n \<and> utrees_ok False ts"
  "element_tree (cbc n v) \<longleftrightarrow> ubl_name n \<and> bare_text v"
  "element_tree (cbc_with n as v) \<longleftrightarrow> ubl_name n \<and> ubl_attrs_ok as \<and> bare_text v"
  "p \<in> all_prefixes \<Longrightarrow> element_tree (UElem (std_elem p n) [] ts) \<longleftrightarrow> ubl_name n \<and> utrees_ok False ts"
  using utree_ok_built [of n] utree_ok_std [of p n ts]
  by (simp_all add: element_tree_def cac_def cbc_def cbc_with_def del: utree_ok.simps utree_ok_built utree_ok_std)

lemma element_maps [simp]:
  "list_all element_tree (map f xs) \<longleftrightarrow> (\<forall>x \<in> set xs. element_tree (f x))"
  by (simp add: list_all_iff)

text \<open>The names the serializer writes.\<close>

definition written_names :: "string list" where
  "written_names =
     [''CustomizationID'', ''ProfileID'', ''ID'', ''UUID'', ''IssueDate'', ''DueDate'', ''InvoiceTypeCode'', ''CreditNoteTypeCode'',
      ''Note'', ''TaxPointDate'', ''DocumentCurrencyCode'', ''InvoicePeriod'', ''StartDate'', ''EndDate'', ''OrderReference'',
      ''BillingReference'', ''InvoiceDocumentReference'', ''DespatchDocumentReference'', ''ReceiptDocumentReference'',
      ''ContractDocumentReference'', ''AccountingSupplierParty'', ''AccountingCustomerParty'', ''PayeeParty'', ''Party'',
      ''EndpointID'', ''PartyIdentification'', ''PartyName'', ''Name'', ''PostalAddress'', ''Address'', ''StreetName'',
      ''AdditionalStreetName'', ''CityName'', ''PostalZone'', ''CountrySubentity'', ''Country'', ''IdentificationCode'',
      ''PartyTaxScheme'', ''CompanyID'', ''TaxScheme'', ''PartyLegalEntity'', ''RegistrationName'', ''Contact'', ''Telephone'',
      ''ElectronicMail'', ''Delivery'', ''ActualDeliveryDate'', ''DeliveryLocation'', ''DeliveryParty'', ''AllowanceCharge'',
      ''ChargeIndicator'', ''AllowanceChargeReasonCode'', ''AllowanceChargeReason'', ''MultiplierFactorNumeric'', ''Amount'',
      ''BaseAmount'', ''TaxCategory'', ''Percent'', ''PaymentMeans'', ''PaymentMeansCode'', ''PaymentID'', ''PayeeFinancialAccount'',
      ''PaymentTerms'', ''TaxTotal'', ''TaxSubtotal'', ''TaxableAmount'', ''TaxAmount'', ''TaxExemptionReasonCode'',
      ''TaxExemptionReason'', ''LegalMonetaryTotal'', ''LineExtensionAmount'', ''TaxExclusiveAmount'', ''TaxInclusiveAmount'',
      ''AllowanceTotalAmount'', ''ChargeTotalAmount'', ''PrepaidAmount'', ''PayableAmount'', ''InvoiceLine'', ''CreditNoteLine'',
      ''InvoicedQuantity'', ''CreditedQuantity'', ''Item'', ''CommodityClassification'', ''ItemClassificationCode'',
      ''ClassifiedTaxCategory'', ''Price'', ''PriceAmount'', ''UBLExtensions'', ''UBLExtension'', ''ExtensionURI'',
      ''ExtensionContent'', ''DocumentMeta'', ''TenantID'', ''TraceID'', ''SourceSystem'']"

lemma written_names_ok: "list_all ubl_name written_names"
  by code_simp

lemma written_attrs_ok:
  "ubl_attrs_ok [(''currencyID'', v)]" "ubl_attrs_ok [(''languageID'', v)]" "ubl_attrs_ok []"
  "ubl_attrs_ok (unit_attrs u)" "ubl_attrs_ok (class_attrs c)"
proof -
  have n: "ubl_name ''currencyID''" "ubl_name ''languageID''" "ubl_name ''unitCode''" "ubl_name ''listID''" "ubl_name ''listVersionID''"
    "''listID'' < ''listVersionID''"
    by code_simp+
  then show "ubl_attrs_ok [(''currencyID'', v)]" "ubl_attrs_ok [(''languageID'', v)]" "ubl_attrs_ok []"
    by (simp_all add: ubl_attrs_ok_def)
  from n show "ubl_attrs_ok (unit_attrs u)" "ubl_attrs_ok (class_attrs c)"
    by (simp_all add: ubl_attrs_ok_def unit_attrs_def class_attrs_def split: option.split)
qed

lemmas names_ok [simp] = written_names_ok [unfolded written_names_def list.pred_inject] written_attrs_ok

declare utrees_ok.simps [simp del]

lemma address_elements:
  "all_plain [address_tree n a] \<Longrightarrow> ubl_name n \<Longrightarrow> element_tree (address_tree n a)"
  by (auto simp: address_tree_def intro!: element_trees split: list.splits option.splits)

lemma reference_elements: "all_plain (reference_trees r) \<Longrightarrow> list_all element_tree (reference_trees r)"
  by (auto simp: reference_trees_def date_tree_def split: option.split)

lemma party_elements: "all_plain (party_trees p) \<Longrightarrow> list_all element_tree (party_trees p)"
  by (auto simp: party_trees_def tax_id_tree_def tax_scheme_tree_def contact_tree_def intro!: element_trees address_elements
      split: option.splits)

lemma charge_elements: "all_plain [charge_tree ops cur a] \<Longrightarrow> element_tree (charge_tree ops cur a)"
  by (auto simp: charge_tree_def tax_scheme_tree_def amount_tree_def decimal_tree_def intro!: element_trees split: option.splits)

lemma metadata_elements: "all_plain [metadata_tree m] \<Longrightarrow> element_tree (metadata_tree m)"
proof -
  have "bare_text v \<Longrightarrow> utrees_ok False [UText v]" for v by (simp add: utrees_ok.simps)
  then show "all_plain [metadata_tree m] \<Longrightarrow> ?thesis"
    by (auto simp: metadata_tree_def all_plain_def opt_tree_def list_all_iff intro!: element_trees split: option.splits)
qed

lemma slot_elements: "all_plain (slot_trees d) \<Longrightarrow> list_all element_tree (slot_trees d)"
  by (auto simp: slot_trees_def Let_def period_trees_def order_trees_def billing_trees_def typed_references_def date_tree_def
      intro!: element_trees reference_elements split: option.split)

lemma deliver_to_elements:
  assumes "all_plain (deliver_to_trees t)"
  shows "list_all element_tree (deliver_to_trees t)"
proof -
  have "list_all element_tree (opt_tree (cbc ''ID'') (dtp_location_id t) @ opt_tree (address_tree ''Address'') (dtp_address t))"
    using assms by (cases "dtp_location_id t"; cases "dtp_address t") (simp_all add: deliver_to_trees_def opt_tree_def address_elements)
  moreover have "list_all element_tree (opt_tree (\<lambda>n. cac ''DeliveryParty'' [cac ''PartyName'' [cbc ''Name'' n]]) (dtp_name t))"
    using assms by (cases "dtp_name t") (auto simp: deliver_to_trees_def opt_tree_def intro!: element_trees)
  ultimately show ?thesis by (auto simp: deliver_to_trees_def intro: element_trees simp del: list_all_append list_all_opt)
qed

lemma delivery_elements:
  assumes "all_plain (delivery_trees d)"
  shows "list_all element_tree (delivery_trees d)"
proof -
  have "list_all element_tree (opt_tree (date_tree ''ActualDeliveryDate'') (doc_delivery_date d))"
    using assms by (cases "doc_delivery_date d"; cases "doc_deliver_to d") (simp_all add: delivery_trees_def date_tree_def opt_tree_def)
  moreover have "list_all element_tree (case doc_deliver_to d of None \<Rightarrow> [] | Some t \<Rightarrow> deliver_to_trees t)"
    using assms by (cases "doc_deliver_to d") (simp_all add: delivery_trees_def deliver_to_elements)
  ultimately show ?thesis by (simp add: delivery_trees_def element_trees del: list_all_opt)
qed

lemma payment_elements: "all_plain [payment_tree p] \<Longrightarrow> element_tree (payment_tree p)"
  by (auto simp: payment_tree_def intro!: element_trees split: option.split)

lemma subtotal_elements: "all_plain [subtotal_tree ops cur t] \<Longrightarrow> element_tree (subtotal_tree ops cur t)"
  by (auto simp: subtotal_tree_def tax_scheme_tree_def amount_tree_def decimal_tree_def intro!: element_trees split: option.split)

lemma total_elements: "all_plain [total_tree ops cur t] \<Longrightarrow> element_tree (total_tree ops cur t)"
  unfolding total_tree_def element_built
  by (intro conjI element_trees) (auto simp: amount_tree_def split: option.split)

lemma settlement_elements:
  assumes "all_plain (settlement_trees ops taxes d)"
  shows "list_all element_tree (settlement_trees ops taxes d)"
proof -
  let ?cur = "currency_str (doc_currency d)"
  have p: "\<And>x. x \<in> set (doc_payment_instructions d) \<Longrightarrow> all_plain [payment_tree x]"
    "\<And>t. doc_payment_terms d = Some t \<Longrightarrow> all_plain [terms_tree t]"
    "\<And>x. x \<in> set (doc_allowance_charges d) \<Longrightarrow> all_plain [charge_tree ops ?cur x]"
    "all_plain (tax_total_trees ops ?cur taxes (doc_tax_summary d))" "all_plain [total_tree ops ?cur (doc_monetary_total d)]"
    using assms by (simp_all add: settlement_trees_def Let_def)
  have "list_all element_tree (tax_total_trees ops ?cur taxes (doc_tax_summary d))"
    using p(4) by (auto simp: tax_total_trees_def amount_tree_def intro!: element_trees subtotal_elements split: if_splits)
  moreover have "list_all element_tree (opt_tree terms_tree (doc_payment_terms d))"
    using p(2) by (auto simp: terms_tree_def intro!: element_trees split: option.split)
  ultimately show ?thesis
    using p(1,3,5) by (simp add: settlement_trees_def Let_def payment_elements charge_elements total_elements)
qed

lemma class_elements: "all_plain [class_tree c] \<Longrightarrow> element_tree (class_tree c)"
  by (auto simp: class_tree_def intro!: element_trees)

lemma quantity_name_ok [simp]: "ubl_name (quantity_name t)" "ubl_name (line_name t)"
  by (simp_all add: quantity_name_def line_name_def)

lemma line_elements: "all_plain [line_tree ops t cur x] \<Longrightarrow> element_tree (line_tree ops t cur x)"
  by (auto simp: line_tree_def item_trees_def tax_scheme_tree_def amount_tree_def
      intro!: element_trees charge_elements class_elements split: option.splits)

lemma header_elements: "all_plain (header_trees d) \<Longrightarrow> list_all element_tree (header_trees d)"
  by (auto simp: header_trees_def type_trees_def date_tree_def note_tree_def intro!: metadata_elements split: option.splits)

lemma parties_elements: "all_plain (document_party_trees d) \<Longrightarrow> list_all element_tree (document_party_trees d)"
  by (auto simp: document_party_trees_def intro!: element_trees party_elements split: option.splits)

lemma document_trees_ok: "all_plain (document_trees ops taxes d) \<Longrightarrow> utrees_ok False (document_trees ops taxes d)"
  by (intro element_trees) (auto simp: document_trees_def header_elements slot_elements parties_elements delivery_elements
      settlement_elements line_elements)

section \<open>The fragments\<close>

definition fragment_named :: "ubl_tree \<Rightarrow> bool" where
  "fragment_named t \<longleftrightarrow> (\<exists>n ts. t = cac n ts \<and> ''cac:'' @ n \<in> set fragment_names)"

lemma fragment_named_cac: "''cac:'' @ n \<in> set fragment_names \<Longrightarrow> fragment_named (cac n ts)"
  by (auto simp: fragment_named_def)

lemma named_fragments: "list_all fragment_named ts \<Longrightarrow> list_all element_tree ts \<Longrightarrow> list_all (fragment_tree k) ts"
proof (induction ts)
  case (Cons t ts)
  then obtain n us where t: "t = cac n us" "''cac:'' @ n \<in> set fragment_names" by (auto simp: fragment_named_def)
  then have "kept_name k (''cac:'' @ n)" using fragments_kept [of k] by (auto simp: list_all_iff)
  then have "fragment_tree k t"
    using Cons.prems(2) t by (simp add: fragment_tree_def element_tree_def std_elem_facts cac_def)
  with Cons show ?case by simp
qed simp

lemma fragments_named:
  "list_all fragment_named (slot_trees d)" "list_all fragment_named (delivery_trees d)"
  "list_all fragment_named (map (charge_tree ops cur) as)"
  by (auto simp: slot_trees_def Let_def period_trees_def order_trees_def billing_trees_def typed_references_def
      delivery_trees_def charge_tree_def list_all_iff opt_tree_def fragment_names_def intro!: fragment_named_cac
      split: option.splits)

lemma run_fragment_list:
  assumes "us_capture s = None" "Option.bind (us_document_type s) document_kind_from_type = Some k"
    "list_all fragment_named ts" "list_all element_tree ts"
  shows "trees_run dec [r] s ts = Inr (s\<lparr>us_preserved := us_preserved s @ map fragment_of ts\<rparr>)"
  by (rule run_fragments [OF assms(1,2) named_fragments [OF assms(3,4)]])

end
