(* ===== verification/Ubl_Round.thy ===== *)
theory Ubl_Round
  imports Ubl_Return
begin

text \<open>The parser's run over the tree of a whole document.\<close>

section \<open>The state after the document\<close>

definition type_of_kind :: "ubl_document_kind \<Rightarrow> document_type" where
  "type_of_kind k = (case k of KindInvoice \<Rightarrow> Invoice | KindCreditNote \<Rightarrow> CreditNote)"

lemma kind_of_type [simp]: "document_kind_from_type (type_of_kind k) = Some k"
  by (cases k) (simp_all add: type_of_kind_def)

definition ready :: "ubl_document_kind \<Rightarrow> 'd ubl_state \<Rightarrow> bool" where
  "ready k s \<longleftrightarrow> calm s \<and> us_document_type s = Some (type_of_kind k)"

definition opt_or :: "'a option \<Rightarrow> 'a option \<Rightarrow> 'a option" where
  "opt_or x y = (case x of None \<Rightarrow> y | Some v \<Rightarrow> Some v)"

lemma run_date_opt:
  assumes "calm s" "plain_root r" "all_plain (opt_tree (date_tree n) x)"
    "\<And>v. bare_text v \<Longrightarrow> tree_run dec [r] s (cbc n v) = Inr (f v s)"
  shows "trees_run dec [r] s (opt_tree (date_tree n) x) = Inr (case x of None \<Rightarrow> s | Some d \<Rightarrow> f (date_str d) s)"
  using assms by (simp add: trees_run_opt date_tree_def split: option.split)

definition type_fill :: "('d, 'j) commercial_document \<Rightarrow> 'd ubl_state \<Rightarrow> 'd ubl_state" where
  "type_fill d s =
     s\<lparr>us_due_date := (if doc_document_type d = Invoice then opt_or (map_option date_str (doc_due_date d)) (us_due_date s)
          else us_due_date s),
       us_tax_point_date := opt_or (map_option date_str (doc_tax_point_date d)) (us_tax_point_date s),
       us_notes := us_notes s @ doc_notes d\<rparr>"

lemma calm_fields [simp]:
  "calm (s\<lparr>us_due_date := x\<rparr>) \<longleftrightarrow> calm s" "calm (s\<lparr>us_tax_point_date := x\<rparr>) \<longleftrightarrow> calm s"
  "calm (s\<lparr>us_notes := a\<rparr>) \<longleftrightarrow> calm s" "calm (s\<lparr>us_note_language := x\<rparr>) \<longleftrightarrow> calm s"
  "calm (s\<lparr>us_document_number := x\<rparr>) \<longleftrightarrow> calm s" "calm (s\<lparr>us_document_id := x\<rparr>) \<longleftrightarrow> calm s"
  "calm (s\<lparr>us_issue_date := x\<rparr>) \<longleftrightarrow> calm s" "calm (s\<lparr>us_currency := x\<rparr>) \<longleftrightarrow> calm s"
  "calm (s\<lparr>us_preserved := b\<rparr>) \<longleftrightarrow> calm s" "calm (s\<lparr>us_terms := x\<rparr>) \<longleftrightarrow> calm s"
  "calm (s\<lparr>us_payments := c\<rparr>) \<longleftrightarrow> calm s" "calm (s\<lparr>us_dropped := e\<rparr>) \<longleftrightarrow> calm s"
  "calm (s\<lparr>us_tax_summary := f\<rparr>) \<longleftrightarrow> calm s" "calm (s\<lparr>us_total := g\<rparr>) \<longleftrightarrow> calm s"
  "calm (s\<lparr>us_lines := h\<rparr>) \<longleftrightarrow> calm s" "calm (meta_fill m s) \<longleftrightarrow> calm s" "calm (parties_fill d s) \<longleftrightarrow> calm s"
  by (simp_all add: calm_def meta_fill_def parties_fill_def)

lemma run_type:
  assumes "calm s" "plain_root r" "all_plain (type_trees d)"
  shows "\<exists>l. trees_run dec [r] s (type_trees d) = Inr ((type_fill d s)\<lparr>us_note_language := l\<rparr>)"
proof (cases "doc_document_type d = Invoice")
  case True
  have p: "all_plain (opt_tree (date_tree ''DueDate'') (doc_due_date d))" "bare_text ''380''" "all_plain (map note_tree (doc_notes d))"
    "all_plain (opt_tree (date_tree ''TaxPointDate'') (doc_tax_point_date d))"
    using assms(3) True by (simp_all add: type_trees_def)
  let ?s = "case doc_due_date d of None \<Rightarrow> s | Some x \<Rightarrow> s\<lparr>us_due_date := Some (date_str x)\<rparr>"
  have s: "calm ?s" using assms(1) by (simp split: option.split)
  obtain l where l: "trees_run dec [r] ?s (map note_tree (doc_notes d))
      = Inr (?s\<lparr>us_note_language := l, us_notes := us_notes ?s @ doc_notes d\<rparr>)"
    using run_notes [OF assms(2) s p(3)] by blast
  let ?n = "?s\<lparr>us_note_language := l, us_notes := us_notes ?s @ doc_notes d\<rparr>"
  have "calm ?n" using s by simp
  then have "trees_run dec [r] ?n (opt_tree (date_tree ''TaxPointDate'') (doc_tax_point_date d))
      = Inr (case doc_tax_point_date d of None \<Rightarrow> ?n | Some x \<Rightarrow> ?n\<lparr>us_tax_point_date := Some (date_str x)\<rparr>)"
    using assms(2) p(4) by (rule run_date_opt) (rule header_leaves [OF \<open>calm ?n\<close> assms(2)])
  moreover have "(case doc_tax_point_date d of None \<Rightarrow> ?n | Some x \<Rightarrow> ?n\<lparr>us_tax_point_date := Some (date_str x)\<rparr>)
      = (type_fill d s)\<lparr>us_note_language := l\<rparr>"
    using True by (cases s; cases "doc_due_date d"; cases "doc_tax_point_date d") (simp_all add: type_fill_def opt_or_def)
  moreover have "trees_run dec [r] s (opt_tree (date_tree ''DueDate'') (doc_due_date d)) = Inr ?s"
    using assms(1,2) p(1) by (rule run_date_opt) (rule header_leaves [OF assms(1,2)])
  moreover have "tree_run dec [r] ?s (cbc ''InvoiceTypeCode'' ''380'') = Inr ?s"
    by (rule type_code_leaves [OF s assms(2) p(2)]) simp
  ultimately show ?thesis using True l by (intro exI [of _ l]) (simp add: type_trees_def)
next
  case False
  have p: "bare_text ''381''" "all_plain (map note_tree (doc_notes d))"
    "all_plain (opt_tree (date_tree ''TaxPointDate'') (doc_tax_point_date d))"
    using assms(3) False by (simp_all add: type_trees_def)
  let ?s = "case doc_tax_point_date d of None \<Rightarrow> s | Some x \<Rightarrow> s\<lparr>us_tax_point_date := Some (date_str x)\<rparr>"
  have s: "calm ?s" using assms(1) by (simp split: option.split)
  obtain l where l: "trees_run dec [r] ?s (map note_tree (doc_notes d))
      = Inr (?s\<lparr>us_note_language := l, us_notes := us_notes ?s @ doc_notes d\<rparr>)"
    using run_notes [OF assms(2) s p(2)] by blast
  moreover have "?s\<lparr>us_note_language := l, us_notes := us_notes ?s @ doc_notes d\<rparr> = (type_fill d s)\<lparr>us_note_language := l\<rparr>"
    using False by (cases s; cases "doc_tax_point_date d") (simp_all add: type_fill_def opt_or_def)
  moreover have "trees_run dec [r] s (opt_tree (date_tree ''TaxPointDate'') (doc_tax_point_date d)) = Inr ?s"
    using assms(1,2) p(3) by (rule run_date_opt) (rule header_leaves [OF assms(1,2)])
  moreover have "tree_run dec [r] ?s (cbc ''CreditNoteTypeCode'' ''381'') = Inr ?s"
    by (rule type_code_leaves [OF s assms(2) p(1)]) simp
  ultimately show ?thesis using False by (intro exI [of _ l]) (simp add: type_trees_def)
qed

definition header_fill :: "('d, 'j) commercial_document \<Rightarrow> 'd ubl_state \<Rightarrow> 'd ubl_state" where
  "header_fill d s =
     (type_fill d (meta_fill (doc_meta d) s))\<lparr>
       us_preserved := us_preserved s @ map fragment_of default_fragments,
       us_document_number := Some (document_number_str (doc_document_number d)),
       us_document_id := Some (document_id_str (doc_id d)), us_issue_date := Some (date_str (doc_issue_date d)),
       us_currency := Some (currency_str (doc_currency d))\<rparr>"

lemma run_header:
  assumes "ready k s" "plain_root r" "all_plain (header_trees d)"
  shows "\<exists>l. trees_run dec [r] s (header_trees d) = Inr ((header_fill d s)\<lparr>us_note_language := l\<rparr>)"
proof -
  have p: "all_plain [metadata_tree (doc_meta d)]" "bare_text (document_number_str (doc_document_number d))"
    "bare_text (document_id_str (doc_id d))" "bare_text (date_str (doc_issue_date d))" "all_plain (type_trees d)"
    "bare_text (currency_str (doc_currency d))"
    using assms(3) by (simp_all add: header_trees_def date_tree_def)
  have calm: "calm s" and type: "us_document_type s = Some (type_of_kind k)" using assms(1) by (simp_all add: ready_def)
  let ?m = "meta_fill (doc_meta d) s"
  let ?f = "?m\<lparr>us_preserved := us_preserved ?m @ map fragment_of default_fragments\<rparr>"
  let ?h = "?f\<lparr>us_document_number := Some (document_number_str (doc_document_number d)),
      us_document_id := Some (document_id_str (doc_id d)), us_issue_date := Some (date_str (doc_issue_date d))\<rparr>"
  have "us_capture ?m = None" using calm by (simp add: meta_fill_def calm_def)
  moreover have "Option.bind (us_document_type ?m) document_kind_from_type = Some k" using type by (simp add: meta_fill_def)
  ultimately have frs: "trees_run dec [r] ?m default_fragments = Inr ?f"
    using default_fragments_kept by (rule run_fragments)
  obtain l where l: "trees_run dec [r] ?h (type_trees d) = Inr ((type_fill d ?h)\<lparr>us_note_language := l\<rparr>)"
    using run_type [OF _ assms(2) p(5), of ?h] calm by auto
  have "trees_run dec [r] s (metadata_tree (doc_meta d) # default_fragments
      @ [cbc ''ID'' (document_number_str (doc_document_number d)), cbc ''UUID'' (document_id_str (doc_id d)),
         date_tree ''IssueDate'' (doc_issue_date d)] @ type_trees d @ [cbc ''DocumentCurrencyCode'' (currency_str (doc_currency d))])
      = Inr ((type_fill d ?h)\<lparr>us_note_language := l, us_currency := Some (currency_str (doc_currency d))\<rparr>)"
    using l calm p(2-4,6)
    by (simp add: run_metadata [OF _ assms(2) p(1)] frs header_leaves [OF _ assms(2)] date_tree_def type_fill_def)
  moreover have "(type_fill d ?h)\<lparr>us_note_language := l, us_currency := Some (currency_str (doc_currency d))\<rparr>
      = (header_fill d s)\<lparr>us_note_language := l\<rparr>"
    by (cases s) (simp add: header_fill_def type_fill_def meta_fill_def)
  ultimately show ?thesis by (intro exI [of _ l]) (simp add: header_trees_def default_fragments_def)
qed

text \<open>Everything after the parties.\<close>

definition settlement_fill ::
  "'d decimal_ops \<Rightarrow> ('d, 'j) commercial_document \<Rightarrow> 'd ubl_state \<Rightarrow> 'd ubl_state" where
  "settlement_fill ops d s =
     s\<lparr>us_payments := us_payments s @ List.map_filter payment_core (doc_payment_instructions d),
       us_dropped := us_dropped s + length (filter (\<lambda>p. payment_core p = None) (doc_payment_instructions d)),
       us_terms := opt_or (map_option terms_description (doc_payment_terms d)) (us_terms s),
       us_preserved := us_preserved s @ map fragment_of (map (charge_tree ops (currency_str (doc_currency d))) (doc_allowance_charges d)),
       us_tax_summary := us_tax_summary s @ doc_tax_summary d, us_total := total_fill (doc_monetary_total d)\<rparr>"

lemma run_settlement:
  assumes "ready k s" "plain_root r" "all_plain (settlement_trees ops taxes d)" "reads_decimals ops dec"
    "us_total s = total_builder_new"
  shows "trees_run dec [r] s (settlement_trees ops taxes d) = Inr (settlement_fill ops d s)"
proof -
  let ?cur = "currency_str (doc_currency d)"
  have p: "all_plain (map payment_tree (doc_payment_instructions d))"
    "\<And>t. doc_payment_terms d = Some t \<Longrightarrow> all_plain [terms_tree t]"
    "list_all element_tree (map (charge_tree ops ?cur) (doc_allowance_charges d))"
    "all_plain (tax_total_trees ops ?cur taxes (doc_tax_summary d))" "all_plain [total_tree ops ?cur (doc_monetary_total d)]"
    using assms(3) by (simp_all add: settlement_trees_def Let_def charge_elements)
  have calm: "calm s" and type: "us_document_type s = Some (type_of_kind k)" using assms(1) by (simp_all add: ready_def)
  have terms: "trees_run dec [r] s' (opt_tree terms_tree (doc_payment_terms d))
      = Inr (s'\<lparr>us_terms := opt_or (map_option terms_description (doc_payment_terms d)) (us_terms s')\<rparr>)" if "calm s'" for s'
    using run_terms [OF that assms(2)] p(2) by (cases s') (simp add: trees_run_opt opt_or_def split: option.split)
  have charges: "trees_run dec [r] s' (map (charge_tree ops ?cur) (doc_allowance_charges d))
      = Inr (s'\<lparr>us_preserved := us_preserved s' @ map fragment_of (map (charge_tree ops ?cur) (doc_allowance_charges d))\<rparr>)"
    if "ready k s'" for s'
    using that p(3) by (intro run_fragment_list) (auto simp: ready_def calm_def fragments_named)
  let ?p = "s\<lparr>us_payments := us_payments s @ List.map_filter payment_core (doc_payment_instructions d),
      us_dropped := us_dropped s + length (filter (\<lambda>p. payment_core p = None) (doc_payment_instructions d))\<rparr>"
  let ?t = "?p\<lparr>us_terms := opt_or (map_option terms_description (doc_payment_terms d)) (us_terms ?p)\<rparr>"
  let ?c = "?t\<lparr>us_preserved := us_preserved ?t @ map fragment_of (map (charge_tree ops ?cur) (doc_allowance_charges d))\<rparr>"
  let ?x = "?c\<lparr>us_tax_summary := us_tax_summary ?c @ doc_tax_summary d\<rparr>"
  have st: "ready k ?t" "calm ?p" "calm ?c" "calm ?x" "us_total ?x = total_builder_new"
    using calm type assms(5) by (simp_all add: ready_def)
  show ?thesis
    unfolding settlement_trees_def Let_def trees_run_append trees_run.simps rbind_simps run_payments [OF assms(2) calm p(1)]
      terms [OF st(2)] charges [OF st(1)] run_tax_totals [OF st(3) assms(2,4) p(4)]
      run_total [OF st(4) assms(2,4) p(5) st(5)]
    by (simp add: settlement_fill_def)
qed

section \<open>The whole document\<close>

definition core_fragments :: "'d decimal_ops \<Rightarrow> ('d, 'j) commercial_document \<Rightarrow> preserved_xml list" where
  "core_fragments ops d =
     map fragment_of (slot_trees d @ delivery_trees d
       @ map (charge_tree ops (currency_str (doc_currency d))) (doc_allowance_charges d))"

definition read_state :: "ubl_document_kind \<Rightarrow> 'd decimal_ops \<Rightarrow> ('d, 'j) commercial_document \<Rightarrow> string option \<Rightarrow> 'd ubl_state" where
  "read_state k ops d l =
     \<lparr>us_document_type = Some (type_of_kind k), us_document_id = Some (document_id_str (doc_id d)),
      us_document_number = Some (document_number_str (doc_document_number d)),
      us_issue_date = Some (date_str (doc_issue_date d)),
      us_tax_point_date = map_option date_str (doc_tax_point_date d),
      us_due_date = (if doc_document_type d = Invoice then map_option date_str (doc_due_date d) else None),
      us_currency = Some (currency_str (doc_currency d)),
      us_tenant_id = Some (meta_tenant_id (doc_meta d)), us_trace_id = Some (meta_trace_id (doc_meta d)),
      us_source_system = meta_source_system (doc_meta d), us_buyer_reference = None, us_accounting_cost = None,
      us_preserved = map fragment_of default_fragments @ core_fragments ops d, us_capture = None,
      us_extension_uri = None, us_supplier = party_fill (doc_supplier d) party_builder_new,
      us_customer = party_fill (doc_customer d) party_builder_new,
      us_payee = (case doc_payee d of None \<Rightarrow> party_builder_new | Some p \<Rightarrow> party_fill p party_builder_new),
      us_has_payee = (doc_payee d \<noteq> None), us_terms = map_option terms_description (doc_payment_terms d),
      us_payments = List.map_filter payment_core (doc_payment_instructions d), us_payment = None,
      us_dropped = length (filter (\<lambda>p. payment_core p = None) (doc_payment_instructions d)),
      us_lines = map line_core (doc_lines d), us_line = None, us_tax_summary = doc_tax_summary d, us_tax = None,
      us_total = total_fill (doc_monetary_total d), us_notes = doc_notes d, us_note_language = l\<rparr>"

lemma opt_or_None [simp]: "opt_or x None = x"
  by (cases x) (simp_all add: opt_or_def)

lemma run_document:
  assumes "plain_root r" "all_plain (document_trees ops taxes d)" "reads_decimals ops dec"
  shows "\<exists>l. trees_run dec [r] (ubl_state_new\<lparr>us_document_type := Some (type_of_kind k)\<rparr>) (document_trees ops taxes d)
    = Inr (read_state k ops d l)"
proof -
  let ?n = "ubl_state_new\<lparr>us_document_type := Some (type_of_kind k)\<rparr> :: 'a ubl_state"
  have p: "all_plain (header_trees d)" "all_plain (slot_trees d)" "all_plain (document_party_trees d)" "all_plain (delivery_trees d)"
    "all_plain (settlement_trees ops taxes d)"
    "all_plain (map (line_tree ops (doc_document_type d) (currency_str (doc_currency d))) (doc_lines d))"
    using assms(2) by (simp_all add: document_trees_def)
  have new: "ready k ?n" by (simp add: ready_def calm_def ubl_state_new_def)
  obtain l where l: "trees_run dec [r] ?n (header_trees d) = Inr ((header_fill d ?n)\<lparr>us_note_language := l\<rparr>)"
    using run_header [OF new assms(1) p(1)] by blast
  let ?h = "(header_fill d ?n)\<lparr>us_note_language := l\<rparr>"
  have h: "ready k ?h" using new by (simp add: ready_def calm_def header_fill_def type_fill_def meta_fill_def)
  let ?s = "?h\<lparr>us_preserved := us_preserved ?h @ map fragment_of (slot_trees d)\<rparr>"
  have s: "ready k ?s" using h by (simp add: ready_def)
  let ?p = "parties_fill d ?s"
  have pr: "ready k ?p" using s by (simp add: ready_def) (simp add: parties_fill_def)
  let ?d = "?p\<lparr>us_preserved := us_preserved ?p @ map fragment_of (delivery_trees d)\<rparr>"
  have dr: "ready k ?d" using pr by (simp add: ready_def)
  have total: "us_total ?d = total_builder_new"
    by (simp add: parties_fill_def header_fill_def type_fill_def meta_fill_def ubl_state_new_def)
  let ?t = "settlement_fill ops d ?d"
  have tr: "calm ?t" using dr by (simp add: ready_def settlement_fill_def)
  have frs: "trees_run dec [r] s' ts = Inr (s'\<lparr>us_preserved := us_preserved s' @ map fragment_of ts\<rparr>)"
    if "ready k s'" "list_all fragment_named ts" "list_all element_tree ts" for s' :: "'a ubl_state" and ts
    using that by (intro run_fragment_list) (auto simp: ready_def calm_def)
  have parties: "trees_run dec [r] ?s (document_party_trees d) = Inr ?p"
    using s by (intro run_document_parties [OF _ assms(1) p(3)]) (simp add: ready_def)
  have "trees_run dec [r] ?n (document_trees ops taxes d) = Inr (?t\<lparr>us_lines := us_lines ?t @ map line_core (doc_lines d)\<rparr>)"
    unfolding document_trees_def trees_run_append l rbind_simps frs [OF h fragments_named(1) slot_elements [OF p(2)]]
      parties frs [OF pr fragments_named(2) delivery_elements [OF p(4)]]
      run_settlement [OF dr assms(1) p(5) assms(3) total] run_lines [OF assms(1,3) tr p(6)] by (rule HOL.refl)
  moreover have "?t\<lparr>us_lines := us_lines ?t @ map line_core (doc_lines d)\<rparr> = read_state k ops d l"
    by (simp add: settlement_fill_def parties_fill_def header_fill_def type_fill_def meta_fill_def ubl_state_new_def
        read_state_def core_fragments_def split: option.split)
  ultimately show ?thesis by (intro exI [of _ l]) simp
qed

end
