(* ===== verification/Ubl_Finish.thy ===== *)
theory Ubl_Finish
  imports Ubl_Round
begin

text \<open>The document built from the state, and the round trip of a document through its XML.\<close>

section \<open>Texts the reader takes\<close>

lemma xml_name_qname:
  assumes "p \<in> all_prefixes" "ubl_name n"
  shows "xml_name (p @ CHR '':'' # n)" "xml_name (''xmlns:'' @ p)" "decl_key p = ''xmlns:'' @ p" "CHR '':'' \<in> set (decl_key p)"
  using assms by (auto simp: all_prefixes_def xml_name_def ubl_name_def decl_key_def)

lemma xtree_ok_tree_of:
  "utree_ok t \<Longrightarrow> xtree_ok (tree_of D t)"
  "utrees_ok b ts \<Longrightarrow> xtrees_ok b (trees_of D ts)"
proof (induction t and b ts arbitrary: D and D rule: utree_ok_utrees_ok.induct)
  case (1 e as ts)
  then obtain p n where p: "p \<in> all_prefixes" "e = std_elem p n" by auto
  have n: "ubl_name n" and as: "ubl_attrs_ok as" and ts: "utrees_ok False ts" using 1(2) p(2) by simp_all
  have d: "distinct (map fst as)" "list_all (\<lambda>kv. xml_name (fst kv)) as" "decl_key p \<notin> fst ` set as"
    using as xml_name_qname(4) [OF p(1) n]
    by (auto simp: ubl_attrs_ok_def list_all_iff ubl_name_def strict_sorted_iff)
  show ?case
    using d 1(1) [OF ts] n xml_name_qname(2) [OF p(1) n] by (simp add: p(2) std_elem_facts [OF p(1)] xml_name_qname [OF p(1) n])
next
  case (2 v)
  then show ?case by (simp add: bare_text_def)
next
  case (3 b)
  then show ?case by simp
next
  case (4 b t ts)
  then show ?case by (cases t) (simp_all add: utrees_ok.simps)
qed

lemma xtree_ok_documents:
  assumes "(name, ns) \<in> set ubl_roots" "utrees_ok False ts"
  shows "xtree_ok (raw_document name ns ts)" "xtree_ok (canonical_document name ns ts)"
proof -
  have n: "xml_name name" using assms(1) by (auto simp: ubl_roots_def xml_name_def)
  have "list_all (\<lambda>kv. xml_name (fst kv)) (root_declarations ns) \<and> distinct (map fst (root_declarations ns))"
    by (simp add: root_declarations_def std_prefixes_def xml_name_def)
  then show "xtree_ok (raw_document name ns ts)"
    using n xtree_ok_tree_of(2) [OF assms(2)] by (simp add: raw_document_def)
  show "xtree_ok (canonical_document name ns ts)"
    using n xtree_ok_tree_of(2) [OF assms(2)] by (simp add: canonical_document_def xml_name_def)
qed

section \<open>What comes back\<close>

definition party_core :: "party \<Rightarrow> party" where
  "party_core p = p\<lparr>party_tax_ids := map (\<lambda>t. \<lparr>tax_scheme = ''vat'', tax_value = tax_value t\<rparr>) (party_tax_ids p),
     party_contact := contact_given (party_contact p)\<rparr>"

definition fields_extension :: "preserved_xml list \<Rightarrow> serde_value jurisdiction_extension list" where
  "fields_extension ps =
     (if ps = [] then []
      else [\<lparr>ext_urn = ubl_fields_urn,
             ext_payload = JNonNull (SObject [(''top_level'', SArray (map preserved_into_value ps))])\<rparr>])"

definition ubl_core :: "'d decimal_ops \<Rightarrow> ('d, 'j) commercial_document \<Rightarrow> ('d, serde_value) commercial_document" where
  "ubl_core ops d =
     \<lparr>doc_schema_version = V1_0, doc_id = doc_id d, doc_document_type = doc_document_type d,
      doc_issue_date = doc_issue_date d, doc_tax_point_date = doc_tax_point_date d, doc_due_date = doc_due_date d,
      doc_invoice_period = None, doc_delivery_date = None, doc_document_number = doc_document_number d,
      doc_currency = doc_currency d, doc_supplier = party_core (doc_supplier d),
      doc_customer = party_core (doc_customer d), doc_payee = map_option party_core (doc_payee d),
      doc_payment_terms = map_option (\<lambda>t. \<lparr>terms_description = terms_description t, terms_due_date = doc_due_date d\<rparr>)
        (doc_payment_terms d),
      doc_payment_instructions = List.map_filter payment_core (doc_payment_instructions d),
      doc_lines = map line_core (doc_lines d), doc_tax_summary = doc_tax_summary d,
      doc_monetary_total = doc_monetary_total d, doc_attachments = [], doc_references = [],
      doc_notes = doc_notes d, doc_extensions = fields_extension (core_fragments ops d), doc_allowance_charges = [],
      doc_deliver_to = None, doc_meta = doc_meta d\<rparr>"

lemma contact_given_some:
  "contact_given c = Some x \<Longrightarrow> contact_name x \<noteq> None \<or> contact_email x \<noteq> None \<or> contact_phone x \<noteq> None"
  by (auto simp: contact_given_def bind_eq_Some_conv split: if_splits)

lemma party_filled:
  assumes "is_upper_ascii_code (country_str (addr_country (party_address p))) 2" "addr_lines (party_address p) \<noteq> []"
  shows "party_build field (party_fill p party_builder_new) = Inr (party_core p)"
proof -
  obtain i n ts a k where p: "p = \<lparr>party_id = i, party_name = n, party_tax_ids = ts, party_address = a, party_contact = k\<rparr>"
    by (cases p)
  obtain ls c sub z y where a: "a = \<lparr>addr_lines = ls, addr_city = c, addr_subdivision = sub, addr_postal_code = z, addr_country = y\<rparr>"
    by (cases a)
  show ?thesis
  proof (cases "contact_given k")
    case None
    then show ?thesis
      using assms p a
      by (cases sub) (simp_all add: party_build_def party_fill_def address_fill_def party_builder_new_def contact_fill_def
          party_core_def country_new_def)
  next
    case (Some x)
    obtain cn ce cp where x: "x = \<lparr>contact_name = cn, contact_email = ce, contact_phone = cp\<rparr>" by (cases x)
    have "cn \<noteq> None \<or> ce \<noteq> None \<or> cp \<noteq> None" using contact_given_some [OF Some] x by simp
    then show ?thesis
      using assms p a x Some
      by (cases sub; cases cn; cases ce; cases cp)
        (simp_all add: party_build_def party_fill_def address_fill_def party_builder_new_def contact_fill_def
          party_core_def country_new_def)
  qed
qed

definition core_round :: "('d, 'j) commercial_document \<Rightarrow> bool" where
  "core_round d \<longleftrightarrow> document_ok d \<and> addr_lines (party_address (doc_supplier d)) \<noteq> []
     \<and> addr_lines (party_address (doc_customer d)) \<noteq> []
     \<and> opt_ok (\<lambda>p. addr_lines (party_address p) \<noteq> []) (doc_payee d)"

lemma fragment_not_default:
  "fragment_named t \<Longrightarrow> \<not> is_default_profile_fragment (fragment_of t)"
  by (auto simp: fragment_named_def fragment_names_def is_default_profile_fragment_def fragment_of_def cac_def std_elem_facts)

lemma default_fragments_default: "list_all is_default_profile_fragment (map fragment_of default_fragments)"
proof -
  have "ubl_xml_text ''urn:invoicekit:ubl:2.1:core'' = ''urn:invoicekit:ubl:2.1:core''"
    "ubl_xml_text ''urn:invoicekit:profile:core'' = ''urn:invoicekit:profile:core''"
    by code_simp+
  moreover have "elem_qname (std_elem ''cbc'' n) = ''cbc:'' @ n" for n using std_elem_facts(4) [of "''cbc''" n] by simp
  ultimately show ?thesis
    by (simp add: default_fragments_def is_default_profile_fragment_def fragment_of_def write_text_element_def open_tag_def close_tag_def)
      (simp add: cbc_def)
qed

lemma kept_fragments:
  "filter (\<lambda>p. \<not> is_default_profile_fragment p) (map fragment_of default_fragments @ core_fragments ops d) = core_fragments ops d"
proof -
  have "list_all fragment_named (slot_trees d @ delivery_trees d
      @ map (charge_tree ops (currency_str (doc_currency d))) (doc_allowance_charges d))"
    unfolding list_all_append by (intro conjI fragments_named)
  then have "filter (\<lambda>p. \<not> is_default_profile_fragment p) (core_fragments ops d) = core_fragments ops d"
    by (auto simp: core_fragments_def list_all_iff fragment_not_default intro!: filter_True)
  moreover have "filter (\<lambda>p. \<not> is_default_profile_fragment p) (map fragment_of default_fragments) = []"
    using default_fragments_default by (simp add: list_all_iff filter_empty_conv)
  ultimately show ?thesis by simp
qed

lemma fields_extension_ok: "list_all extension_ok (fields_extension ps)"
proof -
  have "trim ubl_fields_urn = ubl_fields_urn" "has_urn_scheme ubl_fields_urn" "4 < length ubl_fields_urn"
    by code_simp+
  then show ?thesis by (simp add: fields_extension_def extension_ok_def)
qed

lemma extensions_read: "ubl_extensions (read_state k ops d l) = Inr (fields_extension (core_fragments ops d))"
proof -
  have "canonicalise_urn ubl_fields_urn = ubl_fields_urn" by code_simp
  moreover have "document_fields (read_state k ops d l)
      = (if core_fragments ops d = [] then [] else [(''top_level'', SArray (map preserved_into_value (core_fragments ops d)))])"
    by (simp add: document_fields_def read_state_def kept_fragments Let_def del: filter_append)
  moreover have "extension_validate x = Inr ()" if "fields_extension (core_fragments ops d) = [x]" for x
    using fields_extension_ok [of "core_fragments ops d"] that by (simp add: extension_validate_ok_iff)
  ultimately show ?thesis
    by (simp add: ubl_extensions_def extension_new_def fields_extension_def Let_def)
qed

lemma party_core_ok: "party_ok p \<Longrightarrow> party_ok (party_core p)"
proof -
  have "\<not> blank ''vat''" by code_simp
  then show "party_ok p \<Longrightarrow> ?thesis" by (auto simp: party_ok_def party_core_def)
qed

lemma core_ok: "document_ok d \<Longrightarrow> document_ok (ubl_core ops d)"
  using fields_extension_ok [of "core_fragments ops d"]
  by (auto simp: document_ok_def ubl_core_def party_core_ok line_ok_def line_core_def opt_ok_def list_all_iff split: option.splits)

lemma date_read: "opt_ok date_ok x \<Longrightarrow> date_opt (map_option date_str x) = Inr x"
  by (cases x) (simp_all add: date_opt_def date_new_def opt_ok_def date_ok_def)

lemma total_filled: "total_build (total_fill t) = Inr t"
  by (simp add: total_build_def total_fill_def)

lemma finish_read:
  assumes "core_round d" "doc_document_type d = type_of_kind k" "doc_document_type d = CreditNote \<longrightarrow> doc_due_date d = None"
  shows "ubl_finish (read_state k ops d l) = Inr (ubl_core ops d)"
proof -
  have ok: "document_ok d" using assms(1) by (simp add: core_round_def)
  have parties: "party_build f (party_fill (doc_supplier d) party_builder_new) = Inr (party_core (doc_supplier d))"
    "party_build f (party_fill (doc_customer d) party_builder_new) = Inr (party_core (doc_customer d))" for f
    using assms(1) by (simp_all add: core_round_def document_ok_def party_ok_def address_ok_def party_filled)
  have payee: "ubl_payee (read_state k ops d l) = Inr (map_option party_core (doc_payee d))"
    using assms(1)
    by (cases "doc_payee d")
      (simp_all add: ubl_payee_def read_state_def core_round_def document_ok_def party_ok_def address_ok_def opt_ok_def party_filled)
  have dates: "date_opt (map_option date_str (doc_due_date d)) = Inr (doc_due_date d)"
    "date_opt (map_option date_str (doc_tax_point_date d)) = Inr (doc_tax_point_date d)"
    "date_new (date_str (doc_issue_date d)) = Inr (doc_issue_date d)"
    using ok by (simp_all add: document_ok_def date_read date_new_def date_ok_def)
  have due: "us_due_date (read_state k ops d l) = map_option date_str (doc_due_date d)"
    using assms(2,3) by (cases k) (simp_all add: read_state_def type_of_kind_def)
  have terms: "ubl_terms (read_state k ops d l) = Inr (map_option (\<lambda>t. \<lparr>terms_description = terms_description t, terms_due_date = doc_due_date d\<rparr>)
        (doc_payment_terms d))"
    using due dates(1) by (cases "doc_payment_terms d") (simp_all add: ubl_terms_def read_state_def)
  have codes: "document_id_new (document_id_str (doc_id d)) = Inr (doc_id d)"
    "document_number_new (document_number_str (doc_document_number d)) = Inr (doc_document_number d)"
    "currency_new (currency_str (doc_currency d)) = Inr (doc_currency d)"
    using ok by (simp_all add: document_ok_def document_id_new_def document_number_new_def currency_new_def non_empty_def
        ir_validate_non_empty_def ensure_def)
  have new: "document_new (ubl_core ops d) = Inr (ubl_core ops d)"
    using document_validates_iff [of "ubl_core ops d" "()"] core_ok [OF ok, of ops] by (simp add: document_new_def)
  have meta: "\<lparr>meta_tenant_id = meta_tenant_id (doc_meta d), meta_trace_id = meta_trace_id (doc_meta d),
      meta_source_system = meta_source_system (doc_meta d)\<rparr> = doc_meta d"
    by (cases "doc_meta d") simp
  show ?thesis
    by (simp add: ubl_finish_def extensions_read terms payee due dates Let_def)
      (simp add: read_state_def codes dates parties total_filled meta assms(2) [symmetric] new [unfolded ubl_core_def] ubl_core_def)
qed

end
