(* ===== verification/Ubl.thy ===== *)
theory Ubl
  imports Ubl_Finish
begin

text \<open>
  The claims about the UBL crate: a document written and read again, what escaped characters do to a name,
  and documents cut off between two lines.
\<close>

section \<open>Round trip\<close>













section \<open>A document\<close>









section \<open>Escaped characters\<close>

lemma text_events_run: "list_all (\<lambda>c. char_ref c = None) v \<Longrightarrow> text_events buf (v @ x) = text_events (buf @ v) x"
  by (induction v arbitrary: buf) simp_all

lemma unescaped_events: "list_all (\<lambda>c. char_ref c = None) v \<Longrightarrow> text_events [] v = flush_text v"
  using text_events_run [of v "[]" "[]"] by simp

definition name_path :: "parsed_element list \<Rightarrow> bool" where
  "name_path st \<longleftrightarrow> path_ends st [''PartyName'', ''Name''] \<or> path_ends st [''PartyLegalEntity'', ''RegistrationName'']"

lemma name_event:
  assumes "calm s" "below_party role st" "name_path st"
  shows "text_event dec st raw s =
    Inr (if trim raw = [] then s else upd_party role (\<lambda>b. b\<lparr>pb_name := Some (trim raw)\<rparr>) s)"
proof -
  obtain e st' where st: "st = e # st'" using assms(2) by (cases st) (simp_all add: below_party_def)
  have e: "pe_name e = ''Name'' \<or> pe_name e = ''RegistrationName''" using assms(3) st by (auto simp: name_path_def)
  have raw: "raw_text st raw s = None" using e st assms(1) by (auto simp: raw_text_def calm_def)
  have name: "party_text st v b = Some (b\<lparr>pb_name := Some v\<rparr>)" for v b
  proof -
    have "\<not> path_ends st [''EndpointID'']" "\<not> path_ends st [''PartyIdentification'', ''ID'']" using e st by auto
    then show ?thesis using assms(3) by (simp add: party_text_def name_path_def)
  qed
  have "\<not> path_ends_ns st [(''UBLExtension'', ns_ext), (''ExtensionURI'', ns_ext)]"
    using e st by (cases st') (auto simp: path_ends_ns_def is_element_def)
  then have "value_text dec st v s = Inr (upd_party role (\<lambda>b. b\<lparr>pb_name := Some v\<rparr>) s)" for v
    using assms(1,2) name
    by (simp add: value_text_def calm_def party_or_later_text_def below_party_def upd_party_def split: prod.splits)
  then show ?thesis using raw assms(1) by (simp add: text_event_def calm_def)
qed

lemma name_flush:
  assumes "calm s" "below_party role st" "name_path st"
  shows "ubl_loop dec frames st s (flush_text v @ es)
    = ubl_loop dec frames st (if trim v = [] then s else upd_party role (\<lambda>b. b\<lparr>pb_name := Some (trim v)\<rparr>) s) es"
proof (cases "v = []")
  case True
  then have "trim v = []" by simp
  with True show ?thesis by (simp add: flush_text_def)
next
  case False
  then show ?thesis by (simp add: flush_text_def name_event [OF assms])
qed

text \<open>C11  In the name of a party, the text before an ampersand is lost: the parser goes on as if the name were the text after
  it (and as the document is well formed otherwise, nothing reports the loss).\<close>

theorem escaped_name_keeps_tail:
  assumes "calm s" "below_party role st" "name_path st"
    "list_all (\<lambda>c. char_ref c = None) v" "list_all (\<lambda>c. char_ref c = None) w" "trim w \<noteq> []"
  shows "ubl_loop dec frames st s (text_events [] (v @ CHR ''&'' # w) @ es)
    = ubl_loop dec frames st (upd_party role (\<lambda>b. b\<lparr>pb_name := Some (trim w)\<rparr>) s) es"
proof -
  let ?name = "\<lambda>x. upd_party role (\<lambda>b. b\<lparr>pb_name := Some x\<rparr>)"
  have events: "text_events [] (v @ CHR ''&'' # w) = flush_text v @ EvGeneralRef (Inr ''amp'') # flush_text w"
    using text_events_run [OF assms(4), of "[]" "CHR ''&'' # w"] by (simp add: char_ref_def unescaped_events [OF assms(5)])
  have amp: "ubl_resolve_reference ''amp'' = Inr ''&''" "trim ''&'' = ''&''"
    by (simp add: ubl_resolve_reference_def) code_simp
  have name: "?name x (?name y s') = ?name x s'" for x y s'
    by (simp add: comp_def)
  have one: "ubl_loop dec frames st s' (EvGeneralRef (Inr ''amp'') # flush_text w @ es) = ubl_loop dec frames st (?name (trim w) s') es"
    if "calm s'" for s'
    using that name_flush [OF _ assms(2,3), of "?name ''&'' s'" dec frames w es] assms(6)
    by (simp add: amp name_event [OF that assms(2,3)] name del: upd_party_simps(7))
  show ?thesis
    using assms(1) by (simp add: events name_flush [OF assms(1-3)] one name del: upd_party_simps(7) ubl_loop.simps)
qed

definition name_stack :: "parsed_element list" where
  "name_stack = [std_elem ''cbc'' ''Name'', std_elem ''cac'' ''PartyName'', std_elem ''cac'' ''Party'',
     std_elem ''cac'' ''AccountingSupplierParty'', root_elem ''Invoice'' ns_invoice]"

theorem escaped_name_keeps_tail_witness:
  "ubl_loop parse_digits [] name_stack ubl_state_new (text_events [] ''A & B'')
     = Inr (ubl_state_new\<lparr>us_supplier := party_builder_new\<lparr>pb_name := Some ''B''\<rparr>\<rparr>)"
proof -
  have "calm ubl_state_new" "below_party RoleSupplier name_stack" "name_path name_stack"
    by (simp_all add: calm_def ubl_state_new_def below_party_def party_role_def name_stack_def name_path_def root_elem_def)
  moreover have "list_all (\<lambda>c. char_ref c = None) ''A ''" "list_all (\<lambda>c. char_ref c = None) '' B''" "trim '' B'' = ''B''"
    by code_simp+
  ultimately show ?thesis
    using escaped_name_keeps_tail [of "ubl_state_new :: nat ubl_state" RoleSupplier name_stack "''A ''" "'' B''" parse_digits "[]" "[]"]
    by (simp add: upd_party_def) (simp add: ubl_state_new_def)
qed

text \<open>A carriage return is written as a numeric reference, which the parser does not resolve.\<close>

lemma carriage_return_refused:
  assumes "calm s" "below_party role st" "name_path st" "list_all (\<lambda>c. char_ref c = None) v"
  shows "ubl_loop dec frames st s (text_events [] (v @ CHR 0x0D # w) @ es) = Inl (UblUnsupportedRoot ''entity:#xD'')"
  using text_events_run [OF assms(4), of "[]" "CHR 0x0D # w"]
  by (simp add: char_ref_def name_flush [OF assms(1-3)] ubl_resolve_reference_def)

section \<open>Documents cut off\<close>





end
