(* ===== verification/Spec2Isabelle.thy ===== *)
theory Spec2Isabelle
  imports Ir_Ledger Worker Webhook Reconcile_Api Redact Tax_Calculation Canonical_Json Canonical_Xml
    Audit_Log Sse_Ack Codelist_Sources En_Totals En_Dates Archive_Files Verify Replay Ubl
begin

text \<open>
  InvoiceKit is a Rust workspace for electronic invoices.  This development covers the part of it that
  decides: the commercial document, the arithmetic on its amounts, its validation against EN 16931, the
  way a document travels to a tax gateway and the news of it back to the customer, the evidence that is
  kept of it, and the access rules and the audit trail of the managed service.

  \<^bold>\<open>How the parts interact.\<close>  A \<open>CommercialDocument\<close> (crate \<open>ir\<close>) is validated field by field; its
  amounts are computed by crate \<open>tax-calculation\<close> on the amounts of crate \<open>money\<close>.  Crate \<open>format-ubl\<close>
  writes it as UBL and reads UBL into it.  Its wire form is
  checked by crate \<open>validate-ubl-cii\<close>, which picks a rule pack (crate \<open>rulepack\<close>), looks codes up in the
  code lists (crate \<open>codelists\<close>) and reports findings in the types of crate \<open>validate\<close>.  Crate \<open>canonical\<close>
  gives JSON and XML the bytes that are hashed and signed.  To submit it, crate \<open>reconcile\<close> computes a
  fingerprint (\<open>lib.rs\<close>), stores an envelope with a retry policy in the outbox (\<open>outbox.rs\<close>) and lets the
  worker of the gateway process it (\<open>worker.rs\<close>), which follows the lifecycle and the country rules of
  \<open>lib.rs\<close>.  What happened is told to the customer by signed webhooks (\<open>webhook.rs\<close>) and by the
  reconciliation endpoint (\<open>reconcile_api.rs\<close>); a document leaves for a support case only through the
  redactor (\<open>redact.rs\<close>).  The artefacts of a submission are packed into a bundle (crate \<open>evidence\<close>), signed
  (\<open>evidence-dsse\<close>, \<open>signer\<close>), time-stamped (\<open>timestamping\<close>), archived (\<open>archive\<close>), verified (\<open>verify\<close>) and
  replayed (\<open>replay\<close>).  Crate \<open>managed-api\<close> decides who may do what, keeps the audit log and streams
  acknowledgements.

  \<^bold>\<open>The theories.\<close>
  \<^item> \<open>Prelude\<close>, \<open>Rust_Str\<close>, \<open>Sequences\<close>, \<open>Rust_Map\<close>: results as sums (\<open>Inl\<close> the error), \<open>first_err\<close> for a chain
    of \<open>?\<close>, saturating and checked machine arithmetic; the string functions the code uses on strings of
    UTF-8 bytes (a \<open>char\<close> of HOL is a byte); lists, stable sorting and encodings that delimit themselves;
    \<open>BTreeMap\<close> as the list of its entries in key order, UTF-8 and integers in a radix.
  \<^item> \<open>Interfaces\<close>: the locales \<open>checked_newtype\<close>, \<open>validated_struct\<close>, \<open>lifecycle\<close>, \<open>backoff\<close>, \<open>once_ledger\<close>
    and \<open>row_lookup\<close>.  Further locales stand with what they serve: \<open>self_delimiting\<close> in \<open>Sequences\<close>,
    \<open>paged_listing\<close> in \<open>Paging\<close>, \<open>archive_backend\<close> and \<open>object_lock_laws\<close> in \<open>Archive\<close>.  Each is interpreted, in
    the theory of the component that provides it, on the model of the code.
  \<^item> \<open>Ir\<close>, \<open>Ir_Ledger\<close> (\<open>crates/ir/src/lib.rs\<close>): one record or datatype per struct and enum of the document,
    its \<open>new\<close> and \<open>validate\<close> methods with their error values in the order the code tests them; the derived
    equality, the lossiness ledger and the comparison that fills it.
  \<^item> \<open>Money\<close> (\<open>crates/money/src/lib.rs\<close>): checked operations and largest-remainder allocation;
    \<open>Tax_Calculation\<close> (\<open>crates/tax-calculation/src/lib.rs\<close>): the four calculations and their traces.
  \<^item> \<open>Canonical_Json\<close>, \<open>Canonical_Xml\<close> (\<open>crates/canonical/src/lib.rs\<close>): the two canonicalisers, over the value
    tree of the JSON parser and the event stream of the XML reader.
  \<^item> \<open>Codelists\<close>, \<open>Codelist_Sources\<close> (\<open>crates/codelists/src\<close>): manifests with their signed payload, the
    registry with effective dates, and the ISO 4217 source.
  \<^item> \<open>Constant_Time\<close>, \<open>Maxima\<close>, \<open>Json_Value\<close>: the comparison without early exit, the last maximum of an
    iterator, and \<open>serde_json::Value\<close>, which several crates share.
  \<^item> \<open>Rulepack\<close> (\<open>crates/rulepack/src\<close>): manifests, selection, and the hot-reloading registry with its watcher.
  \<^item> \<open>Validation_Result\<close> (\<open>crates/validate/src/lib.rs\<close>): findings, citations, explain plans and their Markdown.
  \<^item> \<open>En_Xml\<close>, \<open>En_Select\<close>, \<open>En_Rules_Br\<close>, \<open>En_Rules_Co\<close>, \<open>En16931\<close> (\<open>crates/validate-ubl-cii/src/lib.rs\<close>): the tree
    built from reader events, the selectors, the rules BR-01 to BR-65, BR-CO, BR-AE and BR-CL, and the entry
    points with the rule-pack policy.  \<open>En_Emits\<close>, \<open>En_Amounts\<close>, \<open>En_Sound\<close> hold the lemmas on what a rule emits
    and computes, \<open>En_Sample\<close> a concrete document, \<open>En_Report\<close>, \<open>En_Totals\<close>, \<open>En_Dates\<close> the properties.
  \<^item> \<open>Ubl_Mapping\<close> (\<open>crates/format-ubl/src/mapping.rs\<close>): what becomes of each top-level element; \<open>Ubl_Parse\<close>,
    \<open>Ubl_Machine\<close>, \<open>Ubl_Write\<close> (\<open>crates/format-ubl/src/lib.rs\<close>): names, namespaces, captures and builders; the
    state of the parser (\<open>ParseState\<close>) with its handlers for start, end and text, the loop over the events and
    the document built at the end; the serializer, the check of replayed fragments, \<open>to_xml\<close> and \<open>from_xml\<close>.
    The proofs: \<open>Xml_Tree\<close> (trees, their text, their events and a reader that satisfies the contract
    \<open>reads_trees\<close>), \<open>Ubl_Tree\<close> (the parser over a tree agrees with its loop), \<open>Ubl_Canonical\<close> (the canonical
    form of a UBL tree), \<open>Ubl_Doc\<close> (the tree of a document and that the serializer writes it), \<open>Ubl_Run\<close> to
    \<open>Ubl_Round\<close> (the parser over each part of that tree: parties, header, fragments, settlement, lines),
    \<open>Ubl_Finish\<close> (the document built from the final state) and \<open>Ubl\<close> (the properties).
  \<^item> \<open>Transmission\<close>, \<open>Gateway\<close> (\<open>crates/reconcile/src/lib.rs\<close>): identifiers, the base states and their legal
    moves, country sub-states, the rule registry and the state machine; requests, receipts, gateway errors
    and the fingerprint.
  \<^item> \<open>Outbox\<close> (\<open>outbox.rs\<close>): migrations, outbox states, retry policy with delays on 64-bit words,
    envelope, failed attempts and dead letters.
  \<^item> \<open>Worker\<close> (\<open>worker.rs\<close>): configuration, the worker's state (failure counter, open circuit, last
    attempt) and \<open>process_once\<close> / \<open>process_batch\<close>, with every early return.
  \<^item> \<open>Webhook\<close> (\<open>webhook.rs\<close>): signature header, verification against the ledger of event ids, delivery loop;
    \<open>Reconcile_Api\<close> (\<open>reconcile_api.rs\<close>): input checks, one look-up for the distinct fingerprints, fan-out;
    \<open>Redact\<close> (\<open>redact.rs\<close>): the redactor and its report.
  \<^item> \<open>Managed_Access\<close>, \<open>Paging\<close>, \<open>Audit_Log\<close>, \<open>Sse_Ack\<close> (\<open>crates/managed-api/src\<close>): tenants, keys, roles and
    OpenID claims; cursors over a growing listing; the audit store with queries and signed exports; the
    acknowledgement stream with replay after a reconnect.
  \<^item> \<open>Evidence\<close> (\<open>crates/evidence/src/lib.rs\<close>): manifests, the check of a bundle, \<open>pack\<close> and \<open>unpack\<close> with every
    error; \<open>Archive\<close>, \<open>Archive_Files\<close> (\<open>crates/archive/src/lib.rs\<close>): the contract of an archive and its
    backends, the directory of files call by call over names and inodes, with faults and concurrent writers.
  \<^item> \<open>Signer\<close>, \<open>Dsse\<close>, \<open>Verify\<close> (\<open>crates/signer\<close>, \<open>crates/evidence-dsse\<close>, \<open>crates/timestamping\<close>,
    \<open>crates/verify\<close>): signers and base64, the signed envelope, time stamps and the report with its four checks;
    \<open>Replay\<close> (\<open>crates/replay/src/lib.rs\<close>): the comparison of replayed with recorded artefacts.
  \<^item> this theory: properties that span the worker and the outbox, the two ends of a webhook, and the
    outbox and the reconciliation endpoint.

  \<^bold>\<open>Parameters.\<close>  Code outside the repository is an argument of the definitions that use it: hashes and
  MACs (BLAKE3, SHA-256, HMAC-SHA256, keyed BLAKE3), the operations of \<open>rust_decimal\<close> (\<open>decimal_ops\<close>,
  \<open>amount_ops\<close>), the parsers of JSON and XML, which hand over a tree or a stream of events, the printing of
  floats (\<open>float_ops\<close>), the JSON encoders of structs, tar, zstd and base64 (\<open>bundle_ops\<close>, \<open>dsse_ops\<close>), the
  embedded manifests and rule packs (\<open>rulepack_ops\<close>), the gateway adapter, webhook transport, clock and
  sleeper, object stores, the signing daemon, a replayed engine.  Effects of these are a world \<open>'w\<close> passed
  from call to call, so that an adapter may answer each call differently; the file system of the archive is
  a model of its own, in which every call may fail.  The properties assume of parameters only what is
  documented: 32-byte digests, an injective encoding, \<open>decimal_laws\<close> and \<open>amount_laws\<close> for decimal
  operations, decoders that give back what was encoded; each such assumption has a concrete instance in a
  witness.  Collisions of hashes are not assumed away where they matter: they are a case of the conclusion.

  \<^bold>\<open>What the lemmas show.\<close>  For the document: the exact set of documents \<open>validate\<close> accepts, the
  calendar, and a ledger that names every difference.  For validation: no panic on any document, reports
  that are well typed and honour the rule pack, totals that add up when no rule complains, the depth of
  trees, and plans that account for every finding.  For canonical forms: JSON texts that are
  equal exactly for equal values, and XML bytes that do not depend on what is insignificant.  For code lists and rule packs: payloads that identify manifests, look-ups that answer from
  the latest, a registry that only ever serves verified packs.  For the state machine: an invariant of all
  reachable machines, atomic refusal, and that every machine can reach the archive.  For the outbox and
  the worker: delay bounds without wrap-around, the exact attempt budget, spacing of requests under any
  clock, a circuit breaker that counts exactly, and what each answer says about the job.  For webhooks:
  the round trip, an exact characterisation of acceptance, one acceptance per id, bounded delivery.  For
  the endpoint: a partition of the ids by the row of the tenant.  For the redactor: non-interference and
  an exact report.  For money: no lost unit and a fair split; for the calculations: traces that replay.
  For the managed service: pages that enumerate, isolation of tenants, streams without gaps, exports that
  verify.  For evidence: bundles that round-trip, an \<open>unpack\<close> that is safe on any bytes, manifests that bind
  artefacts, envelopes that authenticate them, whatever the signer accepts, archives that keep what they acknowledged and never show a
  half-written entry of different bundles, and exact reports of verification and replay.  For UBL: what of a
  document comes back through its XML, and what the parser does to escaped names and documents cut off.

  \<^bold>\<open>Bounds and loops.\<close>  Words have the width of the source (\<open>u8\<close> to \<open>u64\<close>); lengths are \<open>nat\<close>, since a
  \<open>Vec\<close> cannot exceed the address space, and \<open>u128\<close> products are \<open>nat\<close> with the overflow check of
  \<open>checked_mul\<close> written out.  \<open>i64\<close> time stamps are \<open>int\<close> with the range as a predicate.  No model of code
  uses fuel (a client that follows pages has a number of requests, and \<open>None\<close> says it was too small): the delivery loop ends by a measure (the attempts left), a file writer by the calls it has
  left, trimming by the length of the text, every other loop is structural.  The validator is total on
  documents of at most 10^12 events, which bounds every sum of amounts (each below 10^16) inside the range of
  a decimal; the exact totals are stated for amounts on which the operations are exact, up to 10^9 nodes.

  \<^bold>\<open>Not modelled.\<close>  Serialisation by serde, the SQL files of the migrations (the text of a dialect is an
  argument), builders that only fill a field, the schema harness of \<open>format-ubl\<close>, the wire formats \<open>format-cii\<close> and
  \<open>format-gobl\<close>, signing devices, rendering, reading of PDFs, the national
  adapters, durability of files after a power failure, the HTTP services and the bindings.

  \<^bold>\<open>Plan.\<close>  Next: the check digits and lifecycles of the national adapters (\<open>report-*\<close>), the mock
  gateway (\<open>transmit-mock\<close>), metrics and log redaction (\<open>managed-api/src/observability.rs\<close>), format
  detection and document migration.
\<close>

section \<open>A job from the outbox to its end\<close>

text \<open>
  The life of one outbox row: each time it is due, the worker processes the job with the envelope
  the last answer gave back.  When the worker returns an error the row stays as it was, since no
  envelope came back.
\<close>

fun requeued :: "('d, 'j) transmission_job \<Rightarrow> reconcile_error + ('d, 'j) worker_result
    \<Rightarrow> ('d, 'j) transmission_job" where
  "requeued job (Inl _) = job"
| "requeued job (Inr (Submitted e _ _)) = job\<lparr>job_envelope := e\<rparr>"
| "requeued job (Inr (RetryScheduled e _ _ _ _)) = job\<lparr>job_envelope := e\<rparr>"
| "requeued job (Inr (DeadLettered e _ _ _ _)) = job\<lparr>job_envelope := e\<rparr>"
| "requeued job (Inr (Throttled job' _ _)) = job'"
| "requeued job (Inr (CircuitOpen job' _ _)) = job'"

fun drive :: "(char list \<Rightarrow> u64) \<Rightarrow> ('d, 'j, 'w) adapter \<Rightarrow> transmission_worker
    \<Rightarrow> 'w \<times> ('d, 'j) exchange list \<Rightarrow> ('d, 'j) transmission_job \<Rightarrow> u64 list
    \<Rightarrow> ('d, 'j) transmission_job \<times> ('d, 'j) exchange list" where
  "drive hash8 ad w s job [] = (job, snd s)"
| "drive hash8 ad w s job (now # instants) =
     (case process_once hash8 (observing now ad) w s now job of
        (r, w', s') \<Rightarrow> drive hash8 ad w' s' (requeued job r) instants)"

definition usable_message :: "gateway_error \<Rightarrow> bool" where
  "usable_message err \<longleftrightarrow> \<not> blank (ge_message err) \<and> \<not> has_control (ge_message err)"

definition usable_answers :: "('d, 'j, 'w) adapter \<Rightarrow> bool" where
  "usable_answers ad \<longleftrightarrow>
     (\<forall>s req. case fst (ad s req) of Inl err \<Rightarrow> usable_message err | Inr _ \<Rightarrow> True)"

text \<open>The row and the number of requests made for it.\<close>

definition row_inv :: "('d, 'j) transmission_job \<Rightarrow> nat \<Rightarrow> bool" where
  "row_inv job n \<longleftrightarrow> identifier_ok (env_outbox_id (job_envelope job)) \<and>
     (if env_state (job_envelope job) = OReserved
      then n = unat (env_attempt_count (job_envelope job))
        \<and> n < unat (rp_max_attempts (env_retry_policy (job_envelope job)))
      else n \<le> unat (rp_max_attempts (env_retry_policy (job_envelope job))))"

lemma failure_row:
  fixes job :: "('d, 'j) transmission_job"
  assumes "row_inv job n" "env_state (job_envelope job) = OReserved" "usable_message err"
    and "handle_gateway_error hash8 w (job_envelope job) err now = (r, w')"
  shows "row_inv (requeued job r) (Suc n)
    \<and> env_retry_policy (job_envelope (requeued job r)) = env_retry_policy (job_envelope job)"
proof -
  let ?e = "job_envelope job"
  have id: "identifier_ok (env_outbox_id ?e)" and n: "n = unat (env_attempt_count ?e)"
    "n < unat (rp_max_attempts (env_retry_policy ?e))"
    using assms(1,2) by (simp_all add: row_inv_def)
  have "\<not> (\<exists>x. fst (handle_gateway_error hash8 w ?e err now) = (Inl x :: _ + ('d, 'j) worker_result))"
    using gateway_failure_lost [OF id, of hash8 w err now] assms(3) by (auto simp: usable_message_def)
  then obtain x where r: "r = Inr x" using assms(4) by (cases r) auto
  with handle_gateway_error_result [of hash8 w ?e err now x w'] assms(4)
  have fr: "failure_result w ?e err x" by simp
  show ?thesis
  proof (cases x)
    case (RetryScheduled e err' d opn l)
    with fr have e: "e = ?e\<lparr>env_attempt_count := env_attempt_count ?e + 1\<rparr>"
      "env_attempt_count e < rp_max_attempts (env_retry_policy e)"
      by (auto simp: failure_result_def)
    have "unat (env_attempt_count ?e + 1) = Suc n"
      using n unat_lt_pow [of "rp_max_attempts (env_retry_policy ?e)"] by (simp add: unat_add_fits)
    with e r RetryScheduled id assms(2) show ?thesis
      by (simp add: row_inv_def word_less_nat_alt)
  next
    case (DeadLettered e dl err' opn l)
    with fr obtain k where "e = ?e\<lparr>env_state := ODeadLetter, env_attempt_count := k\<rparr>"
      by (auto simp: failure_result_def)
    with r DeadLettered id n show ?thesis by (simp add: row_inv_def)
  qed (use fr in \<open>simp_all add: failure_result_def\<close>)
qed

lemma drive_row:
  assumes "usable_answers ad" "row_inv job (length (snd s))"
  shows "row_inv (fst (drive hash8 ad w s job instants)) (length (snd (drive hash8 ad w s job instants)))
    \<and> env_retry_policy (job_envelope (fst (drive hash8 ad w s job instants)))
      = env_retry_policy (job_envelope job)"
  using assms(2)
proof (induction instants arbitrary: w s job)
  case (Cons now instants)
  obtain r w' s' where st: "process_once hash8 (observing now ad) w s now job = (r, w', s')"
    by (metis surj_pair)
  have "row_inv (requeued job r) (length (snd s'))
      \<and> env_retry_policy (job_envelope (requeued job r)) = env_retry_policy (job_envelope job)"
  proof (cases rule: process_once_cases [of job hash8 "observing now ad" w s now])
    case (accepted req receipt s1)
    then have "env_state ((job_envelope job)\<lparr>env_state := outbox_state_for_receipt (rcpt_status receipt)\<rparr>)
        \<noteq> OReserved"
      by (cases "rcpt_status receipt") simp_all
    with accepted st Cons.prems show ?thesis
      by (auto simp: Let_def observing_Pair row_inv_def)
  next
    case (failed req err s1 r1 w1)
    then have "usable_message err"
      using assms(1) unfolding usable_answers_def observing_Pair by (metis fst_conv sum.case(1))
    from failure_row [OF Cons.prems failed(1) this failed(6)] failed st show ?thesis
      by (auto simp: observing_Pair)
  qed (use st Cons.prems in auto)
  with Cons.IH [of "requeued job r" s' w'] st show ?case by simp
qed simp

text \<open>C1  Bounded submission.  However often and whenever the worker is given a row of an accepted
  policy, and whatever the gateway answers as long as its messages can be stored (they are not blank and have no
  control characters), the gateway gets at most \<open>max_attempts\<close> requests for it; as long as the row is still ready,
  the counter in its envelope is exactly the number of requests made.\<close>

theorem submissions_are_bounded:
  assumes "retry_policy_new max_attempts base_delay max_delay jitter = Inr p"
    and "outbox_envelope_new outbox_id context fingerprint_bytes payload p = Inr e"
    and "usable_answers ad"
  shows "case drive hash8 ad w (world, [])
           \<lparr>job_envelope = e, job_route = route, job_document = doc\<rparr> instants of
      (job, sent) \<Rightarrow> length sent \<le> unat max_attempts
        \<and> (if env_state (job_envelope job) = OReserved
           then unat (env_attempt_count (job_envelope job)) = length sent else True)"
proof -
  have e: "env_state e = OReserved" "env_attempt_count e = 0" "env_retry_policy e = p"
    "identifier_ok (env_outbox_id e)"
    using assms(2) by (auto simp: outbox_envelope_new_def rbind_Inr_iff first_err_ok_iff
        validate_identifier_iff)
  have p: "rp_max_attempts p = max_attempts" "0 < unat max_attempts"
    using assms(1) by (auto simp: retry_policy_new_Inr_iff unat_eq_zero zero_less_iff_neq_zero)
  let ?job = "\<lparr>job_envelope = e, job_route = route, job_document = doc\<rparr>"
  obtain job sent where d: "drive hash8 ad w (world, []) ?job instants = (job, sent)" by fastforce
  have "row_inv ?job (length (snd (world, [])))" by (simp add: row_inv_def e p)
  from drive_row [OF assms(3) this, of hash8 w instants]
  have "row_inv job (length sent)" "env_retry_policy (job_envelope job) = p"
    by (simp_all add: d e)
  then show ?thesis by (auto simp: d row_inv_def p(1) split: if_splits)
qed

text \<open>The states the worker writes fit the transmission lifecycle: the outbox state for a receipt is
  that of a base state the lifecycle reaches from \<open>reserved\<close> in one or more transitions.\<close>

theorem receipt_state_reachable:
  "\<exists>b. can_transition_to\<^sup>+\<^sup>+ Reserved b
     \<and> from_transmission_base b = outbox_state_for_receipt status"
proof -
  have sent: "can_transition_to\<^sup>+\<^sup>+ Reserved Sent" by (rule tranclp.r_into_trancl) simp
  have "can_transition_to\<^sup>+\<^sup>+ Reserved Delivered" "can_transition_to\<^sup>+\<^sup>+ Reserved Rejected"
    by (rule tranclp.trancl_into_trancl [OF sent], simp)+
  with sent show ?thesis
    by (cases status) (auto intro: exI [of _ Sent] exI [of _ Delivered] exI [of _ Rejected])
qed

section \<open>Webhooks end to end\<close>

definition arrives :: "webhook_envelope \<Rightarrow> int \<Rightarrow> webhook_headers \<times> string \<times> int" where
  "arrives e now = (we_headers e, we_body e, now)"

lemma verify_all_signed:
  assumes hmac: "\<And>m. length (hmac secret m) = 32" and id: "ev_event_id event \<noteq> []"
    and "list_all (\<lambda>(ts, now). i64_range ts \<and> \<bar>now - ts\<bar> \<le> 300) stamps"
  shows "fst (verify_all hmac secret seen
           (map (\<lambda>(ts, now). arrives (webhook_sign hmac secret event ts) now) stamps))
       = map (\<lambda>i. if i = 0 \<and> ev_event_id event \<notin> seen then Inr ()
                  else Inl (DuplicateEvent (ev_event_id event))) [0 ..< length stamps]"
  using assms(3)
proof (induction stamps arbitrary: seen)
  case (Cons st stamps)
  obtain ts now where st: "st = (ts, now)" by (cases st)
  let ?e = "webhook_sign hmac secret event ts"
  let ?seen = "insert (ev_event_id event) seen"
  have v: "webhook_verify hmac secret seen (we_headers ?e) (we_body ?e) now =
      (if ev_event_id event \<in> seen then Inl (DuplicateEvent (ev_event_id event)) else Inr (), ?seen)"
  proof (cases "ev_event_id event \<in> seen")
    case True
    with webhook_verify_signed [of hmac secret ts now event seen, OF hmac _ _ id] Cons.prems st show ?thesis
      by (simp add: insert_absorb)
  next
    case False
    with webhook_verify_signed [of hmac secret ts now event seen, OF hmac _ _ id] Cons.prems st show ?thesis by simp
  qed
  have "fst (verify_all hmac secret ?seen
           (map (\<lambda>(ts, now). arrives (webhook_sign hmac secret event ts) now) stamps))
      = map (\<lambda>i. Inl (DuplicateEvent (ev_event_id event))) [0 ..< length stamps]"
    using Cons.IH [of ?seen] Cons.prems by simp
  then show ?case
    using v st by (simp add: arrives_def Let_def split_def map_upt_Suc del: upt_Suc)
qed simp

text \<open>C2  At-least-once delivery and the ledger give exactly-once processing: of all the attempts of one
  delivery that reach a receiver with the same secret within the window, in any number, the first is
  accepted and every other is reported as a duplicate of the event.\<close>

theorem delivery_processed_once:
  assumes "\<And>m. length (hmac secret m) = 32" and "ev_event_id event \<noteq> []"
    and "ev_event_id event \<notin> seen"
    and "webhook_deliver hmac secret p event (obs_transport transport) (obs_clock clock)
           (obs_sleeper sleeper) (w, [], []) = (out, (w', sent, slept))"
    and "length nows = length sent"
    and "list_all (\<lambda>((e, _), now). i64_range (we_timestamp e) \<and> \<bar>now - we_timestamp e\<bar> \<le> 300)
           (zip sent nows)"
  shows "fst (verify_all hmac secret seen (map (\<lambda>((e, _), now). arrives e now) (zip sent nows)))
       = Inr () # replicate (length sent - 1) (Inl (DuplicateEvent (ev_event_id event)))"
proof -
  have signed: "list_all (\<lambda>(e, _). \<exists>ts. e = webhook_sign hmac secret event ts) sent" "sent \<noteq> []"
    using delivery_is_bounded_raw [where hmac = hmac and secret = secret and p = p and event = event
        and transport = transport and clock = clock and sleeper = sleeper and w = w] assms(4)
    by simp_all
  have we: "e = webhook_sign hmac secret event (we_timestamp e)" if m: "(e, r) \<in> set sent" for e r
  proof -
    obtain ts where "e = webhook_sign hmac secret event ts" using signed(1) m by (auto simp: list_all_iff)
    then show ?thesis by (simp add: webhook_sign_def Let_def)
  qed
  let ?stamps = "map (\<lambda>((e, _), now). (we_timestamp e, now)) (zip sent nows)"
  have eq: "map (\<lambda>((e, _), now). arrives e now) (zip sent nows) =
      map (\<lambda>(ts, now). arrives (webhook_sign hmac secret event ts) now) ?stamps"
    using we by (auto dest!: set_zip_leftD)
  have ok: "list_all (\<lambda>(ts, now). i64_range ts \<and> \<bar>now - ts\<bar> \<le> 300) ?stamps"
    using assms(6) by (auto simp: list_all_iff)
  have len: "length ?stamps = length sent" using assms(5) by simp
  have "fst (verify_all hmac secret seen (map (\<lambda>((e, _), now). arrives e now) (zip sent nows)))
      = map (\<lambda>i. if i = 0 then Inr () else Inl (DuplicateEvent (ev_event_id event))) [0 ..< length sent]"
    unfolding eq verify_all_signed [of hmac secret event ?stamps seen, OF assms(1,2) ok] len
    using assms(3) by simp
  also have "\<dots> = Inr () # map (\<lambda>_. Inl (DuplicateEvent (ev_event_id event))) [1 ..< length sent]"
    using signed(2) by (simp add: upt_conv_Cons)
  finally show ?thesis by (simp only: map_replicate_const length_upt)
qed

section \<open>Fingerprints and the reconciliation endpoint\<close>

lemma mem_row_writes:
  "list_all (\<lambda>(t, f, _). \<not> (t = tenant \<and> f = fp)) later \<Longrightarrow>
     mem_row (fold (\<lambda>(t, f, b) rows. outbox_upsert rows t f b) later rows) tenant fp = mem_row rows tenant fp"
  by (induction later arbitrary: rows) (auto simp: mem_row_upsert)

text \<open>C29  The fingerprint stored with a row is one the endpoint accepts, whatever the 32 bytes of the
  digest.  A customer who asks for it in a batch, under an internal id that no entry before it in the batch has, finds
  the id in the list of the bucket last written for the row and in no other, whatever is written for other rows
  afterwards.\<close>

theorem stored_fingerprint_reconciles:
  assumes "outbox_envelope_new outbox_id context digest payload policy = Inr e" "length digest = 32"
    "tenant = tenant_str (ctx_tenant_id context)"
    "list_all (\<lambda>(t, fp, _). \<not> (t = tenant \<and> fp = env_fingerprint_hex e)) later"
    "length before + length after < 10000" "1 \<le> length iid" "length iid \<le> 256"
    "list_all (\<lambda>x. 1 \<le> length (re_internal_id x) \<and> length (re_internal_id x) \<le> 256
       \<and> length (re_fingerprint x) = 64 \<and> list_all is_hex (re_fingerprint x)) (before @ after)"
    "iid \<notin> re_internal_id ` set before"
  shows "\<exists>r. handle_reconcile_request
           (mem_buckets_for (fold (\<lambda>(t, f, b) rows. outbox_upsert rows t f b) later
              (outbox_upsert rows tenant (env_fingerprint_hex e) bucket)))
           \<lparr>rq_tenant_id = tenant,
            rq_entries = before @ \<lparr>re_internal_id = iid, re_fingerprint = env_fingerprint_hex e\<rparr> # after\<rparr> = Inr r
         \<and> (iid \<in> set (rs_delivered r) \<longleftrightarrow> bucket = BDelivered) \<and> (iid \<in> set (rs_failed r) \<longleftrightarrow> bucket = BFailed)
         \<and> (iid \<in> set (rs_pending r) \<longleftrightarrow> bucket = BPending) \<and> iid \<notin> set (rs_unknown r)"
proof -
  let ?fp = "env_fingerprint_hex e"
  let ?rows = "fold (\<lambda>(t, f, b) rows. outbox_upsert rows t f b) later (outbox_upsert rows tenant ?fp bucket)"
  let ?x = "\<lparr>re_internal_id = iid, re_fingerprint = ?fp\<rparr>"
  have "?fp = hex_lower digest"
    using assms(1) by (auto simp: outbox_envelope_new_def rbind_Inr_iff)
  then have "is_ok (handle_reconcile_request (mem_buckets_for ?rows)
      \<lparr>rq_tenant_id = tenant, rq_entries = before @ ?x # after\<rparr>)"
    using assms(2,5-8) hex_lower_is_hex [of digest] unfolding reconcile_accepts_iff by (simp add: list_all_iff)
  then obtain r where r: "handle_reconcile_request (mem_buckets_for ?rows)
      \<lparr>rq_tenant_id = tenant, rq_entries = before @ ?x # after\<rparr> = Inr r"
    unfolding is_ok_iff by blast
  have "mem_row ?rows tenant ?fp = Some bucket"
    using assms(4) by (simp add: mem_row_writes mem_row_upsert)
  with r reconcile_bucket_is_row [OF r HOL.refl] assms(9) show ?thesis by auto
qed

section \<open>Concrete runs\<close>

definition flaky_adapter :: "(nat, unit, nat) adapter" where
  "flaky_adapter n req = (Inl (sample_error Timeout ''slow''), Suc n)"

theorem submissions_are_bounded_witness:
  "length (snd (drive (\<lambda>_. 7) flaky_adapter (worker_new sample_config) (0, []) sample_job
     [0, 100, 200, 300, 400])) \<le> 3"
proof -
  have "usable_message (sample_error Timeout ''slow'')" by code_simp
  then have "usable_answers flaky_adapter" by (simp add: usable_answers_def flaky_adapter_def)
  then have "case drive (\<lambda>_. 7) flaky_adapter (worker_new sample_config) (0, []) sample_job
      [0, 100, 200, 300, 400] of (job, sent) \<Rightarrow> length sent \<le> unat (3 :: u16)
        \<and> (if env_state (job_envelope job) = OReserved
           then unat (env_attempt_count (job_envelope job)) = length sent else True)"
    unfolding sample_job_def
    by (rule submissions_are_bounded [OF sample_policy_ok sample_envelope_ok])
  then show ?thesis by (auto simp del: drive.simps split: prod.splits)
qed

theorem stored_fingerprint_reconciles_witness:
  "\<exists>r. handle_reconcile_request
       (mem_buckets_for (outbox_upsert (outbox_upsert [] ''tenant'' (sample_fp 7) BFailed) ''other'' (sample_fp 7) BDelivered))
     \<lparr>rq_tenant_id = ''tenant'',
      rq_entries = [\<lparr>re_internal_id = ''INV-0'', re_fingerprint = sample_fp 1\<rparr>,
        \<lparr>re_internal_id = ''INV-1'', re_fingerprint = sample_fp 7\<rparr>]\<rparr> = Inr r
     \<and> ''INV-1'' \<in> set (rs_failed r) \<and> ''INV-1'' \<notin> set (rs_delivered r @ rs_pending r @ rs_unknown r)"
proof -
  obtain e where e: "outbox_envelope_new ''out_1'' sample_context (replicate 32 7) ''{}'' sample_policy = Inr e"
    "env_fingerprint_hex e = sample_fp 7"
    using sample_envelope_ok by (auto simp: outbox_envelope_new_def rbind_Inr_iff sample_fp_def)
  let ?before = "[\<lparr>re_internal_id = ''INV-0'', re_fingerprint = sample_fp 1\<rparr>]"
  have "list_all (\<lambda>x. 1 \<le> length (re_internal_id x) \<and> length (re_internal_id x) \<le> 256
       \<and> length (re_fingerprint x) = 64 \<and> list_all is_hex (re_fingerprint x)) (?before @ [])"
    using hex_lower_is_hex [of "replicate 32 1"] by (simp add: sample_fp_def list_all_iff)
  from stored_fingerprint_reconciles [OF e(1) _ _ _ _ _ _ this, of "''tenant''" "[(''other'', sample_fp 7, BDelivered)]" "''INV-1''" "[]" BFailed] e(2)
  show ?thesis by (auto simp: sample_context_def)
qed

theorem delivery_processed_once_witness:
  "\<exists>sent :: (webhook_envelope \<times> dispatch_result) list. length sent = 2 \<and>
     fst (verify_all zero_hmac [1] {} (map (\<lambda>((e, _), now). arrives e now) (zip sent [0, 7])))
     = Inr () # replicate 1 (Inl (DuplicateEvent ''evt-1''))"
proof -
  let ?p = "stripe_default\<lparr>wp_max_attempts := 2\<rparr>"
  let ?e = "webhook_sign zero_hmac [1] sample_event 0"
  have "\<not> (2 :: u32) \<le> 1" by (simp add: word_le_nat_alt)
  then obtain out slept where d: "webhook_deliver zero_hmac [1] ?p sample_event
      (obs_transport (\<lambda>w _. (TransientFailure, w))) (obs_clock (\<lambda>w. (0, w))) (obs_sleeper (\<lambda>w _. w))
      ((), [], []) = (out, ((), [(?e, TransientFailure), (?e, TransientFailure)], slept))"
    by (simp add: webhook_deliver_def deliver_loop.simps obs_transport_def obs_clock_def obs_sleeper_def
        sat_add_def stripe_default_def Let_def)
  have ts: "we_timestamp ?e = 0" by (simp add: webhook_sign_def Let_def)
  have hmac: "length (zero_hmac [1] m) = 32" for m by (simp add: zero_hmac_def)
  have id: "ev_event_id sample_event \<noteq> []" "ev_event_id sample_event \<notin> {}"
    by (simp_all add: sample_event_def)
  let ?sent = "[(?e, TransientFailure), (?e, TransientFailure)]"
  have len: "length [0, 7 :: int] = length ?sent" by simp
  have stamps: "list_all (\<lambda>((e, _), now). i64_range (we_timestamp e) \<and> \<bar>now - we_timestamp e\<bar> \<le> 300)
      (zip ?sent [0, 7])"
    by (simp add: ts i64_range_def)
  have "fst (verify_all zero_hmac [1] {} (map (\<lambda>((e, _), now). arrives e now) (zip ?sent [0, 7])))
      = Inr () # replicate (length ?sent - 1) (Inl (DuplicateEvent (ev_event_id sample_event)))"
    by (rule delivery_processed_once [OF hmac id d len stamps])
  then have once: "fst (verify_all zero_hmac [1] {} (map (\<lambda>((e, _), now). arrives e now) (zip ?sent [0, 7])))
      = Inr () # replicate 1 (Inl (DuplicateEvent ''evt-1''))"
    by (simp only: list.size sample_event_def webhook_event.simps) simp
  show ?thesis
  proof (rule exI [of _ ?sent], rule conjI)
    show "length ?sent = 2" by simp
    show "fst (verify_all zero_hmac [1] {} (map (\<lambda>((e, _), now). arrives e now) (zip ?sent [0, 7])))
        = Inr () # replicate 1 (Inl (DuplicateEvent ''evt-1''))" by (rule once)
  qed
qed

end
